(* ===== verification/Sig_Prelude.thy ===== *)
theory Sig_Prelude
  imports Main "HOL-Library.Word" "HOL-Library.AList"
begin

text \<open>
  Shared vocabulary of the development: the error values the Go code returns, the
  state-and-error operations that model functions with side effects, association lists
  that model Go maps together with the rule for a \<open>range\<close> loop whose body touches
  only its own key, and the lemma collections the component theories extend.
\<close>

section \<open>Lemma collections\<close>

named_theorems op_simps \<open>unfolding rules of the state-and-error combinators\<close>

named_theorems op_keeps \<open>introduction rules for predicates every operation keeps\<close>

section \<open>Error values\<close>

text \<open>
  A Go error is a message, possibly wrapping another error (\<open>fmt.Errorf\<close> with
  \<open>%w\<close>), or one of the typed errors the program inspects with \<open>errors.Is\<close> and
  \<open>errors.As\<close>; a network error says whether it is a timeout and which error numbers its
  chain holds. The fixed text of a message identifies the branch that raised it; the
  interpolated arguments are left out.
\<close>

datatype error =
    Msg string
  | Wrap string error
  | DurabilityError string
  | ErrStateFileMissing
  | ErrLiveUnverifiable error
  | BackupConflictError string "16 word"
  | ErrSourceTooLarge
  | NetError bool "string list"

text \<open>\<open>fsutil.IsCommitted\<close>: a \<open>DurabilityError\<close> anywhere in the chain.\<close>

fun IsCommitted :: "error \<Rightarrow> bool" where
  "IsCommitted (DurabilityError p) = True"
| "IsCommitted (Wrap s e) = IsCommitted e"
| "IsCommitted (ErrLiveUnverifiable e) = IsCommitted e"
| "IsCommitted _ = False"

fun is_live_unverifiable :: "error \<Rightarrow> bool" where
  "is_live_unverifiable (ErrLiveUnverifiable e) = True"
| "is_live_unverifiable (Wrap s e) = is_live_unverifiable e"
| "is_live_unverifiable _ = False"

fun as_backup_conflict :: "error \<Rightarrow> string option" where
  "as_backup_conflict (BackupConflictError b t) = Some b"
| "as_backup_conflict (Wrap s e) = as_backup_conflict e"
| "as_backup_conflict (ErrLiveUnverifiable e) = as_backup_conflict e"
| "as_backup_conflict _ = None"

fun is_source_too_large :: "error \<Rightarrow> bool" where
  "is_source_too_large ErrSourceTooLarge = True"
| "is_source_too_large (Wrap s e) = is_source_too_large e"
| "is_source_too_large (ErrLiveUnverifiable e) = is_source_too_large e"
| "is_source_too_large _ = False"

text \<open>\<open>err.Error()\<close>.\<close>

fun error_text :: "error \<Rightarrow> string" where
  "error_text (Msg s) = s"
| "error_text (Wrap s e) = s @ '': '' @ error_text e"
| "error_text (DurabilityError p) = ''durability of '' @ p @ '' is uncertain''"
| "error_text ErrStateFileMissing = ''state file is missing''"
| "error_text (ErrLiveUnverifiable e) = ''live key pair cannot be verified: '' @ error_text e"
| "error_text (BackupConflictError b t) = b @ ''.key already holds a different key''"
| "error_text ErrSourceTooLarge = ''zone file exceeds the source limit''"
| "error_text (NetError timeout codes) = ''network error''"

section \<open>Operations on a state that may fail\<close>

text \<open>
  \<open>('w, 'a) op\<close> is a Go function with a receiver or global state \<open>'w\<close> returning
  \<open>('a, error)\<close>: it returns \<open>Inl\<close> of the error or \<open>Inr\<close> of the value, and in
  both cases the state it leaves behind.
\<close>

type_synonym ('w, 'a) op = "'w \<Rightarrow> (error + 'a) \<times> 'w"

definition op_ok :: "'a \<Rightarrow> ('w, 'a) op" where
  "op_ok x = (\<lambda>w. (Inr x, w))"

definition op_fail :: "error \<Rightarrow> ('w, 'a) op" where
  "op_fail e = (\<lambda>w. (Inl e, w))"

definition op_get :: "('w \<Rightarrow> 'a) \<Rightarrow> ('w, 'a) op" where
  "op_get f = (\<lambda>w. (Inr (f w), w))"

definition op_upd :: "('w \<Rightarrow> 'w) \<Rightarrow> ('w, unit) op" where
  "op_upd f = (\<lambda>w. (Inr (), f w))"

text \<open>\<open>if err != nil { return err }\<close> after a call is \<open>op_bind\<close>.\<close>

definition op_bind :: "('w, 'a) op \<Rightarrow> ('a \<Rightarrow> ('w, 'b) op) \<Rightarrow> ('w, 'b) op" where
  "op_bind m f = (\<lambda>w. case m w of (Inl e, w') \<Rightarrow> (Inl e, w') | (Inr x, w') \<Rightarrow> f x w')"

text \<open>A call whose error the caller inspects instead of returning.\<close>

definition op_try :: "('w, 'a) op \<Rightarrow> (error + 'a \<Rightarrow> ('w, 'b) op) \<Rightarrow> ('w, 'b) op" where
  "op_try m f = (\<lambda>w. case m w of (r, w') \<Rightarrow> f r w')"

text \<open>\<open>return fmt.Errorf("...: %w", err)\<close>.\<close>

definition op_wrap :: "string \<Rightarrow> ('w, 'a) op \<Rightarrow> ('w, 'a) op" where
  "op_wrap s m = op_try m (\<lambda>r. case r of Inl e \<Rightarrow> op_fail (Wrap s e) | Inr x \<Rightarrow> op_ok x)"

lemma op_ok_apply [simp, op_simps]: "op_ok x w = (Inr x, w)"
  by (simp add: op_ok_def)

lemma op_fail_apply [simp, op_simps]: "op_fail e w = (Inl e, w)"
  by (simp add: op_fail_def)

lemma op_get_apply [simp, op_simps]: "op_get f w = (Inr (f w), w)"
  by (simp add: op_get_def)

lemma op_upd_apply [simp, op_simps]: "op_upd f w = (Inr (), f w)"
  by (simp add: op_upd_def)

lemma op_bind_apply [op_simps]:
  "op_bind m f w = (case m w of (Inl e, w') \<Rightarrow> (Inl e, w') | (Inr x, w') \<Rightarrow> f x w')"
  by (simp add: op_bind_def)

lemma op_try_apply [op_simps]: "op_try m f w = (case m w of (r, w') \<Rightarrow> f r w')"
  by (simp add: op_try_def)

lemma op_bind_laws [simp]:
  "op_bind (op_ok x) f = f x"
  "op_bind (op_fail e) f = op_fail e"
  "op_bind m op_ok = m"
  by (auto simp: op_bind_def op_ok_def op_fail_def fun_eq_iff split: prod.splits sum.splits)

lemma op_bind_assoc: "op_bind (op_bind m f) g = op_bind m (\<lambda>x. op_bind (f x) g)"
  by (auto simp: op_bind_def fun_eq_iff split: prod.splits sum.splits)

lemma op_bind_Inr:
  "op_bind m f w = (Inr y, w') \<longleftrightarrow> (\<exists>x w1. m w = (Inr x, w1) \<and> f x w1 = (Inr y, w'))"
  by (auto simp: op_bind_def split: prod.splits sum.splits)

lemma op_bind_cases:
  assumes "op_bind m f w = (r, w')"
  obtains (failed) e where "m w = (Inl e, w')" "r = Inl e"
  | (next_step) x w1 where "m w = (Inr x, w1)" "f x w1 = (r, w')"
  using assms by (auto simp: op_bind_def split: prod.splits sum.splits)

lemma op_wrap_apply [op_simps]:
  "op_wrap s m w = (case m w of (Inl e, w') \<Rightarrow> (Inl (Wrap s e), w') | (Inr x, w') \<Rightarrow> (Inr x, w'))"
  by (auto simp: op_wrap_def op_try_def split: prod.splits sum.splits)

lemma op_wrap_Inr: "op_wrap s m w = (Inr x, w') \<longleftrightarrow> m w = (Inr x, w')"
  by (auto simp: op_wrap_apply split: prod.splits sum.splits)

lemma op_wrap_snd [simp]: "snd (op_wrap s m w) = snd (m w)"
  by (auto simp: op_wrap_apply split: prod.splits sum.splits)

subsection \<open>Predicates an operation keeps\<close>

text \<open>
  \<open>keeps R m\<close>: from any state the final state is related to the first by \<open>R\<close>,
  whether the operation succeeds or fails. For a reflexive and transitive \<open>R\<close> the
  rules below compose it along the control flow, which is how frame conditions and
  monotonicity are proved for whole handlers.
\<close>

definition keeps :: "('w \<Rightarrow> 'w \<Rightarrow> bool) \<Rightarrow> ('w, 'a) op \<Rightarrow> bool" where
  "keeps R m \<longleftrightarrow> (\<forall>w. R w (snd (m w)))"

lemma keepsD: "keeps R m \<Longrightarrow> m w = (r, w') \<Longrightarrow> R w w'"
  by (metis keeps_def snd_conv)

lemma keepsI: "(\<And>w. R w (snd (m w))) \<Longrightarrow> keeps R m"
  by (simp add: keeps_def)

locale keep_relation =
  fixes R :: "'w \<Rightarrow> 'w \<Rightarrow> bool"
  assumes keep_refl: "R w w"
    and keep_trans: "R u v \<Longrightarrow> R v w \<Longrightarrow> R u w"
begin

lemma keeps_ok: "keeps R (op_ok x)"
  by (simp add: keeps_def keep_refl)

lemma keeps_fail: "keeps R (op_fail e)"
  by (simp add: keeps_def keep_refl)

lemma keeps_get: "keeps R (op_get f)"
  by (simp add: keeps_def keep_refl)

lemma keeps_bind:
  assumes "keeps R m" and "\<And>x. keeps R (f x)"
  shows "keeps R (op_bind m f)"
proof (rule keepsI)
  fix w
  obtain r w1 where m: "m w = (r, w1)" by (cases "m w")
  then have 1: "R w w1" by (rule keepsD [OF assms(1)])
  show "R w (snd (op_bind m f w))"
  proof (cases r)
    case (Inl e)
    then show ?thesis using m 1 by (simp add: op_bind_def)
  next
    case (Inr x)
    have "R w1 (snd (f x w1))" using assms(2) [of x] by (simp add: keeps_def)
    with 1 Inr m show ?thesis by (simp add: op_bind_def) (rule keep_trans)
  qed
qed

lemma keeps_try:
  assumes "keeps R m" and "\<And>r. keeps R (f r)"
  shows "keeps R (op_try m f)"
proof (rule keepsI)
  fix w
  obtain r w1 where m: "m w = (r, w1)" by (cases "m w")
  then have 1: "R w w1" by (rule keepsD [OF assms(1)])
  have "R w1 (snd (f r w1))" using assms(2) [of r] by (simp add: keeps_def)
  with 1 m show "R w (snd (op_try m f w))" by (simp add: op_try_def) (rule keep_trans)
qed

lemma keeps_wrap: "keeps R m \<Longrightarrow> keeps R (op_wrap s m)"
  by (simp add: keeps_def)

lemma keeps_if: "keeps R a \<Longrightarrow> keeps R b \<Longrightarrow> keeps R (if c then a else b)"
  by simp

lemmas keeps_rules = keeps_ok keeps_fail keeps_get keeps_bind keeps_try keeps_wrap keeps_if

end

section \<open>Go maps\<close>

text \<open>
  A Go map is an association list with distinct keys: \<open>m[k]\<close> is \<open>map_of m k\<close>,
  assignment is \<open>AList.update\<close>, \<open>delete\<close> is \<open>AList.delete\<close>, and a \<open>range\<close>
  loop runs along the list. Go fixes no iteration order, so theorems quantify over every
  list with the given entries.
\<close>

type_synonym ('k, 'v) gomap = "('k \<times> 'v) list"

definition gomap_ok :: "('k, 'v) gomap \<Rightarrow> bool" where
  "gomap_ok m \<longleftrightarrow> distinct (map fst m)"

lemma gomap_ok_update [simp]: "gomap_ok m \<Longrightarrow> gomap_ok (AList.update k v m)"
  by (simp add: gomap_ok_def distinct_update)

lemma gomap_ok_delete [simp]: "gomap_ok m \<Longrightarrow> gomap_ok (AList.delete k m)"
  by (simp add: gomap_ok_def distinct_delete)

lemma gomap_ok_filter [simp]: "gomap_ok m \<Longrightarrow> gomap_ok (filter P m)"
  by (auto simp: gomap_ok_def distinct_map inj_on_def)

lemma gomap_ok_Nil [simp]: "gomap_ok []"
  by (simp add: gomap_ok_def)

lemma gomap_ok_map_val [simp]: "gomap_ok (map (\<lambda>(k, v). (k, f k v)) m) = gomap_ok m"
  by (simp add: gomap_ok_def comp_def case_prod_beta)

lemma map_of_filter_key:
  "gomap_ok m \<Longrightarrow>
   map_of (filter (\<lambda>(k, v). P k v) m) k =
     (case map_of m k of None \<Rightarrow> None | Some v \<Rightarrow> if P k v then Some v else None)"
  by (induction m) (auto simp: gomap_ok_def map_of_eq_None_iff split: option.splits)

text \<open>
  A \<open>range\<close> loop over a Go map whose body for key \<open>k\<close> changes only what an
  observation \<open>obs\<close> sees at \<open>k\<close>: its effect at a key is the effect of that key's
  own iteration, whatever the order.
\<close>

locale keyed_loop =
  fixes step :: "'k \<Rightarrow> 'v \<Rightarrow> 's \<Rightarrow> 's"
    and obs :: "'s \<Rightarrow> 'k \<Rightarrow> 'o"
    and eff :: "'k \<Rightarrow> 'v \<Rightarrow> 'o \<Rightarrow> 'o"
  assumes step_own: "obs (step k v s) k = eff k v (obs s k)"
    and step_frame: "j \<noteq> k \<Longrightarrow> obs (step k v s) j = obs s j"
begin

lemma loop_frame: "j \<notin> fst ` set m \<Longrightarrow> obs (fold (\<lambda>(k, v). step k v) m s) j = obs s j"
  by (induction m arbitrary: s) (auto simp: step_frame)

lemma loop_obs:
  assumes "gomap_ok m"
  shows "obs (fold (\<lambda>(k, v). step k v) m s) j =
    (case map_of m j of None \<Rightarrow> obs s j | Some v \<Rightarrow> eff j v (obs s j))"
  using assms
proof (induction m arbitrary: s)
  case Nil
  then show ?case by simp
next
  case (Cons p m)
  obtain k v where p: "p = (k, v)" by (cases p)
  from Cons.prems p have ok: "gomap_ok m" and k: "k \<notin> fst ` set m"
    by (auto simp: gomap_ok_def)
  show ?case
  proof (cases "j = k")
    case True
    then show ?thesis using p k by (simp add: loop_frame step_own)
  next
    case False
    then show ?thesis using p Cons.IH [OF ok, of "step k v s"] by (simp add: step_frame split: option.split)
  qed
qed

end

section \<open>Checking every element\<close>

text \<open>A loop that returns the first error its body finds.\<close>

fun check_each :: "('a \<Rightarrow> error + unit) \<Rightarrow> 'a list \<Rightarrow> error + unit" where
  "check_each f [] = Inr ()"
| "check_each f (x # xs) = (case f x of Inl e \<Rightarrow> Inl e | Inr _ \<Rightarrow> check_each f xs)"

lemma check_each_iff: "check_each f xs = Inr () \<longleftrightarrow> (\<forall>x \<in> set xs. f x = Inr ())"
  by (induction xs) (auto split: sum.splits)

lemma check_each_Inr: "check_each f xs = Inr u \<longleftrightarrow> (\<forall>x \<in> set xs. f x = Inr ())"
  using check_each_iff [of f xs] by simp

section \<open>Machine words\<close>

lemma word_less_succ:
  fixes x :: "'a::len word"
  assumes "x \<noteq> -1"
  shows "x < x + 1"
proof -
  have "1 + x \<noteq> 0" using assms by (simp add: add_eq_0_iff)
  then have "unat (1 + x) = Suc (unat x)" by (rule unatSuc)
  then show ?thesis by (simp add: word_less_nat_alt add.commute)
qed

end
