(* ===== verification/Go_Lib.thy ===== *)
theory Go_Lib
  imports Sig_Prelude "HOL-Library.Log_Nat"
begin

text \<open>
  The parts of the Go language and its standard library the modelled code uses: instants
  and durations of package \<open>time\<close> (with the saturating \<open>Sub\<close>), \<open>float64\<close>
  arithmetic by correct rounding of exact rationals, decimal and RFC 3339 formatting, and
  the prefix and white-space tests of package \<open>strings\<close>. Strings are byte lists.
\<close>

section \<open>Instants and durations\<close>

text \<open>
  An instant is the number of nanoseconds since Go's zero time (January 1 of year 1, UTC),
  so \<open>t.IsZero()\<close> is \<open>t = 0\<close>, \<open>After\<close>, \<open>Before\<close> and \<open>Equal\<close> are
  the order and equality, and \<open>Add\<close> is addition. A duration is an \<open>int64\<close> of
  nanoseconds; \<open>Sub\<close> saturates at its bounds.
\<close>

type_synonym gotime = int
type_synonym duration = int

definition Second :: duration where "Second = 1000000000"
definition Minute :: duration where "Minute = 60 * Second"
definition Hour :: duration where "Hour = 60 * Minute"

definition max_duration :: duration where "max_duration = 9223372036854775807"
definition min_duration :: duration where "min_duration = -9223372036854775808"

definition time_sub :: "gotime \<Rightarrow> gotime \<Rightarrow> duration" where
  "time_sub t u = max min_duration (min max_duration (t - u))"

text \<open>\<open>time.Duration(x) * time.Second\<close> for a \<open>uint32\<close> \<open>x\<close>.\<close>

definition seconds :: "32 word \<Rightarrow> duration" where
  "seconds x = uint x * Second"

text \<open>The product of a \<open>uint32\<close> and a second never leaves the \<open>int64\<close> range.\<close>

lemma seconds_bounds: "0 \<le> seconds x \<and> seconds x \<le> max_duration"
proof -
  have "uint x < 2 ^ 32" using uint_lt2p [of x] by simp
  moreover have "0 \<le> uint x" by simp
  ultimately show ?thesis by (simp add: seconds_def Second_def max_duration_def)
qed

lemma seconds_nonneg [simp]: "0 \<le> seconds x"
  by (simp add: seconds_def Second_def)

lemma seconds_mono: "x \<le> y \<Longrightarrow> seconds x \<le> seconds y"
  by (simp add: seconds_def Second_def word_le_def)

lemma seconds_eq_0 [simp]: "seconds x = 0 \<longleftrightarrow> x = 0"
  by (simp add: seconds_def Second_def uint_0_iff)

lemma seconds_pos: "x \<noteq> 0 \<Longrightarrow> 0 < seconds x"
  using seconds_nonneg [of x] seconds_eq_0 [of x] by linarith

lemma time_sub_ge:
  "min_duration < d \<Longrightarrow> d \<le> max_duration \<Longrightarrow> d \<le> time_sub t u \<longleftrightarrow> d \<le> t - u"
  by (auto simp: time_sub_def min_duration_def max_duration_def)

text \<open>\<open>int64\<close> division and remainder truncate towards zero.\<close>

definition trunc_div :: "int \<Rightarrow> int \<Rightarrow> int" where
  "trunc_div a b = sgn a * sgn b * (\<bar>a\<bar> div \<bar>b\<bar>)"

definition trunc_mod :: "int \<Rightarrow> int \<Rightarrow> int" where
  "trunc_mod a b = a - b * trunc_div a b"

lemma trunc_div_nonneg [simp]: "0 \<le> a \<Longrightarrow> 0 < b \<Longrightarrow> trunc_div a b = a div b"
  by (cases "a = 0") (auto simp: trunc_div_def)

lemma trunc_mod_nonneg [simp]: "0 \<le> a \<Longrightarrow> 0 < b \<Longrightarrow> trunc_mod a b = a mod b"
  by (simp add: trunc_mod_def minus_mult_div_eq_mod)

section \<open>float64\<close>

text \<open>
  A finite \<open>float64\<close> is an exact rational; each operation is the exact result rounded
  to 53 significant bits, ties to even. The values below stay far inside the exponent
  range, so overflow and subnormal numbers do not arise.
\<close>

definition round_half_even :: "rat \<Rightarrow> int" where
  "round_half_even x = (let f = \<lfloor>x\<rfloor>; d = x - of_int f in
     if d < 1 / 2 then f else if 1 / 2 < d then f + 1 else if even f then f else f + 1)"

definition pow2 :: "int \<Rightarrow> rat" where
  "pow2 e = (if 0 \<le> e then 2 ^ nat e else 1 / 2 ^ nat (- e))"

definition binary_exponent :: "rat \<Rightarrow> int" where
  "binary_exponent x = (let (p, q) = quotient_of x; e = bitlen p - bitlen q in
     if pow2 e \<le> x then e else e - 1)"

definition f64 :: "rat \<Rightarrow> rat" where
  "f64 x = (if x = 0 then 0 else
     let a = \<bar>x\<bar>; e = binary_exponent a - 52
     in sgn x * of_int (round_half_even (a / pow2 e)) * pow2 e)"

text \<open>\<open>Duration.Hours\<close>.\<close>

definition Hours :: "duration \<Rightarrow> rat" where
  "Hours d = f64 (of_int (trunc_div d Hour) +
     f64 (of_int (trunc_mod d Hour) / of_int (60 * 60 * 1000000000)))"

text \<open>\<open>time.Duration(float64(d) * 0.75)\<close>.\<close>

definition three_quarters :: "duration \<Rightarrow> duration" where
  "three_quarters d = (let x = f64 (f64 (of_int d) * (3 / 4)) in
     if 0 \<le> x then \<lfloor>x\<rfloor> else \<lceil>x\<rceil>)"

section \<open>Formatting\<close>

definition digit :: "nat \<Rightarrow> char" where
  "digit n = char_of (48 + n mod 10)"

fun show_nat :: "nat \<Rightarrow> string" where
  "show_nat n = (if n < 10 then [digit n] else show_nat (n div 10) @ [digit (n mod 10)])"

declare show_nat.simps [simp del]

definition show_int :: "int \<Rightarrow> string" where
  "show_int i = (if i < 0 then CHR ''-'' # show_nat (nat (- i)) else show_nat (nat i))"

definition pad_zero :: "nat \<Rightarrow> string \<Rightarrow> string" where
  "pad_zero n s = replicate (n - length s) (CHR ''0'') @ s"

text \<open>\<open>%.0f\<close>: round half to even; a negative value keeps its sign even at zero.\<close>

definition show_f0 :: "rat \<Rightarrow> string" where
  "show_f0 x = (if x < 0 then ''-'' else []) @ show_nat (nat (round_half_even \<bar>x\<bar>))"

text \<open>The proleptic Gregorian date of a day number counted from January 1 of year 1.\<close>

definition civil :: "int \<Rightarrow> int \<times> int \<times> int" where
  "civil days = (let z = days + 306; era = z div 146097; doe = z mod 146097;
     yoe = (doe - doe div 1460 + doe div 36524 - doe div 146096) div 365;
     doy = doe - (365 * yoe + yoe div 4 - yoe div 100);
     mp = (5 * doy + 2) div 153;
     d = doy - (153 * mp + 2) div 5 + 1;
     m = (if mp < 10 then mp + 3 else mp - 9);
     y = yoe + era * 400 + (if m \<le> 2 then 1 else 0)
   in (y, m, d))"

definition two :: "int \<Rightarrow> string" where
  "two i = pad_zero 2 (show_int i)"

text \<open>\<open>t.Format(time.RFC3339)\<close> of a UTC instant.\<close>

definition fmt_rfc3339 :: "gotime \<Rightarrow> string" where
  "fmt_rfc3339 t = (let secs = t div Second; days = secs div 86400; s = secs mod 86400;
     (y, m, d) = civil days
   in pad_zero 4 (show_int y) @ ''-'' @ two m @ ''-'' @ two d @ ''T'' @
      two (s div 3600) @ '':'' @ two ((s div 60) mod 60) @ '':'' @ two (s mod 60) @ ''Z'')"

section \<open>Strings\<close>

definition has_prefix :: "string \<Rightarrow> string \<Rightarrow> bool" where
  "has_prefix s p \<longleftrightarrow> take (length p) s = p"

lemma has_prefix_append [simp]: "has_prefix (p @ s) p"
  by (simp add: has_prefix_def)

lemma has_prefix_iff: "has_prefix s p \<longleftrightarrow> (\<exists>t. s = p @ t)"
  by (metis has_prefix_append has_prefix_def append_take_drop_id)

text \<open>
  The length in bytes of the white-space character (\<open>unicode.IsSpace\<close>, UTF-8 encoded)
  at the start of a string, zero if there is none.
\<close>

definition space_len :: "string \<Rightarrow> nat" where
  "space_len s = (case map (of_char :: char \<Rightarrow> nat) (take 3 s) of
     [] \<Rightarrow> 0
   | a # r \<Rightarrow>
       if a \<in> {9, 10, 11, 12, 13, 32} then 1
       else if a = 0xC2 \<and> r \<noteq> [] \<and> hd r \<in> {0x85, 0xA0} then 2
       else (case r of
           b # c # _ \<Rightarrow>
             if a = 0xE1 \<and> b = 0x9A \<and> c = 0x80
               \<or> a = 0xE2 \<and> b = 0x80 \<and> (0x80 \<le> c \<and> c \<le> 0x8A \<or> c \<in> {0xA8, 0xA9, 0xAF})
               \<or> a = 0xE2 \<and> b = 0x81 \<and> c = 0x9F
               \<or> a = 0xE3 \<and> b = 0x80 \<and> c = 0x80
             then 3 else 0
         | _ \<Rightarrow> 0))"

function trim_left :: "string \<Rightarrow> string" where
  "trim_left s = (if space_len s = 0 \<or> s = [] then s else trim_left (drop (space_len s) s))"
  by pat_completeness auto
termination
  by (relation "measure length") auto

declare trim_left.simps [simp del]

text \<open>\<open>strings.TrimSpace(s) == ""\<close>: every character of \<open>s\<close> is white space.\<close>

definition blank :: "string \<Rightarrow> bool" where
  "blank s \<longleftrightarrow> trim_left s = []"

lemma blank_Nil [simp]: "blank []"
  by (simp add: blank_def trim_left.simps)

text \<open>\<open>strings.TrimSpace\<close>.\<close>

definition last_space_len :: "string \<Rightarrow> nat" where
  "last_space_len s = (case filter (\<lambda>n. n \<le> length s \<and> space_len (drop (length s - n) s) = n) [1, 2, 3] of
     [] \<Rightarrow> 0 | n # _ \<Rightarrow> n)"

function trim_right :: "string \<Rightarrow> string" where
  "trim_right s = (if last_space_len s = 0 \<or> s = [] then s
     else trim_right (take (length s - last_space_len s) s))"
  by pat_completeness auto
termination
  by (relation "measure length") auto

declare trim_right.simps [simp del]

definition trim_space :: "string \<Rightarrow> string" where
  "trim_space s = trim_right (trim_left s)"

text \<open>\<open>strconv.ParseUint(s, 10, bits)\<close> before its range check.\<close>

definition digit_value :: "char \<Rightarrow> nat option" where
  "digit_value c = (let n = (of_char c :: nat) in if 48 \<le> n \<and> n \<le> 57 then Some (n - 48) else None)"

fun parse_digits :: "nat \<Rightarrow> string \<Rightarrow> nat option" where
  "parse_digits acc [] = Some acc"
| "parse_digits acc (c # s) = (case digit_value c of None \<Rightarrow> None | Some d \<Rightarrow> parse_digits (10 * acc + d) s)"

definition parse_uint :: "string \<Rightarrow> nat option" where
  "parse_uint s = (if s = [] then None else parse_digits 0 s)"

lemma parse_digits_append:
  "parse_digits acc (s @ t) = (case parse_digits acc s of None \<Rightarrow> None | Some n \<Rightarrow> parse_digits n t)"
  by (induction s arbitrary: acc) (auto split: option.splits)

lemma digit_value_digit [simp]: "digit_value (digit n) = Some (n mod 10)"
proof -
  have "48 + n mod 10 < 256" by (simp add: less_le_trans [of _ 10])
  then have "(of_char (digit n) :: nat) = 48 + n mod 10"
    by (simp add: digit_def)
  moreover have "n mod 10 < 10" by simp
  ultimately show ?thesis by (simp add: digit_value_def)
qed

text \<open>Parsing undoes decimal printing.\<close>

lemma show_nat_nonempty [simp]: "show_nat n \<noteq> []"
  by (subst show_nat.simps) simp

lemma parse_digits_show: "parse_digits 0 (show_nat n) = Some n"
proof (induction n rule: show_nat.induct)
  case (1 n)
  show ?case
  proof (cases "n < 10")
    case True
    then show ?thesis by (subst show_nat.simps) simp
  next
    case False
    then show ?thesis using 1 by (subst show_nat.simps) (simp add: parse_digits_append)
  qed
qed

lemma parse_uint_show [simp]: "parse_uint (show_nat n) = Some n"
  by (simp add: parse_uint_def parse_digits_show)

lemma show_nat_inj: "show_nat m = show_nat n \<Longrightarrow> m = n"
  by (metis parse_uint_show option.inject)

text \<open>\<open>strings.Index(s, ": ")\<close>: what precedes the first colon followed by a space.\<close>

fun before_colon_space :: "string \<Rightarrow> string option" where
  "before_colon_space (a # b # s) =
     (if a = CHR '':'' \<and> b = CHR '' '' then Some []
      else map_option (Cons a) (before_colon_space (b # s)))"
| "before_colon_space _ = None"

lemma before_colon_space_eq:
  "before_colon_space s = Some p \<Longrightarrow> \<exists>t. s = p @ '': '' @ t"
  by (induction s arbitrary: p rule: before_colon_space.induct) (auto split: if_splits)

text \<open>\<open>strings.Split(s, sep)\<close> for a one-byte separator.\<close>

fun split_on :: "char \<Rightarrow> string \<Rightarrow> string list" where
  "split_on sep [] = [[]]"
| "split_on sep (c # s) = (if c = sep then [] # split_on sep s
     else (case split_on sep s of [] \<Rightarrow> [[c]] | l # ls \<Rightarrow> (c # l) # ls))"

lemma split_on_not_Nil [simp]: "split_on c s \<noteq> []"
  by (induction s) (auto split: list.splits)

fun join_with :: "char \<Rightarrow> string list \<Rightarrow> string" where
  "join_with c [] = []"
| "join_with c [l] = l"
| "join_with c (l # ls) = l @ c # join_with c ls"

lemma join_with_Cons: "ls \<noteq> [] \<Longrightarrow> join_with c (l # ls) = l @ c # join_with c ls"
  by (cases ls) auto

text \<open>Splitting and joining at a separator are inverse; no label holds the separator.\<close>

lemma join_split: "join_with c (split_on c s) = s"
proof (induction s)
  case (Cons a s)
  obtain l ls where "split_on c s = l # ls"
    by (cases "split_on c s") simp_all
  with Cons show ?case by (cases ls) (auto simp: join_with_Cons)
qed simp

lemma split_on_no_sep: "l \<in> set (split_on c s) \<Longrightarrow> c \<notin> set l"
  by (induction s arbitrary: l) (auto split: if_splits list.splits)

section \<open>Paths\<close>

text \<open>
  \<open>filepath.Clean\<close> on Unix: the slash-separated components are processed left to
  right on a stack; empty and dot components vanish, a parent reference drops the last
  real component.
\<close>

definition clean_step :: "bool \<Rightarrow> string \<Rightarrow> string list \<Rightarrow> string list" where
  "clean_step rooted c st =
     (if c = [] \<or> c = ''.'' then st
      else if c = ''..'' then
        (if st \<noteq> [] \<and> hd st \<noteq> ''..'' then tl st else if rooted then st else c # st)
      else c # st)"

definition path_clean :: "string \<Rightarrow> string" where
  "path_clean p = (let rooted = (p \<noteq> [] \<and> hd p = CHR ''/'');
     st = fold (clean_step rooted) (split_on (CHR ''/'') p) [];
     body = join_with (CHR ''/'') (rev st);
     out = (if rooted then CHR ''/'' # body else body)
   in if out = [] then ''.'' else out)"

text \<open>\<open>filepath.Join\<close> of two elements: empty elements are ignored, the rest is cleaned.\<close>

definition path_join :: "string \<Rightarrow> string \<Rightarrow> string" where
  "path_join dir name =
     (if dir = [] then (if name = [] then [] else path_clean name)
      else if name = [] then path_clean dir else path_clean (dir @ ''/'' @ name))"

text \<open>A plain file name: one path component that is not a directory reference.\<close>

definition plain_name :: "string \<Rightarrow> bool" where
  "plain_name n \<longleftrightarrow> CHR ''/'' \<notin> set n \<and> n \<noteq> [] \<and> n \<noteq> ''.'' \<and> n \<noteq> ''..''"

lemma split_on_plain: "c \<notin> set n \<Longrightarrow> split_on c n = [n]"
  by (induction n) auto

lemma split_on_append: "split_on c (d @ c # n) = split_on c d @ split_on c n"
proof (induction d)
  case (Cons a d)
  obtain l ls where "split_on c d = l # ls"
    by (metis split_on_not_Nil neq_Nil_conv)
  with Cons show ?case by simp
qed simp

text \<open>Joining plain names below one directory only appends them to a common prefix.\<close>

definition path_prefix :: "string \<Rightarrow> string" where
  "path_prefix dir = (if dir = [] then [] else
     (let rooted = (hd dir = CHR ''/'');
       st = fold (clean_step rooted) (split_on (CHR ''/'') dir) []
      in (if rooted then ''/'' else []) @ (if st = [] then [] else join_with (CHR ''/'') (rev st) @ ''/'')))"

lemma join_with_snoc: "ls \<noteq> [] \<Longrightarrow> join_with c (ls @ [l]) = join_with c ls @ c # l"
proof (induction ls)
  case (Cons a ls)
  then show ?case by (cases ls) (auto simp: join_with_Cons)
qed simp

lemma path_join_plain:
  assumes "plain_name n"
  shows "path_join dir n = path_prefix dir @ n"
proof -
  have n: "CHR ''/'' \<notin> set n" "n \<noteq> []" "n \<noteq> ''.''" "n \<noteq> ''..''"
    using assms by (auto simp: plain_name_def)
  have hdn: "hd n \<noteq> CHR ''/''" using n(1,2) by (metis hd_in_set)
  have push: "clean_step r n st = n # st" for r st using n by (simp add: clean_step_def)
  show ?thesis
  proof (cases "dir = []")
    case True
    then show ?thesis using n hdn push
      by (simp add: path_join_def path_clean_def path_prefix_def Let_def split_on_plain)
  next
    case False
    define r where "r = (hd dir = CHR ''/'')"
    define st where "st = fold (clean_step r) (split_on (CHR ''/'') dir) []"
    have sp: "split_on (CHR ''/'') (dir @ ''/'' @ n) = split_on (CHR ''/'') dir @ [n]"
      using split_on_append [of "CHR ''/''" dir n] split_on_plain [OF n(1)] by simp
    have rt: "(dir @ ''/'' @ n \<noteq> [] \<and> hd (dir @ ''/'' @ n) = CHR ''/'') = r"
      using False by (simp add: r_def)
    have fold: "fold (clean_step r) (split_on (CHR ''/'') dir @ [n]) [] = n # st"
      by (simp add: st_def push)
    have body: "join_with (CHR ''/'') (rev st @ [n]) =
        (if st = [] then [] else join_with (CHR ''/'') (rev st) @ ''/'') @ n"
      by (cases "st = []") (simp_all add: join_with_snoc)
    have "path_join dir n = path_clean (dir @ ''/'' @ n)"
      using False n(2) by (simp add: path_join_def)
    also have "\<dots> = (if r then ''/'' else []) @ join_with (CHR ''/'') (rev st @ [n])"
      unfolding path_clean_def sp rt fold Let_def using n(2) body by simp
    also have "\<dots> = path_prefix dir @ n"
      unfolding path_prefix_def Let_def r_def [symmetric] st_def [symmetric] body using False by simp
    finally show ?thesis .
  qed
qed

end
