(* ===== verification/Zone_State.thy ===== *)
theory Zone_State
  imports Go_Lib
begin

text \<open>
  The persistent record of one zone (\<open>signer/internal/state/state.go\<close>): key and rollover
  records, publication tracking with its cache horizons, operator diagnostics, and the
  schema check every loaded record must pass.
\<close>

section \<open>Records\<close>

record key_state =
  k_ID :: "16 word"
  k_Algorithm :: string
  k_Created :: gotime
  k_Expires :: gotime
  k_DSPublished :: bool
  k_RolloverDue :: gotime

record rollover_state =
  r_Type :: string
  r_State :: string
  r_OldKeyID :: "16 word"
  r_NewKeyID :: "16 word"
  r_OldZSKID :: "16 word"
  r_NewZSKID :: "16 word"
  r_OldAlgorithm :: string
  r_NewAlgorithm :: string
  r_Started :: gotime
  r_PhaseStarted :: gotime
  r_PhaseFirstSigned :: gotime
  r_PhaseHorizon :: gotime
  r_DSObservedAt :: gotime
  r_ParentDSTTL :: "32 word"
  r_OldDSRemovedAt :: gotime
  r_DSRemovalPushedAt :: gotime
  r_DSAddPushedAt :: gotime
  r_Action :: string

text \<open>A pointer field that may be nil is an \<open>option\<close>; \<open>SourceSize\<close> is an \<open>int64\<close>.\<close>

record zone_state =
  z_Revision :: "64 word"
  z_Path :: string
  z_Serial :: "32 word"
  z_PublishedSerial :: "32 word"
  z_LastSigned :: gotime
  z_SourceModTime :: gotime
  z_SourceSize :: int
  z_SourceDigest :: string
  z_SignaturesExp :: gotime
  z_PublishedDNSKEYTTL :: "32 word"
  z_PublishedMaxRRSIGTTL :: "32 word"
  z_PendingPublication :: bool
  z_PublishedAt :: gotime
  z_PublishedGenerationSignedAt :: gotime
  z_ServedDNSKEYTTL :: "32 word"
  z_ServedMaxRRSIGTTL :: "32 word"
  z_DNSKEYCacheHorizon :: gotime
  z_RRSIGCacheHorizon :: gotime
  z_KSK :: "key_state option"
  z_ZSK :: "key_state option"
  z_Rollover :: "rollover_state option"
  z_Warnings :: "string list"
  z_Errors :: "string list"
  z_ForceResign :: bool

text \<open>The Go zero values of the records.\<close>

definition zero_rollover :: rollover_state where
  "zero_rollover = \<lparr>r_Type = [], r_State = [], r_OldKeyID = 0, r_NewKeyID = 0, r_OldZSKID = 0,
     r_NewZSKID = 0, r_OldAlgorithm = [], r_NewAlgorithm = [], r_Started = 0, r_PhaseStarted = 0,
     r_PhaseFirstSigned = 0, r_PhaseHorizon = 0, r_DSObservedAt = 0, r_ParentDSTTL = 0,
     r_OldDSRemovedAt = 0, r_DSRemovalPushedAt = 0, r_DSAddPushedAt = 0, r_Action = []\<rparr>"

definition zero_zone :: zone_state where
  "zero_zone = \<lparr>z_Revision = 0, z_Path = [], z_Serial = 0, z_PublishedSerial = 0,
     z_LastSigned = 0, z_SourceModTime = 0, z_SourceSize = 0, z_SourceDigest = [],
     z_SignaturesExp = 0, z_PublishedDNSKEYTTL = 0, z_PublishedMaxRRSIGTTL = 0,
     z_PendingPublication = False, z_PublishedAt = 0, z_PublishedGenerationSignedAt = 0,
     z_ServedDNSKEYTTL = 0, z_ServedMaxRRSIGTTL = 0, z_DNSKEYCacheHorizon = 0,
     z_RRSIGCacheHorizon = 0, z_KSK = None, z_ZSK = None, z_Rollover = None,
     z_Warnings = [], z_Errors = [], z_ForceResign = False\<rparr>"

section \<open>Rollover phases\<close>

definition ZSKRolloverStatePrePublish :: string where
  "ZSKRolloverStatePrePublish = ''pre_publish''"
definition ZSKRolloverStateSigning :: string where
  "ZSKRolloverStateSigning = ''signing''"
definition KSKRolloverStateDSAddWait :: string where
  "KSKRolloverStateDSAddWait = ''ds_add_wait''"
definition KSKRolloverStateDSPropagation :: string where
  "KSKRolloverStateDSPropagation = ''ds_propagation_wait''"
definition KSKRolloverStateRetiring :: string where
  "KSKRolloverStateRetiring = ''retiring''"
definition AlgoRolloverStateDSAddWait :: string where
  "AlgoRolloverStateDSAddWait = ''algo_ds_add_wait''"
definition AlgoRolloverStateDSPropagation :: string where
  "AlgoRolloverStateDSPropagation = ''algo_ds_propagation_wait''"
definition AlgoRolloverStateOldDSRemoval :: string where
  "AlgoRolloverStateOldDSRemoval = ''algo_old_ds_removal_wait''"
definition AlgoRolloverStateRetiring :: string where
  "AlgoRolloverStateRetiring = ''algo_retiring''"

lemmas phase_defs =
  ZSKRolloverStatePrePublish_def ZSKRolloverStateSigning_def KSKRolloverStateDSAddWait_def
  KSKRolloverStateDSPropagation_def KSKRolloverStateRetiring_def AlgoRolloverStateDSAddWait_def
  AlgoRolloverStateDSPropagation_def AlgoRolloverStateOldDSRemoval_def AlgoRolloverStateRetiring_def

lemma phases_distinct [simp]:
  "ZSKRolloverStatePrePublish \<noteq> ZSKRolloverStateSigning"
  "ZSKRolloverStateSigning \<noteq> ZSKRolloverStatePrePublish"
  "KSKRolloverStateDSAddWait \<noteq> KSKRolloverStateDSPropagation"
  "KSKRolloverStateDSAddWait \<noteq> KSKRolloverStateRetiring"
  "KSKRolloverStateDSPropagation \<noteq> KSKRolloverStateDSAddWait"
  "KSKRolloverStateDSPropagation \<noteq> KSKRolloverStateRetiring"
  "KSKRolloverStateRetiring \<noteq> KSKRolloverStateDSAddWait"
  "KSKRolloverStateRetiring \<noteq> KSKRolloverStateDSPropagation"
  "AlgoRolloverStateDSAddWait \<noteq> AlgoRolloverStateDSPropagation"
  "AlgoRolloverStateDSAddWait \<noteq> AlgoRolloverStateOldDSRemoval"
  "AlgoRolloverStateDSAddWait \<noteq> AlgoRolloverStateRetiring"
  "AlgoRolloverStateDSPropagation \<noteq> AlgoRolloverStateDSAddWait"
  "AlgoRolloverStateDSPropagation \<noteq> AlgoRolloverStateOldDSRemoval"
  "AlgoRolloverStateDSPropagation \<noteq> AlgoRolloverStateRetiring"
  "AlgoRolloverStateOldDSRemoval \<noteq> AlgoRolloverStateDSAddWait"
  "AlgoRolloverStateOldDSRemoval \<noteq> AlgoRolloverStateDSPropagation"
  "AlgoRolloverStateOldDSRemoval \<noteq> AlgoRolloverStateRetiring"
  "AlgoRolloverStateRetiring \<noteq> AlgoRolloverStateDSAddWait"
  "AlgoRolloverStateRetiring \<noteq> AlgoRolloverStateDSPropagation"
  "AlgoRolloverStateRetiring \<noteq> AlgoRolloverStateOldDSRemoval"
  by (simp_all add: phase_defs)

section \<open>Publication tracking\<close>

definition NewKeysPropagatedBy :: "rollover_state option \<Rightarrow> gotime \<Rightarrow> bool" where
  "NewKeysPropagatedBy ro now = (case ro of None \<Rightarrow> False | Some r \<Rightarrow>
     (r_Type r = ''ksk'' \<or> r_Type r = ''algorithm'') \<and>
     r_PhaseHorizon r \<noteq> 0 \<and> \<not> now < r_PhaseHorizon r)"

definition ConfirmPublication :: "gotime \<Rightarrow> gotime \<Rightarrow> zone_state \<Rightarrow> zone_state" where
  "ConfirmPublication signedAt now z =
     (if signedAt < z_PublishedGenerationSignedAt z then z else
      let prevDNSKEY = (if z_ServedDNSKEYTTL z = 0 then z_PublishedDNSKEYTTL z
                        else z_ServedDNSKEYTTL z);
          prevRRSIG = (if z_ServedMaxRRSIGTTL z = 0 then z_PublishedMaxRRSIGTTL z
                       else z_ServedMaxRRSIGTTL z);
          h1 = now + seconds prevDNSKEY;
          h2 = now + seconds prevRRSIG
      in z\<lparr>z_DNSKEYCacheHorizon := (if z_DNSKEYCacheHorizon z < h1 then h1 else z_DNSKEYCacheHorizon z),
           z_RRSIGCacheHorizon := (if z_RRSIGCacheHorizon z < h2 then h2 else z_RRSIGCacheHorizon z),
           z_ServedDNSKEYTTL := z_PublishedDNSKEYTTL z,
           z_ServedMaxRRSIGTTL := z_PublishedMaxRRSIGTTL z,
           z_PublishedAt := now,
           z_PublishedGenerationSignedAt := signedAt,
           z_PendingPublication := (if \<not> signedAt < z_LastSigned z then False
                                    else z_PendingPublication z)\<rparr>)"

definition PublishedSince :: "zone_state \<Rightarrow> gotime \<Rightarrow> bool" where
  "PublishedSince z t \<longleftrightarrow> t < z_PublishedGenerationSignedAt z"

section \<open>Operator diagnostics\<close>

text \<open>\<open>NeedsOperator\<close> reads the clock; \<open>now\<close> is what it read.\<close>

definition NeedsOperator :: "gotime \<Rightarrow> rollover_state \<Rightarrow> bool" where
  "NeedsOperator now r =
     (if r_State r = KSKRolloverStateDSAddWait \<or> r_State r = AlgoRolloverStateOldDSRemoval then True
      else if r_State r = AlgoRolloverStateDSAddWait then NewKeysPropagatedBy (Some r) now
      else False)"

definition Status :: "gotime \<Rightarrow> zone_state \<Rightarrow> string" where
  "Status now z =
     (if 0 < length (z_Errors z) then ''error''
      else case z_Rollover z of
        Some r \<Rightarrow>
          if r_State r \<noteq> [] \<and> r_Type r \<noteq> ''zsk'' then
            (if NeedsOperator now r then ''action_required'' else ''warning'')
          else if 0 < length (z_Warnings z) then ''warning'' else ''healthy''
      | None \<Rightarrow> if 0 < length (z_Warnings z) then ''warning'' else ''healthy'')"

definition stickyWarningPrefix :: string where "stickyWarningPrefix = ''URGENT:''"

definition AddWarning :: "string \<Rightarrow> zone_state \<Rightarrow> zone_state" where
  "AddWarning msg z = (if msg \<in> set (z_Warnings z) then z
     else z\<lparr>z_Warnings := z_Warnings z @ [msg]\<rparr>)"

definition ClearWarnings :: "zone_state \<Rightarrow> zone_state" where
  "ClearWarnings z = z\<lparr>z_Warnings := []\<rparr>"

definition ClearTransientWarnings :: "zone_state \<Rightarrow> zone_state" where
  "ClearTransientWarnings z = (if length (z_Warnings z) = 0 then z
     else z\<lparr>z_Warnings := filter (\<lambda>w. has_prefix w stickyWarningPrefix) (z_Warnings z)\<rparr>)"

definition ClearStickyWarnings :: "zone_state \<Rightarrow> zone_state" where
  "ClearStickyWarnings z = (if length (z_Warnings z) = 0 then z
     else z\<lparr>z_Warnings := filter (\<lambda>w. \<not> has_prefix w stickyWarningPrefix) (z_Warnings z)\<rparr>)"

definition OpSigning :: string where "OpSigning = ''signing''"
definition OpRollover :: string where "OpRollover = ''rollover''"
definition OpInit :: string where "OpInit = ''init''"
definition OpDeployment :: string where "OpDeployment = ''deployment''"
definition OpRegistrar :: string where "OpRegistrar = ''registrar''"

definition ClearOperationError :: "string \<Rightarrow> zone_state \<Rightarrow> zone_state" where
  "ClearOperationError op z = (if length (z_Errors z) = 0 then z
     else z\<lparr>z_Errors := filter (\<lambda>e. \<not> has_prefix e (op @ '': '')) (z_Errors z)\<rparr>)"

definition SetOperationError :: "string \<Rightarrow> string \<Rightarrow> zone_state \<Rightarrow> zone_state" where
  "SetOperationError op msg z = (let z' = ClearOperationError op z
     in z'\<lparr>z_Errors := z_Errors z' @ [op @ '': '' @ msg]\<rparr>)"

definition HasOperationError :: "string \<Rightarrow> zone_state \<Rightarrow> bool" where
  "HasOperationError op z \<longleftrightarrow> (\<exists>e \<in> set (z_Errors z). has_prefix e (op @ '': ''))"

definition AddError :: "string \<Rightarrow> zone_state \<Rightarrow> zone_state" where
  "AddError msg z = (if msg \<in> set (z_Errors z) then z
     else z\<lparr>z_Errors := z_Errors z @ [msg]\<rparr>)"

definition ClearErrors :: "zone_state \<Rightarrow> zone_state" where
  "ClearErrors z = z\<lparr>z_Errors := []\<rparr>"

section \<open>Schema validation\<close>

definition maxDNSTTLSeconds :: "32 word" where "maxDNSTTLSeconds = 2147483647"

definition validateKeyState :: "string \<Rightarrow> key_state option \<Rightarrow> error + unit" where
  "validateKeyState role ko = (case ko of None \<Rightarrow> Inr ()
     | Some k \<Rightarrow> if blank (k_Algorithm k) then Inl (Wrap role (Msg ''has no algorithm'')) else Inr ())"

definition validateRolloverState :: "zone_state \<Rightarrow> rollover_state \<Rightarrow> error + unit" where
  "validateRolloverState z r =
    (if maxDNSTTLSeconds < r_ParentDSTTL r then Inl (Msg ''parent_ds_ttl exceeds the maximum DNS TTL'')
     else if r_Type r = ''ksk'' \<and> (r_State r = KSKRolloverStateDSAddWait \<or>
          r_State r = KSKRolloverStateDSPropagation \<or> r_State r = KSKRolloverStateRetiring) then
       (if r_OldKeyID r = r_NewKeyID r then Inl (Msg ''ksk rollover names the same key as old and new'')
        else case z_KSK z of None \<Rightarrow> Inl (Msg ''ksk rollover recorded but the zone has no KSK'')
          | Some k \<Rightarrow> if k_ID k \<noteq> r_NewKeyID r then Inl (Msg ''ksk rollover: live KSK is not the new key'')
                      else Inr ())
     else if r_Type r = ''zsk'' \<and> r_State r = ZSKRolloverStatePrePublish then
       (if r_OldKeyID r = r_NewKeyID r then Inl (Msg ''zsk rollover names the same key as old and new'')
        else case z_ZSK z of None \<Rightarrow> Inl (Msg ''zsk rollover recorded but the zone has no ZSK'')
          | Some k \<Rightarrow> if k_ID k \<noteq> r_OldKeyID r then Inl (Msg ''zsk pre_publish: live ZSK is not the old key'')
                      else Inr ())
     else if r_Type r = ''zsk'' \<and> r_State r = ZSKRolloverStateSigning then
       (if r_OldKeyID r = r_NewKeyID r then Inl (Msg ''zsk rollover names the same key as old and new'')
        else case z_ZSK z of None \<Rightarrow> Inl (Msg ''zsk rollover recorded but the zone has no ZSK'')
          | Some k \<Rightarrow> if k_ID k \<noteq> r_NewKeyID r then Inl (Msg ''zsk signing: live ZSK is not the new key'')
                      else Inr ())
     else if r_Type r = ''algorithm'' \<and> (r_State r = AlgoRolloverStateDSAddWait \<or>
          r_State r = AlgoRolloverStateDSPropagation \<or> r_State r = AlgoRolloverStateOldDSRemoval \<or>
          r_State r = AlgoRolloverStateRetiring) then
       (if r_OldKeyID r = r_NewKeyID r \<or> r_OldZSKID r = r_NewZSKID r then
          Inl (Msg ''algorithm rollover names the same key as old and new'')
        else if blank (r_OldAlgorithm r) \<or> blank (r_NewAlgorithm r) \<or> r_OldAlgorithm r = r_NewAlgorithm r then
          Inl (Msg ''algorithm rollover has invalid algorithms'')
        else case (z_KSK z, z_ZSK z) of
            (Some k, Some s) \<Rightarrow>
              if k_ID k \<noteq> r_NewKeyID r \<or> k_ID s \<noteq> r_NewZSKID r then
                Inl (Msg ''algorithm rollover: live keys are not the new keys'')
              else Inr ()
          | _ \<Rightarrow> Inl (Msg ''algorithm rollover recorded but the zone lacks a KSK or ZSK''))
     else Inl (Msg ''unsupported rollover type/state''))"

text \<open>
  \<open>isDomainName\<close> stands for \<open>dns.IsDomainName\<close> of the DNS library; a null zone entry
  of the document is \<open>None\<close>.
\<close>

definition validateZoneEntry ::
  "(string \<Rightarrow> bool) \<Rightarrow> string \<Rightarrow> zone_state option \<Rightarrow> error + unit" where
  "validateZoneEntry isDomainName name zo =
    (if blank name then Inl (Msg ''zone entry with an empty name'')
     else if \<not> isDomainName name then Inl (Msg ''not a valid domain name'')
     else case zo of None \<Rightarrow> Inl (Msg ''null entry'')
     | Some z \<Rightarrow>
        if CHR 0x00 \<in> set (z_Path z) then Inl (Msg ''path contains a NUL byte'')
        else if z_LastSigned z \<noteq> 0 \<and> blank (z_Path z) then Inl (Msg ''signed zone has an empty source path'')
        else case validateKeyState ''ksk'' (z_KSK z) of Inl e \<Rightarrow> Inl (Wrap name e)
        | Inr _ \<Rightarrow> (case validateKeyState ''zsk'' (z_ZSK z) of Inl e \<Rightarrow> Inl (Wrap name e)
        | Inr _ \<Rightarrow> (case z_Rollover z of None \<Rightarrow> Inr ()
           | Some r \<Rightarrow> (case validateRolloverState z r of Inl e \<Rightarrow> Inl (Wrap name e) | Inr _ \<Rightarrow> Inr ()))))"

section \<open>What the checks guarantee\<close>

text \<open>The accepted rollover records, as a predicate.\<close>

definition rollover_ok :: "zone_state \<Rightarrow> rollover_state \<Rightarrow> bool" where
  "rollover_ok z r \<longleftrightarrow> r_ParentDSTTL r \<le> maxDNSTTLSeconds \<and> r_OldKeyID r \<noteq> r_NewKeyID r \<and>
    (r_Type r = ''ksk'' \<and>
       r_State r \<in> {KSKRolloverStateDSAddWait, KSKRolloverStateDSPropagation, KSKRolloverStateRetiring} \<and>
       map_option k_ID (z_KSK z) = Some (r_NewKeyID r)
     \<or> r_Type r = ''zsk'' \<and> r_State r = ZSKRolloverStatePrePublish \<and>
       map_option k_ID (z_ZSK z) = Some (r_OldKeyID r)
     \<or> r_Type r = ''zsk'' \<and> r_State r = ZSKRolloverStateSigning \<and>
       map_option k_ID (z_ZSK z) = Some (r_NewKeyID r)
     \<or> r_Type r = ''algorithm'' \<and>
       r_State r \<in> {AlgoRolloverStateDSAddWait, AlgoRolloverStateDSPropagation,
          AlgoRolloverStateOldDSRemoval, AlgoRolloverStateRetiring} \<and>
       r_OldZSKID r \<noteq> r_NewZSKID r \<and> \<not> blank (r_OldAlgorithm r) \<and> \<not> blank (r_NewAlgorithm r) \<and>
       r_OldAlgorithm r \<noteq> r_NewAlgorithm r \<and>
       map_option k_ID (z_KSK z) = Some (r_NewKeyID r) \<and> map_option k_ID (z_ZSK z) = Some (r_NewZSKID r))"

lemma validateRolloverState_iff: "validateRolloverState z r = Inr () \<longleftrightarrow> rollover_ok z r"
proof (cases "maxDNSTTLSeconds < r_ParentDSTTL r")
  case True
  then show ?thesis by (simp add: validateRolloverState_def rollover_ok_def not_le [symmetric])
next
  case False
  then have ttl: "(maxDNSTTLSeconds < r_ParentDSTTL r) = False"
      "(r_ParentDSTTL r \<le> maxDNSTTLSeconds) = True" by auto
  consider "r_Type r = ''ksk''" | "r_Type r = ''zsk''" | "r_Type r = ''algorithm''"
    | "r_Type r \<notin> {''ksk'', ''zsk'', ''algorithm''}" by blast
  then show ?thesis
  proof cases
    case 1
    then show ?thesis
      by (simp add: validateRolloverState_def rollover_ok_def ttl split: option.split)
  next
    case 2
    then show ?thesis
      by (auto simp: validateRolloverState_def rollover_ok_def ttl split: option.split)
  next
    case 3
    then show ?thesis
      by (simp add: validateRolloverState_def rollover_ok_def ttl split: option.split)
  next
    case 4
    then show ?thesis by (simp add: validateRolloverState_def rollover_ok_def ttl)
  qed
qed

lemma validateKeyState_iff:
  "validateKeyState role ko = Inr () \<longleftrightarrow> (\<forall>k. ko = Some k \<longrightarrow> \<not> blank (k_Algorithm k))"
  by (auto simp: validateKeyState_def split: option.splits)

definition zone_ok :: "zone_state \<Rightarrow> bool" where
  "zone_ok z \<longleftrightarrow> CHR 0x00 \<notin> set (z_Path z) \<and> (z_LastSigned z \<noteq> 0 \<longrightarrow> \<not> blank (z_Path z)) \<and>
     (\<forall>k. z_KSK z = Some k \<longrightarrow> \<not> blank (k_Algorithm k)) \<and>
     (\<forall>k. z_ZSK z = Some k \<longrightarrow> \<not> blank (k_Algorithm k)) \<and>
     (\<forall>r. z_Rollover z = Some r \<longrightarrow> rollover_ok z r)"

lemma validateZoneEntry_iff:
  "validateZoneEntry isDN name zo = Inr () \<longleftrightarrow>
     \<not> blank name \<and> isDN name \<and> (\<exists>z. zo = Some z \<and> zone_ok z)"
  unfolding validateZoneEntry_def zone_ok_def
  using validateKeyState_iff [of "''ksk''"] validateKeyState_iff [of "''zsk''"] validateRolloverState_iff
  by (auto split: option.splits sum.splits) (metis Inr_not_Inl)+

text \<open>Fields the schema check does not read.\<close>

lemma rollover_ok_cong:
  "z_KSK z = z_KSK z' \<Longrightarrow> z_ZSK z = z_ZSK z' \<Longrightarrow> rollover_ok z r = rollover_ok z' r"
  by (simp add: rollover_ok_def)

lemma zone_ok_cong:
  assumes "z_Path z = z_Path z'" "z_LastSigned z = z_LastSigned z'" "z_KSK z = z_KSK z'"
    "z_ZSK z = z_ZSK z'" "z_Rollover z = z_Rollover z'"
  shows "zone_ok z = zone_ok z'"
  using assms rollover_ok_cong [of z z'] by (simp add: zone_ok_def)

lemma zone_ok_frame [simp]:
  "zone_ok (z\<lparr>z_Revision := a\<rparr>) = zone_ok z"
  "zone_ok (z\<lparr>z_Warnings := ws\<rparr>) = zone_ok z"
  "zone_ok (z\<lparr>z_Errors := ws\<rparr>) = zone_ok z"
  "zone_ok (z\<lparr>z_ForceResign := b\<rparr>) = zone_ok z"
  "zone_ok (AddWarning msg z) = zone_ok z"
  "zone_ok (ClearTransientWarnings z) = zone_ok z"
  "zone_ok (ConfirmPublication s now z) = zone_ok z"
  by (rule zone_ok_cong;
      simp add: AddWarning_def ClearTransientWarnings_def ConfirmPublication_def Let_def)+

subsection \<open>Publication\<close>

text \<open>Confirming a publication never lowers a cache horizon, accepted or not.\<close>

lemma ConfirmPublication_horizons_mono:
  "z_DNSKEYCacheHorizon z \<le> z_DNSKEYCacheHorizon (ConfirmPublication s now z)"
  "z_RRSIGCacheHorizon z \<le> z_RRSIGCacheHorizon (ConfirmPublication s now z)"
  by (simp_all add: ConfirmPublication_def Let_def)

lemma ConfirmPublication_generation_mono:
  "z_PublishedGenerationSignedAt z \<le> z_PublishedGenerationSignedAt (ConfirmPublication s now z)"
  by (simp add: ConfirmPublication_def Let_def)

lemma PublishedSince_ConfirmPublication:
  "PublishedSince z t \<Longrightarrow> PublishedSince (ConfirmPublication s now z) t"
  using ConfirmPublication_generation_mono [of z s now] by (auto simp: PublishedSince_def)

text \<open>
  An accepted confirmation raises both horizons to the confirmation time plus the
  lifetime of what resolvers were served before.
\<close>

definition served_dnskey_ttl :: "zone_state \<Rightarrow> 32 word" where
  "served_dnskey_ttl z = (if z_ServedDNSKEYTTL z = 0 then z_PublishedDNSKEYTTL z else z_ServedDNSKEYTTL z)"

definition served_rrsig_ttl :: "zone_state \<Rightarrow> 32 word" where
  "served_rrsig_ttl z = (if z_ServedMaxRRSIGTTL z = 0 then z_PublishedMaxRRSIGTTL z else z_ServedMaxRRSIGTTL z)"

lemma ConfirmPublication_accepted:
  assumes "z_PublishedGenerationSignedAt z \<le> s"
  shows "z_DNSKEYCacheHorizon (ConfirmPublication s now z) =
           max (z_DNSKEYCacheHorizon z) (now + seconds (served_dnskey_ttl z))"
    and "z_RRSIGCacheHorizon (ConfirmPublication s now z) =
           max (z_RRSIGCacheHorizon z) (now + seconds (served_rrsig_ttl z))"
    and "z_PublishedAt (ConfirmPublication s now z) = now"
    and "z_PublishedGenerationSignedAt (ConfirmPublication s now z) = s"
  using assms
  by (auto simp: ConfirmPublication_def Let_def served_dnskey_ttl_def served_rrsig_ttl_def)

subsection \<open>Diagnostics\<close>

lemma colon_free_prefix_unique:
  assumes "CHR '':'' \<notin> set a" "CHR '':'' \<notin> set b"
    and "has_prefix e (a @ '': '')" "has_prefix e (b @ '': '')"
  shows "a = b"
proof -
  from assms(3,4) obtain s t where "a @ CHR '':'' # '' '' @ s = b @ CHR '':'' # '' '' @ t"
    by (auto simp: has_prefix_iff)
  with assms(1,2) show ?thesis
    by (auto simp: append_eq_append_conv2 Cons_eq_append_conv append_eq_Cons_conv)
qed

lemma HasOperationError_Clear [simp]: "\<not> HasOperationError op (ClearOperationError op z)"
  by (auto simp: HasOperationError_def ClearOperationError_def)

lemma HasOperationError_Clear_other:
  assumes "CHR '':'' \<notin> set a" "CHR '':'' \<notin> set b" "a \<noteq> b"
  shows "HasOperationError a (ClearOperationError b z) = HasOperationError a z"
  using colon_free_prefix_unique [OF assms(1,2)] assms(3)
  by (auto simp: HasOperationError_def ClearOperationError_def)

lemma HasOperationError_Set [simp]: "HasOperationError op (SetOperationError op msg z)"
  by (auto simp: HasOperationError_def SetOperationError_def Let_def has_prefix_iff)

lemma HasOperationError_Set_other:
  assumes "CHR '':'' \<notin> set a" "CHR '':'' \<notin> set b" "a \<noteq> b"
  shows "HasOperationError a (SetOperationError b msg z) = HasOperationError a z"
proof -
  have "\<not> has_prefix (b @ '': '' @ msg) (a @ '': '')"
    using colon_free_prefix_unique [OF assms(1,2), of "b @ '': '' @ msg"] assms(3)
    by (auto simp: has_prefix_iff)
  then show ?thesis
    using HasOperationError_Clear_other [OF assms, of z]
    by (auto simp: HasOperationError_def SetOperationError_def Let_def)
qed

lemma operation_names_colon_free:
  "op \<in> {OpSigning, OpRollover, OpInit, OpDeployment, OpRegistrar} \<Longrightarrow> CHR '':'' \<notin> set op"
  by (auto simp: OpSigning_def OpRollover_def OpInit_def OpDeployment_def OpRegistrar_def)

lemma set_ClearTransientWarnings:
  "set (z_Warnings (ClearTransientWarnings z)) =
     {w \<in> set (z_Warnings z). has_prefix w stickyWarningPrefix}"
  by (auto simp: ClearTransientWarnings_def)

end
