(* ===== verification/Signer_Config.thy ===== *)
theory Signer_Config
  imports Go_Lib
begin

text \<open>
  The signer's configuration (\<open>signer/internal/config/config.go\<close>): the settings the
  signing and rollover code reads, their per-zone overrides, and the policy checks on the
  parent DS TTL, on signature timing and on managed-zone names.
\<close>

section \<open>Settings\<close>

record dnssec_config =
  c_Algorithm :: string
  c_KSKLifetime :: duration
  c_ZSKLifetime :: duration
  c_SignatureValidity :: duration
  c_SignatureRefresh :: duration
  c_NSECVersion :: string
  c_NSEC3Iterations :: int
  c_NSEC3Salt :: string
  c_DNSKEYTtl :: "32 word"
  c_RolloverPrepublish :: duration
  c_RolloverSwitch :: duration
  c_SerialPolicy :: string
  c_Publication :: string
  c_ParentDSTTL :: duration

record zone_config =
  zc_Path :: string
  zc_KSKLifetime :: duration
  zc_ZSKLifetime :: duration
  zc_Algorithm :: string
  zc_Registrar :: string
  zc_SerialPolicy :: string

record hooks_config =
  h_PostSign :: string
  h_PostSignCmd :: "string list"
  h_Shell :: bool
  h_CoalescePostSign :: bool

text \<open>
  The settings of the web, health, heartbeat, validation and registrar services are not
  part of the model.
\<close>

record config =
  OutputDir :: string
  DataDir :: string
  PollInterval :: duration
  DNSSEC :: dnssec_config
  Zones :: "(string, zone_config) gomap"
  Hooks :: hooks_config
  LoadedAt :: gotime

section \<open>Publication mode\<close>

definition PublicationHook :: string where "PublicationHook = ''hook''"
definition PublicationImmediate :: string where "PublicationImmediate = ''immediate''"
definition PublicationProbe :: string where "PublicationProbe = ''probe''"

definition HookConfigured :: "config \<Rightarrow> bool" where
  "HookConfigured c \<longleftrightarrow> 0 < length (h_PostSignCmd (Hooks c)) \<or> \<not> blank (h_PostSign (Hooks c))"

definition PublicationMode :: "config \<Rightarrow> string" where
  "PublicationMode c = (let p = c_Publication (DNSSEC c) in
     if p = PublicationHook \<or> p = PublicationImmediate \<or> p = PublicationProbe then p
     else if HookConfigured c then PublicationHook else PublicationImmediate)"

lemma PublicationMode_cases:
  "PublicationMode c \<in> {PublicationHook, PublicationImmediate, PublicationProbe}"
  by (simp add: PublicationMode_def Let_def)

section \<open>Parent DS TTL\<close>

definition DefaultParentDSTTL :: duration where "DefaultParentDSTTL = 24 * Hour"
definition MinParentDSTTL :: duration where "MinParentDSTTL = Second"
definition MaxParentDSTTL :: duration where "MaxParentDSTTL = 7 * 24 * Hour"

definition ValidateParentDSTTL :: "duration \<Rightarrow> error + unit" where
  "ValidateParentDSTTL d =
     (if d = 0 then Inr ()
      else if d < 0 then Inl (Msg ''parent_ds_ttl must not be negative'')
      else if d < MinParentDSTTL then Inl (Msg ''parent_ds_ttl must be at least one second'')
      else if trunc_mod d Second \<noteq> 0 then Inl (Msg ''parent_ds_ttl must be whole seconds'')
      else if MaxParentDSTTL < d then Inl (Msg ''parent_ds_ttl must be at most a week'')
      else Inr ())"

definition ParentDSTTLFallback :: "config \<Rightarrow> duration" where
  "ParentDSTTLFallback c = (let d = c_ParentDSTTL (DNSSEC c) in
     if 0 < d \<and> ValidateParentDSTTL d = Inr () then d else DefaultParentDSTTL)"

text \<open>The conversion to \<open>uint32\<close> keeps the low 32 bits.\<close>

definition ParentDSTTLFallbackSeconds :: "config \<Rightarrow> 32 word" where
  "ParentDSTTLFallbackSeconds c = word_of_int (trunc_div (ParentDSTTLFallback c) Second)"

lemma ParentDSTTLFallback_policy:
  "MinParentDSTTL \<le> ParentDSTTLFallback c \<and> ParentDSTTLFallback c \<le> MaxParentDSTTL \<and>
   ParentDSTTLFallback c mod Second = 0"
  unfolding ParentDSTTLFallback_def Let_def
  by (auto simp: ValidateParentDSTTL_def DefaultParentDSTTL_def MinParentDSTTL_def MaxParentDSTTL_def
      Hour_def Minute_def Second_def split: if_splits)

section \<open>Signature timing\<close>

definition SignatureInceptionBackdate :: duration where "SignatureInceptionBackdate = Hour"
definition MinSignatureValidity :: duration where "MinSignatureValidity = Hour"
definition MinSignatureRefresh :: duration where "MinSignatureRefresh = Minute"
definition MaxSignatureValidity :: duration where "MaxSignatureValidity = 366 * 24 * Hour"
definition maxSerialWindow :: int where "maxSerialWindow = 2 ^ 31"
definition RefreshPollFactor :: int where "RefreshPollFactor = 2"

text \<open>A product of a small constant and an \<open>int64\<close> duration wraps.\<close>

definition wrap64 :: "int \<Rightarrow> int" where
  "wrap64 x = (x + 2 ^ 63) mod 2 ^ 64 - 2 ^ 63"

lemma wrap64_id: "- (2 ^ 63) \<le> x \<Longrightarrow> x < 2 ^ 63 \<Longrightarrow> wrap64 x = x"
  by (simp add: wrap64_def)

definition ValidateSignatureTiming :: "duration \<Rightarrow> duration \<Rightarrow> duration \<Rightarrow> error + unit" where
  "ValidateSignatureTiming validity refresh poll =
     (if validity \<le> 0 then Inl (Msg ''signature_validity must be positive'')
      else if refresh \<le> 0 then Inl (Msg ''signature_refresh must be positive'')
      else if validity < MinSignatureValidity then Inl (Msg ''signature_validity is too short'')
      else let window = trunc_div validity Second + trunc_div SignatureInceptionBackdate Second in
        if maxSerialWindow \<le> trunc_div validity Second \<or> maxSerialWindow \<le> window then
          Inl (Msg ''signature_validity is not representable as a DNSSEC signature window'')
        else if MaxSignatureValidity < validity then Inl (Msg ''signature_validity is too long'')
        else if refresh < MinSignatureRefresh then Inl (Msg ''signature_refresh is too short'')
        else if validity \<le> refresh then Inl (Msg ''signature_refresh must be less than signature_validity'')
        else if 0 < poll \<and> refresh < wrap64 (RefreshPollFactor * poll) then
          Inl (Msg ''signature_refresh must cover two poll intervals'')
        else Inr ())"

section \<open>Per-zone settings\<close>

definition GetZoneKSKLifetime :: "config \<Rightarrow> string \<Rightarrow> duration" where
  "GetZoneKSKLifetime c domain = (case map_of (Zones c) domain of
     Some z \<Rightarrow> if 0 < zc_KSKLifetime z then zc_KSKLifetime z else c_KSKLifetime (DNSSEC c)
   | None \<Rightarrow> c_KSKLifetime (DNSSEC c))"

definition GetZoneZSKLifetime :: "config \<Rightarrow> string \<Rightarrow> duration" where
  "GetZoneZSKLifetime c domain = (case map_of (Zones c) domain of
     Some z \<Rightarrow> if 0 < zc_ZSKLifetime z then zc_ZSKLifetime z else c_ZSKLifetime (DNSSEC c)
   | None \<Rightarrow> c_ZSKLifetime (DNSSEC c))"

definition GetZoneAlgorithm :: "config \<Rightarrow> string \<Rightarrow> string" where
  "GetZoneAlgorithm c domain = (case map_of (Zones c) domain of
     Some z \<Rightarrow> if zc_Algorithm z \<noteq> [] then zc_Algorithm z else c_Algorithm (DNSSEC c)
   | None \<Rightarrow> c_Algorithm (DNSSEC c))"

definition GetZoneSerialPolicy :: "config \<Rightarrow> string \<Rightarrow> string" where
  "GetZoneSerialPolicy c domain =
     (let fallback = (if c_SerialPolicy (DNSSEC c) \<noteq> [] then c_SerialPolicy (DNSSEC c) else ''keep'')
      in case map_of (Zones c) domain of
           Some z \<Rightarrow> if zc_SerialPolicy z \<noteq> [] then zc_SerialPolicy z else fallback
         | None \<Rightarrow> fallback)"

definition KeysDir :: "config \<Rightarrow> string" where
  "KeysDir c = path_join (DataDir c) ''keys''"

definition StatePath :: "config \<Rightarrow> string" where
  "StatePath c = path_join (DataDir c) ''state.json''"

section \<open>Managed-zone names\<close>

definition MaxZoneLabelLength :: nat where "MaxZoneLabelLength = 63"
definition MaxZoneNameLength :: nat where "MaxZoneNameLength = 253"

definition trim_dot :: "string \<Rightarrow> string" where
  "trim_dot s = (if s \<noteq> [] \<and> last s = CHR ''.'' then butlast s else s)"

fun has_dotdot :: "string \<Rightarrow> bool" where
  "has_dotdot (a # b # s) \<longleftrightarrow> a = CHR ''.'' \<and> b = CHR ''.'' \<or> has_dotdot (b # s)"
| "has_dotdot _ \<longleftrightarrow> False"

definition zone_name_char :: "char \<Rightarrow> bool" where
  "zone_name_char c = (let n = (of_char c :: nat) in
     97 \<le> n \<and> n \<le> 122 \<or> 65 \<le> n \<and> n \<le> 90 \<or> 48 \<le> n \<and> n \<le> 57 \<or>
     c = CHR ''-'' \<or> c = CHR ''.'' \<or> c = CHR ''_'')"

definition check_label :: "string \<Rightarrow> error + unit" where
  "check_label l =
     (if MaxZoneLabelLength < length l then Inl (Msg ''label above the octet limit'')
      else if l \<noteq> [] \<and> (hd l = CHR ''-'' \<or> last l = CHR ''-'') then
        Inl (Msg ''label must not start or end with a hyphen'')
      else Inr ())"

fun check_labels :: "string list \<Rightarrow> error + unit" where
  "check_labels [] = Inr ()"
| "check_labels (l # ls) = (case check_label l of Inl e \<Rightarrow> Inl e | Inr _ \<Rightarrow> check_labels ls)"

definition ValidateDomainName :: "string \<Rightarrow> error + unit" where
  "ValidateDomainName domain =
     (if domain = [] then Inl (Msg ''domain name must not be empty'')
      else if domain = ''.'' then Inl (Msg ''the root zone is not a supported managed zone'')
      else if CHR ''/'' \<in> set domain \<or> CHR 0x5C \<in> set domain then
        Inl (Msg ''domain name must not contain path separators or escapes'')
      else if has_dotdot domain then Inl (Msg ''domain name must not contain an empty label'')
      else if has_prefix domain ''.'' then Inl (Msg ''domain name must not start with a dot'')
      else if \<not> list_all zone_name_char domain then Inl (Msg ''domain name contains invalid character'')
      else let name = trim_dot domain in
        if MaxZoneNameLength < length name then Inl (Msg ''domain name above the character limit'')
        else check_labels (split_on (CHR ''.'') name))"

subsection \<open>What the name check guarantees\<close>

lemma check_labels_iff:
  "check_labels ls = Inr () \<longleftrightarrow> (\<forall>l \<in> set ls. check_label l = Inr ())"
  by (induction ls) (auto split: sum.splits)

text \<open>
  Without a doubled, leading or trailing dot every label is non-empty.
\<close>

lemma split_dot_nonempty:
  assumes "s \<noteq> []" and "\<not> has_dotdot s" and "last s \<noteq> CHR ''.''"
  shows "[] \<notin> set (tl (split_on (CHR ''.'') s)) \<and>
    (hd s \<noteq> CHR ''.'' \<longrightarrow> [] \<notin> set (split_on (CHR ''.'') s))"
  using assms
proof (induction s rule: has_dotdot.induct)
  case (1 a b s)
  then have IH: "[] \<notin> set (tl (split_on (CHR ''.'') (b # s)))"
      "b \<noteq> CHR ''.'' \<Longrightarrow> [] \<notin> set (split_on (CHR ''.'') (b # s))" by auto
  obtain l ls where sp: "split_on (CHR ''.'') (b # s) = l # ls"
    by (metis split_on_not_Nil neq_Nil_conv)
  have step: "split_on (CHR ''.'') (a # b # s) =
      (if a = CHR ''.'' then [] # l # ls else (a # l) # ls)"
    using sp by (simp del: split_on.simps add: split_on.simps(2) [of _ a])
  show ?case using 1(3) IH sp by (auto simp: step simp del: split_on.simps split: if_splits)
qed auto

text \<open>
  An accepted zone name holds no path separator, no parent reference and no empty or
  over-long label, so it is safe as a component of a key file name.
\<close>

lemma trim_dot_append: "s = trim_dot s \<or> s = trim_dot s @ ''.''"
  by (auto simp: trim_dot_def) (metis append_butlast_last_id)

lemma has_dotdot_append: "has_dotdot s \<Longrightarrow> has_dotdot (s @ t)"
  by (induction s rule: has_dotdot.induct) auto

lemma has_dotdot_snoc: "s \<noteq> [] \<Longrightarrow> last s = CHR ''.'' \<Longrightarrow> has_dotdot (s @ ''.'')"
  by (induction s rule: has_dotdot.induct) (auto split: if_splits)

lemma ValidateDomainName_parts:
  assumes "ValidateDomainName d = Inr ()"
  shows "d \<noteq> []" "d \<noteq> ''.''" "CHR ''/'' \<notin> set d" "\<not> has_dotdot d" "hd d \<noteq> CHR ''.''"
    "length (trim_dot d) \<le> MaxZoneNameLength"
    "\<forall>l \<in> set (split_on (CHR ''.'') (trim_dot d)). check_label l = Inr ()"
  using assms
  by (auto simp: ValidateDomainName_def Let_def check_labels_iff has_prefix_def not_less
      neq_Nil_conv split: if_splits)

lemma ValidateDomainName_labels:
  assumes "ValidateDomainName d = Inr ()" and "l \<in> set (split_on (CHR ''.'') (trim_dot d))"
  shows "l \<noteq> []" and "length l \<le> 63"
proof -
  note p = ValidateDomainName_parts [OF assms(1)]
  show "length l \<le> 63" using p(7) assms(2)
    by (auto simp: check_label_def MaxZoneLabelLength_def split: if_splits)
  have ne: "trim_dot d \<noteq> []" using p(1,2) trim_dot_append [of d] by auto
  have hd: "hd (trim_dot d) \<noteq> CHR ''.''"
    using p(5) ne trim_dot_append [of d] by (metis hd_append2)
  have dd: "\<not> has_dotdot (trim_dot d)"
    using p(4) trim_dot_append [of d] has_dotdot_append by metis
  have last: "last (trim_dot d) \<noteq> CHR ''.''"
  proof
    assume l: "last (trim_dot d) = CHR ''.''"
    from trim_dot_append [of d] show False
    proof
      assume "d = trim_dot d"
      with l ne have "d \<noteq> [] \<and> last d = CHR ''.''" by auto
      then have "trim_dot d = butlast d" by (simp add: trim_dot_def)
      with \<open>d = trim_dot d\<close> p(1) show False by (metis length_butlast Suc_diff_1 length_greater_0_conv n_not_Suc_n)
    next
      assume "d = trim_dot d @ ''.''"
      with has_dotdot_snoc [OF ne l] p(4) show False by simp
    qed
  qed
  show "l \<noteq> []" using split_dot_nonempty [OF ne dd last] hd assms(2) by auto
qed

end
