(* ===== verification/Fs_Model.thy ===== *)
theory Fs_Model
  imports Go_Lib
begin

text \<open>
  The file system the signer writes to, with faults and crashes, and the durable replace
  operations of \<open>signer/internal/fsutil/fsutil.go\<close>.

  Every system call and every reading of the clock consumes one tick. What it does at a
  tick is decided by the environment: it succeeds, it fails, or the process stops there (a
  crash or power loss). After a stop no call has any effect, so the files the model ends
  with are exactly the files a restart would find. Theorems hold for every environment and
  therefore for a crash at every point.
\<close>

datatype io_outcome = IoOk | IoFail | IoUnsupported | IoCrash

record env =
  now_at :: "nat \<Rightarrow> gotime"
  io_at :: "nat \<Rightarrow> io_outcome"

record fs_world =
  tick :: nat
  halted :: bool
  files :: "(string, string) gomap"

text \<open>The content of a path, if a file is there.\<close>

definition content :: "'w fs_world_scheme \<Rightarrow> string \<Rightarrow> string option" where
  "content w p = map_of (files w) p"

lemma content_tick [simp]: "content (w\<lparr>tick := t\<rparr>) p = content w p" "content (w\<lparr>halted := h\<rparr>) p = content w p"
  by (simp_all add: content_def)

lemma content_update [simp]:
  "content (w\<lparr>files := AList.update q d (files w)\<rparr>) p = (if p = q then Some d else content w p)"
  "content (w\<lparr>files := AList.delete q (files w)\<rparr>) p = (if p = q then None else content w p)"
  "content (w\<lparr>files := AList.update q d (AList.delete r (files w))\<rparr>) p =
     (if p = q then Some d else if p = r then None else content w p)"
  by (simp_all add: content_def update_conv' delete_conv')

definition crashed :: error where "crashed = Msg ''process stopped''"

text \<open>\<open>time.Now().UTC()\<close>.\<close>

definition clock :: "env \<Rightarrow> ('w fs_world_scheme, gotime) op" where
  "clock env = (\<lambda>w. (Inr (now_at env (tick w)), w\<lparr>tick := Suc (tick w)\<rparr>))"

text \<open>
  One system call: on success its effect and its result, on failure the given error, and
  no effect at all once the process has stopped.
\<close>

definition io_step ::
  "env \<Rightarrow> error \<Rightarrow> ('w fs_world_scheme, 'a) op \<Rightarrow> ('w fs_world_scheme, 'a) op" where
  "io_step env err act = (\<lambda>w.
     let w1 = w\<lparr>tick := Suc (tick w)\<rparr> in
     if halted w then (Inl crashed, w1) else
     (case io_at env (tick w) of
        IoOk \<Rightarrow> act w1
      | IoFail \<Rightarrow> (Inl err, w1)
      | IoUnsupported \<Rightarrow> (Inl err, w1)
      | IoCrash \<Rightarrow> (Inl crashed, w1\<lparr>halted := True\<rparr>)))"

text \<open>A call that changes nothing the model tracks (temporary files, modes, ownership, sync).\<close>

abbreviation io_nop :: "env \<Rightarrow> string \<Rightarrow> ('w fs_world_scheme, unit) op" where
  "io_nop env s \<equiv> io_step env (Msg s) (op_ok ())"

section \<open>Reading\<close>

definition statExists :: "env \<Rightarrow> string \<Rightarrow> ('w fs_world_scheme, bool) op" where
  "statExists env path = io_step env (Msg ''stat'') (op_get (\<lambda>w. content w path \<noteq> None))"

definition ReadFile :: "env \<Rightarrow> string \<Rightarrow> ('w fs_world_scheme, string) op" where
  "ReadFile env path = io_step env (Msg ''read'') (\<lambda>w. case content w path of
     None \<Rightarrow> (Inl (Msg ''no such file''), w) | Some c \<Rightarrow> (Inr c, w))"

section \<open>Atomic replacement\<close>

text \<open>
  The common tail of \<open>WriteFileAtomicOwned\<close> and \<open>CopyFile\<close>: the data goes to a
  temporary file of a fresh hidden name, is synced, gets its owner, and replaces the target
  by a rename; only then is the directory synced, and a failure there is a
  \<open>DurabilityError\<close> because the new content is already visible. A file system that
  does not support syncing a directory is not an error.
\<close>

fun io_nops :: "env \<Rightarrow> string list \<Rightarrow> ('w fs_world_scheme, unit) op" where
  "io_nops env [] = op_ok ()"
| "io_nops env (s # ss) = op_bind (io_nop env s) (\<lambda>_. io_nops env ss)"

definition SyncDir :: "env \<Rightarrow> error \<Rightarrow> ('w fs_world_scheme, unit) op" where
  "SyncDir env err = (\<lambda>w. if \<not> halted w \<and> io_at env (tick w) = IoUnsupported
     then (Inr (), w\<lparr>tick := Suc (tick w)\<rparr>) else io_step env err (op_ok ()) w)"

definition replace_atomic ::
  "env \<Rightarrow> string \<Rightarrow> ('w fs_world_scheme \<Rightarrow> 'w fs_world_scheme) \<Rightarrow> ('w fs_world_scheme, unit) op" where
  "replace_atomic env path commit =
     op_bind (io_nops env [''creating temp file'', ''chmod temp file'', ''writing temp file'',
       ''syncing temp file'', ''closing temp file'', ''assigning ownership'']) (\<lambda>_.
     op_bind (io_step env (Msg ''renaming temp file'') (op_upd commit)) (\<lambda>_.
       SyncDir env (DurabilityError path)))"

definition put_file :: "string \<Rightarrow> string \<Rightarrow> 'w fs_world_scheme \<Rightarrow> 'w fs_world_scheme" where
  "put_file path data w = w\<lparr>files := AList.update path data (files w)\<rparr>"

definition WriteFileAtomicOwned :: "env \<Rightarrow> string \<Rightarrow> string \<Rightarrow> ('w fs_world_scheme, unit) op" where
  "WriteFileAtomicOwned env path data = replace_atomic env path (put_file path data)"

definition CopyFile :: "env \<Rightarrow> string \<Rightarrow> string \<Rightarrow> ('w fs_world_scheme, unit) op" where
  "CopyFile env src dst =
     op_bind (statExists env src) (\<lambda>ex. if \<not> ex then op_fail (Msg ''no such file'') else
     op_bind (ReadFile env src) (\<lambda>data. replace_atomic env dst (put_file dst data)))"

section \<open>Directory entries\<close>

text \<open>
  \<open>os.Link\<close> fails with \<open>ErrExist\<close> when the destination is taken; the outcome
  \<open>IoUnsupported\<close> is a file system without hard links.
\<close>

datatype link_result = Linked | LinkExists | LinkUnsupported | LinkFailed

definition osLink :: "env \<Rightarrow> string \<Rightarrow> string \<Rightarrow> ('w fs_world_scheme, link_result) op" where
  "osLink env src dst = (\<lambda>w.
     let w1 = w\<lparr>tick := Suc (tick w)\<rparr> in
     if halted w then (Inr LinkFailed, w1) else
     (case io_at env (tick w) of
        IoOk \<Rightarrow> (case (content w src, content w dst) of
            (None, _) \<Rightarrow> (Inr LinkFailed, w1)
          | (Some c, Some _) \<Rightarrow> (Inr LinkExists, w1)
          | (Some c, None) \<Rightarrow> (Inr Linked, put_file dst c w1))
      | IoFail \<Rightarrow> (Inr LinkFailed, w1)
      | IoUnsupported \<Rightarrow> (Inr LinkUnsupported, w1)
      | IoCrash \<Rightarrow> (Inr LinkFailed, w1\<lparr>halted := True\<rparr>)))"

definition osRemove :: "env \<Rightarrow> string \<Rightarrow> ('w fs_world_scheme, unit) op" where
  "osRemove env path = io_step env (Msg ''remove'') (op_upd (\<lambda>w. w\<lparr>files := AList.delete path (files w)\<rparr>))"

definition osRename :: "env \<Rightarrow> string \<Rightarrow> string \<Rightarrow> ('w fs_world_scheme, unit) op" where
  "osRename env src dst = io_step env (Msg ''rename'') (\<lambda>w. case content w src of
     None \<Rightarrow> (Inl (Msg ''no such file''), w)
   | Some c \<Rightarrow> (Inr (), w\<lparr>files := AList.update dst c (AList.delete src (files w))\<rparr>))"

text \<open>Exclusive creation of an empty file; \<open>False\<close> when the name is taken.\<close>

definition reserveFile :: "env \<Rightarrow> string \<Rightarrow> ('w fs_world_scheme, bool) op" where
  "reserveFile env path =
     op_bind (io_step env (Msg ''reserving'') (\<lambda>w. case content w path of
        Some _ \<Rightarrow> (Inr False, w) | None \<Rightarrow> (Inr True, put_file path [] w)))
     (\<lambda>claimed. if \<not> claimed then op_ok False else
        op_bind (io_nop env ''reserving'') (\<lambda>_. op_ok True))"

text \<open>Removal of a placeholder while it is still empty; every failure is ignored.\<close>

definition releaseReservation :: "env \<Rightarrow> string \<Rightarrow> ('w fs_world_scheme, unit) op" where
  "releaseReservation env path =
     op_try (io_step env (Msg ''lstat'') (op_get (\<lambda>w. content w path))) (\<lambda>r. case r of
       Inr (Some []) \<Rightarrow> op_try (osRemove env path) (\<lambda>_. op_ok ())
     | _ \<Rightarrow> op_ok ())"

section \<open>What the calls change\<close>

text \<open>Once the process has stopped nothing on disk changes.\<close>

lemma io_step_halted: "halted w \<Longrightarrow> io_step env e act w = (Inl crashed, w\<lparr>tick := Suc (tick w)\<rparr>)"
  by (simp add: io_step_def Let_def)

lemma io_step_cases:
  obtains (ok) "\<not> halted w" "io_step env e act w = act (w\<lparr>tick := Suc (tick w)\<rparr>)"
  | (fail) e' where "io_step env e act w = (Inl e', w\<lparr>tick := Suc (tick w)\<rparr>)" "e' = e \<or> e' = crashed"
  | (crash) "io_step env e act w = (Inl crashed, w\<lparr>tick := Suc (tick w), halted := True\<rparr>)"
  by (cases "io_at env (tick w)"; cases "halted w") (auto simp: io_step_def Let_def)

text \<open>
  \<open>only_files P\<close>: every file outside the set \<open>P\<close> of paths is as before.
\<close>

definition only_files :: "string set \<Rightarrow> 'w fs_world_scheme \<Rightarrow> 'w fs_world_scheme \<Rightarrow> bool" where
  "only_files P w w' \<longleftrightarrow> (\<forall>p. p \<notin> P \<longrightarrow> content w' p = content w p)"

interpretation onlyf: keep_relation "only_files P" for P
  by unfold_locales (auto simp: only_files_def)

lemmas only_files_rules = onlyf.keeps_rules

lemma only_files_mono: "keeps (only_files P) m \<Longrightarrow> P \<subseteq> Q \<Longrightarrow> keeps (only_files Q) m"
  by (auto simp: keeps_def only_files_def)

lemma keeps_only_files_io_step:
  assumes "keeps (only_files P) act"
  shows "keeps (only_files P) (io_step env e act)"
proof (rule keepsI)
  fix w :: "'a fs_world_scheme"
  show "only_files P w (snd (io_step env e act w))"
  proof (cases rule: io_step_cases [of w env e act])
    case ok
    have "only_files P (w\<lparr>tick := Suc (tick w)\<rparr>) (snd (act (w\<lparr>tick := Suc (tick w)\<rparr>)))"
      using assms by (simp add: keeps_def)
    with ok show ?thesis by (simp add: only_files_def)
  qed (simp_all add: only_files_def)
qed

lemma keeps_only_files_upd: "(\<And>w. only_files P w (f w)) \<Longrightarrow> keeps (only_files P) (op_upd f)"
  by (simp add: keeps_def)

lemma only_files_put [simp]: "only_files P w (put_file p d w) \<longleftrightarrow> p \<in> P \<or> content w p = Some d"
  by (auto simp: only_files_def put_file_def)

lemma keeps_only_files_clock: "keeps (only_files P) (clock env)"
  by (simp add: keeps_def only_files_def clock_def)

lemma keeps_only_files_stat: "keeps (only_files P) (statExists env p)"
  unfolding statExists_def by (intro keeps_only_files_io_step only_files_rules)

lemma keeps_only_files_read: "keeps (only_files P) (ReadFile env p)"
  unfolding ReadFile_def
  by (rule keeps_only_files_io_step) (auto simp: keeps_def only_files_def split: option.splits)

section \<open>Atomicity\<close>

lemma crashed_uncommitted [simp]: "\<not> IsCommitted crashed"
  by (simp add: crashed_def)

lemma io_nops_cases:
  obtains (ok) t where "io_nops env ss w = (Inr (), w\<lparr>tick := t\<rparr>)"
  | (aborted) e t h where "io_nops env ss w = (Inl e, w\<lparr>tick := t, halted := h\<rparr>)" "\<not> IsCommitted e"
proof -
  have "(\<exists>t. io_nops env ss w = (Inr (), w\<lparr>tick := t\<rparr>)) \<or>
      (\<exists>e t h. io_nops env ss w = (Inl e, w\<lparr>tick := t, halted := h\<rparr>) \<and> \<not> IsCommitted e)"
  proof (induction ss arbitrary: w)
    case Nil
    have "io_nops env [] w = (Inr (), w\<lparr>tick := tick w\<rparr>)" by simp
    then show ?case by blast
  next
    case (Cons s ss)
    show ?case
    proof (cases rule: io_step_cases [of w env "Msg s" "op_ok ()"])
      case ok
      then have "io_nops env (s # ss) w = io_nops env ss (w\<lparr>tick := Suc (tick w)\<rparr>)"
        by (simp add: op_bind_def)
      with Cons.IH [of "w\<lparr>tick := Suc (tick w)\<rparr>"] show ?thesis by auto
    next
      case (fail e')
      then have "io_nops env (s # ss) w = (Inl e', w\<lparr>tick := Suc (tick w), halted := halted w\<rparr>)"
        "\<not> IsCommitted e'" by (auto simp: op_bind_def)
      then show ?thesis by blast
    next
      case crash
      then have "io_nops env (s # ss) w = (Inl crashed, w\<lparr>tick := Suc (tick w), halted := True\<rparr>)"
        by (simp add: op_bind_def)
      moreover have "\<not> IsCommitted crashed" by simp
      ultimately show ?thesis by blast
    qed
  qed
  then show ?thesis using ok aborted by blast
qed

text \<open>
  A replacement either leaves everything as it was and reports an uncommitted error, or
  the new content is in place; the error is a \<open>DurabilityError\<close> only in the second case.
  The process may have stopped at any point on the way.
\<close>

lemma replace_atomic_cases:
  fixes commit :: "'w fs_world_scheme \<Rightarrow> 'w fs_world_scheme"
  assumes comm: "\<And>w t. commit (w\<lparr>tick := t\<rparr>) = (commit w)\<lparr>tick := t\<rparr>"
    and halt: "\<And>w. halted (commit w) = halted w"
  obtains (committed) r t h where "replace_atomic env p commit w = (r, (commit w)\<lparr>tick := t, halted := h\<rparr>)"
      "r = Inr () \<and> \<not> h \<or> r = Inl (DurabilityError p) \<and> \<not> h \<or> r = Inl crashed \<and> h" "\<not> halted w"
    | (aborted) e t h where "replace_atomic env p commit w = (Inl e, w\<lparr>tick := t, halted := h\<rparr>)"
      "\<not> IsCommitted e"
proof -
  define Q where "Q rw \<longleftrightarrow> (\<exists>r t h. rw = (r, (commit w)\<lparr>tick := t, halted := h\<rparr>) \<and> \<not> halted w \<and>
      (r = Inr () \<and> \<not> h \<or> r = Inl (DurabilityError p) \<and> \<not> h \<or> r = Inl crashed \<and> h))
    \<or> (\<exists>e t h. rw = (Inl e, w\<lparr>tick := t, halted := h\<rparr>) \<and> \<not> IsCommitted e)" for rw
  have ab: "Q (Inl e, w\<lparr>tick := t, halted := h\<rparr>)" if "\<not> IsCommitted e" for e t h
    using that unfolding Q_def by blast
  have sync: "Q (SyncDir env (DurabilityError p) ((commit w)\<lparr>tick := t\<rparr>))" if nh: "\<not> halted w" for t
  proof -
    have c: "Q (r, (commit w)\<lparr>tick := t, halted := h\<rparr>)"
      if "r = Inr () \<and> \<not> h \<or> r = Inl (DurabilityError p) \<and> \<not> h \<or> r = Inl crashed \<and> h" for r t h
      using that nh unfolding Q_def by blast
    have nhc: "(commit w)\<lparr>tick := t, halted := False\<rparr> = (commit w)\<lparr>tick := t\<rparr>" for t
      using nh halt [of w] by (cases "commit w") simp
    have c1: "Q (Inr (), (commit w)\<lparr>tick := t\<rparr>)" and c2: "Q (Inl (DurabilityError p), (commit w)\<lparr>tick := t\<rparr>)" for t
      using c [of "Inr ()" False t] c [of "Inl (DurabilityError p)" False t] by (simp_all add: nhc)
    show ?thesis using nh halt [of w] c1 c2 c [of "Inl crashed" True]
      by (cases "io_at env t") (auto simp: SyncDir_def io_step_def Let_def)
  qed
  have rename: "Q (op_bind (io_step env (Msg ''renaming temp file'') (op_upd commit))
      (\<lambda>_. SyncDir env (DurabilityError p)) (w\<lparr>tick := t\<rparr>))" for t
  proof (cases rule: io_step_cases [of "w\<lparr>tick := t\<rparr>" env "Msg ''renaming temp file''" "op_upd commit"])
    case ok
    then show ?thesis using sync comm by (simp add: op_bind_def)
  next
    case (fail e')
    then show ?thesis using ab [where e = e' and t = "Suc t" and h = "halted w"] by (auto simp: op_bind_def)
  next
    case crash
    then show ?thesis using ab [of crashed] by (simp add: op_bind_def)
  qed
  have "Q (op_bind (io_nops env ss) (\<lambda>_. op_bind (io_step env (Msg ''renaming temp file'') (op_upd commit))
      (\<lambda>_. SyncDir env (DurabilityError p))) w)" for ss
    by (cases rule: io_nops_cases [of env ss w]) (use ab rename in \<open>simp_all add: op_bind_apply [of "io_nops env ss"]\<close>)
  then have "Q (replace_atomic env p commit w)" unfolding replace_atomic_def .
  then show ?thesis unfolding Q_def using committed aborted by blast
qed

end
