(* ===== verification/Key_Format.thy ===== *)
theory Key_Format
  imports Go_Lib
begin

text \<open>
  DNSKEY records and private-key files (\<open>keys.go\<close> and \<open>rsa.go\<close> of
  \<open>signer/internal/signer\<close>): algorithm names, generation of key material, the
  BIND private-key format and its parser, and the check that the two halves of a pair
  correspond.

  The curve and RSA arithmetic of Go's crypto packages, and the record syntax and key-tag
  checksum of the DNS library, are the fields of \<open>keylib\<close>.
\<close>

section \<open>Keys\<close>

type_synonym bytes = string

record dnskey =
  dk_Name :: string
  dk_Flags :: "16 word"
  dk_Protocol :: "8 word"
  dk_Algorithm :: "8 word"
  dk_PublicKey :: string

datatype curve = P256 | P384

record rsa_private =
  rsa_N :: nat
  rsa_E :: nat
  rsa_D :: nat
  rsa_Primes :: "nat list"

text \<open>
  The random source is a function of the tick at which it is read.
  \<open>EdPublic\<close> is the public half of \<open>ed25519.NewKeyFromSeed\<close>, \<open>BaseMult\<close> is
  \<open>ScalarBaseMult\<close>, and the generators return a seed, a scalar with its point, and an
  encoded RSA public key with its private key.
\<close>

record keylib =
  NewRR_DNSKEY :: "string \<Rightarrow> dnskey option"
  DNSKEY_String :: "dnskey \<Rightarrow> string"
  PrivateKeyString :: "dnskey \<Rightarrow> rsa_private \<Rightarrow> string"
  KeyTag :: "dnskey \<Rightarrow> 16 word"
  Fqdn :: "string \<Rightarrow> string"
  EdPublic :: "bytes \<Rightarrow> bytes"
  BaseMult :: "curve \<Rightarrow> bytes \<Rightarrow> nat \<times> nat"
  ParsePKCS1 :: "bytes \<Rightarrow> rsa_private option"
  MarshalPKCS1 :: "rsa_private \<Rightarrow> bytes"
  ValidateRSA :: "rsa_private \<Rightarrow> bool"
  EdGenerate :: "nat \<Rightarrow> bytes option"
  EcGenerate :: "nat \<Rightarrow> curve \<Rightarrow> (nat \<times> nat \<times> nat) option"
  RSAGenerate :: "nat \<Rightarrow> dnskey \<Rightarrow> nat \<Rightarrow> (string \<times> rsa_private) option"

definition ascii_lower :: "char \<Rightarrow> char" where
  "ascii_lower c = (let n = (of_char c :: nat) in if 65 \<le> n \<and> n \<le> 90 then char_of (n + 32) else c)"

text \<open>\<open>strings.EqualFold\<close> on the ASCII presentation of domain names.\<close>

definition EqualFold :: "string \<Rightarrow> string \<Rightarrow> bool" where
  "EqualFold a b \<longleftrightarrow> map ascii_lower a = map ascii_lower b"

lemma EqualFold_refl [simp]: "EqualFold a a"
  by (simp add: EqualFold_def)

lemma EqualFold_trans: "EqualFold a b \<Longrightarrow> EqualFold b c \<Longrightarrow> EqualFold a c"
  by (simp add: EqualFold_def)

lemma EqualFold_sym: "EqualFold a b \<Longrightarrow> EqualFold b a"
  by (simp add: EqualFold_def)

text \<open>Algorithm numbers of the DNSSEC registry.\<close>

abbreviation "RSASHA1 \<equiv> 5 :: 8 word"
abbreviation "RSASHA1NSEC3SHA1 \<equiv> 7 :: 8 word"
abbreviation "RSASHA256 \<equiv> 8 :: 8 word"
abbreviation "RSASHA512 \<equiv> 10 :: 8 word"
abbreviation "ECDSAP256SHA256 \<equiv> 13 :: 8 word"
abbreviation "ECDSAP384SHA384 \<equiv> 14 :: 8 word"
abbreviation "ED25519 \<equiv> 15 :: 8 word"

definition AlgorithmName :: "8 word \<Rightarrow> string" where
  "AlgorithmName alg =
     (case map_of [(1, ''RSAMD5''), (2, ''DH''), (3, ''DSA''), (5, ''RSASHA1''),
        (6, ''DSA-NSEC3-SHA1''), (7, ''RSASHA1-NSEC3-SHA1''), (8, ''RSASHA256''),
        (10, ''RSASHA512''), (12, ''ECC-GOST''), (13, ''ECDSAP256SHA256''),
        (14, ''ECDSAP384SHA384''), (15, ''ED25519''), (16, ''ED448'')] alg of
       Some name \<Rightarrow> name
     | None \<Rightarrow> ''Unknown('' @ show_nat (unat alg) @ '')'')"

definition AlgorithmFromName :: "string \<Rightarrow> error + 8 word" where
  "AlgorithmFromName name =
     (case map_of [(''ED25519'', ED25519), (''ECDSAP256SHA256'', ECDSAP256SHA256),
        (''ECDSAP384SHA384'', ECDSAP384SHA384), (''RSASHA256'', RSASHA256),
        (''RSASHA512'', RSASHA512)] name of
       Some alg \<Rightarrow> Inr alg | None \<Rightarrow> Inl (Msg ''unsupported algorithm''))"

section \<open>Base64\<close>

text \<open>
  \<open>base64.StdEncoding\<close>: decoding skips line breaks, requires padding, and ignores the
  unused low bits of the last symbol.
\<close>

definition b64_alphabet :: string where
  "b64_alphabet = ''ABCDEFGHIJKLMNOPQRSTUVWXYZabcdefghijklmnopqrstuvwxyz0123456789+/''"

definition b64_char :: "nat \<Rightarrow> char" where
  "b64_char n = b64_alphabet ! (n mod 64)"

definition b64_val :: "char \<Rightarrow> nat option" where
  "b64_val c = map_of (zip b64_alphabet [0..<64]) c"

abbreviation byte_val :: "char \<Rightarrow> nat" where "byte_val c \<equiv> of_char c"

fun b64_encode :: "bytes \<Rightarrow> string" where
  "b64_encode [] = []"
| "b64_encode [a] = [b64_char (byte_val a div 4), b64_char (byte_val a mod 4 * 16), CHR ''='', CHR ''='']"
| "b64_encode [a, b] = [b64_char (byte_val a div 4), b64_char (byte_val a mod 4 * 16 + byte_val b div 16),
     b64_char (byte_val b mod 16 * 4), CHR ''='']"
| "b64_encode (a # b # c # s) =
     b64_char (byte_val a div 4) # b64_char (byte_val a mod 4 * 16 + byte_val b div 16) #
     b64_char (byte_val b mod 16 * 4 + byte_val c div 64) # b64_char (byte_val c mod 64) # b64_encode s"

fun b64_quads :: "string \<Rightarrow> bytes option" where
  "b64_quads [] = Some []"
| "b64_quads (a # b # c # d # s) =
     (case (b64_val a, b64_val b) of
        (Some x, Some y) \<Rightarrow>
          let b1 = char_of (x * 4 + y div 16) in
          if c = CHR ''='' then (if d = CHR ''='' \<and> s = [] then Some [b1] else None)
          else (case b64_val c of None \<Rightarrow> None | Some z \<Rightarrow>
            let b2 = char_of (y mod 16 * 16 + z div 4) in
            if d = CHR ''='' then (if s = [] then Some [b1, b2] else None)
            else (case b64_val d of None \<Rightarrow> None | Some v \<Rightarrow>
              map_option (\<lambda>r. b1 # b2 # char_of (z mod 4 * 64 + v) # r) (b64_quads s)))
      | _ \<Rightarrow> None)"
| "b64_quads _ = None"

definition b64_decode :: "string \<Rightarrow> bytes option" where
  "b64_decode s = b64_quads (filter (\<lambda>c. c \<noteq> CHR 0x0A \<and> c \<noteq> CHR 0x0D) s)"

section \<open>Big integers\<close>

definition SetBytes :: "bytes \<Rightarrow> nat" where
  "SetBytes b = fold (\<lambda>c n. 256 * n + byte_val c) b 0"

text \<open>\<open>FillBytes\<close> into a buffer of the given size; the value always fits where it is used.\<close>

fun FillBytes :: "nat \<Rightarrow> nat \<Rightarrow> bytes" where
  "FillBytes 0 n = []"
| "FillBytes (Suc k) n = FillBytes k (n div 256) @ [char_of (n mod 256)]"

definition BitLen :: "nat \<Rightarrow> nat" where
  "BitLen n = floorlog 2 n"

section \<open>RSA\<close>

definition isRSA :: "8 word \<Rightarrow> bool" where
  "isRSA alg \<longleftrightarrow> alg = RSASHA256 \<or> alg = RSASHA512"

definition isSHA1RSA :: "8 word \<Rightarrow> bool" where
  "isSHA1RSA alg \<longleftrightarrow> alg = RSASHA1 \<or> alg = RSASHA1NSEC3SHA1"

definition checkRSABits :: "nat \<Rightarrow> error + unit" where
  "checkRSABits bits = (if bits < 512 then Inl (Msg ''RSA key is too short'')
     else if 4096 < bits then Inl (Msg ''RSA key is too long'') else Inr ())"

definition rsaPublicKeyFromDNSKEY :: "dnskey \<Rightarrow> error + nat \<times> nat" where
  "rsaPublicKeyFromDNSKEY k = (case b64_decode (dk_PublicKey k) of
      None \<Rightarrow> Inl (Msg ''decoding DNSKEY public key'')
    | Some raw \<Rightarrow>
        if length raw < 3 then Inl (Msg ''RSA DNSKEY public key is too short'')
        else let short = byte_val (raw ! 0);
                 (expLen, off) = (if short = 0 then (byte_val (raw ! 1) * 256 + byte_val (raw ! 2), 3) else (short, 1)) in
          if expLen = 0 \<or> length raw < off + expLen + 1 then
            Inl (Msg ''RSA DNSKEY public key has a malformed exponent length'')
          else let e = SetBytes (take expLen (drop off raw)) in
            if 31 < BitLen e then Inl (Msg ''RSA DNSKEY public exponent is too large'')
            else Inr (SetBytes (drop (off + expLen) raw), e))"

definition rsaPrivateKeyFromBytes :: "keylib \<Rightarrow> bytes \<Rightarrow> error + rsa_private" where
  "rsaPrivateKeyFromBytes lib priv = (case ParsePKCS1 lib priv of
      None \<Rightarrow> Inl (Msg ''invalid RSA private key'')
    | Some key \<Rightarrow> (case checkRSABits (BitLen (rsa_N key)) of Inl e \<Rightarrow> Inl e | Inr _ \<Rightarrow> Inr key))"

definition verifyRSACorrespondence :: "keylib \<Rightarrow> dnskey \<Rightarrow> bytes \<Rightarrow> error + unit" where
  "verifyRSACorrespondence lib k priv = (case rsaPrivateKeyFromBytes lib priv of
      Inl e \<Rightarrow> Inl e
    | Inr p \<Rightarrow> (case rsaPublicKeyFromDNSKEY k of
        Inl e \<Rightarrow> Inl e
      | Inr (n, e) \<Rightarrow> if n \<noteq> rsa_N p \<or> e \<noteq> rsa_E p
          then Inl (Msg ''RSA private key does not correspond to the DNSKEY public key'') else Inr ()))"

definition RSAKeyBits :: "dnskey \<Rightarrow> nat" where
  "RSAKeyBits k = (if \<not> isRSA (dk_Algorithm k) \<and> \<not> isSHA1RSA (dk_Algorithm k) then 0
     else case rsaPublicKeyFromDNSKEY k of Inl _ \<Rightarrow> 0 | Inr (n, e) \<Rightarrow> BitLen n)"

text \<open>One field of an RSA private-key file.\<close>

definition rsa_field :: "(string, string) gomap \<Rightarrow> string \<Rightarrow> error + nat" where
  "rsa_field flds name = (case map_of flds name of
      None \<Rightarrow> Inl (Msg ''missing field in RSA private key file'')
    | Some v \<Rightarrow> (case b64_decode v of
        None \<Rightarrow> Inl (Msg ''decoding RSA field'')
      | Some b \<Rightarrow> if length b = 0 then Inl (Msg ''RSA field is empty'') else Inr (SetBytes b)))"

fun rsa_fields :: "(string, string) gomap \<Rightarrow> string list \<Rightarrow> error + nat list" where
  "rsa_fields flds [] = Inr []"
| "rsa_fields flds (n # ns) = (case rsa_field flds n of Inl e \<Rightarrow> Inl e
     | Inr x \<Rightarrow> (case rsa_fields flds ns of Inl e \<Rightarrow> Inl e | Inr xs \<Rightarrow> Inr (x # xs)))"

definition parseBindRSAPrivateKey :: "keylib \<Rightarrow> (string, string) gomap \<Rightarrow> error + bytes" where
  "parseBindRSAPrivateKey lib flds =
     (case rsa_fields flds [''modulus'', ''publicexponent'', ''privateexponent'', ''prime1'', ''prime2''] of
        Inr [n, e, d, p, q] \<Rightarrow>
          (case checkRSABits (BitLen n) of Inl err \<Rightarrow> Inl err
           | Inr _ \<Rightarrow>
              if 31 < BitLen e then Inl (Msg ''RSA public exponent is too large'')
              else let key = \<lparr>rsa_N = n, rsa_E = e, rsa_D = d, rsa_Primes = [p, q]\<rparr> in
                if \<not> ValidateRSA lib key then Inl (Msg ''RSA private key is inconsistent'')
                else Inr (MarshalPKCS1 lib key))
      | Inr _ \<Rightarrow> Inl (Msg ''missing field in RSA private key file'')
      | Inl err \<Rightarrow> Inl err)"

definition formatRSAPrivateKey :: "keylib \<Rightarrow> dnskey \<Rightarrow> bytes \<Rightarrow> string \<Rightarrow> error + string" where
  "formatRSAPrivateKey lib k priv created = (case rsaPrivateKeyFromBytes lib priv of
      Inl e \<Rightarrow> Inl e
    | Inr p \<Rightarrow> Inr (PrivateKeyString lib k p @ ''Created: '' @ created @ [CHR 0x0A]))"

section \<open>Correspondence of the halves\<close>

definition curve_order :: "curve \<Rightarrow> nat" where
  "curve_order c = (case c of
     P256 \<Rightarrow> 0xffffffff00000000ffffffffffffffffbce6faada7179e84f3b9cac2fc632551
   | P384 \<Rightarrow> 0xffffffffffffffffffffffffffffffffffffffffffffffffc7634d81f4372ddf581a0db248b0a77aecec196accc52973)"

definition verifyECDSACorrespondence :: "keylib \<Rightarrow> curve \<Rightarrow> nat \<Rightarrow> bytes \<Rightarrow> bytes \<Rightarrow> error + unit" where
  "verifyECDSACorrespondence lib c sz priv pub =
     (if length priv \<noteq> sz then Inl (Msg ''invalid ECDSA private key length'')
      else if length pub \<noteq> 2 * sz then Inl (Msg ''invalid ECDSA public key length'')
      else let d = SetBytes priv in
        if d = 0 \<or> curve_order c \<le> d then Inl (Msg ''ECDSA private scalar is out of range'')
        else let (x, y) = BaseMult lib c priv in
          if FillBytes sz x @ FillBytes sz y \<noteq> pub
          then Inl (Msg ''ECDSA private key does not correspond to the DNSKEY public key'') else Inr ())"

definition verify_ed25519 :: "keylib \<Rightarrow> bytes \<Rightarrow> bytes \<Rightarrow> error + unit" where
  "verify_ed25519 lib priv pub =
     (let derived =
        (if length priv = 32 then Inr (EdPublic lib priv)
         else if length priv = 64 then
           (if EdPublic lib (take 32 priv) \<noteq> drop 32 priv then Inl (Msg ''expanded ED25519 private key is inconsistent'')
            else Inr (EdPublic lib (take 32 priv)))
         else Inl (Msg ''invalid ED25519 private key length''))
      in case derived of
           Inl e \<Rightarrow> Inl e
         | Inr d \<Rightarrow> if length pub \<noteq> 32 \<or> d \<noteq> pub
             then Inl (Msg ''ED25519 private key does not correspond to the DNSKEY public key'') else Inr ())"

definition VerifyKeyPairCorrespondence :: "keylib \<Rightarrow> dnskey \<Rightarrow> bytes \<Rightarrow> error + unit" where
  "VerifyKeyPairCorrespondence lib k priv =
     (if isRSA (dk_Algorithm k) \<or> isSHA1RSA (dk_Algorithm k) then verifyRSACorrespondence lib k priv
      else case b64_decode (dk_PublicKey k) of
        None \<Rightarrow> Inl (Msg ''decoding DNSKEY public key'')
      | Some pub \<Rightarrow>
          if dk_Algorithm k = ED25519 then verify_ed25519 lib priv pub
          else if dk_Algorithm k = ECDSAP256SHA256 then verifyECDSACorrespondence lib P256 32 priv pub
          else if dk_Algorithm k = ECDSAP384SHA384 then verifyECDSACorrespondence lib P384 48 priv pub
          else Inl (Msg ''unsupported algorithm for key-pair verification''))"

section \<open>Private-key files\<close>

text \<open>\<open>t.Format("20060102150405")\<close>.\<close>

definition fmt_compact :: "gotime \<Rightarrow> string" where
  "fmt_compact t = (let secs = t div Second; days = secs div 86400; s = secs mod 86400;
     (y, m, d) = civil days
   in pad_zero 4 (show_int y) @ two m @ two d @ two (s div 3600) @ two ((s div 60) mod 60) @ two (s mod 60))"

definition private_field :: "string \<Rightarrow> string \<Rightarrow> string" where
  "private_field name value = name @ '': '' @ value"

definition join_lines :: "string list \<Rightarrow> string" where
  "join_lines ls = concat (map (\<lambda>l. l @ [CHR 0x0A]) ls)"

text \<open>The seed an expanded ED25519 key reduces to, when its public suffix is consistent.\<close>

definition stored_private :: "keylib \<Rightarrow> dnskey \<Rightarrow> bytes \<Rightarrow> bytes" where
  "stored_private lib k priv =
     (if dk_Algorithm k = ED25519 \<and> length priv = 64 \<and> EdPublic lib (take 32 priv) = drop 32 priv
      then take 32 priv else priv)"

definition formatPrivateKey :: "keylib \<Rightarrow> dnskey \<Rightarrow> bytes \<Rightarrow> gotime \<Rightarrow> error + string" where
  "formatPrivateKey lib k priv now =
     (let created = fmt_compact now in
      if isRSA (dk_Algorithm k) then formatRSAPrivateKey lib k priv created
      else Inr (join_lines
        [private_field ''Private-key-format'' ''v1.3'',
         private_field ''Algorithm'' (show_nat (unat (dk_Algorithm k)) @ '' ('' @ AlgorithmName (dk_Algorithm k) @ '')''),
         private_field ''PrivateKey'' (b64_encode (stored_private lib k priv)),
         private_field ''Created'' created]))"

text \<open>\<open>strings.Cut\<close> at a one-byte separator.\<close>

fun cut_at :: "char \<Rightarrow> string \<Rightarrow> (string \<times> string) option" where
  "cut_at sep [] = None"
| "cut_at sep (c # s) = (if c = sep then Some ([], s)
     else map_option (\<lambda>(a, b). (c # a, b)) (cut_at sep s))"

definition parse_field :: "string \<Rightarrow> (string, string) gomap \<Rightarrow> (string, string) gomap" where
  "parse_field line flds = (case cut_at (CHR '':'') line of
      None \<Rightarrow> flds
    | Some (name, value) \<Rightarrow> AList.update (map ascii_lower (trim_space name)) (trim_space value) flds)"

definition parsePrivateKeyFields :: "string \<Rightarrow> (string, string) gomap" where
  "parsePrivateKeyFields c = fold parse_field (split_on (CHR 0x0A) c) []"

definition privateKeyFileAlgorithm :: "(string, string) gomap \<Rightarrow> 8 word option" where
  "privateKeyFileAlgorithm flds = (case map_of flds ''algorithm'' of
      None \<Rightarrow> None
    | Some v \<Rightarrow>
        (case parse_uint (case cut_at (CHR '' '') v of Some (a, _) \<Rightarrow> a | None \<Rightarrow> v) of
           Some n \<Rightarrow> if n < 256 then Some (of_nat n) else None
         | None \<Rightarrow> None))"

definition ParsePrivateKeyFromFile :: "keylib \<Rightarrow> string \<Rightarrow> error + bytes" where
  "ParsePrivateKeyFromFile lib c =
     (let flds = parsePrivateKeyFields c in
      if (case privateKeyFileAlgorithm flds of Some alg \<Rightarrow> isRSA alg \<or> isSHA1RSA alg | None \<Rightarrow> False)
      then parseBindRSAPrivateKey lib flds
      else case map_of flds ''privatekey'' of
        Some v \<Rightarrow> (case b64_decode v of Some b \<Rightarrow> Inr b | None \<Rightarrow> Inl (Msg ''illegal base64 data''))
      | None \<Rightarrow> Inl (Msg ''no PrivateKey field found in file''))"

section \<open>Generation\<close>

definition generate_ecdsa :: "keylib \<Rightarrow> nat \<Rightarrow> curve \<Rightarrow> nat \<Rightarrow> dnskey \<Rightarrow> error + dnskey \<times> bytes" where
  "generate_ecdsa lib t c sz k = (case EcGenerate lib t c of
      None \<Rightarrow> Inl (Msg ''generating ECDSA key'')
    | Some (d, x, y) \<Rightarrow>
        Inr (k\<lparr>dk_PublicKey := b64_encode (FillBytes sz x @ FillBytes sz y)\<rparr>, FillBytes sz d))"

definition generateRSAKey :: "keylib \<Rightarrow> nat \<Rightarrow> dnskey \<Rightarrow> error + dnskey \<times> bytes" where
  "generateRSAKey lib t k = (case RSAGenerate lib t k 2048 of
      None \<Rightarrow> Inl (Msg ''generating RSA key'')
    | Some (pub, p) \<Rightarrow> Inr (k\<lparr>dk_PublicKey := pub\<rparr>, MarshalPKCS1 lib p))"

definition generateDNSSECKey :: "keylib \<Rightarrow> nat \<Rightarrow> string \<Rightarrow> string \<Rightarrow> 16 word \<Rightarrow> error + dnskey \<times> bytes" where
  "generateDNSSECKey lib t domain algorithm flags =
     (let k = \<lparr>dk_Name = Fqdn lib domain, dk_Flags = flags, dk_Protocol = 3, dk_Algorithm = 0, dk_PublicKey = []\<rparr> in
      if algorithm = ''ED25519'' then (case EdGenerate lib t of
          None \<Rightarrow> Inl (Msg ''generating ED25519 key'')
        | Some seed \<Rightarrow> Inr (k\<lparr>dk_Algorithm := ED25519, dk_PublicKey := b64_encode (EdPublic lib seed)\<rparr>,
            seed @ EdPublic lib seed))
      else if algorithm = ''ECDSAP256SHA256'' then generate_ecdsa lib t P256 32 (k\<lparr>dk_Algorithm := ECDSAP256SHA256\<rparr>)
      else if algorithm = ''ECDSAP384SHA384'' then generate_ecdsa lib t P384 48 (k\<lparr>dk_Algorithm := ECDSAP384SHA384\<rparr>)
      else if algorithm = ''RSASHA256'' then generateRSAKey lib t (k\<lparr>dk_Algorithm := RSASHA256\<rparr>)
      else if algorithm = ''RSASHA512'' then generateRSAKey lib t (k\<lparr>dk_Algorithm := RSASHA512\<rparr>)
      else Inl (Msg ''unsupported algorithm''))"

end
