(* ===== verification/Key_Files.thy ===== *)
theory Key_Files
  imports Zone_State Signer_Config Fs_Model Key_Format
begin

text \<open>
  Key-file transactions (\<open>signer/internal/signer/keytx.go\<close> and the loading and
  generating parts of \<open>keys.go\<close>). A generation is staged under its tag-named slot,
  verified by reloading it, and only then copied over the live slot, whose previous
  occupant is preserved first.

\<close>

section \<open>Loading and checking\<close>

definition samePublicKey :: "dnskey \<Rightarrow> dnskey \<Rightarrow> bool" where
  "samePublicKey a b \<longleftrightarrow> dk_PublicKey a = dk_PublicKey b \<and> dk_Algorithm a = dk_Algorithm b \<and>
     dk_Flags a = dk_Flags b \<and> dk_Protocol a = dk_Protocol b \<and> EqualFold (dk_Name a) (dk_Name b)"

definition validateLoadedKey :: "keylib \<Rightarrow> dnskey \<Rightarrow> string \<Rightarrow> string \<Rightarrow> error + unit" where
  "validateLoadedKey lib k domain keyType =
     (if \<not> EqualFold (dk_Name k) (Fqdn lib domain) then Inl (Msg ''key owner does not match zone'')
      else if keyType \<noteq> ''ksk'' \<and> keyType \<noteq> ''zsk'' then Inl (Msg ''unknown key role'')
      else if dk_Flags k \<noteq> (if keyType = ''ksk'' then 257 else 256) then
        Inl (Msg ''key flags do not match role'')
      else if dk_Algorithm k \<in> {ED25519, ECDSAP256SHA256, ECDSAP384SHA384, RSASHA256, RSASHA512} then Inr ()
      else if dk_Algorithm k \<in> {RSASHA1, RSASHA1NSEC3SHA1} then
        Inl (Msg ''SHA-1 signatures are no longer treated as secure'')
      else Inl (Msg ''unsupported key algorithm''))"

text \<open>The first line that is neither empty nor a comment and parses as a DNSKEY.\<close>

fun parse_key_lines :: "keylib \<Rightarrow> string list \<Rightarrow> error + dnskey" where
  "parse_key_lines lib [] = Inl (Msg ''no DNSKEY record found in file'')"
| "parse_key_lines lib (l # ls) =
     (if l = [] \<or> hd l = CHR '';'' then parse_key_lines lib ls
      else case NewRR_DNSKEY lib l of Some k \<Rightarrow> Inr k | None \<Rightarrow> parse_key_lines lib ls)"

definition ParseDNSKEYFromFile :: "keylib \<Rightarrow> string \<Rightarrow> error + dnskey" where
  "ParseDNSKEYFromFile lib c = parse_key_lines lib (split_on (CHR 0x0A) c)"

definition op_res :: "string \<Rightarrow> error + 'a \<Rightarrow> ('w, 'a) op" where
  "op_res s r = (case r of Inl e \<Rightarrow> op_fail (Wrap s e) | Inr x \<Rightarrow> op_ok x)"

definition loadPublicKeyFromPath :: "env \<Rightarrow> keylib \<Rightarrow> string \<Rightarrow> ('w fs_world_scheme, dnskey) op" where
  "loadPublicKeyFromPath env lib base =
     op_bind (op_wrap ''reading public key'' (ReadFile env (base @ ''.key''))) (\<lambda>c.
       op_res ''parsing public key'' (ParseDNSKEYFromFile lib c))"

definition loadKeyPairFromPath :: "env \<Rightarrow> keylib \<Rightarrow> string \<Rightarrow> ('w fs_world_scheme, dnskey \<times> bytes) op" where
  "loadKeyPairFromPath env lib base =
     op_bind (op_wrap ''reading public key'' (ReadFile env (base @ ''.key''))) (\<lambda>c.
     op_bind (op_res ''parsing public key'' (ParseDNSKEYFromFile lib c)) (\<lambda>k.
     op_bind (op_wrap ''reading private key'' (ReadFile env (base @ ''.private''))) (\<lambda>pc.
     op_bind (op_res ''parsing private key'' (ParsePrivateKeyFromFile lib pc)) (\<lambda>priv.
     op_bind (op_res ''key pair'' (VerifyKeyPairCorrespondence lib k priv)) (\<lambda>_. op_ok (k, priv))))))"

definition loadVerifiedPair ::
  "env \<Rightarrow> keylib \<Rightarrow> string \<Rightarrow> string \<Rightarrow> string \<Rightarrow> ('w fs_world_scheme, dnskey \<times> bytes) op" where
  "loadVerifiedPair env lib base domain keyType =
     op_bind (loadKeyPairFromPath env lib base) (\<lambda>kp.
     op_bind (op_res ''key'' (validateLoadedKey lib (fst kp) domain keyType)) (\<lambda>_. op_ok kp))"

definition checkKeyTag :: "keylib \<Rightarrow> dnskey \<Rightarrow> 16 word \<Rightarrow> error + unit" where
  "checkKeyTag lib k want = (if KeyTag lib k \<noteq> want then Inl (Msg ''file holds another key tag'') else Inr ())"

section \<open>Names\<close>

definition live_name :: "string \<Rightarrow> string \<Rightarrow> string" where
  "live_name domain keyType = domain @ ''.'' @ keyType"

definition liveBase :: "config \<Rightarrow> string \<Rightarrow> string \<Rightarrow> string" where
  "liveBase cfg domain keyType = path_join (KeysDir cfg) (live_name domain keyType)"

definition taggedBase :: "config \<Rightarrow> string \<Rightarrow> string \<Rightarrow> 16 word \<Rightarrow> string" where
  "taggedBase cfg domain keyType tag =
     path_join (KeysDir cfg) (live_name domain keyType @ ''.'' @ show_nat (unat tag))"

definition pairFiles :: "env \<Rightarrow> string \<Rightarrow> ('w fs_world_scheme, bool \<times> bool) op" where
  "pairFiles env base =
     op_bind (op_wrap ''stat'' (statExists env (base @ ''.key''))) (\<lambda>k.
     op_bind (op_wrap ''stat'' (statExists env (base @ ''.private''))) (\<lambda>p. op_ok (k, p)))"

definition LoadPublicKeyByID ::
  "env \<Rightarrow> keylib \<Rightarrow> config \<Rightarrow> string \<Rightarrow> string \<Rightarrow> 16 word \<Rightarrow> ('w fs_world_scheme, dnskey) op" where
  "LoadPublicKeyByID env lib cfg domain keyType keyID =
     op_bind (loadPublicKeyFromPath env lib (taggedBase cfg domain keyType keyID)) (\<lambda>k.
     op_bind (op_res ''key'' (validateLoadedKey lib k domain keyType)) (\<lambda>_.
     op_bind (op_res ''key'' (checkKeyTag lib k keyID)) (\<lambda>_. op_ok k)))"

definition LoadKeyPairByID ::
  "env \<Rightarrow> keylib \<Rightarrow> config \<Rightarrow> string \<Rightarrow> string \<Rightarrow> 16 word \<Rightarrow> ('w fs_world_scheme, dnskey \<times> bytes) op" where
  "LoadKeyPairByID env lib cfg domain keyType keyID =
     op_bind (op_wrap ''key'' (loadVerifiedPair env lib (taggedBase cfg domain keyType keyID) domain keyType)) (\<lambda>kp.
     op_bind (op_res ''key'' (checkKeyTag lib (fst kp) keyID)) (\<lambda>_. op_ok kp))"

section \<open>Setting material aside\<close>

text \<open>
  The loops over candidate names stop after ten thousand; \<open>n\<close> is the number of
  attempts left and \<open>i\<close> the next suffix.
\<close>

fun setAside_from :: "env \<Rightarrow> string \<Rightarrow> string \<Rightarrow> nat \<Rightarrow> nat \<Rightarrow> ('w fs_world_scheme, string) op" where
  "setAside_from env path reason 0 i = op_fail (Msg ''could not allocate a name to set aside'')"
| "setAside_from env path reason (Suc n) i =
     (let dst = path @ ''.'' @ reason @ ''.'' @ show_nat i in
      op_bind (osLink env path dst) (\<lambda>r. case r of
        Linked \<Rightarrow> op_try (osRemove env path) (\<lambda>_. op_ok dst)
      | LinkExists \<Rightarrow> setAside_from env path reason n (Suc i)
      | LinkFailed \<Rightarrow> op_fail (Msg ''setting aside'')
      | LinkUnsupported \<Rightarrow>
          op_bind (op_wrap ''setting aside: stat'' (statExists env dst)) (\<lambda>ex.
          if ex then setAside_from env path reason n (Suc i)
          else op_bind (op_wrap ''setting aside'' (osRename env path dst)) (\<lambda>_. op_ok dst))))"

definition setAside :: "env \<Rightarrow> string \<Rightarrow> string \<Rightarrow> ('w fs_world_scheme, string) op" where
  "setAside env path reason = setAside_from env path reason 10000 0"

definition reservePair :: "env \<Rightarrow> string \<Rightarrow> ('w fs_world_scheme, bool) op" where
  "reservePair env base =
     op_bind (reserveFile env (base @ ''.key'')) (\<lambda>c1. if \<not> c1 then op_ok False else
     op_try (reserveFile env (base @ ''.private'')) (\<lambda>r. case r of
       Inr True \<Rightarrow> op_ok True
     | Inr False \<Rightarrow> op_bind (releaseReservation env (base @ ''.key'')) (\<lambda>_. op_ok False)
     | Inl e \<Rightarrow> op_bind (releaseReservation env (base @ ''.key'')) (\<lambda>_. op_fail e)))"

fun uniqueBackupBase_from :: "env \<Rightarrow> string \<Rightarrow> nat \<Rightarrow> nat \<Rightarrow> ('w fs_world_scheme, string) op" where
  "uniqueBackupBase_from env prefix 0 i = op_fail (Msg ''could not allocate a unique backup path'')"
| "uniqueBackupBase_from env prefix (Suc n) i =
     (let candidate = prefix @ ''.'' @ show_nat i in
      op_bind (reservePair env candidate) (\<lambda>claimed.
        if claimed then op_ok candidate else uniqueBackupBase_from env prefix n (Suc i)))"

definition uniqueBackupBase :: "env \<Rightarrow> string \<Rightarrow> ('w fs_world_scheme, string) op" where
  "uniqueBackupBase env prefix = uniqueBackupBase_from env prefix 10000 0"

definition copyDurable :: "env \<Rightarrow> string \<Rightarrow> string \<Rightarrow> ('w fs_world_scheme, unit) op" where
  "copyDurable env src dst = op_wrap ''copying'' (CopyFile env src dst)"

definition copy_half :: "env \<Rightarrow> string \<Rightarrow> string \<Rightarrow> string \<Rightarrow> ('w fs_world_scheme, unit) op" where
  "copy_half env srcBase dst ext =
     op_bind (op_wrap ''stat'' (statExists env (srcBase @ ext))) (\<lambda>ex.
       if \<not> ex then releaseReservation env (dst @ ext)
       else copyDurable env (srcBase @ ext) (dst @ ext))"

definition copyPairUnique :: "env \<Rightarrow> string \<Rightarrow> string \<Rightarrow> ('w fs_world_scheme, string) op" where
  "copyPairUnique env srcBase prefix =
     op_bind (uniqueBackupBase env prefix) (\<lambda>dst.
     op_bind (copy_half env srcBase dst ''.key'') (\<lambda>_.
     op_bind (copy_half env srcBase dst ''.private'') (\<lambda>_. op_ok dst)))"

section \<open>Backup, staging, activation\<close>

definition ensureBackupAt ::
  "env \<Rightarrow> keylib \<Rightarrow> string \<Rightarrow> string \<Rightarrow> string \<Rightarrow> string \<Rightarrow> dnskey \<Rightarrow> ('w fs_world_scheme, unit) op" where
  "ensureBackupAt env lib domain keyType live backup want =
     op_bind (pairFiles env backup) (\<lambda>ex.
     op_bind
       (if fst ex then
          op_bind (op_wrap ''reading backup'' (ReadFile env (backup @ ''.key''))) (\<lambda>data.
          case ParseDNSKEYFromFile lib data of
            Inl _ \<Rightarrow> op_fail (BackupConflictError backup (KeyTag lib want))
          | Inr parsed \<Rightarrow>
              if samePublicKey parsed want then op_ok (snd ex)
              else op_fail (BackupConflictError backup (KeyTag lib want)))
        else
          op_bind (if snd ex then op_bind (setAside env (backup @ ''.private'') ''orphan'') (\<lambda>_. op_ok ())
                   else op_ok ()) (\<lambda>_.
          op_bind (op_wrap ''backing up public key'' (copyDurable env (live @ ''.key'') (backup @ ''.key''))) (\<lambda>_.
          op_ok False))) (\<lambda>privExists.
     op_bind
       (if privExists then
          op_bind (op_wrap ''reading backup'' (ReadFile env (backup @ ''.private''))) (\<lambda>data.
          if (case ParsePrivateKeyFromFile lib data of
                Inr priv \<Rightarrow> VerifyKeyPairCorrespondence lib want priv = Inr () | Inl _ \<Rightarrow> False)
          then op_ok True
          else op_bind (setAside env (backup @ ''.private'') ''invalid'') (\<lambda>_. op_ok False))
        else op_ok False) (\<lambda>privExists2.
     op_bind
       (if \<not> privExists2 then
          op_wrap ''backing up private key'' (copyDurable env (live @ ''.private'') (backup @ ''.private''))
        else op_ok ()) (\<lambda>_.
     op_bind (op_wrap ''backup does not verify'' (loadVerifiedPair env lib backup domain keyType)) (\<lambda>got.
       if \<not> samePublicKey (fst got) want then op_fail (Msg ''backup does not hold the live key'')
       else op_ok ())))))"

definition ensureVerifiedBackup ::
  "env \<Rightarrow> keylib \<Rightarrow> config \<Rightarrow> string \<Rightarrow> string \<Rightarrow> ('w fs_world_scheme, dnskey) op" where
  "ensureVerifiedBackup env lib cfg domain keyType =
     op_try (loadVerifiedPair env lib (liveBase cfg domain keyType) domain keyType) (\<lambda>r. case r of
       Inl e \<Rightarrow> op_fail (ErrLiveUnverifiable e)
     | Inr kp \<Rightarrow>
         op_bind (ensureBackupAt env lib domain keyType (liveBase cfg domain keyType)
           (taggedBase cfg domain keyType (KeyTag lib (fst kp))) (fst kp)) (\<lambda>_. op_ok (fst kp)))"

definition preserveLivePair ::
  "env \<Rightarrow> keylib \<Rightarrow> config \<Rightarrow> string \<Rightarrow> string \<Rightarrow> ('w fs_world_scheme, unit) op" where
  "preserveLivePair env lib cfg domain keyType =
     (let live = liveBase cfg domain keyType in
      op_bind (pairFiles env live) (\<lambda>ex.
        if \<not> fst ex \<and> \<not> snd ex then op_ok ()
        else if fst ex \<and> snd ex then
          op_try (ensureVerifiedBackup env lib cfg domain keyType) (\<lambda>r. case r of
            Inr _ \<Rightarrow> op_ok ()
          | Inl e \<Rightarrow> (case as_backup_conflict e of
              Some base \<Rightarrow> op_bind (copyPairUnique env live base) (\<lambda>_. op_ok ())
            | None \<Rightarrow>
                if is_live_unverifiable e then
                  op_bind (copyPairUnique env live (live @ ''.bak'')) (\<lambda>_. op_ok ())
                else op_fail e))
        else op_bind (copyPairUnique env live (live @ ''.bak'')) (\<lambda>_. op_ok ())))"

text \<open>A copy whose directory sync failed has replaced the file and counts as done.\<close>

definition copy_tolerant :: "env \<Rightarrow> string \<Rightarrow> string \<Rightarrow> ('w fs_world_scheme, unit) op" where
  "copy_tolerant env src dst = op_try (CopyFile env src dst) (\<lambda>r. case r of
     Inr _ \<Rightarrow> op_ok ()
   | Inl e \<Rightarrow> if IsCommitted e then op_ok () else op_fail (Wrap ''activating'' e))"

text \<open>The staged halves replace the live ones, private half first, and must verify there.\<close>

definition install_live ::
  "env \<Rightarrow> keylib \<Rightarrow> string \<Rightarrow> string \<Rightarrow> string \<Rightarrow> string \<Rightarrow> dnskey \<Rightarrow> ('w fs_world_scheme, unit) op" where
  "install_live env lib domain keyType staged live want =
     op_bind (copy_tolerant env (staged @ ''.private'') (live @ ''.private'')) (\<lambda>_.
     op_bind (copy_tolerant env (staged @ ''.key'') (live @ ''.key'')) (\<lambda>_.
     op_bind (op_wrap ''live key does not verify after activation''
         (loadVerifiedPair env lib live domain keyType)) (\<lambda>now.
     if \<not> samePublicKey (fst now) want then op_fail (Msg ''live key does not match the activated generation'')
     else op_ok ())))"

definition ActivateKeyPair ::
  "env \<Rightarrow> keylib \<Rightarrow> config \<Rightarrow> string \<Rightarrow> string \<Rightarrow> 16 word \<Rightarrow> ('w fs_world_scheme, unit) op" where
  "ActivateKeyPair env lib cfg domain keyType tag =
     (let staged = taggedBase cfg domain keyType tag; live = liveBase cfg domain keyType in
      op_bind (op_wrap ''cannot activate'' (loadVerifiedPair env lib staged domain keyType)) (\<lambda>sk.
      if KeyTag lib (fst sk) \<noteq> tag then op_fail (Msg ''cannot activate: slot holds another key tag'')
      else
      op_try (loadVerifiedPair env lib live domain keyType) (\<lambda>cur.
      if (case cur of Inr ck \<Rightarrow> samePublicKey (fst ck) (fst sk) | Inl _ \<Rightarrow> False) then op_ok ()
      else
      op_bind (op_wrap ''preserving the current live key'' (preserveLivePair env lib cfg domain keyType)) (\<lambda>_.
      install_live env lib domain keyType staged live (fst sk)))))"

definition key_file_text :: "keylib \<Rightarrow> dnskey \<Rightarrow> gotime \<Rightarrow> string" where
  "key_file_text lib k now =
     ''; Key tag: '' @ show_nat (unat (KeyTag lib k)) @ [CHR 0x0A] @
     ''; Algorithm: '' @ AlgorithmName (dk_Algorithm k) @ [CHR 0x0A] @
     ''; Created: '' @ fmt_rfc3339 now @ [CHR 0x0A] @ DNSKEY_String lib k @ [CHR 0x0A]"

text \<open>
  What occupies the slot of the tag: a different key is a collision and refused, a
  complete verified copy of the key needs no work, anything else is set aside.
\<close>

definition stage_slot ::
  "env \<Rightarrow> keylib \<Rightarrow> string \<Rightarrow> string \<Rightarrow> string \<Rightarrow> dnskey \<Rightarrow> bool \<times> bool \<Rightarrow> ('w fs_world_scheme, bool) op" where
  "stage_slot env lib base domain keyType k ex =
     (if fst ex then
        op_try (loadPublicKeyFromPath env lib base) (\<lambda>r.
        if (case r of Inr existing \<Rightarrow> \<not> samePublicKey existing k | Inl _ \<Rightarrow> True) then
          op_fail (Msg ''refusing to stage: slot already holds a different key (key-tag collision)'')
        else if snd ex then
          op_try (loadVerifiedPair env lib base domain keyType) (\<lambda>v. case v of
            Inr _ \<Rightarrow> op_ok True
          | Inl _ \<Rightarrow> op_bind (setAside env (base @ ''.private'') ''invalid'') (\<lambda>_. op_ok False))
        else op_ok False)
      else if snd ex then op_bind (setAside env (base @ ''.private'') ''orphan'') (\<lambda>_. op_ok False)
      else op_ok False)"

definition StageKeyPair ::
  "env \<Rightarrow> keylib \<Rightarrow> config \<Rightarrow> string \<Rightarrow> string \<Rightarrow> dnskey \<Rightarrow> bytes \<Rightarrow> ('w fs_world_scheme, string) op" where
  "StageKeyPair env lib cfg domain keyType k priv =
     (let tag = KeyTag lib k; base = taggedBase cfg domain keyType tag in
      op_bind (op_res ''refusing to stage'' (validateLoadedKey lib k domain keyType)) (\<lambda>_.
      op_bind (op_res ''refusing to stage'' (VerifyKeyPairCorrespondence lib k priv)) (\<lambda>_.
      op_bind (io_nop env ''keys directory'') (\<lambda>_.
      op_bind (pairFiles env base) (\<lambda>ex.
      op_bind (stage_slot env lib base domain keyType k ex) (\<lambda>already.
      if already then op_ok base
      else
      op_bind (clock env) (\<lambda>now1.
      op_bind (clock env) (\<lambda>now2.
      op_bind (op_res ''formatting private key'' (formatPrivateKey lib k priv now2)) (\<lambda>privContent.
          op_bind (op_wrap ''staging private key'' (WriteFileAtomicOwned env (base @ ''.private'') privContent)) (\<lambda>_.
          op_bind (op_wrap ''staging public key'' (WriteFileAtomicOwned env (base @ ''.key'') (key_file_text lib k now1))) (\<lambda>_.
          op_bind (op_wrap ''staged key does not reload'' (loadVerifiedPair env lib base domain keyType)) (\<lambda>st.
          if \<not> samePublicKey (fst st) k \<or> KeyTag lib (fst st) \<noteq> tag then
            op_fail (Msg ''staged key does not match the generated key'')
          else op_ok base))))))))))))"

definition EnsureLiveKey ::
  "env \<Rightarrow> keylib \<Rightarrow> config \<Rightarrow> string \<Rightarrow> string \<Rightarrow> 16 word \<Rightarrow> ('w fs_world_scheme, dnskey \<times> bytes) op" where
  "EnsureLiveKey env lib cfg domain keyType expected =
     (let live = liveBase cfg domain keyType; tagged = taggedBase cfg domain keyType expected in
      op_try (loadVerifiedPair env lib live domain keyType) (\<lambda>lr.
      if (case lr of Inr kp \<Rightarrow> KeyTag lib (fst kp) = expected | Inl _ \<Rightarrow> False) then op_res [] lr
      else
      op_try (loadVerifiedPair env lib tagged domain keyType) (\<lambda>tr.
      if \<not> (case tr of Inr tk \<Rightarrow> KeyTag lib (fst tk) = expected | Inl _ \<Rightarrow> False) then
        op_fail (Msg ''refusing to sign with a key the recorded state does not name'')
      else
      op_bind (op_wrap ''re-activating'' (ActivateKeyPair env lib cfg domain keyType expected)) (\<lambda>_.
      op_bind (op_wrap ''after re-activation'' (loadVerifiedPair env lib live domain keyType)) (\<lambda>kp.
      if KeyTag lib (fst kp) \<noteq> expected then op_fail (Msg ''re-activation holds another key tag'')
      else op_ok kp)))))"

section \<open>Generating keys\<close>

text \<open>\<open>strconv.ParseUint(s, 10, 16)\<close>.\<close>

definition parse_uint16 :: "string \<Rightarrow> 16 word option" where
  "parse_uint16 s = (case parse_uint s of
     Some n \<Rightarrow> if n < 65536 then Some (of_nat n) else None | None \<Rightarrow> None)"

definition has_suffix :: "string \<Rightarrow> string \<Rightarrow> bool" where
  "has_suffix s t \<longleftrightarrow> has_prefix (rev s) (rev t)"

text \<open>The tag a directory entry of the keys directory names for a role, if any.\<close>

definition entry_tag :: "config \<Rightarrow> string \<Rightarrow> string \<Rightarrow> string \<Rightarrow> 16 word option" where
  "entry_tag cfg domain kt path =
     (let dir = path_prefix (KeysDir cfg); name = drop (length dir) path;
          prefix = domain @ ''.'' @ kt @ ''.'' in
      if has_prefix path dir \<and> CHR ''/'' \<notin> set name \<and> has_suffix name ''.key'' \<and> has_prefix name prefix
      then let rest = drop (length prefix) name
           in parse_uint16 (if has_suffix rest ''.key'' then take (length rest - 4) rest else rest)
      else None)"

text \<open>
  \<open>existingKeyTags\<close>: tags named by directory entries, and the tags of the live keys
  that can be loaded; a read failure yields fewer tags.
\<close>

definition existingKeyTags :: "env \<Rightarrow> keylib \<Rightarrow> config \<Rightarrow> string \<Rightarrow> ('w fs_world_scheme, 16 word list) op" where
  "existingKeyTags env lib cfg domain =
     op_try (io_step env (Msg ''readdir'') (op_get (\<lambda>w. map fst (files w)))) (\<lambda>entries.
     op_try (loadPublicKeyFromPath env lib (liveBase cfg domain ''ksk'')) (\<lambda>rk.
     op_try (loadPublicKeyFromPath env lib (liveBase cfg domain ''zsk'')) (\<lambda>rz.
       op_ok ((case entries of Inl _ \<Rightarrow> []
               | Inr ps \<Rightarrow> List.map_filter (entry_tag cfg domain ''ksk'') ps @
                           List.map_filter (entry_tag cfg domain ''zsk'') ps)
         @ (case rk of Inl _ \<Rightarrow> [] | Inr k \<Rightarrow> [KeyTag lib k])
         @ (case rz of Inl _ \<Rightarrow> [] | Inr k \<Rightarrow> [KeyTag lib k])))))"

definition gen_key :: "keylib \<Rightarrow> string \<Rightarrow> string \<Rightarrow> 16 word \<Rightarrow> ('w fs_world_scheme, dnskey \<times> bytes) op" where
  "gen_key lib domain algorithm flags = (\<lambda>w. (case generateDNSSECKey lib (tick w) domain algorithm flags of
     Inl e \<Rightarrow> Inl (Wrap ''generating key'' e) | Inr kp \<Rightarrow> Inr kp, w\<lparr>tick := Suc (tick w)\<rparr>))"

text \<open>At most ten attempts to find a tag the zone does not use.\<close>

fun gen_unique :: "keylib \<Rightarrow> string \<Rightarrow> string \<Rightarrow> 16 word \<Rightarrow> 16 word list \<Rightarrow> nat \<Rightarrow>
    ('w fs_world_scheme, dnskey \<times> bytes) op" where
  "gen_unique lib domain algorithm flags tags 0 = op_fail (Msg ''could not generate a unique key tag'')"
| "gen_unique lib domain algorithm flags tags (Suc n) =
     op_bind (gen_key lib domain algorithm flags) (\<lambda>kp.
       if KeyTag lib (fst kp) \<notin> set tags then op_ok kp
       else gen_unique lib domain algorithm flags tags n)"

definition generateKeyMaterial ::
  "env \<Rightarrow> keylib \<Rightarrow> config \<Rightarrow> string \<Rightarrow> bool \<Rightarrow> string \<Rightarrow> ('w fs_world_scheme, dnskey \<times> bytes \<times> key_state) op" where
  "generateKeyMaterial env lib cfg domain isKSK algorithmOverride =
     (let algorithm = (if algorithmOverride = [] then GetZoneAlgorithm cfg domain else algorithmOverride);
          lifetime = (if isKSK then GetZoneKSKLifetime cfg domain else GetZoneZSKLifetime cfg domain);
          flags = (if isKSK then 257 else 256) in
      op_bind (existingKeyTags env lib cfg domain) (\<lambda>tags.
      op_bind (gen_unique lib domain algorithm flags tags 10) (\<lambda>kp.
      op_bind (clock env) (\<lambda>now.
      op_ok (fst kp, snd kp, \<lparr>k_ID = KeyTag lib (fst kp), k_Algorithm = algorithm, k_Created = now,
        k_Expires = now + lifetime, k_DSPublished = False, k_RolloverDue = now + three_quarters lifetime\<rparr>)))))"

definition keyRole :: "bool \<Rightarrow> string" where
  "keyRole isKSK = (if isKSK then ''ksk'' else ''zsk'')"

definition stageNewKey ::
  "env \<Rightarrow> keylib \<Rightarrow> config \<Rightarrow> string \<Rightarrow> bool \<Rightarrow> string \<Rightarrow> ('w fs_world_scheme, key_state) op" where
  "stageNewKey env lib cfg domain isKSK algorithmOverride =
     op_bind (generateKeyMaterial env lib cfg domain isKSK algorithmOverride) (\<lambda>(k, priv, ks).
     op_bind (StageKeyPair env lib cfg domain (keyRole isKSK) k priv) (\<lambda>_. op_ok ks))"

definition SaveKeyFiles ::
  "env \<Rightarrow> keylib \<Rightarrow> config \<Rightarrow> string \<Rightarrow> string \<Rightarrow> dnskey \<Rightarrow> bytes \<Rightarrow> ('w fs_world_scheme, unit) op" where
  "SaveKeyFiles env lib cfg domain keyType k priv =
     op_bind (StageKeyPair env lib cfg domain keyType k priv) (\<lambda>_.
       ActivateKeyPair env lib cfg domain keyType (KeyTag lib k))"

definition generateKey ::
  "env \<Rightarrow> keylib \<Rightarrow> config \<Rightarrow> string \<Rightarrow> bool \<Rightarrow> string \<Rightarrow> ('w fs_world_scheme, key_state) op" where
  "generateKey env lib cfg domain isKSK algorithmOverride =
     op_bind (generateKeyMaterial env lib cfg domain isKSK algorithmOverride) (\<lambda>(k, priv, ks).
     op_bind (op_wrap ''saving key files'' (SaveKeyFiles env lib cfg domain (keyRole isKSK) k priv)) (\<lambda>_. op_ok ks))"

end
