(* ===== verification/State_Store.thy ===== *)
theory State_Store
  imports Zone_State Fs_Model
begin

text \<open>
  The signer's persistent state (\<open>signer/internal/state/state.go\<close>): the in-memory
  \<open>State\<close> with its synchronization base, the state file, saving with per-zone
  revisions, wholesale replacement and the three-way merge of \<open>ReloadFromDisk\<close>. The
  read-write lock is not modelled: every method here runs under it.
\<close>

section \<open>State and state file\<close>

record state =
  s_Zones :: "(string, zone_state) gomap"
  s_Removed :: "(string, gotime) gomap"
  s_fileSeen :: bool
  s_base :: "(string, zone_state) gomap"

text \<open>
  The parsed JSON document: a \<open>null\<close> map is \<open>None\<close>, a \<open>null\<close> zone entry is
  \<open>None\<close>. The JSON text itself is not modelled: \<open>encoding/json\<close> writes every
  persisted field and reads it back.
\<close>

record document =
  d_Zones :: "(string, zone_state option) gomap option"
  d_Removed :: "(string, gotime) gomap option"

datatype state_file = NoFile | Malformed | Doc document

record world = fs_world +
  mem :: state
  sfile :: state_file

definition NewState :: state where
  "NewState = \<lparr>s_Zones = [], s_Removed = [], s_fileSeen = False, s_base = []\<rparr>"

section \<open>Validation\<close>

definition nil_map :: "('k, 'v) gomap option \<Rightarrow> ('k, 'v) gomap" where
  "nil_map m = (case m of None \<Rightarrow> [] | Some x \<Rightarrow> x)"

definition checkRemovedName :: "string \<times> gotime \<Rightarrow> error + unit" where
  "checkRemovedName e = (if blank (fst e) then Inl (Msg ''removal marker with an empty zone name'') else Inr ())"

text \<open>
  \<open>validateAndNormalize\<close> on a document: the checked zones and markers, or the first
  error in iteration order.
\<close>

definition validateAndNormalize ::
  "(string \<Rightarrow> bool) \<Rightarrow> document \<Rightarrow> error + ((string, zone_state) gomap \<times> (string, gotime) gomap)" where
  "validateAndNormalize isDN d =
     (let zones = nil_map (d_Zones d); removed = nil_map (d_Removed d) in
      case check_each checkRemovedName removed of Inl e \<Rightarrow> Inl e
      | Inr _ \<Rightarrow> (case check_each (\<lambda>(n, z). validateZoneEntry isDN n z) zones of Inl e \<Rightarrow> Inl e
        | Inr _ \<Rightarrow> Inr (map (\<lambda>(n, z). (n, the z)) zones, removed)))"

section \<open>Field classes\<close>

definition signingEqual :: "zone_state \<Rightarrow> zone_state \<Rightarrow> bool" where
  "signingEqual a b \<longleftrightarrow> z_Path a = z_Path b \<and> z_Serial a = z_Serial b \<and>
     z_PublishedSerial a = z_PublishedSerial b \<and> z_LastSigned a = z_LastSigned b \<and>
     z_SourceModTime a = z_SourceModTime b \<and> z_SourceSize a = z_SourceSize b \<and>
     z_SourceDigest a = z_SourceDigest b \<and> z_SignaturesExp a = z_SignaturesExp b \<and>
     z_PublishedDNSKEYTTL a = z_PublishedDNSKEYTTL b \<and>
     z_PublishedMaxRRSIGTTL a = z_PublishedMaxRRSIGTTL b"

definition copySigning :: "zone_state \<Rightarrow> zone_state \<Rightarrow> zone_state" where
  "copySigning dst src = dst\<lparr>z_Path := z_Path src, z_Serial := z_Serial src,
     z_PublishedSerial := z_PublishedSerial src, z_LastSigned := z_LastSigned src,
     z_SourceModTime := z_SourceModTime src, z_SourceSize := z_SourceSize src,
     z_SourceDigest := z_SourceDigest src, z_SignaturesExp := z_SignaturesExp src,
     z_PublishedDNSKEYTTL := z_PublishedDNSKEYTTL src,
     z_PublishedMaxRRSIGTTL := z_PublishedMaxRRSIGTTL src\<rparr>"

definition keyStateEqual :: "key_state option \<Rightarrow> key_state option \<Rightarrow> bool" where
  "keyStateEqual ao bo = (case (ao, bo) of
     (Some a, Some b) \<Rightarrow> k_ID a = k_ID b \<and> k_Algorithm a = k_Algorithm b \<and> k_Created a = k_Created b \<and>
       k_Expires a = k_Expires b \<and> k_DSPublished a = k_DSPublished b \<and> k_RolloverDue a = k_RolloverDue b
   | (None, None) \<Rightarrow> True | _ \<Rightarrow> False)"

definition rolloverStateEqual :: "rollover_state option \<Rightarrow> rollover_state option \<Rightarrow> bool" where
  "rolloverStateEqual ao bo = (case (ao, bo) of
     (Some a, Some b) \<Rightarrow> r_Type a = r_Type b \<and> r_State a = r_State b \<and>
       r_OldKeyID a = r_OldKeyID b \<and> r_NewKeyID a = r_NewKeyID b \<and>
       r_OldZSKID a = r_OldZSKID b \<and> r_NewZSKID a = r_NewZSKID b \<and>
       r_OldAlgorithm a = r_OldAlgorithm b \<and> r_NewAlgorithm a = r_NewAlgorithm b \<and>
       r_Started a = r_Started b \<and> r_PhaseStarted a = r_PhaseStarted b \<and>
       r_PhaseFirstSigned a = r_PhaseFirstSigned b \<and> r_PhaseHorizon a = r_PhaseHorizon b \<and>
       r_DSObservedAt a = r_DSObservedAt b \<and> r_ParentDSTTL a = r_ParentDSTTL b \<and>
       r_OldDSRemovedAt a = r_OldDSRemovedAt b \<and> r_DSRemovalPushedAt a = r_DSRemovalPushedAt b \<and>
       r_DSAddPushedAt a = r_DSAddPushedAt b \<and> r_Action a = r_Action b
   | (None, None) \<Rightarrow> True | _ \<Rightarrow> False)"

definition keysRolloverEqual :: "zone_state \<Rightarrow> zone_state \<Rightarrow> bool" where
  "keysRolloverEqual a b \<longleftrightarrow> keyStateEqual (z_KSK a) (z_KSK b) \<and> keyStateEqual (z_ZSK a) (z_ZSK b) \<and>
     rolloverStateEqual (z_Rollover a) (z_Rollover b)"

definition copyKeysRollover :: "zone_state \<Rightarrow> zone_state \<Rightarrow> zone_state" where
  "copyKeysRollover dst src = dst\<lparr>z_KSK := z_KSK src, z_ZSK := z_ZSK src, z_Rollover := z_Rollover src\<rparr>"

definition publicationEqual :: "zone_state \<Rightarrow> zone_state \<Rightarrow> bool" where
  "publicationEqual a b \<longleftrightarrow> z_PendingPublication a = z_PendingPublication b \<and>
     z_PublishedAt a = z_PublishedAt b \<and>
     z_PublishedGenerationSignedAt a = z_PublishedGenerationSignedAt b \<and>
     z_ServedDNSKEYTTL a = z_ServedDNSKEYTTL b \<and> z_ServedMaxRRSIGTTL a = z_ServedMaxRRSIGTTL b \<and>
     z_DNSKEYCacheHorizon a = z_DNSKEYCacheHorizon b \<and> z_RRSIGCacheHorizon a = z_RRSIGCacheHorizon b"

definition copyPublication :: "zone_state \<Rightarrow> zone_state \<Rightarrow> zone_state" where
  "copyPublication dst src = dst\<lparr>z_PendingPublication := z_PendingPublication src,
     z_PublishedAt := z_PublishedAt src,
     z_PublishedGenerationSignedAt := z_PublishedGenerationSignedAt src,
     z_ServedDNSKEYTTL := z_ServedDNSKEYTTL src, z_ServedMaxRRSIGTTL := z_ServedMaxRRSIGTTL src,
     z_DNSKEYCacheHorizon := z_DNSKEYCacheHorizon src, z_RRSIGCacheHorizon := z_RRSIGCacheHorizon src\<rparr>"

definition laterTime :: "gotime \<Rightarrow> gotime \<Rightarrow> gotime" where
  "laterTime a b = (if a < b then b else a)"

definition mergePublication :: "zone_state \<Rightarrow> zone_state \<Rightarrow> zone_state \<Rightarrow> zone_state" where
  "mergePublication out disk memz =
     (let win = (if z_PublishedGenerationSignedAt disk < z_PublishedGenerationSignedAt memz then memz else disk);
          out1 = out\<lparr>z_PublishedAt := z_PublishedAt win,
            z_PublishedGenerationSignedAt := z_PublishedGenerationSignedAt win,
            z_ServedDNSKEYTTL := z_ServedDNSKEYTTL win, z_ServedMaxRRSIGTTL := z_ServedMaxRRSIGTTL win,
            z_DNSKEYCacheHorizon := laterTime (z_DNSKEYCacheHorizon disk) (z_DNSKEYCacheHorizon memz),
            z_RRSIGCacheHorizon := laterTime (z_RRSIGCacheHorizon disk) (z_RRSIGCacheHorizon memz)\<rparr>
      in out1\<lparr>z_PendingPublication := z_PublishedGenerationSignedAt out1 < z_LastSigned out1\<rparr>)"

fun stringsEqual :: "string list \<Rightarrow> string list \<Rightarrow> bool" where
  "stringsEqual [] [] \<longleftrightarrow> True"
| "stringsEqual (a # as) (b # bs) \<longleftrightarrow> a = b \<and> stringsEqual as bs"
| "stringsEqual _ _ \<longleftrightarrow> False"

definition diagnosticsEqual :: "zone_state \<Rightarrow> zone_state \<Rightarrow> bool" where
  "diagnosticsEqual a b \<longleftrightarrow> stringsEqual (z_Warnings a) (z_Warnings b) \<and> stringsEqual (z_Errors a) (z_Errors b)"

text \<open>\<open>operationOf\<close>: a non-empty text before the first colon and space.\<close>

definition operationOf :: "string \<Rightarrow> string option" where
  "operationOf e = (case before_colon_space e of Some op \<Rightarrow> if op = [] then None else Some op | None \<Rightarrow> None)"

definition add_disk_entry :: "string list \<Rightarrow> bool \<Rightarrow> string \<Rightarrow> string list \<Rightarrow> string list" where
  "add_disk_entry base opScoped d out =
     (if d \<notin> set base \<and> d \<notin> set out then
        (let kept = (if opScoped then
            (case operationOf d of
               Some op \<Rightarrow> filter (\<lambda>x. operationOf x \<noteq> Some op) out
             | None \<Rightarrow> out) else out)
         in kept @ [d])
      else out)"

definition mergeDiagnostics :: "string list \<Rightarrow> string list \<Rightarrow> string list \<Rightarrow> bool \<Rightarrow> string list" where
  "mergeDiagnostics base disk mems opScoped =
     fold (add_disk_entry base opScoped) disk
       (filter (\<lambda>m. m \<in> set disk \<or> m \<notin> set base) mems)"

definition zoneContentEqual :: "zone_state \<Rightarrow> zone_state \<Rightarrow> bool" where
  "zoneContentEqual a b \<longleftrightarrow> signingEqual a b \<and> keysRolloverEqual a b \<and> publicationEqual a b \<and>
     diagnosticsEqual a b \<and> z_ForceResign a = z_ForceResign b"

section \<open>The three-way merge of one zone\<close>

text \<open>
  The merge when both sides changed works on a clone of memory in stages: revision, signing
  fields, keys and rollover record, publication fields, diagnostics, forced re-sign.
\<close>

definition sign_from_disk :: "zone_state \<Rightarrow> zone_state \<Rightarrow> zone_state \<Rightarrow> bool" where
  "sign_from_disk base disk memz \<longleftrightarrow> \<not> signingEqual disk base \<and>
     (signingEqual memz base \<or> \<not> z_LastSigned disk < z_LastSigned memz)"

definition merge_revision :: "zone_state \<Rightarrow> zone_state \<Rightarrow> zone_state" where
  "merge_revision disk out = (if z_Revision out < z_Revision disk then out\<lparr>z_Revision := z_Revision disk\<rparr> else out)"

definition merge_sign :: "zone_state \<Rightarrow> zone_state \<Rightarrow> zone_state \<Rightarrow> zone_state \<Rightarrow> zone_state" where
  "merge_sign base disk memz out = (if sign_from_disk base disk memz then copySigning out disk else out)"

definition merge_keys :: "zone_state \<Rightarrow> zone_state \<Rightarrow> zone_state \<Rightarrow> zone_state" where
  "merge_keys base disk out = (if \<not> keysRolloverEqual disk base then copyKeysRollover out disk else out)"

definition recompute_pending :: "zone_state \<Rightarrow> zone_state" where
  "recompute_pending z = z\<lparr>z_PendingPublication := z_PublishedGenerationSignedAt z < z_LastSigned z\<rparr>"

definition merge_pub :: "zone_state \<Rightarrow> zone_state \<Rightarrow> zone_state \<Rightarrow> zone_state \<Rightarrow> zone_state" where
  "merge_pub base disk memz out =
     (let dPub = \<not> publicationEqual disk base; mPub = \<not> publicationEqual memz base;
          signFromDisk = sign_from_disk base disk memz in
      if dPub \<and> \<not> mPub then
        (if \<not> signFromDisk then recompute_pending (copyPublication out disk) else copyPublication out disk)
      else if dPub \<and> mPub then mergePublication out disk memz
      else if \<not> dPub \<and> mPub \<and> signFromDisk then recompute_pending out
      else out)"

definition merge_diag :: "zone_state \<Rightarrow> zone_state \<Rightarrow> zone_state \<Rightarrow> zone_state \<Rightarrow> zone_state" where
  "merge_diag base disk memz out =
     (if \<not> diagnosticsEqual disk base then
        out\<lparr>z_Warnings := mergeDiagnostics (z_Warnings base) (z_Warnings disk) (z_Warnings memz) False,
            z_Errors := mergeDiagnostics (z_Errors base) (z_Errors disk) (z_Errors memz) True\<rparr>
      else out)"

definition merge_force :: "zone_state \<Rightarrow> zone_state \<Rightarrow> zone_state \<Rightarrow> zone_state \<Rightarrow> zone_state" where
  "merge_force base disk memz out =
     (let dForce = (z_ForceResign disk \<noteq> z_ForceResign base);
          mForce = (z_ForceResign memz \<noteq> z_ForceResign base);
          keyConflict = (\<not> keysRolloverEqual disk base \<and> \<not> keysRolloverEqual memz base) in
      if keyConflict then out\<lparr>z_ForceResign := True\<rparr>
      else if dForce \<and> mForce then out\<lparr>z_ForceResign := z_ForceResign disk \<or> z_ForceResign memz\<rparr>
      else if dForce then out\<lparr>z_ForceResign := z_ForceResign disk\<rparr>
      else out)"

definition mergeZone :: "zone_state \<Rightarrow> zone_state \<Rightarrow> zone_state \<Rightarrow> zone_state" where
  "mergeZone base disk memz =
     (if \<not> (z_Revision disk \<noteq> z_Revision base \<or> \<not> zoneContentEqual disk base) then memz
      else if zoneContentEqual memz base then disk
      else merge_force base disk memz (merge_diag base disk memz (merge_pub base disk memz
             (merge_keys base disk (merge_sign base disk memz (merge_revision disk memz))))))"

section \<open>Save\<close>

definition bump_revision :: "(string, zone_state) gomap \<Rightarrow> string \<Rightarrow> zone_state \<Rightarrow> zone_state" where
  "bump_revision base name z = (case map_of base name of
      None \<Rightarrow> z\<lparr>z_Revision := z_Revision z + 1\<rparr>
    | Some b \<Rightarrow> if zoneContentEqual z b then z
        else z\<lparr>z_Revision := (if z_Revision z < z_Revision b then z_Revision b else z_Revision z) + 1\<rparr>)"

definition bump_revisions :: "state \<Rightarrow> state" where
  "bump_revisions s = s\<lparr>s_Zones := map (\<lambda>(n, z). (n, bump_revision (s_base s) n z)) (s_Zones s)\<rparr>"

text \<open>The document \<open>json.MarshalIndent\<close> writes; an empty marker map is omitted.\<close>

definition marshal :: "state \<Rightarrow> document" where
  "marshal s = \<lparr>d_Zones = Some (map (\<lambda>(n, z). (n, Some z)) (s_Zones s)),
     d_Removed = (if s_Removed s = [] then None else Some (s_Removed s))\<rparr>"

definition upd_mem :: "(state \<Rightarrow> state) \<Rightarrow> world \<Rightarrow> world" where
  "upd_mem f w = w\<lparr>mem := f (mem w)\<rparr>"

definition Save :: "env \<Rightarrow> (world, unit) op" where
  "Save env =
     op_bind (op_upd (upd_mem bump_revisions)) (\<lambda>_.
     op_bind (op_get (\<lambda>w. mem w)) (\<lambda>s.
     op_try (replace_atomic env ''state.json'' (\<lambda>w. w\<lparr>sfile := Doc (marshal s)\<rparr>)) (\<lambda>r.
       case r of
         Inl e \<Rightarrow>
           if \<not> IsCommitted e then op_fail (Wrap ''writing state file'' e)
           else op_bind (op_upd (upd_mem (\<lambda>m. m\<lparr>s_fileSeen := True, s_base := s_Zones s\<rparr>)))
             (\<lambda>_. op_fail (Wrap ''writing state file'' e))
       | Inr _ \<Rightarrow> op_upd (upd_mem (\<lambda>m. m\<lparr>s_fileSeen := True, s_base := s_Zones s\<rparr>)))))"

section \<open>Load, replace, reload\<close>

definition LoadState :: "(string \<Rightarrow> bool) \<Rightarrow> state_file \<Rightarrow> error + state" where
  "LoadState isDN f = (case f of
      NoFile \<Rightarrow> Inr NewState
    | Malformed \<Rightarrow> Inl (Wrap ''parsing state file'' (Msg ''invalid JSON''))
    | Doc d \<Rightarrow> (case validateAndNormalize isDN d of
        Inl e \<Rightarrow> Inl (Wrap ''state file is invalid (left unchanged)'' e)
      | Inr (zones, removed) \<Rightarrow>
          Inr \<lparr>s_Zones = zones, s_Removed = removed, s_fileSeen = True, s_base = zones\<rparr>))"

definition readDiskLocked ::
  "env \<Rightarrow> (string \<Rightarrow> bool) \<Rightarrow> (world, ((string, zone_state) gomap \<times> (string, gotime) gomap) option) op" where
  "readDiskLocked env isDN = io_step env (Msg ''reading state file'') (\<lambda>w. case sfile w of
      NoFile \<Rightarrow> if s_fileSeen (mem w) then (Inl ErrStateFileMissing, w) else (Inr None, w)
    | Malformed \<Rightarrow> (Inl (Wrap ''parsing state file'' (Msg ''invalid JSON'')), w)
    | Doc d \<Rightarrow> (case validateAndNormalize isDN d of
        Inl e \<Rightarrow> (Inl (Wrap ''state file is invalid (left unchanged)'' e), w)
      | Inr p \<Rightarrow> (Inr (Some p), w)))"

definition ReplaceFromDisk :: "env \<Rightarrow> (string \<Rightarrow> bool) \<Rightarrow> (world, unit) op" where
  "ReplaceFromDisk env isDN =
     op_bind (readDiskLocked env isDN) (\<lambda>d. case d of
       None \<Rightarrow> op_ok ()
     | Some (zones, removed) \<Rightarrow>
         op_upd (upd_mem (\<lambda>m. m\<lparr>s_Zones := zones, s_Removed := removed, s_fileSeen := True, s_base := zones\<rparr>)))"

text \<open>The four loops of \<open>ReloadFromDisk\<close>, in order.\<close>

definition adopt_marker ::
  "(string, zone_state) gomap \<Rightarrow> string \<Rightarrow> gotime \<Rightarrow>
   (string, zone_state) gomap \<times> (string, gotime) gomap \<Rightarrow>
   (string, zone_state) gomap \<times> (string, gotime) gomap" where
  "adopt_marker diskZones d ts zr = (case zr of (zones, removed) \<Rightarrow>
     if map_of diskZones d \<noteq> None then (zones, removed)
     else case map_of zones d of
         Some mz \<Rightarrow> if ts < z_LastSigned mz then (zones, AList.delete d removed)
                    else (AList.delete d zones, AList.update d ts removed)
       | None \<Rightarrow> (zones, AList.update d ts removed))"

definition merge_entry ::
  "(string, zone_state) gomap \<Rightarrow> string \<Rightarrow> zone_state \<Rightarrow> (string, zone_state) gomap \<Rightarrow>
   (string, zone_state) gomap" where
  "merge_entry base d diskZone zones = (case map_of zones d of
      None \<Rightarrow> AList.update d diskZone zones
    | Some mz \<Rightarrow> (case map_of base d of
        None \<Rightarrow> AList.update d diskZone zones
      | Some b \<Rightarrow> AList.update d (mergeZone b diskZone mz) zones))"

definition reload_merge ::
  "(string, zone_state) gomap \<Rightarrow> (string, gotime) gomap \<Rightarrow> state \<Rightarrow> state" where
  "reload_merge diskZones diskRemoved m =
     (let (zones1, removed1) =
            fold (\<lambda>(d, ts). adopt_marker diskZones d ts) diskRemoved (s_Zones m, s_Removed m);
          removed2 = filter (\<lambda>(d, ts). map_of diskZones d = None) removed1;
          zones2 = fold (\<lambda>(d, z). merge_entry (s_base m) d z) diskZones zones1;
          zones3 = filter (\<lambda>(d, z). map_of diskZones d \<noteq> None \<or>
             (case map_of (s_base m) d of Some b \<Rightarrow> \<not> zoneContentEqual z b | None \<Rightarrow> True)) zones2
      in \<lparr>s_Zones = zones3, s_Removed = removed2, s_fileSeen = True, s_base = diskZones\<rparr>)"

definition ReloadFromDisk :: "env \<Rightarrow> (string \<Rightarrow> bool) \<Rightarrow> (world, unit) op" where
  "ReloadFromDisk env isDN =
     op_bind (readDiskLocked env isDN) (\<lambda>d. case d of
       None \<Rightarrow> op_ok ()
     | Some (zones, removed) \<Rightarrow> op_upd (upd_mem (reload_merge zones removed)))"

section \<open>Zone access\<close>

definition GetZone :: "string \<Rightarrow> state \<Rightarrow> zone_state option" where
  "GetZone domain s = map_of (s_Zones s) domain"

definition SetZone :: "string \<Rightarrow> zone_state \<Rightarrow> state \<Rightarrow> state" where
  "SetZone domain z s = s\<lparr>s_Zones := AList.update domain z (s_Zones s)\<rparr>"

definition RemoveZone :: "string \<Rightarrow> state \<Rightarrow> state" where
  "RemoveZone domain s = s\<lparr>s_Zones := AList.delete domain (s_Zones s)\<rparr>"

definition UpdateZone :: "string \<Rightarrow> (zone_state \<Rightarrow> zone_state) \<Rightarrow> state \<Rightarrow> state" where
  "UpdateZone domain f s = (case map_of (s_Zones s) domain of
     Some z \<Rightarrow> s\<lparr>s_Zones := AList.update domain (f z) (s_Zones s)\<rparr> | None \<Rightarrow> s)"

definition ZoneNames :: "state \<Rightarrow> string list" where
  "ZoneNames s = map fst (s_Zones s)"

definition SnapshotZones :: "state \<Rightarrow> (string, zone_state) gomap" where
  "SnapshotZones s = s_Zones s"

definition BaseRevision :: "string \<Rightarrow> state \<Rightarrow> 64 word" where
  "BaseRevision domain s = (case map_of (s_base s) domain of Some b \<Rightarrow> z_Revision b | None \<Rightarrow> 0)"

definition MarkRemoved :: "env \<Rightarrow> string \<Rightarrow> (world, unit) op" where
  "MarkRemoved env domain = op_bind (clock env) (\<lambda>now. op_upd (upd_mem (\<lambda>s.
     s\<lparr>s_Zones := AList.delete domain (s_Zones s), s_Removed := AList.update domain now (s_Removed s)\<rparr>)))"

definition RestoreRemoved :: "string \<Rightarrow> gotime \<Rightarrow> state \<Rightarrow> state" where
  "RestoreRemoved domain ts s = s\<lparr>s_Removed := AList.update domain ts (s_Removed s)\<rparr>"

definition ClearRemoved :: "string \<Rightarrow> state \<Rightarrow> state" where
  "ClearRemoved domain s = s\<lparr>s_Removed := AList.delete domain (s_Removed s)\<rparr>"

definition RemovedAt :: "string \<Rightarrow> state \<Rightarrow> gotime option" where
  "RemovedAt domain s = map_of (s_Removed s) domain"

end
