(* ===== verification/Rollover.thy ===== *)
theory Rollover
  imports Key_Files State_Store
begin

text \<open>
  Key rollovers (\<open>signer/internal/signer/rollover.go\<close>): the operator commands that start
  and complete a rollover, and the periodic checks that advance it. A rollover record is
  saved before any live key changes; every later phase waits for a confirmed publication
  and for the caches it may not outrun.

  The parent-DS probe and the registrar automation are injected interfaces of the program,
  so they are fields of \<open>rollover_manager\<close>. The probe is a function of the tick at which
  it runs; the automation is an operation on the world, since it reports its failures as
  zone warnings. Metrics and log lines are left out.
\<close>

section \<open>Collaborators\<close>

text \<open>
  Of an observation the rollover code reads the per-key absence and the largest TTL.
\<close>

record parent_ds_observation =
  obs_PresentOnAll :: "16 word \<Rightarrow> bool"
  obs_AbsentOnAll :: "16 word \<Rightarrow> bool"
  obs_TTL :: "32 word"

type_synonym ds_probe = "nat \<Rightarrow> string \<Rightarrow> dnskey list \<Rightarrow> error + parent_ds_observation"
type_synonym ds_publisher = "string \<Rightarrow> string \<Rightarrow> (world, bool) op"

record rollover_manager =
  rm_cfg :: config
  rm_probe :: "ds_probe option"
  rm_publisher :: "ds_publisher option"

definition OpRolloverOldDSRemoval :: string where "OpRolloverOldDSRemoval = ''rollover_old_ds_removal''"
definition OpRolloverNewDSAdd :: string where "OpRolloverNewDSAdd = ''rollover_new_ds_add''"

definition NewRolloverManager :: "config \<Rightarrow> rollover_manager" where
  "NewRolloverManager cfg = \<lparr>rm_cfg = cfg, rm_probe = None, rm_publisher = None\<rparr>"

definition SetParentDSProbe :: "ds_probe option \<Rightarrow> rollover_manager \<Rightarrow> rollover_manager" where
  "SetParentDSProbe p rm = rm\<lparr>rm_probe := p\<rparr>"

definition SetDSPublisher :: "ds_publisher option \<Rightarrow> rollover_manager \<Rightarrow> rollover_manager" where
  "SetDSPublisher p rm = rm\<lparr>rm_publisher := p\<rparr>"

section \<open>The zone under rollover\<close>

text \<open>
  \<open>state.Mutate\<close> on the zone the handler looked up; a handler that holds the zone
  pointer across a call continues with the zone's current record.
\<close>

definition Mutate :: "string \<Rightarrow> (zone_state \<Rightarrow> zone_state) \<Rightarrow> (world, unit) op" where
  "Mutate domain f = op_upd (upd_mem (UpdateZone domain f))"

definition upd_rollover :: "(rollover_state \<Rightarrow> rollover_state) \<Rightarrow> zone_state \<Rightarrow> zone_state" where
  "upd_rollover f z = z\<lparr>z_Rollover := map_option f (z_Rollover z)\<rparr>"

definition look :: "string \<Rightarrow> (world, zone_state option) op" where
  "look domain = op_get (\<lambda>w. GetZone domain (mem w))"

text \<open>Continue with the zone and its rollover record; do nothing when there is none.\<close>

definition with_rollover ::
  "string \<Rightarrow> (zone_state \<Rightarrow> rollover_state \<Rightarrow> (world, 'a) op) \<Rightarrow> 'a \<Rightarrow> (world, 'a) op" where
  "with_rollover domain f d = op_bind (look domain) (\<lambda>zo. case zo of
      None \<Rightarrow> op_ok d
    | Some z \<Rightarrow> (case z_Rollover z of None \<Rightarrow> op_ok d | Some r \<Rightarrow> f z r))"

section \<open>Operator texts\<close>

definition em_dash :: string where "em_dash = [CHR 0xE2, CHR 0x80, CHR 0x94]"

definition new_ds_action :: "string \<Rightarrow> string" where
  "new_ds_action domain = ''Publish new DS record at registrar, then run: sigillum-signer rollover complete '' @ domain"

definition algo_start_action :: "string \<Rightarrow> string \<Rightarrow> string" where
  "algo_start_action alg domain =
     ''Automatic: do NOT publish the new DS yet '' @ em_dash @
     '' the new algorithm's keys and signatures must first be confirmed served and cached data must expire; '' @
     ''status reports when the new DS (algorithm '' @ alg @
     '') may be published (registrar automation adds it then); afterwards run: sigillum-signer rollover complete '' @ domain"

definition algo_manual_action :: "string \<Rightarrow> string \<Rightarrow> string" where
  "algo_manual_action alg domain = ''Publish new DS record (algorithm '' @ alg @
     '') at registrar, then run: sigillum-signer rollover complete '' @ domain"

definition algo_wait_action :: "string \<Rightarrow> string \<Rightarrow> string \<Rightarrow> string" where
  "algo_wait_action reason alg domain = ''Automatic: do NOT publish the new DS yet '' @ em_dash @ '' '' @ reason @
     ''; the new DS (algorithm '' @ alg @ '') may be published after that (registrar automation adds it then), followed by: sigillum-signer rollover complete '' @ domain"

definition algo_added_action :: "string \<Rightarrow> string \<Rightarrow> string" where
  "algo_added_action alg domain = ''Registrar automation added the new DS (algorithm '' @ alg @
     ''); once it is at every parent server run: sigillum-signer rollover complete '' @ domain"

definition algo_retry_action :: "string \<Rightarrow> string \<Rightarrow> string" where
  "algo_retry_action alg domain = ''Registrar automation could not add the new DS (algorithm '' @ alg @
     '') and retries every cycle; alternatively publish it yourself, then run: sigillum-signer rollover complete '' @ domain"

text \<open>\<open>Duration.String\<close>.\<close>

definition strip_zeros :: "string \<Rightarrow> string" where
  "strip_zeros s = rev (dropWhile (\<lambda>c. c = CHR ''0'') (rev s))"

definition frac_text :: "nat \<Rightarrow> nat \<Rightarrow> string" where
  "frac_text v prec = (let f = strip_zeros (pad_zero prec (show_nat v)) in if f = [] then [] else CHR ''.'' # f)"

definition unit_text :: "nat \<Rightarrow> nat \<Rightarrow> string" where
  "unit_text u prec = show_nat (u div 10 ^ prec) @ frac_text (u mod 10 ^ prec) prec"

definition duration_String :: "duration \<Rightarrow> string" where
  "duration_String d = (let u = nat \<bar>d\<bar>; sg = (if d < 0 then ''-'' else []) in
     if u = 0 then ''0s''
     else if u < 1000 then sg @ show_nat u @ ''ns''
     else if u < 1000000 then sg @ unit_text u 3 @ [CHR 0xC2, CHR 0xB5] @ ''s''
     else if u < 1000000000 then sg @ unit_text u 6 @ ''ms''
     else let s = u div 1000000000; m = s div 60; h = m div 60 in
       sg @ (if h > 0 then show_nat h @ ''h'' else []) @ (if m > 0 then show_nat (m mod 60) @ ''m'' else []) @
       show_nat (s mod 60) @ frac_text (u mod 1000000000) 9 @ ''s'')"

definition humanizeRolloverDelay :: "duration \<Rightarrow> string" where
  "humanizeRolloverDelay d = (if 24 * Hour \<le> d then show_f0 (f64 (Hours d / 24)) @ '' day(s)'' else duration_String d)"

section \<open>Cache floors and propagation\<close>

definition effectiveParentDSTTL :: "32 word \<Rightarrow> duration" where
  "effectiveParentDSTTL s = (if s = 0 then DefaultParentDSTTL else seconds s)"

definition maxUint32 :: "32 word \<Rightarrow> 32 word \<Rightarrow> 32 word" where
  "maxUint32 a b = (if b < a then a else b)"

definition dnskeyTTLFloor :: "config \<Rightarrow> zone_state \<Rightarrow> duration" where
  "dnskeyTTLFloor cfg z =
     (let ttl = (if 0 < z_PublishedDNSKEYTTL z then seconds (z_PublishedDNSKEYTTL z) else 0);
          cfgTTL = seconds (c_DNSKEYTtl (DNSSEC cfg));
          ttl2 = (if ttl < cfgTTL then cfgTTL else ttl)
      in if ttl2 \<le> 0 then 24 * Hour else ttl2)"

definition zskRetireFloor :: "config \<Rightarrow> zone_state \<Rightarrow> duration" where
  "zskRetireFloor cfg z = (let ttlFloor = dnskeyTTLFloor cfg z; rrsig = seconds (z_PublishedMaxRRSIGTTL z)
     in if ttlFloor < rrsig then rrsig else ttlFloor)"

definition newKeyFloor :: "config \<Rightarrow> zone_state \<Rightarrow> rollover_state \<Rightarrow> duration" where
  "newKeyFloor cfg z r = (if r_Type r = ''algorithm'' then zskRetireFloor cfg z else dnskeyTTLFloor cfg z)"

text \<open>Whether the parent's DS set may change, and the reason it may not yet.\<close>

definition newKeysPropagated :: "zone_state \<Rightarrow> gotime \<Rightarrow> bool \<times> string" where
  "newKeysPropagated z now = (case z_Rollover z of
      None \<Rightarrow> (False, ''no rollover in progress'')
    | Some r \<Rightarrow>
        if \<not> PublishedSince z (r_Started r) \<or> r_PhaseHorizon r = 0 then
          (False, ''the DNSKEY RRset carrying the new key is not yet confirmed served by every authoritative server'')
        else if now < r_PhaseHorizon r then
          (False, ''resolvers may still cache the DNSKEY RRset without the new key until '' @ fmt_rfc3339 (r_PhaseHorizon r))
        else (True, []))"

definition oldDSRemovalAdvice :: "zone_state \<Rightarrow> gotime \<Rightarrow> string" where
  "oldDSRemovalAdvice z now = (case newKeysPropagated z now of
      (False, reason) \<Rightarrow> ''do NOT remove the OLD DS at the registrar yet: '' @ reason @
        '' (registrar automation waits for this as well; status reports when it is safe)''
    | (True, _) \<Rightarrow> ''the OLD DS may be removed at the registrar now (registrar automation does this itself)'')"

definition later_of :: "gotime \<Rightarrow> gotime \<Rightarrow> gotime" where
  "later_of a b = (if a < b then b else a)"

text \<open>
  The publication that introduced the new keys is stamped once, with the horizon the
  parent's DS set must not change before.
\<close>

definition stampNewKeyPropagation :: "env \<Rightarrow> rollover_manager \<Rightarrow> string \<Rightarrow> (world, unit) op" where
  "stampNewKeyPropagation env rm domain = with_rollover domain (\<lambda>z r.
     if r_Type r \<noteq> ''ksk'' \<and> r_Type r \<noteq> ''algorithm'' \<or> r_PhaseHorizon r \<noteq> 0 then op_ok ()
     else if \<not> PublishedSince z (r_Started r) then op_ok ()
     else
       let published = z_PublishedAt z;
           h1 = later_of (published + newKeyFloor (rm_cfg rm) z r) (z_DNSKEYCacheHorizon z);
           h2 = (if r_Type r = ''algorithm'' then later_of h1 (z_RRSIGCacheHorizon z) else h1) in
       op_bind (Mutate domain (upd_rollover (\<lambda>r. r\<lparr>r_PhaseFirstSigned := published, r_PhaseHorizon := h2\<rparr>)))
         (\<lambda>_. Save env)) ()"

section \<open>Backup\<close>

definition BackupKey ::
  "env \<Rightarrow> keylib \<Rightarrow> config \<Rightarrow> string \<Rightarrow> string \<Rightarrow> 16 word \<Rightarrow> ('w fs_world_scheme, unit) op" where
  "BackupKey env lib cfg domain keyType keyID =
     op_bind (ensureVerifiedBackup env lib cfg domain keyType) (\<lambda>live.
       if KeyTag lib live \<noteq> keyID then op_fail (Msg ''refusing to roll over an unrecorded key'') else op_ok ())"

definition activateRecorded ::
  "env \<Rightarrow> keylib \<Rightarrow> rollover_manager \<Rightarrow> string \<Rightarrow> string \<Rightarrow> 16 word \<Rightarrow> (world, unit) op" where
  "activateRecorded env lib rm domain keyType tag =
     op_wrap ''activating new key (the rollover is recorded)'' (ActivateKeyPair env lib (rm_cfg rm) domain keyType tag)"

text \<open>
  The save of a new record: an uncommitted failure takes the record back out of memory,
  a committed one continues with the activation.
\<close>

definition save_record :: "env \<Rightarrow> string \<Rightarrow> (zone_state \<Rightarrow> zone_state) \<Rightarrow> (world, unit) op" where
  "save_record env domain rollback = op_try (Save env) (\<lambda>r. case r of
      Inr _ \<Rightarrow> op_ok ()
    | Inl e \<Rightarrow> if IsCommitted e then op_ok ()
        else op_bind (Mutate domain rollback) (\<lambda>_. op_fail (Wrap ''saving rollover state (no live key was changed)'' e)))"

section \<open>KSK rollover\<close>

definition ksk_record :: "string \<Rightarrow> key_state \<Rightarrow> key_state \<Rightarrow> gotime \<Rightarrow> rollover_state" where
  "ksk_record domain old new now = zero_rollover\<lparr>r_Type := ''ksk'', r_State := KSKRolloverStateDSAddWait,
     r_OldKeyID := k_ID old, r_NewKeyID := k_ID new, r_Started := now, r_Action := new_ds_action domain\<rparr>"

text \<open>Record, save, and only then activate.\<close>

definition ksk_commit :: "env \<Rightarrow> keylib \<Rightarrow> rollover_manager \<Rightarrow> string \<Rightarrow> key_state \<Rightarrow> key_state \<Rightarrow> (world, unit) op" where
  "ksk_commit env lib rm domain oldKSK newKSK =
     op_bind (clock env) (\<lambda>now.
     op_bind (Mutate domain (\<lambda>z. z\<lparr>z_Rollover := Some (ksk_record domain oldKSK newKSK now),
         z_KSK := Some newKSK, z_ForceResign := True\<rparr>)) (\<lambda>_.
     op_bind (save_record env domain (\<lambda>z. z\<lparr>z_KSK := Some oldKSK, z_Rollover := None, z_ForceResign := False\<rparr>)) (\<lambda>_.
       activateRecorded env lib rm domain ''ksk'' (k_ID newKSK))))"

definition StartKSKRollover :: "env \<Rightarrow> keylib \<Rightarrow> rollover_manager \<Rightarrow> string \<Rightarrow> (world, unit) op" where
  "StartKSKRollover env lib rm domain = op_bind (look domain) (\<lambda>zo. case zo of
      None \<Rightarrow> op_fail (Msg ''zone not found'')
    | Some z \<Rightarrow>
        if z_Rollover z \<noteq> None then op_fail (Msg ''rollover already in progress'')
        else case z_KSK z of
          None \<Rightarrow> op_fail (Msg ''no existing KSK found'')
        | Some oldKSK \<Rightarrow>
            op_bind (op_wrap ''backing up old KSK before rollover''
              (BackupKey env lib (rm_cfg rm) domain ''ksk'' (k_ID oldKSK))) (\<lambda>_.
            op_bind (op_wrap ''generating new KSK''
              (stageNewKey env lib (rm_cfg rm) domain True (k_Algorithm oldKSK))) (\<lambda>newKSK.
            ksk_commit env lib rm domain oldKSK newKSK)))"

definition ksk_wait_action :: "zone_state \<Rightarrow> gotime \<Rightarrow> gotime \<Rightarrow> string" where
  "ksk_wait_action z retire now = ''Automatic: both KSKs stay published until '' @ fmt_rfc3339 retire @
     '' (parent DS TTL), then the old KSK is retired; '' @ oldDSRemovalAdvice z now"

definition ksk_enter_propagation :: "env \<Rightarrow> rollover_manager \<Rightarrow> string \<Rightarrow> gotime \<Rightarrow> 32 word \<Rightarrow> (world, unit) op" where
  "ksk_enter_propagation env rm domain dsObservedAt ttl =
     op_bind (stampNewKeyPropagation env rm domain) (\<lambda>_.
     op_bind (clock env) (\<lambda>now.
     op_bind (Mutate domain (\<lambda>z. ClearTransientWarnings (upd_rollover (\<lambda>r.
         r\<lparr>r_State := KSKRolloverStateDSPropagation, r_DSObservedAt := dsObservedAt, r_ParentDSTTL := ttl,
           r_PhaseStarted := now, r_Action := ksk_wait_action z (dsObservedAt + seconds ttl) now\<rparr>) z))) (\<lambda>_.
     Save env)))"

definition CompleteKSKRollover ::
  "env \<Rightarrow> rollover_manager \<Rightarrow> string \<Rightarrow> gotime \<Rightarrow> 32 word \<Rightarrow> (world, unit) op" where
  "CompleteKSKRollover env rm domain dsObservedAt parentDSTTL = op_bind (look domain) (\<lambda>zo. case zo of
      None \<Rightarrow> op_fail (Msg ''zone not found'')
    | Some z \<Rightarrow> (case z_Rollover z of
        None \<Rightarrow> op_fail (Msg ''no rollover in progress'')
      | Some r \<Rightarrow>
          if r_Type r \<noteq> ''ksk'' then op_fail (Msg ''current rollover is not KSK type'')
          else if r_State r \<noteq> KSKRolloverStateDSAddWait then op_fail (Msg ''rollover not in ds_add_wait state'')
          else let ttl = (if parentDSTTL = 0 then ParentDSTTLFallbackSeconds (rm_cfg rm) else parentDSTTL) in
            ksk_enter_propagation env rm domain dsObservedAt ttl))"

definition OldDSRemovalAdvice :: "env \<Rightarrow> string \<Rightarrow> (world, string) op" where
  "OldDSRemovalAdvice env domain = with_rollover domain (\<lambda>z r.
     op_bind (clock env) (\<lambda>now. op_ok (oldDSRemovalAdvice z now))) []"

definition removal_action :: "rollover_state \<Rightarrow> string" where
  "removal_action r = (if r_Type r = ''algorithm''
     then ''Automatic: registrar asked to hold only the new DS (algorithm '' @ r_NewAlgorithm r @
       ''); the old-algorithm keys are retired one parent DS TTL after the old DS is gone from every parent server''
     else ''Automatic: registrar asked to hold only the new DS; the rollover ends once the retired zone is confirmed served'')"

definition pushOldDSRemoval :: "env \<Rightarrow> rollover_manager \<Rightarrow> string \<Rightarrow> (world, bool) op" where
  "pushOldDSRemoval env rm domain = (case rm_publisher rm of
      None \<Rightarrow> op_ok True
    | Some publish \<Rightarrow> with_rollover domain (\<lambda>z r.
        if r_DSRemovalPushedAt r \<noteq> 0 then op_ok True
        else op_bind (clock env) (\<lambda>now.
          if \<not> fst (newKeysPropagated z now) then op_ok False
          else op_try (publish domain OpRolloverOldDSRemoval) (\<lambda>res. case res of
              Inl e \<Rightarrow> op_ok False
            | Inr published \<Rightarrow>
                if \<not> published then op_ok True
                else op_bind (Mutate domain (upd_rollover (\<lambda>r. r\<lparr>r_DSRemovalPushedAt := now, r_Action := removal_action r\<rparr>)))
                  (\<lambda>_. op_bind (Save env) (\<lambda>_. op_ok True))))) True)"

definition ksk_retire_action :: "zone_state \<Rightarrow> gotime \<Rightarrow> string" where
  "ksk_retire_action z now =
     ''Automatic: old KSK removed from the zone; the rollover ends once that zone is confirmed served; '' @ oldDSRemovalAdvice z now"

definition ksk_propagation_step :: "env \<Rightarrow> rollover_manager \<Rightarrow> string \<Rightarrow> gotime \<Rightarrow> (world, unit) op" where
  "ksk_propagation_step env rm domain now =
     op_bind (pushOldDSRemoval env rm domain) (\<lambda>_. with_rollover domain (\<lambda>z r.
       if now < r_DSObservedAt r + effectiveParentDSTTL (r_ParentDSTTL r) then op_ok ()
       else op_bind (Mutate domain (\<lambda>z. (upd_rollover (\<lambda>r. r\<lparr>r_State := KSKRolloverStateRetiring,
           r_PhaseStarted := now, r_Action := ksk_retire_action z now\<rparr>) z)\<lparr>z_ForceResign := True\<rparr>)) (\<lambda>_. Save env)) ())"

definition ksk_retiring_step :: "env \<Rightarrow> rollover_manager \<Rightarrow> string \<Rightarrow> (world, unit) op" where
  "ksk_retiring_step env rm domain =
     op_bind (pushOldDSRemoval env rm domain) (\<lambda>settled. with_rollover domain (\<lambda>z r.
       if \<not> PublishedSince z (r_PhaseStarted r) then op_ok ()
       else if \<not> settled then op_ok ()
       else op_bind (Mutate domain (\<lambda>z. ClearTransientWarnings (z\<lparr>z_Rollover := None\<rparr>))) (\<lambda>_. Save env)) ())"

definition CheckKSKRollover :: "env \<Rightarrow> rollover_manager \<Rightarrow> string \<Rightarrow> (world, unit) op" where
  "CheckKSKRollover env rm domain = with_rollover domain (\<lambda>z r.
     if r_Type r \<noteq> ''ksk'' then op_ok ()
     else op_bind (clock env) (\<lambda>now.
       op_bind (stampNewKeyPropagation env rm domain) (\<lambda>_.
       if r_State r = KSKRolloverStateDSPropagation then ksk_propagation_step env rm domain now
       else if r_State r = KSKRolloverStateRetiring then ksk_retiring_step env rm domain
       else op_ok ()))) ()"

section \<open>ZSK rollover\<close>

definition zsk_record :: "config \<Rightarrow> key_state \<Rightarrow> key_state \<Rightarrow> gotime \<Rightarrow> rollover_state" where
  "zsk_record cfg old new now = zero_rollover\<lparr>r_Type := ''zsk'', r_State := ZSKRolloverStatePrePublish,
     r_OldKeyID := k_ID old, r_NewKeyID := k_ID new, r_Started := now,
     r_Action := ''Automatic: new ZSK is pre-published, will switch to signing in '' @
       humanizeRolloverDelay (c_RolloverSwitch (DNSSEC cfg))\<rparr>"

definition zsk_commit :: "env \<Rightarrow> keylib \<Rightarrow> rollover_manager \<Rightarrow> string \<Rightarrow> key_state \<Rightarrow> key_state \<Rightarrow> (world, unit) op" where
  "zsk_commit env lib rm domain oldZSK newZSK =
     op_bind (clock env) (\<lambda>now.
     op_bind (Mutate domain (\<lambda>z. z\<lparr>z_Rollover := Some (zsk_record (rm_cfg rm) oldZSK newZSK now),
         z_ForceResign := True\<rparr>)) (\<lambda>_.
     op_bind (save_record env domain (\<lambda>z. z\<lparr>z_Rollover := None, z_ForceResign := False\<rparr>)) (\<lambda>_.
       activateRecorded env lib rm domain ''zsk'' (k_ID newZSK))))"

text \<open>The caller has found the ZSK; the zone keeps signing with it during pre-publish.\<close>

definition startZSKRollover ::
  "env \<Rightarrow> keylib \<Rightarrow> rollover_manager \<Rightarrow> string \<Rightarrow> zone_state \<Rightarrow> key_state \<Rightarrow> (world, unit) op" where
  "startZSKRollover env lib rm domain z oldZSK =
     (if z_Rollover z \<noteq> None then op_ok ()
      else
        op_bind (op_wrap ''backing up old ZSK before rollover''
          (BackupKey env lib (rm_cfg rm) domain ''zsk'' (k_ID oldZSK))) (\<lambda>_.
        op_bind (op_wrap ''generating new ZSK''
          (stageNewKey env lib (rm_cfg rm) domain False (k_Algorithm oldZSK))) (\<lambda>newZSK.
        zsk_commit env lib rm domain oldZSK newZSK)))"

text \<open>
  \<open>stampPhasePublication\<close>: once per phase, when the phase's key set was first confirmed
  served and the horizon the phase must wait out.
\<close>

definition stampPhasePublication ::
  "env \<Rightarrow> string \<Rightarrow> duration \<Rightarrow> gotime list \<Rightarrow> (world, unit) op" where
  "stampPhasePublication env domain ttlFloor horizons = with_rollover domain (\<lambda>z r.
     if r_PhaseFirstSigned r \<noteq> 0 then op_ok ()
     else let published = z_PublishedAt z; horizon = fold (\<lambda>h acc. later_of acc h) horizons (published + ttlFloor) in
       op_bind (Mutate domain (upd_rollover (\<lambda>r. r\<lparr>r_PhaseFirstSigned := published, r_PhaseHorizon := horizon\<rparr>)))
         (\<lambda>_. Save env)) ()"

definition switched_zsk :: "keylib \<Rightarrow> config \<Rightarrow> string \<Rightarrow> dnskey \<Rightarrow> rollover_state \<Rightarrow> key_state" where
  "switched_zsk lib cfg domain k r = \<lparr>k_ID = KeyTag lib k, k_Algorithm = AlgorithmName (dk_Algorithm k),
     k_Created = r_Started r, k_Expires = r_Started r + GetZoneZSKLifetime cfg domain, k_DSPublished = False,
     k_RolloverDue = r_Started r + three_quarters (GetZoneZSKLifetime cfg domain)\<rparr>"

definition zsk_switch :: "env \<Rightarrow> keylib \<Rightarrow> rollover_manager \<Rightarrow> string \<Rightarrow> gotime \<Rightarrow> (world, unit) op" where
  "zsk_switch env lib rm domain now = with_rollover domain (\<lambda>z r.
     if now < r_PhaseHorizon r then op_ok ()
     else op_bind (op_wrap ''loading new ZSK'' (EnsureLiveKey env lib (rm_cfg rm) domain ''zsk'' (r_NewKeyID r))) (\<lambda>kp.
       op_bind (Mutate domain (\<lambda>z. (upd_rollover (\<lambda>r. r\<lparr>r_State := ZSKRolloverStateSigning, r_PhaseStarted := now,
             r_PhaseFirstSigned := 0, r_PhaseHorizon := 0,
             r_Action := ''Automatic: signing with new ZSK, old ZSK still published''\<rparr>) z)
           \<lparr>z_ZSK := Some (switched_zsk lib (rm_cfg rm) domain (fst kp) r), z_ForceResign := True\<rparr>))
         (\<lambda>_. Save env))) ()"

definition zsk_finish :: "env \<Rightarrow> string \<Rightarrow> gotime \<Rightarrow> (world, unit) op" where
  "zsk_finish env domain now = with_rollover domain (\<lambda>z r.
     if now < r_PhaseHorizon r then op_ok ()
     else op_bind (Mutate domain (\<lambda>z. ClearTransientWarnings (z\<lparr>z_Rollover := None, z_ForceResign := True\<rparr>)))
       (\<lambda>_. Save env)) ()"

definition zsk_prepublish_step ::
  "env \<Rightarrow> keylib \<Rightarrow> rollover_manager \<Rightarrow> string \<Rightarrow> gotime \<Rightarrow> zone_state \<Rightarrow> rollover_state \<Rightarrow> (world, unit) op" where
  "zsk_prepublish_step env lib rm domain now z r =
     (if time_sub now (r_Started r) < c_RolloverSwitch (DNSSEC (rm_cfg rm)) then op_ok ()
      else if \<not> PublishedSince z (r_Started r) then op_ok ()
      else op_bind (stampPhasePublication env domain (dnskeyTTLFloor (rm_cfg rm) z) [z_DNSKEYCacheHorizon z]) (\<lambda>_.
        zsk_switch env lib rm domain now))"

text \<open>Old state files have no phase start; the rollover's own start stands in.\<close>

definition phase_start :: "rollover_state \<Rightarrow> gotime" where
  "phase_start r = (if r_PhaseStarted r = 0 then r_Started r else r_PhaseStarted r)"

definition zsk_signing_step ::
  "env \<Rightarrow> rollover_manager \<Rightarrow> string \<Rightarrow> gotime \<Rightarrow> zone_state \<Rightarrow> rollover_state \<Rightarrow> (world, unit) op" where
  "zsk_signing_step env rm domain now z r =
     (let switchDuration = c_RolloverSwitch (DNSSEC (rm_cfg rm));
          d = wrap64 (c_RolloverPrepublish (DNSSEC (rm_cfg rm)) - switchDuration);
          signingDuration = (if d \<le> 0 then switchDuration else d) in
      if time_sub now (phase_start r) < signingDuration then op_ok ()
      else if \<not> PublishedSince z (phase_start r) then op_ok ()
      else op_bind (stampPhasePublication env domain (zskRetireFloor (rm_cfg rm) z)
          [z_DNSKEYCacheHorizon z, z_RRSIGCacheHorizon z]) (\<lambda>_.
        zsk_finish env domain now))"

definition handleZSKRolloverState :: "env \<Rightarrow> keylib \<Rightarrow> rollover_manager \<Rightarrow> string \<Rightarrow> (world, unit) op" where
  "handleZSKRolloverState env lib rm domain = with_rollover domain (\<lambda>z r.
     op_bind (clock env) (\<lambda>now.
     if r_State r = ZSKRolloverStatePrePublish then zsk_prepublish_step env lib rm domain now z r
     else if r_State r = ZSKRolloverStateSigning then zsk_signing_step env rm domain now z r
     else op_ok ())) ()"

definition days :: "duration \<Rightarrow> rat" where
  "days d = f64 (Hours d / 24)"

definition blocked_zsk_warning :: "rat \<Rightarrow> string \<Rightarrow> string" where
  "blocked_zsk_warning d t = ''ZSK rollover is due (expires in ~'' @ show_f0 d @
     '' days) but is blocked by the in-progress '' @ t @
     '' rollover; complete that rollover to resume automatic ZSK rollover''"

definition CheckZSKRollover :: "env \<Rightarrow> keylib \<Rightarrow> rollover_manager \<Rightarrow> string \<Rightarrow> (world, unit) op" where
  "CheckZSKRollover env lib rm domain = op_bind (look domain) (\<lambda>zo. case zo of
      None \<Rightarrow> op_ok ()
    | Some z \<Rightarrow> (case z_ZSK z of
        None \<Rightarrow> op_ok ()
      | Some zsk \<Rightarrow> op_bind (clock env) (\<lambda>now.
          let prepublishDays = days (c_RolloverPrepublish (DNSSEC (rm_cfg rm)));
              daysUntilExpiry = days (time_sub (k_Expires zsk) now) in
          case z_Rollover z of
            Some r \<Rightarrow>
              if r_Type r = ''zsk'' then handleZSKRolloverState env lib rm domain
              else if daysUntilExpiry \<le> prepublishDays then
                op_bind (Mutate domain (AddWarning (blocked_zsk_warning daysUntilExpiry (r_Type r)))) (\<lambda>_. Save env)
              else op_ok ()
          | None \<Rightarrow>
              if daysUntilExpiry \<le> prepublishDays then startZSKRollover env lib rm domain z zsk
              else op_ok ())))"

section \<open>Algorithm rollover\<close>

definition algo_record :: "string \<Rightarrow> string \<Rightarrow> key_state \<Rightarrow> key_state \<Rightarrow> key_state \<Rightarrow> key_state \<Rightarrow> gotime \<Rightarrow> rollover_state" where
  "algo_record domain target oldKSK oldZSK newKSK newZSK now = zero_rollover\<lparr>r_Type := ''algorithm'',
     r_State := AlgoRolloverStateDSAddWait, r_OldKeyID := k_ID oldKSK, r_NewKeyID := k_ID newKSK,
     r_OldZSKID := k_ID oldZSK, r_NewZSKID := k_ID newZSK, r_OldAlgorithm := k_Algorithm oldKSK,
     r_NewAlgorithm := target, r_Started := now, r_Action := algo_start_action target domain\<rparr>"

definition algo_commit :: "env \<Rightarrow> keylib \<Rightarrow> rollover_manager \<Rightarrow> string \<Rightarrow> string \<Rightarrow> key_state \<Rightarrow> key_state \<Rightarrow>
    key_state \<Rightarrow> key_state \<Rightarrow> (world, unit) op" where
  "algo_commit env lib rm domain target oldKSK oldZSK newKSK newZSK =
     op_bind (clock env) (\<lambda>now.
     op_bind (Mutate domain (\<lambda>z. z\<lparr>z_Rollover := Some (algo_record domain target oldKSK oldZSK newKSK newZSK now),
         z_KSK := Some newKSK, z_ZSK := Some newZSK, z_ForceResign := True\<rparr>)) (\<lambda>_.
     op_bind (save_record env domain (\<lambda>z. z\<lparr>z_KSK := Some oldKSK, z_ZSK := Some oldZSK,
         z_Rollover := None, z_ForceResign := False\<rparr>)) (\<lambda>_.
     op_bind (activateRecorded env lib rm domain ''ksk'' (k_ID newKSK)) (\<lambda>_.
       activateRecorded env lib rm domain ''zsk'' (k_ID newZSK)))))"

definition StartAlgorithmRollover ::
  "env \<Rightarrow> keylib \<Rightarrow> rollover_manager \<Rightarrow> string \<Rightarrow> string \<Rightarrow> (world, unit) op" where
  "StartAlgorithmRollover env lib rm domain target = op_bind (look domain) (\<lambda>zo. case zo of
      None \<Rightarrow> op_fail (Msg ''zone not found'')
    | Some z \<Rightarrow>
        if z_Rollover z \<noteq> None then op_fail (Msg ''rollover already in progress'')
        else case (z_KSK z, z_ZSK z) of
          (Some oldKSK, Some oldZSK) \<Rightarrow>
            if k_Algorithm oldKSK = target then op_fail (Msg ''zone already using algorithm'')
            else
              op_bind (op_wrap ''backing up old KSK before algorithm rollover''
                (BackupKey env lib (rm_cfg rm) domain ''ksk'' (k_ID oldKSK))) (\<lambda>_.
              op_bind (op_wrap ''backing up old ZSK before algorithm rollover''
                (BackupKey env lib (rm_cfg rm) domain ''zsk'' (k_ID oldZSK))) (\<lambda>_.
              op_bind (op_wrap ''generating new KSK'' (stageNewKey env lib (rm_cfg rm) domain True target)) (\<lambda>newKSK.
              op_bind (op_wrap ''generating new ZSK'' (stageNewKey env lib (rm_cfg rm) domain False target)) (\<lambda>newZSK.
              algo_commit env lib rm domain target oldKSK oldZSK newKSK newZSK))))
        | _ \<Rightarrow> op_fail (Msg ''zone has no usable keys''))"

definition algo_propagation_action :: "rollover_state \<Rightarrow> gotime \<Rightarrow> string" where
  "algo_propagation_action r retire = ''Automatic: both algorithms stay published until '' @ fmt_rfc3339 retire @
     '' (parent DS TTL); then the OLD DS (algorithm '' @ r_OldAlgorithm r @
     '') is removed at the registrar once the new keys have propagated''"

definition algo_enter_propagation :: "env \<Rightarrow> rollover_manager \<Rightarrow> string \<Rightarrow> gotime \<Rightarrow> 32 word \<Rightarrow> (world, unit) op" where
  "algo_enter_propagation env rm domain dsObservedAt ttl =
     op_bind (stampNewKeyPropagation env rm domain) (\<lambda>_.
     op_bind (clock env) (\<lambda>now.
     op_bind (Mutate domain (\<lambda>z. ClearTransientWarnings (upd_rollover (\<lambda>r.
         r\<lparr>r_State := AlgoRolloverStateDSPropagation, r_DSObservedAt := dsObservedAt, r_ParentDSTTL := ttl,
           r_PhaseStarted := now, r_Action := algo_propagation_action r (dsObservedAt + seconds ttl)\<rparr>) z))) (\<lambda>_.
     Save env)))"

definition CompleteAlgorithmRollover ::
  "env \<Rightarrow> rollover_manager \<Rightarrow> string \<Rightarrow> gotime \<Rightarrow> 32 word \<Rightarrow> (world, unit) op" where
  "CompleteAlgorithmRollover env rm domain dsObservedAt parentDSTTL = op_bind (look domain) (\<lambda>zo. case zo of
      None \<Rightarrow> op_fail (Msg ''zone not found'')
    | Some z \<Rightarrow> (case z_Rollover z of
        None \<Rightarrow> op_fail (Msg ''no rollover in progress'')
      | Some r \<Rightarrow>
          if r_Type r \<noteq> ''algorithm'' then op_fail (Msg ''current rollover is not algorithm type'')
          else if r_State r \<noteq> AlgoRolloverStateDSAddWait then op_fail (Msg ''rollover not in algo_ds_add_wait state'')
          else let ttl = (if parentDSTTL = 0 then ParentDSTTLFallbackSeconds (rm_cfg rm) else parentDSTTL) in
            algo_enter_propagation env rm domain dsObservedAt ttl))"

text \<open>The automatic part of \<open>algo_ds_add_wait\<close>: the action text, and the push of the new DS.\<close>

definition ds_add_action :: "rollover_manager \<Rightarrow> string \<Rightarrow> gotime \<Rightarrow> zone_state \<Rightarrow> rollover_state \<Rightarrow> (world, string) op" where
  "ds_add_action rm domain now z r =
     (let alg = r_NewAlgorithm r; (ok, reason) = newKeysPropagated z now in
      if \<not> ok then op_ok (algo_wait_action reason alg domain)
      else if r_DSAddPushedAt r \<noteq> 0 then op_ok (algo_added_action alg domain)
      else case rm_publisher rm of
        None \<Rightarrow> op_ok (algo_manual_action alg domain)
      | Some publish \<Rightarrow> op_try (publish domain OpRolloverNewDSAdd) (\<lambda>res. case res of
          Inl e \<Rightarrow> op_ok (algo_retry_action alg domain)
        | Inr published \<Rightarrow>
            if published then
              op_bind (Mutate domain (upd_rollover (\<lambda>r. r\<lparr>r_DSAddPushedAt := now\<rparr>))) (\<lambda>_. op_ok (algo_added_action alg domain))
            else op_ok (algo_manual_action alg domain)))"

definition advanceAlgorithmDSAdd :: "env \<Rightarrow> rollover_manager \<Rightarrow> string \<Rightarrow> gotime \<Rightarrow> (world, unit) op" where
  "advanceAlgorithmDSAdd env rm domain now = with_rollover domain (\<lambda>z r.
     op_bind (ds_add_action rm domain now z r) (\<lambda>action. with_rollover domain (\<lambda>z r.
       if r_Action r = action \<and> (r_DSAddPushedAt r = 0 \<or> r_DSAddPushedAt r \<noteq> now) then op_ok ()
       else op_bind (Mutate domain (upd_rollover (\<lambda>r. r\<lparr>r_Action := action\<rparr>))) (\<lambda>_. Save env)) ())) ()"

definition blockedPhasePrefix :: string where "blockedPhasePrefix = ''rollover is waiting: ''"

definition containsString :: "string list \<Rightarrow> string \<Rightarrow> bool" where
  "containsString l s \<longleftrightarrow> (\<exists>x \<in> set l. x = s)"

text \<open>The list \<open>noteBlockedPhase\<close> leaves and whether it differs from the one before.\<close>

definition blocked_warnings :: "string \<Rightarrow> string list \<Rightarrow> string list \<times> bool" where
  "blocked_warnings msg ws =
     (let kept = filter (\<lambda>w. has_prefix w blockedPhasePrefix \<longrightarrow> w = msg) ws;
          changed = (\<exists>w \<in> set ws. has_prefix w blockedPhasePrefix \<and> w \<noteq> msg)
      in if \<not> containsString kept msg then (kept @ [msg], True) else (kept, changed))"

definition noteBlockedPhase :: "env \<Rightarrow> string \<Rightarrow> string \<Rightarrow> (world, unit) op" where
  "noteBlockedPhase env domain reason = op_bind (look domain) (\<lambda>zo. case zo of
      None \<Rightarrow> op_ok ()
    | Some z \<Rightarrow> (let (ws, changed) = blocked_warnings (blockedPhasePrefix @ reason) (z_Warnings z) in
        op_bind (Mutate domain (\<lambda>z. z\<lparr>z_Warnings := ws\<rparr>)) (\<lambda>_. if \<not> changed then op_ok () else Save env)))"

definition clearBlockedPhase :: "env \<Rightarrow> string \<Rightarrow> (world, unit) op" where
  "clearBlockedPhase env domain = op_bind (look domain) (\<lambda>zo. case zo of
      None \<Rightarrow> op_ok ()
    | Some z \<Rightarrow>
        if \<not> (\<exists>w \<in> set (z_Warnings z). has_prefix w blockedPhasePrefix) then op_ok ()
        else op_bind (Mutate domain (\<lambda>z. z\<lparr>z_Warnings := filter (\<lambda>w. \<not> has_prefix w blockedPhasePrefix) (z_Warnings z)\<rparr>))
          (\<lambda>_. Save env))"

definition old_ds_action :: "zone_state \<Rightarrow> rollover_state \<Rightarrow> gotime \<Rightarrow> string" where
  "old_ds_action z r now = ''Remove the OLD DS record (algorithm '' @ r_OldAlgorithm r @ '', key tag '' @
     show_nat (unat (r_OldKeyID r)) @ '') at your registrar '' @ em_dash @ '' '' @ oldDSRemovalAdvice z now @
     ''; the old-algorithm keys are retired automatically one parent DS TTL after it is gone from every parent server''"

definition algo_propagation_step :: "env \<Rightarrow> rollover_manager \<Rightarrow> string \<Rightarrow> gotime \<Rightarrow> duration \<Rightarrow> (world, unit) op" where
  "algo_propagation_step env rm domain now ttl = with_rollover domain (\<lambda>z r.
     if now < r_DSObservedAt r + ttl then op_ok ()
     else op_bind (Mutate domain (\<lambda>z. upd_rollover (\<lambda>r. r\<lparr>r_State := AlgoRolloverStateOldDSRemoval,
         r_PhaseStarted := now, r_Action := old_ds_action z r now\<rparr>) z)) (\<lambda>_.
       op_bind (Save env) (\<lambda>_. op_bind (pushOldDSRemoval env rm domain) (\<lambda>_. op_ok ())))) ()"

definition run_probe :: "ds_probe \<Rightarrow> string \<Rightarrow> dnskey list \<Rightarrow> (world, parent_ds_observation) op" where
  "run_probe probe domain ksks = (\<lambda>w. (probe (tick w) domain ksks, w\<lparr>tick := Suc (tick w)\<rparr>))"

definition old_ds_gone :: "env \<Rightarrow> string \<Rightarrow> gotime \<Rightarrow> parent_ds_observation \<Rightarrow> (world, unit) op" where
  "old_ds_gone env domain now obs = with_rollover domain (\<lambda>z r.
     if \<not> obs_AbsentOnAll obs (r_OldKeyID r) then op_ok ()
     else
       let ttlSeen = (if obs_TTL obs = 0 then r_ParentDSTTL r else obs_TTL obs);
           retireAfter = now + effectiveParentDSTTL (maxUint32 ttlSeen (r_ParentDSTTL r)) in
       op_bind (Mutate domain (upd_rollover (\<lambda>r. r\<lparr>r_OldDSRemovedAt := now,
           r_ParentDSTTL := (if r_ParentDSTTL r < ttlSeen then ttlSeen else r_ParentDSTTL r),
           r_Action := ''Automatic: old DS gone; old-algorithm keys are retired after '' @ fmt_rfc3339 retireAfter\<rparr>)))
         (\<lambda>_. Save env)) ()"

definition await_old_ds_removal :: "env \<Rightarrow> keylib \<Rightarrow> rollover_manager \<Rightarrow> string \<Rightarrow> gotime \<Rightarrow> (world, unit) op" where
  "await_old_ds_removal env lib rm domain now =
     op_bind (pushOldDSRemoval env rm domain) (\<lambda>_. with_rollover domain (\<lambda>z r.
       case rm_probe rm of
         None \<Rightarrow> op_ok ()
       | Some probe \<Rightarrow>
           op_bind (op_wrap ''loading old KSK to probe its DS'' (LoadPublicKeyByID env lib (rm_cfg rm) domain ''ksk'' (r_OldKeyID r))) (\<lambda>oldKSK.
           op_try (run_probe probe domain [oldKSK]) (\<lambda>res. case res of
             Inl e \<Rightarrow> noteBlockedPhase env domain (''the parent DS probe failed ('' @ error_text e @ ''); it is retried every cycle'')
           | Inr obs \<Rightarrow> op_bind (clearBlockedPhase env domain) (\<lambda>_. old_ds_gone env domain now obs)))) ())"

definition algo_removal_step :: "env \<Rightarrow> keylib \<Rightarrow> rollover_manager \<Rightarrow> string \<Rightarrow> gotime \<Rightarrow> (world, unit) op" where
  "algo_removal_step env lib rm domain now = with_rollover domain (\<lambda>z r.
     if r_OldDSRemovedAt r = 0 then await_old_ds_removal env lib rm domain now
     else if now < r_OldDSRemovedAt r + effectiveParentDSTTL (r_ParentDSTTL r) then op_ok ()
     else op_bind (Mutate domain (\<lambda>z. (upd_rollover (\<lambda>r. r\<lparr>r_State := AlgoRolloverStateRetiring, r_PhaseStarted := now,
         r_Action := ''Automatic: old-algorithm keys removed from the zone; the rollover ends once that zone is confirmed served''\<rparr>) z)
         \<lparr>z_ForceResign := True\<rparr>)) (\<lambda>_. Save env)) ()"

definition algo_retiring_step :: "env \<Rightarrow> string \<Rightarrow> (world, unit) op" where
  "algo_retiring_step env domain = with_rollover domain (\<lambda>z r.
     if \<not> PublishedSince z (r_PhaseStarted r) then op_ok ()
     else op_bind (Mutate domain (\<lambda>z. ClearTransientWarnings (z\<lparr>z_Rollover := None\<rparr>))) (\<lambda>_. Save env)) ()"

definition CheckAlgorithmRollover :: "env \<Rightarrow> keylib \<Rightarrow> rollover_manager \<Rightarrow> string \<Rightarrow> (world, unit) op" where
  "CheckAlgorithmRollover env lib rm domain = with_rollover domain (\<lambda>z r.
     if r_Type r \<noteq> ''algorithm'' then op_ok ()
     else op_bind (clock env) (\<lambda>now.
       let ttl = effectiveParentDSTTL (r_ParentDSTTL r) in
       op_bind (stampNewKeyPropagation env rm domain) (\<lambda>_.
       if r_State r = AlgoRolloverStateDSAddWait then advanceAlgorithmDSAdd env rm domain now
       else if r_State r = AlgoRolloverStateDSPropagation then algo_propagation_step env rm domain now ttl
       else if r_State r = AlgoRolloverStateOldDSRemoval then algo_removal_step env lib rm domain now
       else if r_State r = AlgoRolloverStateRetiring then algo_retiring_step env domain
       else op_ok ()))) ()"

definition GetRolloverStatus :: "string \<Rightarrow> state \<Rightarrow> rollover_state option" where
  "GetRolloverStatus domain s = (case GetZone domain s of None \<Rightarrow> None | Some z \<Rightarrow> z_Rollover z)"

end
