(* ===== verification/Key_Frame.thy ===== *)
theory Key_Frame
  imports Key_Files
begin

text \<open>
  What the key-file transactions may touch. A frame is a reflexive and transitive relation
  between file-system worlds that every step of the clock, a stop of the process, and every
  write or removal inside a set of paths respects. Each transaction respects every frame
  whose set holds the paths it names; the two instances are the files outside a set of
  paths and the part of the world that is not the file system.
\<close>

text \<open>
  The files of a slot with the names its private half may be set aside under, and the
  numbered copies of a pair.
\<close>

definition slot_paths :: "string \<Rightarrow> string set" where
  "slot_paths base = {base @ ''.key'', base @ ''.private''} \<union>
     range (\<lambda>j. (base @ ''.private'') @ ''.'' @ ''orphan'' @ ''.'' @ show_nat j) \<union>
     range (\<lambda>j. (base @ ''.private'') @ ''.'' @ ''invalid'' @ ''.'' @ show_nat j)"

definition numbered_paths :: "string \<Rightarrow> string set" where
  "numbered_paths prefix = range (\<lambda>j. (prefix @ ''.'' @ show_nat j) @ ''.key'') \<union>
     range (\<lambda>j. (prefix @ ''.'' @ show_nat j) @ ''.private'')"

lemma slot_paths_mem:
  "slot_paths base \<subseteq> P \<Longrightarrow> base @ ''.key'' \<in> P"
  "slot_paths base \<subseteq> P \<Longrightarrow> base @ ''.private'' \<in> P"
  "slot_paths base \<subseteq> P \<Longrightarrow> (base @ ''.private'') @ ''.'' @ ''orphan'' @ ''.'' @ show_nat j \<in> P"
  "slot_paths base \<subseteq> P \<Longrightarrow> (base @ ''.private'') @ ''.'' @ ''invalid'' @ ''.'' @ show_nat j \<in> P"
  unfolding slot_paths_def by blast+

lemma numbered_paths_mem:
  "numbered_paths prefix \<subseteq> P \<Longrightarrow> (prefix @ ''.'' @ show_nat j) @ ''.key'' \<in> P"
  "numbered_paths prefix \<subseteq> P \<Longrightarrow> (prefix @ ''.'' @ show_nat j) @ ''.private'' \<in> P"
  unfolding numbered_paths_def by blast+

locale fs_frame = keep_relation R
  for R :: "'w fs_world_scheme \<Rightarrow> 'w fs_world_scheme \<Rightarrow> bool" +
  fixes P :: "string set"
  assumes frame_tick: "R w (w\<lparr>tick := t\<rparr>)"
    and frame_halt: "R w (w\<lparr>halted := h\<rparr>)"
    and frame_put: "p \<in> P \<Longrightarrow> R w (w\<lparr>files := AList.update p d (files w)\<rparr>)"
    and frame_del: "p \<in> P \<Longrightarrow> R w (w\<lparr>files := AList.delete p (files w)\<rparr>)"
begin

lemma frame_io_step: "keeps R act \<Longrightarrow> keeps R (io_step env e act)"
proof (rule keepsI)
  fix w
  assume act: "keeps R act"
  show "R w (snd (io_step env e act w))"
  proof (cases rule: io_step_cases [of w env e act])
    case ok
    have "R (w\<lparr>tick := Suc (tick w)\<rparr>) (snd (act (w\<lparr>tick := Suc (tick w)\<rparr>)))"
      using act by (simp add: keeps_def)
    with ok frame_tick show ?thesis by (metis keep_trans)
  next
    case (fail e')
    then show ?thesis by (simp add: frame_tick)
  next
    case crash
    have "R w (w\<lparr>tick := Suc (tick w)\<rparr>\<lparr>halted := True\<rparr>)"
      using frame_tick frame_halt keep_trans by blast
    then show ?thesis using crash by simp
  qed
qed

lemma frame_put_file: "p \<in> P \<Longrightarrow> R w (put_file p d w)"
  by (simp add: put_file_def frame_put)

lemma frame_rename:
  "p \<in> P \<Longrightarrow> q \<in> P \<Longrightarrow> R w (w\<lparr>files := AList.update q d (AList.delete p (files w))\<rparr>)"
  using keep_trans [OF frame_del [of p w] frame_put [of q "w\<lparr>files := AList.delete p (files w)\<rparr>" d]]
  by simp

lemma keeps_upd: "(\<And>w. R w (f w)) \<Longrightarrow> keeps R (op_upd f)"
  by (simp add: keeps_def)

lemma keeps_case_sum: "(\<And>e. keeps R (f e)) \<Longrightarrow> (\<And>x. keeps R (g x)) \<Longrightarrow> keeps R (case_sum f g r)"
  by (simp split: sum.split)

lemma keeps_case_option: "keeps R a \<Longrightarrow> (\<And>x. keeps R (g x)) \<Longrightarrow> keeps R (case_option a g r)"
  by (simp split: option.split)

lemma frame_clock: "keeps R (clock env)"
  by (simp add: keeps_def clock_def frame_tick)

lemma frame_get_option: "keeps R (\<lambda>w. case f w of None \<Rightarrow> (Inl (Msg s), w) | Some c \<Rightarrow> (Inr c, w))"
  by (rule keepsI) (simp add: keep_refl split: option.split)

lemmas frame_rules = keeps_rules keeps_upd keeps_case_sum keeps_case_option frame_clock frame_io_step

lemma frame_stat: "keeps R (statExists env p)"
  unfolding statExists_def by (intro frame_rules)

lemma frame_read: "keeps R (ReadFile env p)"
  unfolding ReadFile_def by (intro frame_io_step frame_get_option)

lemma frame_nops: "keeps R (io_nops env ss)"
proof (induction ss)
  case Nil
  show ?case unfolding io_nops.simps by (rule keeps_ok)
next
  case (Cons s ss)
  show ?case unfolding io_nops.simps by (intro frame_rules Cons)
qed

lemma frame_syncdir: "keeps R (SyncDir env e)"
proof (rule keepsI)
  fix w
  have "R w (snd (io_step env e (op_ok ()) w))"
    using frame_io_step [OF keeps_ok [of "()"], of env e] unfolding keeps_def by blast
  then show "R w (snd (SyncDir env e w))" by (simp add: SyncDir_def frame_tick)
qed

lemma frame_replace: "p \<in> P \<Longrightarrow> keeps R (replace_atomic env p (put_file p d))"
  unfolding replace_atomic_def by (intro frame_rules frame_nops frame_syncdir frame_put_file)

lemma frame_write: "p \<in> P \<Longrightarrow> keeps R (WriteFileAtomicOwned env p d)"
  unfolding WriteFileAtomicOwned_def by (rule frame_replace)

lemma frame_copy: "q \<in> P \<Longrightarrow> keeps R (CopyFile env p q)"
  unfolding CopyFile_def by (intro frame_rules frame_stat frame_read frame_replace)

lemma frame_link: "q \<in> P \<Longrightarrow> keeps R (osLink env p q)"
proof (rule keepsI)
  fix w :: "'w fs_world_scheme"
  assume q: "q \<in> P"
  let ?w1 = "w\<lparr>tick := Suc (tick w)\<rparr>"
  have 1: "R w ?w1" by (rule frame_tick)
  have 2: "R w (?w1\<lparr>halted := True\<rparr>)" using keep_trans [OF 1 frame_halt] .
  have 3: "R w (put_file q c ?w1)" for c using keep_trans [OF 1 frame_put_file [OF q]] .
  show "R w (snd (osLink env p q w))"
    using 1 2 3 by (simp add: osLink_def Let_def split: io_outcome.split option.split)
qed

lemma frame_remove: "p \<in> P \<Longrightarrow> keeps R (osRemove env p)"
  unfolding osRemove_def by (intro frame_rules frame_del)

lemma frame_osrename: "p \<in> P \<Longrightarrow> q \<in> P \<Longrightarrow> keeps R (osRename env p q)"
  unfolding osRename_def
  by (intro frame_io_step keepsI) (simp add: keep_refl frame_rename split: option.split)

lemma frame_reserve: "p \<in> P \<Longrightarrow> keeps R (reserveFile env p)"
  unfolding reserveFile_def
  by (intro frame_rules keepsI [where m = "\<lambda>w. case content w p of _ \<Rightarrow> _ w"])
    (simp_all add: keep_refl frame_put_file split: option.split)

lemma frame_release: "p \<in> P \<Longrightarrow> keeps R (releaseReservation env p)"
  unfolding releaseReservation_def
  by (intro keeps_try frame_io_step keeps_get)
    (auto intro: frame_rules frame_remove split: sum.split option.split list.split)

lemma frame_res: "keeps R (op_res s r)"
  by (simp add: op_res_def keeps_ok keeps_fail split: sum.split)

lemmas frame_fs = frame_stat frame_read frame_nops frame_write frame_copy frame_link frame_remove
  frame_osrename frame_reserve frame_release frame_res

lemma frame_loadPublic: "keeps R (loadPublicKeyFromPath env lib base)"
  unfolding loadPublicKeyFromPath_def by (intro frame_rules frame_fs)

lemma frame_loadPair: "keeps R (loadKeyPairFromPath env lib base)"
  unfolding loadKeyPairFromPath_def by (intro frame_rules frame_fs)

lemma frame_loadVerified: "keeps R (loadVerifiedPair env lib base domain kt)"
  unfolding loadVerifiedPair_def by (intro frame_rules frame_fs frame_loadPair)

lemma frame_pairFiles: "keeps R (pairFiles env base)"
  unfolding pairFiles_def by (intro frame_rules frame_fs)

lemmas frame_loads = frame_loadPublic frame_loadPair frame_loadVerified frame_pairFiles

lemma frame_setAside_from:
  assumes "p \<in> P" and "\<And>j. p @ ''.'' @ reason @ ''.'' @ show_nat j \<in> P"
  shows "keeps R (setAside_from env p reason n i)"
proof (induction n arbitrary: i)
  case 0
  show ?case unfolding setAside_from.simps by (rule keeps_fail)
next
  case (Suc n)
  show ?case unfolding setAside_from.simps Let_def
    by (intro keeps_bind frame_link assms)
      (auto split: link_result.split intro!: frame_rules frame_fs assms Suc)
qed

lemma frame_setAside:
  assumes "p \<in> P" and "\<And>j. p @ ''.'' @ reason @ ''.'' @ show_nat j \<in> P"
  shows "keeps R (setAside env p reason)"
  unfolding setAside_def by (intro frame_setAside_from assms)

lemma frame_reservePair:
  assumes "base @ ''.key'' \<in> P" and "base @ ''.private'' \<in> P"
  shows "keeps R (reservePair env base)"
  unfolding reservePair_def
  by (intro frame_rules frame_fs assms) (auto split: sum.split bool.split intro!: frame_rules frame_fs assms)

lemma frame_uniqueBackupBase:
  assumes "numbered_paths prefix \<subseteq> P"
  shows "keeps R (uniqueBackupBase env prefix)"
proof -
  have "keeps R (uniqueBackupBase_from env prefix n i)" for n i
  proof (induction n arbitrary: i)
    case 0
    show ?case unfolding uniqueBackupBase_from.simps by (rule keeps_fail)
  next
    case (Suc n)
    show ?case unfolding uniqueBackupBase_from.simps Let_def
      by (intro frame_rules frame_reservePair Suc numbered_paths_mem assms)
  qed
  then show ?thesis by (simp add: uniqueBackupBase_def)
qed

text \<open>A successful reservation names a candidate of the prefix, so the copies stay inside too.\<close>

lemma uniqueBackupBase_name:
  "uniqueBackupBase_from env prefix n i w = (Inr dst, w') \<Longrightarrow> \<exists>j. dst = prefix @ ''.'' @ show_nat j"
proof (induction n arbitrary: i w)
  case (Suc n)
  then show ?case by (auto simp: Let_def op_bind_Inr split: if_splits)
qed simp

lemma frame_copyDurable: "q \<in> P \<Longrightarrow> keeps R (copyDurable env p q)"
  unfolding copyDurable_def by (intro frame_rules frame_fs)

lemma frame_copy_half: "dst @ ext \<in> P \<Longrightarrow> keeps R (copy_half env src dst ext)"
  unfolding copy_half_def by (intro frame_rules frame_fs frame_copyDurable)

lemma keeps_bind_result:
  assumes "keeps R m" and "\<And>w x w1. m w = (Inr x, w1) \<Longrightarrow> keeps R (f x)"
  shows "keeps R (op_bind m f)"
proof (rule keepsI)
  fix w
  obtain r w1 where m: "m w = (r, w1)" by (cases "m w")
  then have 1: "R w w1" by (rule keepsD [OF assms(1)])
  show "R w (snd (op_bind m f w))"
  proof (cases r)
    case (Inr x)
    then have "R w1 (snd (f x w1))" using assms(2) m by (simp add: keeps_def)
    with 1 Inr m show ?thesis by (simp add: op_bind_def) (rule keep_trans)
  qed (use m 1 in \<open>simp add: op_bind_def\<close>)
qed

lemma frame_copyPairUnique:
  assumes "numbered_paths prefix \<subseteq> P"
  shows "keeps R (copyPairUnique env src prefix)"
  unfolding copyPairUnique_def
proof (rule keeps_bind_result)
  show "keeps R (uniqueBackupBase env prefix)" by (rule frame_uniqueBackupBase [OF assms])
  fix w :: "'w fs_world_scheme" and dst w1
  assume "uniqueBackupBase env prefix w = (Inr dst, w1)"
  then obtain j where "dst = prefix @ ''.'' @ show_nat j"
    unfolding uniqueBackupBase_def by (blast dest: uniqueBackupBase_name)
  then show "keeps R (op_bind (copy_half env src dst ''.key'') (\<lambda>_.
      op_bind (copy_half env src dst ''.private'') (\<lambda>_. op_ok dst)))"
    using numbered_paths_mem [OF assms] by (auto intro!: frame_rules frame_copy_half)
qed

lemma frame_ensureBackupAt:
  assumes "slot_paths backup \<subseteq> P"
  shows "keeps R (ensureBackupAt env lib domain kt live backup want)"
  unfolding ensureBackupAt_def
  by (intro frame_rules frame_fs frame_loads frame_setAside frame_copyDurable slot_paths_mem assms)

lemma frame_copy_tolerant: "q \<in> P \<Longrightarrow> keeps R (copy_tolerant env p q)"
  unfolding copy_tolerant_def by (intro frame_rules frame_fs)

lemma frame_StageKeyPair:
  assumes "slot_paths (taggedBase cfg domain kt (KeyTag lib k)) \<subseteq> P"
  shows "keeps R (StageKeyPair env lib cfg domain kt k priv)"
  unfolding StageKeyPair_def stage_slot_def Let_def
  by (intro frame_rules frame_fs frame_loads frame_setAside slot_paths_mem assms)

end

section \<open>Errors of the transactions\<close>

text \<open>
  A class of errors that holds every plain message and every durability error and is
  closed under wrapping. The file operations fail inside every such class; a backup
  conflict is raised for the backup slot only.
\<close>

definition fails_in :: "(error \<Rightarrow> bool) \<Rightarrow> ('w, 'a) op \<Rightarrow> bool" where
  "fails_in Q m \<longleftrightarrow> (\<forall>w e w'. m w = (Inl e, w') \<longrightarrow> Q e)"

locale error_class =
  fixes Q :: "error \<Rightarrow> bool"
  assumes class_msg: "Q (Msg s)"
    and class_dur: "Q (DurabilityError p)"
    and class_wrap: "Q e \<Longrightarrow> Q (Wrap s e)"
begin

lemma fails_ok: "fails_in Q (op_ok x)"
  by (simp add: fails_in_def)

lemma fails_fail: "Q e \<Longrightarrow> fails_in Q (op_fail e)"
  by (simp add: fails_in_def)

lemma fails_get: "fails_in Q (op_get f)"
  by (simp add: fails_in_def)

lemma fails_upd: "fails_in Q (op_upd f)"
  by (simp add: fails_in_def)

lemma fails_bind: "fails_in Q m \<Longrightarrow> (\<And>x. fails_in Q (f x)) \<Longrightarrow> fails_in Q (op_bind m f)"
  unfolding fails_in_def by (auto simp: op_bind_def split: prod.splits sum.splits)

lemma fails_try: "(\<And>r. fails_in Q (f r)) \<Longrightarrow> fails_in Q (op_try m f)"
  unfolding fails_in_def by (auto simp: op_try_def split: prod.splits)

lemma fails_wrap: "fails_in Q m \<Longrightarrow> fails_in Q (op_wrap s m)"
  unfolding fails_in_def by (auto simp: op_wrap_apply split: prod.splits sum.splits intro: class_wrap)

lemma fails_if: "fails_in Q a \<Longrightarrow> fails_in Q b \<Longrightarrow> fails_in Q (if c then a else b)"
  by simp

lemma fails_case_sum: "(\<And>e. fails_in Q (f e)) \<Longrightarrow> (\<And>x. fails_in Q (g x)) \<Longrightarrow> fails_in Q (case_sum f g r)"
  by (simp split: sum.split)

lemma fails_io_step: "Q err \<Longrightarrow> fails_in Q act \<Longrightarrow> fails_in Q (io_step env err act)"
  unfolding fails_in_def
proof (intro allI impI)
  fix w e w'
  assume "Q err" and act: "\<forall>w e w'. act w = (Inl e, w') \<longrightarrow> Q e" and s: "io_step env err act w = (Inl e, w')"
  show "Q e"
  proof (cases rule: io_step_cases [of w env err act])
    case ok
    then show ?thesis using s act by metis
  next
    case (fail e')
    then show ?thesis using s \<open>Q err\<close> class_msg by (auto simp: crashed_def)
  next
    case crash
    then show ?thesis using s class_msg by (auto simp: crashed_def)
  qed
qed

lemmas fails_rules = fails_ok fails_fail fails_get fails_upd fails_bind fails_try fails_wrap fails_if
  fails_case_sum fails_io_step class_msg class_dur

lemma fails_get_option: "fails_in Q (\<lambda>w. case f w of None \<Rightarrow> (Inl (Msg s), w) | Some c \<Rightarrow> (Inr (g c), h c w))"
  by (auto simp: fails_in_def class_msg split: option.splits)

lemma fails_stat: "fails_in Q (statExists env p)"
  unfolding statExists_def by (intro fails_rules)

lemma fails_read: "fails_in Q (ReadFile env p)"
  unfolding ReadFile_def by (intro fails_rules fails_get_option [where g = "\<lambda>c. c" and h = "\<lambda>c w. w"])

lemma fails_nops: "fails_in Q (io_nops env ss)"
proof (induction ss)
  case Nil
  show ?case unfolding io_nops.simps by (rule fails_ok)
next
  case (Cons s ss)
  show ?case unfolding io_nops.simps by (intro fails_rules Cons)
qed

lemma fails_syncdir: "Q e \<Longrightarrow> fails_in Q (SyncDir env e)"
proof -
  assume "Q e"
  then have "fails_in Q (io_step env e (op_ok ()))" by (intro fails_rules)
  then show ?thesis by (auto simp: SyncDir_def fails_in_def split: if_splits)
qed

lemma fails_replace: "fails_in Q (replace_atomic env p c)"
  unfolding replace_atomic_def by (intro fails_rules fails_nops fails_syncdir)

lemma fails_copyDurable: "fails_in Q (copyDurable env p q)"
  unfolding copyDurable_def CopyFile_def by (intro fails_rules fails_stat fails_read fails_replace)

lemma fails_rename: "fails_in Q (osRename env p q)"
  unfolding osRename_def
  by (intro fails_rules fails_get_option [where g = "\<lambda>c. ()" and
      h = "\<lambda>c w. w\<lparr>files := AList.update q c (AList.delete p (files w))\<rparr>"])

lemma fails_link: "fails_in Q (osLink env p q)"
  by (auto simp: fails_in_def osLink_def Let_def split: io_outcome.splits option.splits if_splits)

lemma fails_setAside_from: "fails_in Q (setAside_from env p reason n i)"
proof (induction n arbitrary: i)
  case 0
  show ?case unfolding setAside_from.simps by (intro fails_rules)
next
  case (Suc n)
  show ?case unfolding setAside_from.simps Let_def
    by (intro fails_bind fails_link)
      (auto split: link_result.split intro!: fails_rules fails_rename fails_stat Suc)
qed

lemma fails_pairFiles: "fails_in Q (pairFiles env base)"
  unfolding pairFiles_def by (intro fails_rules fails_stat)

lemma parse_key_class: "parse_key_lines lib ls = Inl e \<Longrightarrow> Q e"
  by (induction ls) (auto split: if_splits option.splits intro: class_msg)

lemma rsa_private_class: "rsaPrivateKeyFromBytes lib b = Inl e \<Longrightarrow> Q e"
  by (auto simp: rsaPrivateKeyFromBytes_def checkRSABits_def class_msg split: option.splits sum.splits if_splits)

lemma rsa_public_class: "rsaPublicKeyFromDNSKEY k = Inl e \<Longrightarrow> Q e"
  by (auto simp: rsaPublicKeyFromDNSKEY_def Let_def class_msg split: option.splits prod.splits if_splits)

lemma correspondence_class: "VerifyKeyPairCorrespondence lib k b = Inl e \<Longrightarrow> Q e"
  by (auto simp: VerifyKeyPairCorrespondence_def verifyRSACorrespondence_def verifyECDSACorrespondence_def
      verify_ed25519_def Let_def class_msg rsa_private_class rsa_public_class
      split: option.splits sum.splits prod.splits if_splits)

lemma rsa_fields_class: "rsa_fields flds ns = Inl e \<Longrightarrow> Q e"
  by (induction ns arbitrary: e)
    (auto simp: rsa_field_def class_msg split: sum.splits option.splits if_splits)

lemma parse_rsa_class: "parseBindRSAPrivateKey lib flds = Inl e \<Longrightarrow> Q e"
  unfolding parseBindRSAPrivateKey_def
  by (auto simp: checkRSABits_def Let_def class_msg simp del: rsa_fields.simps
      dest: rsa_fields_class split: sum.splits list.splits if_splits)

lemma parse_private_class: "ParsePrivateKeyFromFile lib c = Inl e \<Longrightarrow> Q e"
  by (auto simp: ParsePrivateKeyFromFile_def Let_def class_msg dest: parse_rsa_class
      split: option.splits if_splits)

lemma validate_class: "validateLoadedKey lib k domain kt = Inl e \<Longrightarrow> Q e"
  by (auto simp: validateLoadedKey_def class_msg split: if_splits)

lemma fails_res: "(\<And>e. r = Inl e \<Longrightarrow> Q e) \<Longrightarrow> fails_in Q (op_res s r)"
  by (auto simp: fails_in_def op_res_def class_wrap split: sum.splits)

lemma fails_loadVerified: "fails_in Q (loadVerifiedPair env lib base domain kt)"
  unfolding loadVerifiedPair_def loadKeyPairFromPath_def ParseDNSKEYFromFile_def
  by (intro fails_rules fails_read fails_res)
    (blast intro: parse_key_class parse_private_class correspondence_class validate_class)+

lemma fails_ensureBackupAt:
  assumes "Q (BackupConflictError backup (KeyTag lib want))"
  shows "fails_in Q (ensureBackupAt env lib domain kt live backup want)"
  unfolding ensureBackupAt_def setAside_def
  by (intro fails_rules fails_read fails_pairFiles fails_loadVerified fails_setAside_from fails_copyDurable assms)

end

interpretation conflict: error_class "\<lambda>e. as_backup_conflict e \<in> {None, Some b}" for b
  by unfold_locales auto

lemma ensureVerifiedBackup_conflict:
  assumes "ensureVerifiedBackup env lib cfg domain kt w = (Inl e, w')" and "as_backup_conflict e = Some b"
  shows "\<exists>tag. b = taggedBase cfg domain kt tag"
proof -
  obtain r w1 where l: "loadVerifiedPair env lib (liveBase cfg domain kt) domain kt w = (r, w1)"
    by (cases "loadVerifiedPair env lib (liveBase cfg domain kt) domain kt w")
  show ?thesis
  proof (cases r)
    case (Inl e1)
    then have e: "e = ErrLiveUnverifiable e1" using assms(1) l by (simp add: ensureVerifiedBackup_def op_try_def)
    have "as_backup_conflict e1 \<in> {None, Some []}"
      using conflict.fails_loadVerified [of "[]" env lib "liveBase cfg domain kt" domain kt] l Inl
      unfolding fails_in_def by blast
    moreover have "as_backup_conflict e1 \<in> {None, Some ''x''}"
      using conflict.fails_loadVerified [of "''x''" env lib "liveBase cfg domain kt" domain kt] l Inl
      unfolding fails_in_def by blast
    ultimately show ?thesis using e assms(2) by auto
  next
    case (Inr kp)
    let ?b = "taggedBase cfg domain kt (KeyTag lib (fst kp))"
    obtain w2 where "ensureBackupAt env lib domain kt (liveBase cfg domain kt) ?b (fst kp) w1 = (Inl e, w2)"
      using assms(1) l Inr by (auto simp: ensureVerifiedBackup_def op_try_def op_bind_def split: prod.splits sum.splits)
    then have "as_backup_conflict e \<in> {None, Some ?b}"
      using conflict.fails_ensureBackupAt [where b = ?b and backup = ?b and lib = lib and want = "fst kp"]
      unfolding fails_in_def by (metis as_backup_conflict.simps(1) insertI1 insertI2)
    then show ?thesis using assms(2) by auto
  qed
qed

section \<open>Backup and activation\<close>

text \<open>Every path a backup of the live pair of a role may be written to.\<close>

definition backup_paths :: "config \<Rightarrow> string \<Rightarrow> string \<Rightarrow> string set" where
  "backup_paths cfg domain kt =
     (\<Union>tag. slot_paths (taggedBase cfg domain kt tag) \<union> numbered_paths (taggedBase cfg domain kt tag)) \<union>
     numbered_paths (liveBase cfg domain kt @ ''.bak'')"

lemma backup_paths_sub:
  assumes "backup_paths cfg domain kt \<subseteq> P"
  shows "slot_paths (taggedBase cfg domain kt tag) \<subseteq> P" "numbered_paths (taggedBase cfg domain kt tag) \<subseteq> P"
    "numbered_paths (liveBase cfg domain kt @ ''.bak'') \<subseteq> P"
  using assms unfolding backup_paths_def by blast+

definition live_paths :: "config \<Rightarrow> string \<Rightarrow> string \<Rightarrow> string set" where
  "live_paths cfg domain kt = {liveBase cfg domain kt @ ''.key'', liveBase cfg domain kt @ ''.private''}"

context fs_frame begin

lemma frame_ensureVerifiedBackup:
  assumes "backup_paths cfg domain kt \<subseteq> P"
  shows "keeps R (ensureVerifiedBackup env lib cfg domain kt)"
  unfolding ensureVerifiedBackup_def
  by (intro frame_rules frame_loads frame_ensureBackupAt backup_paths_sub [OF assms])

lemma keeps_try_result:
  assumes "keeps R m" and "\<And>w r w1. m w = (r, w1) \<Longrightarrow> keeps R (f r)"
  shows "keeps R (op_try m f)"
proof (rule keepsI)
  fix w
  obtain r w1 where m: "m w = (r, w1)" by (cases "m w")
  then have 1: "R w w1" by (rule keepsD [OF assms(1)])
  have "R w1 (snd (f r w1))" using assms(2) [OF m] by (simp add: keeps_def)
  with 1 m show "R w (snd (op_try m f w))" by (simp add: op_try_def) (rule keep_trans)
qed

lemma frame_preserveLivePair:
  assumes "backup_paths cfg domain kt \<subseteq> P"
  shows "keeps R (preserveLivePair env lib cfg domain kt)"
  unfolding preserveLivePair_def Let_def
proof (intro keeps_bind keeps_if frame_pairFiles keeps_ok frame_copyPairUnique backup_paths_sub(3) [OF assms],
    rule keeps_try_result)
  show "keeps R (ensureVerifiedBackup env lib cfg domain kt)"
    by (rule frame_ensureVerifiedBackup [OF assms])
  fix w :: "'w fs_world_scheme" and r w1
  assume e: "ensureVerifiedBackup env lib cfg domain kt w = (r, w1)"
  show "keeps R (case r of Inr _ \<Rightarrow> op_ok ()
      | Inl e \<Rightarrow> (case as_backup_conflict e of
            Some base \<Rightarrow> op_bind (copyPairUnique env (liveBase cfg domain kt) base) (\<lambda>_. op_ok ())
          | None \<Rightarrow> if is_live_unverifiable e
              then op_bind (copyPairUnique env (liveBase cfg domain kt) (liveBase cfg domain kt @ ''.bak'')) (\<lambda>_. op_ok ())
              else op_fail e))"
  proof (cases r)
    case (Inl e1)
    have "\<exists>tag. b = taggedBase cfg domain kt tag" if "as_backup_conflict e1 = Some b" for b
      using ensureVerifiedBackup_conflict e Inl that by blast
    then have "numbered_paths b \<subseteq> P" if "as_backup_conflict e1 = Some b" for b
      using that backup_paths_sub(2) [OF assms] by blast
    then show ?thesis unfolding Inl
      by (auto split: option.split intro!: frame_rules frame_copyPairUnique backup_paths_sub(3) [OF assms])
  qed (simp add: keeps_ok)
qed

lemma frame_install_live:
  "live @ ''.key'' \<in> P \<Longrightarrow> live @ ''.private'' \<in> P \<Longrightarrow>
   keeps R (install_live env lib domain kt staged live want)"
  unfolding install_live_def by (intro frame_rules frame_loads frame_copy_tolerant)

lemma frame_ActivateKeyPair:
  assumes "backup_paths cfg domain kt \<subseteq> P" and "live_paths cfg domain kt \<subseteq> P"
  shows "keeps R (ActivateKeyPair env lib cfg domain kt tag)"
proof -
  have "liveBase cfg domain kt @ ''.key'' \<in> P" "liveBase cfg domain kt @ ''.private'' \<in> P"
    using assms(2) by (simp_all add: live_paths_def)
  then show ?thesis unfolding ActivateKeyPair_def Let_def
    by (intro frame_rules frame_loads frame_preserveLivePair frame_install_live assms)
qed

lemma frame_EnsureLiveKey:
  assumes "backup_paths cfg domain kt \<subseteq> P" and "live_paths cfg domain kt \<subseteq> P"
  shows "keeps R (EnsureLiveKey env lib cfg domain kt tag)"
  unfolding EnsureLiveKey_def Let_def
  by (intro frame_rules frame_loads frame_res frame_ActivateKeyPair assms)

lemma frame_existingKeyTags: "keeps R (existingKeyTags env lib cfg domain)"
  unfolding existingKeyTags_def by (intro frame_rules frame_loads)

lemma frame_gen_key: "keeps R (gen_key lib domain alg flags)"
  by (simp add: keeps_def gen_key_def frame_tick)

lemma frame_gen_unique: "keeps R (gen_unique lib domain alg flags tags n)"
proof (induction n)
  case 0
  show ?case unfolding gen_unique.simps by (rule keeps_fail)
next
  case (Suc n)
  show ?case unfolding gen_unique.simps by (intro frame_rules frame_gen_key Suc)
qed

lemma frame_generateKeyMaterial: "keeps R (generateKeyMaterial env lib cfg domain isKSK alg)"
  unfolding generateKeyMaterial_def Let_def
  by (intro frame_rules frame_existingKeyTags frame_gen_unique)

lemma frame_stageNewKey:
  assumes "backup_paths cfg domain (keyRole isKSK) \<subseteq> P"
  shows "keeps R (stageNewKey env lib cfg domain isKSK alg)"
  unfolding stageNewKey_def split_def
  by (intro frame_rules frame_generateKeyMaterial frame_StageKeyPair backup_paths_sub [OF assms])

end

text \<open>The two instances: files outside a set of paths, and the rest of the world.\<close>

definition same_rest :: "'w fs_world_scheme \<Rightarrow> 'w fs_world_scheme \<Rightarrow> bool" where
  "same_rest w w' \<longleftrightarrow> fs_world.more w' = fs_world.more w"

interpretation outside: fs_frame "only_files P" P for P
  by unfold_locales (simp_all add: only_files_def)

interpretation rest: fs_frame same_rest UNIV
  by unfold_locales (simp_all add: same_rest_def)

end
