(* ===== verification/Key_Safety.thy ===== *)
theory Key_Safety
  imports Key_Frame
begin

text \<open>
  Safety of the key-file transactions: what a successful staging, backup or activation
  leaves on disk, and that no transaction, interrupted anywhere, loses the key it replaces.
\<close>

section \<open>Names\<close>

text \<open>
  A zone name without a path separator makes every key file a plain name below the keys
  directory, and a tagged slot extends the live name by its tag.
\<close>

definition key_names :: "string \<Rightarrow> string \<Rightarrow> bool" where
  "key_names domain kt \<longleftrightarrow> CHR ''/'' \<notin> set domain \<and> kt \<in> {''ksk'', ''zsk''}"

lemma key_names_valid:
  "ValidateDomainName domain = Inr () \<Longrightarrow> kt \<in> {''ksk'', ''zsk''} \<Longrightarrow> key_names domain kt"
  using ValidateDomainName_parts(3) by (simp add: key_names_def)

lemma liveBase_plain:
  "key_names domain kt \<Longrightarrow> liveBase cfg domain kt = path_prefix (KeysDir cfg) @ live_name domain kt"
  unfolding liveBase_def
  by (rule path_join_plain) (auto simp: key_names_def plain_name_def live_name_def append_eq_Cons_conv)

lemma digit_not_slash: "CHR ''/'' \<noteq> digit n"
proof
  assume "CHR ''/'' = digit n"
  then have "digit_value (CHR ''/'') = Some (n mod 10)" by simp
  moreover have "digit_value (CHR ''/'') = None" by code_simp
  ultimately show False by simp
qed

lemma show_nat_no_slash: "CHR ''/'' \<notin> set (show_nat n)"
proof (induction n rule: show_nat.induct)
  case (1 n)
  then show ?case using digit_not_slash [of n] digit_not_slash [of "n mod 10"]
    by (subst show_nat.simps) (simp del: show_nat.simps)
qed

lemma taggedBase_live:
  assumes "key_names domain kt"
  shows "taggedBase cfg domain kt tag = liveBase cfg domain kt @ ''.'' @ show_nat (unat tag)"
proof -
  have "plain_name (live_name domain kt @ ''.'' @ show_nat (unat tag))"
    using assms show_nat_no_slash
    by (auto simp: key_names_def plain_name_def live_name_def append_eq_Cons_conv)
  then show ?thesis using liveBase_plain [OF assms] by (simp add: taggedBase_def path_join_plain)
qed

lemma hd_show_nat: "\<exists>m s. show_nat n = digit m # s"
proof (induction n rule: show_nat.induct)
  case (1 n)
  show ?case
  proof (cases "n < 10")
    case True
    then have "show_nat n = [digit n]" by (subst show_nat.simps) simp
    then show ?thesis by blast
  next
    case False
    then have "show_nat n = show_nat (n div 10) @ [digit (n mod 10)]" by (subst show_nat.simps) simp
    then show ?thesis using 1 [OF False] by auto
  qed
qed

lemma digit_not_kp: "digit n \<noteq> CHR ''k''" "digit n \<noteq> CHR ''p''"
proof -
  have "digit_value (CHR ''k'') = None" "digit_value (CHR ''p'') = None" by code_simp+
  then show "digit n \<noteq> CHR ''k''" "digit n \<noteq> CHR ''p''"
    using digit_value_digit [of n] by (metis option.distinct(1))+
qed

lemma live_not_backup:
  assumes "key_names domain kt"
  shows "live_paths cfg domain kt \<inter> backup_paths cfg domain kt = {}"
proof -
  have tagged: "\<exists>c s. taggedBase cfg domain kt tag @ x = liveBase cfg domain kt @ CHR ''.'' # c # s \<and>
      c \<noteq> CHR ''k'' \<and> c \<noteq> CHR ''p''" for tag x
  proof -
    obtain m s where "show_nat (unat tag) = digit m # s" using hd_show_nat by blast
    then show ?thesis using digit_not_kp by (auto simp: taggedBase_live [OF assms])
  qed
  have "\<exists>c s. p = liveBase cfg domain kt @ CHR ''.'' # c # s \<and> c \<noteq> CHR ''k'' \<and> c \<noteq> CHR ''p''"
    if p: "p \<in> backup_paths cfg domain kt" for p
  proof -
    consider (tag) tag x where "p = taggedBase cfg domain kt tag @ x"
      | (bak) x where "p = liveBase cfg domain kt @ CHR ''.'' # CHR ''b'' # x"
      using p by (fastforce simp: backup_paths_def slot_paths_def numbered_paths_def)
    then show ?thesis using tagged by cases auto
  qed
  then show ?thesis by (fastforce simp: live_paths_def)
qed

section \<open>Successful steps\<close>

lemma io_step_Inr:
  assumes "io_step env e act w = (Inr x, w')"
  shows "act (w\<lparr>tick := Suc (tick w)\<rparr>) = (Inr x, w')" "\<not> halted w"
  using assms by (cases rule: io_step_cases [of w env e act]; simp)+

lemma ReadFile_Inr:
  assumes "ReadFile env p w = (Inr c, w')"
  shows "content w p = Some c \<and> content w' = content w"
proof -
  from assms have "(case content (w\<lparr>tick := Suc (tick w)\<rparr>) p of None \<Rightarrow> (Inl (Msg ''no such file''), w\<lparr>tick := Suc (tick w)\<rparr>)
      | Some c \<Rightarrow> (Inr c, w\<lparr>tick := Suc (tick w)\<rparr>)) = (Inr c, w')"
    unfolding ReadFile_def by (rule io_step_Inr)
  then show ?thesis by (auto split: option.splits simp: fun_eq_iff)
qed

lemma statExists_Inr:
  assumes "statExists env p w = (Inr b, w')"
  shows "b = (content w p \<noteq> None) \<and> content w' = content w"
  using io_step_Inr(1) [OF assms [unfolded statExists_def]] by (auto simp: fun_eq_iff)

lemma op_res_Inr: "op_res s r w = (Inr x, w') \<longleftrightarrow> r = Inr x \<and> w' = w"
  by (auto simp: op_res_def split: sum.splits)

lemmas step_Inr = op_bind_Inr op_wrap_Inr op_res_Inr

text \<open>The pair a base path holds, read directly from the files.\<close>

definition verified_at :: "keylib \<Rightarrow> 'w fs_world_scheme \<Rightarrow> string \<Rightarrow> string \<Rightarrow> string \<Rightarrow> (dnskey \<times> bytes) option" where
  "verified_at lib w base domain kt =
     (case (content w (base @ ''.key''), content w (base @ ''.private'')) of
        (Some c, Some pc) \<Rightarrow>
          (case (ParseDNSKEYFromFile lib c, ParsePrivateKeyFromFile lib pc) of
             (Inr k, Inr priv) \<Rightarrow>
               if VerifyKeyPairCorrespondence lib k priv = Inr () \<and> validateLoadedKey lib k domain kt = Inr ()
               then Some (k, priv) else None
           | _ \<Rightarrow> None)
      | _ \<Rightarrow> None)"

lemma loadVerifiedPair_Inr:
  assumes "loadVerifiedPair env lib base domain kt w = (Inr kp, w')"
  shows "verified_at lib w base domain kt = Some kp \<and> content w' = content w"
  using assms unfolding loadVerifiedPair_def loadKeyPairFromPath_def
  by (auto simp: step_Inr verified_at_def dest!: ReadFile_Inr)

lemma verified_at_cong:
  "content w' (base @ ''.key'') = content w (base @ ''.key'') \<Longrightarrow>
   content w' (base @ ''.private'') = content w (base @ ''.private'') \<Longrightarrow>
   verified_at lib w' base domain kt = verified_at lib w base domain kt"
  by (simp add: verified_at_def)

lemma replace_put_cases:
  obtains (committed) r t h where "replace_atomic env p (put_file p d) w = (r, (put_file p d w)\<lparr>tick := t, halted := h\<rparr>)"
      "r = Inr () \<and> \<not> h \<or> r = Inl (DurabilityError p) \<and> \<not> h \<or> r = Inl crashed \<and> h" "\<not> halted w"
    | (aborted) e t h where "replace_atomic env p (put_file p d) w = (Inl e, w\<lparr>tick := t, halted := h\<rparr>)" "\<not> IsCommitted e"
  by (rule replace_atomic_cases [of "put_file p d" env p w]) (auto simp: put_file_def)

lemma replace_put_done:
  assumes "replace_atomic env p (put_file p d) w = (r, w')" and "r = Inr () \<or> (\<exists>e. r = Inl e \<and> IsCommitted e)"
  shows "content w' q = (if q = p then Some d else content w q)"
proof (rule replace_put_cases [of env p d w])
  fix r' t h assume "replace_atomic env p (put_file p d) w = (r', (put_file p d w)\<lparr>tick := t, halted := h\<rparr>)"
  then show ?thesis using assms(1) by (auto simp: put_file_def)
next
  fix e t h assume "replace_atomic env p (put_file p d) w = (Inl e, w\<lparr>tick := t, halted := h\<rparr>)" "\<not> IsCommitted e"
  then show ?thesis using assms by auto
qed

lemma read_uncommitted:
  "statExists env p w = (Inl e, w') \<Longrightarrow> \<not> IsCommitted e"
  "ReadFile env p w = (Inl e, w') \<Longrightarrow> \<not> IsCommitted e"
  by (auto simp: statExists_def ReadFile_def io_step_def Let_def
      split: if_splits io_outcome.splits option.splits)

lemma CopyFile_done:
  assumes "CopyFile env p q w = (r, w')" and "r = Inr () \<or> (\<exists>e. r = Inl e \<and> IsCommitted e)"
  shows "\<exists>c. content w p = Some c \<and> content w' = (content w)(q := Some c)"
proof -
  obtain r1 w1 where s: "statExists env p w = (r1, w1)" by (cases "statExists env p w")
  obtain ex where r1: "r1 = Inr ex"
    using assms s by (cases r1) (auto simp: CopyFile_def op_bind_def dest: read_uncommitted(1))
  have st: "content w1 = content w" using statExists_Inr s r1 by blast
  obtain r2 w2 where rd: "ReadFile env p w1 = (r2, w2)" by (cases "ReadFile env p w1")
  have ex: "ex" using assms s r1 by (auto simp: CopyFile_def op_bind_def split: if_splits)
  obtain c where r2: "r2 = Inr c"
    using assms s r1 ex rd by (cases r2) (auto simp: CopyFile_def op_bind_def dest: read_uncommitted(2))
  have "replace_atomic env q (put_file q c) w2 = (r, w')"
    using assms(1) s r1 ex rd r2 by (simp add: CopyFile_def op_bind_def)
  then have "content w' x = (if x = q then Some c else content w2 x)" for x
    using replace_put_done assms(2) by metis
  moreover have "content w1 p = Some c" "content w2 = content w1" using ReadFile_Inr rd r2 by blast+
  ultimately show ?thesis using st by (auto simp: fun_eq_iff)
qed

section \<open>Staging\<close>

lemma loadPublic_Inr:
  assumes "loadPublicKeyFromPath env lib base w = (Inr k, w')"
  shows "content w' = content w \<and> (\<exists>c. content w (base @ ''.key'') = Some c \<and> ParseDNSKEYFromFile lib c = Inr k)"
  using assms unfolding loadPublicKeyFromPath_def by (auto simp: step_Inr dest!: ReadFile_Inr)

lemma verified_at_public:
  "verified_at lib w base domain kt = Some (k, priv) \<Longrightarrow>
   \<exists>c. content w (base @ ''.key'') = Some c \<and> ParseDNSKEYFromFile lib c = Inr k"
  by (auto simp: verified_at_def split: option.splits sum.splits if_splits)

lemma stage_slot_True:
  assumes "stage_slot env lib base domain kt k ex w = (Inr True, w')"
  shows "\<exists>k' priv. verified_at lib w' base domain kt = Some (k', priv) \<and> samePublicKey k' k"
proof -
  obtain r w1 where l: "loadPublicKeyFromPath env lib base w = (r, w1)"
    by (cases "loadPublicKeyFromPath env lib base w")
  from assms l obtain k' where k': "r = Inr k'" "samePublicKey k' k"
    by (auto simp: stage_slot_def op_try_def step_Inr split: if_splits sum.splits)
  obtain v w2 where v: "loadVerifiedPair env lib base domain kt w1 = (v, w2)"
    by (cases "loadVerifiedPair env lib base domain kt w1")
  from assms l k' v obtain kp where kp: "v = Inr kp" "w' = w2"
    by (auto simp: stage_slot_def op_try_def step_Inr split: if_splits sum.splits)
  have "verified_at lib w1 base domain kt = Some kp" "content w2 = content w1"
    using loadVerifiedPair_Inr v kp by blast+
  moreover have "content w1 = content w" "\<exists>c. content w (base @ ''.key'') = Some c \<and> ParseDNSKEYFromFile lib c = Inr k'"
    using loadPublic_Inr l k' by blast+
  moreover obtain c where "content w1 (base @ ''.key'') = Some c" "ParseDNSKEYFromFile lib c = Inr (fst kp)"
    using verified_at_public [of lib w1 base domain kt "fst kp" "snd kp"] calculation(1) by auto
  ultimately have "fst kp = k'" by auto
  have "verified_at lib w2 base domain kt = verified_at lib w1 base domain kt"
    by (rule verified_at_cong) (simp_all add: \<open>content w2 = content w1\<close>)
  with \<open>verified_at lib w1 base domain kt = Some kp\<close> \<open>fst kp = k'\<close> show ?thesis
    using kp k'(2) by (cases kp) auto
qed

lemma StageKeyPair_Inr:
  assumes "StageKeyPair env lib cfg domain kt k priv w = (Inr base, w')"
  shows "base = taggedBase cfg domain kt (KeyTag lib k)"
    and "\<exists>k' priv'. verified_at lib w' base domain kt = Some (k', priv') \<and> samePublicKey k' k"
    and "validateLoadedKey lib k domain kt = Inr ()"
    and "VerifyKeyPairCorrespondence lib k priv = Inr ()"
proof -
  let ?b = "taggedBase cfg domain kt (KeyTag lib k)"
  show "base = ?b" "validateLoadedKey lib k domain kt = Inr ()" "VerifyKeyPairCorrespondence lib k priv = Inr ()"
    using assms by (auto simp: StageKeyPair_def Let_def step_Inr split: if_splits)
  obtain ex w1 already w2 where slot: "stage_slot env lib ?b domain kt k ex w1 = (Inr already, w2)"
    and rest: "already \<and> w' = w2 \<or> (\<exists>w3 kp. loadVerifiedPair env lib ?b domain kt w3 = (Inr kp, w') \<and> samePublicKey (fst kp) k)"
    using assms by (auto simp: StageKeyPair_def Let_def step_Inr split: if_splits) blast+
  from rest show "\<exists>k' priv'. verified_at lib w' base domain kt = Some (k', priv') \<and> samePublicKey k' k"
  proof
    assume "already \<and> w' = w2"
    with slot have "stage_slot env lib ?b domain kt k ex w1 = (Inr True, w')" by simp
    from stage_slot_True [OF this] show ?thesis using \<open>base = ?b\<close> by simp
  next
    assume "\<exists>w3 kp. loadVerifiedPair env lib ?b domain kt w3 = (Inr kp, w') \<and> samePublicKey (fst kp) k"
    then obtain w3 k' priv' where l: "loadVerifiedPair env lib ?b domain kt w3 = (Inr (k', priv'), w')" "samePublicKey k' k"
      by auto
    have "verified_at lib w3 ?b domain kt = Some (k', priv')" "content w' = content w3"
      using loadVerifiedPair_Inr [OF l(1)] by simp_all
    moreover from this(2) have "verified_at lib w' ?b domain kt = verified_at lib w3 ?b domain kt"
      by (intro verified_at_cong) simp_all
    ultimately have "verified_at lib w' ?b domain kt = Some (k', priv')" by simp
    then show ?thesis using l(2) \<open>base = ?b\<close> by blast
  qed
qed

subsection \<open>Refusals\<close>

text \<open>An operation refuses in a world when it fails there and leaves every file as it is.\<close>

definition refuses :: "('w fs_world_scheme, 'a) op \<Rightarrow> 'w fs_world_scheme \<Rightarrow> bool" where
  "refuses m w \<longleftrightarrow> (\<forall>r w'. m w = (r, w') \<longrightarrow> (\<exists>e. r = Inl e) \<and> content w' = content w)"

lemma reads_only: "keeps (only_files {}) m \<Longrightarrow> m w = (r, w') \<Longrightarrow> content w' = content w"
  using keepsD [of "only_files {}" m w r w'] by (auto simp: only_files_def)

lemma refuses_bind:
  assumes "keeps (only_files {}) m"
    and "\<And>x w1. m w = (Inr x, w1) \<Longrightarrow> content w1 = content w \<Longrightarrow> refuses (f x) w1"
  shows "refuses (op_bind m f) w"
  unfolding refuses_def
proof (intro allI impI)
  fix r w'
  assume "op_bind m f w = (r, w')"
  then show "(\<exists>e. r = Inl e) \<and> content w' = content w"
  proof (cases rule: op_bind_cases)
    case (failed e)
    then show ?thesis using reads_only [OF assms(1)] by blast
  next
    case (next_step x w1)
    have "content w1 = content w" using reads_only [OF assms(1) next_step(1)] .
    with assms(2) [OF next_step(1)] next_step(2) show ?thesis by (metis refuses_def)
  qed
qed

lemma refuses_first: "refuses m w \<Longrightarrow> refuses (op_bind m f) w"
  unfolding refuses_def by (fastforce simp: op_bind_def split: prod.splits sum.splits)

text \<open>A slot that holds a different key, or no readable key, is left exactly as it is.\<close>

lemma stage_slot_collision:
  assumes "content w (base @ ''.key'') = Some c" and "fst ex"
    and "\<And>k'. ParseDNSKEYFromFile lib c = Inr k' \<Longrightarrow> \<not> samePublicKey k' k"
  shows "refuses (stage_slot env lib base domain kt k ex) w"
proof -
  obtain r1 w1 where l: "loadPublicKeyFromPath env lib base w = (r1, w1)"
    by (cases "loadPublicKeyFromPath env lib base w")
  have "\<not> samePublicKey k' k" if "r1 = Inr k'" for k'
    using loadPublic_Inr [of env lib base w k' w1] l that assms by auto
  moreover have "content w1 = content w" by (rule reads_only [OF outside.frame_loadPublic l])
  ultimately show ?thesis using assms(2) l by (auto simp: refuses_def stage_slot_def op_try_def split: sum.splits)
qed

lemma stage_collision:
  assumes "content w (taggedBase cfg domain kt (KeyTag lib k) @ ''.key'') = Some c"
    and "\<And>k'. ParseDNSKEYFromFile lib c = Inr k' \<Longrightarrow> \<not> samePublicKey k' k"
  shows "refuses (StageKeyPair env lib cfg domain kt k priv) w"
  unfolding StageKeyPair_def Let_def
proof (rule refuses_bind [OF outside.frame_res], rule refuses_bind [OF outside.frame_res],
    rule refuses_bind [OF outside.frame_io_step [OF onlyf.keeps_ok]],
    rule refuses_bind [OF outside.frame_pairFiles], rule refuses_first)
  fix x w1 y w2 z w3 ex w4
  assume "content w1 = content w" "content w2 = content w1" "content w3 = content w2"
    and ex: "pairFiles env (taggedBase cfg domain kt (KeyTag lib k)) w3 = (Inr ex, w4)" and "content w4 = content w3"
  then have same: "content w3 = content w" "content w4 = content w" by simp_all
  have "fst ex" using ex assms(1) same by (auto simp: pairFiles_def step_Inr dest!: statExists_Inr)
  with assms same show "refuses (stage_slot env lib (taggedBase cfg domain kt (KeyTag lib k)) domain kt k ex) w4"
    by (intro stage_slot_collision) auto
qed

section \<open>Preserving the key that is replaced\<close>

text \<open>
  A key is preserved when its tag-named slot holds a verified pair with the same public
  key, or when both halves of the live pair have been copied verbatim to a numbered name.
\<close>

definition preserved_in ::
  "keylib \<Rightarrow> config \<Rightarrow> string \<Rightarrow> string \<Rightarrow> dnskey \<Rightarrow> string option \<times> string option \<Rightarrow> 'w fs_world_scheme \<Rightarrow> bool" where
  "preserved_in lib cfg domain kt k halves w \<longleftrightarrow>
     (\<exists>k' priv. verified_at lib w (taggedBase cfg domain kt (KeyTag lib k)) domain kt = Some (k', priv) \<and>
        samePublicKey k' k) \<or>
     (\<exists>b. {b @ ''.key'', b @ ''.private''} \<subseteq> backup_paths cfg domain kt \<and>
        content w (b @ ''.key'') = fst halves \<and> content w (b @ ''.private'') = snd halves)"

lemma preserved_in_frame:
  assumes "preserved_in lib cfg domain kt k halves w"
    and "\<And>p. p \<in> backup_paths cfg domain kt \<Longrightarrow> content w' p = content w p"
  shows "preserved_in lib cfg domain kt k halves w'"
proof -
  have "slot_paths (taggedBase cfg domain kt tag) \<subseteq> backup_paths cfg domain kt" for tag
    by (rule backup_paths_sub) simp
  then have "content w' (taggedBase cfg domain kt tag @ ext) = content w (taggedBase cfg domain kt tag @ ext)"
    if "ext \<in> {''.key'', ''.private''}" for tag ext
    using that slot_paths_mem(1,2) assms(2) by blast
  then have "verified_at lib w' (taggedBase cfg domain kt tag) domain kt =
      verified_at lib w (taggedBase cfg domain kt tag) domain kt" for tag
    by (intro verified_at_cong) simp_all
  with assms show ?thesis unfolding preserved_in_def by auto
qed

lemma copyDurable_Inr:
  "copyDurable env p q w = (Inr (), w') \<Longrightarrow> \<exists>c. content w p = Some c \<and> content w' = (content w)(q := Some c)"
  unfolding copyDurable_def op_wrap_Inr by (erule CopyFile_done) (rule disjI1, rule refl)

lemma copy_half_Inr:
  assumes "copy_half env src dst ext w = (Inr (), w')" and "content w (src @ ext) = Some c"
  shows "content w' = (content w)(dst @ ext := Some c)"
  using assms unfolding copy_half_def
  by (auto simp: step_Inr dest!: statExists_Inr copyDurable_Inr split: if_splits)

lemma copyPairUnique_Inr:
  assumes run: "copyPairUnique env src prefix w = (Inr dst, w')"
    and src: "content w (src @ ''.key'') = Some c" "content w (src @ ''.private'') = Some pc"
    and out: "{src @ ''.key'', src @ ''.private''} \<inter> numbered_paths prefix = {}"
  shows "content w' (dst @ ''.key'') = Some c" "content w' (dst @ ''.private'') = Some pc"
    "{dst @ ''.key'', dst @ ''.private''} \<subseteq> numbered_paths prefix"
proof -
  obtain w1 w2 where u: "uniqueBackupBase env prefix w = (Inr dst, w1)"
    and h1: "copy_half env src dst ''.key'' w1 = (Inr (), w2)"
    and h2: "copy_half env src dst ''.private'' w2 = (Inr (), w')"
    using run by (auto simp: copyPairUnique_def step_Inr)
  obtain j where dst: "dst = prefix @ ''.'' @ show_nat j"
    using u unfolding uniqueBackupBase_def by (blast dest: outside.uniqueBackupBase_name)
  then show n: "{dst @ ''.key'', dst @ ''.private''} \<subseteq> numbered_paths prefix"
    using numbered_paths_mem [of prefix "numbered_paths prefix" j] by simp
  have "only_files (numbered_paths prefix) w w1"
    using keepsD [OF outside.frame_uniqueBackupBase u] by simp
  then have "content w1 (src @ ''.key'') = Some c" "content w1 (src @ ''.private'') = Some pc"
    using src out by (auto simp: only_files_def)
  moreover from this(1) have w2: "content w2 = (content w1)(dst @ ''.key'' := Some c)"
    by (rule copy_half_Inr [OF h1])
  ultimately have "content w2 (src @ ''.private'') = Some pc" using n out by auto
  then have "content w' = (content w2)(dst @ ''.private'' := Some pc)" by (rule copy_half_Inr [OF h2])
  then show "content w' (dst @ ''.key'') = Some c" "content w' (dst @ ''.private'') = Some pc"
    using w2 by auto
qed

lemma op_bind_tail: "op_bind m f w = (Inr y, w') \<Longrightarrow> (\<And>x w1. f x w1 = (Inr y, w') \<Longrightarrow> thesis) \<Longrightarrow> thesis"
  by (auto simp: op_bind_Inr)

lemma ensureBackupAt_last:
  "ensureBackupAt env lib domain kt live backup want w = (Inr (), w') \<Longrightarrow>
   \<exists>kp w1. loadVerifiedPair env lib backup domain kt w1 = (Inr kp, w') \<and> samePublicKey (fst kp) want"
  unfolding ensureBackupAt_def
  by (erule op_bind_tail, erule op_bind_tail, erule op_bind_tail, erule op_bind_tail)
    (auto simp: step_Inr split: if_splits)

lemma ensureBackupAt_Inr:
  assumes "ensureBackupAt env lib domain kt live backup want w = (Inr (), w')"
  shows "\<exists>k priv. verified_at lib w' backup domain kt = Some (k, priv) \<and> samePublicKey k want"
proof -
  have "\<exists>kp w1. loadVerifiedPair env lib backup domain kt w1 = (Inr kp, w') \<and> samePublicKey (fst kp) want"
    by (rule ensureBackupAt_last [OF assms])
  then obtain kp w1 where l: "loadVerifiedPair env lib backup domain kt w1 = (Inr kp, w')" and "samePublicKey (fst kp) want"
    by blast
  moreover have "verified_at lib w' backup domain kt = verified_at lib w1 backup domain kt"
    using loadVerifiedPair_Inr [OF l] by (intro verified_at_cong) simp_all
  ultimately show ?thesis using loadVerifiedPair_Inr [OF l] by (cases kp) auto
qed

lemma verified_at_halves:
  "verified_at lib w base domain kt = Some kp \<Longrightarrow>
   \<exists>c pc. content w (base @ ''.key'') = Some c \<and> content w (base @ ''.private'') = Some pc"
  by (auto simp: verified_at_def split: option.splits)

lemma ensureVerifiedBackup_Inr:
  assumes "ensureVerifiedBackup env lib cfg domain kt w = (Inr k, w')"
  shows "\<exists>priv. verified_at lib w (liveBase cfg domain kt) domain kt = Some (k, priv)"
    and "\<exists>k' priv. verified_at lib w' (taggedBase cfg domain kt (KeyTag lib k)) domain kt = Some (k', priv) \<and> samePublicKey k' k"
proof -
  let ?live = "liveBase cfg domain kt"
  obtain r w1 where rw: "loadVerifiedPair env lib ?live domain kt w = (r, w1)"
    by (cases "loadVerifiedPair env lib ?live domain kt w")
  then obtain kp where r: "r = Inr kp"
    using assms by (cases r) (simp_all add: ensureVerifiedBackup_def op_try_def)
  note l = rw [unfolded r]
  from assms have "op_bind (ensureBackupAt env lib domain kt ?live (taggedBase cfg domain kt (KeyTag lib (fst kp))) (fst kp))
      (\<lambda>_. op_ok (fst kp)) w1 = (Inr k, w')"
    by (simp add: ensureVerifiedBackup_def op_try_def l)
  then have k: "k = fst kp"
    and b: "ensureBackupAt env lib domain kt ?live (taggedBase cfg domain kt (KeyTag lib (fst kp))) (fst kp) w1 = (Inr (), w')"
    unfolding op_bind_Inr by auto
  show "\<exists>priv. verified_at lib w (liveBase cfg domain kt) domain kt = Some (k, priv)"
    using loadVerifiedPair_Inr [OF l] k by (cases kp) auto
  show "\<exists>k' priv. verified_at lib w' (taggedBase cfg domain kt (KeyTag lib k)) domain kt = Some (k', priv) \<and> samePublicKey k' k"
    using ensureBackupAt_Inr [OF b] k by simp
qed

subsection \<open>The live pair\<close>

definition live_halves :: "config \<Rightarrow> string \<Rightarrow> string \<Rightarrow> 'w fs_world_scheme \<Rightarrow> string option \<times> string option" where
  "live_halves cfg domain kt w =
     (content w (liveBase cfg domain kt @ ''.key''), content w (liveBase cfg domain kt @ ''.private''))"

lemma backup_keeps_live:
  "key_names domain kt \<Longrightarrow> only_files (backup_paths cfg domain kt) w w' \<Longrightarrow> live_halves cfg domain kt w' = live_halves cfg domain kt w"
  using live_not_backup [of domain kt cfg] by (auto simp: only_files_def live_paths_def live_halves_def)

lemma copy_preserves:
  assumes run: "copyPairUnique env (liveBase cfg domain kt) prefix w = (Inr dst, w')"
    and sub: "numbered_paths prefix \<subseteq> backup_paths cfg domain kt"
    and v: "verified_at lib w (liveBase cfg domain kt) domain kt = Some kp" and names: "key_names domain kt"
  shows "preserved_in lib cfg domain kt k (live_halves cfg domain kt w) w'"
proof -
  let ?live = "liveBase cfg domain kt"
  obtain c pc where h: "content w (?live @ ''.key'') = Some c" "content w (?live @ ''.private'') = Some pc"
    using verified_at_halves [OF v] by blast
  have "{?live @ ''.key'', ?live @ ''.private''} \<inter> numbered_paths prefix = {}"
    using live_not_backup [OF names, of cfg] sub by (auto simp: live_paths_def)
  from copyPairUnique_Inr [OF run h this] h sub show ?thesis
    unfolding preserved_in_def by (intro disjI2 exI [of _ dst]) (auto simp: live_halves_def)
qed

lemma preserveLivePair_Inr:
  assumes run: "preserveLivePair env lib cfg domain kt w = (Inr (), w')"
    and v: "verified_at lib w (liveBase cfg domain kt) domain kt = Some (k, priv)" and names: "key_names domain kt"
  shows "preserved_in lib cfg domain kt k (live_halves cfg domain kt w) w'"
proof -
  let ?live = "liveBase cfg domain kt"
  obtain ex w1 where p: "pairFiles env ?live w = (Inr ex, w1)"
    using run by (auto simp: preserveLivePair_def Let_def step_Inr)
  have c1: "content w1 = content w" by (rule reads_only [OF outside.frame_pairFiles p])
  have ex: "fst ex" "snd ex" using p verified_at_halves [OF v]
    by (auto simp: pairFiles_def step_Inr dest!: statExists_Inr)
  obtain r w2 where b: "ensureVerifiedBackup env lib cfg domain kt w1 = (r, w2)"
    by (cases "ensureVerifiedBackup env lib cfg domain kt w1")
  have v1: "verified_at lib w1 ?live domain kt = Some (k, priv)"
    using v c1 verified_at_cong [of w1 ?live w] by simp
  have h2: "live_halves cfg domain kt w2 = live_halves cfg domain kt w"
    using backup_keeps_live [OF names keepsD [OF outside.frame_ensureVerifiedBackup b]] c1 by (simp add: live_halves_def)
  then have v2: "verified_at lib w2 ?live domain kt = Some (k, priv)"
    using v verified_at_cong [of w2 ?live w] by (simp add: live_halves_def)
  show ?thesis
  proof (cases r)
    case (Inr k')
    have "w' = w2" using run p ex b Inr by (simp add: preserveLivePair_def Let_def op_bind_def op_try_def)
    moreover have "k' = k" using ensureVerifiedBackup_Inr(1) b Inr v1 by fastforce
    ultimately show ?thesis using ensureVerifiedBackup_Inr(2) b Inr unfolding preserved_in_def by blast
  next
    case (Inl e)
    obtain prefix dst where c: "copyPairUnique env ?live prefix w2 = (Inr dst, w')"
      and "as_backup_conflict e = Some prefix \<or> prefix = ?live @ ''.bak''"
      using run p ex b Inl
      by (auto simp: preserveLivePair_def Let_def op_bind_Inr op_try_def split: option.splits if_splits)
    then have "numbered_paths prefix \<subseteq> backup_paths cfg domain kt"
      using ensureVerifiedBackup_conflict b Inl backup_paths_sub(2,3) [of cfg domain kt, OF subset_refl] by blast
    then show ?thesis using copy_preserves [OF c _ v2 names] h2 by simp
  qed
qed

section \<open>Activation\<close>

lemma op_try_cases: "op_try m f w = (r, w') \<Longrightarrow> (\<And>q w1. m w = (q, w1) \<Longrightarrow> f q w1 = (r, w') \<Longrightarrow> thesis) \<Longrightarrow> thesis"
  by (cases "m w") (simp add: op_try_def)

lemma load_reads: "loadVerifiedPair env lib base domain kt w = (r, w') \<Longrightarrow> content w' = content w"
  by (rule reads_only [OF outside.frame_loadVerified])

lemma wrap_load_reads: "op_wrap s (loadVerifiedPair env lib base domain kt) w = (r, w') \<Longrightarrow> content w' = content w"
  by (rule reads_only [OF onlyf.keeps_wrap [OF outside.frame_loadVerified]])

lemma live_halves_reads: "content w' = content w \<Longrightarrow> live_halves cfg domain kt w' = live_halves cfg domain kt w"
  by (simp add: live_halves_def)

lemma preserved_after_install:
  assumes "preserved_in lib cfg domain kt k h w" and "key_names domain kt"
    and "install_live env lib domain kt staged (liveBase cfg domain kt) want w = (r, w')"
  shows "preserved_in lib cfg domain kt k h w'"
proof -
  have "only_files (live_paths cfg domain kt) w w'"
    by (rule keepsD [OF outside.frame_install_live assms(3)]) (simp_all add: live_paths_def)
  then show ?thesis using live_not_backup [OF assms(2), of cfg]
    by (intro preserved_in_frame [OF assms(1)]) (auto simp: only_files_def)
qed

text \<open>
  An activation that gets past its checks runs \<open>preserveLivePair\<close> and then
  \<open>install_live\<close>, from files as they were at the start.
\<close>

lemma ActivateKeyPair_cases:
  assumes "ActivateKeyPair env lib cfg domain kt tag w = (r, w')"
  obtains (unchanged) "content w' = content w"
      "r = Inr () \<Longrightarrow> \<exists>sk ck. verified_at lib w (taggedBase cfg domain kt tag) domain kt = Some sk \<and> KeyTag lib (fst sk) = tag \<and>
         verified_at lib w (liveBase cfg domain kt) domain kt = Some ck \<and> samePublicKey (fst ck) (fst sk)"
    | (replaced) sk w2 where "content w2 = content w"
      "verified_at lib w (taggedBase cfg domain kt tag) domain kt = Some sk" "KeyTag lib (fst sk) = tag"
      "op_bind (op_wrap ''preserving the current live key'' (preserveLivePair env lib cfg domain kt)) (\<lambda>_.
         install_live env lib domain kt (taggedBase cfg domain kt tag) (liveBase cfg domain kt) (fst sk)) w2 = (r, w')"
proof -
  let ?staged = "taggedBase cfg domain kt tag" and ?live = "liveBase cfg domain kt"
  show ?thesis using assms unfolding ActivateKeyPair_def Let_def
  proof (cases rule: op_bind_cases)
    case (failed e)
    then show ?thesis using wrap_load_reads unchanged by blast
  next
    case (next_step sk w1)
    have c1: "content w1 = content w" by (rule wrap_load_reads [OF next_step(1)])
    have sk: "verified_at lib w ?staged domain kt = Some sk"
      using next_step(1) loadVerifiedPair_Inr unfolding op_wrap_Inr by blast
    obtain cur w2 where l: "loadVerifiedPair env lib ?live domain kt w1 = (cur, w2)"
      by (cases "loadVerifiedPair env lib ?live domain kt w1")
    have c2: "content w2 = content w" using load_reads [OF l] c1 by simp
    have live: "verified_at lib w ?live domain kt = Some ck" if "cur = Inr ck" for ck
      using loadVerifiedPair_Inr l that c1 verified_at_cong [of w1 ?live w] by metis
    show ?thesis
    proof (cases "KeyTag lib (fst sk) = tag \<and> \<not> (case cur of Inl _ \<Rightarrow> False | Inr ck \<Rightarrow> samePublicKey (fst ck) (fst sk))")
      case True
      with next_step(2) l have "op_bind (op_wrap ''preserving the current live key'' (preserveLivePair env lib cfg domain kt)) (\<lambda>_.
         install_live env lib domain kt ?staged ?live (fst sk)) w2 = (r, w')"
        by (simp add: op_try_def)
      then show ?thesis using True c2 sk replaced by blast
    next
      case False
      with next_step(2) l c1 c2 have "content w' = content w" and "r = Inr () \<Longrightarrow> KeyTag lib (fst sk) = tag \<and>
          (\<exists>ck. cur = Inr ck \<and> samePublicKey (fst ck) (fst sk))"
        by (auto simp: op_try_def split: if_splits sum.splits)
      then show ?thesis using unchanged live sk by blast
    qed
  qed
qed

text \<open>
  Whatever happens during an activation, the key that was live is still there: the live
  files are untouched, or the key has been preserved.
\<close>

lemma ActivateKeyPair_safe:
  assumes names: "key_names domain kt"
    and v: "verified_at lib w (liveBase cfg domain kt) domain kt = Some (k, priv)"
    and run: "ActivateKeyPair env lib cfg domain kt tag w = (r, w')"
  shows "live_halves cfg domain kt w' = live_halves cfg domain kt w \<or>
    preserved_in lib cfg domain kt k (live_halves cfg domain kt w) w'"
proof (rule ActivateKeyPair_cases [OF run])
  assume "content w' = content w"
  then show ?thesis by (simp add: live_halves_def)
next
  fix sk w2
  assume c2: "content w2 = content w"
    and b: "op_bind (op_wrap ''preserving the current live key'' (preserveLivePair env lib cfg domain kt)) (\<lambda>_.
         install_live env lib domain kt (taggedBase cfg domain kt tag) (liveBase cfg domain kt) (fst sk)) w2 = (r, w')"
  have h2: "live_halves cfg domain kt w2 = live_halves cfg domain kt w" by (rule live_halves_reads [OF c2])
  have v2: "verified_at lib w2 (liveBase cfg domain kt) domain kt = Some (k, priv)"
    using v c2 verified_at_cong [of w2 "liveBase cfg domain kt" w] by simp
  from b show ?thesis
  proof (cases rule: op_bind_cases)
    case (failed e)
    from backup_keeps_live [OF names keepsD [OF onlyf.keeps_wrap [OF outside.frame_preserveLivePair] failed(1)]]
    show ?thesis using h2 by simp
  next
    case (next_step x w3)
    have "preserved_in lib cfg domain kt k (live_halves cfg domain kt w2) w3"
      using preserveLivePair_Inr [OF _ v2 names] next_step(1) by (simp add: op_wrap_Inr)
    from preserved_after_install [OF this names next_step(2)] h2 show ?thesis by simp
  qed
qed

lemma install_live_Inr:
  assumes "install_live env lib domain kt staged live want w = (Inr (), w')"
  shows "\<exists>kp. verified_at lib w' live domain kt = Some kp \<and> samePublicKey (fst kp) want"
proof -
  from assms obtain kp w1 where l: "loadVerifiedPair env lib live domain kt w1 = (Inr kp, w')"
    and "samePublicKey (fst kp) want"
    unfolding install_live_def by (auto simp: step_Inr split: if_splits)
  moreover have "verified_at lib w' live domain kt = verified_at lib w1 live domain kt"
    using loadVerifiedPair_Inr [OF l] by (intro verified_at_cong) simp_all
  ultimately show ?thesis using loadVerifiedPair_Inr [OF l] by auto
qed

lemma ActivateKeyPair_Inr:
  assumes "ActivateKeyPair env lib cfg domain kt tag w = (Inr (), w')"
  shows "\<exists>sk kp. verified_at lib w (taggedBase cfg domain kt tag) domain kt = Some sk \<and> KeyTag lib (fst sk) = tag \<and>
    verified_at lib w' (liveBase cfg domain kt) domain kt = Some kp \<and> samePublicKey (fst kp) (fst sk)"
proof (rule ActivateKeyPair_cases [OF assms])
  assume "content w' = content w"
  then have "verified_at lib w' (liveBase cfg domain kt) domain kt = verified_at lib w (liveBase cfg domain kt) domain kt"
    by (intro verified_at_cong) simp_all
  moreover assume "Inr () = Inr () \<Longrightarrow> \<exists>sk ck. verified_at lib w (taggedBase cfg domain kt tag) domain kt = Some sk \<and>
      KeyTag lib (fst sk) = tag \<and> verified_at lib w (liveBase cfg domain kt) domain kt = Some ck \<and> samePublicKey (fst ck) (fst sk)"
  ultimately show ?thesis by auto
next
  fix sk w2
  assume "verified_at lib w (taggedBase cfg domain kt tag) domain kt = Some sk" "KeyTag lib (fst sk) = tag"
    and "op_bind (op_wrap ''preserving the current live key'' (preserveLivePair env lib cfg domain kt)) (\<lambda>_.
         install_live env lib domain kt (taggedBase cfg domain kt tag) (liveBase cfg domain kt) (fst sk)) w2 = (Inr (), w')"
  then show ?thesis using install_live_Inr unfolding op_bind_Inr by blast
qed

section \<open>Loading the recorded key\<close>

lemma EnsureLiveKey_cases:
  assumes "EnsureLiveKey env lib cfg domain kt expected w = (r, w')"
  obtains (live) kp where "r = Inr kp" "content w' = content w"
      "verified_at lib w (liveBase cfg domain kt) domain kt = Some kp" "KeyTag lib (fst kp) = expected"
    | (refused) e where "r = Inl e" "content w' = content w"
    | (restored) tk w2 where "content w2 = content w"
      "verified_at lib w (taggedBase cfg domain kt expected) domain kt = Some tk" "KeyTag lib (fst tk) = expected"
      "op_bind (op_wrap ''re-activating'' (ActivateKeyPair env lib cfg domain kt expected)) (\<lambda>_.
        op_bind (op_wrap ''after re-activation'' (loadVerifiedPair env lib (liveBase cfg domain kt) domain kt)) (\<lambda>kp.
        if KeyTag lib (fst kp) \<noteq> expected then op_fail (Msg ''re-activation holds another key tag'')
        else op_ok kp)) w2 = (r, w')"
proof -
  let ?live = "liveBase cfg domain kt" and ?tagged = "taggedBase cfg domain kt expected"
  obtain lr w1 where l: "loadVerifiedPair env lib ?live domain kt w = (lr, w1)"
    by (cases "loadVerifiedPair env lib ?live domain kt w")
  have c1: "content w1 = content w" by (rule load_reads [OF l])
  show ?thesis
  proof (cases "case lr of Inr kp \<Rightarrow> KeyTag lib (fst kp) = expected | Inl _ \<Rightarrow> False")
    case True
    then obtain kp where kp: "lr = Inr kp" "KeyTag lib (fst kp) = expected" by (auto split: sum.splits)
    then have "r = Inr kp" "w' = w1" using assms l
      by (simp_all add: EnsureLiveKey_def Let_def op_try_def op_res_def)
    then show ?thesis using kp c1 loadVerifiedPair_Inr l live by blast
  next
    case False
    obtain tr w2 where t: "loadVerifiedPair env lib ?tagged domain kt w1 = (tr, w2)"
      by (cases "loadVerifiedPair env lib ?tagged domain kt w1")
    have c2: "content w2 = content w" using load_reads [OF t] c1 by simp
    show ?thesis
    proof (cases "case tr of Inr tk \<Rightarrow> KeyTag lib (fst tk) = expected | Inl _ \<Rightarrow> False")
      case True
      then obtain tk where tk: "tr = Inr tk" "KeyTag lib (fst tk) = expected" by (auto split: sum.splits)
      have "verified_at lib w ?tagged domain kt = Some tk"
        using loadVerifiedPair_Inr t tk(1) c1 verified_at_cong [of w1 ?tagged w] by metis
      moreover have "op_bind (op_wrap ''re-activating'' (ActivateKeyPair env lib cfg domain kt expected)) (\<lambda>_.
        op_bind (op_wrap ''after re-activation'' (loadVerifiedPair env lib ?live domain kt)) (\<lambda>kp.
        if KeyTag lib (fst kp) \<noteq> expected then op_fail (Msg ''re-activation holds another key tag'')
        else op_ok kp)) w2 = (r, w')"
        using assms l t False True by (simp add: EnsureLiveKey_def Let_def op_try_def)
      ultimately show ?thesis using tk c2 restored by blast
    next
      case notk: False
      then have "w' = w2" "\<exists>e. r = Inl e"
        using assms l t False by (auto simp: EnsureLiveKey_def Let_def op_try_def)
      then show ?thesis using c2 refused by blast
    qed
  qed
qed

lemma EnsureLiveKey_Inr:
  assumes "EnsureLiveKey env lib cfg domain kt expected w = (Inr kp, w')"
  shows "verified_at lib w' (liveBase cfg domain kt) domain kt = Some kp \<and> KeyTag lib (fst kp) = expected"
proof (rule EnsureLiveKey_cases [OF assms])
  fix kp1
  assume "Inr kp = Inr kp1" "content w' = content w"
    "verified_at lib w (liveBase cfg domain kt) domain kt = Some kp1" "KeyTag lib (fst kp1) = expected"
  then show ?thesis using verified_at_cong [of w' "liveBase cfg domain kt" w] by simp
next
  fix tk w2
  assume "op_bind (op_wrap ''re-activating'' (ActivateKeyPair env lib cfg domain kt expected)) (\<lambda>_.
        op_bind (op_wrap ''after re-activation'' (loadVerifiedPair env lib (liveBase cfg domain kt) domain kt)) (\<lambda>kp.
        if KeyTag lib (fst kp) \<noteq> expected then op_fail (Msg ''re-activation holds another key tag'')
        else op_ok kp)) w2 = (Inr kp, w')"
  then obtain w3 where l: "loadVerifiedPair env lib (liveBase cfg domain kt) domain kt w3 = (Inr kp, w')"
    and "KeyTag lib (fst kp) = expected"
    by (auto simp: op_bind_Inr op_wrap_Inr split: if_splits)
  moreover have "verified_at lib w' (liveBase cfg domain kt) domain kt = verified_at lib w3 (liveBase cfg domain kt) domain kt"
    using loadVerifiedPair_Inr [OF l] by (intro verified_at_cong) simp_all
  ultimately show ?thesis using loadVerifiedPair_Inr [OF l] by simp
qed simp

text \<open>Without a verified pair of the recorded tag, live or staged, nothing is signed with.\<close>

lemma EnsureLiveKey_refuses:
  assumes "\<And>kp. verified_at lib w (liveBase cfg domain kt) domain kt = Some kp \<Longrightarrow> KeyTag lib (fst kp) \<noteq> expected"
    and "\<And>kp. verified_at lib w (taggedBase cfg domain kt expected) domain kt = Some kp \<Longrightarrow> KeyTag lib (fst kp) \<noteq> expected"
  shows "refuses (EnsureLiveKey env lib cfg domain kt expected) w"
  unfolding refuses_def
proof (intro allI impI)
  fix r w'
  assume "EnsureLiveKey env lib cfg domain kt expected w = (r, w')"
  then show "(\<exists>e. r = Inl e) \<and> content w' = content w"
    by (cases rule: EnsureLiveKey_cases) (use assms in auto)
qed

section \<open>New generations\<close>

lemma gen_unique_fresh:
  "gen_unique lib domain alg flags tags n w = (Inr kp, w') \<Longrightarrow>
   KeyTag lib (fst kp) \<notin> set tags \<and> (\<exists>t. generateDNSSECKey lib t domain alg flags = Inr kp)"
  by (induction n arbitrary: w)
    (auto simp: op_bind_Inr gen_key_def split: if_splits sum.splits)

lemma stageNewKey_Inr:
  assumes "stageNewKey env lib cfg domain isKSK alg w = (Inr ks, w')"
  obtains k priv t w1 where "generateDNSSECKey lib t domain (if alg = [] then GetZoneAlgorithm cfg domain else alg)
      (if isKSK then 257 else 256) = Inr (k, priv)"
    "k_ID ks = KeyTag lib k" "k_Algorithm ks = (if alg = [] then GetZoneAlgorithm cfg domain else alg)"
    "StageKeyPair env lib cfg domain (keyRole isKSK) k priv w1 =
       (Inr (taggedBase cfg domain (keyRole isKSK) (k_ID ks)), w')"
    "content w1 = content w"
proof -
  obtain k priv ks1 w1 base where g: "generateKeyMaterial env lib cfg domain isKSK alg w = (Inr (k, priv, ks1), w1)"
    and s: "StageKeyPair env lib cfg domain (keyRole isKSK) k priv w1 = (Inr base, w')" and "ks = ks1"
    using assms by (auto simp: stageNewKey_def op_bind_Inr)
  have "\<exists>t. generateDNSSECKey lib t domain (if alg = [] then GetZoneAlgorithm cfg domain else alg)
      (if isKSK then 257 else 256) = Inr (k, priv)"
    and ks: "k_ID ks1 = KeyTag lib k" "k_Algorithm ks1 = (if alg = [] then GetZoneAlgorithm cfg domain else alg)"
    using g by (auto simp: generateKeyMaterial_def Let_def op_bind_Inr dest!: gen_unique_fresh)
  moreover have "content w1 = content w" by (rule reads_only [OF outside.frame_generateKeyMaterial g])
  ultimately show ?thesis using that s StageKeyPair_Inr(1) [OF s] \<open>ks = ks1\<close> by metis
qed

end
