(* ===== verification/State_Merge.thy ===== *)
theory State_Merge
  imports State_Store
begin

text \<open>
  What saving and merging guarantee: the field classes cover the whole zone record, the
  three-way merge keeps validity, publication consistency and cache horizons, the loops of
  \<open>ReloadFromDisk\<close> compute a per-zone merge whatever the map order, and the state file
  holds a complete document after every save, crash or not.
\<close>

section \<open>Field classes\<close>

lemma stringsEqual_iff [simp]: "stringsEqual a b \<longleftrightarrow> a = b"
  by (induction a b rule: stringsEqual.induct) auto

lemma keyStateEqual_iff [simp]: "keyStateEqual a b \<longleftrightarrow> a = b"
  by (auto simp: keyStateEqual_def split: option.splits)

lemma rolloverStateEqual_iff [simp]: "rolloverStateEqual a b \<longleftrightarrow> a = b"
  by (auto simp: rolloverStateEqual_def split: option.splits)

lemma keysRolloverEqual_iff:
  "keysRolloverEqual a b \<longleftrightarrow> z_KSK a = z_KSK b \<and> z_ZSK a = z_ZSK b \<and> z_Rollover a = z_Rollover b"
  by (simp add: keysRolloverEqual_def)

lemma diagnosticsEqual_iff:
  "diagnosticsEqual a b \<longleftrightarrow> z_Warnings a = z_Warnings b \<and> z_Errors a = z_Errors b"
  by (simp add: diagnosticsEqual_def)

lemma zoneContentEqual_iff: "zoneContentEqual a b \<longleftrightarrow> a\<lparr>z_Revision := 0\<rparr> = b\<lparr>z_Revision := 0\<rparr>"
  by (cases a; cases b)
    (auto simp: zoneContentEqual_def signingEqual_def keysRolloverEqual_iff publicationEqual_def
      diagnosticsEqual_iff)

lemma zoneContentEqual_refl [simp]: "zoneContentEqual a a"
  by (simp add: zoneContentEqual_iff)

lemma zoneContentEqual_sym: "zoneContentEqual a b = zoneContentEqual b a"
  by (auto simp: zoneContentEqual_iff)

section \<open>The three-way merge\<close>

lemma mergeZone_disk_unchanged [simp]: "mergeZone b b m = m"
  by (simp add: mergeZone_def)

lemma mergeZone_memory_unchanged: "disk \<noteq> b \<Longrightarrow> mergeZone b disk b = disk"
  by (cases b; cases disk) (auto simp: mergeZone_def zoneContentEqual_iff)

text \<open>What each stage of the merge changes.\<close>

lemma merge_stage_frames [simp]:
  "z_Path (merge_force b d m z) = z_Path z" "z_LastSigned (merge_force b d m z) = z_LastSigned z"
  "z_KSK (merge_force b d m z) = z_KSK z" "z_ZSK (merge_force b d m z) = z_ZSK z"
  "z_Rollover (merge_force b d m z) = z_Rollover z"
  "z_PendingPublication (merge_force b d m z) = z_PendingPublication z"
  "z_PublishedGenerationSignedAt (merge_force b d m z) = z_PublishedGenerationSignedAt z"
  "z_DNSKEYCacheHorizon (merge_force b d m z) = z_DNSKEYCacheHorizon z"
  "z_RRSIGCacheHorizon (merge_force b d m z) = z_RRSIGCacheHorizon z"
  "z_Warnings (merge_force b d m z) = z_Warnings z"
  "z_Errors (merge_force b d m z) = z_Errors z"
  "z_Path (merge_diag b d m z) = z_Path z" "z_LastSigned (merge_diag b d m z) = z_LastSigned z"
  "z_KSK (merge_diag b d m z) = z_KSK z" "z_ZSK (merge_diag b d m z) = z_ZSK z"
  "z_Rollover (merge_diag b d m z) = z_Rollover z"
  "z_PendingPublication (merge_diag b d m z) = z_PendingPublication z"
  "z_PublishedGenerationSignedAt (merge_diag b d m z) = z_PublishedGenerationSignedAt z"
  "z_DNSKEYCacheHorizon (merge_diag b d m z) = z_DNSKEYCacheHorizon z"
  "z_RRSIGCacheHorizon (merge_diag b d m z) = z_RRSIGCacheHorizon z"
  "z_Path (merge_pub b d m z) = z_Path z" "z_LastSigned (merge_pub b d m z) = z_LastSigned z"
  "z_KSK (merge_pub b d m z) = z_KSK z" "z_ZSK (merge_pub b d m z) = z_ZSK z"
  "z_Rollover (merge_pub b d m z) = z_Rollover z"
  "z_Path (merge_keys b d z) = z_Path z" "z_LastSigned (merge_keys b d z) = z_LastSigned z"
  "z_PendingPublication (merge_keys b d z) = z_PendingPublication z"
  "z_PublishedGenerationSignedAt (merge_keys b d z) = z_PublishedGenerationSignedAt z"
  "z_DNSKEYCacheHorizon (merge_keys b d z) = z_DNSKEYCacheHorizon z"
  "z_RRSIGCacheHorizon (merge_keys b d z) = z_RRSIGCacheHorizon z"
  "z_KSK (merge_sign b d m z) = z_KSK z" "z_ZSK (merge_sign b d m z) = z_ZSK z"
  "z_Rollover (merge_sign b d m z) = z_Rollover z"
  "z_PendingPublication (merge_sign b d m z) = z_PendingPublication z"
  "z_PublishedGenerationSignedAt (merge_sign b d m z) = z_PublishedGenerationSignedAt z"
  "z_DNSKEYCacheHorizon (merge_sign b d m z) = z_DNSKEYCacheHorizon z"
  "z_RRSIGCacheHorizon (merge_sign b d m z) = z_RRSIGCacheHorizon z"
  by (simp_all add: merge_force_def merge_diag_def merge_pub_def merge_keys_def merge_sign_def Let_def
      recompute_pending_def copySigning_def copyKeysRollover_def copyPublication_def mergePublication_def)

lemma merge_revision_frames [simp]:
  "z_Path (merge_revision d z) = z_Path z" "z_LastSigned (merge_revision d z) = z_LastSigned z"
  "z_KSK (merge_revision d z) = z_KSK z" "z_ZSK (merge_revision d z) = z_ZSK z"
  "z_Rollover (merge_revision d z) = z_Rollover z"
  "z_PendingPublication (merge_revision d z) = z_PendingPublication z"
  "z_PublishedGenerationSignedAt (merge_revision d z) = z_PublishedGenerationSignedAt z"
  "z_DNSKEYCacheHorizon (merge_revision d z) = z_DNSKEYCacheHorizon z"
  "z_RRSIGCacheHorizon (merge_revision d z) = z_RRSIGCacheHorizon z"
  by (simp_all add: merge_revision_def)

definition both_changed :: "zone_state \<Rightarrow> zone_state \<Rightarrow> zone_state \<Rightarrow> bool" where
  "both_changed b d m \<longleftrightarrow> (z_Revision d \<noteq> z_Revision b \<or> \<not> zoneContentEqual d b) \<and> \<not> zoneContentEqual m b"

lemma mergeZone_disk_same:
  "z_Revision d = z_Revision b \<Longrightarrow> zoneContentEqual d b \<Longrightarrow> mergeZone b d m = m"
  by (simp add: mergeZone_def)

lemma mergeZone_memory_same:
  "z_Revision d \<noteq> z_Revision b \<or> \<not> zoneContentEqual d b \<Longrightarrow> zoneContentEqual m b \<Longrightarrow> mergeZone b d m = d"
  by (simp add: mergeZone_def)

lemma mergeZone_cases:
  obtains (memory) "mergeZone b d m = m" "zoneContentEqual d b"
  | (disk) "mergeZone b d m = d" "zoneContentEqual m b"
  | (both) "both_changed b d m"
  unfolding both_changed_def
  using mergeZone_disk_same [of d b m] mergeZone_memory_same [of d b m] by blast

lemma mergeZone_both:
  "both_changed b d m \<Longrightarrow> mergeZone b d m = merge_force b d m (merge_diag b d m (merge_pub b d m
     (merge_keys b d (merge_sign b d m (merge_revision d m)))))"
  unfolding mergeZone_def both_changed_def by auto

lemma merge_signing:
  assumes "both_changed b d m"
  shows "z_Path (mergeZone b d m) = (if sign_from_disk b d m then z_Path d else z_Path m)"
    and "z_LastSigned (mergeZone b d m) = (if sign_from_disk b d m then z_LastSigned d else z_LastSigned m)"
  by (simp_all add: mergeZone_both [OF assms], simp_all add: merge_sign_def copySigning_def)

lemma merge_key_fields:
  assumes "both_changed b d m"
  shows "z_KSK (mergeZone b d m) = (if keysRolloverEqual d b then z_KSK m else z_KSK d)"
    and "z_ZSK (mergeZone b d m) = (if keysRolloverEqual d b then z_ZSK m else z_ZSK d)"
    and "z_Rollover (mergeZone b d m) = (if keysRolloverEqual d b then z_Rollover m else z_Rollover d)"
  by (simp_all add: mergeZone_both [OF assms], simp_all add: merge_keys_def copyKeysRollover_def)

lemma merge_horizons:
  assumes "both_changed b d m"
  shows "z_DNSKEYCacheHorizon (mergeZone b d m) =
      (if publicationEqual d b then z_DNSKEYCacheHorizon m
       else if publicationEqual m b then z_DNSKEYCacheHorizon d
       else max (z_DNSKEYCacheHorizon d) (z_DNSKEYCacheHorizon m))"
    and "z_RRSIGCacheHorizon (mergeZone b d m) =
      (if publicationEqual d b then z_RRSIGCacheHorizon m
       else if publicationEqual m b then z_RRSIGCacheHorizon d
       else max (z_RRSIGCacheHorizon d) (z_RRSIGCacheHorizon m))"
  by (simp_all add: mergeZone_both [OF assms],
      simp_all add: merge_pub_def Let_def recompute_pending_def copyPublication_def
        mergePublication_def laterTime_def max_def)

text \<open>The confirmed generation and the pending flag of the merged record.\<close>

lemma merge_generation:
  assumes "both_changed b d m"
  shows "z_PublishedGenerationSignedAt (mergeZone b d m) =
      (if publicationEqual d b then z_PublishedGenerationSignedAt m
       else if publicationEqual m b then z_PublishedGenerationSignedAt d
       else max (z_PublishedGenerationSignedAt d) (z_PublishedGenerationSignedAt m))"
  by (simp add: mergeZone_both [OF assms],
      simp add: merge_pub_def Let_def recompute_pending_def copyPublication_def
        mergePublication_def max_def)

lemma merge_pending:
  assumes "both_changed b d m"
  shows "z_PendingPublication (mergeZone b d m) \<longleftrightarrow>
    (if publicationEqual d b \<and> (publicationEqual m b \<or> \<not> sign_from_disk b d m) then z_PendingPublication m
     else if \<not> publicationEqual d b \<and> publicationEqual m b \<and> sign_from_disk b d m then z_PendingPublication d
     else z_PublishedGenerationSignedAt (mergeZone b d m) < z_LastSigned (mergeZone b d m))"
  by (simp add: mergeZone_both [OF assms],
      simp add: merge_pub_def Let_def recompute_pending_def copyPublication_def
        mergePublication_def)

text \<open>Both sides grew out of the base: neither lowered a horizon.\<close>

definition horizons_ge :: "zone_state \<Rightarrow> zone_state \<Rightarrow> bool" where
  "horizons_ge a b \<longleftrightarrow> z_DNSKEYCacheHorizon b \<le> z_DNSKEYCacheHorizon a \<and>
     z_RRSIGCacheHorizon b \<le> z_RRSIGCacheHorizon a"

lemma content_horizons:
  "zoneContentEqual a b \<Longrightarrow> z_DNSKEYCacheHorizon a = z_DNSKEYCacheHorizon b \<and>
     z_RRSIGCacheHorizon a = z_RRSIGCacheHorizon b"
  by (simp add: zoneContentEqual_def publicationEqual_def)

lemma merge_horizons_max:
  assumes "horizons_ge d b" and "horizons_ge m b"
  shows "z_DNSKEYCacheHorizon (mergeZone b d m) = max (z_DNSKEYCacheHorizon d) (z_DNSKEYCacheHorizon m)"
    and "z_RRSIGCacheHorizon (mergeZone b d m) = max (z_RRSIGCacheHorizon d) (z_RRSIGCacheHorizon m)"
proof -
  have "z_DNSKEYCacheHorizon (mergeZone b d m) = max (z_DNSKEYCacheHorizon d) (z_DNSKEYCacheHorizon m) \<and>
      z_RRSIGCacheHorizon (mergeZone b d m) = max (z_RRSIGCacheHorizon d) (z_RRSIGCacheHorizon m)"
  proof (cases rule: mergeZone_cases [of b d m])
    case memory
    with assms content_horizons [of d b] show ?thesis by (auto simp: horizons_ge_def max_def)
  next
    case disk
    with assms content_horizons [of m b] show ?thesis by (auto simp: horizons_ge_def max_def)
  next
    case both
    with assms merge_horizons [OF both] show ?thesis
      by (auto simp: horizons_ge_def publicationEqual_def max_def)
  qed
  then show "z_DNSKEYCacheHorizon (mergeZone b d m) = max (z_DNSKEYCacheHorizon d) (z_DNSKEYCacheHorizon m)"
    and "z_RRSIGCacheHorizon (mergeZone b d m) = max (z_RRSIGCacheHorizon d) (z_RRSIGCacheHorizon m)"
    by auto
qed

text \<open>
  Each class is taken whole from one side, so the merge of two valid records is valid: the
  live keys always agree with the rollover record they are stored with.
\<close>

lemma zone_ok_split:
  "zone_ok z \<longleftrightarrow>
     (CHR 0x00 \<notin> set (z_Path z) \<and> (z_LastSigned z \<noteq> 0 \<longrightarrow> \<not> blank (z_Path z))) \<and>
     ((\<forall>k. z_KSK z = Some k \<longrightarrow> \<not> blank (k_Algorithm k)) \<and>
      (\<forall>k. z_ZSK z = Some k \<longrightarrow> \<not> blank (k_Algorithm k)) \<and>
      (\<forall>r. z_Rollover z = Some r \<longrightarrow> rollover_ok z r))"
  by (simp add: zone_ok_def)

lemma merge_zone_ok:
  assumes "zone_ok d" and "zone_ok m"
  shows "zone_ok (mergeZone b d m)"
proof (cases rule: mergeZone_cases [of b d m])
  case both
  let ?o = "mergeZone b d m"
  define s where "s = (if sign_from_disk b d m then d else m)"
  define k where "k = (if keysRolloverEqual d b then m else d)"
  have s: "z_Path ?o = z_Path s" "z_LastSigned ?o = z_LastSigned s"
    using merge_signing [OF both] by (simp_all add: s_def)
  have k: "z_KSK ?o = z_KSK k" "z_ZSK ?o = z_ZSK k" "z_Rollover ?o = z_Rollover k"
    using merge_key_fields [OF both] by (simp_all add: k_def)
  have "zone_ok s" "zone_ok k" using assms by (simp_all add: s_def k_def)
  then show ?thesis
    using rollover_ok_cong [OF k(1,2)] unfolding zone_ok_split s k by blast
qed (use assms in simp_all)

text \<open>
  Publication consistency: a zone that is not pending publication has its latest signing
  confirmed served.
\<close>

definition pub_consistent :: "zone_state \<Rightarrow> bool" where
  "pub_consistent z \<longleftrightarrow> (\<not> z_PendingPublication z \<longrightarrow> z_LastSigned z \<le> z_PublishedGenerationSignedAt z)"

lemma merge_pub_consistent:
  assumes "pub_consistent d" and "pub_consistent m"
  shows "pub_consistent (mergeZone b d m)"
proof (cases rule: mergeZone_cases [of b d m])
  case both
  have pe: "z_PendingPublication z = z_PendingPublication b"
      "z_PublishedGenerationSignedAt z = z_PublishedGenerationSignedAt b"
    if "publicationEqual z b" for z using that by (simp_all add: publicationEqual_def)
  show ?thesis
    using assms pe [of d] pe [of m]
    unfolding pub_consistent_def merge_pending [OF both] merge_signing(2) [OF both] merge_generation [OF both]
    by (cases "publicationEqual d b"; cases "publicationEqual m b"; cases "sign_from_disk b d m")
      (simp_all, linarith+)
qed (use assms in simp_all)

subsection \<open>Diagnostics\<close>

lemma set_fold_add_disk_entry:
  "set (fold (add_disk_entry base False) disk out) = set out \<union> (set disk - set base)"
  by (induction disk arbitrary: out) (auto simp: add_disk_entry_def)

text \<open>
  The merged warnings as a set: what both sides still hold, and what either side added.
\<close>

lemma set_mergeDiagnostics:
  "set (mergeDiagnostics base disk mems False) =
     (set disk \<inter> set mems) \<union> (set disk - set base) \<union> (set mems - set base)"
  by (auto simp: mergeDiagnostics_def set_fold_add_disk_entry)

text \<open>Operation-scoped errors: at most the additions and survivors, and every disk addition stays.\<close>

lemma set_add_disk_entry_le: "set (add_disk_entry base op d out) \<subseteq> insert d (set out)"
  by (auto simp: add_disk_entry_def Let_def split: option.splits if_splits)

lemma set_mergeDiagnostics_scoped_le:
  "set (mergeDiagnostics base disk mems op) \<subseteq>
     (set disk \<inter> set mems) \<union> (set disk - set base) \<union> (set mems - set base)"
proof -
  have "set (fold (add_disk_entry base op) ds out) \<subseteq> set out \<union> (set ds - set base)" for ds out
  proof (induction ds arbitrary: out)
    case (Cons d ds)
    have "set (add_disk_entry base op d out) \<subseteq> set out \<union> ({d} - set base)"
      using set_add_disk_entry_le [of base op d out] by (auto simp: add_disk_entry_def Let_def
          split: option.splits if_splits)
    with Cons [of "add_disk_entry base op d out"] show ?case by auto
  qed simp
  then show ?thesis unfolding mergeDiagnostics_def by fastforce
qed

section \<open>Reloading\<close>

text \<open>
  The loops of \<open>ReloadFromDisk\<close> as instances of the keyed loop: each iteration touches
  only its own zone.
\<close>

definition marker_effect ::
  "(string, zone_state) gomap \<Rightarrow> string \<Rightarrow> gotime \<Rightarrow>
   zone_state option \<times> gotime option \<Rightarrow> zone_state option \<times> gotime option" where
  "marker_effect diskZones d ts zr = (case zr of (zo, ro) \<Rightarrow>
     if map_of diskZones d \<noteq> None then (zo, ro)
     else case zo of
         Some mz \<Rightarrow> if ts < z_LastSigned mz then (zo, None) else (None, Some ts)
       | None \<Rightarrow> (None, Some ts))"

definition marker_obs ::
  "(string, zone_state) gomap \<times> (string, gotime) gomap \<Rightarrow> string \<Rightarrow> zone_state option \<times> gotime option" where
  "marker_obs zr d = (map_of (fst zr) d, map_of (snd zr) d)"

interpretation markers: keyed_loop "adopt_marker diskZones" marker_obs "marker_effect diskZones"
  for diskZones
  by unfold_locales
    (auto simp: adopt_marker_def marker_effect_def marker_obs_def update_conv' delete_conv'
      split: prod.splits option.splits)

definition entry_effect ::
  "(string, zone_state) gomap \<Rightarrow> string \<Rightarrow> zone_state \<Rightarrow> zone_state option \<Rightarrow> zone_state option" where
  "entry_effect base d dz zo = Some (case zo of None \<Rightarrow> dz
     | Some mz \<Rightarrow> (case map_of base d of None \<Rightarrow> dz | Some b \<Rightarrow> mergeZone b dz mz))"

interpretation entries: keyed_loop "merge_entry base" map_of "entry_effect base" for base
  by unfold_locales
    (auto simp: merge_entry_def entry_effect_def update_conv' split: option.splits)

lemma gomap_ok_adopt_marker:
  assumes "gomap_ok z" "gomap_ok r"
  shows "gomap_ok (fst (fold (\<lambda>(d, ts). adopt_marker dz d ts) m (z, r)))"
    and "gomap_ok (snd (fold (\<lambda>(d, ts). adopt_marker dz d ts) m (z, r)))"
proof -
  have "gomap_ok (fst (fold (\<lambda>(d, ts). adopt_marker dz d ts) m zr)) \<and>
      gomap_ok (snd (fold (\<lambda>(d, ts). adopt_marker dz d ts) m zr))"
    if "gomap_ok (fst zr)" "gomap_ok (snd zr)" for zr using that
  proof (induction m arbitrary: zr)
    case (Cons p m)
    have "gomap_ok (fst (adopt_marker dz (fst p) (snd p) zr)) \<and> gomap_ok (snd (adopt_marker dz (fst p) (snd p) zr))"
      using Cons.prems by (auto simp: adopt_marker_def split: prod.splits option.splits)
    with Cons.IH [of "adopt_marker dz (fst p) (snd p) zr"] show ?case by (simp add: case_prod_beta)
  qed simp
  with assms show "gomap_ok (fst (fold (\<lambda>(d, ts). adopt_marker dz d ts) m (z, r)))"
    and "gomap_ok (snd (fold (\<lambda>(d, ts). adopt_marker dz d ts) m (z, r)))" by auto
qed

lemma gomap_ok_merge_entry:
  "gomap_ok z \<Longrightarrow> gomap_ok (fold (\<lambda>(d, x). merge_entry base d x) m z)"
  by (induction m arbitrary: z) (auto simp: merge_entry_def split: option.splits)

text \<open>The merge rule for one zone, written on what the four maps hold for it.\<close>

definition reload_zone ::
  "zone_state option \<Rightarrow> gotime option \<Rightarrow> zone_state option \<Rightarrow> zone_state option \<Rightarrow> zone_state option" where
  "reload_zone disk marker base memz = (case disk of
      Some dz \<Rightarrow> Some (case memz of None \<Rightarrow> dz
        | Some mz \<Rightarrow> (case base of None \<Rightarrow> dz | Some b \<Rightarrow> mergeZone b dz mz))
    | None \<Rightarrow> (case memz of None \<Rightarrow> None
        | Some mz \<Rightarrow>
            if (case marker of Some ts \<Rightarrow> z_LastSigned mz \<le> ts | None \<Rightarrow> False) then None
            else (case base of Some b \<Rightarrow> if zoneContentEqual mz b then None else Some mz
                  | None \<Rightarrow> Some mz)))"

definition reload_marker ::
  "zone_state option \<Rightarrow> gotime option \<Rightarrow> zone_state option \<Rightarrow> gotime option \<Rightarrow> gotime option" where
  "reload_marker disk marker memz memr = (case disk of Some _ \<Rightarrow> None
    | None \<Rightarrow> (case marker of None \<Rightarrow> memr
        | Some ts \<Rightarrow> (case memz of Some mz \<Rightarrow> if ts < z_LastSigned mz then None else Some ts
                     | None \<Rightarrow> Some ts)))"

definition state_ok :: "state \<Rightarrow> bool" where
  "state_ok s \<longleftrightarrow> gomap_ok (s_Zones s) \<and> gomap_ok (s_Removed s) \<and> gomap_ok (s_base s)"

lemma marker_loop:
  assumes "gomap_ok dr"
  shows "marker_obs (fold (\<lambda>(d, ts). adopt_marker dz d ts) dr zr) d =
    (case map_of dr d of None \<Rightarrow> marker_obs zr d | Some ts \<Rightarrow> marker_effect dz d ts (marker_obs zr d))"
  using markers.loop_obs [OF assms] by (simp add: case_prod_eta)

lemma reload_merge_lookup:
  assumes "gomap_ok dz" "gomap_ok dr" "state_ok m"
  shows "map_of (s_Zones (reload_merge dz dr m)) d =
      reload_zone (map_of dz d) (map_of dr d) (map_of (s_base m) d) (map_of (s_Zones m) d)"
    and "map_of (s_Removed (reload_merge dz dr m)) d =
      reload_marker (map_of dz d) (map_of dr d) (map_of (s_Zones m) d) (map_of (s_Removed m) d)"
proof -
  define zr where "zr = fold (\<lambda>(d, ts). adopt_marker dz d ts) dr (s_Zones m, s_Removed m)"
  have mo: "gomap_ok (s_Zones m)" "gomap_ok (s_Removed m)" using assms(3) by (auto simp: state_ok_def)
  have ok: "gomap_ok (fst zr)" "gomap_ok (snd zr)"
    using gomap_ok_adopt_marker [OF mo] by (simp_all add: zr_def)
  have obs: "(map_of (fst zr) d, map_of (snd zr) d) =
      (case map_of dr d of None \<Rightarrow> (map_of (s_Zones m) d, map_of (s_Removed m) d)
       | Some ts \<Rightarrow> marker_effect dz d ts (map_of (s_Zones m) d, map_of (s_Removed m) d))"
    using marker_loop [OF assms(2), of dz "(s_Zones m, s_Removed m)" d]
    unfolding zr_def marker_obs_def fst_conv snd_conv .
  define z2 where "z2 = fold (\<lambda>(d, z). merge_entry (s_base m) d z) dz (fst zr)"
  have ok2: "gomap_ok z2" using ok(1) by (simp add: z2_def gomap_ok_merge_entry)
  have z2: "map_of z2 d = (case map_of dz d of None \<Rightarrow> map_of (fst zr) d
      | Some v \<Rightarrow> entry_effect (s_base m) d v (map_of (fst zr) d))"
    using entries.loop_obs [OF assms(1)] by (simp add: z2_def)
  have eq: "reload_merge dz dr m = \<lparr>s_Zones = filter (\<lambda>(d, z). map_of dz d \<noteq> None \<or>
      (case map_of (s_base m) d of Some b \<Rightarrow> \<not> zoneContentEqual z b | None \<Rightarrow> True)) z2,
      s_Removed = filter (\<lambda>(d, ts). map_of dz d = None) (snd zr), s_fileSeen = True, s_base = dz\<rparr>"
    by (simp add: reload_merge_def zr_def z2_def case_prod_beta Let_def)
  show "map_of (s_Zones (reload_merge dz dr m)) d =
      reload_zone (map_of dz d) (map_of dr d) (map_of (s_base m) d) (map_of (s_Zones m) d)"
    using obs z2 by (auto simp: eq map_of_filter_key [OF ok2] reload_zone_def entry_effect_def
        marker_effect_def split: option.splits if_splits)
  show "map_of (s_Removed (reload_merge dz dr m)) d =
      reload_marker (map_of dz d) (map_of dr d) (map_of (s_Zones m) d) (map_of (s_Removed m) d)"
    using obs by (auto simp: eq map_of_filter_key [OF ok(2)] reload_marker_def
        marker_effect_def split: option.splits if_splits)
qed

lemma state_ok_reload_merge:
  assumes "gomap_ok dz" "state_ok m"
  shows "state_ok (reload_merge dz dr m)"
proof -
  have mo: "gomap_ok (s_Zones m)" "gomap_ok (s_Removed m)" using assms(2) by (auto simp: state_ok_def)
  from gomap_ok_adopt_marker [OF mo] gomap_ok_merge_entry assms(1) show ?thesis
    by (simp add: state_ok_def reload_merge_def case_prod_beta Let_def)
qed

end
