(* ===== verification/State_Save.thy ===== *)
theory State_Save
  imports State_Merge
begin

text \<open>
  Saving and loading: the state file holds a complete document after every save attempt, a
  successful save and a load are inverse, and the per-zone revision advances exactly when
  the zone's content changed.
\<close>

section \<open>Outcomes of Save\<close>

lemma Save_commit_comm:
  "(\<lambda>w::world. w\<lparr>sfile := f\<rparr>) (w\<lparr>tick := t\<rparr>) = ((\<lambda>w. w\<lparr>sfile := f\<rparr>) w)\<lparr>tick := t\<rparr>"
  "halted ((\<lambda>w::world. w\<lparr>sfile := f\<rparr>) w) = halted w"
  by simp_all

text \<open>The in-memory state after a committed save.\<close>

definition saved :: "state \<Rightarrow> state" where
  "saved m = (bump_revisions m)\<lparr>s_fileSeen := True, s_base := s_Zones (bump_revisions m)\<rparr>"

lemma Save_cases:
  obtains (ok) t where "Save env w = (Inr (), w\<lparr>mem := saved (mem w),
        sfile := Doc (marshal (bump_revisions (mem w))), tick := t, halted := False\<rparr>)" "\<not> halted w"
  | (uncertain) e t where "Save env w = (Inl e, w\<lparr>mem := saved (mem w),
        sfile := Doc (marshal (bump_revisions (mem w))), tick := t, halted := False\<rparr>)"
        "IsCommitted e" "\<not> halted w"
  | (stopped) e t where "Save env w = (Inl e, w\<lparr>mem := bump_revisions (mem w),
        sfile := Doc (marshal (bump_revisions (mem w))), tick := t, halted := True\<rparr>)" "\<not> IsCommitted e" "\<not> halted w"
  | (failed) e t h where "Save env w = (Inl e, w\<lparr>mem := bump_revisions (mem w), tick := t, halted := h\<rparr>)"
        "\<not> IsCommitted e"
proof -
  let ?s = "bump_revisions (mem w)"
  let ?w = "upd_mem bump_revisions w"
  have m: "mem ?w = ?s" by (simp add: upd_mem_def)
  show ?thesis
  proof (rule replace_atomic_cases [where commit = "\<lambda>w. w\<lparr>sfile := Doc (marshal ?s)\<rparr>"
        and env = env and p = "''state.json''" and w = ?w, OF Save_commit_comm])
    fix r t h
    assume "replace_atomic env ''state.json'' (\<lambda>w. w\<lparr>sfile := Doc (marshal ?s)\<rparr>) ?w =
        (r, ?w\<lparr>sfile := Doc (marshal ?s), tick := t, halted := h\<rparr>)"
      "r = Inr () \<and> \<not> h \<or> r = Inl (DurabilityError ''state.json'') \<and> \<not> h \<or> r = Inl crashed \<and> h"
      "\<not> halted ?w"
    then show ?thesis using ok [of t] uncertain [of _ t] stopped [of _ t]
      by (elim disjE conjE) (auto simp: Save_def op_bind_apply op_try_apply m upd_mem_def saved_def)
  next
    fix e t h
    assume "replace_atomic env ''state.json'' (\<lambda>w. w\<lparr>sfile := Doc (marshal ?s)\<rparr>) ?w =
        (Inl e, ?w\<lparr>tick := t, halted := h\<rparr>)" "\<not> IsCommitted e"
    then show ?thesis using failed [where t = t and h = h]
      by (auto simp: Save_def op_bind_apply op_try_apply m upd_mem_def)
  qed
qed

text \<open>The state file is never torn: after any save it is the old file or the new document.\<close>

lemma Save_file:
  "sfile (snd (Save env w)) = sfile w \<or> sfile (snd (Save env w)) = Doc (marshal (bump_revisions (mem w)))"
  by (cases rule: Save_cases [of env w]) simp_all

lemma Save_files [simp]: "files (snd (Save env w)) = files w"
  by (cases rule: Save_cases [of env w]) simp_all

lemma Save_uncommitted_file:
  assumes "Save env w = (Inl e, w')" "\<not> IsCommitted e" "\<not> halted w'"
  shows "sfile w' = sfile w"
  using assms by (cases rule: Save_cases [of env w]) auto

text \<open>Only revisions of in-memory zones change.\<close>

lemma bump_revision_content [simp]: "zoneContentEqual (bump_revision b n z) z"
  by (cases z) (simp add: bump_revision_def zoneContentEqual_iff split: option.split)

lemma bump_revision_fields [simp]:
  "(bump_revision b n z)\<lparr>z_Revision := 0\<rparr> = z\<lparr>z_Revision := 0\<rparr>"
  using bump_revision_content [of b n z] by (simp only: zoneContentEqual_iff)

lemma map_of_map_val: "map_of (map (\<lambda>(k, v). (k, f k v)) m) k = map_option (f k) (map_of m k)"
  by (induction m) auto

lemma GetZone_bump_revisions:
  "GetZone d (bump_revisions s) = map_option (bump_revision (s_base s) d) (GetZone d s)"
  by (simp add: GetZone_def bump_revisions_def map_of_map_val)

section \<open>Revisions\<close>

lemma bump_revision_advances:
  assumes "map_of base n = Some b" "\<not> zoneContentEqual z b"
    and "z_Revision z \<noteq> -1" "z_Revision b \<noteq> -1"
  shows "z_Revision b < z_Revision (bump_revision base n z)"
    and "z_Revision z < z_Revision (bump_revision base n z)"
proof -
  show "z_Revision b < z_Revision (bump_revision base n z)"
    "z_Revision z < z_Revision (bump_revision base n z)"
    using assms word_less_succ [of "z_Revision z"] word_less_succ [of "z_Revision b"]
    by (auto simp: bump_revision_def not_less)
qed

lemma bump_revision_same:
  "map_of base n = Some b \<Longrightarrow> zoneContentEqual z b \<Longrightarrow> bump_revision base n z = z"
  by (simp add: bump_revision_def)

section \<open>Loading what was saved\<close>

text \<open>A state whose document passes validation.\<close>

definition valid_state :: "(string \<Rightarrow> bool) \<Rightarrow> state \<Rightarrow> bool" where
  "valid_state isDN s \<longleftrightarrow>
     (\<forall>(n, z) \<in> set (s_Zones s). \<not> blank n \<and> isDN n \<and> zone_ok z) \<and>
     (\<forall>(n, t) \<in> set (s_Removed s). \<not> blank n)"

lemma validate_marshal:
  "validateAndNormalize isDN (marshal s) =
     (if valid_state isDN s then Inr (s_Zones s, s_Removed s) else validateAndNormalize isDN (marshal s))"
proof (cases "valid_state isDN s")
  case True
  have rem: "nil_map (d_Removed (marshal s)) = s_Removed s"
    by (simp add: marshal_def nil_map_def)
  have zon: "nil_map (d_Zones (marshal s)) = map (\<lambda>(n, z). (n, Some z)) (s_Zones s)"
    by (simp add: marshal_def nil_map_def)
  have "check_each checkRemovedName (s_Removed s) = Inr ()"
    using True by (auto simp: check_each_iff checkRemovedName_def valid_state_def)
  moreover have "check_each (\<lambda>(n, z). validateZoneEntry isDN n z) (map (\<lambda>(n, z). (n, Some z)) (s_Zones s)) = Inr ()"
    using True by (auto simp: check_each_iff validateZoneEntry_iff valid_state_def)
  moreover have "map (\<lambda>(n, z). (n, the z)) (map (\<lambda>(n, z). (n, Some z)) (s_Zones s)) = s_Zones s"
    by (simp add: comp_def case_prod_beta)
  ultimately show ?thesis using True
    by (simp add: validateAndNormalize_def rem zon Let_def)
qed simp

lemma LoadState_marshal:
  assumes "valid_state isDN s"
  shows "LoadState isDN (Doc (marshal s)) =
    Inr \<lparr>s_Zones = s_Zones s, s_Removed = s_Removed s, s_fileSeen = True, s_base = s_Zones s\<rparr>"
  using validate_marshal [of isDN s] assms by (simp add: LoadState_def)

lemma valid_state_bump [simp]: "valid_state isDN (bump_revisions s) = valid_state isDN s"
proof -
  have "zone_ok (bump_revision b n z) = zone_ok z" for b n z
    by (simp add: bump_revision_def split: option.split)
  then show ?thesis by (auto simp: valid_state_def bump_revisions_def)
qed

text \<open>What a loaded state satisfies.\<close>

lemma validateAndNormalize_valid:
  assumes "validateAndNormalize isDN d = Inr (zones, removed)"
  shows "valid_state isDN \<lparr>s_Zones = zones, s_Removed = removed, s_fileSeen = b, s_base = c\<rparr>"
proof -
  from assms have r: "check_each checkRemovedName removed = Inr ()"
    and z: "check_each (\<lambda>(n, z). validateZoneEntry isDN n z) (nil_map (d_Zones d)) = Inr ()"
    and eq: "zones = map (\<lambda>(n, z). (n, the z)) (nil_map (d_Zones d))"
    by (auto simp: validateAndNormalize_def Let_def check_each_Inr split: sum.splits)
  show ?thesis using r z unfolding eq
    by (fastforce simp: valid_state_def check_each_iff validateZoneEntry_iff checkRemovedName_def
        split: if_splits)
qed

lemma valid_NewState: "valid_state isDN NewState"
  by (simp add: valid_state_def NewState_def)

lemma LoadState_valid: "LoadState isDN f = Inr s \<Longrightarrow> valid_state isDN s"
  by (auto simp: LoadState_def valid_NewState dest!: validateAndNormalize_valid
      split: state_file.splits sum.splits)

end
