(* ===== verification/Rollover_Logic.thy ===== *)
theory Rollover_Logic
  imports Rollover Key_Safety State_Save
begin

text \<open>
  A logic for handlers that work on one zone of the state. A triple says what every outcome
  of an operation, success, error or stop, leaves of the zone's record; it speaks of the
  record up to its revision and its diagnostics, which every save and every warning may
  change. The rules follow the control flow of the handlers.
\<close>

definition zview :: "zone_state \<Rightarrow> zone_state" where
  "zview z = z\<lparr>z_Revision := 0, z_Warnings := [], z_Errors := []\<rparr>"

definition zat :: "string \<Rightarrow> (zone_state \<Rightarrow> bool) \<Rightarrow> world \<Rightarrow> bool" where
  "zat domain P w \<longleftrightarrow> (\<exists>z. GetZone domain (mem w) = Some z \<and> P (zview z))"

definition triple ::
  "string \<Rightarrow> (zone_state \<Rightarrow> bool) \<Rightarrow> (world, 'a) op \<Rightarrow> (error + 'a \<Rightarrow> zone_state \<Rightarrow> bool) \<Rightarrow> bool" where
  "triple domain P m Q \<longleftrightarrow> (\<forall>w r w'. zat domain P w \<longrightarrow> m w = (r, w') \<longrightarrow> zat domain (Q r) w')"

lemma tripleI: "(\<And>w r w'. zat domain P w \<Longrightarrow> m w = (r, w') \<Longrightarrow> zat domain (Q r) w') \<Longrightarrow> triple domain P m Q"
  by (simp add: triple_def)

lemma tripleD: "triple domain P m Q \<Longrightarrow> zat domain P w \<Longrightarrow> m w = (r, w') \<Longrightarrow> zat domain (Q r) w'"
  by (simp add: triple_def)

lemma zat_mono: "zat domain P w \<Longrightarrow> (\<And>z. P z \<Longrightarrow> Q z) \<Longrightarrow> zat domain Q w"
  by (auto simp: zat_def)

lemma look_bind: "op_bind (look domain) f w = f (GetZone domain (mem w)) w"
  by (simp add: look_def op_bind_def)

lemma clock_bind: "op_bind (clock env) f w = f (now_at env (tick w)) (w\<lparr>tick := Suc (tick w)\<rparr>)"
  by (simp add: clock_def op_bind_def)

section \<open>What the view shows\<close>

lemma zview_fields [simp]:
  "z_Rollover (zview z) = z_Rollover z" "z_KSK (zview z) = z_KSK z" "z_ZSK (zview z) = z_ZSK z"
  "z_PublishedAt (zview z) = z_PublishedAt z" "z_ForceResign (zview z) = z_ForceResign z"
  "z_PublishedGenerationSignedAt (zview z) = z_PublishedGenerationSignedAt z"
  "z_DNSKEYCacheHorizon (zview z) = z_DNSKEYCacheHorizon z" "z_RRSIGCacheHorizon (zview z) = z_RRSIGCacheHorizon z"
  "z_PublishedDNSKEYTTL (zview z) = z_PublishedDNSKEYTTL z"
  "z_PublishedMaxRRSIGTTL (zview z) = z_PublishedMaxRRSIGTTL z"
  "z_LastSigned (zview z) = z_LastSigned z" "z_Path (zview z) = z_Path z"
  by (simp_all add: zview_def)

lemma zview_idem [simp]: "zview (zview z) = zview z"
  by (simp add: zview_def)

lemma zview_diag [simp]:
  "zview (z\<lparr>z_Revision := v\<rparr>) = zview z" "zview (z\<lparr>z_Warnings := ws\<rparr>) = zview z" "zview (z\<lparr>z_Errors := es\<rparr>) = zview z"
  "zview (ClearTransientWarnings z) = zview z" "zview (AddWarning m z) = zview z"
  by (simp_all add: zview_def ClearTransientWarnings_def AddWarning_def)

lemma zview_upd [simp]:
  "zview (z\<lparr>z_Rollover := r\<rparr>) = (zview z)\<lparr>z_Rollover := r\<rparr>"
  "zview (z\<lparr>z_KSK := k\<rparr>) = (zview z)\<lparr>z_KSK := k\<rparr>"
  "zview (z\<lparr>z_ZSK := k\<rparr>) = (zview z)\<lparr>z_ZSK := k\<rparr>"
  "zview (z\<lparr>z_ForceResign := b\<rparr>) = (zview z)\<lparr>z_ForceResign := b\<rparr>"
  by (simp_all add: zview_def)

lemma zview_upd_rollover [simp]: "zview (upd_rollover f z) = upd_rollover f (zview z)"
  by (simp add: upd_rollover_def)

lemma PublishedSince_view [simp]: "PublishedSince (zview z) t = PublishedSince z t"
  by (simp add: PublishedSince_def)

lemma zone_ok_view [simp]: "zone_ok (zview z) = zone_ok z"
  by (simp add: zview_def)

lemma zview_bump [simp]: "zview (bump_revision b n z) = zview z"
  by (simp add: bump_revision_def split: option.split)

section \<open>Rules\<close>

lemma triple_weaken:
  "triple domain P m Q \<Longrightarrow> (\<And>z. P' z \<Longrightarrow> P z) \<Longrightarrow> (\<And>r z. Q r z \<Longrightarrow> Q' r z) \<Longrightarrow> triple domain P' m Q'"
  unfolding triple_def zat_def by blast

lemma triple_ok: "(\<And>z. P z \<Longrightarrow> Q (Inr x) z) \<Longrightarrow> triple domain P (op_ok x) Q"
  by (auto simp: triple_def zat_def)

lemma triple_fail: "(\<And>z. P z \<Longrightarrow> Q (Inl e) z) \<Longrightarrow> triple domain P (op_fail e) Q"
  by (auto simp: triple_def zat_def)

lemma triple_bind:
  assumes "triple domain P m M" and "\<And>e z. M (Inl e) z \<Longrightarrow> Q (Inl e) z" and "\<And>x. triple domain (M (Inr x)) (f x) Q"
  shows "triple domain P (op_bind m f) Q"
proof (rule tripleI)
  fix w r w'
  assume p: "zat domain P w" and b: "op_bind m f w = (r, w')"
  from b show "zat domain (Q r) w'"
  proof (cases rule: op_bind_cases)
    case (failed e)
    then show ?thesis using tripleD [OF assms(1) p failed(1)] assms(2) zat_mono by blast
  next
    case (next_step x w1)
    then show ?thesis using tripleD [OF assms(1) p next_step(1)] tripleD [OF assms(3)] by blast
  qed
qed

lemma triple_try:
  assumes "triple domain P m M" and "\<And>r. triple domain (M r) (f r) Q"
  shows "triple domain P (op_try m f) Q"
proof (rule tripleI)
  fix w r w'
  assume p: "zat domain P w" and t: "op_try m f w = (r, w')"
  obtain q w1 where m: "m w = (q, w1)" by (cases "m w")
  from t m have "f q w1 = (r, w')" by (simp add: op_try_def)
  then show "zat domain (Q r) w'" using tripleD [OF assms(1) p m] tripleD [OF assms(2)] by blast
qed

lemma triple_wrap:
  assumes "triple domain P m (\<lambda>r. Q (case r of Inl e \<Rightarrow> Inl (Wrap s e) | Inr x \<Rightarrow> Inr x))"
  shows "triple domain P (op_wrap s m) Q"
proof (rule tripleI)
  fix w r w'
  assume p: "zat domain P w" and t: "op_wrap s m w = (r, w')"
  obtain q w1 where m: "m w = (q, w1)" by (cases "m w")
  from tripleD [OF assms p m] t m show "zat domain (Q r) w'"
    by (auto simp: op_wrap_apply split: sum.splits)
qed

lemma triple_if: "(c \<Longrightarrow> triple domain P a Q) \<Longrightarrow> (\<not> c \<Longrightarrow> triple domain P b Q) \<Longrightarrow> triple domain P (if c then a else b) Q"
  by simp

lemma triple_with_rollover:
  assumes "\<And>z r. P (zview z) \<Longrightarrow> z_Rollover z = Some r \<Longrightarrow> triple domain (\<lambda>v. v = zview z) (f z r) Q"
    and "\<And>z. P z \<Longrightarrow> z_Rollover z = None \<Longrightarrow> Q (Inr d) z"
  shows "triple domain P (with_rollover domain f d) Q"
proof (rule tripleI)
  fix w r w'
  assume "zat domain P w" and t: "with_rollover domain f d w = (r, w')"
  then obtain z where z: "GetZone domain (mem w) = Some z" "P (zview z)" by (auto simp: zat_def)
  show "zat domain (Q r) w'"
  proof (cases "z_Rollover z")
    case None
    then have "r = Inr d" "w' = w" using t z(1) by (simp_all add: with_rollover_def look_def op_bind_def)
    then show ?thesis using z None assms(2) [of "zview z"] by (auto simp: zat_def)
  next
    case (Some ro)
    then have "f z ro w = (r, w')" using t z(1) by (simp add: with_rollover_def look_def op_bind_def)
    moreover have "zat domain (\<lambda>v. v = zview z) w" using z(1) by (auto simp: zat_def)
    ultimately show ?thesis using tripleD [OF assms(1) [OF z(2) Some]] by blast
  qed
qed

lemma triple_look:
  assumes "\<And>z. P (zview z) \<Longrightarrow> triple domain (\<lambda>v. v = zview z) (f (Some z)) Q"
  shows "triple domain P (op_bind (look domain) f) Q"
proof (rule tripleI)
  fix w r w'
  assume "zat domain P w" and t: "op_bind (look domain) f w = (r, w')"
  then obtain z where z: "GetZone domain (mem w) = Some z" "P (zview z)" by (auto simp: zat_def)
  then have "f (Some z) w = (r, w')" using t by (simp add: look_def op_bind_def)
  moreover have "zat domain (\<lambda>v. v = zview z) w" using z(1) by (auto simp: zat_def)
  ultimately show "zat domain (Q r) w'" using tripleD [OF assms [OF z(2)]] by blast
qed

lemma GetZone_Mutate:
  "GetZone domain (UpdateZone domain f s) = map_option f (GetZone domain s)"
  by (simp add: GetZone_def UpdateZone_def update_conv' split: option.split)

lemma triple_Mutate:
  assumes "\<And>z. P (zview z) \<Longrightarrow> Q (Inr ()) (zview (f z))"
  shows "triple domain P (Mutate domain f) Q"
  unfolding triple_def zat_def Mutate_def using assms
  by (auto simp: upd_mem_def GetZone_Mutate)

lemma mem_saved: "GetZone d (saved m) = GetZone d (bump_revisions m)"
  by (simp add: saved_def GetZone_def)

lemma Save_zone: "\<exists>z'. GetZone domain (mem (snd (Save env w))) = map_option z' (GetZone domain (mem w)) \<and> (\<forall>z. zview (z' z) = zview z)"
  by (rule exI [of _ "bump_revision (s_base (mem w)) domain"], cases rule: Save_cases [of env w])
    (simp_all add: mem_saved GetZone_bump_revisions)

lemma triple_Save: "triple domain P (Save env) (\<lambda>_. P)"
proof (rule tripleI)
  fix w r w'
  assume "zat domain P w" and s: "Save env w = (r, w')"
  then obtain z where "GetZone domain (mem w) = Some z" "P (zview z)" by (auto simp: zat_def)
  moreover obtain z' where "GetZone domain (mem w') = map_option z' (GetZone domain (mem w))" "\<And>z. zview (z' z) = zview z"
    using Save_zone [of domain env w] s by auto
  ultimately show "zat domain P w'" by (auto simp: zat_def)
qed

lemma triple_clock: "triple domain P (clock env) (\<lambda>r z. P z \<and> (\<exists>t. r = Inr (now_at env t)))"
  by (auto simp: triple_def zat_def clock_def)

text \<open>The key-file transactions leave the state alone.\<close>

lemma mem_of_rest: "same_rest w w' \<Longrightarrow> mem w' = mem w"
  for w w' :: world
  by (cases w; cases w') (simp add: same_rest_def)

lemma triple_rest: "keeps same_rest m \<Longrightarrow> triple domain P m (\<lambda>_. P)"
  unfolding triple_def zat_def using keepsD mem_of_rest by metis

end
