(* ===== verification/Key_Format_Laws.thy ===== *)
theory Key_Format_Laws
  imports Key_Format
begin

text \<open>
  Laws of the key formats: base64 and the private-key file round-trip, the reduction of an
  expanded ED25519 key keeps the pair, and generated material corresponds.
\<close>

section \<open>Base64\<close>

lemma b64_symbols:
  "list_all (\<lambda>n. b64_val (b64_char n) = Some n \<and> b64_char n \<notin> {CHR ''='', CHR '':'', CHR 0x0A, CHR 0x0D}) [0..<64]"
  by code_simp

lemma b64_symbol:
  assumes "n < 64"
  shows "b64_val (b64_char n) = Some n" "b64_char n \<noteq> CHR ''=''" "b64_char n \<noteq> CHR '':''"
    "b64_char n \<noteq> CHR 0x0A" "b64_char n \<noteq> CHR 0x0D"
  using b64_symbols assms by (auto simp: list_all_iff)

lemma b64_char_mod: "b64_char n = b64_char (n mod 64)"
  by (simp add: b64_char_def)

lemma b64_char_plain: "b64_char n \<notin> {CHR ''='', CHR '':'', CHR 0x0A, CHR 0x0D}"
  using b64_symbol(2-) [of "n mod 64"] by (simp flip: b64_char_mod)

lemma byte_lt: "byte_val c < 256"
  by (rule nat_of_char_less_256)

lemma sextet_split:
  fixes a b c :: nat
  assumes "a < 256" "b < 256" "c < 256"
  shows "a div 4 < 64" "a mod 4 * 16 + b div 16 < 64" "b mod 16 * 4 + c div 64 < 64" "c mod 64 < 64"
    and "a div 4 * 4 + (a mod 4 * 16 + b div 16) div 16 = a"
    and "(a mod 4 * 16 + b div 16) mod 16 * 16 + (b mod 16 * 4 + c div 64) div 4 = b"
    and "(b mod 16 * 4 + c div 64) mod 4 * 64 + c mod 64 = c"
proof -
  have b: "b div 16 < 16" and c: "c div 64 < 4" using assms by (auto simp: less_mult_imp_div_less)
  have m: "a mod 4 < 4" "b mod 16 < 16" by simp_all
  show "a div 4 < 64" "c mod 64 < 64" using assms by (auto simp: less_mult_imp_div_less)
  show "a mod 4 * 16 + b div 16 < 64" "b mod 16 * 4 + c div 64 < 64" using b c m by linarith+
  show "a div 4 * 4 + (a mod 4 * 16 + b div 16) div 16 = a" using b by simp
  show "(a mod 4 * 16 + b div 16) mod 16 * 16 + (b mod 16 * 4 + c div 64) div 4 = b" using b c by simp
  show "(b mod 16 * 4 + c div 64) mod 4 * 64 + c mod 64 = c" using c by simp
qed

lemma b64_quads_encode: "b64_quads (b64_encode s) = Some s"
proof (induction s rule: b64_encode.induct)
  case (2 a)
  show ?case using sextet_split [OF byte_lt [of a], of 0 0] by (simp add: b64_symbol)
next
  case (3 a b)
  show ?case using sextet_split [OF byte_lt [of a] byte_lt [of b], of 0] by (simp add: b64_symbol)
next
  case (4 a b c s)
  show ?case using sextet_split [OF byte_lt [of a] byte_lt [of b] byte_lt [of c]] 4 by (simp add: b64_symbol)
qed simp

lemma b64_encode_chars: "c \<in> set (b64_encode s) \<Longrightarrow> c \<notin> {CHR '':'', CHR 0x0A, CHR 0x0D}"
  using b64_char_plain by (induction s rule: b64_encode.induct) auto

lemma b64_decode_encode [simp]: "b64_decode (b64_encode s) = Some s"
proof -
  have "filter (\<lambda>c. c \<noteq> CHR 0x0A \<and> c \<noteq> CHR 0x0D) (b64_encode s) = b64_encode s"
    using b64_encode_chars [of _ s] by (auto simp: filter_id_conv)
  then show ?thesis by (simp add: b64_decode_def b64_quads_encode)
qed

section \<open>Big integers\<close>

lemma length_FillBytes [simp]: "length (FillBytes k n) = k"
  by (induction k arbitrary: n) auto

lemma SetBytes_append: "SetBytes (b @ [c]) = 256 * SetBytes b + byte_val c"
  by (simp add: SetBytes_def)

lemma SetBytes_FillBytes: "n < 256 ^ k \<Longrightarrow> SetBytes (FillBytes k n) = n"
proof (induction k arbitrary: n)
  case 0
  then show ?case by (simp add: SetBytes_def)
next
  case (Suc k)
  then have "n div 256 < 256 ^ k" by (simp add: less_mult_imp_div_less mult.commute)
  then show ?case using Suc.IH [of "n div 256"] by (simp add: SetBytes_append)
qed

section \<open>Private-key files\<close>

subsection \<open>Text without surrounding white space\<close>

definition plain_char :: "char \<Rightarrow> bool" where
  "plain_char c \<longleftrightarrow> byte_val c < 128 \<and> byte_val c \<notin> {9, 10, 11, 12, 13, 32}"

lemma space_len_ascii: "byte_val c < 128 \<Longrightarrow> space_len (c # s) \<le> 1"
  by (auto simp: space_len_def split: list.splits)

lemma space_len_plain: "plain_char c \<Longrightarrow> space_len (c # s) = 0"
  by (auto simp: plain_char_def space_len_def split: list.splits)

lemma last_space_len_plain:
  assumes "s \<noteq> []" and "\<forall>c \<in> set s. byte_val c < 128" and "plain_char (last s)"
  shows "last_space_len s = 0"
proof -
  have "space_len (drop (length s - n) s) \<noteq> n" if n: "n \<in> {1, 2, 3}" "n \<le> length s" for n
  proof (cases "n = 1")
    case True
    have "s = butlast s @ [last s]" using assms(1) by simp
    moreover have "length (butlast s) = length s - n" using True by simp
    ultimately have "drop (length s - n) s = [last s]" by (metis append_eq_conv_conj)
    then show ?thesis using True space_len_plain [OF assms(3)] by simp
  next
    case False
    have "length s - n < length s" using n by auto
    then have "drop (length s - n) s = s ! (length s - n) # drop (Suc (length s - n)) s"
      by (rule Cons_nth_drop_Suc [symmetric])
    moreover have "byte_val (s ! (length s - n)) < 128"
      using assms(2) \<open>length s - n < length s\<close> by (meson nth_mem)
    ultimately have "space_len (drop (length s - n) s) \<le> 1" by (metis space_len_ascii)
    then show ?thesis using False n(1) by auto
  qed
  then have "filter (\<lambda>n. n \<le> length s \<and> space_len (drop (length s - n) s) = n) [1, 2, 3] = []"
    by (auto simp: filter_empty_conv)
  then show ?thesis by (simp add: last_space_len_def)
qed

lemma trim_space_field:
  assumes "\<forall>c \<in> set v. plain_char c"
  shows "trim_space (CHR '' '' # v) = v"
proof -
  have "space_len (CHR '' '' # v) = 1" by (simp add: space_len_def)
  then have l: "trim_left (CHR '' '' # v) = trim_left v"
    by (subst trim_left.simps) simp
  show ?thesis
  proof (cases v)
    case Nil
    have "trim_left [] = []" "trim_right [] = []" by (simp_all add: trim_left.simps trim_right.simps)
    with l Nil show ?thesis by (simp add: trim_space_def)
  next
    case (Cons c r)
    then have "trim_left v = v" using space_len_plain assms by (simp add: trim_left.simps)
    moreover have "trim_right v = v"
      using last_space_len_plain [of v] assms Cons
      by (simp add: trim_right.simps plain_char_def)
    ultimately show ?thesis by (simp add: trim_space_def l)
  qed
qed

lemma b64_plain_all: "list_all (\<lambda>n. plain_char (b64_char n)) [0..<64]"
  by code_simp

lemma b64_char_plain_char: "plain_char (b64_char n)"
  using b64_plain_all by (subst b64_char_mod) (auto simp: list_all_iff)

lemma b64_encode_plain: "c \<in> set (b64_encode s) \<Longrightarrow> plain_char c"
proof -
  have "plain_char (CHR ''='')" by code_simp
  then show "c \<in> set (b64_encode s) \<Longrightarrow> plain_char c"
    using b64_char_plain_char by (induction s rule: b64_encode.induct) auto
qed

subsection \<open>Lines and fields\<close>

lemma split_join_lines:
  "(\<forall>l \<in> set ls. CHR 0x0A \<notin> set l) \<Longrightarrow> split_on (CHR 0x0A) (join_lines ls) = ls @ [[]]"
proof (induction ls)
  case (Cons l ls)
  have "join_lines (l # ls) = l @ CHR 0x0A # join_lines ls" by (simp add: join_lines_def)
  then show ?case using Cons by (simp add: split_on_append split_on_plain)
qed (simp add: join_lines_def)

lemma cut_at_append: "sep \<notin> set a \<Longrightarrow> cut_at sep (a @ sep # b) = Some (a, b)"
  by (induction a) auto

lemma parse_field_private:
  "CHR '':'' \<notin> set name \<Longrightarrow>
   parse_field (private_field name v) flds =
     AList.update (map ascii_lower (trim_space name)) (trim_space (CHR '' '' # v)) flds"
  by (simp add: parse_field_def private_field_def cut_at_append)

lemma digit_not_newline: "CHR 0x0A \<noteq> digit n"
proof
  assume "CHR 0x0A = digit n"
  then have "digit_value (CHR 0x0A) = Some (n mod 10)" by simp
  moreover have "digit_value (CHR 0x0A) = None" by code_simp
  ultimately show False by simp
qed

lemma show_nat_no_newline: "CHR 0x0A \<notin> set (show_nat n)"
proof (induction n rule: show_nat.induct)
  case (1 n)
  then show ?case using digit_not_newline [of n] digit_not_newline [of "n mod 10"]
    by (subst show_nat.simps) (simp del: show_nat.simps)
qed

lemma pad_two_no_newline:
  "CHR 0x0A \<notin> set (pad_zero n (show_int i))" "CHR 0x0A \<notin> set (two i)"
  using show_nat_no_newline by (auto simp: pad_zero_def two_def show_int_def)

lemma fmt_compact_no_newline: "CHR 0x0A \<notin> set (fmt_compact t)"
proof -
  obtain y m d where "civil (t div Second div 86400) = (y, m, d)" by (cases "civil (t div Second div 86400)")
  then show ?thesis using pad_two_no_newline by (simp add: fmt_compact_def Let_def del: set_append) (simp)
qed

lemma field_names:
  "map ascii_lower (trim_space ''Private-key-format'') = ''private-key-format''"
  "map ascii_lower (trim_space ''Algorithm'') = ''algorithm''"
  "map ascii_lower (trim_space ''PrivateKey'') = ''privatekey''"
  "map ascii_lower (trim_space ''Created'') = ''created''"
  by code_simp+

lemma algorithm_field:
  assumes "alg \<in> {ED25519, ECDSAP256SHA256, ECDSAP384SHA384}"
  shows "map_of flds ''algorithm'' =
      Some (trim_space (CHR '' '' # show_nat (unat alg) @ '' ('' @ AlgorithmName alg @ '')'')) \<Longrightarrow>
    privateKeyFileAlgorithm flds = Some alg"
    and "CHR 0x0A \<notin> set (show_nat (unat alg) @ '' ('' @ AlgorithmName alg @ '')'')"
proof -
  have t: "trim_space (CHR '' '' # show_nat (unat ED25519) @ '' ('' @ AlgorithmName ED25519 @ '')'') = ''15 (ED25519)''"
    "trim_space (CHR '' '' # show_nat (unat ECDSAP256SHA256) @ '' ('' @ AlgorithmName ECDSAP256SHA256 @ '')'') = ''13 (ECDSAP256SHA256)''"
    "trim_space (CHR '' '' # show_nat (unat ECDSAP384SHA384) @ '' ('' @ AlgorithmName ECDSAP384SHA384 @ '')'') = ''14 (ECDSAP384SHA384)''"
    by code_simp+
  show "privateKeyFileAlgorithm flds = Some alg" if "map_of flds ''algorithm'' =
      Some (trim_space (CHR '' '' # show_nat (unat alg) @ '' ('' @ AlgorithmName alg @ '')''))"
  proof -
    have "map_of flds ''algorithm'' = Some (if alg = ED25519 then ''15 (ED25519)''
        else if alg = ECDSAP256SHA256 then ''13 (ECDSAP256SHA256)'' else ''14 (ECDSAP384SHA384)'')"
      using that assms t by (elim insertE) (simp_all only: if_True if_False refl, simp_all)
    then show ?thesis using assms
      by (auto simp: privateKeyFileAlgorithm_def parse_uint_def digit_value_def)
  qed
  have "CHR 0x0A \<notin> set (show_nat (unat ED25519) @ '' ('' @ AlgorithmName ED25519 @ '')'')"
    "CHR 0x0A \<notin> set (show_nat (unat ECDSAP256SHA256) @ '' ('' @ AlgorithmName ECDSAP256SHA256 @ '')'')"
    "CHR 0x0A \<notin> set (show_nat (unat ECDSAP384SHA384) @ '' ('' @ AlgorithmName ECDSAP384SHA384 @ '')'')"
    by code_simp+
  then show "CHR 0x0A \<notin> set (show_nat (unat alg) @ '' ('' @ AlgorithmName alg @ '')'')"
    using assms by auto
qed

lemma ParsePrivateKey_format:
  assumes alg: "dk_Algorithm k \<in> {ED25519, ECDSAP256SHA256, ECDSAP384SHA384}"
    and fmt: "formatPrivateKey lib k priv now = Inr c"
  shows "ParsePrivateKeyFromFile lib c = Inr (stored_private lib k priv)"
proof -
  let ?a = "show_nat (unat (dk_Algorithm k)) @ '' ('' @ AlgorithmName (dk_Algorithm k) @ '')''"
  let ?b = "b64_encode (stored_private lib k priv)"
  have rsa: "\<not> isRSA (dk_Algorithm k)" "\<not> isSHA1RSA (dk_Algorithm k)"
    using alg by (auto simp: isRSA_def isSHA1RSA_def)
  define ls where "ls = [private_field ''Private-key-format'' ''v1.3'', private_field ''Algorithm'' ?a,
    private_field ''PrivateKey'' ?b, private_field ''Created'' (fmt_compact now)]"
  have c: "c = join_lines ls" using fmt rsa(1) by (simp add: formatPrivateKey_def ls_def)
  have nl: "CHR 0x0A \<notin> set ?b" using b64_encode_chars [of "CHR 0x0A"] by blast
  have "\<forall>l \<in> set ls. CHR 0x0A \<notin> set l"
    using algorithm_field(2) [OF alg] nl fmt_compact_no_newline [of now]
    by (simp add: ls_def private_field_def)
  then have sp: "split_on (CHR 0x0A) c = ls @ [[]]" unfolding c by (rule split_join_lines)
  have colon: "CHR '':'' \<notin> set ''Private-key-format''" "CHR '':'' \<notin> set ''Algorithm''"
    "CHR '':'' \<notin> set ''PrivateKey''" "CHR '':'' \<notin> set ''Created''" by simp_all
  have nil: "parse_field [] flds = flds" for flds by (simp add: parse_field_def)
  define flds where "flds = parsePrivateKeyFields c"
  have f: "map_of flds ''algorithm'' = Some (trim_space (CHR '' '' # ?a))"
      "map_of flds ''privatekey'' = Some (trim_space (CHR '' '' # ?b))"
    by (simp_all add: flds_def parsePrivateKeyFields_def sp ls_def nil update_conv'
        parse_field_private [OF colon(1)] parse_field_private [OF colon(2)]
        parse_field_private [OF colon(3)] parse_field_private [OF colon(4)] field_names
        del: update.simps)
  have "privateKeyFileAlgorithm flds = Some (dk_Algorithm k)"
    using algorithm_field(1) [OF alg] f(1) by blast
  moreover have "map_of flds ''privatekey'' = Some ?b"
    using f(2) trim_space_field [of ?b] b64_encode_plain by auto
  ultimately show ?thesis using rsa
    by (simp add: ParsePrivateKeyFromFile_def flds_def [symmetric])
qed

section \<open>Correspondence\<close>

lemma ed_corresponds_iff:
  "verify_ed25519 lib priv pub = Inr () \<longleftrightarrow>
     length pub = 32 \<and> (length priv = 32 \<or> length priv = 64 \<and> drop 32 priv = pub) \<and>
     EdPublic lib (take 32 priv) = pub"
  by (auto simp: verify_ed25519_def Let_def)

text \<open>The seed written in place of an expanded key is as good as the expanded key.\<close>

lemma stored_corresponds:
  assumes "VerifyKeyPairCorrespondence lib k priv = Inr ()"
  shows "VerifyKeyPairCorrespondence lib k (stored_private lib k priv) = Inr ()"
proof (cases "dk_Algorithm k = ED25519 \<and> length priv = 64 \<and> EdPublic lib (take 32 priv) = drop 32 priv")
  case True
  then have "\<not> isRSA (dk_Algorithm k)" "\<not> isSHA1RSA (dk_Algorithm k)" by (auto simp: isRSA_def isSHA1RSA_def)
  with assms True show ?thesis
    by (auto simp: VerifyKeyPairCorrespondence_def stored_private_def ed_corresponds_iff split: option.splits)
next
  case False
  then show ?thesis using assms by (auto simp: stored_private_def)
qed

text \<open>
  What the generators of the crypto packages document: sizes of seeds and public keys,
  scalars in range with the point they generate, and point coordinates of the field size.
\<close>

definition ed_law :: "keylib \<Rightarrow> bool" where
  "ed_law lib \<longleftrightarrow> (\<forall>t seed. EdGenerate lib t = Some seed \<longrightarrow>
     length seed = 32 \<and> length (EdPublic lib seed) = 32)"

definition ec_law :: "keylib \<Rightarrow> bool" where
  "ec_law lib \<longleftrightarrow> (\<forall>t c d x y. EcGenerate lib t c = Some (d, x, y) \<longrightarrow>
     0 < d \<and> d < curve_order c \<and> BaseMult lib c (FillBytes (case c of P256 \<Rightarrow> 32 | P384 \<Rightarrow> 48) d) = (x, y))"

lemma curve_order_bound: "curve_order P256 < 256 ^ 32" "curve_order P384 < 256 ^ 48"
  by (simp_all add: curve_order_def)

lemma generate_ecdsa_corresponds:
  assumes "ec_law lib" and "generate_ecdsa lib t c sz k0 = Inr (k, priv)"
    and "sz = (case c of P256 \<Rightarrow> 32 | P384 \<Rightarrow> 48)"
  shows "\<exists>pub. b64_decode (dk_PublicKey k) = Some pub \<and> verifyECDSACorrespondence lib c sz priv pub = Inr ()"
proof -
  obtain d x y where g: "EcGenerate lib t c = Some (d, x, y)"
    and k: "k = k0\<lparr>dk_PublicKey := b64_encode (FillBytes sz x @ FillBytes sz y)\<rparr>" "priv = FillBytes sz d"
    using assms(2) by (auto simp: generate_ecdsa_def split: option.splits)
  have law: "0 < d" "d < curve_order c" "BaseMult lib c (FillBytes sz d) = (x, y)"
    using assms(1,3) g unfolding ec_law_def by blast+
  have "curve_order c < 256 ^ sz" using assms(3) curve_order_bound by (cases c) simp_all
  then have "SetBytes (FillBytes sz d) = d" using law(2) by (intro SetBytes_FillBytes) simp
  then show ?thesis using k law by (simp add: verifyECDSACorrespondence_def)
qed

lemma generated_corresponds:
  assumes "ed_law lib" and "ec_law lib"
    and alg: "algorithm \<in> {''ED25519'', ''ECDSAP256SHA256'', ''ECDSAP384SHA384''}"
    and gen: "generateDNSSECKey lib t domain algorithm flags = Inr (k, priv)"
  shows "VerifyKeyPairCorrespondence lib k priv = Inr ()"
proof -
  let ?k0 = "\<lparr>dk_Name = Fqdn lib domain, dk_Flags = flags, dk_Protocol = 3, dk_Algorithm = 0, dk_PublicKey = []\<rparr>"
  consider (ed) "algorithm = ''ED25519''" | (p256) "algorithm = ''ECDSAP256SHA256''" | (p384) "algorithm = ''ECDSAP384SHA384''"
    using alg by blast
  then show ?thesis
  proof cases
    case ed
    then obtain seed where "EdGenerate lib t = Some seed"
      and "k = ?k0\<lparr>dk_Algorithm := ED25519, dk_PublicKey := b64_encode (EdPublic lib seed)\<rparr>"
      and "priv = seed @ EdPublic lib seed"
      using gen by (auto simp: generateDNSSECKey_def split: option.splits)
    then show ?thesis using assms(1)
      by (simp add: VerifyKeyPairCorrespondence_def isRSA_def isSHA1RSA_def ed_corresponds_iff ed_law_def)
  next
    case p256
    then have g: "generate_ecdsa lib t P256 32 (?k0\<lparr>dk_Algorithm := ECDSAP256SHA256\<rparr>) = Inr (k, priv)"
      using gen by (simp add: generateDNSSECKey_def)
    moreover have "dk_Algorithm k = ECDSAP256SHA256" using g by (auto simp: generate_ecdsa_def split: option.splits)
    ultimately show ?thesis using generate_ecdsa_corresponds [OF assms(2) g]
      by (auto simp: VerifyKeyPairCorrespondence_def isRSA_def isSHA1RSA_def)
  next
    case p384
    then have g: "generate_ecdsa lib t P384 48 (?k0\<lparr>dk_Algorithm := ECDSAP384SHA384\<rparr>) = Inr (k, priv)"
      using gen by (simp add: generateDNSSECKey_def)
    moreover have "dk_Algorithm k = ECDSAP384SHA384" using g by (auto simp: generate_ecdsa_def split: option.splits)
    ultimately show ?thesis using generate_ecdsa_corresponds [OF assms(2) g]
      by (auto simp: VerifyKeyPairCorrespondence_def isRSA_def isSHA1RSA_def)
  qed
qed

end
