(* ===== verification/Rollover_Safety.thy ===== *)
theory Rollover_Safety
  imports Rollover_Logic Key_Format_Laws
begin

text \<open>
  Safety of the rollover state machine: the record in memory always passes the schema
  check, no old key is retired before the parent's DS TTL has run out, and the parent's DS
  set is never changed before the new keys have propagated.
\<close>

section \<open>Derived rules\<close>

lemma triple_rest_bind:
  assumes "keeps same_rest m" and "\<And>e z. P z \<Longrightarrow> Q (Inl e) z" and "\<And>x. triple domain P (f x) Q"
  shows "triple domain P (op_bind m f) Q"
  by (rule triple_bind [OF triple_rest [OF assms(1)]]) (auto intro: assms)

lemma triple_clock_bind:
  assumes "\<And>t. triple domain P (f (now_at env t)) Q"
  shows "triple domain P (op_bind (clock env) f) Q"
proof (rule triple_bind [OF triple_clock])
  fix x
  show "triple domain (\<lambda>z. P z \<and> (\<exists>t. Inr x = Inr (now_at env t))) (f x) Q"
  proof (cases "\<exists>t. x = now_at env t")
    case True
    then show ?thesis using assms by (auto intro: triple_weaken)
  qed (simp add: triple_def zat_def)
qed auto

lemma triple_mutate_save:
  assumes "\<And>z r. P (zview z) \<Longrightarrow> Q r (zview (f z))"
  shows "triple domain P (op_bind (Mutate domain f) (\<lambda>_. Save env)) Q"
  by (rule triple_bind [OF triple_Mutate [where Q = "\<lambda>_ z. \<forall>r. Q r z"]])
    (auto intro: assms triple_weaken [OF triple_Save])

section \<open>The invariant\<close>

text \<open>The wait before retirement, and the horizon before every change at the parent.\<close>

definition retired_late :: "rollover_state \<Rightarrow> bool" where
  "retired_late r \<longleftrightarrow>
     (r_State r = KSKRolloverStateRetiring \<longrightarrow>
        r_DSObservedAt r + effectiveParentDSTTL (r_ParentDSTTL r) \<le> r_PhaseStarted r) \<and>
     (r_State r = AlgoRolloverStateRetiring \<longrightarrow> r_OldDSRemovedAt r \<noteq> 0 \<and>
        r_OldDSRemovedAt r + effectiveParentDSTTL (r_ParentDSTTL r) \<le> r_PhaseStarted r)"

definition pushed_late :: "rollover_state \<Rightarrow> bool" where
  "pushed_late r \<longleftrightarrow> r_Type r \<noteq> ''zsk'' \<longrightarrow>
     (r_DSRemovalPushedAt r \<noteq> 0 \<longrightarrow> r_PhaseHorizon r \<noteq> 0 \<and> r_PhaseHorizon r \<le> r_DSRemovalPushedAt r) \<and>
     (r_DSAddPushedAt r \<noteq> 0 \<longrightarrow> r_PhaseHorizon r \<noteq> 0 \<and> r_PhaseHorizon r \<le> r_DSAddPushedAt r) \<and>
     (r_PhaseHorizon r \<noteq> 0 \<longrightarrow> r_PhaseFirstSigned r < r_PhaseHorizon r)"

definition rollover_inv :: "zone_state \<Rightarrow> bool" where
  "rollover_inv z \<longleftrightarrow> zone_ok z \<and> (\<forall>r. z_Rollover z = Some r \<longrightarrow> retired_late r \<and> pushed_late r)"

definition in_phase :: "string \<Rightarrow> string \<Rightarrow> zone_state \<Rightarrow> bool" where
  "in_phase t s z \<longleftrightarrow> rollover_inv z \<and> (\<exists>r. z_Rollover z = Some r \<and> r_Type r = t \<and> r_State r = s)"

lemma rollover_inv_view [simp]: "rollover_inv (zview z) = rollover_inv z"
  by (simp add: rollover_inv_def)

lemma in_phase_view [simp]: "in_phase t s (zview z) = in_phase t s z"
  by (simp add: in_phase_def)

lemma in_phase_inv: "in_phase t s z \<Longrightarrow> rollover_inv z"
  by (simp add: in_phase_def)

text \<open>Replacing the record: only its schema and its timing have to be checked again.\<close>

lemma zone_ok_rollover:
  "zone_ok z \<Longrightarrow> rollover_ok z r \<Longrightarrow> zone_ok (z\<lparr>z_Rollover := Some r\<rparr>)"
  by (auto simp: zone_ok_def rollover_ok_def)

lemma zone_ok_clear: "zone_ok z \<Longrightarrow> zone_ok (z\<lparr>z_Rollover := None\<rparr>)"
  by (simp add: zone_ok_def)

lemma rollover_inv_clear: "rollover_inv z \<Longrightarrow> rollover_inv (z\<lparr>z_Rollover := None\<rparr>)"
  by (simp add: rollover_inv_def zone_ok_clear)

lemma rollover_inv_force [simp]: "rollover_inv (z\<lparr>z_ForceResign := b\<rparr>) = rollover_inv z"
  by (simp add: rollover_inv_def)

lemma rollover_inv_rollover:
  "zone_ok z \<Longrightarrow> rollover_ok z r \<Longrightarrow> retired_late r \<Longrightarrow> pushed_late r \<Longrightarrow> rollover_inv (z\<lparr>z_Rollover := Some r\<rparr>)"
  by (simp add: rollover_inv_def zone_ok_rollover)

lemma rollover_invD:
  assumes "rollover_inv z" and "z_Rollover z = Some r"
  shows "zone_ok z" "rollover_ok z r" "retired_late r" "pushed_late r"
  using assms by (auto simp: rollover_inv_def zone_ok_def)

text \<open>A step on the record that keeps its identity and phase, and the pushes and waits.\<close>

lemma in_phase_upd:
  assumes "in_phase t s z" and "z_Rollover z = Some r"
    and "r_Type (f r) = r_Type r" "r_State (f r) = r_State r" "r_OldKeyID (f r) = r_OldKeyID r"
      "r_NewKeyID (f r) = r_NewKeyID r" "r_OldZSKID (f r) = r_OldZSKID r" "r_NewZSKID (f r) = r_NewZSKID r"
      "r_OldAlgorithm (f r) = r_OldAlgorithm r" "r_NewAlgorithm (f r) = r_NewAlgorithm r"
      "r_ParentDSTTL (f r) \<le> maxDNSTTLSeconds"
    and "retired_late (f r)" "pushed_late (f r)"
  shows "in_phase t s (upd_rollover f z)"
proof -
  have "rollover_ok z r" "zone_ok z" using assms(1,2) by (auto simp: in_phase_def rollover_invD)
  then have "rollover_ok z (f r)" using assms(3-11) by (simp add: rollover_ok_def)
  with \<open>zone_ok z\<close> assms show ?thesis
    by (auto simp: in_phase_def upd_rollover_def intro: rollover_inv_rollover)
qed

lemma ttl_bound: "in_phase t s z \<Longrightarrow> z_Rollover z = Some r \<Longrightarrow> r_ParentDSTTL r \<le> maxDNSTTLSeconds"
  using rollover_invD(2) by (auto simp: in_phase_def rollover_ok_def)

section \<open>Stamping and pushing\<close>

lemma dnskeyTTLFloor_pos: "0 < dnskeyTTLFloor cfg z"
  by (simp add: dnskeyTTLFloor_def Let_def Hour_def Minute_def Second_def)

lemma zskRetireFloor_pos: "0 < zskRetireFloor cfg z"
  using dnskeyTTLFloor_pos [of cfg z] by (simp add: zskRetireFloor_def Let_def)

lemma newKeyFloor_pos: "0 < newKeyFloor cfg z r"
  by (simp add: newKeyFloor_def dnskeyTTLFloor_pos zskRetireFloor_pos)

lemma later_of_le: "a \<le> later_of a b" "b \<le> later_of a b"
  by (simp_all add: later_of_def)

lemma stamp_in_phase:
  "triple domain (in_phase t s) (stampNewKeyPropagation env rm domain) (\<lambda>_. in_phase t s)"
  unfolding stampNewKeyPropagation_def Let_def
proof (rule triple_with_rollover, intro triple_if triple_ok triple_mutate_save)
  fix z r z' :: zone_state and ro q
  assume ph: "in_phase t s (zview z)" "z_Rollover z = Some ro" and eq: "zview z' = zview z"
    and n: "\<not> (r_Type ro \<noteq> ''ksk'' \<and> r_Type ro \<noteq> ''algorithm'' \<or> r_PhaseHorizon ro \<noteq> 0)"
  let ?h1 = "later_of (z_PublishedAt z + newKeyFloor (rm_cfg rm) z ro) (z_DNSKEYCacheHorizon z)"
  let ?h = "if r_Type ro = ''algorithm'' then later_of ?h1 (z_RRSIGCacheHorizon z) else ?h1"
  have "z_PublishedAt z < ?h1"
    using newKeyFloor_pos [of "rm_cfg rm" z ro] later_of_le(1) [of "z_PublishedAt z + newKeyFloor (rm_cfg rm) z ro" "z_DNSKEYCacheHorizon z"]
    by linarith
  then have h: "z_PublishedAt z < ?h" using later_of_le(1) [of ?h1 "z_RRSIGCacheHorizon z"] by simp
  have "retired_late ro" "pushed_late ro" using ph rollover_invD by (auto simp: in_phase_def)
  moreover have "r_ParentDSTTL ro \<le> maxDNSTTLSeconds" using ttl_bound ph by simp
  ultimately show "in_phase t s (zview (upd_rollover (\<lambda>r. r\<lparr>r_PhaseFirstSigned := z_PublishedAt z, r_PhaseHorizon := ?h\<rparr>) z'))"
    using ph n h unfolding zview_upd_rollover eq
    by (intro in_phase_upd [OF ph(1)]) (auto simp: retired_late_def pushed_late_def)
qed auto

text \<open>
  What the registrar automation promises: of a zone's record it changes diagnostics only.
\<close>

definition publisher_ok :: "rollover_manager \<Rightarrow> bool" where
  "publisher_ok rm \<longleftrightarrow> (\<forall>pub d opn w r w' n z. rm_publisher rm = Some pub \<longrightarrow> pub d opn w = (r, w') \<longrightarrow>
     GetZone n (mem w) = Some z \<longrightarrow> (\<exists>z'. GetZone n (mem w') = Some z' \<and> zview z' = zview z))"

lemma triple_publish:
  assumes "publisher_ok rm" "rm_publisher rm = Some pub"
  shows "triple domain P (pub d opn) (\<lambda>_. P)"
proof (rule tripleI)
  fix w r w'
  assume "zat domain P w" and m: "pub d opn w = (r, w')"
  then obtain z where "GetZone domain (mem w) = Some z" "P (zview z)" by (auto simp: zat_def)
  moreover from this(1) obtain z' where "GetZone domain (mem w') = Some z'" "zview z' = zview z"
    using assms m unfolding publisher_ok_def by blast
  ultimately show "zat domain P w'" by (auto simp: zat_def)
qed

lemma newKeysPropagated_iff:
  "fst (newKeysPropagated z now) \<longleftrightarrow> (\<exists>r. z_Rollover z = Some r \<and> PublishedSince z (r_Started r) \<and>
     r_PhaseHorizon r \<noteq> 0 \<and> r_PhaseHorizon r \<le> now)"
  by (auto simp: newKeysPropagated_def not_less split: option.split)

lemma push_in_phase:
  assumes "publisher_ok rm" and "t \<noteq> ''zsk''"
  shows "triple domain (in_phase t s) (pushOldDSRemoval env rm domain) (\<lambda>_. in_phase t s)"
proof (cases "rm_publisher rm")
  case None
  then show ?thesis by (simp add: pushOldDSRemoval_def triple_ok del: op_ok_apply)
next
  case (Some pub)
  show ?thesis unfolding pushOldDSRemoval_def Some option.case
  proof (rule triple_with_rollover, intro triple_if triple_ok triple_clock_bind triple_try [OF triple_publish [OF assms(1) Some]])
    fix z ro tm res
    assume ph: "in_phase t s (zview z)" "z_Rollover z = Some ro" and np: "\<not> \<not> fst (newKeysPropagated z (now_at env tm))"
    show "triple domain (\<lambda>v. v = zview z)
        (case res of Inl e \<Rightarrow> op_ok False | Inr published \<Rightarrow> if \<not> published then op_ok True
          else op_bind (Mutate domain (upd_rollover (\<lambda>r. r\<lparr>r_DSRemovalPushedAt := now_at env tm, r_Action := removal_action r\<rparr>)))
            (\<lambda>_. op_bind (Save env) (\<lambda>_. op_ok True))) (\<lambda>_. in_phase t s)"
    proof (cases res)
      case (Inl e)
      show ?thesis unfolding Inl sum.case by (rule triple_ok) (use ph in simp)
    next
      case (Inr published)
      have "in_phase t s (upd_rollover (\<lambda>r. r\<lparr>r_DSRemovalPushedAt := now_at env tm, r_Action := removal_action r\<rparr>) (zview z))"
        using ph np ttl_bound [OF ph(1)] rollover_invD [of z ro] assms(2)
        by (intro in_phase_upd [OF ph(1)])
          (auto simp: newKeysPropagated_iff retired_late_def pushed_late_def in_phase_def)
      then show ?thesis unfolding Inr sum.case using ph
        by (intro triple_if triple_ok triple_bind [OF triple_Mutate [where Q = "\<lambda>_. in_phase t s"]]
            triple_bind [OF triple_Save]) auto
    qed
  qed auto
qed

section \<open>KSK phases\<close>

text \<open>Moving the record to another phase of its type.\<close>

lemma inv_move:
  assumes "in_phase t s z" and "z_Rollover z = Some r" and "z_Rollover z' = Some (f r)"
    and "rollover_ok z r \<Longrightarrow> rollover_ok z (f r)" "retired_late (f r)" "pushed_late (f r)"
    and "z' = (upd_rollover f z)\<lparr>z_ForceResign := b\<rparr> \<or> z' = upd_rollover f z"
  shows "rollover_inv z'"
proof -
  have "zone_ok z" "rollover_ok z r" using assms(1,2) rollover_invD by (auto simp: in_phase_def)
  then have "rollover_inv (z\<lparr>z_Rollover := Some (f r)\<rparr>)" using assms(4-6) by (intro rollover_inv_rollover)
  then show ?thesis using assms(2,7) by (auto simp: upd_rollover_def)
qed

lemma triple_cong_view:
  "(\<And>z. P z \<Longrightarrow> triple domain (\<lambda>v. v = zview z) m Q) \<Longrightarrow> (\<And>z. P (zview z) = P z) \<Longrightarrow> triple domain P m Q"
  unfolding triple_def zat_def by metis

lemma ksk_propagation_inv:
  assumes "publisher_ok rm"
  shows "triple domain (in_phase ''ksk'' KSKRolloverStateDSPropagation)
    (ksk_propagation_step env rm domain now) (\<lambda>_. rollover_inv)"
  unfolding ksk_propagation_step_def
proof (rule triple_bind [OF push_in_phase [OF assms]], simp, erule in_phase_inv, rule triple_with_rollover,
    intro triple_if triple_ok triple_mutate_save)
  fix z z' :: zone_state and r
  assume ph: "in_phase ''ksk'' KSKRolloverStateDSPropagation (zview z)" "z_Rollover z = Some r"
    and late: "\<not> now < r_DSObservedAt r + effectiveParentDSTTL (r_ParentDSTTL r)" and eq: "zview z' = zview z"
  have r: "z_Rollover (zview z) = Some r" "r_Type r = ''ksk''" "pushed_late r"
    using ph rollover_invD(4) by (auto simp: in_phase_def)
  show "rollover_inv (zview ((upd_rollover (\<lambda>r. r\<lparr>r_State := KSKRolloverStateRetiring, r_PhaseStarted := now,
      r_Action := ksk_retire_action z' now\<rparr>) z')\<lparr>z_ForceResign := True\<rparr>))"
    unfolding zview_upd zview_upd_rollover eq
    by (rule inv_move [OF ph(1) r(1), where f = "\<lambda>r. r\<lparr>r_State := KSKRolloverStateRetiring, r_PhaseStarted := now,
        r_Action := ksk_retire_action z' now\<rparr>" and b = True])
      (use r late in \<open>auto simp: upd_rollover_def rollover_ok_def retired_late_def pushed_late_def phase_defs\<close>)
qed (auto dest: in_phase_inv)

lemma ksk_retiring_inv:
  assumes "publisher_ok rm"
  shows "triple domain (in_phase ''ksk'' KSKRolloverStateRetiring) (ksk_retiring_step env rm domain) (\<lambda>_. rollover_inv)"
  unfolding ksk_retiring_step_def
  by (rule triple_bind [OF push_in_phase [OF assms]], simp, erule in_phase_inv, rule triple_with_rollover,
      intro triple_if triple_ok triple_mutate_save)
    (auto dest: in_phase_inv intro!: rollover_inv_clear)

lemma CheckKSKRollover_inv:
  assumes "publisher_ok rm"
  shows "triple domain rollover_inv (CheckKSKRollover env rm domain) (\<lambda>_. rollover_inv)"
  unfolding CheckKSKRollover_def
proof (rule triple_with_rollover, intro triple_if triple_ok triple_clock_bind)
  fix z r tm
  assume inv: "rollover_inv (zview z)" "z_Rollover z = Some r" and t: "\<not> r_Type r \<noteq> ''ksk''"
  then have ph: "in_phase ''ksk'' (r_State r) (zview z)" by (simp add: in_phase_def)
  show "triple domain (\<lambda>v. v = zview z) (op_bind (stampNewKeyPropagation env rm domain) (\<lambda>_.
      if r_State r = KSKRolloverStateDSPropagation then ksk_propagation_step env rm domain (now_at env tm)
      else if r_State r = KSKRolloverStateRetiring then ksk_retiring_step env rm domain else op_ok ()))
      (\<lambda>_. rollover_inv)"
  proof (rule triple_weaken [OF _ _ ])
    show "triple domain (in_phase ''ksk'' (r_State r)) (op_bind (stampNewKeyPropagation env rm domain) (\<lambda>_.
        if r_State r = KSKRolloverStateDSPropagation then ksk_propagation_step env rm domain (now_at env tm)
        else if r_State r = KSKRolloverStateRetiring then ksk_retiring_step env rm domain else op_ok ()))
        (\<lambda>_. rollover_inv)"
      by (rule triple_bind [OF stamp_in_phase], erule in_phase_inv)
        (auto intro!: triple_ok ksk_propagation_inv ksk_retiring_inv assms dest: in_phase_inv)
  qed (use ph in auto)
qed auto

lemma ParentDSTTLFallbackSeconds_eq:
  "ParentDSTTLFallbackSeconds c = word_of_int (ParentDSTTLFallback c div Second)"
  "0 \<le> ParentDSTTLFallback c div Second" "ParentDSTTLFallback c div Second \<le> 604800"
proof -
  have p: "Second \<le> ParentDSTTLFallback c" "ParentDSTTLFallback c \<le> 604800 * Second"
    using ParentDSTTLFallback_policy [of c]
    by (simp_all add: MinParentDSTTL_def MaxParentDSTTL_def Hour_def Minute_def Second_def)
  have s: "0 < Second" by (simp add: Second_def)
  show "ParentDSTTLFallbackSeconds c = word_of_int (ParentDSTTLFallback c div Second)"
    using p s by (simp add: ParentDSTTLFallbackSeconds_def)
  show "0 \<le> ParentDSTTLFallback c div Second"
    using p s by (simp add: pos_imp_zdiv_nonneg_iff)
  show "ParentDSTTLFallback c div Second \<le> 604800"
    using zdiv_mono1 [OF p(2) s] s by simp
qed

lemma fallback_in_range: "ParentDSTTLFallbackSeconds c \<le> maxDNSTTLSeconds"
proof -
  have "uint (ParentDSTTLFallbackSeconds c) = ParentDSTTLFallback c div Second"
    using ParentDSTTLFallbackSeconds_eq [of c] by (simp add: uint_word_of_int_eq take_bit_int_eq_self)
  then show ?thesis using ParentDSTTLFallbackSeconds_eq(3) [of c]
    by (simp add: word_le_def maxDNSTTLSeconds_def)
qed

lemma ksk_enter_propagation_inv:
  assumes "ttl \<le> maxDNSTTLSeconds"
  shows "triple domain (in_phase ''ksk'' KSKRolloverStateDSAddWait)
    (ksk_enter_propagation env rm domain dsObservedAt ttl) (\<lambda>_. rollover_inv)"
  unfolding ksk_enter_propagation_def
proof (rule triple_bind [OF stamp_in_phase], erule in_phase_inv, rule triple_clock_bind, rule triple_mutate_save)
  fix z tm
  assume "in_phase ''ksk'' KSKRolloverStateDSAddWait (zview z)"
  then obtain r where r: "z_Rollover z = Some r" "r_Type r = ''ksk''" "rollover_inv z" by (auto simp: in_phase_def)
  then have "pushed_late r" "zone_ok z" "rollover_ok z r" using rollover_invD by auto
  then show "rollover_inv (zview (ClearTransientWarnings (upd_rollover (\<lambda>r. r\<lparr>r_State := KSKRolloverStateDSPropagation,
      r_DSObservedAt := dsObservedAt, r_ParentDSTTL := ttl, r_PhaseStarted := now_at env tm,
      r_Action := ksk_wait_action z (dsObservedAt + seconds ttl) (now_at env tm)\<rparr>) z)))"
    using r assms unfolding zview_diag rollover_inv_view upd_rollover_def
    by (auto simp: rollover_ok_def retired_late_def pushed_late_def phase_defs intro!: rollover_inv_rollover)
qed

lemma algo_enter_propagation_inv:
  assumes "ttl \<le> maxDNSTTLSeconds"
  shows "triple domain (in_phase ''algorithm'' AlgoRolloverStateDSAddWait)
    (algo_enter_propagation env rm domain dsObservedAt ttl) (\<lambda>_. rollover_inv)"
  unfolding algo_enter_propagation_def
proof (rule triple_bind [OF stamp_in_phase], erule in_phase_inv, rule triple_clock_bind, rule triple_mutate_save)
  fix z tm
  assume "in_phase ''algorithm'' AlgoRolloverStateDSAddWait (zview z)"
  then obtain r where r: "z_Rollover z = Some r" "r_Type r = ''algorithm''" "rollover_inv z" by (auto simp: in_phase_def)
  then have "pushed_late r" "zone_ok z" "rollover_ok z r" using rollover_invD by auto
  then show "rollover_inv (zview (ClearTransientWarnings (upd_rollover (\<lambda>r. r\<lparr>r_State := AlgoRolloverStateDSPropagation,
      r_DSObservedAt := dsObservedAt, r_ParentDSTTL := ttl, r_PhaseStarted := now_at env tm,
      r_Action := algo_propagation_action r (dsObservedAt + seconds ttl)\<rparr>) z)))"
    using r assms unfolding zview_diag rollover_inv_view upd_rollover_def
    by (auto simp: rollover_ok_def retired_late_def pushed_late_def phase_defs intro!: rollover_inv_rollover)
qed

lemma triple_in_phase:
  "triple domain (in_phase t s) m Q \<Longrightarrow> rollover_inv (zview z) \<Longrightarrow> z_Rollover z = Some r \<Longrightarrow> r_Type r = t \<Longrightarrow>
   r_State r = s \<Longrightarrow> triple domain (\<lambda>v. v = zview z) m Q"
  by (erule triple_weaken) (auto simp: in_phase_def)

lemma CompleteKSKRollover_inv:
  assumes "parentDSTTL \<le> maxDNSTTLSeconds"
  shows "triple domain rollover_inv (CompleteKSKRollover env rm domain dsObservedAt parentDSTTL) (\<lambda>_. rollover_inv)"
  unfolding CompleteKSKRollover_def Let_def
  by (rule triple_look)
    (auto split: option.split intro!: triple_if triple_fail simp: assms fallback_in_range
      triple_in_phase [OF ksk_enter_propagation_inv])

lemma CompleteAlgorithmRollover_inv:
  assumes "parentDSTTL \<le> maxDNSTTLSeconds"
  shows "triple domain rollover_inv (CompleteAlgorithmRollover env rm domain dsObservedAt parentDSTTL) (\<lambda>_. rollover_inv)"
  unfolding CompleteAlgorithmRollover_def Let_def
  by (rule triple_look)
    (auto split: option.split intro!: triple_if triple_fail simp: assms fallback_in_range
      triple_in_phase [OF algo_enter_propagation_inv])

section \<open>Algorithm phases\<close>

text \<open>The probe reports TTLs of the range DNS defines.\<close>

definition probe_in_range :: "rollover_manager \<Rightarrow> bool" where
  "probe_in_range rm \<longleftrightarrow> (\<forall>probe t d ks obs. rm_probe rm = Some probe \<longrightarrow> probe t d ks = Inr obs \<longrightarrow>
     obs_TTL obs \<le> maxDNSTTLSeconds)"

abbreviation algo_phase :: "string \<Rightarrow> zone_state \<Rightarrow> bool" where
  "algo_phase s \<equiv> in_phase ''algorithm'' s"

lemma ds_add_action_inv:
  assumes "publisher_ok rm" and "algo_phase AlgoRolloverStateDSAddWait (zview z)" and "z_Rollover z = Some r"
  shows "triple domain (\<lambda>v. v = zview z) (ds_add_action rm domain now z r) (\<lambda>_. algo_phase AlgoRolloverStateDSAddWait)"
proof -
  obtain ok reason where np: "newKeysPropagated z now = (ok, reason)" by (cases "newKeysPropagated z now")
  have push: "algo_phase AlgoRolloverStateDSAddWait (upd_rollover (\<lambda>r. r\<lparr>r_DSAddPushedAt := now\<rparr>) (zview z))" if ok
    using assms(2,3) np that ttl_bound [OF assms(2)] rollover_invD [of z r] newKeysPropagated_iff [of z now]
    by (intro in_phase_upd [OF assms(2)]) (auto simp: retired_late_def pushed_late_def in_phase_def)
  have ok: "triple domain (\<lambda>v. v = zview z) (op_ok a) (\<lambda>_. algo_phase AlgoRolloverStateDSAddWait)" for a :: string
    by (rule triple_ok) (use assms(2) in simp)
  show ?thesis
  proof (cases "rm_publisher rm")
    case None
    then show ?thesis unfolding ds_add_action_def np Let_def prod.case by (auto intro!: triple_if ok)
  next
    case (Some pub)
    have "triple domain (\<lambda>v. v = zview z) (op_try (pub domain OpRolloverNewDSAdd) (\<lambda>res. case res of
          Inl e \<Rightarrow> op_ok (algo_retry_action (r_NewAlgorithm r) domain)
        | Inr published \<Rightarrow>
            if published then
              op_bind (Mutate domain (upd_rollover (\<lambda>r. r\<lparr>r_DSAddPushedAt := now\<rparr>))) (\<lambda>_. op_ok (algo_added_action (r_NewAlgorithm r) domain))
            else op_ok (algo_manual_action (r_NewAlgorithm r) domain))) (\<lambda>_. algo_phase AlgoRolloverStateDSAddWait)" if ok
    proof (rule triple_try [OF triple_publish [OF assms(1) Some]])
      fix res
      have "triple domain (\<lambda>v. v = zview z) (op_bind (Mutate domain (upd_rollover (\<lambda>r. r\<lparr>r_DSAddPushedAt := now\<rparr>)))
          (\<lambda>_. op_ok a)) (\<lambda>_. algo_phase AlgoRolloverStateDSAddWait)" for a :: string
        by (rule triple_bind [OF triple_Mutate [where Q = "\<lambda>_. algo_phase AlgoRolloverStateDSAddWait"]])
          (use push \<open>ok\<close> in \<open>auto intro!: triple_ok\<close>)
      then show "triple domain (\<lambda>v. v = zview z) (case res of
          Inl e \<Rightarrow> op_ok (algo_retry_action (r_NewAlgorithm r) domain)
        | Inr published \<Rightarrow>
            if published then
              op_bind (Mutate domain (upd_rollover (\<lambda>r. r\<lparr>r_DSAddPushedAt := now\<rparr>))) (\<lambda>_. op_ok (algo_added_action (r_NewAlgorithm r) domain))
            else op_ok (algo_manual_action (r_NewAlgorithm r) domain)) (\<lambda>_. algo_phase AlgoRolloverStateDSAddWait)"
        using ok by (auto split: sum.split intro!: triple_if)
    qed
    then show ?thesis unfolding ds_add_action_def np Let_def prod.case Some option.case by (intro triple_if ok) auto
  qed
qed

lemma advanceAlgorithmDSAdd_inv:
  assumes "publisher_ok rm"
  shows "triple domain (algo_phase AlgoRolloverStateDSAddWait) (advanceAlgorithmDSAdd env rm domain now) (\<lambda>_. rollover_inv)"
  unfolding advanceAlgorithmDSAdd_def
proof (rule triple_with_rollover)
  fix z r
  assume ph: "algo_phase AlgoRolloverStateDSAddWait (zview z)" "z_Rollover z = Some r"
  show "triple domain (\<lambda>v. v = zview z) (op_bind (ds_add_action rm domain now z r) (\<lambda>action. with_rollover domain (\<lambda>z r.
       if r_Action r = action \<and> (r_DSAddPushedAt r = 0 \<or> r_DSAddPushedAt r \<noteq> now) then op_ok ()
       else op_bind (Mutate domain (upd_rollover (\<lambda>r. r\<lparr>r_Action := action\<rparr>))) (\<lambda>_. Save env)) ())) (\<lambda>_. rollover_inv)"
  proof (rule triple_bind [OF ds_add_action_inv [OF assms ph]], erule in_phase_inv, rule triple_with_rollover,
      intro triple_if triple_ok triple_mutate_save)
    fix action z z' :: zone_state and r x
    assume "algo_phase AlgoRolloverStateDSAddWait (zview z)" "z_Rollover z = Some r" "zview z' = zview z"
    then have "algo_phase AlgoRolloverStateDSAddWait (upd_rollover (\<lambda>r. r\<lparr>r_Action := x\<rparr>) (zview z))"
      using ttl_bound [of "''algorithm''" AlgoRolloverStateDSAddWait "zview z" r] rollover_invD [of z r]
      by (intro in_phase_upd) (auto simp: retired_late_def pushed_late_def in_phase_def)
    then show "rollover_inv (zview (upd_rollover (\<lambda>r. r\<lparr>r_Action := x\<rparr>) z'))"
      using \<open>zview z' = zview z\<close> in_phase_inv by (metis zview_upd_rollover)
  qed (auto dest: in_phase_inv)
qed (auto dest: in_phase_inv)

lemma algo_propagation_inv:
  assumes "publisher_ok rm"
  shows "triple domain (algo_phase AlgoRolloverStateDSPropagation)
    (algo_propagation_step env rm domain now ttl) (\<lambda>_. rollover_inv)"
  unfolding algo_propagation_step_def
proof (rule triple_with_rollover, intro triple_if triple_ok)
  fix z r
  assume ph: "algo_phase AlgoRolloverStateDSPropagation (zview z)" "z_Rollover z = Some r"
  show "triple domain (\<lambda>v. v = zview z) (op_bind (Mutate domain (\<lambda>z. upd_rollover (\<lambda>r. r\<lparr>r_State := AlgoRolloverStateOldDSRemoval,
         r_PhaseStarted := now, r_Action := old_ds_action z r now\<rparr>) z)) (\<lambda>_.
       op_bind (Save env) (\<lambda>_. op_bind (pushOldDSRemoval env rm domain) (\<lambda>_. op_ok ())))) (\<lambda>_. rollover_inv)"
  proof (rule triple_bind [OF triple_Mutate [where Q = "\<lambda>_. algo_phase AlgoRolloverStateOldDSRemoval"]])
    fix z' :: zone_state
    assume eq: "zview z' = zview z"
    have "pushed_late r" "rollover_inv z" "r_Type r = ''algorithm''"
      using ph rollover_invD by (auto simp: in_phase_def)
    then have "rollover_inv (upd_rollover (\<lambda>r. r\<lparr>r_State := AlgoRolloverStateOldDSRemoval,
        r_PhaseStarted := now, r_Action := old_ds_action z' r now\<rparr>) (zview z))"
      using ph(2) by (intro inv_move [OF ph(1), where r = r and b = True and f = "\<lambda>r. r\<lparr>r_State := AlgoRolloverStateOldDSRemoval,
        r_PhaseStarted := now, r_Action := old_ds_action z' r now\<rparr>"])
        (auto simp: upd_rollover_def rollover_ok_def retired_late_def pushed_late_def phase_defs)
    then show "algo_phase AlgoRolloverStateOldDSRemoval (zview (upd_rollover (\<lambda>r. r\<lparr>r_State := AlgoRolloverStateOldDSRemoval,
         r_PhaseStarted := now, r_Action := old_ds_action z' r now\<rparr>) z'))"
      using ph(2) \<open>r_Type r = ''algorithm''\<close> unfolding zview_upd_rollover eq by (simp add: in_phase_def upd_rollover_def)
  qed (auto intro!: triple_bind [OF triple_Save] triple_bind [OF push_in_phase [OF assms]] triple_ok dest: in_phase_inv)
qed (auto dest: in_phase_inv)

lemma triple_diag:
  assumes "\<And>z. zview (f z) = zview z" and "\<And>z. P (zview z) = P z"
  shows "triple domain P (op_bind (Mutate domain f) (\<lambda>_. Save env)) (\<lambda>_. P)"
  by (rule triple_mutate_save) (metis assms)

lemma noteBlockedPhase_keeps: "triple domain P (noteBlockedPhase env domain reason) (\<lambda>_. P)"
  unfolding noteBlockedPhase_def split_def Let_def
proof (rule triple_look, simp only: option.case)
  fix z
  assume P: "P (zview z)"
  show "triple domain (\<lambda>v. v = zview z) (op_bind (Mutate domain (\<lambda>z'. z'\<lparr>z_Warnings :=
      fst (blocked_warnings (blockedPhasePrefix @ reason) (z_Warnings z))\<rparr>)) (\<lambda>_.
      if \<not> snd (blocked_warnings (blockedPhasePrefix @ reason) (z_Warnings z)) then op_ok () else Save env)) (\<lambda>_. P)"
    by (rule triple_bind [OF triple_Mutate [where Q = "\<lambda>_ v. v = zview z"]])
      (use P in \<open>auto intro!: triple_if triple_ok intro: triple_weaken [OF triple_Save]\<close>)
qed

lemma clearBlockedPhase_keeps: "triple domain P (clearBlockedPhase env domain) (\<lambda>_. P)"
  unfolding clearBlockedPhase_def
  by (rule triple_look) (auto intro!: triple_if triple_ok triple_mutate_save)

lemma retired_late_other: "r_State r \<noteq> KSKRolloverStateRetiring \<Longrightarrow> r_State r \<noteq> AlgoRolloverStateRetiring \<Longrightarrow> retired_late r"
  by (simp add: retired_late_def)

lemma old_ds_gone_inv:
  assumes "obs_TTL obs \<le> maxDNSTTLSeconds"
  shows "triple domain (algo_phase AlgoRolloverStateOldDSRemoval) (old_ds_gone env domain now obs) (\<lambda>_. rollover_inv)"
  unfolding old_ds_gone_def Let_def
proof (rule triple_with_rollover, intro triple_if triple_ok triple_mutate_save)
  fix z z' :: zone_state and r
  assume ph: "algo_phase AlgoRolloverStateOldDSRemoval (zview z)" "z_Rollover z = Some r" and eq: "zview z' = zview z"
  let ?seen = "if obs_TTL obs = 0 then r_ParentDSTTL r else obs_TTL obs"
  let ?f = "\<lambda>q. q\<lparr>r_OldDSRemovedAt := now, r_ParentDSTTL := if r_ParentDSTTL q < ?seen then ?seen else r_ParentDSTTL q,
      r_Action := ''Automatic: old DS gone; old-algorithm keys are retired after '' @
        fmt_rfc3339 (now + effectiveParentDSTTL (maxUint32 ?seen (r_ParentDSTTL r)))\<rparr>"
  have "r_ParentDSTTL r \<le> maxDNSTTLSeconds" "pushed_late r" "r_State r = AlgoRolloverStateOldDSRemoval"
    using ttl_bound ph rollover_invD by (auto simp: in_phase_def)
  then have "algo_phase AlgoRolloverStateOldDSRemoval (upd_rollover ?f (zview z))"
    using assms ph(2) by (intro in_phase_upd [OF ph(1)])
      (auto simp: pushed_late_def phase_defs intro: retired_late_other)
  then show "rollover_inv (zview (upd_rollover ?f z'))"
    unfolding zview_upd_rollover eq by (rule in_phase_inv)
qed (auto dest: in_phase_inv)

lemma rest_LoadPublicKeyByID: "keeps same_rest (LoadPublicKeyByID env lib cfg domain kt tag)"
  unfolding LoadPublicKeyByID_def by (intro rest.keeps_bind rest.frame_loadPublic rest.frame_res rest.keeps_ok)

lemma await_old_ds_removal_inv:
  assumes "publisher_ok rm" and "probe_in_range rm"
  shows "triple domain (algo_phase AlgoRolloverStateOldDSRemoval) (await_old_ds_removal env lib rm domain now) (\<lambda>_. rollover_inv)"
  unfolding await_old_ds_removal_def
proof (rule triple_bind [OF push_in_phase [OF assms(1)]], simp, erule in_phase_inv, rule triple_with_rollover)
  fix z r
  assume ph: "algo_phase AlgoRolloverStateOldDSRemoval (zview z)" "z_Rollover z = Some r"
  have "triple domain (algo_phase AlgoRolloverStateOldDSRemoval)
      (op_bind (op_wrap ''loading old KSK to probe its DS'' (LoadPublicKeyByID env lib (rm_cfg rm) domain ''ksk'' (r_OldKeyID r))) (\<lambda>oldKSK.
       op_try (run_probe probe domain [oldKSK]) (\<lambda>res. case res of
         Inl e \<Rightarrow> noteBlockedPhase env domain (''the parent DS probe failed ('' @ error_text e @ ''); it is retried every cycle'')
       | Inr obs \<Rightarrow> op_bind (clearBlockedPhase env domain) (\<lambda>_. old_ds_gone env domain now obs)))) (\<lambda>_. rollover_inv)"
    if pr: "rm_probe rm = Some probe" for probe
  proof (rule triple_rest_bind [OF rest.keeps_wrap [OF rest_LoadPublicKeyByID]], erule in_phase_inv,
      rule triple_try [where M = "\<lambda>q v. algo_phase AlgoRolloverStateOldDSRemoval v \<and>
        (\<forall>obs. q = Inr obs \<longrightarrow> obs_TTL obs \<le> maxDNSTTLSeconds)"])
    fix ks
    show "triple domain (algo_phase AlgoRolloverStateOldDSRemoval) (run_probe probe domain [ks])
        (\<lambda>q v. algo_phase AlgoRolloverStateOldDSRemoval v \<and> (\<forall>obs. q = Inr obs \<longrightarrow> obs_TTL obs \<le> maxDNSTTLSeconds))"
      using assms(2) pr unfolding triple_def zat_def run_probe_def probe_in_range_def by force
  next
    fix res
    show "triple domain (\<lambda>v. algo_phase AlgoRolloverStateOldDSRemoval v \<and>
        (\<forall>obs. res = Inr obs \<longrightarrow> obs_TTL obs \<le> maxDNSTTLSeconds)) (case res of
         Inl e \<Rightarrow> noteBlockedPhase env domain (''the parent DS probe failed ('' @ error_text e @ ''); it is retried every cycle'')
       | Inr obs \<Rightarrow> op_bind (clearBlockedPhase env domain) (\<lambda>_. old_ds_gone env domain now obs)) (\<lambda>_. rollover_inv)"
    proof (cases res)
      case (Inl e)
      show ?thesis unfolding Inl sum.case
        by (rule triple_weaken [OF noteBlockedPhase_keeps]) (auto dest: in_phase_inv)
    next
      case (Inr obs)
      show ?thesis
      proof (cases "obs_TTL obs \<le> maxDNSTTLSeconds")
        case True
        show ?thesis unfolding Inr sum.case
          by (rule triple_weaken [OF triple_bind [OF clearBlockedPhase_keeps _ old_ds_gone_inv [OF True]]])
            (auto dest: in_phase_inv)
      next
        case False
        then show ?thesis unfolding Inr by (auto simp: triple_def zat_def)
      qed
    qed
  qed
  then show "triple domain (\<lambda>v. v = zview z) (case rm_probe rm of None \<Rightarrow> op_ok () | Some probe \<Rightarrow>
      op_bind (op_wrap ''loading old KSK to probe its DS'' (LoadPublicKeyByID env lib (rm_cfg rm) domain ''ksk'' (r_OldKeyID r))) (\<lambda>oldKSK.
       op_try (run_probe probe domain [oldKSK]) (\<lambda>res. case res of
         Inl e \<Rightarrow> noteBlockedPhase env domain (''the parent DS probe failed ('' @ error_text e @ ''); it is retried every cycle'')
       | Inr obs \<Rightarrow> op_bind (clearBlockedPhase env domain) (\<lambda>_. old_ds_gone env domain now obs)))) (\<lambda>_. rollover_inv)"
    using ph in_phase_inv
    by (cases "rm_probe rm") (auto intro!: triple_ok elim!: triple_weaken)
qed (auto dest: in_phase_inv)

lemma algo_removal_inv:
  assumes "publisher_ok rm" and "probe_in_range rm"
  shows "triple domain (algo_phase AlgoRolloverStateOldDSRemoval) (algo_removal_step env lib rm domain now) (\<lambda>_. rollover_inv)"
  unfolding algo_removal_step_def
proof (rule triple_with_rollover, intro triple_if triple_ok triple_mutate_save)
  fix z r
  assume "algo_phase AlgoRolloverStateOldDSRemoval (zview z)"
  then show "triple domain (\<lambda>v. v = zview z) (await_old_ds_removal env lib rm domain now) (\<lambda>_. rollover_inv)"
    by (intro triple_weaken [OF await_old_ds_removal_inv [OF assms]]) auto
next
  fix z z' :: zone_state and r
  assume ph: "algo_phase AlgoRolloverStateOldDSRemoval (zview z)" "z_Rollover z = Some r" and eq: "zview z' = zview z"
    and late: "r_OldDSRemovedAt r \<noteq> 0" "\<not> now < r_OldDSRemovedAt r + effectiveParentDSTTL (r_ParentDSTTL r)"
  have r: "z_Rollover (zview z) = Some r" "r_Type r = ''algorithm''" "pushed_late r"
    using ph rollover_invD(4) by (auto simp: in_phase_def)
  let ?f = "\<lambda>r. r\<lparr>r_State := AlgoRolloverStateRetiring, r_PhaseStarted := now,
      r_Action := ''Automatic: old-algorithm keys removed from the zone; the rollover ends once that zone is confirmed served''\<rparr>"
  show "rollover_inv (zview ((upd_rollover ?f z')\<lparr>z_ForceResign := True\<rparr>))"
    unfolding zview_upd zview_upd_rollover eq
    by (rule inv_move [OF ph(1) r(1), where f = ?f and b = True])
      (use r late in \<open>auto simp: upd_rollover_def rollover_ok_def retired_late_def pushed_late_def phase_defs\<close>)
qed (auto dest: in_phase_inv)

lemma algo_retiring_inv:
  "triple domain (algo_phase AlgoRolloverStateRetiring) (algo_retiring_step env domain) (\<lambda>_. rollover_inv)"
  unfolding algo_retiring_step_def
  by (rule triple_with_rollover, intro triple_if triple_ok triple_mutate_save)
    (auto dest: in_phase_inv intro!: rollover_inv_clear)

lemma CheckAlgorithmRollover_inv:
  assumes "publisher_ok rm" and "probe_in_range rm"
  shows "triple domain rollover_inv (CheckAlgorithmRollover env lib rm domain) (\<lambda>_. rollover_inv)"
  unfolding CheckAlgorithmRollover_def Let_def
proof (rule triple_with_rollover, intro triple_if triple_ok triple_clock_bind)
  fix z r tm
  assume inv: "rollover_inv (zview z)" "z_Rollover z = Some r" and t: "\<not> r_Type r \<noteq> ''algorithm''"
  have "triple domain (algo_phase (r_State r)) (op_bind (stampNewKeyPropagation env rm domain) (\<lambda>_.
       if r_State r = AlgoRolloverStateDSAddWait then advanceAlgorithmDSAdd env rm domain (now_at env tm)
       else if r_State r = AlgoRolloverStateDSPropagation then algo_propagation_step env rm domain (now_at env tm) (effectiveParentDSTTL (r_ParentDSTTL r))
       else if r_State r = AlgoRolloverStateOldDSRemoval then algo_removal_step env lib rm domain (now_at env tm)
       else if r_State r = AlgoRolloverStateRetiring then algo_retiring_step env domain
       else op_ok ())) (\<lambda>_. rollover_inv)"
    by (rule triple_bind [OF stamp_in_phase], erule in_phase_inv)
      (auto intro!: triple_ok advanceAlgorithmDSAdd_inv algo_propagation_inv algo_removal_inv algo_retiring_inv assms dest: in_phase_inv)
  from triple_in_phase [OF this inv] t
  show "triple domain (\<lambda>v. v = zview z) (op_bind (stampNewKeyPropagation env rm domain) (\<lambda>_.
       if r_State r = AlgoRolloverStateDSAddWait then advanceAlgorithmDSAdd env rm domain (now_at env tm)
       else if r_State r = AlgoRolloverStateDSPropagation then algo_propagation_step env rm domain (now_at env tm) (effectiveParentDSTTL (r_ParentDSTTL r))
       else if r_State r = AlgoRolloverStateOldDSRemoval then algo_removal_step env lib rm domain (now_at env tm)
       else if r_State r = AlgoRolloverStateRetiring then algo_retiring_step env domain
       else op_ok ())) (\<lambda>_. rollover_inv)" by simp
qed auto

section \<open>ZSK phases\<close>

lemma blank_plain: "plain_char c \<Longrightarrow> \<not> blank (c # s)"
  by (simp add: blank_def trim_left.simps space_len_plain)

lemma AlgorithmName_not_blank: "\<not> blank (AlgorithmName alg)"
proof -
  have c: "plain_char (CHR ''R'')" "plain_char (CHR ''D'')" "plain_char (CHR ''E'')" "plain_char (CHR ''U'')"
    by code_simp+
  then show ?thesis by (auto simp: AlgorithmName_def blank_plain)
qed

lemma stampPhase_zsk:
  "triple domain (in_phase ''zsk'' s) (stampPhasePublication env domain fl hs) (\<lambda>_. in_phase ''zsk'' s)"
  unfolding stampPhasePublication_def Let_def
proof (rule triple_with_rollover, intro triple_if triple_ok triple_mutate_save)
  fix z z' :: zone_state and r
  assume ph: "in_phase ''zsk'' s (zview z)" "z_Rollover z = Some r" and eq: "zview z' = zview z"
  have "r_Type r = ''zsk''" "retired_late r" "r_ParentDSTTL r \<le> maxDNSTTLSeconds"
    using ph ttl_bound rollover_invD by (auto simp: in_phase_def)
  then show "in_phase ''zsk'' s (zview (upd_rollover (\<lambda>r. r\<lparr>r_PhaseFirstSigned := z_PublishedAt z,
      r_PhaseHorizon := fold (\<lambda>h acc. later_of acc h) hs (z_PublishedAt z + fl)\<rparr>) z'))"
    unfolding zview_upd_rollover eq using ph(2)
    by (intro in_phase_upd [OF ph(1)]) (auto simp: retired_late_def pushed_late_def)
qed auto

lemma EnsureLiveKey_triple:
  "triple domain P (EnsureLiveKey env lib cfg d kt tag)
    (\<lambda>r v. P v \<and> (\<forall>kp. r = Inr kp \<longrightarrow> KeyTag lib (fst kp) = tag))"
proof (rule tripleI)
  fix w :: world and r w'
  assume "zat domain P w" and run: "EnsureLiveKey env lib cfg d kt tag w = (r, w')"
  then have "zat domain P w'"
    using tripleD [OF triple_rest [OF rest.frame_EnsureLiveKey]] by blast
  moreover have "KeyTag lib (fst kp) = tag" if "r = Inr kp" for kp
    using EnsureLiveKey_Inr [of env lib cfg d kt tag w kp w'] run that by simp
  ultimately show "zat domain (\<lambda>v. P v \<and> (\<forall>kp. r = Inr kp \<longrightarrow> KeyTag lib (fst kp) = tag)) w'"
    by (auto simp: zat_def)
qed

lemma EnsureLiveKey_wrapped:
  "triple domain P (op_wrap s (EnsureLiveKey env lib cfg d kt tag))
    (\<lambda>r v. P v \<and> (\<forall>kp. r = Inr kp \<longrightarrow> KeyTag lib (fst kp) = tag))"
  by (rule triple_wrap, rule triple_weaken [OF EnsureLiveKey_triple [where P = P]]) (auto split: sum.splits)

lemma zsk_switch_inv:
  "triple domain (in_phase ''zsk'' ZSKRolloverStatePrePublish) (zsk_switch env lib rm domain now) (\<lambda>_. rollover_inv)"
  unfolding zsk_switch_def
proof (rule triple_with_rollover, intro triple_if triple_ok, simp_all del: in_phase_view rollover_inv_view,
    erule in_phase_inv, rule triple_bind [OF EnsureLiveKey_wrapped], simp add: in_phase_inv)
  fix z r kp
  assume ph: "in_phase ''zsk'' ZSKRolloverStatePrePublish (zview z)" "z_Rollover z = Some r"
  let ?f = "\<lambda>r. r\<lparr>r_State := ZSKRolloverStateSigning, r_PhaseStarted := now, r_PhaseFirstSigned := 0,
      r_PhaseHorizon := 0, r_Action := ''Automatic: signing with new ZSK, old ZSK still published''\<rparr>"
  have r: "zone_ok z" "rollover_ok z r" "r_Type r = ''zsk''"
    using ph rollover_invD by (auto simp: in_phase_def)
  show "triple domain (\<lambda>v. v = zview z \<and> (\<forall>kpa. Inr kp = Inr kpa \<longrightarrow> KeyTag lib (fst kpa) = r_NewKeyID r))
      (op_bind (Mutate domain (\<lambda>z. (upd_rollover ?f z)
        \<lparr>z_ZSK := Some (switched_zsk lib (rm_cfg rm) domain (fst kp) r), z_ForceResign := True\<rparr>)) (\<lambda>_. Save env))
      (\<lambda>_. rollover_inv)"
  proof (rule triple_mutate_save)
    fix z'
    assume v: "zview z' = zview z \<and> (\<forall>kpa. Inr kp = Inr kpa \<longrightarrow> KeyTag lib (fst kpa) = r_NewKeyID r)"
    have "rollover_inv ((zview z)\<lparr>z_Rollover := Some (?f r), z_ZSK := Some (switched_zsk lib (rm_cfg rm) domain (fst kp) r)\<rparr>)"
      using r v AlgorithmName_not_blank
      by (auto simp: rollover_inv_def zone_ok_def rollover_ok_def switched_zsk_def retired_late_def pushed_late_def phase_defs)
    moreover have "z_Rollover z' = Some r" using v ph(2) by (metis zview_fields(1))
    ultimately show "rollover_inv (zview ((upd_rollover ?f z')
        \<lparr>z_ZSK := Some (switched_zsk lib (rm_cfg rm) domain (fst kp) r), z_ForceResign := True\<rparr>))"
      using v ph(2) by (simp add: upd_rollover_def)
  qed
qed (auto dest: in_phase_inv)

lemma zsk_finish_inv:
  "triple domain (in_phase ''zsk'' s) (zsk_finish env domain now) (\<lambda>_. rollover_inv)"
  unfolding zsk_finish_def
  by (rule triple_with_rollover, intro triple_if triple_ok triple_mutate_save)
    (auto dest: in_phase_inv intro!: rollover_inv_clear)

lemma handleZSK_inv:
  "triple domain (\<lambda>v. rollover_inv v \<and> (\<exists>r. z_Rollover v = Some r \<and> r_Type r = ''zsk''))
    (handleZSKRolloverState env lib rm domain) (\<lambda>_. rollover_inv)"
  unfolding handleZSKRolloverState_def zsk_prepublish_step_def zsk_signing_step_def Let_def
proof (rule triple_with_rollover, rule triple_clock_bind, intro triple_if triple_ok)
  fix z r tm
  assume inv: "rollover_inv (zview z) \<and> (\<exists>r. z_Rollover (zview z) = Some r \<and> r_Type r = ''zsk'')" and r: "z_Rollover z = Some r"
  note ph = triple_in_phase [OF _ conjunct1 [OF inv] r, where t = "''zsk''"]
  show "triple domain (\<lambda>v. v = zview z) (op_bind (stampPhasePublication env domain (dnskeyTTLFloor (rm_cfg rm) z) [z_DNSKEYCacheHorizon z])
      (\<lambda>_. zsk_switch env lib rm domain (now_at env tm))) (\<lambda>_. rollover_inv)" if "r_State r = ZSKRolloverStatePrePublish"
    using that inv r
    by (intro ph [where s = ZSKRolloverStatePrePublish] triple_bind [OF stampPhase_zsk] zsk_switch_inv)
      (auto dest: in_phase_inv)
  show "triple domain (\<lambda>v. v = zview z) (op_bind (stampPhasePublication env domain (zskRetireFloor (rm_cfg rm) z)
      [z_DNSKEYCacheHorizon z, z_RRSIGCacheHorizon z]) (\<lambda>_. zsk_finish env domain (now_at env tm))) (\<lambda>_. rollover_inv)"
    if "r_State r = ZSKRolloverStateSigning"
    using that inv r
    by (intro ph [where s = ZSKRolloverStateSigning] triple_bind [OF stampPhase_zsk] zsk_finish_inv)
      (auto dest: in_phase_inv)
qed auto

end
