(* ===== verification/Rollover_Start.thy ===== *)
theory Rollover_Start
  imports Rollover_Safety
begin

text \<open>
  Starting a rollover: the backup of the old key and the staging of the new one guarantee
  that the record names two different keys, and no live key changes before the record that
  names it is on disk.
\<close>

section \<open>Two different keys\<close>

lemma samePublicKey_trans: "samePublicKey a b \<Longrightarrow> samePublicKey b c \<Longrightarrow> samePublicKey a c"
  by (auto simp: samePublicKey_def intro: EqualFold_trans)

lemma samePublicKey_sym: "samePublicKey a b \<Longrightarrow> samePublicKey b a"
  by (auto simp: samePublicKey_def intro: EqualFold_sym)

text \<open>
  The generator never returns the public key that is live: what a cryptographic generator
  promises up to a negligible probability.
\<close>

definition gen_fresh :: "keylib \<Rightarrow> config \<Rightarrow> string \<Rightarrow> string \<Rightarrow> 'w fs_world_scheme \<Rightarrow> bool" where
  "gen_fresh lib cfg domain kt w \<longleftrightarrow> (\<forall>t alg flags k p kl priv.
     generateDNSSECKey lib t domain alg flags = Inr (k, p) \<longrightarrow>
     verified_at lib w (liveBase cfg domain kt) domain kt = Some (kl, priv) \<longrightarrow> \<not> samePublicKey kl k)"

text \<open>The state between a successful backup and the staging of the successor.\<close>

definition backed_up :: "keylib \<Rightarrow> config \<Rightarrow> string \<Rightarrow> string \<Rightarrow> 16 word \<Rightarrow> 'w fs_world_scheme \<Rightarrow> bool" where
  "backed_up lib cfg domain kt keyID w \<longleftrightarrow> (\<exists>c k'. content w (taggedBase cfg domain kt keyID @ ''.key'') = Some c \<and>
     ParseDNSKEYFromFile lib c = Inr k' \<and>
     (\<forall>t alg flags k p. generateDNSSECKey lib t domain alg flags = Inr (k, p) \<longrightarrow> \<not> samePublicKey k' k))"

lemma BackupKey_backed_up:
  assumes "BackupKey env lib cfg domain kt keyID w = (Inr (), w')" and "gen_fresh lib cfg domain kt w"
  shows "backed_up lib cfg domain kt keyID w'"
proof -
  obtain k where b: "ensureVerifiedBackup env lib cfg domain kt w = (Inr k, w')" and tag: "KeyTag lib k = keyID"
    using assms(1) by (auto simp: BackupKey_def op_bind_Inr split: if_splits)
  obtain priv where "verified_at lib w (liveBase cfg domain kt) domain kt = Some (k, priv)"
    using ensureVerifiedBackup_Inr(1) [OF b] by blast
  with assms(2) have fresh: "generateDNSSECKey lib t domain alg flags = Inr (k2, p) \<Longrightarrow> \<not> samePublicKey k k2" for t alg flags k2 p
    unfolding gen_fresh_def by blast
  obtain k' priv' where v: "verified_at lib w' (taggedBase cfg domain kt keyID) domain kt = Some (k', priv')" "samePublicKey k' k"
    using ensureVerifiedBackup_Inr(2) [OF b] tag by blast
  obtain c where "content w' (taggedBase cfg domain kt keyID @ ''.key'') = Some c" "ParseDNSKEYFromFile lib c = Inr k'"
    using verified_at_public [OF v(1)] by blast
  moreover have "\<not> samePublicKey k' k2" if "generateDNSSECKey lib t domain alg flags = Inr (k2, p)" for t alg flags k2 p
    using fresh [OF that] samePublicKey_trans [OF samePublicKey_sym [OF v(2)]] by blast
  ultimately show ?thesis unfolding backed_up_def by blast
qed

lemma stage_new_tag:
  assumes "backed_up lib cfg domain (keyRole isKSK) keyID w"
    and "stageNewKey env lib cfg domain isKSK alg w = (Inr ks, w')"
  shows "k_ID ks \<noteq> keyID"
proof
  assume eq: "k_ID ks = keyID"
  obtain k priv t w1 where g: "generateDNSSECKey lib t domain (if alg = [] then GetZoneAlgorithm cfg domain else alg)
      (if isKSK then 257 else 256) = Inr (k, priv)" "k_ID ks = KeyTag lib k"
    and s: "StageKeyPair env lib cfg domain (keyRole isKSK) k priv w1 = (Inr (taggedBase cfg domain (keyRole isKSK) (k_ID ks)), w')"
    and c: "content w1 = content w"
    by (rule stageNewKey_Inr [OF assms(2)])
  obtain d k' where "content w (taggedBase cfg domain (keyRole isKSK) keyID @ ''.key'') = Some d"
    "ParseDNSKEYFromFile lib d = Inr k'" "\<not> samePublicKey k' k"
    using assms(1) g(1) unfolding backed_up_def by blast
  then have "refuses (StageKeyPair env lib cfg domain (keyRole isKSK) k priv) w1"
    using c eq g(2) by (intro stage_collision) auto
  with s show False unfolding refuses_def by blast
qed

lemma stage_algorithm:
  assumes "stageNewKey env lib cfg domain isKSK alg w = (Inr ks, w')" and "alg \<noteq> []"
  shows "k_Algorithm ks = alg" and "\<not> blank alg"
proof -
  obtain k priv t w1 where g: "generateDNSSECKey lib t domain (if alg = [] then GetZoneAlgorithm cfg domain else alg)
      (if isKSK then 257 else 256) = Inr (k, priv)" and "k_ID ks = KeyTag lib k"
    and ka: "k_Algorithm ks = (if alg = [] then GetZoneAlgorithm cfg domain else alg)"
    and "StageKeyPair env lib cfg domain (keyRole isKSK) k priv w1 = (Inr (taggedBase cfg domain (keyRole isKSK) (k_ID ks)), w')"
    and "content w1 = content w"
    by (rule stageNewKey_Inr [OF assms(1)])
  show "k_Algorithm ks = alg" using ka assms(2) by simp
  have "alg \<in> {''ED25519'', ''ECDSAP256SHA256'', ''ECDSAP384SHA384'', ''RSASHA256'', ''RSASHA512''}"
    using g assms(2) by (auto simp: generateDNSSECKey_def Let_def split: if_splits)
  moreover have "plain_char (CHR ''E'')" "plain_char (CHR ''R'')" by code_simp+
  ultimately show "\<not> blank alg" using blank_plain by auto
qed

section \<open>The record\<close>

lemma triple_save_record:
  assumes "\<And>z. P z \<Longrightarrow> Q (Inr ()) z" and "\<And>z e. P (zview z) \<Longrightarrow> Q (Inl e) (zview (rb z))"
  shows "triple domain P (save_record env domain rb) Q"
  unfolding save_record_def
proof (rule triple_try [OF triple_Save])
  fix r :: "error + unit"
  show "triple domain P (case r of Inl e \<Rightarrow> if IsCommitted e then op_ok ()
      else op_bind (Mutate domain rb) (\<lambda>_. op_fail (Wrap ''saving rollover state (no live key was changed)'' e)) | Inr _ \<Rightarrow> op_ok ()) Q"
  proof (cases r)
    case (Inr u)
    show ?thesis unfolding Inr sum.case by (rule triple_ok) (rule assms(1))
  next
    case (Inl e)
    have "triple domain P (op_bind (Mutate domain rb) (\<lambda>_. op_fail (Wrap ''saving rollover state (no live key was changed)'' e))) Q"
      by (rule triple_bind [OF triple_Mutate [where Q = "\<lambda>_ z. \<forall>e. Q (Inl e) z"]])
        (auto intro: assms(2) intro!: triple_fail)
    then show ?thesis unfolding Inl sum.case by (intro triple_if triple_ok assms(1))
  qed
qed

lemma rest_activate: "keeps same_rest (activateRecorded env lib rm domain kt tag)"
  unfolding activateRecorded_def by (intro rest.keeps_wrap rest.frame_ActivateKeyPair) auto

lemma rest_BackupKey: "keeps same_rest (BackupKey env lib cfg domain kt keyID)"
  unfolding BackupKey_def by (intro rest.keeps_rules rest.frame_ensureVerifiedBackup) auto

lemma rest_stageNewKey: "keeps same_rest (stageNewKey env lib cfg domain isKSK alg)"
  by (rule rest.frame_stageNewKey) simp

lemma ksk_record_inv:
  assumes "zone_ok z" "k_ID new \<noteq> k_ID old" "\<not> blank (k_Algorithm new)"
  shows "rollover_inv (z\<lparr>z_Rollover := Some (ksk_record domain old new now), z_KSK := Some new\<rparr>)"
  using assms
  by (auto simp: rollover_inv_def zone_ok_def rollover_ok_def ksk_record_def zero_rollover_def
      retired_late_def pushed_late_def phase_defs)

lemma zsk_record_inv:
  assumes "zone_ok z" "z_ZSK z = Some old" "k_ID new \<noteq> k_ID old"
  shows "rollover_inv (z\<lparr>z_Rollover := Some (zsk_record cfg old new now)\<rparr>)"
  using assms
  by (auto simp: rollover_inv_def zone_ok_def rollover_ok_def zsk_record_def zero_rollover_def
      retired_late_def pushed_late_def phase_defs)

lemma algo_record_inv:
  assumes "zone_ok z" "k_ID newKSK \<noteq> k_ID oldKSK" "k_ID newZSK \<noteq> k_ID oldZSK"
    "k_Algorithm newKSK = target" "k_Algorithm newZSK = target" "\<not> blank target" "\<not> blank (k_Algorithm oldKSK)"
    "k_Algorithm oldKSK \<noteq> target"
  shows "rollover_inv (z\<lparr>z_Rollover := Some (algo_record domain target oldKSK oldZSK newKSK newZSK now),
    z_KSK := Some newKSK, z_ZSK := Some newZSK\<rparr>)"
  using assms
  by (auto simp: rollover_inv_def zone_ok_def rollover_ok_def algo_record_def zero_rollover_def
      retired_late_def pushed_late_def phase_defs)

lemma triple_last_rest: "keeps same_rest m \<Longrightarrow> (\<And>r z. P z \<Longrightarrow> Q r z) \<Longrightarrow> triple domain P m Q"
  by (rule triple_weaken [OF triple_rest])

lemma triple_commit:
  assumes "\<And>z. P (zview z) \<Longrightarrow> rollover_inv (zview (f z))"
    and "\<And>z z'. P (zview z) \<Longrightarrow> zview z' = zview (f z) \<Longrightarrow> rollover_inv (zview (rb z'))"
    and "keeps same_rest m"
  shows "triple domain P (op_bind (Mutate domain f) (\<lambda>_. op_bind (save_record env domain rb) (\<lambda>_. m))) (\<lambda>_. rollover_inv)"
proof (rule triple_bind [where M = "\<lambda>_ v. \<exists>z. P (zview z) \<and> v = zview (f z)"])
  show "triple domain P (Mutate domain f) (\<lambda>_ v. \<exists>z. P (zview z) \<and> v = zview (f z))"
    by (rule triple_Mutate) blast
  show "triple domain (\<lambda>v. \<exists>z. P (zview z) \<and> v = zview (f z)) (op_bind (save_record env domain rb) (\<lambda>_. m)) (\<lambda>_. rollover_inv)"
    by (rule triple_bind [OF triple_save_record [where Q = "\<lambda>_. rollover_inv"]])
      (use assms in \<open>auto intro: triple_last_rest\<close>)
qed (use assms(1) in auto)

lemma ksk_commit_inv:
  assumes "zone_ok z" "z_KSK z = Some old" "z_Rollover z = None" "k_ID new \<noteq> k_ID old" "\<not> blank (k_Algorithm new)"
  shows "triple domain (\<lambda>v. v = zview z) (ksk_commit env lib rm domain old new) (\<lambda>_. rollover_inv)"
  unfolding ksk_commit_def
proof (rule triple_clock_bind)
  fix t
  let ?v = "(zview z)\<lparr>z_Rollover := Some (ksk_record domain old new (now_at env t)), z_KSK := Some new, z_ForceResign := True\<rparr>"
  have inv: "rollover_inv ?v" using ksk_record_inv [of "zview z"] assms by simp
  have undo: "rollover_inv (zview (z'\<lparr>z_KSK := Some old, z_Rollover := None, z_ForceResign := False\<rparr>))" if "zview z' = ?v" for z'
    using that assms by (simp add: rollover_inv_def zone_ok_def)
  show "triple domain (\<lambda>v. v = zview z) (op_bind (Mutate domain (\<lambda>z. z\<lparr>z_Rollover := Some (ksk_record domain old new (now_at env t)),
         z_KSK := Some new, z_ForceResign := True\<rparr>)) (\<lambda>_.
     op_bind (save_record env domain (\<lambda>z. z\<lparr>z_KSK := Some old, z_Rollover := None, z_ForceResign := False\<rparr>)) (\<lambda>_.
       activateRecorded env lib rm domain ''ksk'' (k_ID new)))) (\<lambda>_. rollover_inv)"
    by (rule triple_commit [OF _ _ rest_activate]) (use inv undo in simp_all)
qed

lemma zsk_commit_inv:
  assumes "zone_ok z" "z_ZSK z = Some old" "z_Rollover z = None" "k_ID new \<noteq> k_ID old"
  shows "triple domain (\<lambda>v. v = zview z) (zsk_commit env lib rm domain old new) (\<lambda>_. rollover_inv)"
  unfolding zsk_commit_def
proof (rule triple_clock_bind)
  fix t
  let ?v = "(zview z)\<lparr>z_Rollover := Some (zsk_record (rm_cfg rm) old new (now_at env t)), z_ForceResign := True\<rparr>"
  have inv: "rollover_inv ?v" using zsk_record_inv [of "zview z"] assms by simp
  have undo: "rollover_inv (zview (z'\<lparr>z_Rollover := None, z_ForceResign := False\<rparr>))" if "zview z' = ?v" for z'
    using that assms by (simp add: rollover_inv_def zone_ok_def)
  show "triple domain (\<lambda>v. v = zview z) (op_bind (Mutate domain (\<lambda>z. z\<lparr>z_Rollover := Some (zsk_record (rm_cfg rm) old new (now_at env t)),
         z_ForceResign := True\<rparr>)) (\<lambda>_.
     op_bind (save_record env domain (\<lambda>z. z\<lparr>z_Rollover := None, z_ForceResign := False\<rparr>)) (\<lambda>_.
       activateRecorded env lib rm domain ''zsk'' (k_ID new)))) (\<lambda>_. rollover_inv)"
    by (rule triple_commit [OF _ _ rest_activate]) (use inv undo in simp_all)
qed

lemma algo_commit_inv:
  assumes "zone_ok z" "z_KSK z = Some oldKSK" "z_ZSK z = Some oldZSK" "z_Rollover z = None"
    "k_ID newKSK \<noteq> k_ID oldKSK" "k_ID newZSK \<noteq> k_ID oldZSK" "k_Algorithm newKSK = target" "k_Algorithm newZSK = target"
    "\<not> blank target" "k_Algorithm oldKSK \<noteq> target"
  shows "triple domain (\<lambda>v. v = zview z) (algo_commit env lib rm domain target oldKSK oldZSK newKSK newZSK) (\<lambda>_. rollover_inv)"
  unfolding algo_commit_def
proof (rule triple_clock_bind)
  fix t
  let ?v = "(zview z)\<lparr>z_Rollover := Some (algo_record domain target oldKSK oldZSK newKSK newZSK (now_at env t)),
    z_KSK := Some newKSK, z_ZSK := Some newZSK, z_ForceResign := True\<rparr>"
  have "\<not> blank (k_Algorithm oldKSK)" using assms(1,2) by (simp add: zone_ok_def)
  then have inv: "rollover_inv ?v" using algo_record_inv [of "zview z"] assms by simp
  have undo: "rollover_inv (zview (z'\<lparr>z_KSK := Some oldKSK, z_ZSK := Some oldZSK, z_Rollover := None, z_ForceResign := False\<rparr>))"
    if "zview z' = ?v" for z'
    using that assms by (simp add: rollover_inv_def zone_ok_def)
  show "triple domain (\<lambda>v. v = zview z) (op_bind (Mutate domain (\<lambda>z. z\<lparr>z_Rollover := Some (algo_record domain target oldKSK oldZSK newKSK newZSK (now_at env t)),
         z_KSK := Some newKSK, z_ZSK := Some newZSK, z_ForceResign := True\<rparr>)) (\<lambda>_.
     op_bind (save_record env domain (\<lambda>z. z\<lparr>z_KSK := Some oldKSK, z_ZSK := Some oldZSK, z_Rollover := None, z_ForceResign := False\<rparr>)) (\<lambda>_.
       op_bind (activateRecorded env lib rm domain ''ksk'' (k_ID newKSK)) (\<lambda>_.
       activateRecorded env lib rm domain ''zsk'' (k_ID newZSK))))) (\<lambda>_. rollover_inv)"
    by (rule triple_commit [OF _ _ rest.keeps_bind [OF rest_activate rest_activate]]) (use inv undo in simp_all)
qed

section \<open>Starting\<close>

lemma zat_rest: "keeps same_rest m \<Longrightarrow> m w = (r, w') \<Longrightarrow> zat domain P w \<Longrightarrow> zat domain P w'"
  by (rule tripleD [OF triple_rest])

lemma backup_stage_cases:
  fixes w :: world
  assumes "op_bind (op_wrap s1 (BackupKey env lib cfg domain (keyRole isKSK) keyID)) (\<lambda>_.
      op_bind (op_wrap s2 (stageNewKey env lib cfg domain isKSK alg)) f) w = (r, w')"
    and fresh: "gen_fresh lib cfg domain (keyRole isKSK) w" and P: "zat domain P w"
  obtains (stopped) "zat domain P w'"
    | (staged) ks w2 w1 where "f ks w2 = (r, w')" "zat domain P w2" "k_ID ks \<noteq> keyID"
      "stageNewKey env lib cfg domain isKSK alg w1 = (Inr ks, w2)"
  using assms(1)
proof (cases rule: op_bind_cases)
  case (failed e)
  then show ?thesis using zat_rest [OF rest.keeps_wrap [OF rest_BackupKey] failed(1) P] stopped by blast
next
  case (next_step x w1)
  have b: "BackupKey env lib cfg domain (keyRole isKSK) keyID w = (Inr (), w1)"
    using next_step(1) by (simp add: op_wrap_Inr)
  have P1: "zat domain P w1" by (rule zat_rest [OF rest_BackupKey b P])
  from next_step(2) show ?thesis
  proof (cases rule: op_bind_cases)
    case (failed e)
    then show ?thesis using zat_rest [OF rest.keeps_wrap [OF rest_stageNewKey] failed(1) P1] stopped by blast
  next
    case (next_step ks w2)
    then have st: "stageNewKey env lib cfg domain isKSK alg w1 = (Inr ks, w2)" by (simp add: op_wrap_Inr)
    show ?thesis using staged next_step(2) zat_rest [OF rest_stageNewKey st P1] st
        stage_new_tag [OF BackupKey_backed_up [OF b fresh] st] by blast
  qed
qed

lemma zat_zone:
  assumes "zat domain rollover_inv w"
  obtains z where "GetZone domain (mem w) = Some z" "rollover_inv z"
  using assms by (auto simp: zat_def)

lemma StartKSKRollover_inv:
  assumes inv: "zat domain rollover_inv w" and fresh: "gen_fresh lib (rm_cfg rm) domain ''ksk'' w"
    and run: "StartKSKRollover env lib rm domain w = (r, w')"
  shows "zat domain rollover_inv w'"
proof -
  obtain z where z: "GetZone domain (mem w) = Some z" "rollover_inv z" using zat_zone [OF inv] .
  have zv: "zat domain (\<lambda>v. v = zview z) w" using z(1) by (auto simp: zat_def)
  show ?thesis
  proof (cases "z_Rollover z = None \<and> (\<exists>old. z_KSK z = Some old)")
    case False
    then have "w' = w" using run z(1)
      by (cases "z_KSK z") (auto simp: StartKSKRollover_def look_bind split: if_splits)
    then show ?thesis using inv by simp
  next
    case True
    then obtain old where none: "z_Rollover z = None" and old: "z_KSK z = Some old" by blast
    have ok: "zone_ok z" "\<not> blank (k_Algorithm old)" using z(2) old by (auto simp: rollover_inv_def zone_ok_def)
    have fr: "gen_fresh lib (rm_cfg rm) domain (keyRole True) w" using fresh by (simp add: keyRole_def)
    have run1: "op_bind (op_wrap ''backing up old KSK before rollover'' (BackupKey env lib (rm_cfg rm) domain (keyRole True) (k_ID old))) (\<lambda>_.
        op_bind (op_wrap ''generating new KSK'' (stageNewKey env lib (rm_cfg rm) domain True (k_Algorithm old))) (\<lambda>new.
        ksk_commit env lib rm domain old new)) w = (r, w')"
      using run z(1) none old by (simp add: StartKSKRollover_def look_bind keyRole_def)
    from run1 fr zv show ?thesis
    proof (cases rule: backup_stage_cases)
      case stopped
      then show ?thesis using z(2) by (auto elim: zat_mono)
    next
      case (staged ks w2 w1)
      have "\<not> blank (k_Algorithm ks)"
        using stage_algorithm [OF staged(4)] ok(2) by (metis blank_Nil)
      with staged(3) show ?thesis
        using tripleD [OF ksk_commit_inv [OF ok(1) old none] staged(2,1)] by blast
    qed
  qed
qed

lemma startZSKRollover_inv:
  assumes inv: "rollover_inv z" and zv: "zat domain (\<lambda>v. v = zview z) w" and old: "z_ZSK z = Some old"
    and fresh: "gen_fresh lib (rm_cfg rm) domain ''zsk'' w"
    and run: "startZSKRollover env lib rm domain z old w = (r, w')"
  shows "zat domain rollover_inv w'"
proof (cases "z_Rollover z")
  case None
  have ok: "zone_ok z" using inv by (simp add: rollover_inv_def)
  have fr: "gen_fresh lib (rm_cfg rm) domain (keyRole False) w" using fresh by (simp add: keyRole_def)
  have run1: "op_bind (op_wrap ''backing up old ZSK before rollover'' (BackupKey env lib (rm_cfg rm) domain (keyRole False) (k_ID old))) (\<lambda>_.
      op_bind (op_wrap ''generating new ZSK'' (stageNewKey env lib (rm_cfg rm) domain False (k_Algorithm old))) (\<lambda>new.
      zsk_commit env lib rm domain old new)) w = (r, w')"
    using run None by (simp add: startZSKRollover_def keyRole_def)
  from run1 fr zv show ?thesis
  proof (cases rule: backup_stage_cases)
    case stopped
    then show ?thesis using inv by (auto elim: zat_mono)
  next
    case (staged ks w2 w1)
    show ?thesis using tripleD [OF zsk_commit_inv [OF ok old None staged(3)] staged(2,1)] by blast
  qed
next
  case (Some ro)
  then have "w' = w" using run by (simp add: startZSKRollover_def)
  then show ?thesis using zv inv by (auto elim: zat_mono)
qed

lemma gen_fresh_cong: "content w' = content w \<Longrightarrow> gen_fresh lib cfg domain kt w' = gen_fresh lib cfg domain kt w"
  using verified_at_cong [of w' _ w] unfolding gen_fresh_def by metis

lemma CheckZSKRollover_inv:
  assumes inv: "zat domain rollover_inv w" and fresh: "gen_fresh lib (rm_cfg rm) domain ''zsk'' w"
    and run: "CheckZSKRollover env lib rm domain w = (r, w')"
  shows "zat domain rollover_inv w'"
proof -
  obtain z where z: "GetZone domain (mem w) = Some z" "rollover_inv z" using zat_zone [OF inv] .
  define w1 where "w1 = w\<lparr>tick := Suc (tick w)\<rparr>"
  have w1: "content w1 = content w" "GetZone domain (mem w1) = Some z"
    using z(1) by (auto simp: w1_def fun_eq_iff)
  then have zv: "zat domain (\<lambda>v. v = zview z) w1" and inv1: "zat domain rollover_inv w1"
    using z(2) by (auto simp: zat_def)
  show ?thesis
  proof (cases "z_ZSK z")
    case None
    then have "w' = w" using run z(1) by (simp add: CheckZSKRollover_def look_def op_bind_def)
    then show ?thesis using inv by simp
  next
    case (Some zsk)
    let ?due = "days (time_sub (k_Expires zsk) (now_at env (tick w))) \<le> days (c_RolloverPrepublish (DNSSEC (rm_cfg rm)))"
    have step: "(case z_Rollover z of
        Some ro \<Rightarrow> if r_Type ro = ''zsk'' then handleZSKRolloverState env lib rm domain
          else if ?due then op_bind (Mutate domain (AddWarning (blocked_zsk_warning
            (days (time_sub (k_Expires zsk) (now_at env (tick w)))) (r_Type ro)))) (\<lambda>_. Save env) else op_ok ()
      | None \<Rightarrow> if ?due then startZSKRollover env lib rm domain z zsk else op_ok ()) w1 = (r, w')"
      using run z(1) Some
      by (cases "z_Rollover z") (simp_all add: CheckZSKRollover_def look_bind clock_bind w1_def Let_def split: if_splits)
    show ?thesis
    proof (cases "z_Rollover z")
      case None
      show ?thesis
      proof (cases ?due)
        case True
        then show ?thesis using step None startZSKRollover_inv [OF z(2) zv Some] fresh gen_fresh_cong [OF w1(1)] by simp
      next
        case False
        then show ?thesis using step None inv1 by simp
      qed
    next
      case (Some ro)
      have "triple domain (\<lambda>v. v = zview z) (if r_Type ro = ''zsk'' then handleZSKRolloverState env lib rm domain
          else if ?due then op_bind (Mutate domain (AddWarning (blocked_zsk_warning
            (days (time_sub (k_Expires zsk) (now_at env (tick w)))) (r_Type ro)))) (\<lambda>_. Save env) else op_ok ()) (\<lambda>_. rollover_inv)"
        using z(2) Some by (intro triple_if triple_mutate_save triple_ok) (auto intro: triple_weaken [OF handleZSK_inv])
      then show ?thesis using step Some tripleD [OF _ zv] by simp
    qed
  qed
qed

subsection \<open>Algorithm rollover\<close>

lemma backup_paths_prefix:
  assumes "key_names domain kt" "p \<in> backup_paths cfg domain kt"
  shows "\<exists>x. p = path_prefix (KeysDir cfg) @ domain @ ''.'' @ kt @ x"
  using assms
  by (auto simp: backup_paths_def slot_paths_def numbered_paths_def taggedBase_live liveBase_plain live_name_def)

lemma roles_disjoint:
  assumes "CHR ''/'' \<notin> set domain"
  shows "backup_paths cfg domain ''ksk'' \<inter> backup_paths cfg domain ''zsk'' = {}"
proof -
  have k: "key_names domain ''ksk''" "key_names domain ''zsk''" using assms by (simp_all add: key_names_def)
  show ?thesis
  proof (rule equals0I)
    fix p assume p: "p \<in> backup_paths cfg domain ''ksk'' \<inter> backup_paths cfg domain ''zsk''"
    obtain x where x: "p = path_prefix (KeysDir cfg) @ domain @ ''.'' @ ''ksk'' @ x"
      using backup_paths_prefix [OF k(1) IntD1 [OF p]] by (elim exE)
    obtain y where y: "p = path_prefix (KeysDir cfg) @ domain @ ''.'' @ ''zsk'' @ y"
      using backup_paths_prefix [OF k(2) IntD2 [OF p]] by (elim exE)
    from trans [OF x [symmetric] y] show False by simp
  qed
qed

lemma backed_up_frame:
  assumes "backed_up lib cfg domain kt keyID w" and "only_files P w w'" and "P \<inter> backup_paths cfg domain kt = {}"
  shows "backed_up lib cfg domain kt keyID w'"
proof -
  have "taggedBase cfg domain kt keyID @ ''.key'' \<in> backup_paths cfg domain kt"
    by (rule slot_paths_mem(1) [OF backup_paths_sub(1) [OF subset_refl]])
  then have "content w' (taggedBase cfg domain kt keyID @ ''.key'') = content w (taggedBase cfg domain kt keyID @ ''.key'')"
    using assms(2,3) by (auto simp: only_files_def)
  then show ?thesis using assms(1) by (simp add: backed_up_def)
qed

lemma only_BackupKey: "keeps (only_files (backup_paths cfg domain kt)) (BackupKey env lib cfg domain kt keyID)"
  unfolding BackupKey_def by (intro onlyf.keeps_rules outside.frame_ensureVerifiedBackup) auto

lemma only_stageNewKey:
  "keeps (only_files (backup_paths cfg domain (keyRole isKSK))) (stageNewKey env lib cfg domain isKSK alg)"
  by (rule outside.frame_stageNewKey) simp

lemma gen_fresh_frame:
  assumes "gen_fresh lib cfg domain kt w" and "only_files P w w'" and "P \<inter> live_paths cfg domain kt = {}"
  shows "gen_fresh lib cfg domain kt w'"
proof -
  have "verified_at lib w' (liveBase cfg domain kt) domain kt = verified_at lib w (liveBase cfg domain kt) domain kt"
    using assms(2,3) by (intro verified_at_cong) (auto simp: only_files_def live_paths_def)
  then show ?thesis using assms(1) by (simp add: gen_fresh_def)
qed

lemma ksk_backup_not_zsk_live:
  assumes "CHR ''/'' \<notin> set domain"
  shows "backup_paths cfg domain ''ksk'' \<inter> live_paths cfg domain ''zsk'' = {}"
proof -
  have k: "key_names domain ''ksk''" "key_names domain ''zsk''" using assms by (simp_all add: key_names_def)
  show ?thesis
  proof (rule equals0I)
    fix p assume p: "p \<in> backup_paths cfg domain ''ksk'' \<inter> live_paths cfg domain ''zsk''"
    obtain x where "p = path_prefix (KeysDir cfg) @ domain @ ''.'' @ ''ksk'' @ x"
      using backup_paths_prefix [OF k(1) IntD1 [OF p]] by (elim exE)
    moreover have "\<exists>y. p = path_prefix (KeysDir cfg) @ domain @ ''.'' @ ''zsk'' @ y"
      using p liveBase_plain [OF k(2)] by (auto simp: live_paths_def live_name_def)
    ultimately show False by auto
  qed
qed

lemma bind_rest_step:
  assumes "keeps same_rest m" "op_bind m f w = (r, w')" "zat domain P w" "\<not> zat domain P w'"
  shows "\<exists>x w1. m w = (Inr x, w1) \<and> zat domain P w1 \<and> f x w1 = (r, w')"
  using assms(2)
proof (cases rule: op_bind_cases)
  case (failed e)
  then show ?thesis using zat_rest [OF assms(1) failed(1) assms(3)] assms(4) by blast
next
  case (next_step x w1)
  then show ?thesis using zat_rest [OF assms(1) next_step(1) assms(3)] by blast
qed

text \<open>The four key operations of an algorithm rollover, when all succeed.\<close>

lemma algo_keys:
  fixes w :: world
  assumes names: "CHR ''/'' \<notin> set domain"
    and fresh: "gen_fresh lib cfg domain ''ksk'' w" "gen_fresh lib cfg domain ''zsk'' w"
    and b1: "BackupKey env lib cfg domain ''ksk'' oldK w = (Inr (), w1)"
    and b2: "BackupKey env lib cfg domain ''zsk'' oldZ w1 = (Inr (), w2)"
    and s1: "stageNewKey env lib cfg domain True alg w2 = (Inr newK, w3)"
    and s2: "stageNewKey env lib cfg domain False alg w3 = (Inr newZ, w4)"
  shows "k_ID newK \<noteq> oldK" and "k_ID newZ \<noteq> oldZ"
proof -
  note dis = roles_disjoint [OF names, of cfg] ksk_backup_not_zsk_live [OF names, of cfg]
  have "backed_up lib cfg domain ''ksk'' oldK w1" by (rule BackupKey_backed_up [OF b1 fresh(1)])
  then have "backed_up lib cfg domain ''ksk'' oldK w2"
    using backed_up_frame keepsD [OF only_BackupKey b2] dis(1) by blast
  then show "k_ID newK \<noteq> oldK" using stage_new_tag [OF _ s1] by (simp add: keyRole_def)
  have "gen_fresh lib cfg domain ''zsk'' w1"
    using gen_fresh_frame [OF fresh(2) keepsD [OF only_BackupKey b1] dis(2)] .
  then have "backed_up lib cfg domain ''zsk'' oldZ w2" by (rule BackupKey_backed_up [OF b2])
  then have "backed_up lib cfg domain ''zsk'' oldZ w3"
    using backed_up_frame keepsD [OF only_stageNewKey s1] dis(1) by (metis keyRole_def)
  then show "k_ID newZ \<noteq> oldZ" using stage_new_tag [OF _ s2] by (simp add: keyRole_def)
qed

lemma StartAlgorithmRollover_inv:
  assumes inv: "zat domain rollover_inv w" and names: "CHR ''/'' \<notin> set domain" and target: "target \<noteq> []"
    and fresh: "gen_fresh lib (rm_cfg rm) domain ''ksk'' w" "gen_fresh lib (rm_cfg rm) domain ''zsk'' w"
    and run: "StartAlgorithmRollover env lib rm domain target w = (r, w')"
  shows "zat domain rollover_inv w'"
proof -
  obtain z where z: "GetZone domain (mem w) = Some z" "rollover_inv z" using zat_zone [OF inv] .
  have zv: "zat domain (\<lambda>v. v = zview z) w" using z(1) by (auto simp: zat_def)
  have keep: "zat domain rollover_inv w5" if "zat domain (\<lambda>v. v = zview z) w5" for w5
    using that z(2) by (auto elim: zat_mono)
  show ?thesis
  proof (cases "z_Rollover z = None \<and> (\<exists>k s. z_KSK z = Some k \<and> z_ZSK z = Some s \<and> k_Algorithm k \<noteq> target)")
    case False
    then have "w' = w" using run z(1)
      by (cases "z_KSK z"; cases "z_ZSK z") (auto simp: StartAlgorithmRollover_def look_bind split: if_splits)
    then show ?thesis using inv by simp
  next
    case True
    then obtain k s where k: "z_KSK z = Some k" "z_ZSK z = Some s" "k_Algorithm k \<noteq> target" and none: "z_Rollover z = None"
      by blast
    have ok: "zone_ok z" using z(2) by (simp add: rollover_inv_def)
    let ?b1 = "op_wrap ''backing up old KSK before algorithm rollover'' (BackupKey env lib (rm_cfg rm) domain ''ksk'' (k_ID k))"
    let ?b2 = "op_wrap ''backing up old ZSK before algorithm rollover'' (BackupKey env lib (rm_cfg rm) domain ''zsk'' (k_ID s))"
    let ?s1 = "op_wrap ''generating new KSK'' (stageNewKey env lib (rm_cfg rm) domain True target)"
    let ?s2 = "op_wrap ''generating new ZSK'' (stageNewKey env lib (rm_cfg rm) domain False target)"
    have run0: "op_bind ?b1 (\<lambda>_. op_bind ?b2 (\<lambda>_. op_bind ?s1 (\<lambda>nk. op_bind ?s2 (\<lambda>nz.
        algo_commit env lib rm domain target k s nk nz)))) w = (r, w')"
      using run z(1) none k by (simp add: StartAlgorithmRollover_def look_bind)
    have rest: "keeps same_rest ?b1" "keeps same_rest ?b2" "keeps same_rest ?s1" "keeps same_rest ?s2"
      by (intro rest.keeps_wrap rest_BackupKey rest_stageNewKey)+
    show ?thesis
    proof (rule ccontr)
      assume "\<not> zat domain rollover_inv w'"
      then have n: "\<not> zat domain (\<lambda>v. v = zview z) w'" using keep by blast
      obtain w1 where m1: "?b1 w = (Inr (), w1)" "zat domain (\<lambda>v. v = zview z) w1"
        and run1: "op_bind ?b2 (\<lambda>_. op_bind ?s1 (\<lambda>nk. op_bind ?s2 (\<lambda>nz. algo_commit env lib rm domain target k s nk nz))) w1 = (r, w')"
        using bind_rest_step [OF rest(1) run0 zv n] by auto
      obtain w2 where m2: "?b2 w1 = (Inr (), w2)" "zat domain (\<lambda>v. v = zview z) w2"
        and run2: "op_bind ?s1 (\<lambda>nk. op_bind ?s2 (\<lambda>nz. algo_commit env lib rm domain target k s nk nz)) w2 = (r, w')"
        using bind_rest_step [OF rest(2) run1 m1(2) n] by auto
      obtain nk w3 where m3: "?s1 w2 = (Inr nk, w3)" "zat domain (\<lambda>v. v = zview z) w3"
        and run3: "op_bind ?s2 (\<lambda>nz. algo_commit env lib rm domain target k s nk nz) w3 = (r, w')"
        using bind_rest_step [OF rest(3) run2 m2(2) n] by auto
      obtain nz w4 where m4: "?s2 w3 = (Inr nz, w4)" "zat domain (\<lambda>v. v = zview z) w4"
        and run4: "algo_commit env lib rm domain target k s nk nz w4 = (r, w')"
        using bind_rest_step [OF rest(4) run3 m3(2) n] by auto
      note ms = m1(1) [unfolded op_wrap_Inr] m2(1) [unfolded op_wrap_Inr] m3(1) [unfolded op_wrap_Inr] m4(1) [unfolded op_wrap_Inr]
      have "zat domain rollover_inv w'"
        using tripleD [OF algo_commit_inv [OF ok k(1,2) none algo_keys [OF names fresh ms]
              stage_algorithm(1) [OF ms(3) target] stage_algorithm(1) [OF ms(4) target]
              stage_algorithm(2) [OF ms(3) target] k(3)] m4(2) run4] .
      with \<open>\<not> zat domain rollover_inv w'\<close> show False by contradiction
    qed
  qed
qed

section \<open>The record is on disk before a live key changes\<close>

definition disk_zone :: "string \<Rightarrow> world \<Rightarrow> zone_state option" where
  "disk_zone domain w = (case sfile w of
      Doc d \<Rightarrow> (case map_of (nil_map (d_Zones d)) domain of Some (Some z) \<Rightarrow> Some z | _ \<Rightarrow> None)
    | _ \<Rightarrow> None)"

lemma disk_zone_marshal: "sfile w = Doc (marshal s) \<Longrightarrow> disk_zone domain w = GetZone domain s"
proof -
  assume "sfile w = Doc (marshal s)"
  moreover have "map_of (map (\<lambda>(n, z). (n, Some z)) (s_Zones s)) domain = map_option Some (map_of (s_Zones s) domain)"
    using map_of_map_val [of "\<lambda>k z. Some z" "s_Zones s" domain] by simp
  ultimately show ?thesis
    by (simp add: disk_zone_def marshal_def nil_map_def GetZone_def split: option.split)
qed

lemma sfile_of_rest: "same_rest w w' \<Longrightarrow> sfile w' = sfile w"
  for w w' :: world
  by (cases w; cases w') (simp add: same_rest_def)

lemma save_then_activate:
  assumes "op_bind (save_record env domain rb) (\<lambda>_. m) w = (r, w')" and "keeps same_rest m"
  shows "content w' = content w \<or> disk_zone domain w' = GetZone domain (bump_revisions (mem w))"
proof -
  obtain q w1 where s: "Save env w = (q, w1)" by (cases "Save env w")
  have files: "content w1 = content w" using Save_files [of env w] s by (auto simp: content_def)
  show ?thesis
  proof (cases "q = Inr () \<or> (\<exists>e. q = Inl e \<and> IsCommitted e)")
    case True
    then have "m w1 = (r, w')" using assms(1) s by (auto simp: save_record_def op_bind_def op_try_def)
    then have "sfile w' = sfile w1" by (rule sfile_of_rest [OF keepsD [OF assms(2)]])
    moreover have "sfile w1 = Doc (marshal (bump_revisions (mem w)))"
      using True s by (cases rule: Save_cases [of env w]) auto
    ultimately show ?thesis using disk_zone_marshal [of w'] by simp
  next
    case False
    then obtain e where "q = Inl e" "\<not> IsCommitted e" by (cases q) auto
    then have "w' = snd (Mutate domain rb w1)"
      using assms(1) s by (auto simp: save_record_def op_bind_def op_try_def Mutate_def)
    then show ?thesis using files by (auto simp: Mutate_def upd_mem_def content_def fun_eq_iff)
  qed
qed

lemma commit_disk:
  assumes "op_bind (Mutate domain f) (\<lambda>_. op_bind (save_record env domain rb) (\<lambda>_. m)) w = (r, w')"
    and "keeps same_rest m" and "GetZone domain (mem w) = Some z"
  shows "content w' = content w \<or> (\<exists>z'. disk_zone domain w' = Some z' \<and> zview z' = zview (f z))"
proof -
  define w1 where "w1 = upd_mem (UpdateZone domain f) w"
  have "op_bind (save_record env domain rb) (\<lambda>_. m) w1 = (r, w')"
    using assms(1) by (simp add: Mutate_def op_bind_def [of "op_upd _"] w1_def)
  then have "content w' = content w1 \<or> disk_zone domain w' = GetZone domain (bump_revisions (mem w1))"
    by (rule save_then_activate [OF _ assms(2)])
  moreover have "content w1 = content w" by (auto simp: w1_def upd_mem_def content_def)
  moreover have "GetZone domain (bump_revisions (mem w1)) = Some (bump_revision (s_base (mem w1)) domain (f z))"
    using assms(3) by (simp add: w1_def upd_mem_def GetZone_bump_revisions GetZone_Mutate)
  ultimately show ?thesis by auto
qed

lemma StartKSKRollover_order:
  assumes names: "key_names domain ''ksk''" and run: "StartKSKRollover env lib rm domain w = (r, w')"
  shows "live_halves (rm_cfg rm) domain ''ksk'' w' = live_halves (rm_cfg rm) domain ''ksk'' w \<or>
    (\<exists>z' old new now. disk_zone domain w' = Some z' \<and> z_KSK z' = Some new \<and>
       z_Rollover z' = Some (ksk_record domain old new now))"
proof -
  have live: "live_halves (rm_cfg rm) domain ''ksk'' v' = live_halves (rm_cfg rm) domain ''ksk'' v"
    if "keeps (only_files (backup_paths (rm_cfg rm) domain ''ksk'')) m" "m v = (q, v')" for m v q v'
    by (rule backup_keeps_live [OF names keepsD [OF that]])
  note b = onlyf.keeps_wrap [OF only_BackupKey] and s = onlyf.keeps_wrap [OF only_stageNewKey [where isKSK = True, unfolded keyRole_def, simplified]]
  show ?thesis
  proof (cases "\<exists>z old. GetZone domain (mem w) = Some z \<and> z_Rollover z = None \<and> z_KSK z = Some old")
    case False
    then have "w' = w" using run
      by (auto simp: StartKSKRollover_def look_bind split: option.splits if_splits)
    then show ?thesis by simp
  next
    case True
    then obtain z old where z: "GetZone domain (mem w) = Some z" "z_Rollover z = None" "z_KSK z = Some old" by blast
    let ?b = "op_wrap ''backing up old KSK before rollover'' (BackupKey env lib (rm_cfg rm) domain ''ksk'' (k_ID old))"
    let ?s = "op_wrap ''generating new KSK'' (stageNewKey env lib (rm_cfg rm) domain True (k_Algorithm old))"
    have "op_bind ?b (\<lambda>_. op_bind ?s (ksk_commit env lib rm domain old)) w = (r, w')"
      using run z by (simp add: StartKSKRollover_def look_bind)
    then show ?thesis
    proof (cases rule: op_bind_cases)
      case (failed e)
      then show ?thesis using live [OF b] by blast
    next
      case (next_step x w1)
      note l1 = live [OF b next_step(1)]
      have g1: "GetZone domain (mem w1) = Some z"
        using mem_of_rest [OF keepsD [OF rest.keeps_wrap [OF rest_BackupKey] next_step(1)]] z(1) by simp
      from next_step(2) show ?thesis
      proof (cases rule: op_bind_cases)
        case (failed e)
        then show ?thesis using live [OF s failed(1)] l1 by simp
      next
        case (next_step new w2)
        note l2 = live [OF s next_step(1)]
        have "GetZone domain (mem w2) = Some z"
          using mem_of_rest [OF keepsD [OF rest.keeps_wrap [OF rest_stageNewKey] next_step(1)]] g1 by simp
        then have "content w' = content (w2\<lparr>tick := Suc (tick w2)\<rparr>) \<or> (\<exists>z'. disk_zone domain w' = Some z' \<and>
            zview z' = zview (z\<lparr>z_Rollover := Some (ksk_record domain old new (now_at env (tick w2))), z_KSK := Some new, z_ForceResign := True\<rparr>))"
          using next_step(2) unfolding ksk_commit_def clock_bind by (intro commit_disk [OF _ rest_activate]) simp_all
        then show ?thesis
        proof
          assume "content w' = content (w2\<lparr>tick := Suc (tick w2)\<rparr>)"
          then show ?thesis using l1 l2 by (simp add: live_halves_def)
        next
          assume "\<exists>z'. disk_zone domain w' = Some z' \<and>
            zview z' = zview (z\<lparr>z_Rollover := Some (ksk_record domain old new (now_at env (tick w2))), z_KSK := Some new, z_ForceResign := True\<rparr>)"
          then obtain z' where z': "disk_zone domain w' = Some z'"
            "zview z' = zview (z\<lparr>z_Rollover := Some (ksk_record domain old new (now_at env (tick w2))), z_KSK := Some new, z_ForceResign := True\<rparr>)"
            by blast
          have "z_KSK z' = z_KSK (zview z')" "z_Rollover z' = z_Rollover (zview z')" by simp_all
          then have "z_KSK z' = Some new" "z_Rollover z' = Some (ksk_record domain old new (now_at env (tick w2)))"
            unfolding z'(2) by simp_all
          then show ?thesis using z'(1) by blast
        qed
      qed
    qed
  qed
qed

end
