(* ===== verification/Rollover_Machine.thy ===== *)
theory Rollover_Machine
  imports Rollover_Start
begin

text \<open>
  The rollover state machine as a whole: the waits of the ZSK phases, the steps the daemon
  and the operator may take in any order, and the invariant of every reachable state.
\<close>

section \<open>ZSK waits\<close>

lemma fold_later_ge: "acc \<le> fold (\<lambda>h acc. later_of acc h) hs acc"
proof (induction hs arbitrary: acc)
  case (Cons h hs)
  then show ?case using later_of_le(1) [of acc h] by (metis fold_simps(2) order_trans)
qed simp

lemma fold_later_mem: "h \<in> set hs \<Longrightarrow> h \<le> fold (\<lambda>h acc. later_of acc h) hs acc"
proof (induction hs arbitrary: acc)
  case (Cons a hs)
  show ?case
  proof (cases "h = a")
    case True
    then show ?thesis using fold_later_ge [of "later_of acc a" hs] later_of_le(2) [of a acc]
      by (simp add: order_trans [OF later_of_le(2)])
  next
    case False
    then show ?thesis using Cons by simp
  qed
qed simp

text \<open>
  What a phase has waited for at instant \<open>now\<close>, given the zone and record before the
  check: the horizon stamped earlier, or the one this check stamps.
\<close>

definition waited :: "zone_state \<Rightarrow> rollover_state \<Rightarrow> duration \<Rightarrow> gotime list \<Rightarrow> gotime \<Rightarrow> bool" where
  "waited z r fl hs now \<longleftrightarrow> (if r_PhaseFirstSigned r \<noteq> 0 then r_PhaseHorizon r \<le> now
     else z_PublishedAt z + fl \<le> now \<and> (\<forall>h \<in> set hs. h \<le> now))"

definition stamped :: "zone_state \<Rightarrow> rollover_state \<Rightarrow> duration \<Rightarrow> gotime list \<Rightarrow> zone_state \<Rightarrow> bool" where
  "stamped z r fl hs v \<longleftrightarrow> (\<exists>r1. v = (zview z)\<lparr>z_Rollover := Some r1\<rparr> \<and> r_State r1 = r_State r \<and>
     r_NewKeyID r1 = r_NewKeyID r \<and> (\<forall>now. r_PhaseHorizon r1 \<le> now \<longrightarrow> waited z r fl hs now))"

lemma stampPhase_stamped:
  assumes "z_Rollover z = Some r"
  shows "triple domain (\<lambda>v. v = zview z) (stampPhasePublication env domain fl hs) (\<lambda>_. stamped z r fl hs)"
  unfolding stampPhasePublication_def Let_def
proof (rule triple_with_rollover, intro triple_if triple_ok triple_mutate_save)
  fix z1 r1 v
  assume "zview z1 = zview z" "z_Rollover z1 = Some r1" "v = zview z1" "r_PhaseFirstSigned r1 \<noteq> 0"
  moreover from this have "r1 = r" using assms by (metis option.inject zview_fields(1))
  ultimately show "stamped z r fl hs v" using assms
    by (auto simp: stamped_def waited_def intro!: exI [of _ r])
next
  fix z1 r1 z2
  assume eq: "zview z1 = zview z" and r1: "z_Rollover z1 = Some r1" "\<not> r_PhaseFirstSigned r1 \<noteq> 0" and eq2: "zview z2 = zview z1"
  have r: "r1 = r" using assms r1 eq by (metis option.inject zview_fields(1))
  have pub: "z_PublishedAt z1 = z_PublishedAt z" using eq by (metis zview_fields(4))
  let ?h = "fold (\<lambda>h acc. later_of acc h) hs (z_PublishedAt z1 + fl)"
  have "zview (upd_rollover (\<lambda>r. r\<lparr>r_PhaseFirstSigned := z_PublishedAt z1, r_PhaseHorizon := ?h\<rparr>) z2) =
      (zview z)\<lparr>z_Rollover := Some (r\<lparr>r_PhaseFirstSigned := z_PublishedAt z1, r_PhaseHorizon := ?h\<rparr>)\<rparr>"
    unfolding zview_upd_rollover eq2 eq using assms by (simp add: upd_rollover_def)
  moreover have "waited z r fl hs now" if "?h \<le> now" for now
    using that r r1(2) pub fold_later_ge [of "z_PublishedAt z1 + fl" hs] fold_later_mem [of _ hs "z_PublishedAt z1 + fl"]
    by (fastforce simp: waited_def)
  ultimately show "stamped z r fl hs (zview (upd_rollover (\<lambda>r. r\<lparr>r_PhaseFirstSigned := z_PublishedAt z1, r_PhaseHorizon := ?h\<rparr>) z2))"
    unfolding stamped_def
    by (intro exI [of _ "r\<lparr>r_PhaseFirstSigned := z_PublishedAt z1, r_PhaseHorizon := ?h\<rparr>"]) simp
qed (use assms in auto)

text \<open>The switch to the new ZSK, and the end of the rollover.\<close>

definition switch_ok :: "keylib \<Rightarrow> config \<Rightarrow> zone_state \<Rightarrow> rollover_state \<Rightarrow> zone_state \<Rightarrow> bool" where
  "switch_ok lib cfg z r v \<longleftrightarrow> (\<forall>r'. z_Rollover v = Some r' \<longrightarrow> r_State r' = ZSKRolloverStateSigning \<longrightarrow>
     c_RolloverSwitch (DNSSEC cfg) \<le> time_sub (r_PhaseStarted r') (r_Started r) \<and> PublishedSince z (r_Started r) \<and>
     waited z r (dnskeyTTLFloor cfg z) [z_DNSKEYCacheHorizon z] (r_PhaseStarted r') \<and>
     map_option k_ID (z_ZSK v) = Some (r_NewKeyID r))"

lemma zsk_switch_ok:
  assumes "c_RolloverSwitch (DNSSEC (rm_cfg rm)) \<le> time_sub now (r_Started r)" "PublishedSince z (r_Started r)"
    and "r_State r = ZSKRolloverStatePrePublish"
  shows "triple domain (stamped z r (dnskeyTTLFloor (rm_cfg rm) z) [z_DNSKEYCacheHorizon z])
    (zsk_switch env lib rm domain now) (\<lambda>_. switch_ok lib (rm_cfg rm) z r)"
proof -
  let ?st = "stamped z r (dnskeyTTLFloor (rm_cfg rm) z) [z_DNSKEYCacheHorizon z]"
  have stay: "switch_ok lib (rm_cfg rm) z r v" if "?st v" for v
    using that assms(3) by (auto simp: stamped_def switch_ok_def)
  show ?thesis unfolding zsk_switch_def
  proof (rule triple_with_rollover)
    fix z1 r1
    assume st: "?st (zview z1)" and r1: "z_Rollover z1 = Some r1"
    then have new: "r_NewKeyID r1 = r_NewKeyID r" and w: "r_PhaseHorizon r1 \<le> now \<Longrightarrow>
        waited z r (dnskeyTTLFloor (rm_cfg rm) z) [z_DNSKEYCacheHorizon z] now"
      by (auto simp: stamped_def dest: arg_cong [where f = z_Rollover])
    let ?f = "\<lambda>r. r\<lparr>r_State := ZSKRolloverStateSigning, r_PhaseStarted := now, r_PhaseFirstSigned := 0,
      r_PhaseHorizon := 0, r_Action := ''Automatic: signing with new ZSK, old ZSK still published''\<rparr>"
    have "triple domain (\<lambda>v. v = zview z1) (op_bind (op_wrap ''loading new ZSK'' (EnsureLiveKey env lib (rm_cfg rm) domain ''zsk'' (r_NewKeyID r1))) (\<lambda>kp.
       op_bind (Mutate domain (\<lambda>z. (upd_rollover ?f z)
           \<lparr>z_ZSK := Some (switched_zsk lib (rm_cfg rm) domain (fst kp) r1), z_ForceResign := True\<rparr>))
         (\<lambda>_. Save env))) (\<lambda>_. switch_ok lib (rm_cfg rm) z r)" if late: "\<not> now < r_PhaseHorizon r1"
    proof (rule triple_bind [OF EnsureLiveKey_wrapped], simp add: stay st, rule triple_mutate_save)
      fix kp z2
      assume "zview z2 = zview z1 \<and> (\<forall>kpa. Inr kp = Inr kpa \<longrightarrow> KeyTag lib (fst kpa) = r_NewKeyID r1)"
      then have "z_Rollover z2 = Some r1" "KeyTag lib (fst kp) = r_NewKeyID r" using r1 new by (auto dest: arg_cong [where f = z_Rollover])
      then show "switch_ok lib (rm_cfg rm) z r (zview ((upd_rollover ?f z2)
          \<lparr>z_ZSK := Some (switched_zsk lib (rm_cfg rm) domain (fst kp) r1), z_ForceResign := True\<rparr>))"
        using w late assms(1,2) by (simp add: switch_ok_def upd_rollover_def switched_zsk_def)
    qed
    then show "triple domain (\<lambda>v. v = zview z1) (if now < r_PhaseHorizon r1 then op_ok () else
        op_bind (op_wrap ''loading new ZSK'' (EnsureLiveKey env lib (rm_cfg rm) domain ''zsk'' (r_NewKeyID r1))) (\<lambda>kp.
       op_bind (Mutate domain (\<lambda>z. (upd_rollover ?f z)
           \<lparr>z_ZSK := Some (switched_zsk lib (rm_cfg rm) domain (fst kp) r1), z_ForceResign := True\<rparr>))
         (\<lambda>_. Save env))) (\<lambda>_. switch_ok lib (rm_cfg rm) z r)"
      using stay st by (intro triple_if triple_ok) auto
  qed (use stay in auto)
qed

definition finish_ok :: "env \<Rightarrow> config \<Rightarrow> zone_state \<Rightarrow> rollover_state \<Rightarrow> zone_state \<Rightarrow> bool" where
  "finish_ok env cfg z r v \<longleftrightarrow> (z_Rollover v = None \<longrightarrow> PublishedSince z (phase_start r) \<and>
     (\<exists>t. waited z r (zskRetireFloor cfg z) [z_DNSKEYCacheHorizon z, z_RRSIGCacheHorizon z] (now_at env t)))"

lemma zsk_finish_ok:
  assumes "PublishedSince z (phase_start r)"
  shows "triple domain (stamped z r (zskRetireFloor cfg z) [z_DNSKEYCacheHorizon z, z_RRSIGCacheHorizon z])
    (zsk_finish env domain (now_at env t)) (\<lambda>_. finish_ok env cfg z r)"
proof -
  let ?st = "stamped z r (zskRetireFloor cfg z) [z_DNSKEYCacheHorizon z, z_RRSIGCacheHorizon z]"
  have stay: "finish_ok env cfg z r v" if "?st v" for v using that by (auto simp: stamped_def finish_ok_def)
  show ?thesis unfolding zsk_finish_def
  proof (rule triple_with_rollover, intro triple_if triple_ok triple_mutate_save)
    fix z1 z2 :: zone_state and r1
    assume st: "?st (zview z1)" and r1: "z_Rollover z1 = Some r1" and "\<not> now_at env t < r_PhaseHorizon r1"
    then have "waited z r (zskRetireFloor cfg z) [z_DNSKEYCacheHorizon z, z_RRSIGCacheHorizon z] (now_at env t)"
      by (auto simp: stamped_def dest: arg_cong [where f = z_Rollover])
    then show "finish_ok env cfg z r (zview (ClearTransientWarnings (z2\<lparr>z_Rollover := None, z_ForceResign := True\<rparr>)))"
      using assms by (auto simp: finish_ok_def)
  qed (use stay in auto)
qed

lemma prepublish_switch:
  assumes "z_Rollover z = Some r" "r_State r = ZSKRolloverStatePrePublish"
  shows "triple domain (\<lambda>v. v = zview z) (zsk_prepublish_step env lib rm domain now z r) (\<lambda>_. switch_ok lib (rm_cfg rm) z r)"
  unfolding zsk_prepublish_step_def using assms
  by (auto intro!: triple_ok triple_bind [OF stampPhase_stamped [OF assms(1)]] zsk_switch_ok
      simp: not_less stamped_def switch_ok_def)

lemma signing_finish:
  assumes "z_Rollover z = Some r"
  shows "triple domain (\<lambda>v. v = zview z) (zsk_signing_step env rm domain (now_at env t) z r) (\<lambda>_. finish_ok env (rm_cfg rm) z r)"
  unfolding zsk_signing_step_def Let_def using assms
  by (auto intro!: triple_ok triple_bind [OF stampPhase_stamped [OF assms(1)]] zsk_finish_ok
      simp: not_less stamped_def finish_ok_def)

text \<open>The handler runs the step of the recorded phase on the zone it finds.\<close>

lemma handleZSK_at:
  assumes "GetZone domain (mem w) = Some z" "z_Rollover z = Some r"
  shows "handleZSKRolloverState env lib rm domain w =
    (if r_State r = ZSKRolloverStatePrePublish then zsk_prepublish_step env lib rm domain (now_at env (tick w)) z r
     else if r_State r = ZSKRolloverStateSigning then zsk_signing_step env rm domain (now_at env (tick w)) z r
     else op_ok ()) (w\<lparr>tick := Suc (tick w)\<rparr>)"
  using assms by (simp add: handleZSKRolloverState_def with_rollover_def look_bind clock_bind)

lemma zat_self: "GetZone domain (mem w) = Some z \<Longrightarrow> zat domain (\<lambda>v. v = zview z) (w\<lparr>tick := t\<rparr>)"
  by (auto simp: zat_def)

lemma handleZSK_switch:
  assumes z: "GetZone domain (mem w) = Some z" "z_Rollover z = Some r" "r_State r = ZSKRolloverStatePrePublish"
    and run: "handleZSKRolloverState env lib rm domain w = (res, w')"
  shows "zat domain (switch_ok lib (rm_cfg rm) z r) w'"
  using tripleD [OF prepublish_switch [OF z(2,3)] zat_self [OF z(1)]] run z by (simp add: handleZSK_at)

lemma handleZSK_finish:
  assumes z: "GetZone domain (mem w) = Some z" "z_Rollover z = Some r" "r_State r = ZSKRolloverStateSigning"
    and run: "handleZSKRolloverState env lib rm domain w = (res, w')"
  shows "zat domain (finish_ok env (rm_cfg rm) z r) w'"
  using tripleD [OF signing_finish [OF z(2)] zat_self [OF z(1)]] run z by (simp add: handleZSK_at)

section \<open>Reachable states\<close>

text \<open>
  The daemon and the operator may run the operations in any order, with any outcome of the
  file system, the clock, the probe and the registrar; confirmations of publications come
  in between. The side conditions are what the collaborators promise.
\<close>

inductive rollover_step :: "env \<Rightarrow> keylib \<Rightarrow> rollover_manager \<Rightarrow> string \<Rightarrow> world \<Rightarrow> world \<Rightarrow> bool"
  for env lib rm domain where
  start_ksk: "StartKSKRollover env lib rm domain w = (r, w') \<Longrightarrow> gen_fresh lib (rm_cfg rm) domain ''ksk'' w \<Longrightarrow>
    rollover_step env lib rm domain w w'"
| complete_ksk: "CompleteKSKRollover env rm domain seen ttl w = (r, w') \<Longrightarrow> ttl \<le> maxDNSTTLSeconds \<Longrightarrow>
    rollover_step env lib rm domain w w'"
| check_ksk: "CheckKSKRollover env rm domain w = (r, w') \<Longrightarrow> rollover_step env lib rm domain w w'"
| check_zsk: "CheckZSKRollover env lib rm domain w = (r, w') \<Longrightarrow> gen_fresh lib (rm_cfg rm) domain ''zsk'' w \<Longrightarrow>
    rollover_step env lib rm domain w w'"
| start_algorithm: "StartAlgorithmRollover env lib rm domain target w = (r, w') \<Longrightarrow> target \<noteq> [] \<Longrightarrow>
    gen_fresh lib (rm_cfg rm) domain ''ksk'' w \<Longrightarrow> gen_fresh lib (rm_cfg rm) domain ''zsk'' w \<Longrightarrow>
    rollover_step env lib rm domain w w'"
| complete_algorithm: "CompleteAlgorithmRollover env rm domain seen ttl w = (r, w') \<Longrightarrow> ttl \<le> maxDNSTTLSeconds \<Longrightarrow>
    rollover_step env lib rm domain w w'"
| check_algorithm: "CheckAlgorithmRollover env lib rm domain w = (r, w') \<Longrightarrow> rollover_step env lib rm domain w w'"
| confirm: "Mutate domain (ConfirmPublication signedAt now) w = (r, w') \<Longrightarrow> rollover_step env lib rm domain w w'"

inductive_cases rollover_stepE: "rollover_step env lib rm domain w w'"

lemma ConfirmPublication_inv: "rollover_inv (ConfirmPublication s now z) = rollover_inv z"
  by (simp add: rollover_inv_def) (simp add: ConfirmPublication_def Let_def)

lemma rollover_step_inv:
  assumes step: "rollover_step env lib rm domain w w'" and inv: "zat domain rollover_inv w"
    and coll: "publisher_ok rm" "probe_in_range rm" and names: "CHR ''/'' \<notin> set domain"
  shows "zat domain rollover_inv w'"
  using step
proof cases
  case (start_ksk r)
  then show ?thesis using StartKSKRollover_inv [OF inv] by blast
next
  case (complete_ksk seen ttl r)
  then show ?thesis using tripleD [OF CompleteKSKRollover_inv inv] by blast
next
  case (check_ksk r)
  then show ?thesis using tripleD [OF CheckKSKRollover_inv [OF coll(1)] inv] by blast
next
  case (check_zsk r)
  then show ?thesis using CheckZSKRollover_inv [OF inv] by blast
next
  case (start_algorithm target r)
  then show ?thesis using StartAlgorithmRollover_inv [OF inv names] by blast
next
  case (complete_algorithm seen ttl r)
  then show ?thesis using tripleD [OF CompleteAlgorithmRollover_inv inv] by blast
next
  case (check_algorithm r)
  then show ?thesis using tripleD [OF CheckAlgorithmRollover_inv [OF coll] inv] by blast
next
  case (confirm signedAt now r)
  have "triple domain rollover_inv (Mutate domain (ConfirmPublication signedAt now)) (\<lambda>_. rollover_inv)"
    by (rule triple_Mutate) (simp add: ConfirmPublication_inv)
  from tripleD [OF this inv confirm] show ?thesis .
qed

lemma rollover_reachable_inv:
  assumes "(rollover_step env lib rm domain)\<^sup>*\<^sup>* w w'" and "zat domain rollover_inv w"
    and "publisher_ok rm" "probe_in_range rm" and "CHR ''/'' \<notin> set domain"
  shows "zat domain rollover_inv w'"
  using assms(1,2)
proof (induction rule: rtranclp_induct)
  case (step y z)
  then show ?case using rollover_step_inv assms(3-5) by blast
qed

end
