(* ===== verification/Key_Progress.thy ===== *)
theory Key_Progress
  imports Rollover_Machine
begin

text \<open>
  Progress: on a file system that works, staging, backup and activation of a key reach
  their result, and a KSK rollover that may start does start.
\<close>

section \<open>Runs that succeed\<close>

definition io_works :: "env \<Rightarrow> bool" where
  "io_works env \<longleftrightarrow> (\<forall>t. io_at env t = IoOk)"

text \<open>The operation ends, the process still runs, and the outcome satisfies \<open>Q\<close>.\<close>

definition ends :: "('w fs_world_scheme, 'a) op \<Rightarrow> 'w fs_world_scheme \<Rightarrow> (error + 'a \<Rightarrow> 'w fs_world_scheme \<Rightarrow> bool) \<Rightarrow> bool" where
  "ends m w Q \<longleftrightarrow> \<not> halted (snd (m w)) \<and> Q (fst (m w)) (snd (m w))"

definition runs :: "('w fs_world_scheme, 'a) op \<Rightarrow> 'w fs_world_scheme \<Rightarrow> ('a \<Rightarrow> 'w fs_world_scheme \<Rightarrow> bool) \<Rightarrow> bool" where
  "runs m w Q \<longleftrightarrow> ends m w (\<lambda>r w'. \<exists>x. r = Inr x \<and> Q x w')"

lemma runsE:
  assumes "runs m w Q"
  obtains x w' where "m w = (Inr x, w')" "\<not> halted w'" "Q x w'"
  using assms by (cases "m w") (auto simp: runs_def ends_def)

lemma runsI: "m w = (Inr x, w') \<Longrightarrow> \<not> halted w' \<Longrightarrow> Q x w' \<Longrightarrow> runs m w Q"
  by (simp add: runs_def ends_def)

lemma runs_mono: "runs m w P \<Longrightarrow> (\<And>x w'. P x w' \<Longrightarrow> Q x w') \<Longrightarrow> runs m w Q"
  by (auto simp: runs_def ends_def)

lemma runs_ok: "\<not> halted w \<Longrightarrow> Q x w \<Longrightarrow> runs (op_ok x) w Q"
  by (simp add: runs_def ends_def)

lemma runs_if: "(c \<Longrightarrow> runs a w Q) \<Longrightarrow> (\<not> c \<Longrightarrow> runs b w Q) \<Longrightarrow> runs (if c then a else b) w Q"
  by simp

lemma runs_Pair: "\<not> halted w \<Longrightarrow> Q x w \<Longrightarrow> runs (Pair (Inr x)) w Q"
  by (simp add: runs_def ends_def)

lemma runs_bind:
  assumes "runs m w P" and "\<And>x w1. \<not> halted w1 \<Longrightarrow> P x w1 \<Longrightarrow> runs (f x) w1 Q"
  shows "runs (op_bind m f) w Q"
  using assms(1)
proof (rule runsE)
  fix x w1
  assume m: "m w = (Inr x, w1)" "\<not> halted w1" "P x w1"
  then show ?thesis using assms(2) [OF m(2,3)] by (simp add: runs_def ends_def op_bind_def)
qed

lemma runs_try:
  assumes "ends m w P" and "\<And>r w1. \<not> halted w1 \<Longrightarrow> P r w1 \<Longrightarrow> runs (f r) w1 Q"
  shows "runs (op_try m f) w Q"
  using assms(1) assms(2) [of "snd (m w)" "fst (m w)"]
  by (cases "m w") (simp add: runs_def ends_def op_try_def)

lemma runs_wrap: "runs m w Q \<Longrightarrow> runs (op_wrap s m) w Q"
  by (cases "m w") (auto simp: runs_def ends_def op_wrap_apply)

lemma runs_res: "\<not> halted w \<Longrightarrow> r = Inr x \<Longrightarrow> Q x w \<Longrightarrow> runs (op_res s r) w Q"
  by (simp add: op_res_def runs_ok)

lemma runs_ends: "runs m w Q \<Longrightarrow> ends m w (\<lambda>r w'. \<exists>x. r = Inr x \<and> Q x w')"
  by (simp add: runs_def)

lemma io_step_works: "io_works env \<Longrightarrow> \<not> halted w \<Longrightarrow> io_step env e act w = act (w\<lparr>tick := Suc (tick w)\<rparr>)"
  by (simp add: io_works_def io_step_def)

lemma runs_read:
  assumes "io_works env" "\<not> halted w" "content w p = Some c"
  shows "runs (ReadFile env p) w (\<lambda>x w'. x = c \<and> content w' = content w)"
proof (rule runsI)
  show "ReadFile env p w = (Inr c, w\<lparr>tick := Suc (tick w)\<rparr>)" using assms by (simp add: ReadFile_def io_step_works)
qed (use assms in auto)

lemma runs_stat:
  assumes "io_works env" "\<not> halted w"
  shows "runs (statExists env p) w (\<lambda>x w'. x = (content w p \<noteq> None) \<and> content w' = content w)"
proof (rule runsI)
  show "statExists env p w = (Inr (content w p \<noteq> None), w\<lparr>tick := Suc (tick w)\<rparr>)"
    using assms by (simp add: statExists_def io_step_works)
qed (use assms in auto)

lemma runs_nop:
  assumes "io_works env" "\<not> halted w"
  shows "runs (io_step env e (op_ok ())) w (\<lambda>x w'. content w' = content w)"
proof (rule runsI)
  show "io_step env e (op_ok ()) w = (Inr (), w\<lparr>tick := Suc (tick w)\<rparr>)" using assms by (simp add: io_step_works)
qed (use assms in auto)

lemma runs_clock: "\<not> halted w \<Longrightarrow> runs (clock env) w (\<lambda>x w'. content w' = content w)"
  by (rule runsI [of _ _ "now_at env (tick w)" "w\<lparr>tick := Suc (tick w)\<rparr>"]) (auto simp: clock_def)

lemma io_nops_works:
  "io_works env \<Longrightarrow> \<not> halted w \<Longrightarrow> io_nops env ss w = (Inr (), w\<lparr>tick := tick w + length ss\<rparr>)"
  by (induction ss arbitrary: w) (simp_all add: op_bind_def io_step_works)

lemma replace_atomic_works:
  assumes "io_works env" "\<not> halted w" "\<And>w t. commit (w\<lparr>tick := t\<rparr>) = (commit w)\<lparr>tick := t\<rparr>"
    "\<And>w. halted (commit w) = halted w"
  shows "replace_atomic env p commit w = (Inr (), (commit w)\<lparr>tick := tick w + 8\<rparr>)"
  using assms by (simp add: replace_atomic_def op_bind_def io_nops_works io_step_works SyncDir_def io_works_def
      del: io_nops.simps)

lemma runs_replace:
  assumes "io_works env" "\<not> halted w"
  shows "runs (replace_atomic env p (put_file p d)) w (\<lambda>x w'. content w' = (content w)(p := Some d))"
proof (rule runsI)
  show "replace_atomic env p (put_file p d) w = (Inr (), (put_file p d w)\<lparr>tick := tick w + 8\<rparr>)"
    using assms by (intro replace_atomic_works) (auto simp: put_file_def)
qed (use assms in \<open>auto simp: put_file_def fun_eq_iff\<close>)

lemma runs_copy:
  assumes "io_works env" "\<not> halted w" "content w p = Some c"
  shows "runs (CopyFile env p q) w (\<lambda>x w'. content w' = (content w)(q := Some c))"
  unfolding CopyFile_def
proof (rule runs_bind [OF runs_stat [OF assms(1,2)]])
  fix x and w1 :: "'a fs_world_scheme"
  assume "\<not> halted w1" "x = (content w p \<noteq> None) \<and> content w1 = content w"
  then show "runs (if \<not> x then op_fail (Msg ''no such file'') else op_bind (ReadFile env p)
      (\<lambda>data. replace_atomic env q (put_file q data))) w1 (\<lambda>x w'. content w' = (content w)(q := Some c))"
    using assms by (auto intro!: runs_bind [OF runs_read] runs_mono [OF runs_replace])
qed

section \<open>Loading\<close>

lemma verified_reads: "content w' = content w \<Longrightarrow> verified_at lib w' base domain kt = verified_at lib w base domain kt"
  by (rule verified_at_cong) simp_all

lemma verified_atE:
  assumes "verified_at lib w base domain kt = Some (k, priv)"
  obtains c pc where "content w (base @ ''.key'') = Some c" "content w (base @ ''.private'') = Some pc"
    "ParseDNSKEYFromFile lib c = Inr k" "ParsePrivateKeyFromFile lib pc = Inr priv"
    "VerifyKeyPairCorrespondence lib k priv = Inr ()" "validateLoadedKey lib k domain kt = Inr ()"
  using assms by (auto simp: verified_at_def split: option.splits sum.splits if_splits)

lemma runs_load:
  assumes env: "io_works env" "\<not> halted w" and v: "verified_at lib w base domain kt = Some kp"
  shows "runs (loadVerifiedPair env lib base domain kt) w (\<lambda>x w'. x = kp \<and> content w' = content w)"
proof -
  obtain k priv where kp: "kp = (k, priv)" by (cases kp)
  obtain c pc where f: "content w (base @ ''.key'') = Some c" "content w (base @ ''.private'') = Some pc"
    "ParseDNSKEYFromFile lib c = Inr k" "ParsePrivateKeyFromFile lib pc = Inr priv"
    "VerifyKeyPairCorrespondence lib k priv = Inr ()" "validateLoadedKey lib k domain kt = Inr ()"
    by (rule verified_atE [OF v [unfolded kp]])
  have "runs (loadKeyPairFromPath env lib base) w (\<lambda>x w'. x = kp \<and> content w' = content w)"
    unfolding loadKeyPairFromPath_def kp
    by (rule runs_bind [OF runs_wrap [OF runs_read [OF env f(1)]]],
        clarsimp simp: op_res_def f, rule runs_bind [OF runs_wrap [OF runs_read [OF env(1)]]])
      (auto simp: op_res_def f intro!: runs_Pair)
  then show ?thesis unfolding loadVerifiedPair_def
    by (rule runs_bind) (auto simp: kp op_res_def f intro!: runs_Pair runs_ok)
qed

lemma runs_pair:
  assumes "io_works env" "\<not> halted w"
  shows "runs (pairFiles env base) w (\<lambda>x w'. x = (content w (base @ ''.key'') \<noteq> None, content w (base @ ''.private'') \<noteq> None)
    \<and> content w' = content w)"
  unfolding pairFiles_def
  by (rule runs_bind [OF runs_wrap [OF runs_stat [OF assms]]], rule runs_bind [OF runs_wrap [OF runs_stat [OF assms(1)]]])
    (auto intro!: runs_ok)


lemma ReadFile_works:
  assumes "io_works env" "\<not> halted w"
  shows "ReadFile env p w = (case content w p of None \<Rightarrow> Inl (Msg ''no such file'') | Some c \<Rightarrow> Inr c, w\<lparr>tick := Suc (tick w)\<rparr>)"
  using assms by (simp add: ReadFile_def io_step_works split: option.split)

lemma op_res_snd [simp]: "snd (op_res s r w) = w"
  by (simp add: op_res_def split: sum.split)

lemma load_halted:
  assumes "io_works env" "\<not> halted w"
  shows "\<not> halted (snd (loadVerifiedPair env lib base domain kt w))"
  using assms
  by (auto simp: loadVerifiedPair_def loadKeyPairFromPath_def op_bind_def op_wrap_apply ReadFile_works op_res_def
      split: sum.splits prod.splits option.splits)

lemma ends_load:
  assumes "io_works env" "\<not> halted w"
  shows "ends (loadVerifiedPair env lib base domain kt) w
    (\<lambda>r w'. content w' = content w \<and> (\<forall>kp. r = Inr kp \<longleftrightarrow> verified_at lib w base domain kt = Some kp))"
proof (cases "verified_at lib w base domain kt")
  case None
  obtain r w' where run: "loadVerifiedPair env lib base domain kt w = (r, w')"
    by (cases "loadVerifiedPair env lib base domain kt w")
  have "content w' = content w" by (rule load_reads [OF run])
  moreover have "r \<noteq> Inr kp" for kp using loadVerifiedPair_Inr [of env lib base domain kt w kp w'] run None by auto
  ultimately show ?thesis using load_halted [OF assms, of lib base domain kt] run None by (simp add: ends_def)
next
  case (Some kp)
  from runs_load [OF assms Some] show ?thesis unfolding runs_def ends_def using Some by auto
qed

section \<open>Backup\<close>

lemma Verify_same:
  assumes "samePublicKey a b"
  shows "VerifyKeyPairCorrespondence lib a priv = VerifyKeyPairCorrespondence lib b priv"
proof -
  have eq: "dk_PublicKey a = dk_PublicKey b" "dk_Algorithm a = dk_Algorithm b" using assms by (auto simp: samePublicKey_def)
  show ?thesis unfolding VerifyKeyPairCorrespondence_def verifyRSACorrespondence_def rsaPublicKeyFromDNSKEY_def eq ..
qed

text \<open>The live key has a verified copy in the slot of its tag.\<close>

definition backed_up_live :: "keylib \<Rightarrow> config \<Rightarrow> string \<Rightarrow> string \<Rightarrow> dnskey \<times> bytes \<Rightarrow> 'w fs_world_scheme \<Rightarrow> bool" where
  "backed_up_live lib cfg domain kt kp w \<longleftrightarrow> verified_at lib w (liveBase cfg domain kt) domain kt = Some kp \<and>
     (\<exists>kp'. verified_at lib w (taggedBase cfg domain kt (KeyTag lib (fst kp))) domain kt = Some kp' \<and>
        samePublicKey (fst kp') (fst kp))"

lemma runs_backup_present:
  assumes env: "io_works env" "\<not> halted w"
    and v: "verified_at lib w backup domain kt = Some kp'" "samePublicKey (fst kp') want"
  shows "runs (ensureBackupAt env lib domain kt live backup want) w (\<lambda>x w'. content w' = content w)"
proof -
  obtain k priv where kp: "kp' = (k, priv)" by (cases kp')
  obtain c pc where f: "content w (backup @ ''.key'') = Some c" "content w (backup @ ''.private'') = Some pc"
    "ParseDNSKEYFromFile lib c = Inr k" "ParsePrivateKeyFromFile lib pc = Inr priv"
    "VerifyKeyPairCorrespondence lib k priv = Inr ()" "validateLoadedKey lib k domain kt = Inr ()"
    by (rule verified_atE [OF v(1) [unfolded kp]])
  have same: "samePublicKey k want" and ver: "VerifyKeyPairCorrespondence lib want priv = Inr ()"
    using v(2) f(5) kp Verify_same [of k want] by auto
  show ?thesis unfolding ensureBackupAt_def
  proof (rule runs_bind [OF runs_pair [OF env]], clarsimp simp: f op_bind_assoc,
      rule runs_bind [OF runs_wrap [OF runs_read [OF env(1)]]], assumption, simp add: f,
      clarsimp simp: f same, rule runs_bind [OF runs_bind [OF runs_wrap [OF runs_read [OF env(1)]]]], assumption, simp add: f)
    fix w1 w2 w3 :: "'a fs_world_scheme" and x
    assume "\<not> halted w3" "x = pc \<and> content w3 = content w2" "content w2 = content w"
    then show "runs (if case ParsePrivateKeyFromFile lib x of Inl _ \<Rightarrow> False | Inr priv \<Rightarrow> VerifyKeyPairCorrespondence lib want priv = Inr ()
        then op_ok True else op_bind (setAside env (backup @ ''.private'') ''invalid'') (\<lambda>_. op_ok False)) w3
        (\<lambda>x w'. x \<and> content w' = content w)"
      using f ver by (simp add: runs_ok)
  next
    fix x and w3 :: "'a fs_world_scheme"
    assume w3: "\<not> halted w3" "x \<and> content w3 = content w"
    then have "verified_at lib w3 backup domain kt = Some kp'" using v(1) by (simp add: verified_at_def)
    from runs_load [OF env(1) w3(1) this] show "runs (op_bind (if \<not> x then op_wrap ''backing up private key'' (copyDurable env (live @ ''.private'') (backup @ ''.private''))
        else op_ok ()) (\<lambda>_. op_bind (op_wrap ''backup does not verify'' (loadVerifiedPair env lib backup domain kt))
        (\<lambda>got. if \<not> samePublicKey (fst got) want then op_fail (Msg ''backup does not hold the live key'') else op_ok ()))) w3
        (\<lambda>x w'. content w' = content w)"
      using w3 by (simp) (rule runs_bind [OF runs_wrap], assumption, simp add: v runs_ok)
  qed
qed

lemma runs_ensureVerifiedBackup:
  assumes env: "io_works env" "\<not> halted w" and b: "backed_up_live lib cfg domain kt kp w"
  shows "runs (ensureVerifiedBackup env lib cfg domain kt) w (\<lambda>x w'. x = fst kp \<and> content w' = content w)"
proof -
  from b obtain kp' where l: "verified_at lib w (liveBase cfg domain kt) domain kt = Some kp"
    and s: "verified_at lib w (taggedBase cfg domain kt (KeyTag lib (fst kp))) domain kt = Some kp'" "samePublicKey (fst kp') (fst kp)"
    by (auto simp: backed_up_live_def)
  show ?thesis
    unfolding ensureVerifiedBackup_def
  proof (rule runs_try [OF runs_ends [OF runs_load [OF env l]]])
    fix r :: "error + dnskey \<times> bytes" and w1
    assume w1: "\<not> halted w1" and "\<exists>x. r = Inr x \<and> x = kp \<and> content w1 = content w"
    then have r: "r = Inr kp" and c: "content w1 = content w" by auto
    have "verified_at lib w1 (taggedBase cfg domain kt (KeyTag lib (fst kp))) domain kt = Some kp'"
      using s(1) c by (simp add: verified_at_def)
    note present = runs_backup_present [OF env(1) w1 this s(2), of "liveBase cfg domain kt"]
    show "runs (case r of Inl e \<Rightarrow> op_fail (ErrLiveUnverifiable e)
       | Inr kp \<Rightarrow> op_bind (ensureBackupAt env lib domain kt (liveBase cfg domain kt)
           (taggedBase cfg domain kt (KeyTag lib (fst kp))) (fst kp)) (\<lambda>_. op_ok (fst kp))) w1
        (\<lambda>x w'. x = fst kp \<and> content w' = content w)"
      unfolding r sum.case by (rule runs_bind [OF present]) (simp add: runs_ok c)
  qed
qed

lemma runs_BackupKey:
  assumes "io_works env" "\<not> halted w" and "backed_up_live lib cfg domain kt kp w"
    and "KeyTag lib (fst kp) = keyID"
  shows "runs (BackupKey env lib cfg domain kt keyID) w (\<lambda>x w'. content w' = content w)"
  unfolding BackupKey_def
  by (rule runs_bind [OF runs_ensureVerifiedBackup [OF assms(1-3)]]) (auto simp: assms(4) intro!: runs_ok)


section \<open>Staging\<close>

text \<open>
  The DNS library reads back the record it printed: one line, not a comment. Only the key at
  hand has to survive the round trip.
\<close>

definition prints :: "keylib \<Rightarrow> dnskey \<Rightarrow> bool" where
  "prints lib k \<longleftrightarrow> NewRR_DNSKEY lib (DNSKEY_String lib k) = Some k \<and> CHR 0x0A \<notin> set (DNSKEY_String lib k) \<and>
     DNSKEY_String lib k \<noteq> [] \<and> hd (DNSKEY_String lib k) \<noteq> CHR '';''"

lemma fmt_rfc3339_no_newline: "CHR 0x0A \<notin> set (fmt_rfc3339 t)"
proof -
  obtain y m d where "civil (t div Second div 86400) = (y, m, d)" by (cases "civil (t div Second div 86400)")
  then show ?thesis using pad_two_no_newline by (simp add: fmt_rfc3339_def Let_def del: set_append) (simp)
qed

lemma AlgorithmName_no_newline: "CHR 0x0A \<notin> set (AlgorithmName alg)"
  using show_nat_no_newline [of "unat alg"] by (simp add: AlgorithmName_def del: show_nat.simps)

lemma key_file_parses:
  assumes "prints lib k"
  shows "ParseDNSKEYFromFile lib (key_file_text lib k now) = Inr k"
proof -
  let ?ls = "[''; Key tag: '' @ show_nat (unat (KeyTag lib k)), ''; Algorithm: '' @ AlgorithmName (dk_Algorithm k),
    ''; Created: '' @ fmt_rfc3339 now, DNSKEY_String lib k]"
  have "key_file_text lib k now = join_lines ?ls" by (simp add: key_file_text_def join_lines_def)
  moreover have "\<forall>l \<in> set ?ls. CHR 0x0A \<notin> set l"
    using assms show_nat_no_newline AlgorithmName_no_newline fmt_rfc3339_no_newline
    by (simp add: prints_def del: show_nat.simps)
  ultimately have sp: "split_on (CHR 0x0A) (key_file_text lib k now) = ?ls @ [[]]" using split_join_lines by metis
  show ?thesis unfolding ParseDNSKEYFromFile_def sp using assms by (simp add: prints_def del: show_nat.simps)
qed

definition stageable :: "keylib \<Rightarrow> config \<Rightarrow> string \<Rightarrow> string \<Rightarrow> dnskey \<Rightarrow> bytes \<Rightarrow> 'w fs_world_scheme \<Rightarrow> bool" where
  "stageable lib cfg domain kt k priv w \<longleftrightarrow> prints lib k \<and> dk_Algorithm k \<in> {ED25519, ECDSAP256SHA256, ECDSAP384SHA384} \<and>
     validateLoadedKey lib k domain kt = Inr () \<and> VerifyKeyPairCorrespondence lib k priv = Inr () \<and>
     content w (taggedBase cfg domain kt (KeyTag lib k) @ ''.key'') = None \<and>
     content w (taggedBase cfg domain kt (KeyTag lib k) @ ''.private'') = None"

lemma stageable_cong: "content w' = content w \<Longrightarrow> stageable lib cfg domain kt k priv w' = stageable lib cfg domain kt k priv w"
  by (simp add: stageable_def)

lemma format_ok:
  assumes "dk_Algorithm k \<in> {ED25519, ECDSAP256SHA256, ECDSAP384SHA384}"
  obtains c where "formatPrivateKey lib k priv now = Inr c"
proof -
  have "\<not> isRSA (dk_Algorithm k)" using assms by (auto simp: isRSA_def)
  then show thesis using that by (simp add: formatPrivateKey_def Let_def)
qed

lemma runs_write:
  assumes "io_works env" "\<not> halted w"
  shows "runs (WriteFileAtomicOwned env p d) w (\<lambda>x w'. content w' = (content w)(p := Some d))"
  unfolding WriteFileAtomicOwned_def by (rule runs_replace [OF assms])

lemma runs_StageKeyPair:
  assumes env: "io_works env" "\<not> halted w" and st: "stageable lib cfg domain kt k priv w"
  shows "runs (StageKeyPair env lib cfg domain kt k priv) w (\<lambda>x w'. x = taggedBase cfg domain kt (KeyTag lib k) \<and>
    (\<exists>c pc. content w' = (content w)(x @ ''.private'' := Some pc, x @ ''.key'' := Some c)) \<and>
    (\<exists>priv'. verified_at lib w' x domain kt = Some (k, priv')))"
proof -
  let ?b = "taggedBase cfg domain kt (KeyTag lib k)"
  have f: "prints lib k" "dk_Algorithm k \<in> {ED25519, ECDSAP256SHA256, ECDSAP384SHA384}"
    "validateLoadedKey lib k domain kt = Inr ()" "VerifyKeyPairCorrespondence lib k priv = Inr ()"
    "content w (?b @ ''.key'') = None" "content w (?b @ ''.private'') = None"
    using st by (auto simp: stageable_def)
  show ?thesis unfolding StageKeyPair_def Let_def f(3,4) op_res_def sum.case op_bind_laws
  proof (rule runs_bind [OF runs_nop [OF env]], rule runs_bind [OF runs_pair [OF env(1)]], assumption, clarsimp simp: f stage_slot_def,
      rule runs_bind [OF runs_clock], assumption, rule runs_bind [OF runs_clock], assumption)
    fix w1 w2 w3 w4 :: "'a fs_world_scheme" and now1 now2
    assume w4: "\<not> halted w4" and c: "content w4 = content w3" "content w3 = content w2" "content w2 = content w"
    obtain pc where pc: "formatPrivateKey lib k priv now2 = Inr pc" by (rule format_ok [OF f(2)])
    show "runs (op_bind (case formatPrivateKey lib k priv now2 of Inl e \<Rightarrow> op_fail (Wrap ''formatting private key'' e) | Inr x \<Rightarrow> op_ok x) (\<lambda>privContent.
          op_bind (op_wrap ''staging private key'' (WriteFileAtomicOwned env (?b @ ''.private'') privContent)) (\<lambda>_.
          op_bind (op_wrap ''staging public key'' (WriteFileAtomicOwned env (?b @ ''.key'') (key_file_text lib k now1))) (\<lambda>_.
          op_bind (op_wrap ''staged key does not reload'' (loadVerifiedPair env lib ?b domain kt)) (\<lambda>st.
          if samePublicKey (fst st) k \<longrightarrow> KeyTag lib (fst st) \<noteq> KeyTag lib k then
            op_fail (Msg ''staged key does not match the generated key'')
          else op_ok ?b))))) w4 (\<lambda>x w'. x = ?b \<and> (\<exists>c pc. content w' = (content w)(x @ ''.private'' := Some pc, x @ ''.key'' := Some c)) \<and>
            (\<exists>priv'. verified_at lib w' x domain kt = Some (k, priv')))"
      unfolding pc sum.case op_bind_laws
    proof (rule runs_bind [OF runs_wrap [OF runs_write [OF env(1) w4]]], rule runs_bind [OF runs_wrap [OF runs_write [OF env(1)]]], assumption)
      fix w5 w6 :: "'a fs_world_scheme"
      assume w6: "\<not> halted w6" and c6: "content w6 = (content w5)(?b @ ''.key'' \<mapsto> key_file_text lib k now1)"
        and c5: "content w5 = (content w4)(?b @ ''.private'' \<mapsto> pc)"
      have v: "verified_at lib w6 ?b domain kt = Some (k, stored_private lib k priv)"
        using c6 c5 f key_file_parses [OF f(1)] ParsePrivateKey_format [OF f(2) pc] stored_corresponds [OF f(4)]
        by (simp add: verified_at_def)
      show "runs (op_bind (op_wrap ''staged key does not reload'' (loadVerifiedPair env lib ?b domain kt)) (\<lambda>st.
          if samePublicKey (fst st) k \<longrightarrow> KeyTag lib (fst st) \<noteq> KeyTag lib k then
            op_fail (Msg ''staged key does not match the generated key'')
          else op_ok ?b)) w6 (\<lambda>x w'. x = ?b \<and> (\<exists>c pc. content w' = (content w)(x @ ''.private'' := Some pc, x @ ''.key'' := Some c)) \<and>
            (\<exists>priv'. verified_at lib w' x domain kt = Some (k, priv')))"
      proof (rule runs_bind [OF runs_wrap [OF runs_load [OF env(1) w6 v]]])
        fix st and w7 :: "'a fs_world_scheme"
        assume w7: "\<not> halted w7" and st: "st = (k, stored_private lib k priv) \<and> content w7 = content w6"
        have "verified_at lib w7 ?b domain kt = Some (k, stored_private lib k priv)" using v st by (simp add: verified_at_def)
        moreover have "content w7 = (content w)(?b @ ''.private'' := Some pc, ?b @ ''.key'' := Some (key_file_text lib k now1))"
          using st c c5 c6 by simp
        ultimately show "runs (if samePublicKey (fst st) k \<longrightarrow> KeyTag lib (fst st) \<noteq> KeyTag lib k then
            op_fail (Msg ''staged key does not match the generated key'') else op_ok ?b) w7
            (\<lambda>x w'. x = ?b \<and> (\<exists>c pc. content w' = (content w)(x @ ''.private'' := Some pc, x @ ''.key'' := Some c)) \<and>
            (\<exists>priv'. verified_at lib w' x domain kt = Some (k, priv')))"
          using w7 st by (auto simp: samePublicKey_def intro!: runs_ok)
      qed
    qed
  qed
qed


section \<open>Activation\<close>

lemma runs_tolerant:
  assumes "io_works env" "\<not> halted w" "content w p = Some c"
  shows "runs (copy_tolerant env p q) w (\<lambda>x w'. content w' = (content w)(q := Some c))"
  unfolding copy_tolerant_def
  by (rule runs_try [OF runs_ends [OF runs_copy [OF assms]]]) (auto intro!: runs_ok)

lemma runs_preserve:
  assumes env: "io_works env" "\<not> halted w" and b: "backed_up_live lib cfg domain kt kp w"
  shows "runs (preserveLivePair env lib cfg domain kt) w (\<lambda>x w'. content w' = content w)"
proof -
  have l: "verified_at lib w (liveBase cfg domain kt) domain kt = Some kp" using b by (simp add: backed_up_live_def)
  obtain c pc where h: "content w (liveBase cfg domain kt @ ''.key'') = Some c" "content w (liveBase cfg domain kt @ ''.private'') = Some pc"
    using verified_at_halves [OF l] by blast
  show ?thesis unfolding preserveLivePair_def Let_def
  proof (rule runs_bind [OF runs_pair [OF env]])
    fix ex w1
    assume w1: "\<not> halted w1" and ex: "ex = (content w (liveBase cfg domain kt @ ''.key'') \<noteq> None, content w (liveBase cfg domain kt @ ''.private'') \<noteq> None)
      \<and> content w1 = content w"
    then have "backed_up_live lib cfg domain kt kp w1" using b by (simp add: backed_up_live_def verified_at_def)
    note backup = runs_ensureVerifiedBackup [OF env(1) w1 this]
    have "fst ex" "snd ex" using ex h by auto
    then show "runs (if \<not> fst ex \<and> \<not> snd ex then op_ok ()
        else if fst ex \<and> snd ex then
          op_try (ensureVerifiedBackup env lib cfg domain kt) (\<lambda>r. case r of
            Inr _ \<Rightarrow> op_ok ()
          | Inl e \<Rightarrow> (case as_backup_conflict e of
              Some base \<Rightarrow> op_bind (copyPairUnique env (liveBase cfg domain kt) base) (\<lambda>_. op_ok ())
            | None \<Rightarrow>
                if is_live_unverifiable e then
                  op_bind (copyPairUnique env (liveBase cfg domain kt) (liveBase cfg domain kt @ ''.bak'')) (\<lambda>_. op_ok ())
                else op_fail e))
        else op_bind (copyPairUnique env (liveBase cfg domain kt) (liveBase cfg domain kt @ ''.bak'')) (\<lambda>_. op_ok ())) w1
        (\<lambda>x w'. content w' = content w)"
      using ex by simp (rule runs_try [OF runs_ends [OF backup]], auto intro!: runs_ok)
  qed
qed

lemma live_staged_paths:
  assumes "key_names domain kt"
  shows "taggedBase cfg domain kt tag @ e1 \<noteq> liveBase cfg domain kt @ ''.key''"
    and "taggedBase cfg domain kt tag @ e1 \<noteq> liveBase cfg domain kt @ ''.private''"
proof -
  obtain m s where s: "show_nat (unat tag) = digit m # s" using hd_show_nat by blast
  show "taggedBase cfg domain kt tag @ e1 \<noteq> liveBase cfg domain kt @ ''.key''"
    "taggedBase cfg domain kt tag @ e1 \<noteq> liveBase cfg domain kt @ ''.private''"
    using digit_not_kp [of m] by (auto simp: taggedBase_live [OF assms] s simp del: show_nat.simps)
qed

lemma runs_install:
  assumes env: "io_works env" "\<not> halted w" and names: "key_names domain kt"
    and v: "verified_at lib w (taggedBase cfg domain kt tag) domain kt = Some sk"
  shows "runs (install_live env lib domain kt (taggedBase cfg domain kt tag) (liveBase cfg domain kt) (fst sk)) w
    (\<lambda>x w'. verified_at lib w' (liveBase cfg domain kt) domain kt = Some sk)"
proof -
  let ?s = "taggedBase cfg domain kt tag" and ?l = "liveBase cfg domain kt"
  obtain c pc where h: "content w (?s @ ''.key'') = Some c" "content w (?s @ ''.private'') = Some pc"
    using verified_at_halves [OF v] by blast
  show ?thesis unfolding install_live_def
  proof (rule runs_bind [OF runs_tolerant [OF env h(2)]], rule runs_bind [OF runs_tolerant [OF env(1)]], assumption)
    fix w1
    assume "content w1 = (content w)(?l @ ''.private'' \<mapsto> pc)"
    then show "content w1 (?s @ ''.key'') = Some c" using h live_staged_paths [OF names] by simp
  next
    fix w1 w2
    assume w2: "\<not> halted w2" and c: "content w1 = (content w)(?l @ ''.private'' \<mapsto> pc)" "content w2 = (content w1)(?l @ ''.key'' \<mapsto> c)"
    then have l: "verified_at lib w2 ?l domain kt = Some sk" using v h by (simp add: verified_at_def)
    show "runs (op_bind (op_wrap ''live key does not verify after activation'' (loadVerifiedPair env lib ?l domain kt)) (\<lambda>now.
       if \<not> samePublicKey (fst now) (fst sk) then op_fail (Msg ''live key does not match the activated generation'') else op_ok ())) w2
       (\<lambda>x w'. verified_at lib w' ?l domain kt = Some sk)"
    proof (rule runs_bind [OF runs_wrap [OF runs_load [OF env(1) w2 l]]])
      fix now and w3
      assume w3: "\<not> halted w3" and now: "now = sk \<and> content w3 = content w2"
      then have "verified_at lib w3 ?l domain kt = Some sk" using l verified_reads by metis
      then show "runs (if \<not> samePublicKey (fst now) (fst sk) then op_fail (Msg ''live key does not match the activated generation'') else op_ok ()) w3
        (\<lambda>x w'. verified_at lib w' ?l domain kt = Some sk)"
        using w3 now by (simp add: samePublicKey_def runs_ok)
    qed
  qed
qed

lemma runs_ActivateKeyPair:
  assumes env: "io_works env" "\<not> halted w" and names: "key_names domain kt"
    and b: "backed_up_live lib cfg domain kt kp w"
    and v: "verified_at lib w (taggedBase cfg domain kt tag) domain kt = Some sk" and tag: "KeyTag lib (fst sk) = tag"
  shows "runs (ActivateKeyPair env lib cfg domain kt tag) w (\<lambda>x w'. \<exists>kp'.
    verified_at lib w' (liveBase cfg domain kt) domain kt = Some kp' \<and> samePublicKey (fst kp') (fst sk))"
  unfolding ActivateKeyPair_def Let_def
proof (rule runs_bind [OF runs_wrap [OF runs_load [OF env v]]])
  fix x w1
  assume w1: "\<not> halted w1" and x: "x = sk \<and> content w1 = content w"
  let ?Q = "\<lambda>u w'. \<exists>kp'. verified_at lib w' (liveBase cfg domain kt) domain kt = Some kp' \<and> samePublicKey (fst kp') (fst sk)"
  have l1: "verified_at lib w1 (liveBase cfg domain kt) domain kt = Some kp" using b x by (simp add: backed_up_live_def verified_at_def)
  show "runs (if KeyTag lib (fst x) \<noteq> tag then op_fail (Msg ''cannot activate: slot holds another key tag'')
      else op_try (loadVerifiedPair env lib (liveBase cfg domain kt) domain kt) (\<lambda>cur.
        if case cur of Inl _ \<Rightarrow> False | Inr ck \<Rightarrow> samePublicKey (fst ck) (fst x) then op_ok ()
        else op_bind (op_wrap ''preserving the current live key'' (preserveLivePair env lib cfg domain kt)) (\<lambda>_.
          install_live env lib domain kt (taggedBase cfg domain kt tag) (liveBase cfg domain kt) (fst x)))) w1 ?Q"
    unfolding conjunct1 [OF x] tag simp_thms if_False
  proof (rule runs_try [OF runs_ends [OF runs_load [OF env(1) w1 l1]]], elim exE conjE, intro runs_if)
    fix r w2 y
    assume w2: "\<not> halted w2" and "r = Inr y" "y = kp" "content w2 = content w1"
      and "case r of Inl _ \<Rightarrow> False | Inr ck \<Rightarrow> samePublicKey (fst ck) (fst sk)"
    then show "runs (op_ok ()) w2 ?Q" using l1 verified_reads [of w2 w1]
      by (intro runs_ok exI [of _ kp]) simp_all
  next
    fix r w2 y
    assume w2: "\<not> halted w2" and c: "content w2 = content w1"
    have b2: "backed_up_live lib cfg domain kt kp w2" using b c x by (simp add: backed_up_live_def verified_at_def)
    show "runs (op_bind (op_wrap ''preserving the current live key'' (preserveLivePair env lib cfg domain kt)) (\<lambda>_.
          install_live env lib domain kt (taggedBase cfg domain kt tag) (liveBase cfg domain kt) (fst sk))) w2 ?Q"
    proof (rule runs_bind [OF runs_wrap [OF runs_preserve [OF env(1) w2 b2]]])
      fix u w3
      assume w3: "\<not> halted w3" and "content w3 = content w2"
      then have "verified_at lib w3 (taggedBase cfg domain kt tag) domain kt = Some sk" using v c x by (simp add: verified_at_def)
      from runs_install [OF env(1) w3 names this]
      show "runs (install_live env lib domain kt (taggedBase cfg domain kt tag) (liveBase cfg domain kt) (fst sk)) w3 ?Q"
        by (rule runs_mono) (auto simp: samePublicKey_def)
    qed
  qed
qed


section \<open>A new key generation\<close>

text \<open>The tag is named by a file of the keys directory or carried by a live key.\<close>

definition tag_used :: "keylib \<Rightarrow> config \<Rightarrow> string \<Rightarrow> 16 word \<Rightarrow> 'w fs_world_scheme \<Rightarrow> bool" where
  "tag_used lib cfg domain tag w \<longleftrightarrow> (\<exists>kt \<in> {''ksk'', ''zsk''}.
     (\<exists>p. content w p \<noteq> None \<and> entry_tag cfg domain kt p = Some tag) \<or>
     (\<exists>c k. content w (liveBase cfg domain kt @ ''.key'') = Some c \<and> ParseDNSKEYFromFile lib c = Inr k \<and> KeyTag lib k = tag))"

lemma ends_loadPublic:
  assumes "io_works env" "\<not> halted w"
  shows "ends (loadPublicKeyFromPath env lib base) w (\<lambda>r w'. content w' = content w \<and>
    (\<forall>k. r = Inr k \<longrightarrow> (\<exists>c. content w (base @ ''.key'') = Some c \<and> ParseDNSKEYFromFile lib c = Inr k)))"
  using assms by (auto simp: ends_def loadPublicKeyFromPath_def op_bind_def op_wrap_apply ReadFile_works op_res_def fun_eq_iff
      split: sum.splits prod.splits option.splits)

lemma runs_existingKeyTags:
  assumes env: "io_works env" "\<not> halted w"
  shows "runs (existingKeyTags env lib cfg domain) w
    (\<lambda>tags w'. content w' = content w \<and> (\<forall>t \<in> set tags. tag_used lib cfg domain t w))"
proof -
  have rd: "ends (io_step env (Msg ''readdir'') (op_get (\<lambda>w. map fst (files w)))) w
      (\<lambda>r w'. content w' = content w \<and> (\<forall>ps. r = Inr ps \<longrightarrow> (\<forall>p \<in> set ps. content w p \<noteq> None)))"
    using env by (auto simp: ends_def io_step_works content_def map_of_eq_None_iff fun_eq_iff)
  show ?thesis unfolding existingKeyTags_def
  proof (rule runs_try [OF rd], rule runs_try [OF ends_loadPublic [OF env(1)]], assumption,
      rule runs_try [OF ends_loadPublic [OF env(1)]], assumption, rule runs_ok, assumption)
    fix r1 w1 r2 w2 r3 w3
    assume r1: "content w1 = content w \<and> (\<forall>ps. r1 = Inr ps \<longrightarrow> (\<forall>p \<in> set ps. content w p \<noteq> None))"
      and r2: "content w2 = content w1 \<and> (\<forall>k. r2 = Inr k \<longrightarrow> (\<exists>c. content w1 (liveBase cfg domain ''ksk'' @ ''.key'') = Some c \<and> ParseDNSKEYFromFile lib c = Inr k))"
      and r3: "content w3 = content w2 \<and> (\<forall>k. r3 = Inr k \<longrightarrow> (\<exists>c. content w2 (liveBase cfg domain ''zsk'' @ ''.key'') = Some c \<and> ParseDNSKEYFromFile lib c = Inr k))"
    have c: "content w3 = content w" "content w2 = content w" using r1 r2 r3 by simp_all
    have A: "tag_used lib cfg domain t w" if h: "r1 = Inr ps" "t \<in> set (List.map_filter (entry_tag cfg domain kt) ps)" "kt \<in> {''ksk'', ''zsk''}" for t ps kt
    proof -
      obtain p where "p \<in> set ps" "entry_tag cfg domain kt p = Some t" using h(2) by (auto simp: List.map_filter_def)
      then show ?thesis unfolding tag_used_def using r1 h(1,3) by blast
    qed
    have B: "tag_used lib cfg domain (KeyTag lib k) w" if "r2 = Inr k" for k
      unfolding tag_used_def using r1 r2 that by (intro bexI [of _ "''ksk''"]) auto
    have C: "tag_used lib cfg domain (KeyTag lib k) w" if "r3 = Inr k" for k
      unfolding tag_used_def using c r3 that by (intro bexI [of _ "''zsk''"]) auto
    have "tag_used lib cfg domain t w" if "t \<in> set (case r1 of Inl _ \<Rightarrow> []
        | Inr ps \<Rightarrow> List.map_filter (entry_tag cfg domain ''ksk'') ps @ List.map_filter (entry_tag cfg domain ''zsk'') ps)" for t
      using that A [of _ t "''ksk''"] A [of _ t "''zsk''"] by (cases r1) auto
    moreover have "tag_used lib cfg domain t w" if "t \<in> set (case r2 of Inl _ \<Rightarrow> [] | Inr k \<Rightarrow> [KeyTag lib k])" for t
      using that B by (cases r2) auto
    moreover have "tag_used lib cfg domain t w" if "t \<in> set (case r3 of Inl _ \<Rightarrow> [] | Inr k \<Rightarrow> [KeyTag lib k])" for t
      using that C by (cases r3) auto
    ultimately show "content w3 = content w \<and> (\<forall>t \<in> set ((case r1 of Inl _ \<Rightarrow> []
               | Inr ps \<Rightarrow> List.map_filter (entry_tag cfg domain ''ksk'') ps @ List.map_filter (entry_tag cfg domain ''zsk'') ps)
         @ (case r2 of Inl _ \<Rightarrow> [] | Inr k \<Rightarrow> [KeyTag lib k]) @ (case r3 of Inl _ \<Rightarrow> [] | Inr k \<Rightarrow> [KeyTag lib k])).
         tag_used lib cfg domain t w)"
      using c(1) by (simp only: set_append ball_Un) blast
  qed
qed

lemma gen_unique_first:
  assumes "generateDNSSECKey lib (tick w) domain alg flags = Inr kp" "KeyTag lib (fst kp) \<notin> set tags"
  shows "gen_unique lib domain alg flags tags (Suc n) w = (Inr kp, w\<lparr>tick := Suc (tick w)\<rparr>)"
  using assms by (simp add: op_bind_def gen_key_def)

text \<open>Whatever the random source returns can be staged under a tag nobody uses.\<close>

definition gen_works :: "keylib \<Rightarrow> config \<Rightarrow> string \<Rightarrow> bool \<Rightarrow> string \<Rightarrow> 'w fs_world_scheme \<Rightarrow> bool" where
  "gen_works lib cfg domain isKSK alg w \<longleftrightarrow> (\<forall>t. \<exists>k priv.
     generateDNSSECKey lib t domain alg (if isKSK then 257 else 256) = Inr (k, priv) \<and>
     \<not> tag_used lib cfg domain (KeyTag lib k) w \<and> stageable lib cfg domain (keyRole isKSK) k priv w)"

lemma gen_works_cong: "content w' = content w \<Longrightarrow> gen_works lib cfg domain isKSK alg w' = gen_works lib cfg domain isKSK alg w"
  by (simp add: gen_works_def stageable_def tag_used_def)

lemma runs_stageNewKey:
  assumes env: "io_works env" "\<not> halted w" and alg: "alg \<noteq> []" and gen: "gen_works lib cfg domain isKSK alg w"
  shows "runs (stageNewKey env lib cfg domain isKSK alg) w (\<lambda>ks w'. \<exists>k priv c pc.
    k_ID ks = KeyTag lib k \<and> \<not> tag_used lib cfg domain (KeyTag lib k) w \<and>
    verified_at lib w' (taggedBase cfg domain (keyRole isKSK) (k_ID ks)) domain (keyRole isKSK) = Some (k, priv) \<and>
    content w (taggedBase cfg domain (keyRole isKSK) (k_ID ks) @ ''.key'') = None \<and>
    content w (taggedBase cfg domain (keyRole isKSK) (k_ID ks) @ ''.private'') = None \<and>
    content w' = (content w)(taggedBase cfg domain (keyRole isKSK) (k_ID ks) @ ''.private'' := Some pc,
      taggedBase cfg domain (keyRole isKSK) (k_ID ks) @ ''.key'' := Some c))"
proof -
  have "runs (generateKeyMaterial env lib cfg domain isKSK alg) w (\<lambda>(k, priv, ks) w'. content w' = content w \<and>
      k_ID ks = KeyTag lib k \<and> \<not> tag_used lib cfg domain (KeyTag lib k) w \<and> stageable lib cfg domain (keyRole isKSK) k priv w)"
    unfolding generateKeyMaterial_def Let_def
  proof (rule runs_bind [OF runs_existingKeyTags [OF env]])
    fix tags w1
    assume w1: "\<not> halted w1" and tags: "content w1 = content w \<and> (\<forall>t \<in> set tags. tag_used lib cfg domain t w)"
    obtain k priv where k: "generateDNSSECKey lib (tick w1) domain alg (if isKSK then 257 else 256) = Inr (k, priv)"
      "\<not> tag_used lib cfg domain (KeyTag lib k) w" "stageable lib cfg domain (keyRole isKSK) k priv w"
      using gen unfolding gen_works_def by blast
    have "gen_unique lib domain alg (if isKSK then 257 else 256) tags 10 w1 = (Inr (k, priv), w1\<lparr>tick := Suc (tick w1)\<rparr>)"
      using gen_unique_first [OF k(1), of tags 9] k(2) tags by (auto simp: eval_nat_numeral simp del: gen_unique.simps)
    then have "runs (gen_unique lib domain alg (if isKSK then 257 else 256) tags 10) w1 (\<lambda>x w'. x = (k, priv) \<and> content w' = content w)"
      using w1 tags by (auto intro!: runsI simp: fun_eq_iff)
    then show "runs (op_bind (gen_unique lib domain (if alg = [] then GetZoneAlgorithm cfg domain else alg) (if isKSK then 257 else 256) tags 10) (\<lambda>kp.
        op_bind (clock env) (\<lambda>now. op_ok (fst kp, snd kp, \<lparr>k_ID = KeyTag lib (fst kp),
          k_Algorithm = (if alg = [] then GetZoneAlgorithm cfg domain else alg), k_Created = now,
          k_Expires = now + (if isKSK then GetZoneKSKLifetime cfg domain else GetZoneZSKLifetime cfg domain), k_DSPublished = False,
          k_RolloverDue = now + three_quarters (if isKSK then GetZoneKSKLifetime cfg domain else GetZoneZSKLifetime cfg domain)\<rparr>)))) w1
      (\<lambda>(k, priv, ks) w'. content w' = content w \<and>
      k_ID ks = KeyTag lib k \<and> \<not> tag_used lib cfg domain (KeyTag lib k) w \<and> stageable lib cfg domain (keyRole isKSK) k priv w)"
      unfolding if_not_P [OF alg]
      by (rule runs_bind, intro runs_bind [OF runs_clock]) (use k in \<open>auto intro!: runs_ok\<close>)
  qed
  then show ?thesis unfolding stageNewKey_def
  proof (rule runs_bind)
    fix x w1
    assume w1: "\<not> halted w1" and "(\<lambda>(k, priv, ks) w'. content w' = content w \<and> k_ID ks = KeyTag lib k \<and>
      \<not> tag_used lib cfg domain (KeyTag lib k) w \<and> stageable lib cfg domain (keyRole isKSK) k priv w) x w1"
    then obtain k priv ks where x: "x = (k, priv, ks)" and c: "content w1 = content w" and ks: "k_ID ks = KeyTag lib k"
      "\<not> tag_used lib cfg domain (KeyTag lib k) w" and s: "stageable lib cfg domain (keyRole isKSK) k priv w" by (cases x) auto
    show "runs ((\<lambda>(k, priv, ks). op_bind (StageKeyPair env lib cfg domain (keyRole isKSK) k priv) (\<lambda>_. op_ok ks)) x) w1 (\<lambda>ks w'. \<exists>k priv c pc.
        k_ID ks = KeyTag lib k \<and> \<not> tag_used lib cfg domain (KeyTag lib k) w \<and>
        verified_at lib w' (taggedBase cfg domain (keyRole isKSK) (k_ID ks)) domain (keyRole isKSK) = Some (k, priv) \<and>
        content w (taggedBase cfg domain (keyRole isKSK) (k_ID ks) @ ''.key'') = None \<and>
        content w (taggedBase cfg domain (keyRole isKSK) (k_ID ks) @ ''.private'') = None \<and>
        content w' = (content w)(taggedBase cfg domain (keyRole isKSK) (k_ID ks) @ ''.private'' := Some pc,
          taggedBase cfg domain (keyRole isKSK) (k_ID ks) @ ''.key'' := Some c))"
      unfolding x prod.case
    proof (rule runs_bind [OF runs_StageKeyPair [OF env(1) w1]])
      show "stageable lib cfg domain (keyRole isKSK) k priv w1" using s by (simp add: stageable_cong [OF c])
    next
      fix b w2
      assume w2: "\<not> halted w2" and b: "b = taggedBase cfg domain (keyRole isKSK) (KeyTag lib k) \<and>
        (\<exists>c pc. content w2 = (content w1)(b @ ''.private'' := Some pc, b @ ''.key'' := Some c)) \<and>
        (\<exists>priv'. verified_at lib w2 b domain (keyRole isKSK) = Some (k, priv'))"
      have bb: "taggedBase cfg domain (keyRole isKSK) (k_ID ks) = b" using b ks by simp
      have free: "content w (b @ ''.key'') = None" "content w (b @ ''.private'') = None" using s b by (simp_all add: stageable_def)
      obtain ck pc priv' where "content w2 = (content w)(b @ ''.private'' := Some pc, b @ ''.key'' := Some ck)"
        "verified_at lib w2 b domain (keyRole isKSK) = Some (k, priv')" using b c by auto
      then show "runs (op_ok ks) w2 (\<lambda>ks w'. \<exists>k priv c pc.
        k_ID ks = KeyTag lib k \<and> \<not> tag_used lib cfg domain (KeyTag lib k) w \<and>
        verified_at lib w' (taggedBase cfg domain (keyRole isKSK) (k_ID ks)) domain (keyRole isKSK) = Some (k, priv) \<and>
        content w (taggedBase cfg domain (keyRole isKSK) (k_ID ks) @ ''.key'') = None \<and>
        content w (taggedBase cfg domain (keyRole isKSK) (k_ID ks) @ ''.private'') = None \<and>
        content w' = (content w)(taggedBase cfg domain (keyRole isKSK) (k_ID ks) @ ''.private'' := Some pc,
          taggedBase cfg domain (keyRole isKSK) (k_ID ks) @ ''.key'' := Some c))"
        unfolding bb using ks w2 free
        by - (rule runs_ok, simp, rule exI [of _ k], rule exI [of _ priv'], rule exI [of _ ck], rule exI [of _ pc],
            simp add: conjunct1 [OF b, symmetric])
    qed
  qed
qed


lemma runs_EnsureLiveKey:
  assumes env: "io_works env" "\<not> halted w" and v: "verified_at lib w (liveBase cfg domain kt) domain kt = Some kp"
    and tag: "KeyTag lib (fst kp) = expected"
  shows "runs (EnsureLiveKey env lib cfg domain kt expected) w (\<lambda>x w'. x = kp \<and> content w' = content w)"
  unfolding EnsureLiveKey_def Let_def
  by (rule runs_try [OF runs_ends [OF runs_load [OF env v]]], elim exE conjE, hypsubst) (simp add: tag op_res_def runs_ok)

end
