(* ===== verification/Rollover_Progress.thy ===== *)
theory Rollover_Progress
  imports Key_Progress
begin

text \<open>
  A KSK rollover that may start does start: on a working file system the new key is staged,
  the record is saved and the new key becomes the live one.
\<close>

lemma runs_rest:
  fixes w :: world
  assumes "runs m w Q" and "keeps same_rest m"
  shows "runs m w (\<lambda>x w'. Q x w' \<and> mem w' = mem w \<and> sfile w' = sfile w)"
  using assms(1)
proof (rule runsE)
  fix x w'
  assume m: "m w = (Inr x, w')" "\<not> halted w'" "Q x w'"
  then show ?thesis using keepsD [OF assms(2) m(1)]
    by (auto intro!: runsI simp: mem_of_rest sfile_of_rest)
qed

lemma runs_Save:
  assumes "io_works env" "\<not> halted w"
  shows "runs (Save env) w (\<lambda>x w'. content w' = content w \<and> mem w' = saved (mem w) \<and>
    sfile w' = Doc (marshal (bump_revisions (mem w))))"
proof -
  let ?w1 = "w\<lparr>mem := bump_revisions (mem w)\<rparr>"
  have "replace_atomic env ''state.json'' (\<lambda>w. w\<lparr>sfile := Doc (marshal (bump_revisions (mem ?w1)))\<rparr>) ?w1 =
      (Inr (), (?w1\<lparr>sfile := Doc (marshal (bump_revisions (mem ?w1)))\<rparr>)\<lparr>tick := tick w + 8\<rparr>)"
    using assms by (subst replace_atomic_works) auto
  then have "fst (Save env w) = Inr ()"
    using assms by (auto simp: Save_def op_bind_def op_try_def upd_mem_def replace_atomic_works)
  then show ?thesis
    by (cases rule: Save_cases [of env w]) (auto intro!: runsI simp: content_def fun_eq_iff)
qed

lemma runs_Mutate:
  "\<not> halted w \<Longrightarrow> runs (Mutate domain f) w (\<lambda>x w'. content w' = content w \<and> mem w' = UpdateZone domain f (mem w))"
  by (rule runsI [of _ _ "()" "upd_mem (UpdateZone domain f) w"]) (auto simp: Mutate_def upd_mem_def content_def fun_eq_iff)

text \<open>Adding files at free paths leaves every pair as it was.\<close>

lemma verified_at_extend:
  assumes "verified_at lib w base domain kt = Some kp" and "content w p = None" "content w q = None"
    and "content w' = (content w)(p := Some c, q := Some d)"
  shows "verified_at lib w' base domain kt = Some kp"
proof -
  obtain a b where "content w (base @ ''.key'') = Some a" "content w (base @ ''.private'') = Some b"
    using verified_at_halves [OF assms(1)] by blast
  then have "content w' (base @ ''.key'') = content w (base @ ''.key'')" "content w' (base @ ''.private'') = content w (base @ ''.private'')"
    using assms(2-4) by auto
  from verified_at_cong [OF this] show ?thesis using assms(1) by metis
qed

lemma backed_up_extend:
  assumes "backed_up_live lib cfg domain kt kp w" and "content w p = None" "content w q = None"
    and "content w' = (content w)(p := Some c, q := Some d)"
  shows "backed_up_live lib cfg domain kt kp w'"
  using assms(1) verified_at_extend [OF _ assms(2-4)] unfolding backed_up_live_def by blast

lemma backed_up_reads: "content w' = content w \<Longrightarrow> backed_up_live lib cfg domain kt kp w' = backed_up_live lib cfg domain kt kp w"
  unfolding backed_up_live_def by (metis verified_reads)

lemma bump_revision_keys:
  "z_KSK (bump_revision b n z) = z_KSK z" "z_Rollover (bump_revision b n z) = z_Rollover z"
  by (simp_all add: bump_revision_def split: option.split)

text \<open>What a started KSK rollover looks like on disk.\<close>

definition ksk_started :: "keylib \<Rightarrow> config \<Rightarrow> string \<Rightarrow> key_state \<Rightarrow> world \<Rightarrow> bool" where
  "ksk_started lib cfg domain old w \<longleftrightarrow> (\<exists>z new now kp k.
     disk_zone domain w = Some z \<and> z_KSK z = Some new \<and> z_Rollover z = Some (ksk_record domain old new now) \<and>
     k_ID new \<noteq> k_ID old \<and> KeyTag lib k = k_ID new \<and>
     verified_at lib w (liveBase cfg domain ''ksk'') domain ''ksk'' = Some kp \<and> samePublicKey (fst kp) k)"

lemma runs_ksk_commit:
  assumes env: "io_works env" "\<not> halted w" and names: "key_names domain ''ksk''"
    and z: "GetZone domain (mem w) = Some z" and b: "backed_up_live lib (rm_cfg rm) domain ''ksk'' kp w"
    and v: "verified_at lib w (taggedBase (rm_cfg rm) domain ''ksk'' (k_ID new)) domain ''ksk'' = Some sk"
      "KeyTag lib (fst sk) = k_ID new" "k_ID new \<noteq> k_ID old"
  shows "runs (ksk_commit env lib rm domain old new) w (\<lambda>_. ksk_started lib (rm_cfg rm) domain old)"
  unfolding ksk_commit_def
proof (rule runs_bind [OF runs_rest [OF runs_clock rest.frame_clock]], rule env(2), rule runs_bind [OF runs_Mutate], assumption)
  fix now and w1 w2 :: world
  let ?f = "\<lambda>z. z\<lparr>z_Rollover := Some (ksk_record domain old new now), z_KSK := Some new, z_ForceResign := True\<rparr>"
  assume w2: "\<not> halted w2" and c2: "content w2 = content w1 \<and> mem w2 = UpdateZone domain ?f (mem w1)"
    and c1: "content w1 = content w \<and> mem w1 = mem w \<and> sfile w1 = sfile w"
  show "runs (op_bind (save_record env domain (\<lambda>z. z\<lparr>z_KSK := Some old, z_Rollover := None, z_ForceResign := False\<rparr>)) (\<lambda>_.
      activateRecorded env lib rm domain ''ksk'' (k_ID new))) w2 (\<lambda>_. ksk_started lib (rm_cfg rm) domain old)"
    unfolding save_record_def
  proof (rule runs_bind [OF runs_try [OF runs_ends [OF runs_Save [OF env(1) w2]]]], elim exE conjE, simp only: sum.case, rule runs_ok, assumption)
    fix x and w3 :: world
    assume c: "content w3 = content w2" "mem w3 = saved (mem w2)" "sfile w3 = Doc (marshal (bump_revisions (mem w2)))"
    show "content w3 = content w2 \<and> mem w3 = saved (mem w2) \<and> sfile w3 = Doc (marshal (bump_revisions (mem w2)))" using c by simp
  next
    fix x and w3 :: world
    assume w3: "\<not> halted w3" and c3: "content w3 = content w2 \<and> mem w3 = saved (mem w2) \<and> sfile w3 = Doc (marshal (bump_revisions (mem w2)))"
    then have c: "content w3 = content w" using c1 c2 by simp
    have "disk_zone domain w3 = GetZone domain (bump_revisions (mem w2))" using c3 disk_zone_marshal by blast
    also have "\<dots> = Some (bump_revision (s_base (mem w2)) domain (?f z))"
      using c1 c2 z by (simp add: GetZone_bump_revisions GetZone_Mutate)
    finally have disk: "disk_zone domain w3 = Some (bump_revision (s_base (mem w2)) domain (?f z))" .
    have v3: "verified_at lib w3 (taggedBase (rm_cfg rm) domain ''ksk'' (k_ID new)) domain ''ksk'' = Some sk"
      unfolding verified_reads [OF c] by (rule v(1))
    have b3: "backed_up_live lib (rm_cfg rm) domain ''ksk'' kp w3" using b backed_up_reads [OF c] by blast
    note act = runs_ActivateKeyPair [OF env(1) w3 names b3 v3 v(2)]
    have "runs (activateRecorded env lib rm domain ''ksk'' (k_ID new)) w3 (\<lambda>u w'. (\<exists>kp'.
        verified_at lib w' (liveBase (rm_cfg rm) domain ''ksk'') domain ''ksk'' = Some kp' \<and> samePublicKey (fst kp') (fst sk)) \<and>
        mem w' = mem w3 \<and> sfile w' = sfile w3)"
      by (rule runs_rest [OF _ rest_activate], unfold activateRecorded_def, rule runs_wrap [OF act])
    then show "runs (activateRecorded env lib rm domain ''ksk'' (k_ID new)) w3 (\<lambda>_. ksk_started lib (rm_cfg rm) domain old)"
    proof (rule runs_mono)
      fix u and w' :: world
      assume "(\<exists>kp'. verified_at lib w' (liveBase (rm_cfg rm) domain ''ksk'') domain ''ksk'' = Some kp' \<and> samePublicKey (fst kp') (fst sk)) \<and>
        mem w' = mem w3 \<and> sfile w' = sfile w3"
      moreover from this have "disk_zone domain w' = disk_zone domain w3" by (simp add: disk_zone_def)
      ultimately show "ksk_started lib (rm_cfg rm) domain old w'"
        using disk v(2,3) by (auto simp: ksk_started_def bump_revision_keys)
    qed
  qed
qed

lemma tag_used_live:
  assumes "verified_at lib w (liveBase cfg domain kt) domain kt = Some kp" "kt \<in> {''ksk'', ''zsk''}"
  shows "tag_used lib cfg domain (KeyTag lib (fst kp)) w"
proof -
  obtain k priv where kp: "kp = (k, priv)" by (cases kp)
  show ?thesis using verified_at_public [OF assms(1) [unfolded kp]] assms(2) unfolding tag_used_def kp by auto
qed

lemma runs_StartKSKRollover:
  assumes env: "io_works env" "\<not> halted w" and names: "key_names domain ''ksk''"
    and z: "GetZone domain (mem w) = Some z" "z_Rollover z = None" "z_KSK z = Some old" "k_Algorithm old \<noteq> []"
    and b: "backed_up_live lib (rm_cfg rm) domain ''ksk'' kp w" "KeyTag lib (fst kp) = k_ID old"
    and gen: "gen_works lib (rm_cfg rm) domain True (k_Algorithm old) w"
  shows "runs (StartKSKRollover env lib rm domain) w (\<lambda>_. ksk_started lib (rm_cfg rm) domain old)"
proof -
  let ?t = "taggedBase (rm_cfg rm) domain ''ksk''"
  have live: "verified_at lib w (liveBase (rm_cfg rm) domain ''ksk'') domain ''ksk'' = Some kp"
    using b(1) by (simp add: backed_up_live_def)
  have "runs (op_bind (op_wrap ''backing up old KSK before rollover'' (BackupKey env lib (rm_cfg rm) domain ''ksk'' (k_ID old))) (\<lambda>_.
       op_bind (op_wrap ''generating new KSK'' (stageNewKey env lib (rm_cfg rm) domain True (k_Algorithm old))) (\<lambda>newKSK.
       ksk_commit env lib rm domain old newKSK))) w (\<lambda>_. ksk_started lib (rm_cfg rm) domain old)"
  proof (rule runs_bind [OF runs_rest [OF runs_wrap [OF runs_BackupKey [OF env b]] rest.keeps_wrap [OF rest_BackupKey]]])
    fix u and w1 :: world
    assume w1: "\<not> halted w1" and c1: "content w1 = content w \<and> mem w1 = mem w \<and> sfile w1 = sfile w"
    then have gen1: "gen_works lib (rm_cfg rm) domain True (k_Algorithm old) w1" using gen gen_works_cong by metis
    show "runs (op_bind (op_wrap ''generating new KSK'' (stageNewKey env lib (rm_cfg rm) domain True (k_Algorithm old))) (\<lambda>newKSK.
       ksk_commit env lib rm domain old newKSK)) w1 (\<lambda>_. ksk_started lib (rm_cfg rm) domain old)"
    proof (rule runs_bind [OF runs_rest [OF runs_wrap [OF runs_stageNewKey [OF env(1) w1 z(4) gen1]] rest.keeps_wrap [OF rest_stageNewKey]]],
        unfold keyRole_def if_True, elim conjE exE)
      fix new :: key_state and k priv c pc and w2 :: world
      assume w2: "\<not> halted w2" and m: "mem w2 = mem w1" and k: "k_ID new = KeyTag lib k" "\<not> tag_used lib (rm_cfg rm) domain (KeyTag lib k) w1"
        "verified_at lib w2 (?t (k_ID new)) domain ''ksk'' = Some (k, priv)"
        and free: "content w1 (?t (k_ID new) @ ''.key'') = None" "content w1 (?t (k_ID new) @ ''.private'') = None"
        and c2: "content w2 = (content w1)(?t (k_ID new) @ ''.private'' := Some pc, ?t (k_ID new) @ ''.key'' := Some c)"
      have "backed_up_live lib (rm_cfg rm) domain ''ksk'' kp w1" using b(1) c1 backed_up_reads by metis
      from backed_up_extend [OF this free(2,1) c2] have b2: "backed_up_live lib (rm_cfg rm) domain ''ksk'' kp w2" .
      have "tag_used lib (rm_cfg rm) domain (k_ID old) w1"
        using tag_used_live [OF live] b(2) c1 by (simp add: tag_used_def)
      then have "k_ID new \<noteq> k_ID old" using k(1,2) by auto
      moreover have "GetZone domain (mem w2) = Some z" using m c1 z(1) by simp
      ultimately show "runs (ksk_commit env lib rm domain old new) w2 (\<lambda>_. ksk_started lib (rm_cfg rm) domain old)"
        using runs_ksk_commit [OF env(1) w2 names _ b2 k(3)] k(1) by simp
    qed
  qed
  then show ?thesis using z(1-3) by (simp add: runs_def ends_def StartKSKRollover_def look_bind)
qed

section \<open>ZSK phases\<close>

lemma runs_with_rollover:
  assumes "GetZone domain (mem w) = Some z" "z_Rollover z = Some r" "runs (f z r) w Q"
  shows "runs (with_rollover domain f d) w Q"
  using assms by (simp add: with_rollover_def look_bind runs_def ends_def)

lemma zview_eqD:
  assumes "zview a = zview b"
  shows "z_Rollover a = z_Rollover b \<and> z_KSK a = z_KSK b \<and> z_ZSK a = z_ZSK b \<and> z_ForceResign a = z_ForceResign b"
  using assms by (metis zview_fields(1,2,3,5))

lemma runs_mutate_save:
  assumes "io_works env" "\<not> halted w" "GetZone domain (mem w) = Some z"
  shows "runs (op_bind (Mutate domain f) (\<lambda>_. Save env)) w
    (\<lambda>x w'. \<exists>z'. GetZone domain (mem w') = Some z' \<and> zview z' = zview (f z))"
proof (rule runs_bind [OF runs_Mutate [OF assms(2)]], rule runs_mono [OF runs_Save [OF assms(1)]], assumption)
  fix w1 w2 :: world
  assume "content w1 = content w \<and> mem w1 = UpdateZone domain f (mem w)"
    and "content w2 = content w1 \<and> mem w2 = saved (mem w1) \<and> sfile w2 = Doc (marshal (bump_revisions (mem w1)))"
  then have "GetZone domain (mem w2) = Some (bump_revision (s_base (mem w1)) domain (f z))"
    using assms(3) GetZone_bump_revisions [of domain "mem w1"] GetZone_Mutate [of domain f "mem w"]
    by (simp add: saved_def GetZone_def)
  then show "\<exists>z'. GetZone domain (mem w2) = Some z' \<and> zview z' = zview (f z)" by simp
qed

lemma stamp_done:
  assumes "GetZone domain (mem w) = Some z" "z_Rollover z = Some r" "r_PhaseFirstSigned r \<noteq> 0"
  shows "stampPhasePublication env domain fl hs w = (Inr (), w)"
  using assms by (simp add: stampPhasePublication_def with_rollover_def look_bind)

lemma runs_zsk_switch:
  assumes env: "io_works env" "\<not> halted w"
    and z: "GetZone domain (mem w) = Some z" "z_Rollover z = Some r" "r_State r = ZSKRolloverStatePrePublish"
    and due: "c_RolloverSwitch (DNSSEC (rm_cfg rm)) \<le> time_sub (now_at env (tick w)) (r_Started r)"
      "PublishedSince z (r_Started r)" "r_PhaseFirstSigned r \<noteq> 0" "r_PhaseHorizon r \<le> now_at env (tick w)"
    and v: "verified_at lib w (liveBase (rm_cfg rm) domain ''zsk'') domain ''zsk'' = Some kp" "KeyTag lib (fst kp) = r_NewKeyID r"
  shows "runs (handleZSKRolloverState env lib rm domain) w (\<lambda>_ w'. \<exists>z' r'. GetZone domain (mem w') = Some z' \<and>
    z_Rollover z' = Some r' \<and> r_State r' = ZSKRolloverStateSigning \<and> r_PhaseStarted r' = now_at env (tick w) \<and>
    map_option k_ID (z_ZSK z') = Some (r_NewKeyID r) \<and> z_ForceResign z')"
proof -
  let ?w = "w\<lparr>tick := Suc (tick w)\<rparr>" and ?now = "now_at env (tick w)"
  have w: "\<not> halted ?w" "GetZone domain (mem ?w) = Some z" using env z by simp_all
  have live: "verified_at lib ?w (liveBase (rm_cfg rm) domain ''zsk'') domain ''zsk'' = Some kp"
    using v(1) verified_reads [of ?w w] by (simp add: fun_eq_iff)
  have "runs (zsk_switch env lib rm domain ?now) ?w (\<lambda>_ w'. \<exists>z' r'. GetZone domain (mem w') = Some z' \<and>
    z_Rollover z' = Some r' \<and> r_State r' = ZSKRolloverStateSigning \<and> r_PhaseStarted r' = ?now \<and>
    map_option k_ID (z_ZSK z') = Some (r_NewKeyID r) \<and> z_ForceResign z')"
    unfolding zsk_switch_def
  proof (rule runs_with_rollover [OF w(2) z(2)], rule runs_if)
    show "now_at env (tick w) < r_PhaseHorizon r \<Longrightarrow> runs (op_ok ()) ?w Q" for Q using due(4) by simp
  next
    let ?f = "\<lambda>kp z. (upd_rollover (\<lambda>r. r\<lparr>r_State := ZSKRolloverStateSigning, r_PhaseStarted := ?now,
             r_PhaseFirstSigned := 0, r_PhaseHorizon := 0,
             r_Action := ''Automatic: signing with new ZSK, old ZSK still published''\<rparr>) z)
           \<lparr>z_ZSK := Some (switched_zsk lib (rm_cfg rm) domain (fst kp) r), z_ForceResign := True\<rparr>"
    show "runs (op_bind (op_wrap ''loading new ZSK'' (EnsureLiveKey env lib (rm_cfg rm) domain ''zsk'' (r_NewKeyID r))) (\<lambda>kp.
       op_bind (Mutate domain (?f kp)) (\<lambda>_. Save env))) ?w (\<lambda>_ w'. \<exists>z' r'. GetZone domain (mem w') = Some z' \<and>
    z_Rollover z' = Some r' \<and> r_State r' = ZSKRolloverStateSigning \<and> r_PhaseStarted r' = ?now \<and>
    map_option k_ID (z_ZSK z') = Some (r_NewKeyID r) \<and> z_ForceResign z')"
    proof (rule runs_bind [OF runs_rest [OF runs_wrap [OF runs_EnsureLiveKey [OF env(1) w(1) live v(2)]]
            rest.keeps_wrap [OF rest.frame_EnsureLiveKey]]], simp, simp)
      fix x and w1 :: world
      assume w1: "\<not> halted w1" and x: "(x = kp \<and> content w1 = content ?w) \<and> mem w1 = mem ?w \<and> sfile w1 = sfile ?w"
      then have g: "GetZone domain (mem w1) = Some z" using w(2) by simp
      show "runs (op_bind (Mutate domain (?f x)) (\<lambda>_. Save env)) w1 (\<lambda>_ w'. \<exists>z' r'. GetZone domain (mem w') = Some z' \<and>
        z_Rollover z' = Some r' \<and> r_State r' = ZSKRolloverStateSigning \<and> r_PhaseStarted r' = ?now \<and>
        map_option k_ID (z_ZSK z') = Some (r_NewKeyID r) \<and> z_ForceResign z')"
      proof (rule runs_mono [OF runs_mutate_save [OF env(1) w1 g]], elim exE conjE)
        fix w' :: world and z'
        assume "GetZone domain (mem w') = Some z'" and "zview z' = zview (?f x z)"
        then show "\<exists>z' r'. GetZone domain (mem w') = Some z' \<and>
          z_Rollover z' = Some r' \<and> r_State r' = ZSKRolloverStateSigning \<and> r_PhaseStarted r' = ?now \<and>
          map_option k_ID (z_ZSK z') = Some (r_NewKeyID r) \<and> z_ForceResign z'"
          using zview_eqD [of z' "?f x z"] x z(2) v(2) by (simp add: upd_rollover_def switched_zsk_def)
      qed
    qed
  qed
  moreover have "handleZSKRolloverState env lib rm domain w = zsk_switch env lib rm domain ?now ?w"
    using due z stamp_done [OF w(2) z(2) due(3)]
    by (simp add: handleZSK_at zsk_prepublish_step_def op_bind_def not_less)
  ultimately show ?thesis by (simp add: runs_def ends_def)
qed


lemma runs_zsk_finish:
  assumes env: "io_works env" "\<not> halted w"
    and z: "GetZone domain (mem w) = Some z" "z_Rollover z = Some r" "r_State r = ZSKRolloverStateSigning"
    and due: "c_RolloverPrepublish (DNSSEC (rm_cfg rm)) - c_RolloverSwitch (DNSSEC (rm_cfg rm)) \<in> {0<..<2 ^ 63}"
      "c_RolloverPrepublish (DNSSEC (rm_cfg rm)) - c_RolloverSwitch (DNSSEC (rm_cfg rm)) \<le> time_sub (now_at env (tick w)) (phase_start r)"
      "PublishedSince z (phase_start r)" "r_PhaseFirstSigned r \<noteq> 0" "r_PhaseHorizon r \<le> now_at env (tick w)"
  shows "runs (handleZSKRolloverState env lib rm domain) w (\<lambda>_ w'. \<exists>z'. GetZone domain (mem w') = Some z' \<and> z_Rollover z' = None)"
proof -
  let ?w = "w\<lparr>tick := Suc (tick w)\<rparr>" and ?now = "now_at env (tick w)"
  have w: "\<not> halted ?w" "GetZone domain (mem ?w) = Some z" using env z by simp_all
  have "runs (zsk_finish env domain ?now) ?w (\<lambda>_ w'. \<exists>z'. GetZone domain (mem w') = Some z' \<and> z_Rollover z' = None)"
    unfolding zsk_finish_def
  proof (rule runs_with_rollover [OF w(2) z(2)], rule runs_if)
    show "now_at env (tick w) < r_PhaseHorizon r \<Longrightarrow> runs (op_ok ()) ?w Q" for Q using due(5) by simp
  next
    show "runs (op_bind (Mutate domain (\<lambda>z. ClearTransientWarnings (z\<lparr>z_Rollover := None, z_ForceResign := True\<rparr>))) (\<lambda>_. Save env)) ?w
      (\<lambda>_ w'. \<exists>z'. GetZone domain (mem w') = Some z' \<and> z_Rollover z' = None)"
      by (rule runs_mono [OF runs_mutate_save [OF env(1) w]])
        (auto dest!: zview_eqD simp: ClearTransientWarnings_def)
  qed
  moreover have "handleZSKRolloverState env lib rm domain w = zsk_finish env domain ?now ?w"
    using due z stamp_done [OF w(2) z(2) due(4)] wrap64_id
      [of "c_RolloverPrepublish (DNSSEC (rm_cfg rm)) - c_RolloverSwitch (DNSSEC (rm_cfg rm))"]
    by (simp add: handleZSK_at zsk_signing_step_def op_bind_def not_less Let_def)
  ultimately show ?thesis by (simp add: runs_def ends_def)
qed

end
