(* ===== verification/Sample_Zone.thy ===== *)
theory Sample_Zone
  imports Rollover_Progress
begin

text \<open>
  A small signer installation on which the properties are instantiated: one zone with an
  ED25519 key pair per role, a clock that advances a second per tick, a file system that
  works, and a concrete instance of every library function the model takes as a parameter.
\<close>

definition sample_env :: env where
  "sample_env = \<lparr>now_at = (\<lambda>t. (1700000000 + int t) * Second), io_at = (\<lambda>_. IoOk)\<rparr>"

text \<open>The process stops at the given tick.\<close>

definition crash_env :: "nat \<Rightarrow> env" where
  "crash_env n = sample_env\<lparr>io_at := (\<lambda>t. if t = n then IoCrash else IoOk)\<rparr>"

definition sample_domain :: string where "sample_domain = ''a.b''"

definition sample_seed :: "char \<Rightarrow> bytes" where "sample_seed c = replicate 32 c"

definition sample_key :: "16 word \<Rightarrow> bytes \<Rightarrow> dnskey" where
  "sample_key flags pub = \<lparr>dk_Name = sample_domain @ ''.'', dk_Flags = flags, dk_Protocol = 3,
     dk_Algorithm = ED25519, dk_PublicKey = b64_encode pub\<rparr>"

text \<open>
  Presentation format: one letter for the role, then the encoded public key; the tag is the
  first character of the encoded key; the public half of a seed is the seed reversed. The
  generator always returns the same seed, so a used tag makes it give up.
\<close>

definition sample_lib :: keylib where
  "sample_lib = \<lparr>
     NewRR_DNSKEY = (\<lambda>l. case l of [] \<Rightarrow> None | c # p \<Rightarrow>
       if c = CHR ''K'' \<or> c = CHR ''Z'' then
         Some \<lparr>dk_Name = sample_domain @ ''.'', dk_Flags = (if c = CHR ''K'' then 257 else 256), dk_Protocol = 3,
           dk_Algorithm = ED25519, dk_PublicKey = p\<rparr> else None),
     DNSKEY_String = (\<lambda>k. (if dk_Flags k = 257 then CHR ''K'' else CHR ''Z'') # dk_PublicKey k),
     PrivateKeyString = (\<lambda>k p. []),
     KeyTag = (\<lambda>k. case dk_PublicKey k of [] \<Rightarrow> 0 | c # _ \<Rightarrow> of_nat (of_char c)),
     Fqdn = (\<lambda>d. d @ ''.''),
     EdPublic = rev,
     BaseMult = (\<lambda>c b. (1, 2)),
     ParsePKCS1 = (\<lambda>b. None),
     MarshalPKCS1 = (\<lambda>p. []),
     ValidateRSA = (\<lambda>p. False),
     EdGenerate = (\<lambda>t. Some (sample_seed (CHR ''z''))),
     EcGenerate = (\<lambda>t c. None),
     RSAGenerate = (\<lambda>t k n. None)\<rparr>"

definition sample_cfg :: config where
  "sample_cfg = \<lparr>OutputDir = ''/o'', DataDir = ''/d'', PollInterval = Minute,
     DNSSEC = \<lparr>c_Algorithm = ''ED25519'', c_KSKLifetime = 365 * 24 * Hour, c_ZSKLifetime = 90 * 24 * Hour,
       c_SignatureValidity = 14 * 24 * Hour, c_SignatureRefresh = 3 * 24 * Hour, c_NSECVersion = ''nsec'',
       c_NSEC3Iterations = 0, c_NSEC3Salt = [], c_DNSKEYTtl = 3600, c_RolloverPrepublish = 14 * 24 * Hour,
       c_RolloverSwitch = 7 * 24 * Hour, c_SerialPolicy = [], c_Publication = ''immediate'', c_ParentDSTTL = 24 * Hour\<rparr>,
     Zones = [(sample_domain, \<lparr>zc_Path = ''/z'', zc_KSKLifetime = 0, zc_ZSKLifetime = 0, zc_Algorithm = [],
       zc_Registrar = [], zc_SerialPolicy = []\<rparr>)],
     Hooks = \<lparr>h_PostSign = [], h_PostSignCmd = [], h_Shell = False, h_CoalescePostSign = False\<rparr>, LoadedAt = 0\<rparr>"

definition sample_rm :: rollover_manager where
  "sample_rm = NewRolloverManager sample_cfg"

definition sample_key_text :: "16 word \<Rightarrow> char \<Rightarrow> string" where
  "sample_key_text flags c = DNSKEY_String sample_lib (sample_key flags (rev (sample_seed c))) @ [CHR 0x0A]"

definition sample_private_text :: "char \<Rightarrow> string" where
  "sample_private_text c = join_lines [private_field ''PrivateKey'' (b64_encode (sample_seed c))]"

definition sample_tag :: "char \<Rightarrow> 16 word" where
  "sample_tag c = KeyTag sample_lib (sample_key 257 (rev (sample_seed c)))"

definition sample_pair :: "string \<Rightarrow> 16 word \<Rightarrow> char \<Rightarrow> (string, string) gomap" where
  "sample_pair base flags c = [(base @ ''.key'', sample_key_text flags c), (base @ ''.private'', sample_private_text c)]"

text \<open>Both roles have their live pair and its copy under the tag.\<close>

definition sample_files :: "(string, string) gomap" where
  "sample_files =
     sample_pair (liveBase sample_cfg sample_domain ''ksk'') 257 (CHR ''A'') @
     sample_pair (taggedBase sample_cfg sample_domain ''ksk'' (sample_tag (CHR ''A''))) 257 (CHR ''A'') @
     sample_pair (liveBase sample_cfg sample_domain ''zsk'') 256 (CHR ''k'') @
     sample_pair (taggedBase sample_cfg sample_domain ''zsk'' (sample_tag (CHR ''k''))) 256 (CHR ''k'')"

definition sample_key_state :: "char \<Rightarrow> key_state" where
  "sample_key_state c = \<lparr>k_ID = sample_tag c, k_Algorithm = ''ED25519'',
     k_Created = 0, k_Expires = 1800000000 * Second, k_DSPublished = False, k_RolloverDue = 0\<rparr>"

definition sample_zone :: zone_state where
  "sample_zone = zero_zone\<lparr>z_Path := ''/z'', z_Serial := 7, z_KSK := Some (sample_key_state (CHR ''A'')),
     z_ZSK := Some (sample_key_state (CHR ''k''))\<rparr>"

definition sample_state :: state where
  "sample_state = \<lparr>s_Zones = [(sample_domain, sample_zone)], s_Removed = [], s_fileSeen = True,
     s_base = [(sample_domain, sample_zone)]\<rparr>"

definition sample_world :: world where
  "sample_world = \<lparr>tick = 0, halted = False, files = sample_files, mem = sample_state, sfile = NoFile\<rparr>"

section \<open>Evaluation\<close>

lemma sample_paths:
  "liveBase sample_cfg sample_domain ''ksk'' = ''/d/keys/a.b.ksk''"
  "taggedBase sample_cfg sample_domain ''ksk'' (sample_tag (CHR ''A'')) = ''/d/keys/a.b.ksk.81''"
  "liveBase sample_cfg sample_domain ''zsk'' = ''/d/keys/a.b.zsk''"
  "taggedBase sample_cfg sample_domain ''zsk'' (sample_tag (CHR ''k'')) = ''/d/keys/a.b.zsk.97''"
  by code_simp+

lemma sample_keys:
  "ParseDNSKEYFromFile sample_lib (sample_key_text 257 (CHR ''A'')) = Inr (sample_key 257 (rev (sample_seed (CHR ''A''))))"
  "ParsePrivateKeyFromFile sample_lib (sample_private_text (CHR ''A'')) = Inr (sample_seed (CHR ''A''))"
  "VerifyKeyPairCorrespondence sample_lib (sample_key 257 (rev (sample_seed (CHR ''A'')))) (sample_seed (CHR ''A'')) = Inr ()"
  "validateLoadedKey sample_lib (sample_key 257 (rev (sample_seed (CHR ''A'')))) sample_domain ''ksk'' = Inr ()"
  "ParseDNSKEYFromFile sample_lib (sample_key_text 256 (CHR ''k'')) = Inr (sample_key 256 (rev (sample_seed (CHR ''k''))))"
  "ParsePrivateKeyFromFile sample_lib (sample_private_text (CHR ''k'')) = Inr (sample_seed (CHR ''k''))"
  "VerifyKeyPairCorrespondence sample_lib (sample_key 256 (rev (sample_seed (CHR ''k'')))) (sample_seed (CHR ''k'')) = Inr ()"
  "validateLoadedKey sample_lib (sample_key 256 (rev (sample_seed (CHR ''k'')))) sample_domain ''zsk'' = Inr ()"
  by code_simp+

lemma sample_files_eq: "sample_files =
  [(''/d/keys/a.b.ksk.key'', sample_key_text 257 (CHR ''A'')), (''/d/keys/a.b.ksk.private'', sample_private_text (CHR ''A'')),
   (''/d/keys/a.b.ksk.81.key'', sample_key_text 257 (CHR ''A'')), (''/d/keys/a.b.ksk.81.private'', sample_private_text (CHR ''A'')),
   (''/d/keys/a.b.zsk.key'', sample_key_text 256 (CHR ''k'')), (''/d/keys/a.b.zsk.private'', sample_private_text (CHR ''k'')),
   (''/d/keys/a.b.zsk.97.key'', sample_key_text 256 (CHR ''k'')), (''/d/keys/a.b.zsk.97.private'', sample_private_text (CHR ''k''))]"
  by (simp add: sample_files_def sample_pair_def sample_paths)

lemma sample_names_eq: "map fst sample_files =
  [''/d/keys/a.b.ksk.key'', ''/d/keys/a.b.ksk.private'', ''/d/keys/a.b.ksk.81.key'', ''/d/keys/a.b.ksk.81.private'',
   ''/d/keys/a.b.zsk.key'', ''/d/keys/a.b.zsk.private'', ''/d/keys/a.b.zsk.97.key'', ''/d/keys/a.b.zsk.97.private'']"
  by (simp add: sample_files_eq)

lemma sample_content: "content sample_world p = map_of sample_files p"
  by (simp add: content_def sample_world_def)

lemma sample_verified:
  "verified_at sample_lib sample_world (liveBase sample_cfg sample_domain ''ksk'') sample_domain ''ksk'' =
     Some (sample_key 257 (rev (sample_seed (CHR ''A''))), sample_seed (CHR ''A''))"
  "verified_at sample_lib sample_world (taggedBase sample_cfg sample_domain ''ksk'' (sample_tag (CHR ''A''))) sample_domain ''ksk'' =
     Some (sample_key 257 (rev (sample_seed (CHR ''A''))), sample_seed (CHR ''A''))"
  "verified_at sample_lib sample_world (liveBase sample_cfg sample_domain ''zsk'') sample_domain ''zsk'' =
     Some (sample_key 256 (rev (sample_seed (CHR ''k''))), sample_seed (CHR ''k''))"
  by (simp_all add: verified_at_def sample_content sample_files_eq sample_paths sample_keys)

lemma sample_tag_eq: "KeyTag sample_lib (sample_key 257 (rev (sample_seed (CHR ''A'')))) = sample_tag (CHR ''A'')"
  by (simp add: sample_tag_def)

lemma sample_backed_up: "backed_up_live sample_lib sample_cfg sample_domain ''ksk''
  (sample_key 257 (rev (sample_seed (CHR ''A''))), sample_seed (CHR ''A'')) sample_world"
  using sample_verified(2) by (simp add: backed_up_live_def sample_verified sample_tag_eq samePublicKey_def)

text \<open>What the generator returns, and that its tag is free.\<close>

definition sample_new :: dnskey where
  "sample_new = sample_key 257 (rev (sample_seed (CHR ''z'')))"

lemma sample_generates:
  "generateDNSSECKey sample_lib t sample_domain ''ED25519'' 257 = Inr (sample_new, sample_seed (CHR ''z'') @ rev (sample_seed (CHR ''z'')))"
  by (simp add: generateDNSSECKey_def sample_lib_def sample_new_def sample_key_def)

lemma sample_new_tag: "KeyTag sample_lib sample_new = 101"
  by code_simp

lemma sample_new_base: "taggedBase sample_cfg sample_domain ''ksk'' (KeyTag sample_lib sample_new) = ''/d/keys/a.b.ksk.101''"
  unfolding sample_new_tag by code_simp

lemma sample_stageable: "stageable sample_lib sample_cfg sample_domain ''ksk'' sample_new (sample_seed (CHR ''z'') @ rev (sample_seed (CHR ''z''))) sample_world"
proof -
  have "NewRR_DNSKEY sample_lib (DNSKEY_String sample_lib sample_new) = Some sample_new"
    "CHR 0x0A \<notin> set (DNSKEY_String sample_lib sample_new)" "DNSKEY_String sample_lib sample_new \<noteq> []"
    "hd (DNSKEY_String sample_lib sample_new) \<noteq> CHR '';''" by code_simp+
  moreover have "dk_Algorithm sample_new = ED25519" by (simp add: sample_new_def sample_key_def)
  moreover have "validateLoadedKey sample_lib sample_new sample_domain ''ksk'' = Inr ()"
    "VerifyKeyPairCorrespondence sample_lib sample_new (sample_seed (CHR ''z'') @ rev (sample_seed (CHR ''z''))) = Inr ()"
    by code_simp+
  ultimately show ?thesis by (simp add: stageable_def prints_def sample_new_base sample_content sample_files_eq)
qed

lemma sample_prefix: "path_prefix (KeysDir sample_cfg) = ''/d/keys/''"
  by code_simp

lemma sample_tag_free: "\<not> tag_used sample_lib sample_cfg sample_domain 101 sample_world"
proof -
  have "list_all (\<lambda>p. entry_tag sample_cfg sample_domain ''ksk'' p \<noteq> Some 101 \<and> entry_tag sample_cfg sample_domain ''zsk'' p \<noteq> Some 101) (map fst sample_files)"
    unfolding sample_names_eq entry_tag_def sample_prefix
    by (simp add: Let_def has_prefix_def sample_domain_def has_suffix_def parse_uint16_def parse_uint_def digit_value_def)
  then have "entry_tag sample_cfg sample_domain kt p \<noteq> Some 101" if "content sample_world p \<noteq> None" "kt \<in> {''ksk'', ''zsk''}" for p kt
    using that by (auto simp: list_all_iff sample_content map_of_eq_None_iff)
  moreover have "KeyTag sample_lib (sample_key 257 (rev (sample_seed (CHR ''A'')))) \<noteq> 101"
    "KeyTag sample_lib (sample_key 256 (rev (sample_seed (CHR ''k'')))) \<noteq> 101" by code_simp+
  moreover have "content sample_world (liveBase sample_cfg sample_domain ''ksk'' @ ''.key'') = Some (sample_key_text 257 (CHR ''A''))"
    "content sample_world (liveBase sample_cfg sample_domain ''zsk'' @ ''.key'') = Some (sample_key_text 256 (CHR ''k''))"
    by (simp_all add: sample_paths sample_content sample_files_eq)
  ultimately show ?thesis unfolding tag_used_def using sample_keys(1,5) by (auto simp del: append.simps)
qed

lemma sample_gen_works: "gen_works sample_lib sample_cfg sample_domain True ''ED25519'' sample_world"
  unfolding gen_works_def using sample_generates sample_stageable sample_tag_free sample_new_tag
  by (simp add: keyRole_def)

lemma sample_env_works: "io_works sample_env"
  by (simp add: io_works_def sample_env_def)

lemma sample_names: "key_names sample_domain ''ksk''" "key_names sample_domain ''zsk''" "CHR ''/'' \<notin> set sample_domain"
  by (simp_all add: key_names_def sample_domain_def)

lemma sample_zone_at: "GetZone sample_domain (mem sample_world) = Some sample_zone"
  by (simp add: GetZone_def sample_world_def sample_state_def)

lemma sample_zone_keys:
  "z_Rollover sample_zone = None" "z_KSK sample_zone = Some (sample_key_state (CHR ''A''))"
  "k_Algorithm (sample_key_state c) = ''ED25519''" "k_ID (sample_key_state c) = sample_tag c"
  by (simp_all add: sample_zone_def zero_zone_def sample_key_state_def)

lemma sample_running: "\<not> halted sample_world"
  by (simp add: sample_world_def)

lemma sample_rm_cfg [simp]: "rm_cfg sample_rm = sample_cfg"
  by (simp add: sample_rm_def NewRolloverManager_def)


section \<open>Worlds after the first steps\<close>

definition sample_private :: bytes where
  "sample_private = sample_seed (CHR ''z'') @ rev (sample_seed (CHR ''z''))"

definition sample_staged :: world where
  "sample_staged = snd (StageKeyPair sample_env sample_lib sample_cfg sample_domain ''ksk'' sample_new sample_private sample_world)"

lemma sample_stage_run: "StageKeyPair sample_env sample_lib sample_cfg sample_domain ''ksk'' sample_new sample_private sample_world =
    (Inr (taggedBase sample_cfg sample_domain ''ksk'' 101), sample_staged)"
  and sample_staged_running: "\<not> halted sample_staged"
  and sample_staged_live: "backed_up_live sample_lib sample_cfg sample_domain ''ksk''
    (sample_key 257 (rev (sample_seed (CHR ''A''))), sample_seed (CHR ''A'')) sample_staged"
  and sample_staged_new: "\<exists>priv. verified_at sample_lib sample_staged (taggedBase sample_cfg sample_domain ''ksk'' 101) sample_domain ''ksk'' =
    Some (sample_new, priv)"
proof -
  have st: "stageable sample_lib sample_cfg sample_domain ''ksk'' sample_new sample_private sample_world"
    using sample_stageable by (simp add: sample_private_def)
  have free: "content sample_world (taggedBase sample_cfg sample_domain ''ksk'' 101 @ ''.key'') = None"
    "content sample_world (taggedBase sample_cfg sample_domain ''ksk'' 101 @ ''.private'') = None"
    using st by (simp_all add: stageable_def sample_new_tag)
  obtain w c pc priv where run: "StageKeyPair sample_env sample_lib sample_cfg sample_domain ''ksk'' sample_new sample_private sample_world =
      (Inr (taggedBase sample_cfg sample_domain ''ksk'' 101), w)" "\<not> halted w"
    and c: "content w = (content sample_world)(taggedBase sample_cfg sample_domain ''ksk'' 101 @ ''.private'' := Some pc,
      taggedBase sample_cfg sample_domain ''ksk'' 101 @ ''.key'' := Some c)"
    and v: "verified_at sample_lib w (taggedBase sample_cfg sample_domain ''ksk'' 101) sample_domain ''ksk'' = Some (sample_new, priv)"
    using runs_StageKeyPair [OF sample_env_works sample_running st]
    by (rule runsE) (auto simp: sample_new_tag)
  have w: "sample_staged = w" by (simp add: sample_staged_def run)
  show "StageKeyPair sample_env sample_lib sample_cfg sample_domain ''ksk'' sample_new sample_private sample_world =
    (Inr (taggedBase sample_cfg sample_domain ''ksk'' 101), sample_staged)" using run w by simp
  show "\<not> halted sample_staged" using run w by simp
  show "backed_up_live sample_lib sample_cfg sample_domain ''ksk''
    (sample_key 257 (rev (sample_seed (CHR ''A''))), sample_seed (CHR ''A'')) sample_staged"
    unfolding w by (rule backed_up_extend [OF sample_backed_up free(2,1) c])
  show "\<exists>priv. verified_at sample_lib sample_staged (taggedBase sample_cfg sample_domain ''ksk'' 101) sample_domain ''ksk'' =
    Some (sample_new, priv)" unfolding w using v by blast
qed

definition sample_started :: world where
  "sample_started = snd (StartKSKRollover sample_env sample_lib sample_rm sample_domain sample_world)"

lemma sample_start_run: "StartKSKRollover sample_env sample_lib sample_rm sample_domain sample_world = (Inr (), sample_started)"
  and sample_started_ok: "ksk_started sample_lib sample_cfg sample_domain (sample_key_state (CHR ''A'')) sample_started"
proof -
  have "runs (StartKSKRollover sample_env sample_lib sample_rm sample_domain) sample_world
      (\<lambda>_. ksk_started sample_lib (rm_cfg sample_rm) sample_domain (sample_key_state (CHR ''A'')))"
    by (rule runs_StartKSKRollover [OF sample_env_works sample_running sample_names(1) sample_zone_at sample_zone_keys(1,2),
          where kp = "(sample_key 257 (rev (sample_seed (CHR ''A''))), sample_seed (CHR ''A''))"])
      (use sample_backed_up sample_gen_works in \<open>simp_all add: sample_zone_keys sample_tag_eq\<close>)
  then obtain x w where "StartKSKRollover sample_env sample_lib sample_rm sample_domain sample_world = (Inr x, w)"
    "ksk_started sample_lib sample_cfg sample_domain (sample_key_state (CHR ''A'')) w" by (auto elim: runsE)
  then show "StartKSKRollover sample_env sample_lib sample_rm sample_domain sample_world = (Inr (), sample_started)"
    "ksk_started sample_lib sample_cfg sample_domain (sample_key_state (CHR ''A'')) sample_started"
    by (simp_all add: sample_started_def)
qed

text \<open>The generator never returns the live key.\<close>

lemma sample_gen_fresh: "gen_fresh sample_lib sample_cfg sample_domain ''ksk'' sample_world"
proof -
  have "dk_PublicKey (sample_key 257 (rev (sample_seed (CHR ''A'')))) \<noteq> b64_encode (rev (sample_seed (CHR ''z'')))"
    by code_simp
  moreover have "dk_PublicKey k = b64_encode (rev (sample_seed (CHR ''z'')))"
    if "generateDNSSECKey sample_lib t sample_domain alg flags = Inr (k, p)" for t alg flags k p
    using that by (auto simp: generateDNSSECKey_def generate_ecdsa_def generateRSAKey_def sample_lib_def Let_def split: if_splits)
  ultimately show ?thesis by (auto simp: gen_fresh_def sample_verified samePublicKey_def)
qed

lemma sample_inv: "zat sample_domain rollover_inv sample_world"
proof -
  have "\<not> blank ''ED25519''" "\<not> blank ''/z''" by code_simp+
  then have "zone_ok sample_zone" by (simp add: zone_ok_def sample_zone_def zero_zone_def sample_key_state_def)
  then show ?thesis by (simp add: zat_def sample_zone_at rollover_inv_def sample_zone_keys)
qed


text \<open>The zone in the two phases of a ZSK rollover.\<close>

definition sample_zsk_rollover :: "string \<Rightarrow> rollover_state" where
  "sample_zsk_rollover s = zero_rollover\<lparr>r_Type := ''zsk'', r_State := s, r_OldKeyID := 5, r_NewKeyID := sample_tag (CHR ''k''),
     r_Started := 1, r_PhaseStarted := 2, r_PhaseFirstSigned := 11, r_PhaseHorizon := 20\<rparr>"

definition sample_zsk_zone :: "string \<Rightarrow> zone_state" where
  "sample_zsk_zone s = sample_zone\<lparr>z_Rollover := Some (sample_zsk_rollover s), z_PublishedGenerationSignedAt := 10\<rparr>"

definition sample_zsk_world :: "string \<Rightarrow> world" where
  "sample_zsk_world s = sample_world\<lparr>mem := sample_state\<lparr>s_Zones := [(sample_domain, sample_zsk_zone s)]\<rparr>\<rparr>"

lemma sample_zsk_at: "GetZone sample_domain (mem (sample_zsk_world s)) = Some (sample_zsk_zone s)"
  "z_Rollover (sample_zsk_zone s) = Some (sample_zsk_rollover s)" "r_State (sample_zsk_rollover s) = s"
  "\<not> halted (sample_zsk_world s)" "content (sample_zsk_world s) = content sample_world"
  by (simp_all add: GetZone_def sample_zsk_world_def sample_zsk_zone_def sample_zsk_rollover_def sample_world_def fun_eq_iff content_def)

lemma sample_zsk_switch: "runs (handleZSKRolloverState sample_env sample_lib sample_rm sample_domain) (sample_zsk_world ZSKRolloverStatePrePublish)
  (\<lambda>_ w'. \<exists>z' r'. GetZone sample_domain (mem w') = Some z' \<and> z_Rollover z' = Some r' \<and> r_State r' = ZSKRolloverStateSigning \<and>
    r_PhaseStarted r' = now_at sample_env (tick (sample_zsk_world ZSKRolloverStatePrePublish)) \<and>
    map_option k_ID (z_ZSK z') = Some (r_NewKeyID (sample_zsk_rollover ZSKRolloverStatePrePublish)) \<and> z_ForceResign z')"
proof (rule runs_zsk_switch [OF sample_env_works sample_zsk_at(4,1,2,3)])
  show "verified_at sample_lib (sample_zsk_world ZSKRolloverStatePrePublish) (liveBase (rm_cfg sample_rm) sample_domain ''zsk'') sample_domain ''zsk'' =
      Some (sample_key 256 (rev (sample_seed (CHR ''k''))), sample_seed (CHR ''k''))"
    using sample_verified(3) verified_reads [OF sample_zsk_at(5)] by simp
  show "KeyTag sample_lib (fst (sample_key 256 (rev (sample_seed (CHR ''k''))), sample_seed (CHR ''k''))) =
      r_NewKeyID (sample_zsk_rollover ZSKRolloverStatePrePublish)"
    by (simp add: sample_zsk_rollover_def sample_tag_def sample_lib_def sample_key_def)
qed (simp_all add: sample_zsk_rollover_def zero_rollover_def sample_env_def sample_zsk_world_def sample_world_def sample_cfg_def
    time_sub_def min_duration_def max_duration_def Second_def Minute_def Hour_def PublishedSince_def sample_zsk_zone_def)

lemma sample_zsk_finish: "runs (handleZSKRolloverState sample_env sample_lib sample_rm sample_domain) (sample_zsk_world ZSKRolloverStateSigning)
  (\<lambda>_ w'. \<exists>z'. GetZone sample_domain (mem w') = Some z' \<and> z_Rollover z' = None)"
  by (rule runs_zsk_finish [OF sample_env_works sample_zsk_at(4,1,2,3)])
    (simp_all add: sample_zsk_rollover_def zero_rollover_def sample_env_def sample_zsk_world_def sample_world_def sample_cfg_def
      time_sub_def min_duration_def max_duration_def Second_def Minute_def Hour_def PublishedSince_def sample_zsk_zone_def phase_start_def)

end
