(* ===== verification/Dns_Names.thy ===== *)
theory Dns_Names
  imports Key_Format "HOL-Library.List_Lexorder" "HOL-Library.Char_ord"
begin

text \<open>
  Owner names (\<open>canonicalName\<close> and its helpers in
  \<open>signer/internal/signer/zonemodel.go\<close>, \<open>canonicalLabelBytes\<close> and
  \<open>canonicalLess\<close> in \<open>sign.go\<close>).

  A name in presentation format is a string whose labels are separated by unescaped dots. The
  functions of the DNS library that split and qualify names are fields of \<open>dnslib\<close>;
  what the signer relies on is \<open>names_law\<close>.
\<close>

section \<open>The DNS library\<close>

record dnslib =
  klib :: keylib
  SplitDomainName :: "string \<Rightarrow> string list"
  CountLabel :: "string \<Rightarrow> nat"
  HashName :: "string \<Rightarrow> 8 word \<Rightarrow> 16 word \<Rightarrow> string \<Rightarrow> string"

section \<open>Labels\<close>

abbreviation backslash :: char where "backslash \<equiv> CHR 0x5C"

definition is_digit :: "char \<Rightarrow> bool" where
  "is_digit c \<longleftrightarrow> CHR ''0'' \<le> c \<and> c \<le> CHR ''9''"

definition digit_of :: "char \<Rightarrow> nat" where
  "digit_of c = (of_char c :: nat) - 48"

text \<open>The octet of a decimal escape; the conversion to \<open>byte\<close> keeps the low eight bits.\<close>

definition decimal_octet :: "char \<Rightarrow> char \<Rightarrow> char \<Rightarrow> char" where
  "decimal_octet a b c = char_of (digit_of a * 100 + digit_of b * 10 + digit_of c)"

fun canonicalLabelBytes :: "string \<Rightarrow> bytes" where
  "canonicalLabelBytes [] = []"
| "canonicalLabelBytes (b # d1 # d2 # d3 # s) =
     (if b = backslash then
        (if is_digit d1 \<and> is_digit d2 \<and> is_digit d3
         then ascii_lower (decimal_octet d1 d2 d3) # canonicalLabelBytes s
         else ascii_lower d1 # canonicalLabelBytes (d2 # d3 # s))
      else ascii_lower b # canonicalLabelBytes (d1 # d2 # d3 # s))"
| "canonicalLabelBytes (b # d1 # s) =
     (if b = backslash then ascii_lower d1 # canonicalLabelBytes s
      else ascii_lower b # canonicalLabelBytes (d1 # s))"
| "canonicalLabelBytes [b] = [ascii_lower b]"

definition escape_octet :: "char \<Rightarrow> string" where
  "escape_octet c =
     (if c = CHR ''.'' then [backslash, CHR ''.'']
      else if c = backslash then [backslash, backslash]
      else if c = CHR ''*'' then [backslash, CHR ''*'']
      else if c < CHR ''!'' \<or> CHR ''~'' < c then backslash # pad_zero 3 (show_nat (of_char c))
      else [c])"

definition canonicalLabel :: "string \<Rightarrow> string" where
  "canonicalLabel label =
     (let raw = canonicalLabelBytes label in
      if raw = ''*'' then ''*'' else concat (map escape_octet raw))"

section \<open>Names\<close>

definition joinLabels :: "string list \<Rightarrow> string" where
  "joinLabels labels = (if labels = [] then ''.'' else join_with (CHR ''.'') labels @ ''.'')"

definition canonicalName :: "dnslib \<Rightarrow> string \<Rightarrow> string" where
  "canonicalName lib name0 =
     (let name = Fqdn (klib lib) name0 in
      if name = ''.'' then ''.''
      else concat (map (\<lambda>label. canonicalLabel label @ ''.'') (SplitDomainName lib name)))"

definition canonicalLabels :: "dnslib \<Rightarrow> string \<Rightarrow> string list" where
  "canonicalLabels lib name =
     (let canon = canonicalName lib name in if canon = ''.'' then [] else SplitDomainName lib canon)"

definition labelsWithin :: "string list \<Rightarrow> string list \<Rightarrow> bool" where
  "labelsWithin name apex \<longleftrightarrow> length apex \<le> length name \<and>
     (let off = length name - length apex in list_all (\<lambda>i. name ! (off + i) = apex ! i) [0..<length apex])"

text \<open>\<open>canonicalLess\<close> walks both label lists from the right.\<close>

fun labels_less :: "string list \<Rightarrow> string list \<Rightarrow> bool" where
  "labels_less [] [] = False"
| "labels_less [] (_ # _) = True"
| "labels_less (_ # _) [] = False"
| "labels_less (x # xs) (y # ys) =
     (if canonicalLabelBytes x < canonicalLabelBytes y then True
      else if canonicalLabelBytes y < canonicalLabelBytes x then False
      else labels_less xs ys)"

definition canonicalLess :: "dnslib \<Rightarrow> string \<Rightarrow> string \<Rightarrow> bool" where
  "canonicalLess lib a b = labels_less (rev (SplitDomainName lib a)) (rev (SplitDomainName lib b))"

text \<open>
  \<open>sort.Slice\<close>: the sources sort lists without two equal elements, so the result does
  not depend on the algorithm.
\<close>

fun insert_slice :: "('a \<Rightarrow> 'a \<Rightarrow> bool) \<Rightarrow> 'a \<Rightarrow> 'a list \<Rightarrow> 'a list" where
  "insert_slice lt x [] = [x]"
| "insert_slice lt x (y # ys) = (if lt y x then y # insert_slice lt x ys else x # y # ys)"

definition sort_slice :: "('a \<Rightarrow> 'a \<Rightarrow> bool) \<Rightarrow> 'a list \<Rightarrow> 'a list" where
  "sort_slice lt xs = foldr (insert_slice lt) xs []"

section \<open>Decoding an encoded label\<close>

lemma ascii_lower_idem [simp]: "ascii_lower (ascii_lower c) = ascii_lower c"
proof -
  have "of_char c < (256 :: nat)" by simp
  then show ?thesis by (auto simp: ascii_lower_def Let_def)
qed

lemma canonicalLabelBytes_lower: "map ascii_lower (canonicalLabelBytes s) = canonicalLabelBytes s"
  by (induction s rule: canonicalLabelBytes.induct) auto

text \<open>A backslash followed by something that is not a digit stands for that octet.\<close>

lemma canonicalLabelBytes_escape:
  "\<not> is_digit d \<Longrightarrow> canonicalLabelBytes (backslash # d # s) = ascii_lower d # canonicalLabelBytes s"
  by (cases s; cases "tl s") auto

lemma canonicalLabelBytes_plain:
  "b \<noteq> backslash \<Longrightarrow> canonicalLabelBytes (b # s) = ascii_lower b # canonicalLabelBytes s"
proof (cases s)
  case (Cons d s')
  then show "b \<noteq> backslash \<Longrightarrow> ?thesis" by (cases s'; cases "tl s'") auto
qed simp

lemma show_nat_small: "n < 10 \<Longrightarrow> show_nat n = [digit n]"
  by (subst show_nat.simps) simp

lemma show_nat_large: "10 \<le> n \<Longrightarrow> show_nat n = show_nat (n div 10) @ [digit n]"
  by (subst show_nat.simps) (simp add: digit_def)

lemma digit_0 [simp]: "digit 0 = CHR ''0''"
  using char_of_char [where 'a = nat, of "CHR ''0''"] by (simp add: digit_def)

lemma show_nat_three:
  assumes n: "n < 256"
  shows "pad_zero 3 (show_nat n) = [digit (n div 100), digit (n div 10), digit n]"
proof -
  consider "n < 10" | "10 \<le> n" "n < 100" | "100 \<le> n" by linarith
  then show ?thesis
  proof cases
    case 1
    then have "n div 10 = 0" "n div 100 = 0" and len: "show_nat n = [digit n]"
      by (simp_all add: show_nat_small)
    moreover have "replicate (3 - length [digit n]) (CHR ''0'') = [CHR ''0'', CHR ''0'']"
      by (simp add: numeral_2_eq_2 flip: numeral_2_eq_2) (simp add: numeral_2_eq_2)
    ultimately show ?thesis by (simp only: pad_zero_def) simp
  next
    case 2
    then have "show_nat n = [digit (n div 10), digit n]"
      by (simp add: show_nat_large show_nat_small)
    with 2 show ?thesis by (simp add: pad_zero_def)
  next
    case 3
    have "n div 10 div 10 < 10" "n div 10 div 10 = n div 100" "10 \<le> n div 10"
      using n 3 by (auto simp flip: div_mult2_eq)
    then have "show_nat n = [digit (n div 100), digit (n div 10), digit n]"
      using 3 by (simp add: show_nat_large show_nat_small)
    then show ?thesis by (simp add: pad_zero_def)
  qed
qed

lemma digit_facts [simp]: "is_digit (digit n)" "digit_of (digit n) = n mod 10"
  by (simp_all add: is_digit_def digit_of_def digit_def less_eq_char_def)

lemma decimal_octet_digits:
  assumes "n < 256"
  shows "decimal_octet (digit (n div 100)) (digit (n div 10)) (digit n) = char_of n"
proof -
  have "n div 100 mod 10 = n div 100" using assms by simp
  moreover have "n div 100 * 100 + n div 10 mod 10 * 10 + n mod 10 = n"
  proof -
    have "n = 10 * (n div 10) + n mod 10" "n div 10 = 10 * (n div 10 div 10) + n div 10 mod 10"
      by simp_all
    moreover have "n div 10 div 10 = n div 100" by (simp flip: div_mult2_eq)
    ultimately show ?thesis by linarith
  qed
  ultimately show ?thesis by (simp add: decimal_octet_def)
qed

lemma decode_escape_octet:
  "canonicalLabelBytes (escape_octet c @ s) = ascii_lower c # canonicalLabelBytes s"
proof -
  have nd: "\<not> is_digit (CHR ''.'')" "\<not> is_digit backslash" "\<not> is_digit (CHR ''*'')"
    by (simp_all add: is_digit_def less_eq_char_def)
  let ?n = "of_char c :: nat"
  have "canonicalLabelBytes ((backslash # pad_zero 3 (show_nat ?n)) @ s) = ascii_lower c # canonicalLabelBytes s"
    using show_nat_three [of ?n] decimal_octet_digits [of ?n] by simp
  then show ?thesis
    by (auto simp: escape_octet_def canonicalLabelBytes_escape [OF nd(1)] canonicalLabelBytes_escape [OF nd(2)]
        canonicalLabelBytes_escape [OF nd(3)] canonicalLabelBytes_plain)
qed

lemma decode_encode: "canonicalLabelBytes (concat (map escape_octet raw)) = map ascii_lower raw"
  by (induction raw) (simp_all add: decode_escape_octet)

lemma canonicalLabelBytes_canonicalLabel [simp]:
  "canonicalLabelBytes (canonicalLabel l) = canonicalLabelBytes l"
proof (cases "canonicalLabelBytes l = ''*''")
  case True
  then show ?thesis by (simp add: canonicalLabel_def ascii_lower_def)
next
  case False
  then show ?thesis
    by (simp add: canonicalLabel_def Let_def decode_encode canonicalLabelBytes_lower)
qed

lemma canonicalLabel_idem [simp]: "canonicalLabel (canonicalLabel l) = canonicalLabel l"
  by (simp add: canonicalLabel_def [of "canonicalLabel l"]) (simp add: canonicalLabel_def)

lemma canonicalLabel_eq_iff:
  "canonicalLabel a = canonicalLabel b \<longleftrightarrow> canonicalLabelBytes a = canonicalLabelBytes b"
  by (metis canonicalLabelBytes_canonicalLabel canonicalLabel_def)

lemma map_canonicalLabel_eq_iff:
  "map canonicalLabel xs = map canonicalLabel ys \<longleftrightarrow> map canonicalLabelBytes xs = map canonicalLabelBytes ys"
proof (induction xs arbitrary: ys)
  case (Cons x xs)
  then show ?case by (cases ys) (simp_all add: canonicalLabel_eq_iff)
qed simp

section \<open>What the signer relies on\<close>

text \<open>
  A label is clean when every dot in it is escaped and no escape is cut off; it is then what
  the DNS library takes for one label.
\<close>

fun clean_label :: "string \<Rightarrow> bool" where
  "clean_label [] = True"
| "clean_label (c # s) =
     (if c = backslash then (case s of [] \<Rightarrow> False | d # s' \<Rightarrow> clean_label s')
      else c \<noteq> CHR ''.'' \<and> clean_label s)"

definition label_ok :: "string \<Rightarrow> bool" where
  "label_ok l \<longleftrightarrow> l \<noteq> [] \<and> clean_label l"

text \<open>
  Documented behaviour of \<open>dns.SplitDomainName\<close> (labels are separated by unescaped
  dots, the root has none), of \<open>dns.Fqdn\<close> (a name that ends in a dot is returned
  unchanged) and of \<open>dns.CountLabel\<close>.
\<close>

definition names_law :: "dnslib \<Rightarrow> bool" where
  "names_law lib \<longleftrightarrow>
     (\<forall>ls. list_all label_ok ls \<longrightarrow> SplitDomainName lib (joinLabels ls) = ls \<and>
        Fqdn (klib lib) (joinLabels ls) = joinLabels ls \<and> CountLabel lib (joinLabels ls) = length ls)"

text \<open>A syntactically valid name, as the zone parser and the configuration deliver it.\<close>

definition name_ok :: "dnslib \<Rightarrow> string \<Rightarrow> bool" where
  "name_ok lib n \<longleftrightarrow> (\<exists>ls. list_all label_ok ls \<and> Fqdn (klib lib) n = joinLabels ls)"

text \<open>The wire form of a name: its labels as octets, letters in lower case.\<close>

definition wire :: "dnslib \<Rightarrow> string \<Rightarrow> bytes list" where
  "wire lib n = map canonicalLabelBytes (SplitDomainName lib (Fqdn (klib lib) n))"

lemma clean_escape: "clean_label (escape_octet c @ s) = clean_label s"
proof -
  have d: "digit n \<noteq> backslash \<and> digit n \<noteq> CHR ''.''" for n
    using digit_facts(1) [of n] by (auto simp: is_digit_def less_eq_char_def simp del: digit_facts)
  let ?n = "of_char c :: nat"
  have "clean_label ((backslash # pad_zero 3 (show_nat ?n)) @ s) = clean_label s"
    using show_nat_three [of ?n] d by simp
  then show ?thesis by (auto simp: escape_octet_def)
qed

lemma clean_encode: "clean_label (concat (map escape_octet raw))"
  by (induction raw) (simp_all add: clean_escape)

lemma escape_octet_nonempty [simp]: "escape_octet c \<noteq> []"
  by (simp add: escape_octet_def)

lemma canonicalLabelBytes_Nil [simp]: "canonicalLabelBytes l = [] \<longleftrightarrow> l = []"
  by (induction l rule: canonicalLabelBytes.induct) auto

lemma label_ok_canonicalLabel: "l \<noteq> [] \<Longrightarrow> label_ok (canonicalLabel l)"
  by (cases "canonicalLabelBytes l") (auto simp: label_ok_def canonicalLabel_def Let_def clean_encode clean_escape)

lemma concat_dots: "ls \<noteq> [] \<Longrightarrow> concat (map (\<lambda>l. l @ ''.'') ls) = joinLabels ls"
  by (induction ls rule: induct_list012) (simp_all add: joinLabels_def)

lemma joinLabels_root: "list_all label_ok ls \<Longrightarrow> joinLabels ls = ''.'' \<longleftrightarrow> ls = []"
  by (induction ls rule: induct_list012) (auto simp: joinLabels_def label_ok_def append_eq_Cons_conv)

lemma split_joinLabels:
  "names_law lib \<Longrightarrow> list_all label_ok ls \<Longrightarrow> SplitDomainName lib (joinLabels ls) = ls"
  "names_law lib \<Longrightarrow> list_all label_ok ls \<Longrightarrow> Fqdn (klib lib) (joinLabels ls) = joinLabels ls"
  "names_law lib \<Longrightarrow> list_all label_ok ls \<Longrightarrow> CountLabel lib (joinLabels ls) = length ls"
  by (simp_all add: names_law_def)

lemma name_ok_labels:
  assumes "names_law lib" and "name_ok lib n"
  shows "list_all label_ok (SplitDomainName lib (Fqdn (klib lib) n))"
    and "Fqdn (klib lib) n = joinLabels (SplitDomainName lib (Fqdn (klib lib) n))"
  using assms by (auto simp: name_ok_def split_joinLabels)

text \<open>The canonical name is the canonical labels, joined.\<close>

lemma canonicalName_join:
  assumes "names_law lib" and "name_ok lib n"
  shows "canonicalName lib n = joinLabels (map canonicalLabel (SplitDomainName lib (Fqdn (klib lib) n)))"
proof -
  let ?ls = "SplitDomainName lib (Fqdn (klib lib) n)"
  show ?thesis
  proof (cases "?ls = []")
    case True
    then show ?thesis using name_ok_labels(2) [OF assms]
      by (simp add: canonicalName_def Let_def joinLabels_def)
  next
    case False
    then have "Fqdn (klib lib) n \<noteq> ''.''" using name_ok_labels [OF assms] joinLabels_root [of ?ls] by simp
    then have "canonicalName lib n = concat (map (\<lambda>l. canonicalLabel l @ ''.'') ?ls)"
      by (simp add: canonicalName_def Let_def)
    also have "\<dots> = concat (map (\<lambda>l. l @ ''.'') (map canonicalLabel ?ls))" by (simp add: comp_def)
    finally show ?thesis using concat_dots [of "map canonicalLabel ?ls"] False by simp
  qed
qed

lemma canonical_labels_ok:
  assumes "names_law lib" and "name_ok lib n"
  shows "list_all label_ok (map canonicalLabel (SplitDomainName lib (Fqdn (klib lib) n)))"
  using name_ok_labels(1) [OF assms] label_ok_canonicalLabel
  by (auto simp: list_all_iff label_ok_def)

lemma split_canonicalName:
  assumes "names_law lib" and "name_ok lib n"
  shows "SplitDomainName lib (canonicalName lib n) = map canonicalLabel (SplitDomainName lib (Fqdn (klib lib) n))"
  using canonicalName_join [OF assms] split_joinLabels(1) [OF assms(1) canonical_labels_ok [OF assms]] by simp

lemma name_ok_canonicalName:
  assumes "names_law lib" and "name_ok lib n"
  shows "name_ok lib (canonicalName lib n)" and "Fqdn (klib lib) (canonicalName lib n) = canonicalName lib n"
  using canonicalName_join [OF assms] canonical_labels_ok [OF assms]
    split_joinLabels(2) [OF assms(1) canonical_labels_ok [OF assms]]
  by (auto simp: name_ok_def)

lemma canonicalName_idem:
  assumes "names_law lib" and "name_ok lib n"
  shows "canonicalName lib (canonicalName lib n) = canonicalName lib n"
  using canonicalName_join [OF assms(1) name_ok_canonicalName(1) [OF assms]]
    canonicalName_join [OF assms] split_canonicalName [OF assms] name_ok_canonicalName(2) [OF assms]
  by (simp add: comp_def)

lemma wire_canonicalName:
  assumes "names_law lib" and "name_ok lib n"
  shows "wire lib (canonicalName lib n) = wire lib n"
  using split_canonicalName [OF assms] name_ok_canonicalName(2) [OF assms]
  by (simp add: wire_def comp_def)

text \<open>Two spellings have one canonical name exactly when they denote one wire name.\<close>

lemma canonicalName_eq_iff:
  assumes "names_law lib" and "name_ok lib a" and "name_ok lib b"
  shows "canonicalName lib a = canonicalName lib b \<longleftrightarrow> wire lib a = wire lib b"
proof
  assume "canonicalName lib a = canonicalName lib b"
  then show "wire lib a = wire lib b" using wire_canonicalName assms by metis
next
  assume "wire lib a = wire lib b"
  then have "map canonicalLabel (SplitDomainName lib (Fqdn (klib lib) a)) =
      map canonicalLabel (SplitDomainName lib (Fqdn (klib lib) b))"
    unfolding wire_def by (simp only: map_canonicalLabel_eq_iff)
  then show "canonicalName lib a = canonicalName lib b"
    using canonicalName_join assms by metis
qed

section \<open>The canonical order\<close>

lemma labels_less_iff:
  "labels_less xs ys \<longleftrightarrow> map canonicalLabelBytes xs < map canonicalLabelBytes ys"
  by (induction xs ys rule: labels_less.induct) auto

text \<open>RFC 4034, section 6.1: lexicographic on the reversed wire labels.\<close>

definition name_key :: "dnslib \<Rightarrow> string \<Rightarrow> bytes list" where
  "name_key lib n = rev (map canonicalLabelBytes (SplitDomainName lib n))"

lemma canonicalLess_iff: "canonicalLess lib a b \<longleftrightarrow> name_key lib a < name_key lib b"
  by (simp add: canonicalLess_def labels_less_iff name_key_def rev_map)

lemma name_key_canonicalName:
  assumes "names_law lib" and "name_ok lib n"
  shows "name_key lib (canonicalName lib n) = rev (wire lib n)"
  using wire_canonicalName [OF assms] name_ok_canonicalName(2) [OF assms]
  by (simp add: name_key_def wire_def)

lemma labelsWithin_iff: "labelsWithin name apex \<longleftrightarrow> (\<exists>p. name = p @ apex)"
proof
  assume w: "labelsWithin name apex"
  then have "drop (length name - length apex) name = apex"
    by (intro nth_equalityI) (auto simp: labelsWithin_def list_all_iff Let_def)
  then show "\<exists>p. name = p @ apex" by (metis append_take_drop_id)
qed (auto simp: labelsWithin_def list_all_iff nth_append)

section \<open>Sorting\<close>

lemma insert_slice_key:
  assumes "\<And>y. y \<in> set ys \<Longrightarrow> lt y x \<longleftrightarrow> f y < (f x :: 'b :: linorder)"
  shows "insert_slice lt x ys = insort_key f x ys"
  using assms by (induction ys) auto

lemma sort_slice_key:
  assumes "\<And>x y. x \<in> set xs \<Longrightarrow> y \<in> set xs \<Longrightarrow> lt x y \<longleftrightarrow> f x < (f y :: 'b :: linorder)"
  shows "sort_slice lt xs = sort_key f xs"
  using assms
proof (induction xs)
  case (Cons x xs)
  then have "sort_slice lt xs = sort_key f xs" by simp
  moreover have "insert_slice lt x (sort_key f xs) = insort_key f x (sort_key f xs)"
    by (rule insert_slice_key) (simp add: Cons.prems)
  ultimately show ?case by (simp add: sort_slice_def)
qed (simp add: sort_slice_def)

lemma sort_canonicalLess: "sort_slice (canonicalLess lib) ns = sort_key (name_key lib) ns"
  by (rule sort_slice_key) (simp add: canonicalLess_iff)

end
