(* ===== verification/Zone_Model.thy ===== *)
theory Zone_Model
  imports Dns_Names
begin

text \<open>
  Resource records and the canonical index of one zone snapshot
  (\<open>signer/internal/signer/zonemodel.go\<close>), with the structural checks a zone must pass
  before it is signed (\<open>stripInputDNSSEC\<close> and \<open>validateZoneRecords\<close> in
  \<open>sign.go\<close>).
\<close>

section \<open>Resource records\<close>

abbreviation "TypeA \<equiv> 1 :: 16 word"
abbreviation "TypeNS \<equiv> 2 :: 16 word"
abbreviation "TypeCNAME \<equiv> 5 :: 16 word"
abbreviation "TypeSOA \<equiv> 6 :: 16 word"
abbreviation "TypeAAAA \<equiv> 28 :: 16 word"
abbreviation "TypeDNAME \<equiv> 39 :: 16 word"
abbreviation "TypeDS \<equiv> 43 :: 16 word"
abbreviation "TypeRRSIG \<equiv> 46 :: 16 word"
abbreviation "TypeNSEC \<equiv> 47 :: 16 word"
abbreviation "TypeDNSKEY \<equiv> 48 :: 16 word"
abbreviation "TypeNSEC3 \<equiv> 50 :: 16 word"
abbreviation "TypeNSEC3PARAM \<equiv> 51 :: 16 word"
abbreviation "ClassINET \<equiv> 1 :: 16 word"

record rr_header =
  h_Name :: string
  h_Rrtype :: "16 word"
  h_Class :: "16 word"
  h_Ttl :: "32 word"

record rrsig =
  sig_Hdr :: rr_header
  sig_TypeCovered :: "16 word"
  sig_Algorithm :: "8 word"
  sig_Labels :: "8 word"
  sig_OrigTtl :: "32 word"
  sig_Expiration :: "32 word"
  sig_Inception :: "32 word"
  sig_KeyTag :: "16 word"
  sig_SignerName :: string
  sig_Signature :: string

record nsec =
  nsec_Hdr :: rr_header
  nsec_NextDomain :: string
  nsec_TypeBitMap :: "16 word list"

record nsec3 =
  n3_Hdr :: rr_header
  n3_Hash :: "8 word"
  n3_Flags :: "8 word"
  n3_Iterations :: "16 word"
  n3_SaltLength :: "8 word"
  n3_Salt :: string
  n3_HashLength :: "8 word"
  n3_NextDomain :: string
  n3_TypeBitMap :: "16 word list"

record nsec3param =
  np_Hdr :: rr_header
  np_Hash :: "8 word"
  np_Flags :: "8 word"
  np_Iterations :: "16 word"
  np_SaltLength :: "8 word"
  np_Salt :: string

text \<open>
  The record types the signer looks into; the data of every other type is opaque. An SOA
  carries its serial and its minimum TTL.
\<close>

datatype rr =
    SOA rr_header "32 word" "32 word" string
  | DNSKEY rr_header dnskey
  | RRSIG rrsig
  | NSEC nsec
  | NSEC3 nsec3
  | NSEC3PARAM nsec3param
  | OtherRR rr_header string

fun Header :: "rr \<Rightarrow> rr_header" where
  "Header (SOA h _ _ _) = h"
| "Header (DNSKEY h _) = h"
| "Header (RRSIG s) = sig_Hdr s"
| "Header (NSEC n) = nsec_Hdr n"
| "Header (NSEC3 n) = n3_Hdr n"
| "Header (NSEC3PARAM n) = np_Hdr n"
| "Header (OtherRR h _) = h"

abbreviation "Rrtype r \<equiv> h_Rrtype (Header r)"
abbreviation "owner r \<equiv> h_Name (Header r)"

section \<open>The index\<close>

record owner_info =
  oi_name :: string
  oi_labels :: "string list"
  oi_types :: "(16 word, nat) gomap"

text \<open>Maps to \<open>bool\<close> that only ever store \<open>true\<close> are sets.\<close>

record zone_model =
  zm_apex :: string
  zm_apexLabels :: "string list"
  zm_owners :: "(string, owner_info) gomap"
  zm_delegations :: "string set"
  zm_dnames :: "string set"

definition count_type :: "16 word \<Rightarrow> (16 word, nat) gomap \<Rightarrow> nat" where
  "count_type t m = (case map_of m t of None \<Rightarrow> 0 | Some n \<Rightarrow> n)"

definition add :: "dnslib \<Rightarrow> rr \<Rightarrow> zone_model \<Rightarrow> zone_model" where
  "add lib rr m =
     (let h = Header rr; name = canonicalName lib (h_Name h);
          oi = (case map_of (zm_owners m) name of
                  Some oi \<Rightarrow> oi
                | None \<Rightarrow> \<lparr>oi_name = name, oi_labels = SplitDomainName lib name, oi_types = []\<rparr>);
          oi' = oi\<lparr>oi_types := AList.update (h_Rrtype h) (Suc (count_type (h_Rrtype h) (oi_types oi))) (oi_types oi)\<rparr>
      in m\<lparr>zm_owners := AList.update name oi' (zm_owners m),
           zm_delegations := (if h_Rrtype h = TypeNS \<and> name \<noteq> zm_apex m
                              then insert name (zm_delegations m) else zm_delegations m),
           zm_dnames := (if h_Rrtype h = TypeDNAME then insert name (zm_dnames m) else zm_dnames m)\<rparr>)"

definition newZoneModel :: "dnslib \<Rightarrow> string \<Rightarrow> rr list \<Rightarrow> zone_model" where
  "newZoneModel lib domain records =
     (let apex = canonicalName lib domain in
      fold (add lib) records
        \<lparr>zm_apex = apex, zm_apexLabels = SplitDomainName lib apex, zm_owners = [],
         zm_delegations = {}, zm_dnames = {}\<rparr>)"

definition within_zone :: "dnslib \<Rightarrow> zone_model \<Rightarrow> string \<Rightarrow> bool" where
  "within_zone lib m name = labelsWithin (SplitDomainName lib name) (zm_apexLabels m)"

definition isDelegation :: "zone_model \<Rightarrow> string \<Rightarrow> bool" where
  "isDelegation m name \<longleftrightarrow> name \<in> zm_delegations m"

text \<open>The proper ancestors of a name strictly below the apex, nearest first.\<close>

definition ancestors :: "zone_model \<Rightarrow> string list \<Rightarrow> string list" where
  "ancestors m labels = map (\<lambda>i. joinLabels (drop i labels)) [1..<length labels - length (zm_apexLabels m)]"

definition isOccluded :: "dnslib \<Rightarrow> zone_model \<Rightarrow> string \<Rightarrow> bool" where
  "isOccluded lib m name =
     (if zm_delegations m = {} \<and> zm_dnames m = {} then False
      else list_ex (\<lambda>anc. anc \<in> zm_delegations m \<or> anc \<in> zm_dnames m)
             (ancestors m (SplitDomainName lib name)))"

text \<open>
  The memo the code keeps beside the index: the answer and the extended memo. The other
  operations use \<open>isOccluded\<close>, whose answer is the same (\<open>isOccluded_memo_sound\<close>).
\<close>

definition isOccluded_memo ::
  "dnslib \<Rightarrow> zone_model \<Rightarrow> (string, bool) gomap \<Rightarrow> string \<Rightarrow> bool \<times> (string, bool) gomap" where
  "isOccluded_memo lib m memo name =
     (if zm_delegations m = {} \<and> zm_dnames m = {} then (False, memo)
      else case map_of memo name of
        Some v \<Rightarrow> (v, memo)
      | None \<Rightarrow>
          let result = list_ex (\<lambda>anc. anc \<in> zm_delegations m \<or> anc \<in> zm_dnames m)
                         (ancestors m (SplitDomainName lib name))
          in (result, AList.update name result memo))"

definition occludingDNAME :: "dnslib \<Rightarrow> zone_model \<Rightarrow> string \<Rightarrow> string option" where
  "occludingDNAME lib m name =
     (if zm_dnames m = {} then None
      else List.find (\<lambda>anc. anc \<in> zm_dnames m) (ancestors m (SplitDomainName lib name)))"

definition signable :: "dnslib \<Rightarrow> zone_model \<Rightarrow> string \<Rightarrow> 16 word \<Rightarrow> bool" where
  "signable lib m name rrtype =
     (if isOccluded lib m name then False
      else if isDelegation m name \<and> rrtype \<noteq> TypeDS \<and> rrtype \<noteq> TypeNSEC then False
      else True)"

definition authoritativeOwners :: "dnslib \<Rightarrow> zone_model \<Rightarrow> string list" where
  "authoritativeOwners lib m =
     sort_slice (canonicalLess lib) (filter (\<lambda>n. \<not> isOccluded lib m n) (map fst (zm_owners m)))"

definition emptyNonTerminals :: "dnslib \<Rightarrow> zone_model \<Rightarrow> string list" where
  "emptyNonTerminals lib m =
     sort_slice (canonicalLess lib)
       (remdups (filter (\<lambda>anc. map_of (zm_owners m) anc = None)
          (concat (map (\<lambda>n. ancestors m (SplitDomainName lib n)) (authoritativeOwners lib m)))))"

definition denialTypes :: "zone_model \<Rightarrow> string \<Rightarrow> bool \<Rightarrow> 16 word list" where
  "denialTypes m name is_nsec3 =
     (let oi = map_of (zm_owners m) name;
          data = (case oi of None \<Rightarrow> {} | Some oi \<Rightarrow>
            if isDelegation m name then
              {TypeNS} \<union> (if 0 < count_type TypeDS (oi_types oi)
                 then {TypeDS} \<union> (if is_nsec3 then {TypeRRSIG} else {}) else {})
            else set (map fst (oi_types oi)) \<union> (if is_nsec3 then {TypeRRSIG} else {}));
          meta = (if is_nsec3 then (if name = zm_apex m \<and> oi \<noteq> None then {TypeNSEC3PARAM} else {})
                  else {TypeNSEC, TypeRRSIG})
      in sorted_list_of_set (data \<union> meta))"

type_synonym rrset_key = "string \<times> 16 word"

definition append_rrset :: "rrset_key \<Rightarrow> rr \<Rightarrow> (rrset_key, rr list) gomap \<Rightarrow> (rrset_key, rr list) gomap" where
  "append_rrset k rr m = AList.update k ((case map_of m k of None \<Rightarrow> [] | Some rs \<Rightarrow> rs) @ [rr]) m"

fun groupRRsets_from ::
  "dnslib \<Rightarrow> rr list \<Rightarrow> (rrset_key, rr list) gomap \<times> rrsig list \<Rightarrow> (rrset_key, rr list) gomap \<times> rrsig list" where
  "groupRRsets_from lib [] acc = acc"
| "groupRRsets_from lib (rr # rs) (sets, sigs) =
     (case rr of RRSIG s \<Rightarrow> groupRRsets_from lib rs (sets, sigs @ [s])
      | _ \<Rightarrow> groupRRsets_from lib rs (append_rrset (canonicalName lib (owner rr), Rrtype rr) rr sets, sigs))"

definition groupRRsets :: "dnslib \<Rightarrow> rr list \<Rightarrow> (rrset_key, rr list) gomap \<times> rrsig list" where
  "groupRRsets lib records = groupRRsets_from lib records ([], [])"

fun map_header :: "(rr_header \<Rightarrow> rr_header) \<Rightarrow> rr \<Rightarrow> rr" where
  "map_header f (SOA h a b c) = SOA (f h) a b c"
| "map_header f (DNSKEY h k) = DNSKEY (f h) k"
| "map_header f (RRSIG s) = RRSIG (s\<lparr>sig_Hdr := f (sig_Hdr s)\<rparr>)"
| "map_header f (NSEC n) = NSEC (n\<lparr>nsec_Hdr := f (nsec_Hdr n)\<rparr>)"
| "map_header f (NSEC3 n) = NSEC3 (n\<lparr>n3_Hdr := f (n3_Hdr n)\<rparr>)"
| "map_header f (NSEC3PARAM n) = NSEC3PARAM (n\<lparr>np_Hdr := f (np_Hdr n)\<rparr>)"
| "map_header f (OtherRR h d) = OtherRR (f h) d"

definition canonicalRRset :: "dnslib \<Rightarrow> rr list \<Rightarrow> rr list" where
  "canonicalRRset lib rrset = map (map_header (\<lambda>h. h\<lparr>h_Name := canonicalName lib (h_Name h)\<rparr>)) rrset"

section \<open>Checks on the source zone\<close>

definition stripInputDNSSEC :: "dnslib \<Rightarrow> string \<Rightarrow> rr list \<Rightarrow> rr list" where
  "stripInputDNSSEC lib domain records =
     (let apex = canonicalName lib domain in
      filter (\<lambda>rr. \<not> (Rrtype rr \<in> {TypeRRSIG, TypeNSEC, TypeNSEC3, TypeNSEC3PARAM} \<or>
                       Rrtype rr = TypeDNSKEY \<and> canonicalName lib (owner rr) = apex)) records)"

definition isDNSSECMetadataType :: "16 word \<Rightarrow> bool" where
  "isDNSSECMetadataType t \<longleftrightarrow> t \<in> {TypeRRSIG, TypeNSEC, TypeNSEC3}"

definition check_placement :: "dnslib \<Rightarrow> zone_model \<Rightarrow> rr \<Rightarrow> error + unit" where
  "check_placement lib m rr =
     (let name = canonicalName lib (owner rr) in
      if \<not> within_zone lib m name then Inl (Msg ''record owner is not within the zone'')
      else if Rrtype rr = TypeSOA \<and> name \<noteq> zm_apex m then Inl (Msg ''SOA record not at zone apex'')
      else Inr ())"

definition check_cname :: "zone_model \<Rightarrow> string \<Rightarrow> owner_info \<Rightarrow> error + unit" where
  "check_cname m name oi =
     (let n = count_type TypeCNAME (oi_types oi) in
      if n = 0 then Inr ()
      else if name = zm_apex m then Inl (Msg ''CNAME at the zone apex'')
      else if 1 < n then Inl (Msg ''more than one CNAME'')
      else if list_ex (\<lambda>t. t \<noteq> TypeCNAME \<and> \<not> isDNSSECMetadataType t) (map fst (oi_types oi)) then
        Inl (Msg ''CNAME with other data'')
      else Inr ())"

definition check_dname :: "owner_info \<Rightarrow> error + unit" where
  "check_dname oi =
     (let n = count_type TypeDNAME (oi_types oi) in
      if n = 0 then Inr ()
      else if 1 < n then Inl (Msg ''more than one DNAME'')
      else if 0 < count_type TypeCNAME (oi_types oi) then Inl (Msg ''DNAME with CNAME'')
      else Inr ())"

definition check_cut :: "zone_model \<Rightarrow> string \<Rightarrow> owner_info \<Rightarrow> error + unit" where
  "check_cut m name oi =
     (if isDelegation m name then
        if list_ex (\<lambda>t. t \<notin> {TypeNS, TypeDS, TypeA, TypeAAAA, TypeRRSIG, TypeNSEC, TypeNSEC3})
             (map fst (oi_types oi))
        then Inl (Msg ''delegation point holds other records'') else Inr ()
      else if 0 < count_type TypeDS (oi_types oi) then Inl (Msg ''DS but not a delegation point'')
      else Inr ())"

definition check_owner :: "dnslib \<Rightarrow> zone_model \<Rightarrow> string \<Rightarrow> error + unit" where
  "check_owner lib m name =
     (case map_of (zm_owners m) name of None \<Rightarrow> Inr () | Some oi \<Rightarrow>
      case check_cname m name oi of Inl e \<Rightarrow> Inl e | Inr _ \<Rightarrow>
      case check_dname oi of Inl e \<Rightarrow> Inl e | Inr _ \<Rightarrow>
      case occludingDNAME lib m name of
        Some dn \<Rightarrow> Inl (Msg ''records lie beneath a DNAME'')
      | None \<Rightarrow> check_cut m name oi)"

definition validateZoneRecords :: "dnslib \<Rightarrow> string \<Rightarrow> rr list \<Rightarrow> error + unit" where
  "validateZoneRecords lib domain records =
     (let m = newZoneModel lib domain records;
          soaCount = length (filter (\<lambda>rr. Rrtype rr = TypeSOA) records) in
      case check_each (check_placement lib m) records of Inl e \<Rightarrow> Inl e | Inr _ \<Rightarrow>
      if soaCount = 0 then Inl (Msg ''zone has no SOA record'')
      else if 1 < soaCount then Inl (Msg ''zone has more than one SOA record'')
      else if (case map_of (zm_owners m) (zm_apex m) of
                 None \<Rightarrow> True | Some oi \<Rightarrow> count_type TypeNS (oi_types oi) = 0)
        then Inl (Msg ''zone has no NS records at apex'')
      else check_each (check_owner lib m) (sort_slice (canonicalLess lib) (map fst (zm_owners m))))"

section \<open>What the index holds\<close>

abbreviation canon :: "dnslib \<Rightarrow> rr \<Rightarrow> string" where
  "canon lib r \<equiv> canonicalName lib (owner r)"

lemma newZoneModel_apex [simp]:
  "zm_apex (newZoneModel lib domain rs) = canonicalName lib domain"
  "zm_apexLabels (newZoneModel lib domain rs) = SplitDomainName lib (canonicalName lib domain)"
proof -
  have "zm_apex (fold (add lib) rs m) = zm_apex m \<and> zm_apexLabels (fold (add lib) rs m) = zm_apexLabels m" for m
    by (induction rs arbitrary: m) (simp_all add: add_def Let_def)
  then show "zm_apex (newZoneModel lib domain rs) = canonicalName lib domain"
    "zm_apexLabels (newZoneModel lib domain rs) = SplitDomainName lib (canonicalName lib domain)"
    by (simp_all add: newZoneModel_def Let_def)
qed

lemma newZoneModel_snoc: "newZoneModel lib domain (rs @ [r]) = add lib r (newZoneModel lib domain rs)"
  by (simp add: newZoneModel_def Let_def)

lemma newZoneModel_Nil [simp]:
  "zm_owners (newZoneModel lib domain []) = []" "zm_delegations (newZoneModel lib domain []) = {}"
  "zm_dnames (newZoneModel lib domain []) = {}"
  by (simp_all add: newZoneModel_def Let_def)

lemma newZoneModel_cuts:
  "zm_delegations (newZoneModel lib domain rs) =
     {canon lib r | r. r \<in> set rs \<and> Rrtype r = TypeNS \<and> canon lib r \<noteq> canonicalName lib domain}"
  "zm_dnames (newZoneModel lib domain rs) = {canon lib r | r. r \<in> set rs \<and> Rrtype r = TypeDNAME}"
  by (induction rs rule: rev_induct) (auto simp: newZoneModel_snoc add_def Let_def)

lemma count_type_update [simp]:
  "count_type t (AList.update u n m) = (if t = u then n else count_type t m)"
  by (simp add: count_type_def update_conv')

text \<open>Each owner's type counts are the numbers of its records.\<close>

definition owner_types :: "dnslib \<Rightarrow> rr list \<Rightarrow> string \<Rightarrow> 16 word set" where
  "owner_types lib rs n = {Rrtype r | r. r \<in> set rs \<and> canon lib r = n}"

definition owner_info_ok :: "dnslib \<Rightarrow> rr list \<Rightarrow> string \<Rightarrow> owner_info \<Rightarrow> bool" where
  "owner_info_ok lib rs n oi \<longleftrightarrow> oi_name oi = n \<and> oi_labels oi = SplitDomainName lib n \<and>
     gomap_ok (oi_types oi) \<and> set (map fst (oi_types oi)) = owner_types lib rs n \<and>
     (\<forall>t. count_type t (oi_types oi) = length (filter (\<lambda>r. canon lib r = n \<and> Rrtype r = t) rs))"

lemma newZoneModel_owners:
  "gomap_ok (zm_owners (newZoneModel lib domain rs)) \<and>
   set (map fst (zm_owners (newZoneModel lib domain rs))) = canon lib ` set rs \<and>
   (\<forall>n oi. map_of (zm_owners (newZoneModel lib domain rs)) n = Some oi \<longrightarrow> owner_info_ok lib rs n oi)"
proof (induction rs rule: rev_induct)
  case (snoc r rs)
  let ?m = "newZoneModel lib domain rs" and ?n = "canon lib r"
  define oi where "oi = (case map_of (zm_owners ?m) ?n of Some oi \<Rightarrow> oi
    | None \<Rightarrow> \<lparr>oi_name = ?n, oi_labels = SplitDomainName lib ?n, oi_types = []\<rparr>)"
  define oi' where "oi' = oi\<lparr>oi_types := AList.update (Rrtype r) (Suc (count_type (Rrtype r) (oi_types oi))) (oi_types oi)\<rparr>"
  have own: "zm_owners (newZoneModel lib domain (rs @ [r])) = AList.update ?n oi' (zm_owners ?m)"
    by (simp add: newZoneModel_snoc add_def Let_def oi_def oi'_def)
  have ok: "owner_info_ok lib rs ?n oi"
  proof (cases "map_of (zm_owners ?m) ?n")
    case None
    then have "?n \<notin> canon lib ` set rs" using snoc by (simp add: map_of_eq_None_iff)
    then have "owner_types lib rs ?n = {}" "filter (\<lambda>q. canon lib q = ?n \<and> Rrtype q = t) rs = []" for t
      by (auto simp: owner_types_def filter_empty_conv image_iff)
    then show ?thesis using None by (simp add: oi_def owner_info_ok_def count_type_def)
  next
    case (Some x)
    then show ?thesis using snoc by (simp add: oi_def)
  qed
  have new: "owner_info_ok lib (rs @ [r]) ?n oi'"
    using ok unfolding owner_info_ok_def oi'_def
    by (auto simp: owner_types_def dom_update [unfolded image_set] set_map [symmetric] simp del: set_map)
  have old: "owner_info_ok lib (rs @ [r]) n x" if "map_of (zm_owners ?m) n = Some x" "n \<noteq> ?n" for n x
    using snoc that by (auto simp: owner_info_ok_def owner_types_def)
  show ?case unfolding own using snoc new old
    by (auto simp: update_conv' dom_update)
qed simp

lemmas owners_ok = newZoneModel_owners [THEN conjunct1]
lemmas owners_dom = newZoneModel_owners [THEN conjunct2, THEN conjunct1]

lemma owner_lookup:
  "map_of (zm_owners (newZoneModel lib domain rs)) n = Some oi \<Longrightarrow> owner_info_ok lib rs n oi"
  using newZoneModel_owners by blast

lemma owner_lookup_None:
  "map_of (zm_owners (newZoneModel lib domain rs)) n = None \<longleftrightarrow> n \<notin> canon lib ` set rs"
  using owners_dom [of lib domain rs] by (simp add: map_of_eq_None_iff)

section \<open>Zone cuts\<close>

text \<open>
  \<open>n\<close> lies strictly below \<open>c\<close>: its wire labels extend those of \<open>c\<close>.
\<close>

definition strictly_below :: "dnslib \<Rightarrow> string \<Rightarrow> string \<Rightarrow> bool" where
  "strictly_below lib n c \<longleftrightarrow> (\<exists>p. p \<noteq> [] \<and> wire lib n = p @ wire lib c)"

definition zone_ok_names :: "dnslib \<Rightarrow> string \<Rightarrow> rr list \<Rightarrow> bool" where
  "zone_ok_names lib domain rs \<longleftrightarrow> names_law lib \<and> name_ok lib domain \<and> (\<forall>r \<in> set rs. name_ok lib (owner r))"

text \<open>A name as \<open>canonicalName\<close> writes it.\<close>

definition canonical :: "dnslib \<Rightarrow> string \<Rightarrow> bool" where
  "canonical lib n \<longleftrightarrow> (\<exists>m. name_ok lib m \<and> n = canonicalName lib m)"

lemma canonical_split:
  assumes "names_law lib" and "canonical lib n"
  shows "list_all label_ok (SplitDomainName lib n)" and "joinLabels (SplitDomainName lib n) = n"
    and "map canonicalLabel (SplitDomainName lib n) = SplitDomainName lib n"
    and "Fqdn (klib lib) n = n" and "canonicalName lib n = n" and "name_ok lib n"
    and "wire lib n = map canonicalLabelBytes (SplitDomainName lib n)"
  using assms canonical_labels_ok [OF assms(1)] canonicalName_join [OF assms(1)] split_canonicalName [OF assms(1)]
    name_ok_canonicalName [OF assms(1)] canonicalName_idem [OF assms(1)]
  by (auto simp: canonical_def comp_def wire_def)

lemma canonicalI [intro]: "name_ok lib n \<Longrightarrow> canonical lib (canonicalName lib n)"
  by (auto simp: canonical_def)

text \<open>On canonical labels decoding loses nothing.\<close>

lemma canonical_labels_inj:
  assumes "map canonicalLabel xs = xs" and "map canonicalLabel ys = ys"
    and "map canonicalLabelBytes xs = map canonicalLabelBytes ys"
  shows "xs = ys"
  using assms map_canonicalLabel_eq_iff [of xs ys] by simp

lemma canonical_split_inj:
  assumes "names_law lib" and "canonical lib a" and "canonical lib b"
  shows "SplitDomainName lib a = SplitDomainName lib b \<longleftrightarrow> a = b"
    and "wire lib a = wire lib b \<longleftrightarrow> a = b"
  using canonical_split [OF assms(1,2)] canonical_split [OF assms(1,3)]
    canonical_labels_inj [of "SplitDomainName lib a" "SplitDomainName lib b"] by metis+

lemma canonical_wire_suffix:
  assumes law: "names_law lib" and n: "canonical lib n" and c: "canonical lib c"
    and w: "wire lib n = p @ wire lib c"
  shows "SplitDomainName lib n = take (length p) (SplitDomainName lib n) @ SplitDomainName lib c"
proof -
  let ?ls = "SplitDomainName lib n" and ?cl = "SplitDomainName lib c"
  have "map canonicalLabelBytes (drop (length p) ?ls) = map canonicalLabelBytes ?cl"
    using w by (simp add: canonical_split(7) [OF law n] canonical_split(7) [OF law c] flip: drop_map)
  moreover have "map canonicalLabel (drop (length p) ?ls) = drop (length p) ?ls"
    using canonical_split(3) [OF law n] by (simp flip: drop_map)
  ultimately have "drop (length p) ?ls = ?cl"
    using canonical_labels_inj canonical_split(3) [OF law c] by blast
  then show ?thesis by (metis append_take_drop_id)
qed

lemma strictly_below_split:
  assumes "names_law lib" and "canonical lib n" and "canonical lib c"
  shows "strictly_below lib n c \<longleftrightarrow> (\<exists>p. p \<noteq> [] \<and> SplitDomainName lib n = p @ SplitDomainName lib c)"
proof
  assume "strictly_below lib n c"
  then obtain p where p: "p \<noteq> []" "wire lib n = p @ wire lib c" by (auto simp: strictly_below_def)
  have "take (length p) (SplitDomainName lib n) \<noteq> []"
    using p canonical_split(7) [OF assms(1,2)] by auto
  with canonical_wire_suffix [OF assms p(2)] show "\<exists>p. p \<noteq> [] \<and> SplitDomainName lib n = p @ SplitDomainName lib c"
    by metis
next
  assume "\<exists>p. p \<noteq> [] \<and> SplitDomainName lib n = p @ SplitDomainName lib c"
  then obtain p where p: "p \<noteq> []" "SplitDomainName lib n = p @ SplitDomainName lib c" by blast
  then have "wire lib n = map canonicalLabelBytes p @ wire lib c"
    using canonical_split(7) [OF assms(1,2)] canonical_split(7) [OF assms(1,3)] by simp
  with p(1) show "strictly_below lib n c" unfolding strictly_below_def by auto
qed

text \<open>The ancestors the walk visits are the names strictly between a name and the apex.\<close>

lemma ancestors_iff:
  assumes law: "names_law lib" and n: "canonical lib n" and c: "canonical lib c"
    and a: "canonical lib (zm_apex m)" "zm_apexLabels m = SplitDomainName lib (zm_apex m)"
    and inz: "within_zone lib m n"
  shows "c \<in> set (ancestors m (SplitDomainName lib n)) \<longleftrightarrow>
    strictly_below lib n c \<and> strictly_below lib c (zm_apex m)"
proof -
  let ?ls = "SplitDomainName lib n" and ?cl = "SplitDomainName lib c" and ?al = "SplitDomainName lib (zm_apex m)"
  obtain q where q: "?ls = q @ ?al" using inz by (auto simp: within_zone_def labelsWithin_iff a(2))
  have drop_ok: "list_all label_ok (drop i ?ls)" for i
    using canonical_split(1) [OF law n] by (metis append_take_drop_id list_all_append)
  have join: "joinLabels (drop i ?ls) = c \<longleftrightarrow> drop i ?ls = ?cl" for i
    using split_joinLabels(1) [OF law drop_ok] canonical_split(2) [OF law c] by metis
  have "length ?ls - length (zm_apexLabels m) = length q" using q by (simp add: a(2))
  then have "c \<in> set (ancestors m ?ls) \<longleftrightarrow> (\<exists>i. 1 \<le> i \<and> i < length q \<and> joinLabels (drop i ?ls) = c)"
    by (auto simp: ancestors_def image_iff Bex_def eq_commute)
  then have "c \<in> set (ancestors m ?ls) \<longleftrightarrow> (\<exists>i. 1 \<le> i \<and> i < length q \<and> drop i ?ls = ?cl)"
    unfolding join .
  also have "\<dots> \<longleftrightarrow> (\<exists>p. p \<noteq> [] \<and> ?ls = p @ ?cl) \<and> (\<exists>p. p \<noteq> [] \<and> ?cl = p @ ?al)" (is "?L \<longleftrightarrow> ?R")
  proof
    assume ?L
    then obtain i where i: "1 \<le> i" "i < length q" "drop i ?ls = ?cl" by blast
    have "?ls = take i ?ls @ ?cl" "take i ?ls \<noteq> []" using i q by (auto simp flip: i(3))
    moreover have "?cl = drop i q @ ?al" "drop i q \<noteq> []" using i q by auto
    ultimately show ?R by blast
  next
    assume ?R
    then obtain p r where pr: "p \<noteq> []" "?ls = p @ ?cl" "r \<noteq> []" "?cl = r @ ?al" by blast
    then have "length q = length p + length r" using q by simp
    with pr show ?L by (intro exI [of _ "length p"]) (auto simp: Suc_le_eq)
  qed
  finally show ?thesis by (simp add: strictly_below_split [OF law n c] strictly_below_split [OF law c a(1)])
qed

lemma isOccluded_Bex:
  "isOccluded lib m n \<longleftrightarrow>
     (\<exists>a \<in> set (ancestors m (SplitDomainName lib n)). a \<in> zm_delegations m \<or> a \<in> zm_dnames m)"
  by (auto simp: isOccluded_def list_ex_iff)

text \<open>RFC 4035, section 2.2 and RFC 6672, section 2.4: the owners that cut the zone.\<close>

definition zone_cut :: "dnslib \<Rightarrow> string \<Rightarrow> rr list \<Rightarrow> string \<Rightarrow> bool" where
  "zone_cut lib domain rs c \<longleftrightarrow> strictly_below lib c (canonicalName lib domain) \<and>
     (\<exists>r \<in> set rs. canon lib r = c \<and> Rrtype r \<in> {TypeNS, TypeDNAME})"

lemma strictly_below_irrefl [simp]: "\<not> strictly_below lib a a"
  by (auto simp: strictly_below_def)

lemma isOccluded_iff:
  assumes ok: "zone_ok_names lib domain rs" and n: "canonical lib n"
    and inz: "within_zone lib (newZoneModel lib domain rs) n"
  shows "isOccluded lib (newZoneModel lib domain rs) n \<longleftrightarrow>
    (\<exists>c. zone_cut lib domain rs c \<and> strictly_below lib n c)"
proof -
  let ?m = "newZoneModel lib domain rs" and ?apex = "canonicalName lib domain"
  have law: "names_law lib" and apex: "canonical lib ?apex" using ok by (auto simp: zone_ok_names_def)
  have cut: "canonical lib c" if "c \<in> zm_delegations ?m \<or> c \<in> zm_dnames ?m" for c
    using ok that by (auto simp: newZoneModel_cuts zone_ok_names_def)
  have "isOccluded lib ?m n \<longleftrightarrow> (\<exists>c. (c \<in> zm_delegations ?m \<or> c \<in> zm_dnames ?m) \<and>
      c \<in> set (ancestors ?m (SplitDomainName lib n)))"
    by (auto simp: isOccluded_Bex)
  also have "\<dots> \<longleftrightarrow> (\<exists>c. (c \<in> zm_delegations ?m \<or> c \<in> zm_dnames ?m) \<and>
      strictly_below lib n c \<and> strictly_below lib c ?apex)"
    using ancestors_iff [OF law n, of _ ?m] cut apex inz by auto
  also have "\<dots> \<longleftrightarrow> (\<exists>c. zone_cut lib domain rs c \<and> strictly_below lib n c)"
    by (auto simp: zone_cut_def newZoneModel_cuts) (metis strictly_below_irrefl)+
  finally show ?thesis .
qed

lemma isDelegation_iff:
  "isDelegation (newZoneModel lib domain rs) n \<longleftrightarrow>
     n \<noteq> canonicalName lib domain \<and> (\<exists>r \<in> set rs. canon lib r = n \<and> Rrtype r = TypeNS)"
  by (auto simp: isDelegation_def newZoneModel_cuts)

text \<open>The memoised answer is the answer, and the memo stays sound.\<close>

definition memo_sound :: "dnslib \<Rightarrow> zone_model \<Rightarrow> (string, bool) gomap \<Rightarrow> bool" where
  "memo_sound lib m memo \<longleftrightarrow> (\<forall>n v. map_of memo n = Some v \<longrightarrow> v = isOccluded lib m n)"

lemma isOccluded_memo_sound:
  assumes "memo_sound lib m memo" and "isOccluded_memo lib m memo n = (v, memo')"
  shows "v = isOccluded lib m n" and "memo_sound lib m memo'"
proof -
  have eq: "list_ex (\<lambda>anc. anc \<in> zm_delegations m \<or> anc \<in> zm_dnames m) (ancestors m (SplitDomainName lib n)) =
      isOccluded lib m n" if "\<not> (zm_delegations m = {} \<and> zm_dnames m = {})"
    using that unfolding isOccluded_def by (simp only: if_False)
  have no: "\<not> isOccluded lib m n" if "zm_delegations m = {} \<and> zm_dnames m = {}"
    using that by (simp add: isOccluded_def)
  show "v = isOccluded lib m n" "memo_sound lib m memo'"
    using assms eq no unfolding isOccluded_memo_def memo_sound_def Let_def
    by (auto simp: update_conv' split: if_split_asm option.split_asm)
qed

end
