(* ===== verification/Nsec_Chain.thy ===== *)
theory Nsec_Chain
  imports Zone_Model
begin

text \<open>
  The NSEC chain of a zone: its generation (\<open>generateNSECChainWithModel\<close>) and the
  check every chain passes before publication (\<open>verifyNSECExpectations\<close>), both in
  \<open>signer/internal/signer/sign.go\<close>. The two compute the owners, the order and the type
  bitmaps in different ways; a generated chain always passes the check, and it denies every
  name that is not an authoritative owner exactly once.
\<close>

section \<open>Generation\<close>

text \<open>The types present at every owner that is not occluded.\<close>

definition note_type ::
  "dnslib \<Rightarrow> zone_model \<Rightarrow> rr \<Rightarrow> (string, 16 word list) gomap \<Rightarrow> (string, 16 word list) gomap" where
  "note_type lib m rr typesByName =
     (let name = canonicalName lib (owner rr) in
      if isOccluded lib m name then typesByName
      else AList.update name
             (List.insert (Rrtype rr) (case map_of typesByName name of None \<Rightarrow> [] | Some ts \<Rightarrow> ts)) typesByName)"

definition collect_types :: "dnslib \<Rightarrow> zone_model \<Rightarrow> rr list \<Rightarrow> (string, 16 word list) gomap" where
  "collect_types lib m records = fold (note_type lib m) records []"

definition nsec_types :: "zone_model \<Rightarrow> (string, 16 word list) gomap \<Rightarrow> string \<Rightarrow> 16 word list" where
  "nsec_types m typesByName name =
     (let present = (case map_of typesByName name of None \<Rightarrow> [] | Some ts \<Rightarrow> ts);
          types = (if isDelegation m name then TypeNS # (if TypeDS \<in> set present then [TypeDS] else [])
                   else present)
      in sort (types @ [TypeNSEC, TypeRRSIG]))"

definition nsec_record ::
  "zone_model \<Rightarrow> (string, 16 word list) gomap \<Rightarrow> 32 word \<Rightarrow> string list \<Rightarrow> nat \<Rightarrow> nsec" where
  "nsec_record m typesByName soaMinTTL sortedNames i =
     \<lparr>nsec_Hdr = \<lparr>h_Name = sortedNames ! i, h_Rrtype = TypeNSEC, h_Class = ClassINET, h_Ttl = soaMinTTL\<rparr>,
      nsec_NextDomain = sortedNames ! ((i + 1) mod length sortedNames),
      nsec_TypeBitMap = nsec_types m typesByName (sortedNames ! i)\<rparr>"

definition generateNSECChainWithModel ::
  "dnslib \<Rightarrow> zone_model \<Rightarrow> rr list \<Rightarrow> 32 word \<Rightarrow> nsec list" where
  "generateNSECChainWithModel lib m records soaMinTTL =
     (let typesByName = collect_types lib m records;
          sortedNames = sort_slice (canonicalLess lib) (map fst typesByName)
      in map (nsec_record m typesByName soaMinTTL sortedNames) [0..<length sortedNames])"

section \<open>Verification\<close>

definition compareTypeBitmap :: "string \<Rightarrow> 16 word list \<Rightarrow> 16 word list \<Rightarrow> error + unit" where
  "compareTypeBitmap name got want =
     (let g = sort got in
      if length g \<noteq> length want then Inl (Msg ''denial record lists other types'')
      else if list_ex (\<lambda>i. g ! i \<noteq> want ! i) [0..<length g] then Inl (Msg ''denial record lists other types'')
      else Inr ())"

fun index_nsecs :: "dnslib \<Rightarrow> nsec list \<Rightarrow> (string, nsec) gomap \<Rightarrow> error + (string, nsec) gomap" where
  "index_nsecs lib [] byOwner = Inr byOwner"
| "index_nsecs lib (n # ns) byOwner =
     (let name = canonicalName lib (h_Name (nsec_Hdr n)) in
      if map_of byOwner name \<noteq> None then Inl (Msg ''NSEC chain has a duplicate owner'')
      else index_nsecs lib ns (AList.update name n byOwner))"

definition check_nsec ::
  "dnslib \<Rightarrow> zone_model \<Rightarrow> string list \<Rightarrow> (string, nsec) gomap \<Rightarrow> nat \<Rightarrow> error + unit" where
  "check_nsec lib m expected byOwner i =
     (let name = expected ! i in
      case map_of byOwner name of None \<Rightarrow> Inl (Msg ''nil record'') | Some n \<Rightarrow>
      if canonicalName lib (nsec_NextDomain n) \<noteq> expected ! ((i + 1) mod length expected)
      then Inl (Msg ''NSEC points elsewhere'')
      else compareTypeBitmap name (nsec_TypeBitMap n) (denialTypes m name False))"

definition verifyNSECExpectations :: "dnslib \<Rightarrow> zone_model \<Rightarrow> nsec list \<Rightarrow> error + unit" where
  "verifyNSECExpectations lib m nsecs =
     (let expected = authoritativeOwners lib m in
      if nsecs = [] then Inl (Msg ''NSEC chain is missing'') else
      case index_nsecs lib nsecs [] of Inl e \<Rightarrow> Inl e | Inr byOwner \<Rightarrow>
      case check_each (\<lambda>name. if map_of byOwner name = None
             then Inl (Msg ''NSEC chain is missing a record'') else Inr ()) expected of
        Inl e \<Rightarrow> Inl e | Inr _ \<Rightarrow>
      case check_each (\<lambda>name. if map_of (zm_owners m) name = None \<or> isOccluded lib m name
             then Inl (Msg ''NSEC chain has a record that is not an authoritative owner'') else Inr ())
             (map fst byOwner) of
        Inl e \<Rightarrow> Inl e | Inr _ \<Rightarrow>
      check_each (check_nsec lib m expected byOwner) [0..<length expected])"

section \<open>A generated chain passes the check\<close>

lemma collect_types_snoc:
  "collect_types lib m (rs @ [r]) = note_type lib m r (collect_types lib m rs)"
  by (simp add: collect_types_def)

lemma collect_types_spec:
  "gomap_ok (collect_types lib m rs) \<and>
   set (map fst (collect_types lib m rs)) = {n \<in> canon lib ` set rs. \<not> isOccluded lib m n} \<and>
   (\<forall>n ts. map_of (collect_types lib m rs) n = Some ts \<longrightarrow> distinct ts \<and> set ts = owner_types lib rs n)"
proof (induction rs rule: rev_induct)
  case Nil
  then show ?case by (simp add: collect_types_def)
next
  case (snoc r rs)
  let ?n = "canon lib r" and ?c = "collect_types lib m rs"
  show ?case
  proof (cases "isOccluded lib m ?n")
    case True
    then have eq: "collect_types lib m (rs @ [r]) = ?c" by (simp add: collect_types_snoc note_type_def)
    have "owner_types lib (rs @ [r]) n = owner_types lib rs n" if "map_of ?c n = Some ts" for n ts
    proof -
      have "n \<in> set (map fst ?c)" using that by (metis domI dom_map_of_conv_image_fst set_map)
      then have "n \<noteq> ?n" using snoc True by auto
      then show ?thesis by (auto simp: owner_types_def)
    qed
    then show ?thesis unfolding eq using snoc True by auto
  next
    case False
    define ts where "ts = List.insert (Rrtype r) (case map_of ?c ?n of None \<Rightarrow> [] | Some ts \<Rightarrow> ts)"
    have eq: "collect_types lib m (rs @ [r]) = AList.update ?n ts ?c"
      using False by (simp add: collect_types_snoc note_type_def ts_def Let_def)
    have new: "distinct ts \<and> set ts = owner_types lib (rs @ [r]) ?n"
    proof (cases "map_of ?c ?n")
      case None
      then have "?n \<notin> set (map fst ?c)" by (simp add: map_of_eq_None_iff)
      then have "?n \<notin> canon lib ` set rs" using snoc False by auto
      then have "owner_types lib rs ?n = {}" by (auto simp: owner_types_def image_iff)
      then show ?thesis using None by (auto simp: ts_def owner_types_def)
    next
      case (Some us)
      then show ?thesis using snoc by (auto simp: ts_def owner_types_def)
    qed
    have old: "owner_types lib (rs @ [r]) n = owner_types lib rs n" if "n \<noteq> ?n" for n
      using that by (auto simp: owner_types_def)
    show ?thesis unfolding eq using snoc new old False by (auto simp: update_conv' dom_update)
  qed
qed

lemma sort_key_same_set:
  assumes "distinct xs" and "distinct ys" and "set xs = set ys" and "inj_on f (set xs)"
  shows "sort_key f xs = sort_key f ys"
  using assms by (intro map_sorted_distinct_set_unique [of f]) (simp_all add: distinct_map)

lemma name_key_inj:
  assumes "names_law lib" and "\<And>n. n \<in> A \<Longrightarrow> canonical lib n"
  shows "inj_on (name_key lib) A"
proof (rule inj_onI)
  fix a b
  assume ab: "a \<in> A" "b \<in> A" "name_key lib a = name_key lib b"
  then have "canonical lib a" "canonical lib b" using assms(2) by simp_all
  with ab(3) canonical_split(7) [OF assms(1)] canonical_split_inj(2) [OF assms(1)]
  show "a = b" by (simp add: name_key_def)
qed

text \<open>The two computations find the same owners in the same order.\<close>

lemma chain_owners:
  assumes ok: "zone_ok_names lib domain rs"
  shows "sort_slice (canonicalLess lib) (map fst (collect_types lib (newZoneModel lib domain rs) rs)) =
    authoritativeOwners lib (newZoneModel lib domain rs)"
proof -
  let ?m = "newZoneModel lib domain rs"
  let ?xs = "map fst (collect_types lib ?m rs)" and ?ys = "filter (\<lambda>n. \<not> isOccluded lib ?m n) (map fst (zm_owners ?m))"
  have x: "distinct ?xs" "set ?xs = {n \<in> canon lib ` set rs. \<not> isOccluded lib ?m n}"
    using collect_types_spec [of lib ?m rs] by (simp_all add: gomap_ok_def)
  have y: "distinct ?ys" "set ?ys = {n \<in> canon lib ` set rs. \<not> isOccluded lib ?m n}"
    using owners_ok [of lib domain rs] owners_dom [of lib domain rs] by (auto simp: gomap_ok_def)
  have "inj_on (name_key lib) (set ?xs)"
    by (rule name_key_inj) (use ok x in \<open>auto simp: zone_ok_names_def\<close>)
  then show ?thesis unfolding authoritativeOwners_def sort_canonicalLess
    using x y by (intro sort_key_same_set) simp_all
qed

lemma authoritativeOwners_spec:
  assumes ok: "zone_ok_names lib domain rs"
  defines "m \<equiv> newZoneModel lib domain rs"
  shows "distinct (authoritativeOwners lib m)"
    and "set (authoritativeOwners lib m) = {n \<in> canon lib ` set rs. \<not> isOccluded lib m n}"
    and "sorted (map (name_key lib) (authoritativeOwners lib m))"
    and "\<And>n. n \<in> set (authoritativeOwners lib m) \<Longrightarrow> canonical lib n"
  using ok owners_ok [of lib domain rs] owners_dom [of lib domain rs]
  by (auto simp: authoritativeOwners_def sort_canonicalLess gomap_ok_def m_def zone_ok_names_def)

lemma index_nsecs_distinct:
  assumes "distinct (map (\<lambda>n. canonicalName lib (h_Name (nsec_Hdr n))) ns)"
    and "set (map (\<lambda>n. canonicalName lib (h_Name (nsec_Hdr n))) ns) \<inter> fst ` set acc = {}"
  shows "index_nsecs lib ns acc = Inr (acc @ map (\<lambda>n. (canonicalName lib (h_Name (nsec_Hdr n)), n)) ns)"
  using assms
proof (induction ns arbitrary: acc)
  case (Cons n ns)
  let ?k = "canonicalName lib (h_Name (nsec_Hdr n))"
  have "map_of acc ?k = None" using Cons.prems(2) by (auto simp: map_of_eq_None_iff)
  moreover have "AList.update ?k n acc = acc @ [(?k, n)]"
    using Cons.prems(2) by (induction acc) auto
  moreover have "index_nsecs lib ns (acc @ [(?k, n)]) =
      Inr ((acc @ [(?k, n)]) @ map (\<lambda>n. (canonicalName lib (h_Name (nsec_Hdr n)), n)) ns)"
    using Cons.prems by (intro Cons.IH) auto
  ultimately show ?case by (simp add: Let_def)
qed simp

lemma compareTypeBitmap_iff: "compareTypeBitmap name got want = Inr () \<longleftrightarrow> sort got = want"
proof -
  have "compareTypeBitmap name got want = Inr () \<longleftrightarrow>
      length (sort got) = length want \<and> (\<forall>i < length (sort got). sort got ! i = want ! i)"
    unfolding compareTypeBitmap_def Let_def list_ex_iff by (simp only: set_upt) auto
  then show ?thesis by (simp only: list_eq_iff_nth_eq)
qed

text \<open>The generated bitmap is the expected one.\<close>

lemma nsec_types_expected:
  assumes own: "n \<in> canon lib ` set rs" and nocc: "\<not> isOccluded lib (newZoneModel lib domain rs) n"
    and clean: "\<forall>r \<in> set rs. Rrtype r \<noteq> TypeNSEC \<and> Rrtype r \<noteq> TypeRRSIG"
  shows "nsec_types (newZoneModel lib domain rs) (collect_types lib (newZoneModel lib domain rs) rs) n =
    denialTypes (newZoneModel lib domain rs) n False"
proof -
  let ?m = "newZoneModel lib domain rs" and ?c = "collect_types lib (newZoneModel lib domain rs) rs"
  obtain ts where ts: "map_of ?c n = Some ts" "distinct ts" "set ts = owner_types lib rs n"
    using collect_types_spec [of lib ?m rs] own nocc
    by (metis (mono_tags, lifting) map_of_eq_None_iff mem_Collect_eq not_None_eq set_map)
  obtain oi where oi: "map_of (zm_owners ?m) n = Some oi"
    using own owner_lookup_None [of lib domain rs n] by (cases "map_of (zm_owners ?m) n") auto
  note info = owner_lookup [OF oi]
  have ds: "0 < count_type TypeDS (oi_types oi) \<longleftrightarrow> TypeDS \<in> set ts"
    using info ts by (auto simp: owner_info_ok_def owner_types_def filter_empty_conv)
  have dat: "set (map fst (oi_types oi)) = set ts" using info ts by (simp add: owner_info_ok_def)
  have meta: "TypeNSEC \<notin> set ts" "TypeRRSIG \<notin> set ts" using clean ts by (auto simp: owner_types_def)
  define xs where "xs = (if isDelegation ?m n then TypeNS # (if TypeDS \<in> set ts then [TypeDS] else []) else ts)
    @ [TypeNSEC, TypeRRSIG]"
  have "distinct xs" using ts(2) meta by (simp add: xs_def)
  then have "sorted_list_of_set (set xs) = sort xs"
    using sorted_list_of_set_sort_remdups [of xs] by (simp add: distinct_remdups_id)
  moreover have "denialTypes ?m n False = sorted_list_of_set (set xs)"
    using oi dat ds unfolding denialTypes_def Let_def xs_def
    by (intro arg_cong [of _ _ sorted_list_of_set]) auto
  moreover have "nsec_types ?m ?c n = sort xs" using ts(1) by (simp add: nsec_types_def Let_def xs_def)
  ultimately show ?thesis by simp
qed

lemma generated_chain_index:
  assumes ok: "zone_ok_names lib domain rs"
  defines "m \<equiv> newZoneModel lib domain rs"
  defines "names \<equiv> authoritativeOwners lib m"
  shows "index_nsecs lib (generateNSECChainWithModel lib m rs ttl) [] =
    Inr (map (\<lambda>i. (names ! i, nsec_record m (collect_types lib m rs) ttl names i)) [0..<length names])"
proof -
  let ?rec = "nsec_record m (collect_types lib m rs) ttl names"
  have chain: "generateNSECChainWithModel lib m rs ttl = map ?rec [0..<length names]"
    using chain_owners [OF ok] by (simp add: generateNSECChainWithModel_def names_def m_def Let_def)
  have law: "names_law lib" using ok by (simp add: zone_ok_names_def)
  have key: "canonicalName lib (h_Name (nsec_Hdr (?rec i))) = names ! i" if "i < length names" for i
    using canonical_split(5) [OF law authoritativeOwners_spec(4) [OF ok]] that
    by (simp add: nsec_record_def names_def m_def)
  have keys: "map (\<lambda>n. canonicalName lib (h_Name (nsec_Hdr n))) (map ?rec [0..<length names]) = names"
    by (rule nth_equalityI) (simp_all add: key)
  have "distinct names" using authoritativeOwners_spec(1) [OF ok] by (simp add: names_def m_def)
  then have "index_nsecs lib (map ?rec [0..<length names]) [] =
      Inr ([] @ map (\<lambda>n. (canonicalName lib (h_Name (nsec_Hdr n)), n)) (map ?rec [0..<length names]))"
    by (intro index_nsecs_distinct) (simp_all only: keys, simp)
  also have "\<dots> = Inr (map (\<lambda>i. (names ! i, ?rec i)) [0..<length names])"
    by (simp add: key)
  finally show ?thesis by (simp add: chain)
qed

lemma generated_chain_verifies:
  assumes ok: "zone_ok_names lib domain rs" and apex: "canonicalName lib domain \<in> canon lib ` set rs"
    and clean: "\<forall>r \<in> set rs. Rrtype r \<noteq> TypeNSEC \<and> Rrtype r \<noteq> TypeRRSIG"
  defines "m \<equiv> newZoneModel lib domain rs"
  shows "verifyNSECExpectations lib m (generateNSECChainWithModel lib m rs ttl) = Inr ()"
proof -
  define names where "names = authoritativeOwners lib m"
  define chain where "chain = generateNSECChainWithModel lib m rs ttl"
  define ix where "ix = map (\<lambda>i. (names ! i, nsec_record m (collect_types lib m rs) ttl names i)) [0..<length names]"
  note spec = authoritativeOwners_spec [OF ok, folded m_def names_def]
  have law: "names_law lib" using ok by (simp add: zone_ok_names_def)
  have index: "index_nsecs lib chain [] = Inr ix"
    using generated_chain_index [OF ok] by (simp add: chain_def ix_def names_def m_def)
  have fsts: "map fst ix = names" by (simp add: ix_def comp_def map_nth)
  have "chain \<noteq> []"
  proof
    assume "chain = []"
    then have "names = []" using index by (simp add: ix_def)
    moreover have "\<not> isOccluded lib m (canonicalName lib domain)"
      by (auto simp: isOccluded_def m_def ancestors_def list_ex_iff)
    ultimately show False using spec(2) apex by auto
  qed
  moreover have "map_of ix n \<noteq> None" if "n \<in> set names" for n
    using that by (simp add: map_of_eq_None_iff fsts flip: set_map)
  moreover have "map_of (zm_owners m) n \<noteq> None \<and> \<not> isOccluded lib m n" if "n \<in> set names" for n
    using that spec(2) owner_lookup_None [of lib domain rs n] by (auto simp: m_def)
  moreover have "check_nsec lib m names ix i = Inr ()" if i: "i < length names" for i
  proof -
    have "(names ! i, nsec_record m (collect_types lib m rs) ttl names i) \<in> set ix"
      using i by (auto simp: ix_def)
    then have look: "map_of ix (names ! i) = Some (nsec_record m (collect_types lib m rs) ttl names i)"
      using spec(1) fsts by (intro map_of_is_SomeI) simp_all
    have "names ! ((i + 1) mod length names) \<in> set names" using i by (intro nth_mem mod_less_divisor) auto
    then have "canonicalName lib (names ! ((i + 1) mod length names)) = names ! ((i + 1) mod length names)"
      using canonical_split(5) [OF law spec(4)] by simp
    moreover have "nsec_types m (collect_types lib m rs) (names ! i) = denialTypes m (names ! i) False"
      unfolding m_def using i spec(2) clean nth_mem [OF i] by (intro nsec_types_expected) (auto simp: m_def)
    moreover have "sort (denialTypes m (names ! i) False) = denialTypes m (names ! i) False"
      unfolding denialTypes_def Let_def by (rule sorted_sort_id) (rule sorted_list_of_set.sorted_sorted_key_list_of_set)
    ultimately show ?thesis using look
      by (simp add: check_nsec_def Let_def compareTypeBitmap_iff) (simp add: nsec_record_def)
  qed
  ultimately show ?thesis
    unfolding verifyNSECExpectations_def Let_def chain_def [symmetric] names_def [symmetric] index
    by (simp add: fsts check_each_iff [THEN iffD2])
qed

section \<open>What the chain denies\<close>

text \<open>
  \<open>k\<close> lies strictly between an owner and the next one; the last record's interval wraps
  around (RFC 4034, section 4.1.1).
\<close>

definition between_cyclic :: "'a::linorder \<Rightarrow> 'a \<Rightarrow> 'a \<Rightarrow> bool" where
  "between_cyclic a b k \<longleftrightarrow> (if a < b then a < k \<and> k < b else a < k \<or> k < b)"

lemma sorted_filter_less:
  fixes ks :: "'a::linorder list"
  shows "sorted ks \<Longrightarrow> filter (\<lambda>x. x < k) ks = takeWhile (\<lambda>x. x < k) ks"
proof (induction ks)
  case (Cons a ks)
  show ?case
  proof (cases "a < k")
    case False
    then have "\<forall>x \<in> set ks. \<not> x < k" using Cons.prems by auto
    then have "filter (\<lambda>x. x < k) ks = []" by (simp only: filter_empty_conv)
    with False show ?thesis by simp
  qed (use Cons in simp)
qed simp

text \<open>The intervals of a strictly sorted cycle divide everything that is not a member.\<close>

lemma sorted_cycle_covers:
  fixes ks :: "'a::linorder list"
  assumes "sorted ks" and "distinct ks" and "ks \<noteq> []" and "k \<notin> set ks"
  shows "\<exists>!i. i < length ks \<and> between_cyclic (ks ! i) (ks ! ((i + 1) mod length ks)) k"
proof -
  let ?n = "length ks"
  have lt: "ks ! i < ks ! j" if "i < j" "j < ?n" for i j
    using assms(1,2) that by (metis less_le less_imp_le_nat nth_eq_iff_index_eq order.strict_trans sorted_nth_mono)
  have succ: "(i + 1) mod ?n = (if Suc i = ?n then 0 else Suc i)" if "i < ?n" for i
    using that by auto
  have pos: "0 < ?n" using assms(3) by simp
  have cov: "between_cyclic (ks ! i) (ks ! ((i + 1) mod ?n)) k \<longleftrightarrow>
      (if Suc i = ?n then ks ! i < k \<or> k < ks ! 0 else ks ! i < k \<and> k < ks ! Suc i)" if i: "i < ?n" for i
  proof (cases "Suc i = ?n")
    case True
    moreover have "\<not> ks ! i < ks ! 0" using lt [of 0 i] i by (cases i) auto
    ultimately show ?thesis using succ [OF i] by (simp add: between_cyclic_def)
  next
    case False
    then show ?thesis using succ [OF i] lt [of i "Suc i"] i by (simp add: between_cyclic_def)
  qed
  define c where "c = length (filter (\<lambda>x. x < k) ks)"
  have below: "ks ! j < k \<longleftrightarrow> j < c" if j: "j < ?n" for j
  proof -
    have "filter (\<lambda>x. x < k) ks = takeWhile (\<lambda>x. x < k) ks"
      using assms(1) by (rule sorted_filter_less)
    then have c: "c = length (takeWhile (\<lambda>x. x < k) ks)" by (simp add: c_def)
    show ?thesis
    proof
      assume "j < c"
      then show "ks ! j < k" unfolding c by (metis nth_mem set_takeWhileD takeWhile_nth)
    next
      assume jk: "ks ! j < k"
      show "j < c"
      proof (rule ccontr)
        assume "\<not> j < c"
        then have "c \<le> j" "c < ?n" using j by auto
        then have "\<not> ks ! c < k" unfolding c by (metis nth_length_takeWhile)
        moreover have "ks ! c \<le> ks ! j" using \<open>c \<le> j\<close> j assms(1) by (simp add: sorted_nth_mono)
        ultimately show False using jk by simp
      qed
    qed
  qed
  have above: "k < ks ! j \<longleftrightarrow> c \<le> j" if "j < ?n" for j
    using below [OF that] assms(4) nth_mem [OF that] by (metis linorder_neqE not_le less_asym)
  have cn: "c \<le> ?n" by (simp add: c_def)
  have hit: "between_cyclic (ks ! i) (ks ! ((i + 1) mod ?n)) k \<longleftrightarrow>
      (if c = 0 \<or> c = ?n then Suc i = ?n else Suc i = c)" if i: "i < ?n" for i
  proof (cases "Suc i = ?n")
    case True
    then show ?thesis unfolding cov [OF i] below [OF i] above [OF pos] using cn pos by auto
  next
    case False
    then have "Suc i < ?n" using i by simp
    then show ?thesis unfolding cov [OF i] below [OF i] above [OF \<open>Suc i < ?n\<close>] using cn by auto
  qed
  show ?thesis
  proof (rule ex1I [of _ "if c = 0 \<or> c = ?n then ?n - 1 else c - 1"])
    show "(if c = 0 \<or> c = ?n then ?n - 1 else c - 1) < ?n \<and>
      between_cyclic (ks ! (if c = 0 \<or> c = ?n then ?n - 1 else c - 1))
        (ks ! (((if c = 0 \<or> c = ?n then ?n - 1 else c - 1) + 1) mod ?n)) k"
      using pos cn hit [of "?n - 1"] hit [of "c - 1"] by (auto split: if_splits)
  qed (use hit pos cn in \<open>auto split: if_splits\<close>)
qed

text \<open>The record that covers a name, in the canonical order.\<close>

definition nsec_denies :: "dnslib \<Rightarrow> nsec \<Rightarrow> string \<Rightarrow> bool" where
  "nsec_denies lib n name \<longleftrightarrow>
     between_cyclic (name_key lib (h_Name (nsec_Hdr n))) (name_key lib (nsec_NextDomain n)) (name_key lib name)"

lemma generated_chain_nth:
  assumes ok: "zone_ok_names lib domain rs"
  defines "m \<equiv> newZoneModel lib domain rs"
  defines "names \<equiv> authoritativeOwners lib m"
  shows "generateNSECChainWithModel lib m rs ttl =
    map (nsec_record m (collect_types lib m rs) ttl names) [0..<length names]"
  using chain_owners [OF ok] by (simp add: generateNSECChainWithModel_def names_def m_def Let_def)

lemma generated_chain_denies:
  assumes ok: "zone_ok_names lib domain rs" and apex: "canonicalName lib domain \<in> canon lib ` set rs"
    and name: "canonical lib name" "name \<notin> set (authoritativeOwners lib (newZoneModel lib domain rs))"
  shows "\<exists>!i. i < length (generateNSECChainWithModel lib (newZoneModel lib domain rs) rs ttl) \<and>
    nsec_denies lib (generateNSECChainWithModel lib (newZoneModel lib domain rs) rs ttl ! i) name"
proof -
  define m where "m = newZoneModel lib domain rs"
  define names where "names = authoritativeOwners lib m"
  note spec = authoritativeOwners_spec [OF ok, folded m_def names_def]
  have law: "names_law lib" using ok by (simp add: zone_ok_names_def)
  have "\<not> isOccluded lib m (canonicalName lib domain)"
    by (auto simp: isOccluded_def m_def ancestors_def list_ex_iff)
  then have ne: "names \<noteq> []" using spec(2) apex by auto
  have inj: "inj_on (name_key lib) (insert name (set names))"
    using spec(4) name(1) by (intro name_key_inj [OF law]) auto
  have "\<exists>!i. i < length (map (name_key lib) names) \<and>
      between_cyclic (map (name_key lib) names ! i)
        (map (name_key lib) names ! ((i + 1) mod length (map (name_key lib) names))) (name_key lib name)"
  proof (rule sorted_cycle_covers)
    show "distinct (map (name_key lib) names)" using spec(1) inj by (simp add: distinct_map inj_on_def)
    show "name_key lib name \<notin> set (map (name_key lib) names)"
      using inj name(2) by (auto simp: names_def m_def inj_on_def)
  qed (use spec(3) ne in simp_all)
  moreover have "(i + 1) mod length names < length names" for i using ne by (intro mod_less_divisor) simp
  ultimately show ?thesis
    using generated_chain_nth [OF ok, of ttl, folded m_def names_def]
    by (simp add: nsec_denies_def nsec_record_def m_def cong: conj_cong)
qed

end
