(* ===== verification/Nsec3_Chain.thy ===== *)
theory Nsec3_Chain
  imports Nsec_Chain Signer_Config
begin

text \<open>
  The NSEC3 chain of a zone: its generation (\<open>generateNSEC3ChainWithModel\<close>,
  \<open>addEmptyNonTerminals\<close>) and the check before publication
  (\<open>verifyNSEC3Expectations\<close>) in \<open>signer/internal/signer/sign.go\<close>. Unlike
  an NSEC chain it also lists the empty non-terminals, and it is ordered by the hashes of the
  names.
\<close>

abbreviation "SHA1 \<equiv> 1 :: 8 word"

definition ascii_upper :: "char \<Rightarrow> char" where
  "ascii_upper c = (let n = (of_char c :: nat) in if 97 \<le> n \<and> n \<le> 122 then char_of (n - 32) else c)"

text \<open>\<open>strings.ToUpper\<close> on the ASCII text of hashes and salts.\<close>

definition ToUpper :: "string \<Rightarrow> string" where
  "ToUpper s = map ascii_upper s"

section \<open>Generation\<close>

definition add_parent :: "string \<Rightarrow> (string, 16 word list) gomap \<Rightarrow> (string, 16 word list) gomap" where
  "add_parent parent names = (if map_of names parent = None then AList.update parent [] names else names)"

definition addEmptyNonTerminals ::
  "dnslib \<Rightarrow> string \<Rightarrow> (string, 16 word list) gomap \<Rightarrow> (string, 16 word list) gomap" where
  "addEmptyNonTerminals lib apex names =
     (let apexLabels = SplitDomainName lib (canonicalName lib apex) in
      fold (\<lambda>name acc. let labels = SplitDomainName lib name in
              fold (\<lambda>i. add_parent (joinLabels (drop i labels))) [1..<length labels - length apexLabels] acc)
        (map fst names) names)"

definition nsec3_types :: "zone_model \<Rightarrow> (string, 16 word list) gomap \<Rightarrow> string \<Rightarrow> 16 word list" where
  "nsec3_types m typesByName name =
     (let present = (case map_of typesByName name of None \<Rightarrow> [] | Some ts \<Rightarrow> ts);
          types = (if isDelegation m name then
                     TypeNS # (if TypeDS \<in> set present then [TypeDS, TypeRRSIG] else [])
                   else if 0 < length present then present @ [TypeRRSIG] else [])
      in sort types)"

definition note_nsec3param :: "string \<Rightarrow> (string, 16 word list) gomap \<Rightarrow> (string, 16 word list) gomap" where
  "note_nsec3param apex typesByName = (case map_of typesByName apex of
     None \<Rightarrow> typesByName | Some ts \<Rightarrow> AList.update apex (List.insert TypeNSEC3PARAM ts) typesByName)"

definition nsec3_record ::
  "zone_model \<Rightarrow> (string, 16 word list) gomap \<Rightarrow> 16 word \<Rightarrow> string \<Rightarrow> 32 word \<Rightarrow>
   (string \<times> string) list \<Rightarrow> nat \<Rightarrow> nsec3" where
  "nsec3_record m typesByName iterations salt soaMinTTL hashedNames i =
     \<lparr>n3_Hdr = \<lparr>h_Name = snd (hashedNames ! i) @ ''.'' @ zm_apex m, h_Rrtype = TypeNSEC3,
                h_Class = ClassINET, h_Ttl = soaMinTTL\<rparr>,
      n3_Hash = SHA1, n3_Flags = 0, n3_Iterations = iterations,
      n3_SaltLength = of_nat (length salt div 2), n3_Salt = salt, n3_HashLength = 20,
      n3_NextDomain = snd (hashedNames ! ((i + 1) mod length hashedNames)),
      n3_TypeBitMap = nsec3_types m typesByName (fst (hashedNames ! i))\<rparr>"

definition generateNSEC3ChainWithModel ::
  "dnslib \<Rightarrow> dnssec_config \<Rightarrow> zone_model \<Rightarrow> rr list \<Rightarrow> 32 word \<Rightarrow> nsec3param \<times> nsec3 list" where
  "generateNSEC3ChainWithModel lib c m records soaMinTTL =
     (let iterations = word_of_int (c_NSEC3Iterations c); salt = c_NSEC3Salt c; apex = zm_apex m;
          typesByName = addEmptyNonTerminals lib apex (note_nsec3param apex (collect_types lib m records));
          hashedNames = sort_slice (\<lambda>a b. snd a < snd b)
            (map (\<lambda>name. (name, HashName lib name SHA1 iterations salt)) (map fst typesByName))
      in (\<lparr>np_Hdr = \<lparr>h_Name = apex, h_Rrtype = TypeNSEC3PARAM, h_Class = ClassINET, h_Ttl = 0\<rparr>,
           np_Hash = SHA1, np_Flags = 0, np_Iterations = iterations,
           np_SaltLength = of_nat (length salt div 2), np_Salt = salt\<rparr>,
          map (nsec3_record m typesByName iterations salt soaMinTTL hashedNames) [0..<length hashedNames]))"

section \<open>Verification\<close>

definition normSalt :: "string \<Rightarrow> string" where
  "normSalt v = (let v = ToUpper v in if v = [] then ''-'' else v)"

text \<open>\<open>strings.TrimSuffix(salt, "-")\<close>.\<close>

definition trim_dash :: "string \<Rightarrow> string" where
  "trim_dash s = (if s \<noteq> [] \<and> last s = CHR ''-'' then butlast s else s)"

definition expected_hashes :: "dnslib \<Rightarrow> zone_model \<Rightarrow> 16 word \<Rightarrow> string \<Rightarrow> (string \<times> string) list" where
  "expected_hashes lib m iterations salt =
     sort_slice (\<lambda>a b. snd a < snd b)
       (map (\<lambda>name. (name, ToUpper (HashName lib name SHA1 iterations (trim_dash salt))))
          (authoritativeOwners lib m @ emptyNonTerminals lib m))"

fun index_nsec3s ::
  "dnslib \<Rightarrow> zone_model \<Rightarrow> 16 word \<Rightarrow> string \<Rightarrow> nsec3 list \<Rightarrow> (string, nsec3) gomap \<Rightarrow>
   error + (string, nsec3) gomap" where
  "index_nsec3s lib m iterations salt [] byHash = Inr byHash"
| "index_nsec3s lib m iterations salt (n # ns) byHash =
     (let labels = SplitDomainName lib (h_Name (n3_Hdr n)) in
      if length labels < 2 \<or> joinLabels (tl labels) \<noteq> zm_apex m then Inl (Msg ''NSEC3 owner is not a hash'')
      else if n3_Hash n \<noteq> SHA1 \<or> n3_Flags n \<noteq> 0 \<or> n3_Iterations n \<noteq> iterations \<or> normSalt (n3_Salt n) \<noteq> salt
        then Inl (Msg ''NSEC3 does not match the NSEC3PARAM parameters'')
      else let hash = ToUpper (hd labels) in
        if map_of byHash hash \<noteq> None then Inl (Msg ''NSEC3 chain has a duplicate owner hash'')
        else index_nsec3s lib m iterations salt ns (AList.update hash n byHash))"

definition check_nsec3 ::
  "zone_model \<Rightarrow> (string \<times> string) list \<Rightarrow> (string, nsec3) gomap \<Rightarrow> nat \<Rightarrow> error + unit" where
  "check_nsec3 m expected byHash i =
     (let (name, hash) = expected ! i in
      case map_of byHash hash of None \<Rightarrow> Inl (Msg ''nil record'') | Some n \<Rightarrow>
      if ToUpper (n3_NextDomain n) \<noteq> snd (expected ! ((i + 1) mod length expected))
      then Inl (Msg ''NSEC3 points elsewhere'')
      else compareTypeBitmap name (n3_TypeBitMap n) (denialTypes m name True))"

definition verifyNSEC3Expectations ::
  "dnslib \<Rightarrow> zone_model \<Rightarrow> nsec3 list \<Rightarrow> nsec3param list \<Rightarrow> 16 word \<Rightarrow> string \<Rightarrow> error + unit" where
  "verifyNSEC3Expectations lib m nsec3s params iterations salt0 =
     (let salt = normSalt salt0 in
      if length params \<noteq> 1 then Inl (Msg ''expected exactly one NSEC3PARAM at the apex'') else
      let p = hd params in
      if canonicalName lib (h_Name (np_Hdr p)) \<noteq> zm_apex m then Inl (Msg ''NSEC3PARAM is not at the apex'')
      else if np_Hash p \<noteq> SHA1 \<or> np_Flags p \<noteq> 0 \<or> np_Iterations p \<noteq> iterations \<or> normSalt (np_Salt p) \<noteq> salt
        then Inl (Msg ''NSEC3PARAM does not match the configured parameters'')
      else let expected = expected_hashes lib m iterations salt in
      if nsec3s = [] then Inl (Msg ''NSEC3 chain is missing'') else
      case index_nsec3s lib m iterations salt nsec3s [] of Inl e \<Rightarrow> Inl e | Inr byHash \<Rightarrow>
      case check_each (\<lambda>e. if map_of byHash (snd e) = None
             then Inl (Msg ''NSEC3 chain is missing a record'') else Inr ()) expected of
        Inl e \<Rightarrow> Inl e | Inr _ \<Rightarrow>
      case check_each (\<lambda>hash. if hash \<notin> set (map snd expected)
             then Inl (Msg ''NSEC3 chain has a record for an unknown hash'') else Inr ()) (map fst byHash) of
        Inl e \<Rightarrow> Inl e | Inr _ \<Rightarrow>
      check_each (check_nsec3 m expected byHash) [0..<length expected])"

section \<open>The names of the chain\<close>

text \<open>
  Documented behaviour of \<open>dns.HashName\<close>: the hash is returned in upper case, and the
  salt is hexadecimal text, whose letters may be of either case.
\<close>

definition hash_law :: "dnslib \<Rightarrow> bool" where
  "hash_law lib \<longleftrightarrow> (\<forall>n h it s. HashName lib n h it (ToUpper s) = HashName lib n h it s \<and>
     ToUpper (HashName lib n h it s) = HashName lib n h it s)"

lemma add_parent_keys: "set (map fst (add_parent p t)) = insert p (set (map fst t))"
  by (auto simp: add_parent_def dom_update map_of_eq_None_iff domI)

lemma add_parent_ok: "gomap_ok t \<Longrightarrow> gomap_ok (add_parent p t)"
  by (simp add: add_parent_def)

lemma add_parent_lookup:
  "map_of (add_parent p t) n = (case map_of t n of Some ts \<Rightarrow> Some ts | None \<Rightarrow> if n = p then Some [] else None)"
  by (auto simp: add_parent_def update_conv' split: option.splits)

text \<open>Adding a list of parents one after the other.\<close>

lemma fold_add_parent:
  "gomap_ok t \<Longrightarrow> gomap_ok (fold add_parent ps t)"
  "set (map fst (fold add_parent ps t)) = set (map fst t) \<union> set ps"
  "map_of (fold add_parent ps t) n =
     (case map_of t n of Some ts \<Rightarrow> Some ts | None \<Rightarrow> if n \<in> set ps then Some [] else None)"
proof (induction ps arbitrary: t)
  case (Cons p ps)
  { case 1 with Cons(1) show ?case by (simp add: add_parent_ok) }
  { case 2 show ?case using Cons(2) [of "add_parent p t"] by (simp add: add_parent_keys del: set_map) }
  { case 3 show ?case using Cons(3) [of "add_parent p t"] by (simp add: add_parent_lookup split: option.splits) }
qed (simp_all split: option.splits)

lemma addEmptyNonTerminals_fold:
  "addEmptyNonTerminals lib apex t = fold add_parent
     (concat (map (\<lambda>name. map (\<lambda>i. joinLabels (drop i (SplitDomainName lib name)))
        [1..<length (SplitDomainName lib name) - length (SplitDomainName lib (canonicalName lib apex))]) (map fst t))) t"
proof -
  have "fold (\<lambda>name acc. fold (\<lambda>i. add_parent (f name i)) (is name) acc) ns acc =
      fold add_parent (concat (map (\<lambda>name. map (f name) (is name)) ns)) acc"
    for f :: "string \<Rightarrow> nat \<Rightarrow> string" and "is" ns acc
    by (induction ns arbitrary: acc) (simp_all add: fold_map comp_def)
  then show ?thesis unfolding addEmptyNonTerminals_def Let_def .
qed

text \<open>The proper ancestors of an ancestor are ancestors.\<close>

lemma ancestors_trans:
  assumes law: "names_law lib" and ok: "list_all label_ok ls"
    and a: "a \<in> set (ancestors m ls)" and b: "b \<in> set (ancestors m (SplitDomainName lib a))"
  shows "b \<in> set (ancestors m ls)"
proof -
  obtain i where i: "1 \<le> i" "i < length ls - length (zm_apexLabels m)" "a = joinLabels (drop i ls)"
    using a by (auto simp: ancestors_def)
  have "list_all label_ok (drop i ls)" using ok by (metis append_take_drop_id list_all_append)
  then have "SplitDomainName lib a = drop i ls" using split_joinLabels(1) [OF law] i(3) by simp
  then obtain j where j: "1 \<le> j" "j < length ls - i - length (zm_apexLabels m)" "b = joinLabels (drop (j + i) ls)"
    using b by (auto simp: ancestors_def)
  then show ?thesis unfolding ancestors_def by (auto intro!: image_eqI [of _ _ "j + i"])
qed

lemma ancestor_not_occluded:
  assumes "names_law lib" and "canonical lib n" and "\<not> isOccluded lib m n"
    and "a \<in> set (ancestors m (SplitDomainName lib n))"
  shows "\<not> isOccluded lib m a"
  using assms(3) ancestors_trans [OF assms(1) canonical_split(1) [OF assms(1,2)] assms(4)]
  unfolding isOccluded_Bex by blast

definition chain_names :: "dnslib \<Rightarrow> string \<Rightarrow> rr list \<Rightarrow> string list" where
  "chain_names lib domain rs = (let m = newZoneModel lib domain rs in
     authoritativeOwners lib m @ emptyNonTerminals lib m)"

definition chain_types :: "dnslib \<Rightarrow> string \<Rightarrow> rr list \<Rightarrow> (string, 16 word list) gomap" where
  "chain_types lib domain rs = (let m = newZoneModel lib domain rs in
     addEmptyNonTerminals lib (zm_apex m) (note_nsec3param (zm_apex m) (collect_types lib m rs)))"

lemma note_nsec3param_keys [simp]:
  "set (map fst (note_nsec3param apex t)) = set (map fst t)"
  "gomap_ok t \<Longrightarrow> gomap_ok (note_nsec3param apex t)"
proof -
  show "set (map fst (note_nsec3param apex t)) = set (map fst t)"
    by (auto simp: note_nsec3param_def dom_update split: option.splits)
      (metis domI dom_map_of_conv_image_fst)
qed (simp add: note_nsec3param_def split: option.splits)

lemma ENT_set:
  assumes ok: "zone_ok_names lib domain rs"
  defines "m \<equiv> newZoneModel lib domain rs"
  shows "set (emptyNonTerminals lib m) = {a. \<exists>n \<in> set (authoritativeOwners lib m).
           a \<in> set (ancestors m (SplitDomainName lib n)) \<and> a \<notin> canon lib ` set rs}"
    and "distinct (emptyNonTerminals lib m)"
  using owner_lookup_None [of lib domain rs]
  by (auto simp: emptyNonTerminals_def sort_canonicalLess m_def)

text \<open>Both sides find the same names.\<close>

lemma chain_names_spec:
  assumes ok: "zone_ok_names lib domain rs"
  shows "distinct (chain_names lib domain rs)"
    and "gomap_ok (chain_types lib domain rs)"
    and "set (map fst (chain_types lib domain rs)) = set (chain_names lib domain rs)"
proof -
  define m where "m = newZoneModel lib domain rs"
  define A where "A = authoritativeOwners lib m"
  have law: "names_law lib" using ok by (simp add: zone_ok_names_def)
  note spec = authoritativeOwners_spec [OF ok, folded m_def A_def]
  note ent = ENT_set [OF ok, folded m_def A_def]
  show "distinct (chain_names lib domain rs)"
    using spec(1,2) ent by (auto simp: chain_names_def Let_def m_def [symmetric] A_def [symmetric])
  have ct: "gomap_ok (collect_types lib m rs)" "set (map fst (collect_types lib m rs)) = set A"
    using collect_types_spec [of lib m rs] spec(2) by simp_all
  then have nt: "gomap_ok (note_nsec3param (zm_apex m) (collect_types lib m rs))"
    "set (map fst (note_nsec3param (zm_apex m) (collect_types lib m rs))) = set A"
    by (simp_all del: set_map)
  show "gomap_ok (chain_types lib domain rs)"
    using nt(1) by (simp add: chain_types_def Let_def m_def [symmetric] addEmptyNonTerminals_fold fold_add_parent(1))
  have al: "SplitDomainName lib (canonicalName lib (zm_apex m)) = zm_apexLabels m"
    using canonicalName_idem [OF law] ok by (simp add: m_def zone_ok_names_def)
  let ?t = "note_nsec3param (zm_apex m) (collect_types lib m rs)"
  have "set (map fst (chain_types lib domain rs)) =
      set (map fst ?t) \<union> set (concat (map (\<lambda>n. ancestors m (SplitDomainName lib n)) (map fst ?t)))"
    unfolding chain_types_def Let_def m_def [symmetric] addEmptyNonTerminals_fold al fold_add_parent(2) ancestors_def ..
  also have "\<dots> = set (map fst ?t) \<union> (\<Union>n \<in> set (map fst ?t). set (ancestors m (SplitDomainName lib n)))"
    by simp
  also have "\<dots> = set A \<union> (\<Union>n \<in> set A. set (ancestors m (SplitDomainName lib n)))"
    unfolding nt(2) ..
  also have "\<dots> = set A \<union> set (emptyNonTerminals lib m)"
  proof -
    have "a \<in> set A" if "n \<in> set A" "a \<in> set (ancestors m (SplitDomainName lib n))" "a \<in> canon lib ` set rs" for a n
      using that spec(2,4) ancestor_not_occluded [OF law, of n m a] by auto
    then show ?thesis using ent(1) by auto
  qed
  finally show "set (map fst (chain_types lib domain rs)) = set (chain_names lib domain rs)"
    by (simp add: chain_names_def Let_def m_def A_def)
qed

section \<open>A generated chain passes the check\<close>

lemma chain_types_lookup:
  assumes ok: "zone_ok_names lib domain rs"
  defines "m \<equiv> newZoneModel lib domain rs"
  shows "n \<in> set (authoritativeOwners lib m) \<Longrightarrow>
      \<exists>ts. map_of (chain_types lib domain rs) n = Some ts \<and> distinct ts \<and>
        set ts = owner_types lib rs n \<union> (if n = zm_apex m then {TypeNSEC3PARAM} else {})"
    and "n \<in> set (emptyNonTerminals lib m) \<Longrightarrow> map_of (chain_types lib domain rs) n = Some []"
proof -
  let ?c = "collect_types lib m rs"
  let ?t = "note_nsec3param (zm_apex m) ?c"
  have look: "map_of (chain_types lib domain rs) n = (case map_of ?t n of Some ts \<Rightarrow> Some ts
      | None \<Rightarrow> if n \<in> set (map fst (chain_types lib domain rs)) then Some [] else None)"
    unfolding chain_types_def Let_def m_def [symmetric] addEmptyNonTerminals_fold fold_add_parent(2,3)
    by (auto simp: map_of_eq_None_iff split: option.splits)
  have keys: "set (map fst ?t) = set (authoritativeOwners lib m)"
    using collect_types_spec [of lib m rs] authoritativeOwners_spec(2) [OF ok] by (simp add: m_def del: set_map)
  {
    assume n: "n \<in> set (authoritativeOwners lib m)"
    then obtain ts where ts: "map_of ?c n = Some ts" "distinct ts" "set ts = owner_types lib rs n"
      using collect_types_spec [of lib m rs] authoritativeOwners_spec(2) [OF ok, folded m_def]
      by (metis (mono_tags, lifting) map_of_eq_None_iff not_None_eq set_map)
    have "map_of ?t n = Some (if n = zm_apex m then List.insert TypeNSEC3PARAM ts else ts)"
      using ts(1) by (auto simp: note_nsec3param_def update_conv' split: option.splits)
    then show "\<exists>ts. map_of (chain_types lib domain rs) n = Some ts \<and> distinct ts \<and>
        set ts = owner_types lib rs n \<union> (if n = zm_apex m then {TypeNSEC3PARAM} else {})"
      using ts look by auto
  }
  assume n: "n \<in> set (emptyNonTerminals lib m)"
  then have "n \<notin> set (authoritativeOwners lib m)"
    using ENT_set(1) [OF ok] authoritativeOwners_spec(2) [OF ok] by (auto simp: m_def)
  then have "map_of ?t n = None" using keys by (metis map_of_eq_None_iff set_map)
  moreover have "n \<in> set (map fst (chain_types lib domain rs))"
    using n chain_names_spec(3) [OF ok] by (simp add: chain_names_def m_def Let_def)
  ultimately show "map_of (chain_types lib domain rs) n = Some []" using look by simp
qed

lemma nsec3_types_expected:
  assumes ok: "zone_ok_names lib domain rs" and n: "n \<in> set (chain_names lib domain rs)"
    and clean: "\<forall>r \<in> set rs. Rrtype r \<noteq> TypeRRSIG"
  shows "nsec3_types (newZoneModel lib domain rs) (chain_types lib domain rs) n =
    denialTypes (newZoneModel lib domain rs) n True"
proof -
  define m where "m = newZoneModel lib domain rs"
  have apex: "zm_apex m = canonicalName lib domain" by (simp add: m_def)
  consider (own) "n \<in> set (authoritativeOwners lib m)" | (ent) "n \<in> set (emptyNonTerminals lib m)"
    using n by (auto simp: chain_names_def Let_def m_def)
  then show ?thesis
  proof cases
    case own
    obtain ts where ts: "map_of (chain_types lib domain rs) n = Some ts" "distinct ts"
      "set ts = owner_types lib rs n \<union> (if n = zm_apex m then {TypeNSEC3PARAM} else {})"
      using chain_types_lookup(1) [OF ok] own by (auto simp: m_def)
    have rec: "n \<in> canon lib ` set rs" using own authoritativeOwners_spec(2) [OF ok] by (simp add: m_def)
    obtain oi where oi: "map_of (zm_owners m) n = Some oi"
      using rec owner_lookup_None [of lib domain rs n] by (cases "map_of (zm_owners m) n") (auto simp: m_def)
    note info = owner_lookup [OF oi [unfolded m_def]]
    have apex_no: "\<not> isDelegation m n" if "n = zm_apex m" using that by (simp add: m_def isDelegation_iff)
    have ds: "0 < count_type TypeDS (oi_types oi) \<longleftrightarrow> TypeDS \<in> set ts"
      using info ts(3) by (auto simp: owner_info_ok_def owner_types_def filter_empty_conv)
    have dat: "set (map fst (oi_types oi)) = owner_types lib rs n" using info by (simp add: owner_info_ok_def)
    have nosig: "TypeRRSIG \<notin> set ts" using clean ts(3) by (auto simp: owner_types_def)
    have ne: "ts \<noteq> []" using rec ts(3) by (auto simp: owner_types_def)
    define xs where "xs = (if isDelegation m n then TypeNS # (if TypeDS \<in> set ts then [TypeDS, TypeRRSIG] else [])
      else ts @ [TypeRRSIG])"
    have "distinct xs" using ts(2) nosig by (simp add: xs_def)
    then have "sorted_list_of_set (set xs) = sort xs"
      using sorted_list_of_set_sort_remdups [of xs] by (simp add: distinct_remdups_id)
    moreover have "denialTypes m n True = sorted_list_of_set (set xs)"
      using oi dat ds ts(3) apex_no unfolding denialTypes_def Let_def xs_def
      by (intro arg_cong [of _ _ sorted_list_of_set]) auto
    moreover have "nsec3_types m (chain_types lib domain rs) n = sort xs"
      using ts(1) ne by (simp add: nsec3_types_def Let_def xs_def)
    ultimately show ?thesis by (simp add: m_def)
  next
    case ent
    then have no: "n \<notin> canon lib ` set rs" using ENT_set(1) [OF ok] by (auto simp: m_def)
    then have "map_of (zm_owners m) n = None" "\<not> isDelegation m n"
      by (auto simp: m_def owner_lookup_None isDelegation_iff)
    moreover have "map_of (chain_types lib domain rs) n = Some []"
      using chain_types_lookup(2) [OF ok] ent by (simp add: m_def)
    ultimately show ?thesis by (simp add: nsec3_types_def denialTypes_def Let_def m_def)
  qed
qed

text \<open>The hashes of the chain's names are labels, and no two of them collide.\<close>

definition hashes_ok :: "dnslib \<Rightarrow> 16 word \<Rightarrow> string \<Rightarrow> string list \<Rightarrow> bool" where
  "hashes_ok lib it salt ns \<longleftrightarrow> list_all (\<lambda>n. label_ok (HashName lib n SHA1 it salt)) ns \<and>
     inj_on (\<lambda>n. HashName lib n SHA1 it salt) (set ns)"

definition chain_hashes :: "dnslib \<Rightarrow> 16 word \<Rightarrow> string \<Rightarrow> string list \<Rightarrow> (string \<times> string) list" where
  "chain_hashes lib it salt ns = sort_key snd (map (\<lambda>n. (n, HashName lib n SHA1 it salt)) ns)"

lemma chain_hashes_same:
  assumes "hashes_ok lib it salt xs" and "distinct xs" and "distinct ys" and "set xs = set ys"
  shows "chain_hashes lib it salt xs = chain_hashes lib it salt ys"
  unfolding chain_hashes_def using assms
  by (intro sort_key_same_set) (auto simp: distinct_map inj_on_def hashes_ok_def)

lemma trim_normSalt:
  assumes "CHR ''-'' \<notin> set salt"
  shows "trim_dash (normSalt salt) = ToUpper salt"
proof -
  have up: "ascii_upper c = CHR ''-'' \<longleftrightarrow> c = CHR ''-''" for c
  proof -
    have "of_char c < (256 :: nat)" by simp
    then have "of_char (ascii_upper c) = (45 :: nat) \<longleftrightarrow> of_char c = (45 :: nat)"
      by (auto simp: ascii_upper_def Let_def)
    moreover have "of_char (CHR ''-'') = (45 :: nat)" by simp
    ultimately show ?thesis by (metis of_char_eq_iff)
  qed
  show ?thesis
  proof (cases "salt = []")
    case False
    then have "last (ToUpper salt) = ascii_upper (last salt)" "last salt \<in> set salt"
      by (simp_all add: ToUpper_def last_map)
    then have "last (ToUpper salt) \<noteq> CHR ''-''" using assms up [of "last salt"] by metis
    with False show ?thesis by (simp add: trim_dash_def normSalt_def Let_def ToUpper_def)
  qed (simp add: trim_dash_def normSalt_def Let_def ToUpper_def)
qed

lemma expected_hashes_eq:
  assumes "hash_law lib" and "CHR ''-'' \<notin> set salt"
  shows "expected_hashes lib (newZoneModel lib domain rs) it (normSalt salt) =
    chain_hashes lib it salt (chain_names lib domain rs)"
proof -
  have "ToUpper (HashName lib n SHA1 it (trim_dash (normSalt salt))) = HashName lib n SHA1 it salt" for n
    using assms(1) unfolding trim_normSalt [OF assms(2)] hash_law_def by metis
  then show ?thesis unfolding expected_hashes_def chain_hashes_def chain_names_def Let_def
    by (simp add: sort_slice_key [where f = snd])
qed

lemma chain_hashes_spec:
  assumes "hashes_ok lib it salt ns" and "distinct ns"
  defines "hs \<equiv> chain_hashes lib it salt ns"
  shows "length hs = length ns" and "distinct (map snd hs)"
    and "\<And>e. e \<in> set hs \<Longrightarrow> fst e \<in> set ns \<and> snd e = HashName lib (fst e) SHA1 it salt \<and> label_ok (snd e)"
proof -
  show "distinct (map snd hs)"
    using assms by (auto simp: hs_def chain_hashes_def hashes_ok_def distinct_map inj_on_def)
qed (use assms in \<open>auto simp: hs_def chain_hashes_def hashes_ok_def list_all_iff\<close>)

lemma index_nsec3s_distinct:
  assumes "distinct (map (\<lambda>n. ToUpper (hd (SplitDomainName lib (h_Name (n3_Hdr n))))) ns)"
    and "set (map (\<lambda>n. ToUpper (hd (SplitDomainName lib (h_Name (n3_Hdr n))))) ns) \<inter> fst ` set acc = {}"
    and "\<And>n. n \<in> set ns \<Longrightarrow> 2 \<le> length (SplitDomainName lib (h_Name (n3_Hdr n))) \<and>
      joinLabels (tl (SplitDomainName lib (h_Name (n3_Hdr n)))) = zm_apex m \<and>
      n3_Hash n = SHA1 \<and> n3_Flags n = 0 \<and> n3_Iterations n = it \<and> normSalt (n3_Salt n) = salt"
  shows "index_nsec3s lib m it salt ns acc =
    Inr (acc @ map (\<lambda>n. (ToUpper (hd (SplitDomainName lib (h_Name (n3_Hdr n)))), n)) ns)"
  using assms
proof (induction ns arbitrary: acc)
  case (Cons n ns)
  let ?k = "ToUpper (hd (SplitDomainName lib (h_Name (n3_Hdr n))))"
  have "map_of acc ?k = None" using Cons.prems(2) by (auto simp: map_of_eq_None_iff)
  moreover have "AList.update ?k n acc = acc @ [(?k, n)]"
    using Cons.prems(2) by (induction acc) auto
  moreover have "index_nsec3s lib m it salt ns (acc @ [(?k, n)]) =
      Inr ((acc @ [(?k, n)]) @ map (\<lambda>n. (ToUpper (hd (SplitDomainName lib (h_Name (n3_Hdr n)))), n)) ns)"
    using Cons.prems by (intro Cons.IH) auto
  ultimately show ?case using Cons.prems(3) [of n] by (simp add: Let_def not_less)
qed simp

lemma generated_nsec3_index:
  fixes ttl :: "32 word"
  assumes ok: "zone_ok_names lib domain rs" and hl: "hash_law lib"
    and h: "hashes_ok lib it salt (chain_names lib domain rs)"
    and root: "SplitDomainName lib (canonicalName lib domain) \<noteq> []"
  defines "m \<equiv> newZoneModel lib domain rs"
  defines "hs \<equiv> chain_hashes lib it salt (chain_names lib domain rs)"
  defines "rec \<equiv> nsec3_record m (chain_types lib domain rs) it salt ttl hs"
  shows "index_nsec3s lib m it (normSalt salt) (map rec [0..<length hs]) [] =
    Inr (map (\<lambda>i. (snd (hs ! i), rec i)) [0..<length hs])"
proof -
  have law: "names_law lib" and dom: "name_ok lib domain" using ok by (simp_all add: zone_ok_names_def)
  note spec = chain_hashes_spec [OF h chain_names_spec(1) [OF ok], folded hs_def]
  let ?al = "SplitDomainName lib (canonicalName lib domain)"
  have al: "list_all label_ok ?al" "joinLabels ?al = canonicalName lib domain"
    using canonical_split [OF law canonicalI [OF dom]] by simp_all
  have split: "SplitDomainName lib (h_Name (n3_Hdr (rec i))) = snd (hs ! i) # ?al" if "i < length hs" for i
  proof -
    have "label_ok (snd (hs ! i))" using spec(3) [OF nth_mem [OF that]] by blast
    then have "list_all label_ok (snd (hs ! i) # ?al)" using al(1) by simp
    moreover have "joinLabels (snd (hs ! i) # ?al) = snd (hs ! i) @ ''.'' @ canonicalName lib domain"
      using root al(2) by (cases ?al) (auto simp: joinLabels_def)
    ultimately show ?thesis using split_joinLabels(1) [OF law, of "snd (hs ! i) # ?al"]
      by (simp add: rec_def nsec3_record_def m_def)
  qed
  have up: "ToUpper (snd (hs ! i)) = snd (hs ! i)" if "i < length hs" for i
    using spec(3) [OF nth_mem [OF that]] hl unfolding hash_law_def by simp
  have keys: "map (\<lambda>n. ToUpper (hd (SplitDomainName lib (h_Name (n3_Hdr n))))) (map rec [0..<length hs]) = map snd hs"
    by (rule nth_equalityI) (simp_all add: split up)
  have "index_nsec3s lib m it (normSalt salt) (map rec [0..<length hs]) [] =
      Inr ([] @ map (\<lambda>n. (ToUpper (hd (SplitDomainName lib (h_Name (n3_Hdr n)))), n)) (map rec [0..<length hs]))"
  proof (rule index_nsec3s_distinct)
    show "distinct (map (\<lambda>n. ToUpper (hd (SplitDomainName lib (h_Name (n3_Hdr n))))) (map rec [0..<length hs]))"
      unfolding keys by (rule spec(2))
    fix n assume "n \<in> set (map rec [0..<length hs])"
    then obtain i where i: "i < length hs" "n = rec i" by auto
    have "n3_Hash n = SHA1 \<and> n3_Flags n = 0 \<and> n3_Iterations n = it \<and> n3_Salt n = salt" "zm_apex m = canonicalName lib domain"
      by (simp_all add: i(2) rec_def nsec3_record_def m_def)
    then
    show "2 \<le> length (SplitDomainName lib (h_Name (n3_Hdr n))) \<and>
      joinLabels (tl (SplitDomainName lib (h_Name (n3_Hdr n)))) = zm_apex m \<and>
      n3_Hash n = SHA1 \<and> n3_Flags n = 0 \<and> n3_Iterations n = it \<and> normSalt (n3_Salt n) = normSalt salt"
      using root al(2) split [OF i(1)] by (cases ?al) (simp_all add: i(2))
  qed simp
  also have "\<dots> = Inr (map (\<lambda>i. (snd (hs ! i), rec i)) [0..<length hs])"
    by (simp add: split up)
  finally show ?thesis .
qed

lemma generated_nsec3_chain:
  assumes ok: "zone_ok_names lib domain rs"
    and h: "hashes_ok lib (word_of_int (c_NSEC3Iterations c)) (c_NSEC3Salt c) (chain_names lib domain rs)"
  defines "m \<equiv> newZoneModel lib domain rs" and "it \<equiv> word_of_int (c_NSEC3Iterations c)"
  defines "hs \<equiv> chain_hashes lib it (c_NSEC3Salt c) (chain_names lib domain rs)"
  shows "snd (generateNSEC3ChainWithModel lib c m rs ttl) =
    map (nsec3_record m (chain_types lib domain rs) it (c_NSEC3Salt c) ttl hs) [0..<length hs]"
proof -
  let ?ns = "map fst (chain_types lib domain rs)"
  have eq: "set (chain_names lib domain rs) = set ?ns" using chain_names_spec(3) [OF ok] by simp
  have "distinct ?ns" using chain_names_spec(2) [OF ok] by (simp add: gomap_ok_def)
  then have "hs = chain_hashes lib it (c_NSEC3Salt c) ?ns"
    unfolding hs_def using chain_hashes_same [OF h chain_names_spec(1) [OF ok] _ eq] by (simp add: it_def)
  then have "sort_slice (\<lambda>a b. snd a < snd b) (map (\<lambda>n. (n, HashName lib n SHA1 it (c_NSEC3Salt c))) ?ns) = hs"
    by (simp add: chain_hashes_def sort_slice_key [where f = snd])
  moreover have "addEmptyNonTerminals lib (zm_apex m) (note_nsec3param (zm_apex m) (collect_types lib m rs)) =
      chain_types lib domain rs" by (simp add: chain_types_def m_def Let_def)
  ultimately show ?thesis unfolding generateNSEC3ChainWithModel_def Let_def it_def by simp
qed

lemma generated_nsec3_verifies:
  assumes ok: "zone_ok_names lib domain rs" and apex: "canonicalName lib domain \<in> canon lib ` set rs"
    and clean: "\<forall>r \<in> set rs. Rrtype r \<noteq> TypeRRSIG" and hl: "hash_law lib"
    and root: "SplitDomainName lib (canonicalName lib domain) \<noteq> []"
    and salt: "CHR ''-'' \<notin> set (c_NSEC3Salt c)"
    and h: "hashes_ok lib (word_of_int (c_NSEC3Iterations c)) (c_NSEC3Salt c) (chain_names lib domain rs)"
  defines "m \<equiv> newZoneModel lib domain rs"
  shows "verifyNSEC3Expectations lib m (snd (generateNSEC3ChainWithModel lib c m rs ttl))
    [fst (generateNSEC3ChainWithModel lib c m rs ttl)] (word_of_int (c_NSEC3Iterations c)) (c_NSEC3Salt c) = Inr ()"
proof -
  define it :: "16 word" where "it = word_of_int (c_NSEC3Iterations c)"
  define hs where "hs = chain_hashes lib it (c_NSEC3Salt c) (chain_names lib domain rs)"
  define rec where "rec = nsec3_record m (chain_types lib domain rs) it (c_NSEC3Salt c) ttl hs"
  define ix where "ix = map (\<lambda>i. (snd (hs ! i), rec i)) [0..<length hs]"
  have law: "names_law lib" and dom: "name_ok lib domain" using ok by (simp_all add: zone_ok_names_def)
  note spec = chain_hashes_spec [OF h chain_names_spec(1) [OF ok], folded it_def, folded hs_def]
  have chain: "snd (generateNSEC3ChainWithModel lib c m rs ttl) = map rec [0..<length hs]"
    using generated_nsec3_chain [OF ok h] by (simp add: m_def rec_def hs_def it_def)
  have index: "index_nsec3s lib m it (normSalt (c_NSEC3Salt c)) (map rec [0..<length hs]) [] = Inr ix"
    unfolding ix_def rec_def hs_def m_def using generated_nsec3_index [OF ok hl h root] by (simp add: it_def)
  have exp: "expected_hashes lib m it (normSalt (c_NSEC3Salt c)) = hs"
    using expected_hashes_eq [OF hl salt] by (simp add: m_def hs_def)
  have fsts: "map fst ix = map snd hs" by (rule nth_equalityI) (simp_all add: ix_def)
  have "\<not> isOccluded lib m (canonicalName lib domain)"
    by (auto simp: isOccluded_def m_def ancestors_def list_ex_iff)
  then have "canonicalName lib domain \<in> set (authoritativeOwners lib m)"
    using authoritativeOwners_spec(2) [OF ok] apex by (simp add: m_def)
  then have "chain_names lib domain rs \<noteq> []" by (auto simp: chain_names_def m_def Let_def)
  then have ne: "hs \<noteq> []" using spec(1) by auto
  have param: "canonicalName lib (zm_apex m) = zm_apex m" using canonicalName_idem [OF law dom] by (simp add: m_def)
  have miss: "map_of ix (snd e) \<noteq> None" if "e \<in> set hs" for e
    using that fsts by (simp add: map_of_eq_None_iff) (metis image_eqI set_map)
  have check: "check_nsec3 m hs ix i = Inr ()" if i: "i < length hs" for i
  proof -
    have "(snd (hs ! i), rec i) \<in> set ix" using i by (auto simp: ix_def)
    then have look: "map_of ix (snd (hs ! i)) = Some (rec i)"
      using spec(2) fsts by (intro map_of_is_SomeI) simp_all
    have "(i + 1) mod length hs < length hs" using i by (intro mod_less_divisor) auto
    then have "ToUpper (snd (hs ! ((i + 1) mod length hs))) = snd (hs ! ((i + 1) mod length hs))"
      using spec(3) [OF nth_mem] hl unfolding hash_law_def by metis
    moreover have "nsec3_types m (chain_types lib domain rs) (fst (hs ! i)) = denialTypes m (fst (hs ! i)) True"
      unfolding m_def using spec(3) [OF nth_mem [OF i]] clean by (intro nsec3_types_expected [OF ok]) auto
    moreover have "sort (denialTypes m (fst (hs ! i)) True) = denialTypes m (fst (hs ! i)) True"
      unfolding denialTypes_def Let_def by (rule sorted_sort_id) (rule sorted_list_of_set.sorted_sorted_key_list_of_set)
    ultimately show ?thesis using look
      by (simp add: check_nsec3_def case_prod_beta compareTypeBitmap_iff) (simp add: rec_def nsec3_record_def)
  qed
  have "np_Hdr (fst (generateNSEC3ChainWithModel lib c m rs ttl)) =
      \<lparr>h_Name = zm_apex m, h_Rrtype = TypeNSEC3PARAM, h_Class = ClassINET, h_Ttl = 0\<rparr> \<and>
    np_Hash (fst (generateNSEC3ChainWithModel lib c m rs ttl)) = SHA1 \<and>
    np_Flags (fst (generateNSEC3ChainWithModel lib c m rs ttl)) = 0 \<and>
    np_Iterations (fst (generateNSEC3ChainWithModel lib c m rs ttl)) = it \<and>
    np_Salt (fst (generateNSEC3ChainWithModel lib c m rs ttl)) = c_NSEC3Salt c"
    by (simp add: generateNSEC3ChainWithModel_def Let_def it_def)
  then show ?thesis
    unfolding verifyNSEC3Expectations_def Let_def it_def [symmetric] chain exp
    by (simp add: param index exp ne) (simp add: check_each_iff [THEN iffD2] miss fsts check)
qed

end
