(* ===== verification/Signing_Keys.thy ===== *)
theory Signing_Keys
  imports Key_Safety
begin

text \<open>
  The keys a zone is signed with (\<open>loadKeysForSigning\<close> and its checks in
  \<open>signer/internal/signer/sign.go\<close>). The persisted record names the keys: outside a
  rollover the live pair of each role; during a rollover also the old generation, published
  and, depending on the phase, signing.
\<close>

record signing_keys =
  sk_dnskeys :: "dnskey list"
  sk_signingKSKs :: "dnskey list"
  sk_signingKSKPs :: "bytes list"
  sk_signingZSKs :: "dnskey list"
  sk_signingZSKPs :: "bytes list"

definition validateConsistency :: "keylib \<Rightarrow> signing_keys \<Rightarrow> error + unit" where
  "validateConsistency lib k =
     (let published = set (map (KeyTag lib) (sk_dnskeys k)) in
      case check_each (\<lambda>sk. if KeyTag lib sk \<in> published then Inr ()
             else Inl (Msg ''signing KSK keytag is not in the published DNSKEY RRset'')) (sk_signingKSKs k) of
        Inl e \<Rightarrow> Inl e
      | Inr _ \<Rightarrow> check_each (\<lambda>sk. if KeyTag lib sk \<in> published then Inr ()
             else Inl (Msg ''signing ZSK keytag is not in the published DNSKEY RRset'')) (sk_signingZSKs k))"

definition validateAlgorithms :: "signing_keys \<Rightarrow> zone_state \<Rightarrow> error + unit" where
  "validateAlgorithms k z =
     (if (case z_Rollover z of Some r \<Rightarrow> r_Type r = ''algorithm'' | None \<Rightarrow> False) then Inr ()
      else case sk_dnskeys k of
        [] \<Rightarrow> Inr ()
      | k0 # ks \<Rightarrow> check_each (\<lambda>dk. if dk_Algorithm dk \<noteq> dk_Algorithm k0
             then Inl (Msg ''live keys use different algorithms with no algorithm rollover in progress'')
             else Inr ()) ks)"

definition expectedLiveKeyTags :: "zone_state \<Rightarrow> error + 16 word \<times> 16 word" where
  "expectedLiveKeyTags z = (case (z_KSK z, z_ZSK z) of
     (Some ksk, Some zsk) \<Rightarrow>
       Inr (k_ID ksk, case z_Rollover z of
         Some r \<Rightarrow> if r_Type r = ''zsk'' \<and> r_State r = ZSKRolloverStatePrePublish then r_NewKeyID r else k_ID zsk
       | None \<Rightarrow> k_ID zsk)
   | _ \<Rightarrow> Inl (Msg ''zone state names no KSK/ZSK to sign with''))"

text \<open>The additions of each rollover phase to the two live pairs.\<close>

definition add_ksk :: "dnskey \<times> bytes \<Rightarrow> signing_keys \<Rightarrow> signing_keys" where
  "add_ksk kp keys = keys\<lparr>sk_dnskeys := sk_dnskeys keys @ [fst kp],
     sk_signingKSKs := sk_signingKSKs keys @ [fst kp], sk_signingKSKPs := sk_signingKSKPs keys @ [snd kp]\<rparr>"

definition add_zsk :: "dnskey \<times> bytes \<Rightarrow> signing_keys \<Rightarrow> signing_keys" where
  "add_zsk kp keys = keys\<lparr>sk_dnskeys := sk_dnskeys keys @ [fst kp],
     sk_signingZSKs := sk_signingZSKs keys @ [fst kp], sk_signingZSKPs := sk_signingZSKPs keys @ [snd kp]\<rparr>"

definition rollover_keys ::
  "env \<Rightarrow> keylib \<Rightarrow> config \<Rightarrow> string \<Rightarrow> rollover_state \<Rightarrow> signing_keys \<Rightarrow> ('w fs_world_scheme, signing_keys) op" where
  "rollover_keys env lib cfg domain r keys =
     (if r_Type r = ''ksk'' \<and> (r_State r = KSKRolloverStateDSAddWait \<or> r_State r = KSKRolloverStateDSPropagation) then
        op_bind (op_wrap ''loading old KSK for rollover signing'' (LoadKeyPairByID env lib cfg domain ''ksk'' (r_OldKeyID r)))
          (\<lambda>old. op_ok (add_ksk old keys))
      else if r_Type r = ''zsk'' \<and> r_State r = ZSKRolloverStatePrePublish then
        op_bind (op_wrap ''loading old ZSK for pre-publish'' (LoadKeyPairByID env lib cfg domain ''zsk'' (r_OldKeyID r)))
          (\<lambda>old. op_ok (keys\<lparr>sk_dnskeys := sk_dnskeys keys @ [fst old],
             sk_signingZSKs := [fst old], sk_signingZSKPs := [snd old]\<rparr>))
      else if r_Type r = ''zsk'' \<and> r_State r = ZSKRolloverStateSigning then
        op_bind (op_wrap ''loading old ZSK for publish during rollover'' (LoadPublicKeyByID env lib cfg domain ''zsk'' (r_OldKeyID r)))
          (\<lambda>old. op_ok (keys\<lparr>sk_dnskeys := sk_dnskeys keys @ [old]\<rparr>))
      else if r_Type r = ''algorithm'' \<and> r_State r \<noteq> AlgoRolloverStateRetiring then
        op_bind (op_wrap ''loading old-algorithm KSK for rollover'' (LoadKeyPairByID env lib cfg domain ''ksk'' (r_OldKeyID r)))
          (\<lambda>oldK. op_bind (op_wrap ''loading old-algorithm ZSK for rollover'' (LoadKeyPairByID env lib cfg domain ''zsk'' (r_OldZSKID r)))
             (\<lambda>oldZ. op_ok (add_zsk oldZ (add_ksk oldK keys))))
      else op_ok keys)"

definition loadKeysForSigning ::
  "env \<Rightarrow> keylib \<Rightarrow> config \<Rightarrow> string \<Rightarrow> zone_state \<Rightarrow> ('w fs_world_scheme, signing_keys) op" where
  "loadKeysForSigning env lib cfg domain z =
     (case expectedLiveKeyTags z of Inl e \<Rightarrow> op_fail e | Inr (expectedKSK, expectedZSK) \<Rightarrow>
      op_bind (op_wrap ''loading KSK'' (EnsureLiveKey env lib cfg domain ''ksk'' expectedKSK)) (\<lambda>ksk.
      op_bind (op_wrap ''loading ZSK'' (EnsureLiveKey env lib cfg domain ''zsk'' expectedZSK)) (\<lambda>zsk.
      let keys0 = add_zsk zsk (add_ksk ksk \<lparr>sk_dnskeys = [], sk_signingKSKs = [], sk_signingKSKPs = [],
                                           sk_signingZSKs = [], sk_signingZSKPs = []\<rparr>) in
      op_bind (case z_Rollover z of None \<Rightarrow> op_ok keys0 | Some r \<Rightarrow> rollover_keys env lib cfg domain r keys0) (\<lambda>keys.
      op_bind (op_res ''internal key state'' (validateConsistency lib keys)) (\<lambda>_.
      op_bind (op_res ''key algorithms'' (validateAlgorithms keys z)) (\<lambda>_. op_ok keys))))))"

section \<open>The plan\<close>

text \<open>
  The specification: the key tags to publish, to sign the DNSKEY RRset with, and to sign
  everything else with, as the phase demands.
\<close>

definition key_plan :: "zone_state \<Rightarrow> (16 word list \<times> 16 word list \<times> 16 word list) option" where
  "key_plan z = (case (z_KSK z, z_ZSK z) of
     (Some ksk, Some zsk) \<Rightarrow>
       (let k = k_ID ksk; s = k_ID zsk in Some (case z_Rollover z of
          None \<Rightarrow> ([k, s], [k], [s])
        | Some r \<Rightarrow>
            if r_Type r = ''ksk'' \<and> r_State r \<in> {KSKRolloverStateDSAddWait, KSKRolloverStateDSPropagation} then
              ([k, s, r_OldKeyID r], [k, r_OldKeyID r], [s])
            else if r_Type r = ''zsk'' \<and> r_State r = ZSKRolloverStatePrePublish then
              ([k, r_NewKeyID r, r_OldKeyID r], [k], [r_OldKeyID r])
            else if r_Type r = ''zsk'' \<and> r_State r = ZSKRolloverStateSigning then
              ([k, s, r_OldKeyID r], [k], [s])
            else if r_Type r = ''algorithm'' \<and> r_State r \<noteq> AlgoRolloverStateRetiring then
              ([k, s, r_OldKeyID r, r_OldZSKID r], [k, r_OldKeyID r], [s, r_OldZSKID r])
            else ([k, s], [k], [s])))
   | _ \<Rightarrow> None)"

text \<open>A pair that may sign in a role for a domain.\<close>

definition pair_ok :: "keylib \<Rightarrow> string \<Rightarrow> string \<Rightarrow> dnskey \<times> bytes \<Rightarrow> bool" where
  "pair_ok lib domain kt kp \<longleftrightarrow>
     VerifyKeyPairCorrespondence lib (fst kp) (snd kp) = Inr () \<and> validateLoadedKey lib (fst kp) domain kt = Inr ()"

text \<open>
  A set of signing keys follows a plan: its tags are the plan's, every signing key is published
  and every signing pair belongs to its role.
\<close>

definition follows :: "keylib \<Rightarrow> string \<Rightarrow> 16 word list \<times> 16 word list \<times> 16 word list \<Rightarrow> signing_keys \<Rightarrow> bool" where
  "follows lib domain plan k \<longleftrightarrow> (case plan of (pub, ksks, zsks) \<Rightarrow>
     map (KeyTag lib) (sk_dnskeys k) = pub \<and>
     map (KeyTag lib) (sk_signingKSKs k) = ksks \<and> map (KeyTag lib) (sk_signingZSKs k) = zsks \<and>
     length (sk_signingKSKPs k) = length (sk_signingKSKs k) \<and> length (sk_signingZSKPs k) = length (sk_signingZSKs k) \<and>
     set (sk_signingKSKs k) \<union> set (sk_signingZSKs k) \<subseteq> set (sk_dnskeys k) \<and>
     list_all (pair_ok lib domain ''ksk'') (zip (sk_signingKSKs k) (sk_signingKSKPs k)) \<and>
     list_all (pair_ok lib domain ''zsk'') (zip (sk_signingZSKs k) (sk_signingZSKPs k)))"

section \<open>What loading yields\<close>

lemma verified_pair_ok: "verified_at lib w base domain kt = Some kp \<Longrightarrow> pair_ok lib domain kt kp"
  by (auto simp: verified_at_def pair_ok_def split: option.splits sum.splits if_splits)

lemma EnsureLiveKey_pair:
  "EnsureLiveKey env lib cfg domain kt expected w = (Inr kp, w') \<Longrightarrow>
   pair_ok lib domain kt kp \<and> KeyTag lib (fst kp) = expected"
  using EnsureLiveKey_Inr verified_pair_ok by blast

lemma LoadKeyPairByID_Inr:
  assumes "LoadKeyPairByID env lib cfg domain kt tag w = (Inr kp, w')"
  shows "pair_ok lib domain kt kp \<and> KeyTag lib (fst kp) = tag"
proof -
  obtain w1 where l: "loadVerifiedPair env lib (taggedBase cfg domain kt tag) domain kt w = (Inr kp, w1)"
    and t: "KeyTag lib (fst kp) = tag"
    using assms by (auto simp: LoadKeyPairByID_def step_Inr checkKeyTag_def
        split: if_splits)
  then show ?thesis using loadVerifiedPair_Inr [OF l] verified_pair_ok by blast
qed

lemma LoadPublicKeyByID_Inr:
  assumes "LoadPublicKeyByID env lib cfg domain kt tag w = (Inr k, w')"
  shows "validateLoadedKey lib k domain kt = Inr () \<and> KeyTag lib k = tag"
  using assms by (auto simp: LoadPublicKeyByID_def step_Inr checkKeyTag_def split: if_splits)

text \<open>Each addition extends the plan it follows.\<close>

lemma follows_add_ksk:
  "follows lib domain (pub, ks, zs) keys \<Longrightarrow> pair_ok lib domain ''ksk'' kp \<Longrightarrow>
   follows lib domain (pub @ [KeyTag lib (fst kp)], ks @ [KeyTag lib (fst kp)], zs) (add_ksk kp keys)"
  by (auto simp: follows_def add_ksk_def zip_append)

lemma follows_add_zsk:
  "follows lib domain (pub, ks, zs) keys \<Longrightarrow> pair_ok lib domain ''zsk'' kp \<Longrightarrow>
   follows lib domain (pub @ [KeyTag lib (fst kp)], ks, zs @ [KeyTag lib (fst kp)]) (add_zsk kp keys)"
  by (auto simp: follows_def add_zsk_def zip_append)

lemma follows_replace_zsk:
  "follows lib domain (pub, ks, zs) keys \<Longrightarrow> pair_ok lib domain ''zsk'' kp \<Longrightarrow>
   follows lib domain (pub @ [KeyTag lib (fst kp)], ks, [KeyTag lib (fst kp)])
     (keys\<lparr>sk_dnskeys := sk_dnskeys keys @ [fst kp], sk_signingZSKs := [fst kp], sk_signingZSKPs := [snd kp]\<rparr>)"
  by (auto simp: follows_def)

lemma follows_publish:
  "follows lib domain (pub, ks, zs) keys \<Longrightarrow>
   follows lib domain (pub @ [KeyTag lib k], ks, zs) (keys\<lparr>sk_dnskeys := sk_dnskeys keys @ [k]\<rparr>)"
  by (auto simp: follows_def)

lemmas follows_steps = follows_add_ksk follows_add_zsk follows_replace_zsk follows_publish

lemma rollover_keys_follows:
  assumes run: "rollover_keys env lib cfg domain r keys w = (Inr keys', w')"
    and z: "z_KSK z = Some ksk" "z_ZSK z = Some zsk" "z_Rollover z = Some r"
    and keys: "follows lib domain ([k_ID ksk, live], [k_ID ksk], [live]) keys"
    and live: "expectedLiveKeyTags z = Inr (k_ID ksk, live)"
  shows "\<exists>plan. key_plan z = Some plan \<and> follows lib domain plan keys'"
proof -
  have lv: "live = (if r_Type r = ''zsk'' \<and> r_State r = ZSKRolloverStatePrePublish then r_NewKeyID r else k_ID zsk)"
    using live z by (simp add: expectedLiveKeyTags_def)
  consider (ksk) "r_Type r = ''ksk''" "r_State r = KSKRolloverStateDSAddWait \<or> r_State r = KSKRolloverStateDSPropagation"
    | (pre) "r_Type r = ''zsk''" "r_State r = ZSKRolloverStatePrePublish"
    | (sig) "r_Type r = ''zsk''" "r_State r = ZSKRolloverStateSigning"
    | (algo) "r_Type r = ''algorithm''" "r_State r \<noteq> AlgoRolloverStateRetiring"
    | (other) "\<not> (r_Type r = ''ksk'' \<and> (r_State r = KSKRolloverStateDSAddWait \<or> r_State r = KSKRolloverStateDSPropagation))"
      "\<not> (r_Type r = ''zsk'' \<and> r_State r = ZSKRolloverStatePrePublish)"
      "\<not> (r_Type r = ''zsk'' \<and> r_State r = ZSKRolloverStateSigning)"
      "\<not> (r_Type r = ''algorithm'' \<and> r_State r \<noteq> AlgoRolloverStateRetiring)"
    by blast
  then show ?thesis
  proof cases
    case ksk
    then obtain old w1 where "LoadKeyPairByID env lib cfg domain ''ksk'' (r_OldKeyID r) w = (Inr old, w1)"
      "keys' = add_ksk old keys" using run by (auto simp: rollover_keys_def step_Inr)
    moreover have "key_plan z = Some ([k_ID ksk, k_ID zsk, r_OldKeyID r], [k_ID ksk, r_OldKeyID r], [k_ID zsk])"
      using ksk by (simp add: key_plan_def z Let_def)
    ultimately show ?thesis using follows_add_ksk [OF keys, of old] LoadKeyPairByID_Inr [of env lib cfg domain _ "r_OldKeyID r" w old w1] lv ksk
      by auto
  next
    case pre
    then obtain old w1 where "LoadKeyPairByID env lib cfg domain ''zsk'' (r_OldKeyID r) w = (Inr old, w1)"
      "keys' = keys\<lparr>sk_dnskeys := sk_dnskeys keys @ [fst old], sk_signingZSKs := [fst old], sk_signingZSKPs := [snd old]\<rparr>"
      using run by (auto simp: rollover_keys_def step_Inr)
    moreover have "key_plan z = Some ([k_ID ksk, r_NewKeyID r, r_OldKeyID r], [k_ID ksk], [r_OldKeyID r])"
      using pre by (simp add: key_plan_def z Let_def)
    ultimately show ?thesis using follows_replace_zsk [OF keys, of old] LoadKeyPairByID_Inr [of env lib cfg domain _ "r_OldKeyID r" w old w1] lv pre
      by auto
  next
    case sig
    then obtain old w1 where "LoadPublicKeyByID env lib cfg domain ''zsk'' (r_OldKeyID r) w = (Inr old, w1)"
      "keys' = keys\<lparr>sk_dnskeys := sk_dnskeys keys @ [old]\<rparr>"
      using run by (auto simp: rollover_keys_def step_Inr)
    moreover have "key_plan z = Some ([k_ID ksk, k_ID zsk, r_OldKeyID r], [k_ID ksk], [k_ID zsk])"
      using sig by (simp add: key_plan_def z Let_def)
    ultimately show ?thesis using follows_publish [OF keys, of old] LoadPublicKeyByID_Inr [of env lib cfg domain _ "r_OldKeyID r" w old w1] lv sig
      by auto
  next
    case algo
    then obtain oldK oldZ w1 w2 where
      old: "LoadKeyPairByID env lib cfg domain ''ksk'' (r_OldKeyID r) w = (Inr oldK, w1)"
        "LoadKeyPairByID env lib cfg domain ''zsk'' (r_OldZSKID r) w1 = (Inr oldZ, w2)"
      and k: "keys' = add_zsk oldZ (add_ksk oldK keys)" using run by (auto simp: rollover_keys_def step_Inr)
    have "follows lib domain (([k_ID ksk, live] @ [KeyTag lib (fst oldK)]) @ [KeyTag lib (fst oldZ)],
        [k_ID ksk] @ [KeyTag lib (fst oldK)], [live] @ [KeyTag lib (fst oldZ)]) keys'"
      unfolding k using keys old LoadKeyPairByID_Inr by (intro follows_add_zsk follows_add_ksk) blast+
    then show ?thesis using lv algo z LoadKeyPairByID_Inr [OF old(1)] LoadKeyPairByID_Inr [OF old(2)]
      by (simp add: key_plan_def Let_def)
  next
    case other
    have "keys' = keys" using run by (simp only: rollover_keys_def other if_False op_ok_apply) simp
    moreover have "key_plan z = Some ([k_ID ksk, k_ID zsk], [k_ID ksk], [k_ID zsk])"
      using other by (simp add: key_plan_def z Let_def)
    ultimately show ?thesis using keys lv other by auto
  qed
qed

lemma loadKeysForSigning_follows:
  assumes run: "loadKeysForSigning env lib cfg domain z w = (Inr keys, w')"
  shows "\<exists>plan. key_plan z = Some plan \<and> follows lib domain plan keys"
    and "validateAlgorithms keys z = Inr ()"
proof -
  let ?k0 = "\<lparr>sk_dnskeys = [], sk_signingKSKs = [], sk_signingKSKPs = [], sk_signingZSKs = [], sk_signingZSKPs = []\<rparr>"
  obtain ek ez where e: "expectedLiveKeyTags z = Inr (ek, ez)"
    using run by (cases "expectedLiveKeyTags z") (auto simp: loadKeysForSigning_def)
  then obtain ksk zsk where z: "z_KSK z = Some ksk" "z_ZSK z = Some zsk" "ek = k_ID ksk"
    by (auto simp: expectedLiveKeyTags_def split: option.splits)
  obtain kk w1 zk w2 w3 where
      kk: "EnsureLiveKey env lib cfg domain ''ksk'' ek w = (Inr kk, w1)" and
      zk: "EnsureLiveKey env lib cfg domain ''zsk'' ez w1 = (Inr zk, w2)" and
      roll: "(case z_Rollover z of None \<Rightarrow> op_ok (add_zsk zk (add_ksk kk ?k0))
        | Some r \<Rightarrow> rollover_keys env lib cfg domain r (add_zsk zk (add_ksk kk ?k0))) w2 = (Inr keys, w3)" and
      alg: "validateAlgorithms keys z = Inr ()"
    using run e by (auto simp: loadKeysForSigning_def step_Inr Let_def)
  have "follows lib domain ([], [], []) ?k0" by (simp add: follows_def)
  from follows_add_zsk [OF follows_add_ksk [OF this, of kk], of zk]
  have base: "follows lib domain ([k_ID ksk, ez], [k_ID ksk], [ez]) (add_zsk zk (add_ksk kk ?k0))"
    using EnsureLiveKey_pair [OF kk] EnsureLiveKey_pair [OF zk] z(3) by auto
  show "\<exists>plan. key_plan z = Some plan \<and> follows lib domain plan keys"
  proof (cases "z_Rollover z")
    case None
    then show ?thesis using roll base e z by (auto simp: key_plan_def expectedLiveKeyTags_def Let_def)
  next
    case (Some r)
    then show ?thesis using roll e z base by (intro rollover_keys_follows [of env lib cfg domain r _ w2]) auto
  qed
  show "validateAlgorithms keys z = Inr ()" by (rule alg)
qed

lemma validateAlgorithms_one:
  assumes "validateAlgorithms keys z = Inr ()" and "\<And>r. z_Rollover z = Some r \<Longrightarrow> r_Type r \<noteq> ''algorithm''"
    and "a \<in> set (sk_dnskeys keys)" and "b \<in> set (sk_dnskeys keys)"
  shows "dk_Algorithm a = dk_Algorithm b"
proof (cases "sk_dnskeys keys")
  case (Cons k0 ks)
  have "dk_Algorithm x = dk_Algorithm k0" if "x \<in> set (sk_dnskeys keys)" for x
    using assms(1,2) that Cons
    by (cases "z_Rollover z") (auto simp: validateAlgorithms_def check_each_iff split: if_splits)
  then show ?thesis using assms(3,4) by metis
qed (use assms in simp)

end
