(* ===== verification/Serials.thy ===== *)
theory Serials
  imports Signer_Config
begin

text \<open>
  Serial-number arithmetic of \<open>signer/internal/signer/sign.go\<close>: the comparison of SOA
  serials, the serial a signed zone is published with, the check of an imported serial, and the
  placement of 32-bit signature times on the absolute time line.
\<close>

section \<open>Unix time\<close>

text \<open>
  A time counts nanoseconds from year 1; \<open>Unix\<close> is \<open>time.Time.Unix\<close> and
  \<open>time_Unix\<close> is \<open>time.Unix(s, 0)\<close>. The conversion \<open>uint32(t.Unix())\<close>
  keeps the low 32 bits.
\<close>

definition unixToInternal :: int where "unixToInternal = 62135596800"

definition Unix :: "gotime \<Rightarrow> int" where
  "Unix t = t div Second - unixToInternal"

definition time_Unix :: "int \<Rightarrow> gotime" where
  "time_Unix s = (s + unixToInternal) * Second"

abbreviation unix32 :: "gotime \<Rightarrow> 32 word" where
  "unix32 t \<equiv> word_of_int (Unix t)"

lemma Unix_time_Unix [simp]: "Unix (time_Unix s) = s"
  by (simp add: Unix_def time_Unix_def Second_def)

section \<open>Comparison\<close>

definition serialGt :: "32 word \<Rightarrow> 32 word \<Rightarrow> bool" where
  "serialGt a b \<longleftrightarrow> b < a \<and> a - b < 2 ^ 31 \<or> a < b \<and> 2 ^ 31 < b - a"

text \<open>RFC 1982: \<open>a\<close> is ahead of \<open>b\<close> by less than half the circle.\<close>

lemma uint_diff32: "uint (a - b :: 32 word) = (uint a - uint b) mod 2 ^ 32"
  by (simp add: uint_word_ariths)

lemma uint_diff_cases:
  fixes a b :: "32 word"
  shows "uint (a - b) = (if uint b \<le> uint a then uint a - uint b else uint a - uint b + 2 ^ 32)"
proof -
  have a: "0 \<le> uint a" "uint a < 2 ^ 32" and b: "0 \<le> uint b" "uint b < 2 ^ 32"
    using uint_bounded [of a] uint_bounded [of b] by simp_all
  show ?thesis
  proof (cases "uint b \<le> uint a")
    case True
    then have "(uint a - uint b) mod 2 ^ 32 = uint a - uint b"
      using a b by (intro mod_pos_pos_trivial) linarith+
    with True show ?thesis by (simp add: uint_diff32)
  next
    case False
    then have "(uint a - uint b + 2 ^ 32) mod 2 ^ 32 = uint a - uint b + 2 ^ 32"
      using a b by (intro mod_pos_pos_trivial) linarith+
    with False show ?thesis by (simp add: uint_diff32)
  qed
qed

lemma serialGt_iff: "serialGt a b \<longleftrightarrow> 0 < uint (a - b) \<and> uint (a - b) < 2 ^ 31"
proof -
  obtain x y where xy: "x = uint a" "y = uint b" "0 \<le> x" "x < 2 ^ 32" "0 \<le> y" "y < 2 ^ 32"
    using uint_bounded [of a] uint_bounded [of b] by simp
  have "uint (2 ^ 31 :: 32 word) = 2 ^ 31" by simp
  then show ?thesis
    unfolding serialGt_def word_less_def uint_diff_cases xy(1,2) [symmetric] using xy(3-) by auto
qed

lemma serialGt_irrefl [simp]: "\<not> serialGt a a"
  by (simp add: serialGt_iff)

lemma serialGt_asym: "serialGt a b \<Longrightarrow> \<not> serialGt b a"
  using uint_bounded [of a] uint_bounded [of b]
  by (auto simp: serialGt_iff uint_diff_cases split: if_splits)

lemma serialGt_Suc [simp]: "serialGt (a + 1) a"
  by (simp add: serialGt_iff)

lemma serialGt_window:
  assumes "\<bar>uint a - uint b\<bar> < 2 ^ 31"
  shows "serialGt a b \<longleftrightarrow> uint b < uint a"
  using assms by (auto simp: serialGt_iff uint_diff_cases)

section \<open>The published serial\<close>

definition epochSerialFloor :: "32 word" where "epochSerialFloor = 946684800"

definition nextPublishedSerial ::
  "string \<Rightarrow> string \<Rightarrow> 32 word \<Rightarrow> 32 word \<Rightarrow> gotime \<Rightarrow> error + 32 word" where
  "nextPublishedSerial domain policy serial previous now =
     (if policy \<noteq> ''epoch'' then Inr serial else
      let nowSerial = unix32 now in
      if serial < epochSerialFloor \<or> nowSerial + 86400 < serial then
        Inl (Msg (''zone '' @ domain @ '': serial_policy epoch requires a unix epoch SOA serial''))
      else
        let next1 = (if \<not> serialGt nowSerial serial then serial + 1 else nowSerial);
            next2 = (if previous \<noteq> 0 \<and> \<not> serialGt next1 previous then previous + 1 else next1)
        in Inr next2)"

fun check_served :: "32 word \<Rightarrow> string \<Rightarrow> 32 word list \<Rightarrow> error + 32 word" where
  "check_served projected policy [] = Inr projected"
| "check_served projected policy (current # served) =
     (if serialGt projected current then check_served projected policy served
      else if policy = ''epoch'' then
        Inl (Msg ''projected SOA serial does not advance the currently served serial'')
      else Inl (Msg ''source SOA serial does not advance the currently served serial''))"

definition ValidateImportSerial ::
  "string \<Rightarrow> string \<Rightarrow> 32 word \<Rightarrow> 32 word list \<Rightarrow> gotime \<Rightarrow> error + 32 word" where
  "ValidateImportSerial domain policy source served now =
     (case nextPublishedSerial domain policy source 0 now of
        Inl e \<Rightarrow> Inl e
      | Inr projected \<Rightarrow> check_served projected policy served)"

lemma check_served_Inr:
  "check_served p policy served = Inr s \<longleftrightarrow> s = p \<and> (\<forall>c \<in> set served. serialGt p c)"
  by (induction p policy served rule: check_served.induct) auto

lemma ValidateImportSerial_Inr:
  "ValidateImportSerial domain policy source served now = Inr s \<longleftrightarrow>
     nextPublishedSerial domain policy source 0 now = Inr s \<and> (\<forall>c \<in> set served. serialGt s c)"
  by (auto simp: ValidateImportSerial_def check_served_Inr split: sum.splits)

lemma nextPublishedSerial_keep:
  "policy \<noteq> ''epoch'' \<Longrightarrow> nextPublishedSerial domain policy serial previous now = Inr serial"
  by (simp add: nextPublishedSerial_def)

lemma epoch_next_gt_previous:
  assumes "nextPublishedSerial domain ''epoch'' serial previous now = Inr next" and "previous \<noteq> 0"
  shows "serialGt next previous"
  using assms by (auto simp: nextPublishedSerial_def Let_def split: if_splits)

lemma epoch_next_gt_serial:
  assumes "nextPublishedSerial domain ''epoch'' serial 0 now = Inr next"
  shows "serialGt next serial"
  using assms by (auto simp: nextPublishedSerial_def Let_def split: if_splits)

text \<open>Inside one half of the circle the result is the maximum the documentation names.\<close>

lemma uint_plus1: "uint (a :: 32 word) < 2 ^ 32 - 1 \<Longrightarrow> uint (a + 1) = uint a + 1"
proof -
  assume "uint a < 2 ^ 32 - 1"
  then have "(uint a + 1) mod 2 ^ 32 = uint a + 1" by (intro mod_pos_pos_trivial) auto
  then show ?thesis by (simp add: uint_word_ariths)
qed

lemma epoch_next_max:
  assumes ok: "nextPublishedSerial domain ''epoch'' serial previous now = Inr next"
    and near: "\<bar>uint (unix32 now) - uint serial\<bar> < 2 ^ 31 - 1"
      "previous \<noteq> 0 \<Longrightarrow> \<bar>uint (unix32 now) - uint previous\<bar> < 2 ^ 31 - 1"
      "previous \<noteq> 0 \<Longrightarrow> \<bar>uint serial - uint previous\<bar> < 2 ^ 31 - 1"
    and room: "uint serial < 2 ^ 32 - 1" "uint previous < 2 ^ 32 - 1"
  shows "uint next = max (max (uint (unix32 now)) (uint serial + 1))
                         (if previous = 0 then 0 else uint previous + 1)"
proof -
  let ?n = "unix32 now"
  define next1 where "next1 = (if \<not> serialGt ?n serial then serial + 1 else ?n)"
  have gt: "serialGt ?n serial \<longleftrightarrow> uint serial < uint ?n"
    using near(1) by (intro serialGt_window) simp
  have n1: "uint next1 = max (uint ?n) (uint serial + 1)"
    unfolding next1_def gt using uint_plus1 [OF room(1)] by auto
  have "next = (if previous \<noteq> 0 \<and> \<not> serialGt next1 previous then previous + 1 else next1)"
    using ok unfolding nextPublishedSerial_def Let_def next1_def by (auto split: if_splits)
  moreover have "serialGt next1 previous \<longleftrightarrow> uint previous < uint next1" if "previous \<noteq> 0"
    using near(2,3) [OF that] n1 by (intro serialGt_window) auto
  moreover have "0 \<le> uint next1" by simp
  ultimately show ?thesis using n1 uint_plus1 [OF room(2)] by auto
qed

section \<open>Signature times\<close>

text \<open>\<open>int64(int32(x))\<close> of an unsigned difference is its signed value.\<close>

definition serialTime :: "32 word \<Rightarrow> gotime \<Rightarrow> gotime" where
  "serialTime serial ref = time_Unix (Unix ref + sint (serial - unix32 ref))"

lemma word_of_int_sint32: "word_of_int (sint x) = (x :: 32 word)"
  by simp

lemma unix32_serialTime [simp]: "unix32 (serialTime s ref) = s"
  by (simp add: serialTime_def flip: wi_hom_add)

lemma serialTime_near:
  "- (2 ^ 31) \<le> Unix (serialTime s ref) - Unix ref \<and> Unix (serialTime s ref) - Unix ref < 2 ^ 31"
  using sint_greater_eq [of "s - unix32 ref"] sint_less [of "s - unix32 ref"]
  by (simp add: serialTime_def)

text \<open>It is the only instant with that serial within half the circle of the reference.\<close>

lemma serialTime_unique:
  assumes "word_of_int t = s" and "- (2 ^ 31) \<le> t - Unix ref" and "t - Unix ref < 2 ^ 31"
  shows "Unix (serialTime s ref) = t"
proof -
  have "s - unix32 ref = word_of_int (t - Unix ref)" using assms(1) by simp
  moreover have "sint (word_of_int (t - Unix ref) :: 32 word) = t - Unix ref"
    unfolding sint_sbintrunc' using assms(2,3) by (intro signed_take_bit_int_eq_self) simp_all
  ultimately show ?thesis by (simp add: serialTime_def)
qed

end
