(* ===== verification/Zone_Signatures.thy ===== *)
theory Zone_Signatures
  imports Nsec3_Chain Signing_Keys Serials
begin

text \<open>
  The signatures of a zone (\<open>signer/internal/signer/sign.go\<close>): their creation
  (\<open>signRecordsWithModel\<close>, \<open>createRRSIG\<close>, \<open>signRRSIG\<close>), the window check,
  and the verification of the complete signed zone before it may replace the published one
  (\<open>verifySignedZoneWithModel\<close>). The signature algorithms and the wire format of the DNS
  library are fields of \<open>siglib\<close>.
\<close>

section \<open>The signature library\<close>

datatype signer_key = EdSeed bytes | EcScalar curve bytes | RsaKey rsa_private

text \<open>
  \<open>Sign\<close> is \<open>RRSIG.Sign\<close>, which fills in the signature and recomputes the label
  count; \<open>Verify\<close> and \<open>ValidityPeriod\<close> are the methods of those names,
  \<open>ParseZone\<close> is the zone parser (the records up to the first error, and whether there
  was one), \<open>RRString\<close> the presentation of a record, and \<open>SHA256Hex\<close> the digest.
\<close>

record siglib =
  dlib :: dnslib
  Sign :: "rrsig \<Rightarrow> signer_key \<Rightarrow> rr list \<Rightarrow> rrsig option"
  Verify :: "rrsig \<Rightarrow> dnskey \<Rightarrow> rr list \<Rightarrow> bool"
  ValidityPeriod :: "rrsig \<Rightarrow> gotime \<Rightarrow> bool"
  ParseZone :: "string \<Rightarrow> string \<Rightarrow> bytes \<Rightarrow> rr list \<times> bool"
  RRString :: "rr \<Rightarrow> string"
  SHA256Hex :: "bytes \<Rightarrow> string"

section \<open>Creation\<close>

definition rrsigLabels :: "dnslib \<Rightarrow> string \<Rightarrow> 8 word" where
  "rrsigLabels lib name =
     (let canon = canonicalName lib name; labels = int (CountLabel lib canon) in
      word_of_int (if canon = ''*.'' \<or> has_prefix canon ''*.'' then labels - 1 else labels))"

definition createRRSIG ::
  "siglib \<Rightarrow> rr list \<Rightarrow> dnskey \<Rightarrow> string \<Rightarrow> gotime \<Rightarrow> gotime \<Rightarrow> rrsig" where
  "createRRSIG lib rrset signingKey domain inception expiration =
     (let h = Header (hd rrset) in
      \<lparr>sig_Hdr = \<lparr>h_Name = h_Name h, h_Rrtype = TypeRRSIG, h_Class = ClassINET, h_Ttl = h_Ttl h\<rparr>,
       sig_TypeCovered = h_Rrtype h, sig_Algorithm = dk_Algorithm signingKey,
       sig_Labels = rrsigLabels (dlib lib) (h_Name h), sig_OrigTtl = h_Ttl h,
       sig_Expiration = unix32 expiration, sig_Inception = unix32 inception,
       sig_KeyTag = KeyTag (klib (dlib lib)) signingKey, sig_SignerName = Fqdn (klib (dlib lib)) domain,
       sig_Signature = []\<rparr>)"

definition call_Sign :: "siglib \<Rightarrow> rrsig \<Rightarrow> signer_key \<Rightarrow> rr list \<Rightarrow> error + rrsig" where
  "call_Sign lib sig k rrset = (case Sign lib sig k rrset of None \<Rightarrow> Inl (Msg ''sign'') | Some s \<Rightarrow> Inr s)"

definition signRRSIGWithAlgorithm :: "siglib \<Rightarrow> rrsig \<Rightarrow> rr list \<Rightarrow> dnskey \<Rightarrow> bytes \<Rightarrow> error + rrsig" where
  "signRRSIGWithAlgorithm lib sig rrset key privateKey =
     (if dk_Algorithm key = ED25519 then
        if length privateKey = 32 then call_Sign lib sig (EdSeed privateKey) rrset
        else if length privateKey = 64 then call_Sign lib sig (EdSeed (take 32 privateKey)) rrset
        else Inl (Msg ''invalid ED25519 private key length'')
      else if dk_Algorithm key = ECDSAP256SHA256 then
        if length privateKey \<noteq> 32 then Inl (Msg ''invalid ECDSA P-256 private key length'')
        else call_Sign lib sig (EcScalar P256 privateKey) rrset
      else if dk_Algorithm key = ECDSAP384SHA384 then
        if length privateKey \<noteq> 48 then Inl (Msg ''invalid ECDSA P-384 private key length'')
        else call_Sign lib sig (EcScalar P384 privateKey) rrset
      else if dk_Algorithm key = RSASHA256 \<or> dk_Algorithm key = RSASHA512 then
        (case rsaPrivateKeyFromBytes (klib (dlib lib)) privateKey of
           Inl e \<Rightarrow> Inl e | Inr rsaKey \<Rightarrow> call_Sign lib sig (RsaKey rsaKey) rrset)
      else Inl (Msg ''unsupported algorithm''))"

definition signRRSIG :: "siglib \<Rightarrow> rrsig \<Rightarrow> rr list \<Rightarrow> dnskey \<Rightarrow> bytes \<Rightarrow> error + rrsig" where
  "signRRSIG lib sig rrset key privateKey =
     (case signRRSIGWithAlgorithm lib sig rrset key privateKey of
        Inl e \<Rightarrow> Inl e
      | Inr s \<Rightarrow> if sig_Labels s \<noteq> sig_Labels sig then Inl (Msg ''signing library set other Labels'') else Inr s)"

text \<open>One RRset signed with every key of a list of pairs, in order.\<close>

fun sign_with ::
  "siglib \<Rightarrow> string \<Rightarrow> gotime \<Rightarrow> gotime \<Rightarrow> rr list \<Rightarrow> (dnskey \<times> bytes) list \<Rightarrow> error + rrsig list" where
  "sign_with lib domain inception expiration rrset [] = Inr []"
| "sign_with lib domain inception expiration rrset ((k, priv) # ks) =
     (case signRRSIG lib (createRRSIG lib rrset k domain inception expiration) rrset k priv of
        Inl e \<Rightarrow> Inl (Wrap ''signing RRset'' e)
      | Inr s \<Rightarrow> (case sign_with lib domain inception expiration rrset ks of
          Inl e \<Rightarrow> Inl e | Inr ss \<Rightarrow> Inr (s # ss)))"

definition rrset_key_less :: "dnslib \<Rightarrow> rrset_key \<Rightarrow> rrset_key \<Rightarrow> bool" where
  "rrset_key_less lib a b = (if fst a \<noteq> fst b then canonicalLess lib (fst a) (fst b) else snd a < snd b)"

definition sortedRRsetKeys :: "dnslib \<Rightarrow> (rrset_key, rr list) gomap \<Rightarrow> rrset_key list" where
  "sortedRRsetKeys lib rrsets = sort_slice (rrset_key_less lib) (map fst rrsets)"

definition lookup_rrset :: "(rrset_key, rr list) gomap \<Rightarrow> rrset_key \<Rightarrow> rr list" where
  "lookup_rrset rrsets k = (case map_of rrsets k of None \<Rightarrow> [] | Some rs \<Rightarrow> rs)"

definition signing_pairs :: "signing_keys \<Rightarrow> 16 word \<Rightarrow> (dnskey \<times> bytes) list" where
  "signing_pairs keys rrtype =
     (if rrtype = TypeDNSKEY then zip (sk_signingKSKs keys) (sk_signingKSKPs keys)
      else zip (sk_signingZSKs keys) (sk_signingZSKPs keys))"

fun sign_sets ::
  "siglib \<Rightarrow> zone_model \<Rightarrow> string \<Rightarrow> gotime \<Rightarrow> gotime \<Rightarrow> signing_keys \<Rightarrow>
   (rrset_key, rr list) gomap \<Rightarrow> rrset_key list \<Rightarrow> error + rrsig list" where
  "sign_sets lib m domain inception expiration keys rrsets [] = Inr []"
| "sign_sets lib m domain inception expiration keys rrsets (k # ks) =
     (let rrset = lookup_rrset rrsets k in
      if rrset = [] \<or> \<not> signable (dlib lib) m (fst k) (snd k) then
        sign_sets lib m domain inception expiration keys rrsets ks
      else case sign_with lib domain inception expiration (canonicalRRset (dlib lib) rrset) (signing_pairs keys (snd k)) of
          Inl e \<Rightarrow> Inl e
        | Inr ss \<Rightarrow> (case sign_sets lib m domain inception expiration keys rrsets ks of
            Inl e \<Rightarrow> Inl e | Inr ss' \<Rightarrow> Inr (ss @ ss')))"

text \<open>\<open>now\<close> is the one clock reading of the pass.\<close>

definition signRecordsWithModel ::
  "siglib \<Rightarrow> config \<Rightarrow> gotime \<Rightarrow> zone_model \<Rightarrow> string \<Rightarrow> rr list \<Rightarrow> signing_keys \<Rightarrow> error + rr list" where
  "signRecordsWithModel lib cfg now m domain records keys =
     (let rrsets = fst (groupRRsets (dlib lib) records);
          inception = now - SignatureInceptionBackdate;
          expiration = now + c_SignatureValidity (DNSSEC cfg) in
      case sign_sets lib m domain inception expiration keys rrsets (sortedRRsetKeys (dlib lib) rrsets) of
        Inl e \<Rightarrow> Inl e
      | Inr sigs \<Rightarrow> Inr (records @ map RRSIG sigs))"

section \<open>The window check\<close>

definition signingWindowTolerance :: duration where "signingWindowTolerance = 10 * Minute"

definition checkRRSIGWindow :: "siglib \<Rightarrow> config \<Rightarrow> rrsig \<Rightarrow> gotime \<Rightarrow> error + unit" where
  "checkRRSIGWindow lib cfg sig now =
     (if \<not> ValidityPeriod lib sig now then Inl (Msg ''RRSIG is not currently valid'') else
      let validity = c_SignatureValidity (DNSSEC cfg);
          tol = trunc_div signingWindowTolerance Second;
          span = uint (sig_Expiration sig - sig_Inception sig);
          wantSpan = trunc_div (wrap64 (SignatureInceptionBackdate + validity)) Second in
      if span \<le> 0 \<or> 2 ^ 31 \<le> span then Inl (Msg ''RRSIG has a wrapped validity window'')
      else if tol < span - wantSpan \<or> tol < wantSpan - span then Inl (Msg ''RRSIG has an unexpected validity window'')
      else let d = sint (sig_Inception sig - unix32 (now - SignatureInceptionBackdate)) in
      if tol < d \<or> tol < - d then Inl (Msg ''RRSIG has another inception'')
      else let d = sint (sig_Expiration sig - unix32 (now + validity)) in
      if tol < d \<or> tol < - d then Inl (Msg ''RRSIG has another expiration'')
      else Inr ())"

fun earliest_from :: "gotime \<Rightarrow> rr list \<Rightarrow> gotime \<Rightarrow> gotime" where
  "earliest_from now [] earliest = earliest"
| "earliest_from now (RRSIG sig # rs) earliest =
     (let exp = serialTime (sig_Expiration sig) now in
      earliest_from now rs (if earliest = 0 \<or> exp < earliest then exp else earliest))"
| "earliest_from now (r # rs) earliest = earliest_from now rs earliest"

definition earliestRRSIGExpiration :: "gotime \<Rightarrow> rr list \<Rightarrow> gotime" where
  "earliestRRSIGExpiration now records = earliest_from now records 0"

section \<open>Verification of the signed zone\<close>

text \<open>
  The signatures that verified: the RRset, the algorithm and the role of the key (true for a
  KSK).
\<close>

type_synonym coverage = "(rrset_key \<times> 8 word \<times> bool) list"

definition find_signer :: "siglib \<Rightarrow> signing_keys \<Rightarrow> rrsig \<Rightarrow> rr list \<Rightarrow> dnskey option" where
  "find_signer lib keys sig rrs =
     List.find (\<lambda>dk. KeyTag (klib (dlib lib)) dk = sig_KeyTag sig \<and>
                     dk_Algorithm dk = sig_Algorithm sig \<and> Verify lib sig dk rrs) (sk_dnskeys keys)"

definition verify_sig ::
  "siglib \<Rightarrow> config \<Rightarrow> gotime \<Rightarrow> signing_keys \<Rightarrow> (rrset_key, rr list) gomap \<Rightarrow> rrsig \<Rightarrow>
   error + rrset_key \<times> 8 word \<times> bool" where
  "verify_sig lib cfg now keys rrsets sig =
     (let k = (canonicalName (dlib lib) (h_Name (sig_Hdr sig)), sig_TypeCovered sig);
          rrset = lookup_rrset rrsets k in
      if rrset = [] then Inl (Msg ''RRSIG covers no RRset in the signed zone'')
      else case checkRRSIGWindow lib cfg sig now of Inl e \<Rightarrow> Inl e | Inr _ \<Rightarrow>
      if sig_Labels sig \<noteq> rrsigLabels (dlib lib) (fst k) then Inl (Msg ''RRSIG carries other Labels'')
      else if \<not> list_ex (\<lambda>dk. KeyTag (klib (dlib lib)) dk = sig_KeyTag sig) (sk_dnskeys keys)
        then Inl (Msg ''RRSIG references a keytag absent from the published DNSKEY RRset'')
      else case find_signer lib keys sig (canonicalRRset (dlib lib) rrset) of
        None \<Rightarrow> Inl (Msg ''RRSIG does not verify against the published DNSKEY'')
      | Some dk \<Rightarrow> Inr (k, sig_Algorithm sig, odd (uint (dk_Flags dk))))"

fun verify_sigs ::
  "siglib \<Rightarrow> config \<Rightarrow> gotime \<Rightarrow> signing_keys \<Rightarrow> (rrset_key, rr list) gomap \<Rightarrow> rrsig list \<Rightarrow>
   coverage \<Rightarrow> error + coverage" where
  "verify_sigs lib cfg now keys rrsets [] covered = Inr covered"
| "verify_sigs lib cfg now keys rrsets (sig # sigs) covered =
     (case verify_sig lib cfg now keys rrsets sig of
        Inl e \<Rightarrow> Inl e
      | Inr c \<Rightarrow> verify_sigs lib cfg now keys rrsets sigs (c # covered))"

definition check_covered ::
  "siglib \<Rightarrow> zone_model \<Rightarrow> signing_keys \<Rightarrow> coverage \<Rightarrow> rrset_key \<Rightarrow> error + unit" where
  "check_covered lib m keys covered k =
     (if \<not> signable (dlib lib) m (fst k) (snd k) then Inr ()
      else if \<not> list_ex (\<lambda>(k', _). k' = k) covered then Inl (Msg ''authoritative RRset has no covering RRSIG'')
      else check_each (\<lambda>dk. if (k, dk_Algorithm dk, snd k = TypeDNSKEY) \<in> set covered then Inr ()
             else Inl (Msg ''RRset is not signed for an advertised algorithm'')) (sk_dnskeys keys))"

fun nsecs_of :: "rr list \<Rightarrow> nsec list" where
  "nsecs_of [] = []"
| "nsecs_of (NSEC n # rs) = n # nsecs_of rs"
| "nsecs_of (r # rs) = nsecs_of rs"

fun nsec3s_of :: "rr list \<Rightarrow> nsec3 list" where
  "nsec3s_of [] = []"
| "nsec3s_of (NSEC3 n # rs) = n # nsec3s_of rs"
| "nsec3s_of (r # rs) = nsec3s_of rs"

fun nsec3params_of :: "rr list \<Rightarrow> nsec3param list" where
  "nsec3params_of [] = []"
| "nsec3params_of (NSEC3PARAM n # rs) = n # nsec3params_of rs"
| "nsec3params_of (r # rs) = nsec3params_of rs"

definition verify_denial :: "siglib \<Rightarrow> config \<Rightarrow> zone_model \<Rightarrow> rr list \<Rightarrow> error + unit" where
  "verify_denial lib cfg m signedRecords =
     (let nsecs = nsecs_of signedRecords; nsec3s = nsec3s_of signedRecords; params = nsec3params_of signedRecords in
      if c_NSECVersion (DNSSEC cfg) = ''nsec3'' then
        if nsecs \<noteq> [] then Inl (Msg ''NSEC records present in an NSEC3-signed zone'')
        else verifyNSEC3Expectations (dlib lib) m nsec3s params
               (word_of_int (c_NSEC3Iterations (DNSSEC cfg))) (c_NSEC3Salt (DNSSEC cfg))
      else if nsec3s \<noteq> [] \<or> params \<noteq> [] then Inl (Msg ''NSEC3 records present in an NSEC-signed zone'')
      else verifyNSECExpectations (dlib lib) m nsecs)"

definition verifySignedZoneWithModel ::
  "siglib \<Rightarrow> config \<Rightarrow> gotime \<Rightarrow> zone_model \<Rightarrow> rr list \<Rightarrow> rr list \<Rightarrow> signing_keys \<Rightarrow> error + unit" where
  "verifySignedZoneWithModel lib cfg now m input signedRecords keys =
     (let (rrsets, rrsigs) = groupRRsets (dlib lib) signedRecords in
      case verify_sigs lib cfg now keys rrsets rrsigs [] of Inl e \<Rightarrow> Inl e | Inr covered \<Rightarrow>
      case check_each (\<lambda>(k, rs). if length (lookup_rrset rrsets k) < length rs
             then Inl (Msg ''RRset from the input is missing or incomplete'') else Inr ())
             (fst (groupRRsets (dlib lib) input)) of Inl e \<Rightarrow> Inl e | Inr _ \<Rightarrow>
      case check_each (check_covered lib m keys covered) (sortedRRsetKeys (dlib lib) rrsets) of
        Inl e \<Rightarrow> Inl e | Inr _ \<Rightarrow>
      verify_denial lib cfg m signedRecords)"

section \<open>What verification establishes\<close>

fun is_rrsig :: "rr \<Rightarrow> bool" where
  "is_rrsig (RRSIG _) = True"
| "is_rrsig _ = False"

definition rrset_of :: "dnslib \<Rightarrow> rr list \<Rightarrow> rrset_key \<Rightarrow> rr list" where
  "rrset_of lib rs k = filter (\<lambda>r. \<not> is_rrsig r \<and> (canon lib r, Rrtype r) = k) rs"

lemma lookup_append_rrset:
  "lookup_rrset (append_rrset k r sets) k' = lookup_rrset sets k' @ (if k' = k then [r] else [])"
  by (auto simp: lookup_rrset_def append_rrset_def update_conv' split: option.splits)

lemma keys_append_rrset: "set (map fst (append_rrset k r sets)) = insert k (set (map fst sets))"
  by (simp add: append_rrset_def dom_update)

lemma groupRRsets_from_step:
  "\<not> is_rrsig r \<Longrightarrow> groupRRsets_from lib (r # rs) (sets, sigs) =
     groupRRsets_from lib rs (append_rrset (canon lib r, Rrtype r) r sets, sigs)"
  by (cases r) simp_all

lemma is_rrsig_iff: "is_rrsig r \<longleftrightarrow> (\<exists>s. r = RRSIG s)"
  by (cases r) simp_all

lemma groupRRsets_from_spec:
  "lookup_rrset (fst (groupRRsets_from lib rs (sets, sigs))) k = lookup_rrset sets k @ rrset_of lib rs k"
  "set (snd (groupRRsets_from lib rs (sets, sigs))) = set sigs \<union> {s. RRSIG s \<in> set rs}"
  "set (map fst (fst (groupRRsets_from lib rs (sets, sigs)))) =
     set (map fst sets) \<union> {(canon lib r, Rrtype r) | r. r \<in> set rs \<and> \<not> is_rrsig r}"
proof (induction rs arbitrary: sets sigs)
  case (Cons r rs)
  { case 1 show ?case using Cons(1)
      by (cases r) (auto simp: lookup_append_rrset rrset_of_def) }
  { case 2 show ?case using Cons(2) by (cases r) auto }
  { case 3
    show ?case
    proof (cases "is_rrsig r")
      case True
      then obtain s where "r = RRSIG s" by (auto simp: is_rrsig_iff)
      then show ?thesis using Cons(3) [of sets "sigs @ [s]"] by (auto simp del: set_map)
    next
      case False
      have "{(canon lib q, Rrtype q) | q. q \<in> set (r # rs) \<and> \<not> is_rrsig q} =
          insert (canon lib r, Rrtype r) {(canon lib q, Rrtype q) | q. q \<in> set rs \<and> \<not> is_rrsig q}"
        using False by auto
      then show ?thesis unfolding groupRRsets_from_step [OF False] Cons(3) keys_append_rrset by simp
    qed }
qed (simp_all add: rrset_of_def)

lemma groupRRsets_spec:
  "lookup_rrset (fst (groupRRsets lib rs)) k = rrset_of lib rs k"
  "set (snd (groupRRsets lib rs)) = {s. RRSIG s \<in> set rs}"
  "set (map fst (fst (groupRRsets lib rs))) = {(canon lib r, Rrtype r) | r. r \<in> set rs \<and> \<not> is_rrsig r}"
  unfolding groupRRsets_def groupRRsets_from_spec by (simp_all add: lookup_rrset_def)

lemma set_insert_slice [simp]: "set (insert_slice lt x ys) = insert x (set ys)"
  by (induction ys) auto

lemma set_sort_slice [simp]: "set (sort_slice lt xs) = set xs"
  by (induction xs) (simp_all add: sort_slice_def)

text \<open>
  A signature that counts for an RRset: it covers exactly that owner and type, is inside its
  window, and verifies with a published key.
\<close>

definition good_sig :: "siglib \<Rightarrow> config \<Rightarrow> gotime \<Rightarrow> signing_keys \<Rightarrow> rr list \<Rightarrow> rrset_key \<Rightarrow> rrsig \<Rightarrow> dnskey \<Rightarrow> bool" where
  "good_sig lib cfg now keys out k sig dk \<longleftrightarrow>
     RRSIG sig \<in> set out \<and> canonicalName (dlib lib) (h_Name (sig_Hdr sig)) = fst k \<and> sig_TypeCovered sig = snd k \<and>
     checkRRSIGWindow lib cfg sig now = Inr () \<and> sig_Labels sig = rrsigLabels (dlib lib) (fst k) \<and>
     dk \<in> set (sk_dnskeys keys) \<and> sig_KeyTag sig = KeyTag (klib (dlib lib)) dk \<and> sig_Algorithm sig = dk_Algorithm dk \<and>
     Verify lib sig dk (canonicalRRset (dlib lib) (rrset_of (dlib lib) out k))"

lemma verify_sig_Inr:
  assumes "verify_sig lib cfg now keys (fst (groupRRsets (dlib lib) out)) sig = Inr (k, alg, role)"
    and "RRSIG sig \<in> set out"
  shows "\<exists>dk. good_sig lib cfg now keys out k sig dk \<and> dk_Algorithm dk = alg \<and> role = odd (uint (dk_Flags dk))"
proof -
  let ?k = "(canonicalName (dlib lib) (h_Name (sig_Hdr sig)), sig_TypeCovered sig)"
  obtain dk where k: "k = ?k" "alg = sig_Algorithm sig" "role = odd (uint (dk_Flags dk))"
    and f: "find_signer lib keys sig (canonicalRRset (dlib lib) (rrset_of (dlib lib) out ?k)) = Some dk"
    and w: "checkRRSIGWindow lib cfg sig now = Inr ()" "sig_Labels sig = rrsigLabels (dlib lib) (fst ?k)"
    using assms(1) by (auto simp: verify_sig_def Let_def groupRRsets_spec split: if_splits sum.splits option.splits)
  have "dk \<in> set (sk_dnskeys keys)" "KeyTag (klib (dlib lib)) dk = sig_KeyTag sig" "dk_Algorithm dk = sig_Algorithm sig"
    "Verify lib sig dk (canonicalRRset (dlib lib) (rrset_of (dlib lib) out ?k))"
    using f unfolding find_signer_def by (auto simp: find_Some_iff)
  with k w assms(2) show ?thesis by (intro exI [of _ dk]) (simp add: good_sig_def)
qed

lemma verify_sigs_Inr:
  "verify_sigs lib cfg now keys rrsets sigs covered = Inr c \<Longrightarrow>
   (\<forall>sig \<in> set sigs. \<exists>x. verify_sig lib cfg now keys rrsets sig = Inr x) \<and>
   (\<forall>x \<in> set c. x \<in> set covered \<or> (\<exists>sig \<in> set sigs. verify_sig lib cfg now keys rrsets sig = Inr x))"
proof (induction sigs arbitrary: covered)
  case (Cons sig sigs)
  then obtain y where "verify_sig lib cfg now keys rrsets sig = Inr y"
    "verify_sigs lib cfg now keys rrsets sigs (y # covered) = Inr c" by (auto split: sum.splits)
  with Cons.IH [of "y # covered"] show ?case by (cases y) auto
qed simp

lemma verifySignedZone_parts:
  assumes "verifySignedZoneWithModel lib cfg now m input out keys = Inr ()"
  obtains covered where
    "verify_sigs lib cfg now keys (fst (groupRRsets (dlib lib) out)) (snd (groupRRsets (dlib lib) out)) [] = Inr covered"
    "\<forall>(k, rs) \<in> set (fst (groupRRsets (dlib lib) input)). length rs \<le> length (rrset_of (dlib lib) out k)"
    "\<forall>k \<in> set (map fst (fst (groupRRsets (dlib lib) out))). check_covered lib m keys covered k = Inr ()"
    "verify_denial lib cfg m out = Inr ()"
  using assms that
  by (auto simp: verifySignedZoneWithModel_def case_prod_beta check_each_Inr sortedRRsetKeys_def groupRRsets_spec
      not_less split: sum.splits if_splits)

lemma verified_zone_signed:
  assumes v: "verifySignedZoneWithModel lib cfg now m input out keys = Inr ()"
    and r: "r \<in> set out" "\<not> is_rrsig r" and s: "signable (dlib lib) m (canon (dlib lib) r) (Rrtype r)"
    and dk: "dk \<in> set (sk_dnskeys keys)"
  shows "\<exists>sig k. good_sig lib cfg now keys out (canon (dlib lib) r, Rrtype r) sig k \<and>
    dk_Algorithm k = dk_Algorithm dk \<and> (odd (uint (dk_Flags k)) \<longleftrightarrow> Rrtype r = TypeDNSKEY)"
proof -
  obtain covered where c: "verify_sigs lib cfg now keys (fst (groupRRsets (dlib lib) out))
      (snd (groupRRsets (dlib lib) out)) [] = Inr covered"
    "\<forall>k \<in> set (map fst (fst (groupRRsets (dlib lib) out))). check_covered lib m keys covered k = Inr ()"
    using verifySignedZone_parts [OF v] by metis
  let ?k = "(canon (dlib lib) r, Rrtype r)"
  have "?k \<in> set (map fst (fst (groupRRsets (dlib lib) out)))"
    unfolding groupRRsets_spec using r by blast
  with c(2) have "check_covered lib m keys covered ?k = Inr ()" by blast
  then have "(?k, dk_Algorithm dk, Rrtype r = TypeDNSKEY) \<in> set covered"
    using s dk by (auto simp: check_covered_def check_each_iff split: if_splits)
  then obtain sig where "RRSIG sig \<in> set out"
    "verify_sig lib cfg now keys (fst (groupRRsets (dlib lib) out)) sig = Inr (?k, dk_Algorithm dk, Rrtype r = TypeDNSKEY)"
    using verify_sigs_Inr [OF c(1)] by (auto simp: groupRRsets_spec)
  from verify_sig_Inr [OF this(2,1)] show ?thesis by blast
qed

text \<open>No signature of a verified zone fails: each one is good for the RRset it names.\<close>

lemma verified_zone_no_bad_sig:
  assumes v: "verifySignedZoneWithModel lib cfg now m input out keys = Inr ()" and sig: "RRSIG sig \<in> set out"
  shows "\<exists>dk. good_sig lib cfg now keys out
    (canonicalName (dlib lib) (h_Name (sig_Hdr sig)), sig_TypeCovered sig) sig dk"
proof -
  obtain covered where c: "verify_sigs lib cfg now keys (fst (groupRRsets (dlib lib) out))
      (snd (groupRRsets (dlib lib) out)) [] = Inr covered"
    using verifySignedZone_parts [OF v] by metis
  have "sig \<in> set (snd (groupRRsets (dlib lib) out))" using sig by (simp add: groupRRsets_spec)
  then obtain x where x: "verify_sig lib cfg now keys (fst (groupRRsets (dlib lib) out)) sig = Inr x"
    using verify_sigs_Inr [OF c] by blast
  obtain k a ro where xe: "x = (k, a, ro)" by (cases x)
  from verify_sig_Inr [OF x [unfolded xe] sig] obtain dk where "good_sig lib cfg now keys out k sig dk" by blast
  moreover from this have "k = (canonicalName (dlib lib) (h_Name (sig_Hdr sig)), sig_TypeCovered sig)"
    by (cases k) (simp add: good_sig_def)
  ultimately show ?thesis by blast
qed

end
