(* ===== verification/Sign_Zone.thy ===== *)
theory Sign_Zone
  imports Zone_Signatures Rollover_Safety
begin

text \<open>
  Signing a zone (\<open>signer/internal/signer/sign.go\<close>): reading the source, building and
  verifying the signed zone, replacing the published file, recording the generation in the
  state, and deciding when a zone needs signing.
\<close>

section \<open>The source file\<close>

text \<open>
  The unsigned zone file belongs to another program, which may replace or rewrite it at any
  time: what a call on it returns depends on when it is made.
\<close>

record file_info =
  fi_Size :: int
  fi_ModTime :: gotime
  fi_IsRegular :: bool

record source_env =
  src_open_at :: "nat \<Rightarrow> string \<Rightarrow> error + unit"
  src_stat_at :: "nat \<Rightarrow> string \<Rightarrow> error + file_info"
  src_read_at :: "nat \<Rightarrow> string \<Rightarrow> error + bytes"

definition src_call :: "(nat \<Rightarrow> error + 'a) \<Rightarrow> (world, 'a) op" where
  "src_call f = (\<lambda>w. (f (tick w), w\<lparr>tick := Suc (tick w)\<rparr>))"

definition maxZoneFileBytes :: int where "maxZoneFileBytes = 256 * 2 ^ 20"
definition maxZoneRecords :: nat where "maxZoneRecords = 2000000"

definition readSourceBytes :: "source_env \<Rightarrow> string \<Rightarrow> (world, bytes \<times> file_info) op" where
  "readSourceBytes src path =
     op_bind (src_call (\<lambda>t. src_open_at src t path)) (\<lambda>_.
     op_bind (op_wrap ''inspecting zone file'' (src_call (\<lambda>t. src_stat_at src t path))) (\<lambda>before.
     if \<not> fi_IsRegular before then op_fail (Msg ''zone file is not a regular file'')
     else if maxZoneFileBytes < fi_Size before then op_fail (Wrap ''zone file not read'' ErrSourceTooLarge)
     else
     op_bind (op_wrap ''reading zone file'' (src_call (\<lambda>t. src_read_at src t path))) (\<lambda>raw.
     let data = take (nat maxZoneFileBytes + 1) raw in
     if maxZoneFileBytes < int (length data) then op_fail (Wrap ''zone file not signed'' ErrSourceTooLarge)
     else
     op_bind (op_wrap ''inspecting zone file after read'' (src_call (\<lambda>t. src_stat_at src t path))) (\<lambda>after.
     if fi_Size after \<noteq> fi_Size before \<or> fi_ModTime after \<noteq> fi_ModTime before \<or> int (length data) \<noteq> fi_Size before
     then op_fail (Msg ''zone file changed while it was being read'')
     else op_ok (data, before)))))"

text \<open>The serial of the last SOA, 0 without one.\<close>

fun last_serial :: "rr list \<Rightarrow> 32 word \<Rightarrow> 32 word" where
  "last_serial [] serial = serial"
| "last_serial (SOA h s m d # rs) serial = last_serial rs s"
| "last_serial (r # rs) serial = last_serial rs serial"

definition parseZoneRecords :: "siglib \<Rightarrow> string \<Rightarrow> string \<Rightarrow> bytes \<Rightarrow> error + rr list \<times> 32 word" where
  "parseZoneRecords lib domain path data =
     (let (records, failed) = ParseZone lib (Fqdn (klib (dlib lib)) domain) path data in
      if maxZoneRecords < length records then Inl (Wrap ''zone file holds too many records'' ErrSourceTooLarge)
      else if failed then Inl (Msg ''parsing zone'')
      else Inr (records, last_serial records 0))"

record source_snapshot =
  sn_records :: "rr list"
  sn_serial :: "32 word"
  sn_modTime :: gotime
  sn_size :: int
  sn_digest :: string

definition readSourceSnapshot :: "siglib \<Rightarrow> source_env \<Rightarrow> string \<Rightarrow> string \<Rightarrow> (world, source_snapshot) op" where
  "readSourceSnapshot lib src domain path =
     op_bind (readSourceBytes src path) (\<lambda>(data, before).
     case parseZoneRecords lib domain path data of Inl e \<Rightarrow> op_fail e | Inr (parsed, serial) \<Rightarrow>
     let records = stripInputDNSSEC (dlib lib) domain parsed in
     op_bind (op_res ''zone validation failed'' (validateZoneRecords (dlib lib) domain records)) (\<lambda>_.
     op_ok \<lparr>sn_records = records, sn_serial = serial, sn_modTime = fi_ModTime before,
            sn_size = fi_Size before, sn_digest = SHA256Hex lib data\<rparr>))"

definition sourceDigest :: "siglib \<Rightarrow> source_env \<Rightarrow> string \<Rightarrow> (world, string) op" where
  "sourceDigest lib src path = op_bind (readSourceBytes src path) (\<lambda>(data, _). op_ok (SHA256Hex lib data))"

section \<open>Building the signed zone\<close>

fun setSOASerial :: "rr list \<Rightarrow> 32 word \<Rightarrow> rr list" where
  "setSOASerial [] serial = []"
| "setSOASerial (SOA h s m d # rs) serial = SOA h serial m d # rs"
| "setSOASerial (r # rs) serial = r # setSOASerial rs serial"

fun getSOAMinimumTTL :: "rr list \<Rightarrow> 32 word" where
  "getSOAMinimumTTL [] = 3600"
| "getSOAMinimumTTL (SOA h s m d # rs) = m"
| "getSOAMinimumTTL (r # rs) = getSOAMinimumTTL rs"

fun getSOATTL :: "rr list \<Rightarrow> 32 word" where
  "getSOATTL [] = 3600"
| "getSOATTL (SOA h s m d # rs) = h_Ttl h"
| "getSOATTL (r # rs) = getSOATTL rs"

record signed_zone =
  sz_records :: "rr list"
  sz_serial :: "32 word"
  sz_published :: "32 word"
  sz_sourcePath :: string
  sz_srcModTime :: gotime
  sz_srcSize :: int
  sz_srcDigest :: string
  sz_dnskeyTTL :: "32 word"
  sz_maxRRSIGTTL :: "32 word"
  sz_sigExpiration :: gotime

definition OutputPath :: "config \<Rightarrow> string \<Rightarrow> string" where
  "OutputPath cfg domain = path_join (OutputDir cfg) (domain @ ''.zone.signed'')"

definition SourcePath :: "config \<Rightarrow> string \<Rightarrow> zone_state option \<Rightarrow> string" where
  "SourcePath cfg domain zo =
     (case map_of (Zones cfg) domain of
        Some zc \<Rightarrow> if zc_Path zc \<noteq> [] then zc_Path zc else (case zo of Some z \<Rightarrow> z_Path z | None \<Rightarrow> [])
      | None \<Rightarrow> (case zo of Some z \<Rightarrow> z_Path z | None \<Rightarrow> []))"

definition dnskey_rr :: "32 word \<Rightarrow> dnskey \<Rightarrow> rr" where
  "dnskey_rr ttl k = DNSKEY \<lparr>h_Name = dk_Name k, h_Rrtype = TypeDNSKEY, h_Class = ClassINET, h_Ttl = ttl\<rparr> k"

definition denial_records :: "siglib \<Rightarrow> config \<Rightarrow> zone_model \<Rightarrow> rr list \<Rightarrow> 32 word \<Rightarrow> rr list" where
  "denial_records lib cfg m records soaMinTTL =
     (if c_NSECVersion (DNSSEC cfg) = ''nsec3'' then
        let (param, ns) = generateNSEC3ChainWithModel (dlib lib) (DNSSEC cfg) m records soaMinTTL
        in NSEC3PARAM param # map NSEC3 ns
      else map NSEC (generateNSECChainWithModel (dlib lib) m records soaMinTTL))"

definition sign_and_verify ::
  "env \<Rightarrow> siglib \<Rightarrow> config \<Rightarrow> string \<Rightarrow> signing_keys \<Rightarrow> rr list \<Rightarrow> 32 word \<Rightarrow> (world, rr list \<times> gotime) op" where
  "sign_and_verify env lib cfg domain keys input soaMinTTL =
     (let m = newZoneModel (dlib lib) domain input;
          records = input @ denial_records lib cfg m input soaMinTTL in
      op_bind (clock env) (\<lambda>signNow.
      op_bind (op_res ''signing records'' (signRecordsWithModel lib cfg signNow m domain records keys)) (\<lambda>signedRecords.
      op_bind (clock env) (\<lambda>verifyNow.
      op_bind (op_res ''post-sign verification failed (previous signed zone kept)''
        (verifySignedZoneWithModel lib cfg verifyNow m input signedRecords keys)) (\<lambda>_.
      op_bind (clock env) (\<lambda>expNow.
      let sigExpiration = earliestRRSIGExpiration expNow signedRecords in
      if sigExpiration = 0 then
        op_fail (Msg ''post-sign verification failed (previous signed zone kept): the signed zone carries no RRSIG'')
      else op_ok (signedRecords, sigExpiration)))))))"

definition max_ttl :: "rr list \<Rightarrow> 32 word" where
  "max_ttl records = fold (\<lambda>rr t. if t < h_Ttl (Header rr) then h_Ttl (Header rr) else t) records 0"

definition build_zone ::
  "env \<Rightarrow> siglib \<Rightarrow> config \<Rightarrow> string \<Rightarrow> signing_keys \<Rightarrow> string \<Rightarrow> source_snapshot \<Rightarrow> 32 word \<Rightarrow> (world, signed_zone) op" where
  "build_zone env lib cfg domain keys sourcePath snap published =
     (let records = (if published \<noteq> sn_serial snap then setSOASerial (sn_records snap) published else sn_records snap);
          soaMinTTL = getSOAMinimumTTL records;
          dnskeyTTL = (if c_DNSKEYTtl (DNSSEC cfg) = 0 then getSOATTL records else c_DNSKEYTtl (DNSSEC cfg));
          maxTTL = max (max (max_ttl (sn_records snap)) soaMinTTL) dnskeyTTL;
          input = records @ map (dnskey_rr dnskeyTTL) (sk_dnskeys keys) in
      op_bind (sign_and_verify env lib cfg domain keys input soaMinTTL) (\<lambda>out.
      op_ok \<lparr>sz_records = fst out, sz_serial = sn_serial snap, sz_published = published,
             sz_sourcePath = sourcePath, sz_srcModTime = sn_modTime snap, sz_srcSize = sn_size snap,
             sz_srcDigest = sn_digest snap, sz_dnskeyTTL = dnskeyTTL, sz_maxRRSIGTTL = maxTTL,
             sz_sigExpiration = snd out\<rparr>))"

definition prepareSignedZone ::
  "env \<Rightarrow> siglib \<Rightarrow> source_env \<Rightarrow> config \<Rightarrow> string \<Rightarrow> zone_state \<Rightarrow> signing_keys \<Rightarrow> string \<Rightarrow> (world, signed_zone) op" where
  "prepareSignedZone env lib src cfg domain z keys sourcePath =
     op_bind (op_wrap ''parsing zone file'' (readSourceSnapshot lib src domain sourcePath)) (\<lambda>snap.
     op_bind (clock env) (\<lambda>now.
     case nextPublishedSerial domain (GetZoneSerialPolicy cfg domain) (sn_serial snap) (z_PublishedSerial z) now of
       Inl e \<Rightarrow> op_fail e
     | Inr published \<Rightarrow> build_zone env lib cfg domain keys sourcePath snap published))"

section \<open>Writing\<close>

definition type_order :: "16 word \<Rightarrow> nat" where
  "type_order t = (if t = TypeSOA then 0 else if t = TypeNS then 1 else if t = TypeDNSKEY then 2
     else if t = TypeRRSIG then 100 else 50)"

definition zone_key_less :: "string \<Rightarrow> rrset_key \<Rightarrow> rrset_key \<Rightarrow> bool" where
  "zone_key_less apex a b =
     (if (fst a = apex) \<noteq> (fst b = apex) then fst a = apex
      else if fst a = fst b then type_order (snd a) < type_order (snd b)
      else fst a < fst b)"

text \<open>
  The comparison leaves the order of the ordinary types of one owner open; the model keeps the
  order of first appearance.
\<close>

definition sortZoneRecords :: "dnslib \<Rightarrow> string \<Rightarrow> rr list \<Rightarrow> rr list" where
  "sortZoneRecords lib domain records =
     (let groups = fold (\<lambda>rr. append_rrset (canonicalName lib (owner rr), Rrtype rr) rr) records [];
          keys = sort_slice (zone_key_less (canonicalName lib domain)) (map fst groups)
      in concat (map (lookup_rrset groups) keys))"

definition newline :: string where "newline = [CHR 0x0A]"

definition zone_text :: "siglib \<Rightarrow> string \<Rightarrow> gotime \<Rightarrow> rr list \<Rightarrow> string" where
  "zone_text lib domain now records =
     ''; Signed zone file for '' @ domain @ newline @
     ''; Generated by sigillum-signer at '' @ fmt_rfc3339 now @ newline @
     ''; DO NOT EDIT - this file is automatically generated'' @ newline @ newline @
     ''$ORIGIN '' @ Fqdn (klib (dlib lib)) domain @ newline @
     concat (map (\<lambda>rr. RRString lib rr @ newline) (sortZoneRecords (dlib lib) domain records))"

definition EnsureDir :: "env \<Rightarrow> (world, unit) op" where
  "EnsureDir env = op_try (io_nop env ''stat'') (\<lambda>r. case r of
     Inr _ \<Rightarrow> op_ok ()
   | Inl _ \<Rightarrow> io_nops env [''creating directory'', ''assigning ownership of created directory''])"

definition writeSignedZone :: "env \<Rightarrow> siglib \<Rightarrow> string \<Rightarrow> string \<Rightarrow> rr list \<Rightarrow> (world, unit) op" where
  "writeSignedZone env lib domain path records =
     op_bind (EnsureDir env) (\<lambda>_.
     op_bind (clock env) (\<lambda>now.
     op_bind (io_nops env [''creating temp file'', ''chmod signed zone'', ''writing zone'', ''syncing signed zone'',
       ''closing signed zone'']) (\<lambda>_.
     op_bind (io_step env (Msg ''renaming signed zone'') (op_upd (put_file path (zone_text lib domain now records)))) (\<lambda>_.
       SyncDir env (DurabilityError path)))))"

section \<open>Recording\<close>

definition checkRolloverWarnings :: "string \<Rightarrow> gotime \<Rightarrow> zone_state \<Rightarrow> zone_state" where
  "checkRolloverWarnings domain now z =
     (let z1 = (case z_KSK z of
            Some k \<Rightarrow> if k_RolloverDue k < now
              then AddWarning (''KSK rollover due - run 'sigillum-signer rollover start '' @ domain @ [CHR 0x27]) z else z
          | None \<Rightarrow> z) in
      case z_ZSK z1 of
        Some k \<Rightarrow> let d = f64 (Hours (time_sub (k_Expires k) now) / 24) in
          if d < 14 \<and> 0 < d then AddWarning (''ZSK expires in '' @ show_f0 d @ '' days (will auto-rollover)'') z1 else z1
      | None \<Rightarrow> z1)"

definition record_signed ::
  "config \<Rightarrow> string \<Rightarrow> gotime \<Rightarrow> gotime \<Rightarrow> signed_zone \<Rightarrow> string \<Rightarrow> zone_state \<Rightarrow> zone_state" where
  "record_signed cfg domain now warnNow res durabilityUncertain z =
     (let z1 = (if sz_sourcePath res \<noteq> [] then z\<lparr>z_Path := sz_sourcePath res\<rparr> else z);
          z2 = z1\<lparr>z_Serial := sz_serial res, z_PublishedSerial := sz_published res, z_LastSigned := now\<rparr>;
          z3 = (if sz_srcModTime res \<noteq> 0 then z2\<lparr>z_SourceModTime := sz_srcModTime res, z_SourceSize := sz_srcSize res\<rparr>
                else z2);
          z4 = z3\<lparr>z_SourceDigest := sz_srcDigest res, z_SignaturesExp := sz_sigExpiration res, z_ForceResign := False,
                  z_PublishedDNSKEYTTL := sz_dnskeyTTL res, z_PublishedMaxRRSIGTTL := sz_maxRRSIGTTL res\<rparr>;
          z5 = (if PublicationMode cfg = PublicationImmediate then ConfirmPublication now now z4
                else z4\<lparr>z_PendingPublication := True\<rparr>);
          z6 = ClearOperationError OpInit (ClearOperationError OpSigning (ClearTransientWarnings z5));
          z7 = (if durabilityUncertain \<noteq> [] then AddWarning durabilityUncertain z6 else z6)
      in checkRolloverWarnings domain warnNow z7)"

definition recordSignedZone :: "env \<Rightarrow> config \<Rightarrow> string \<Rightarrow> signed_zone \<Rightarrow> string \<Rightarrow> (world, unit) op" where
  "recordSignedZone env cfg domain res durabilityUncertain =
     op_bind (clock env) (\<lambda>now. op_bind (clock env) (\<lambda>warnNow.
       Mutate domain (record_signed cfg domain now warnNow res durabilityUncertain)))"

definition durability_text :: "error \<Rightarrow> string" where
  "durability_text e = ''signed zone written but its directory sync failed; durability across power loss uncertain: '' @ error_text e"

definition SignZone :: "env \<Rightarrow> siglib \<Rightarrow> source_env \<Rightarrow> config \<Rightarrow> string \<Rightarrow> (world, unit) op" where
  "SignZone env lib src cfg domain =
     op_bind (clock env) (\<lambda>startTime.
     op_bind (look domain) (\<lambda>zo. case zo of None \<Rightarrow> op_fail (Msg ''zone not in state'') | Some z \<Rightarrow>
     let sourcePath = SourcePath cfg domain (Some z) in
     op_bind (op_wrap ''loading keys'' (loadKeysForSigning env (klib (dlib lib)) cfg domain z)) (\<lambda>keys.
     op_bind (prepareSignedZone env lib src cfg domain z keys sourcePath) (\<lambda>res.
     op_try (writeSignedZone env lib domain (OutputPath cfg domain) (sz_records res)) (\<lambda>r. case r of
       Inr _ \<Rightarrow> recordSignedZone env cfg domain res []
     | Inl e \<Rightarrow> if \<not> IsCommitted e then op_fail (Wrap ''writing signed zone'' e)
         else recordSignedZone env cfg domain res (durability_text e))))))"

section \<open>When to sign\<close>

definition zoneWriteQuiescenceWindow :: duration where "zoneWriteQuiescenceWindow = 3 * Second"

definition outputUnusable :: "env \<Rightarrow> config \<Rightarrow> string \<Rightarrow> (world, string) op" where
  "outputUnusable env cfg domain =
     op_try (statExists env (OutputPath cfg domain)) (\<lambda>r. case r of
       Inr True \<Rightarrow> op_ok []
     | Inr False \<Rightarrow> op_ok ''signed output missing''
     | Inl e \<Rightarrow> op_ok (''signed output unreadable: '' @ error_text e))"

definition settling ::
  "env \<Rightarrow> source_env \<Rightarrow> string \<Rightarrow> file_info \<Rightarrow> (world, bool) op" where
  "settling env src zonePath info =
     op_bind (clock env) (\<lambda>now.
     if time_sub now (fi_ModTime info) < zoneWriteQuiescenceWindow then
       op_try (src_call (\<lambda>t. src_stat_at src t zonePath)) (\<lambda>r. case r of
         Inr info2 \<Rightarrow> op_ok (fi_ModTime info2 \<noteq> fi_ModTime info \<or> fi_Size info2 \<noteq> fi_Size info)
       | Inl _ \<Rightarrow> op_ok False)
     else op_ok False)"

definition source_changed ::
  "env \<Rightarrow> siglib \<Rightarrow> source_env \<Rightarrow> string \<Rightarrow> string \<Rightarrow> zone_state \<Rightarrow> file_info \<Rightarrow> (world, bool \<times> string) op" where
  "source_changed env lib src domain zonePath z info =
     (let changeRef = (if z_SourceModTime z = 0 then z_LastSigned z else z_SourceModTime z);
          sizeChanged = (z_SourceSize z \<noteq> 0 \<and> fi_Size info \<noteq> z_SourceSize z);
          metadataChanged = (changeRef < fi_ModTime info \<or> sizeChanged) in
      op_bind (if metadataChanged then settling env src zonePath info else op_ok False) (\<lambda>busy.
      if busy then op_ok (False, []) else
      op_try (sourceDigest lib src zonePath) (\<lambda>r. case r of
        Inl e \<Rightarrow> if is_source_too_large e then op_ok (True, ''zone file exceeds the source limit'')
                  else op_ok (False, [])
      | Inr digest \<Rightarrow>
          if z_SourceDigest z = [] then
            op_ok (True, ''source content identity not recorded; publishing once to establish it'')
          else if digest = z_SourceDigest z then
            op_bind (if metadataChanged
              then Mutate domain (\<lambda>z. z\<lparr>z_SourceModTime := fi_ModTime info, z_SourceSize := fi_Size info\<rparr>)
              else op_ok ()) (\<lambda>_. op_ok (False, []))
          else if metadataChanged then op_ok (True, ''zone file modified'')
          else op_ok (True, ''zone file content changed (same size and modification time)''))))"

definition check_source ::
  "env \<Rightarrow> siglib \<Rightarrow> source_env \<Rightarrow> string \<Rightarrow> string \<Rightarrow> zone_state \<Rightarrow> (world, bool \<times> string) op" where
  "check_source env lib src domain zonePath z =
     op_try (src_call (\<lambda>t. src_stat_at src t zonePath)) (\<lambda>r. case r of
       Inl e \<Rightarrow> op_bind (Mutate domain (SetOperationError OpSigning (''zone file missing or inaccessible: '' @ error_text e)))
         (\<lambda>_. op_ok (False, []))
     | Inr info \<Rightarrow> source_changed env lib src domain zonePath z info)"

definition NeedsSign ::
  "env \<Rightarrow> siglib \<Rightarrow> source_env \<Rightarrow> config \<Rightarrow> string \<Rightarrow> string \<Rightarrow> zone_state option \<Rightarrow> (world, bool \<times> string) op" where
  "NeedsSign env lib src cfg domain zonePath zo =
     (case zo of None \<Rightarrow> op_ok (True, ''new zone'') | Some z \<Rightarrow>
      op_bind (clock env) (\<lambda>now.
      if z_SignaturesExp z \<noteq> 0 \<and> z_SignaturesExp z < now then op_ok (True, ''signatures EXPIRED'')
      else if z_SignaturesExp z \<noteq> 0 \<and> z_SignaturesExp z - c_SignatureRefresh (DNSSEC cfg) < now then
        op_ok (True, ''signatures approaching expiry'')
      else if z_ForceResign z then op_ok (True, ''rollover state changed'')
      else if (case z_Rollover z of Some r \<Rightarrow> z_LastSigned z < r_Started r | None \<Rightarrow> False) then
        op_ok (True, ''rollover in progress'')
      else if z_Path z \<noteq> [] \<and> path_clean zonePath \<noteq> path_clean (z_Path z) then op_ok (True, ''source path changed'')
      else
      op_bind (if z_LastSigned z \<noteq> 0 then outputUnusable env cfg domain else op_ok []) (\<lambda>reason.
      if reason \<noteq> [] then op_ok (True, reason)
      else check_source env lib src domain zonePath z)))"

section \<open>Steps that only pass time\<close>

definition ticks :: "world \<Rightarrow> world \<Rightarrow> bool" where
  "ticks w w' \<longleftrightarrow> (\<exists>t. w' = w\<lparr>tick := t\<rparr>)"

interpretation passes: keep_relation ticks
proof
  fix w show "ticks w w" by (auto simp: ticks_def intro!: exI [of _ "tick w"])
next
  fix u v w assume "ticks u v" "ticks v w"
  then show "ticks u w" by (auto simp: ticks_def)
qed

lemma ticks_clock: "keeps ticks (clock env)"
  by (auto simp: keeps_def clock_def ticks_def)

lemma ticks_src: "keeps ticks (src_call f)"
  by (auto simp: keeps_def src_call_def ticks_def)

lemma ticks_res: "keeps ticks (op_res s r)"
  by (auto simp: op_res_def intro: passes.keeps_ok passes.keeps_fail split: sum.split)

lemmas ticks_rules = passes.keeps_rules ticks_clock ticks_src ticks_res

lemma ticks_readSourceBytes: "keeps ticks (readSourceBytes src path)"
  unfolding readSourceBytes_def Let_def by (intro ticks_rules)

lemma ticks_readSourceSnapshot: "keeps ticks (readSourceSnapshot lib src domain path)"
  unfolding readSourceSnapshot_def Let_def
  by (rule passes.keeps_bind [OF ticks_readSourceBytes])
    (auto split: prod.split sum.split intro!: ticks_rules)

lemma ticks_sign_and_verify: "keeps ticks (sign_and_verify env lib cfg domain keys input ttl)"
  unfolding sign_and_verify_def Let_def by (intro ticks_rules)

lemma ticks_build_zone: "keeps ticks (build_zone env lib cfg domain keys path snap published)"
  unfolding build_zone_def Let_def by (intro ticks_rules ticks_sign_and_verify)

lemma ticks_prepareSignedZone: "keeps ticks (prepareSignedZone env lib src cfg domain z keys path)"
  unfolding prepareSignedZone_def Let_def
  by (intro passes.keeps_bind passes.keeps_wrap ticks_readSourceSnapshot ticks_clock)
    (auto split: sum.split intro!: passes.keeps_fail ticks_build_zone)

text \<open>What a prepared zone has passed.\<close>

definition verified_zone :: "siglib \<Rightarrow> config \<Rightarrow> string \<Rightarrow> signing_keys \<Rightarrow> rr list \<Rightarrow> bool" where
  "verified_zone lib cfg domain keys out \<longleftrightarrow> (\<exists>input now.
     verifySignedZoneWithModel lib cfg now (newZoneModel (dlib lib) domain input) input out keys = Inr ())"

lemma clock_Inr: "clock env w = (Inr t, w') \<longleftrightarrow> t = now_at env (tick w) \<and> w' = w\<lparr>tick := Suc (tick w)\<rparr>"
  by (auto simp: clock_def)

lemma sign_and_verify_Inr:
  assumes "sign_and_verify env lib cfg domain keys input ttl w = (Inr (out, expy), w')"
  shows "verified_zone lib cfg domain keys out \<and> expy \<noteq> 0 \<and> (\<exists>now. expy = earliestRRSIGExpiration now out)"
proof -
  let ?m = "newZoneModel (dlib lib) domain input"
  obtain now1 now2 where "verifySignedZoneWithModel lib cfg now1 ?m input out keys = Inr ()"
    "expy = earliestRRSIGExpiration now2 out" "expy \<noteq> 0"
    using assms unfolding sign_and_verify_def Let_def step_Inr by (auto split: if_splits)
  then show ?thesis unfolding verified_zone_def by blast
qed

lemma build_zone_Inr:
  assumes "build_zone env lib cfg domain keys path snap published w = (Inr res, w')"
  shows "verified_zone lib cfg domain keys (sz_records res)"
    and "sz_sourcePath res = path" and "sz_sigExpiration res \<noteq> 0"
    and "\<exists>now. sz_sigExpiration res = earliestRRSIGExpiration now (sz_records res)"
    and "sz_serial res = sn_serial snap" and "sz_published res = published"
proof -
  obtain input ttl out expy where run: "sign_and_verify env lib cfg domain keys input ttl w = (Inr (out, expy), w')"
    and res: "sz_records res = out" "sz_published res = published" "sz_sourcePath res = path"
      "sz_sigExpiration res = expy" "sz_serial res = sn_serial snap"
    using assms by (auto simp: build_zone_def Let_def step_Inr)
  from sign_and_verify_Inr [OF run] res show "verified_zone lib cfg domain keys (sz_records res)"
    "sz_sourcePath res = path" "sz_sigExpiration res \<noteq> 0"
    "\<exists>now. sz_sigExpiration res = earliestRRSIGExpiration now (sz_records res)"
    "sz_serial res = sn_serial snap" "sz_published res = published" by auto
qed

lemma prepareSignedZone_Inr:
  assumes "prepareSignedZone env lib src cfg domain z keys path w = (Inr res, w')"
  obtains snap published now w1 where
    "build_zone env lib cfg domain keys path snap published w1 = (Inr res, w')"
    "nextPublishedSerial domain (GetZoneSerialPolicy cfg domain) (sn_serial snap) (z_PublishedSerial z) now = Inr published"
proof -
  obtain snap now w1 where "(case nextPublishedSerial domain (GetZoneSerialPolicy cfg domain) (sn_serial snap)
      (z_PublishedSerial z) now of Inl e \<Rightarrow> op_fail e
      | Inr published \<Rightarrow> build_zone env lib cfg domain keys path snap published) w1 = (Inr res, w')"
    using assms unfolding prepareSignedZone_def step_Inr by blast
  then show ?thesis using that by (auto split: sum.splits)
qed

section \<open>Replacing the published file\<close>

text \<open>The rename publishes; only its durability can still fail.\<close>

lemma rename_sync_cases:
  obtains (committed) r t h where
      "op_bind (io_step env (Msg s) (op_upd (put_file p d))) (\<lambda>_. SyncDir env (DurabilityError p)) w =
        (r, (put_file p d w)\<lparr>tick := t, halted := h\<rparr>)"
      "r = Inr () \<and> \<not> h \<or> r = Inl (DurabilityError p) \<and> \<not> h \<or> r = Inl crashed \<and> h"
    | (aborted) e' t h where
      "op_bind (io_step env (Msg s) (op_upd (put_file p d))) (\<lambda>_. SyncDir env (DurabilityError p)) w =
        (Inl e', w\<lparr>tick := t, halted := h\<rparr>)" "\<not> IsCommitted e'"
proof (cases rule: io_step_cases [of w env "Msg s" "op_upd (put_file p d)"])
  case ok
  let ?w1 = "put_file p d (w\<lparr>tick := Suc (tick w)\<rparr>)"
  have run: "op_bind (io_step env (Msg s) (op_upd (put_file p d))) (\<lambda>_. SyncDir env (DurabilityError p)) w =
      SyncDir env (DurabilityError p) ?w1" using ok by (simp add: op_bind_def)
  have "\<exists>r t h. SyncDir env (DurabilityError p) ?w1 = (r, (put_file p d w)\<lparr>tick := t, halted := h\<rparr>) \<and>
      (r = Inr () \<and> \<not> h \<or> r = Inl (DurabilityError p) \<and> \<not> h \<or> r = Inl crashed \<and> h)"
    using ok(1) by (cases w; cases "io_at env (Suc (tick w))")
      (auto simp: SyncDir_def io_step_def Let_def put_file_def)
  then show ?thesis using committed run by metis
next
  case (fail e')
  then have "op_bind (io_step env (Msg s) (op_upd (put_file p d))) (\<lambda>_. SyncDir env (DurabilityError p)) w =
      (Inl e', w\<lparr>tick := Suc (tick w), halted := halted w\<rparr>)" "\<not> IsCommitted e'"
    by (auto simp: op_bind_def)
  then show ?thesis by (rule aborted)
next
  case crash
  then have "op_bind (io_step env (Msg s) (op_upd (put_file p d))) (\<lambda>_. SyncDir env (DurabilityError p)) w =
      (Inl crashed, w\<lparr>tick := Suc (tick w), halted := True\<rparr>)" by (simp add: op_bind_def)
  then show ?thesis by (rule aborted) simp
qed

definition idles :: "world \<Rightarrow> world \<Rightarrow> bool" where
  "idles w w' \<longleftrightarrow> (\<exists>t h. w' = w\<lparr>tick := t, halted := h\<rparr>)"

lemma idlesI: "idles w (w\<lparr>tick := t, halted := h\<rparr>)" "idles w (w\<lparr>tick := t\<rparr>)"
proof -
  show "idles w (w\<lparr>tick := t, halted := h\<rparr>)" unfolding idles_def by blast
  show "idles w (w\<lparr>tick := t\<rparr>)"
    unfolding idles_def by (rule exI [of _ t], rule exI [of _ "halted w"]) simp
qed

lemma idles_trans:
  assumes "idles u v" and "idles v w"
  shows "idles u w"
proof -
  obtain t h t' h' where "v = u\<lparr>tick := t, halted := h\<rparr>" "w = v\<lparr>tick := t', halted := h'\<rparr>"
    using assms unfolding idles_def by blast
  then have "w = u\<lparr>tick := t', halted := h'\<rparr>" by simp
  then show ?thesis by (simp add: idlesI)
qed

lemma op_bind_clock: "op_bind (clock env) f w = f (now_at env (tick w)) (w\<lparr>tick := Suc (tick w)\<rparr>)"
  by (simp add: op_bind_def clock_def)

lemma idles_refl: "idles w w"
  unfolding idles_def by (rule exI [of _ "tick w"], rule exI [of _ "halted w"]) simp

lemma idles_ticks: "ticks w w' \<Longrightarrow> idles w w'"
  by (auto simp: ticks_def idlesI)

lemma idles_facts:
  assumes "idles w w'"
  shows "content w' = content w" and "mem w' = mem w"
  using assms by (auto simp: idles_def)

lemma EnsureDir_idles:
  assumes "EnsureDir env w = (r, w')"
  shows "idles w w'" and "r = Inl e \<Longrightarrow> \<not> IsCommitted e"
proof -
  obtain r1 w1 where 1: "io_nop env ''stat'' w = (r1, w1)" "idles w w1"
    by (cases rule: io_step_cases [of w env "Msg ''stat''" "op_ok ()"])
      (auto simp: idlesI)
  have 2: "idles w1 w' \<and> (r = Inl e \<longrightarrow> \<not> IsCommitted e)"
  proof (cases r1)
    case (Inl e1)
    then have "io_nops env [''creating directory'', ''assigning ownership of created directory''] w1 = (r, w')"
      using assms 1(1) by (simp add: EnsureDir_def op_try_def del: io_nops.simps)
    then show ?thesis
      by (cases rule: io_nops_cases [of env "[''creating directory'', ''assigning ownership of created directory'']" w1])
        (auto simp: idlesI simp del: io_nops.simps)
  next
    case (Inr u)
    then have "w' = w1" "r = Inr ()" using assms 1(1) by (simp_all add: EnsureDir_def op_try_def)
    then show ?thesis by (simp add: idles_refl)
  qed
  show "idles w w'" using 1(2) 2 idles_trans by blast
  show "r = Inl e \<Longrightarrow> \<not> IsCommitted e" using 2 by blast
qed

lemma writeSignedZone_cases:
  obtains (committed) r now w1 t h where
      "writeSignedZone env lib domain path records w =
        (r, (put_file path (zone_text lib domain now records) w1)\<lparr>tick := t, halted := h\<rparr>)"
      "idles w w1" "r = Inr () \<or> r = Inl (DurabilityError path) \<or> r = Inl crashed"
    | (aborted) e w1 where "writeSignedZone env lib domain path records w = (Inl e, w1)" "idles w w1" "\<not> IsCommitted e"
proof -
  obtain r1 w1 where 1: "EnsureDir env w = (r1, w1)" by (cases "EnsureDir env w")
  note e = EnsureDir_idles [OF 1]
  show ?thesis
  proof (cases r1)
    case (Inl err)
    then have "writeSignedZone env lib domain path records w = (Inl err, w1)"
      using 1 by (simp add: writeSignedZone_def op_bind_def)
    then show ?thesis using aborted e Inl by blast
  next
    case (Inr u)
    let ?ss = "[''creating temp file'', ''chmod signed zone'', ''writing zone'', ''syncing signed zone'', ''closing signed zone'']"
    let ?now = "now_at env (tick w1)" and ?w2 = "w1\<lparr>tick := Suc (tick w1)\<rparr>"
    let ?d = "zone_text lib domain ?now records"
    have run: "writeSignedZone env lib domain path records w =
        op_bind (io_nops env ?ss) (\<lambda>_. op_bind (io_step env (Msg ''renaming signed zone'') (op_upd (put_file path ?d)))
          (\<lambda>_. SyncDir env (DurabilityError path))) ?w2"
      using 1 Inr by (simp add: writeSignedZone_def op_bind_apply [of "EnsureDir env"] op_bind_clock
          del: io_nops.simps)
    show ?thesis
    proof (cases rule: io_nops_cases [of env ?ss ?w2])
      case (ok t)
      let ?w3 = "w1\<lparr>tick := t\<rparr>"
      have i3: "idles w ?w3" by (rule idles_trans [OF e(1) idlesI(2)])
      have run3: "writeSignedZone env lib domain path records w =
          op_bind (io_step env (Msg ''renaming signed zone'') (op_upd (put_file path ?d)))
            (\<lambda>_. SyncDir env (DurabilityError path)) ?w3"
        unfolding run using ok by (simp add: op_bind_apply [of "io_nops env ?ss"] del: io_nops.simps)
      show ?thesis
      proof (cases rule: rename_sync_cases [of env "''renaming signed zone''" path ?d ?w3])
        case (committed r t h)
        then show ?thesis using that(1) [OF _ i3] run3 by metis
      next
        case (aborted e' t h)
        have "idles ?w3 (?w3\<lparr>tick := t, halted := h\<rparr>)" by (rule idlesI)
        then show ?thesis using that(2) run3 aborted idles_trans [OF i3] by metis
      qed
    next
      case (aborted e' t h)
      have "idles w1 (?w2\<lparr>tick := t, halted := h\<rparr>)" by (simp add: idlesI)
      moreover have "writeSignedZone env lib domain path records w = (Inl e', ?w2\<lparr>tick := t, halted := h\<rparr>)"
        unfolding run using aborted by (simp add: op_bind_apply [of "io_nops env ?ss"] del: io_nops.simps)
      ultimately show ?thesis using that(2) aborted(2) idles_trans [OF e(1)] by metis
    qed
  qed
qed

section \<open>Signing as a whole\<close>

text \<open>The files the key operations of a zone may touch.\<close>

definition key_paths :: "config \<Rightarrow> string \<Rightarrow> string set" where
  "key_paths cfg domain = (\<Union>kt \<in> {''ksk'', ''zsk''}. backup_paths cfg domain kt \<union> live_paths cfg domain kt)"

context fs_frame begin

lemma frame_LoadKeyPairByID: "keeps R (LoadKeyPairByID env lib cfg domain kt tag)"
  unfolding LoadKeyPairByID_def by (intro frame_rules frame_loads frame_res)

lemma frame_LoadPublicKeyByID: "keeps R (LoadPublicKeyByID env lib cfg domain kt tag)"
  unfolding LoadPublicKeyByID_def by (intro frame_rules frame_loads frame_res)

lemma frame_rollover_keys: "keeps R (rollover_keys env lib cfg domain r keys)"
  unfolding rollover_keys_def by (intro frame_rules frame_LoadKeyPairByID frame_LoadPublicKeyByID)

lemma frame_loadKeysForSigning:
  assumes "key_paths cfg domain \<subseteq> P"
  shows "keeps R (loadKeysForSigning env lib cfg domain z)"
proof -
  have "backup_paths cfg domain kt \<subseteq> P" "live_paths cfg domain kt \<subseteq> P" if "kt = ''ksk'' \<or> kt = ''zsk''" for kt
    using assms that by (auto simp: key_paths_def)
  then show ?thesis unfolding loadKeysForSigning_def Let_def
    by (auto split: sum.split option.split prod.split intro!: frame_rules frame_res frame_EnsureLiveKey frame_rollover_keys)
qed

end

lemma loadKeysForSigning_frame:
  assumes "loadKeysForSigning env lib cfg domain z (w :: world) = (r, w')"
  shows "mem w' = mem w" and "p \<notin> key_paths cfg domain \<Longrightarrow> content w' p = content w p"
proof -
  have "same_rest w w'"
    using keepsD [OF rest.frame_loadKeysForSigning [of cfg domain env lib z] assms] by simp
  then show "mem w' = mem w" by (rule mem_of_rest)
  have "only_files (key_paths cfg domain) w w'"
    using keepsD [OF outside.frame_loadKeysForSigning [of cfg domain "key_paths cfg domain" env lib z] assms] by simp
  then show "p \<notin> key_paths cfg domain \<Longrightarrow> content w' p = content w p" by (simp add: only_files_def)
qed

lemma op_bind_look: "op_bind (look domain) f w = f (GetZone domain (mem w)) w"
  by (simp add: look_def op_bind_def)

lemma recordSignedZone_run:
  obtains now warnNow w1 where "recordSignedZone env cfg domain res d w =
    (Inr (), upd_mem (UpdateZone domain (record_signed cfg domain now warnNow res d)) w1)" "idles w w1"
  by (rule that [of "now_at env (tick w)" "now_at env (Suc (tick w))" "w\<lparr>tick := Suc (Suc (tick w))\<rparr>"])
    (simp_all add: recordSignedZone_def op_bind_clock Mutate_def idlesI)

text \<open>
  Every run of \<open>SignZone\<close>, with any failure or crash, either leaves the published file
  alone or has put a verified zone of the planned keys in its place; a successful run has done
  the latter and recorded it.
\<close>

definition published_by ::
  "siglib \<Rightarrow> config \<Rightarrow> string \<Rightarrow> zone_state \<Rightarrow> signed_zone \<Rightarrow> gotime \<Rightarrow> bool" where
  "published_by lib cfg domain z res now \<longleftrightarrow> (\<exists>keys plan.
     key_plan z = Some plan \<and> follows (klib (dlib lib)) domain plan keys \<and> validateAlgorithms keys z = Inr () \<and>
     verified_zone lib cfg domain keys (sz_records res) \<and> sz_sourcePath res = SourcePath cfg domain (Some z) \<and>
     sz_sigExpiration res = earliestRRSIGExpiration now (sz_records res))"

lemma SignZone_cases:
  assumes run: "SignZone env lib src cfg domain w = (r, w')" and p: "OutputPath cfg domain \<notin> key_paths cfg domain"
  obtains (kept) e where "r = Inl e" "mem w' = mem w" "content w' (OutputPath cfg domain) = content w (OutputPath cfg domain)"
    | (stopped) z res now t where "r = Inl (Wrap ''writing signed zone'' crashed)" "mem w' = mem w"
      "GetZone domain (mem w) = Some z" "published_by lib cfg domain z res now"
      "content w' (OutputPath cfg domain) = Some (zone_text lib domain t (sz_records res))"
    | (published) z res now t now1 now2 d where "r = Inr ()" "GetZone domain (mem w) = Some z"
      "published_by lib cfg domain z res now"
      "content w' (OutputPath cfg domain) = Some (zone_text lib domain t (sz_records res))"
      "GetZone domain (mem w') = Some (record_signed cfg domain now1 now2 res d z)"
      "d = [] \<or> d = durability_text (DurabilityError (OutputPath cfg domain))"
proof -
  let ?p = "OutputPath cfg domain" and ?w0 = "w\<lparr>tick := Suc (tick w)\<rparr>"
  show ?thesis
  proof (cases "GetZone domain (mem w)")
    case None
    then have "r = Inl (Msg ''zone not in state'')" "w' = ?w0"
      using run by (auto simp: SignZone_def op_bind_clock op_bind_look)
    then show ?thesis using kept by simp
  next
    case (Some z)
    let ?load = "loadKeysForSigning env (klib (dlib lib)) cfg domain z" and ?src = "SourcePath cfg domain (Some z)"
    obtain r1 w1 where l: "?load ?w0 = (r1, w1)" by (cases "?load ?w0")
    have m1: "mem w1 = mem w" "content w1 ?p = content w ?p"
      using loadKeysForSigning_frame [OF l] p by simp_all
    show ?thesis
    proof (cases r1)
      case (Inl e)
      then have "r = Inl (Wrap ''loading keys'' e)" "w' = w1"
        using run Some l by (simp_all add: SignZone_def op_bind_clock op_bind_look op_bind_apply [of "op_wrap _ _"] op_wrap_apply)
      then show ?thesis using kept m1 by simp
    next
      case (Inr keys)
      let ?prep = "prepareSignedZone env lib src cfg domain z keys ?src"
      obtain r2 w2 where pr: "?prep w1 = (r2, w2)" by (cases "?prep w1")
      have i2: "idles w1 w2" using keepsD [OF ticks_prepareSignedZone pr] by (rule idles_ticks)
      have rest: "op_bind ?prep (\<lambda>res. op_try (writeSignedZone env lib domain ?p (sz_records res)) (\<lambda>r. case r of
          Inr _ \<Rightarrow> recordSignedZone env cfg domain res []
        | Inl e \<Rightarrow> if \<not> IsCommitted e then op_fail (Wrap ''writing signed zone'' e)
            else recordSignedZone env cfg domain res (durability_text e))) w1 = (r, w')"
        using run Some l Inr
        by (simp add: SignZone_def op_bind_clock op_bind_look op_bind_apply [of "op_wrap _ _"] op_wrap_apply Let_def)
      show ?thesis
      proof (cases r2)
        case (Inl e)
        then have "r = Inl e" "w' = w2" using rest pr by (simp_all add: op_bind_def)
        then show ?thesis using kept m1 idles_facts [OF i2] by simp
      next
        case res: (Inr res)
        obtain now where pub: "published_by lib cfg domain z res now"
        proof -
          obtain snap ser w3 where b: "build_zone env lib cfg domain keys ?src snap ser w3 = (Inr res, w2)"
            using prepareSignedZone_Inr pr res by metis
          obtain now where "sz_sigExpiration res = earliestRRSIGExpiration now (sz_records res)"
            using build_zone_Inr(4) [OF b] by blast
          then show ?thesis using that build_zone_Inr(1,2) [OF b] loadKeysForSigning_follows [OF l [unfolded Inr]]
            unfolding published_by_def by blast
        qed
        have wr: "op_try (writeSignedZone env lib domain ?p (sz_records res)) (\<lambda>r. case r of
            Inr _ \<Rightarrow> recordSignedZone env cfg domain res []
          | Inl e \<Rightarrow> if \<not> IsCommitted e then op_fail (Wrap ''writing signed zone'' e)
              else recordSignedZone env cfg domain res (durability_text e)) w2 = (r, w')"
          using rest pr res by (simp add: op_bind_def)
        show ?thesis
        proof (cases rule: writeSignedZone_cases [of env lib domain ?p "sz_records res" w2])
          case (committed rw t w3 ti h)
          let ?w4 = "(put_file ?p (zone_text lib domain t (sz_records res)) w3)\<lparr>tick := ti, halted := h\<rparr>"
          have m4: "mem ?w4 = mem w" "content ?w4 ?p = Some (zone_text lib domain t (sz_records res))"
            using m1 idles_facts [OF i2] idles_facts [OF committed(2)] by (simp_all add: put_file_def)
          have rec: ?thesis if d: "d = [] \<or> d = durability_text (DurabilityError ?p)"
            and rd: "recordSignedZone env cfg domain res d ?w4 = (r, w')" for d
          proof -
            obtain now1 now2 w5 where w5: "recordSignedZone env cfg domain res d ?w4 =
              (Inr (), upd_mem (UpdateZone domain (record_signed cfg domain now1 now2 res d)) w5)" "idles ?w4 w5"
              by (rule recordSignedZone_run)
            then have "r = Inr ()" and w': "w' = upd_mem (UpdateZone domain (record_signed cfg domain now1 now2 res d)) w5"
              using rd by auto
            moreover have "GetZone domain (mem w') = Some (record_signed cfg domain now1 now2 res d z)"
              using Some m4(1) idles_facts(2) [OF w5(2)]
              by (simp add: w' upd_mem_def UpdateZone_def GetZone_def update_conv')
            moreover have "content w' ?p = Some (zone_text lib domain t (sz_records res))"
            proof -
              have "content w' ?p = content w5 ?p" by (simp add: w' upd_mem_def content_def)
              also have "\<dots> = content ?w4 ?p" by (simp only: idles_facts(1) [OF w5(2)])
              finally show ?thesis using m4(2) by simp
            qed
            ultimately show ?thesis using published Some pub d by blast
          qed
          from committed(3) consider "rw = Inr ()" | "rw = Inl (DurabilityError ?p)" | "rw = Inl crashed" by blast
          then show ?thesis
          proof cases
            case 1
            then show ?thesis using rec [of "[]"] wr committed(1) by (simp add: op_try_def)
          next
            case 2
            then show ?thesis using rec [of "durability_text (DurabilityError ?p)"] wr committed(1)
              by (simp add: op_try_def)
          next
            case 3
            then have "r = Inl (Wrap ''writing signed zone'' crashed)" "w' = ?w4"
              using wr committed(1) by (simp_all add: op_try_def)
            then show ?thesis using stopped m4 Some pub by simp
          qed
        next
          case (aborted e w3)
          then have "r = Inl (Wrap ''writing signed zone'' e)" "w' = w3" using wr by (simp_all add: op_try_def)
          then show ?thesis using kept m1 idles_facts [OF i2] idles_facts [OF aborted(2)] by simp
        qed
      qed
    qed
  qed
qed

end
