(* ===== verification/Sign_Laws.thy ===== *)
theory Sign_Laws
  imports Sign_Zone State_Merge
begin

text \<open>
  What recording a signed zone keeps, when a zone is signed again, and how signature windows
  relate to the recorded expiration.
\<close>

section \<open>Recording\<close>

lemma checkRolloverWarnings_view [simp]: "zview (checkRolloverWarnings domain now z) = zview z"
  by (simp add: checkRolloverWarnings_def Let_def split: option.split)

lemma zview_errors [simp]: "zview (ClearOperationError o1 z) = zview z"
  by (simp add: ClearOperationError_def zview_def)

lemma record_signed_view:
  "zview (record_signed cfg domain now warnNow res d z) =
     zview (let z1 = (if sz_sourcePath res \<noteq> [] then z\<lparr>z_Path := sz_sourcePath res\<rparr> else z);
                z2 = z1\<lparr>z_Serial := sz_serial res, z_PublishedSerial := sz_published res, z_LastSigned := now\<rparr>;
                z3 = (if sz_srcModTime res \<noteq> 0 then z2\<lparr>z_SourceModTime := sz_srcModTime res, z_SourceSize := sz_srcSize res\<rparr>
                      else z2);
                z4 = z3\<lparr>z_SourceDigest := sz_srcDigest res, z_SignaturesExp := sz_sigExpiration res, z_ForceResign := False,
                        z_PublishedDNSKEYTTL := sz_dnskeyTTL res, z_PublishedMaxRRSIGTTL := sz_maxRRSIGTTL res\<rparr>
            in if PublicationMode cfg = PublicationImmediate then ConfirmPublication now now z4
               else z4\<lparr>z_PendingPublication := True\<rparr>)"
  by (simp add: record_signed_def Let_def)

text \<open>A field that the view shows can be read off it.\<close>

lemma record_signed_fields:
  fixes z :: zone_state and res :: signed_zone and cfg :: config
    and now warnNow :: gotime and domain d :: string
  defines "z' \<equiv> record_signed cfg domain now warnNow res d z"
  shows "z_Path (zview z') = (if sz_sourcePath res \<noteq> [] then sz_sourcePath res else z_Path z)"
    and "z_LastSigned (zview z') = now" and "z_ForceResign (zview z') = False"
    and "z_KSK (zview z') = z_KSK z" and "z_ZSK (zview z') = z_ZSK z" and "z_Rollover (zview z') = z_Rollover z"
    and "z_PublishedDNSKEYTTL (zview z') = sz_dnskeyTTL res" and "z_PublishedMaxRRSIGTTL (zview z') = sz_maxRRSIGTTL res"
  unfolding z'_def record_signed_view
  by (simp_all add: ConfirmPublication_def Let_def)

lemma zview_more [simp]:
  "z_PendingPublication (zview z) = z_PendingPublication z" "z_SignaturesExp (zview z) = z_SignaturesExp z"
  "z_PublishedSerial (zview z) = z_PublishedSerial z" "z_SourceDigest (zview z) = z_SourceDigest z"
  by (simp_all add: zview_def)

lemma record_signed_more:
  fixes z :: zone_state and res :: signed_zone and cfg :: config
    and now warnNow :: gotime and domain d :: string
  defines "z' \<equiv> record_signed cfg domain now warnNow res d z"
  shows "z_SignaturesExp z' = sz_sigExpiration res" and "z_PublishedSerial z' = sz_published res"
    and "z_SourceDigest z' = sz_srcDigest res"
    and "PublicationMode cfg \<noteq> PublicationImmediate \<Longrightarrow> z_PendingPublication z'"
proof -
  have "z_SignaturesExp (zview z') = sz_sigExpiration res \<and> z_PublishedSerial (zview z') = sz_published res \<and>
      z_SourceDigest (zview z') = sz_srcDigest res \<and>
      (PublicationMode cfg \<noteq> PublicationImmediate \<longrightarrow> z_PendingPublication (zview z'))"
    unfolding z'_def record_signed_view by (simp add: ConfirmPublication_def Let_def)
  then show "z_SignaturesExp z' = sz_sigExpiration res" "z_PublishedSerial z' = sz_published res"
    "z_SourceDigest z' = sz_srcDigest res"
    "PublicationMode cfg \<noteq> PublicationImmediate \<Longrightarrow> z_PendingPublication z'" by simp_all
qed

lemma record_signed_pub_consistent: "pub_consistent (record_signed cfg domain now warnNow res d z)"
proof -
  have "pub_consistent (zview (record_signed cfg domain now warnNow res d z))"
    unfolding record_signed_view pub_consistent_def by (simp add: ConfirmPublication_def Let_def)
  then show ?thesis by (simp add: pub_consistent_def)
qed

lemma record_signed_inv:
  assumes inv: "rollover_inv z" and path: "\<not> blank (sz_sourcePath res)" "CHR 0x00 \<notin> set (sz_sourcePath res)"
  shows "rollover_inv (record_signed cfg domain now warnNow res d z)"
proof -
  let ?z = "zview (record_signed cfg domain now warnNow res d z)"
  note f = record_signed_fields [of cfg domain now warnNow res d z]
  have "blank []" by (simp add: blank_def trim_left.simps [of "[]"])
  then have ne: "sz_sourcePath res \<noteq> []" using path(1) by auto
  have "rollover_ok ?z = rollover_ok z" using rollover_ok_cong [of ?z z] f by (simp add: fun_eq_iff)
  then have "zone_ok ?z" using inv path ne f by (simp add: zone_ok_def rollover_inv_def)
  then have "rollover_inv ?z" using inv f by (simp add: rollover_inv_def)
  then show ?thesis by simp
qed

section \<open>When a zone is signed\<close>

text \<open>The reasons that depend on the record and the clock alone.\<close>

definition must_sign :: "config \<Rightarrow> gotime \<Rightarrow> zone_state \<Rightarrow> bool" where
  "must_sign cfg now z \<longleftrightarrow>
     z_SignaturesExp z \<noteq> 0 \<and> (z_SignaturesExp z < now \<or> z_SignaturesExp z - c_SignatureRefresh (DNSSEC cfg) < now) \<or>
     z_ForceResign z \<or> (\<exists>r. z_Rollover z = Some r \<and> z_LastSigned z < r_Started r)"

lemma NeedsSign_must:
  assumes "must_sign cfg (now_at env (tick w)) z"
  shows "\<exists>reason. NeedsSign env lib src cfg domain path (Some z) w =
    (Inr (True, reason), w\<lparr>tick := Suc (tick w)\<rparr>)"
proof -
  let ?now = "now_at env (tick w)"
  consider "z_SignaturesExp z \<noteq> 0 \<and> z_SignaturesExp z < ?now"
    | "\<not> (z_SignaturesExp z \<noteq> 0 \<and> z_SignaturesExp z < ?now)"
      "z_SignaturesExp z \<noteq> 0 \<and> z_SignaturesExp z - c_SignatureRefresh (DNSSEC cfg) < ?now"
    | "\<not> (z_SignaturesExp z \<noteq> 0 \<and> z_SignaturesExp z < ?now)"
      "\<not> (z_SignaturesExp z \<noteq> 0 \<and> z_SignaturesExp z - c_SignatureRefresh (DNSSEC cfg) < ?now)" "z_ForceResign z"
    | r where "\<not> (z_SignaturesExp z \<noteq> 0 \<and> z_SignaturesExp z < ?now)"
      "\<not> (z_SignaturesExp z \<noteq> 0 \<and> z_SignaturesExp z - c_SignatureRefresh (DNSSEC cfg) < ?now)" "\<not> z_ForceResign z"
      "z_Rollover z = Some r" "z_LastSigned z < r_Started r"
    using assms unfolding must_sign_def by blast
  then show ?thesis
    by cases (simp_all only: NeedsSign_def option.case op_bind_clock if_True if_False op_ok_apply, simp_all)
qed

text \<open>
  A zone that is not signed has no such reason, an unchanged source path and a usable output;
  its source could not be read consistently, or holds the bytes that were published.
\<close>

lemma source_changed_False:
  assumes "source_changed env lib src domain path z info w = (Inr (False, reason), w')"
  shows "(\<exists>w0. fst (settling env src path info w0) = Inr True) \<or>
    (\<exists>w0 e. fst (sourceDigest lib src path w0) = Inl e \<and> \<not> is_source_too_large e) \<or>
    (z_SourceDigest z \<noteq> [] \<and> (\<exists>w0. fst (sourceDigest lib src path w0) = Inr (z_SourceDigest z)))"
proof -
  let ?changed = "(if z_SourceModTime z = 0 then z_LastSigned z else z_SourceModTime z) < fi_ModTime info \<or>
    z_SourceSize z \<noteq> 0 \<and> fi_Size info \<noteq> z_SourceSize z"
  obtain busy w1 where b: "(if ?changed then settling env src path info else op_ok False) w = (Inr busy, w1)"
    and rest: "(if busy then op_ok (False, []) else op_try (sourceDigest lib src path) (\<lambda>r. case r of
        Inl e \<Rightarrow> if is_source_too_large e then op_ok (True, ''zone file exceeds the source limit'') else op_ok (False, [])
      | Inr digest \<Rightarrow>
          if z_SourceDigest z = [] then
            op_ok (True, ''source content identity not recorded; publishing once to establish it'')
          else if digest = z_SourceDigest z then
            op_bind (if ?changed
              then Mutate domain (\<lambda>z. z\<lparr>z_SourceModTime := fi_ModTime info, z_SourceSize := fi_Size info\<rparr>)
              else op_ok ()) (\<lambda>_. op_ok (False, []))
          else if ?changed then op_ok (True, ''zone file modified'')
          else op_ok (True, ''zone file content changed (same size and modification time)''))) w1 = (Inr (False, reason), w')"
    using assms unfolding source_changed_def Let_def op_bind_Inr by blast
  show ?thesis
  proof (cases busy)
    case True
    then have "fst (settling env src path info w) = Inr True" using b by (auto split: if_splits)
    then show ?thesis by blast
  next
    case False
    obtain r2 w2 where d: "sourceDigest lib src path w1 = (r2, w2)" by (cases "sourceDigest lib src path w1")
    then show ?thesis
    proof (cases r2)
      case (Inl e)
      then have "\<not> is_source_too_large e" using rest False d by (auto simp: op_try_def split: if_splits)
      then show ?thesis using d Inl by (metis fst_conv)
    next
      case (Inr digest)
      have "z_SourceDigest z \<noteq> [] \<and> digest = z_SourceDigest z"
      proof (rule ccontr)
        assume "\<not> ?thesis"
        then show False using rest False d Inr by (auto simp: op_try_def split: if_splits)
      qed
      then show ?thesis using d Inr by (metis fst_conv)
    qed
  qed
qed

definition source_settled ::
  "env \<Rightarrow> siglib \<Rightarrow> source_env \<Rightarrow> string \<Rightarrow> zone_state \<Rightarrow> bool" where
  "source_settled env lib src path z \<longleftrightarrow>
     (\<exists>t e. src_stat_at src t path = Inl e) \<or>
     (\<exists>info w0. fst (settling env src path info w0) = Inr True) \<or>
     (\<exists>w0 e. fst (sourceDigest lib src path w0) = Inl e \<and> \<not> is_source_too_large e) \<or>
     (z_SourceDigest z \<noteq> [] \<and> (\<exists>w0. fst (sourceDigest lib src path w0) = Inr (z_SourceDigest z)))"

lemma check_source_False:
  assumes "check_source env lib src domain path z w = (Inr (False, reason), w')"
  shows "source_settled env lib src path z"
proof (cases "src_stat_at src (tick w) path")
  case (Inl e)
  then show ?thesis unfolding source_settled_def by blast
next
  case (Inr info)
  then have "source_changed env lib src domain path z info (w\<lparr>tick := Suc (tick w)\<rparr>) = (Inr (False, reason), w')"
    using assms by (simp add: check_source_def op_try_def src_call_def)
  from source_changed_False [OF this] show ?thesis unfolding source_settled_def by blast
qed

lemma NeedsSign_False:
  assumes run: "NeedsSign env lib src cfg domain path (Some z) w = (Inr (False, reason), w')"
  shows "\<not> must_sign cfg (now_at env (tick w)) z"
    and "z_Path z \<noteq> [] \<Longrightarrow> path_clean path = path_clean (z_Path z)"
    and "z_LastSigned z \<noteq> 0 \<Longrightarrow> content w (OutputPath cfg domain) \<noteq> None"
    and "source_settled env lib src path z"
proof -
  show must: "\<not> must_sign cfg (now_at env (tick w)) z"
  proof
    assume "must_sign cfg (now_at env (tick w)) z"
    from NeedsSign_must [OF this, of lib src domain path] run show False by auto
  qed
  let ?w1 = "w\<lparr>tick := Suc (tick w)\<rparr>"
  let ?out = "if z_LastSigned z \<noteq> 0 then outputUnusable env cfg domain else op_ok []"
  have nope: "\<not> (z_SignaturesExp z \<noteq> 0 \<and> z_SignaturesExp z < now_at env (tick w))"
    "\<not> (z_SignaturesExp z \<noteq> 0 \<and> z_SignaturesExp z - c_SignatureRefresh (DNSSEC cfg) < now_at env (tick w))"
    "\<not> z_ForceResign z" "\<not> (case z_Rollover z of Some r \<Rightarrow> z_LastSigned z < r_Started r | None \<Rightarrow> False)"
    using must unfolding must_sign_def by (auto split: option.splits)
  have p: "\<not> (z_Path z \<noteq> [] \<and> path_clean path \<noteq> path_clean (z_Path z))"
  proof
    assume c: "z_Path z \<noteq> [] \<and> path_clean path \<noteq> path_clean (z_Path z)"
    then show False using run by (simp only: NeedsSign_def option.case op_bind_clock nope if_True if_False op_ok_apply) simp
  qed
  then show "z_Path z \<noteq> [] \<Longrightarrow> path_clean path = path_clean (z_Path z)" by blast
  have "op_bind ?out (\<lambda>reason. if reason \<noteq> [] then op_ok (True, reason)
      else check_source env lib src domain path z) ?w1 = (Inr (False, reason), w')"
    using run by (simp only: NeedsSign_def option.case op_bind_clock nope p if_False)
  then obtain rs w2 where o1: "?out ?w1 = (Inr rs, w2)" and
    o2: "(if rs \<noteq> [] then op_ok (True, rs) else check_source env lib src domain path z) w2 = (Inr (False, reason), w')"
    unfolding op_bind_Inr by blast
  have rs: "rs = []" using o2 by (cases "rs = []") auto
  with o2 show "source_settled env lib src path z" by (auto intro: check_source_False)
  show "content w (OutputPath cfg domain) \<noteq> None" if "z_LastSigned z \<noteq> 0"
    using o1 that rs unfolding outputUnusable_def
    by (auto simp: op_try_def statExists_def io_step_def Let_def split: io_outcome.splits if_splits bool.splits)
qed

section \<open>Signature windows\<close>

text \<open>The recorded expiration is that of some signature, and no signature expires before it.\<close>

lemma earliest_from_le:
  "earliest_from now rs e = e' \<Longrightarrow> (\<And>sig. RRSIG sig \<in> set rs \<Longrightarrow> serialTime (sig_Expiration sig) now \<noteq> 0) \<Longrightarrow>
   (e \<noteq> 0 \<longrightarrow> e' \<le> e) \<and> (\<forall>sig. RRSIG sig \<in> set rs \<longrightarrow> e' \<le> serialTime (sig_Expiration sig) now) \<and>
   (e' = e \<and> (e \<noteq> 0 \<or> (\<forall>sig. RRSIG sig \<notin> set rs)) \<or>
    (\<exists>sig. RRSIG sig \<in> set rs \<and> e' = serialTime (sig_Expiration sig) now))"
proof (induction now rs e rule: earliest_from.induct)
  case (2 now sig rs e)
  let ?x = "serialTime (sig_Expiration sig) now"
  let ?e = "if e = 0 \<or> ?x < e then ?x else e"
  have x: "?x \<noteq> 0" using 2(3) by simp
  have "(?e \<noteq> 0 \<longrightarrow> e' \<le> ?e) \<and> (\<forall>sig. RRSIG sig \<in> set rs \<longrightarrow> e' \<le> serialTime (sig_Expiration sig) now) \<and>
     (e' = ?e \<and> (?e \<noteq> 0 \<or> (\<forall>sig. RRSIG sig \<notin> set rs)) \<or>
      (\<exists>sig. RRSIG sig \<in> set rs \<and> e' = serialTime (sig_Expiration sig) now))"
    using 2(2,3) by (intro 2(1)) (auto simp: Let_def)
  then show ?case using x by (auto split: if_splits)
qed auto

lemma earliest_expiration:
  assumes "0 \<le> Unix now" and sig: "RRSIG sig \<in> set rs"
  shows "earliestRRSIGExpiration now rs \<le> serialTime (sig_Expiration sig) now"
    and "\<exists>sig. RRSIG sig \<in> set rs \<and> earliestRRSIGExpiration now rs = serialTime (sig_Expiration sig) now"
proof -
  have nz: "serialTime x now \<noteq> 0" for x
    using serialTime_near [of x now] assms(1) by (auto simp: Unix_def unixToInternal_def)
  note le = earliest_from_le [of now rs 0, OF refl nz, folded earliestRRSIGExpiration_def]
  show "earliestRRSIGExpiration now rs \<le> serialTime (sig_Expiration sig) now" using le sig by blast
  show "\<exists>sig. RRSIG sig \<in> set rs \<and> earliestRRSIGExpiration now rs = serialTime (sig_Expiration sig) now"
    using le sig by blast
qed

end
