(* ===== verification/Sign_Windows.thy ===== *)
theory Sign_Windows
  imports Zone_Signatures
begin

text \<open>
  The validity window of the signatures: a signature made with a checked configuration passes
  the window check of the verification that follows within ten minutes, and a signature that
  passes expires within ten minutes of the configured validity.
\<close>

section \<open>Differences of times\<close>

lemma Unix_diff:
  assumes "a \<le> b"
  shows "(b - a) div Second \<le> Unix b - Unix a" and "Unix b - Unix a \<le> (b - a) div Second + 1"
proof -
  define S where "S = (Second :: int)"
  have S: "0 < S" by (simp add: S_def Second_def)
  let ?x = "a mod S" and ?y = "(b - a) mod S"
  have "b = a + (b - a)" by simp
  then have "b div S = a div S + (b - a) div S + (?x + ?y) div S" by (metis div_add1_eq)
  moreover have "0 \<le> (?x + ?y) div S"
    using S by (simp add: pos_imp_zdiv_nonneg_iff)
  moreover have "(?x + ?y) div S \<le> 1"
  proof -
    have "(?x + ?y) div S * S \<le> ?x + ?y" using S minus_mod_eq_div_mult [of "?x + ?y" S] pos_mod_sign [OF S, of "?x + ?y"] by linarith
    also have "\<dots> < 2 * S" using pos_mod_bound [OF S, of a] pos_mod_bound [OF S, of "b - a"] by linarith
    finally show ?thesis using S by (simp only: mult_less_cancel_right) linarith
  qed
  ultimately show "(b - a) div Second \<le> Unix b - Unix a" "Unix b - Unix a \<le> (b - a) div Second + 1"
    unfolding Unix_def S_def by linarith+
qed

lemma Unix_mono: "a \<le> b \<Longrightarrow> Unix a \<le> Unix b"
  by (simp add: Unix_def Second_def zdiv_mono1)

lemma uint_word_of_int_diff:
  assumes "0 \<le> x - y" and "x - y < 2 ^ 32"
  shows "uint (word_of_int x - word_of_int y :: 32 word) = x - y"
proof -
  have "word_of_int x - word_of_int y = (word_of_int (x - y) :: 32 word)" by simp
  moreover have "uint (word_of_int (x - y) :: 32 word) = x - y"
    unfolding uint_word_of_int_eq using assms by (intro take_bit_int_eq_self) simp_all
  ultimately show ?thesis by metis
qed

lemma sint_word_of_int_diff:
  assumes "- (2 ^ 31) \<le> x - y" and "x - y < 2 ^ 31"
  shows "sint (word_of_int x - word_of_int y :: 32 word) = x - y"
proof -
  have "word_of_int x - word_of_int y = (word_of_int (x - y) :: 32 word)" by simp
  moreover have "sint (word_of_int (x - y) :: 32 word) = x - y"
    unfolding sint_sbintrunc' using assms by (intro signed_take_bit_int_eq_self) simp_all
  ultimately show ?thesis by metis
qed

section \<open>Accepted timing\<close>

lemma ValidateSignatureTiming_Inr:
  assumes "ValidateSignatureTiming validity refresh poll = Inr ()"
  shows "MinSignatureValidity \<le> validity" "validity \<le> MaxSignatureValidity"
    "MinSignatureRefresh \<le> refresh" "refresh < validity"
  using assms by (auto simp: ValidateSignatureTiming_def Let_def split: if_splits)

text \<open>
  RFC 1982 as the DNS library documents it for \<open>ValidityPeriod\<close>: the signature holds
  between its inception and its expiration, compared as serial numbers.
\<close>

definition validity_law :: "siglib \<Rightarrow> bool" where
  "validity_law lib \<longleftrightarrow> (\<forall>sig t. ValidityPeriod lib sig t \<longleftrightarrow>
     \<not> serialGt (sig_Inception sig) (unix32 t) \<and> \<not> serialGt (unix32 t) (sig_Expiration sig))"

lemma serialGt_unix:
  assumes "x - y < 2 ^ 31" "y \<le> x"
  shows "\<not> serialGt (word_of_int y) (word_of_int x)"
proof (cases "x = y")
  case False
  then have "0 < uint (word_of_int x - word_of_int y :: 32 word)" "uint (word_of_int x - word_of_int y :: 32 word) < 2 ^ 31"
    using assms by (simp_all add: uint_word_of_int_diff)
  then show ?thesis using serialGt_asym serialGt_iff by blast
qed simp

lemma created_window:
  fixes inst now :: gotime
  assumes law: "validity_law lib"
    and cfg: "ValidateSignatureTiming (c_SignatureValidity (DNSSEC cfg)) refresh poll = Inr ()"
    and late: "inst \<le> now" "now < inst + signingWindowTolerance"
    and sig: "sig_Inception sig = unix32 (inst - SignatureInceptionBackdate)"
      "sig_Expiration sig = unix32 (inst + c_SignatureValidity (DNSSEC cfg))"
  shows "checkRRSIGWindow lib cfg sig now = Inr ()"
proof -
  let ?v = "c_SignatureValidity (DNSSEC cfg)"
  let ?b = "SignatureInceptionBackdate"
  note v = ValidateSignatureTiming_Inr [OF cfg]
  note units = MinSignatureValidity_def MaxSignatureValidity_def SignatureInceptionBackdate_def
    signingWindowTolerance_def Hour_def Minute_def Second_def
  have vb: "3600 * Second \<le> ?v" "?v \<le> 31622400 * Second" using v(1,2) by (simp_all add: units)
  define i e n where "i = Unix (inst - ?b)" and "e = Unix (inst + ?v)" and "n = Unix now"
  define i' e' where "i' = Unix (now - ?b)" and "e' = Unix (now + ?v)"
  have "(inst + ?v - (inst - ?b)) div Second = (?v + ?b) div Second" by simp
  then have span: "(?v + ?b) div Second \<le> e - i" "e - i \<le> (?v + ?b) div Second + 1"
    using Unix_diff [of "inst - ?b" "inst + ?v"] vb by (simp_all add: i_def e_def units)
  have q: "7200 \<le> (?v + ?b) div Second" "(?v + ?b) div Second \<le> 31626000"
    using vb by (simp_all add: units)
  have i'i: "0 \<le> i' - i" "i' - i \<le> 600" 
    using Unix_diff [of "inst - ?b" "now - ?b"] late by (simp_all add: i_def i'_def units)
  have e'e: "0 \<le> e' - e" "e' - e \<le> 600"
    using Unix_diff [of "inst + ?v" "now + ?v"] late by (simp_all add: e_def e'_def units)
  have ord: "i \<le> n" "n \<le> e"
    unfolding i_def n_def e_def using late vb by (intro Unix_mono; simp add: units)+
  have sI: "sig_Inception sig = word_of_int i" and sE: "sig_Expiration sig = word_of_int e"
    using sig by (simp_all add: i_def e_def)
  have valid: "ValidityPeriod lib sig now"
    using law serialGt_unix [of n i] serialGt_unix [of e n] ord span q
    unfolding validity_law_def by (simp add: sI sE n_def)
  have tol: "trunc_div signingWindowTolerance Second = 600" by (simp add: units trunc_div_def)
  have want: "trunc_div (wrap64 (?b + ?v)) Second = (?v + ?b) div Second"
  proof -
    have "wrap64 (?b + ?v) = ?v + ?b" using vb by (subst wrap64_id) (simp_all add: units)
    then show ?thesis using vb by (simp add: trunc_div_def units)
  qed
  have sp: "uint (word_of_int e - word_of_int i :: 32 word) = e - i"
    using span q by (intro uint_word_of_int_diff) simp_all
  have di: "sint (word_of_int i - word_of_int i' :: 32 word) = i - i'"
    using i'i by (intro sint_word_of_int_diff) simp_all
  have de: "sint (word_of_int e - word_of_int e' :: 32 word) = e - e'"
    using e'e by (intro sint_word_of_int_diff) simp_all
  show ?thesis
    unfolding checkRRSIGWindow_def Let_def tol want sI sE i'_def [symmetric] e'_def [symmetric] sp di de
    using valid span q i'i e'e by auto
qed

text \<open>A signature that passes expires, on the absolute time line, when the configuration says.\<close>

lemma accepted_window:
  assumes ok: "checkRRSIGWindow lib cfg sig now = Inr ()"
    and cfg: "ValidateSignatureTiming (c_SignatureValidity (DNSSEC cfg)) refresh poll = Inr ()"
  shows "\<bar>Unix (serialTime (sig_Expiration sig) now) - Unix (now + c_SignatureValidity (DNSSEC cfg))\<bar> \<le> 600"
    and "\<bar>Unix (serialTime (sig_Inception sig) now) - Unix (now - SignatureInceptionBackdate)\<bar> \<le> 600"
proof -
  let ?v = "c_SignatureValidity (DNSSEC cfg)"
  note units = MinSignatureValidity_def MaxSignatureValidity_def SignatureInceptionBackdate_def
    signingWindowTolerance_def Hour_def Minute_def Second_def
  note v = ValidateSignatureTiming_Inr [OF cfg]
  have tol: "trunc_div signingWindowTolerance Second = 600" by (simp add: units trunc_div_def)
  have place: "\<bar>Unix (serialTime s now) - x\<bar> \<le> 600"
    if "\<bar>sint (s - word_of_int x :: 32 word)\<bar> \<le> 600" "\<bar>x - Unix now\<bar> \<le> 2 ^ 30" for s x
  proof -
    define d where "d = sint (s - word_of_int x :: 32 word)"
    have "word_of_int (x + d) = s" by (simp add: d_def flip: wi_hom_add)
    then have "Unix (serialTime s now) = x + d"
      using that by (intro serialTime_unique) (auto simp: d_def)
    then show ?thesis using that d_def by simp
  qed
  have "\<bar>Unix (now + ?v) - Unix now\<bar> \<le> 2 ^ 30"
    using Unix_diff [of now "now + ?v"] v by (auto simp: units)
  moreover have "\<bar>sint (sig_Expiration sig - unix32 (now + ?v))\<bar> \<le> 600"
    using ok unfolding checkRRSIGWindow_def Let_def tol by (auto split: if_splits)
  ultimately show "\<bar>Unix (serialTime (sig_Expiration sig) now) - Unix (now + ?v)\<bar> \<le> 600"
    by (rule place [rotated])
  have "\<bar>Unix (now - SignatureInceptionBackdate) - Unix now\<bar> \<le> 2 ^ 30"
    using Unix_diff [of "now - SignatureInceptionBackdate" now] by (auto simp: units)
  moreover have "\<bar>sint (sig_Inception sig - unix32 (now - SignatureInceptionBackdate))\<bar> \<le> 600"
    using ok unfolding checkRRSIGWindow_def Let_def tol by (auto split: if_splits)
  ultimately show "\<bar>Unix (serialTime (sig_Inception sig) now) - Unix (now - SignatureInceptionBackdate)\<bar> \<le> 600"
    by (rule place [rotated])
qed

end
