(* ===== verification/Sign_Verify.thy ===== *)
theory Sign_Verify
  imports Sign_Laws Sign_Windows
begin

text \<open>
  What the signer signs, its own verification accepts: with keys that correspond and a DNS
  library whose \<open>Sign\<close> and \<open>Verify\<close> agree, the zone that
  \<open>signRecordsWithModel\<close> returns passes \<open>verifySignedZoneWithModel\<close>.
\<close>

section \<open>Keys and the library\<close>

text \<open>A private key as the library takes it belongs to a published key.\<close>

fun matching :: "keylib \<Rightarrow> dnskey \<Rightarrow> signer_key \<Rightarrow> bool" where
  "matching lib k (EdSeed seed) \<longleftrightarrow> b64_decode (dk_PublicKey k) = Some (EdPublic lib seed)"
| "matching lib k (EcScalar c d) \<longleftrightarrow>
     (let sz = (case c of P256 \<Rightarrow> 32 | P384 \<Rightarrow> 48); (x, y) = BaseMult lib c d in
      b64_decode (dk_PublicKey k) = Some (FillBytes sz x @ FillBytes sz y))"
| "matching lib k (RsaKey p) \<longleftrightarrow> rsaPublicKeyFromDNSKEY k = Inr (rsa_N p, rsa_E p)"

definition is_rrset :: "rr list \<Rightarrow> bool" where
  "is_rrset rs \<longleftrightarrow> rs \<noteq> [] \<and> (\<forall>r \<in> set rs. owner r = owner (hd rs) \<and> Rrtype r = Rrtype (hd rs) \<and>
     h_Class (Header r) = h_Class (Header (hd rs)))"

text \<open>
  The library's documentation of the two methods: \<open>Sign\<close> fills in the signature and
  the label count, and \<open>Verify\<close> accepts the result over the same RRset with the
  matching key.
\<close>

definition signing_law :: "siglib \<Rightarrow> bool" where
  "signing_law lib \<longleftrightarrow>
     (\<forall>sig sk rs s. Sign lib sig sk rs = Some s \<longrightarrow>
        s = sig\<lparr>sig_Labels := sig_Labels s, sig_Signature := sig_Signature s\<rparr>) \<and>
     (\<forall>sig sk rs s dk. Sign lib sig sk rs = Some s \<and> matching (klib (dlib lib)) dk sk \<and> is_rrset rs \<and>
        sig_KeyTag sig = KeyTag (klib (dlib lib)) dk \<and> sig_Algorithm sig = dk_Algorithm dk \<and>
        EqualFold (dk_Name dk) (sig_SignerName sig) \<and> dk_Protocol dk = 3 \<and>
        h_Class (sig_Hdr sig) = h_Class (Header (hd rs)) \<and> sig_TypeCovered sig = Rrtype (hd rs) \<and>
        h_Name (sig_Hdr sig) = owner (hd rs) \<longrightarrow> Verify lib s dk rs)"

lemma call_Sign_Inr [simp]: "call_Sign lib sig k rs = Inr s \<longleftrightarrow> Sign lib sig k rs = Some s"
  by (auto simp: call_Sign_def split: option.splits)

lemma signRRSIGWithAlgorithm_matching:
  assumes sign: "signRRSIGWithAlgorithm lib sig rs dk priv = Inr s"
    and pair: "VerifyKeyPairCorrespondence (klib (dlib lib)) dk priv = Inr ()"
  shows "\<exists>sk. Sign lib sig sk rs = Some s \<and> matching (klib (dlib lib)) dk sk"
proof -
  let ?kl = "klib (dlib lib)"
  consider (ed) "dk_Algorithm dk = ED25519" | (p256) "dk_Algorithm dk = ECDSAP256SHA256"
    | (p384) "dk_Algorithm dk = ECDSAP384SHA384" | (rsa) "dk_Algorithm dk = RSASHA256 \<or> dk_Algorithm dk = RSASHA512"
    using sign by (auto simp: signRRSIGWithAlgorithm_def split: if_splits)
  then show ?thesis
  proof cases
    case ed
    then obtain pub where pub: "b64_decode (dk_PublicKey dk) = Some pub" "verify_ed25519 ?kl priv pub = Inr ()"
      using pair by (auto simp: VerifyKeyPairCorrespondence_def isRSA_def isSHA1RSA_def split: option.splits)
    have "Sign lib sig (EdSeed (take 32 priv)) rs = Some s"
      using sign ed by (auto simp: signRRSIGWithAlgorithm_def split: if_splits)
    moreover have "pub = EdPublic ?kl (take 32 priv)"
      using pub(2) by (auto simp: verify_ed25519_def Let_def split: if_splits)
    ultimately show ?thesis using pub(1) by (intro exI [of _ "EdSeed (take 32 priv)"]) simp
  next
    case p256
    then obtain pub where pub: "b64_decode (dk_PublicKey dk) = Some pub" "verifyECDSACorrespondence ?kl P256 32 priv pub = Inr ()"
      using pair by (auto simp: VerifyKeyPairCorrespondence_def isRSA_def isSHA1RSA_def split: option.splits)
    have "Sign lib sig (EcScalar P256 priv) rs = Some s"
      using sign p256 by (auto simp: signRRSIGWithAlgorithm_def split: if_splits)
    then show ?thesis using pub
      by (intro exI [of _ "EcScalar P256 priv"]) (auto simp: verifyECDSACorrespondence_def Let_def split: if_splits prod.splits)
  next
    case p384
    then obtain pub where pub: "b64_decode (dk_PublicKey dk) = Some pub" "verifyECDSACorrespondence ?kl P384 48 priv pub = Inr ()"
      using pair by (auto simp: VerifyKeyPairCorrespondence_def isRSA_def isSHA1RSA_def split: option.splits)
    have "Sign lib sig (EcScalar P384 priv) rs = Some s"
      using sign p384 by (auto simp: signRRSIGWithAlgorithm_def split: if_splits)
    then show ?thesis using pub
      by (intro exI [of _ "EcScalar P384 priv"]) (auto simp: verifyECDSACorrespondence_def Let_def split: if_splits prod.splits)
  next
    case rsa
    then have "verifyRSACorrespondence ?kl dk priv = Inr ()"
      using pair by (auto simp: VerifyKeyPairCorrespondence_def isRSA_def)
    moreover obtain p where "rsaPrivateKeyFromBytes ?kl priv = Inr p" "Sign lib sig (RsaKey p) rs = Some s"
      using sign rsa by (auto simp: signRRSIGWithAlgorithm_def split: sum.splits)
    ultimately show ?thesis
      by (intro exI [of _ "RsaKey p"]) (auto simp: verifyRSACorrespondence_def split: sum.splits if_splits)
  qed
qed

section \<open>The signatures made\<close>

definition made_by ::
  "siglib \<Rightarrow> string \<Rightarrow> gotime \<Rightarrow> gotime \<Rightarrow> rr list \<Rightarrow> dnskey \<times> bytes \<Rightarrow> rrsig \<Rightarrow> bool" where
  "made_by lib domain inc ex rs kp s \<longleftrightarrow>
     signRRSIG lib (createRRSIG lib rs (fst kp) domain inc ex) rs (fst kp) (snd kp) = Inr s"

lemma sign_with_made:
  assumes "sign_with lib domain inc ex rs ks = Inr ss"
  shows "(\<forall>s \<in> set ss. \<exists>kp \<in> set ks. made_by lib domain inc ex rs kp s) \<and>
    (\<forall>kp \<in> set ks. \<exists>s \<in> set ss. made_by lib domain inc ex rs kp s)"
  using assms
proof (induction ks arbitrary: ss)
  case (Cons kp ks)
  obtain k priv where kp: "kp = (k, priv)" by (cases kp)
  with Cons.prems obtain s ss' where "made_by lib domain inc ex rs kp s" "ss = s # ss'"
    "sign_with lib domain inc ex rs ks = Inr ss'"
    by (auto simp: made_by_def split: sum.splits)
  with Cons.IH show ?case by auto
qed simp

lemma sign_sets_made:
  assumes "sign_sets lib m domain inc ex keys rrsets ks = Inr ss"
  shows "(\<forall>s \<in> set ss. \<exists>k \<in> set ks. lookup_rrset rrsets k \<noteq> [] \<and> signable (dlib lib) m (fst k) (snd k) \<and>
      (\<exists>kp \<in> set (signing_pairs keys (snd k)).
         made_by lib domain inc ex (canonicalRRset (dlib lib) (lookup_rrset rrsets k)) kp s)) \<and>
    (\<forall>k \<in> set ks. lookup_rrset rrsets k \<noteq> [] \<and> signable (dlib lib) m (fst k) (snd k) \<longrightarrow>
      (\<forall>kp \<in> set (signing_pairs keys (snd k)). \<exists>s \<in> set ss.
         made_by lib domain inc ex (canonicalRRset (dlib lib) (lookup_rrset rrsets k)) kp s))"
  using assms
proof (induction ks arbitrary: ss)
  case (Cons k ks)
  let ?rs = "canonicalRRset (dlib lib) (lookup_rrset rrsets k)"
  show ?case
  proof (cases "lookup_rrset rrsets k = [] \<or> \<not> signable (dlib lib) m (fst k) (snd k)")
    case True
    then show ?thesis using Cons by (auto simp: Let_def)
  next
    case False
    then obtain s1 s2 where s: "sign_with lib domain inc ex ?rs (signing_pairs keys (snd k)) = Inr s1"
      "sign_sets lib m domain inc ex keys rrsets ks = Inr s2" "ss = s1 @ s2"
      using Cons.prems by (auto simp: Let_def split: sum.splits)
    show ?thesis using Cons.IH [OF s(2)] sign_with_made [OF s(1)] False by (simp add: s(3)) blast
  qed
qed simp

section \<open>They verify\<close>

text \<open>
  The keys of a signing pass: published, corresponding, in their role, with distinct tags, and
  one of each role for every published algorithm.
\<close>

definition complete_keys :: "keylib \<Rightarrow> string \<Rightarrow> signing_keys \<Rightarrow> bool" where
  "complete_keys lib domain k \<longleftrightarrow>
     sk_dnskeys k \<noteq> [] \<and> distinct (map (KeyTag lib) (sk_dnskeys k)) \<and> (\<forall>dk \<in> set (sk_dnskeys k). dk_Protocol dk = 3) \<and>
     length (sk_signingKSKPs k) = length (sk_signingKSKs k) \<and> length (sk_signingZSKPs k) = length (sk_signingZSKs k) \<and>
     set (sk_signingKSKs k) \<union> set (sk_signingZSKs k) \<subseteq> set (sk_dnskeys k) \<and>
     list_all (pair_ok lib domain ''ksk'') (zip (sk_signingKSKs k) (sk_signingKSKPs k)) \<and>
     list_all (pair_ok lib domain ''zsk'') (zip (sk_signingZSKs k) (sk_signingZSKPs k)) \<and>
     (\<forall>dk \<in> set (sk_dnskeys k). dk_Algorithm dk \<in> dk_Algorithm ` set (sk_signingKSKs k) \<and>
        dk_Algorithm dk \<in> dk_Algorithm ` set (sk_signingZSKs k))"

lemma pair_ok_role:
  assumes "pair_ok lib domain kt kp"
  shows "EqualFold (dk_Name (fst kp)) (Fqdn lib domain)" and "odd (uint (dk_Flags (fst kp))) \<longleftrightarrow> kt = ''ksk''"
    and "VerifyKeyPairCorrespondence lib (fst kp) (snd kp) = Inr ()"
  using assms by (auto simp: pair_ok_def validateLoadedKey_def split: if_splits)

lemma signing_pairs_ok:
  assumes "complete_keys lib domain keys" and "kp \<in> set (signing_pairs keys t)"
  shows "fst kp \<in> set (sk_dnskeys keys)" and "pair_ok lib domain (if t = TypeDNSKEY then ''ksk'' else ''zsk'') kp"
  using assms unfolding complete_keys_def signing_pairs_def
  by (cases kp; auto simp: list_all_iff dest: set_zip_leftD split: if_splits; blast)+

lemma signing_pairs_cover:
  assumes c: "complete_keys lib domain keys" and dk: "dk \<in> set (sk_dnskeys keys)"
  shows "\<exists>kp \<in> set (signing_pairs keys t). dk_Algorithm (fst kp) = dk_Algorithm dk"
proof -
  have *: "\<exists>kp \<in> set (zip xs ps). dk_Algorithm (fst kp) = a"
    if "a \<in> dk_Algorithm ` set xs" "length ps = length xs" for a xs and ps :: "bytes list"
  proof -
    from that obtain i where "i < length xs" "dk_Algorithm (xs ! i) = a" by (auto simp: in_set_conv_nth)
    then show ?thesis using that(2) by (intro bexI [of _ "zip xs ps ! i"]) (auto simp: in_set_conv_nth)
  qed
  show ?thesis unfolding signing_pairs_def using c dk by (auto simp: complete_keys_def intro!: *)
qed

lemma canonicalRRset_rrset:
  assumes "\<forall>r \<in> set rs. canon lib r = fst k \<and> Rrtype r = snd k \<and> h_Class (Header r) = c" and "rs \<noteq> []"
  shows "is_rrset (canonicalRRset lib rs)" and "owner (hd (canonicalRRset lib rs)) = fst k"
    and "Rrtype (hd (canonicalRRset lib rs)) = snd k" and "h_Class (Header (hd (canonicalRRset lib rs))) = c"
proof -
  have h: "Header (map_header f r) = f (Header r)" for f r by (cases r) simp_all
  have *: "owner r = fst k \<and> Rrtype r = snd k \<and> h_Class (Header r) = c" if "r \<in> set (canonicalRRset lib rs)" for r
    using that assms(1) by (auto simp: canonicalRRset_def h)
  have ne: "canonicalRRset lib rs \<noteq> []" using assms(2) by (simp add: canonicalRRset_def)
  show "is_rrset (canonicalRRset lib rs)" unfolding is_rrset_def using * ne hd_in_set [OF ne] by metis
  show "owner (hd (canonicalRRset lib rs)) = fst k" "Rrtype (hd (canonicalRRset lib rs)) = snd k"
    "h_Class (Header (hd (canonicalRRset lib rs))) = c" using * [OF hd_in_set [OF ne]] by simp_all
qed

lemma made_by_verifies:
  assumes law: "signing_law lib" and keys: "complete_keys (klib (dlib lib)) domain keys"
    and made: "made_by lib domain inc ex (canonicalRRset (dlib lib) rs) kp s"
    and kp: "kp \<in> set (signing_pairs keys (snd k))"
    and rs: "\<forall>r \<in> set rs. canon (dlib lib) r = fst k \<and> Rrtype r = snd k \<and> h_Class (Header r) = ClassINET" "rs \<noteq> []"
  shows "Verify lib s (fst kp) (canonicalRRset (dlib lib) rs)" and "h_Name (sig_Hdr s) = fst k"
    and "sig_TypeCovered s = snd k" and "sig_Inception s = unix32 inc" and "sig_Expiration s = unix32 ex"
    and "sig_KeyTag s = KeyTag (klib (dlib lib)) (fst kp)" and "sig_Algorithm s = dk_Algorithm (fst kp)"
    and "sig_Labels s = rrsigLabels (dlib lib) (fst k)"
proof -
  let ?rs = "canonicalRRset (dlib lib) rs"
  let ?c = "createRRSIG lib ?rs (fst kp) domain inc ex"
  note r = canonicalRRset_rrset [OF rs]
  obtain sw: "signRRSIGWithAlgorithm lib ?c ?rs (fst kp) (snd kp) = Inr s" and lab: "sig_Labels s = sig_Labels ?c"
    using made by (auto simp: made_by_def signRRSIG_def split: sum.splits if_splits)
  have pok: "pair_ok (klib (dlib lib)) domain (if snd k = TypeDNSKEY then ''ksk'' else ''zsk'') kp"
    and pub: "fst kp \<in> set (sk_dnskeys keys)" using signing_pairs_ok [OF keys kp] by simp_all
  obtain sk where sk: "Sign lib ?c sk ?rs = Some s" "matching (klib (dlib lib)) (fst kp) sk"
    using signRRSIGWithAlgorithm_matching [OF sw pair_ok_role(3) [OF pok]] by blast
  have s: "s = ?c\<lparr>sig_Labels := sig_Labels s, sig_Signature := sig_Signature s\<rparr>"
    using law sk(1) by (simp add: signing_law_def)
  have prot: "dk_Protocol (fst kp) = 3" using keys pub by (simp add: complete_keys_def)
  have "sig_KeyTag ?c = KeyTag (klib (dlib lib)) (fst kp) \<and> sig_Algorithm ?c = dk_Algorithm (fst kp) \<and>
     sig_SignerName ?c = Fqdn (klib (dlib lib)) domain \<and> h_Class (sig_Hdr ?c) = ClassINET \<and>
     sig_TypeCovered ?c = Rrtype (hd ?rs) \<and> h_Name (sig_Hdr ?c) = owner (hd ?rs)"
    by (simp add: createRRSIG_def Let_def)
  then show "Verify lib s (fst kp) ?rs"
    using law sk r prot pair_ok_role(1) [OF pok] unfolding signing_law_def by metis
  have c: "h_Name (sig_Hdr ?c) = fst k" "sig_TypeCovered ?c = snd k" "sig_Inception ?c = unix32 inc"
    "sig_Expiration ?c = unix32 ex" "sig_KeyTag ?c = KeyTag (klib (dlib lib)) (fst kp)"
    "sig_Algorithm ?c = dk_Algorithm (fst kp)" "sig_Labels ?c = rrsigLabels (dlib lib) (fst k)"
    using r by (simp_all add: createRRSIG_def Let_def)
  show "h_Name (sig_Hdr s) = fst k" "sig_TypeCovered s = snd k" "sig_Inception s = unix32 inc"
    "sig_Expiration s = unix32 ex" "sig_KeyTag s = KeyTag (klib (dlib lib)) (fst kp)"
    "sig_Algorithm s = dk_Algorithm (fst kp)" by (subst s, simp add: c)+
  show "sig_Labels s = rrsigLabels (dlib lib) (fst k)" using lab c by simp
qed

lemma find_Some: "x \<in> set xs \<Longrightarrow> P x \<Longrightarrow> \<exists>y. List.find P xs = Some y \<and> y \<in> set xs \<and> P y"
  by (induction xs) auto

lemma made_by_accepted:
  assumes law: "signing_law lib" and keys: "complete_keys (klib (dlib lib)) domain keys"
    and made: "made_by lib domain inc ex (canonicalRRset (dlib lib) rs) kp s"
    and kp: "kp \<in> set (signing_pairs keys (snd k))"
    and rs: "\<forall>r \<in> set rs. canon (dlib lib) r = fst k \<and> Rrtype r = snd k \<and> h_Class (Header r) = ClassINET" "rs \<noteq> []"
    and look: "lookup_rrset rrsets k = rs" and name: "canonicalName (dlib lib) (fst k) = fst k"
    and window: "checkRRSIGWindow lib cfg s now = Inr ()"
  shows "verify_sig lib cfg now keys rrsets s = Inr (k, dk_Algorithm (fst kp), snd k = TypeDNSKEY)"
proof -
  let ?kl = "klib (dlib lib)" and ?rs = "canonicalRRset (dlib lib) rs"
  let ?P = "\<lambda>dk. KeyTag ?kl dk = sig_KeyTag s \<and> dk_Algorithm dk = sig_Algorithm s \<and> Verify lib s dk ?rs"
  note v = made_by_verifies [OF law keys made kp rs]
  note p = signing_pairs_ok [OF keys kp]
  obtain dk where dk: "List.find ?P (sk_dnskeys keys) = Some dk" "dk \<in> set (sk_dnskeys keys)" "?P dk"
    using find_Some [of "fst kp" "sk_dnskeys keys" ?P] v p(1) by auto
  have "inj_on (KeyTag ?kl) (set (sk_dnskeys keys))" using keys by (simp add: complete_keys_def distinct_map)
  then have "dk = fst kp" using dk(2,3) p(1) v(6) by (metis inj_onD)
  then have "find_signer lib keys s ?rs = Some (fst kp)" using dk(1) by (simp add: find_signer_def)
  moreover have "list_ex (\<lambda>dk. KeyTag ?kl dk = sig_KeyTag s) (sk_dnskeys keys)"
    using p(1) v(6) by (auto simp: list_ex_iff)
  moreover have "odd (uint (dk_Flags (fst kp))) \<longleftrightarrow> snd k = TypeDNSKEY"
    using pair_ok_role(2) [OF p(2)] by simp
  ultimately show ?thesis using rs(2) look window name v unfolding verify_sig_def Let_def by simp
qed

lemma verify_sigs_accepts:
  assumes "\<And>s. s \<in> set sigs \<Longrightarrow> verify_sig lib cfg now keys rrsets s = Inr (f s)"
  shows "verify_sigs lib cfg now keys rrsets sigs covered = Inr (rev (map f sigs) @ covered)"
  using assms by (induction sigs arbitrary: covered) simp_all

lemma grouped_rrset:
  assumes "(k, rs) \<in> set (fst (groupRRsets lib input))"
  shows "rs = rrset_of lib input k"
proof -
  have g: "gomap_ok (fst (groupRRsets_from lib xs (sets, sigs)))" if "gomap_ok sets" for xs sets sigs
    using that
  proof (induction xs arbitrary: sets sigs)
    case (Cons r xs)
    then show ?case by (cases r) (auto simp: append_rrset_def)
  qed simp
  have "gomap_ok (fst (groupRRsets lib input))" unfolding groupRRsets_def by (rule g) simp
  then have "lookup_rrset (fst (groupRRsets lib input)) k = rs"
    using assms by (simp add: lookup_rrset_def gomap_ok_def)
  then show ?thesis by (simp add: groupRRsets_spec)
qed

lemma rrset_of_append [simp]: "rrset_of lib (xs @ ys) k = rrset_of lib xs k @ rrset_of lib ys k"
  by (simp add: rrset_of_def)

lemma rrset_of_sigs [simp]: "rrset_of lib (map RRSIG sigs) k = []"
  by (simp add: rrset_of_def filter_empty_conv)

text \<open>The records of a pass: canonical owners, one class, no signatures.\<close>

definition plain_records :: "dnslib \<Rightarrow> rr list \<Rightarrow> bool" where
  "plain_records lib rs \<longleftrightarrow> (\<forall>r \<in> set rs. name_ok lib (owner r) \<and> h_Class (Header r) = ClassINET \<and> \<not> is_rrsig r)"

lemma plain_rrset:
  assumes "plain_records lib rs"
  shows "\<forall>r \<in> set (rrset_of lib rs k). canon lib r = fst k \<and> Rrtype r = snd k \<and> h_Class (Header r) = ClassINET"
    and "names_law lib \<Longrightarrow> rrset_of lib rs k \<noteq> [] \<Longrightarrow> canonicalName lib (fst k) = fst k"
proof -
  show "\<forall>r \<in> set (rrset_of lib rs k). canon lib r = fst k \<and> Rrtype r = snd k \<and> h_Class (Header r) = ClassINET"
    using assms by (auto simp: rrset_of_def plain_records_def)
  assume law: "names_law lib" and "rrset_of lib rs k \<noteq> []"
  then obtain r where "r \<in> set rs" "canon lib r = fst k" by (fastforce simp: rrset_of_def filter_empty_conv)
  then show "canonicalName lib (fst k) = fst k" using canonicalName_idem [OF law] assms by (metis plain_records_def)
qed

lemma signature_accepted:
  fixes signNow verifyNow :: gotime
  assumes laws: "signing_law lib" "validity_law lib" "names_law (dlib lib)"
    and keys: "complete_keys (klib (dlib lib)) domain keys"
    and timing: "ValidateSignatureTiming (c_SignatureValidity (DNSSEC cfg)) refresh poll = Inr ()"
      "signNow \<le> verifyNow" "verifyNow < signNow + signingWindowTolerance"
    and plain: "plain_records (dlib lib) records" and ne: "rrset_of (dlib lib) records k \<noteq> []"
    and kp: "kp \<in> set (signing_pairs keys (snd k))"
    and made: "made_by lib domain (signNow - SignatureInceptionBackdate) (signNow + c_SignatureValidity (DNSSEC cfg))
      (canonicalRRset (dlib lib) (rrset_of (dlib lib) records k)) kp s"
    and look: "lookup_rrset rrsets k = rrset_of (dlib lib) records k"
  shows "verify_sig lib cfg verifyNow keys rrsets s = Inr (k, dk_Algorithm (fst kp), snd k = TypeDNSKEY)"
proof -
  note v = made_by_verifies [OF laws(1) keys made kp plain_rrset(1) [OF plain] ne]
  have "checkRRSIGWindow lib cfg s verifyNow = Inr ()"
    using created_window [OF laws(2) timing v(4,5)] .
  then show ?thesis
    using made_by_accepted [OF laws(1) keys made kp plain_rrset(1) [OF plain] ne look plain_rrset(2) [OF plain laws(3) ne]]
    by blast
qed

text \<open>Verification of a zone from what its signatures yield.\<close>

lemma verifySignedZone_accepts:
  assumes plain: "plain_records (dlib lib) records" and parts: "records = input @ denial" and out: "out = records @ map RRSIG sigs"
    and all: "\<And>s. s \<in> set sigs \<Longrightarrow> verify_sig lib cfg now keys (fst (groupRRsets (dlib lib) out)) s = Inr (f s)"
    and cov: "\<And>k dk. rrset_of (dlib lib) records k \<noteq> [] \<Longrightarrow> signable (dlib lib) m (fst k) (snd k) \<Longrightarrow>
      dk \<in> set (sk_dnskeys keys) \<Longrightarrow> \<exists>s \<in> set sigs. f s = (k, dk_Algorithm dk, snd k = TypeDNSKEY)"
    and ne: "sk_dnskeys keys \<noteq> []" and denial: "verify_denial lib cfg m out = Inr ()"
  shows "verifySignedZoneWithModel lib cfg now m input out keys = Inr ()"
proof -
  let ?d = "dlib lib" and ?go = "groupRRsets (dlib lib) out"
  have sset: "set (snd ?go) = set sigs"
    unfolding groupRRsets_spec out using plain by (auto simp: is_rrsig_iff plain_records_def)
  define covered where "covered = rev (map f (snd ?go))"
  have vs: "verify_sigs lib cfg now keys (fst ?go) (snd ?go) [] = Inr covered"
    unfolding covered_def using verify_sigs_accepts [of "snd ?go" lib cfg now keys "fst ?go" f] all sset by simp
  have "check_covered lib m keys covered k = Inr ()" if k: "k \<in> set (map fst (fst ?go))" for k
  proof (cases "signable ?d m (fst k) (snd k)")
    case True
    have "rrset_of ?d records k \<noteq> []"
      using k unfolding groupRRsets_spec out by (auto simp: rrset_of_def filter_empty_conv)
    then have c: "(k, dk_Algorithm dk, snd k = TypeDNSKEY) \<in> set covered" if "dk \<in> set (sk_dnskeys keys)" for dk
      using cov [OF _ True that] sset by (force simp: covered_def)
    then have "list_ex (\<lambda>(k', _). k' = k) covered"
      unfolding list_ex_iff using c [OF hd_in_set [OF ne]] by blast
    with c show ?thesis by (auto simp: check_covered_def check_each_iff)
  qed (simp add: check_covered_def)
  then have cc: "check_each (check_covered lib m keys covered) (sortedRRsetKeys ?d (fst ?go)) = Inr ()"
    unfolding check_each_iff sortedRRsetKeys_def by simp
  have len: "check_each (\<lambda>(k, rs). if length (lookup_rrset (fst ?go) k) < length rs
      then Inl (Msg ''RRset from the input is missing or incomplete'') else Inr ()) (fst (groupRRsets ?d input)) = Inr ()"
    unfolding check_each_iff by (auto simp: groupRRsets_spec out parts dest!: grouped_rrset)
  show ?thesis unfolding verifySignedZoneWithModel_def case_prod_beta Let_def vs sum.case len [unfolded case_prod_beta] cc
    by (rule denial)
qed

lemma denial_of_append [simp]:
  "nsecs_of (xs @ ys) = nsecs_of xs @ nsecs_of ys" "nsec3s_of (xs @ ys) = nsec3s_of xs @ nsec3s_of ys"
  "nsec3params_of (xs @ ys) = nsec3params_of xs @ nsec3params_of ys"
proof -
  show "nsecs_of (xs @ ys) = nsecs_of xs @ nsecs_of ys" by (induction xs rule: nsecs_of.induct) simp_all
  show "nsec3s_of (xs @ ys) = nsec3s_of xs @ nsec3s_of ys" by (induction xs rule: nsec3s_of.induct) simp_all
  show "nsec3params_of (xs @ ys) = nsec3params_of xs @ nsec3params_of ys"
    by (induction xs rule: nsec3params_of.induct) simp_all
qed

lemma denial_of_sigs [simp]:
  "nsecs_of (map RRSIG sigs) = []" "nsec3s_of (map RRSIG sigs) = []" "nsec3params_of (map RRSIG sigs) = []"
  by (induction sigs) simp_all

lemma signed_zone_verifies:
  fixes signNow verifyNow :: gotime
  assumes laws: "signing_law lib" "validity_law lib" "names_law (dlib lib)"
    and keys: "complete_keys (klib (dlib lib)) domain keys"
    and timing: "ValidateSignatureTiming (c_SignatureValidity (DNSSEC cfg)) refresh poll = Inr ()"
      "signNow \<le> verifyNow" "verifyNow < signNow + signingWindowTolerance"
    and plain: "plain_records (dlib lib) records" and parts: "records = input @ denial"
    and denial: "verify_denial lib cfg m records = Inr ()"
    and sign: "signRecordsWithModel lib cfg signNow m domain records keys = Inr out"
  shows "verifySignedZoneWithModel lib cfg verifyNow m input out keys = Inr ()"
proof -
  let ?d = "dlib lib" and ?inc = "signNow - SignatureInceptionBackdate"
  let ?ex = "signNow + c_SignatureValidity (DNSSEC cfg)" and ?g = "groupRRsets (dlib lib) records"
  obtain sigs where sigs: "sign_sets lib m domain ?inc ?ex keys (fst ?g) (sortedRRsetKeys ?d (fst ?g)) = Inr sigs"
    and out: "out = records @ map RRSIG sigs"
    using sign by (auto simp: signRecordsWithModel_def Let_def split: sum.splits)
  let ?v = "verify_sig lib cfg verifyNow keys (fst (groupRRsets ?d out))"
  let ?made = "\<lambda>k kp s. made_by lib domain ?inc ?ex (canonicalRRset ?d (rrset_of ?d records k)) kp s"
  note made = sign_sets_made [OF sigs, unfolded groupRRsets_spec(1)]
  have accept: "?v s = Inr (k, dk_Algorithm (fst kp), snd k = TypeDNSKEY)"
    if "rrset_of ?d records k \<noteq> []" "kp \<in> set (signing_pairs keys (snd k))" "?made k kp s" for k kp s
    by (rule signature_accepted [OF laws keys timing plain that]) (simp add: groupRRsets_spec out)
  have all: "?v s = Inr (projr (?v s))" if mem: "s \<in> set sigs" for s
  proof -
    obtain k kp where "rrset_of ?d records k \<noteq> []" "kp \<in> set (signing_pairs keys (snd k))" "?made k kp s"
      using bspec [OF conjunct1 [OF made] mem] by auto
    from accept [OF this] show ?thesis by (simp only: sum.sel)
  qed
  show ?thesis
  proof (rule verifySignedZone_accepts [OF plain parts out all])
    fix k dk assume ne: "rrset_of ?d records k \<noteq> []" and sg: "signable ?d m (fst k) (snd k)" and dk: "dk \<in> set (sk_dnskeys keys)"
    obtain kp where kp: "kp \<in> set (signing_pairs keys (snd k))" "dk_Algorithm (fst kp) = dk_Algorithm dk"
      using signing_pairs_cover [OF keys dk] by blast
    obtain r where "r \<in> set records" "\<not> is_rrsig r" "k = (canon ?d r, Rrtype r)"
      using ne by (auto simp: rrset_of_def filter_empty_conv)
    then have "k \<in> set (sortedRRsetKeys ?d (fst ?g))"
      unfolding sortedRRsetKeys_def set_sort_slice groupRRsets_spec by blast
    then obtain s where s: "s \<in> set sigs" "?made k kp s" using bspec [OF conjunct2 [OF made]] ne sg kp(1) by metis
    then show "\<exists>s \<in> set sigs. projr (?v s) = (k, dk_Algorithm dk, snd k = TypeDNSKEY)"
      using accept [OF ne kp(1) s(2)] kp(2) by (intro bexI [OF _ s(1)]) (simp only: sum.sel)
  next
    show "sk_dnskeys keys \<noteq> []" using keys by (simp add: complete_keys_def)
    show "verify_denial lib cfg m out = Inr ()" using denial by (simp add: verify_denial_def out Let_def)
  qed
qed

section \<open>A whole pass\<close>

text \<open>Input to a pass: in-zone data with the published DNSKEYs and nothing that signing adds.\<close>

fun is_denial :: "rr \<Rightarrow> bool" where
  "is_denial (NSEC _) = True"
| "is_denial (NSEC3 _) = True"
| "is_denial (NSEC3PARAM _) = True"
| "is_denial _ = False"

definition input_ok :: "dnslib \<Rightarrow> string \<Rightarrow> rr list \<Rightarrow> bool" where
  "input_ok lib domain input \<longleftrightarrow> zone_ok_names lib domain input \<and>
     canonicalName lib domain \<in> canon lib ` set input \<and>
     (\<forall>r \<in> set input. h_Class (Header r) = ClassINET \<and> \<not> is_rrsig r \<and> \<not> is_denial r \<and>
        Rrtype r \<noteq> TypeNSEC \<and> Rrtype r \<noteq> TypeRRSIG)"

lemma no_denial:
  assumes "\<forall>r \<in> set rs. \<not> is_denial r"
  shows "nsecs_of rs = [] \<and> nsec3s_of rs = [] \<and> nsec3params_of rs = []"
  using assms
proof (induction rs)
  case (Cons r rs)
  then show ?case by (cases r) simp_all
qed simp

lemma denial_of_map [simp]:
  "nsecs_of (map NSEC ns) = ns" "nsec3s_of (map NSEC ns) = []" "nsec3params_of (map NSEC ns) = []"
  "nsecs_of (map NSEC3 ms) = []" "nsec3s_of (map NSEC3 ms) = ms" "nsec3params_of (map NSEC3 ms) = []"
proof -
  show "nsecs_of (map NSEC ns) = ns" "nsec3s_of (map NSEC ns) = []" "nsec3params_of (map NSEC ns) = []"
    by (induction ns) simp_all
  show "nsecs_of (map NSEC3 ms) = []" "nsec3s_of (map NSEC3 ms) = ms" "nsec3params_of (map NSEC3 ms) = []"
    by (induction ms) simp_all
qed

text \<open>What NSEC3 asks of the zone and the settings beyond that.\<close>

definition nsec3_ok :: "dnslib \<Rightarrow> dnssec_config \<Rightarrow> string \<Rightarrow> rr list \<Rightarrow> bool" where
  "nsec3_ok lib c domain input \<longleftrightarrow> hash_law lib \<and> SplitDomainName lib (canonicalName lib domain) \<noteq> [] \<and>
     CHR ''-'' \<notin> set (c_NSEC3Salt c) \<and>
     hashes_ok lib (word_of_int (c_NSEC3Iterations c)) (c_NSEC3Salt c) (chain_names lib domain input)"

lemma denial_verifies:
  assumes ok: "input_ok (dlib lib) domain input"
    and n3: "c_NSECVersion (DNSSEC cfg) = ''nsec3'' \<Longrightarrow> nsec3_ok (dlib lib) (DNSSEC cfg) domain input"
  defines "m \<equiv> newZoneModel (dlib lib) domain input"
  shows "verify_denial lib cfg m (input @ denial_records lib cfg m input ttl) = Inr ()"
proof -
  have none: "nsecs_of input = [] \<and> nsec3s_of input = [] \<and> nsec3params_of input = []"
    using ok by (intro no_denial) (simp add: input_ok_def)
  show ?thesis
  proof (cases "c_NSECVersion (DNSSEC cfg) = ''nsec3''")
    case True
    have "verifyNSEC3Expectations (dlib lib) m (snd (generateNSEC3ChainWithModel (dlib lib) (DNSSEC cfg) m input ttl))
        [fst (generateNSEC3ChainWithModel (dlib lib) (DNSSEC cfg) m input ttl)]
        (word_of_int (c_NSEC3Iterations (DNSSEC cfg))) (c_NSEC3Salt (DNSSEC cfg)) = Inr ()"
      unfolding m_def using ok n3 [OF True] by (intro generated_nsec3_verifies) (auto simp: input_ok_def nsec3_ok_def)
    then show ?thesis using True none by (simp add: verify_denial_def denial_records_def case_prod_beta Let_def)
  next
    case False
    have "verifyNSECExpectations (dlib lib) m (generateNSECChainWithModel (dlib lib) m input ttl) = Inr ()"
      unfolding m_def using ok by (intro generated_chain_verifies) (auto simp: input_ok_def)
    then show ?thesis using False none by (simp add: verify_denial_def denial_records_def Let_def)
  qed
qed

lemma canonical_name_ok: "names_law lib \<Longrightarrow> canonical lib n \<Longrightarrow> name_ok lib n"
  using name_ok_canonicalName(1) by (auto simp: canonical_def)

lemma nsec3_owner_ok:
  assumes law: "names_law lib" and dom: "name_ok lib domain" and root: "SplitDomainName lib (canonicalName lib domain) \<noteq> []"
    and l: "label_ok l"
  shows "name_ok lib (l @ ''.'' @ canonicalName lib domain)"
proof -
  let ?al = "SplitDomainName lib (canonicalName lib domain)"
  have al: "list_all label_ok ?al" "joinLabels ?al = canonicalName lib domain"
    using canonical_split [OF law canonicalI [OF dom]] by simp_all
  have j: "joinLabels (l # ?al) = l @ ''.'' @ canonicalName lib domain"
    using root al(2) by (cases ?al) (auto simp: joinLabels_def)
  moreover have "list_all label_ok (l # ?al)" using al(1) l by simp
  ultimately show ?thesis using split_joinLabels(2) [OF law] by (metis name_ok_def)
qed

lemma denial_plain:
  assumes ok: "input_ok (dlib lib) domain input"
    and n3: "c_NSECVersion (DNSSEC cfg) = ''nsec3'' \<Longrightarrow> nsec3_ok (dlib lib) (DNSSEC cfg) domain input"
  defines "m \<equiv> newZoneModel (dlib lib) domain input"
  shows "plain_records (dlib lib) (input @ denial_records lib cfg m input ttl)"
proof -
  have z: "zone_ok_names (dlib lib) domain input" and law: "names_law (dlib lib)" and dom: "name_ok (dlib lib) domain"
    using ok by (auto simp: input_ok_def zone_ok_names_def)
  have "name_ok (dlib lib) (owner r) \<and> h_Class (Header r) = ClassINET \<and> \<not> is_rrsig r"
    if r: "r \<in> set (denial_records lib cfg m input ttl)" for r
  proof (cases "c_NSECVersion (DNSSEC cfg) = ''nsec3''")
    case True
    define hs where "hs = chain_hashes (dlib lib) (word_of_int (c_NSEC3Iterations (DNSSEC cfg))) (c_NSEC3Salt (DNSSEC cfg))
      (chain_names (dlib lib) domain input)"
    have h: "hashes_ok (dlib lib) (word_of_int (c_NSEC3Iterations (DNSSEC cfg))) (c_NSEC3Salt (DNSSEC cfg))
        (chain_names (dlib lib) domain input)" and root: "SplitDomainName (dlib lib) (canonicalName (dlib lib) domain) \<noteq> []"
      using n3 [OF True] by (simp_all add: nsec3_ok_def)
    note spec = chain_hashes_spec [OF h chain_names_spec(1) [OF z], folded hs_def]
    consider (param) "r = NSEC3PARAM (fst (generateNSEC3ChainWithModel (dlib lib) (DNSSEC cfg) m input ttl))"
      | (n3) n where "r = NSEC3 n" "n \<in> set (snd (generateNSEC3ChainWithModel (dlib lib) (DNSSEC cfg) m input ttl))"
      using r True by (auto simp: denial_records_def case_prod_beta)
    then show ?thesis
    proof cases
      case param
      then show ?thesis using name_ok_canonicalName(1) [OF law dom] by (simp add: generateNSEC3ChainWithModel_def Let_def m_def)
    next
      case n3
      then obtain i where i: "i < length hs" "owner r = snd (hs ! i) @ ''.'' @ canonicalName (dlib lib) domain"
        "h_Class (Header r) = ClassINET"
        using generated_nsec3_chain [OF z h] by (auto simp: m_def hs_def nsec3_record_def)
      moreover have "label_ok (snd (hs ! i))" using spec(3) [OF nth_mem [OF i(1)]] by blast
      from nsec3_owner_ok [OF law dom root this] have "name_ok (dlib lib) (owner r)" by (simp add: i(2))
      ultimately show ?thesis by (simp add: n3(1))
    qed
  next
    case False
    let ?names = "authoritativeOwners (dlib lib) m"
    have "generateNSECChainWithModel (dlib lib) m input ttl =
        map (nsec_record m (collect_types (dlib lib) m input) ttl ?names) [0..<length ?names]"
      unfolding generateNSECChainWithModel_def Let_def m_def chain_owners [OF z] ..
    then obtain i where i: "i < length ?names" "r = NSEC (nsec_record m (collect_types (dlib lib) m input) ttl ?names i)"
      using r False unfolding denial_records_def by auto
    have "canonical (dlib lib) (?names ! i)"
      using authoritativeOwners_spec(4) [OF z] nth_mem [OF i(1)] by (simp add: m_def)
    then show ?thesis using canonical_name_ok [OF law] by (simp add: i(2) nsec_record_def)
  qed
  then show ?thesis using ok by (auto simp: plain_records_def input_ok_def zone_ok_names_def)
qed

text \<open>Outside an algorithm rollover the loaded keys are complete.\<close>

lemma loaded_keys_complete:
  assumes load: "loadKeysForSigning env lib cfg domain z w = (Inr keys, w')"
    and roll: "\<And>r. z_Rollover z = Some r \<Longrightarrow> r_Type r \<noteq> ''algorithm''"
    and tags: "distinct (map (KeyTag lib) (sk_dnskeys keys))" and prot: "\<forall>dk \<in> set (sk_dnskeys keys). dk_Protocol dk = 3"
  shows "complete_keys lib domain keys"
proof -
  obtain plan where p: "key_plan z = Some plan" "follows lib domain plan keys"
    using loadKeysForSigning_follows(1) [OF load] by blast
  obtain pub ks zs where plan: "plan = (pub, ks, zs)" by (cases plan)
  have "pub \<noteq> [] \<and> ks \<noteq> [] \<and> zs \<noteq> []"
    using p(1) unfolding plan key_plan_def by (auto simp: Let_def split: option.splits if_splits)
  then have ne: "sk_dnskeys keys \<noteq> []" "sk_signingKSKs keys \<noteq> []" "sk_signingZSKs keys \<noteq> []"
    using p(2) unfolding plan follows_def by auto
  have sub: "set (sk_signingKSKs keys) \<union> set (sk_signingZSKs keys) \<subseteq> set (sk_dnskeys keys)"
    using p(2) unfolding plan follows_def by simp
  have same: "dk_Algorithm a = dk_Algorithm b" if "a \<in> set (sk_dnskeys keys)" "b \<in> set (sk_dnskeys keys)" for a b
    using validateAlgorithms_one [OF loadKeysForSigning_follows(2) [OF load] roll that] .
  have "dk_Algorithm dk \<in> dk_Algorithm ` set xs"
    if "dk \<in> set (sk_dnskeys keys)" "xs \<noteq> []" "set xs \<subseteq> set (sk_dnskeys keys)" for dk xs
    using that same hd_in_set [OF that(2)] by (metis image_eqI subsetD)
  then show ?thesis using p(2) ne sub tags prot unfolding plan follows_def complete_keys_def by auto
qed

lemma apex_signed:
  assumes ok: "input_ok (dlib lib) domain input"
    and v: "verifySignedZoneWithModel lib cfg now (newZoneModel (dlib lib) domain input) input out keys = Inr ()"
    and ne: "sk_dnskeys keys \<noteq> []" and sub: "set input \<subseteq> set out"
  shows "\<exists>sig. RRSIG sig \<in> set out"
proof -
  let ?d = "dlib lib" and ?m = "newZoneModel (dlib lib) domain input"
  obtain r where r: "r \<in> set input" "canon ?d r = canonicalName ?d domain" "\<not> is_rrsig r"
    using ok by (auto simp: input_ok_def)
  have "\<not> isOccluded ?d ?m (canonicalName ?d domain)"
    by (auto simp: isOccluded_def ancestors_def list_ex_iff)
  then have "signable ?d ?m (canon ?d r) (Rrtype r)" using r(2) by (simp add: signable_def isDelegation_iff)
  from verified_zone_signed [OF v subsetD [OF sub r(1)] r(3) this hd_in_set [OF ne]]
  show ?thesis by (auto simp: good_sig_def)
qed

lemma signing_pass_completes:
  assumes laws: "signing_law lib" "validity_law lib"
    and keys: "complete_keys (klib (dlib lib)) domain keys" and ok: "input_ok (dlib lib) domain input"
    and n3: "c_NSECVersion (DNSSEC cfg) = ''nsec3'' \<Longrightarrow> nsec3_ok (dlib lib) (DNSSEC cfg) domain input"
    and timing: "ValidateSignatureTiming (c_SignatureValidity (DNSSEC cfg)) refresh poll = Inr ()"
    and clk: "now_at env (tick w) \<le> now_at env (Suc (tick w))"
      "now_at env (Suc (tick w)) < now_at env (tick w) + signingWindowTolerance"
      "0 \<le> Unix (now_at env (Suc (Suc (tick w))))"
    and sign: "signRecordsWithModel lib cfg (now_at env (tick w)) (newZoneModel (dlib lib) domain input) domain
      (input @ denial_records lib cfg (newZoneModel (dlib lib) domain input) input ttl) keys = Inr out"
  shows "sign_and_verify env lib cfg domain keys input ttl w =
    (Inr (out, earliestRRSIGExpiration (now_at env (Suc (Suc (tick w)))) out), w\<lparr>tick := tick w + 3\<rparr>)"
proof -
  let ?m = "newZoneModel (dlib lib) domain input"
  let ?exp = "earliestRRSIGExpiration (now_at env (Suc (Suc (tick w)))) out"
  have law: "names_law (dlib lib)" using ok by (simp add: input_ok_def zone_ok_names_def)
  have v: "verifySignedZoneWithModel lib cfg (now_at env (Suc (tick w))) ?m input out keys = Inr ()"
    using signed_zone_verifies [OF laws law keys timing clk(1,2) denial_plain [OF ok n3] refl denial_verifies [OF ok n3] sign]
    by blast
  have sub: "set input \<subseteq> set out" using sign by (auto simp: signRecordsWithModel_def Let_def split: sum.splits)
  have "sk_dnskeys keys \<noteq> []" using keys by (simp add: complete_keys_def)
  from apex_signed [OF ok v this sub] obtain sig where sig: "RRSIG sig \<in> set out" by blast
  obtain sig' :: rrsig where "?exp = serialTime (sig_Expiration sig') (now_at env (Suc (Suc (tick w))))"
    using earliest_expiration(2) [OF clk(3) sig] by blast
  then have nz: "?exp \<noteq> 0"
    using serialTime_near [of "sig_Expiration sig'" "now_at env (Suc (Suc (tick w)))"] clk(3)
    by (auto simp: Unix_def unixToInternal_def)
  show ?thesis unfolding sign_and_verify_def Let_def op_bind_clock
    using sign v nz by (simp add: op_bind_def op_res_def clock_def)
qed

end
