(* ===== verification/Sample_Signing.thy ===== *)
theory Sample_Signing
  imports Sample_Zone Sign_Verify
begin

text \<open>
  A small zone to sign, with a concrete instance of the DNS library: names are split at
  unescaped dots, the hash writes each octet as two letters, and a signature is the public half
  of the key that made it. The installation is the one of \<open>Sample_Zone\<close>.
\<close>

section \<open>Names\<close>

fun split_dots :: "string \<Rightarrow> string \<Rightarrow> string list" where
  "split_dots acc [] = (if acc = [] then [] else [rev acc])"
| "split_dots acc (c # s) =
     (if c = backslash then (case s of [] \<Rightarrow> [rev (c # acc)] | d # s' \<Rightarrow> split_dots (d # c # acc) s')
      else if c = CHR ''.'' then rev acc # split_dots [] s
      else split_dots (c # acc) s)"

definition split_name :: "string \<Rightarrow> string list" where
  "split_name n = (if n = ''.'' then [] else split_dots [] n)"

definition with_dot :: "string \<Rightarrow> string" where
  "with_dot n = (if n \<noteq> [] \<and> last n = CHR ''.'' then n else n @ ''.'')"

lemma split_dots_label:
  "clean_label l \<Longrightarrow> split_dots acc (l @ CHR ''.'' # s) = (rev acc @ l) # split_dots [] s"
proof (induction l arbitrary: acc rule: clean_label.induct)
  case (2 c l)
  show ?case
  proof (cases "c = backslash")
    case True
    then obtain d l' where "l = d # l'" "clean_label l'" using 2(3) by (auto split: list.splits)
    with True 2(1) show ?thesis by simp
  next
    case False
    with 2 show ?thesis by simp
  qed
qed simp

lemma split_dots_names:
  "list_all label_ok ls \<Longrightarrow> split_dots [] (concat (map (\<lambda>l. l @ ''.'') ls)) = ls"
  by (induction ls) (simp_all add: label_ok_def split_dots_label)

lemma split_name_join: "list_all label_ok ls \<Longrightarrow> split_name (joinLabels ls) = ls"
proof (cases "ls = []")
  case False
  assume "list_all label_ok ls"
  then show ?thesis using False split_dots_names joinLabels_root [of ls] by (simp add: split_name_def flip: concat_dots)
qed (simp add: split_name_def joinLabels_def)

lemma with_dot_join: "with_dot (joinLabels ls) = joinLabels ls"
  by (simp add: with_dot_def joinLabels_def)

section \<open>The library\<close>

definition letter :: "nat \<Rightarrow> char" where "letter n = char_of (65 + n mod 16)"

definition letters :: "string \<Rightarrow> string" where
  "letters s = CHR ''H'' # concat (map (\<lambda>c. [letter (of_char c div 16), letter (of_char c)]) s)"

definition sample_dns :: dnslib where
  "sample_dns = \<lparr>klib = sample_lib\<lparr>Fqdn := with_dot\<rparr>, SplitDomainName = split_name,
     CountLabel = (\<lambda>n. length (split_name n)), HashName = (\<lambda>n h it salt. letters n)\<rparr>"

fun sample_sign :: "rrsig \<Rightarrow> signer_key \<Rightarrow> rr list \<Rightarrow> rrsig option" where
  "sample_sign sig (EdSeed seed) rs = Some (sig\<lparr>sig_Signature := rev seed\<rparr>)"
| "sample_sign sig _ rs = None"

definition sample_header :: "string \<Rightarrow> 16 word \<Rightarrow> rr_header" where
  "sample_header n t = \<lparr>h_Name = n, h_Rrtype = t, h_Class = ClassINET, h_Ttl = 300\<rparr>"

text \<open>A zone with a delegation and its glue, an empty non-terminal and mixed case.\<close>

definition sample_records :: "rr list" where
  "sample_records = [SOA (sample_header ''a.b.'' TypeSOA) 1699990000 60 [], OtherRR (sample_header ''A.b.'' TypeNS) ''n.c.'',
     OtherRR (sample_header ''c.a.b.'' TypeNS) ''n.c.a.b.'', OtherRR (sample_header ''n.c.a.b.'' TypeA) ''192.0.2.1'',
     OtherRR (sample_header ''w.e.a.b.'' TypeA) ''192.0.2.2'']"

definition sample_sig :: siglib where
  "sample_sig = \<lparr>dlib = sample_dns, Sign = sample_sign,
     Verify = (\<lambda>sig dk rs. b64_decode (dk_PublicKey dk) = Some (sig_Signature sig)),
     ValidityPeriod = (\<lambda>sig t. \<not> serialGt (sig_Inception sig) (unix32 t) \<and> \<not> serialGt (unix32 t) (sig_Expiration sig)),
     ParseZone = (\<lambda>origin path data. (sample_records, False)), RRString = (\<lambda>r. owner r), SHA256Hex = id\<rparr>"

lemma sample_names_law [simp]: "names_law sample_dns"
  by (simp add: names_law_def sample_dns_def split_name_join with_dot_join)

lemma sample_validity_law: "validity_law sample_sig"
  by (simp add: validity_law_def sample_sig_def)

lemma sample_signing_law: "signing_law sample_sig"
proof -
  have "\<exists>seed. sk = EdSeed seed \<and> s = sig\<lparr>sig_Signature := rev seed\<rparr>" if "Sign sample_sig sig sk rs = Some s" for sig sk rs s
    using that by (cases sk) (simp_all add: sample_sig_def)
  moreover have "EdPublic (klib (dlib sample_sig)) = rev" by (simp add: sample_sig_def sample_dns_def sample_lib_def)
  ultimately show ?thesis unfolding signing_law_def by (fastforce simp: sample_sig_def)
qed

lemma letter_upper: "ascii_upper (letter n) = letter n \<and> letter n \<noteq> backslash \<and> letter n \<noteq> CHR ''.''"
proof -
  have code: "of_char (letter n) = (65 + n mod 16 :: nat)"
  proof -
    have "65 + n mod 16 < 256" using mod_less_divisor [of 16 n] by linarith
    then show ?thesis by (simp add: letter_def)
  qed
  have "n mod 16 < 16" by simp
  then have "of_char (letter n) \<noteq> (92 :: nat)" "of_char (letter n) \<noteq> (46 :: nat)" "\<not> 97 \<le> (of_char (letter n) :: nat)"
    unfolding code by linarith+
  moreover have "of_char backslash = (92 :: nat)" "of_char (CHR ''.'') = (46 :: nat)" by simp_all
  ultimately show ?thesis by (metis ascii_upper_def)
qed

lemma letters_ok: "ToUpper (letters s) = letters s \<and> label_ok (letters s)"
proof -
  have c: "clean_label (concat (map (\<lambda>c. [letter (of_char c div 16), letter (of_char c)]) s))"
    by (induction s) (simp_all add: letter_upper)
  have u: "map ascii_upper (concat (map (\<lambda>c. [letter (of_char c div 16), letter (of_char c)]) s)) =
      concat (map (\<lambda>c. [letter (of_char c div 16), letter (of_char c)]) s)"
    by (induction s) (simp_all add: letter_upper)
  have "ascii_upper (CHR ''H'') = CHR ''H''" by code_simp
  with c u show ?thesis by (simp add: ToUpper_def letters_def label_ok_def)
qed

lemma sample_hash_law: "hash_law sample_dns"
  by (simp add: hash_law_def sample_dns_def letters_ok)

text \<open>Signing fails only where a key fails to sign.\<close>

lemma sign_with_total:
  "(\<And>kp sig. kp \<in> set ks \<Longrightarrow> \<exists>s. signRRSIG lib sig rs (fst kp) (snd kp) = Inr s) \<Longrightarrow>
   \<exists>ss. sign_with lib domain inc ex rs ks = Inr ss"
proof (induction ks)
  case (Cons kp ks)
  obtain k p where kp: "kp = (k, p)" by (cases kp)
  obtain s where "signRRSIG lib (createRRSIG lib rs k domain inc ex) rs k p = Inr s" using Cons.prems [of kp] kp by auto
  moreover obtain ss where "sign_with lib domain inc ex rs ks = Inr ss" using Cons by (metis list.set_intros(2))
  ultimately show ?case by (simp add: kp)
qed simp

definition signs_all :: "siglib \<Rightarrow> signing_keys \<Rightarrow> bool" where
  "signs_all lib keys \<longleftrightarrow> (\<forall>t. \<forall>kp \<in> set (signing_pairs keys t). \<forall>sig rs. \<exists>s. signRRSIG lib sig rs (fst kp) (snd kp) = Inr s)"

lemma sign_sets_total:
  assumes "signs_all lib keys"
  shows "\<exists>ss. sign_sets lib m domain inc ex keys rrsets ks = Inr ss"
proof (induction ks)
  case (Cons k ks)
  have "\<exists>ss. sign_with lib domain inc ex (canonicalRRset (dlib lib) (lookup_rrset rrsets k)) (signing_pairs keys (snd k)) = Inr ss"
    by (rule sign_with_total) (use assms in \<open>simp add: signs_all_def\<close>)
  with Cons show ?case by (auto simp: Let_def)
qed simp

lemma signRecords_total:
  assumes "signs_all lib keys"
  shows "\<exists>out. signRecordsWithModel lib cfg now m domain records keys = Inr out"
  using sign_sets_total [OF assms] by (auto simp: signRecordsWithModel_def Let_def split: sum.split) (metis sum.distinct(1))

section \<open>The zone\<close>

definition sample_keys_set :: signing_keys where
  "sample_keys_set = \<lparr>sk_dnskeys = [sample_key 257 (rev (sample_seed (CHR ''A''))), sample_key 256 (rev (sample_seed (CHR ''k'')))],
     sk_signingKSKs = [sample_key 257 (rev (sample_seed (CHR ''A'')))], sk_signingKSKPs = [sample_seed (CHR ''A'')],
     sk_signingZSKs = [sample_key 256 (rev (sample_seed (CHR ''k'')))], sk_signingZSKPs = [sample_seed (CHR ''k'')]\<rparr>"

definition sample_input :: "rr list" where
  "sample_input = sample_records @ map (dnskey_rr 300) (sk_dnskeys sample_keys_set)"

lemma sample_name_okI: "list_all label_ok ls \<Longrightarrow> with_dot n = joinLabels ls \<Longrightarrow> name_ok sample_dns n"
  by (auto simp: name_ok_def sample_dns_def)

lemma sample_name_ok:
  "name_ok sample_dns ''a.b.''" "name_ok sample_dns ''A.b.''" "name_ok sample_dns ''c.a.b.''"
  "name_ok sample_dns ''n.c.a.b.''" "name_ok sample_dns ''w.e.a.b.''" "name_ok sample_dns ''x.a.b.''"
  "name_ok sample_dns sample_domain"
proof -
  show "name_ok sample_dns ''a.b.''" by (rule sample_name_okI [of "[''a'', ''b'']"]) code_simp+
  show "name_ok sample_dns ''A.b.''" by (rule sample_name_okI [of "[''A'', ''b'']"]) code_simp+
  show "name_ok sample_dns ''c.a.b.''" by (rule sample_name_okI [of "[''c'', ''a'', ''b'']"]) code_simp+
  show "name_ok sample_dns ''n.c.a.b.''" by (rule sample_name_okI [of "[''n'', ''c'', ''a'', ''b'']"]) code_simp+
  show "name_ok sample_dns ''w.e.a.b.''" by (rule sample_name_okI [of "[''w'', ''e'', ''a'', ''b'']"]) code_simp+
  show "name_ok sample_dns ''x.a.b.''" by (rule sample_name_okI [of "[''x'', ''a'', ''b'']"]) code_simp+
  show "name_ok sample_dns sample_domain" by (rule sample_name_okI [of "[''a'', ''b'']"]) code_simp+
qed

lemma sample_owners: "owner ` set sample_input = {''a.b.'', ''A.b.'', ''c.a.b.'', ''n.c.a.b.'', ''w.e.a.b.''}"
  by (auto simp: sample_input_def sample_records_def sample_header_def sample_keys_set_def dnskey_rr_def sample_key_def sample_domain_def)

lemma sample_owner_ok: "r \<in> set sample_input \<Longrightarrow> name_ok sample_dns (owner r)"
proof -
  assume "r \<in> set sample_input"
  then have "owner r \<in> {''a.b.'', ''A.b.'', ''c.a.b.'', ''n.c.a.b.'', ''w.e.a.b.''}"
    unfolding sample_owners [symmetric] by blast
  with sample_name_ok show ?thesis by auto
qed

lemma sample_canonicalName: "canonicalName sample_dns n = (if with_dot n = ''.'' then ''.''
    else concat (map (\<lambda>label. canonicalLabel label @ ''.'') (split_name (with_dot n))))"
  by (simp add: canonicalName_def sample_dns_def)

lemma sample_apex: "canonicalName sample_dns sample_domain = ''a.b.''"
  unfolding sample_canonicalName by code_simp

lemma sample_zone_names: "zone_ok_names sample_dns sample_domain sample_input"
  using sample_owner_ok sample_name_ok(7) by (simp add: zone_ok_names_def)

lemma sample_canonical:
  "canonicalName sample_dns ''a.b.'' = ''a.b.''" "canonicalName sample_dns ''A.b.'' = ''a.b.''"
  "canonicalName sample_dns ''c.a.b.'' = ''c.a.b.''" "canonicalName sample_dns ''n.c.a.b.'' = ''n.c.a.b.''"
  "canonicalName sample_dns ''w.e.a.b.'' = ''w.e.a.b.''" "canonicalName sample_dns ''x.a.b.'' = ''x.a.b.''"
  unfolding sample_canonicalName by code_simp+

lemma sample_canon_owners: "canon sample_dns ` set sample_input = {''a.b.'', ''c.a.b.'', ''n.c.a.b.'', ''w.e.a.b.''}"
proof -
  have "canon sample_dns ` set sample_input = canonicalName sample_dns ` (owner ` set sample_input)"
    by (simp add: image_image)
  then show ?thesis unfolding sample_owners by (simp add: sample_canonical)
qed

lemma sample_input_ok: "input_ok sample_dns sample_domain sample_input"
proof -
  have "canonicalName sample_dns sample_domain \<in> canon sample_dns ` set sample_input"
    unfolding sample_apex sample_canon_owners by simp
  then show ?thesis using sample_zone_names
    by (auto simp: input_ok_def sample_input_def sample_records_def sample_header_def dnskey_rr_def sample_keys_set_def)
qed

lemma sample_dns_lib [simp]:
  "KeyTag (klib sample_dns) = KeyTag sample_lib" "Fqdn (klib sample_dns) = with_dot"
  "VerifyKeyPairCorrespondence (klib sample_dns) k p = VerifyKeyPairCorrespondence sample_lib k p"
proof -
  show "KeyTag (klib sample_dns) = KeyTag sample_lib" "Fqdn (klib sample_dns) = with_dot" by (simp_all add: sample_dns_def)
  have same: "EdPublic (klib sample_dns) = EdPublic sample_lib" "BaseMult (klib sample_dns) = BaseMult sample_lib"
    "ParsePKCS1 (klib sample_dns) = ParsePKCS1 sample_lib" by (simp_all add: sample_dns_def)
  have "verify_ed25519 (klib sample_dns) = verify_ed25519 sample_lib"
    "verifyECDSACorrespondence (klib sample_dns) = verifyECDSACorrespondence sample_lib"
    "verifyRSACorrespondence (klib sample_dns) = verifyRSACorrespondence sample_lib"
    by (intro ext; simp only: same verifyRSACorrespondence_def rsaPrivateKeyFromBytes_def
      verifyECDSACorrespondence_def verify_ed25519_def)+
  then show "VerifyKeyPairCorrespondence (klib sample_dns) k p = VerifyKeyPairCorrespondence sample_lib k p"
    by (simp only: VerifyKeyPairCorrespondence_def)
qed

lemma sample_complete: "complete_keys (klib sample_dns) sample_domain sample_keys_set"
proof -
  have "KeyTag sample_lib (sample_key 257 (rev (sample_seed (CHR ''A'')))) = 81"
    "KeyTag sample_lib (sample_key 256 (rev (sample_seed (CHR ''k'')))) = 97" by code_simp+
  moreover have "validateLoadedKey (klib sample_dns) (sample_key 257 pub) sample_domain ''ksk'' = Inr ()"
    "validateLoadedKey (klib sample_dns) (sample_key 256 pub) sample_domain ''zsk'' = Inr ()" for pub
    by (simp_all add: validateLoadedKey_def sample_key_def sample_domain_def with_dot_def)
  ultimately show ?thesis
    by (simp add: complete_keys_def sample_keys_set_def pair_ok_def sample_keys) (simp add: sample_key_def)
qed

text \<open>A signing pass over the zone.\<close>

definition sample_now :: gotime where "sample_now = time_Unix 1700000000"

definition sample_clock :: env where
  "sample_clock = sample_env\<lparr>now_at := (\<lambda>t. sample_now + int t * Second)\<rparr>"

definition sample_signed :: "rr list" where
  "sample_signed = (case signRecordsWithModel sample_sig sample_cfg sample_now (newZoneModel sample_dns sample_domain sample_input)
     sample_domain (sample_input @ denial_records sample_sig sample_cfg (newZoneModel sample_dns sample_domain sample_input) sample_input 60)
     sample_keys_set of Inr out \<Rightarrow> out | Inl _ \<Rightarrow> [])"

lemma sample_sign_run:
  "signRecordsWithModel sample_sig sample_cfg sample_now (newZoneModel sample_dns sample_domain sample_input)
     sample_domain (sample_input @ denial_records sample_sig sample_cfg (newZoneModel sample_dns sample_domain sample_input) sample_input 60)
     sample_keys_set = Inr sample_signed"
proof -
  have len: "length (sample_seed c) = 32" for c by (simp add: sample_seed_def)
  have "signs_all sample_sig sample_keys_set" unfolding signs_all_def
    by (auto simp: len signing_pairs_def sample_keys_set_def signRRSIG_def signRRSIGWithAlgorithm_def sample_key_def
        sample_sig_def call_Sign_def)
  from signRecords_total [OF this] show ?thesis unfolding sample_signed_def by (metis sum.case(2))
qed

lemma sample_dlib [simp]: "dlib sample_sig = sample_dns"
  by (simp add: sample_sig_def)

lemma sample_timing: "ValidateSignatureTiming (c_SignatureValidity (DNSSEC sample_cfg)) (3 * 24 * Hour) Minute = Inr ()"
  by code_simp

lemma sample_verified_zone:
  "verifySignedZoneWithModel sample_sig sample_cfg (sample_now + Second) (newZoneModel sample_dns sample_domain sample_input)
     sample_input sample_signed sample_keys_set = Inr ()"
proof -
  have n3: "nsec3_ok (dlib sample_sig) (DNSSEC sample_cfg) sample_domain sample_input"
    if "c_NSECVersion (DNSSEC sample_cfg) = ''nsec3''" using that by (simp add: sample_cfg_def)
  have ok: "input_ok (dlib sample_sig) sample_domain sample_input" using sample_input_ok by simp
  show ?thesis
  proof (rule signed_zone_verifies [OF sample_signing_law sample_validity_law _ _ sample_timing])
    show "names_law (dlib sample_sig)" "complete_keys (klib (dlib sample_sig)) sample_domain sample_keys_set"
      using sample_complete by simp_all
    show "sample_now \<le> sample_now + Second" "sample_now + Second < sample_now + signingWindowTolerance"
      by (simp_all add: signingWindowTolerance_def Minute_def Second_def)
    show "plain_records (dlib sample_sig) (sample_input @ denial_records sample_sig sample_cfg
        (newZoneModel sample_dns sample_domain sample_input) sample_input 60)"
      "verify_denial sample_sig sample_cfg (newZoneModel sample_dns sample_domain sample_input) (sample_input @
        denial_records sample_sig sample_cfg (newZoneModel sample_dns sample_domain sample_input) sample_input 60) = Inr ()"
      using denial_plain [OF ok n3] denial_verifies [OF ok n3] by simp_all
  qed (rule refl, rule sample_sign_run)
qed

lemma signRecords_keeps:
  "signRecordsWithModel lib cfg now m domain records keys = Inr out \<Longrightarrow> set records \<subseteq> set out"
  by (auto simp: signRecordsWithModel_def Let_def split: sum.splits)

text \<open>The keys of the installation load.\<close>

lemma sample_keys_load:
  "\<exists>keys w'. loadKeysForSigning sample_env sample_lib sample_cfg sample_domain sample_zone sample_world = (Inr keys, w')"
proof -
  let ?k = "(sample_key 257 (rev (sample_seed (CHR ''A''))), sample_seed (CHR ''A''))"
  let ?z = "(sample_key 256 (rev (sample_seed (CHR ''k''))), sample_seed (CHR ''k''))"
  have tags: "KeyTag sample_lib (sample_key 257 (rev (sample_seed (CHR ''A'')))) = 81"
    "KeyTag sample_lib (sample_key 256 (rev (sample_seed (CHR ''k'')))) = 97" "sample_tag (CHR ''A'') = 81" "sample_tag (CHR ''k'') = 97"
    by code_simp+
  have "runs (EnsureLiveKey sample_env sample_lib sample_cfg sample_domain ''ksk'' 81) sample_world
      (\<lambda>x w'. x = ?k \<and> content w' = content sample_world)"
    by (rule runs_EnsureLiveKey [OF sample_env_works sample_running sample_verified(1)]) (simp add: tags)
  then obtain w1 where w1: "EnsureLiveKey sample_env sample_lib sample_cfg sample_domain ''ksk'' 81 sample_world = (Inr ?k, w1)"
    "\<not> halted w1" "content w1 = content sample_world" by (auto elim!: runsE)
  have "verified_at sample_lib w1 (liveBase sample_cfg sample_domain ''zsk'') sample_domain ''zsk'' = Some ?z"
    using sample_verified(3) w1(3) by (metis verified_at_cong)
  then have "runs (EnsureLiveKey sample_env sample_lib sample_cfg sample_domain ''zsk'' 97) w1
      (\<lambda>x w'. x = ?z \<and> content w' = content w1)"
    by (rule runs_EnsureLiveKey [OF sample_env_works w1(2)]) (simp add: tags)
  then obtain w2 where w2: "EnsureLiveKey sample_env sample_lib sample_cfg sample_domain ''zsk'' 97 w1 = (Inr ?z, w2)"
    by (auto elim!: runsE)
  have e: "expectedLiveKeyTags sample_zone = Inr (81, 97)"
    by (simp add: expectedLiveKeyTags_def sample_zone_def sample_key_state_def tags zero_zone_def)
  have r: "z_Rollover sample_zone = None" by (simp add: sample_zone_def zero_zone_def)
  show ?thesis using w1(1) w2 tags(1,2)
    by (simp add: loadKeysForSigning_def e r op_bind_def op_wrap_apply op_res_def add_ksk_def add_zsk_def
        validateConsistency_def check_each_iff validateAlgorithms_def sample_key_def)
qed

end
