(* ===== verification/Signing_Props.thy ===== *)
theory Signing_Props
  imports Sample_Signing
begin

text \<open>
  The properties of zone signing: owner names, the chains, the keys of each phase, the signed
  zone, what a run publishes and records, and when a zone is signed again.
\<close>

section \<open>Names and denial\<close>

text \<open>
  The canonical spelling identifies a name: two valid names have the same canonical form
  exactly when their labels are the same octets up to ASCII case, whatever escapes they are
  written with, and canonicalising twice changes nothing.
\<close>

theorem canonical_names_identify:
  assumes "names_law lib" "name_ok lib a" "name_ok lib b"
  shows "(canonicalName lib a = canonicalName lib b \<longleftrightarrow> wire lib a = wire lib b) \<and>
    canonicalName lib (canonicalName lib a) = canonicalName lib a"
  using canonicalName_eq_iff [OF assms] canonicalName_idem [OF assms(1,2)] by simp

theorem canonical_names_identify_witness:
  "canonicalName sample_dns ''A.b.'' = canonicalName sample_dns sample_domain \<and>
   wire sample_dns ''A.b.'' = wire sample_dns sample_domain"
  using canonical_names_identify [OF sample_names_law sample_name_ok(2,7)] by (simp add: sample_canonical sample_apex)

text \<open>
  A name of the zone is occluded exactly when it lies strictly below a zone cut: a
  delegation or a DNAME owner below the apex. The walk over the ancestors finds all of them.
\<close>

theorem occlusion_exact:
  assumes "zone_ok_names lib domain rs" "canonical lib n" "within_zone lib (newZoneModel lib domain rs) n"
  shows "isOccluded lib (newZoneModel lib domain rs) n \<longleftrightarrow> (\<exists>c. zone_cut lib domain rs c \<and> strictly_below lib n c)"
  by (rule isOccluded_iff [OF assms])

theorem occlusion_exact_witness:
  "isOccluded sample_dns (newZoneModel sample_dns sample_domain sample_input) ''n.c.a.b.'' \<longleftrightarrow>
   (\<exists>c. zone_cut sample_dns sample_domain sample_input c \<and> strictly_below sample_dns ''n.c.a.b.'' c)"
proof (rule occlusion_exact [OF sample_zone_names])
  show "canonical sample_dns ''n.c.a.b.''" unfolding canonical_def using sample_name_ok(4) sample_canonical(4) by metis
  show "within_zone sample_dns (newZoneModel sample_dns sample_domain sample_input) ''n.c.a.b.''"
    by (simp add: within_zone_def sample_apex) (simp add: sample_dns_def, code_simp)
qed

text \<open>
  The NSEC chain denies every name it should and nothing twice: for a canonical name that
  owns no authoritative data exactly one record of the generated chain covers it in the
  canonical order.
\<close>

theorem nsec_chain_denies_once:
  assumes "zone_ok_names lib domain rs" "canonicalName lib domain \<in> canon lib ` set rs"
    and "canonical lib name" "name \<notin> set (authoritativeOwners lib (newZoneModel lib domain rs))"
  shows "\<exists>!i. i < length (generateNSECChainWithModel lib (newZoneModel lib domain rs) rs ttl) \<and>
    nsec_denies lib (generateNSECChainWithModel lib (newZoneModel lib domain rs) rs ttl ! i) name"
  by (rule generated_chain_denies [OF assms])

theorem nsec_chain_denies_once_witness:
  "\<exists>!i. i < length (generateNSECChainWithModel sample_dns (newZoneModel sample_dns sample_domain sample_input) sample_input 60) \<and>
    nsec_denies sample_dns (generateNSECChainWithModel sample_dns (newZoneModel sample_dns sample_domain sample_input) sample_input 60 ! i)
      ''x.a.b.''"
proof (rule nsec_chain_denies_once [OF sample_zone_names])
  show "canonical sample_dns ''x.a.b.''" unfolding canonical_def using sample_name_ok(6) sample_canonical(6) by metis
  show "canonicalName sample_dns sample_domain \<in> canon sample_dns ` set sample_input"
    using sample_input_ok by (simp add: input_ok_def)
  show "''x.a.b.'' \<notin> set (authoritativeOwners sample_dns (newZoneModel sample_dns sample_domain sample_input))"
    unfolding authoritativeOwners_spec(2) [OF sample_zone_names] sample_canon_owners by simp
qed

section \<open>Keys and signatures\<close>

text \<open>
  C17. The keys a zone is signed with are those its record demands: \<open>loadKeysForSigning\<close>
  returns only a key set that follows the plan of the rollover phase (which tags are published,
  which sign the DNSKEY RRset, which sign the rest), with every signing key published, every
  pair corresponding and in its role, and one algorithm outside an algorithm rollover.
\<close>

theorem loaded_keys_follow_plan:
  assumes "loadKeysForSigning env lib cfg domain z w = (Inr keys, w')"
  shows "(\<exists>plan. key_plan z = Some plan \<and> follows lib domain plan keys) \<and>
    ((\<forall>r. z_Rollover z = Some r \<longrightarrow> r_Type r \<noteq> ''algorithm'') \<longrightarrow>
      (\<forall>a \<in> set (sk_dnskeys keys). \<forall>b \<in> set (sk_dnskeys keys). dk_Algorithm a = dk_Algorithm b))"
  using loadKeysForSigning_follows [OF assms] validateAlgorithms_one by blast

theorem loaded_keys_follow_plan_witness:
  "\<exists>keys w'. loadKeysForSigning sample_env sample_lib sample_cfg sample_domain sample_zone sample_world = (Inr keys, w') \<and>
     (\<exists>plan. key_plan sample_zone = Some plan \<and> follows sample_lib sample_domain plan keys)"
proof -
  obtain keys w' where run: "loadKeysForSigning sample_env sample_lib sample_cfg sample_domain sample_zone sample_world = (Inr keys, w')"
    using sample_keys_load by blast
  from loaded_keys_follow_plan [OF run] run show ?thesis by blast
qed

text \<open>
  C18. A zone that passes the verification is signed: every record that is authoritative, at or
  above the cuts, is covered, for every algorithm among the published keys, by a signature that
  names its owner and type, is inside its window and verifies with a published key of the right
  role, a KSK for the DNSKEY RRset and a ZSK for every other.
\<close>

theorem verified_zone_is_signed:
  assumes "verifySignedZoneWithModel lib cfg now m input out keys = Inr ()"
    and "r \<in> set out" "\<not> is_rrsig r" "signable (dlib lib) m (canon (dlib lib) r) (Rrtype r)" "dk \<in> set (sk_dnskeys keys)"
  shows "\<exists>sig k. good_sig lib cfg now keys out (canon (dlib lib) r, Rrtype r) sig k \<and>
    dk_Algorithm k = dk_Algorithm dk \<and> (odd (uint (dk_Flags k)) \<longleftrightarrow> Rrtype r = TypeDNSKEY)"
  by (rule verified_zone_signed [OF assms])

theorem verified_zone_is_signed_witness:
  "\<exists>sig k. good_sig sample_sig sample_cfg (sample_now + Second) sample_keys_set sample_signed (''a.b.'', TypeSOA) sig k \<and>
    dk_Algorithm k = ED25519 \<and> (odd (uint (dk_Flags k)) \<longleftrightarrow> TypeSOA = TypeDNSKEY)"
proof -
  let ?r = "SOA (sample_header ''a.b.'' TypeSOA) 1699990000 60 []" and ?dk = "sample_key 257 (rev (sample_seed (CHR ''A'')))"
  have "?r \<in> set sample_input" by (simp add: sample_input_def sample_records_def)
  then have r: "?r \<in> set sample_signed"
    using signRecords_keeps [OF sample_sign_run] by auto
  have s: "signable sample_dns (newZoneModel sample_dns sample_domain sample_input) ''a.b.'' TypeSOA"
  proof -
    have "\<not> isOccluded sample_dns (newZoneModel sample_dns sample_domain sample_input) ''a.b.''"
      by (auto simp: isOccluded_def ancestors_def list_ex_iff sample_apex)
    then show ?thesis by (simp add: signable_def isDelegation_iff sample_apex)
  qed
  have dk: "?dk \<in> set (sk_dnskeys sample_keys_set)" by (simp add: sample_keys_set_def)
  from verified_zone_is_signed [OF sample_verified_zone r _ _ dk] s show ?thesis
    by (simp add: sample_header_def sample_canonical sample_key_def)
qed



section \<open>Publishing and recording\<close>

text \<open>
  C5. Every run of \<open>SignZone\<close>, with any file-system failure or a crash at any system
  call, either reports an error and leaves the published file and the zone's record alone, or
  has replaced the published file by the text of a zone that passed the verification under the
  keys of the plan; when it reports success it has also recorded that zone, and only a crash
  between the replacement and the record can leave the record behind.
\<close>

theorem signing_outcomes:
  assumes "SignZone env lib src cfg domain w = (r, w')" and "OutputPath cfg domain \<notin> key_paths cfg domain"
  shows "(\<exists>e. r = Inl e) \<and> mem w' = mem w \<and> content w' (OutputPath cfg domain) = content w (OutputPath cfg domain) \<or>
    (\<exists>z res now t. GetZone domain (mem w) = Some z \<and> published_by lib cfg domain z res now \<and>
       content w' (OutputPath cfg domain) = Some (zone_text lib domain t (sz_records res)) \<and>
       (r = Inl (Wrap ''writing signed zone'' crashed) \<and> mem w' = mem w \<or>
        r = Inr () \<and> (\<exists>now1 now2 d. GetZone domain (mem w') = Some (record_signed cfg domain now1 now2 res d z))))"
  by (rule SignZone_cases [OF assms]) blast+

definition sample_source :: source_env where
  "sample_source = \<lparr>src_open_at = (\<lambda>t p. Inr ()),
     src_stat_at = (\<lambda>t p. Inr \<lparr>fi_Size = 4, fi_ModTime = 5, fi_IsRegular = True\<rparr>), src_read_at = (\<lambda>t p. Inr ''zone'')\<rparr>"

theorem signing_outcomes_witness:
  "\<exists>r w'. SignZone sample_clock sample_sig sample_source sample_cfg sample_domain sample_world = (r, w') \<and>
    ((\<exists>e. r = Inl e) \<and> mem w' = mem sample_world \<or>
     (\<exists>z res now t. GetZone sample_domain (mem sample_world) = Some z \<and> published_by sample_sig sample_cfg sample_domain z res now \<and>
       content w' ''/o/a.b.zone.signed'' = Some (zone_text sample_sig sample_domain t (sz_records res))))"
proof -
  have out: "OutputPath sample_cfg sample_domain = ''/o/a.b.zone.signed''" by code_simp
  have "\<exists>x. p = ''/d/keys/'' @ x" if "p \<in> key_paths sample_cfg sample_domain" for p
    using that backup_paths_prefix [of sample_domain _ p sample_cfg] sample_names sample_paths
    by (auto simp: key_paths_def live_paths_def sample_prefix)
  then have "OutputPath sample_cfg sample_domain \<notin> key_paths sample_cfg sample_domain" unfolding out by fastforce
  from signing_outcomes [OF surjective_pairing this] show ?thesis unfolding out by (metis surjective_pairing)
qed

text \<open>
  C34. Recording a signed zone keeps the invariants of the record: the schema and the rollover
  invariant, and a publication is pending exactly as long as the signed generation is not
  confirmed; the keys and the rollover are untouched.
\<close>

theorem recording_keeps_invariants:
  assumes "rollover_inv z" "\<not> blank (sz_sourcePath res)" "CHR 0x00 \<notin> set (sz_sourcePath res)"
  shows "rollover_inv (record_signed cfg domain now warnNow res d z) \<and> pub_consistent (record_signed cfg domain now warnNow res d z) \<and>
    z_KSK (record_signed cfg domain now warnNow res d z) = z_KSK z \<and>
    z_ZSK (record_signed cfg domain now warnNow res d z) = z_ZSK z \<and>
    z_Rollover (record_signed cfg domain now warnNow res d z) = z_Rollover z"
  using record_signed_inv [OF assms] record_signed_pub_consistent record_signed_fields(4-6) by simp

definition sample_result :: signed_zone where
  "sample_result = \<lparr>sz_records = sample_signed, sz_serial = 1699990000, sz_published = 1699990000, sz_sourcePath = ''/z'',
     sz_srcModTime = 5, sz_srcSize = 4, sz_srcDigest = ''zone'', sz_dnskeyTTL = 3600, sz_maxRRSIGTTL = 3600,
     sz_sigExpiration = sample_now + 14 * 24 * Hour\<rparr>"

theorem recording_keeps_invariants_witness:
  "rollover_inv sample_zone \<and> rollover_inv (record_signed sample_cfg sample_domain sample_now sample_now sample_result [] sample_zone)"
proof -
  have inv: "rollover_inv sample_zone" using sample_inv sample_zone_at by (simp add: zat_def)
  have p: "\<not> blank (sz_sourcePath sample_result)" "CHR 0x00 \<notin> set (sz_sourcePath sample_result)"
    by (simp add: sample_result_def, code_simp) (simp add: sample_result_def)
  from recording_keeps_invariants [OF inv p] inv show ?thesis by blast
qed




section \<open>Serials and windows\<close>

text \<open>
  C36. Under the epoch policy the published serial moves forward: it is ahead, in serial
  arithmetic, of every serial published before, and inside one half of the serial circle it is
  the maximum of the clock, the source serial plus one and the previous serial plus one.
\<close>

theorem epoch_serial_advances:
  assumes "nextPublishedSerial domain ''epoch'' serial previous now = Inr next"
  shows "(previous \<noteq> 0 \<longrightarrow> serialGt next previous) \<and>
    (\<bar>uint (unix32 now) - uint serial\<bar> < 2 ^ 31 - 1 \<and>
     (previous \<noteq> 0 \<longrightarrow> \<bar>uint (unix32 now) - uint previous\<bar> < 2 ^ 31 - 1 \<and> \<bar>uint serial - uint previous\<bar> < 2 ^ 31 - 1) \<and>
     uint serial < 2 ^ 32 - 1 \<and> uint previous < 2 ^ 32 - 1 \<longrightarrow>
     uint next = max (max (uint (unix32 now)) (uint serial + 1)) (if previous = 0 then 0 else uint previous + 1))"
  using epoch_next_gt_previous [OF assms] epoch_next_max [OF assms] by blast

theorem epoch_serial_advances_witness:
  "nextPublishedSerial sample_domain ''epoch'' 1699990000 1700000005 sample_now = Inr 1700000006 \<and> serialGt 1700000006 1700000005"
proof -
  have run: "nextPublishedSerial sample_domain ''epoch'' 1699990000 1700000005 sample_now = Inr 1700000006"
    by (simp add: nextPublishedSerial_def sample_now_def epochSerialFloor_def serialGt_def)
  from epoch_serial_advances [OF run] run show ?thesis by simp
qed

text \<open>
  A signature that the window check accepts expires when the configuration says: placed on
  the absolute time line, its expiration is within ten minutes of the configured validity from
  now and its inception within ten minutes of the backdated start, despite the 32-bit wire form.
\<close>

theorem accepted_windows_are_close:
  assumes "checkRRSIGWindow lib cfg sig now = Inr ()"
    and "ValidateSignatureTiming (c_SignatureValidity (DNSSEC cfg)) refresh poll = Inr ()"
  shows "\<bar>Unix (serialTime (sig_Expiration sig) now) - Unix (now + c_SignatureValidity (DNSSEC cfg))\<bar> \<le> 600 \<and>
    \<bar>Unix (serialTime (sig_Inception sig) now) - Unix (now - SignatureInceptionBackdate)\<bar> \<le> 600"
  using accepted_window [OF assms] by blast

definition sample_rrsig :: rrsig where
  "sample_rrsig = createRRSIG sample_sig sample_records (sample_key 256 (rev (sample_seed (CHR ''k'')))) sample_domain
     (sample_now - SignatureInceptionBackdate) (sample_now + c_SignatureValidity (DNSSEC sample_cfg))"

theorem accepted_windows_are_close_witness:
  "\<bar>Unix (serialTime (sig_Expiration sample_rrsig) (sample_now + Second)) -
     Unix (sample_now + Second + c_SignatureValidity (DNSSEC sample_cfg))\<bar> \<le> 600"
proof -
  have "checkRRSIGWindow sample_sig sample_cfg sample_rrsig (sample_now + Second) = Inr ()"
    by (rule created_window [OF sample_validity_law sample_timing])
      (simp_all add: sample_rrsig_def createRRSIG_def Let_def signingWindowTolerance_def Minute_def Second_def)
  from accepted_windows_are_close [OF this sample_timing] show ?thesis by blast
qed

end
