(* ===== verification/Denial_Names.thy ===== *)
theory Denial_Names
  imports Nsec3_Chain Key_Format_Laws Signer_Config "HOL-Library.Sublist"
begin

text \<open>
  Names as the validator handles them (\<open>validator/internal/validator/chain.go\<close> and the
  helpers at the end of \<open>nsec.go\<close>): normalisation, the zone hierarchy, the canonical
  order, closest enclosers and wildcards, and the NSEC3 hash.

  \<open>strings.ToLower\<close> is modelled on ASCII text: the DNS library renders every octet
  outside it as a decimal escape.
\<close>

section \<open>The library\<close>

text \<open>
  The functions of the DNS library and of the cryptographic library that the validator calls:
  \<open>dns.IsSubDomain\<close>, \<open>dns.CanonicalName\<close>, the name of a record type,
  SHA-1, and the public suffix list.
\<close>

record vallib =
  nlib :: dnslib
  IsSubDomain :: "string \<Rightarrow> string \<Rightarrow> bool"
  CanonicalName :: "string \<Rightarrow> string"
  TypeName :: "16 word \<Rightarrow> string"
  Sha1 :: "bytes \<Rightarrow> bytes"
  EffectiveTLDPlusOne :: "string \<Rightarrow> string option"

definition ToLower :: "string \<Rightarrow> string" where
  "ToLower s = map ascii_lower s"

definition has_dot :: "string \<Rightarrow> bool" where
  "has_dot s \<longleftrightarrow> s \<noteq> [] \<and> last s = CHR ''.''"

section \<open>The zone hierarchy\<close>

definition SplitIntoZoneHierarchy :: "string \<Rightarrow> string list" where
  "SplitIntoZoneHierarchy domain0 =
     (let d = ToLower (trim_space domain0) in
      if d = [] then [''.''] else
      let domain = (if has_dot d then d else d @ ''.'') in
      if domain = ''.'' then [''.''] else
      let labels = split_on (CHR ''.'') (trim_dot domain)
      in ''.'' # map (\<lambda>i. join_with (CHR ''.'') (drop i labels) @ ''.'') (rev [0..<length labels]))"

definition GetParentZone :: "string \<Rightarrow> string" where
  "GetParentZone zone0 =
     (let z = ToLower (trim_space zone0); zone = (if has_dot z then z else z @ ''.'') in
      if zone = ''.'' then []
      else let rest = dropWhile (\<lambda>c. c \<noteq> CHR ''.'') zone in
           if rest = [] \<or> tl rest = [] then ''.'' else tl rest)"

definition IsSubdomainOf :: "string \<Rightarrow> string \<Rightarrow> bool" where
  "IsSubdomainOf child0 parent0 =
     (let c = ToLower (trim_space child0); p = ToLower (trim_space parent0);
          child = (if has_dot c then c else c @ ''.''); parent = (if has_dot p then p else p @ ''.'') in
      if parent = ''.'' then True
      else suffix (CHR ''.'' # parent) child \<or> child = parent)"

definition GetZoneLabels :: "string \<Rightarrow> nat" where
  "GetZoneLabels zone0 =
     (let z = trim_space zone0; zone = (if has_dot z then z else z @ ''.'') in
      if zone = ''.'' then 0 else count_list (trim_dot zone) (CHR ''.'') + 1)"

definition NormalizeDomain :: "string \<Rightarrow> string" where
  "NormalizeDomain domain0 =
     (let domain = ToLower (trim_space domain0) in
      if domain = [] then ''.'' else if has_dot domain then domain else domain @ ''.'')"

definition IsTLD :: "string \<Rightarrow> bool" where
  "IsTLD zone0 =
     (let zone = NormalizeDomain zone0 in if zone = ''.'' then False else GetZoneLabels zone = 1)"

definition IsRootZone :: "string \<Rightarrow> bool" where
  "IsRootZone zone \<longleftrightarrow> NormalizeDomain zone = ''.''"

definition ExtractTLD :: "string \<Rightarrow> string" where
  "ExtractTLD domain0 =
     (let domain = NormalizeDomain domain0 in
      if domain = ''.'' then ''.''
      else last (split_on (CHR ''.'') (trim_dot domain)) @ ''.'')"

definition GetRegistrableDomain :: "vallib \<Rightarrow> string \<Rightarrow> string" where
  "GetRegistrableDomain lib domain =
     (let d = trim_dot (NormalizeDomain domain) in
      if d = [] then []
      else case EffectiveTLDPlusOne lib d of None \<Rightarrow> [] | Some etld1 \<Rightarrow> etld1 @ ''.'')"

definition IsRegistrableDomain :: "vallib \<Rightarrow> string \<Rightarrow> bool" where
  "IsRegistrableDomain lib zone =
     (let z = NormalizeDomain zone in
      if z = ''.'' then False
      else let reg = GetRegistrableDomain lib z in reg \<noteq> [] \<and> reg = z)"

section \<open>Canonical names and their order\<close>

definition canonicalizeName :: "string \<Rightarrow> string" where
  "canonicalizeName name0 =
     (let name = ToLower (trim_space name0) in
      if name \<noteq> [] \<and> \<not> has_dot name then name @ ''.'' else name)"

text \<open>The comparison of two label lists, from the right: \<open>-1\<close>, \<open>0\<close> or \<open>1\<close>.\<close>

fun compare_labels :: "string list \<Rightarrow> string list \<Rightarrow> int" where
  "compare_labels [] [] = 0"
| "compare_labels [] (_ # _) = -1"
| "compare_labels (_ # _) [] = 1"
| "compare_labels (x # xs) (y # ys) =
     (if canonicalLabelBytes x < canonicalLabelBytes y then -1
      else if canonicalLabelBytes y < canonicalLabelBytes x then 1
      else compare_labels xs ys)"

definition compareCanonicalNames :: "vallib \<Rightarrow> string \<Rightarrow> string \<Rightarrow> int" where
  "compareCanonicalNames lib a b =
     compare_labels (rev (SplitDomainName (nlib lib) a)) (rev (SplitDomainName (nlib lib) b))"

definition canonicallyBetween :: "vallib \<Rightarrow> string \<Rightarrow> string \<Rightarrow> string \<Rightarrow> bool" where
  "canonicallyBetween lib name start end' =
     (let c = compareCanonicalNames lib start end' in
      if c = -1 then compareCanonicalNames lib name start > 0 \<and> compareCanonicalNames lib name end' < 0
      else if c = 1 then compareCanonicalNames lib name start > 0 \<or> compareCanonicalNames lib name end' < 0
      else compareCanonicalNames lib name start \<noteq> 0)"

definition hashBetween :: "string \<Rightarrow> string \<Rightarrow> string \<Rightarrow> bool" where
  "hashBetween hash0 start0 end0 =
     (let hash = ToUpper hash0; start = ToUpper start0; end' = ToUpper end0 in
      if start < end' then hash > start \<and> hash < end'
      else if start > end' then hash > start \<or> hash < end'
      else hash \<noteq> start)"

definition splitLabels :: "string \<Rightarrow> string list" where
  "splitLabels name0 =
     (let name = trim_dot (ToLower name0) in
      if name = [] then [] else rev (split_on (CHR ''.'') name))"

fun compareCanonical :: "string list \<Rightarrow> string list \<Rightarrow> int" where
  "compareCanonical [] [] = 0"
| "compareCanonical [] (_ # _) = -1"
| "compareCanonical (_ # _) [] = 1"
| "compareCanonical (x # xs) (y # ys) = (if x < y then -1 else if y < x then 1 else compareCanonical xs ys)"

section \<open>Enclosers and wildcards\<close>

definition lastNLabels :: "string \<Rightarrow> int \<Rightarrow> string" where
  "lastNLabels qname0 n =
     (let qname = canonicalizeName qname0 in
      if n \<le> 0 \<or> qname = ''.'' \<or> qname = [] then ''.''
      else let labels = split_on (CHR ''.'') (trim_dot qname) in
           if n \<ge> int (length labels) then qname
           else join_with (CHR ''.'') (drop (length labels - nat n) labels) @ ''.'')"

definition commonSuffixLabels :: "string \<Rightarrow> string \<Rightarrow> string" where
  "commonSuffixLabels a b =
     (let al = splitLabels a; bl = splitLabels b;
          shared = map fst (takeWhile (\<lambda>(x, y). x = y) (zip al bl))
      in if shared = [] then ''.'' else join_with (CHR ''.'') (rev shared) @ ''.'')"

definition closestEncloserFromNSEC :: "string \<Rightarrow> string \<Rightarrow> string \<Rightarrow> string" where
  "closestEncloserFromNSEC qname own next =
     (let ceOwner = commonSuffixLabels qname own; ceNext = commonSuffixLabels qname next in
      if GetZoneLabels ceNext > GetZoneLabels ceOwner then ceNext else ceOwner)"

definition wildcardName :: "string \<Rightarrow> string" where
  "wildcardName encloser = (if encloser = ''.'' \<or> encloser = [] then ''*.'' else ''*.'' @ encloser)"

definition nextCloserName :: "string \<Rightarrow> string \<Rightarrow> string" where
  "nextCloserName qname0 ce0 =
     (let qname = canonicalizeName qname0; ce = canonicalizeName ce0 in
      if ce = qname then qname else lastNLabels qname (int (GetZoneLabels ce) + 1))"

definition HasTypeInBitmap :: "string \<Rightarrow> string list \<Rightarrow> bool" where
  "HasTypeInBitmap typeName bitmap = list_ex (\<lambda>t. t = typeName) bitmap"

section \<open>The NSEC3 hash\<close>

definition hex_digit :: "char \<Rightarrow> nat option" where
  "hex_digit c = (if CHR ''0'' \<le> c \<and> c \<le> CHR ''9'' then Some (of_char c - 48)
     else if CHR ''a'' \<le> c \<and> c \<le> CHR ''f'' then Some (of_char c - 97 + 10) else None)"

fun hex_pairs :: "string \<Rightarrow> error + bytes" where
  "hex_pairs (a # b # s) =
     (case (hex_digit a, hex_digit b) of
        (Some x, Some y) \<Rightarrow> (case hex_pairs s of Inl e \<Rightarrow> Inl e | Inr r \<Rightarrow> Inr (char_of (16 * x + y) # r))
      | _ \<Rightarrow> Inl (Msg ''invalid hex character''))"
| "hex_pairs _ = Inr []"

definition hexDecode :: "string \<Rightarrow> error + bytes" where
  "hexDecode s0 =
     (if s0 = [] \<or> s0 = ''-'' then Inr []
      else let s = ToLower s0 in
           if length s mod 2 \<noteq> 0 then Inl (Msg ''invalid hex string length'') else hex_pairs s)"

definition normalizeSalt :: "string \<Rightarrow> string" where
  "normalizeSalt salt = (let s = ToUpper (trim_space salt) in if s = ''-'' then [] else s)"

definition toWireFormat :: "vallib \<Rightarrow> string \<Rightarrow> bytes" where
  "toWireFormat lib name0 =
     (let name = trim_space name0 in
      if name = [] \<or> name = ''.'' then [char_of (0 :: nat)]
      else concat (map (\<lambda>label. let octets = canonicalLabelBytes label in char_of (length octets) # octets)
             (SplitDomainName (nlib lib) (Fqdn (klib (nlib lib)) name))) @ [char_of (0 :: nat)])"

text \<open>\<open>base32.HexEncoding\<close> without padding: five bits a letter, the last group filled with zeroes.\<close>

definition octet_bits :: "char \<Rightarrow> bool list" where
  "octet_bits c = map (\<lambda>i. odd ((of_char c :: nat) div 2 ^ i)) [7, 6, 5, 4, 3, 2, 1, 0]"

definition bits_value :: "bool list \<Rightarrow> nat" where
  "bits_value bs = foldl (\<lambda>n b. 2 * n + (if b then 1 else 0)) 0 bs"

definition base32_letter :: "nat \<Rightarrow> char" where
  "base32_letter n = ''0123456789ABCDEFGHIJKLMNOPQRSTUV'' ! n"

fun base32_groups :: "bool list \<Rightarrow> string" where
  "base32_groups [] = []"
| "base32_groups (a # b # c # d # e # bs) = base32_letter (bits_value [a, b, c, d, e]) # base32_groups bs"
| "base32_groups bs = [base32_letter (bits_value (take 5 (bs @ replicate 4 False)))]"

definition base32hex :: "bytes \<Rightarrow> string" where
  "base32hex data = base32_groups (concat (map octet_bits data))"

definition computeNSEC3Hash :: "vallib \<Rightarrow> string \<Rightarrow> bytes \<Rightarrow> 16 word \<Rightarrow> string" where
  "computeNSEC3Hash lib name salt iterations =
     (let digest = Sha1 lib (toWireFormat lib (canonicalizeName name) @ salt)
      in ToUpper (base32hex (((\<lambda>d. Sha1 lib (d @ salt)) ^^ unat iterations) digest)))"

section \<open>Names without escapes\<close>

text \<open>
  Splitting at dots agrees with splitting into labels only when no dot is escaped. The laws
  below hold for names in lower case without escapes.
\<close>

definition plain_label :: "string \<Rightarrow> bool" where
  "plain_label l \<longleftrightarrow> l \<noteq> [] \<and>
     list_all (\<lambda>c. plain_char c \<and> c \<noteq> CHR ''.'' \<and> c \<noteq> backslash \<and> ascii_lower c = c) l"

abbreviation plain_name_labels :: "string list \<Rightarrow> bool" where
  "plain_name_labels ls \<equiv> list_all plain_label ls"

lemma plain_label_ok: "plain_label l \<Longrightarrow> label_ok l"
proof -
  have "list_all (\<lambda>c. c \<noteq> CHR ''.'' \<and> c \<noteq> backslash) l \<Longrightarrow> clean_label l" by (induction l) auto
  moreover assume "plain_label l"
  ultimately show ?thesis by (auto simp: plain_label_def label_ok_def list_all_iff)
qed

lemma plain_labels_ok: "plain_name_labels ls \<Longrightarrow> list_all label_ok ls"
  by (auto simp: list_all_iff plain_label_ok)

lemma plain_label_bytes [simp]: "plain_label l \<Longrightarrow> canonicalLabelBytes l = l"
proof -
  have "list_all (\<lambda>c. c \<noteq> backslash \<and> ascii_lower c = c) l \<Longrightarrow> canonicalLabelBytes l = l"
    by (induction l) (auto simp: canonicalLabelBytes_plain)
  moreover assume "plain_label l"
  ultimately show ?thesis by (auto simp: plain_label_def list_all_iff)
qed

lemma plain_label_lower [simp]: "plain_label l \<Longrightarrow> ToLower l = l"
  by (auto simp: plain_label_def list_all_iff ToLower_def intro: map_idI)

lemma plain_label_dot: "plain_label l \<Longrightarrow> CHR ''.'' \<notin> set l"
  by (auto simp: plain_label_def list_all_iff)

lemma plain_wildcard [simp]: "plain_label ''*''"
  by (simp add: plain_label_def plain_char_def ascii_lower_def)

lemma map_bytes_plain: "plain_name_labels ls \<Longrightarrow> map canonicalLabelBytes ls = ls"
  by (induction ls) simp_all

lemma map_lower_plain: "plain_name_labels ls \<Longrightarrow> map ToLower ls = ls"
  by (induction ls) simp_all

lemma split_join:
  "ls \<noteq> [] \<Longrightarrow> \<forall>l \<in> set ls. c \<notin> set l \<Longrightarrow> split_on c (join_with c ls) = ls"
proof (induction ls rule: induct_list012)
  case (3 x y zs)
  then show ?case using split_on_append [of c x] by (simp add: split_on_plain)
qed (simp_all add: split_on_plain)

lemma join_chars: "set (join_with c ls) \<subseteq> insert c (\<Union> (set ` set ls))"
  by (induction c ls rule: join_with.induct) auto

lemma joinLabels_chars:
  assumes "plain_name_labels ls"
  shows "\<forall>c \<in> set (joinLabels ls). plain_char c \<and> ascii_lower c = c"
proof -
  have "plain_char (CHR ''.'') \<and> ascii_lower (CHR ''.'') = CHR ''.''" by (simp add: plain_char_def ascii_lower_def)
  moreover have "\<forall>l \<in> set ls. \<forall>c \<in> set l. plain_char c \<and> ascii_lower c = c"
    using assms by (auto simp: plain_label_def list_all_iff)
  ultimately show ?thesis using join_chars [of "CHR ''.''" ls] by (auto simp: joinLabels_def)
qed

lemma trim_space_plain:
  assumes "\<forall>c \<in> set s. plain_char c"
  shows "trim_space s = s"
proof (cases s)
  case Nil
  then show ?thesis by (simp add: trim_space_def trim_left.simps trim_right.simps)
next
  case (Cons c r)
  then have "trim_left s = s" using space_len_plain assms by (simp add: trim_left.simps)
  moreover have "trim_right s = s"
    using last_space_len_plain [of s] assms Cons by (simp add: trim_right.simps plain_char_def)
  ultimately show ?thesis by (simp add: trim_space_def)
qed

lemma has_dot_joinLabels [simp]: "has_dot (joinLabels ls)"
  by (simp add: has_dot_def joinLabels_def)

lemma trim_space_joinLabels [simp]: "plain_name_labels ls \<Longrightarrow> trim_space (joinLabels ls) = joinLabels ls"
  using joinLabels_chars by (intro trim_space_plain) auto

lemma lower_joinLabels [simp]: "plain_name_labels ls \<Longrightarrow> ToLower (joinLabels ls) = joinLabels ls"
  using joinLabels_chars by (auto simp: ToLower_def intro: map_idI)

lemma canonicalizeName_join [simp]: "plain_name_labels ls \<Longrightarrow> canonicalizeName (joinLabels ls) = joinLabels ls"
  by (simp add: canonicalizeName_def)

lemma trim_dot_join: "trim_dot (joinLabels ls) = join_with (CHR ''.'') ls"
  by (simp add: trim_dot_def joinLabels_def)

lemma split_trim_join:
  "plain_name_labels ls \<Longrightarrow> ls \<noteq> [] \<Longrightarrow> split_on (CHR ''.'') (join_with (CHR ''.'') ls) = ls"
  by (rule split_join) (auto simp: list_all_iff plain_label_dot)

lemma join_empty: "plain_name_labels ls \<Longrightarrow> join_with (CHR ''.'') ls = [] \<longleftrightarrow> ls = []"
  by (cases "(CHR ''.'', ls)" rule: join_with.cases) (auto simp: plain_label_def)

lemma splitLabels_join [simp]: "plain_name_labels ls \<Longrightarrow> splitLabels (joinLabels ls) = rev ls"
  by (simp add: splitLabels_def trim_dot_join join_empty split_trim_join)

lemma joinLabels_not_Nil [simp]: "joinLabels ls \<noteq> []"
  by (simp add: joinLabels_def)

lemma joinLabels_root_plain: "plain_name_labels ls \<Longrightarrow> joinLabels ls = ''.'' \<longleftrightarrow> ls = []"
  using joinLabels_root plain_labels_ok by blast

lemma joinLabels_inj:
  assumes "plain_name_labels a" "plain_name_labels b"
  shows "joinLabels a = joinLabels b \<longleftrightarrow> a = b"
  using splitLabels_join [OF assms(1)] splitLabels_join [OF assms(2)] by (metis rev_rev_ident)

lemma count_dots: "\<forall>l \<in> set ls. c \<notin> set l \<Longrightarrow> ls \<noteq> [] \<Longrightarrow> count_list (join_with c ls) c + 1 = length ls"
  by (induction ls rule: induct_list012) (simp_all add: count_notin)

lemma GetZoneLabels_join [simp]:
  assumes "plain_name_labels ls"
  shows "GetZoneLabels (joinLabels ls) = length ls"
proof -
  have "\<forall>l \<in> set ls. CHR ''.'' \<notin> set l" using assms by (auto simp: list_all_iff plain_label_dot)
  then show ?thesis using assms count_dots [of ls "CHR ''.''"]
    by (auto simp: GetZoneLabels_def joinLabels_root_plain trim_dot_join)
qed

lemma plain_drop: "plain_name_labels ls \<Longrightarrow> plain_name_labels (drop n ls)"
  by (auto simp: list_all_iff dest: in_set_dropD)

lemma plain_suffix: "suffix p ls \<Longrightarrow> plain_name_labels ls \<Longrightarrow> plain_name_labels p"
  by (auto simp: suffix_def)

lemma lastNLabels_join [simp]:
  assumes "plain_name_labels ls"
  shows "lastNLabels (joinLabels ls) n = joinLabels (drop (length ls - nat n) ls)"
proof (cases "n \<le> 0 \<or> ls = []")
  case True
  then show ?thesis using assms by (auto simp: lastNLabels_def joinLabels_root_plain) (simp_all add: joinLabels_def)
next
  case False
  then have "length ls - nat n < length ls" by (intro diff_less) auto
  then have "drop (length ls - nat n) ls \<noteq> []" by simp
  then show ?thesis using assms False
    by (auto simp: lastNLabels_def joinLabels_root_plain trim_dot_join split_trim_join Let_def)
      (auto simp: joinLabels_def)
qed

text \<open>The labels two names share at the end.\<close>

definition common_suffix :: "string list \<Rightarrow> string list \<Rightarrow> string list" where
  "common_suffix a b = rev (map fst (takeWhile (\<lambda>(x, y). x = y) (zip (rev a) (rev b))))"

lemma prefix_common:
  "prefix p (map fst (takeWhile (\<lambda>(x, y). x = y) (zip a b))) \<longleftrightarrow> prefix p a \<and> prefix p b"
proof (induction a arbitrary: b p)
  case (Cons x a)
  show ?case
  proof (cases b)
    case (Cons y b')
    then show ?thesis using Cons.IH by (cases p) auto
  qed auto
qed auto

lemma suffix_common: "suffix p (common_suffix a b) \<longleftrightarrow> suffix p a \<and> suffix p b"
  using prefix_common [of "rev p" "rev a" "rev b"] by (simp add: common_suffix_def suffix_to_prefix)

lemma common_suffix_suffix: "suffix (common_suffix a b) a" "suffix (common_suffix a b) b"
  using suffix_common [of "common_suffix a b" a b] by simp_all

lemma commonSuffixLabels_join [simp]:
  assumes "plain_name_labels a" "plain_name_labels b"
  shows "commonSuffixLabels (joinLabels a) (joinLabels b) = joinLabels (common_suffix a b)"
  using assms by (simp add: commonSuffixLabels_def Let_def) (simp add: joinLabels_def common_suffix_def)

lemma wildcardName_join [simp]: "plain_name_labels ls \<Longrightarrow> wildcardName (joinLabels ls) = joinLabels (''*'' # ls)"
  by (cases ls) (auto simp: wildcardName_def joinLabels_root_plain, simp_all add: joinLabels_def)

text \<open>The encloser an NSEC record shows, on labels.\<close>

definition encloser :: "string list \<Rightarrow> string list \<Rightarrow> string list \<Rightarrow> string list" where
  "encloser q a b = (if length (common_suffix q a) < length (common_suffix q b)
     then common_suffix q b else common_suffix q a)"

lemma closestEncloser_join [simp]:
  assumes "plain_name_labels q" "plain_name_labels a" "plain_name_labels b"
  shows "closestEncloserFromNSEC (joinLabels q) (joinLabels a) (joinLabels b) = joinLabels (encloser q a b)"
proof -
  have "plain_name_labels (common_suffix q a)" "plain_name_labels (common_suffix q b)"
    using common_suffix_suffix plain_suffix assms(1) by metis+
  then show ?thesis using assms by (simp add: closestEncloserFromNSEC_def Let_def encloser_def)
qed

lemma plain_encloser: "plain_name_labels q \<Longrightarrow> plain_name_labels (encloser q a b)"
  using common_suffix_suffix plain_suffix by (metis encloser_def)

section \<open>The canonical order on names without escapes\<close>

lemma compare_labels_iff:
  "compare_labels xs ys = (if map canonicalLabelBytes xs < map canonicalLabelBytes ys then -1
     else if map canonicalLabelBytes ys < map canonicalLabelBytes xs then 1 else 0)"
  by (induction xs ys rule: compare_labels.induct) auto

text \<open>The comparison is the signer's canonical order, with the third outcome for equal names.\<close>

lemma compareCanonicalNames_key:
  "compareCanonicalNames lib a b =
     (if name_key (nlib lib) a < name_key (nlib lib) b then -1
      else if name_key (nlib lib) b < name_key (nlib lib) a then 1 else 0)"
  by (simp add: compareCanonicalNames_def compare_labels_iff name_key_def rev_map)

lemma canonicallyBetween_key:
  "canonicallyBetween lib n a b \<longleftrightarrow>
     between_cyclic (name_key (nlib lib) a) (name_key (nlib lib) b) (name_key (nlib lib) n)"
  by (auto simp: canonicallyBetween_def Let_def compareCanonicalNames_key between_cyclic_def)

lemma name_key_join:
  assumes "names_law (nlib lib)" "plain_name_labels ls"
  shows "name_key (nlib lib) (joinLabels ls) = rev ls"
  using assms by (simp add: name_key_def split_joinLabels plain_labels_ok map_bytes_plain)

lemma hashBetween_cyclic: "hashBetween h a b \<longleftrightarrow> between_cyclic (ToUpper a) (ToUpper b) (ToUpper h)"
  by (auto simp: hashBetween_def Let_def between_cyclic_def)

text \<open>Documented behaviour of \<open>dns.IsSubDomain\<close> and \<open>dns.CanonicalName\<close>.\<close>

definition subdomain_law :: "vallib \<Rightarrow> bool" where
  "subdomain_law lib \<longleftrightarrow>
     (\<forall>p c. list_all label_ok p \<and> list_all label_ok c \<longrightarrow>
        IsSubDomain lib (joinLabels p) (joinLabels c) = suffix (map ToLower p) (map ToLower c)) \<and>
     (\<forall>ls. list_all label_ok ls \<longrightarrow> CanonicalName lib (joinLabels ls) = joinLabels (map ToLower ls))"

lemma IsSubDomain_join:
  "subdomain_law lib \<Longrightarrow> plain_name_labels p \<Longrightarrow> plain_name_labels c \<Longrightarrow>
     IsSubDomain lib (joinLabels p) (joinLabels c) \<longleftrightarrow> suffix p c"
  using plain_labels_ok map_lower_plain by (simp add: subdomain_law_def)

lemma CanonicalName_join:
  "subdomain_law lib \<Longrightarrow> plain_name_labels ls \<Longrightarrow> CanonicalName lib (joinLabels ls) = joinLabels ls"
  using plain_labels_ok map_lower_plain by (simp add: subdomain_law_def)

end
