(* ===== verification/Denial_Proof.thy ===== *)
theory Denial_Proof
  imports Denial_Names
begin

text \<open>
  The proofs of non-existence the validator accepts
  (\<open>validator/internal/validator/nsec.go\<close>): NXDOMAIN, NODATA and wildcard proofs by
  NSEC records and by NSEC3 chains. The texts shown to the user are shortened.
\<close>

section \<open>Records and proofs\<close>

record nsec_rec =
  nr_Owner :: string
  nr_Class :: "16 word"
  nr_Section :: string
  nr_NextDomain :: string
  nr_TypeBitmap :: "string list"

record nsec3_rec =
  n3r_Owner :: string
  n3r_Class :: "16 word"
  n3r_Section :: string
  n3r_HashedOwner :: string
  n3r_Algorithm :: "8 word"
  n3r_Flags :: "8 word"
  n3r_Iterations :: "16 word"
  n3r_Salt :: string
  n3r_NextHashed :: string
  n3r_TypeBitmap :: "string list"

record nsec_proof =
  pf_ProofType :: string
  pf_ResponseType :: string
  pf_Verified :: bool
  pf_CoveringNSEC :: string
  pf_Error :: "error option"
  pf_OptOut :: bool
  pf_ClosestEncloser :: string
  pf_NextCloser :: string
  pf_Ignored :: "string list"

definition NSECProof :: "string \<Rightarrow> nsec_proof" where
  "NSECProof kind = \<lparr>pf_ProofType = kind, pf_ResponseType = [], pf_Verified = False, pf_CoveringNSEC = [],
     pf_Error = None, pf_OptOut = False, pf_ClosestEncloser = [], pf_NextCloser = [], pf_Ignored = []\<rparr>"

text \<open>\<open>"%s -> %s"\<close> and \<open>"%s types: %v"\<close>.\<close>

definition show_range :: "string \<Rightarrow> string \<Rightarrow> string" where
  "show_range a b = a @ '' -> '' @ b"

definition show_types :: "string \<Rightarrow> string list \<Rightarrow> string" where
  "show_types n ts = n @ '' types: ['' @ join_with (CHR '' '') ts @ '']''"

text \<open>The records of a message (\<open>validator/internal/dns/records.go\<close>).\<close>

definition NSECFromRR :: "vallib \<Rightarrow> nsec \<Rightarrow> string \<Rightarrow> nsec_rec" where
  "NSECFromRR lib v sect =
     \<lparr>nr_Owner = h_Name (nsec_Hdr v), nr_Class = h_Class (nsec_Hdr v), nr_Section = sect,
      nr_NextDomain = nsec_NextDomain v, nr_TypeBitmap = map (TypeName lib) (nsec_TypeBitMap v)\<rparr>"

definition first_label :: "string \<Rightarrow> string" where
  "first_label n = (let l = takeWhile (\<lambda>c. c \<noteq> CHR ''.'') n in if length l < length n then l else [])"

definition NSEC3FromRR :: "vallib \<Rightarrow> nsec3 \<Rightarrow> string \<Rightarrow> nsec3_rec" where
  "NSEC3FromRR lib v sect =
     \<lparr>n3r_Owner = h_Name (n3_Hdr v), n3r_Class = h_Class (n3_Hdr v), n3r_Section = sect,
      n3r_HashedOwner = ToUpper (first_label (h_Name (n3_Hdr v))),
      n3r_Algorithm = n3_Hash v, n3r_Flags = n3_Flags v, n3r_Iterations = n3_Iterations v,
      n3r_Salt = ToUpper (n3_Salt v), n3r_NextHashed = ToUpper (n3_NextDomain v),
      n3r_TypeBitmap = map (TypeName lib) (n3_TypeBitMap v)\<rparr>"

section \<open>Proofs by NSEC records\<close>

definition qnameWithinZone :: "vallib \<Rightarrow> string \<Rightarrow> string \<Rightarrow> error + unit" where
  "qnameWithinZone lib qname zone =
     (if zone = [] then Inr ()
      else if \<not> IsSubDomain lib (CanonicalName lib zone) (CanonicalName lib qname)
      then Inl (Msg ''the name is not within the zone'') else Inr ())"

definition nsec_boundary :: "vallib \<Rightarrow> string \<Rightarrow> nsec_rec \<Rightarrow> error + unit" where
  "nsec_boundary lib qname nsec =
     (let own = canonicalizeName (nr_Owner nsec) in
      if own = qname \<or> \<not> IsSubDomain lib own qname then Inr ()
      else if HasTypeInBitmap ''DNAME'' (nr_TypeBitmap nsec)
        then Inl (Msg ''an ancestor has the DNAME bit set'')
      else if HasTypeInBitmap ''NS'' (nr_TypeBitmap nsec) \<and> \<not> HasTypeInBitmap ''SOA'' (nr_TypeBitmap nsec)
        then Inl (Msg ''an ancestor is a delegation point'')
      else Inr ())"

definition nsecAncestorBoundary :: "vallib \<Rightarrow> string \<Rightarrow> nsec_rec list \<Rightarrow> error + unit" where
  "nsecAncestorBoundary lib qname nsecRecords =
     check_each (nsec_boundary lib (canonicalizeName qname)) nsecRecords"

definition nsecEndpointBelow :: "vallib \<Rightarrow> string \<Rightarrow> string \<Rightarrow> bool" where
  "nsecEndpointBelow lib name0 endpoint0 =
     (let name = canonicalizeName name0; endpoint = canonicalizeName endpoint0
      in endpoint \<noteq> name \<and> IsSubDomain lib name endpoint)"

definition nsec_covers :: "vallib \<Rightarrow> string \<Rightarrow> nsec_rec \<Rightarrow> bool" where
  "nsec_covers lib name r =
     canonicallyBetween lib name (canonicalizeName (nr_Owner r)) (canonicalizeName (nr_NextDomain r))"

text \<open>
  The first record that covers a name; a record owned by the name, met before, shows that the
  name exists.
\<close>

fun find_covering :: "vallib \<Rightarrow> string \<Rightarrow> nsec_rec list \<Rightarrow> error + nsec_rec" where
  "find_covering lib name [] = Inl (Msg ''no NSEC covers the name'')"
| "find_covering lib name (r # rs) =
     (if canonicalizeName (nr_Owner r) = name then Inl (Msg ''an NSEC proves the name exists'')
      else if nsec_covers lib name r then Inr r
      else find_covering lib name rs)"

definition verifyNSECNXDOMAIN :: "vallib \<Rightarrow> string \<Rightarrow> nsec_rec list \<Rightarrow> error + nsec_proof" where
  "verifyNSECNXDOMAIN lib qname0 nsecRecords =
     (let qname = canonicalizeName qname0 in
      case nsecAncestorBoundary lib qname nsecRecords of Inl e \<Rightarrow> Inl e | Inr _ \<Rightarrow>
      case find_covering lib qname nsecRecords of Inl e \<Rightarrow> Inl e | Inr covering \<Rightarrow>
      let own = canonicalizeName (nr_Owner covering); next = canonicalizeName (nr_NextDomain covering) in
      if nsecEndpointBelow lib qname next then Inl (Msg ''the name exists as an empty non-terminal'') else
      let ce = closestEncloserFromNSEC qname own next in
      if ce = qname then Inl (Msg ''the NSEC proves the name exists'') else
      case find_covering lib (wildcardName ce) nsecRecords of Inl e \<Rightarrow> Inl e | Inr _ \<Rightarrow>
      Inr ((NSECProof ''nxdomain'')\<lparr>pf_CoveringNSEC := show_range own next, pf_ClosestEncloser := ce,
             pf_NextCloser := nextCloserName qname ce\<rparr>))"

text \<open>The checks on the bitmap of the record that matches the name, or the wildcard.\<close>

definition nodata_bitmap :: "string \<Rightarrow> string list \<Rightarrow> error + unit" where
  "nodata_bitmap typeName bitmap =
     (if HasTypeInBitmap ''CNAME'' bitmap then Inl (Msg ''a CNAME was expected'')
      else if HasTypeInBitmap ''NS'' bitmap \<and> \<not> HasTypeInBitmap ''SOA'' bitmap
        then Inl (Msg ''a delegation point, not authoritative'')
      else if HasTypeInBitmap typeName bitmap then Inl (Msg ''the type is listed'')
      else Inr ())"

definition wildcard_nodata :: "vallib \<Rightarrow> string \<Rightarrow> string \<Rightarrow> string \<Rightarrow> nsec_rec list \<Rightarrow> error + nsec_proof" where
  "wildcard_nodata lib typeName qname ce nsecRecords =
     (let wildcard = wildcardName ce in
      case List.find (\<lambda>nsec. canonicalizeName (nr_Owner nsec) = wildcard) nsecRecords of
        None \<Rightarrow> Inl (Msg ''no NSEC record proves the type does not exist'')
      | Some nsec \<Rightarrow>
          case nodata_bitmap typeName (nr_TypeBitmap nsec) of Inl e \<Rightarrow> Inl e | Inr _ \<Rightarrow>
          Inr ((NSECProof ''nodata'')\<lparr>pf_CoveringNSEC := show_types wildcard (nr_TypeBitmap nsec),
                 pf_ClosestEncloser := ce, pf_NextCloser := nextCloserName qname ce\<rparr>))"

definition verifyNSECNODATA ::
  "vallib \<Rightarrow> string \<Rightarrow> 16 word \<Rightarrow> nsec_rec list \<Rightarrow> error + nsec_proof" where
  "verifyNSECNODATA lib qname0 qtype nsecRecords =
     (let typeName = TypeName lib qtype; qname = canonicalizeName qname0 in
      case nsecAncestorBoundary lib qname nsecRecords of Inl e \<Rightarrow> Inl e | Inr _ \<Rightarrow>
      case List.find (\<lambda>nsec. canonicalizeName (nr_Owner nsec) = qname) nsecRecords of
        Some nsec \<Rightarrow>
          (case nodata_bitmap typeName (nr_TypeBitmap nsec) of Inl e \<Rightarrow> Inl e | Inr _ \<Rightarrow>
           Inr ((NSECProof ''nodata'')\<lparr>pf_CoveringNSEC :=
                  show_types (canonicalizeName (nr_Owner nsec)) (nr_TypeBitmap nsec)\<rparr>))
      | None \<Rightarrow>
      case List.find (nsec_covers lib qname) nsecRecords of
        None \<Rightarrow> Inl (Msg ''no NSEC record proves the type does not exist'')
      | Some covering \<Rightarrow>
      let own = canonicalizeName (nr_Owner covering); next = canonicalizeName (nr_NextDomain covering) in
      if nsecEndpointBelow lib qname next \<and> compareCanonicalNames lib own next < 0 then
        Inr ((NSECProof ''nodata'')\<lparr>pf_CoveringNSEC := show_range own next, pf_ClosestEncloser := qname\<rparr>)
      else wildcard_nodata lib typeName qname (closestEncloserFromNSEC qname own next) nsecRecords)"

text \<open>\<open>None\<close> is the pair of a nil proof and a nil error.\<close>

definition VerifyNSECDenial ::
  "vallib \<Rightarrow> string \<Rightarrow> 16 word \<Rightarrow> nsec_rec list \<Rightarrow> int \<Rightarrow> error + nsec_proof option" where
  "VerifyNSECDenial lib qname0 qtype nsecRecords rcode =
     (if nsecRecords = [] then Inr None
      else let qname = canonicalizeName qname0 in
           map_sum id Some (if rcode = 3 then verifyNSECNXDOMAIN lib qname nsecRecords
                            else verifyNSECNODATA lib qname qtype nsecRecords))"

section \<open>NSEC3 chains\<close>

definition NSEC3HashSHA1 :: "8 word" where "NSEC3HashSHA1 = 1"
definition NSEC3MaxRecommendedIterations :: nat where "NSEC3MaxRecommendedIterations = 100"

record nsec3_chain =
  ch_algorithm :: "8 word"
  ch_iterations :: "16 word"
  ch_salt :: bytes
  ch_saltHex :: string
  ch_records :: "nsec3_rec list"

definition isOptOut :: "nsec3_rec \<Rightarrow> bool" where
  "isOptOut r \<longleftrightarrow> bit (n3r_Flags r) 0"

definition nsec3UnknownFlags :: "nsec3_rec \<Rightarrow> bool" where
  "nsec3UnknownFlags r \<longleftrightarrow> drop_bit 1 (n3r_Flags r) \<noteq> 0"

definition newNSEC3Chain :: "nsec3_rec list \<Rightarrow> error + nsec3_chain" where
  "newNSEC3Chain records =
     (case records of [] \<Rightarrow> Inl (Msg ''no NSEC3 records'') | first # rest \<Rightarrow>
      if n3r_Algorithm first \<noteq> NSEC3HashSHA1 then Inl (Msg ''unsupported NSEC3 hash algorithm'') else
      let saltHex = normalizeSalt (n3r_Salt first) in
      case hexDecode saltHex of Inl e \<Rightarrow> Inl e | Inr salt \<Rightarrow>
      if list_ex (\<lambda>r. n3r_Algorithm r \<noteq> n3r_Algorithm first \<or> n3r_Iterations r \<noteq> n3r_Iterations first \<or>
                      normalizeSalt (n3r_Salt r) \<noteq> saltHex) rest
      then Inl (Msg ''NSEC3 records span different chains'')
      else Inr \<lparr>ch_algorithm = n3r_Algorithm first, ch_iterations = n3r_Iterations first, ch_salt = salt,
                ch_saltHex = saltHex, ch_records = records\<rparr>)"

type_synonym param_key = "8 word \<times> 16 word \<times> string"

definition param_key :: "nsec3_rec \<Rightarrow> param_key" where
  "param_key r = (n3r_Algorithm r, n3r_Iterations r, normalizeSalt (n3r_Salt r))"

definition add_to_group :: "nsec3_rec \<Rightarrow> (param_key, nsec3_rec list) gomap \<Rightarrow> (param_key, nsec3_rec list) gomap" where
  "add_to_group r byKey =
     AList.update (param_key r) ((case map_of byKey (param_key r) of None \<Rightarrow> [] | Some rs \<Rightarrow> rs) @ [r]) byKey"

text \<open>The groups in the order in which their keys first appear.\<close>

definition groupNSEC3ByParams :: "nsec3_rec list \<Rightarrow> nsec3_rec list list" where
  "groupNSEC3ByParams records = map snd (fold add_to_group records [])"

fun build_chains :: "nsec3_rec list list \<Rightarrow> nsec3_chain list \<times> string list \<times> error option" where
  "build_chains [] = ([], [], None)"
| "build_chains (g # gs) =
     (case build_chains gs of (found, ignored, lastErr) \<Rightarrow>
      case newNSEC3Chain g of
        Inl e \<Rightarrow> (found, ''NSEC3 chain not usable'' # ignored, case lastErr of None \<Rightarrow> Some e | Some e' \<Rightarrow> Some e')
      | Inr c \<Rightarrow> (c # found, ignored, lastErr))"

definition nsec3Chains :: "nsec3_rec list \<Rightarrow> error + nsec3_chain list \<times> string list" where
  "nsec3Chains records =
     (let usable = filter (\<lambda>r. \<not> nsec3UnknownFlags r) records;
          unknown = map (\<lambda>r. ''NSEC3 '' @ n3r_HashedOwner r @ '' has unknown flag bits; ignored'') (filter nsec3UnknownFlags records);
          (found, ignored, lastErr) = build_chains (groupNSEC3ByParams usable)
      in if found = [] then Inl (case lastErr of None \<Rightarrow> Msg ''no usable NSEC3 records'' | Some e \<Rightarrow> e)
         else Inr (found, unknown @ ignored))"

definition ch_hash :: "vallib \<Rightarrow> nsec3_chain \<Rightarrow> string \<Rightarrow> string" where
  "ch_hash lib c name = computeNSEC3Hash lib name (ch_salt c) (ch_iterations c)"

definition ch_match :: "nsec3_chain \<Rightarrow> string \<Rightarrow> nsec3_rec option" where
  "ch_match c h = List.find (\<lambda>r. EqualFold (n3r_HashedOwner r) h) (ch_records c)"

definition ch_cover :: "nsec3_chain \<Rightarrow> string \<Rightarrow> nsec3_rec option" where
  "ch_cover c h = List.find (\<lambda>r. hashBetween h (n3r_HashedOwner r) (n3r_NextHashed r)) (ch_records c)"

definition nsec3RecordBoundary :: "string \<Rightarrow> nsec3_rec option \<Rightarrow> error + unit" where
  "nsec3RecordBoundary name r =
     (case r of None \<Rightarrow> Inr () | Some r \<Rightarrow>
      if HasTypeInBitmap ''DNAME'' (n3r_TypeBitmap r) then Inl (Msg ''the name has the DNAME bit set'')
      else if HasTypeInBitmap ''NS'' (n3r_TypeBitmap r) \<and> \<not> HasTypeInBitmap ''SOA'' (n3r_TypeBitmap r)
        then Inl (Msg ''the name is a delegation point'')
      else Inr ())"

text \<open>The closest encloser, the next closer name and the records that show them.\<close>

definition closestEncloser ::
  "vallib \<Rightarrow> nsec3_chain \<Rightarrow> string \<Rightarrow> error + string \<times> string \<times> nsec3_rec \<times> nsec3_rec" where
  "closestEncloser lib c qname0 =
     (let qname = canonicalizeName qname0;
          labels = (if qname = ''.'' then [] else split_on (CHR ''.'') (trim_dot qname));
          n = int (length labels) in
      case List.find (\<lambda>d. ch_match c (ch_hash lib c (lastNLabels qname (n - d))) \<noteq> None) [1..n] of
        None \<Rightarrow> Inl (Msg ''no closest-encloser match'')
      | Some d \<Rightarrow>
      let ce = lastNLabels qname (n - d); nextCloser = lastNLabels qname (n - d + 1) in
      case ch_match c (ch_hash lib c ce) of None \<Rightarrow> Inl (Msg ''no closest-encloser match'') | Some ceRec \<Rightarrow>
      case nsec3RecordBoundary ce (Some ceRec) of Inl e \<Rightarrow> Inl e | Inr _ \<Rightarrow>
      case ch_cover c (ch_hash lib c nextCloser) of
        None \<Rightarrow> Inl (Msg ''next closer name not covered'')
      | Some ncRec \<Rightarrow> Inr (ce, nextCloser, ceRec, ncRec))"

definition nxdomain :: "vallib \<Rightarrow> nsec3_chain \<Rightarrow> string \<Rightarrow> error + nsec_proof" where
  "nxdomain lib c qname0 =
     (let qname = canonicalizeName qname0 in
      if ch_match c (ch_hash lib c qname) \<noteq> None then Inl (Msg ''an NSEC3 proves the name exists'') else
      case closestEncloser lib c qname of Inl e \<Rightarrow> Inl e | Inr (ce, nextCloser, _, ncRec) \<Rightarrow>
      let wildcard = wildcardName ce in
      if ch_match c (ch_hash lib c wildcard) \<noteq> None then Inl (Msg ''an NSEC3 proves the wildcard exists'')
      else if ch_cover c (ch_hash lib c wildcard) = None then Inl (Msg ''the wildcard is not covered'')
      else Inr ((NSECProof ''nxdomain'')\<lparr>pf_CoveringNSEC := ''NSEC3 closest encloser '' @ ce,
             pf_ClosestEncloser := ce, pf_NextCloser := nextCloser, pf_OptOut := isOptOut ncRec\<rparr>))"

definition verifyNSEC3NODATAInChain ::
  "vallib \<Rightarrow> nsec3_chain \<Rightarrow> string \<Rightarrow> 16 word \<Rightarrow> error + nsec_proof" where
  "verifyNSEC3NODATAInChain lib c qname qtype =
     (let typeName = TypeName lib qtype in
      case ch_match c (ch_hash lib c qname) of
        Some r \<Rightarrow>
          (case nodata_bitmap typeName (n3r_TypeBitmap r) of Inl e \<Rightarrow> Inl e | Inr _ \<Rightarrow>
           Inr ((NSECProof ''nodata'')\<lparr>pf_CoveringNSEC := ''NSEC3 '' @ show_types (n3r_HashedOwner r) (n3r_TypeBitmap r),
                  pf_ClosestEncloser := qname\<rparr>))
      | None \<Rightarrow>
      case closestEncloser lib c qname of Inl e \<Rightarrow> Inl e | Inr (ce, nextCloser, _, ncRec) \<Rightarrow>
      let wildcard = wildcardName ce in
      case ch_match c (ch_hash lib c wildcard) of
        None \<Rightarrow> Inl (Msg ''no exact match and no NSEC3 for the wildcard'')
      | Some wcRec \<Rightarrow>
          case nodata_bitmap typeName (n3r_TypeBitmap wcRec) of Inl e \<Rightarrow> Inl e | Inr _ \<Rightarrow>
          Inr ((NSECProof ''nodata'')\<lparr>
             pf_CoveringNSEC := ''NSEC3 '' @ show_types (n3r_HashedOwner wcRec @ '' (wildcard '' @ wildcard @ '')'') (n3r_TypeBitmap wcRec),
             pf_ClosestEncloser := ce, pf_NextCloser := nextCloser, pf_OptOut := isOptOut ncRec\<rparr>))"

definition nodata :: "vallib \<Rightarrow> nsec3_chain \<Rightarrow> string \<Rightarrow> 16 word \<Rightarrow> error + nsec_proof" where
  "nodata lib c qname qtype = verifyNSEC3NODATAInChain lib c (canonicalizeName qname) qtype"

definition verifyNSEC3NXDOMAIN :: "vallib \<Rightarrow> string \<Rightarrow> nsec3_rec list \<Rightarrow> error + nsec_proof" where
  "verifyNSEC3NXDOMAIN lib qname records =
     (case newNSEC3Chain records of Inl e \<Rightarrow> Inl e | Inr c \<Rightarrow> nxdomain lib c qname)"

definition verifyNSEC3NODATA :: "vallib \<Rightarrow> string \<Rightarrow> 16 word \<Rightarrow> nsec3_rec list \<Rightarrow> error + nsec_proof" where
  "verifyNSEC3NODATA lib qname qtype records =
     (case newNSEC3Chain records of Inl e \<Rightarrow> Inl e
      | Inr c \<Rightarrow> verifyNSEC3NODATAInChain lib c (canonicalizeName qname) qtype)"

definition nsec3IterationsOverCap :: "nsec3_rec list \<Rightarrow> 16 word option" where
  "nsec3IterationsOverCap records =
     map_option n3r_Iterations (List.find (\<lambda>r. NSEC3MaxRecommendedIterations < unat (n3r_Iterations r)) records)"

text \<open>The chains are tried in order; the error reported is the last one.\<close>

fun try_chains :: "(nsec3_chain \<Rightarrow> error + nsec_proof) \<Rightarrow> error \<Rightarrow> nsec3_chain list \<Rightarrow> error + nsec_proof" where
  "try_chains f lastErr [] = Inl lastErr"
| "try_chains f lastErr (c # cs) = (case f c of Inr p \<Rightarrow> Inr p | Inl e \<Rightarrow> try_chains f e cs)"

definition VerifyNSEC3Denial ::
  "vallib \<Rightarrow> string \<Rightarrow> 16 word \<Rightarrow> nsec3_rec list \<Rightarrow> int \<Rightarrow> error + nsec_proof option" where
  "VerifyNSEC3Denial lib qname0 qtype nsec3Records rcode =
     (if nsec3Records = [] then Inr None
      else if nsec3IterationsOverCap nsec3Records \<noteq> None then Inl (Msg ''NSEC3 iterations exceed the cap'')
      else let qname = canonicalizeName qname0 in
           case nsec3Chains nsec3Records of Inl e \<Rightarrow> Inl e | Inr (found, ignored) \<Rightarrow>
           map_sum id (\<lambda>p. Some (p\<lparr>pf_Ignored := ignored\<rparr>))
             (try_chains (\<lambda>c. if rcode = 3 then nxdomain lib c qname else nodata lib c qname qtype)
                (Msg ''no internally-consistent NSEC3 chain proves the denial'') found))"

section \<open>Proofs for wildcard answers\<close>

fun wildcard_nsec :: "vallib \<Rightarrow> string \<Rightarrow> string \<Rightarrow> string \<Rightarrow> nsec_rec list \<Rightarrow> error + string" where
  "wildcard_nsec lib qname claimedCE nextCloser [] = Inl (Msg ''no NSEC proves the name has no exact match'')"
| "wildcard_nsec lib qname claimedCE nextCloser (nsec # rs) =
     (let own = canonicalizeName (nr_Owner nsec); next = canonicalizeName (nr_NextDomain nsec) in
      if own = qname then Inl (Msg ''an exact match exists'')
      else if own = nextCloser then Inl (Msg ''the next closer name exists'')
      else if \<not> canonicallyBetween lib qname own next then wildcard_nsec lib qname claimedCE nextCloser rs
      else if nsecEndpointBelow lib qname next then Inl (Msg ''the name exists as an empty non-terminal'')
      else if closestEncloserFromNSEC qname own next \<noteq> claimedCE
        then Inl (Msg ''the proof and the signature disagree'')
      else Inr (show_range own next))"

definition wildcard_chain :: "vallib \<Rightarrow> string \<Rightarrow> string \<Rightarrow> string \<Rightarrow> nsec3_chain \<Rightarrow> error + nsec_proof" where
  "wildcard_chain lib qname claimedCE nextCloser c =
     (if ch_match c (ch_hash lib c qname) \<noteq> None \<or> ch_match c (ch_hash lib c nextCloser) \<noteq> None
      then Inl (Msg ''the name or its next closer name exists'') else
      case nsec3RecordBoundary claimedCE (ch_match c (ch_hash lib c claimedCE)) of Inl e \<Rightarrow> Inl e | Inr _ \<Rightarrow>
      case ch_cover c (ch_hash lib c nextCloser) of
        None \<Rightarrow> Inl (Msg ''no NSEC3 covers the next closer name'')
      | Some ncRec \<Rightarrow>
          Inr ((NSECProof ''NSEC3'')\<lparr>pf_CoveringNSEC := ''NSEC3 '' @ show_range (n3r_HashedOwner ncRec) (n3r_NextHashed ncRec),
                 pf_OptOut := isOptOut ncRec\<rparr>))"

definition VerifyWildcardDenial ::
  "vallib \<Rightarrow> string \<Rightarrow> 8 word \<Rightarrow> nsec_rec list \<Rightarrow> nsec3_rec list \<Rightarrow> nsec_proof" where
  "VerifyWildcardDenial lib qname0 wildcardLabels nsecRecords nsec3Records =
     (let proof0 = (NSECProof ''wildcard'')\<lparr>pf_ResponseType := ''WILDCARD''\<rparr>;
          qname = canonicalizeName qname0 in
      if unat wildcardLabels \<ge> GetZoneLabels qname
      then proof0\<lparr>pf_Error := Some (Msg ''the labels do not describe a wildcard expansion'')\<rparr> else
      let claimedCE = lastNLabels qname (int (unat wildcardLabels));
          nextCloser = lastNLabels qname (int (unat wildcardLabels) + 1);
          proof = proof0\<lparr>pf_ClosestEncloser := claimedCE, pf_NextCloser := nextCloser\<rparr> in
      if nsecRecords \<noteq> [] then
        (let p = proof\<lparr>pf_ProofType := ''NSEC''\<rparr> in
         case nsecAncestorBoundary lib qname nsecRecords of Inl e \<Rightarrow> p\<lparr>pf_Error := Some e\<rparr> | Inr _ \<Rightarrow>
         case wildcard_nsec lib qname claimedCE nextCloser nsecRecords of
           Inl e \<Rightarrow> p\<lparr>pf_Error := Some e\<rparr>
         | Inr covering \<Rightarrow> p\<lparr>pf_CoveringNSEC := covering, pf_Verified := True\<rparr>)
      else if nsec3Records \<noteq> [] then
        (let p = proof\<lparr>pf_ProofType := ''NSEC3''\<rparr> in
         if nsec3IterationsOverCap nsec3Records \<noteq> None
         then p\<lparr>pf_Error := Some (Msg ''NSEC3 iterations exceed the cap'')\<rparr> else
         case nsec3Chains nsec3Records of Inl e \<Rightarrow> p\<lparr>pf_Error := Some e\<rparr> | Inr (found, ignored) \<Rightarrow>
         case try_chains (wildcard_chain lib qname claimedCE nextCloser)
                (Msg ''no NSEC3 covers the next closer name'') found of
           Inl e \<Rightarrow> p\<lparr>pf_Ignored := ignored, pf_Error := Some e\<rparr>
         | Inr r \<Rightarrow> p\<lparr>pf_Ignored := ignored, pf_CoveringNSEC := pf_CoveringNSEC r,
                      pf_OptOut := pf_OptOut r, pf_Verified := True\<rparr>)
      else proof\<lparr>pf_Error := Some (Msg ''no NSEC/NSEC3 records accompany the wildcard answer'')\<rparr>)"

text \<open>\<open>adopt\<close> copies the outcome of a proof over authenticated records.\<close>

definition adopt :: "nsec_proof option \<Rightarrow> nsec_proof \<Rightarrow> nsec_proof" where
  "adopt basic p = (case basic of None \<Rightarrow> p | Some b \<Rightarrow>
     p\<lparr>pf_CoveringNSEC := pf_CoveringNSEC b, pf_OptOut := pf_OptOut b,
       pf_ClosestEncloser := pf_ClosestEncloser b, pf_NextCloser := pf_NextCloser b,
       pf_Ignored := pf_Ignored p @ pf_Ignored b\<rparr>)"

end
