(* ===== verification/Denial_Sound.thy ===== *)
theory Denial_Sound
  imports Denial_Proof
begin

text \<open>
  What an accepted NSEC proof means for the zone. A zone is seen as the set of its
  authoritative owner names with their types; a record is genuine when it is one of the
  zone's NSEC records. Whatever genuine records a response carries, in whatever order, a name
  the validator takes for non-existent does not exist.
\<close>

section \<open>The zone behind the records\<close>

record zone_view =
  zv_apex :: "string list"
  zv_owners :: "string list set"
  zv_types :: "string list \<Rightarrow> string set"

text \<open>A zone cut: a delegation point or the owner of a DNAME record.\<close>

definition cut_at :: "zone_view \<Rightarrow> string list \<Rightarrow> bool" where
  "cut_at z d \<longleftrightarrow> d \<in> zv_owners z \<and>
     (''DNAME'' \<in> zv_types z d \<or> ''NS'' \<in> zv_types z d \<and> ''SOA'' \<notin> zv_types z d)"

definition beneath_cut :: "zone_view \<Rightarrow> string list \<Rightarrow> bool" where
  "beneath_cut z n \<longleftrightarrow> (\<exists>d. cut_at z d \<and> strict_suffix d n)"

definition zone_view_ok :: "zone_view \<Rightarrow> bool" where
  "zone_view_ok z \<longleftrightarrow> zv_apex z \<in> zv_owners z \<and>
     (\<forall>n \<in> zv_owners z. plain_name_labels n \<and> suffix (zv_apex z) n \<and> \<not> beneath_cut z n)"

text \<open>A name exists when it owns records or is an ancestor of one that does (RFC 4592, section 2.2.2).\<close>

definition name_exists :: "zone_view \<Rightarrow> string list \<Rightarrow> bool" where
  "name_exists z n \<longleftrightarrow> (\<exists>own \<in> zv_owners z. suffix n own)"

definition closest_encloser :: "zone_view \<Rightarrow> string list \<Rightarrow> string list \<Rightarrow> bool" where
  "closest_encloser z n ce \<longleftrightarrow> strict_suffix ce n \<and> name_exists z ce \<and>
     (\<forall>p. suffix p n \<and> name_exists z p \<longrightarrow> suffix p ce)"

definition genuine :: "zone_view \<Rightarrow> nsec_rec \<Rightarrow> bool" where
  "genuine z r \<longleftrightarrow> (\<exists>a b. nr_Owner r = joinLabels a \<and> nr_NextDomain r = joinLabels b \<and>
     a \<in> zv_owners z \<and> b \<in> zv_owners z \<and> set (nr_TypeBitmap r) = zv_types z a \<and>
     (\<forall>n \<in> zv_owners z. \<not> between_cyclic (rev a) (rev b) (rev n)))"

text \<open>What the proofs rely on: the laws of the library, and a response about this zone.\<close>

definition denial_ok :: "vallib \<Rightarrow> zone_view \<Rightarrow> string list \<Rightarrow> nsec_rec list \<Rightarrow> bool" where
  "denial_ok lib z q rs \<longleftrightarrow> names_law (nlib lib) \<and> subdomain_law lib \<and> zone_view_ok z \<and>
     plain_name_labels q \<and> suffix (zv_apex z) q \<and> list_all (genuine z) rs"

section \<open>Order and prefixes\<close>

lemma prefix_le: "prefix p x \<Longrightarrow> p \<le> (x :: 'a :: linorder list)"
proof (induction p arbitrary: x)
  case (Cons c p)
  then show ?case by (cases x) auto
qed simp

text \<open>The names with a common ancestor are an interval of the canonical order.\<close>

lemma prefix_convex:
  fixes x :: "'a :: linorder list"
  shows "prefix p x \<Longrightarrow> prefix p z \<Longrightarrow> x \<le> y \<Longrightarrow> y \<le> z \<Longrightarrow> prefix p y"
proof (induction p arbitrary: x y z)
  case (Cons c p)
  obtain x' where x: "x = c # x'" "prefix p x'" using Cons.prems(1) by (cases x) simp_all
  obtain z' where z: "z = c # z'" "prefix p z'" using Cons.prems(2) by (cases z) simp_all
  obtain d y' where y: "y = d # y'" using Cons.prems(3) x(1) by (cases y) simp_all
  have "c < d \<or> c = d \<and> x' \<le> y'" "d < c \<or> d = c \<and> y' \<le> z'" using Cons.prems(3,4) x(1) z(1) y by simp_all
  then have "d = c" "x' \<le> y'" "y' \<le> z'" by (metis order.asym)+
  then show ?case using Cons.IH [OF x(2) z(2)] y by simp
qed simp

text \<open>An owner lies on one side of a covered name, with an endpoint of the interval between.\<close>

lemma gap_sides:
  assumes "between_cyclic a b k" and "\<not> between_cyclic a b n"
  shows "n \<le> a \<and> a < k \<or> k < b \<and> b \<le> n"
  using assms unfolding between_cyclic_def by (auto split: if_splits)

lemma gap_shared:
  fixes a :: "'a :: linorder list"
  assumes "between_cyclic a b k" and "\<not> between_cyclic a b n" and "prefix p k" and "prefix p n"
  shows "prefix p a \<or> prefix p b"
  using gap_sides [OF assms(1,2)] prefix_convex [OF assms(4,3)] prefix_convex [OF assms(3,4)]
  by (metis less_imp_le)

lemma gap_below:
  fixes a :: "'a :: linorder list"
  assumes "between_cyclic a b k" and "\<not> between_cyclic a b n" and "prefix k n"
  shows "prefix k b \<and> k \<noteq> b"
  using gap_sides [OF assms(1,2)] prefix_le [OF assms(3)] prefix_convex [of k k n b] assms(3)
  by (metis le_less_trans less_irrefl less_imp_le order_trans prefix_order.refl)

lemma gap_above:
  fixes a :: "'a :: linorder list"
  assumes "between_cyclic a b k" and "\<not> between_cyclic a b n" and "prefix n k"
  shows "prefix n a"
  using gap_sides [OF assms(1,2)] prefix_le [OF assms(3)] prefix_convex [of n n k a] assms(3)
  by (metis leD less_imp_le order_trans prefix_order.refl)

section \<open>The checks on genuine records\<close>

lemma denial_okD:
  assumes "denial_ok lib z q rs"
  shows "names_law (nlib lib)" "subdomain_law lib" "zone_view_ok z" "plain_name_labels q" "suffix (zv_apex z) q"
    and "\<And>r. r \<in> set rs \<Longrightarrow> genuine z r"
  using assms by (simp_all add: denial_ok_def list_all_iff)

lemma owner_facts:
  assumes "zone_view_ok z" and "n \<in> zv_owners z"
  shows "plain_name_labels n" "suffix (zv_apex z) n" "\<not> beneath_cut z n"
  using assms by (simp_all add: zone_view_ok_def)

lemma HasType_iff: "HasTypeInBitmap t b \<longleftrightarrow> t \<in> set b"
  by (auto simp: HasTypeInBitmap_def list_ex_iff)

text \<open>The endpoints of a genuine record that covers \<open>q\<close>.\<close>

definition gap :: "zone_view \<Rightarrow> string list \<Rightarrow> string list \<Rightarrow> string list \<Rightarrow> bool" where
  "gap z a b q \<longleftrightarrow> a \<in> zv_owners z \<and> b \<in> zv_owners z \<and> between_cyclic (rev a) (rev b) (rev q) \<and>
     (\<forall>n \<in> zv_owners z. \<not> between_cyclic (rev a) (rev b) (rev n))"

lemma covering_gap:
  assumes ok: "denial_ok lib z q rs" and r: "r \<in> set rs" and n: "plain_name_labels n"
    and cov: "nsec_covers lib (joinLabels n) r"
  obtains a b where "gap z a b n" "nr_Owner r = joinLabels a" "nr_NextDomain r = joinLabels b"
    "plain_name_labels a" "plain_name_labels b" "set (nr_TypeBitmap r) = zv_types z a"
proof -
  obtain a b where ab: "nr_Owner r = joinLabels a" "nr_NextDomain r = joinLabels b" "a \<in> zv_owners z" "b \<in> zv_owners z"
    "set (nr_TypeBitmap r) = zv_types z a" "\<forall>n \<in> zv_owners z. \<not> between_cyclic (rev a) (rev b) (rev n)"
    using denial_okD(6) [OF ok r] unfolding genuine_def by blast
  have p: "plain_name_labels a" "plain_name_labels b" using owner_facts(1) denial_okD(3) [OF ok] ab by blast+
  have "gap z a b n" using cov ab p n denial_okD(1) [OF ok]
    by (simp add: gap_def nsec_covers_def canonicallyBetween_key name_key_join)
  with ab p that show thesis by blast
qed

lemma gap_not_owner: "gap z a b q \<Longrightarrow> q \<notin> zv_owners z"
  by (auto simp: gap_def)

lemma gap_exists_iff:
  assumes "gap z a b q"
  shows "name_exists z q \<longleftrightarrow> strict_suffix q b"
proof
  assume "name_exists z q"
  then obtain n where n: "n \<in> zv_owners z" "suffix q n" by (auto simp: name_exists_def)
  then have "prefix (rev q) (rev b) \<and> rev q \<noteq> rev b"
    using assms by (intro gap_below [of "rev a" "rev b" "rev q" "rev n"]) (auto simp: gap_def suffix_to_prefix)
  then show "strict_suffix q b" by (auto simp: suffix_to_prefix strict_suffix_def)
next
  assume "strict_suffix q b"
  then show "name_exists z q" using assms by (auto simp: name_exists_def gap_def strict_suffix_def)
qed

text \<open>The longer shared suffix is the closest encloser.\<close>

lemma gap_encloser:
  assumes gap: "gap z a b q" and nex: "\<not> name_exists z q"
  shows "closest_encloser z q (encloser q a b)"
proof -
  let ?e = "encloser q a b"
  have e: "suffix ?e q" "suffix ?e a \<or> suffix ?e b"
    using common_suffix_suffix by (auto simp: encloser_def)
  then have ex: "name_exists z ?e" using gap by (auto simp: name_exists_def gap_def)
  moreover have "suffix p ?e" if p: "suffix p q" "name_exists z p" for p
  proof -
    obtain n where n: "n \<in> zv_owners z" "suffix p n" using p(2) by (auto simp: name_exists_def)
    then have "suffix p a \<or> suffix p b"
      using gap_shared [of "rev a" "rev b" "rev q" "rev n" "rev p"] p(1) gap
      by (auto simp: gap_def suffix_to_prefix)
    then have "suffix p (common_suffix q a) \<or> suffix p (common_suffix q b)"
      using p(1) by (simp add: suffix_common)
    then have "length p \<le> length ?e" by (auto simp: encloser_def dest!: suffix_length_le)
    then show ?thesis using p(1) e(1) by (metis suffix_length_suffix)
  qed
  moreover have "?e \<noteq> q" using ex nex by auto
  ultimately show ?thesis using e(1) by (simp add: closest_encloser_def strict_suffix_def)
qed

text \<open>A name beneath a cut is covered by the record of the cut itself.\<close>

lemma gap_cut:
  assumes gap: "gap z a b q" and ok: "zone_view_ok z" and cut: "cut_at z d" "strict_suffix d q"
  shows "a = d"
proof -
  have "d \<in> zv_owners z" using cut(1) by (simp add: cut_at_def)
  then have "suffix d a"
    using gap_above [of "rev a" "rev b" "rev q" "rev d"] gap cut(2)
    by (auto simp: gap_def suffix_to_prefix strict_suffix_def)
  moreover have "\<not> beneath_cut z a" using owner_facts(3) [OF ok] gap by (simp add: gap_def)
  ultimately show ?thesis using cut(1) by (auto simp: beneath_cut_def strict_suffix_def)
qed

lemma boundary_gap:
  assumes ok: "denial_ok lib z q rs" and b: "nsecAncestorBoundary lib (joinLabels q) rs = Inr u"
    and r: "r \<in> set rs" "gap z a c q" "nr_Owner r = joinLabels a" "set (nr_TypeBitmap r) = zv_types z a"
  shows "\<not> beneath_cut z q"
proof
  assume "beneath_cut z q"
  then obtain d where d: "cut_at z d" "strict_suffix d q" by (auto simp: beneath_cut_def)
  then have "a = d" using gap_cut r(2) denial_okD(3) [OF ok] by blast
  moreover have p: "plain_name_labels a" "plain_name_labels q"
    using owner_facts(1) denial_okD(3,4) [OF ok] r(2) by (auto simp: gap_def)
  moreover have "nsec_boundary lib (joinLabels q) r = Inr ()"
    using b r(1) p by (simp add: nsecAncestorBoundary_def check_each_Inr)
  moreover have "joinLabels a \<noteq> joinLabels q" using d(2) \<open>a = d\<close> p by (simp add: joinLabels_inj strict_suffix_def)
  moreover have "suffix a q" using d(2) \<open>a = d\<close> by (simp add: strict_suffix_def)
  ultimately show False using d(1) r(3,4) denial_okD(2) [OF ok]
    by (auto simp: nsec_boundary_def IsSubDomain_join HasType_iff cut_at_def split: if_splits)
qed

lemma find_covering_Inr:
  "find_covering lib n rs = Inr r \<Longrightarrow> r \<in> set rs \<and> nsec_covers lib n r"
  by (induction rs) (auto split: if_splits)

lemma endpoint_below:
  assumes "subdomain_law lib" "plain_name_labels n" "plain_name_labels b"
  shows "nsecEndpointBelow lib (joinLabels n) (joinLabels b) \<longleftrightarrow> strict_suffix n b"
  using assms by (auto simp: nsecEndpointBelow_def IsSubDomain_join joinLabels_inj strict_suffix_def)

section \<open>Soundness\<close>

text \<open>What an accepted NXDOMAIN proof establishes.\<close>

definition nxdomain_true :: "zone_view \<Rightarrow> string list \<Rightarrow> nsec_proof \<Rightarrow> bool" where
  "nxdomain_true z q p \<longleftrightarrow> \<not> name_exists z q \<and> \<not> beneath_cut z q \<and>
     (\<exists>ce. closest_encloser z q ce \<and> ''*'' # ce \<notin> zv_owners z \<and>
        pf_ClosestEncloser p = joinLabels ce \<and> pf_NextCloser p = joinLabels (drop (length q - Suc (length ce)) q))"

lemma nextCloser_join:
  assumes "plain_name_labels q" "plain_name_labels ce" "ce \<noteq> q"
  shows "nextCloserName (joinLabels q) (joinLabels ce) = joinLabels (drop (length q - Suc (length ce)) q)"
  using assms by (simp add: nextCloserName_def Let_def joinLabels_inj nat_add_distrib)

lemma verifyNSECNXDOMAIN_Inr:
  assumes "verifyNSECNXDOMAIN lib (joinLabels q) rs = Inr p" and "plain_name_labels q"
  obtains r where "nsecAncestorBoundary lib (joinLabels q) rs = Inr ()"
    "find_covering lib (joinLabels q) rs = Inr r"
    "\<not> nsecEndpointBelow lib (joinLabels q) (canonicalizeName (nr_NextDomain r))"
    "\<exists>w. find_covering lib (wildcardName (closestEncloserFromNSEC (joinLabels q)
       (canonicalizeName (nr_Owner r)) (canonicalizeName (nr_NextDomain r)))) rs = Inr w"
    "pf_ClosestEncloser p = closestEncloserFromNSEC (joinLabels q)
       (canonicalizeName (nr_Owner r)) (canonicalizeName (nr_NextDomain r))"
    "pf_NextCloser p = nextCloserName (joinLabels q) (pf_ClosestEncloser p)"
  using assms unfolding verifyNSECNXDOMAIN_def
  by (auto simp: Let_def split: sum.splits if_splits)

theorem nsec_nxdomain_sound:
  assumes ok: "denial_ok lib z q rs" and acc: "verifyNSECNXDOMAIN lib (joinLabels q) rs = Inr p"
  shows "nxdomain_true z q p"
proof -
  note q = denial_okD(4) [OF ok] and law = denial_okD(1,2,3) [OF ok]
  obtain r where r: "nsecAncestorBoundary lib (joinLabels q) rs = Inr ()"
    "find_covering lib (joinLabels q) rs = Inr r"
    "\<not> nsecEndpointBelow lib (joinLabels q) (canonicalizeName (nr_NextDomain r))"
    "\<exists>w. find_covering lib (wildcardName (closestEncloserFromNSEC (joinLabels q)
       (canonicalizeName (nr_Owner r)) (canonicalizeName (nr_NextDomain r)))) rs = Inr w"
    "pf_ClosestEncloser p = closestEncloserFromNSEC (joinLabels q)
       (canonicalizeName (nr_Owner r)) (canonicalizeName (nr_NextDomain r))"
    "pf_NextCloser p = nextCloserName (joinLabels q) (pf_ClosestEncloser p)"
    by (rule verifyNSECNXDOMAIN_Inr [OF acc q])
  note fc = find_covering_Inr [OF r(2)]
  obtain a b where ab: "gap z a b q" "nr_Owner r = joinLabels a" "nr_NextDomain r = joinLabels b"
    "plain_name_labels a" "plain_name_labels b" "set (nr_TypeBitmap r) = zv_types z a"
    using covering_gap [OF ok _ q] fc by blast
  have nex: "\<not> name_exists z q"
    using r(3) ab gap_exists_iff [OF ab(1)] endpoint_below [OF law(2) q ab(5)] by simp
  let ?ce = "encloser q a b"
  have ce: "closest_encloser z q ?ce" by (rule gap_encloser [OF ab(1) nex])
  have pce: "plain_name_labels ?ce" by (rule plain_encloser [OF q])
  have pc: "pf_ClosestEncloser p = joinLabels ?ce" using r(5) ab q by simp
  obtain w where "find_covering lib (joinLabels (''*'' # ?ce)) rs = Inr w"
    using r(4) ab q pce by auto
  from find_covering_Inr [OF this] have w: "w \<in> set rs" "nsec_covers lib (joinLabels (''*'' # ?ce)) w" by auto
  have "''*'' # ?ce \<notin> zv_owners z"
    using covering_gap [OF ok w(1) _ w(2)] pce gap_not_owner by (metis list.pred_inject(2) plain_wildcard)
  moreover have "\<not> beneath_cut z q" using boundary_gap [OF ok r(1) _ ab(1,2,6)] fc by blast
  moreover have "pf_NextCloser p = joinLabels (drop (length q - Suc (length ?ce)) q)"
    using r(6) pc nextCloser_join [OF q pce] ce by (simp add: closest_encloser_def strict_suffix_def)
  ultimately show ?thesis using nex ce pc by (auto simp: nxdomain_true_def)
qed

text \<open>What an accepted NODATA proof establishes: one of the three shapes of RFC 7129, section 5.\<close>

definition lacks_type :: "zone_view \<Rightarrow> string list \<Rightarrow> string \<Rightarrow> bool" where
  "lacks_type z n t \<longleftrightarrow> n \<in> zv_owners z \<and> t \<notin> zv_types z n \<and> ''CNAME'' \<notin> zv_types z n \<and>
     (''NS'' \<in> zv_types z n \<longrightarrow> ''SOA'' \<in> zv_types z n)"

definition nodata_true :: "zone_view \<Rightarrow> string list \<Rightarrow> string \<Rightarrow> bool" where
  "nodata_true z q t \<longleftrightarrow> \<not> beneath_cut z q \<and>
     (lacks_type z q t \<or>
      q \<notin> zv_owners z \<and> name_exists z q \<or>
      \<not> name_exists z q \<and> (\<exists>ce. closest_encloser z q ce \<and> lacks_type z (''*'' # ce) t))"

lemma nodata_bitmap_iff:
  "nodata_bitmap t b = Inr u \<longleftrightarrow> t \<notin> set b \<and> ''CNAME'' \<notin> set b \<and> (''NS'' \<in> set b \<longrightarrow> ''SOA'' \<in> set b)"
  by (auto simp: nodata_bitmap_def HasType_iff)

lemma genuine_owner:
  assumes ok: "denial_ok lib z q rs" and r: "r \<in> set rs" and n: "plain_name_labels n"
    and eq: "canonicalizeName (nr_Owner r) = joinLabels n"
  shows "n \<in> zv_owners z" and "set (nr_TypeBitmap r) = zv_types z n"
proof -
  obtain a where a: "nr_Owner r = joinLabels a" "a \<in> zv_owners z" "set (nr_TypeBitmap r) = zv_types z a"
    using denial_okD(6) [OF ok r] unfolding genuine_def by blast
  have "plain_name_labels a" using owner_facts(1) denial_okD(3) [OF ok] a(2) by blast
  then have "a = n" using a(1) eq n joinLabels_inj by simp
  with a show "n \<in> zv_owners z" and "set (nr_TypeBitmap r) = zv_types z n" by simp_all
qed

text \<open>The interval of an existing name does not wrap around: only the apex follows the last owner.\<close>

lemma gap_exists_normal:
  assumes gap: "gap z a b q" and ok: "zone_view_ok z" and q: "suffix (zv_apex z) q" and ex: "name_exists z q"
  shows "rev a < rev b"
proof (rule ccontr)
  assume wrap: "\<not> rev a < rev b"
  have "zv_apex z \<in> zv_owners z" using ok by (simp add: zone_view_ok_def)
  then have "rev b \<le> rev (zv_apex z)" using gap wrap by (force simp: gap_def between_cyclic_def)
  also have "\<dots> \<le> rev q" using q by (simp add: suffix_to_prefix prefix_le)
  finally have "rev b \<le> rev q" .
  moreover have "strict_suffix q b" using ex gap_exists_iff [OF gap] by simp
  then have "rev q \<le> rev b" "q \<noteq> b" by (auto simp: strict_suffix_def suffix_to_prefix prefix_le)
  ultimately show False by (metis antisym rev_is_rev_conv)
qed

lemma wildcard_nodata_sound:
  assumes ok: "denial_ok lib z q rs" and acc: "wildcard_nodata lib t (joinLabels q) (joinLabels ce) rs = Inr p"
    and ce: "plain_name_labels ce"
  shows "lacks_type z (''*'' # ce) t"
proof -
  have w: "wildcardName (joinLabels ce) = joinLabels (''*'' # ce)" using ce by simp
  obtain r where r: "List.find (\<lambda>nsec. canonicalizeName (nr_Owner nsec) = joinLabels (''*'' # ce)) rs = Some r"
    "nodata_bitmap t (nr_TypeBitmap r) = Inr ()"
    using acc unfolding wildcard_nodata_def Let_def w by (auto split: option.splits sum.splits)
  have "r \<in> set rs" "canonicalizeName (nr_Owner r) = joinLabels (''*'' # ce)"
    using r(1) by (auto simp: find_Some_iff)
  then have "''*'' # ce \<in> zv_owners z" "set (nr_TypeBitmap r) = zv_types z (''*'' # ce)"
    using genuine_owner [OF ok] ce by simp_all
  then show ?thesis using r(2) by (simp add: lacks_type_def nodata_bitmap_iff)
qed

lemma verifyNSECNODATA_cases:
  assumes "verifyNSECNODATA lib (joinLabels q) qtype rs = Inr p" and "plain_name_labels q"
  obtains (match) r where "nsecAncestorBoundary lib (joinLabels q) rs = Inr ()"
      "List.find (\<lambda>nsec. canonicalizeName (nr_Owner nsec) = joinLabels q) rs = Some r"
      "nodata_bitmap (TypeName lib qtype) (nr_TypeBitmap r) = Inr ()"
  | (cover) r where "nsecAncestorBoundary lib (joinLabels q) rs = Inr ()"
      "List.find (nsec_covers lib (joinLabels q)) rs = Some r"
      "nsecEndpointBelow lib (joinLabels q) (canonicalizeName (nr_NextDomain r)) \<and>
         compareCanonicalNames lib (canonicalizeName (nr_Owner r)) (canonicalizeName (nr_NextDomain r)) < 0 \<or>
       \<not> (nsecEndpointBelow lib (joinLabels q) (canonicalizeName (nr_NextDomain r)) \<and>
         compareCanonicalNames lib (canonicalizeName (nr_Owner r)) (canonicalizeName (nr_NextDomain r)) < 0) \<and>
       wildcard_nodata lib (TypeName lib qtype) (joinLabels q) (closestEncloserFromNSEC (joinLabels q)
         (canonicalizeName (nr_Owner r)) (canonicalizeName (nr_NextDomain r))) rs = Inr p"
proof -
  have q: "canonicalizeName (joinLabels q) = joinLabels q" using assms(2) by simp
  show thesis using assms(1) match cover unfolding verifyNSECNODATA_def q Let_def
    by (auto split: sum.splits option.splits if_splits)
qed

theorem nsec_nodata_sound:
  assumes ok: "denial_ok lib z q rs" and acc: "verifyNSECNODATA lib (joinLabels q) qtype rs = Inr p"
  shows "nodata_true z q (TypeName lib qtype)"
proof -
  note q = denial_okD(4) [OF ok] and law = denial_okD(1,2,3) [OF ok]
  show ?thesis
  proof (cases rule: verifyNSECNODATA_cases [OF acc q, case_names match cover])
    case (match r)
    then have r: "r \<in> set rs" "canonicalizeName (nr_Owner r) = joinLabels q" by (auto simp: find_Some_iff)
    note g = genuine_owner [OF ok r(1) q r(2)]
    have "lacks_type z q (TypeName lib qtype)" using g match(3) by (simp add: lacks_type_def nodata_bitmap_iff)
    moreover have "\<not> beneath_cut z q" using owner_facts(3) [OF law(3) g(1)] .
    ultimately show ?thesis by (simp add: nodata_true_def)
  next
    case (cover r)
    then have r: "r \<in> set rs" "nsec_covers lib (joinLabels q) r" by (auto simp: find_Some_iff)
    obtain a b where ab: "gap z a b q" "nr_Owner r = joinLabels a" "nr_NextDomain r = joinLabels b"
      "plain_name_labels a" "plain_name_labels b" "set (nr_TypeBitmap r) = zv_types z a"
      by (rule covering_gap [OF ok r(1) q r(2)])
    have nb: "\<not> beneath_cut z q" by (rule boundary_gap [OF ok cover(1) r(1) ab(1,2,6)])
    have ex: "nsecEndpointBelow lib (joinLabels q) (joinLabels b) \<longleftrightarrow> name_exists z q"
      using endpoint_below [OF law(2) q ab(5)] gap_exists_iff [OF ab(1)] by simp
    have cmp: "compareCanonicalNames lib (joinLabels a) (joinLabels b) < 0 \<longleftrightarrow> rev a < rev b"
      using ab(4,5) law(1) by (simp add: compareCanonicalNames_key name_key_join)
    show ?thesis
    proof (cases "name_exists z q")
      case True
      then show ?thesis using nb gap_not_owner [OF ab(1)] by (simp add: nodata_true_def)
    next
      case False
      then have "wildcard_nodata lib (TypeName lib qtype) (joinLabels q) (joinLabels (encloser q a b)) rs = Inr p"
        using cover(3) ab q ex by simp
      then have "lacks_type z (''*'' # encloser q a b) (TypeName lib qtype)"
        by (rule wildcard_nodata_sound [OF ok _ plain_encloser [OF q]])
      then show ?thesis using False nb gap_encloser [OF ab(1) False] by (auto simp: nodata_true_def)
    qed
  qed
qed

text \<open>A wildcard answer is accepted only for a name that does not exist, at its closest encloser.\<close>

lemma wildcard_nsec_Inr:
  assumes "wildcard_nsec lib q ce nc rs = Inr c"
  shows "\<exists>r \<in> set rs. nsec_covers lib q r \<and> \<not> nsecEndpointBelow lib q (canonicalizeName (nr_NextDomain r)) \<and>
    closestEncloserFromNSEC q (canonicalizeName (nr_Owner r)) (canonicalizeName (nr_NextDomain r)) = ce"
  using assms by (induction rs) (auto simp: Let_def nsec_covers_def split: if_splits)

lemma wildcard_nsec_accepted:
  assumes "pf_Verified (VerifyWildcardDenial lib (joinLabels q) w rs n3s)" and "rs \<noteq> []" and "plain_name_labels q"
  shows "unat w < length q" and "nsecAncestorBoundary lib (joinLabels q) rs = Inr ()"
    and "\<exists>c. wildcard_nsec lib (joinLabels q) (joinLabels (drop (length q - unat w) q))
       (joinLabels (drop (length q - Suc (unat w)) q)) rs = Inr c"
  using assms unfolding VerifyWildcardDenial_def Let_def
  by (auto simp: NSECProof_def nat_add_distrib split: if_splits sum.splits)

theorem nsec_wildcard_sound:
  assumes ok: "denial_ok lib z q rs" and rs: "rs \<noteq> []"
    and acc: "pf_Verified (VerifyWildcardDenial lib (joinLabels q) w rs n3s)"
  shows "\<not> name_exists z q \<and> \<not> beneath_cut z q \<and> closest_encloser z q (drop (length q - unat w) q)"
proof -
  note q = denial_okD(4) [OF ok] and law = denial_okD(1,2,3) [OF ok]
  note a = wildcard_nsec_accepted [OF acc rs q]
  from a(3) obtain c where "wildcard_nsec lib (joinLabels q) (joinLabels (drop (length q - unat w) q))
       (joinLabels (drop (length q - Suc (unat w)) q)) rs = Inr c" ..
  from wildcard_nsec_Inr [OF this] obtain r where r: "r \<in> set rs" "nsec_covers lib (joinLabels q) r"
    "\<not> nsecEndpointBelow lib (joinLabels q) (canonicalizeName (nr_NextDomain r))"
    "closestEncloserFromNSEC (joinLabels q) (canonicalizeName (nr_Owner r)) (canonicalizeName (nr_NextDomain r)) =
       joinLabels (drop (length q - unat w) q)" by blast
  obtain x y where xy: "gap z x y q" "nr_Owner r = joinLabels x" "nr_NextDomain r = joinLabels y"
    "plain_name_labels x" "plain_name_labels y" "set (nr_TypeBitmap r) = zv_types z x"
    by (rule covering_gap [OF ok r(1) q r(2)])
  have nex: "\<not> name_exists z q"
    using r(3) xy gap_exists_iff [OF xy(1)] endpoint_below [OF law(2) q xy(5)] by simp
  have "encloser q x y = drop (length q - unat w) q"
    using r(4) xy q plain_encloser [OF q] plain_drop [OF q] joinLabels_inj by simp
  then show ?thesis using nex gap_encloser [OF xy(1) nex] boundary_gap [OF ok a(2) r(1) xy(1,2,6)] by simp
qed

section \<open>Completeness\<close>

text \<open>
  When the name and the wildcard at its closest encloser do not exist and the response carries
  the records that cover them, the proof is accepted.
\<close>

lemma find_covering_complete:
  assumes "\<forall>r \<in> set rs. canonicalizeName (nr_Owner r) \<noteq> n" and "\<exists>r \<in> set rs. nsec_covers lib n r"
  shows "\<exists>r. find_covering lib n rs = Inr r"
  using assms by (induction rs) auto

lemma owners_differ:
  assumes ok: "denial_ok lib z q rs" and n: "plain_name_labels n" "n \<notin> zv_owners z"
  shows "\<forall>r \<in> set rs. canonicalizeName (nr_Owner r) \<noteq> joinLabels n"
  using genuine_owner(1) [OF ok _ n(1)] n(2) by blast

lemma boundary_complete:
  assumes ok: "denial_ok lib z q rs" and nb: "\<not> beneath_cut z q"
  shows "nsecAncestorBoundary lib (joinLabels q) rs = Inr ()"
proof -
  note q = denial_okD(4) [OF ok]
  have "nsec_boundary lib (joinLabels q) r = Inr ()" if r: "r \<in> set rs" for r
  proof -
    obtain a where a: "nr_Owner r = joinLabels a" "a \<in> zv_owners z" "set (nr_TypeBitmap r) = zv_types z a"
      using denial_okD(6) [OF ok r] unfolding genuine_def by blast
    have p: "plain_name_labels a" using owner_facts(1) denial_okD(3) [OF ok] a(2) by blast
    have "\<not> cut_at z a" if "strict_suffix a q" using nb that by (auto simp: beneath_cut_def)
    then show ?thesis using a p q denial_okD(2) [OF ok]
      by (auto simp: nsec_boundary_def Let_def joinLabels_inj IsSubDomain_join HasType_iff cut_at_def strict_suffix_def)
  qed
  then show ?thesis using q by (simp add: nsecAncestorBoundary_def check_each_iff)
qed

lemma closest_encloser_unique: "closest_encloser z q c \<Longrightarrow> closest_encloser z q d \<Longrightarrow> c = d"
  unfolding closest_encloser_def strict_suffix_def by (meson suffix_order.antisym)

theorem nsec_nxdomain_complete:
  assumes ok: "denial_ok lib z q rs" and nex: "\<not> name_exists z q" "\<not> beneath_cut z q"
    and ce: "closest_encloser z q ce" "''*'' # ce \<notin> zv_owners z"
    and cov: "\<exists>r \<in> set rs. nsec_covers lib (joinLabels q) r" "\<exists>r \<in> set rs. nsec_covers lib (joinLabels (''*'' # ce)) r"
  shows "\<exists>p. verifyNSECNXDOMAIN lib (joinLabels q) rs = Inr p"
proof -
  note q = denial_okD(4) [OF ok] and law = denial_okD(1,2,3) [OF ok]
  have "q \<notin> zv_owners z" using nex(1) by (auto simp: name_exists_def)
  then obtain r where r: "find_covering lib (joinLabels q) rs = Inr r"
    using find_covering_complete [OF owners_differ [OF ok q] cov(1)] by blast
  obtain a b where ab: "gap z a b q" "nr_Owner r = joinLabels a" "nr_NextDomain r = joinLabels b"
    "plain_name_labels a" "plain_name_labels b" "set (nr_TypeBitmap r) = zv_types z a"
    using covering_gap [OF ok _ q] find_covering_Inr [OF r] by blast
  have e: "encloser q a b = ce" using gap_encloser [OF ab(1) nex(1)] ce(1) closest_encloser_unique by blast
  have pce: "plain_name_labels ce" using plain_encloser [OF q, of a b] e by simp
  then have w: "plain_name_labels (''*'' # ce)" by simp
  obtain v where v: "find_covering lib (joinLabels (''*'' # ce)) rs = Inr v"
    using find_covering_complete [OF owners_differ [OF ok w ce(2)] cov(2)] by blast
  have "\<not> nsecEndpointBelow lib (joinLabels q) (joinLabels b)"
    using nex(1) gap_exists_iff [OF ab(1)] endpoint_below [OF law(2) q ab(5)] by simp
  moreover have "joinLabels ce \<noteq> joinLabels q"
    using ce(1) pce q by (simp add: joinLabels_inj closest_encloser_def strict_suffix_def)
  ultimately show ?thesis unfolding verifyNSECNXDOMAIN_def
    using boundary_complete [OF ok nex(2)] r v ab e q pce by (simp add: Let_def)
qed

end
