(* ===== verification/Denial_Hashed.thy ===== *)
theory Denial_Hashed
  imports Denial_Sound
begin

text \<open>
  What an accepted NSEC3 proof means for the zone (RFC 5155, section 8). A genuine record
  matches an existing name, and only names an opt-out chain may leave out have a hash inside
  its interval. Records of different chains are never combined.
\<close>

section \<open>The zone behind the hashes\<close>

text \<open>
  The existing names include the empty non-terminals; \<open>z3_omitted\<close> are the unsigned
  delegations, and the names that exist only because of them.
\<close>

record hashed_view =
  z3_apex :: "string list"
  z3_names :: "string list set"
  z3_omitted :: "string list set"
  z3_types :: "string list \<Rightarrow> string set"

definition hashed_cut :: "hashed_view \<Rightarrow> string list \<Rightarrow> bool" where
  "hashed_cut z d \<longleftrightarrow> d \<in> z3_names z \<and>
     (''DNAME'' \<in> z3_types z d \<or> ''NS'' \<in> z3_types z d \<and> ''SOA'' \<notin> z3_types z d)"

definition hashed_view_ok :: "hashed_view \<Rightarrow> bool" where
  "hashed_view_ok z \<longleftrightarrow> z3_apex z \<in> z3_names z \<and>
     (\<forall>n \<in> z3_names z. plain_name_labels n \<and> suffix (z3_apex z) n \<and>
        (\<forall>p. suffix p n \<and> suffix (z3_apex z) p \<longrightarrow> p \<in> z3_names z) \<and>
        \<not> (\<exists>d. hashed_cut z d \<and> strict_suffix d n))"

definition record_hash :: "vallib \<Rightarrow> nsec3_rec \<Rightarrow> string list \<Rightarrow> string" where
  "record_hash lib r n = computeNSEC3Hash lib (joinLabels n)
     (case hexDecode (normalizeSalt (n3r_Salt r)) of Inl _ \<Rightarrow> [] | Inr s \<Rightarrow> s) (n3r_Iterations r)"

definition genuine3 :: "vallib \<Rightarrow> hashed_view \<Rightarrow> nsec3_rec \<Rightarrow> bool" where
  "genuine3 lib z r \<longleftrightarrow>
     (\<exists>n \<in> z3_names z. n3r_HashedOwner r = record_hash lib r n \<and> set (n3r_TypeBitmap r) = z3_types z n) \<and>
     (\<forall>n \<in> z3_names z. hashBetween (record_hash lib r n) (n3r_HashedOwner r) (n3r_NextHashed r) \<longrightarrow>
        isOptOut r \<and> n \<in> z3_omitted z)"

text \<open>No two of the names in question have the same hash.\<close>

definition no_collision :: "vallib \<Rightarrow> hashed_view \<Rightarrow> string list \<Rightarrow> nsec3_rec \<Rightarrow> bool" where
  "no_collision lib z q r \<longleftrightarrow>
     inj_on (record_hash lib r) (z3_names z \<union> {p. suffix p q} \<union> (#) ''*'' ` {p. suffix p q})"

definition hashed_ok :: "vallib \<Rightarrow> hashed_view \<Rightarrow> string list \<Rightarrow> nsec3_rec list \<Rightarrow> bool" where
  "hashed_ok lib z q rs \<longleftrightarrow> hashed_view_ok z \<and> plain_name_labels q \<and>
     list_all (\<lambda>r. genuine3 lib z r \<and> no_collision lib z q r) rs"

section \<open>Chains\<close>

definition chain_ok :: "nsec3_rec list \<Rightarrow> nsec3_chain \<Rightarrow> bool" where
  "chain_ok rs c \<longleftrightarrow> ch_records c \<noteq> [] \<and> ch_algorithm c = NSEC3HashSHA1 \<and>
     (\<forall>r \<in> set (ch_records c). r \<in> set rs \<and> \<not> nsec3UnknownFlags r \<and> n3r_Algorithm r = ch_algorithm c \<and>
        n3r_Iterations r = ch_iterations c \<and> hexDecode (normalizeSalt (n3r_Salt r)) = Inr (ch_salt c))"

lemma groups_spec:
  "(k, g) \<in> set (fold add_to_group rs []) \<Longrightarrow> g \<noteq> [] \<and> (\<forall>r \<in> set g. r \<in> set rs \<and> param_key r = k)"
proof -
  have "gomap_ok (fold add_to_group rs []) \<and> (\<forall>k g. map_of (fold add_to_group rs []) k = Some g \<longrightarrow>
      g \<noteq> [] \<and> (\<forall>r \<in> set g. r \<in> set rs \<and> param_key r = k))"
  proof (induction rs rule: rev_induct)
    case (snoc r rs)
    let ?m = "fold add_to_group rs []"
    have IH: "g \<noteq> [] \<and> (\<forall>x \<in> set g. x \<in> set rs \<and> param_key x = k)" if "map_of ?m k = Some g" for k g
      using snoc that by blast
    have step: "fold add_to_group (rs @ [r]) [] =
        AList.update (param_key r) ((case map_of ?m (param_key r) of None \<Rightarrow> [] | Some g \<Rightarrow> g) @ [r]) ?m"
      by (simp add: add_to_group_def)
    have "g \<noteq> [] \<and> (\<forall>x \<in> set g. x \<in> set (rs @ [r]) \<and> param_key x = k)"
      if g: "map_of (fold add_to_group (rs @ [r]) []) k = Some g" for k g
    proof (cases "k = param_key r")
      case True
      then have "g = (case map_of ?m k of None \<Rightarrow> [] | Some g \<Rightarrow> g) @ [r]"
        using g by (simp add: step update_conv' del: fold_append)
      then show ?thesis using IH [of k] True by (cases "map_of ?m k") simp_all
    next
      case False
      then have "map_of ?m k = Some g" using g by (simp add: step update_conv' del: fold_append)
      then show ?thesis using IH by simp
    qed
    moreover have "gomap_ok (fold add_to_group (rs @ [r]) [])" unfolding step using snoc by simp
    ultimately show ?case by blast
  qed simp
  moreover assume "(k, g) \<in> set (fold add_to_group rs [])"
  ultimately show ?thesis unfolding gomap_ok_def by (metis map_of_is_SomeI)
qed

lemma newNSEC3Chain_Inr:
  assumes "newNSEC3Chain g = Inr c"
  shows "ch_records c = g" "g \<noteq> []" "ch_algorithm c = NSEC3HashSHA1"
    and "\<And>r. r \<in> set g \<Longrightarrow> n3r_Algorithm r = ch_algorithm c \<and> n3r_Iterations r = ch_iterations c \<and>
       hexDecode (normalizeSalt (n3r_Salt r)) = Inr (ch_salt c)"
  using assms by (auto simp: newNSEC3Chain_def Let_def list_ex_iff split: list.splits if_splits sum.splits)

lemma build_chains_mem:
  "c \<in> set (fst (build_chains gs)) \<Longrightarrow> \<exists>g \<in> set gs. newNSEC3Chain g = Inr c"
  by (induction gs) (auto split: prod.splits sum.splits)

text \<open>Every chain is made of records of the response that share its parameters.\<close>

theorem nsec3Chains_ok:
  assumes "nsec3Chains rs = Inr (cs, ig)" and "c \<in> set cs"
  shows "chain_ok rs c"
proof -
  have "c \<in> set (fst (build_chains (groupNSEC3ByParams (filter (\<lambda>r. \<not> nsec3UnknownFlags r) rs))))"
    using assms by (auto simp: nsec3Chains_def Let_def split: prod.splits if_splits)
  then obtain g where g: "g \<in> set (groupNSEC3ByParams (filter (\<lambda>r. \<not> nsec3UnknownFlags r) rs))" "newNSEC3Chain g = Inr c"
    using build_chains_mem by blast
  from g(1) obtain k where "(k, g) \<in> set (fold add_to_group (filter (\<lambda>r. \<not> nsec3UnknownFlags r) rs) [])"
    by (auto simp: groupNSEC3ByParams_def)
  from groups_spec [OF this] newNSEC3Chain_Inr [OF g(2)] show ?thesis by (auto simp: chain_ok_def)
qed

lemma chain_hash:
  assumes "chain_ok rs c" and "r \<in> set (ch_records c)"
  shows "ch_hash lib c (joinLabels n) = record_hash lib r n"
  using assms by (auto simp: chain_ok_def ch_hash_def record_hash_def)

section \<open>Matches and covers\<close>

lemma upper_lower [simp]: "ascii_upper (ascii_lower c) = ascii_upper c"
proof -
  have "of_char c < (256 :: nat)" by simp
  then show ?thesis by (auto simp: ascii_lower_def ascii_upper_def Let_def)
qed

lemma upper_idem [simp]: "ascii_upper (ascii_upper c) = ascii_upper c"
proof -
  have "of_char c < (256 :: nat)" by simp
  then show ?thesis by (auto simp: ascii_upper_def Let_def)
qed

lemma ToUpper_ToLower: "ToUpper (map ascii_lower s) = ToUpper s"
  by (simp add: ToUpper_def)

lemma record_hash_upper: "ToUpper (record_hash lib r n) = record_hash lib r n"
  by (simp add: record_hash_def computeNSEC3Hash_def Let_def ToUpper_def)

lemma hash_EqualFold: "EqualFold (record_hash lib r n) (record_hash lib r m) \<longleftrightarrow> record_hash lib r n = record_hash lib r m"
  by (metis EqualFold_def ToUpper_ToLower record_hash_upper)

lemma hashed_okD:
  assumes "hashed_ok lib z q rs" and "chain_ok rs c" and "r \<in> set (ch_records c)"
  shows "genuine3 lib z r" "no_collision lib z q r"
  using assms by (auto simp: hashed_ok_def chain_ok_def list_all_iff)

text \<open>A name of the query: an ancestor of \<open>q\<close>, \<open>q\<close> itself, or a wildcard at one of them.\<close>

abbreviation query_name :: "string list \<Rightarrow> string list \<Rightarrow> bool" where
  "query_name q n \<equiv> suffix n q \<or> (\<exists>p. suffix p q \<and> n = ''*'' # p)"

lemma find_SomeD: "List.find P xs = Some x \<Longrightarrow> x \<in> set xs \<and> P x"
  by (auto simp: find_Some_iff)

lemma match_exists:
  assumes ok: "hashed_ok lib z q rs" "chain_ok rs c" and n: "query_name q n"
    and m: "ch_match c (ch_hash lib c (joinLabels n)) = Some r"
  shows "n \<in> z3_names z" and "set (n3r_TypeBitmap r) = z3_types z n"
proof -
  have r: "r \<in> set (ch_records c)" "EqualFold (n3r_HashedOwner r) (record_hash lib r n)"
    using find_SomeD [OF m [unfolded ch_match_def]] chain_hash [OF ok(2)] by auto
  obtain x where x: "x \<in> z3_names z" "n3r_HashedOwner r = record_hash lib r x" "set (n3r_TypeBitmap r) = z3_types z x"
    using hashed_okD(1) [OF ok r(1)] by (auto simp: genuine3_def)
  have "record_hash lib r x = record_hash lib r n" using r(2) x(2) by (simp add: hash_EqualFold)
  then have "x = n" using hashed_okD(2) [OF ok r(1)] x(1) n unfolding no_collision_def
    by (auto dest: inj_onD)
  with x show "n \<in> z3_names z" and "set (n3r_TypeBitmap r) = z3_types z n" by simp_all
qed

lemma cover_absent:
  assumes ok: "hashed_ok lib z q rs" "chain_ok rs c"
    and m: "ch_cover c (ch_hash lib c (joinLabels n)) = Some r"
  shows "n \<in> z3_names z \<Longrightarrow> isOptOut r \<and> n \<in> z3_omitted z"
proof -
  have r: "r \<in> set (ch_records c)" "hashBetween (record_hash lib r n) (n3r_HashedOwner r) (n3r_NextHashed r)"
    using find_SomeD [OF m [unfolded ch_cover_def]] chain_hash [OF ok(2)] by auto
  assume "n \<in> z3_names z"
  then show ?thesis using hashed_okD(1) [OF ok r(1)] r(2) by (auto simp: genuine3_def)
qed

text \<open>The closest-encloser proof: the encloser exists, is no cut, and the next closer name is absent.\<close>

definition encloser_proof :: "hashed_view \<Rightarrow> string list \<Rightarrow> nat \<Rightarrow> bool \<Rightarrow> bool" where
  "encloser_proof z q d optout \<longleftrightarrow> 1 \<le> d \<and> d \<le> length q \<and> drop d q \<in> z3_names z \<and> \<not> hashed_cut z (drop d q) \<and>
     (drop (d - 1) q \<in> z3_names z \<longrightarrow> optout \<and> drop (d - 1) q \<in> z3_omitted z)"

lemma closestEncloser_sound:
  assumes ok: "hashed_ok lib z q rs" "chain_ok rs c"
    and acc: "closestEncloser lib c (joinLabels q) = Inr (ce, nc, ceRec, ncRec)"
  shows "\<exists>d. ce = joinLabels (drop d q) \<and> nc = joinLabels (drop (d - 1) q) \<and> encloser_proof z q d (isOptOut ncRec)"
proof -
  have q: "plain_name_labels q" using ok(1) by (simp add: hashed_ok_def)
  have labels: "(if joinLabels q = ''.'' then [] else split_on (CHR ''.'') (trim_dot (joinLabels q))) = q"
    using q by (simp add: joinLabels_root_plain trim_dot_join split_trim_join)
  obtain k where k: "List.find (\<lambda>d. ch_match c (ch_hash lib c (lastNLabels (joinLabels q) (int (length q) - d))) \<noteq> None)
      [1..int (length q)] = Some k"
    and ce: "ce = lastNLabels (joinLabels q) (int (length q) - k)" "nc = lastNLabels (joinLabels q) (int (length q) - k + 1)"
      "ch_match c (ch_hash lib c ce) = Some ceRec" "nsec3RecordBoundary ce (Some ceRec) = Inr ()"
      "ch_cover c (ch_hash lib c nc) = Some ncRec"
    using acc unfolding closestEncloser_def Let_def canonicalizeName_join [OF q] labels
    by (auto split: option.splits sum.splits)
  have "k \<in> set [1..int (length q)]" using k by (auto simp: find_Some_iff)
  then obtain d where d: "k = int d" "1 \<le> d" "d \<le> length q"
    by (metis atLeastAtMost_iff nat_le_iff nat_0_le int_nat_eq of_nat_le_iff set_upto of_nat_1 zero_le_one order_trans)
  have n: "int (length q) - k = int (length q - d)" "int (length q) - k + 1 = int (length q - (d - 1))" using d by auto
  have "length q - (length q - d) = d" "length q - (length q - (d - 1)) = d - 1" using d by auto
  then have names: "ce = joinLabels (drop d q)" "nc = joinLabels (drop (d - 1) q)"
    unfolding ce(1) ce(2) n(2) by (simp_all only: n(1) lastNLabels_join [OF q] nat_int)
  have "query_name q (drop d q)" by (simp add: suffix_drop)
  note m = match_exists [OF ok this ce(3) [unfolded names(1)]]
  have "\<not> hashed_cut z (drop d q)"
    using ce(4) m(2) by (auto simp: hashed_cut_def nsec3RecordBoundary_def HasType_iff split: if_splits)
  moreover note cover_absent [OF ok ce(5) [unfolded names(2)]]
  ultimately show ?thesis using names m(1) d by (auto simp: encloser_proof_def)
qed

text \<open>Without opt-out the name is absent, not beneath a cut, and the encloser is the closest.\<close>

lemma encloser_proof_closest:
  assumes p: "encloser_proof z q d optout" and ok: "hashed_view_ok z"
    and out: "\<not> (optout \<and> drop (d - 1) q \<in> z3_omitted z)"
  shows "suffix s q \<and> s \<in> z3_names z \<Longrightarrow> suffix s (drop d q)"
    and "\<not> (\<exists>e. hashed_cut z e \<and> strict_suffix e q)"
proof -
  have d: "1 \<le> d" "d \<le> length q" "drop d q \<in> z3_names z" "drop (d - 1) q \<notin> z3_names z"
    using p out by (auto simp: encloser_proof_def)
  have apex: "suffix (z3_apex z) (drop (d - 1) q)"
  proof -
    have "suffix (z3_apex z) (drop d q)" using ok d(3) by (simp add: hashed_view_ok_def)
    moreover have "drop d q = drop 1 (drop (d - 1) q)" using d(1) by simp
    then have "suffix (drop d q) (drop (d - 1) q)" by (metis suffix_drop)
    ultimately show ?thesis by (rule suffix_order.trans)
  qed
  show max: "suffix s (drop d q)" if s: "suffix s q \<and> s \<in> z3_names z" for s
  proof (rule ccontr)
    assume "\<not> suffix s (drop d q)"
    then have "length (drop d q) < length s"
      using s by (metis not_le_imp_less suffix_drop suffix_length_suffix)
    then have "length (drop (d - 1) q) \<le> length s" using d(1,2) by simp
    then have "suffix (drop (d - 1) q) s" using s by (metis suffix_drop suffix_length_suffix)
    then show False using ok s apex d(4) by (auto simp: hashed_view_ok_def)
  qed
  show "\<not> (\<exists>e. hashed_cut z e \<and> strict_suffix e q)"
  proof
    assume "\<exists>e. hashed_cut z e \<and> strict_suffix e q"
    then obtain e where e: "hashed_cut z e" "strict_suffix e q" by blast
    then have "suffix e (drop d q)" using max by (simp add: hashed_cut_def strict_suffix_def)
    moreover have "e \<noteq> drop d q" using e(1) p by (auto simp: encloser_proof_def)
    ultimately have "strict_suffix e (drop d q)" by (simp add: strict_suffix_def)
    moreover have "\<not> (\<exists>e. hashed_cut z e \<and> strict_suffix e (drop d q))"
      using ok d(3) unfolding hashed_view_ok_def by (elim conjE) (drule (1) bspec, elim conjE, assumption)
    ultimately show False using e(1) by blast
  qed
qed

section \<open>Soundness\<close>

text \<open>
  What an accepted NSEC3 proof of NXDOMAIN establishes: the name is absent unless the proof is
  marked opt-out, and a wildcard at the closest encloser could only be an omitted name.
\<close>

definition hashed_nxdomain_true :: "hashed_view \<Rightarrow> string list \<Rightarrow> nsec_proof \<Rightarrow> bool" where
  "hashed_nxdomain_true z q p \<longleftrightarrow> (\<exists>d. pf_ClosestEncloser p = joinLabels (drop d q) \<and>
     pf_NextCloser p = joinLabels (drop (d - 1) q) \<and> encloser_proof z q d (pf_OptOut p) \<and>
     (''*'' # drop d q \<in> z3_names z \<longrightarrow> ''*'' # drop d q \<in> z3_omitted z) \<and>
     (\<not> pf_OptOut p \<longrightarrow> q \<notin> z3_names z \<and> \<not> (\<exists>e. hashed_cut z e \<and> strict_suffix e q) \<and>
        (\<forall>s. suffix s q \<and> s \<in> z3_names z \<longrightarrow> suffix s (drop d q))))"

lemma nxdomain_chain_sound:
  assumes ok: "hashed_ok lib z q rs" "chain_ok rs c" and acc: "nxdomain lib c (joinLabels q) = Inr p"
  shows "hashed_nxdomain_true z q p"
proof -
  have q: "plain_name_labels q" and vok: "hashed_view_ok z" using ok(1) by (simp_all add: hashed_ok_def)
  obtain ce nc ceRec ncRec where e: "closestEncloser lib c (joinLabels q) = Inr (ce, nc, ceRec, ncRec)"
    and w: "ch_cover c (ch_hash lib c (wildcardName ce)) \<noteq> None"
    and p: "pf_ClosestEncloser p = ce" "pf_NextCloser p = nc" "pf_OptOut p = isOptOut ncRec"
    using acc q unfolding nxdomain_def by (auto simp: Let_def split: if_splits sum.splits)
  from closestEncloser_sound [OF ok e] obtain d where d: "ce = joinLabels (drop d q)" "nc = joinLabels (drop (d - 1) q)"
    "encloser_proof z q d (isOptOut ncRec)" by blast
  obtain wr where "ch_cover c (ch_hash lib c (joinLabels (''*'' # drop d q))) = Some wr"
    using w d(1) plain_drop [OF q] by auto
  note wild = cover_absent [OF ok this]
  have "q \<notin> z3_names z" if "\<not> isOptOut ncRec"
  proof
    assume "q \<in> z3_names z"
    then have "suffix q (drop d q)" using encloser_proof_closest(1) [OF d(3) vok, of q] that by simp
    then show False using d(3) by (auto simp: encloser_proof_def dest!: suffix_length_le)
  qed
  then show ?thesis unfolding hashed_nxdomain_true_def p
    using d wild encloser_proof_closest [OF d(3) vok] by blast
qed

lemma try_chains_Inr: "try_chains f e cs = Inr p \<Longrightarrow> \<exists>c \<in> set cs. f c = Inr p"
  by (induction cs arbitrary: e) (auto split: sum.splits)

lemma map_sum_Inr: "map_sum id f x = Inr y \<longleftrightarrow> (\<exists>v. x = Inr v \<and> y = f v)"
  by (cases x) auto

lemma VerifyNSEC3Denial_Inr:
  assumes "VerifyNSEC3Denial lib q qtype rs rcode = Inr (Some p)"
  obtains c p' where "chain_ok rs c" "p = p'\<lparr>pf_Ignored := pf_Ignored p\<rparr>"
    "(if rcode = 3 then nxdomain lib c (canonicalizeName q) else nodata lib c (canonicalizeName q) qtype) = Inr p'"
    "\<forall>r \<in> set rs. unat (n3r_Iterations r) \<le> NSEC3MaxRecommendedIterations"
proof -
  obtain cs ig p' where cs: "nsec3Chains rs = Inr (cs, ig)" "p = p'\<lparr>pf_Ignored := ig\<rparr>"
    "try_chains (\<lambda>c. if rcode = 3 then nxdomain lib c (canonicalizeName q) else nodata lib c (canonicalizeName q) qtype)
       (Msg ''no internally-consistent NSEC3 chain proves the denial'') cs = Inr p'"
    and cap: "nsec3IterationsOverCap rs = None"
    using assms unfolding VerifyNSEC3Denial_def Let_def by (auto simp: map_sum_Inr split: if_splits sum.splits)
  from try_chains_Inr [OF cs(3)] obtain c where "c \<in> set cs"
    "(if rcode = 3 then nxdomain lib c (canonicalizeName q) else nodata lib c (canonicalizeName q) qtype) = Inr p'" by blast
  moreover have "\<forall>r \<in> set rs. unat (n3r_Iterations r) \<le> NSEC3MaxRecommendedIterations"
    using cap by (auto simp: nsec3IterationsOverCap_def find_None_iff not_less)
  ultimately show thesis using that nsec3Chains_ok [OF cs(1)] cs(2) by auto
qed

theorem nsec3_nxdomain_sound:
  assumes ok: "hashed_ok lib z q rs" and acc: "VerifyNSEC3Denial lib (joinLabels q) qtype rs 3 = Inr (Some p)"
  shows "hashed_nxdomain_true z q p"
proof -
  have q: "plain_name_labels q" using ok by (simp add: hashed_ok_def)
  obtain c p' where c: "chain_ok rs c" "p = p'\<lparr>pf_Ignored := pf_Ignored p\<rparr>" "nxdomain lib c (joinLabels q) = Inr p'"
    using VerifyNSEC3Denial_Inr [OF acc] q by (metis canonicalizeName_join)
  have "hashed_nxdomain_true z q p'" by (rule nxdomain_chain_sound [OF ok c(1,3)])
  then show ?thesis by (subst c(2)) (simp add: hashed_nxdomain_true_def)
qed

text \<open>NODATA: the name, or the wildcard that matches it, exists without the type.\<close>

definition hashed_lacks :: "hashed_view \<Rightarrow> string list \<Rightarrow> string \<Rightarrow> bool" where
  "hashed_lacks z n t \<longleftrightarrow> n \<in> z3_names z \<and> t \<notin> z3_types z n \<and> ''CNAME'' \<notin> z3_types z n \<and>
     (''NS'' \<in> z3_types z n \<longrightarrow> ''SOA'' \<in> z3_types z n)"

definition hashed_nodata_true :: "hashed_view \<Rightarrow> string list \<Rightarrow> string \<Rightarrow> nsec_proof \<Rightarrow> bool" where
  "hashed_nodata_true z q t p \<longleftrightarrow> hashed_lacks z q t \<or>
     (\<exists>d. encloser_proof z q d (pf_OptOut p) \<and> hashed_lacks z (''*'' # drop d q) t \<and>
        (\<not> pf_OptOut p \<longrightarrow> q \<notin> z3_names z))"

lemma nodata_chain_sound:
  assumes ok: "hashed_ok lib z q rs" "chain_ok rs c"
    and acc: "verifyNSEC3NODATAInChain lib c (joinLabels q) qtype = Inr p"
  shows "hashed_nodata_true z q (TypeName lib qtype) p"
proof (cases "ch_match c (ch_hash lib c (joinLabels q))")
  case (Some r)
  then have "nodata_bitmap (TypeName lib qtype) (n3r_TypeBitmap r) = Inr ()"
    using acc by (auto simp: verifyNSEC3NODATAInChain_def Let_def split: sum.splits)
  moreover have "query_name q q" by simp
  note match_exists [OF ok this Some]
  ultimately show ?thesis by (simp add: hashed_nodata_true_def hashed_lacks_def nodata_bitmap_iff)
next
  case None
  have q: "plain_name_labels q" and vok: "hashed_view_ok z" using ok(1) by (simp_all add: hashed_ok_def)
  obtain ce nc ceRec ncRec wr where e: "closestEncloser lib c (joinLabels q) = Inr (ce, nc, ceRec, ncRec)"
    and w: "ch_match c (ch_hash lib c (wildcardName ce)) = Some wr"
      "nodata_bitmap (TypeName lib qtype) (n3r_TypeBitmap wr) = Inr ()"
    and p: "pf_OptOut p = isOptOut ncRec"
    using acc None unfolding verifyNSEC3NODATAInChain_def
    by (auto simp: Let_def split: option.splits sum.splits)
  from closestEncloser_sound [OF ok e] obtain d where d: "ce = joinLabels (drop d q)"
    "encloser_proof z q d (isOptOut ncRec)" by blast
  have qn: "query_name q (''*'' # drop d q)" by (auto simp: suffix_drop)
  have "ch_match c (ch_hash lib c (joinLabels (''*'' # drop d q))) = Some wr" using w(1) d(1) plain_drop [OF q] by simp
  note m = match_exists [OF ok qn this]
  have "q \<notin> z3_names z" if "\<not> isOptOut ncRec"
  proof
    assume "q \<in> z3_names z"
    then have "suffix q (drop d q)" using encloser_proof_closest(1) [OF d(2) vok, of q] that by simp
    then show False using d(2) by (auto simp: encloser_proof_def dest!: suffix_length_le)
  qed
  then show ?thesis unfolding hashed_nodata_true_def p using d m w(2)
    by (auto simp: hashed_lacks_def nodata_bitmap_iff)
qed

theorem nsec3_nodata_sound:
  assumes ok: "hashed_ok lib z q rs" and rc: "rcode \<noteq> 3"
    and acc: "VerifyNSEC3Denial lib (joinLabels q) qtype rs rcode = Inr (Some p)"
  shows "hashed_nodata_true z q (TypeName lib qtype) p"
proof -
  have q: "plain_name_labels q" using ok by (simp add: hashed_ok_def)
  obtain c p' where c: "chain_ok rs c" "p = p'\<lparr>pf_Ignored := pf_Ignored p\<rparr>"
    "verifyNSEC3NODATAInChain lib c (joinLabels q) qtype = Inr p'"
    using VerifyNSEC3Denial_Inr [OF acc] q rc by (metis canonicalizeName_join nodata_def)
  have "hashed_nodata_true z q (TypeName lib qtype) p'" by (rule nodata_chain_sound [OF ok c(1,3)])
  then show ?thesis by (subst c(2)) (simp add: hashed_nodata_true_def)
qed

end
