(* ===== verification/Trust_Keys.thy ===== *)
theory Trust_Keys
  imports Denial_Proof Zone_Signatures
begin

text \<open>
  Keys the validator may trust: the records of a response
  (\<open>validator/internal/dns/{types,records}.go\<close>), the pinned root anchors
  (\<open>dns/anchors.go\<close>) and the DS digests that bind a child's keys to its parent
  (\<open>validator/internal/validator/dnssec.go\<close>). A key is collected exactly when an
  anchor or a DS record authenticates it.
\<close>

section \<open>Records\<close>

record key_rec =
  kr_Owner :: string
  kr_Class :: "16 word"
  kr_Section :: string
  kr_Flags :: "16 word"
  kr_Protocol :: "8 word"
  kr_Algorithm :: "8 word"
  kr_PublicKey :: string
  kr_KeyTag :: "16 word"
  kr_IsKSK :: bool
  kr_IsZSK :: bool
  kr_IsRevoked :: bool

record ds_rec =
  ds_Owner :: string
  ds_Class :: "16 word"
  ds_Section :: string
  ds_KeyTag :: "16 word"
  ds_Algorithm :: "8 word"
  ds_DigestType :: "8 word"
  ds_Digest :: string

record rrsig_rec =
  sr_Owner :: string
  sr_Class :: "16 word"
  sr_Section :: string
  sr_TypeCovered :: "16 word"
  sr_Algorithm :: "8 word"
  sr_Labels :: "8 word"
  sr_OriginalTTL :: "32 word"
  sr_Expiration :: gotime
  sr_Inception :: gotime
  sr_KeyTag :: "16 word"
  sr_SignerName :: string
  sr_Signature :: string
  sr_IsValid :: bool
  sr_IsExpired :: bool

text \<open>
  The library, beyond \<open>vallib\<close>: \<open>dns.PackDomainName\<close>, the digests, the check of
  a signature (\<open>RRSIG.Verify\<close>) and the fields of a DS record.
\<close>

record trustlib =
  vlib :: vallib
  PackDomainName :: "string \<Rightarrow> bytes option"
  Sha256 :: "bytes \<Rightarrow> bytes"
  Sha384 :: "bytes \<Rightarrow> bytes"
  VerifySig :: "rrsig \<Rightarrow> dnskey \<Rightarrow> rr list \<Rightarrow> bool"
  DSFields :: "string \<Rightarrow> 16 word \<times> 8 word \<times> 8 word \<times> string"

abbreviation tnlib :: "trustlib \<Rightarrow> dnslib" where "tnlib lib \<equiv> nlib (vlib lib)"
abbreviation canonTL :: "trustlib \<Rightarrow> string \<Rightarrow> string" where "canonTL lib \<equiv> CanonicalName (vlib lib)"

definition EligibleForVerification :: "key_rec \<Rightarrow> bool" where
  "EligibleForVerification k =
     (if kr_Protocol k \<noteq> 3 then False
      else if \<not> bit (kr_Flags k) 8 then False
      else if kr_IsRevoked k \<or> bit (kr_Flags k) 7 then False
      else True)"

definition DNSKEYFromRR :: "trustlib \<Rightarrow> rr_header \<Rightarrow> dnskey \<Rightarrow> string \<Rightarrow> key_rec" where
  "DNSKEYFromRR lib h k sect =
     (let isZoneKey = bit (dk_Flags k) 8; isSEP = bit (dk_Flags k) 0 in
      \<lparr>kr_Owner = h_Name h, kr_Class = h_Class h, kr_Section = sect, kr_Flags = dk_Flags k,
       kr_Protocol = dk_Protocol k, kr_Algorithm = dk_Algorithm k, kr_PublicKey = dk_PublicKey k,
       kr_KeyTag = KeyTag (klib (tnlib lib)) k, kr_IsKSK = isZoneKey \<and> isSEP, kr_IsZSK = isZoneKey \<and> \<not> isSEP,
       kr_IsRevoked = bit (dk_Flags k) 7\<rparr>)"

definition DSFromRR :: "trustlib \<Rightarrow> rr_header \<Rightarrow> string \<Rightarrow> string \<Rightarrow> ds_rec" where
  "DSFromRR lib h data sect =
     (case DSFields lib data of (tag, alg, dt, digest) \<Rightarrow>
      \<lparr>ds_Owner = h_Name h, ds_Class = h_Class h, ds_Section = sect, ds_KeyTag = tag, ds_Algorithm = alg,
       ds_DigestType = dt, ds_Digest = ToUpper digest\<rparr>)"

definition unix_time :: "32 word \<Rightarrow> gotime" where
  "unix_time w = uint w * Second"

definition RRSIGFromRR :: "rrsig \<Rightarrow> string \<Rightarrow> gotime \<Rightarrow> rrsig_rec" where
  "RRSIGFromRR v sect now =
     (let ex = unix_time (sig_Expiration v); inc = unix_time (sig_Inception v) in
      \<lparr>sr_Owner = h_Name (sig_Hdr v), sr_Class = h_Class (sig_Hdr v), sr_Section = sect,
       sr_TypeCovered = sig_TypeCovered v, sr_Algorithm = sig_Algorithm v, sr_Labels = sig_Labels v,
       sr_OriginalTTL = sig_OrigTtl v, sr_Expiration = ex, sr_Inception = inc, sr_KeyTag = sig_KeyTag v,
       sr_SignerName = sig_SignerName v, sr_Signature = sig_Signature v,
       sr_IsValid = (now > inc \<and> now < ex), sr_IsExpired = (now > ex)\<rparr>)"

definition InSection :: "string \<Rightarrow> string list \<Rightarrow> bool" where
  "InSection sect allowed = (if sect = [] then allowed \<noteq> [] else list_ex (\<lambda>a. sect = a) allowed)"

section \<open>Digests\<close>

definition hex_letter :: "nat \<Rightarrow> char" where
  "hex_letter n = ''0123456789abcdef'' ! n"

definition hex_encode :: "bytes \<Rightarrow> string" where
  "hex_encode bs = concat (map (\<lambda>c. [hex_letter (of_char c div 16), hex_letter (of_char c mod 16)]) bs)"

definition octet :: "'a::len word \<Rightarrow> char" where
  "octet w = char_of (unat w mod 256)"

definition ComputeDSDigestFromDNSKEY :: "trustlib \<Rightarrow> string \<Rightarrow> key_rec \<Rightarrow> 8 word \<Rightarrow> error + string" where
  "ComputeDSDigestFromDNSKEY lib zone k digestType =
     (case PackDomainName lib (ToLower zone) of None \<Rightarrow> Inl (Msg ''failed to pack zone name'') | Some wireZone \<Rightarrow>
      case b64_decode (kr_PublicKey k) of None \<Rightarrow> Inl (Msg ''failed to decode public key'') | Some publicKey \<Rightarrow>
      let data = wireZone @ [octet (drop_bit 8 (kr_Flags k)), octet (kr_Flags k), octet (kr_Protocol k),
                             octet (kr_Algorithm k)] @ publicKey in
      if digestType = 1 then Inr (ToUpper (hex_encode (Sha1 (vlib lib) data)))
      else if digestType = 2 then Inr (ToUpper (hex_encode (Sha256 lib data)))
      else if digestType = 4 then Inr (ToUpper (hex_encode (Sha384 lib data)))
      else Inl (Msg ''unsupported digest type''))"

definition VerifyDSMatchesDNSKEY :: "trustlib \<Rightarrow> ds_rec \<Rightarrow> key_rec \<Rightarrow> string \<Rightarrow> bool" where
  "VerifyDSMatchesDNSKEY lib ds k zone =
     (if ds_KeyTag ds \<noteq> kr_KeyTag k then False
      else if ds_Algorithm ds \<noteq> kr_Algorithm k then False
      else case ComputeDSDigestFromDNSKEY lib zone k (ds_DigestType ds) of
        Inl _ \<Rightarrow> False | Inr computed \<Rightarrow> EqualFold computed (ds_Digest ds))"

definition SupportedDNSKEYAlgorithm :: "8 word \<Rightarrow> bool" where
  "SupportedDNSKEYAlgorithm alg \<longleftrightarrow>
     alg \<in> {RSASHA1, RSASHA1NSEC3SHA1, RSASHA256, RSASHA512, ECDSAP256SHA256, ECDSAP384SHA384, ED25519}"

definition SupportedDSDigestType :: "8 word \<Rightarrow> bool" where
  "SupportedDSDigestType dt \<longleftrightarrow> dt \<in> {1, 2, 4}"

definition SupportedDSRecords :: "ds_rec list \<Rightarrow> ds_rec list \<times> ds_rec list" where
  "SupportedDSRecords ds =
     List.partition (\<lambda>d. SupportedDNSKEYAlgorithm (ds_Algorithm d) \<and> SupportedDSDigestType (ds_DigestType d)) ds"

definition EligibleKeysByKeyTag :: "16 word \<Rightarrow> key_rec list \<Rightarrow> key_rec list" where
  "EligibleKeysByKeyTag keyTag dnskeys = filter (\<lambda>k. kr_KeyTag k = keyTag \<and> EligibleForVerification k) dnskeys"

definition FindKSKByKeyTag :: "16 word \<Rightarrow> key_rec list \<Rightarrow> key_rec option" where
  "FindKSKByKeyTag keyTag dnskeys = List.find (\<lambda>k. kr_KeyTag k = keyTag \<and> kr_IsKSK k) dnskeys"

definition FindZSKByKeyTag :: "16 word \<Rightarrow> key_rec list \<Rightarrow> key_rec option" where
  "FindZSKByKeyTag keyTag dnskeys = List.find (\<lambda>k. kr_KeyTag k = keyTag \<and> kr_IsZSK k) dnskeys"

definition FindDNSKEYByKeyTag :: "16 word \<Rightarrow> key_rec list \<Rightarrow> key_rec option" where
  "FindDNSKEYByKeyTag keyTag dnskeys = List.find (\<lambda>k. kr_KeyTag k = keyTag) dnskeys"

definition FindDSByKeyTag :: "16 word \<Rightarrow> ds_rec list \<Rightarrow> ds_rec option" where
  "FindDSByKeyTag keyTag dsRecords = List.find (\<lambda>d. ds_KeyTag d = keyTag) dsRecords"

definition FindRRSIGForType :: "16 word \<Rightarrow> rrsig_rec list \<Rightarrow> rrsig_rec option" where
  "FindRRSIGForType rrtype rrsigs = List.find (\<lambda>s. sr_TypeCovered s = rrtype) rrsigs"

definition FindRRSIGsForType :: "16 word \<Rightarrow> rrsig_rec list \<Rightarrow> rrsig_rec list" where
  "FindRRSIGsForType rrtype rrsigs = filter (\<lambda>s. sr_TypeCovered s = rrtype) rrsigs"

definition GetKSKs :: "key_rec list \<Rightarrow> key_rec list" where "GetKSKs dnskeys = filter kr_IsKSK dnskeys"
definition GetZSKs :: "key_rec list \<Rightarrow> key_rec list" where "GetZSKs dnskeys = filter kr_IsZSK dnskeys"

definition ClockSkewTolerance :: duration where "ClockSkewTolerance = 5 * Minute"

definition VerifyRRSIGValid :: "gotime \<Rightarrow> rrsig_rec \<Rightarrow> bool" where
  "VerifyRRSIGValid now s \<longleftrightarrow>
     now > sr_Inception s - ClockSkewTolerance \<and> now < sr_Expiration s + ClockSkewTolerance"

definition rrsigWireTimeValid :: "gotime \<Rightarrow> rrsig \<Rightarrow> bool" where
  "rrsigWireTimeValid now s \<longleftrightarrow>
     now > unix_time (sig_Inception s) - ClockSkewTolerance \<and> now < unix_time (sig_Expiration s) + ClockSkewTolerance"

definition keyBelongsToZone :: "trustlib \<Rightarrow> key_rec \<Rightarrow> string \<Rightarrow> bool" where
  "keyBelongsToZone lib k zone = (if kr_Owner k = [] then True else canonTL lib (kr_Owner k) = canonTL lib zone)"

section \<open>Root anchors\<close>

text \<open>Dates are the results of parsing them; \<open>None\<close> is a date that does not parse.\<close>

record anchor =
  an_KeyTag :: int
  an_Algorithm :: int
  an_DigestType :: int
  an_Digest :: string
  an_ValidFrom :: "gotime option"
  an_ValidUntil :: "gotime option option"

record root_anchors =
  ra_Zone :: string
  ra_Anchors :: "anchor list"
  ra_LoadedFrom :: string

definition pinnedRootAnchors :: "(int \<times> int \<times> int \<times> string) list" where
  "pinnedRootAnchors =
     [(20326, 8, 2, ''E06D44B80B8F1D39A95C0B0D7C65D08458E880409BBC683457104237C7F8EC8D''),
      (38696, 8, 2, ''683D2D0ACB8C9B712A1948B27F741219298D0A450D612C483AF444A4C0FB2B16'')]"

definition IsPinnedRootAnchor :: "anchor \<Rightarrow> bool" where
  "IsPinnedRootAnchor a =
     list_ex (\<lambda>(tag, alg, dt, digest). an_KeyTag a = tag \<and> an_Algorithm a = alg \<and> an_DigestType a = dt \<and>
        EqualFold (an_Digest a) digest) pinnedRootAnchors"

definition hasPinnedRootAnchor :: "anchor list \<Rightarrow> bool" where
  "hasPinnedRootAnchor anchors = list_ex IsPinnedRootAnchor anchors"

definition digestHexLen :: "int \<Rightarrow> nat option" where
  "digestHexLen dt = map_of [(1, 40), (2, 64), (4, 96)] dt"

definition is_hex :: "char \<Rightarrow> bool" where
  "is_hex c \<longleftrightarrow> hex_digit (ascii_lower c) \<noteq> None"

definition validateAnchorStructure :: "anchor \<Rightarrow> error + unit" where
  "validateAnchorStructure a =
     (case digestHexLen (an_DigestType a) of None \<Rightarrow> Inl (Msg ''unsupported digest type'') | Some want \<Rightarrow>
      if length (an_Digest a) \<noteq> want then Inl (Msg ''digest length'')
      else if \<not> list_all is_hex (an_Digest a) then Inl (Msg ''digest is not valid hex'')
      else Inr ())"

definition GetActiveAnchors :: "gotime \<Rightarrow> anchor list \<Rightarrow> anchor list" where
  "GetActiveAnchors now anchors =
     filter (\<lambda>a. (case an_ValidFrom a of None \<Rightarrow> False | Some f \<Rightarrow> \<not> now < f) \<and>
                 (case an_ValidUntil a of None \<Rightarrow> True | Some None \<Rightarrow> False | Some (Some u) \<Rightarrow> \<not> u < now)) anchors"

definition GetActivePinnedAnchors :: "gotime \<Rightarrow> anchor list \<Rightarrow> anchor list" where
  "GetActivePinnedAnchors now anchors = filter IsPinnedRootAnchor (GetActiveAnchors now anchors)"

definition unexpired :: "gotime \<Rightarrow> anchor \<Rightarrow> bool" where
  "unexpired now a \<longleftrightarrow> (case an_ValidUntil a of Some (Some u) \<Rightarrow> u > now | _ \<Rightarrow> True)"

fun unexpired_anchors :: "gotime \<Rightarrow> anchor list \<Rightarrow> error + anchor list" where
  "unexpired_anchors now [] = Inr []"
| "unexpired_anchors now (a # as) =
     (if an_ValidFrom a = None then Inl (Msg ''invalid validFrom'')
      else if an_ValidUntil a = Some None then Inl (Msg ''invalid validUntil'')
      else case unexpired_anchors now as of Inl e \<Rightarrow> Inl e | Inr rest \<Rightarrow>
        Inr (if unexpired now a then a # rest else rest))"

fun distinct_anchors :: "(int \<times> int) set \<Rightarrow> anchor list \<Rightarrow> error + unit" where
  "distinct_anchors seen [] = Inr ()"
| "distinct_anchors seen (a # as) =
     (case validateAnchorStructure a of Inl e \<Rightarrow> Inl e | Inr _ \<Rightarrow>
      if (an_KeyTag a, an_DigestType a) \<in> seen then Inl (Msg ''duplicate anchor'')
      else distinct_anchors (insert (an_KeyTag a, an_DigestType a) seen) as)"

definition finalizeAnchors :: "gotime \<Rightarrow> root_anchors \<Rightarrow> string \<Rightarrow> error + root_anchors" where
  "finalizeAnchors now anchors source =
     (if ra_Zone anchors \<noteq> [] \<and> ra_Zone anchors \<noteq> ''.'' then Inl (Msg ''anchors declare another zone'') else
      case unexpired_anchors now (ra_Anchors anchors) of Inl e \<Rightarrow> Inl e | Inr validAnchors \<Rightarrow>
      case distinct_anchors {} validAnchors of Inl e \<Rightarrow> Inl e | Inr _ \<Rightarrow>
      if validAnchors \<noteq> [] \<and> \<not> hasPinnedRootAnchor validAnchors then Inl (Msg ''no authoritative pinned root KSK'')
      else if GetActivePinnedAnchors now validAnchors = [] then Inl (Msg ''no currently active pinned root anchor'')
      else Inr (anchors\<lparr>ra_Anchors := validAnchors, ra_LoadedFrom := source\<rparr>))"

section \<open>Authenticated keys\<close>

text \<open>
  The loops mark the positions they have collected; the result is in the order in which the
  anchors, or DS records, find the keys.
\<close>

definition collect_round :: "(key_rec \<Rightarrow> bool) \<Rightarrow> key_rec list \<Rightarrow> nat list \<Rightarrow> nat list" where
  "collect_round f keys seen = seen @ filter (\<lambda>i. i \<notin> set seen \<and> f (keys ! i)) [0..<length keys]"

definition ds_accepts :: "trustlib \<Rightarrow> string \<Rightarrow> ds_rec \<Rightarrow> key_rec \<Rightarrow> bool" where
  "ds_accepts lib zone ds k \<longleftrightarrow> kr_KeyTag k = ds_KeyTag ds \<and> keyBelongsToZone lib k zone \<and>
     EligibleForVerification k \<and> VerifyDSMatchesDNSKEY lib ds k zone"

definition CollectDSMatchedKeys :: "trustlib \<Rightarrow> ds_rec list \<Rightarrow> key_rec list \<Rightarrow> string \<Rightarrow> key_rec list" where
  "CollectDSMatchedKeys lib parentDS childDNSKEY zone =
     map ((!) childDNSKEY) (fold (\<lambda>ds. collect_round (ds_accepts lib zone ds) childDNSKEY) parentDS [])"

definition anchor_accepts :: "trustlib \<Rightarrow> anchor \<Rightarrow> key_rec \<Rightarrow> bool" where
  "anchor_accepts lib a k \<longleftrightarrow> kr_KeyTag k = word_of_int (an_KeyTag a) \<and> kr_Algorithm k = word_of_int (an_Algorithm a) \<and>
     keyBelongsToZone lib k ''.'' \<and> EligibleForVerification k \<and>
     (case ComputeDSDigestFromDNSKEY lib ''.'' k (word_of_int (an_DigestType a)) of
        Inl _ \<Rightarrow> False | Inr computed \<Rightarrow> EqualFold computed (an_Digest a))"

definition CollectAnchorMatchedKeys :: "trustlib \<Rightarrow> key_rec list \<Rightarrow> anchor list \<Rightarrow> key_rec list" where
  "CollectAnchorMatchedKeys lib dnskeys anchors =
     map ((!) dnskeys)
       (fold (\<lambda>a seen. if \<not> IsPinnedRootAnchor a then seen else collect_round (anchor_accepts lib a) dnskeys seen) anchors [])"

text \<open>The chain link: the first key that a DS record, or a pinned anchor, matches.\<close>

record chain_link =
  cl_ParentZone :: string
  cl_ChildZone :: string
  cl_ParentDS :: "ds_rec list"
  cl_ChildKSK :: "key_rec option"
  cl_DSMatchesKSK :: bool
  cl_KeyTag :: "16 word"

definition ValidateChainLink :: "trustlib \<Rightarrow> ds_rec list \<Rightarrow> key_rec list \<Rightarrow> string \<Rightarrow> error + chain_link" where
  "ValidateChainLink lib parentDS childDNSKEY zone =
     (if parentDS = [] then Inl (Msg ''no DS records in parent zone'') else
      case List.find (\<lambda>(ds, k). kr_KeyTag k = ds_KeyTag ds \<and> EligibleForVerification k \<and> VerifyDSMatchesDNSKEY lib ds k zone)
             (List.product parentDS childDNSKEY) of
        None \<Rightarrow> Inl (Msg ''no matching DNSKEY found for any DS record'')
      | Some (ds, k) \<Rightarrow> Inr \<lparr>cl_ParentZone = GetParentZone zone, cl_ChildZone = zone, cl_ParentDS = parentDS,
          cl_ChildKSK = Some k, cl_DSMatchesKSK = True, cl_KeyTag = ds_KeyTag ds\<rparr>)"

definition VerifyRootTrustAnchor :: "trustlib \<Rightarrow> key_rec list \<Rightarrow> anchor list \<Rightarrow> error + chain_link" where
  "VerifyRootTrustAnchor lib dnskeys anchors =
     (case List.find (\<lambda>(a, k). IsPinnedRootAnchor a \<and> kr_KeyTag k = word_of_int (an_KeyTag a) \<and>
             kr_Algorithm k = word_of_int (an_Algorithm a) \<and>
             (case ComputeDSDigestFromDNSKEY lib ''.'' k (word_of_int (an_DigestType a)) of
                Inl _ \<Rightarrow> False | Inr computed \<Rightarrow> EqualFold computed (an_Digest a)))
             (List.product anchors dnskeys) of
        None \<Rightarrow> Inl (Msg ''no DNSKEY matches any trust anchor'')
      | Some (a, k) \<Rightarrow> Inr \<lparr>cl_ParentZone = [], cl_ChildZone = ''.'', cl_ParentDS = [], cl_ChildKSK = Some k,
          cl_DSMatchesKSK = True, cl_KeyTag = word_of_int (an_KeyTag a)\<rparr>)"

text \<open>The wildcard an RRSIG's label count points to.\<close>

definition DetectWildcardSynthesis :: "string \<Rightarrow> 8 word \<Rightarrow> string" where
  "DetectWildcardSynthesis ownerName sigLabels =
     (if GetZoneLabels ownerName > unat sigLabels then
        (let labels = split_on (CHR ''.'') (trim_dot (NormalizeDomain ownerName)) in
         if unat sigLabels < length labels
         then ''*.'' @ join_with (CHR ''.'') (drop (length labels - unat sigLabels) labels) @ ''.'' else [])
      else [])"

section \<open>What is collected\<close>

lemma collect_round_set:
  "set (collect_round f keys seen) = set seen \<union> {i. i < length keys \<and> f (keys ! i)}"
  by (auto simp: collect_round_def)

lemma collect_round_distinct: "distinct seen \<Longrightarrow> distinct (collect_round f keys seen)"
  by (auto simp: collect_round_def)

lemma collect_fold:
  "set (fold (\<lambda>x. collect_round (f x) keys) xs seen) = set seen \<union> {i. i < length keys \<and> (\<exists>x \<in> set xs. f x (keys ! i))}"
  "distinct seen \<Longrightarrow> distinct (fold (\<lambda>x. collect_round (f x) keys) xs seen)"
  by (induction xs arbitrary: seen) (auto simp: collect_round_set collect_round_distinct)

lemma collected_keys:
  assumes "set is = {i. i < length keys \<and> P (keys ! i)}"
  shows "k \<in> set (map ((!) keys) is) \<longleftrightarrow> k \<in> set keys \<and> P k"
  using assms by (auto simp: in_set_conv_nth [of k keys])

text \<open>
  A key is authenticated exactly when a DS record of the parent matches it by tag, algorithm
  and digest, and it is an eligible key of the zone; no position is collected twice.
\<close>

theorem CollectDSMatchedKeys_exact:
  "k \<in> set (CollectDSMatchedKeys lib parentDS keys zone) \<longleftrightarrow>
     k \<in> set keys \<and> (\<exists>ds \<in> set parentDS. ds_accepts lib zone ds k)"
  "length (CollectDSMatchedKeys lib parentDS keys zone) \<le> length keys"
proof -
  let ?is = "fold (\<lambda>ds. collect_round (ds_accepts lib zone ds) keys) parentDS []"
  have s: "set ?is = {i. i < length keys \<and> (\<exists>ds \<in> set parentDS. ds_accepts lib zone ds (keys ! i))}"
    by (simp add: collect_fold(1))
  then show "k \<in> set (CollectDSMatchedKeys lib parentDS keys zone) \<longleftrightarrow>
     k \<in> set keys \<and> (\<exists>ds \<in> set parentDS. ds_accepts lib zone ds k)"
    unfolding CollectDSMatchedKeys_def by (rule collected_keys)
  have "distinct ?is" by (rule collect_fold(2)) simp
  then have "length ?is = card (set ?is)" by (simp add: distinct_card)
  also have "\<dots> \<le> card {..<length keys}" by (rule card_mono) (auto simp: s)
  finally show "length (CollectDSMatchedKeys lib parentDS keys zone) \<le> length keys"
    by (simp add: CollectDSMatchedKeys_def)
qed

lemma collect_filter:
  "fold (\<lambda>a seen. if \<not> P a then seen else f a seen) xs s = fold f (filter P xs) s"
  by (induction xs arbitrary: s) simp_all

text \<open>Only a pinned anchor authenticates a root key.\<close>

theorem CollectAnchorMatchedKeys_exact:
  "k \<in> set (CollectAnchorMatchedKeys lib keys anchors) \<longleftrightarrow>
     k \<in> set keys \<and> (\<exists>a \<in> set anchors. IsPinnedRootAnchor a \<and> anchor_accepts lib a k)"
proof -
  let ?is = "fold (\<lambda>a. collect_round (anchor_accepts lib a) keys) (filter IsPinnedRootAnchor anchors) []"
  have "set ?is = {i. i < length keys \<and> (\<exists>a \<in> set (filter IsPinnedRootAnchor anchors). anchor_accepts lib a (keys ! i))}"
    by (simp only: collect_fold(1)) simp
  then show ?thesis unfolding CollectAnchorMatchedKeys_def collect_filter
    by (subst collected_keys) auto
qed

text \<open>
  A loaded anchor document holds a usable pinned anchor and no expired one; anchors are
  distinct by tag and digest type.
\<close>

lemma unexpired_anchors_Inr:
  "unexpired_anchors now as = Inr vs \<Longrightarrow>
     vs = filter (unexpired now) as \<and>
     (\<forall>a \<in> set as. an_ValidFrom a \<noteq> None \<and> an_ValidUntil a \<noteq> Some None)"
  by (induction "as" arbitrary: vs) (auto split: if_splits sum.splits)

lemma distinct_anchors_Inr:
  "distinct_anchors seen vs = Inr u \<Longrightarrow> distinct (map (\<lambda>a. (an_KeyTag a, an_DigestType a)) vs) \<and>
     (\<lambda>a. (an_KeyTag a, an_DigestType a)) ` set vs \<inter> seen = {} \<and> (\<forall>a \<in> set vs. validateAnchorStructure a = Inr ())"
  by (induction vs arbitrary: seen) (auto split: if_splits sum.splits)

theorem finalizeAnchors_usable:
  assumes "finalizeAnchors now anchors source = Inr r"
  shows "\<exists>a \<in> set (ra_Anchors r). a \<in> set (ra_Anchors anchors) \<and> IsPinnedRootAnchor a \<and>
      (\<exists>f. an_ValidFrom a = Some f \<and> f \<le> now) \<and> (\<forall>u. an_ValidUntil a = Some (Some u) \<longrightarrow> now < u)"
    and "distinct (map (\<lambda>a. (an_KeyTag a, an_DigestType a)) (ra_Anchors r))"
    and "\<forall>a \<in> set (ra_Anchors r). a \<in> set (ra_Anchors anchors) \<and> validateAnchorStructure a = Inr ()"
proof -
  obtain vs where vs: "unexpired_anchors now (ra_Anchors anchors) = Inr vs" "distinct_anchors {} vs = Inr ()"
    "GetActivePinnedAnchors now vs \<noteq> []" "r = anchors\<lparr>ra_Anchors := vs, ra_LoadedFrom := source\<rparr>"
    using assms by (auto simp: finalizeAnchors_def split: if_splits sum.splits)
  note u = unexpired_anchors_Inr [OF vs(1)] and d = distinct_anchors_Inr [OF vs(2)]
  obtain a where a: "a \<in> set vs" "IsPinnedRootAnchor a" "case an_ValidFrom a of None \<Rightarrow> False | Some f \<Rightarrow> \<not> now < f"
    using vs(3) by (auto simp: GetActivePinnedAnchors_def GetActiveAnchors_def filter_empty_conv)
  then have "\<exists>f. an_ValidFrom a = Some f \<and> f \<le> now" by (auto split: option.splits)
  moreover have "now < t" if "an_ValidUntil a = Some (Some t)" for t using that a(1) u by (auto simp: unexpired_def)
  ultimately show "\<exists>a \<in> set (ra_Anchors r). a \<in> set (ra_Anchors anchors) \<and> IsPinnedRootAnchor a \<and>
      (\<exists>f. an_ValidFrom a = Some f \<and> f \<le> now) \<and> (\<forall>u. an_ValidUntil a = Some (Some u) \<longrightarrow> now < u)"
    using a vs(4) u by (intro bexI [of _ a]) auto
  show "distinct (map (\<lambda>a. (an_KeyTag a, an_DigestType a)) (ra_Anchors r))" using d vs(4) by simp
  show "\<forall>a \<in> set (ra_Anchors r). a \<in> set (ra_Anchors anchors) \<and> validateAnchorStructure a = Inr ()"
    using d u vs(4) by auto
qed

end
