(* ===== verification/Verify_Engine.thy ===== *)
theory Verify_Engine
  imports Trust_Keys
begin

text \<open>
  The signature engine of the validator
  (\<open>validator/internal/validator/{budget,authenticated}.go\<close>): the work budget of one
  validation and the verification of an RRset of a response under trusted keys.

  The budget is shared state; the clock and the cancellation of the request are answers the
  environment gives, one per look. Requests share nothing, and the looks of one request are
  taken one after another. The world also counts the cryptographic checks, the servers dialled
  and the deepest alias reached, which nothing reads: they are what theorems speak about.
\<close>

section \<open>The budget\<close>

record budget =
  bu_limit :: int
  bu_spent :: int
  bu_exhausted :: bool

record vworld =
  vw_budget :: "budget option"
  vw_cancelled :: "nat \<Rightarrow> bool"
  vw_looks :: nat
  vw_clock :: "nat \<Rightarrow> gotime"
  vw_ticks :: nat
  vw_verifies :: nat
  vw_dials :: "string list"
  vw_depth :: nat

definition DefaultVerificationBudget :: int where "DefaultVerificationBudget = 2000"

definition newVerifyBudget :: "int \<Rightarrow> budget" where
  "newVerifyBudget limit = \<lparr>bu_limit = limit, bu_spent = 0, bu_exhausted = False\<rparr>"

definition budgetExhaustedMessage :: string where
  "budgetExhaustedMessage = ''verification work budget exhausted''"

definition ErrVerificationBudgetExhausted :: error where
  "ErrVerificationBudgetExhausted = Msg budgetExhaustedMessage"

definition charge :: "int \<Rightarrow> (vworld, unit) op" where
  "charge n = (\<lambda>w. case vw_budget w of None \<Rightarrow> (Inr (), w) | Some b \<Rightarrow>
     let w' = w\<lparr>vw_looks := Suc (vw_looks w)\<rparr> in
     if vw_cancelled w (vw_looks w) then
       (Inl (Wrap ''validation cancelled'' ErrVerificationBudgetExhausted), w'\<lparr>vw_budget := Some (b\<lparr>bu_exhausted := True\<rparr>)\<rparr>)
     else if bu_exhausted b then (Inl ErrVerificationBudgetExhausted, w')
     else let b' = b\<lparr>bu_spent := bu_spent b + n\<rparr> in
       if bu_spent b' > bu_limit b then
         (Inl ErrVerificationBudgetExhausted, w'\<lparr>vw_budget := Some (b'\<lparr>bu_exhausted := True\<rparr>)\<rparr>)
       else (Inr (), w'\<lparr>vw_budget := Some b'\<rparr>))"

definition Spent :: "budget option \<Rightarrow> int" where
  "Spent b = (case b of None \<Rightarrow> 0 | Some b \<Rightarrow> bu_spent b)"

definition contains_text :: "string \<Rightarrow> string \<Rightarrow> bool" where
  "contains_text s sub = list_ex (\<lambda>i. take (length sub) (drop i s) = sub) [0..<Suc (length s)]"

definition isBudgetExhaustedText :: "string \<Rightarrow> bool" where
  "isBudgetExhaustedText msg = contains_text msg budgetExhaustedMessage"

text \<open>The test on an error: on the errors it wraps and on the text of each.\<close>

fun IsBudgetExhausted :: "error \<Rightarrow> bool" where
  "IsBudgetExhausted (Msg s) = isBudgetExhaustedText s"
| "IsBudgetExhausted (Wrap s e) = (isBudgetExhaustedText s \<or> IsBudgetExhausted e)"
| "IsBudgetExhausted (ErrLiveUnverifiable e) = IsBudgetExhausted e"
| "IsBudgetExhausted _ = False"

definition time_now :: "(vworld, gotime) op" where
  "time_now = (\<lambda>w. (Inr (vw_clock w (vw_ticks w)), w\<lparr>vw_ticks := Suc (vw_ticks w)\<rparr>))"

text \<open>One call of the cryptographic check; the world counts them.\<close>

definition run_Verify :: "trustlib \<Rightarrow> rrsig \<Rightarrow> dnskey \<Rightarrow> rr list \<Rightarrow> (vworld, bool) op" where
  "run_Verify lib sig k rrset = op_bind (op_upd (\<lambda>w. w\<lparr>vw_verifies := Suc (vw_verifies w)\<rparr>))
     (\<lambda>_. op_ok (VerifySig lib sig k rrset))"

section \<open>One RRset\<close>

record verified_rrset =
  vr_Owner :: string
  vr_Type :: "16 word"
  vr_Records :: "rr list"
  vr_Signature :: rrsig
  vr_Key :: key_rec

definition reconstructDNSKEY :: "trustlib \<Rightarrow> string \<Rightarrow> key_rec \<Rightarrow> dnskey" where
  "reconstructDNSKEY lib zone r =
     \<lparr>dk_Name = Fqdn (klib (tnlib lib)) zone, dk_Flags = kr_Flags r, dk_Protocol = kr_Protocol r,
      dk_Algorithm = kr_Algorithm r, dk_PublicKey = kr_PublicKey r\<rparr>"

definition trustedKeyForSigner :: "trustlib \<Rightarrow> key_rec \<Rightarrow> string \<Rightarrow> error + dnskey" where
  "trustedKeyForSigner lib k signerName =
     (if kr_Owner k \<noteq> [] then
        if canonTL lib (kr_Owner k) \<noteq> canonTL lib signerName then Inl (Msg ''trusted key belongs to another zone'')
        else Inr (reconstructDNSKEY lib (kr_Owner k) k)
      else Inr (reconstructDNSKEY lib signerName k))"

text \<open>Keeping the first of the elements with the same identity.\<close>

fun dedupe :: "('a \<Rightarrow> 'b) \<Rightarrow> 'b set \<Rightarrow> 'a list \<Rightarrow> 'a list" where
  "dedupe f seen [] = []"
| "dedupe f seen (x # xs) = (if f x \<in> seen then dedupe f seen xs else x # dedupe f (insert (f x) seen) xs)"

definition show_word :: "'a::len word \<Rightarrow> string" where
  "show_word w = show_nat (unat w)"

definition key_id :: "trustlib \<Rightarrow> key_rec \<Rightarrow> string" where
  "key_id lib k = canonTL lib (kr_Owner k) @ ''/'' @ show_word (kr_Flags k) @ ''/'' @ show_word (kr_Protocol k) @ ''/'' @
     show_word (kr_Algorithm k) @ ''/'' @ kr_PublicKey k"

definition dedupeKeys :: "trustlib \<Rightarrow> key_rec list \<Rightarrow> key_rec list" where
  "dedupeKeys lib keys = dedupe (key_id lib) {} keys"

definition sig_id :: "trustlib \<Rightarrow> rrsig \<Rightarrow> string" where
  "sig_id lib v = canonTL lib (h_Name (sig_Hdr v)) @ ''/'' @ canonTL lib (sig_SignerName v) @ ''/'' @
     show_word (sig_KeyTag v) @ '' '' @ show_word (sig_Labels v) @ '' '' @ show_word (sig_Inception v) @ '' '' @
     show_word (sig_Expiration v) @ ''/'' @ sig_Signature v"

fun covering_sigs :: "16 word \<Rightarrow> rr list \<Rightarrow> rrsig list" where
  "covering_sigs t [] = []"
| "covering_sigs t (rr # rs) = (case rr of
     RRSIG s \<Rightarrow> (if sig_TypeCovered s = t then s # covering_sigs t rs else covering_sigs t rs)
   | _ \<Rightarrow> covering_sigs t rs)"

definition candidates :: "trustlib \<Rightarrow> 16 word \<Rightarrow> rr list \<Rightarrow> rrsig list" where
  "candidates lib t scan = dedupe (sig_id lib) {} (covering_sigs t scan)"

definition is_RRSIG :: "rr \<Rightarrow> bool" where
  "is_RRSIG rr = (case rr of RRSIG _ \<Rightarrow> True | _ \<Rightarrow> False)"

text \<open>The entry of \<open>rrsetByOwner\<close> for an owner.\<close>

definition rrset_at :: "trustlib \<Rightarrow> 16 word \<Rightarrow> rr list \<Rightarrow> string \<Rightarrow> rr list" where
  "rrset_at lib t scan own = filter (\<lambda>rr. \<not> is_RRSIG rr \<and> Rrtype rr = t \<and> canonTL lib (owner rr) = own) scan"

text \<open>The keys of one candidate: the key that verified, or the last error.\<close>

primrec try_keys ::
  "trustlib \<Rightarrow> rrsig \<Rightarrow> rr list \<Rightarrow> error option \<Rightarrow> key_rec list \<Rightarrow> (vworld, error option + key_rec) op" where
  "try_keys lib sig rrset lastErr [] = op_ok (Inl lastErr)"
| "try_keys lib sig rrset lastErr (ck # cks) =
     (if kr_Algorithm ck \<noteq> sig_Algorithm sig then try_keys lib sig rrset (Some (Msg ''RRSIG algorithm does not match'')) cks
      else case trustedKeyForSigner lib ck (sig_SignerName sig) of
        Inl e \<Rightarrow> try_keys lib sig rrset (Some e) cks
      | Inr signingKey \<Rightarrow>
          op_bind (charge 1) (\<lambda>_. op_bind (run_Verify lib sig signingKey rrset) (\<lambda>good.
          if good then op_ok (Inr ck)
          else try_keys lib sig rrset (Some (Msg ''cryptographic RRset verification failed'')) cks)))"

primrec try_sigs ::
  "trustlib \<Rightarrow> 16 word \<Rightarrow> rr list \<Rightarrow> key_rec list \<Rightarrow> string \<Rightarrow> string \<Rightarrow> error option \<Rightarrow> rrsig list \<Rightarrow>
     (vworld, verified_rrset) op" where
  "try_sigs lib t scan keys wantOwner wantSigner lastErr [] =
     op_fail (case lastErr of Some e \<Rightarrow> e | None \<Rightarrow> Msg ''no verifiable RRSIG candidate'')"
| "try_sigs lib t scan keys wantOwner wantSigner lastErr (sig # sigs) =
     (let continue = (\<lambda>e. try_sigs lib t scan keys wantOwner wantSigner e sigs);
          own = canonTL lib (h_Name (sig_Hdr sig)) in
      if wantOwner \<noteq> [] \<and> own \<noteq> wantOwner then continue (Some (Msg ''RRSIG owner does not match''))
      else if wantSigner \<noteq> [] \<and> canonTL lib (sig_SignerName sig) \<noteq> wantSigner
        then continue (Some (Msg ''RRSIG signer is not the expected signing zone'')) else
      let rrset = rrset_at lib t scan own in
      if rrset = [] then continue (Some (Msg ''no RRset found for owner'')) else
      op_bind time_now (\<lambda>now.
      if \<not> rrsigWireTimeValid now sig then continue (Some (Msg ''RRSIG outside its validity period'')) else
      let cands = EligibleKeysByKeyTag (sig_KeyTag sig) keys in
      if cands = [] then continue (Some (Msg ''no eligible trusted key'')) else
      op_bind (try_keys lib sig rrset lastErr cands) (\<lambda>r. case r of
        Inl e \<Rightarrow> continue e
      | Inr ck \<Rightarrow> op_ok \<lparr>vr_Owner = own, vr_Type = t, vr_Records = rrset, vr_Signature = sig, vr_Key = ck\<rparr>)))"

definition want_name :: "trustlib \<Rightarrow> string \<Rightarrow> string" where
  "want_name lib n = (if n = [] then [] else canonTL lib n)"

definition verifyRRsetInRecords ::
  "trustlib \<Rightarrow> rr list \<Rightarrow> 16 word \<Rightarrow> key_rec list \<Rightarrow> string \<Rightarrow> string \<Rightarrow> (vworld, verified_rrset) op" where
  "verifyRRsetInRecords lib scan t keys expectedOwner expectedSigner =
     (let cands = candidates lib t scan in
      if cands = [] then op_fail (Msg ''no RRSIG found in response'')
      else try_sigs lib t scan (dedupeKeys lib keys) (want_name lib expectedOwner) (want_name lib expectedSigner) None cands)"

record message =
  msg_Answer :: "rr list"
  msg_Ns :: "rr list"
  msg_Extra :: "rr list"

text \<open>\<open>unpack\<close> is \<open>dns.Msg.Unpack\<close>.\<close>

definition verifyRRsetFromResponseB ::
  "trustlib \<Rightarrow> (bytes \<Rightarrow> message option) \<Rightarrow> bytes \<Rightarrow> 16 word \<Rightarrow> key_rec list \<Rightarrow> string \<Rightarrow> string \<Rightarrow> bool \<Rightarrow>
     (vworld, verified_rrset) op" where
  "verifyRRsetFromResponseB lib unpack rawResponse t keys expectedOwner expectedSigner answerOnly =
     (if rawResponse = [] then op_fail (Msg ''raw DNS response unavailable'') else
      case unpack rawResponse of None \<Rightarrow> op_fail (Msg ''failed to unpack DNS response'') | Some msg \<Rightarrow>
      verifyRRsetInRecords lib (if answerOnly then msg_Answer msg else msg_Answer msg @ msg_Ns msg @ msg_Extra msg)
        t keys expectedOwner expectedSigner)"

definition verifyDNSKEYRRsetFromResponseB ::
  "trustlib \<Rightarrow> (bytes \<Rightarrow> message option) \<Rightarrow> bytes \<Rightarrow> string \<Rightarrow> key_rec list \<Rightarrow> (vworld, verified_rrset) op" where
  "verifyDNSKEYRRsetFromResponseB lib unpack rawResponse zone authenticatedKeys =
     (if authenticatedKeys = [] then op_fail (Msg ''no parent-authenticated key available'')
      else verifyRRsetFromResponseB lib unpack rawResponse TypeDNSKEY authenticatedKeys zone zone True)"

section \<open>The denial records of a response\<close>

fun owners_in_order :: "trustlib \<Rightarrow> 16 word \<Rightarrow> string list \<Rightarrow> rr list \<Rightarrow> string list" where
  "owners_in_order lib t order [] = order"
| "owners_in_order lib t order (rr # rs) =
     (let own = canonTL lib (owner rr) in
      if \<not> is_RRSIG rr \<and> Rrtype rr = t \<and> own \<notin> set order then owners_in_order lib t (order @ [own]) rs
      else owners_in_order lib t order rs)"

definition sigs_at :: "trustlib \<Rightarrow> 16 word \<Rightarrow> rr list \<Rightarrow> string \<Rightarrow> rrsig list" where
  "sigs_at lib t scan own = filter (\<lambda>s. canonTL lib (h_Name (sig_Hdr s)) = own) (covering_sigs t scan)"

primrec verify_owners ::
  "trustlib \<Rightarrow> 16 word \<Rightarrow> rr list \<Rightarrow> key_rec list \<Rightarrow> string \<Rightarrow> verified_rrset list \<Rightarrow> string list \<Rightarrow> string list \<Rightarrow>
     (vworld, verified_rrset list \<times> string list) op" where
  "verify_owners lib t scan keys zone verified rejected [] = op_ok (verified, rejected)"
| "verify_owners lib t scan keys zone verified rejected (own # order) =
     (let reject = (\<lambda>why. verify_owners lib t scan keys zone verified (rejected @ [why]) order);
          rrset = rrset_at lib t scan own; sigs = sigs_at lib t scan own in
      if sigs = [] then reject ''RRset has no RRSIG''
      else if zone \<noteq> [] \<and> \<not> IsSubDomain (vlib lib) (canonTL lib zone) own then reject ''RRset is not within the zone''
      else op_try (verifyRRsetInRecords lib (rrset @ map RRSIG sigs) t keys own zone) (\<lambda>r. case r of
        Inl e \<Rightarrow> if IsBudgetExhausted e then op_fail e else reject ''RRset does not verify''
      | Inr v \<Rightarrow> verify_owners lib t scan keys zone (verified @ [v]) rejected order))"

definition verifyDenialRRsetsFromResponseB ::
  "trustlib \<Rightarrow> (bytes \<Rightarrow> message option) \<Rightarrow> bytes \<Rightarrow> 16 word \<Rightarrow> key_rec list \<Rightarrow> string \<Rightarrow>
     (vworld, verified_rrset list \<times> string list) op" where
  "verifyDenialRRsetsFromResponseB lib unpack rawResponse t keys expectedSigner =
     (if rawResponse = [] then op_fail (Msg ''raw DNS response unavailable'') else
      case unpack rawResponse of None \<Rightarrow> op_fail (Msg ''failed to unpack DNS response'') | Some msg \<Rightarrow>
      let scan = msg_Answer msg @ msg_Ns msg; order = owners_in_order lib t [] scan in
      if order = [] then op_fail (Msg ''no records found in the Answer or Authority section'') else
      op_bind (verify_owners lib t scan keys expectedSigner [] [] order) (\<lambda>(verified, rejected).
      if verified = [] then op_fail (Msg ''no RRset verified'') else op_ok (verified, rejected)))"

definition nsecRecordsFromVerified :: "trustlib \<Rightarrow> verified_rrset list \<Rightarrow> nsec_rec list" where
  "nsecRecordsFromVerified lib verified =
     concat (map (\<lambda>v. concat (map (\<lambda>rr. case rr of NSEC n \<Rightarrow> [NSECFromRR (vlib lib) n ''authority''] | _ \<Rightarrow> [])
       (vr_Records v))) verified)"

definition nsec3RecordsFromVerified :: "trustlib \<Rightarrow> verified_rrset list \<Rightarrow> nsec3_rec list" where
  "nsec3RecordsFromVerified lib verified =
     concat (map (\<lambda>v. concat (map (\<lambda>rr. case rr of NSEC3 n \<Rightarrow> [NSEC3FromRR (vlib lib) n ''authority''] | _ \<Rightarrow> [])
       (vr_Records v))) verified)"

definition dsRecordsFromVerified :: "trustlib \<Rightarrow> verified_rrset \<Rightarrow> ds_rec list" where
  "dsRecordsFromVerified lib v =
     concat (map (\<lambda>rr. case rr of OtherRR h d \<Rightarrow> if h_Rrtype h = TypeDS then [DSFromRR lib h d ''answer''] else [] | _ \<Rightarrow> [])
       (vr_Records v))"

text \<open>Denial proofs over the records whose signatures verified.\<close>

definition start_proof :: "string \<Rightarrow> int \<Rightarrow> nsec_proof" where
  "start_proof kind rcode = (NSECProof kind)\<lparr>pf_ResponseType := (if rcode = 3 then ''NXDOMAIN'' else ''NODATA'')\<rparr>"

definition verifyNSECDenialWithRRSIGB ::
  "trustlib \<Rightarrow> (bytes \<Rightarrow> message option) \<Rightarrow> string \<Rightarrow> 16 word \<Rightarrow> nsec_rec list \<Rightarrow> key_rec list \<Rightarrow> string \<Rightarrow> bytes \<Rightarrow> int \<Rightarrow>
     vworld \<Rightarrow> nsec_proof \<times> vworld" where
  "verifyNSECDenialWithRRSIGB lib unpack qname qtype nsecRecords dnskeys zone rawResponse rcode w =
     (let proof = start_proof ''NSEC'' rcode; failed = (\<lambda>e. proof\<lparr>pf_Error := Some e\<rparr>) in
      if nsecRecords = [] then (failed (Msg ''no NSEC records in response''), w) else
      case qnameWithinZone (vlib lib) qname zone of Inl e \<Rightarrow> (failed e, w) | Inr _ \<Rightarrow>
      case verifyDenialRRsetsFromResponseB lib unpack rawResponse TypeNSEC dnskeys zone w of
        (Inl e, w') \<Rightarrow> (failed (Wrap ''NSEC RRSIG cryptographic verification failed'' e), w')
      | (Inr (verified, rejected), w') \<Rightarrow>
          case VerifyNSECDenial (vlib lib) qname qtype (nsecRecordsFromVerified lib verified) rcode of
            Inl e \<Rightarrow> (failed e, w')
          | Inr basic \<Rightarrow> ((adopt basic proof)\<lparr>pf_Verified := True\<rparr>, w'))"

definition verifyNSEC3DenialWithRRSIGB ::
  "trustlib \<Rightarrow> (bytes \<Rightarrow> message option) \<Rightarrow> string \<Rightarrow> 16 word \<Rightarrow> nsec3_rec list \<Rightarrow> key_rec list \<Rightarrow> string \<Rightarrow> bytes \<Rightarrow> int \<Rightarrow>
     vworld \<Rightarrow> nsec_proof \<times> vworld" where
  "verifyNSEC3DenialWithRRSIGB lib unpack qname qtype nsec3Records dnskeys zone rawResponse rcode w =
     (let proof = start_proof ''NSEC3'' rcode; failed = (\<lambda>e. proof\<lparr>pf_Error := Some e\<rparr>) in
      if nsec3Records = [] then (failed (Msg ''no NSEC3 records in response''), w)
      else if nsec3IterationsOverCap nsec3Records \<noteq> None then (failed (Msg ''NSEC3 iterations exceed the cap''), w) else
      case qnameWithinZone (vlib lib) qname zone of Inl e \<Rightarrow> (failed e, w) | Inr _ \<Rightarrow>
      case verifyDenialRRsetsFromResponseB lib unpack rawResponse TypeNSEC3 dnskeys zone w of
        (Inl e, w') \<Rightarrow> (failed (Wrap ''NSEC3 RRSIG cryptographic verification failed'' e), w')
      | (Inr (verified, rejected), w') \<Rightarrow>
          case VerifyNSEC3Denial (vlib lib) qname qtype (nsec3RecordsFromVerified lib verified) rcode of
            Inl e \<Rightarrow> (failed e, w')
          | Inr basic \<Rightarrow> ((adopt basic proof)\<lparr>pf_Verified := True\<rparr>, w'))"

section \<open>Records of the Answer section\<close>

definition answerHasTypeAt :: "trustlib \<Rightarrow> (bytes \<Rightarrow> message option) \<Rightarrow> bytes \<Rightarrow> 16 word \<Rightarrow> string \<Rightarrow> bool" where
  "answerHasTypeAt lib unpack rawResponse qtype own =
     (if rawResponse = [] then False else case unpack rawResponse of None \<Rightarrow> False | Some msg \<Rightarrow>
      list_ex (\<lambda>rr. Rrtype rr = qtype \<and> canonTL lib (owner rr) = canonTL lib own) (msg_Answer msg))"

definition owned_answer :: "trustlib \<Rightarrow> string \<Rightarrow> string \<Rightarrow> string \<Rightarrow> bool" where
  "owned_answer lib want sect own \<longleftrightarrow> InSection sect [''answer''] \<and> \<not> (own \<noteq> [] \<and> canonTL lib own \<noteq> canonTL lib want)"

definition answerDNSKEYsOwnedBy :: "trustlib \<Rightarrow> key_rec list \<Rightarrow> string \<Rightarrow> key_rec list" where
  "answerDNSKEYsOwnedBy lib keys zone = filter (\<lambda>k. owned_answer lib zone (kr_Section k) (kr_Owner k)) keys"

definition answerDSOwnedBy :: "trustlib \<Rightarrow> ds_rec list \<Rightarrow> string \<Rightarrow> ds_rec list" where
  "answerDSOwnedBy lib ds child = filter (\<lambda>d. owned_answer lib child (ds_Section d) (ds_Owner d)) ds"

definition answerRRSIGsOwnedBy :: "trustlib \<Rightarrow> rrsig_rec list \<Rightarrow> string \<Rightarrow> rrsig_rec list" where
  "answerRRSIGsOwnedBy lib sigs own = filter (\<lambda>s. owned_answer lib own (sr_Section s) (sr_Owner s)) sigs"

definition denialNSECCandidates :: "nsec_rec list \<Rightarrow> nsec_rec list" where
  "denialNSECCandidates records = filter (\<lambda>r. InSection (nr_Section r) [''authority'', ''answer'']) records"

definition denialNSEC3Candidates :: "nsec3_rec list \<Rightarrow> nsec3_rec list" where
  "denialNSEC3Candidates records = filter (\<lambda>r. InSection (n3r_Section r) [''authority'', ''answer'']) records"

end
