(* ===== verification/Verify_Laws.thy ===== *)
theory Verify_Laws
  imports Verify_Engine Denial_Hashed
begin

text \<open>
  What the signature engine guarantees: an RRset it returns was verified by an eligible,
  trusted key of the signer, under a signature valid at the time of the check; the number of
  cryptographic checks stays within the budget; one good signature is enough, whatever else
  the response carries; and a denial proof reported as verified is true of the zone.
\<close>

section \<open>The budget\<close>

text \<open>
  The checks made so far are paid for, and never exceed the limit. An exhausted budget stays
  exhausted and allows no further check.
\<close>

definition within_budget :: "vworld \<Rightarrow> bool" where
  "within_budget w \<longleftrightarrow> (\<forall>b. vw_budget w = Some b \<longrightarrow>
     int (vw_verifies w) \<le> bu_spent b \<and> int (vw_verifies w) \<le> max 0 (bu_limit b))"

definition charge_step :: "vworld \<Rightarrow> vworld \<Rightarrow> bool" where
  "charge_step w w' \<longleftrightarrow> (within_budget w \<longrightarrow> within_budget w') \<and> vw_clock w' = vw_clock w \<and>
     vw_depth w' = vw_depth w \<and> vw_cancelled w' = vw_cancelled w \<and> map_option bu_limit (vw_budget w') = map_option bu_limit (vw_budget w) \<and>
     (map_option bu_exhausted (vw_budget w) = Some True \<longrightarrow>
        map_option bu_exhausted (vw_budget w') = Some True \<and> vw_verifies w' = vw_verifies w)"

text \<open>A step of the engine dials no server.\<close>

definition budget_step :: "vworld \<Rightarrow> vworld \<Rightarrow> bool" where
  "budget_step w w' \<longleftrightarrow> charge_step w w' \<and> vw_dials w' = vw_dials w"

interpretation engine: keep_relation budget_step
  by unfold_locales (auto simp: budget_step_def charge_step_def)

lemma keeps_time_now: "keeps budget_step time_now"
  by (auto simp: keeps_def time_now_def budget_step_def charge_step_def within_budget_def)

lemma keeps_checked: "keeps budget_step (op_bind (charge 1) (\<lambda>_. run_Verify lib sig k rrset))"
proof (rule keepsI)
  fix w
  show "budget_step w (snd (op_bind (charge 1) (\<lambda>_. run_Verify lib sig k rrset) w))"
  proof (cases "vw_budget w")
    case None
    then show ?thesis
      by (simp add: budget_step_def charge_step_def within_budget_def charge_def run_Verify_def op_bind_apply)
  next
    case (Some b)
    then show ?thesis
      by (auto simp: budget_step_def charge_step_def within_budget_def charge_def run_Verify_def op_bind_apply Let_def)
  qed
qed

lemma keeps_check_then:
  assumes "\<And>good. keeps budget_step (f good)"
  shows "keeps budget_step (op_bind (charge 1) (\<lambda>_. op_bind (run_Verify lib sig k rrset) f))"
  using engine.keeps_bind [OF keeps_checked assms] by (simp add: op_bind_assoc)

lemma keeps_try_keys: "keeps budget_step (try_keys lib sig rrset e cks)"
proof (induction cks arbitrary: e)
  case (Cons ck cks)
  show ?case
  proof (cases "trustedKeyForSigner lib ck (sig_SignerName sig)")
    case (Inl e')
    then show ?thesis using Cons by simp
  next
    case (Inr k)
    then show ?thesis using Cons by (simp add: keeps_check_then engine.keeps_ok)
  qed
qed (simp add: engine.keeps_ok)

lemma keeps_try_sigs: "keeps budget_step (try_sigs lib t scan keys wo ws e sigs)"
proof (induction sigs arbitrary: e)
  case (Cons sig sigs)
  then show ?case
    by (auto simp: Let_def intro!: engine.keeps_bind keeps_time_now keeps_try_keys engine.keeps_ok split: sum.splits)
qed (simp add: engine.keeps_fail)

lemma keeps_verifyRRsetInRecords: "keeps budget_step (verifyRRsetInRecords lib scan t keys eo es)"
  by (simp add: verifyRRsetInRecords_def Let_def keeps_try_sigs engine.keeps_fail)

lemma keeps_verify_owners: "keeps budget_step (verify_owners lib t scan keys zone v rej order)"
proof (induction order arbitrary: v rej)
  case (Cons own order)
  then show ?case
    by (auto simp: Let_def intro!: engine.keeps_try keeps_verifyRRsetInRecords engine.keeps_fail split: sum.splits)
qed (simp add: engine.keeps_ok)

theorem keeps_verifyDenialRRsets:
  "keeps budget_step (verifyDenialRRsetsFromResponseB lib unpack raw t keys zone)"
  by (auto simp: verifyDenialRRsetsFromResponseB_def Let_def
      intro!: engine.keeps_bind keeps_verify_owners engine.keeps_fail engine.keeps_ok split: option.splits)

theorem keeps_verifyRRsetFromResponse:
  "keeps budget_step (verifyRRsetFromResponseB lib unpack raw t keys eo es ao)"
  by (auto simp: verifyRRsetFromResponseB_def intro!: keeps_verifyRRsetInRecords engine.keeps_fail split: option.splits)

section \<open>A returned RRset is authentic\<close>

definition signing_key :: "trustlib \<Rightarrow> key_rec \<Rightarrow> rrsig \<Rightarrow> dnskey" where
  "signing_key lib k sig = reconstructDNSKEY lib (if kr_Owner k = [] then sig_SignerName sig else kr_Owner k) k"

text \<open>One signature, one key, one RRset: every condition holds of the same three.\<close>

definition key_checks :: "trustlib \<Rightarrow> key_rec \<Rightarrow> rrsig \<Rightarrow> rr list \<Rightarrow> bool" where
  "key_checks lib k sig rrset \<longleftrightarrow> EligibleForVerification k \<and> kr_KeyTag k = sig_KeyTag sig \<and>
     kr_Algorithm k = sig_Algorithm sig \<and> (kr_Owner k \<noteq> [] \<longrightarrow> canonTL lib (kr_Owner k) = canonTL lib (sig_SignerName sig)) \<and>
     VerifySig lib sig (signing_key lib k sig) rrset"

definition sig_checks :: "trustlib \<Rightarrow> string \<Rightarrow> string \<Rightarrow> rrsig \<Rightarrow> bool" where
  "sig_checks lib wantOwner wantSigner sig \<longleftrightarrow>
     (wantOwner \<noteq> [] \<longrightarrow> canonTL lib (h_Name (sig_Hdr sig)) = wantOwner) \<and>
     (wantSigner \<noteq> [] \<longrightarrow> canonTL lib (sig_SignerName sig) = wantSigner)"

definition authentic ::
  "trustlib \<Rightarrow> 16 word \<Rightarrow> rr list \<Rightarrow> key_rec list \<Rightarrow> string \<Rightarrow> string \<Rightarrow> (nat \<Rightarrow> gotime) \<Rightarrow> verified_rrset \<Rightarrow> bool" where
  "authentic lib t scan keys wantOwner wantSigner clk v \<longleftrightarrow>
     (let sig = vr_Signature v in
      RRSIG sig \<in> set scan \<and> sig_TypeCovered sig = t \<and> vr_Type v = t \<and>
      vr_Owner v = canonTL lib (h_Name (sig_Hdr sig)) \<and>
      vr_Records v = rrset_at lib t scan (vr_Owner v) \<and> vr_Records v \<noteq> [] \<and>
      sig_checks lib wantOwner wantSigner sig \<and> (\<exists>n. rrsigWireTimeValid (clk n) sig) \<and>
      vr_Key v \<in> set keys \<and> key_checks lib (vr_Key v) sig (vr_Records v))"

lemma trustedKeyForSigner_Inr:
  "trustedKeyForSigner lib k (sig_SignerName sig) = Inr d \<longleftrightarrow>
     (kr_Owner k \<noteq> [] \<longrightarrow> canonTL lib (kr_Owner k) = canonTL lib (sig_SignerName sig)) \<and> d = signing_key lib k sig"
  by (auto simp: trustedKeyForSigner_def signing_key_def)

lemma try_keys_found:
  assumes "try_keys lib sig rrset e cks w = (Inr (Inr ck), w')"
  shows "ck \<in> set cks \<and> kr_Algorithm ck = sig_Algorithm sig \<and>
    (kr_Owner ck \<noteq> [] \<longrightarrow> canonTL lib (kr_Owner ck) = canonTL lib (sig_SignerName sig)) \<and>
    VerifySig lib sig (signing_key lib ck sig) rrset"
  using assms
proof (induction cks arbitrary: e w)
  case (Cons k cks)
  show ?case
  proof (cases "kr_Algorithm k \<noteq> sig_Algorithm sig")
    case True
    then show ?thesis using Cons by auto
  next
    case alg: False
    show ?thesis
    proof (cases "trustedKeyForSigner lib k (sig_SignerName sig)")
      case (Inl e')
      then show ?thesis using Cons alg by auto
    next
      case (Inr d)
      obtain w1 where "(if VerifySig lib sig d rrset then op_ok (Inr k)
          else try_keys lib sig rrset (Some (Msg ''cryptographic RRset verification failed'')) cks) w1 = (Inr (Inr ck), w')"
        using Cons.prems alg Inr by (auto simp: op_bind_Inr run_Verify_def)
      then show ?thesis using Cons.IH alg Inr trustedKeyForSigner_Inr [of lib k sig d]
        by (auto split: if_splits)
    qed
  qed
qed simp

lemma covering_sigs_mem: "s \<in> set (covering_sigs t scan) \<longleftrightarrow> RRSIG s \<in> set scan \<and> sig_TypeCovered s = t"
  by (induction scan) (auto split: rr.splits)

lemma dedupe_subset: "set (dedupe f seen xs) \<subseteq> set xs"
  by (induction xs arbitrary: seen) auto

text \<open>The step for a candidate that passes the checks on its names.\<close>

lemma try_sigs_checked:
  assumes "sig_checks lib wo ws sig" and "rrset_at lib t scan (canonTL lib (h_Name (sig_Hdr sig))) \<noteq> []"
  shows "try_sigs lib t scan keys wo ws e (sig # sigs) w =
    (if \<not> rrsigWireTimeValid (vw_clock w (vw_ticks w)) sig
     then try_sigs lib t scan keys wo ws (Some (Msg ''RRSIG outside its validity period'')) sigs else
     if EligibleKeysByKeyTag (sig_KeyTag sig) keys = []
     then try_sigs lib t scan keys wo ws (Some (Msg ''no eligible trusted key'')) sigs else
     op_bind (try_keys lib sig (rrset_at lib t scan (canonTL lib (h_Name (sig_Hdr sig)))) e (EligibleKeysByKeyTag (sig_KeyTag sig) keys))
       (\<lambda>r. case r of Inl e \<Rightarrow> try_sigs lib t scan keys wo ws e sigs
        | Inr ck \<Rightarrow> op_ok \<lparr>vr_Owner = canonTL lib (h_Name (sig_Hdr sig)), vr_Type = t,
            vr_Records = rrset_at lib t scan (canonTL lib (h_Name (sig_Hdr sig))), vr_Signature = sig, vr_Key = ck\<rparr>))
    (w\<lparr>vw_ticks := Suc (vw_ticks w)\<rparr>)"
proof -
  have no: "\<not> (wo \<noteq> [] \<and> canonTL lib (h_Name (sig_Hdr sig)) \<noteq> wo)" "\<not> (ws \<noteq> [] \<and> canonTL lib (sig_SignerName sig) \<noteq> ws)"
    using assms(1) by (auto simp: sig_checks_def)
  show ?thesis unfolding try_sigs.simps Let_def if_not_P [OF no(1)] if_not_P [OF no(2)] if_not_P [OF assms(2)]
    by (simp add: op_bind_apply time_now_def)
qed

lemma try_sigs_skipped:
  assumes "\<not> (sig_checks lib wo ws sig \<and> rrset_at lib t scan (canonTL lib (h_Name (sig_Hdr sig))) \<noteq> [])"
  shows "\<exists>e'. try_sigs lib t scan keys wo ws e (sig # sigs) w = try_sigs lib t scan keys wo ws e' sigs w"
  using assms by (auto simp: Let_def sig_checks_def)

lemma try_sigs_Inr:
  assumes "try_sigs lib t scan keys wo ws e sigs w = (Inr v, w')"
  shows "vr_Signature v \<in> set sigs \<and> vr_Type v = t \<and> vr_Owner v = canonTL lib (h_Name (sig_Hdr (vr_Signature v))) \<and>
    vr_Records v = rrset_at lib t scan (vr_Owner v) \<and> vr_Records v \<noteq> [] \<and> sig_checks lib wo ws (vr_Signature v) \<and>
    (\<exists>n. rrsigWireTimeValid (vw_clock w n) (vr_Signature v)) \<and> vr_Key v \<in> set keys \<and>
    key_checks lib (vr_Key v) (vr_Signature v) (vr_Records v)"
  using assms
proof (induction sigs arbitrary: e w)
  case (Cons sig sigs)
  let ?own = "canonTL lib (h_Name (sig_Hdr sig))"
  let ?rrset = "rrset_at lib t scan ?own" and ?cands = "EligibleKeysByKeyTag (sig_KeyTag sig) keys"
  let ?next = "\<lambda>e'. try_sigs lib t scan keys wo ws e' sigs"
  show ?case
  proof (cases "sig_checks lib wo ws sig \<and> ?rrset \<noteq> []")
    case False
    then obtain e' where "?next e' w = (Inr v, w')"
      using Cons.prems try_sigs_skipped by metis
    from Cons.IH [OF this] show ?thesis by auto
  next
    case True
    define w1 where "w1 = w\<lparr>vw_ticks := Suc (vw_ticks w)\<rparr>"
    let ?now = "vw_clock w (vw_ticks w)"
    have run: "(if \<not> rrsigWireTimeValid ?now sig then ?next (Some (Msg ''RRSIG outside its validity period'')) else
        if ?cands = [] then ?next (Some (Msg ''no eligible trusted key'')) else
        op_bind (try_keys lib sig ?rrset e ?cands) (\<lambda>r. case r of Inl e \<Rightarrow> ?next e
        | Inr ck \<Rightarrow> op_ok \<lparr>vr_Owner = ?own, vr_Type = t, vr_Records = ?rrset, vr_Signature = sig, vr_Key = ck\<rparr>)) w1 = (Inr v, w')"
      using Cons.prems try_sigs_checked [of lib wo ws sig t scan keys e sigs w] True by (simp add: w1_def)
    have clk: "vw_clock w1 = vw_clock w" by (simp add: w1_def)
    consider (skip) e' w2 where "?next e' w2 = (Inr v, w')" "vw_clock w2 = vw_clock w"
      | (found) ck w2 where "rrsigWireTimeValid ?now sig" "try_keys lib sig ?rrset e ?cands w1 = (Inr (Inr ck), w2)"
        "v = \<lparr>vr_Owner = ?own, vr_Type = t, vr_Records = ?rrset, vr_Signature = sig, vr_Key = ck\<rparr>"
    proof (cases "rrsigWireTimeValid ?now sig \<and> ?cands \<noteq> []")
      case False
      then show thesis using run clk that(1) by (auto split: if_splits)
    next
      case True
      then obtain r w2 where r: "try_keys lib sig ?rrset e ?cands w1 = (Inr r, w2)"
        "(case r of Inl e \<Rightarrow> ?next e | Inr ck \<Rightarrow>
           op_ok \<lparr>vr_Owner = ?own, vr_Type = t, vr_Records = ?rrset, vr_Signature = sig, vr_Key = ck\<rparr>) w2 = (Inr v, w')"
        using run by (auto simp: op_bind_Inr)
      have "budget_step w1 w2" using keepsD [OF keeps_try_keys r(1)] .
      then have "vw_clock w2 = vw_clock w" using clk by (simp add: budget_step_def charge_step_def)
      then show thesis using r True that by (cases r) auto
    qed
    then show ?thesis
    proof cases
      case skip
      from Cons.IH [OF skip(1)] show ?thesis using skip(2) by auto
    next
      case found
      note k = try_keys_found [OF found(2)]
      then have "key_checks lib ck sig ?rrset" "ck \<in> set keys"
        by (auto simp: key_checks_def EligibleKeysByKeyTag_def)
      then show ?thesis using found(1,3) True by auto
    qed
  qed
qed simp

theorem verifyRRset_authentic:
  assumes "verifyRRsetInRecords lib scan t keys eo es w = (Inr v, w')"
  shows "authentic lib t scan keys (want_name lib eo) (want_name lib es) (vw_clock w) v"
proof -
  have run: "try_sigs lib t scan (dedupeKeys lib keys) (want_name lib eo) (want_name lib es) None (candidates lib t scan) w = (Inr v, w')"
    using assms by (auto simp: verifyRRsetInRecords_def Let_def split: if_splits)
  note r = try_sigs_Inr [OF run]
  have "vr_Signature v \<in> set (covering_sigs t scan)" using r dedupe_subset by (force simp: candidates_def)
  moreover have "vr_Key v \<in> set keys" using r dedupe_subset by (force simp: dedupeKeys_def)
  ultimately show ?thesis using r by (auto simp: authentic_def Let_def covering_sigs_mem)
qed

text \<open>The same for every RRset of a denial: signed in the zone, and taken from the two sections.\<close>

definition authentic_denial ::
  "trustlib \<Rightarrow> 16 word \<Rightarrow> rr list \<Rightarrow> key_rec list \<Rightarrow> string \<Rightarrow> (nat \<Rightarrow> gotime) \<Rightarrow> verified_rrset \<Rightarrow> bool" where
  "authentic_denial lib t scan keys zone clk v \<longleftrightarrow>
     vr_Key v \<in> set keys \<and> key_checks lib (vr_Key v) (vr_Signature v) (vr_Records v) \<and>
     sig_TypeCovered (vr_Signature v) = t \<and> (\<exists>n. rrsigWireTimeValid (clk n) (vr_Signature v)) \<and>
     (zone \<noteq> [] \<longrightarrow> canonTL lib (sig_SignerName (vr_Signature v)) = canonTL lib zone) \<and>
     vr_Records v \<noteq> [] \<and> set (vr_Records v) \<subseteq> set scan \<and> (\<forall>rr \<in> set (vr_Records v). \<not> is_RRSIG rr \<and> Rrtype rr = t)"

lemma verify_owners_authentic:
  assumes "verify_owners lib t scan keys zone vs rej order w = (Inr (vs', rej'), w')"
    and "\<forall>v \<in> set vs. authentic_denial lib t scan keys zone (vw_clock w) v"
    and "\<And>n. n \<noteq> [] \<Longrightarrow> canonTL lib n \<noteq> []"
  shows "\<forall>v \<in> set vs'. authentic_denial lib t scan keys zone (vw_clock w) v"
  using assms(1,2)
proof (induction order arbitrary: vs rej w)
  case (Cons own order)
  let ?rrset = "rrset_at lib t scan own" and ?sigs = "sigs_at lib t scan own"
  let ?next = "\<lambda>vs rej. verify_owners lib t scan keys zone vs rej order"
  let ?P = "authentic_denial lib t scan keys zone"
  show ?case
  proof (cases "?sigs = [] \<or> zone \<noteq> [] \<and> \<not> IsSubDomain (vlib lib) (canonTL lib zone) own")
    case True
    then obtain why where "?next vs (rej @ [why]) w = (Inr (vs', rej'), w')"
      using Cons.prems(1) by (auto simp: Let_def split: if_splits)
    from Cons.IH [OF this] show ?thesis using Cons.prems(2) by auto
  next
    case False
    obtain r w1 where r: "verifyRRsetInRecords lib (?rrset @ map RRSIG ?sigs) t keys own zone w = (r, w1)"
      by (cases "verifyRRsetInRecords lib (?rrset @ map RRSIG ?sigs) t keys own zone w")
    have clk: "vw_clock w1 = vw_clock w" using keepsD [OF keeps_verifyRRsetInRecords r] by (simp add: budget_step_def charge_step_def)
    show ?thesis
    proof (cases r)
      case (Inl e)
      then have "?next vs (rej @ [''RRset does not verify'']) w1 = (Inr (vs', rej'), w')"
        using Cons.prems(1) False r by (auto simp: Let_def op_try_apply split: if_splits)
      from Cons.IH [OF this] show ?thesis using Cons.prems(2) clk by auto
    next
      case (Inr v)
      have a: "authentic lib t (?rrset @ map RRSIG ?sigs) keys (want_name lib own) (want_name lib zone) (vw_clock w) v"
        using verifyRRset_authentic r Inr by blast
      then have recs: "vr_Records v = rrset_at lib t (?rrset @ map RRSIG ?sigs) (vr_Owner v)"
        by (simp add: authentic_def Let_def)
      have sub: "set (vr_Records v) \<subseteq> set scan \<and> (\<forall>rr \<in> set (vr_Records v). \<not> is_RRSIG rr \<and> Rrtype rr = t)"
        unfolding recs by (auto simp: rrset_at_def is_RRSIG_def)
      have "zone \<noteq> [] \<longrightarrow> canonTL lib (sig_SignerName (vr_Signature v)) = canonTL lib zone"
        using a assms(3) [of zone] by (auto simp: authentic_def Let_def sig_checks_def want_name_def)
      then have "?P (vw_clock w) v" using a sub by (auto simp: authentic_def authentic_denial_def Let_def)
      moreover have "?next (vs @ [v]) rej w1 = (Inr (vs', rej'), w')"
        using Cons.prems(1) False r Inr by (auto simp: Let_def op_try_apply split: if_splits)
      ultimately show ?thesis using Cons.IH [of "vs @ [v]" rej w1] Cons.prems(2) clk by auto
    qed
  qed
qed simp

lemma denial_rrsets_authentic:
  assumes "verifyDenialRRsetsFromResponseB lib unpack raw t keys zone w = (Inr (vs, rej), w')"
    and "\<And>n. n \<noteq> [] \<Longrightarrow> canonTL lib n \<noteq> []"
  obtains m where "unpack raw = Some m" "vs \<noteq> []"
    "\<forall>v \<in> set vs. authentic_denial lib t (msg_Answer m @ msg_Ns m) keys zone (vw_clock w) v"
proof -
  obtain m where m: "unpack raw = Some m" and
    run: "op_bind (verify_owners lib t (msg_Answer m @ msg_Ns m) keys zone [] []
        (owners_in_order lib t [] (msg_Answer m @ msg_Ns m)))
      (\<lambda>(verified, rejected). if verified = [] then op_fail (Msg ''no RRset verified'') else op_ok (verified, rejected)) w =
      (Inr (vs, rej), w')"
    using assms(1) by (auto simp: verifyDenialRRsetsFromResponseB_def Let_def split: if_splits option.splits)
  then have ne: "vs \<noteq> []" and
    own: "verify_owners lib t (msg_Answer m @ msg_Ns m) keys zone [] []
        (owners_in_order lib t [] (msg_Answer m @ msg_Ns m)) w = (Inr (vs, rej), w')"
    by (auto simp: op_bind_Inr split: if_splits)
  have "\<forall>v \<in> set vs. authentic_denial lib t (msg_Answer m @ msg_Ns m) keys zone (vw_clock w) v"
    by (rule verify_owners_authentic [OF own _ assms(2)]) simp_all
  then show thesis by (rule that [OF m ne])
qed

section \<open>A verified denial is true\<close>

text \<open>
  The keys are the zone's: a denial record that verifies under one of them, in the name of the
  zone, is one the zone published. The library delivers records with the types their headers
  name.
\<close>

definition zone_authored :: "trustlib \<Rightarrow> zone_view \<Rightarrow> key_rec list \<Rightarrow> string \<Rightarrow> bool" where
  "zone_authored lib z keys zone \<longleftrightarrow>
     (\<forall>k sig rrset n. k \<in> set keys \<and> key_checks lib k sig rrset \<and>
        canonTL lib (sig_SignerName sig) = canonTL lib zone \<and> NSEC n \<in> set rrset \<longrightarrow>
        genuine z (NSECFromRR (vlib lib) n ''authority''))"

definition typed_message :: "message \<Rightarrow> bool" where
  "typed_message m \<longleftrightarrow> (\<forall>rr \<in> set (msg_Answer m @ msg_Ns m).
     (Rrtype rr = TypeNSEC \<and> \<not> is_RRSIG rr \<longrightarrow> (\<exists>n. rr = NSEC n)) \<and>
     (Rrtype rr = TypeNSEC3 \<and> \<not> is_RRSIG rr \<longrightarrow> (\<exists>n. rr = NSEC3 n)))"

definition zone_keys_ok :: "trustlib \<Rightarrow> (bytes \<Rightarrow> message option) \<Rightarrow> zone_view \<Rightarrow> key_rec list \<Rightarrow> string list \<Rightarrow> bool" where
  "zone_keys_ok lib unpack z keys q \<longleftrightarrow> names_law (tnlib lib) \<and> subdomain_law (vlib lib) \<and> zone_view_ok z \<and>
     plain_name_labels q \<and> (\<forall>n. n \<noteq> [] \<longrightarrow> canonTL lib n \<noteq> []) \<and>
     (\<forall>raw m. unpack raw = Some m \<longrightarrow> typed_message m) \<and> zone_authored lib z keys (joinLabels (zv_apex z))"

lemma verified_nsec_genuine:
  assumes ok: "zone_keys_ok lib unpack z keys q"
    and run: "verifyDenialRRsetsFromResponseB lib unpack raw TypeNSEC keys (joinLabels (zv_apex z)) w = (Inr (vs, rej), w')"
  shows "nsecRecordsFromVerified lib vs \<noteq> []" "list_all (genuine z) (nsecRecordsFromVerified lib vs)"
proof -
  have canon: "\<And>n. n \<noteq> [] \<Longrightarrow> canonTL lib n \<noteq> []" using ok by (simp add: zone_keys_ok_def)
  obtain m where m: "unpack raw = Some m" "vs \<noteq> []"
    "\<forall>v \<in> set vs. authentic_denial lib TypeNSEC (msg_Answer m @ msg_Ns m) keys (joinLabels (zv_apex z)) (vw_clock w) v"
    by (rule denial_rrsets_authentic [OF run canon])
  have typed: "\<exists>n. rr = NSEC n" if "v \<in> set vs" "rr \<in> set (vr_Records v)" for v rr
  proof -
    have "rr \<in> set (msg_Answer m @ msg_Ns m)" "\<not> is_RRSIG rr" "Rrtype rr = TypeNSEC"
      using m(3) that by (auto simp: authentic_denial_def)
    then show ?thesis using ok m(1) by (auto simp: zone_keys_ok_def typed_message_def)
  qed
  obtain v where v: "v \<in> set vs" using m(2) by (cases vs) auto
  then obtain rr where rr: "rr \<in> set (vr_Records v)" using m(3) by (fastforce simp: authentic_denial_def neq_Nil_conv)
  from typed [OF v rr] obtain n where "rr = NSEC n" ..
  then have "NSECFromRR (vlib lib) n ''authority'' \<in> set (nsecRecordsFromVerified lib vs)"
    using v rr unfolding nsecRecordsFromVerified_def by (auto intro!: bexI [of _ v] bexI [of _ rr])
  then show "nsecRecordsFromVerified lib vs \<noteq> []" by auto
  have "genuine z r" if r: "r \<in> set (nsecRecordsFromVerified lib vs)" for r
  proof -
    obtain v n where v: "v \<in> set vs" "NSEC n \<in> set (vr_Records v)" "r = NSECFromRR (vlib lib) n ''authority''"
      using r unfolding nsecRecordsFromVerified_def by (auto split: rr.splits)
    have "vr_Key v \<in> set keys" "key_checks lib (vr_Key v) (vr_Signature v) (vr_Records v)"
      "canonTL lib (sig_SignerName (vr_Signature v)) = canonTL lib (joinLabels (zv_apex z))"
      using m(3) v(1) by (auto simp: authentic_denial_def)
    moreover have "zone_authored lib z keys (joinLabels (zv_apex z))" using ok by (simp add: zone_keys_ok_def)
    ultimately show ?thesis using v(2,3) unfolding zone_authored_def by blast
  qed
  then show "list_all (genuine z) (nsecRecordsFromVerified lib vs)" by (simp add: list_all_iff)
qed

lemma verified_nsec_denial:
  assumes ok: "zone_keys_ok lib unpack z keys q"
    and run: "verifyNSECDenialWithRRSIGB lib unpack (joinLabels q) qtype recs keys (joinLabels (zv_apex z)) raw rcode w = (p, w')"
    and ver: "pf_Verified p"
  obtains rs basic where "denial_ok (vlib lib) z q rs"
    "VerifyNSECDenial (vlib lib) (joinLabels q) qtype rs rcode = Inr (Some basic)"
    "pf_ClosestEncloser p = pf_ClosestEncloser basic" "pf_NextCloser p = pf_NextCloser basic"
proof -
  have laws: "names_law (tnlib lib)" "subdomain_law (vlib lib)" "zone_view_ok z" "plain_name_labels q"
    using ok by (simp_all add: zone_keys_ok_def)
  obtain vs rej basic where within: "qnameWithinZone (vlib lib) (joinLabels q) (joinLabels (zv_apex z)) = Inr ()"
    and vs: "verifyDenialRRsetsFromResponseB lib unpack raw TypeNSEC keys (joinLabels (zv_apex z)) w = (Inr (vs, rej), w')"
    and b: "VerifyNSECDenial (vlib lib) (joinLabels q) qtype (nsecRecordsFromVerified lib vs) rcode = Inr basic"
      "p = (adopt basic (start_proof ''NSEC'' rcode))\<lparr>pf_Verified := True\<rparr>"
    using run ver unfolding verifyNSECDenialWithRRSIGB_def Let_def
    by (auto simp: start_proof_def NSECProof_def split: if_splits sum.splits prod.splits)
  note g = verified_nsec_genuine [OF ok vs]
  have apex: "plain_name_labels (zv_apex z)" using laws(3) by (simp add: zone_view_ok_def)
  have "suffix (zv_apex z) q"
    using within laws apex by (simp add: qnameWithinZone_def CanonicalName_join IsSubDomain_join split: if_splits)
  then have den: "denial_ok (vlib lib) z q (nsecRecordsFromVerified lib vs)"
    using laws g(2) by (simp add: denial_ok_def)
  obtain c where "basic = Some c" using b(1) g(1) by (auto simp: VerifyNSECDenial_def Let_def map_sum_Inr)
  then show thesis using that [OF den] b by (simp add: adopt_def)
qed

theorem nsec_denial_end_to_end:
  assumes ok: "zone_keys_ok lib unpack z keys q"
    and run: "verifyNSECDenialWithRRSIGB lib unpack (joinLabels q) qtype recs keys (joinLabels (zv_apex z)) raw rcode w = (p, w')"
    and ver: "pf_Verified p"
  shows "if rcode = 3 then nxdomain_true z q p else nodata_true z q (TypeName (vlib lib) qtype)"
proof -
  obtain rs basic where den: "denial_ok (vlib lib) z q rs"
    "VerifyNSECDenial (vlib lib) (joinLabels q) qtype rs rcode = Inr (Some basic)"
    "pf_ClosestEncloser p = pf_ClosestEncloser basic" "pf_NextCloser p = pf_NextCloser basic"
    by (rule verified_nsec_denial [OF assms])
  have q: "plain_name_labels q" using ok by (simp add: zone_keys_ok_def)
  show ?thesis
  proof (cases "rcode = 3")
    case True
    then have "verifyNSECNXDOMAIN (vlib lib) (joinLabels q) rs = Inr basic"
      using den(2) q by (auto simp: VerifyNSECDenial_def Let_def map_sum_Inr split: if_splits)
    from nsec_nxdomain_sound [OF den(1) this] show ?thesis using True den(3,4) by (simp add: nxdomain_true_def)
  next
    case False
    then have "verifyNSECNODATA (vlib lib) (joinLabels q) qtype rs = Inr basic"
      using den(2) q by (auto simp: VerifyNSECDenial_def Let_def map_sum_Inr split: if_splits)
    from nsec_nodata_sound [OF den(1) this] show ?thesis using False by simp
  qed
qed

section \<open>One good signature is enough\<close>

text \<open>
  With an unbounded budget: if some candidate signature and some trusted key pass every check
  at all times, the RRset is authenticated, whatever the other candidates are.
\<close>

lemma charge_unbounded: "vw_budget w = None \<Longrightarrow> charge n w = (Inr (), w)"
  by (simp add: charge_def)

lemma try_keys_unbounded:
  assumes "vw_budget w = None" and "ck \<in> set cks" and "kr_Algorithm ck = sig_Algorithm sig"
    and "trustedKeyForSigner lib ck (sig_SignerName sig) = Inr d" and "VerifySig lib sig d rrset"
  shows "\<exists>k w'. try_keys lib sig rrset e cks w = (Inr (Inr k), w')"
  using assms(1,2)
proof (induction cks arbitrary: e w)
  case (Cons k cks)
  show ?case
  proof (cases "k = ck")
    case True
    then show ?thesis using Cons.prems(1) assms(3-5)
      by (simp add: op_bind_apply charge_unbounded run_Verify_def)
  next
    case False
    let ?w = "w\<lparr>vw_verifies := Suc (vw_verifies w)\<rparr>"
    have "ck \<in> set cks" using False Cons.prems(2) by simp
    note IH = Cons.IH [OF _ this]
    show ?thesis
    proof (cases "kr_Algorithm k = sig_Algorithm sig")
      case True
      then show ?thesis using IH [of w] IH [of ?w] Cons.prems(1)
        by (cases "trustedKeyForSigner lib k (sig_SignerName sig)")
          (simp_all add: op_bind_apply charge_unbounded run_Verify_def)
    qed (use IH Cons.prems(1) in simp)
  qed
qed simp

lemma try_keys_total:
  assumes "vw_budget w = None"
  shows "\<exists>r w'. try_keys lib sig rrset e cks w = (Inr r, w') \<and> vw_budget w' = None"
  using assms
proof (induction cks arbitrary: e w)
  case (Cons k cks)
  let ?w = "w\<lparr>vw_verifies := Suc (vw_verifies w)\<rparr>"
  show ?case using Cons.IH [of w] Cons.IH [of ?w] Cons.prems
    by (cases "trustedKeyForSigner lib k (sig_SignerName sig)")
      (simp_all add: op_bind_apply charge_unbounded run_Verify_def)
qed simp

lemma try_sigs_unbounded:
  assumes "vw_budget w = None" and "sig \<in> set sigs" and "\<forall>n. rrsigWireTimeValid (vw_clock w n) sig"
    and "sig_checks lib wo ws sig" and "rrset_at lib t scan (canonTL lib (h_Name (sig_Hdr sig))) \<noteq> []"
    and "ck \<in> set keys" and "key_checks lib ck sig (rrset_at lib t scan (canonTL lib (h_Name (sig_Hdr sig))))"
  shows "\<exists>v w'. try_sigs lib t scan keys wo ws e sigs w = (Inr v, w')"
  using assms(1-3)
proof (induction sigs arbitrary: e w)
  case (Cons s sigs)
  let ?own = "canonTL lib (h_Name (sig_Hdr s))"
  let ?rrset = "rrset_at lib t scan ?own" and ?cands = "EligibleKeysByKeyTag (sig_KeyTag s) keys"
  define w1 where "w1 = w\<lparr>vw_ticks := Suc (vw_ticks w)\<rparr>"
  have w1: "vw_budget w1 = None" "vw_clock w1 = vw_clock w" using Cons.prems(1) by (simp_all add: w1_def)
  obtain r w2 where r: "try_keys lib s ?rrset e ?cands w1 = (Inr r, w2)" "vw_budget w2 = None"
    using try_keys_total [OF w1(1)] by blast
  have w2: "vw_clock w2 = vw_clock w" using keepsD [OF keeps_try_keys r(1)] w1(2) by (simp add: budget_step_def charge_step_def)
  show ?case
  proof (cases "s = sig")
    case True
    have "ck \<in> set ?cands" "kr_Algorithm ck = sig_Algorithm s"
      "trustedKeyForSigner lib ck (sig_SignerName s) = Inr (signing_key lib ck s)"
      "VerifySig lib s (signing_key lib ck s) ?rrset"
      using assms(6,7) True by (auto simp: key_checks_def EligibleKeysByKeyTag_def trustedKeyForSigner_Inr)
    from try_keys_unbounded [OF w1(1) this, of e] obtain k where "r = Inr k" using r(1) by auto
    moreover have "?cands \<noteq> []" using \<open>ck \<in> set ?cands\<close> by auto
    moreover have "sig_checks lib wo ws s" "?rrset \<noteq> []" using assms(4,5) True by simp_all
    note step = try_sigs_checked [OF this, of keys e sigs w, folded w1_def]
    ultimately show ?thesis unfolding step using True Cons.prems(3) r(1) by (simp add: op_bind_apply)
  next
    case False
    then have s: "sig \<in> set sigs" using Cons.prems(2) by simp
    have IH: "\<exists>v w'. try_sigs lib t scan keys wo ws e' sigs u = (Inr v, w')"
      if "vw_budget u = None" "vw_clock u = vw_clock w" for e' u using Cons.IH [OF that(1) s] Cons.prems(3) that(2) by simp
    show ?thesis
    proof (cases "sig_checks lib wo ws s \<and> ?rrset \<noteq> []")
      case False
      then show ?thesis using try_sigs_skipped [OF False, of keys e sigs w] IH [of w] Cons.prems(1) by metis
    next
      case True
      note step = try_sigs_checked [OF conjunct1 [OF True] conjunct2 [OF True], of keys e sigs w, folded w1_def]
      show ?thesis unfolding step using IH [of w1] IH [of w2] w1 w2 r by (cases r) (auto simp: op_bind_apply)
    qed
  qed
qed simp

theorem verifyRRset_complete:
  assumes "vw_budget w = None" and "sig \<in> set (candidates lib t scan)"
    and "\<forall>n. rrsigWireTimeValid (vw_clock w n) sig" and "sig_checks lib (want_name lib eo) (want_name lib es) sig"
    and "rrset_at lib t scan (canonTL lib (h_Name (sig_Hdr sig))) \<noteq> []" and "ck \<in> set (dedupeKeys lib keys)"
    and "key_checks lib ck sig (rrset_at lib t scan (canonTL lib (h_Name (sig_Hdr sig))))"
  shows "\<exists>v w'. verifyRRsetInRecords lib scan t keys eo es w = (Inr v, w')"
  using try_sigs_unbounded [OF assms] assms(2) by (auto simp: verifyRRsetInRecords_def Let_def)

end
