(* ===== verification/Go_Net.thy ===== *)
theory Go_Net
  imports Trust_Keys
begin

text \<open>
  Network addresses as Go's packages \<open>net\<close> and \<open>net/netip\<close> handle them: the two
  families, parsing, printing, \<open>host:port\<close> texts and networks.
\<close>

unbundle bit_operations_syntax

section \<open>Addresses\<close>

text \<open>A \<open>net.IP\<close> of four or of sixteen octets.\<close>

datatype ip = V4 "32 word" | V6 "128 word"

text \<open>An IPv4 address inside IPv6: \<open>::ffff:a.b.c.d\<close>.\<close>

definition map4in6 :: "32 word \<Rightarrow> 128 word" where
  "map4in6 a = push_bit 32 0xFFFF OR ucast a"

fun To4 :: "ip \<Rightarrow> 32 word option" where
  "To4 (V4 a) = Some a"
| "To4 (V6 a) = (if drop_bit 32 a = 0xFFFF then Some (ucast a) else None)"

section \<open>Parsing\<close>

fun v4_field :: "string \<Rightarrow> nat option" where
  "v4_field s = (if length s > 3 \<or> (length s > 1 \<and> hd s = CHR ''0'') then None
     else case parse_uint s of Some n \<Rightarrow> if n \<le> 255 then Some n else None | None \<Rightarrow> None)"

definition octets_word :: "nat list \<Rightarrow> 32 word" where
  "octets_word os = foldl (\<lambda>w b. push_bit 8 w OR of_nat b) 0 os"

definition parse_v4 :: "string \<Rightarrow> 32 word option" where
  "parse_v4 s = (case map v4_field (split_on (CHR ''.'') s) of
     [Some a, Some b, Some c, Some d] \<Rightarrow> Some (octets_word [a, b, c, d]) | _ \<Rightarrow> None)"

fun hex_value :: "nat \<Rightarrow> string \<Rightarrow> nat" where
  "hex_value acc [] = acc"
| "hex_value acc (c # s) = hex_value (acc * 16 + (case hex_digit (ascii_lower c) of Some d \<Rightarrow> d | None \<Rightarrow> 0)) s"

text \<open>
  The groups of an IPv6 text: the loop of \<open>netip.parseIPv6\<close>. The result is the 16-bit groups
  read and the place of the ellipsis.
\<close>

function v6_groups :: "nat list \<Rightarrow> nat option \<Rightarrow> string \<Rightarrow> (nat list \<times> nat option) option" where
  "v6_groups gs ell s =
     (if length gs \<ge> 8 then None else
      let h = takeWhile is_hex s; rest = dropWhile is_hex s in
      if h = [] \<or> length h > 4 then None
      else if rest \<noteq> [] \<and> hd rest = CHR ''.'' then
        (if (ell = None \<and> length gs \<noteq> 6) \<or> length gs > 6 then None
         else case parse_v4 s of None \<Rightarrow> None | Some a \<Rightarrow> Some (gs @ [unat (drop_bit 16 a), unat (a AND 0xFFFF)], ell))
      else let gs' = gs @ [hex_value 0 h] in
      case rest of [] \<Rightarrow> Some (gs', ell)
      | c # s1 \<Rightarrow>
          if c \<noteq> CHR '':'' \<or> s1 = [] then None
          else if hd s1 = CHR '':'' then
            (if ell \<noteq> None then None
             else if tl s1 = [] then Some (gs', Some (length gs')) else v6_groups gs' (Some (length gs')) (tl s1))
          else v6_groups gs' ell s1)"
  by pat_completeness auto
termination by (relation "measure (\<lambda>(gs, _, _). 8 - length gs)") auto

declare v6_groups.simps [simp del]

definition v6_value :: "nat list \<Rightarrow> 128 word" where
  "v6_value gs = foldl (\<lambda>w g. push_bit 16 w OR of_nat g) 0 gs"

definition expand_v6 :: "nat list \<times> nat option \<Rightarrow> 128 word option" where
  "expand_v6 p = (case p of
     (gs, None) \<Rightarrow> if length gs = 8 then Some (v6_value gs) else None
   | (gs, Some e) \<Rightarrow> if length gs < 8 then Some (v6_value (take e gs @ replicate (8 - length gs) 0 @ drop e gs)) else None)"

definition parse_v6 :: "string \<Rightarrow> 128 word option" where
  "parse_v6 s =
     (if take 2 s = ''::'' then
        if drop 2 s = [] then Some 0
        else Option.bind (v6_groups [] (Some 0) (drop 2 s)) expand_v6
      else Option.bind (v6_groups [] None s) expand_v6)"

text \<open>\<open>netip.ParseAddr\<close>, without a zone: the first dot or colon decides the family.\<close>

definition ParseAddr :: "string \<Rightarrow> ip option" where
  "ParseAddr s =
     (if CHR ''%'' \<in> set s then None else
      case List.find (\<lambda>c. c = CHR ''.'' \<or> c = CHR '':'') s of
        None \<Rightarrow> None
      | Some c \<Rightarrow> if c = CHR ''.'' then map_option V4 (parse_v4 s) else map_option V6 (parse_v6 s))"

text \<open>\<open>net.ParseIP\<close> gives sixteen octets.\<close>

definition ParseIP :: "string \<Rightarrow> ip option" where
  "ParseIP s = map_option (\<lambda>a. case a of V4 w \<Rightarrow> V6 (map4in6 w) | V6 w \<Rightarrow> V6 w) (ParseAddr s)"

section \<open>Printing\<close>

definition v4_string :: "32 word \<Rightarrow> string" where
  "v4_string a = join_with (CHR ''.'') (map (\<lambda>i. show_nat (unat (drop_bit (8 * i) a AND 0xFF))) [3, 2, 1, 0])"

definition show_group :: "nat \<Rightarrow> string" where
  "show_group g = map hex_letter (dropWhile (\<lambda>d. d = 0) [g div 4096, g div 256 mod 16, g div 16 mod 16] @ [g mod 16])"

definition groups_of :: "128 word \<Rightarrow> nat list" where
  "groups_of a = map (\<lambda>i. unat (drop_bit (16 * i) a AND 0xFFFF)) [7, 6, 5, 4, 3, 2, 1, 0]"

text \<open>The first longest run of at least two zero groups, as start and end.\<close>

definition zero_run :: "nat list \<Rightarrow> nat \<times> nat" where
  "zero_run gs = fold (\<lambda>i (s, e). let l = length (takeWhile (\<lambda>g. g = 0) (drop i gs)) in
     if l \<ge> 2 \<and> l > e - s then (i, i + l) else (s, e)) [0..<length gs] (255, 255)"

definition v6_string :: "128 word \<Rightarrow> string" where
  "v6_string a =
     (let gs = groups_of a; (s, e) = zero_run gs; show = (\<lambda>xs. join_with (CHR '':'') (map show_group xs)) in
      if s \<ge> 8 then show gs else show (take s gs) @ ''::'' @ show (drop e gs))"

definition ip_String :: "ip \<Rightarrow> string" where
  "ip_String a = (case To4 a of Some w \<Rightarrow> v4_string w | None \<Rightarrow> (case a of V4 w \<Rightarrow> v4_string w | V6 w \<Rightarrow> v6_string w))"

section \<open>Hosts and ports\<close>

definition last_index :: "char \<Rightarrow> string \<Rightarrow> nat option" where
  "last_index c s = List.find (\<lambda>i. s ! i = c) (rev [0..<length s])"

definition first_index :: "char \<Rightarrow> string \<Rightarrow> nat option" where
  "first_index c s = List.find (\<lambda>i. s ! i = c) [0..<length s]"

text \<open>The host of \<open>net.SplitHostPort\<close>, with the port; \<open>None\<close> is an error.\<close>

definition SplitHostPort :: "string \<Rightarrow> (string \<times> string) option" where
  "SplitHostPort hp =
     (case last_index (CHR '':'') hp of None \<Rightarrow> None | Some i \<Rightarrow>
      if hd hp = CHR ''['' then
        (case first_index (CHR '']'') hp of None \<Rightarrow> None | Some e \<Rightarrow>
         if Suc e \<noteq> i then None
         else if CHR ''['' \<in> set (drop 1 hp) \<or> CHR '']'' \<in> set (drop (Suc e) hp) then None
         else Some (take (e - 1) (drop 1 hp), drop (Suc i) hp))
      else if CHR '':'' \<in> set (take i hp) \<or> CHR ''['' \<in> set hp \<or> CHR '']'' \<in> set hp then None
      else Some (take i hp, drop (Suc i) hp))"

definition JoinHostPort :: "string \<Rightarrow> string \<Rightarrow> string" where
  "JoinHostPort host port =
     (if CHR '':'' \<in> set host then ''['' @ host @ '']:'' @ port else host @ '':'' @ port)"

section \<open>Networks\<close>

text \<open>A prefix: \<open>n\<close> leading bits of an address.\<close>

definition in_prefix :: "'a::len word \<Rightarrow> nat \<Rightarrow> 'a word \<Rightarrow> bool" where
  "in_prefix base n a \<longleftrightarrow> drop_bit (LENGTH('a) - n) a = drop_bit (LENGTH('a) - n) base"

datatype ipnet = Net4 "32 word" nat | Net6 "128 word" nat

text \<open>
  \<open>net.ParseCIDR\<close>. \<open>IPNet.Contains\<close> takes a network of IPv4-mapped addresses as one
  of IPv4 addresses, with the last four octets of the mask.
\<close>

definition ParseCIDR :: "string \<Rightarrow> ipnet option" where
  "ParseCIDR s =
     (case first_index (CHR ''/'') s of None \<Rightarrow> None | Some i \<Rightarrow>
      case (ParseAddr (take i s), parse_uint (drop (Suc i) s)) of
        (Some (V4 a), Some n) \<Rightarrow> if n \<le> 32 then Some (Net4 a n) else None
      | (Some (V6 a), Some n) \<Rightarrow>
          if n > 128 then None
          else if n \<ge> 96 \<and> drop_bit 32 a = 0xFFFF then Some (Net4 (ucast a) (n - 96)) else Some (Net6 a n)
      | _ \<Rightarrow> None)"

fun net_Contains :: "ipnet \<Rightarrow> ip \<Rightarrow> bool" where
  "net_Contains (Net4 b n) a = (case To4 a of Some w \<Rightarrow> in_prefix b n w | None \<Rightarrow> False)"
| "net_Contains (Net6 b n) a = (case To4 a of Some _ \<Rightarrow> False | None \<Rightarrow> (case a of V6 w \<Rightarrow> in_prefix b n w | V4 _ \<Rightarrow> False))"

end
