(* ===== verification/Egress.thy ===== *)
theory Egress
  imports Go_Net
begin

text \<open>
  The destination policy of the validator (\<open>validator/internal/dns/egress.go\<close>): which
  addresses it may send a query to. What a public address is follows from the ranges the policy
  refuses; an address a policy permits is trusted, listed or public.
\<close>

record egress_policy =
  ep_AllowPrivate :: bool
  ep_Allow :: "ipnet list"
  ep_Trusted :: "string set"

definition trim_brackets :: "string \<Rightarrow> string" where
  "trim_brackets s = (let b = (\<lambda>c. c = CHR ''['' \<or> c = CHR '']'') in rev (dropWhile b (rev (dropWhile b s))))"

definition canonicalHost :: "string \<Rightarrow> string" where
  "canonicalHost server =
     (let host = trim_brackets (case SplitHostPort server of Some (h, _) \<Rightarrow> h | None \<Rightarrow> server) in
      case ParseIP host of Some a \<Rightarrow> ip_String a | None \<Rightarrow> ToLower (trim_dot host))"

definition PublicOnlyPolicy :: "string list \<Rightarrow> egress_policy" where
  "PublicOnlyPolicy trusted =
     \<lparr>ep_AllowPrivate = False, ep_Allow = [],
      ep_Trusted = set (map canonicalHost (filter (\<lambda>h. h \<noteq> []) (map trim_space trusted)))\<rparr>"

fun ParseEgressAllowlist :: "string list \<Rightarrow> error + ipnet list" where
  "ParseEgressAllowlist [] = Inr []"
| "ParseEgressAllowlist (c # cs) =
     (if trim_space c = [] then ParseEgressAllowlist cs
      else case ParseCIDR (trim_space c) of None \<Rightarrow> Inl (Msg ''invalid egress allowlist entry'') | Some n \<Rightarrow>
        map_sum id (\<lambda>ns. n # ns) (ParseEgressAllowlist cs))"

text \<open>Ranges of the IANA registries that are not globally reachable.\<close>

definition reservedV4 :: "(32 word \<times> nat) list" where
  "reservedV4 = [(0, 8), (0x0A000000, 8), (0x64400000, 10), (0x7F000000, 8), (0xA9FE0000, 16), (0xAC100000, 12),
     (0xC0000000, 24), (0xC0000200, 24), (0xC0586300, 24), (0xC0A80000, 16), (0xC6120000, 15), (0xC6336400, 24),
     (0xCB007100, 24), (0xE0000000, 4), (0xF0000000, 4), (0xFFFFFFFF, 32)]"

definition hextet :: "128 word \<Rightarrow> nat \<Rightarrow> 128 word" where
  "hextet w i = push_bit (16 * (7 - i)) w"

definition reservedV6 :: "(128 word \<times> nat) list" where
  "reservedV6 = [(0, 128), (1, 128), (hextet 0xFFFF 5, 96), (hextet 0x64 0 OR hextet 0xFF9B 1, 96),
     (hextet 0x64 0 OR hextet 0xFF9B 1 OR hextet 1 2, 48), (hextet 0x100 0, 64), (hextet 0x2001 0, 32),
     (hextet 0x2001 0 OR hextet 2 1, 48), (hextet 0x2001 0 OR hextet 0x10 1, 28), (hextet 0x2001 0 OR hextet 0x20 1, 28),
     (hextet 0x2001 0 OR hextet 0xDB8 1, 32), (hextet 0x3FFF 0, 20), (hextet 0x5F00 0, 16), (hextet 0xFC00 0, 7),
     (hextet 0xFE80 0, 10), (hextet 0xFEC0 0, 10), (hextet 0xFF00 0, 8)]"

definition sixToFourPrefix :: "128 word \<times> nat" where
  "sixToFourPrefix = (hextet 0x2002 0, 16)"

abbreviation within_net :: "'a::len word \<times> nat \<Rightarrow> 'a word \<Rightarrow> bool" where
  "within_net p a \<equiv> in_prefix (fst p) (snd p) a"

text \<open>\<open>netip.Addr.IsGlobalUnicast\<close> and \<open>IsPrivate\<close>.\<close>

fun IsGlobalUnicast :: "ip \<Rightarrow> bool" where
  "IsGlobalUnicast (V4 a) \<longleftrightarrow> a \<noteq> 0 \<and> a \<noteq> 0xFFFFFFFF \<and> \<not> in_prefix 0x7F000000 8 a \<and>
     \<not> in_prefix 0xE0000000 4 a \<and> \<not> in_prefix 0xA9FE0000 16 a"
| "IsGlobalUnicast (V6 a) \<longleftrightarrow> a \<noteq> 0 \<and> a \<noteq> 1 \<and> \<not> in_prefix (hextet 0xFF00 0) 8 a \<and> \<not> in_prefix (hextet 0xFE80 0) 10 a"

fun IsPrivate :: "ip \<Rightarrow> bool" where
  "IsPrivate (V4 a) \<longleftrightarrow> in_prefix 0x0A000000 8 a \<or> in_prefix 0xAC100000 12 a \<or> in_prefix 0xC0A80000 16 a"
| "IsPrivate (V6 a) \<longleftrightarrow> in_prefix (hextet 0xFC00 0) 7 a"

text \<open>The IPv4 address of a 6to4 address: octets 2 to 5.\<close>

definition embedded_v4 :: "128 word \<Rightarrow> 32 word" where
  "embedded_v4 a = ucast (drop_bit 80 a)"

definition nonPublicV4 :: "32 word \<Rightarrow> bool" where
  "nonPublicV4 a \<longleftrightarrow> \<not> IsGlobalUnicast (V4 a) \<or> IsPrivate (V4 a) \<or> list_ex (\<lambda>p. within_net p a) reservedV4"

fun nonPublicAddr :: "ip \<Rightarrow> bool" where
  "nonPublicAddr (V4 a) = nonPublicV4 a"
| "nonPublicAddr (V6 a) =
     (if \<not> IsGlobalUnicast (V6 a) \<or> IsPrivate (V6 a) then True
      else if within_net sixToFourPrefix a then nonPublicV4 (embedded_v4 a)
      else list_ex (\<lambda>p. within_net p a) reservedV6)"

definition Unmap :: "ip \<Rightarrow> ip" where
  "Unmap a = (case To4 a of Some w \<Rightarrow> V4 w | None \<Rightarrow> a)"

definition NonPublic :: "ip \<Rightarrow> bool" where
  "NonPublic a = nonPublicAddr (Unmap a)"

text \<open>No policy permits everything.\<close>

definition Permit :: "egress_policy option \<Rightarrow> string \<Rightarrow> error + unit" where
  "Permit p server =
     (case p of None \<Rightarrow> Inr () | Some p \<Rightarrow>
      let host = canonicalHost server in
      if host \<in> ep_Trusted p then Inr ()
      else case ParseIP host of
        None \<Rightarrow> Inl (Msg ''egress policy: not an IP address and not a trusted destination'')
      | Some a \<Rightarrow>
          let a' = Unmap a in
          if ep_AllowPrivate p \<or> \<not> NonPublic a' then Inr ()
          else if list_ex (\<lambda>n. net_Contains n a') (ep_Allow p) then Inr ()
          else Inl (Msg ''egress policy: non-public destination''))"

definition PermitIP :: "egress_policy option \<Rightarrow> ip option \<Rightarrow> error + unit" where
  "PermitIP p a = (case a of None \<Rightarrow> Inl (Msg ''egress policy: refusing to dial an unparseable address'')
     | Some a \<Rightarrow> Permit p (ip_String a))"

section \<open>What a public address is\<close>

text \<open>
  The specification: ranges of address numbers. An IPv4 address is public when it lies in none
  of the refused ranges; a 6to4 address is as public as the IPv4 address inside it.
\<close>

definition refused_v4 :: "(int \<times> int) list" where
  "refused_v4 = [(0x00000000, 0x00FFFFFF), (0x0A000000, 0x0AFFFFFF), (0x64400000, 0x647FFFFF), (0x7F000000, 0x7FFFFFFF),
     (0xA9FE0000, 0xA9FEFFFF), (0xAC100000, 0xAC1FFFFF), (0xC0000000, 0xC00000FF), (0xC0000200, 0xC00002FF),
     (0xC0586300, 0xC05863FF), (0xC0A80000, 0xC0A8FFFF), (0xC6120000, 0xC613FFFF), (0xC6336400, 0xC63364FF),
     (0xCB007100, 0xCB0071FF), (0xE0000000, 0xFFFFFFFF)]"

definition public_v4 :: "32 word \<Rightarrow> bool" where
  "public_v4 a \<longleftrightarrow> (\<forall>(lo, hi) \<in> set refused_v4. \<not> (lo \<le> uint a \<and> uint a \<le> hi))"

lemma div_range:
  fixes x q m :: int
  assumes "0 < m"
  shows "x div m = q \<longleftrightarrow> q * m \<le> x \<and> x < (q + 1) * m"
proof
  assume "x div m = q"
  then show "q * m \<le> x \<and> x < (q + 1) * m"
    using div_mult_mod_eq [of x m] pos_mod_bound [OF assms, of x] pos_mod_sign [OF assms, of x] by (simp add: distrib_right)
next
  assume "q * m \<le> x \<and> x < (q + 1) * m"
  then show "x div m = q"
    by (intro int_div_pos_eq [where r = "x - q * m"]) (auto simp: algebra_simps)
qed

lemma in_prefix_range:
  fixes base a :: "'a::len word"
  shows "in_prefix base n a \<longleftrightarrow>
    uint base div 2 ^ (LENGTH('a) - n) * 2 ^ (LENGTH('a) - n) \<le> uint a \<and>
    uint a < (uint base div 2 ^ (LENGTH('a) - n) + 1) * 2 ^ (LENGTH('a) - n)"
proof -
  let ?k = "LENGTH('a) - n" and ?m = "(2 :: int) ^ (LENGTH('a) - n)"
  have d: "uint (drop_bit ?k w) = uint w div ?m" for w :: "'a word"
    by (simp only: unsigned_drop_bit_eq) (simp add: drop_bit_eq_div take_bit_int_eq_self)
  have "in_prefix base n a \<longleftrightarrow> uint (drop_bit ?k a) = uint (drop_bit ?k base)"
    by (simp only: in_prefix_def word_uint_eq_iff)
  also have "\<dots> \<longleftrightarrow> uint a div ?m = uint base div ?m" by (simp only: d)
  also have "\<dots> \<longleftrightarrow> uint base div ?m * ?m \<le> uint a \<and> uint a < (uint base div ?m + 1) * ?m"
    by (rule div_range) simp
  finally show ?thesis .
qed


lemma prefix32: "in_prefix (base :: 32 word) n a \<longleftrightarrow>
    uint base div 2 ^ (32 - n) * 2 ^ (32 - n) \<le> uint a \<and> uint a < (uint base div 2 ^ (32 - n) + 1) * 2 ^ (32 - n)"
  using in_prefix_range [of base n a] by simp

lemma nonPublicV4_exact: "nonPublicV4 a \<longleftrightarrow> \<not> public_v4 a"
proof -
  have u: "a = 0 \<longleftrightarrow> uint a = 0" "a = 0xFFFFFFFF \<longleftrightarrow> uint a = 0xFFFFFFFF" "0 \<le> uint a" "uint a < 0x100000000"
    using uint_lt2p [of a] by (simp_all add: word_uint_eq_iff)
  show ?thesis
    unfolding nonPublicV4_def public_v4_def reservedV4_def refused_v4_def
    using u(3,4) by (simp add: prefix32 u(1,2)) presburger
qed


text \<open>
  The IPv6 side: a public address is global unicast outside every reserved range, and a 6to4
  address carries a public IPv4 address.
\<close>

definition public_v6 :: "128 word \<Rightarrow> bool" where
  "public_v6 a \<longleftrightarrow> \<not> in_prefix (hextet 0xFF00 0) 8 a \<and> \<not> in_prefix (hextet 0xFE80 0) 10 a \<and>
     \<not> in_prefix (hextet 0xFC00 0) 7 a \<and> a \<noteq> 0 \<and> a \<noteq> 1 \<and>
     (if within_net sixToFourPrefix a then public_v4 (embedded_v4 a)
      else \<forall>p \<in> set reservedV6. \<not> within_net p a)"

definition public_ip :: "ip \<Rightarrow> bool" where
  "public_ip a = (case To4 a of Some w \<Rightarrow> public_v4 w | None \<Rightarrow> (case a of V4 w \<Rightarrow> public_v4 w | V6 w \<Rightarrow> public_v6 w))"

lemma Unmap_simps: "Unmap (V4 w) = V4 w" "To4 (V6 a) = Some w \<Longrightarrow> Unmap (V6 a) = V4 w" "To4 (V6 a) = None \<Longrightarrow> Unmap (V6 a) = V6 a"
  by (simp_all add: Unmap_def)

lemma Unmap_idem [simp]: "Unmap (Unmap a) = Unmap a"
  by (cases a) (auto simp: Unmap_def split: option.splits)

lemma NonPublic_exact: "NonPublic a \<longleftrightarrow> \<not> public_ip a"
proof (cases a)
  case (V4 w)
  then show ?thesis by (simp add: NonPublic_def public_ip_def Unmap_simps nonPublicV4_exact)
next
  case (V6 w)
  show ?thesis
  proof (cases "To4 a")
    case None
    then have "NonPublic a = nonPublicAddr (V6 w)" using V6 by (simp only: NonPublic_def Unmap_simps)
    then show ?thesis using None V6
      by (auto simp del: To4.simps simp: public_ip_def public_v6_def nonPublicV4_exact list_ex_iff)
  next
    case (Some v)
    then show ?thesis using V6
      by (simp del: To4.simps add: NonPublic_def public_ip_def Unmap_simps nonPublicV4_exact)
  qed
qed

text \<open>The destinations of a policy, and that \<open>Permit\<close> lets through exactly these.\<close>

definition destination_ok :: "egress_policy option \<Rightarrow> string \<Rightarrow> bool" where
  "destination_ok p server \<longleftrightarrow> (\<forall>q. p = Some q \<longrightarrow>
     canonicalHost server \<in> ep_Trusted q \<or>
     (\<exists>a. ParseIP (canonicalHost server) = Some a \<and>
        (ep_AllowPrivate q \<or> public_ip a \<or> (\<exists>n \<in> set (ep_Allow q). net_Contains n (Unmap a)))))"

lemma public_Unmap [simp]: "public_ip (Unmap a) = public_ip a"
  using NonPublic_exact [of a] NonPublic_exact [of "Unmap a"] by (simp add: NonPublic_def)

lemma Permit_exact: "Permit p server = Inr () \<longleftrightarrow> destination_ok p server"
  by (cases p) (auto simp: Permit_def destination_ok_def Let_def NonPublic_exact list_ex_iff split: option.splits)

end
