(* ===== verification/Net_Query.thy ===== *)
theory Net_Query
  imports Verify_Laws Egress
begin

text \<open>
  DNS queries of the validator (\<open>validator/internal/dns/{query,resolver}.go\<close>): the
  transport behind the destination policy, the records taken from a response, the nameserver
  set of a zone under its fan-out bounds, and the zone cuts above a name.

  The network is a function from the number of the exchange, the transport, the address and the
  query to an answer or an error, so nothing is assumed about who answers or whether two equal
  queries get equal answers. The world keeps the list of the servers that were dialled.
\<close>

section \<open>Transport\<close>

record response = message +
  rs_Rcode :: int
  rs_Authoritative :: bool
  rs_Truncated :: bool

record query =
  qy_Name :: string
  qy_Type :: "16 word"
  qy_RecursionDesired :: bool
  qy_CheckingDisabled :: bool
  qy_Do :: bool

text \<open>
  The library, beyond \<open>trustlib\<close>: \<open>dns.Msg.Unpack\<close> and \<open>Pack\<close>, the name or
  address in the data of an NS, CNAME, DNAME, A or AAAA record, the names in the data of a record
  of any type, the text of a record, \<open>dns.IsDomainName\<close> and the tables of type names.
\<close>

record netlib =
  tlib :: trustlib
  Unpack :: "bytes \<Rightarrow> message option"
  Pack :: "response \<Rightarrow> bytes option"
  RDataName :: "string \<Rightarrow> string"
  RDataIP :: "string \<Rightarrow> ip"
  RDataMapNames :: "16 word \<Rightarrow> (string \<Rightarrow> string) \<Rightarrow> string \<Rightarrow> string"
  RRString :: "rr \<Rightarrow> string"
  IsDomainName :: "string \<Rightarrow> bool"
  TypeToString :: "16 word \<Rightarrow> string option"
  StringToType :: "string \<Rightarrow> 16 word option"

abbreviation qlib :: "netlib \<Rightarrow> dnslib" where "qlib lib \<equiv> tnlib (tlib lib)"
abbreviation canonNL :: "netlib \<Rightarrow> string \<Rightarrow> string" where "canonNL lib \<equiv> canonTL (tlib lib)"
abbreviation fqdnNL :: "netlib \<Rightarrow> string \<Rightarrow> string" where "fqdnNL lib \<equiv> Fqdn (klib (qlib lib))"

type_synonym network = "nat \<Rightarrow> string \<Rightarrow> string \<Rightarrow> query \<Rightarrow> error + response"

record resolver =
  rv_recursive :: string
  rv_port :: string
  rv_egress :: "egress_policy option"
  rv_net :: network

definition NewResolver :: "network \<Rightarrow> string \<Rightarrow> resolver" where
  "NewResolver net recursiveServer =
     \<lparr>rv_recursive = (if recursiveServer = [] then ''127.0.0.1'' else recursiveServer), rv_port = ''53'',
      rv_egress = None, rv_net = net\<rparr>"

definition SetEgressPolicy :: "egress_policy \<Rightarrow> resolver \<Rightarrow> resolver" where
  "SetEgressPolicy p r = r\<lparr>rv_egress := Some p\<rparr>"

definition SetDefaultPort :: "string \<Rightarrow> resolver \<Rightarrow> resolver" where
  "SetDefaultPort port r = r\<lparr>rv_port := port\<rparr>"

definition dial :: "resolver \<Rightarrow> string \<Rightarrow> string" where
  "dial r server =
     (case SplitHostPort server of Some _ \<Rightarrow> server
      | None \<Rightarrow> JoinHostPort server (if rv_port r = [] then ''53'' else rv_port r))"

definition send :: "resolver \<Rightarrow> string \<Rightarrow> string \<Rightarrow> query \<Rightarrow> (vworld, error + response) op" where
  "send r proto server q = (\<lambda>w.
     (Inr (rv_net r (vw_ticks w) proto (dial r server) q),
      w\<lparr>vw_ticks := Suc (vw_ticks w), vw_dials := vw_dials w @ [server]\<rparr>))"

text \<open>The answer or the error, and whether the UDP answer was truncated.\<close>

definition exchange :: "resolver \<Rightarrow> string \<Rightarrow> query \<Rightarrow> (vworld, (error + response) \<times> bool) op" where
  "exchange r server q =
     (case Permit (rv_egress r) server of Inl e \<Rightarrow> op_ok (Inl e, False) | Inr _ \<Rightarrow>
      op_bind (send r ''udp'' server q) (\<lambda>a. case a of
        Inl e \<Rightarrow> op_ok (Inl e, False)
      | Inr resp \<Rightarrow>
          if rs_Truncated resp then op_bind (send r ''tcp'' server q) (\<lambda>a. op_ok (a, True))
          else op_ok (Inr resp, False)))"

section \<open>The records of a response\<close>

record ns_rec =
  ns_Owner :: string
  ns_Class :: "16 word"
  ns_Section :: string
  ns_Name :: string
  ns_Addresses :: "ip list"
  ns_LookupErrors :: "string list"

record cname_rec =
  cn_Name :: string
  cn_Class :: "16 word"
  cn_Section :: string
  cn_Target :: string

record dname_rec =
  dn_Owner :: string
  dn_Class :: "16 word"
  dn_Section :: string
  dn_Target :: string

record query_result =
  qr_Server :: string
  qr_Truncated :: bool
  qr_Authoritative :: bool
  qr_RCode :: int
  qr_RCodeName :: string
  qr_Error :: "error option"
  qr_DNSKEY :: "key_rec list"
  qr_DS :: "ds_rec list"
  qr_RRSIG :: "rrsig_rec list"
  qr_NSEC :: "nsec_rec list"
  qr_NSEC3 :: "nsec3_rec list"
  qr_NS :: "ns_rec list"
  qr_CNAME :: "cname_rec list"
  qr_DNAME :: "dname_rec list"
  qr_AnswerTypes :: "16 word list"
  qr_RawResponse :: bytes

definition QueryResult :: "string \<Rightarrow> query_result" where
  "QueryResult server = \<lparr>qr_Server = server, qr_Truncated = False, qr_Authoritative = False, qr_RCode = 0,
     qr_RCodeName = [], qr_Error = None, qr_DNSKEY = [], qr_DS = [], qr_RRSIG = [], qr_NSEC = [], qr_NSEC3 = [],
     qr_NS = [], qr_CNAME = [], qr_DNAME = [], qr_AnswerTypes = [], qr_RawResponse = []\<rparr>"

definition RCodeName :: "int \<Rightarrow> string" where
  "RCodeName rcode = (case map_of [(0, ''NOERROR''), (1, ''FORMERR''), (2, ''SERVFAIL''), (3, ''NXDOMAIN''),
     (4, ''NOTIMP''), (5, ''REFUSED'')] rcode of Some n \<Rightarrow> n | None \<Rightarrow> ''UNKNOWN'')"

abbreviation "RcodeSuccess \<equiv> 0 :: int"
abbreviation "RcodeServerFailure \<equiv> 2 :: int"
abbreviation "RcodeNameError \<equiv> 3 :: int"

definition NSFromRR :: "netlib \<Rightarrow> rr_header \<Rightarrow> string \<Rightarrow> string \<Rightarrow> ns_rec" where
  "NSFromRR lib h d sect = \<lparr>ns_Owner = h_Name h, ns_Class = h_Class h, ns_Section = sect, ns_Name = RDataName lib d,
     ns_Addresses = [], ns_LookupErrors = []\<rparr>"

definition CNAMEFromRR :: "netlib \<Rightarrow> rr_header \<Rightarrow> string \<Rightarrow> string \<Rightarrow> cname_rec" where
  "CNAMEFromRR lib h d sect = \<lparr>cn_Name = h_Name h, cn_Class = h_Class h, cn_Section = sect, cn_Target = RDataName lib d\<rparr>"

definition DNAMEFromRR :: "netlib \<Rightarrow> rr_header \<Rightarrow> string \<Rightarrow> string \<Rightarrow> dname_rec" where
  "DNAMEFromRR lib h d sect = \<lparr>dn_Owner = h_Name h, dn_Class = h_Class h, dn_Section = sect, dn_Target = RDataName lib d\<rparr>"

definition parse_rr :: "netlib \<Rightarrow> string \<Rightarrow> gotime \<Rightarrow> rr \<Rightarrow> query_result \<Rightarrow> query_result" where
  "parse_rr lib sect now rr result = (case rr of
     DNSKEY h k \<Rightarrow> result\<lparr>qr_DNSKEY := qr_DNSKEY result @ [DNSKEYFromRR (tlib lib) h k sect]\<rparr>
   | RRSIG s \<Rightarrow> result\<lparr>qr_RRSIG := qr_RRSIG result @ [RRSIGFromRR s sect now]\<rparr>
   | NSEC n \<Rightarrow> result\<lparr>qr_NSEC := qr_NSEC result @ [NSECFromRR (vlib (tlib lib)) n sect]\<rparr>
   | NSEC3 n \<Rightarrow> result\<lparr>qr_NSEC3 := qr_NSEC3 result @ [NSEC3FromRR (vlib (tlib lib)) n sect]\<rparr>
   | OtherRR h d \<Rightarrow>
       (if h_Rrtype h = TypeDS then result\<lparr>qr_DS := qr_DS result @ [DSFromRR (tlib lib) h d sect]\<rparr>
        else if h_Rrtype h = TypeNS then result\<lparr>qr_NS := qr_NS result @ [NSFromRR lib h d sect]\<rparr>
        else if h_Rrtype h = TypeCNAME then result\<lparr>qr_CNAME := qr_CNAME result @ [CNAMEFromRR lib h d sect]\<rparr>
        else if h_Rrtype h = TypeDNAME then result\<lparr>qr_DNAME := qr_DNAME result @ [DNAMEFromRR lib h d sect]\<rparr>
        else result)
   | _ \<Rightarrow> result)"

definition parseSection :: "netlib \<Rightarrow> rr list \<Rightarrow> string \<Rightarrow> gotime \<Rightarrow> query_result \<Rightarrow> query_result" where
  "parseSection lib rrs sect now = fold (parse_rr lib sect now) rrs"

definition parseResponse :: "netlib \<Rightarrow> response \<Rightarrow> gotime \<Rightarrow> query_result \<Rightarrow> query_result" where
  "parseResponse lib resp now result =
     parseSection lib (msg_Extra resp) ''additional'' now (parseSection lib (msg_Ns resp) ''authority'' now
       (parseSection lib (msg_Answer resp) ''answer'' now
          (result\<lparr>qr_AnswerTypes := qr_AnswerTypes result @ dedupe id {} (map Rrtype (msg_Answer resp))\<rparr>)))"

definition QueryWithRecursion :: "netlib \<Rightarrow> resolver \<Rightarrow> string \<Rightarrow> string \<Rightarrow> 16 word \<Rightarrow> bool \<Rightarrow> (vworld, query_result) op" where
  "QueryWithRecursion lib r server qname qtype recurse =
     op_bind (exchange r server \<lparr>qy_Name = fqdnNL lib qname, qy_Type = qtype, qy_RecursionDesired = recurse,
                                 qy_CheckingDisabled = recurse, qy_Do = True\<rparr>) (\<lambda>(a, truncated).
     let result = (QueryResult server)\<lparr>qr_Truncated := truncated\<rparr> in
     case a of Inl e \<Rightarrow> op_ok (result\<lparr>qr_Error := Some e\<rparr>) | Inr resp \<Rightarrow>
     op_bind time_now (\<lambda>now.
     op_ok (parseResponse lib resp now
       (result\<lparr>qr_RCode := rs_Rcode resp, qr_RCodeName := RCodeName (rs_Rcode resp), qr_Authoritative := rs_Authoritative resp,
               qr_RawResponse := (case Pack lib resp of Some raw \<Rightarrow> raw | None \<Rightarrow> [])\<rparr>))))"

definition Query :: "netlib \<Rightarrow> resolver \<Rightarrow> string \<Rightarrow> string \<Rightarrow> 16 word \<Rightarrow> (vworld, query_result) op" where
  "Query lib r server qname qtype = QueryWithRecursion lib r server qname qtype False"

definition QueryDNSKEYAuthoritative :: "netlib \<Rightarrow> resolver \<Rightarrow> string \<Rightarrow> string \<Rightarrow> (vworld, query_result) op" where
  "QueryDNSKEYAuthoritative lib r server zone = Query lib r server zone TypeDNSKEY"

definition QueryDSAuthoritative :: "netlib \<Rightarrow> resolver \<Rightarrow> string \<Rightarrow> string \<Rightarrow> (vworld, query_result) op" where
  "QueryDSAuthoritative lib r server zone = Query lib r server zone TypeDS"

definition QueryRecordAuthoritative :: "netlib \<Rightarrow> resolver \<Rightarrow> string \<Rightarrow> string \<Rightarrow> 16 word \<Rightarrow> (vworld, query_result) op" where
  "QueryRecordAuthoritative lib r server name qtype = Query lib r server name qtype"

definition QueryRecordRecursive :: "netlib \<Rightarrow> resolver \<Rightarrow> string \<Rightarrow> 16 word \<Rightarrow> (vworld, query_result) op" where
  "QueryRecordRecursive lib r name qtype = QueryWithRecursion lib r (rv_recursive r) name qtype True"

end
