(* ===== verification/Net_Resolve.thy ===== *)
theory Net_Resolve
  imports Net_Query
begin

text \<open>
  The resolver of the validator (\<open>validator/internal/dns/resolver.go\<close>): nameservers and
  addresses of a zone under the fan-out bounds, and the zone cuts above a name. A nameserver set
  stays within the bounds, and when it leaves something out it says so.
\<close>

section \<open>Lookups\<close>

definition ctx_ended :: "(vworld, bool) op" where
  "ctx_ended = (\<lambda>w. (Inr (vw_cancelled w (vw_looks w)), w\<lparr>vw_looks := Suc (vw_looks w)\<rparr>))"

definition ErrContext :: error where "ErrContext = Msg ''context ended''"

definition exchangeRecursive :: "netlib \<Rightarrow> resolver \<Rightarrow> string \<Rightarrow> 16 word \<Rightarrow> (vworld, response) op" where
  "exchangeRecursive lib r qname qtype =
     op_bind (exchange r (rv_recursive r) \<lparr>qy_Name = fqdnNL lib qname, qy_Type = qtype, qy_RecursionDesired = True,
                                           qy_CheckingDisabled = True, qy_Do = False\<rparr>)
       (\<lambda>(a, _). case a of Inl e \<Rightarrow> op_fail (Wrap ''lookup'' e) | Inr resp \<Rightarrow> op_ok resp)"

definition recordsOwnedBy :: "netlib \<Rightarrow> rr list \<Rightarrow> string \<Rightarrow> 16 word \<Rightarrow> rr list" where
  "recordsOwnedBy lib rrs own t = filter (\<lambda>rr. Rrtype rr = t \<and> canonNL lib (owner rr) = canonNL lib own) rrs"

definition ns_of :: "netlib \<Rightarrow> string \<Rightarrow> rr list \<Rightarrow> ns_rec list" where
  "ns_of lib sect rrs = concat (map (\<lambda>rr. case rr of OtherRR h d \<Rightarrow> [NSFromRR lib h d sect] | _ \<Rightarrow> []) rrs)"

definition canonicalNSRecords :: "netlib \<Rightarrow> ns_rec list \<Rightarrow> ns_rec list" where
  "canonicalNSRecords lib recs =
     sort_slice (\<lambda>a b. ns_Name a < ns_Name b)
       (dedupe ns_Name {} (map (\<lambda>n. n\<lparr>ns_Name := canonNL lib (ns_Name n)\<rparr>) recs))"

definition ResolveNS :: "netlib \<Rightarrow> resolver \<Rightarrow> string \<Rightarrow> (vworld, ns_rec list) op" where
  "ResolveNS lib r zone =
     op_bind (exchangeRecursive lib r zone TypeNS) (\<lambda>resp.
     if rs_Rcode resp = RcodeNameError then op_ok []
     else if rs_Rcode resp \<noteq> RcodeSuccess then op_fail (Msg ''NS lookup: recursive resolver answered an error'')
     else let ans = ns_of lib ''answer'' (recordsOwnedBy lib (msg_Answer resp) zone TypeNS) in
       op_ok (canonicalNSRecords lib
         (if ans = [] then ns_of lib ''authority'' (recordsOwnedBy lib (msg_Ns resp) zone TypeNS) else ans)))"

section \<open>Addresses\<close>

definition canonicalIP :: "ip \<Rightarrow> string" where
  "canonicalIP a = (case To4 a of Some v4 \<Rightarrow> v4_string v4 | None \<Rightarrow> ip_String a)"

definition UniqueAddresses :: "string list \<Rightarrow> string list" where
  "UniqueAddresses addrs =
     dedupe id {} (map (\<lambda>a. case ParseIP (trim_space a) of Some i \<Rightarrow> canonicalIP i | None \<Rightarrow> a) addrs)"

definition uniqueIPs :: "ip list \<Rightarrow> ip list" where
  "uniqueIPs ips = sort_slice (\<lambda>a b. canonicalIP a < canonicalIP b) (map Unmap (dedupe canonicalIP {} ips))"

definition maxAliasHops :: nat where "maxAliasHops = 8"

text \<open>The end of the chain of CNAMEs inside one answer.\<close>

primrec alias_end :: "nat \<Rightarrow> netlib \<Rightarrow> rr list \<Rightarrow> string \<Rightarrow> string" where
  "alias_end 0 lib ans own = own"
| "alias_end (Suc hops) lib ans own =
     (case List.find (\<lambda>rr. case rr of OtherRR h _ \<Rightarrow> h_Rrtype h = TypeCNAME \<and> canonNL lib (h_Name h) = own | _ \<Rightarrow> False) ans of
        Some (OtherRR h d) \<Rightarrow>
          (let next' = canonNL lib (RDataName lib d) in
           if next' = [] \<or> next' = own then own else alias_end hops lib ans next')
      | _ \<Rightarrow> own)"

definition answerAddresses :: "netlib \<Rightarrow> response \<Rightarrow> string \<Rightarrow> 16 word \<Rightarrow> ip list" where
  "answerAddresses lib resp host t =
     (let own = alias_end maxAliasHops lib (msg_Answer resp) (canonNL lib host) in
      concat (map (\<lambda>rr. case rr of OtherRR h d \<Rightarrow> if h_Rrtype h \<in> {TypeA, TypeAAAA} then [RDataIP lib d] else [] | _ \<Rightarrow> [])
        (recordsOwnedBy lib (msg_Answer resp) own t)))"

text \<open>One family: its addresses, or the problem.\<close>

definition lookup_family :: "netlib \<Rightarrow> resolver \<Rightarrow> string \<Rightarrow> 16 word \<Rightarrow> (vworld, string + ip list) op" where
  "lookup_family lib r hostname t =
     op_try (exchangeRecursive lib r hostname t) (\<lambda>a. case a of
       Inl e \<Rightarrow> op_ok (Inl ''lookup failed'')
     | Inr resp \<Rightarrow>
         if rs_Rcode resp = RcodeSuccess then op_ok (Inr (answerAddresses lib resp hostname t))
         else if rs_Rcode resp = RcodeNameError then op_ok (Inr [])
         else op_ok (Inl (''recursive resolver answered '' @ RCodeName (rs_Rcode resp))))"

definition ResolveAddressesDetailed ::
  "netlib \<Rightarrow> resolver \<Rightarrow> string \<Rightarrow> (vworld, ip list \<times> string list \<times> error option) op" where
  "ResolveAddressesDetailed lib r hostname =
     op_bind (lookup_family lib r hostname TypeA) (\<lambda>a4.
     op_bind (lookup_family lib r hostname TypeAAAA) (\<lambda>a6.
     let problems = (case a4 of Inl p \<Rightarrow> [p] | Inr _ \<Rightarrow> []) @ (case a6 of Inl p \<Rightarrow> [p] | Inr _ \<Rightarrow> []);
         addresses = (case a4 of Inl _ \<Rightarrow> [] | Inr as \<Rightarrow> as) @ (case a6 of Inl _ \<Rightarrow> [] | Inr as \<Rightarrow> as) in
     if length problems = 2 then op_ok ([], problems, Some (Msg ''address lookup failed''))
     else op_ok (uniqueIPs addresses, problems, None)))"

definition MaxNameserversPerZone :: nat where "MaxNameserversPerZone = 32"
definition MaxAddressesPerNameserver :: nat where "MaxAddressesPerNameserver = 16"
definition MaxAddressesPerZone :: nat where "MaxAddressesPerZone = 64"

record nsset =
  nss_Records :: "ns_rec list"
  nss_Addresses :: "string list"
  nss_Truncation :: "string list"

definition Truncated :: "nsset option \<Rightarrow> bool" where
  "Truncated s = (case s of None \<Rightarrow> False | Some s \<Rightarrow> nss_Truncation s \<noteq> [])"

text \<open>The addresses of one nameserver that are kept, and the query list of the zone.\<close>

fun keep_addresses :: "ip list \<Rightarrow> ip list \<Rightarrow> string list \<Rightarrow> ip list \<times> string list" where
  "keep_addresses [] kept addrs = (kept, addrs)"
| "keep_addresses (a # as) kept addrs =
     (if canonicalIP a \<in> set addrs then keep_addresses as (kept @ [a]) addrs
      else if length addrs \<ge> MaxAddressesPerZone then keep_addresses as kept addrs
      else keep_addresses as (kept @ [a]) (addrs @ [canonicalIP a]))"

definition add_nameserver :: "ns_rec \<Rightarrow> ip list \<times> string list \<times> error option \<Rightarrow> nsset \<Rightarrow> nsset" where
  "add_nameserver ns found s =
     (case found of (all, problems, lookupErr) \<Rightarrow>
      let over = length all > MaxAddressesPerNameserver;
          addrs = (if over then take MaxAddressesPerNameserver all else all);
          (kept, query_list) = keep_addresses addrs [] (nss_Addresses s) in
      s\<lparr>nss_Records := nss_Records s @ [ns\<lparr>ns_Addresses := kept,
           ns_LookupErrors := (if lookupErr \<noteq> None \<and> problems = [] then [''address lookup failed''] else problems)\<rparr>],
        nss_Addresses := query_list,
        nss_Truncation := nss_Truncation s @ (if over then [''nameserver has too many addresses''] else []) @
          (if length kept < length addrs then [''too many distinct nameserver addresses''] else [])\<rparr>)"

primrec resolve_each :: "netlib \<Rightarrow> resolver \<Rightarrow> ns_rec list \<Rightarrow> nsset \<Rightarrow> (vworld, nsset) op" where
  "resolve_each lib r [] s = op_ok s"
| "resolve_each lib r (ns # nss) s =
     op_bind ctx_ended (\<lambda>ended. if ended then op_fail ErrContext else
     op_bind (ResolveAddressesDetailed lib r (ns_Name ns)) (\<lambda>found.
     resolve_each lib r nss (add_nameserver ns found s)))"

definition ResolveNSSet :: "netlib \<Rightarrow> resolver \<Rightarrow> string \<Rightarrow> (vworld, nsset) op" where
  "ResolveNSSet lib r zone =
     op_bind (ResolveNS lib r zone) (\<lambda>recs.
     resolve_each lib r (take MaxNameserversPerZone recs)
       \<lparr>nss_Records = [], nss_Addresses = [],
        nss_Truncation = (if length recs > MaxNameserversPerZone then [''too many distinct nameservers''] else [])\<rparr>)"

definition ResolveAddresses :: "netlib \<Rightarrow> resolver \<Rightarrow> string \<Rightarrow> (vworld, ip list) op" where
  "ResolveAddresses lib r hostname = op_bind (ResolveAddressesDetailed lib r hostname) (\<lambda>(addrs, _, e).
     case e of None \<Rightarrow> op_ok addrs | Some e \<Rightarrow> op_fail e)"

definition ResolveNSWithAddresses :: "netlib \<Rightarrow> resolver \<Rightarrow> string \<Rightarrow> (vworld, ns_rec list) op" where
  "ResolveNSWithAddresses lib r zone = op_bind (ResolveNSSet lib r zone) (\<lambda>s. op_ok (nss_Records s))"

definition GetRootServers :: "string list" where
  "GetRootServers = [''198.41.0.4'', ''199.9.14.201'', ''192.33.4.12'', ''199.7.91.13'', ''192.203.230.10'', ''192.5.5.241'',
     ''192.112.36.4'', ''198.97.190.53'', ''192.36.148.17'', ''192.58.128.30'', ''193.0.14.129'', ''199.7.83.42'', ''202.12.27.33'']"

section \<open>Zone cuts\<close>

definition CheckZoneCut :: "netlib \<Rightarrow> resolver \<Rightarrow> string \<Rightarrow> (vworld, bool) op" where
  "CheckZoneCut lib r domain =
     op_bind (exchangeRecursive lib r domain TypeNS) (\<lambda>resp.
     if rs_Rcode resp = RcodeServerFailure then op_ok True
     else if rs_Rcode resp \<noteq> RcodeSuccess then op_ok False
     else op_ok (recordsOwnedBy lib (msg_Answer resp) domain TypeNS \<noteq> []))"

text \<open>The context has ended, or its deadline has passed: two looks.\<close>

definition interrupted :: "(vworld, bool) op" where
  "interrupted = op_bind ctx_ended (\<lambda>e. if e then op_ok True else ctx_ended)"

definition cut_candidate :: "netlib \<Rightarrow> string list \<Rightarrow> nat \<Rightarrow> string" where
  "cut_candidate lib labels i =
     (if Suc i = length labels then fqdnNL lib (labels ! i)
      else fqdnNL lib (labels ! i @ ''.'' @ join_with (CHR ''.'') (drop (Suc i) labels)))"

primrec discover_from :: "netlib \<Rightarrow> resolver \<Rightarrow> string list \<Rightarrow> nat \<Rightarrow> string list \<Rightarrow> (vworld, string list) op" where
  "discover_from lib r labels 0 zones = op_ok zones"
| "discover_from lib r labels (Suc i) zones =
     (let candidate = cut_candidate lib labels i in
      op_try (CheckZoneCut lib r candidate) (\<lambda>a.
      op_bind interrupted (\<lambda>stop. if stop then op_fail ErrContext else
      let isZone = (case a of Inl _ \<Rightarrow> True | Inr b \<Rightarrow> b) in
      discover_from lib r labels i (if isZone then zones @ [candidate] else zones))))"

definition DiscoverZoneCuts :: "netlib \<Rightarrow> resolver \<Rightarrow> string \<Rightarrow> (vworld, string list) op" where
  "DiscoverZoneCuts lib r domain0 =
     op_bind interrupted (\<lambda>stop. if stop then op_fail ErrContext else
     let domain = fqdnNL lib domain0; labels = SplitDomainName (qlib lib) domain in
     if domain = ''.'' then op_ok [''.'']
     else discover_from lib r labels (length labels) [''.''])"

section \<open>What every lookup keeps\<close>

text \<open>
  Along any run of lookups: the work budget is respected, and every server dialled is one the
  destination policy permits.
\<close>

definition net_step :: "egress_policy option \<Rightarrow> vworld \<Rightarrow> vworld \<Rightarrow> bool" where
  "net_step p w w' \<longleftrightarrow> charge_step w w' \<and>
     (\<exists>new. vw_dials w' = vw_dials w @ new \<and> (\<forall>s \<in> set new. destination_ok p s))"


interpretation net: keep_relation "net_step p" for p
proof
  show "net_step p w w" for w by (simp add: net_step_def charge_step_def)
  show "net_step p u w" if "net_step p u v" "net_step p v w" for u v w
    using that by (auto simp: net_step_def charge_step_def)
qed

lemma keeps_engine: "keeps budget_step m \<Longrightarrow> keeps (net_step p) m"
  by (auto simp: keeps_def net_step_def budget_step_def)

lemma keeps_ctx_ended: "keeps (net_step p) ctx_ended"
  by (auto simp: keeps_def net_step_def ctx_ended_def charge_step_def within_budget_def)

lemma keeps_clock: "keeps (net_step p) time_now"
  by (rule keeps_engine [OF keeps_time_now])

lemma keeps_send:
  assumes "destination_ok (rv_egress r) server"
  shows "keeps (net_step (rv_egress r)) (send r proto server q)"
  using assms by (auto simp: keeps_def net_step_def send_def charge_step_def within_budget_def)

named_theorems net_keeps \<open>operations along which only permitted servers are dialled\<close>

lemmas net_rules = net.keeps_ok net.keeps_fail net.keeps_get net.keeps_bind net.keeps_try net.keeps_if

lemma keeps_exchange [net_keeps]: "keeps (net_step (rv_egress r)) (exchange r server q)"
proof (cases "Permit (rv_egress r) server")
  case (Inl e)
  then show ?thesis by (simp add: exchange_def net.keeps_ok)
next
  case (Inr u)
  then have "destination_ok (rv_egress r) server" using Permit_exact [of "rv_egress r" server] by simp
  then show ?thesis using Inr
    by (auto simp: exchange_def intro!: net_rules keeps_send split: sum.splits)
qed

declare keeps_ctx_ended [net_keeps] keeps_clock [net_keeps]

lemma keeps_prod: "(\<And>a b. keeps R (f a b)) \<Longrightarrow> keeps R (case x of (a, b) \<Rightarrow> f a b)"
  by (cases x) simp

lemma keeps_sum: "(\<And>a. keeps R (f a)) \<Longrightarrow> (\<And>b. keeps R (g b)) \<Longrightarrow> keeps R (case x of Inl a \<Rightarrow> f a | Inr b \<Rightarrow> g b)"
  by (cases x) simp_all

lemma keeps_option: "keeps R f \<Longrightarrow> (\<And>b. keeps R (g b)) \<Longrightarrow> keeps R (case x of None \<Rightarrow> f | Some b \<Rightarrow> g b)"
  by (cases x) simp_all

lemmas keeps_cases = keeps_prod keeps_sum keeps_option

lemma keeps_exchangeRecursive [net_keeps]: "keeps (net_step (rv_egress r)) (exchangeRecursive lib r qname t)"
  unfolding exchangeRecursive_def by (intro net_rules keeps_cases net_keeps)

lemma keeps_QueryWithRecursion [net_keeps]:
  "keeps (net_step (rv_egress r)) (QueryWithRecursion lib r server qname t rec)"
  unfolding QueryWithRecursion_def Let_def by (intro net_rules keeps_cases net_keeps)

lemma keeps_Query [net_keeps]: "keeps (net_step (rv_egress r)) (Query lib r server qname t)"
  unfolding Query_def by (rule keeps_QueryWithRecursion)

lemma keeps_ResolveNS [net_keeps]: "keeps (net_step (rv_egress r)) (ResolveNS lib r zone)"
  unfolding ResolveNS_def Let_def by (intro net_rules keeps_cases net_keeps)

lemma keeps_ResolveAddressesDetailed [net_keeps]:
  "keeps (net_step (rv_egress r)) (ResolveAddressesDetailed lib r host)"
  unfolding ResolveAddressesDetailed_def lookup_family_def Let_def by (intro net_rules keeps_cases net_keeps)

lemma keeps_resolve_each [net_keeps]: "keeps (net_step (rv_egress r)) (resolve_each lib r nss s)"
  by (induction nss arbitrary: s) (auto intro!: net_rules net_keeps)

lemma keeps_ResolveNSSet [net_keeps]: "keeps (net_step (rv_egress r)) (ResolveNSSet lib r zone)"
  unfolding ResolveNSSet_def by (intro net_rules net_keeps)

lemma keeps_interrupted [net_keeps]: "keeps (net_step (rv_egress r)) interrupted"
  unfolding interrupted_def by (intro net_rules net_keeps)

lemma keeps_CheckZoneCut [net_keeps]: "keeps (net_step (rv_egress r)) (CheckZoneCut lib r domain)"
  unfolding CheckZoneCut_def by (intro net_rules net_keeps)

lemma keeps_discover_from [net_keeps]: "keeps (net_step (rv_egress r)) (discover_from lib r labels n zones)"
  by (induction n arbitrary: zones) (auto simp: Let_def intro!: net_rules net_keeps)

lemma keeps_DiscoverZoneCuts [net_keeps]: "keeps (net_step (rv_egress r)) (DiscoverZoneCuts lib r domain)"
  unfolding DiscoverZoneCuts_def Let_def by (intro net_rules net_keeps)

section \<open>The bounds of a nameserver set\<close>

lemma keep_addresses_bounds:
  assumes "keep_addresses as kept addrs = (kept', addrs')" and "distinct addrs" and "length addrs \<le> MaxAddressesPerZone"
  shows "distinct addrs' \<and> length addrs' \<le> MaxAddressesPerZone \<and> set addrs \<subseteq> set addrs' \<and>
    length kept' \<le> length kept + length as \<and> set kept' \<subseteq> set kept \<union> set as \<and>
    set addrs' \<subseteq> set addrs \<union> canonicalIP ` set as \<and>
    (length kept' = length kept + length as \<longrightarrow> canonicalIP ` set as \<subseteq> set addrs')"
  using assms
proof (induction "as" kept addrs arbitrary: kept' addrs' rule: keep_addresses.induct)
  case (2 a "as" kept addrs)
  consider (seen) "canonicalIP a \<in> set addrs" | (full) "canonicalIP a \<notin> set addrs" "length addrs \<ge> MaxAddressesPerZone"
    | (new) "canonicalIP a \<notin> set addrs" "length addrs < MaxAddressesPerZone" by fastforce
  then show ?case
  proof cases
    case seen
    then show ?thesis using "2.IH"(1) [of kept' addrs'] "2.prems" by auto
  next
    case full
    then have "length kept' \<le> length kept + length as"
      using "2.IH"(2) [of kept' addrs'] "2.prems" by auto
    then show ?thesis using "2.IH"(2) [of kept' addrs'] "2.prems" full by auto
  next
    case new
    then have "distinct (addrs @ [canonicalIP a]) \<and> length (addrs @ [canonicalIP a]) \<le> MaxAddressesPerZone"
      using "2.prems" by auto
    then show ?thesis using "2.IH"(3) [of kept' addrs'] "2.prems" new by auto
  qed
qed auto

text \<open>
  The invariant of the loop: at most 64 distinct addresses, all of the nameservers listed, at
  most 16 of each; if nothing is said to be left out, the query list holds every address of
  every nameserver listed.
\<close>

definition nsset_ok :: "nsset \<Rightarrow> bool" where
  "nsset_ok s \<longleftrightarrow> distinct (nss_Addresses s) \<and> length (nss_Addresses s) \<le> MaxAddressesPerZone \<and>
     (\<forall>n \<in> set (nss_Records s). length (ns_Addresses n) \<le> MaxAddressesPerNameserver \<and>
        canonicalIP ` set (ns_Addresses n) \<subseteq> set (nss_Addresses s))"

lemma keep_addresses_kept:
  "keep_addresses as kept addrs = (kept', addrs') \<Longrightarrow> canonicalIP ` set kept \<subseteq> set addrs \<Longrightarrow>
     canonicalIP ` set kept' \<subseteq> set addrs'"
  by (induction "as" kept addrs rule: keep_addresses.induct) (auto split: if_splits)

lemma add_nameserver_ok:
  assumes "nsset_ok s"
  shows "nsset_ok (add_nameserver ns found s)"
proof -
  obtain all problems err where f: "found = (all, problems, err)" by (cases found)
  let ?addrs = "if length all > MaxAddressesPerNameserver then take MaxAddressesPerNameserver all else all"
  obtain kept q where k: "keep_addresses ?addrs [] (nss_Addresses s) = (kept, q)" by fastforce
  have b: "distinct q \<and> length q \<le> MaxAddressesPerZone \<and> set (nss_Addresses s) \<subseteq> set q \<and> length kept \<le> length ?addrs"
    using keep_addresses_bounds [OF k] assms by (simp add: nsset_ok_def)
  moreover have "length ?addrs \<le> MaxAddressesPerNameserver" by simp
  ultimately have len: "length kept \<le> MaxAddressesPerNameserver" by linarith
  have new: "canonicalIP ` set kept \<subseteq> set q" by (rule keep_addresses_kept [OF k]) simp
  have old: "length (ns_Addresses n) \<le> MaxAddressesPerNameserver \<and> canonicalIP ` set (ns_Addresses n) \<subseteq> set q"
    if "n \<in> set (nss_Records s)" for n using that assms b unfolding nsset_ok_def by blast
  define n where "n = last (nss_Records (add_nameserver ns found s))"
  have "nss_Addresses (add_nameserver ns found s) = q" "ns_Addresses n = kept"
    "nss_Records (add_nameserver ns found s) = nss_Records s @ [n]"
    using f k by (simp_all add: n_def add_nameserver_def Let_def)
  then show ?thesis using b len new old by (simp add: nsset_ok_def)
qed

lemma resolve_each_ok:
  assumes "resolve_each lib r nss s w = (Inr s', w')" and "nsset_ok s"
  shows "nsset_ok s' \<and> length (nss_Records s') = length (nss_Records s) + length nss"
  using assms
proof (induction nss arbitrary: s w)
  case (Cons ns nss)
  obtain found w1 where "resolve_each lib r nss (add_nameserver ns found s) w1 = (Inr s', w')"
    using Cons.prems(1) by (auto simp: op_bind_Inr split: if_splits)
  from Cons.IH [OF this add_nameserver_ok [OF Cons.prems(2)]] show ?case
    by (simp add: add_nameserver_def Let_def split: prod.splits)
qed simp

theorem ResolveNSSet_bounds:
  assumes "ResolveNSSet lib r zone w = (Inr s, w')"
  shows "nsset_ok s" "length (nss_Records s) \<le> MaxNameserversPerZone"
proof -
  obtain recs w1 where run: "resolve_each lib r (take MaxNameserversPerZone recs)
       \<lparr>nss_Records = [], nss_Addresses = [],
        nss_Truncation = (if length recs > MaxNameserversPerZone then [''too many distinct nameservers''] else [])\<rparr> w1 = (Inr s, w')"
    using assms unfolding ResolveNSSet_def by (auto simp: op_bind_Inr)
  have "nsset_ok s \<and> length (nss_Records s) = 0 + length (take MaxNameserversPerZone recs)"
    using resolve_each_ok [OF run] by (simp add: nsset_ok_def)
  then show "nsset_ok s" "length (nss_Records s) \<le> MaxNameserversPerZone" by simp_all
qed

end
