(* ===== verification/Ds_Compare.thy ===== *)
theory Ds_Compare
  imports Net_Resolve
begin

text \<open>
  Comparisons and warnings of the validator: DS sets of different servers and of the registry
  (\<open>validator.go\<close>), DNSKEY sets by their material, deprecated algorithms and NSEC3
  settings (\<open>warnings.go\<close>).
\<close>

section \<open>Sets of records\<close>

definition ds_id :: "char \<Rightarrow> ds_rec \<Rightarrow> string" where
  "ds_id sep d = show_word (ds_KeyTag d) @ [sep] @ show_word (ds_Algorithm d) @ [sep] @ show_word (ds_DigestType d) @
     [sep] @ ToUpper (ds_Digest d)"

definition sameDSRecords :: "ds_rec list \<Rightarrow> ds_rec list \<Rightarrow> bool" where
  "sameDSRecords a b \<longleftrightarrow> length a = length b \<and> list_all (\<lambda>d. ds_id (CHR ''/'') d \<in> ds_id (CHR ''/'') ` set a) b"

definition dsSummary :: "ds_rec list \<Rightarrow> string" where
  "dsSummary ds = (if ds = [] then ''no DS'' else
     show_nat (length ds) @ '' DS ('' @ join_with (CHR '','') (map (\<lambda>d.
       show_word (ds_KeyTag d) @ ''/'' @ show_word (ds_Algorithm d) @ ''/'' @ show_word (ds_DigestType d)) ds) @ '')'')"

definition dnskeyMaterialSet :: "netlib \<Rightarrow> key_rec list \<Rightarrow> string set" where
  "dnskeyMaterialSet lib keys = key_id (tlib lib) ` set keys"

definition sameDNSKEYMaterial :: "netlib \<Rightarrow> key_rec list \<Rightarrow> key_rec list \<Rightarrow> bool" where
  "sameDNSKEYMaterial lib a b \<longleftrightarrow>
     (let sa = dnskeyMaterialSet lib a; sb = dnskeyMaterialSet lib b in card sa = card sb \<and> sa \<subseteq> sb)"

definition keyTagSummary :: "key_rec list \<Rightarrow> string" where
  "keyTagSummary keys = (if keys = [] then ''no DNSKEY'' else
     show_nat (length keys) @ '' keys (tags '' @ join_with (CHR '','') (map (\<lambda>k. show_word (kr_KeyTag k)) keys) @ '')'')"

lemma sameDNSKEYMaterial_exact:
  "sameDNSKEYMaterial lib a b \<longleftrightarrow> dnskeyMaterialSet lib a = dnskeyMaterialSet lib b"
  unfolding sameDNSKEYMaterial_def Let_def by (auto simp: dnskeyMaterialSet_def dest: card_subset_eq [rotated])

section \<open>The registry's DS data\<close>

datatype ds_match = DSMatchFull | DSMatchPartial | DSMatchNone | DSMatchNoRDAP | DSMatchUnsigned

text \<open>RDAP gives machine integers and free text.\<close>

record rdap_ds =
  rd_KeyTag :: int
  rd_Algorithm :: int
  rd_DigestType :: int
  rd_Digest :: string

record rdap_secure =
  rs_DelegationSigned :: bool
  rs_DSData :: "rdap_ds list"

record rdap_result =
  rp_DelegationSigned :: bool
  rp_DSData :: "ds_rec list"
  rp_DSMatch :: ds_match
  rp_Error :: "error option"

definition rdapDigestLengths :: "int \<Rightarrow> nat option" where
  "rdapDigestLengths dt = map_of [(1, 20), (2, 32), (4, 48)] dt"

definition validateRDAPDS :: "rdap_ds \<Rightarrow> error + ds_rec" where
  "validateRDAPDS ds =
     (if rd_KeyTag ds < 0 \<or> rd_KeyTag ds > 0xFFFF then Inl (Msg ''keyTag out of range'')
      else if rd_Algorithm ds < 0 \<or> rd_Algorithm ds > 0xFF then Inl (Msg ''algorithm out of range'')
      else if rd_DigestType ds < 0 \<or> rd_DigestType ds > 0xFF then Inl (Msg ''digestType out of range'')
      else case rdapDigestLengths (rd_DigestType ds) of None \<Rightarrow> Inl (Msg ''digestType is not a supported DS digest type'')
      | Some want \<Rightarrow>
          let digest = ToUpper (trim_space (rd_Digest ds)) in
          if odd (length digest) \<or> \<not> list_all is_hex digest then Inl (Msg ''digest is not hexadecimal'')
          else if length digest div 2 \<noteq> want then Inl (Msg ''digest length does not match digest type'')
          else Inr \<lparr>ds_Owner = [], ds_Class = 0, ds_Section = [], ds_KeyTag = word_of_int (rd_KeyTag ds),
                    ds_Algorithm = word_of_int (rd_Algorithm ds), ds_DigestType = word_of_int (rd_DigestType ds),
                    ds_Digest = digest\<rparr>)"

definition compareDSRecords :: "ds_rec list \<Rightarrow> ds_rec list \<Rightarrow> ds_match" where
  "compareDSRecords dnsDS rdapDS =
     (if dnsDS = [] \<or> rdapDS = [] then DSMatchNone else
      let normalizedDNS = ds_id (CHR ''-'') ` set dnsDS;
          matchCount = length (filter (\<lambda>d. ds_id (CHR ''-'') d \<in> normalizedDNS) rdapDS) in
      if matchCount = 0 then DSMatchNone
      else if matchCount = length rdapDS \<and> matchCount = length dnsDS then DSMatchFull
      else DSMatchPartial)"

text \<open>The RDAP service is a function from the number of the call and the zone to its answer.\<close>

type_synonym rdap_client = "nat \<Rightarrow> string \<Rightarrow> error + rdap_secure option"

definition queryRDAPSecureDNS :: "rdap_client \<Rightarrow> string \<Rightarrow> ds_rec list \<Rightarrow> (vworld, rdap_result) op" where
  "queryRDAPSecureDNS client zone dnsDS = (\<lambda>w.
     (let result = \<lparr>rp_DelegationSigned = False, rp_DSData = [], rp_DSMatch = DSMatchNoRDAP, rp_Error = None\<rparr> in
      Inr (case client (vw_ticks w) zone of
        Inl e \<Rightarrow> result\<lparr>rp_Error := Some e\<rparr>
      | Inr None \<Rightarrow> result\<lparr>rp_Error := Some (Msg ''domain not found in RDAP'')\<rparr>
      | Inr (Some s) \<Rightarrow>
          let result = result\<lparr>rp_DelegationSigned := rs_DelegationSigned s\<rparr> in
          if \<not> rs_DelegationSigned s \<or> rs_DSData s = [] then
            result\<lparr>rp_DSMatch := DSMatchUnsigned,
                   rp_Error := (if dnsDS \<noteq> [] then Some (Msg ''RDAP reports domain as unsigned but DNS has DS records'') else None)\<rparr>
          else let rdapDS = concat (map (\<lambda>d. case validateRDAPDS d of Inl _ \<Rightarrow> [] | Inr r \<Rightarrow> [r]) (rs_DSData s)) in
            result\<lparr>rp_DSData := rdapDS,
                   rp_Error := (if length rdapDS < length (rs_DSData s) then Some (Msg ''malformed RDAP DS records ignored'') else None),
                   rp_DSMatch := compareDSRecords dnsDS rdapDS\<rparr>),
      w\<lparr>vw_ticks := Suc (vw_ticks w)\<rparr>))"

text \<open>
  A record of the registry that passes the check keeps its values at the width of the wire: none
  wraps into another record's.
\<close>

lemma validateRDAPDS_exact:
  assumes "validateRDAPDS ds = Inr r"
  shows "uint (ds_KeyTag r) = rd_KeyTag ds" "uint (ds_Algorithm r) = rd_Algorithm ds"
    "uint (ds_DigestType r) = rd_DigestType ds" "ds_DigestType r \<in> {1, 2, 4}" "list_all is_hex (ds_Digest r)"
proof -
  have ranges: "0 \<le> rd_KeyTag ds" "rd_KeyTag ds < 2 ^ 16" "0 \<le> rd_Algorithm ds" "rd_Algorithm ds < 2 ^ 8"
    "rd_DigestType ds \<in> {1, 2, 4}" and
    r: "ds_KeyTag r = word_of_int (rd_KeyTag ds)" "ds_Algorithm r = word_of_int (rd_Algorithm ds)"
      "ds_DigestType r = word_of_int (rd_DigestType ds)" "list_all is_hex (ds_Digest r)"
    using assms by (auto simp: validateRDAPDS_def rdapDigestLengths_def Let_def split: if_splits option.splits)
  show "uint (ds_KeyTag r) = rd_KeyTag ds" using ranges(1,2) by (simp add: r uint_word_of_int)
  show "uint (ds_Algorithm r) = rd_Algorithm ds" using ranges(3,4) by (simp add: r uint_word_of_int)
  show "uint (ds_DigestType r) = rd_DigestType ds" "ds_DigestType r \<in> {1, 2, 4}" using ranges(5) r(3) by auto
  show "list_all is_hex (ds_Digest r)" by (rule r)
qed

section \<open>Warnings\<close>

definition deprecatedAlgorithms :: "8 word \<Rightarrow> bool" where
  "deprecatedAlgorithms a \<longleftrightarrow> a \<in> {5, 7}"

definition deprecatedDigestTypes :: "8 word \<Rightarrow> bool" where
  "deprecatedDigestTypes d \<longleftrightarrow> d = 1"

definition NSEC3IdealIterations :: nat where "NSEC3IdealIterations = 10"

definition CheckAlgorithmDeprecation :: "key_rec list \<Rightarrow> string list" where
  "CheckAlgorithmDeprecation dnskeys =
     map (\<lambda>a. ''Zone uses deprecated algorithm '' @ show_word a) (dedupe id {} (filter deprecatedAlgorithms (map kr_Algorithm dnskeys)))"

definition CheckDigestTypeDeprecation :: "ds_rec list \<Rightarrow> string list" where
  "CheckDigestTypeDeprecation dsRecords =
     map (\<lambda>d. ''DS uses deprecated digest type '' @ show_word d) (dedupe id {} (filter deprecatedDigestTypes (map ds_DigestType dsRecords)))"

definition CheckRRSIGAlgorithmDeprecation :: "rrsig_rec list \<Rightarrow> string list" where
  "CheckRRSIGAlgorithmDeprecation rrsigs =
     map (\<lambda>a. ''RRSIG uses deprecated algorithm '' @ show_word a) (dedupe id {} (filter deprecatedAlgorithms (map sr_Algorithm rrsigs)))"

definition CheckNSEC3Iterations :: "nsec3_rec list \<Rightarrow> string list" where
  "CheckNSEC3Iterations nsec3Records =
     (case List.find (\<lambda>r. unat (n3r_Iterations r) > NSEC3IdealIterations) nsec3Records of
        None \<Rightarrow> []
      | Some r \<Rightarrow> if unat (n3r_Iterations r) > NSEC3MaxRecommendedIterations
                 then [''NSEC3 iterations exceed RFC 9276 maximum''] else [''NSEC3 iterations above RFC 9276 recommendation''])"

definition CheckNSEC3OptOut :: "nsec3_rec list \<Rightarrow> string option" where
  "CheckNSEC3OptOut nsec3Records =
     (if list_ex isOptOut nsec3Records then Some ''NSEC3 opt-out enabled'' else None)"

end
