(* ===== verification/Parent_DS.thy ===== *)
theory Parent_DS
  imports Ds_Compare
begin

text \<open>
  What the parent says about a delegation (\<open>validator.go\<close>): the DS RRset its servers
  serve, the one its keys authenticate, and the proof that there is none. Every server is asked;
  the first answer that authenticates is used, and the others are compared with it.
\<close>

section \<open>State\<close>

record validator =
  vd_resolver :: resolver
  vd_anchors :: "anchor list"
  vd_quickMode :: bool
  vd_queryType :: "16 word"
  vd_rootServers :: "string list"
  vd_verificationBudget :: int
  vd_rdap :: "rdap_client option"

definition NewValidator :: "network \<Rightarrow> anchor list \<Rightarrow> string \<Rightarrow> validator" where
  "NewValidator net anchors recursiveResolver =
     \<lparr>vd_resolver = NewResolver net recursiveResolver, vd_anchors = anchors, vd_quickMode = False, vd_queryType = TypeA,
      vd_rootServers = [], vd_verificationBudget = DefaultVerificationBudget, vd_rdap = None\<rparr>"

definition SetVerificationBudget :: "int \<Rightarrow> validator \<Rightarrow> validator" where
  "SetVerificationBudget units v =
     v\<lparr>vd_verificationBudget := (if units \<le> 0 then DefaultVerificationBudget else units)\<rparr>"

definition SetQueryType :: "16 word \<Rightarrow> validator \<Rightarrow> validator" where
  "SetQueryType t v = v\<lparr>vd_queryType := (if t = 0 then TypeA else t)\<rparr>"

definition rootServerAddresses :: "validator \<Rightarrow> string list" where
  "rootServerAddresses v = (if vd_rootServers v \<noteq> [] then vd_rootServers v else GetRootServers)"

definition leafType :: "validator \<Rightarrow> 16 word" where
  "leafType v = (if vd_queryType v = 0 then TypeA else vd_queryType v)"

abbreviation vd_egress :: "validator \<Rightarrow> egress_policy option" where
  "vd_egress v \<equiv> rv_egress (vd_resolver v)"

record ds_validation =
  dv_ParentZone :: string
  dv_DSCount :: nat
  dv_RRSIGVerified :: bool
  dv_ParentSigningKey :: "16 word"
  dv_Error :: "error option"

definition DSValidation :: "string \<Rightarrow> ds_validation" where
  "DSValidation parentZone = \<lparr>dv_ParentZone = parentZone, dv_DSCount = 0, dv_RRSIGVerified = False,
     dv_ParentSigningKey = 0, dv_Error = None\<rparr>"

record disagreement =
  di_Server :: string
  di_IP :: string
  di_Issue :: string
  di_Expected :: string
  di_Got :: string

record parent_ds =
  pd_Observed :: "ds_rec list"
  pd_Authenticated :: "ds_rec list"
  pd_Validation :: ds_validation
  pd_Response :: query_result
  pd_Disagreements :: "disagreement list"
  pd_AbsenceProof :: "nsec_proof option"
  pd_AbsenceProven :: bool
  pd_Truncation :: "string list"

text \<open>The test on the text of an error field; an empty field is \<open>None\<close>.\<close>

definition exhausted_error :: "error option \<Rightarrow> bool" where
  "exhausted_error e = (case e of None \<Rightarrow> False | Some e \<Rightarrow> IsBudgetExhausted e)"

definition opt_text :: "error option \<Rightarrow> string" where
  "opt_text e = (case e of None \<Rightarrow> [] | Some e \<Rightarrow> error_text e)"

section \<open>The signed DS RRset\<close>

definition parentZoneFromHierarchy :: "string \<Rightarrow> string list \<Rightarrow> string" where
  "parentZoneFromHierarchy zone hierarchy =
     (case List.find (\<lambda>i. canonicalizeName (hierarchy ! i) = canonicalizeName zone) [0..<length hierarchy] of
        None \<Rightarrow> GetParentZone zone
      | Some i \<Rightarrow> if i = 0 then [] else canonicalizeName (hierarchy ! (i - 1)))"

text \<open>The authenticated DS records, or \<open>None\<close>, with the outcome recorded.\<close>

definition verifyDSRRSIGSetB ::
  "netlib \<Rightarrow> ds_validation \<Rightarrow> string \<Rightarrow> string \<Rightarrow> key_rec list \<Rightarrow> bytes \<Rightarrow> (vworld, ds_rec list option \<times> ds_validation) op" where
  "verifyDSRRSIGSetB lib validation childZone parentZone parentDNSKEY rawResponse =
     op_try (verifyRRsetFromResponseB (tlib lib) (Unpack lib) rawResponse TypeDS parentDNSKEY childZone parentZone True)
       (\<lambda>r. case r of
          Inl e \<Rightarrow> op_ok (None, validation\<lparr>dv_Error := Some (Wrap ''DS RRSIG verification failed'' e)\<rparr>)
        | Inr v \<Rightarrow> op_ok (Some (dsRecordsFromVerified (tlib lib) v),
            validation\<lparr>dv_RRSIGVerified := True, dv_ParentSigningKey := sig_KeyTag (vr_Signature v)\<rparr>))"

section \<open>The absence of a DS RRset\<close>

definition absence_proof :: "string \<Rightarrow> nsec_proof" where
  "absence_proof kind = (NSECProof kind)\<lparr>pf_ResponseType := ''DS-ABSENCE''\<rparr>"

text \<open>The first NSEC of the child that marks a delegation; one with the DS bit ends the search.\<close>

fun absence_nsec :: "string \<Rightarrow> nsec_rec list \<Rightarrow> error + nsec_rec option" where
  "absence_nsec child [] = Inr None"
| "absence_nsec child (n # ns) =
     (if canonicalizeName (nr_Owner n) \<noteq> child then absence_nsec child ns
      else if HasTypeInBitmap ''DS'' (nr_TypeBitmap n) then Inl (Msg ''parent NSEC at the delegation point has the DS bit set'')
      else if \<not> HasTypeInBitmap ''NS'' (nr_TypeBitmap n) \<or> HasTypeInBitmap ''SOA'' (nr_TypeBitmap n) then absence_nsec child ns
      else Inr (Some n))"

fun absence_chains :: "netlib \<Rightarrow> string \<Rightarrow> nsec_proof \<Rightarrow> error option \<Rightarrow> nsec3_chain list \<Rightarrow> nsec_proof \<times> bool" where
  "absence_chains lib child proof lastErr [] =
     (proof\<lparr>pf_Error := Some (case lastErr of Some e \<Rightarrow> e | None \<Rightarrow> Msg ''no authenticated NSEC3 proves the DS RRset is absent'')\<rparr>, False)"
| "absence_chains lib child proof lastErr (c # cs) =
     (case ch_match c (ch_hash (vlib (tlib lib)) c child) of
        Some rec \<Rightarrow>
          if HasTypeInBitmap ''DS'' (n3r_TypeBitmap rec) then
            (proof\<lparr>pf_Error := Some (Msg ''parent NSEC3 at the delegation point has the DS bit set'')\<rparr>, False)
          else if \<not> HasTypeInBitmap ''NS'' (n3r_TypeBitmap rec) \<or> HasTypeInBitmap ''SOA'' (n3r_TypeBitmap rec) then
            absence_chains lib child proof (Some (Msg ''NSEC3 matching the name is not a delegation point'')) cs
          else (proof\<lparr>pf_Verified := True, pf_ClosestEncloser := child,
                 pf_CoveringNSEC := show_types (''NSEC3 '' @ n3r_HashedOwner rec) (n3r_TypeBitmap rec)\<rparr>, True)
      | None \<Rightarrow>
          (case closestEncloser (vlib (tlib lib)) c child of
             Inl e \<Rightarrow> absence_chains lib child proof (Some e) cs
           | Inr (ce, nextCloser, _, ncRec) \<Rightarrow>
               if \<not> isOptOut ncRec then
                 absence_chains lib child proof (Some (Msg ''next closer name is covered by a non-opt-out NSEC3'')) cs
               else (proof\<lparr>pf_Verified := True, pf_OptOut := True, pf_ClosestEncloser := ce, pf_NextCloser := nextCloser,
                      pf_CoveringNSEC := show_range (''NSEC3 '' @ n3r_HashedOwner ncRec) (n3r_NextHashed ncRec) @ '' [opt-out]''\<rparr>, True)))"

definition verifyDSAbsence ::
  "netlib \<Rightarrow> string \<Rightarrow> string \<Rightarrow> key_rec list \<Rightarrow> query_result \<Rightarrow> (vworld, nsec_proof \<times> bool) op" where
  "verifyDSAbsence lib childName parentZone parentDNSKEY qr =
     (let child = canonicalizeName childName;
          nsecCands = denialNSECCandidates (qr_NSEC qr); nsec3Cands = denialNSEC3Candidates (qr_NSEC3 qr);
          denial = (\<lambda>t. verifyDenialRRsetsFromResponseB (tlib lib) (Unpack lib) (qr_RawResponse qr) t parentDNSKEY parentZone) in
      if nsecCands \<noteq> [] then
        let proof = absence_proof ''NSEC'' in
        op_try (denial TypeNSEC) (\<lambda>r. op_ok (case r of
          Inl e \<Rightarrow> (proof\<lparr>pf_Error := Some (Wrap ''NSEC RRSIG verification failed'' e)\<rparr>, False)
        | Inr (verified, rejected) \<Rightarrow>
            (case absence_nsec child (nsecRecordsFromVerified (tlib lib) verified) of
               Inl e \<Rightarrow> (proof\<lparr>pf_Error := Some e\<rparr>, False)
             | Inr None \<Rightarrow> (proof\<lparr>pf_Error := Some (Msg ''no authenticated NSEC proves the DS RRset is absent'')\<rparr>, False)
             | Inr (Some n) \<Rightarrow> (proof\<lparr>pf_Verified := True, pf_CoveringNSEC := show_types (nr_Owner n) (nr_TypeBitmap n)\<rparr>, True))))
      else if nsec3Cands \<noteq> [] then
        let proof = absence_proof ''NSEC3'' in
        if nsec3IterationsOverCap nsec3Cands \<noteq> None then
          op_ok (proof\<lparr>pf_Error := Some (Msg ''NSEC3 iterations exceed the cap'')\<rparr>, False)
        else op_try (denial TypeNSEC3) (\<lambda>r. op_ok (case r of
          Inl e \<Rightarrow> (proof\<lparr>pf_Error := Some (Wrap ''NSEC3 RRSIG verification failed'' e)\<rparr>, False)
        | Inr (verified, rejected) \<Rightarrow>
            (case nsec3Chains (nsec3RecordsFromVerified (tlib lib) verified) of
               Inl e \<Rightarrow> (proof\<lparr>pf_Error := Some (Wrap ''no usable NSEC3 chain'' e)\<rparr>, False)
             | Inr (found, ignored) \<Rightarrow> absence_chains lib child (proof\<lparr>pf_Ignored := ignored\<rparr>) None found)))
      else op_ok ((absence_proof [])\<lparr>pf_Error := Some (Msg ''no NSEC/NSEC3 records accompany the DS-absent response'')\<rparr>, False))"

section \<open>The servers of the parent\<close>

definition ds_usable :: "query_result \<Rightarrow> bool" where
  "ds_usable qr \<longleftrightarrow> qr_Error qr = None \<and> (qr_RCode qr = RcodeSuccess \<or> qr_RCode qr = RcodeNameError)"

definition classifyParentDSAnswer ::
  "netlib \<Rightarrow> query_result \<Rightarrow> string \<Rightarrow> string \<Rightarrow> key_rec list \<Rightarrow> (vworld, parent_ds \<times> bool) op" where
  "classifyParentDSAnswer lib qr zone parentZone parentDNSKEY =
     (let observed = (if qr_RCode qr = RcodeSuccess then answerDSOwnedBy (tlib lib) (qr_DS qr) zone else []);
          validation = (DSValidation parentZone)\<lparr>dv_DSCount := length observed\<rparr>;
          out = \<lparr>pd_Observed = observed, pd_Authenticated = [], pd_Validation = validation, pd_Response = qr,
                 pd_Disagreements = [], pd_AbsenceProof = None, pd_AbsenceProven = False, pd_Truncation = []\<rparr> in
      if parentDNSKEY = [] then op_ok (out, False)
      else if observed \<noteq> [] then
        op_bind (verifyDSRRSIGSetB lib validation zone parentZone parentDNSKEY (qr_RawResponse qr)) (\<lambda>(got, validation').
        let authed = (case got of None \<Rightarrow> [] | Some ds \<Rightarrow> ds) in
        op_ok (out\<lparr>pd_Authenticated := authed, pd_Validation := validation'\<rparr>, authed \<noteq> []))
      else
        op_bind (verifyDSAbsence lib zone parentZone parentDNSKEY qr) (\<lambda>(proof, proven).
        op_ok (out\<lparr>pd_AbsenceProof := Some proof, pd_AbsenceProven := proven\<rparr>, proven)))"

record ds_candidate =
  dc_addr :: string
  dc_qr :: query_result
  dc_result :: "parent_ds option"

text \<open>The answers of the servers and the position of the first that authenticates.\<close>

primrec query_parents ::
  "netlib \<Rightarrow> validator \<Rightarrow> string \<Rightarrow> string \<Rightarrow> key_rec list \<Rightarrow> ds_candidate list \<Rightarrow> nat option \<Rightarrow> string list \<Rightarrow>
     (vworld, ds_candidate list \<times> nat option) op" where
  "query_parents lib v zone parentZone keys cands chosen [] = op_ok (cands, chosen)"
| "query_parents lib v zone parentZone keys cands chosen (addr # addrs) =
     op_bind ctx_ended (\<lambda>ended. if ended then op_ok (cands, chosen) else
     op_bind (QueryDSAuthoritative lib (vd_resolver v) addr zone) (\<lambda>qr.
     op_bind (if ds_usable qr then
                op_bind (classifyParentDSAnswer lib qr zone parentZone keys) (\<lambda>(out, auth). op_ok (Some out, auth))
              else op_ok (None, False)) (\<lambda>(res, auth).
     let cands' = cands @ [\<lparr>dc_addr = addr, dc_qr = qr, dc_result = res\<rparr>] in
     if auth \<and> chosen = None then
       if vd_quickMode v then op_ok (cands', Some (length cands))
       else query_parents lib v zone parentZone keys cands' (Some (length cands)) addrs
     else query_parents lib v zone parentZone keys cands' chosen addrs)))"

definition parent_disagrees :: "string \<Rightarrow> string \<Rightarrow> string \<Rightarrow> string \<Rightarrow> string \<Rightarrow> disagreement option" where
  "parent_disagrees parentZone addr issue expected got =
     Some \<lparr>di_Server = ''parent '' @ parentZone, di_IP = addr, di_Issue = issue, di_Expected = expected, di_Got = got\<rparr>"

definition judgeParentDSServer ::
  "netlib \<Rightarrow> parent_ds \<Rightarrow> string \<Rightarrow> query_result \<Rightarrow> string \<Rightarrow> string \<Rightarrow> key_rec list \<Rightarrow> (vworld, disagreement option) op" where
  "judgeParentDSServer lib chosen addr qr zone parentZone parentDNSKEY =
     (let d = parent_disagrees parentZone addr; observed = answerDSOwnedBy (tlib lib) (qr_DS qr) zone in
      if qr_Error qr \<noteq> None then op_ok (d ''parent server did not answer the DS query'' ''DS answer'' (opt_text (qr_Error qr)))
      else if qr_RCode qr \<noteq> RcodeSuccess then
        op_ok (d ''parent server answered the DS query with an error'' ''NOERROR'' (qr_RCodeName qr))
      else if \<not> sameDSRecords observed (pd_Observed chosen) then
        op_ok (d ''parent server served a different DS RRset'' (dsSummary (pd_Observed chosen)) (dsSummary observed))
      else if parentDNSKEY = [] then op_ok None
      else if observed \<noteq> [] then
        op_bind (verifyDSRRSIGSetB lib (DSValidation parentZone) zone parentZone parentDNSKEY (qr_RawResponse qr)) (\<lambda>(got, val).
        op_ok (if got \<noteq> None \<or> exhausted_error (dv_Error val) then None
               else d ''parent server's DS RRSIG does not verify'' ''valid signature'' (opt_text (dv_Error val))))
      else
        op_bind (verifyDSAbsence lib zone parentZone parentDNSKEY qr) (\<lambda>(proof, ok).
        op_ok (if ok \<or> exhausted_error (pf_Error proof) then None
               else d ''parent server's proof of DS absence does not verify'' ''authenticated NSEC/NSEC3 proof of DS absence''
                      (opt_text (pf_Error proof)))))"

primrec judge_parents ::
  "netlib \<Rightarrow> string \<Rightarrow> string \<Rightarrow> key_rec list \<Rightarrow> parent_ds \<Rightarrow> ds_candidate list \<Rightarrow> (vworld, parent_ds) op" where
  "judge_parents lib zone parentZone keys out [] = op_ok out"
| "judge_parents lib zone parentZone keys out (c # cs) =
     op_bind (judgeParentDSServer lib out (dc_addr c) (dc_qr c) zone parentZone keys) (\<lambda>d.
     judge_parents lib zone parentZone keys
       (case d of None \<Rightarrow> out | Some d \<Rightarrow> out\<lparr>pd_Disagreements := pd_Disagreements out @ [d]\<rparr>) cs)"

definition first_usable :: "ds_candidate list \<Rightarrow> nat option" where
  "first_usable cands = List.find (\<lambda>i. dc_result (cands ! i) \<noteq> None) [0..<length cands]"

definition parent_servers :: "netlib \<Rightarrow> validator \<Rightarrow> string \<Rightarrow> string list \<Rightarrow> (vworld, string list \<times> string list) op" where
  "parent_servers lib v parentZone fallbackServers =
     (if parentZone = ''.'' then
        op_ok (if rootServerAddresses v = [] then fallbackServers else rootServerAddresses v, [])
      else op_try (ResolveNSSet lib (vd_resolver v) parentZone) (\<lambda>r. op_ok (case r of
        Inl _ \<Rightarrow> (fallbackServers, [])
      | Inr s \<Rightarrow> (if nss_Addresses s = [] then fallbackServers else nss_Addresses s, nss_Truncation s))))"

definition queryDSFromParentWithValidation ::
  "netlib \<Rightarrow> validator \<Rightarrow> string \<Rightarrow> string \<Rightarrow> string list \<Rightarrow> key_rec list \<Rightarrow> (vworld, parent_ds) op" where
  "queryDSFromParentWithValidation lib v zone parentZone fallbackServers parentDNSKEY =
     op_bind (parent_servers lib v parentZone fallbackServers) (\<lambda>(parentNS, truncation).
     op_bind (query_parents lib v zone parentZone parentDNSKEY [] None parentNS) (\<lambda>(cands, chosen).
     case (case chosen of Some i \<Rightarrow> Some i | None \<Rightarrow> first_usable cands) of
       None \<Rightarrow> op_fail (Msg ''failed to query DS from parent zone'')
     | Some i \<Rightarrow>
         (case dc_result (cands ! i) of None \<Rightarrow> op_fail (Msg ''failed to query DS from parent zone'') | Some out \<Rightarrow>
          judge_parents lib zone parentZone parentDNSKEY (out\<lparr>pd_Truncation := truncation\<rparr>)
            (map ((!) cands) (filter (\<lambda>j. j \<noteq> i) [0..<length cands])))))"

end
