(* ===== verification/Zone_Walk.thy ===== *)
theory Zone_Walk
  imports Parent_DS
begin

text \<open>
  The validation of one zone (\<open>validateZone\<close> in \<open>validator.go\<close>): its servers are asked
  for the DNSKEY RRset, the trust source is fixed (pinned anchors for the root, the parent's signed
  DS RRset below it), and the first answer that chains to it makes the zone secure; the other
  servers are judged against it.
\<close>

section \<open>Results\<close>

datatype status = StatusSecure | StatusInsecure | StatusBogus | StatusIndeterminate | StatusValidating

record address_result =
  ar_IP :: string
  ar_Status :: status
  ar_Error :: "error option"
  ar_Response :: "query_result option"

record record_validation =
  rc_Name :: string
  rc_RecordType :: string
  rc_RecordCount :: nat
  rc_RRSIGVerified :: bool
  rc_SigningKeyTag :: "16 word"
  rc_DenialProof :: "nsec_proof option"
  rc_Wildcard :: bool
  rc_WildcardSource :: string
  rc_WildcardProofVerified :: bool
  rc_WildcardProof :: "nsec_proof option"
  rc_ServerDisagreements :: "string list"
  rc_Target :: string
  rc_SynthesizedFrom :: string
  rc_Error :: "error option"

record zone_result =
  zr_Zone :: string
  zr_Status :: status
  zr_Nameservers :: "(string \<times> address_result list) list"
  zr_DNSKEY :: "key_rec list"
  zr_DS :: "ds_rec list"
  zr_RRSIG :: "rrsig_rec list"
  zr_NSEC :: "nsec_rec list"
  zr_NSEC3 :: "nsec3_rec list"
  zr_NSEC3OptOut :: bool
  zr_WildcardSource :: string
  zr_DenialProof :: "nsec_proof option"
  zr_RecordValidation :: "record_validation option"
  zr_DSValidation :: "ds_validation option"
  zr_RDAPSecureDNS :: "rdap_result option"
  zr_ChainLink :: "chain_link option"
  zr_Disagreements :: "disagreement list"
  zr_Warnings :: "string list"
  zr_Errors :: "error list"

definition NewZoneResult :: "string \<Rightarrow> zone_result" where
  "NewZoneResult zone = \<lparr>zr_Zone = zone, zr_Status = StatusValidating, zr_Nameservers = [], zr_DNSKEY = [], zr_DS = [],
     zr_RRSIG = [], zr_NSEC = [], zr_NSEC3 = [], zr_NSEC3OptOut = False, zr_WildcardSource = [], zr_DenialProof = None,
     zr_RecordValidation = None, zr_DSValidation = None, zr_RDAPSecureDNS = None, zr_ChainLink = None,
     zr_Disagreements = [], zr_Warnings = [], zr_Errors = []\<rparr>"

definition zone_AddError :: "error \<Rightarrow> zone_result \<Rightarrow> zone_result" where
  "zone_AddError e z = z\<lparr>zr_Errors := zr_Errors z @ [e]\<rparr>"

definition add_warnings :: "string list \<Rightarrow> zone_result \<Rightarrow> zone_result" where
  "add_warnings ws z = z\<lparr>zr_Warnings := zr_Warnings z @ ws\<rparr>"

definition verdict :: "status \<Rightarrow> string \<Rightarrow> zone_result \<Rightarrow> zone_result" where
  "verdict s why z = zone_AddError (Msg why) (z\<lparr>zr_Status := s\<rparr>)"

section \<open>Asking the servers\<close>

definition server_result :: "string \<Rightarrow> query_result \<Rightarrow> address_result" where
  "server_result srv qr =
     (let result = \<lparr>ar_IP = srv, ar_Status = StatusValidating, ar_Error = None, ar_Response = None\<rparr> in
      if qr_Error qr \<noteq> None then result\<lparr>ar_Status := StatusIndeterminate, ar_Error := qr_Error qr\<rparr>
      else if qr_RCode qr \<noteq> 0 then result\<lparr>ar_Status := StatusIndeterminate, ar_Error := Some (Msg (qr_RCodeName qr))\<rparr>
      else result\<lparr>ar_Response := Some qr\<rparr>)"

text \<open>
  \<open>runBounded\<close>: every index runs once in its own slot, in no fixed order, unless the context
  ends first. Answers are indexed by the exchange, so one order stands for all of them.
\<close>

primrec query_servers :: "netlib \<Rightarrow> validator \<Rightarrow> string \<Rightarrow> string list \<Rightarrow> (vworld, address_result list) op" where
  "query_servers lib v zone [] = op_ok []"
| "query_servers lib v zone (srv # srvs) =
     op_bind ctx_ended (\<lambda>ended.
     op_bind (if ended then
                op_ok \<lparr>ar_IP = srv, ar_Status = StatusIndeterminate,
                       ar_Error = Some (Msg ''not queried: validation ended before this server's turn''), ar_Response = None\<rparr>
              else op_bind (QueryDNSKEYAuthoritative lib (vd_resolver v) srv zone) (\<lambda>qr. op_ok (server_result srv qr))) (\<lambda>a.
     op_bind (query_servers lib v zone srvs) (\<lambda>as. op_ok (a # as))))"

definition ValidateMultipleServers :: "netlib \<Rightarrow> validator \<Rightarrow> string \<Rightarrow> string list \<Rightarrow> (vworld, address_result list) op" where
  "ValidateMultipleServers lib v zone servers =
     (let queryServers = UniqueAddresses servers in
      query_servers lib v zone (if vd_quickMode v \<and> length queryServers > 2 then take 2 queryServers else queryServers))"

definition applyServerResults :: "address_result list \<Rightarrow> zone_result \<Rightarrow> zone_result" where
  "applyServerResults srs z = z\<lparr>zr_Nameservers := map (\<lambda>(name, addrs). (name, map (\<lambda>a.
     case map_of (rev (map (\<lambda>s. (ar_IP s, s)) srs)) (ar_IP a) of Some s \<Rightarrow> s | None \<Rightarrow> a) addrs)) (zr_Nameservers z)\<rparr>"

definition markUsable :: "status \<Rightarrow> string \<Rightarrow> address_result list \<Rightarrow> zone_result \<Rightarrow> zone_result" where
  "markUsable s reason srs z = applyServerResults (map (\<lambda>a. if ar_Response a = None then a
     else a\<lparr>ar_Status := s, ar_Error := (if reason \<noteq> [] then Some (Msg reason) else ar_Error a)\<rparr>) srs) z"

text \<open>The nameservers of the zone: addresses, exceeded bounds, and the result to fill.\<close>

definition listed :: "string \<Rightarrow> string list \<Rightarrow> string \<times> address_result list" where
  "listed name addrs = (name, map (\<lambda>a. \<lparr>ar_IP = a, ar_Status = StatusValidating, ar_Error = None, ar_Response = None\<rparr>) addrs)"

definition zone_servers :: "netlib \<Rightarrow> validator \<Rightarrow> string \<Rightarrow> (vworld, string list \<times> string list \<times> zone_result) op" where
  "zone_servers lib v zone =
     (let result = NewZoneResult zone in
      if zone = ''.'' then
        op_ok (rootServerAddresses v, [], result\<lparr>zr_Nameservers := [listed ''root-servers'' (rootServerAddresses v)]\<rparr>)
      else op_bind (op_wrap ''failed to resolve NS'' (ResolveNSSet lib (vd_resolver v) zone)) (\<lambda>s.
        op_ok (nss_Addresses s, nss_Truncation s,
          result\<lparr>zr_Nameservers := map (\<lambda>n. listed (ns_Name n) (map ip_String (ns_Addresses n))) (nss_Records s),
                 zr_Warnings := concat (map (\<lambda>n. map (\<lambda>p. ''nameserver '' @ ns_Name n @ '': '' @ p) (ns_LookupErrors n)) (nss_Records s)) @
                   map (\<lambda>n. ''fan-out bound exceeded: '' @ n) (nss_Truncation s)\<rparr>)))"

section \<open>No DS record\<close>

definition finalizeNoDSDelegation ::
  "netlib \<Rightarrow> zone_result \<Rightarrow> string \<Rightarrow> string \<Rightarrow> key_rec list \<Rightarrow> parent_ds \<Rightarrow> (vworld, zone_result) op" where
  "finalizeNoDSDelegation lib result zone parentZone parentDNSKEY ds =
     (if parentDNSKEY = [] then
        op_ok (verdict StatusIndeterminate ''no authenticated parent DNSKEY set is available to verify the absence of a DS record'' result)
      else
      op_bind (case pd_AbsenceProof ds of
                 Some p \<Rightarrow> op_ok (p, pd_AbsenceProven ds)
               | None \<Rightarrow> verifyDSAbsence lib zone parentZone parentDNSKEY (pd_Response ds)) (\<lambda>(proof, ok).
      let result = result\<lparr>zr_DenialProof := Some proof\<rparr>; qr = pd_Response ds in
      op_ok (if ok then result\<lparr>zr_Status := StatusInsecure\<rparr>
        else if qr_NSEC qr = [] \<and> qr_NSEC3 qr = [] then
          verdict StatusIndeterminate ''the parent returned no authenticated proof of DS absence'' result
        else if exhausted_error (pf_Error proof) then
          zone_AddError (the (pf_Error proof)) (result\<lparr>zr_Status := StatusIndeterminate\<rparr>)
        else verdict StatusBogus ''the parent's proof of DS absence did not verify'' result)))"

text \<open>The notes of the parent's servers.\<close>

definition note_parent :: "parent_ds \<Rightarrow> zone_result \<Rightarrow> zone_result" where
  "note_parent ds z = add_warnings (map (\<lambda>n. ''parent fan-out bound exceeded: '' @ n) (pd_Truncation ds))
     (z\<lparr>zr_Disagreements := zr_Disagreements z @ pd_Disagreements ds\<rparr>)"

definition ds_query_failed :: "zone_result \<Rightarrow> zone_result" where
  "ds_query_failed z = verdict StatusIndeterminate ''failed to query DS from parent'' z"

text \<open>A zone no server of which served a DNSKEY RRset.\<close>

definition unsigned_zone ::
  "netlib \<Rightarrow> validator \<Rightarrow> string \<Rightarrow> string list \<Rightarrow> key_rec list \<Rightarrow> string list \<Rightarrow> address_result list \<Rightarrow> zone_result \<Rightarrow>
     (vworld, zone_result) op" where
  "unsigned_zone lib v zone hierarchy parentDNSKEY nsAddresses srs result =
     (if zone = ''.'' then
        op_ok (markUsable StatusBogus ''served no DNSKEY RRset for the root'' srs (verdict StatusBogus ''root zone has no DNSKEY'' result))
      else
      let parentZone = parentZoneFromHierarchy zone hierarchy in
      op_try (queryDSFromParentWithValidation lib v zone parentZone nsAddresses parentDNSKEY) (\<lambda>r. case r of
        Inl e \<Rightarrow> op_ok (ds_query_failed result)
      | Inr ds \<Rightarrow>
          let result = note_parent ds result in
          if pd_Observed ds = [] then
            op_bind (finalizeNoDSDelegation lib result zone parentZone parentDNSKEY ds) (\<lambda>result.
            op_ok (if zr_Status result = StatusInsecure then markUsable StatusInsecure [] srs result
                   else markUsable (zr_Status result) ''zone served no DNSKEY RRset'' srs result))
          else op_ok (markUsable StatusBogus ''DS exists in parent but this server served no DNSKEY RRset'' srs
                 (verdict StatusBogus ''DS exists in parent but zone has no DNSKEY'' result))))"

section \<open>The trust source\<close>

type_synonym trust_source = "key_rec list \<Rightarrow> (vworld, chain_link \<times> key_rec list) op"

definition root_trust :: "netlib \<Rightarrow> anchor list \<Rightarrow> trust_source" where
  "root_trust lib activeAnchors keys0 =
     (let keys = dedupeKeys (tlib lib) keys0 in
      op_bind (charge (int (length activeAnchors) * int (length keys) * 2)) (\<lambda>_.
      case VerifyRootTrustAnchor (tlib lib) keys activeAnchors of
        Inl e \<Rightarrow> op_fail (Wrap ''root trust anchor verification failed'' e)
      | Inr link \<Rightarrow> op_ok (link, CollectAnchorMatchedKeys (tlib lib) keys activeAnchors)))"

definition ds_trust :: "netlib \<Rightarrow> ds_rec list \<Rightarrow> string \<Rightarrow> trust_source" where
  "ds_trust lib supportedDS zone keys0 =
     (let keys = dedupeKeys (tlib lib) keys0 in
      op_bind (charge (int (length supportedDS) * int (length keys) * 2)) (\<lambda>_.
      case ValidateChainLink (tlib lib) supportedDS keys zone of
        Inl e \<Rightarrow> op_fail (Wrap ''chain of trust validation failed'' e)
      | Inr link \<Rightarrow> op_ok (link, CollectDSMatchedKeys (tlib lib) supportedDS keys zone)))"

definition check_rdap :: "netlib \<Rightarrow> validator \<Rightarrow> string \<Rightarrow> ds_rec list \<Rightarrow> zone_result \<Rightarrow> (vworld, zone_result) op" where
  "check_rdap lib v zone ds result =
     (case vd_rdap v of None \<Rightarrow> op_ok result | Some client \<Rightarrow>
      if \<not> IsRegistrableDomain (vlib (tlib lib)) zone then op_ok result
      else op_bind (queryRDAPSecureDNS client zone ds) (\<lambda>r.
        op_ok (add_warnings (if rp_DSMatch r = DSMatchNone then [''RDAP DS records do not match DNS DS records''] else [])
          (result\<lparr>zr_RDAPSecureDNS := Some r\<rparr>))))"

text \<open>The source below the root: the final result, or the source and the result to go on with.\<close>

definition delegation_from ::
  "netlib \<Rightarrow> validator \<Rightarrow> string \<Rightarrow> string \<Rightarrow> key_rec list \<Rightarrow> address_result list \<Rightarrow> zone_result \<Rightarrow> parent_ds \<Rightarrow>
     (vworld, zone_result + trust_source \<times> zone_result) op" where
  "delegation_from lib v zone parentZone parentDNSKEY srs result ds =
     (let result = (note_parent ds result)\<lparr>zr_DSValidation := Some (pd_Validation ds)\<rparr> in
      if pd_Observed ds = [] then
        op_bind (finalizeNoDSDelegation lib result zone parentZone parentDNSKEY ds) (\<lambda>result.
        op_ok (Inl (if zr_Status result = StatusInsecure then markUsable StatusInsecure [] srs result else result)))
      else
      let result = result\<lparr>zr_DS := pd_Observed ds\<rparr> in
      if exhausted_error (dv_Error (pd_Validation ds)) then
        op_ok (Inl (zone_AddError (the (dv_Error (pd_Validation ds))) (result\<lparr>zr_Status := StatusIndeterminate\<rparr>)))
      else if \<not> dv_RRSIGVerified (pd_Validation ds) \<or> pd_Authenticated ds = [] then
        op_ok (Inl (verdict StatusBogus ''DS RRset is not signed by the parent'' result))
      else
      let (supportedDS, unsupportedDS) = SupportedDSRecords (pd_Authenticated ds);
          result = add_warnings (map (\<lambda>d. ''parent DS uses an algorithm or digest type this validator does not support'') unsupportedDS) result in
      if supportedDS = [] then
        op_ok (Inl (markUsable StatusInsecure [] srs (add_warnings
          [''the authenticated DS RRset contains only unsupported algorithms/digest types''] (result\<lparr>zr_Status := StatusInsecure\<rparr>))))
      else op_bind (check_rdap lib v zone (pd_Authenticated ds) result) (\<lambda>result.
        op_ok (Inr (ds_trust lib supportedDS zone, result))))"

definition delegation_trust ::
  "netlib \<Rightarrow> validator \<Rightarrow> string \<Rightarrow> string list \<Rightarrow> key_rec list \<Rightarrow> string list \<Rightarrow> address_result list \<Rightarrow> zone_result \<Rightarrow>
     (vworld, zone_result + trust_source \<times> zone_result) op" where
  "delegation_trust lib v zone hierarchy parentDNSKEY nsAddresses srs result =
     (let parentZone = parentZoneFromHierarchy zone hierarchy in
      op_try (queryDSFromParentWithValidation lib v zone parentZone nsAddresses parentDNSKEY) (\<lambda>r. case r of
        Inl e \<Rightarrow> op_ok (Inl (ds_query_failed result))
      | Inr ds \<Rightarrow> delegation_from lib v zone parentZone parentDNSKEY srs result ds))"

definition zone_trust ::
  "netlib \<Rightarrow> validator \<Rightarrow> string \<Rightarrow> string list \<Rightarrow> key_rec list \<Rightarrow> string list \<Rightarrow> address_result list \<Rightarrow> zone_result \<Rightarrow>
     (vworld, zone_result + trust_source \<times> zone_result) op" where
  "zone_trust lib v zone hierarchy parentDNSKEY nsAddresses srs result =
     (if zone = ''.'' then
        op_bind time_now (\<lambda>now.
        let activeAnchors = GetActivePinnedAnchors now (vd_anchors v) in
        if activeAnchors = [] then
          op_ok (Inl (verdict StatusIndeterminate ''no currently-active pinned root trust anchor available'' result))
        else op_ok (Inr (root_trust lib activeAnchors, result)))
      else delegation_trust lib v zone hierarchy parentDNSKEY nsAddresses srs result)"

section \<open>Authenticating the DNSKEY RRset\<close>

datatype auth_outcome =
    AuthExhausted error "address_result list"
  | AuthFailed error "address_result list"
  | AuthOk chain_link "key_rec list" "key_rec list" query_result "address_result list"

definition authenticate_one :: "netlib \<Rightarrow> string \<Rightarrow> trust_source \<Rightarrow> key_rec list \<Rightarrow> query_result \<Rightarrow> (vworld, chain_link \<times> key_rec list) op" where
  "authenticate_one lib zone trust keys qr =
     op_bind (trust keys) (\<lambda>(link, authed).
     if qr_RawResponse qr = [] then op_fail (Msg ''DNSKEY response could not be retained in wire form'')
     else op_bind (op_wrap ''DNSKEY RRSIG verification failed''
            (verifyDNSKEYRRsetFromResponseB (tlib lib) (Unpack lib) (qr_RawResponse qr) zone authed)) (\<lambda>_. op_ok (link, authed)))"

primrec authenticate ::
  "netlib \<Rightarrow> string \<Rightarrow> trust_source \<Rightarrow> error option \<Rightarrow> address_result list \<Rightarrow> address_result list \<Rightarrow> (vworld, auth_outcome) op" where
  "authenticate lib zone trust firstErr prev [] =
     op_ok (AuthFailed (case firstErr of Some e \<Rightarrow> e | None \<Rightarrow> Msg []) prev)"
| "authenticate lib zone trust firstErr prev (sr # srs) =
     (let skip = authenticate lib zone trust firstErr (prev @ [sr]) srs in
      case ar_Response sr of None \<Rightarrow> skip | Some qr \<Rightarrow>
      let keys = answerDNSKEYsOwnedBy (tlib lib) (qr_DNSKEY qr) zone in
      if keys = [] then skip else
      op_try (authenticate_one lib zone trust keys qr) (\<lambda>r. case r of
        Inl e \<Rightarrow> if IsBudgetExhausted e then op_ok (AuthExhausted e (prev @ sr # srs))
                 else authenticate lib zone trust (case firstErr of None \<Rightarrow> Some e | Some f \<Rightarrow> Some f)
                        (prev @ [sr\<lparr>ar_Status := StatusBogus, ar_Error := Some e\<rparr>]) srs
      | Inr (link, authed) \<Rightarrow> op_ok (AuthOk link keys authed qr (prev @ sr # srs))))"

section \<open>Judging the other servers\<close>

definition judge_server ::
  "netlib \<Rightarrow> string \<Rightarrow> key_rec list \<Rightarrow> key_rec list \<Rightarrow> address_result \<Rightarrow> (vworld, address_result \<times> disagreement list) op" where
  "judge_server lib zone authenticatedRRset authenticatedKeys sr =
     (case ar_Response sr of None \<Rightarrow> op_ok (sr, []) | Some qr \<Rightarrow>
      let keys = answerDNSKEYsOwnedBy (tlib lib) (qr_DNSKEY qr) zone;
          disagree = (\<lambda>issue expected got. [\<lparr>di_Server = ar_IP sr, di_IP = ar_IP sr, di_Issue = issue, di_Expected = expected, di_Got = got\<rparr>]) in
      if \<not> sameDNSKEYMaterial lib keys authenticatedRRset then
        op_ok (sr\<lparr>ar_Status := StatusBogus, ar_Error := Some (Msg (if keys = [] then ''served no DNSKEY RRset''
                    else ''served a DNSKEY RRset that differs from the authenticated RRset''))\<rparr>,
               disagree ''DNSKEY RRset differs from the authenticated RRset'' (keyTagSummary authenticatedRRset) (keyTagSummary keys))
      else if qr_RawResponse qr = [] then
        op_ok (sr\<lparr>ar_Status := StatusIndeterminate, ar_Error := Some (Msg ''DNSKEY response could not be retained in wire form'')\<rparr>, [])
      else op_try (verifyDNSKEYRRsetFromResponseB (tlib lib) (Unpack lib) (qr_RawResponse qr) zone authenticatedKeys) (\<lambda>r. case r of
        Inl e \<Rightarrow>
          if IsBudgetExhausted e then op_ok (sr\<lparr>ar_Status := StatusIndeterminate, ar_Error := Some e\<rparr>, [])
          else op_ok (sr\<lparr>ar_Status := StatusBogus, ar_Error := Some (Wrap ''DNSKEY RRSIG verification failed'' e)\<rparr>,
                 disagree ''DNSKEY RRSIG does not verify under the authenticated keys'' ''valid signature'' (error_text e))
      | Inr _ \<Rightarrow> op_ok (sr\<lparr>ar_Status := StatusSecure, ar_Error := None\<rparr>, [])))"

primrec judge_servers ::
  "netlib \<Rightarrow> string \<Rightarrow> key_rec list \<Rightarrow> key_rec list \<Rightarrow> address_result list \<Rightarrow> (vworld, address_result list \<times> disagreement list) op" where
  "judge_servers lib zone rrset keys [] = op_ok ([], [])"
| "judge_servers lib zone rrset keys (sr # srs) =
     op_bind (judge_server lib zone rrset keys sr) (\<lambda>(sr', ds).
     op_bind (judge_servers lib zone rrset keys srs) (\<lambda>(srs', ds'). op_ok (sr' # srs', ds @ ds')))"

definition judgeDNSKEYServers ::
  "netlib \<Rightarrow> zone_result \<Rightarrow> address_result list \<Rightarrow> string \<Rightarrow> key_rec list \<Rightarrow> (vworld, zone_result) op" where
  "judgeDNSKEYServers lib result srs zone authenticatedKeys =
     op_bind (judge_servers lib zone (zr_DNSKEY result) authenticatedKeys srs) (\<lambda>(srs', ds).
     let result = result\<lparr>zr_Disagreements := zr_Disagreements result @ ds\<rparr> in
     op_ok (applyServerResults srs' (add_warnings (map (\<lambda>d. ''Nameserver '' @ di_IP d @ '': '' @ di_Issue d @
       '' (expected '' @ di_Expected d @ '', got '' @ di_Got d @ '')'') (zr_Disagreements result)) result)))"

section \<open>One zone\<close>

definition compliance_warnings :: "zone_result \<Rightarrow> zone_result" where
  "compliance_warnings z =
     (let wild = (case FindRRSIGForType TypeDNSKEY (zr_RRSIG z) of None \<Rightarrow> [] | Some s \<Rightarrow> DetectWildcardSynthesis (zr_Zone z) (sr_Labels s));
          z = (if wild = [] then z else add_warnings [''Response synthesized from wildcard '' @ wild] (z\<lparr>zr_WildcardSource := wild\<rparr>));
          z = add_warnings (CheckAlgorithmDeprecation (zr_DNSKEY z) @ CheckRRSIGAlgorithmDeprecation (zr_RRSIG z) @
                CheckDigestTypeDeprecation (zr_DS z) @ CheckNSEC3Iterations (zr_NSEC3 z)) z in
      case CheckNSEC3OptOut (zr_NSEC3 z) of None \<Rightarrow> z | Some why \<Rightarrow> add_warnings [why] (z\<lparr>zr_NSEC3OptOut := True\<rparr>))"

definition secure_zone ::
  "netlib \<Rightarrow> string \<Rightarrow> zone_result \<Rightarrow> trust_source \<Rightarrow> address_result list \<Rightarrow> (vworld, zone_result) op" where
  "secure_zone lib zone result trust srs =
     op_bind (authenticate lib zone trust None [] srs) (\<lambda>a. case a of
       AuthExhausted e srs' \<Rightarrow> op_ok (applyServerResults srs' (zone_AddError e (result\<lparr>zr_Status := StatusIndeterminate\<rparr>)))
     | AuthFailed e srs' \<Rightarrow>
         op_ok (applyServerResults (map (\<lambda>s. if ar_Response s \<noteq> None \<and> ar_Status s = StatusValidating
             then s\<lparr>ar_Status := StatusBogus, ar_Error := Some (Msg ''served no DNSKEY RRset while other servers did'')\<rparr> else s) srs')
           (zone_AddError e (result\<lparr>zr_Status := StatusBogus\<rparr>)))
     | AuthOk link keys authed qr srs' \<Rightarrow>
         op_bind (judgeDNSKEYServers lib (result\<lparr>zr_ChainLink := Some link, zr_DNSKEY := keys, zr_RRSIG := qr_RRSIG qr,
                    zr_NSEC := qr_NSEC qr, zr_NSEC3 := qr_NSEC3 qr\<rparr>) srs' zone authed) (\<lambda>result.
         op_ok ((compliance_warnings result)\<lparr>zr_Status := StatusSecure\<rparr>)))"

definition truncated_zone :: "address_result list \<Rightarrow> zone_result \<Rightarrow> zone_result" where
  "truncated_zone srs result = applyServerResults (map (\<lambda>s. if ar_Status s = StatusValidating
       then s\<lparr>ar_Status := StatusIndeterminate, ar_Error := Some (Msg ''not judged: the zone's nameserver set was truncated'')\<rparr> else s) srs)
     (verdict StatusIndeterminate ''the nameserver set exceeds the fan-out bounds'' result)"

definition diagnostics :: "netlib \<Rightarrow> string \<Rightarrow> query_result list \<Rightarrow> zone_result \<Rightarrow> zone_result" where
  "diagnostics lib zone usable result =
     (let withKeys = filter (\<lambda>qr. answerDNSKEYsOwnedBy (tlib lib) (qr_DNSKEY qr) zone \<noteq> []) usable;
          diag = (if withKeys = [] then hd usable else hd withKeys) in
      result\<lparr>zr_DNSKEY := answerDNSKEYsOwnedBy (tlib lib) (qr_DNSKEY diag) zone, zr_RRSIG := qr_RRSIG diag,
             zr_NSEC := qr_NSEC diag, zr_NSEC3 := qr_NSEC3 diag\<rparr>)"

definition judge_zone ::
  "netlib \<Rightarrow> validator \<Rightarrow> string \<Rightarrow> string list \<Rightarrow> key_rec list \<Rightarrow> bool \<Rightarrow> string \<Rightarrow> string list \<Rightarrow> address_result list \<Rightarrow>
     zone_result \<Rightarrow> (vworld, zone_result) op" where
  "judge_zone lib v zone hierarchy parentDNSKEY parentInsecure indeterminateAncestor nsAddresses srs result =
     (let usable = concat (map (\<lambda>s. case ar_Response s of None \<Rightarrow> [] | Some qr \<Rightarrow> [qr]) srs) in
      if usable = [] then op_ok (verdict StatusIndeterminate ''failed to query DNSKEY from any nameserver'' result) else
      let result = diagnostics lib zone usable result in
      if zone \<noteq> ''.'' \<and> parentInsecure then
        op_ok (markUsable StatusInsecure [] srs (add_warnings [''delegation is below an insecure (unsigned) ancestor'']
          (result\<lparr>zr_Status := StatusInsecure\<rparr>)))
      else if zone \<noteq> ''.'' \<and> indeterminateAncestor \<noteq> [] then
        op_ok (markUsable StatusIndeterminate ''no authenticated chain of trust reaches this zone'' srs
          (verdict StatusIndeterminate ''an ancestor zone could not be authenticated'' result))
      else if list_all (\<lambda>qr. answerDNSKEYsOwnedBy (tlib lib) (qr_DNSKEY qr) zone = []) usable then
        unsigned_zone lib v zone hierarchy parentDNSKEY nsAddresses srs result
      else op_bind (zone_trust lib v zone hierarchy parentDNSKEY nsAddresses srs result) (\<lambda>t. case t of
        Inl final \<Rightarrow> op_ok final
      | Inr (trust, result) \<Rightarrow> secure_zone lib zone result trust srs))"

definition validateZone ::
  "netlib \<Rightarrow> validator \<Rightarrow> string \<Rightarrow> string list \<Rightarrow> key_rec list \<Rightarrow> bool \<Rightarrow> string \<Rightarrow> (vworld, zone_result) op" where
  "validateZone lib v zone hierarchy parentDNSKEY parentInsecure indeterminateAncestor =
     op_bind (zone_servers lib v zone) (\<lambda>(nsAddresses, nsTruncation, result).
     if nsAddresses = [] then op_fail (Msg ''no nameserver addresses found'') else
     op_bind (ValidateMultipleServers lib v zone nsAddresses) (\<lambda>srs.
     let result = applyServerResults srs result in
     if nsTruncation \<noteq> [] then op_ok (truncated_zone srs result)
     else judge_zone lib v zone hierarchy parentDNSKEY parentInsecure indeterminateAncestor nsAddresses srs result))"

end
