(* ===== verification/Leaf_Check.thy ===== *)
theory Leaf_Check
  imports Zone_Walk
begin

text \<open>
  The answer at the queried name (\<open>validator.go\<close>): its servers are asked, the answer whose
  complete path authenticates is used, and what it shows (a signed RRset, an alias, a redirection,
  a wildcard expansion or a denial) is recorded and turned into a verdict.
\<close>

section \<open>The queried type\<close>

definition leafTypeName :: "netlib \<Rightarrow> validator \<Rightarrow> string" where
  "leafTypeName lib v = (case TypeToString lib (leafType v) of Some n \<Rightarrow> n | None \<Rightarrow> ''A'')"

definition SupportedQueryType :: "netlib \<Rightarrow> string \<Rightarrow> 16 word option" where
  "SupportedQueryType lib s =
     (if s = [] then Some TypeA else
      case StringToType lib (ToUpper s) of None \<Rightarrow> None
      | Some t \<Rightarrow> if t \<in> {TypeA, TypeAAAA, 15, 16, TypeNS, TypeSOA, 33, 257, 12, 35, TypeCNAME, 99} then Some t else None)"

section \<open>Shapes of an answer\<close>

definition answerCNAMEsOwnedBy :: "netlib \<Rightarrow> cname_rec list \<Rightarrow> string \<Rightarrow> cname_rec list" where
  "answerCNAMEsOwnedBy lib cnames own = filter (\<lambda>c. owned_answer (tlib lib) own (cn_Section c) (cn_Name c)) cnames"

definition answerContainsType :: "query_result \<Rightarrow> 16 word \<Rightarrow> bool" where
  "answerContainsType qr qtype = list_ex (\<lambda>t. t = qtype) (qr_AnswerTypes qr)"

definition isDenialForType :: "netlib \<Rightarrow> query_result \<Rightarrow> string \<Rightarrow> 16 word \<Rightarrow> bool" where
  "isDenialForType lib qr domain qtype =
     (if qr_RCode qr = RcodeNameError then answerCNAMEsOwnedBy lib (qr_CNAME qr) domain = []
      else qr_RCode qr = RcodeSuccess \<and> qr_CNAME qr = [] \<and> \<not> answerContainsType qr qtype)"

definition leafSignerMatchesZone :: "netlib \<Rightarrow> string \<Rightarrow> string \<Rightarrow> bool" where
  "leafSignerMatchesZone lib signerName zone \<longleftrightarrow> canonNL lib signerName = canonNL lib zone"

abbreviation "RcodeYXDomain \<equiv> 6 :: int"

definition dnameAncestorInAnswer :: "netlib \<Rightarrow> query_result \<Rightarrow> string \<Rightarrow> string" where
  "dnameAncestorInAnswer lib qr qname =
     (let want = canonNL lib qname in
      case List.find (\<lambda>d. InSection (dn_Section d) [''answer''] \<and> canonNL lib (dn_Owner d) \<noteq> want \<and>
             IsSubDomain (vlib (tlib lib)) (canonNL lib (dn_Owner d)) want) (qr_DNAME qr) of
        None \<Rightarrow> [] | Some d \<Rightarrow> canonNL lib (dn_Owner d))"

definition substituteDNAME :: "netlib \<Rightarrow> string \<Rightarrow> string \<Rightarrow> string \<Rightarrow> error + string" where
  "substituteDNAME lib qname0 own0 target =
     (let qname = canonNL lib qname0; own = canonNL lib own0 in
      if own = qname \<or> \<not> IsSubDomain (vlib (tlib lib)) own qname then Inl (Msg ''the name is not below the DNAME owner'') else
      let qLabels = SplitDomainName (qlib lib) qname; oLabels = SplitDomainName (qlib lib) own;
          front = take (length qLabels - length oLabels) qLabels;
          synthesized = (if target = ''.'' \<or> fqdnNL lib target = ''.'' then fqdnNL lib (join_with (CHR ''.'') front)
            else fqdnNL lib (join_with (CHR ''.'') (front @ [trim_dot (fqdnNL lib target)]))) in
      if \<not> IsDomainName lib synthesized \<or> length synthesized + 1 > 255
      then Inl (Msg ''DNAME substitution exceeds the DNS name length limit (RFC 6672, YXDOMAIN)'')
      else Inr synthesized)"

section \<open>Wildcards\<close>

definition verifyWildcard ::
  "netlib \<Rightarrow> record_validation \<Rightarrow> string \<Rightarrow> string \<Rightarrow> 8 word \<Rightarrow> query_result \<Rightarrow> key_rec list \<Rightarrow> (vworld, record_validation) op" where
  "verifyWildcard lib validation0 qname zone labels qr dnskeys =
     (let wildcard = DetectWildcardSynthesis qname labels in
      if wildcard = [] then op_ok validation0 else
      let validation = validation0\<lparr>rc_Wildcard := True, rc_WildcardSource := wildcard\<rparr>;
          denial = (\<lambda>t. verifyDenialRRsetsFromResponseB (tlib lib) (Unpack lib) (qr_RawResponse qr) t dnskeys zone);
          set_error = (\<lambda>e rv. if rc_Error rv = None then rv\<lparr>rc_Error := Some e\<rparr> else rv) in
      op_bind (if denialNSECCandidates (qr_NSEC qr) \<noteq> [] then
                 op_try (denial TypeNSEC) (\<lambda>r. op_ok (map_sum id (\<lambda>(vs, _). (nsecRecordsFromVerified (tlib lib) vs, [])) r))
               else if denialNSEC3Candidates (qr_NSEC3 qr) \<noteq> [] then
                 op_try (denial TypeNSEC3) (\<lambda>r. op_ok (map_sum id (\<lambda>(vs, _). ([], nsec3RecordsFromVerified (tlib lib) vs)) r))
               else op_ok (Inr ([], []))) (\<lambda>r. op_ok (case r of
        Inl e \<Rightarrow>
          let err = Wrap ''wildcard denial RRSIG cryptographic verification failed'' e in
          set_error (Wrap ''wildcard answer'' err)
            (validation\<lparr>rc_WildcardProof := Some ((NSECProof ''wildcard'')\<lparr>pf_ResponseType := ''WILDCARD'', pf_Error := Some err\<rparr>)\<rparr>)
      | Inr (authNSEC, authNSEC3) \<Rightarrow>
          let proof = VerifyWildcardDenial (vlib (tlib lib)) qname labels authNSEC authNSEC3;
              validation = validation\<lparr>rc_WildcardProof := Some proof\<rparr> in
          if \<not> pf_Verified proof then
            set_error (case pf_Error proof of
                Some e \<Rightarrow> Wrap ''wildcard answer lacks a verified no-exact-match proof'' e
              | None \<Rightarrow> Msg ''wildcard answer lacks a verified no-exact-match proof'') validation
          else validation\<lparr>rc_WildcardProofVerified := True\<rparr>)))"

definition RecordValidation :: "string \<Rightarrow> string \<Rightarrow> record_validation" where
  "RecordValidation name kind = \<lparr>rc_Name = name, rc_RecordType = kind, rc_RecordCount = 0, rc_RRSIGVerified = False,
     rc_SigningKeyTag = 0, rc_DenialProof = None, rc_Wildcard = False, rc_WildcardSource = [],
     rc_WildcardProofVerified = False, rc_WildcardProof = None, rc_ServerDisagreements = [], rc_Target = [],
     rc_SynthesizedFrom = [], rc_Error = None\<rparr>"

definition wildcardPathError ::
  "netlib \<Rightarrow> verified_rrset \<Rightarrow> string \<Rightarrow> string \<Rightarrow> query_result \<Rightarrow> key_rec list \<Rightarrow> (vworld, unit) op" where
  "wildcardPathError lib verified domain zone qr dnskeys =
     op_bind time_now (\<lambda>_.
     op_bind (verifyWildcard lib (RecordValidation [] []) domain zone (sig_Labels (vr_Signature verified)) qr dnskeys) (\<lambda>scratch.
     case rc_Error scratch of None \<Rightarrow> op_ok () | Some e \<Rightarrow> op_fail e))"

section \<open>Redirections\<close>

text \<open>The single target of a verified DNAME RRset.\<close>

fun dname_target :: "netlib \<Rightarrow> string \<Rightarrow> rr list \<Rightarrow> error + string" where
  "dname_target lib target [] = (if target = [] then Inl (Msg ''verified DNAME RRset holds no DNAME record'') else Inr target)"
| "dname_target lib target (rr # rrs) = (case rr of
     OtherRR h d \<Rightarrow>
       (if h_Rrtype h = TypeDNAME then
          if target \<noteq> [] then Inl (Msg ''DNAME RRset holds more than one record'') else dname_target lib (RDataName lib d) rrs
        else dname_target lib target rrs)
   | _ \<Rightarrow> dname_target lib target rrs)"

abbreviation verify_answer ::
  "netlib \<Rightarrow> query_result \<Rightarrow> 16 word \<Rightarrow> key_rec list \<Rightarrow> string \<Rightarrow> string \<Rightarrow> (vworld, verified_rrset) op" where
  "verify_answer lib qr t dnskeys own zone \<equiv>
     verifyRRsetFromResponseB (tlib lib) (Unpack lib) (qr_RawResponse qr) t dnskeys own zone True"

definition authenticatedDNAMETarget ::
  "netlib \<Rightarrow> query_result \<Rightarrow> string \<Rightarrow> string \<Rightarrow> key_rec list \<Rightarrow> (vworld, string) op" where
  "authenticatedDNAMETarget lib qr zone dnameOwner dnskeys =
     op_bind (op_wrap ''DNAME RRSIG verification failed'' (verify_answer lib qr TypeDNAME dnskeys dnameOwner zone)) (\<lambda>verified.
     case dname_target lib [] (vr_Records verified) of Inl e \<Rightarrow> op_fail e | Inr t \<Rightarrow> op_ok t)"

definition matches_substitution :: "netlib \<Rightarrow> cname_rec list \<Rightarrow> string \<Rightarrow> bool" where
  "matches_substitution lib cnames expected =
     (case cnames of [c] \<Rightarrow> canonNL lib (cn_Target c) = canonNL lib expected | _ \<Rightarrow> False)"

definition verifyDNAMEAnswer ::
  "netlib \<Rightarrow> record_validation \<Rightarrow> string \<Rightarrow> string \<Rightarrow> string \<Rightarrow> cname_rec list \<Rightarrow> query_result \<Rightarrow> key_rec list \<Rightarrow>
     (vworld, record_validation) op" where
  "verifyDNAMEAnswer lib validation0 domain zone dnameOwner cnames qr dnskeys =
     (let validation = validation0\<lparr>rc_RecordType := ''DNAME'', rc_SynthesizedFrom := dnameOwner\<rparr>;
          failed = (\<lambda>e. op_ok (validation\<lparr>rc_Error := Some e\<rparr>)) in
      op_try (verify_answer lib qr TypeDNAME dnskeys dnameOwner zone) (\<lambda>r. case r of
        Inl e \<Rightarrow> failed (Wrap ''DNAME RRSIG verification failed'' e)
      | Inr verified \<Rightarrow>
          (case dname_target lib [] (vr_Records verified) of Inl e \<Rightarrow> failed e | Inr target \<Rightarrow>
           case substituteDNAME lib domain dnameOwner target of
             Inl e \<Rightarrow> failed (Wrap ''authenticated DNAME cannot be applied'' e)
           | Inr expected \<Rightarrow>
               if qr_RCode qr = RcodeYXDomain then
                 failed (Msg ''authenticated DNAME answered YXDOMAIN although the substitution fits the name length limit'')
               else if \<not> matches_substitution lib cnames expected then
                 failed (Msg ''synthesized CNAME target does not match the DNAME substitution'')
               else op_bind time_now (\<lambda>_.
                 verifyWildcard lib (validation\<lparr>rc_RRSIGVerified := True, rc_SigningKeyTag := sig_KeyTag (vr_Signature verified),
                     rc_RecordCount := 1, rc_Target := expected\<rparr>)
                   dnameOwner zone (sig_Labels (vr_Signature verified)) qr dnskeys))))"

section \<open>Classifying an answer\<close>

definition denial_outcome ::
  "netlib \<Rightarrow> validator \<Rightarrow> query_result \<Rightarrow> string \<Rightarrow> string \<Rightarrow> key_rec list \<Rightarrow> (vworld, nsec_proof option) op" where
  "denial_outcome lib v qr domain zone dnskeys =
     (let nsecCands = denialNSECCandidates (qr_NSEC qr); nsec3Cands = denialNSEC3Candidates (qr_NSEC3 qr) in
      if nsecCands \<noteq> [] then (\<lambda>w. map_prod (\<lambda>p. Inr (Some p)) id
        (verifyNSECDenialWithRRSIGB (tlib lib) (Unpack lib) domain (leafType v) nsecCands dnskeys zone (qr_RawResponse qr) (qr_RCode qr) w))
      else if nsec3Cands \<noteq> [] then (\<lambda>w. map_prod (\<lambda>p. Inr (Some p)) id
        (verifyNSEC3DenialWithRRSIGB (tlib lib) (Unpack lib) domain (leafType v) nsec3Cands dnskeys zone (qr_RawResponse qr) (qr_RCode qr) w))
      else op_ok None)"

definition leafCandidateError ::
  "netlib \<Rightarrow> validator \<Rightarrow> query_result \<Rightarrow> string \<Rightarrow> string \<Rightarrow> key_rec list \<Rightarrow> (vworld, unit) op" where
  "leafCandidateError lib v qr domain zone dnskeys =
     (let leafCNAMEs = answerCNAMEsOwnedBy lib (qr_CNAME qr) domain; dnameOwner = dnameAncestorInAnswer lib qr domain in
      if qr_RawResponse qr = [] then op_fail (Msg ''no raw response to authenticate'')
      else if qr_RCode qr = RcodeYXDomain then
        (if dnameOwner = [] then op_fail (Msg ''YXDOMAIN without a DNAME in the answer'')
         else op_bind (authenticatedDNAMETarget lib qr zone dnameOwner dnskeys) (\<lambda>target.
           case substituteDNAME lib domain dnameOwner target of
             Inr _ \<Rightarrow> op_fail (Msg ''YXDOMAIN although the DNAME substitution fits the name length limit'')
           | Inl _ \<Rightarrow> op_ok ()))
      else if isDenialForType lib qr domain (leafType v) then
        op_bind (denial_outcome lib v qr domain zone dnskeys) (\<lambda>p. case p of
          None \<Rightarrow> op_fail (Msg ''denial without NSEC/NSEC3 records'')
        | Some proof \<Rightarrow> if pf_Verified proof then op_ok ()
            else op_fail (case pf_Error proof of Some e \<Rightarrow> Wrap ''denial does not verify'' e | None \<Rightarrow> Msg ''denial does not verify''))
      else if answerHasTypeAt (tlib lib) (Unpack lib) (qr_RawResponse qr) (leafType v) domain then
        op_bind (verify_answer lib qr (leafType v) dnskeys domain zone) (\<lambda>verified. wildcardPathError lib verified domain zone qr dnskeys)
      else if leafCNAMEs \<noteq> [] then
        (if dnameOwner \<noteq> [] then
           op_bind (authenticatedDNAMETarget lib qr zone dnameOwner dnskeys) (\<lambda>target.
           case substituteDNAME lib domain dnameOwner target of Inl e \<Rightarrow> op_fail e | Inr expected \<Rightarrow>
           if \<not> matches_substitution lib leafCNAMEs expected then
             op_fail (Msg ''synthesized CNAME does not match the authenticated DNAME substitution'') else op_ok ())
         else op_bind (verify_answer lib qr TypeCNAME dnskeys domain zone) (\<lambda>verified. wildcardPathError lib verified domain zone qr dnskeys))
      else op_fail (Msg ''no RRset, CNAME, DNAME or denial records in the answer''))"

section \<open>Comparing answers\<close>

text \<open>Types whose data holds names, which are compared without case.\<close>

definition name_types :: "16 word list" where
  "name_types = [TypeCNAME, TypeDNAME, TypeNS, 12, 15, 33, 35]"

definition canonicalRRString :: "netlib \<Rightarrow> rr \<Rightarrow> string" where
  "canonicalRRString lib rr =
     RRString lib (map_header (\<lambda>h. h\<lparr>h_Name := canonNL lib (h_Name h), h_Ttl := 0\<rparr>) (case rr of
       OtherRR h d \<Rightarrow> OtherRR h (if h_Rrtype h \<in> set name_types then RDataMapNames lib (h_Rrtype h) (canonNL lib) d else d)
     | SOA h serial minttl d \<Rightarrow> SOA h serial minttl (RDataMapNames lib TypeSOA (canonNL lib) d)
     | _ \<Rightarrow> rr))"

text \<open>The joined text of the answer: the list of its parts.\<close>

definition leafFingerprint :: "netlib \<Rightarrow> validator \<Rightarrow> query_result \<Rightarrow> string" where
  "leafFingerprint lib v qr =
     (let rrs = (if qr_RawResponse qr = [] then [] else case Unpack lib (qr_RawResponse qr) of None \<Rightarrow> []
        | Some msg \<Rightarrow> sort_slice (<) (dedupe id {} (map (canonicalRRString lib)
            (filter (\<lambda>rr. Rrtype rr = leafType v \<or> Rrtype rr = TypeCNAME) (msg_Answer msg)))))
      in join_with (CHR ''|'') (qr_RCodeName qr # rrs))"

text \<open>The usable answers with the error of their path, and the first without one.\<close>

type_synonym leaf_candidate = "query_result \<times> error option"

primrec query_leaf ::
  "netlib \<Rightarrow> validator \<Rightarrow> string \<Rightarrow> string \<Rightarrow> key_rec list \<Rightarrow> leaf_candidate list \<Rightarrow> nat option \<Rightarrow> string list \<Rightarrow>
     (vworld, leaf_candidate list \<times> nat option) op" where
  "query_leaf lib v domain zone keys usable chosen [] = op_ok (usable, chosen)"
| "query_leaf lib v domain zone keys usable chosen (addr # addrs) =
     op_bind ctx_ended (\<lambda>ended. if ended then op_ok (usable, chosen) else
     op_bind (QueryRecordAuthoritative lib (vd_resolver v) addr domain (leafType v)) (\<lambda>qr.
     if qr_Error qr \<noteq> None then query_leaf lib v domain zone keys usable chosen addrs else
     op_try (leafCandidateError lib v qr domain zone keys) (\<lambda>r.
     let usable' = usable @ [(qr, case r of Inl e \<Rightarrow> Some e | Inr _ \<Rightarrow> None)] in
     if (case r of Inl _ \<Rightarrow> False | Inr _ \<Rightarrow> True) \<and> chosen = None then
       if vd_quickMode v then op_ok (usable', Some (length usable))
       else query_leaf lib v domain zone keys usable' (Some (length usable)) addrs
     else query_leaf lib v domain zone keys usable' chosen addrs)))"

definition leaf_disagreements :: "netlib \<Rightarrow> validator \<Rightarrow> leaf_candidate list \<Rightarrow> nat \<Rightarrow> string list" where
  "leaf_disagreements lib v usable i =
     (let chosenFP = leafFingerprint lib v (fst (usable ! i)) in
      concat (map (\<lambda>j. if j = i then [] else
        if leafFingerprint lib v (fst (usable ! j)) \<noteq> chosenFP then [qr_Server (fst (usable ! j)) @ '' returned a different answer'']
        else if snd (usable ! j) \<noteq> None then [qr_Server (fst (usable ! j)) @ '' returned the same answer but its signature does not verify'']
        else []) [0..<length usable]))"

definition queryLeafAllServers ::
  "netlib \<Rightarrow> validator \<Rightarrow> string list \<Rightarrow> string \<Rightarrow> string \<Rightarrow> key_rec list \<Rightarrow> (vworld, (query_result \<times> string list) option) op" where
  "queryLeafAllServers lib v nsAddresses domain zone dnskeys =
     op_bind (query_leaf lib v domain zone dnskeys [] None nsAddresses) (\<lambda>(usable, chosen).
     op_ok (if usable = [] then None
       else let i = (case chosen of Some i \<Rightarrow> i | None \<Rightarrow> 0) in Some (fst (usable ! i), leaf_disagreements lib v usable i)))"

section \<open>The record\<close>

definition recordVerifiedLeaf ::
  "netlib \<Rightarrow> record_validation \<Rightarrow> verified_rrset \<Rightarrow> string \<Rightarrow> string \<Rightarrow> query_result \<Rightarrow> key_rec list \<Rightarrow> (vworld, record_validation) op" where
  "recordVerifiedLeaf lib validation verified domain zone qr dnskeys =
     (let target = (if vr_Type verified \<noteq> TypeCNAME then rc_Target validation else
        case List.find (\<lambda>rr. case rr of OtherRR h _ \<Rightarrow> h_Rrtype h = TypeCNAME | _ \<Rightarrow> False) (vr_Records verified) of
          Some (OtherRR h d) \<Rightarrow> RDataName lib d | _ \<Rightarrow> rc_Target validation) in
      op_bind time_now (\<lambda>_.
      verifyWildcard lib (validation\<lparr>rc_RRSIGVerified := True, rc_SigningKeyTag := sig_KeyTag (vr_Signature verified),
          rc_RecordCount := length (vr_Records verified), rc_Target := target\<rparr>)
        domain zone (sig_Labels (vr_Signature verified)) qr dnskeys))"

definition verify_positive ::
  "netlib \<Rightarrow> validator \<Rightarrow> record_validation \<Rightarrow> string \<Rightarrow> string \<Rightarrow> query_result \<Rightarrow> key_rec list \<Rightarrow> (vworld, record_validation) op" where
  "verify_positive lib v validation domain zone qr dnskeys =
     (let leafCNAMEs = answerCNAMEsOwnedBy lib (qr_CNAME qr) domain; dnameOwner = dnameAncestorInAnswer lib qr domain;
          failed = (\<lambda>rv e. op_ok (rv\<lparr>rc_Error := Some e\<rparr>)) in
      if qr_RCode qr = RcodeYXDomain then
        (if dnameOwner \<noteq> [] then verifyDNAMEAnswer lib validation domain zone dnameOwner leafCNAMEs qr dnskeys
         else failed validation (Msg ''YXDOMAIN without a DNAME in the answer''))
      else if answerHasTypeAt (tlib lib) (Unpack lib) (qr_RawResponse qr) (leafType v) domain then
        op_try (verify_answer lib qr (leafType v) dnskeys domain zone) (\<lambda>r. case r of
          Inl e \<Rightarrow> failed validation (Wrap ''record RRSIG verification failed'' e)
        | Inr verified \<Rightarrow> recordVerifiedLeaf lib validation verified domain zone qr dnskeys)
      else if leafCNAMEs \<noteq> [] then
        (if dnameOwner \<noteq> [] then verifyDNAMEAnswer lib validation domain zone dnameOwner leafCNAMEs qr dnskeys
         else let validation = validation\<lparr>rc_RecordType := ''CNAME''\<rparr> in
           op_try (verify_answer lib qr TypeCNAME dnskeys domain zone) (\<lambda>r. case r of
             Inl e \<Rightarrow> failed validation (Wrap ''CNAME RRSIG verification failed'' e)
           | Inr verified \<Rightarrow> recordVerifiedLeaf lib validation verified domain zone qr dnskeys))
      else failed validation (Msg ''no RRset or CNAME in the answer and no NSEC/NSEC3 denial records''))"

definition verify_leaf ::
  "netlib \<Rightarrow> validator \<Rightarrow> record_validation \<Rightarrow> string \<Rightarrow> string \<Rightarrow> query_result \<Rightarrow> key_rec list \<Rightarrow> (vworld, record_validation) op" where
  "verify_leaf lib v validation domain zone qr dnskeys =
     (if isDenialForType lib qr domain (leafType v) then
        op_bind (denial_outcome lib v qr domain zone dnskeys) (\<lambda>p. case p of
          Some proof \<Rightarrow> op_ok (let validation = validation\<lparr>rc_DenialProof := Some proof\<rparr> in
            if pf_Verified proof then validation\<lparr>rc_RRSIGVerified := True\<rparr> else validation\<lparr>rc_Error := pf_Error proof\<rparr>)
        | None \<Rightarrow> verify_positive lib v validation domain zone qr dnskeys)
      else verify_positive lib v validation domain zone qr dnskeys)"

definition verifyActualRecord ::
  "netlib \<Rightarrow> validator \<Rightarrow> string \<Rightarrow> string \<Rightarrow> key_rec list \<Rightarrow> (vworld, record_validation option) op" where
  "verifyActualRecord lib v domain zone dnskeys =
     (let start = RecordValidation (NormalizeDomain domain) (leafTypeName lib v);
          failed = (\<lambda>e. op_ok (Some (start\<lparr>rc_Error := Some e\<rparr>))) in
      if dnskeys = [] then op_ok None else
      op_try (ResolveNSSet lib (vd_resolver v) zone) (\<lambda>r. case r of
        Inl e \<Rightarrow> failed (Wrap ''failed to resolve nameservers'' e)
      | Inr s \<Rightarrow>
          if nss_Records s = [] then failed (Msg ''failed to resolve nameservers'')
          else if nss_Truncation s \<noteq> [] then failed (Msg ''failed to resolve nameservers: the nameserver set exceeds the fan-out bounds'')
          else op_bind (queryLeafAllServers lib v (nss_Addresses s) domain zone dnskeys) (\<lambda>q. case q of
            None \<Rightarrow> failed (Msg ''failed to query record from authoritative servers'')
          | Some (qr, disagreements) \<Rightarrow>
              op_bind (verify_leaf lib v (start\<lparr>rc_ServerDisagreements := disagreements\<rparr>) domain zone qr dnskeys)
                (\<lambda>rv. op_ok (Some rv)))))"

section \<open>The verdict\<close>

definition isUnqueryableRecordError :: "error option \<Rightarrow> bool" where
  "isUnqueryableRecordError e =
     (let t = opt_text e in has_prefix ''failed to resolve nameservers'' t \<or> has_prefix ''failed to query'' t \<or>
        contains_text t ''YXDOMAIN'')"

definition proof_exhausted :: "nsec_proof option \<Rightarrow> bool" where
  "proof_exhausted p = (case p of None \<Rightarrow> False | Some p \<Rightarrow> exhausted_error (pf_Error p))"

definition opt_out_proof :: "nsec_proof option \<Rightarrow> bool" where
  "opt_out_proof p = (case p of None \<Rightarrow> False | Some p \<Rightarrow> pf_Verified p \<and> pf_OptOut p)"

definition recordValidationVerdict :: "record_validation option \<Rightarrow> status" where
  "recordValidationVerdict rv = (case rv of None \<Rightarrow> StatusSecure | Some rv \<Rightarrow>
     if rc_Wildcard rv \<and> rc_RRSIGVerified rv \<and> \<not> rc_WildcardProofVerified rv then
       (if isUnqueryableRecordError (rc_Error rv) \<or> exhausted_error (rc_Error rv) \<or> proof_exhausted (rc_WildcardProof rv)
        then StatusIndeterminate else StatusBogus)
     else if rc_RRSIGVerified rv then
       (if opt_out_proof (rc_DenialProof rv) then StatusInsecure
        else if rc_Wildcard rv \<and> opt_out_proof (rc_WildcardProof rv) then StatusInsecure
        else StatusSecure)
     else if isUnqueryableRecordError (rc_Error rv) then StatusIndeterminate
     else if exhausted_error (rc_Error rv) \<or> proof_exhausted (rc_DenialProof rv) \<or> proof_exhausted (rc_WildcardProof rv)
       then StatusIndeterminate
     else StatusBogus)"

section \<open>Aliases below a chain that is not secure\<close>

definition alias_target_ok :: "netlib \<Rightarrow> string \<Rightarrow> bool" where
  "alias_target_ok lib target \<longleftrightarrow> IsDomainName lib target \<and> backslash \<notin> set target \<and> \<not> contains_text target ''..''"

primrec find_alias :: "netlib \<Rightarrow> validator \<Rightarrow> string \<Rightarrow> string list \<Rightarrow> (vworld, string) op" where
  "find_alias lib v domain [] = op_ok []"
| "find_alias lib v domain (addr # addrs) =
     op_bind ctx_ended (\<lambda>ended. if ended then op_ok [] else
     op_bind (QueryRecordAuthoritative lib (vd_resolver v) addr domain (leafType v)) (\<lambda>qr.
     if qr_Error qr \<noteq> None \<or> (qr_RCode qr \<noteq> RcodeSuccess \<and> qr_RCode qr \<noteq> RcodeNameError) then find_alias lib v domain addrs
     else case List.find (alias_target_ok lib) (map (\<lambda>c. fqdnNL lib (cn_Target c)) (answerCNAMEsOwnedBy lib (qr_CNAME qr) domain)) of
       Some target \<Rightarrow> op_ok target | None \<Rightarrow> find_alias lib v domain addrs))"

definition discoverAliasTarget :: "netlib \<Rightarrow> validator \<Rightarrow> string \<Rightarrow> string \<Rightarrow> (vworld, string) op" where
  "discoverAliasTarget lib v domain leafZone =
     op_try (ResolveNSSet lib (vd_resolver v) leafZone) (\<lambda>r. case r of
       Inl _ \<Rightarrow> op_ok []
     | Inr s \<Rightarrow> if nss_Records s = [] then op_ok [] else find_alias lib v domain (nss_Addresses s))"

end
