(* ===== verification/Validate_Walk.thy ===== *)
theory Validate_Walk
  imports Leaf_Check
begin

text \<open>
  The walk from the root to a name (\<open>validateWithCache\<close> in \<open>validator.go\<close>): zones
  are validated in order, each under the keys of the secure zone above it, then the answer at the
  name, then the target of an alias, which is validated the same way with the zones already known.
  The events sent to a streaming client are left out.
\<close>

section \<open>Results\<close>

record cname_chain =
  cc_Source :: string
  cc_Target :: string
  cc_Result :: status
  cc_Chain :: "zone_result list"
  cc_Error :: "error option"

record validation_result =
  va_Domain :: string
  va_QueryType :: string
  va_Result :: status
  va_Chain :: "zone_result list"
  va_CNAMEChains :: "cname_chain list"
  va_Errors :: "error list"
  va_Warnings :: "string list"

definition ValidationResult :: "netlib \<Rightarrow> validator \<Rightarrow> string \<Rightarrow> validation_result" where
  "ValidationResult lib v domain = \<lparr>va_Domain = NormalizeDomain domain, va_QueryType = leafTypeName lib v,
     va_Result = StatusValidating, va_Chain = [], va_CNAMEChains = [], va_Errors = [], va_Warnings = []\<rparr>"

type_synonym zone_cache = "(string, zone_result) gomap"

section \<open>The zones\<close>

definition nextParentDNSKEY :: "zone_result \<Rightarrow> key_rec list" where
  "nextParentDNSKEY zr = (if zr_Status zr = StatusSecure then zr_DNSKEY zr else [])"

record walk =
  wk_last :: status
  wk_parentDNSKEY :: "key_rec list"
  wk_ancestorInsecure :: bool
  wk_indeterminateAncestor :: string
  wk_result :: validation_result
  wk_cache :: zone_cache

datatype walk_end = WalkTimeout | WalkBogus | WalkDone

definition note_zone :: "string \<Rightarrow> zone_result \<Rightarrow> walk \<Rightarrow> walk" where
  "note_zone zone zr st =
     (let st = st\<lparr>wk_parentDNSKEY := nextParentDNSKEY zr, wk_result := (wk_result st)\<lparr>va_Chain := va_Chain (wk_result st) @ [zr]\<rparr>\<rparr> in
      case zr_Status zr of
        StatusBogus \<Rightarrow> st\<lparr>wk_last := StatusBogus\<rparr>
      | StatusInsecure \<Rightarrow> st\<lparr>wk_ancestorInsecure := True, wk_last := (if wk_last st = StatusSecure then StatusInsecure else wk_last st)\<rparr>
      | StatusIndeterminate \<Rightarrow> st\<lparr>wk_last := (if wk_last st \<in> {StatusSecure, StatusInsecure} then StatusIndeterminate else wk_last st),
          wk_indeterminateAncestor := (if wk_indeterminateAncestor st = [] then zone else wk_indeterminateAncestor st)\<rparr>
      | _ \<Rightarrow> st)"

text \<open>The resource limits a zone ran into are shown at the top as well.\<close>

definition note_limits :: "zone_result \<Rightarrow> walk \<Rightarrow> walk" where
  "note_limits zr st = (if zr_Status zr = StatusIndeterminate
     then st\<lparr>wk_result := (wk_result st)\<lparr>va_Errors := va_Errors (wk_result st) @ filter IsBudgetExhausted (zr_Errors zr)\<rparr>\<rparr> else st)"

definition zone_outcome :: "string \<Rightarrow> error + zone_result \<Rightarrow> zone_result" where
  "zone_outcome zone r = (case r of Inr z \<Rightarrow> z
     | Inl e \<Rightarrow> zone_AddError e ((NewZoneResult zone)\<lparr>zr_Status := StatusIndeterminate\<rparr>))"

primrec walk_zones :: "netlib \<Rightarrow> validator \<Rightarrow> string list \<Rightarrow> string list \<Rightarrow> walk \<Rightarrow> (vworld, walk_end \<times> walk) op" where
  "walk_zones lib v zones [] st = op_ok (WalkDone, st)"
| "walk_zones lib v zones (zone # rest) st =
     op_bind ctx_ended (\<lambda>ended. if ended then op_ok (WalkTimeout, st) else
     case map_of (wk_cache st) zone of
       Some zr \<Rightarrow>
         let st = note_zone zone zr st in
         if zr_Status zr = StatusBogus then op_ok (WalkBogus, st) else walk_zones lib v zones rest st
     | None \<Rightarrow>
         op_try (validateZone lib v zone zones (wk_parentDNSKEY st) (wk_ancestorInsecure st) (wk_indeterminateAncestor st)) (\<lambda>r.
         let zr = zone_outcome zone r;
             st = note_limits zr (note_zone zone zr (st\<lparr>wk_cache := AList.update zone zr (wk_cache st)\<rparr>)) in
         if zr_Status zr = StatusBogus then op_ok (WalkBogus, st) else walk_zones lib v zones rest st))"

section \<open>The answer\<close>

definition add_record :: "record_validation \<Rightarrow> zone_result \<Rightarrow> zone_result" where
  "add_record rv z = add_warnings (if rc_Wildcard rv \<and> \<not> rc_WildcardProofVerified rv
       then [''wildcard-synthesized answer lacks a verified closest-encloser proof of no direct match''] else [])
     (z\<lparr>zr_RecordValidation := Some rv\<rparr>)"

text \<open>The verdict of the answer on the walk, and the alias target it authenticates.\<close>

definition note_record :: "record_validation \<Rightarrow> walk \<Rightarrow> walk \<times> string" where
  "note_record rv st =
     (let leaf = add_record rv (last (va_Chain (wk_result st))); verdict = recordValidationVerdict (Some rv);
          st = st\<lparr>wk_last := verdict\<rparr>; res = wk_result st;
          leaf = (if verdict = StatusInsecure then add_warnings [''the proof rests on an opt-out NSEC3''] leaf else leaf);
          res = res\<lparr>va_Chain := butlast (va_Chain res) @ [leaf],
                    va_Warnings := va_Warnings res @ (if verdict = StatusInsecure then [''the proof rests on an opt-out NSEC3''] else []),
                    va_Errors := va_Errors res @ (if verdict \<in> {StatusSecure, StatusInsecure} then []
                      else [case rc_Error rv of Some e \<Rightarrow> e | None \<Rightarrow> Msg ''record RRSIG could not be verified''])\<rparr> in
      (st\<lparr>wk_result := res\<rparr>, if verdict = StatusSecure \<and> rc_RRSIGVerified rv then rc_Target rv else []))"

definition leaf_step :: "netlib \<Rightarrow> validator \<Rightarrow> string \<Rightarrow> string list \<Rightarrow> walk \<Rightarrow> (vworld, walk \<times> string) op" where
  "leaf_step lib v domain zones st =
     (let chain = va_Chain (wk_result st) in
      if wk_last st = StatusSecure \<and> chain \<noteq> [] then
        op_bind (verifyActualRecord lib v domain (zr_Zone (last chain)) (zr_DNSKEY (last chain))) (\<lambda>rv.
        op_ok (case rv of None \<Rightarrow> (st, []) | Some rv \<Rightarrow> note_record rv st))
      else if wk_last st \<noteq> StatusBogus \<and> zones \<noteq> [] then
        op_bind (discoverAliasTarget lib v domain (last zones)) (\<lambda>t. op_ok (st, t))
      else op_ok (st, []))"

section \<open>Aliases\<close>

definition maxCNAMEDepth :: nat where "maxCNAMEDepth = 10"

definition CNAMEChainResult :: "string \<Rightarrow> string \<Rightarrow> status \<Rightarrow> string \<Rightarrow> cname_chain" where
  "CNAMEChainResult source target s why = \<lparr>cc_Source = source, cc_Target = target, cc_Result = s, cc_Chain = [], cc_Error = Some (Msg why)\<rparr>"

text \<open>A loop or a chain that is too long ends here; otherwise the target counts as visited.\<close>

definition cnameGuard :: "string \<Rightarrow> string \<Rightarrow> nat \<Rightarrow> nat \<Rightarrow> string set \<Rightarrow> cname_chain + string set" where
  "cnameGuard domain target depth maxDepth visited =
     (let ct = canonicalizeName target in
      if ct \<in> visited then Inl (CNAMEChainResult domain target StatusBogus ''CNAME loop detected'')
      else if depth + 1 \<ge> maxDepth then Inl (CNAMEChainResult domain target StatusIndeterminate ''CNAME chain exceeded maximum depth'')
      else Inr (insert ct visited))"

type_synonym validation = "(validation_result \<times> error option) \<times> string set \<times> zone_cache"

definition followAlias ::
  "(string \<Rightarrow> nat \<Rightarrow> string set \<Rightarrow> zone_cache \<Rightarrow> (vworld, validation) op) \<Rightarrow> string \<Rightarrow> string \<Rightarrow> nat \<Rightarrow> string set \<Rightarrow> zone_cache \<Rightarrow>
     (vworld, cname_chain \<times> string set \<times> zone_cache) op" where
  "followAlias validate domain target depth visited cache =
     (let visited = insert (canonicalizeName domain) visited in
      case cnameGuard domain target depth maxCNAMEDepth visited of
        Inl term \<Rightarrow> op_ok (term, visited, cache)
      | Inr visited \<Rightarrow>
          op_bind (validate target (Suc depth) visited cache) (\<lambda>((res, err), visited, cache).
          op_ok (case err of
            Some e \<Rightarrow> \<lparr>cc_Source = domain, cc_Target = target, cc_Result = StatusIndeterminate, cc_Chain = [],
                       cc_Error = Some (Wrap ''alias target validation failed'' e)\<rparr>
          | None \<Rightarrow> \<lparr>cc_Source = domain, cc_Target = target, cc_Result = va_Result res, cc_Chain = va_Chain res, cc_Error = None\<rparr>,
          visited, cache)))"

lemma cnameGuard_Inr: "cnameGuard domain target depth m visited = Inr vis \<Longrightarrow> Suc depth < m"
  by (auto simp: cnameGuard_def Let_def split: if_splits)

lemma followAlias_cong [fundef_cong]:
  assumes "\<And>vis. Suc depth < maxCNAMEDepth \<Longrightarrow> f target (Suc depth) vis cache = g target (Suc depth) vis cache"
  shows "followAlias f domain target depth visited cache = followAlias g domain target depth visited cache"
  using assms by (auto simp: followAlias_def Let_def dest: cnameGuard_Inr split: sum.splits)

definition note_alias :: "cname_chain \<Rightarrow> walk \<Rightarrow> walk" where
  "note_alias c st =
     (let res = (wk_result st)\<lparr>va_CNAMEChains := va_CNAMEChains (wk_result st) @ [c]\<rparr>; lst = wk_last st in
      case cc_Result c of
        StatusBogus \<Rightarrow> st\<lparr>wk_last := StatusBogus, wk_result := res\<lparr>va_Errors := va_Errors res @ [Msg ''CNAME target is bogus'']\<rparr>\<rparr>
      | StatusInsecure \<Rightarrow> (if lst = StatusSecure
          then st\<lparr>wk_last := StatusInsecure, wk_result := res\<lparr>va_Warnings := va_Warnings res @ [''CNAME target is insecure'']\<rparr>\<rparr>
          else st\<lparr>wk_result := res\<rparr>)
      | StatusIndeterminate \<Rightarrow> (if lst \<in> {StatusSecure, StatusInsecure}
          then st\<lparr>wk_last := StatusIndeterminate, wk_result := res\<lparr>va_Warnings := va_Warnings res @ [''CNAME target is indeterminate'']\<rparr>\<rparr>
          else st\<lparr>wk_result := res\<rparr>)
      | _ \<Rightarrow> st\<lparr>wk_result := res\<rparr>)"

section \<open>The validation of a name\<close>

text \<open>
  The budget of a validation starts with it; nested hops share it. The world notes the depth.
\<close>

definition start_budget :: "validator \<Rightarrow> nat \<Rightarrow> (vworld, unit) op" where
  "start_budget v depth = op_upd (\<lambda>w.
     let w = w\<lparr>vw_depth := max depth (vw_depth w)\<rparr> in
     if depth = 0 \<or> vw_budget w = None
     then w\<lparr>vw_verifies := 0, vw_budget := Some (newVerifyBudget (if vd_verificationBudget v \<le> 0 then DefaultVerificationBudget
              else vd_verificationBudget v))\<rparr>
     else w)"

definition discover_zones :: "netlib \<Rightarrow> validator \<Rightarrow> string \<Rightarrow> (vworld, string list \<times> string list) op" where
  "discover_zones lib v domain =
     op_try (DiscoverZoneCuts lib (vd_resolver v) domain) (\<lambda>r. op_ok (case r of
       Inr zones \<Rightarrow> (zones, [])
     | Inl e \<Rightarrow> (SplitIntoZoneHierarchy domain, [''zone cut discovery failed, using simple hierarchy''])))"

definition finish :: "status \<Rightarrow> walk \<Rightarrow> string set \<Rightarrow> validation" where
  "finish s st visited = (((wk_result st)\<lparr>va_Result := s\<rparr>, None), visited, wk_cache st)"

text \<open>The end of a validation: the alias, when there is one to follow.\<close>

definition alias_step ::
  "(string \<Rightarrow> nat \<Rightarrow> string set \<Rightarrow> zone_cache \<Rightarrow> (vworld, validation) op) \<Rightarrow> validator \<Rightarrow> string \<Rightarrow> nat \<Rightarrow> string set \<Rightarrow>
     walk \<Rightarrow> string \<Rightarrow> (vworld, validation) op" where
  "alias_step validate v domain depth visited st aliasTarget =
     (if aliasTarget = [] \<or> leafType v = TypeCNAME then op_ok (finish (wk_last st) st visited)
      else op_bind (followAlias validate domain aliasTarget depth visited (wk_cache st)) (\<lambda>(c, visited, cache).
        let st = note_alias c (st\<lparr>wk_cache := cache\<rparr>) in op_ok (finish (wk_last st) st visited)))"

definition start_walk :: "validation_result \<Rightarrow> zone_cache \<Rightarrow> walk" where
  "start_walk result cache = \<lparr>wk_last = StatusSecure, wk_parentDNSKEY = [], wk_ancestorInsecure = False,
     wk_indeterminateAncestor = [], wk_result = result, wk_cache = cache\<rparr>"

definition validate_name ::
  "(string \<Rightarrow> nat \<Rightarrow> string set \<Rightarrow> zone_cache \<Rightarrow> (vworld, validation) op) \<Rightarrow> netlib \<Rightarrow> validator \<Rightarrow> string \<Rightarrow> nat \<Rightarrow>
     string set \<Rightarrow> zone_cache \<Rightarrow> (vworld, validation) op" where
  "validate_name validate lib v domain depth visited cache =
     op_bind (discover_zones lib v domain) (\<lambda>(zones, warnings).
     op_bind (walk_zones lib v zones zones (start_walk ((ValidationResult lib v domain)\<lparr>va_Warnings := warnings\<rparr>) cache)) (\<lambda>(end', st).
     case end' of
       WalkTimeout \<Rightarrow> op_ok (((wk_result st)\<lparr>va_Result := StatusIndeterminate,
           va_Errors := va_Errors (wk_result st) @ [Msg ''validation timeout'']\<rparr>, Some ErrContext), visited, wk_cache st)
     | WalkBogus \<Rightarrow> op_ok (finish StatusBogus st visited)
     | WalkDone \<Rightarrow>
         op_bind (leaf_step lib v domain zones st) (\<lambda>(st, aliasTarget). alias_step validate v domain depth visited st aliasTarget)))"

lemma validate_name_cong [fundef_cong]:
  assumes "\<And>target vis cache. Suc depth < maxCNAMEDepth \<Longrightarrow> f target (Suc depth) vis cache = g target (Suc depth) vis cache"
  shows "validate_name f lib v domain depth visited cache = validate_name g lib v domain depth visited cache"
proof -
  have "followAlias f domain t depth visited c = followAlias g domain t depth visited c" for t c
    using assms by (rule followAlias_cong)
  then have "alias_step f v domain depth visited st t = alias_step g v domain depth visited st t" for st t
    by (simp add: alias_step_def)
  then show ?thesis by (simp add: validate_name_def cong: walk_end.case_cong)
qed

function validateWithCache ::
  "netlib \<Rightarrow> validator \<Rightarrow> string \<Rightarrow> nat \<Rightarrow> string set \<Rightarrow> zone_cache \<Rightarrow> (vworld, validation) op" where
  "validateWithCache lib v domain depth visited cache =
     (if vd_anchors v = [] then
        (let e = Msg ''no root trust anchors available'' in
         op_ok (((ValidationResult lib v domain)\<lparr>va_Result := StatusIndeterminate, va_Errors := [e]\<rparr>, Some e), visited, cache))
      else op_bind (start_budget v depth) (\<lambda>_. validate_name (validateWithCache lib v) lib v domain depth visited cache))"
  by pat_completeness auto
termination
  by (relation "measure (\<lambda>(_, _, _, depth, _, _). maxCNAMEDepth - depth)") auto

declare validateWithCache.simps [simp del]

definition Validate :: "netlib \<Rightarrow> validator \<Rightarrow> string \<Rightarrow> (vworld, validation_result \<times> error option) op" where
  "Validate lib v domain = op_bind (validateWithCache lib v domain 0 {} []) (\<lambda>(r, _). op_ok r)"

definition ValidateWithDepth :: "netlib \<Rightarrow> validator \<Rightarrow> string \<Rightarrow> nat \<Rightarrow> (vworld, validation_result \<times> error option) op" where
  "ValidateWithDepth lib v domain depth = op_bind (validateWithCache lib v domain depth {} []) (\<lambda>(r, _). op_ok r)"

end
