(* ===== verification/Walk_Frame.thy ===== *)
theory Walk_Frame
  imports Validate_Walk
begin

text \<open>
  What a whole validation keeps, whatever the network answers: the destination policy, the work
  budget and the bound on nested aliases.
\<close>

section \<open>The engine\<close>

lemma keeps_charge: "0 \<le> n \<Longrightarrow> keeps budget_step (charge n)"
  by (auto simp: keeps_def charge_def budget_step_def charge_step_def within_budget_def Let_def split: option.splits)

lemma keeps_charge_net [net_keeps]: "0 \<le> n \<Longrightarrow> keeps (net_step p) (charge n)"
  by (rule keeps_engine [OF keeps_charge])

lemmas keeps_denial_net [net_keeps] = keeps_engine [OF keeps_verifyDenialRRsets]
lemmas keeps_rrset_net [net_keeps] = keeps_engine [OF keeps_verifyRRsetFromResponse]

lemma keeps_dnskey_net [net_keeps]: "keeps (net_step p) (verifyDNSKEYRRsetFromResponseB lib unpack raw zone keys)"
  unfolding verifyDNSKEYRRsetFromResponseB_def by (intro net_rules net_keeps)

lemma nsec_denial_world:
  "net_step p w (snd (verifyNSECDenialWithRRSIGB lib unpack qname t recs keys zone raw rcode w))"
proof -
  let ?m = "verifyDenialRRsetsFromResponseB lib unpack raw TypeNSEC keys zone"
  have "snd (verifyNSECDenialWithRRSIGB lib unpack qname t recs keys zone raw rcode w) \<in> {w, snd (?m w)}"
    by (auto simp: verifyNSECDenialWithRRSIGB_def Let_def split: sum.splits prod.splits)
  moreover have "net_step p w w" "net_step p w (snd (?m w))"
    using keeps_denial_net [where p = p] by (auto simp: keeps_def net.keep_refl)
  ultimately show ?thesis by auto
qed

lemma nsec3_denial_world:
  "net_step p w (snd (verifyNSEC3DenialWithRRSIGB lib unpack qname t recs keys zone raw rcode w))"
proof -
  let ?m = "verifyDenialRRsetsFromResponseB lib unpack raw TypeNSEC3 keys zone"
  have "snd (verifyNSEC3DenialWithRRSIGB lib unpack qname t recs keys zone raw rcode w) \<in> {w, snd (?m w)}"
    by (auto simp: verifyNSEC3DenialWithRRSIGB_def Let_def split: sum.splits prod.splits)
  moreover have "net_step p w w" "net_step p w (snd (?m w))"
    using keeps_denial_net [where p = p] by (auto simp: keeps_def net.keep_refl)
  ultimately show ?thesis by auto
qed

lemma keeps_denial_outcome [net_keeps]: "keeps (net_step p) (denial_outcome lib v qr domain zone keys)"
  using nsec_denial_world nsec3_denial_world by (simp add: denial_outcome_def Let_def keeps_def net.keep_refl)

section \<open>The parent's answers\<close>

lemmas net_steps = net_rules net.keeps_wrap keeps_cases

lemma keeps_verifyDSRRSIGSetB [net_keeps]: "keeps (net_step p) (verifyDSRRSIGSetB lib val c z keys raw)"
  unfolding verifyDSRRSIGSetB_def by (intro net_steps net_keeps)

lemma keeps_verifyDSAbsence [net_keeps]: "keeps (net_step p) (verifyDSAbsence lib c z keys qr)"
  unfolding verifyDSAbsence_def Let_def by (intro net_steps net_keeps)

lemma keeps_classifyParentDSAnswer [net_keeps]: "keeps (net_step p) (classifyParentDSAnswer lib qr z pz keys)"
  unfolding classifyParentDSAnswer_def Let_def by (intro net_steps net_keeps)

lemma keeps_QueryDS [net_keeps]: "keeps (net_step (vd_egress v)) (QueryDSAuthoritative lib (vd_resolver v) s z)"
  "keeps (net_step (vd_egress v)) (QueryDNSKEYAuthoritative lib (vd_resolver v) s z)"
  "keeps (net_step (vd_egress v)) (QueryRecordAuthoritative lib (vd_resolver v) s z t)"
  unfolding QueryDSAuthoritative_def QueryDNSKEYAuthoritative_def QueryRecordAuthoritative_def by (rule keeps_Query)+

lemma keeps_query_parents [net_keeps]:
  "keeps (net_step (vd_egress v)) (query_parents lib v zone pz keys cands chosen addrs)"
  by (induction addrs arbitrary: cands chosen) (auto simp: Let_def intro!: net_steps net_keeps)

lemma keeps_judgeParentDSServer [net_keeps]: "keeps (net_step p) (judgeParentDSServer lib c a qr z pz keys)"
  unfolding judgeParentDSServer_def Let_def by (intro net_steps net_keeps)

lemma keeps_judge_parents [net_keeps]: "keeps (net_step p) (judge_parents lib z pz keys out cs)"
  by (induction cs arbitrary: out) (auto intro!: net_steps net_keeps)

lemma keeps_queryDSFromParent [net_keeps]:
  "keeps (net_step (vd_egress v)) (queryDSFromParentWithValidation lib v z pz fb keys)"
  unfolding queryDSFromParentWithValidation_def parent_servers_def by (intro net_steps net_keeps)

section \<open>One zone\<close>

lemma keeps_query_servers [net_keeps]: "keeps (net_step (vd_egress v)) (query_servers lib v zone srvs)"
  by (induction srvs) (simp_all only: query_servers.simps, (intro net_steps net_keeps | assumption)+)

lemma keeps_finalizeNoDS [net_keeps]: "keeps (net_step p) (finalizeNoDSDelegation lib r z pz keys ds)"
  unfolding finalizeNoDSDelegation_def Let_def by (intro net_steps net_keeps)

lemma keeps_rdap_query [net_keeps]: "keeps (net_step p) (queryRDAPSecureDNS client zone ds)"
  by (auto simp: keeps_def queryRDAPSecureDNS_def net_step_def charge_step_def within_budget_def)

lemma keeps_check_rdap [net_keeps]: "keeps (net_step p) (check_rdap lib v zone ds r)"
  unfolding check_rdap_def by (intro net_steps net_keeps)

lemma keeps_root_trust [net_keeps]: "keeps (net_step p) (root_trust lib anchors keys)"
  unfolding root_trust_def Let_def by (intro net_steps net_keeps) simp

lemma keeps_ds_trust [net_keeps]: "keeps (net_step p) (ds_trust lib ds zone keys)"
  unfolding ds_trust_def Let_def by (intro net_steps net_keeps) simp

text \<open>The trust sources of a zone charge the budget and nothing else.\<close>

definition quiet_trust :: "trust_source \<Rightarrow> bool" where
  "quiet_trust t \<longleftrightarrow> (\<forall>p keys. keeps (net_step p) (t keys))"

lemma delegation_from_source:
  assumes "delegation_from lib v zone pz keys srs r ds w = (Inr (Inr (t, r')), w')"
  shows "t = ds_trust lib (fst (SupportedDSRecords (pd_Authenticated ds))) zone" "pd_Authenticated ds \<noteq> []"
  using assms by (auto simp: delegation_from_def Let_def op_bind_Inr split: if_splits prod.splits)

lemma zone_trust_quiet:
  assumes "zone_trust lib v zone h keys addrs srs r w = (Inr (Inr (t, r')), w')"
  shows "quiet_trust t"
proof (cases "zone = ''.''")
  case True
  then show ?thesis using assms
    by (auto simp: zone_trust_def op_bind_Inr Let_def quiet_trust_def keeps_root_trust split: if_splits)
next
  case False
  then obtain ds pz w1 where "delegation_from lib v zone pz keys srs r ds w1 = (Inr (Inr (t, r')), w')"
    using assms by (auto simp: zone_trust_def delegation_trust_def Let_def op_try_apply split: prod.splits sum.splits)
  from delegation_from_source(1) [OF this] show ?thesis by (simp add: quiet_trust_def keeps_ds_trust)
qed

lemma keeps_zone_trust [net_keeps]: "keeps (net_step (vd_egress v)) (zone_trust lib v zone h keys addrs srs r)"
  unfolding zone_trust_def delegation_trust_def delegation_from_def Let_def by (intro net_steps net_keeps)

lemma keeps_unsigned_zone [net_keeps]: "keeps (net_step (vd_egress v)) (unsigned_zone lib v zone h keys addrs srs r)"
  unfolding unsigned_zone_def Let_def by (intro net_steps net_keeps)

lemma keeps_authenticate:
  assumes "quiet_trust t"
  shows "keeps (net_step p) (authenticate lib zone t e before srs)"
proof (induction srs arbitrary: e before)
  case (Cons sr srs)
  have "keeps (net_step p) (authenticate_one lib zone t keys qr)" for keys qr
    unfolding authenticate_one_def using assms by (intro net_steps net_keeps) (simp add: quiet_trust_def)
  then show ?case using Cons by (auto simp: Let_def intro!: net_steps net_keeps)
qed (simp add: net.keeps_ok)

lemma keeps_judge_server [net_keeps]: "keeps (net_step p) (judge_server lib zone rrset keys sr)"
  unfolding judge_server_def Let_def by (intro net_steps net_keeps)

lemma keeps_judge_servers [net_keeps]: "keeps (net_step p) (judge_servers lib zone rrset keys srs)"
  by (induction srs) (simp_all only: judge_servers.simps, (intro net_steps net_keeps | assumption)+)

lemma keeps_judgeDNSKEYServers [net_keeps]: "keeps (net_step p) (judgeDNSKEYServers lib r srs zone keys)"
  unfolding judgeDNSKEYServers_def Let_def by (intro net_steps net_keeps)

lemma keeps_secure_zone:
  assumes "quiet_trust t"
  shows "keeps (net_step p) (secure_zone lib zone r t srs)"
  unfolding secure_zone_def
  by (intro net_steps keeps_authenticate [OF assms]) (auto split: auth_outcome.splits intro!: net_steps net_keeps)

lemma keeps_bind_run:
  assumes "keeps (net_step p) m" and "\<And>x w w'. m w = (Inr x, w') \<Longrightarrow> net_step p w' (snd (f x w'))"
  shows "keeps (net_step p) (op_bind m f)"
proof (rule keepsI)
  fix w
  obtain r w1 where m: "m w = (r, w1)" by (cases "m w")
  then have "net_step p w w1" by (rule keepsD [OF assms(1)])
  then show "net_step p w (snd (op_bind m f w))"
    using m assms(2) [of w _ w1] net.keep_trans by (cases r) (auto simp: op_bind_apply)
qed

lemma keeps_judge_zone [net_keeps]:
  "keeps (net_step (vd_egress v)) (judge_zone lib v zone h keys ins ind addrs srs r)"
proof -
  have zt: "keeps (net_step (vd_egress v)) (op_bind (zone_trust lib v zone h keys addrs srs r) (\<lambda>t. case t of
        Inl final \<Rightarrow> op_ok final | Inr (trust, result) \<Rightarrow> secure_zone lib zone result trust srs))" for r
  proof (rule keeps_bind_run [OF keeps_zone_trust])
    fix x w w'
    assume run: "zone_trust lib v zone h keys addrs srs r w = (Inr x, w')"
    show "net_step (vd_egress v) w' (snd ((case x of Inl final \<Rightarrow> op_ok final
        | Inr (trust, result) \<Rightarrow> secure_zone lib zone result trust srs) w'))"
    proof (cases x)
      case (Inr y)
      then obtain t r' where y: "x = Inr (t, r')" by (cases y) simp
      then have "quiet_trust t" using run zone_trust_quiet by simp
      then show ?thesis using keeps_secure_zone y by (simp add: keeps_def)
    qed (simp add: net.keep_refl)
  qed
  show ?thesis unfolding judge_zone_def Let_def by (intro net.keeps_if net.keeps_ok keeps_unsigned_zone zt)
qed

lemma keeps_validateZone [net_keeps]: "keeps (net_step (vd_egress v)) (validateZone lib v zone h keys ins ind)"
  unfolding validateZone_def zone_servers_def ValidateMultipleServers_def Let_def by (intro net_steps net_keeps)

section \<open>The answer\<close>

lemma keeps_verifyWildcard [net_keeps]: "keeps (net_step p) (verifyWildcard lib rv q z l qr keys)"
  unfolding verifyWildcard_def Let_def by (intro net_steps net_keeps)

lemma keeps_wildcardPathError [net_keeps]: "keeps (net_step p) (wildcardPathError lib vr d z qr keys)"
  unfolding wildcardPathError_def by (intro net_steps net_keeps)

lemma keeps_authenticatedDNAMETarget [net_keeps]: "keeps (net_step p) (authenticatedDNAMETarget lib qr z d keys)"
  unfolding authenticatedDNAMETarget_def by (intro net_steps net_keeps)

lemma keeps_leafCandidateError [net_keeps]: "keeps (net_step p) (leafCandidateError lib v qr d z keys)"
  unfolding leafCandidateError_def Let_def by (intro net_steps net_keeps)

lemma keeps_query_leaf [net_keeps]: "keeps (net_step (vd_egress v)) (query_leaf lib v d z keys us ch addrs)"
  by (induction addrs arbitrary: us ch) (auto simp: Let_def intro!: net_steps net_keeps)

lemma keeps_verifyDNAMEAnswer [net_keeps]: "keeps (net_step p) (verifyDNAMEAnswer lib rv d z dn cs qr keys)"
  unfolding verifyDNAMEAnswer_def Let_def by (intro net_steps net_keeps)

lemma keeps_recordVerifiedLeaf [net_keeps]: "keeps (net_step p) (recordVerifiedLeaf lib rv vr d z qr keys)"
  unfolding recordVerifiedLeaf_def Let_def by (intro net_steps net_keeps)

lemma keeps_verify_positive [net_keeps]: "keeps (net_step p) (verify_positive lib v rv d z qr keys)"
  unfolding verify_positive_def Let_def by (intro net_steps net_keeps)

lemma keeps_verify_leaf [net_keeps]: "keeps (net_step p) (verify_leaf lib v rv d z qr keys)"
  unfolding verify_leaf_def by (intro net_steps net_keeps)

lemma keeps_verifyActualRecord [net_keeps]: "keeps (net_step (vd_egress v)) (verifyActualRecord lib v d z keys)"
  unfolding verifyActualRecord_def queryLeafAllServers_def Let_def by (intro net_steps net_keeps)

lemma keeps_find_alias [net_keeps]: "keeps (net_step (vd_egress v)) (find_alias lib v d addrs)"
  by (induction addrs) (simp_all only: find_alias.simps, (intro net_steps net_keeps | assumption)+)

lemma keeps_discoverAliasTarget [net_keeps]: "keeps (net_step (vd_egress v)) (discoverAliasTarget lib v d z)"
  unfolding discoverAliasTarget_def by (intro net_steps net_keeps)

lemma keeps_leaf_step [net_keeps]: "keeps (net_step (vd_egress v)) (leaf_step lib v d zones st)"
  unfolding leaf_step_def Let_def by (intro net_steps net_keeps)

lemma keeps_walk_zones [net_keeps]: "keeps (net_step (vd_egress v)) (walk_zones lib v zones rest st)"
  by (induction rest arbitrary: st) (auto simp: Let_def intro!: net_steps net_keeps)

lemma keeps_discover_zones [net_keeps]: "keeps (net_step (vd_egress v)) (discover_zones lib v d)"
  unfolding discover_zones_def by (intro net_steps net_keeps)

section \<open>The validation of a name\<close>

text \<open>
  A nested hop: the budget of the validation goes on, only permitted servers are dialled, and
  no hop is deeper than the limit.
\<close>

definition hop_step :: "egress_policy option \<Rightarrow> vworld \<Rightarrow> vworld \<Rightarrow> bool" where
  "hop_step p w w' \<longleftrightarrow> (vw_budget w \<noteq> None \<longrightarrow> net_step p w (w'\<lparr>vw_depth := vw_depth w\<rparr>) \<and> vw_budget w' \<noteq> None) \<and>
     vw_depth w' \<le> max (vw_depth w) (maxCNAMEDepth - 1)"

lemma net_step_budget: "net_step p w w' \<Longrightarrow> vw_budget w \<noteq> None \<Longrightarrow> vw_budget w' \<noteq> None"
  by (cases "vw_budget w'") (auto simp: net_step_def charge_step_def)

lemma net_step_depth: "net_step p w w' \<Longrightarrow> vw_depth w' = vw_depth w"
  by (simp add: net_step_def charge_step_def)

interpretation hop: keep_relation "hop_step p" for p
proof
  show "hop_step p w w" for w by (simp add: hop_step_def net.keep_refl)
  show "hop_step p u w" if "hop_step p u v" "hop_step p v w" for u v w
  proof -
    have "net_step p u (w\<lparr>vw_depth := vw_depth u\<rparr>)" if b: "vw_budget u \<noteq> None"
    proof -
      have "net_step p u (v\<lparr>vw_depth := vw_depth u\<rparr>)" "net_step p v (w\<lparr>vw_depth := vw_depth v\<rparr>)"
        using b \<open>hop_step p u v\<close> \<open>hop_step p v w\<close> by (auto simp: hop_step_def)
      then show ?thesis by (auto simp: net_step_def charge_step_def within_budget_def)
    qed
    then show ?thesis using that by (auto simp: hop_step_def)
  qed
qed

lemma keeps_hop: "keeps (net_step p) m \<Longrightarrow> keeps (hop_step p) m"
proof (rule keepsI)
  fix w
  assume "keeps (net_step p) m"
  then have "net_step p w (snd (m w))" by (simp add: keeps_def)
  then show "hop_step p w (snd (m w))"
    using net_step_budget [of p w "snd (m w)"] net_step_depth [of p w "snd (m w)"]
    by (simp add: hop_step_def) (metis vworld.surjective vworld.update_convs(8))
qed

lemma keeps_start_budget: "0 < depth \<Longrightarrow> depth < maxCNAMEDepth \<Longrightarrow> keeps (hop_step p) (start_budget v depth)"
  by (auto simp: keeps_def start_budget_def hop_step_def net_step_def charge_step_def within_budget_def Let_def)

lemma keeps_validate_name:
  assumes "\<And>target vis c. Suc depth < maxCNAMEDepth \<Longrightarrow> keeps (hop_step (vd_egress v)) (f target (Suc depth) vis c)"
  shows "keeps (hop_step (vd_egress v)) (validate_name f lib v domain depth visited cache)"
proof -
  have follow: "keeps (hop_step (vd_egress v)) (followAlias f domain t depth vis c)" for t vis c
    unfolding followAlias_def Let_def
    using assms by (auto dest!: cnameGuard_Inr intro!: hop.keeps_rules keeps_cases split: sum.splits)
  have "keeps (hop_step (vd_egress v)) (alias_step f v domain depth vis st t)" for vis st t
    unfolding alias_step_def Let_def by (intro hop.keeps_rules keeps_cases follow)
  then show ?thesis unfolding validate_name_def
    by (intro hop.keeps_bind keeps_hop [OF keeps_discover_zones] keeps_hop [OF keeps_walk_zones] keeps_prod)
      (auto split: walk_end.splits intro!: hop.keeps_rules keeps_hop [OF keeps_leaf_step] keeps_prod)
qed

lemma keeps_validateWithCache:
  "0 < depth \<Longrightarrow> depth < maxCNAMEDepth \<Longrightarrow>
     keeps (hop_step (vd_egress v)) (validateWithCache lib v domain depth visited cache)"
proof (induction lib v domain depth visited cache rule: validateWithCache.induct)
  case (1 lib v domain depth visited cache)
  show ?case
  proof (cases "vd_anchors v = []")
    case True
    then show ?thesis
      by (simp add: validateWithCache.simps [of lib v domain depth] Let_def keeps_def hop.keep_refl)
  next
    case False
    have "keeps (hop_step (vd_egress v)) (validate_name (validateWithCache lib v) lib v domain depth visited cache)"
      using "1.IH" [OF False] by (intro keeps_validate_name) simp
    then show ?thesis using False "1.prems"
      by (simp add: validateWithCache.simps [of lib v domain depth] hop.keeps_bind keeps_start_budget)
  qed
qed

text \<open>
  A whole validation: every server dialled is permitted, the cryptographic checks stay within the
  budget, and no alias is followed beyond the tenth name.
\<close>

theorem validation_bounded:
  assumes "Validate lib v domain w = (r, w')" and "vd_anchors v \<noteq> []" and "vw_depth w = 0"
  shows "\<exists>new. vw_dials w' = vw_dials w @ new \<and> (\<forall>s \<in> set new. destination_ok (vd_egress v) s)"
    and "int (vw_verifies w') \<le> (if vd_verificationBudget v \<le> 0 then DefaultVerificationBudget else vd_verificationBudget v)"
    and "vw_depth w' < maxCNAMEDepth"
proof -
  define limit where "limit = (if vd_verificationBudget v \<le> 0 then DefaultVerificationBudget else vd_verificationBudget v)"
  define w1 where "w1 = w\<lparr>vw_verifies := 0, vw_budget := Some (newVerifyBudget limit)\<rparr>"
  have pos: "0 < limit" by (simp add: limit_def DefaultVerificationBudget_def)
  have start: "start_budget v 0 w = (Inr (), w1)"
    using assms(3) by (simp add: start_budget_def w1_def limit_def Let_def)
  have "snd (Validate lib v domain w) = snd (validate_name (validateWithCache lib v) lib v domain 0 {} [] w1)"
    using assms(2) start
    by (simp add: Validate_def validateWithCache.simps [of lib v domain 0] op_bind_apply split: prod.splits sum.splits)
  moreover have "keeps (hop_step (vd_egress v)) (validate_name (validateWithCache lib v) lib v domain 0 {} [])"
    by (intro keeps_validate_name keeps_validateWithCache) auto
  ultimately have "hop_step (vd_egress v) w1 w'" using assms(1) by (simp add: keeps_def)
  moreover have "within_budget w1" "map_option bu_limit (vw_budget w1) = Some limit" "vw_depth w1 = 0" "vw_dials w1 = vw_dials w"
    using pos assms(3) by (simp_all add: w1_def within_budget_def newVerifyBudget_def)
  ultimately have net: "net_step (vd_egress v) w1 (w'\<lparr>vw_depth := 0\<rparr>)" "vw_depth w' \<le> maxCNAMEDepth - 1"
    by (auto simp: hop_step_def)
  then show "vw_depth w' < maxCNAMEDepth" by (simp add: maxCNAMEDepth_def)
  from net(1) \<open>vw_dials w1 = vw_dials w\<close>
  show "\<exists>new. vw_dials w' = vw_dials w @ new \<and> (\<forall>s \<in> set new. destination_ok (vd_egress v) s)"
    by (auto simp: net_step_def)
  have "within_budget (w'\<lparr>vw_depth := 0\<rparr>)" "map_option bu_limit (vw_budget w') = Some limit"
    using net(1) \<open>within_budget w1\<close> \<open>map_option bu_limit (vw_budget w1) = Some limit\<close>
    by (auto simp: net_step_def charge_step_def)
  then show "int (vw_verifies w') \<le> (if vd_verificationBudget v \<le> 0 then DefaultVerificationBudget else vd_verificationBudget v)"
    using pos by (auto simp: within_budget_def limit_def [symmetric])
qed

end
