(* ===== verification/Trust_Chain.thy ===== *)
theory Trust_Chain
  imports Walk_Frame
begin

text \<open>
  What a secure zone rests on: a chain of signed DNSKEY RRsets that starts at a pinned, active root
  anchor and goes down through DS RRsets signed by the zone above. And what an insecure zone rests
  on: an authenticated proof that the parent holds no DS record for it, or an authenticated DS RRset
  the validator cannot use. No answer of the network alone gives either verdict.
\<close>

section \<open>Results of an operation\<close>

text \<open>
  \<open>gives clk m Q\<close>: under the clock \<open>clk\<close>, whatever \<open>m\<close> returns satisfies
  \<open>Q\<close>; the clock is not changed. The rules follow the control flow.
\<close>

definition gives :: "(nat \<Rightarrow> gotime) \<Rightarrow> (vworld, 'a) op \<Rightarrow> ('a \<Rightarrow> bool) \<Rightarrow> bool" where
  "gives clk m Q \<longleftrightarrow> (\<forall>w. vw_clock w = clk \<longrightarrow> vw_clock (snd (m w)) = clk \<and> (\<forall>r. fst (m w) = Inr r \<longrightarrow> Q r))"

lemma givesI:
  assumes "keeps (net_step p) m" and "\<And>w r w'. vw_clock w = clk \<Longrightarrow> m w = (Inr r, w') \<Longrightarrow> Q r"
  shows "gives clk m Q"
  unfolding gives_def
proof (intro allI impI conjI)
  fix w :: vworld and r
  assume w: "vw_clock w = clk"
  have "net_step p w (snd (m w))" using assms(1) by (simp add: keeps_def)
  then show "vw_clock (snd (m w)) = clk" using w by (simp add: net_step_def charge_step_def)
  show "fst (m w) = Inr r \<Longrightarrow> Q r" using assms(2) [OF w] by (metis prod.collapse)
qed

lemma givesD: "gives clk m Q \<Longrightarrow> vw_clock w = clk \<Longrightarrow> m w = (Inr r, w') \<Longrightarrow> Q r \<and> vw_clock w' = clk"
  unfolding gives_def by (metis fst_conv snd_conv)

lemma gives_frame: "keeps (net_step p) m \<Longrightarrow> gives clk m (\<lambda>_. True)"
  by (rule givesI) auto

lemma gives_ok: "Q x \<Longrightarrow> gives clk (op_ok x) Q"
  by (simp add: gives_def)

lemma gives_fail: "gives clk (op_fail e) Q"
  by (simp add: gives_def)

lemma gives_bind:
  assumes "gives clk m P" and "\<And>x. P x \<Longrightarrow> gives clk (f x) Q"
  shows "gives clk (op_bind m f) Q"
  unfolding gives_def
proof (intro allI impI)
  fix w :: vworld assume w: "vw_clock w = clk"
  obtain r w1 where m: "m w = (r, w1)" by (cases "m w")
  have w1: "vw_clock w1 = clk" using assms(1) w m by (auto simp: gives_def dest: spec [where x = w])
  show "vw_clock (snd (op_bind m f w)) = clk \<and> (\<forall>r. fst (op_bind m f w) = Inr r \<longrightarrow> Q r)"
  proof (cases r)
    case (Inr x)
    have "P x" using assms(1) w m Inr by (auto simp: gives_def dest: spec [where x = w])
    then show ?thesis using assms(2) w1 m Inr by (simp add: gives_def op_bind_apply)
  qed (use m w1 in \<open>simp add: op_bind_apply\<close>)
qed

lemma gives_try:
  assumes "gives clk m P" and "\<And>r. (\<And>x. r = Inr x \<Longrightarrow> P x) \<Longrightarrow> gives clk (f r) Q"
  shows "gives clk (op_try m f) Q"
  unfolding gives_def
proof (intro allI impI)
  fix w :: vworld assume w: "vw_clock w = clk"
  obtain r w1 where m: "m w = (r, w1)" by (cases "m w")
  have w1: "vw_clock w1 = clk" "\<And>x. r = Inr x \<Longrightarrow> P x"
    using assms(1) w m by (auto simp: gives_def dest: spec [where x = w])
  show "vw_clock (snd (op_try m f w)) = clk \<and> (\<forall>r. fst (op_try m f w) = Inr r \<longrightarrow> Q r)"
    using assms(2) [of r] w1 m by (simp add: gives_def op_try_apply)
qed

lemma gives_wrap: "gives clk m Q \<Longrightarrow> gives clk (op_wrap s m) Q"
  unfolding op_wrap_def by (rule gives_try, assumption) (auto intro: gives_ok gives_fail split: sum.splits)

lemma gives_if: "(c \<Longrightarrow> gives clk a Q) \<Longrightarrow> (\<not> c \<Longrightarrow> gives clk b Q) \<Longrightarrow> gives clk (if c then a else b) Q"
  by simp

lemma gives_mono: "gives clk m P \<Longrightarrow> (\<And>x. P x \<Longrightarrow> Q x) \<Longrightarrow> gives clk m Q"
  unfolding gives_def by blast

lemma gives_prod: "(\<And>a b. x = (a, b) \<Longrightarrow> gives clk (f a b) Q) \<Longrightarrow> gives clk (case x of (a, b) \<Rightarrow> f a b) Q"
  by (cases x) simp

lemma gives_sum:
  "(\<And>a. x = Inl a \<Longrightarrow> gives clk (f a) Q) \<Longrightarrow> (\<And>b. x = Inr b \<Longrightarrow> gives clk (g b) Q) \<Longrightarrow>
     gives clk (case x of Inl a \<Rightarrow> f a | Inr b \<Rightarrow> g b) Q"
  by (cases x) simp_all

lemma gives_option:
  "(x = None \<Longrightarrow> gives clk f Q) \<Longrightarrow> (\<And>b. x = Some b \<Longrightarrow> gives clk (g b) Q) \<Longrightarrow>
     gives clk (case x of None \<Rightarrow> f | Some b \<Rightarrow> g b) Q"
  by (cases x) simp_all

lemmas gives_rules = gives_ok gives_fail gives_wrap gives_if gives_prod gives_sum gives_option

section \<open>The library\<close>

text \<open>
  What the DNS library promises: a packed response unpacks to the same sections, a DNSKEY record
  carries its own type in its header, no owner name is empty, none becomes so, and a fully
  qualified name has at least its dot.
\<close>

definition net_laws :: "netlib \<Rightarrow> bool" where
  "net_laws lib \<longleftrightarrow>
     (\<forall>resp raw. Pack lib resp = Some raw \<and> raw \<noteq> [] \<longrightarrow> Unpack lib raw = Some (message.truncate resp)) \<and>
     (\<forall>raw m h k. Unpack lib raw = Some m \<and> DNSKEY h k \<in> set (msg_Answer m) \<longrightarrow> h_Rrtype h = TypeDNSKEY \<and> h_Name h \<noteq> []) \<and>
     (\<forall>n. n \<noteq> [] \<longrightarrow> canonNL lib n \<noteq> []) \<and> (\<forall>n. fqdnNL lib n \<noteq> [])"

lemma net_laws_DNSKEY:
  "net_laws lib \<Longrightarrow> Unpack lib raw = Some m \<Longrightarrow> DNSKEY h k \<in> set (msg_Answer m) \<Longrightarrow> h_Rrtype h = TypeDNSKEY \<and> h_Name h \<noteq> []"
  unfolding net_laws_def by blast

lemma net_laws_canon: "net_laws lib \<Longrightarrow> n \<noteq> [] \<Longrightarrow> canonNL lib n \<noteq> []"
  unfolding net_laws_def by blast

definition keys_in :: "netlib \<Rightarrow> string \<Rightarrow> rr list \<Rightarrow> key_rec list" where
  "keys_in lib sect rrs = concat (map (\<lambda>rr. case rr of DNSKEY h k \<Rightarrow> [DNSKEYFromRR (tlib lib) h k sect] | _ \<Rightarrow> []) rrs)"

text \<open>The keys of a query result are those of the bytes it keeps.\<close>

definition faithful :: "netlib \<Rightarrow> query_result \<Rightarrow> bool" where
  "faithful lib qr \<longleftrightarrow> (qr_RawResponse qr \<noteq> [] \<longrightarrow> (\<exists>m. Unpack lib (qr_RawResponse qr) = Some m \<and>
     qr_DNSKEY qr = keys_in lib ''answer'' (msg_Answer m) @ keys_in lib ''authority'' (msg_Ns m) @
       keys_in lib ''additional'' (msg_Extra m)))"

lemma parseSection_keys:
  "qr_DNSKEY (parseSection lib rrs sect now r) = qr_DNSKEY r @ keys_in lib sect rrs"
  "qr_RawResponse (parseSection lib rrs sect now r) = qr_RawResponse r"
  unfolding parseSection_def
  by (induction rrs arbitrary: r) (auto simp: keys_in_def parse_rr_def split: rr.splits)

lemma parseResponse_keys:
  "qr_DNSKEY (parseResponse lib resp now r) = qr_DNSKEY r @ keys_in lib ''answer'' (msg_Answer resp) @
     keys_in lib ''authority'' (msg_Ns resp) @ keys_in lib ''additional'' (msg_Extra resp)"
  "qr_RawResponse (parseResponse lib resp now r) = qr_RawResponse r"
  by (simp_all add: parseResponse_def parseSection_keys)

lemma gives_Query:
  assumes "net_laws lib"
  shows "gives clk (Query lib r server qname qtype) (faithful lib)"
proof -
  have "faithful lib (parseResponse lib resp now ((QueryResult server)\<lparr>qr_Truncated := t, qr_RCode := c, qr_RCodeName := n,
      qr_Authoritative := a, qr_RawResponse := (case Pack lib resp of Some raw \<Rightarrow> raw | None \<Rightarrow> [])\<rparr>))" for resp now t c n a
    using assms by (auto simp: faithful_def QueryResult_def net_laws_def parseResponse_keys message.truncate_def split: option.splits)
  then show ?thesis unfolding Query_def QueryWithRecursion_def Let_def
    by (intro gives_bind [OF gives_frame [OF keeps_exchange]] gives_bind [OF gives_frame [OF keeps_clock]] gives_rules)
      (auto simp: faithful_def QueryResult_def)
qed

section \<open>Trusted keys\<close>

text \<open>
  \<open>signed_keys\<close>: the keys are those of a DNSKEY RRset of the zone that a key of
  \<open>authed\<close>, one of them, has signed. \<open>signed_ds\<close>: the DS records are those of
  an RRset for the child that a key of the parent has signed.
\<close>

definition signed_keys :: "netlib \<Rightarrow> (nat \<Rightarrow> gotime) \<Rightarrow> string \<Rightarrow> key_rec list \<Rightarrow> key_rec list \<Rightarrow> bool" where
  "signed_keys lib clk zone authed keys \<longleftrightarrow> zone \<noteq> [] \<and> set authed \<subseteq> set keys \<and>
     (\<exists>raw m v. Unpack lib raw = Some m \<and>
        authentic (tlib lib) TypeDNSKEY (msg_Answer m) authed (canonNL lib zone) (canonNL lib zone) clk v \<and>
        keys = keys_in lib ''answer'' (vr_Records v))"

definition signed_ds :: "netlib \<Rightarrow> (nat \<Rightarrow> gotime) \<Rightarrow> string \<Rightarrow> string \<Rightarrow> key_rec list \<Rightarrow> ds_rec list \<Rightarrow> bool" where
  "signed_ds lib clk zone parent pkeys ds \<longleftrightarrow>
     (\<exists>raw m v. Unpack lib raw = Some m \<and>
        authentic (tlib lib) TypeDS (msg_Answer m) pkeys (canonNL lib zone) (canonNL lib parent) clk v \<and>
        ds = dsRecordsFromVerified (tlib lib) v)"

inductive trusted :: "netlib \<Rightarrow> anchor list \<Rightarrow> (nat \<Rightarrow> gotime) \<Rightarrow> string \<Rightarrow> key_rec list \<Rightarrow> bool"
  for lib anchors clk where
  root: "\<forall>k \<in> set authed. \<exists>n. \<exists>a \<in> set (GetActivePinnedAnchors (clk n) anchors). anchor_accepts (tlib lib) a k \<Longrightarrow>
     signed_keys lib clk ''.'' authed keys \<Longrightarrow> trusted lib anchors clk ''.'' keys"
| delegation: "trusted lib anchors clk parent pkeys \<Longrightarrow> signed_ds lib clk zone parent pkeys ds \<Longrightarrow>
     \<forall>k \<in> set authed. \<exists>d \<in> set (fst (SupportedDSRecords ds)). ds_accepts (tlib lib) zone d k \<Longrightarrow>
     signed_keys lib clk zone authed keys \<Longrightarrow> trusted lib anchors clk zone keys"

lemma signed_keys_owner:
  assumes "net_laws lib" and "signed_keys lib clk zone authed keys" and "k \<in> set keys"
  shows "kr_Owner k \<noteq> []" "canonNL lib (kr_Owner k) = canonNL lib zone"
proof -
  obtain raw m v where u: "Unpack lib raw = Some m"
    "authentic (tlib lib) TypeDNSKEY (msg_Answer m) authed (canonNL lib zone) (canonNL lib zone) clk v"
    "keys = keys_in lib ''answer'' (vr_Records v)" using assms(2) by (auto simp: signed_keys_def)
  then obtain h d where k: "DNSKEY h d \<in> set (vr_Records v)" "k = DNSKEYFromRR (tlib lib) h d ''answer''"
    using assms(3) by (auto simp: keys_in_def split: rr.splits)
  have r: "vr_Records v = rrset_at (tlib lib) TypeDNSKEY (msg_Answer m) (vr_Owner v)" "sig_checks (tlib lib) (canonNL lib zone) (canonNL lib zone) (vr_Signature v)"
    "vr_Owner v = canonNL lib (h_Name (sig_Hdr (vr_Signature v)))"
    using u(2) by (auto simp: authentic_def Let_def)
  have own: "kr_Owner k = h_Name h" using k(2) by (simp add: DNSKEYFromRR_def Let_def)
  have "DNSKEY h d \<in> set (msg_Answer m)" "canonNL lib (h_Name h) = vr_Owner v" using k(1) r(1) by (auto simp: rrset_at_def)
  then show "kr_Owner k \<noteq> []" using own net_laws_DNSKEY [OF assms(1) u(1)] by simp
  have "canonNL lib zone \<noteq> []" using assms(1,2) by (simp add: signed_keys_def net_laws_canon)
  moreover have "canonNL lib (kr_Owner k) = vr_Owner v" using own \<open>canonNL lib (h_Name h) = vr_Owner v\<close> by simp
  ultimately show "canonNL lib (kr_Owner k) = canonNL lib zone"
    using r(2,3) by (auto simp: sig_checks_def)
qed

lemma trusted_owner:
  assumes "net_laws lib" and "trusted lib anchors clk zone keys" and "k \<in> set keys"
  shows "kr_Owner k \<noteq> []" "canonNL lib (kr_Owner k) = canonNL lib zone"
  using assms(2,3) signed_keys_owner [OF assms(1)] by (auto elim: trusted.cases)

section \<open>Authenticating the keys of a zone\<close>

lemma gives_rrset:
  "gives clk (verifyRRsetFromResponseB (tlib lib) (Unpack lib) raw t keys own zone True) (\<lambda>v.
     \<exists>m. Unpack lib raw = Some m \<and> authentic (tlib lib) t (msg_Answer m) keys (want_name (tlib lib) own) (want_name (tlib lib) zone) clk v)"
proof (rule givesI [OF keeps_rrset_net])
  fix w v w'
  assume "vw_clock w = clk" "verifyRRsetFromResponseB (tlib lib) (Unpack lib) raw t keys own zone True w = (Inr v, w')"
  then show "\<exists>m. Unpack lib raw = Some m \<and> authentic (tlib lib) t (msg_Answer m) keys (want_name (tlib lib) own) (want_name (tlib lib) zone) clk v"
    by (auto simp: verifyRRsetFromResponseB_def dest: verifyRRset_authentic split: if_splits option.splits)
qed

text \<open>The keys the code goes on with are those of the verified RRset.\<close>

lemma answer_keys_verified:
  assumes law: "net_laws lib" and m: "Unpack lib raw = Some m" and zone: "zone \<noteq> []"
    and qr: "qr_DNSKEY qr = keys_in lib ''answer'' (msg_Answer m) @ keys_in lib ''authority'' (msg_Ns m) @
       keys_in lib ''additional'' (msg_Extra m)"
    and a: "authentic (tlib lib) TypeDNSKEY (msg_Answer m) authed (canonNL lib zone) (canonNL lib zone) clk v"
  shows "answerDNSKEYsOwnedBy (tlib lib) (qr_DNSKEY qr) zone = keys_in lib ''answer'' (vr_Records v)"
proof -
  have "canonNL lib zone \<noteq> []" using law zone by (rule net_laws_canon)
  then have own: "vr_Records v = rrset_at (tlib lib) TypeDNSKEY (msg_Answer m) (canonNL lib zone)"
    using a by (auto simp: authentic_def Let_def sig_checks_def)
  have here: "filter (\<lambda>k. owned_answer (tlib lib) zone (kr_Section k) (kr_Owner k)) (keys_in lib ''answer'' rrs) =
      keys_in lib ''answer'' (rrset_at (tlib lib) TypeDNSKEY rrs (canonNL lib zone))" if "set rrs \<subseteq> set (msg_Answer m)" for rrs
    using that net_laws_DNSKEY [OF law m]
    by (induction rrs) (auto simp: keys_in_def rrset_at_def owned_answer_def InSection_def DNSKEYFromRR_def Let_def is_RRSIG_def
        split: rr.splits)
  have other: "filter (\<lambda>k. owned_answer (tlib lib) zone (kr_Section k) (kr_Owner k)) (keys_in lib s rrs) = []"
    if "s \<in> {''authority'', ''additional''}" for s rrs
    using that by (induction rrs) (auto simp: keys_in_def owned_answer_def InSection_def DNSKEYFromRR_def Let_def split: rr.splits)
  show ?thesis unfolding answerDNSKEYsOwnedBy_def qr by (simp add: here other own)
qed

text \<open>A trust source only returns keys of the set it is given, each with a reason.\<close>

definition source_ok :: "(nat \<Rightarrow> gotime) \<Rightarrow> (key_rec \<Rightarrow> bool) \<Rightarrow> trust_source \<Rightarrow> bool" where
  "source_ok clk P trust \<longleftrightarrow> (\<forall>keys. gives clk (trust keys) (\<lambda>(link, authed). set authed \<subseteq> set keys \<and> (\<forall>k \<in> set authed. P k)))"

lemma gives_charge: "0 \<le> n \<Longrightarrow> gives clk (charge n) (\<lambda>_. True)"
  by (rule gives_frame [OF keeps_charge_net])

lemma dedupeKeys_subset: "set (dedupeKeys lib keys) \<subseteq> set keys"
  unfolding dedupeKeys_def by (rule dedupe_subset)

lemma root_trust_ok:
  "source_ok clk (\<lambda>k. \<exists>a \<in> set active. IsPinnedRootAnchor a \<and> anchor_accepts (tlib lib) a k) (root_trust lib active)"
  unfolding source_ok_def root_trust_def Let_def
  using dedupeKeys_subset CollectAnchorMatchedKeys_exact
  by (intro allI gives_bind [OF gives_charge] gives_rules) (auto, blast)

lemma ds_trust_ok:
  "source_ok clk (\<lambda>k. \<exists>d \<in> set ds. ds_accepts (tlib lib) zone d k) (ds_trust lib ds zone)"
  unfolding source_ok_def ds_trust_def Let_def
  using dedupeKeys_subset CollectDSMatchedKeys_exact(1)
  by (intro allI gives_bind [OF gives_charge] gives_rules) (auto, blast)

lemma gives_dnskey_rrset:
  assumes "net_laws lib" and "zone \<noteq> []"
  shows "gives clk (verifyDNSKEYRRsetFromResponseB (tlib lib) (Unpack lib) raw zone authed) (\<lambda>v.
     \<exists>m. Unpack lib raw = Some m \<and> authentic (tlib lib) TypeDNSKEY (msg_Answer m) authed (canonNL lib zone) (canonNL lib zone) clk v)"
  using gives_rrset [of clk lib raw TypeDNSKEY authed zone zone] assms(2)
  by (auto simp: verifyDNSKEYRRsetFromResponseB_def want_name_def intro: gives_fail)

lemma gives_authenticate_one:
  assumes "net_laws lib" and "zone \<noteq> []" and "source_ok clk P trust" and "faithful lib qr"
    and "keys = answerDNSKEYsOwnedBy (tlib lib) (qr_DNSKEY qr) zone"
  shows "gives clk (authenticate_one lib zone trust keys qr)
    (\<lambda>(link, authed). (\<forall>k \<in> set authed. P k) \<and> signed_keys lib clk zone authed keys)"
proof -
  have "signed_keys lib clk zone authed keys"
    if "set authed \<subseteq> set keys" "qr_RawResponse qr \<noteq> []" "Unpack lib (qr_RawResponse qr) = Some m"
      "authentic (tlib lib) TypeDNSKEY (msg_Answer m) authed (canonNL lib zone) (canonNL lib zone) clk v" for authed m v
    using that assms(1,2,4,5) answer_keys_verified [OF assms(1) that(3) assms(2) _ that(4), of qr]
    by (auto simp: signed_keys_def faithful_def)
  then show ?thesis unfolding authenticate_one_def
    by (intro gives_bind [OF assms(3) [unfolded source_ok_def, rule_format, of keys]] gives_prod gives_if gives_fail
        gives_bind [OF gives_wrap [OF gives_dnskey_rrset [OF assms(1,2)]]] gives_ok) auto
qed

lemma gives_authenticate:
  assumes "net_laws lib" and "zone \<noteq> []" and "source_ok clk P trust"
    and "\<forall>s \<in> set srs. \<forall>qr. ar_Response s = Some qr \<longrightarrow> faithful lib qr"
  shows "gives clk (authenticate lib zone trust e before srs) (\<lambda>a. \<forall>link keys authed qr rest.
    a = AuthOk link keys authed qr rest \<longrightarrow> keys \<noteq> [] \<and> (\<forall>k \<in> set authed. P k) \<and> signed_keys lib clk zone authed keys)"
  using assms(4)
proof (induction srs arbitrary: e before)
  case (Cons s srs)
  then have IH: "gives clk (authenticate lib zone trust e before srs) (\<lambda>a. \<forall>link keys authed qr rest.
    a = AuthOk link keys authed qr rest \<longrightarrow> keys \<noteq> [] \<and> (\<forall>k \<in> set authed. P k) \<and> signed_keys lib clk zone authed keys)" for e before
    by simp
  show ?case unfolding authenticate.simps Let_def
    by (intro gives_option gives_if IH gives_try [OF gives_authenticate_one [OF assms(1-3) _ refl]] gives_sum gives_prod gives_ok)
      (use Cons.prems in auto)
qed (auto intro: gives_ok)

section \<open>Fields the bookkeeping keeps\<close>

lemma zone_fields [simp]:
  "zr_Zone (applyServerResults srs z) = zr_Zone z" "zr_Status (applyServerResults srs z) = zr_Status z"
  "zr_DNSKEY (applyServerResults srs z) = zr_DNSKEY z"
  "zr_Zone (markUsable s r srs z) = zr_Zone z" "zr_Status (markUsable s r srs z) = zr_Status z"
  "zr_Zone (add_warnings ws z) = zr_Zone z" "zr_Status (add_warnings ws z) = zr_Status z"
  "zr_DNSKEY (add_warnings ws z) = zr_DNSKEY z"
  "zr_Zone (zone_AddError e z) = zr_Zone z" "zr_Status (zone_AddError e z) = zr_Status z"
  "zr_DNSKEY (zone_AddError e z) = zr_DNSKEY z"
  "zr_Zone (verdict s why z) = zr_Zone z" "zr_Status (verdict s why z) = s"
  "zr_Zone (note_parent ds z) = zr_Zone z" "zr_Zone (diagnostics lib zn usable z) = zr_Zone z"
  by (simp_all add: applyServerResults_def markUsable_def add_warnings_def zone_AddError_def verdict_def note_parent_def
      diagnostics_def Let_def)

lemma compliance_fields [simp]:
  "zr_Zone (compliance_warnings z) = zr_Zone z" "zr_DNSKEY (compliance_warnings z) = zr_DNSKEY z"
  by (simp_all add: compliance_warnings_def Let_def split: option.splits)

lemma gives_judgeDNSKEYServers:
  "gives clk (judgeDNSKEYServers lib z srs zone keys) (\<lambda>z'. zr_Zone z' = zr_Zone z \<and> zr_DNSKEY z' = zr_DNSKEY z)"
  unfolding judgeDNSKEYServers_def Let_def
  by (intro gives_bind [OF gives_frame [OF keeps_judge_servers]] gives_prod gives_ok) simp

lemma gives_secure_zone:
  assumes "net_laws lib" and "zone \<noteq> []" and "source_ok clk P trust"
    and "\<forall>s \<in> set srs. \<forall>qr. ar_Response s = Some qr \<longrightarrow> faithful lib qr"
  shows "gives clk (secure_zone lib zone z trust srs) (\<lambda>z'. zr_Zone z' = zr_Zone z \<and>
    (zr_Status z' = StatusSecure \<and> zr_DNSKEY z' \<noteq> [] \<and>
      (\<exists>authed. (\<forall>k \<in> set authed. P k) \<and> signed_keys lib clk zone authed (zr_DNSKEY z')) \<or>
     zr_Status z' \<in> {StatusBogus, StatusIndeterminate}))"
proof -
  have *: "gives clk (case a of
       AuthExhausted e srs' \<Rightarrow> op_ok (f e srs') | AuthFailed e srs' \<Rightarrow> op_ok (g e srs')
     | AuthOk link keys authed qr srs' \<Rightarrow> h link keys authed qr srs') Q"
    if "\<And>e srs'. Q (f e srs')" "\<And>e srs'. Q (g e srs')"
      "\<And>link keys authed qr srs'. a = AuthOk link keys authed qr srs' \<Longrightarrow> gives clk (h link keys authed qr srs') Q"
    for a f g h and Q :: "zone_result \<Rightarrow> bool" using that by (cases a) (auto intro: gives_ok)
  show ?thesis unfolding secure_zone_def
    by (intro gives_bind [OF gives_authenticate [OF assms]] * gives_bind [OF gives_judgeDNSKEYServers] gives_ok) auto
qed

section \<open>What the parent says\<close>

lemma gives_verifyDSRRSIGSetB:
  "gives clk (verifyDSRRSIGSetB lib val zone parentZone pkeys raw) (\<lambda>(got, val'). \<forall>ds. got = Some ds \<longrightarrow>
     (\<exists>m v. Unpack lib raw = Some m \<and> authentic (tlib lib) TypeDS (msg_Answer m) pkeys (want_name (tlib lib) zone)
        (want_name (tlib lib) parentZone) clk v \<and> ds = dsRecordsFromVerified (tlib lib) v))"
  unfolding verifyDSRRSIGSetB_def by (intro gives_try [OF gives_rrset] gives_rules) auto

text \<open>Keys of a trusted zone only verify signatures made in its name.\<close>

lemma authentic_signer:
  assumes "net_laws lib" and "trusted lib anchors clk parent pkeys"
    and "authentic (tlib lib) t scan pkeys wo ws clk v"
  shows "authentic (tlib lib) t scan pkeys wo (canonNL lib parent) clk v"
proof -
  have "vr_Key v \<in> set pkeys" "key_checks (tlib lib) (vr_Key v) (vr_Signature v) (vr_Records v)"
    using assms(3) by (auto simp: authentic_def Let_def)
  then have "canonNL lib (sig_SignerName (vr_Signature v)) = canonNL lib parent"
    using trusted_owner [OF assms(1,2)] by (auto simp: key_checks_def)
  then show ?thesis using assms(3) by (auto simp: authentic_def Let_def sig_checks_def)
qed

text \<open>
  An authenticated proof that the parent has no DS record for the child: a signed NSEC of the
  child, marked as a delegation and without DS; or a signed NSEC3 chain with such a record, or with
  an opt-out record over the next closer name.
\<close>

definition delegation_without_ds :: "string list \<Rightarrow> bool" where
  "delegation_without_ds types \<longleftrightarrow>
     HasTypeInBitmap ''NS'' types \<and> \<not> HasTypeInBitmap ''DS'' types \<and> \<not> HasTypeInBitmap ''SOA'' types"

definition signed_denial :: "netlib \<Rightarrow> (nat \<Rightarrow> gotime) \<Rightarrow> 16 word \<Rightarrow> key_rec list \<Rightarrow> verified_rrset list \<Rightarrow> bool" where
  "signed_denial lib clk t pkeys vs \<longleftrightarrow> (\<exists>raw m zone. Unpack lib raw = Some m \<and>
     (\<forall>v \<in> set vs. authentic_denial (tlib lib) t (msg_Answer m @ msg_Ns m) pkeys zone clk v))"

definition ds_denied :: "netlib \<Rightarrow> (nat \<Rightarrow> gotime) \<Rightarrow> string \<Rightarrow> key_rec list \<Rightarrow> bool" where
  "ds_denied lib clk child pkeys \<longleftrightarrow>
     (\<exists>vs n. signed_denial lib clk TypeNSEC pkeys vs \<and> n \<in> set (nsecRecordsFromVerified (tlib lib) vs) \<and>
        canonicalizeName (nr_Owner n) = canonicalizeName child \<and> delegation_without_ds (nr_TypeBitmap n)) \<or>
     (\<exists>vs found ignored c. signed_denial lib clk TypeNSEC3 pkeys vs \<and>
        nsec3Chains (nsec3RecordsFromVerified (tlib lib) vs) = Inr (found, ignored) \<and> c \<in> set found \<and>
        ((\<exists>rec. ch_match c (ch_hash (vlib (tlib lib)) c (canonicalizeName child)) = Some rec \<and> delegation_without_ds (n3r_TypeBitmap rec)) \<or>
         (\<exists>ce nextCloser r ncRec. ch_match c (ch_hash (vlib (tlib lib)) c (canonicalizeName child)) = None \<and>
            closestEncloser (vlib (tlib lib)) c (canonicalizeName child) = Inr (ce, nextCloser, r, ncRec) \<and> isOptOut ncRec)))"

lemma absence_nsec_sound:
  "absence_nsec child ns = Inr (Some n) \<Longrightarrow> n \<in> set ns \<and> canonicalizeName (nr_Owner n) = child \<and> delegation_without_ds (nr_TypeBitmap n)"
  by (induction ns) (auto simp: delegation_without_ds_def split: if_splits)

lemma absence_chains_sound:
  assumes "absence_chains lib child p e cs = (p', True)"
  shows "\<exists>c \<in> set cs. (\<exists>rec. ch_match c (ch_hash (vlib (tlib lib)) c child) = Some rec \<and> delegation_without_ds (n3r_TypeBitmap rec)) \<or>
     (\<exists>ce nextCloser r ncRec. ch_match c (ch_hash (vlib (tlib lib)) c child) = None \<and>
        closestEncloser (vlib (tlib lib)) c child = Inr (ce, nextCloser, r, ncRec) \<and> isOptOut ncRec)"
  using assms
  by (induction cs arbitrary: e) (auto simp: delegation_without_ds_def split: if_splits option.splits sum.splits)

lemma gives_denial:
  assumes "net_laws lib"
  shows "gives clk (verifyDenialRRsetsFromResponseB (tlib lib) (Unpack lib) raw t pkeys zone)
    (\<lambda>(vs, rej). signed_denial lib clk t pkeys vs)"
proof (rule givesI [OF keeps_denial_net])
  fix w r w'
  assume w: "vw_clock w = clk" "verifyDenialRRsetsFromResponseB (tlib lib) (Unpack lib) raw t pkeys zone w = (Inr r, w')"
  obtain vs rej where r: "r = (vs, rej)" by (cases r)
  obtain m where "Unpack lib raw = Some m"
    "\<forall>v \<in> set vs. authentic_denial (tlib lib) t (msg_Answer m @ msg_Ns m) pkeys zone (vw_clock w) v"
    using denial_rrsets_authentic [OF w(2) [unfolded r] net_laws_canon [OF assms]] by blast
  then show "case r of (vs, rej) \<Rightarrow> signed_denial lib clk t pkeys vs" using w(1) r by (auto simp: signed_denial_def)
qed

lemma ds_denied_NSEC:
  assumes "signed_denial lib clk TypeNSEC pkeys vs"
    and "absence_nsec (canonicalizeName child) (nsecRecordsFromVerified (tlib lib) vs) = Inr (Some n)"
  shows "ds_denied lib clk child pkeys"
  using absence_nsec_sound [OF assms(2)] assms(1) unfolding ds_denied_def by blast

lemma ds_denied_NSEC3:
  assumes "signed_denial lib clk TypeNSEC3 pkeys vs"
    and "nsec3Chains (nsec3RecordsFromVerified (tlib lib) vs) = Inr (found, ignored)"
    and "absence_chains lib (canonicalizeName child) p e found = (p', True)"
  shows "ds_denied lib clk child pkeys"
  using absence_chains_sound [OF assms(3)] assms(1,2) unfolding ds_denied_def by blast

lemma gives_verifyDSAbsence:
  assumes "net_laws lib"
  shows "gives clk (verifyDSAbsence lib child parentZone pkeys qr) (\<lambda>(p, proven). proven \<longrightarrow> ds_denied lib clk child pkeys)"
  unfolding verifyDSAbsence_def Let_def
  by (intro gives_if gives_ok gives_try [OF gives_denial [OF assms]])
    (auto intro: ds_denied_NSEC ds_denied_NSEC3 split: sum.splits option.splits prod.splits)

text \<open>
  What the walk knows of the zone above: nothing, or its trusted keys. A parent's answer is
  authenticated only in the second case.
\<close>

definition parent_known :: "netlib \<Rightarrow> anchor list \<Rightarrow> (nat \<Rightarrow> gotime) \<Rightarrow> string \<Rightarrow> key_rec list \<Rightarrow> bool" where
  "parent_known lib anchors clk parent pkeys \<longleftrightarrow> pkeys = [] \<or> trusted lib anchors clk parent pkeys"

definition parent_ok :: "netlib \<Rightarrow> (nat \<Rightarrow> gotime) \<Rightarrow> string \<Rightarrow> string \<Rightarrow> key_rec list \<Rightarrow> parent_ds \<Rightarrow> bool" where
  "parent_ok lib clk zone parent pkeys ds \<longleftrightarrow>
     (pd_Authenticated ds \<noteq> [] \<longrightarrow> pkeys \<noteq> [] \<and> signed_ds lib clk zone parent pkeys (pd_Authenticated ds)) \<and>
     (pd_AbsenceProven ds \<longrightarrow> pkeys \<noteq> [] \<and> ds_denied lib clk zone pkeys)"

lemma gives_classify:
  assumes "net_laws lib" and "zone \<noteq> []" and "parent_known lib anchors clk parent pkeys"
  shows "gives clk (classifyParentDSAnswer lib qr zone parentZone pkeys) (\<lambda>(out, auth). parent_ok lib clk zone parent pkeys out)"
proof -
  have "signed_ds lib clk zone parent pkeys (dsRecordsFromVerified (tlib lib) v)"
    if "pkeys \<noteq> []" "Unpack lib raw = Some m"
      "authentic (tlib lib) TypeDS (msg_Answer m) pkeys (want_name (tlib lib) zone) ws clk v" for raw m ws v
  proof -
    have "trusted lib anchors clk parent pkeys" using assms(3) that(1) by (simp add: parent_known_def)
    from authentic_signer [OF assms(1) this that(3)] show ?thesis
      using that(2) assms(2) by (auto simp: signed_ds_def want_name_def)
  qed
  then show ?thesis unfolding classifyParentDSAnswer_def Let_def
    by (intro gives_if gives_ok gives_bind [OF gives_verifyDSRRSIGSetB] gives_bind [OF gives_verifyDSAbsence [OF assms(1)]] gives_prod)
      (auto simp: parent_ok_def split: option.splits)
qed

definition cands_ok :: "(parent_ds \<Rightarrow> bool) \<Rightarrow> ds_candidate list \<Rightarrow> nat option \<Rightarrow> bool" where
  "cands_ok P cands chosen \<longleftrightarrow> (\<forall>c \<in> set cands. \<forall>out. dc_result c = Some out \<longrightarrow> P out) \<and>
     (\<forall>i. chosen = Some i \<longrightarrow> i < length cands)"

lemma gives_query_parents:
  assumes "net_laws lib" and "zone \<noteq> []" and "parent_known lib anchors clk parent pkeys"
    and "cands_ok (parent_ok lib clk zone parent pkeys) cands chosen"
  shows "gives clk (query_parents lib v zone parentZone pkeys cands chosen addrs)
    (\<lambda>(cands, chosen). cands_ok (parent_ok lib clk zone parent pkeys) cands chosen)"
  using assms(4)
proof (induction addrs arbitrary: cands chosen)
  case (Cons a addrs)
  let ?P = "parent_ok lib clk zone parent pkeys"
  have res: "gives clk (if ds_usable qr then
                op_bind (classifyParentDSAnswer lib qr zone parentZone pkeys) (\<lambda>(out, auth). op_ok (Some out, auth))
              else op_ok (None, False)) (\<lambda>(res, auth). \<forall>out. res = Some out \<longrightarrow> ?P out)" for qr
    by (intro gives_if gives_bind [OF gives_classify [OF assms(1-3)]] gives_prod gives_ok) auto
  have more: "cands_ok ?P (cands @ [\<lparr>dc_addr = a, dc_qr = qr, dc_result = r\<rparr>]) ch"
    if "\<forall>out. r = Some out \<longrightarrow> ?P out" "ch = chosen \<or> ch = Some (length cands)" for qr r ch
    using Cons.prems that by (auto simp: cands_ok_def less_SucI)
  show ?case unfolding query_parents.simps Let_def
    by (intro gives_bind [OF gives_frame [OF keeps_ctx_ended]] gives_if gives_ok
        gives_bind [OF gives_frame [OF keeps_QueryDS(1)]] gives_bind [OF res] gives_prod Cons.IH)
      (use Cons.prems more in auto)
qed (auto intro: gives_ok)

lemma gives_judge_parents:
  assumes "parent_ok lib clk zone parent pkeys out"
  shows "gives clk (judge_parents lib zone parentZone pkeys out cs) (parent_ok lib clk zone parent pkeys)"
  using assms
proof (induction cs arbitrary: out)
  case (Cons c cs)
  show ?case unfolding judge_parents.simps
    by (rule gives_bind [OF gives_frame [OF keeps_judgeParentDSServer]], rule Cons.IH)
      (use Cons.prems in \<open>simp add: parent_ok_def split: option.splits\<close>)
qed (simp add: gives_ok)

lemma keeps_parent_servers [net_keeps]: "keeps (net_step (vd_egress v)) (parent_servers lib v pz fb)"
  unfolding parent_servers_def by (intro net_steps net_keeps)

lemma gives_queryDS:
  assumes "net_laws lib" and "zone \<noteq> []" and "parent_known lib anchors clk parent pkeys"
  shows "gives clk (queryDSFromParentWithValidation lib v zone parentZone fallback pkeys) (parent_ok lib clk zone parent pkeys)"
proof -
  let ?P = "parent_ok lib clk zone parent pkeys"
  have start: "cands_ok ?P [] None" by (simp add: cands_ok_def)
  have pick: "?P (out\<lparr>pd_Truncation := t\<rparr>)"
    if "cands_ok ?P cands chosen" "(case chosen of Some i \<Rightarrow> Some i | None \<Rightarrow> first_usable cands) = Some i"
      "dc_result (cands ! i) = Some out" for cands chosen i out t
  proof -
    have "i < length cands" using that(1,2)
      by (auto simp: cands_ok_def first_usable_def find_Some_iff split: option.splits)
    then have "?P out" using that(1,3) by (auto simp: cands_ok_def)
    then show ?thesis by (simp add: parent_ok_def)
  qed
  show ?thesis unfolding queryDSFromParentWithValidation_def
    by (intro gives_bind [OF gives_frame [OF keeps_parent_servers]] gives_bind [OF gives_query_parents [OF assms start]]
        gives_prod gives_option gives_fail gives_judge_parents) (auto intro: pick)
qed

section \<open>The verdict on a zone\<close>

text \<open>
  A verdict with its grounds. Secure: trusted keys. Insecure: the zone above is insecure, or its
  trusted keys prove that there is no DS record, or sign a DS RRset with no usable record.
\<close>

definition unusable_ds :: "netlib \<Rightarrow> (nat \<Rightarrow> gotime) \<Rightarrow> string \<Rightarrow> string \<Rightarrow> key_rec list \<Rightarrow> bool" where
  "unusable_ds lib clk zone parent pkeys \<longleftrightarrow>
     (\<exists>ds. ds \<noteq> [] \<and> signed_ds lib clk zone parent pkeys ds \<and> fst (SupportedDSRecords ds) = [])"

definition insecure_ground :: "netlib \<Rightarrow> anchor list \<Rightarrow> (nat \<Rightarrow> gotime) \<Rightarrow> string \<Rightarrow> string \<Rightarrow> key_rec list \<Rightarrow> bool" where
  "insecure_ground lib anchors clk zone parent pkeys \<longleftrightarrow> trusted lib anchors clk parent pkeys \<and>
     (ds_denied lib clk zone pkeys \<or> unusable_ds lib clk zone parent pkeys)"

definition grounded :: "netlib \<Rightarrow> anchor list \<Rightarrow> (nat \<Rightarrow> gotime) \<Rightarrow> string \<Rightarrow> string \<Rightarrow> key_rec list \<Rightarrow> bool \<Rightarrow> zone_result \<Rightarrow> bool" where
  "grounded lib anchors clk zone parent pkeys parentInsecure z \<longleftrightarrow> zr_Zone z = zone \<and>
     (case zr_Status z of
        StatusSecure \<Rightarrow> zr_DNSKEY z \<noteq> [] \<and> trusted lib anchors clk zone (zr_DNSKEY z)
      | StatusInsecure \<Rightarrow> parentInsecure \<or> insecure_ground lib anchors clk zone parent pkeys
      | StatusBogus \<Rightarrow> True
      | StatusIndeterminate \<Rightarrow> True
      | StatusValidating \<Rightarrow> False)"

lemma gives_finalizeNoDS:
  assumes "net_laws lib" and "parent_known lib anchors clk parent pkeys" and "parent_ok lib clk zone parent pkeys ds"
    and "zr_Zone z = zone"
  shows "gives clk (finalizeNoDSDelegation lib z zone parentZone pkeys ds)
    (\<lambda>z'. grounded lib anchors clk zone parent pkeys pI z' \<and> zr_Status z' \<noteq> StatusSecure)"
proof -
  have absence: "gives clk (case pd_AbsenceProof ds of Some p \<Rightarrow> op_ok (p, pd_AbsenceProven ds)
      | None \<Rightarrow> verifyDSAbsence lib zone parentZone pkeys (pd_Response ds)) (\<lambda>(p, proven). proven \<longrightarrow> ds_denied lib clk zone pkeys)"
    using assms(3) by (intro gives_option gives_ok gives_verifyDSAbsence [OF assms(1)]) (auto simp: parent_ok_def)
  show ?thesis unfolding finalizeNoDSDelegation_def Let_def
    by (intro gives_if gives_ok gives_bind [OF absence] gives_prod)
      (use assms(2,4) in \<open>auto simp: grounded_def insecure_ground_def parent_known_def\<close>)
qed

lemma grounded_open: "zr_Zone z = zone \<Longrightarrow> zr_Status z \<in> {StatusBogus, StatusIndeterminate} \<Longrightarrow> grounded lib anchors clk zone parent pkeys pI z"
  by (auto simp: grounded_def)

lemma grounded_insecure:
  "zr_Zone z = zone \<Longrightarrow> zr_Status z = StatusInsecure \<Longrightarrow> insecure_ground lib anchors clk zone parent pkeys \<Longrightarrow>
     grounded lib anchors clk zone parent pkeys pI z"
  by (simp add: grounded_def)

lemma grounded_markUsable [simp]:
  "grounded lib anchors clk zone parent pkeys pI (markUsable s why srs z) = grounded lib anchors clk zone parent pkeys pI z"
  if "zr_Status z \<noteq> StatusSecure"
  using that by (simp add: grounded_def split: status.splits)

text \<open>The source of trust of a zone that has keys.\<close>

definition source_ground :: "netlib \<Rightarrow> anchor list \<Rightarrow> (nat \<Rightarrow> gotime) \<Rightarrow> string \<Rightarrow> trust_source \<Rightarrow> bool" where
  "source_ground lib anchors clk zone trust \<longleftrightarrow> (\<exists>P. source_ok clk P trust \<and>
     (\<forall>authed keys. (\<forall>k \<in> set authed. P k) \<and> signed_keys lib clk zone authed keys \<longrightarrow> trusted lib anchors clk zone keys))"

lemma source_groundI:
  assumes "source_ok clk P trust"
    and "\<And>authed keys. \<forall>k \<in> set authed. P k \<Longrightarrow> signed_keys lib clk zone authed keys \<Longrightarrow> trusted lib anchors clk zone keys"
  shows "source_ground lib anchors clk zone trust"
  unfolding source_ground_def using assms by blast

lemma gives_delegation_from:
  assumes "net_laws lib" and "parent_known lib anchors clk parent pkeys" and "parent_ok lib clk zone parent pkeys ds"
    and "zr_Zone z = zone"
  shows "gives clk (delegation_from lib v zone parentZone pkeys srs z ds) (\<lambda>t. case t of
      Inl z' \<Rightarrow> grounded lib anchors clk zone parent pkeys pI z'
    | Inr (trust, z') \<Rightarrow> zr_Zone z' = zone \<and> source_ground lib anchors clk zone trust)"
proof -
  have auth: "trusted lib anchors clk parent pkeys" "signed_ds lib clk zone parent pkeys (pd_Authenticated ds)"
    if "pd_Authenticated ds \<noteq> []" using that assms(2,3) by (auto simp: parent_ok_def parent_known_def)
  have src: "source_ground lib anchors clk zone (ds_trust lib sup zone)"
    if "pd_Authenticated ds \<noteq> []" "SupportedDSRecords (pd_Authenticated ds) = (sup, uns)" for sup uns
    by (rule source_groundI [OF ds_trust_ok], rule trusted.delegation [OF auth [OF that(1)]]) (simp_all add: that(2))
  have rdap: "gives clk (check_rdap lib v zone d z') (\<lambda>z''. zr_Zone z'' = zr_Zone z')" for d z'
    unfolding check_rdap_def
    by (intro gives_option gives_ok gives_if gives_bind [OF gives_frame [OF keeps_rdap_query]]) auto
  have weak: "insecure_ground lib anchors clk zone parent pkeys"
    if "pd_Authenticated ds \<noteq> []" "SupportedDSRecords (pd_Authenticated ds) = ([], uns)" for uns
    using auth [OF that(1)] that by (auto simp: insecure_ground_def unusable_ds_def)
  note fin = gives_finalizeNoDS [OF assms(1-3), where pI = pI]
  show ?thesis unfolding delegation_from_def Let_def
  proof (intro gives_if gives_ok gives_bind [OF fin] gives_prod gives_bind [OF rdap], goal_cases)
    case (5 sup uns)
    then show ?case using assms(4) by (simp add: grounded_insecure weak)
  next
    case (6 sup uns z2)
    then have "source_ground lib anchors clk zone (ds_trust lib sup zone)" by (intro src [of sup uns]) simp_all
    then show ?case using 6 assms(4) by simp
  qed (use assms(4) in \<open>simp_all add: grounded_open\<close>)
qed

end
