(* ===== verification/Walk_Sound.thy ===== *)
theory Walk_Sound
  imports Trust_Chain
begin

text \<open>
  The verdict of a whole validation. Secure means: every zone from the root to the name holds
  trusted keys, the answer, or the denial, is authenticated under the keys of the last one, and so
  is everything the aliases lead to.
\<close>

section \<open>One zone\<close>

lemma gives_query_servers:
  assumes "net_laws lib"
  shows "gives clk (query_servers lib v zone srvs) (\<lambda>as. \<forall>s \<in> set as. \<forall>qr. ar_Response s = Some qr \<longrightarrow> faithful lib qr)"
proof (induction srvs)
  case (Cons s srvs)
  show ?case unfolding query_servers.simps
    by (intro gives_bind [OF gives_frame [OF keeps_ctx_ended]]
        gives_bind [where P = "\<lambda>a. \<forall>qr. ar_Response a = Some qr \<longrightarrow> faithful lib qr"] gives_bind [OF Cons]
        gives_bind [OF gives_Query [OF assms, of clk _ _ _ TypeDNSKEY, folded QueryDNSKEYAuthoritative_def]] gives_if gives_ok)
      (auto simp: server_result_def Let_def)
qed (simp only: query_servers.simps, rule gives_ok, simp)

lemma gives_unsigned_zone:
  assumes "net_laws lib" and "zone \<noteq> []" and "parent_known lib anchors clk parent pkeys" and "zr_Zone z = zone"
  shows "gives clk (unsigned_zone lib v zone hierarchy pkeys addrs srs z) (grounded lib anchors clk zone parent pkeys pI)"
proof -
  note fin = gives_finalizeNoDS [OF assms(1,3), where pI = pI]
  show ?thesis unfolding unsigned_zone_def Let_def
    by (intro gives_if gives_ok gives_try [OF gives_queryDS [OF assms(1-3)]] gives_sum gives_bind [OF fin])
      (use assms(4) in \<open>auto simp: ds_query_failed_def grounded_def split: status.splits\<close>)
qed

lemma gives_time: "gives clk time_now (\<lambda>now. \<exists>n. now = clk n)"
  by (rule givesI [OF keeps_clock]) (auto simp: time_now_def)

lemma gives_zone_trust:
  assumes "net_laws lib" and "zone \<noteq> []" and "parent_known lib (vd_anchors v) clk parent pkeys" and "zr_Zone z = zone"
  shows "gives clk (zone_trust lib v zone hierarchy pkeys addrs srs z) (\<lambda>t. case t of
      Inl z' \<Rightarrow> grounded lib (vd_anchors v) clk zone parent pkeys pI z'
    | Inr (trust, z') \<Rightarrow> zr_Zone z' = zone \<and> source_ground lib (vd_anchors v) clk zone trust)"
proof -
  have src: "source_ground lib (vd_anchors v) clk ''.'' (root_trust lib (GetActivePinnedAnchors (clk n) (vd_anchors v)))" for n
    by (rule source_groundI [OF root_trust_ok], rule trusted.root) blast+
  note del = gives_delegation_from [OF assms(1,3), where pI = pI]
  show ?thesis unfolding zone_trust_def delegation_trust_def Let_def
    by (intro gives_if gives_ok gives_bind [OF gives_time] gives_try [OF gives_queryDS [OF assms(1-3)]] gives_sum del)
      (use assms(4) src in \<open>auto simp: ds_query_failed_def grounded_def\<close>)
qed

lemma gives_judge_zone:
  assumes "net_laws lib" and "zone \<noteq> []" and "parent_known lib (vd_anchors v) clk parent pkeys" and "zr_Zone z = zone"
    and "\<forall>s \<in> set srs. \<forall>qr. ar_Response s = Some qr \<longrightarrow> faithful lib qr"
  shows "gives clk (judge_zone lib v zone hierarchy pkeys pI ia addrs srs z) (grounded lib (vd_anchors v) clk zone parent pkeys pI)"
proof -
  let ?G = "grounded lib (vd_anchors v) clk zone parent pkeys pI"
  have sec: "gives clk (secure_zone lib zone z' trust srs) ?G"
    if src: "source_ground lib (vd_anchors v) clk zone trust" and zn: "zr_Zone z' = zone" for z' trust
  proof -
    obtain P where P: "source_ok clk P trust" "\<And>authed keys. \<forall>k \<in> set authed. P k \<Longrightarrow> signed_keys lib clk zone authed keys \<Longrightarrow>
        trusted lib (vd_anchors v) clk zone keys" using src unfolding source_ground_def by blast
    show ?thesis
      by (rule gives_mono [OF gives_secure_zone [OF assms(1,2) P(1) assms(5)]]) (use zn P(2) in \<open>auto simp: grounded_def\<close>)
  qed
  note uns = gives_unsigned_zone [OF assms(1-3), where pI = pI] and tr = gives_zone_trust [OF assms(1-3), where pI = pI]
  show ?thesis unfolding judge_zone_def Let_def
    by (intro gives_if gives_ok uns gives_bind [OF tr] gives_sum gives_prod sec)
      (use assms(4) in \<open>auto simp: grounded_def\<close>)
qed

lemma gives_zone_servers:
  "gives clk (zone_servers lib v zone) (\<lambda>(addrs, t, z). zr_Zone z = zone)"
  unfolding zone_servers_def Let_def
  by (intro gives_if gives_ok gives_bind [OF gives_wrap [OF gives_frame [OF keeps_ResolveNSSet]]]) (auto simp: NewZoneResult_def)

theorem gives_validateZone:
  assumes "net_laws lib" and "zone \<noteq> []" and "parent_known lib (vd_anchors v) clk parent pkeys"
  shows "gives clk (validateZone lib v zone hierarchy pkeys pI ia) (grounded lib (vd_anchors v) clk zone parent pkeys pI)"
  unfolding validateZone_def ValidateMultipleServers_def Let_def
  by (intro gives_bind [OF gives_zone_servers] gives_prod gives_if gives_fail gives_bind [OF gives_query_servers [OF assms(1)]] gives_ok
      gives_judge_zone [OF assms]) (auto simp: truncated_zone_def grounded_def)

section \<open>The answer\<close>

text \<open>
  An authenticated answer at a name: a signed RRset of the queried type or a signed CNAME, a
  signed DNAME above the name whose substitution gives the target, or a verified denial that does
  not rest on opt-out. An expanded wildcard comes with signed records that rule out a closer match.
\<close>

definition signed_answer :: "netlib \<Rightarrow> (nat \<Rightarrow> gotime) \<Rightarrow> 16 word \<Rightarrow> string \<Rightarrow> string \<Rightarrow> key_rec list \<Rightarrow> verified_rrset \<Rightarrow> bool" where
  "signed_answer lib clk t own zone keys vr \<longleftrightarrow> (\<exists>raw m. Unpack lib raw = Some m \<and>
     authentic (tlib lib) t (msg_Answer m) keys (want_name (tlib lib) own) (want_name (tlib lib) zone) clk vr)"

definition no_closer :: "netlib \<Rightarrow> (nat \<Rightarrow> gotime) \<Rightarrow> string \<Rightarrow> 8 word \<Rightarrow> key_rec list \<Rightarrow> bool" where
  "no_closer lib clk own labels keys \<longleftrightarrow> (\<exists>vs vs3. signed_denial lib clk TypeNSEC keys vs \<and> signed_denial lib clk TypeNSEC3 keys vs3 \<and>
     pf_Verified (VerifyWildcardDenial (vlib (tlib lib)) own labels (nsecRecordsFromVerified (tlib lib) vs)
       (nsec3RecordsFromVerified (tlib lib) vs3)))"

definition expansion_proved :: "netlib \<Rightarrow> (nat \<Rightarrow> gotime) \<Rightarrow> string \<Rightarrow> key_rec list \<Rightarrow> verified_rrset \<Rightarrow> bool" where
  "expansion_proved lib clk own keys vr \<longleftrightarrow>
     (DetectWildcardSynthesis own (sig_Labels (vr_Signature vr)) \<noteq> [] \<longrightarrow> no_closer lib clk own (sig_Labels (vr_Signature vr)) keys)"

definition positive_proved :: "netlib \<Rightarrow> validator \<Rightarrow> (nat \<Rightarrow> gotime) \<Rightarrow> string \<Rightarrow> string \<Rightarrow> key_rec list \<Rightarrow> string \<Rightarrow> bool" where
  "positive_proved lib v clk domain zone keys target \<longleftrightarrow>
     (\<exists>vr. (signed_answer lib clk (leafType v) domain zone keys vr \<or> signed_answer lib clk TypeCNAME domain zone keys vr) \<and>
        expansion_proved lib clk domain keys vr \<and> (target \<noteq> [] \<longrightarrow> (\<exists>h d. OtherRR h d \<in> set (vr_Records vr) \<and> target = RDataName lib d))) \<or>
     (\<exists>own vr d. signed_answer lib clk TypeDNAME own zone keys vr \<and> expansion_proved lib clk own keys vr \<and>
        dname_target lib [] (vr_Records vr) = Inr d \<and> substituteDNAME lib domain own d = Inr target)"

definition denial_proved :: "netlib \<Rightarrow> validator \<Rightarrow> (nat \<Rightarrow> gotime) \<Rightarrow> string \<Rightarrow> string \<Rightarrow> key_rec list \<Rightarrow> nsec_proof \<Rightarrow> bool" where
  "denial_proved lib v clk domain zone keys p \<longleftrightarrow> (\<exists>raw rcode recs recs3 w w'. vw_clock w = clk \<and>
     (verifyNSECDenialWithRRSIGB (tlib lib) (Unpack lib) domain (leafType v) recs keys zone raw rcode w = (p, w') \<or>
      verifyNSEC3DenialWithRRSIGB (tlib lib) (Unpack lib) domain (leafType v) recs3 keys zone raw rcode w = (p, w')))"

definition answer_proved :: "netlib \<Rightarrow> validator \<Rightarrow> (nat \<Rightarrow> gotime) \<Rightarrow> string \<Rightarrow> string \<Rightarrow> key_rec list \<Rightarrow> string \<Rightarrow> bool" where
  "answer_proved lib v clk domain zone keys target \<longleftrightarrow> positive_proved lib v clk domain zone keys target \<or>
     (target = [] \<and> (\<exists>p. pf_Verified p \<and> \<not> pf_OptOut p \<and> denial_proved lib v clk domain zone keys p))"

lemma signed_denial_Nil: "signed_denial lib clk t keys [] \<longleftrightarrow> (\<exists>raw m. Unpack lib raw = Some m)"
  by (auto simp: signed_denial_def)

lemma gives_verifyWildcard:
  assumes "net_laws lib" and "Unpack lib raw = Some m" and "\<not> rc_WildcardProofVerified rv"
  shows "gives clk (verifyWildcard lib rv own zone labels qr keys) (\<lambda>rv'.
    rc_RRSIGVerified rv' = rc_RRSIGVerified rv \<and> rc_Target rv' = rc_Target rv \<and> rc_DenialProof rv' = rc_DenialProof rv \<and>
    (DetectWildcardSynthesis own labels \<noteq> [] \<longrightarrow> rc_Wildcard rv' \<and> (rc_WildcardProofVerified rv' \<longrightarrow> no_closer lib clk own labels keys)))"
proof -
  have nil: "signed_denial lib clk t keys []" for t using assms(2) by (auto simp: signed_denial_Nil)
  let ?P = "\<lambda>r. case r of Inl e \<Rightarrow> True | Inr (ns, n3s) \<Rightarrow> \<exists>vs vs3. signed_denial lib clk TypeNSEC keys vs \<and>
      signed_denial lib clk TypeNSEC3 keys vs3 \<and> ns = nsecRecordsFromVerified (tlib lib) vs \<and> n3s = nsec3RecordsFromVerified (tlib lib) vs3"
  have empty: "nsecRecordsFromVerified (tlib lib) [] = []" "nsec3RecordsFromVerified (tlib lib) [] = []"
    by (simp_all add: nsecRecordsFromVerified_def nsec3RecordsFromVerified_def)
  have recs: "gives clk (if denialNSECCandidates (qr_NSEC qr) \<noteq> [] then
       op_try (verifyDenialRRsetsFromResponseB (tlib lib) (Unpack lib) (qr_RawResponse qr) TypeNSEC keys zone)
         (\<lambda>r. op_ok (map_sum id (\<lambda>(vs, _). (nsecRecordsFromVerified (tlib lib) vs, [])) r))
     else if denialNSEC3Candidates (qr_NSEC3 qr) \<noteq> [] then
       op_try (verifyDenialRRsetsFromResponseB (tlib lib) (Unpack lib) (qr_RawResponse qr) TypeNSEC3 keys zone)
         (\<lambda>r. op_ok (map_sum id (\<lambda>(vs, _). ([], nsec3RecordsFromVerified (tlib lib) vs)) r))
     else op_ok (Inr ([], []))) ?P"
  proof (intro gives_if gives_try [OF gives_denial [OF assms(1)]] gives_ok, goal_cases)
    case (1 r)
    then show ?case using nil [of TypeNSEC3] empty by (cases r) (auto, metis)
  next
    case (2 r)
    then show ?case using nil [of TypeNSEC] empty by (cases r) (auto, metis)
  next
    case 3
    then show ?case using nil empty by (auto, metis)
  qed
  show ?thesis unfolding verifyWildcard_def Let_def
    by (intro gives_if gives_ok gives_bind [OF recs])
      (use assms(3) in \<open>auto simp: no_closer_def split: sum.splits prod.splits\<close>)
qed

lemma recordValidationVerdict_Secure:
  "recordValidationVerdict (Some rv) = StatusSecure \<longleftrightarrow> rc_RRSIGVerified rv \<and> (rc_Wildcard rv \<longrightarrow> rc_WildcardProofVerified rv) \<and>
     \<not> opt_out_proof (rc_DenialProof rv) \<and> (rc_Wildcard rv \<longrightarrow> \<not> opt_out_proof (rc_WildcardProof rv))"
  by (auto simp: recordValidationVerdict_def)

text \<open>A record that is not filled in yet, and one whose verdict would be right.\<close>

definition fresh :: "record_validation \<Rightarrow> bool" where
  "fresh rv \<longleftrightarrow> \<not> rc_RRSIGVerified rv \<and> \<not> rc_WildcardProofVerified rv \<and> rc_Target rv = [] \<and> rc_DenialProof rv = None"

definition leaf_ok :: "netlib \<Rightarrow> validator \<Rightarrow> (nat \<Rightarrow> gotime) \<Rightarrow> string \<Rightarrow> string \<Rightarrow> key_rec list \<Rightarrow> record_validation \<Rightarrow> bool" where
  "leaf_ok lib v clk domain zone keys rv \<longleftrightarrow>
     (recordValidationVerdict (Some rv) = StatusSecure \<longrightarrow> answer_proved lib v clk domain zone keys (rc_Target rv))"

lemma leaf_ok_failed: "fresh rv \<Longrightarrow> leaf_ok lib v clk domain zone keys (rv\<lparr>rc_Error := Some e\<rparr>)"
  by (simp add: leaf_ok_def recordValidationVerdict_Secure fresh_def)

lemma gives_signed_answer:
  "gives clk (verify_answer lib qr t keys own zone) (signed_answer lib clk t own zone keys)"
  unfolding signed_answer_def by (rule gives_mono [OF gives_rrset]) blast

lemma find_mem: "List.find P xs = Some x \<Longrightarrow> x \<in> set xs"
  by (auto simp: find_Some_iff)

lemma gives_recordVerifiedLeaf:
  assumes "net_laws lib" and "fresh rv" and "t = leafType v \<or> t = TypeCNAME" and "signed_answer lib clk t domain zone keys vr"
  shows "gives clk (recordVerifiedLeaf lib rv vr domain zone qr keys) (leaf_ok lib v clk domain zone keys)"
proof -
  obtain raw m where m: "Unpack lib raw = Some m" using assms(4) by (auto simp: signed_answer_def)
  define target where "target = (if vr_Type vr \<noteq> TypeCNAME then rc_Target rv else
        case List.find (\<lambda>rr. case rr of OtherRR h _ \<Rightarrow> h_Rrtype h = TypeCNAME | _ \<Rightarrow> False) (vr_Records vr) of
          Some (OtherRR h d) \<Rightarrow> RDataName lib d | _ \<Rightarrow> rc_Target rv)"
  have tgt: "\<exists>h d. OtherRR h d \<in> set (vr_Records vr) \<and> target = RDataName lib d" if "target \<noteq> []"
    using that assms(2) unfolding target_def fresh_def
    by (auto dest!: find_mem split: if_splits option.splits rr.splits)
  let ?rv = "rv\<lparr>rc_RRSIGVerified := True, rc_SigningKeyTag := sig_KeyTag (vr_Signature vr),
      rc_RecordCount := length (vr_Records vr), rc_Target := target\<rparr>"
  have np: "\<not> rc_WildcardProofVerified ?rv" using assms(2) by (simp add: fresh_def)
  have pos: "positive_proved lib v clk domain zone keys target" if "expansion_proved lib clk domain keys vr"
    using that assms(3,4) tgt unfolding positive_proved_def by blast
  have done': "leaf_ok lib v clk domain zone keys rv'"
    if "rc_Target rv' = target" "DetectWildcardSynthesis domain (sig_Labels (vr_Signature vr)) \<noteq> [] \<longrightarrow>
      rc_Wildcard rv' \<and> (rc_WildcardProofVerified rv' \<longrightarrow> no_closer lib clk domain (sig_Labels (vr_Signature vr)) keys)" for rv'
    using that pos by (auto simp: leaf_ok_def recordValidationVerdict_Secure answer_proved_def expansion_proved_def)
  show ?thesis unfolding recordVerifiedLeaf_def Let_def target_def [symmetric]
    by (rule gives_bind [OF gives_time], rule gives_mono [OF gives_verifyWildcard [OF assms(1) m np]], rule done') auto
qed

lemma gives_verifyDNAMEAnswer:
  assumes "net_laws lib" and "fresh rv"
  shows "gives clk (verifyDNAMEAnswer lib rv domain zone own cnames qr keys) (leaf_ok lib v clk domain zone keys)"
proof -
  have fail: "leaf_ok lib v clk domain zone keys (rv\<lparr>rc_RecordType := ''DNAME'', rc_SynthesizedFrom := own, rc_Error := Some e\<rparr>)" for e
    using assms(2) by (simp add: leaf_ok_def recordValidationVerdict_Secure fresh_def)
  have good: "gives clk (verifyWildcard lib (rv\<lparr>rc_RecordType := ''DNAME'', rc_SynthesizedFrom := own, rc_RRSIGVerified := True,
        rc_SigningKeyTag := tag, rc_RecordCount := 1, rc_Target := target\<rparr>) own zone (sig_Labels (vr_Signature vr)) qr keys)
      (leaf_ok lib v clk domain zone keys)"
    if s: "signed_answer lib clk TypeDNAME own zone keys vr" "dname_target lib [] (vr_Records vr) = Inr d"
      "substituteDNAME lib domain own d = Inr target" for vr d target tag
  proof -
    obtain raw m where m: "Unpack lib raw = Some m" using s(1) by (auto simp: signed_answer_def)
    have pos: "positive_proved lib v clk domain zone keys target" if "expansion_proved lib clk own keys vr"
      using that s unfolding positive_proved_def by blast
    have fin: "leaf_ok lib v clk domain zone keys rv'"
      if "rc_Target rv' = target" "DetectWildcardSynthesis own (sig_Labels (vr_Signature vr)) \<noteq> [] \<longrightarrow>
        rc_Wildcard rv' \<and> (rc_WildcardProofVerified rv' \<longrightarrow> no_closer lib clk own (sig_Labels (vr_Signature vr)) keys)" for rv'
      using that pos by (auto simp: leaf_ok_def recordValidationVerdict_Secure answer_proved_def expansion_proved_def)
    let ?rv = "rv\<lparr>rc_RecordType := ''DNAME'', rc_SynthesizedFrom := own, rc_RRSIGVerified := True,
        rc_SigningKeyTag := tag, rc_RecordCount := 1, rc_Target := target\<rparr>"
    have np: "\<not> rc_WildcardProofVerified ?rv" using assms(2) by (simp add: fresh_def)
    show ?thesis by (rule gives_mono [OF gives_verifyWildcard [OF assms(1) m np]], rule fin) auto
  qed
  show ?thesis unfolding verifyDNAMEAnswer_def Let_def
    by (intro gives_try [OF gives_signed_answer] gives_sum gives_if gives_ok gives_bind [OF gives_time])
      (auto simp del: One_nat_def intro: good fail)
qed

lemma gives_verify_positive:
  assumes "net_laws lib" and "fresh rv"
  shows "gives clk (verify_positive lib v rv domain zone qr keys) (leaf_ok lib v clk domain zone keys)"
proof -
  have fr: "fresh (rv\<lparr>rc_RecordType := x\<rparr>)" for x using assms(2) by (simp add: fresh_def)
  note fail = leaf_ok_failed [OF assms(2)] leaf_ok_failed [OF fr]
  note verified = gives_recordVerifiedLeaf [OF assms(1)]
  show ?thesis unfolding verify_positive_def Let_def
    by (intro gives_if gives_ok gives_try [OF gives_signed_answer] gives_sum gives_verifyDNAMEAnswer [OF assms])
      (auto intro: verified fail fr assms(2))
qed

lemma gives_denial_outcome:
  "gives clk (denial_outcome lib v qr domain zone keys) (\<lambda>p. \<forall>pr. p = Some pr \<longrightarrow> denial_proved lib v clk domain zone keys pr)"
proof (rule givesI [OF keeps_denial_outcome])
  fix w p w'
  assume w: "vw_clock w = clk" "denial_outcome lib v qr domain zone keys w = (Inr p, w')"
  show "\<forall>pr. p = Some pr \<longrightarrow> denial_proved lib v clk domain zone keys pr"
  proof (intro allI impI)
    fix pr
    assume "p = Some pr"
    then have "\<exists>raw rcode recs recs3.
        verifyNSECDenialWithRRSIGB (tlib lib) (Unpack lib) domain (leafType v) recs keys zone raw rcode w = (pr, w') \<or>
        verifyNSEC3DenialWithRRSIGB (tlib lib) (Unpack lib) domain (leafType v) recs3 keys zone raw rcode w = (pr, w')"
      using w(2) by (auto simp: denial_outcome_def Let_def map_prod_def split: if_splits prod.splits)
    then show "denial_proved lib v clk domain zone keys pr" using w(1) unfolding denial_proved_def by blast
  qed
qed

lemma gives_verify_leaf:
  assumes "net_laws lib" and "fresh rv"
  shows "gives clk (verify_leaf lib v rv domain zone qr keys) (leaf_ok lib v clk domain zone keys)"
proof -
  have "leaf_ok lib v clk domain zone keys (if pf_Verified p then rv\<lparr>rc_DenialProof := Some p, rc_RRSIGVerified := True\<rparr>
      else rv\<lparr>rc_DenialProof := Some p, rc_Error := pf_Error p\<rparr>)" if "denial_proved lib v clk domain zone keys p" for p
    using that assms(2) by (auto simp: leaf_ok_def recordValidationVerdict_Secure answer_proved_def fresh_def opt_out_proof_def)
  then show ?thesis unfolding verify_leaf_def Let_def
    by (intro gives_if gives_bind [OF gives_denial_outcome] gives_option gives_ok gives_verify_positive [OF assms]) auto
qed

lemma keeps_queryLeafAllServers: "keeps (net_step (vd_egress v)) (queryLeafAllServers lib v addrs d z keys)"
  unfolding queryLeafAllServers_def Let_def by (intro net_steps net_keeps)

lemma gives_verifyActualRecord:
  assumes "net_laws lib"
  shows "gives clk (verifyActualRecord lib v domain zone keys) (\<lambda>r. (r = None \<longrightarrow> keys = []) \<and>
    (\<forall>rv. r = Some rv \<longrightarrow> leaf_ok lib v clk domain zone keys rv))"
proof -
  have fr: "fresh ((RecordValidation n k)\<lparr>rc_ServerDisagreements := d\<rparr>)" "fresh (RecordValidation n k)" for n k d
    by (simp_all add: fresh_def RecordValidation_def)
  show ?thesis unfolding verifyActualRecord_def Let_def
    by (intro gives_if gives_ok gives_try [OF gives_frame [OF keeps_ResolveNSSet]] gives_sum gives_option gives_prod
        gives_bind [OF gives_frame [OF keeps_queryLeafAllServers]] gives_bind [OF gives_verify_leaf [OF assms fr(1)]])
      (auto intro: leaf_ok_failed fr)
qed

section \<open>The walk\<close>

definition zone_sound :: "netlib \<Rightarrow> anchor list \<Rightarrow> (nat \<Rightarrow> gotime) \<Rightarrow> zone_result \<Rightarrow> bool" where
  "zone_sound lib anchors clk z \<longleftrightarrow> zr_Status z \<noteq> StatusValidating \<and>
     (zr_Status z = StatusSecure \<longrightarrow> zr_DNSKEY z \<noteq> [] \<and> trusted lib anchors clk (zr_Zone z) (zr_DNSKEY z))"

definition cache_ok :: "netlib \<Rightarrow> anchor list \<Rightarrow> (nat \<Rightarrow> gotime) \<Rightarrow> zone_cache \<Rightarrow> bool" where
  "cache_ok lib anchors clk cache \<longleftrightarrow> (\<forall>n z. map_of cache n = Some z \<longrightarrow> zone_sound lib anchors clk z)"

definition walk_ok :: "netlib \<Rightarrow> anchor list \<Rightarrow> (nat \<Rightarrow> gotime) \<Rightarrow> walk \<Rightarrow> bool" where
  "walk_ok lib anchors clk st \<longleftrightarrow> cache_ok lib anchors clk (wk_cache st) \<and> wk_last st \<noteq> StatusValidating \<and>
     (\<exists>p. parent_known lib anchors clk p (wk_parentDNSKEY st)) \<and>
     (\<forall>z \<in> set (va_Chain (wk_result st)). zone_sound lib anchors clk z) \<and> va_CNAMEChains (wk_result st) = [] \<and>
     (wk_last st = StatusSecure \<longrightarrow> (\<forall>z \<in> set (va_Chain (wk_result st)). zr_Status z = StatusSecure))"

lemma zone_sound_grounded: "grounded lib anchors clk zone p pkeys pI z \<Longrightarrow> zone_sound lib anchors clk z"
  by (auto simp: grounded_def zone_sound_def)

lemma zone_sound_outcome:
  "(\<And>z. r = Inr z \<Longrightarrow> zone_sound lib anchors clk z) \<Longrightarrow> zone_sound lib anchors clk (zone_outcome zone r)"
  by (cases r) (auto simp: zone_outcome_def zone_sound_def)

lemma walk_ok_note_zone:
  assumes "walk_ok lib anchors clk st" and "zone_sound lib anchors clk zr"
  shows "walk_ok lib anchors clk (note_zone zone zr st)"
    and "va_Chain (wk_result (note_zone zone zr st)) \<noteq> []"
proof -
  have "parent_known lib anchors clk (zr_Zone zr) (nextParentDNSKEY zr)"
    using assms(2) by (auto simp: parent_known_def nextParentDNSKEY_def zone_sound_def)
  then have "\<exists>p. parent_known lib anchors clk p (nextParentDNSKEY zr)" ..
  then show "walk_ok lib anchors clk (note_zone zone zr st)"
    using assms by (cases "zr_Status zr") (auto simp: note_zone_def Let_def walk_ok_def zone_sound_def)
  show "va_Chain (wk_result (note_zone zone zr st)) \<noteq> []"
    by (cases "zr_Status zr") (auto simp: note_zone_def Let_def)
qed

lemma walk_ok_note_limits:
  "walk_ok lib anchors clk (note_limits zr st) = walk_ok lib anchors clk st"
  "va_Chain (wk_result (note_limits zr st)) = va_Chain (wk_result st)"
  by (simp_all add: note_limits_def walk_ok_def)

lemma cache_ok_update:
  "cache_ok lib anchors clk cache \<Longrightarrow> zone_sound lib anchors clk zr \<Longrightarrow> cache_ok lib anchors clk (AList.update zone zr cache)"
  by (simp add: cache_ok_def update_conv')

lemma walk_ok_cache:
  "walk_ok lib anchors clk st \<Longrightarrow> cache_ok lib anchors clk c \<Longrightarrow> walk_ok lib anchors clk (st\<lparr>wk_cache := c\<rparr>)"
  by (simp add: walk_ok_def)

lemma gives_walk_zones:
  assumes "net_laws lib" and "\<forall>z \<in> set rest. z \<noteq> []" and "walk_ok lib (vd_anchors v) clk st"
    and "rest \<noteq> [] \<or> va_Chain (wk_result st) \<noteq> []"
  shows "gives clk (walk_zones lib v zones rest st) (\<lambda>(end', st'). walk_ok lib (vd_anchors v) clk st' \<and>
    (end' = WalkDone \<longrightarrow> va_Chain (wk_result st') \<noteq> []))"
  using assms(2-4)
proof (induction rest arbitrary: st)
  case (Cons zone rest)
  let ?W = "walk_ok lib (vd_anchors v) clk" and ?Z = "zone_sound lib (vd_anchors v) clk"
  obtain p where p: "parent_known lib (vd_anchors v) clk p (wk_parentDNSKEY st)" using Cons.prems(2) by (auto simp: walk_ok_def)
  have zn: "zone \<noteq> []" and rest: "\<forall>z \<in> set rest. z \<noteq> []" using Cons.prems(1) by simp_all
  note IH = Cons.IH [OF rest]
  have hit: "?W (note_zone zone zr st)" if "map_of (wk_cache st) zone = Some zr" for zr
    using that Cons.prems(2) by (intro walk_ok_note_zone(1)) (auto simp: walk_ok_def cache_ok_def)
  have miss: "?W (note_zone zone zr (st\<lparr>wk_cache := AList.update zone zr (wk_cache st)\<rparr>))" if "?Z zr" for zr
    using that Cons.prems(2) by (intro walk_ok_note_zone(1) walk_ok_cache cache_ok_update) (auto simp: walk_ok_def)
  have zone: "gives clk (validateZone lib v zone zones (wk_parentDNSKEY st) (wk_ancestorInsecure st) (wk_indeterminateAncestor st)) ?Z"
    by (rule gives_mono [OF gives_validateZone [OF assms(1) zn p]]) (rule zone_sound_grounded)
  have chain: "va_Chain (wk_result (note_zone zone zr s)) \<noteq> []" for zr s
    by (cases "zr_Status zr") (auto simp: note_zone_def Let_def)
  show ?case unfolding walk_zones.simps Let_def
    by (intro gives_bind [OF gives_frame [OF keeps_ctx_ended]] gives_if gives_ok gives_option gives_try [OF zone] IH)
      (auto simp: walk_ok_note_limits Cons.prems(2) hit chain intro!: miss zone_sound_outcome)
qed (simp only: walk_zones.simps, rule gives_ok, simp)

section \<open>A whole validation\<close>

text \<open>
  A name is secured when its answer is authenticated under the trusted keys of a zone and, if it is
  an alias to follow, its target is secured.
\<close>

inductive secured :: "netlib \<Rightarrow> validator \<Rightarrow> (nat \<Rightarrow> gotime) \<Rightarrow> string \<Rightarrow> bool" for lib v clk where
  "trusted lib (vd_anchors v) clk zone keys \<Longrightarrow> answer_proved lib v clk domain zone keys target \<Longrightarrow>
     target = [] \<or> leafType v = TypeCNAME \<or> secured lib v clk target \<Longrightarrow> secured lib v clk domain"

definition leaf_fine :: "netlib \<Rightarrow> validator \<Rightarrow> (nat \<Rightarrow> gotime) \<Rightarrow> string \<Rightarrow> walk \<times> string \<Rightarrow> bool" where
  "leaf_fine lib v clk domain = (\<lambda>(st, t). walk_ok lib (vd_anchors v) clk st \<and> va_Chain (wk_result st) \<noteq> [] \<and>
     (wk_last st = StatusSecure \<longrightarrow>
        (\<exists>zone keys. trusted lib (vd_anchors v) clk zone keys \<and> answer_proved lib v clk domain zone keys t)))"

lemma add_record_fields [simp]:
  "zr_Zone (add_record rv z) = zr_Zone z" "zr_Status (add_record rv z) = zr_Status z" "zr_DNSKEY (add_record rv z) = zr_DNSKEY z"
  by (simp_all add: add_record_def)

lemma note_record_fine:
  assumes "walk_ok lib (vd_anchors v) clk st" and "wk_last st = StatusSecure" and "va_Chain (wk_result st) \<noteq> []"
    and "leaf_ok lib v clk domain (zr_Zone (last (va_Chain (wk_result st)))) (zr_DNSKEY (last (va_Chain (wk_result st)))) rv"
  shows "leaf_fine lib v clk domain (note_record rv st)"
proof -
  let ?chain = "va_Chain (wk_result st)" and ?s = "recordValidationVerdict (Some rv)"
  have all: "\<forall>z \<in> set ?chain. zone_sound lib (vd_anchors v) clk z \<and> zr_Status z = StatusSecure"
    using assms(1,2) by (auto simp: walk_ok_def)
  then have lst: "zone_sound lib (vd_anchors v) clk (last ?chain)" "zr_Status (last ?chain) = StatusSecure" using assms(3) by simp_all
  have other: "\<forall>z \<in> set (butlast ?chain). zone_sound lib (vd_anchors v) clk z \<and> zr_Status z = StatusSecure"
    using all by (meson in_set_butlastD)
  have leaf: "zone_sound lib (vd_anchors v) clk z" if "zr_Zone z = zr_Zone (last ?chain)" "zr_Status z = StatusSecure"
    "zr_DNSKEY z = zr_DNSKEY (last ?chain)" for z using lst that by (simp add: zone_sound_def)
  have ver: "?s \<noteq> StatusValidating" by (auto simp: recordValidationVerdict_def)
  have walk: "walk_ok lib (vd_anchors v) clk (fst (note_record rv st))"
    using assms(1) other leaf lst ver by (auto simp: note_record_def Let_def walk_ok_def)
  have lastst: "wk_last (fst (note_record rv st)) = ?s" by (simp add: note_record_def Let_def)
  have "answer_proved lib v clk domain (zr_Zone (last ?chain)) (zr_DNSKEY (last ?chain)) (snd (note_record rv st))" if "?s = StatusSecure"
    using that assms(4) by (simp add: note_record_def Let_def leaf_ok_def recordValidationVerdict_Secure)
  moreover have "trusted lib (vd_anchors v) clk (zr_Zone (last ?chain)) (zr_DNSKEY (last ?chain))" using lst by (simp add: zone_sound_def)
  moreover have "va_Chain (wk_result (fst (note_record rv st))) \<noteq> []" by (simp add: note_record_def Let_def)
  ultimately show ?thesis using walk lastst unfolding leaf_fine_def case_prod_beta by auto
qed

lemma gives_leaf_step:
  assumes "net_laws lib" and "walk_ok lib (vd_anchors v) clk st" and "va_Chain (wk_result st) \<noteq> []"
  shows "gives clk (leaf_step lib v domain zones st) (leaf_fine lib v clk domain)"
proof -
  have keys: "zr_DNSKEY (last (va_Chain (wk_result st))) \<noteq> []" if "wk_last st = StatusSecure"
    using assms(2,3) that by (simp add: walk_ok_def zone_sound_def)
  have "leaf_fine lib v clk domain (st, t)" if "wk_last st \<noteq> StatusSecure" for t
    using assms that by (simp add: leaf_fine_def)
  then show ?thesis unfolding leaf_step_def Let_def
    by (intro gives_if gives_ok gives_bind [OF gives_verifyActualRecord [OF assms(1)]]
        gives_bind [OF gives_frame [OF keeps_discoverAliasTarget]])
      (use assms keys in \<open>auto intro: note_record_fine split: option.splits\<close>)
qed

lemma gives_discover_from:
  assumes "net_laws lib" and "zones \<noteq> []" and "\<forall>z \<in> set zones. z \<noteq> []"
  shows "gives clk (discover_from lib r labels n zones) (\<lambda>zs. zs \<noteq> [] \<and> (\<forall>z \<in> set zs. z \<noteq> []))"
  using assms(2,3)
proof (induction n arbitrary: zones)
  case (Suc n)
  have c: "cut_candidate lib labels n \<noteq> []" using assms(1) by (simp add: cut_candidate_def net_laws_def)
  show ?case unfolding discover_from.simps Let_def
    by (intro gives_try [OF gives_frame [OF keeps_CheckZoneCut]] gives_bind [OF gives_frame [OF keeps_interrupted]] gives_if gives_fail Suc.IH)
      (use Suc.prems c in auto)
qed (simp only: discover_from.simps, rule gives_ok, simp)

lemma hierarchy_names: "SplitIntoZoneHierarchy d \<noteq> [] \<and> (\<forall>z \<in> set (SplitIntoZoneHierarchy d). z \<noteq> [])"
  by (auto simp: SplitIntoZoneHierarchy_def Let_def)

lemma gives_discover_zones:
  assumes "net_laws lib"
  shows "gives clk (discover_zones lib v domain) (\<lambda>(zs, ws). zs \<noteq> [] \<and> (\<forall>z \<in> set zs. z \<noteq> []))"
proof -
  have "gives clk (DiscoverZoneCuts lib (vd_resolver v) domain) (\<lambda>zs. zs \<noteq> [] \<and> (\<forall>z \<in> set zs. z \<noteq> []))"
    unfolding DiscoverZoneCuts_def Let_def
    by (intro gives_bind [OF gives_frame [OF keeps_interrupted]] gives_if gives_fail gives_ok gives_discover_from [OF assms]) auto
  then show ?thesis unfolding discover_zones_def
    using hierarchy_names [of domain] by (rule_tac gives_try) (auto intro!: gives_ok split: sum.splits)
qed

definition result_ok :: "netlib \<Rightarrow> validator \<Rightarrow> (nat \<Rightarrow> gotime) \<Rightarrow> string \<Rightarrow> validation \<Rightarrow> bool" where
  "result_ok lib v clk domain = (\<lambda>((res, err), visited, cache). cache_ok lib (vd_anchors v) clk cache \<and>
     va_Result res \<noteq> StatusValidating \<and>
     (va_Result res = StatusSecure \<longrightarrow> secured lib v clk domain \<and> va_Chain res \<noteq> [] \<and>
        (\<forall>z \<in> set (va_Chain res). zr_Status z = StatusSecure \<and> trusted lib (vd_anchors v) clk (zr_Zone z) (zr_DNSKEY z)) \<and>
        (\<forall>c \<in> set (va_CNAMEChains res). cc_Result c = StatusSecure)))"

lemma walk_secure_chain:
  "walk_ok lib anchors clk st \<Longrightarrow> wk_last st = StatusSecure \<Longrightarrow>
     \<forall>z \<in> set (va_Chain (wk_result st)). zr_Status z = StatusSecure \<and> trusted lib anchors clk (zr_Zone z) (zr_DNSKEY z)"
  by (auto simp: walk_ok_def zone_sound_def)

lemma finish_ok:
  assumes "leaf_fine lib v clk domain (st, t)" and "t = [] \<or> leafType v = TypeCNAME"
  shows "result_ok lib v clk domain (finish (wk_last st) st visited)"
proof -
  have st: "walk_ok lib (vd_anchors v) clk st" using assms(1) by (simp add: leaf_fine_def)
  have "secured lib v clk domain" if "wk_last st = StatusSecure"
    using assms that by (auto simp: leaf_fine_def intro: secured.intros)
  then show ?thesis using assms(1) st walk_secure_chain [OF st]
    by (auto simp: result_ok_def finish_def leaf_fine_def walk_ok_def)
qed

lemma note_alias_fields:
  "wk_last (note_alias c st) = StatusSecure \<longleftrightarrow> wk_last st = StatusSecure \<and> cc_Result c \<in> {StatusSecure, StatusValidating}"
  "wk_last st \<noteq> StatusValidating \<Longrightarrow> wk_last (note_alias c st) \<noteq> StatusValidating"
  "va_Chain (wk_result (note_alias c st)) = va_Chain (wk_result st)" "wk_cache (note_alias c st) = wk_cache st"
  "va_CNAMEChains (wk_result (note_alias c st)) = va_CNAMEChains (wk_result st) @ [c]"
  by (cases "cc_Result c"; simp add: note_alias_def Let_def)+

lemma gives_followAlias:
  assumes "\<And>vis. Suc depth < maxCNAMEDepth \<Longrightarrow> gives clk (f target (Suc depth) vis cache) (result_ok lib v clk target)"
    and "cache_ok lib (vd_anchors v) clk cache"
  shows "gives clk (followAlias f domain target depth visited cache) (\<lambda>(c, visited, cache).
    cache_ok lib (vd_anchors v) clk cache \<and> cc_Result c \<noteq> StatusValidating \<and> (cc_Result c = StatusSecure \<longrightarrow> secured lib v clk target))"
proof -
  have stop: "cc_Result c \<in> {StatusBogus, StatusIndeterminate}" if "cnameGuard domain target depth maxCNAMEDepth vis = Inl c" for vis c
    using that by (auto simp: cnameGuard_def Let_def CNAMEChainResult_def split: if_splits)
  have "Suc depth < maxCNAMEDepth" if "cnameGuard domain target depth maxCNAMEDepth vis = Inr vis'" for vis vis'
    using that by (rule cnameGuard_Inr)
  then show ?thesis unfolding followAlias_def Let_def
    by (intro gives_sum gives_ok gives_bind [OF assms(1)] gives_prod)
      (use assms(2) in \<open>auto simp: result_ok_def dest!: stop intro!: gives_ok split: option.splits\<close>)
qed

lemma alias_ok:
  assumes "leaf_fine lib v clk domain (st, t)" and "cache_ok lib (vd_anchors v) clk cache"
    and "cc_Result c \<noteq> StatusValidating" and "cc_Result c = StatusSecure \<longrightarrow> secured lib v clk t"
  shows "result_ok lib v clk domain (finish (wk_last (note_alias c (st\<lparr>wk_cache := cache\<rparr>))) (note_alias c (st\<lparr>wk_cache := cache\<rparr>)) visited)"
proof -
  let ?st = "note_alias c (st\<lparr>wk_cache := cache\<rparr>)"
  have st: "walk_ok lib (vd_anchors v) clk st" using assms(1) by (simp add: leaf_fine_def)
  have sec: "wk_last st = StatusSecure" "cc_Result c = StatusSecure" if "wk_last ?st = StatusSecure"
    using that assms(3) by (auto simp: note_alias_fields)
  have "secured lib v clk domain" if "wk_last ?st = StatusSecure"
    using sec [OF that] assms(1,4) by (auto simp: leaf_fine_def intro: secured.intros)
  moreover have "va_Chain (wk_result st) \<noteq> []" using assms(1) by (simp add: leaf_fine_def)
  moreover have "wk_last ?st \<noteq> StatusValidating" "va_CNAMEChains (wk_result st) = []"
    using st by (simp_all add: walk_ok_def note_alias_fields)
  ultimately show ?thesis using assms(2) sec walk_secure_chain [OF st]
    by (simp add: result_ok_def finish_def note_alias_fields(3-5))
qed

lemma gives_alias_step:
  assumes "\<And>vis c. Suc depth < maxCNAMEDepth \<Longrightarrow> cache_ok lib (vd_anchors v) clk c \<Longrightarrow>
      gives clk (f t (Suc depth) vis c) (result_ok lib v clk t)"
    and "leaf_fine lib v clk domain (st, t)"
  shows "gives clk (alias_step f v domain depth visited st t) (result_ok lib v clk domain)"
proof -
  have c: "cache_ok lib (vd_anchors v) clk (wk_cache st)" using assms(2) by (simp add: leaf_fine_def walk_ok_def)
  have follow: "gives clk (followAlias f domain t depth visited (wk_cache st)) (\<lambda>(c, visited, cache).
      cache_ok lib (vd_anchors v) clk cache \<and> cc_Result c \<noteq> StatusValidating \<and> (cc_Result c = StatusSecure \<longrightarrow> secured lib v clk t))"
    by (rule gives_followAlias [OF _ c]) (rule assms(1) [OF _ c])
  show ?thesis unfolding alias_step_def Let_def
    by (intro gives_if gives_ok gives_bind [OF follow] gives_prod) (use assms(2) in \<open>auto intro: finish_ok alias_ok\<close>)
qed

lemma gives_validate_name:
  assumes "net_laws lib" and "cache_ok lib (vd_anchors v) clk cache"
    and "\<And>t vis c. Suc depth < maxCNAMEDepth \<Longrightarrow> cache_ok lib (vd_anchors v) clk c \<Longrightarrow>
      gives clk (f t (Suc depth) vis c) (result_ok lib v clk t)"
  shows "gives clk (validate_name f lib v domain depth visited cache) (result_ok lib v clk domain)"
proof -
  have start: "walk_ok lib (vd_anchors v) clk (start_walk ((ValidationResult lib v domain)\<lparr>va_Warnings := ws\<rparr>) cache)" for ws
    using assms(2) by (simp add: walk_ok_def start_walk_def ValidationResult_def parent_known_def)
  have stop: "result_ok lib v clk domain ((res, err), vis, wk_cache st)"
    if "walk_ok lib (vd_anchors v) clk st" "va_Result res \<in> {StatusBogus, StatusIndeterminate}" for res err vis st
    using that by (auto simp: result_ok_def walk_ok_def)
  have cases: "gives clk (case e of WalkTimeout \<Rightarrow> a | WalkBogus \<Rightarrow> b | WalkDone \<Rightarrow> d) Q"
    if "gives clk a Q" "gives clk b Q" "e = WalkDone \<Longrightarrow> gives clk d Q" for e a b d and Q :: "validation \<Rightarrow> bool"
    using that by (cases e) simp_all
  have follow: "gives clk (alias_step f v domain depth visited st t) (result_ok lib v clk domain)"
    if "leaf_fine lib v clk domain (st, t)" for st t
    using that by (rule gives_alias_step [rotated]) (rule assms(3))
  show ?thesis unfolding validate_name_def
    by (intro gives_bind [OF gives_discover_zones [OF assms(1)]] gives_prod gives_bind [OF gives_walk_zones [OF assms(1)]]
        cases gives_ok gives_bind [OF gives_leaf_step [OF assms(1)]] follow)
      (auto simp: start finish_def intro: stop)
qed

theorem gives_validateWithCache:
  assumes "net_laws lib" and "cache_ok lib (vd_anchors v) clk cache"
  shows "gives clk (validateWithCache lib v domain depth visited cache) (result_ok lib v clk domain)"
  using assms
proof (induction lib v domain depth visited cache rule: validateWithCache.induct)
  case (1 lib v domain depth visited cache)
  have budget: "gives clk (start_budget v depth) (\<lambda>_. True)" by (simp add: gives_def start_budget_def Let_def)
  have none: "result_ok lib v clk domain ((res\<lparr>va_Result := StatusIndeterminate, va_Errors := es\<rparr>, err), visited, cache)" for res es err
    using "1.prems"(2) by (simp add: result_ok_def)
  show ?case unfolding validateWithCache.simps [of lib v domain] Let_def
    by (intro gives_if gives_ok none gives_bind [OF budget] gives_validate_name "1.prems" "1.IH")
qed

end
