(* ===== verification/Denial_Interop.thy ===== *)
theory Denial_Interop
  imports Denial_Sound
begin

text \<open>
  The signer and the validator together: the NSEC chain the signer generates for a zone is a
  set of genuine records, and over the whole chain the validator accepts an NXDOMAIN proof for
  exactly the names that do not exist and that no wildcard matches.
\<close>

section \<open>The zone the signer publishes\<close>

definition signed_view :: "vallib \<Rightarrow> string \<Rightarrow> rr list \<Rightarrow> zone_view" where
  "signed_view lib domain rs =
     (let dl = nlib lib; m = newZoneModel dl domain rs in
      \<lparr>zv_apex = SplitDomainName dl (canonicalName dl domain),
       zv_owners = SplitDomainName dl ` set (authoritativeOwners dl m),
       zv_types = (\<lambda>n. TypeName lib ` set (denialTypes m (joinLabels n) False))\<rparr>)"

text \<open>The names of record types (\<open>dns.Type.String\<close>) that the validator compares with.\<close>

definition type_law :: "vallib \<Rightarrow> bool" where
  "type_law lib \<longleftrightarrow> inj (TypeName lib) \<and> TypeName lib TypeNS = ''NS'' \<and> TypeName lib TypeSOA = ''SOA'' \<and>
     TypeName lib TypeDNAME = ''DNAME'' \<and> TypeName lib TypeCNAME = ''CNAME''"

text \<open>
  A zone as \<open>validateZoneRecords\<close> admits it, with names free of escapes, and without a
  DNAME at its apex.
\<close>

definition signed_zone_ok :: "vallib \<Rightarrow> string \<Rightarrow> rr list \<Rightarrow> bool" where
  "signed_zone_ok lib domain rs \<longleftrightarrow>
     (let dl = nlib lib; apex = canonicalName dl domain; m = newZoneModel dl domain rs in
      subdomain_law lib \<and> type_law lib \<and> zone_ok_names dl domain rs \<and>
      plain_name_labels (SplitDomainName dl apex) \<and>
      (\<forall>r \<in> set rs. within_zone dl m (canon dl r) \<and> plain_name_labels (SplitDomainName dl (canon dl r)) \<and>
         Rrtype r \<noteq> TypeNSEC \<and> Rrtype r \<noteq> TypeRRSIG \<and> \<not> (Rrtype r = TypeDNAME \<and> canon dl r = apex)) \<and>
      (\<exists>r \<in> set rs. Rrtype r = TypeSOA \<and> canon dl r = apex))"

definition chain_records :: "vallib \<Rightarrow> string \<Rightarrow> rr list \<Rightarrow> 32 word \<Rightarrow> nsec_rec list" where
  "chain_records lib domain rs ttl =
     map (\<lambda>n. NSECFromRR lib n ''authority'')
       (generateNSECChainWithModel (nlib lib) (newZoneModel (nlib lib) domain rs) rs ttl)"

lemma signed_zone_okD:
  assumes "signed_zone_ok lib domain rs"
  shows "subdomain_law lib" "type_law lib" "zone_ok_names (nlib lib) domain rs" "names_law (nlib lib)"
    and "plain_name_labels (SplitDomainName (nlib lib) (canonicalName (nlib lib) domain))"
    and "\<And>r. r \<in> set rs \<Longrightarrow> within_zone (nlib lib) (newZoneModel (nlib lib) domain rs) (canon (nlib lib) r) \<and>
      plain_name_labels (SplitDomainName (nlib lib) (canon (nlib lib) r)) \<and> Rrtype r \<noteq> TypeNSEC \<and> Rrtype r \<noteq> TypeRRSIG \<and>
      \<not> (Rrtype r = TypeDNAME \<and> canon (nlib lib) r = canonicalName (nlib lib) domain)"
    and "\<exists>r \<in> set rs. Rrtype r = TypeSOA \<and> canon (nlib lib) r = canonicalName (nlib lib) domain"
  using assms by (auto simp: signed_zone_ok_def Let_def zone_ok_names_def)

section \<open>The types of an owner\<close>

lemma denialTypes_set:
  assumes "map_of (zm_owners (newZoneModel dl domain rs)) n = Some oi"
  shows "set (denialTypes (newZoneModel dl domain rs) n False) =
    (if isDelegation (newZoneModel dl domain rs) n then {TypeNS} \<union> (owner_types dl rs n \<inter> {TypeDS})
     else owner_types dl rs n) \<union> {TypeNSEC, TypeRRSIG}"
proof -
  have info: "owner_info_ok dl rs n oi" using owner_lookup [OF assms] by simp
  then have ds: "0 < count_type TypeDS (oi_types oi) \<longleftrightarrow> TypeDS \<in> owner_types dl rs n"
    by (auto simp: owner_info_ok_def owner_types_def filter_empty_conv)
  have ts: "set (map fst (oi_types oi)) = owner_types dl rs n" using info by (simp add: owner_info_ok_def)
  let ?m = "newZoneModel dl domain rs"
  define data where "data = (if isDelegation ?m n then {TypeNS} \<union> (if 0 < count_type TypeDS (oi_types oi) then {TypeDS} else {})
    else set (map fst (oi_types oi))) \<union> {TypeNSEC, TypeRRSIG}"
  have "denialTypes ?m n False = sorted_list_of_set data"
    using assms by (simp add: denialTypes_def data_def del: sorted_list_of_set_insert_remove)
  moreover have "finite data" by (simp add: data_def)
  ultimately have "set (denialTypes ?m n False) = data" by simp
  then show ?thesis using ds ts unfolding data_def by auto
qed

lemma owner_entry:
  "n \<in> canon dl ` set rs \<Longrightarrow> \<exists>oi. map_of (zm_owners (newZoneModel dl domain rs)) n = Some oi"
  using owner_lookup_None [of dl domain rs n] by (cases "map_of (zm_owners (newZoneModel dl domain rs)) n") auto

lemma delegation_types: "isDelegation (newZoneModel dl domain rs) n \<Longrightarrow> TypeNS \<in> owner_types dl rs n"
  by (auto simp: isDelegation_iff owner_types_def)

lemma denialTypes_sub:
  assumes "n \<in> canon dl ` set rs"
  shows "set (denialTypes (newZoneModel dl domain rs) n False) \<subseteq> owner_types dl rs n \<union> {TypeNSEC, TypeRRSIG}"
proof -
  obtain oi where "map_of (zm_owners (newZoneModel dl domain rs)) n = Some oi" using owner_entry [OF assms] by blast
  from denialTypes_set [OF this] show ?thesis using delegation_types [of dl domain rs n] by auto
qed

section \<open>The published zone is well-formed\<close>

lemma member_names:
  assumes ok: "signed_zone_ok lib domain rs" and n: "n \<in> set (authoritativeOwners (nlib lib) (newZoneModel (nlib lib) domain rs))"
  shows "canonical (nlib lib) n" "n \<in> canon (nlib lib) ` set rs" "plain_name_labels (SplitDomainName (nlib lib) n)"
    and "joinLabels (SplitDomainName (nlib lib) n) = n" "within_zone (nlib lib) (newZoneModel (nlib lib) domain rs) n"
    and "\<not> isOccluded (nlib lib) (newZoneModel (nlib lib) domain rs) n"
proof -
  note d = signed_zone_okD [OF ok]
  note spec = authoritativeOwners_spec [OF d(3)]
  show c: "canonical (nlib lib) n" using spec(4) n .
  show r: "n \<in> canon (nlib lib) ` set rs" and "\<not> isOccluded (nlib lib) (newZoneModel (nlib lib) domain rs) n"
    using spec(2) n by auto
  show "plain_name_labels (SplitDomainName (nlib lib) n)"
    "within_zone (nlib lib) (newZoneModel (nlib lib) domain rs) n" using r d(6) by auto
  show "joinLabels (SplitDomainName (nlib lib) n) = n" using canonical_split(2) [OF d(4) c] .
qed

lemma cut_is_zone_cut:
  assumes ok: "signed_zone_ok lib domain rs" and cut: "cut_at (signed_view lib domain rs) d"
  obtains c where "d = SplitDomainName (nlib lib) c" "canonical (nlib lib) c" "zone_cut (nlib lib) domain rs c"
proof -
  let ?dl = "nlib lib" and ?m = "newZoneModel (nlib lib) domain rs"
  note dd = signed_zone_okD [OF ok]
  obtain c where c: "d = SplitDomainName ?dl c" "c \<in> set (authoritativeOwners ?dl ?m)"
    using cut by (auto simp: cut_at_def signed_view_def Let_def)
  note mem = member_names [OF ok c(2)]
  have inj: "inj (TypeName lib)" using dd(2) by (simp add: type_law_def)
  have types: "zv_types (signed_view lib domain rs) d = TypeName lib ` set (denialTypes ?m c False)"
    using c(1) mem(4) by (simp add: signed_view_def Let_def)
  have "TypeDNAME \<in> owner_types ?dl rs c \<or>
      TypeNS \<in> owner_types ?dl rs c \<and> TypeSOA \<notin> set (denialTypes ?m c False)"
  proof -
    have "TypeDNAME \<in> set (denialTypes ?m c False) \<or>
        TypeNS \<in> set (denialTypes ?m c False) \<and> TypeSOA \<notin> set (denialTypes ?m c False)"
      using cut dd(2) inj_image_mem_iff [OF inj] by (simp add: cut_at_def types type_law_def) metis
    then show ?thesis using denialTypes_sub [OF mem(2), of domain] by auto
  qed
  moreover have "TypeSOA \<in> set (denialTypes ?m c False)" if "c = canonicalName ?dl domain"
  proof -
    obtain oi where oi: "map_of (zm_owners ?m) c = Some oi" using owner_entry [OF mem(2)] by blast
    have "TypeSOA \<in> owner_types ?dl rs c" using dd(7) that by (auto simp: owner_types_def)
    moreover have "\<not> isDelegation ?m c" using that by (simp add: isDelegation_iff)
    ultimately show ?thesis using denialTypes_set [OF oi] by simp
  qed
  moreover have "TypeDNAME \<notin> owner_types ?dl rs c" if "c = canonicalName ?dl domain"
    using dd(6) that by (auto simp: owner_types_def)
  ultimately have ne: "c \<noteq> canonicalName ?dl domain" and
    ty: "TypeDNAME \<in> owner_types ?dl rs c \<or> TypeNS \<in> owner_types ?dl rs c" by auto
  have apex: "canonical ?dl (canonicalName ?dl domain)" using dd(3) by (auto simp: zone_ok_names_def)
  have "\<exists>p. SplitDomainName ?dl c = p @ SplitDomainName ?dl (canonicalName ?dl domain)"
    using mem(5) by (simp add: within_zone_def labelsWithin_iff)
  then have "strictly_below ?dl c (canonicalName ?dl domain)"
    using strictly_below_split [OF dd(4) mem(1) apex] canonical_split_inj(1) [OF dd(4) mem(1) apex] ne
    by (metis append_Nil)
  then have "zone_cut ?dl domain rs c" using ty by (auto simp: zone_cut_def owner_types_def)
  with c(1) mem(1) that show thesis by blast
qed

lemma signed_view_ok:
  assumes ok: "signed_zone_ok lib domain rs"
  shows "zone_view_ok (signed_view lib domain rs)"
proof -
  let ?dl = "nlib lib" and ?m = "newZoneModel (nlib lib) domain rs" and ?z = "signed_view lib domain rs"
  note dd = signed_zone_okD [OF ok]
  have "\<not> isOccluded ?dl ?m (canonicalName ?dl domain)"
    by (auto simp: isOccluded_def ancestors_def list_ex_iff)
  then have "canonicalName ?dl domain \<in> set (authoritativeOwners ?dl ?m)"
    using authoritativeOwners_spec(2) [OF dd(3)] dd(7) by (auto intro: rev_image_eqI)
  then have apex: "zv_apex ?z \<in> zv_owners ?z" by (auto simp: signed_view_def Let_def)
  have "plain_name_labels n \<and> suffix (zv_apex ?z) n \<and> \<not> beneath_cut ?z n" if own: "n \<in> zv_owners ?z" for n
  proof -
    obtain x where x: "n = SplitDomainName ?dl x" "x \<in> set (authoritativeOwners ?dl ?m)"
      using own by (auto simp: signed_view_def Let_def)
    note mem = member_names [OF ok x(2)]
    have "suffix (zv_apex ?z) n"
      using mem(5) x(1) by (auto simp: signed_view_def Let_def within_zone_def labelsWithin_iff suffix_def)
    moreover have "\<not> beneath_cut ?z n"
    proof
      assume "beneath_cut ?z n"
      then obtain d where d: "cut_at ?z d" "strict_suffix d n" by (auto simp: beneath_cut_def)
      obtain c where c: "d = SplitDomainName ?dl c" "canonical ?dl c" "zone_cut ?dl domain rs c"
        by (rule cut_is_zone_cut [OF ok d(1)])
      have "strictly_below ?dl x c"
        using d(2) c(1) x(1) strictly_below_split [OF dd(4) mem(1) c(2)]
        by (auto simp: strict_suffix_def suffix_def)
      then show False using isOccluded_iff [OF dd(3) mem(1,5)] c(3) mem(6) by blast
    qed
    ultimately show ?thesis using mem(3) x(1) by simp
  qed
  with apex show ?thesis by (simp add: zone_view_ok_def)
qed

section \<open>The generated records\<close>

lemma cycle_gap:
  fixes ks :: "'a :: linorder list"
  assumes "sorted ks" "distinct ks" "i < length ks" "k \<in> set ks"
  shows "\<not> between_cyclic (ks ! i) (ks ! ((i + 1) mod length ks)) k"
proof -
  obtain j where j: "j < length ks" "k = ks ! j" using assms(4) by (metis in_set_conv_nth)
  have mono: "ks ! x \<le> ks ! y" if "x \<le> y" "y < length ks" for x y using assms(1) that by (rule sorted_nth_mono)
  show ?thesis
  proof (cases "Suc i = length ks")
    case True
    then show ?thesis using j mono [of 0 j] mono [of j i] by (auto simp: between_cyclic_def not_less)
  next
    case False
    then have i: "Suc i < length ks" using assms(3) by simp
    have "ks ! i \<noteq> ks ! Suc i" using nth_eq_iff_index_eq [OF assms(2,3) i] by simp
    then have "ks ! i < ks ! Suc i" using mono [of i "Suc i"] i by simp
    then show ?thesis using j i mono [of j i] mono [of "Suc i" j] assms(3)
      by (cases "j \<le> i") (auto simp: between_cyclic_def not_less)
  qed
qed

lemma chain_records_nth:
  assumes ok: "signed_zone_ok lib domain rs"
  defines "names \<equiv> authoritativeOwners (nlib lib) (newZoneModel (nlib lib) domain rs)"
  shows "chain_records lib domain rs ttl = map (\<lambda>i. \<lparr>nr_Owner = names ! i, nr_Class = ClassINET,
      nr_Section = ''authority'', nr_NextDomain = names ! ((i + 1) mod length names),
      nr_TypeBitmap = map (TypeName lib) (denialTypes (newZoneModel (nlib lib) domain rs) (names ! i) False)\<rparr>)
    [0..<length names]"
proof -
  note dd = signed_zone_okD [OF ok]
  have "nsec_types (newZoneModel (nlib lib) domain rs) (collect_types (nlib lib) (newZoneModel (nlib lib) domain rs) rs) (names ! i) =
      denialTypes (newZoneModel (nlib lib) domain rs) (names ! i) False" if "i < length names" for i
  proof (rule nsec_types_expected)
    have "names ! i \<in> set names" using that by simp
    then show "names ! i \<in> canon (nlib lib) ` set rs" "\<not> isOccluded (nlib lib) (newZoneModel (nlib lib) domain rs) (names ! i)"
      using member_names(2,6) [OF ok] by (simp_all add: names_def)
  qed (use dd(6) in blast)
  then show ?thesis
    using generated_chain_nth [OF dd(3), of ttl]
    by (simp add: chain_records_def names_def nsec_record_def NSECFromRR_def)
qed

text \<open>The owners' labels in the order of the chain.\<close>

lemma chain_keys:
  assumes ok: "signed_zone_ok lib domain rs"
  defines "ks \<equiv> map (\<lambda>n. rev (SplitDomainName (nlib lib) n)) (authoritativeOwners (nlib lib) (newZoneModel (nlib lib) domain rs))"
  shows "sorted ks" "distinct ks" "set ks = rev ` zv_owners (signed_view lib domain rs)" "ks \<noteq> []"
proof -
  note dd = signed_zone_okD [OF ok]
  let ?ns = "authoritativeOwners (nlib lib) (newZoneModel (nlib lib) domain rs)"
  note spec = authoritativeOwners_spec [OF dd(3)]
  have key: "name_key (nlib lib) n = rev (SplitDomainName (nlib lib) n)" if "n \<in> set ?ns" for n
    using member_names(3) [OF ok that] by (simp add: name_key_def map_bytes_plain)
  then have eq: "ks = map (name_key (nlib lib)) ?ns" by (simp add: ks_def)
  show "sorted ks" unfolding eq by (rule spec(3))
  show "distinct ks" unfolding eq
    using spec(1) name_key_inj [OF dd(4) spec(4)] by (simp add: distinct_map)
  show k: "set ks = rev ` zv_owners (signed_view lib domain rs)"
    by (auto simp: ks_def signed_view_def Let_def image_comp)
  show "ks \<noteq> []" using k signed_view_ok [OF ok] by (auto simp: zone_view_ok_def)
qed

lemma chain_genuine:
  assumes ok: "signed_zone_ok lib domain rs"
  shows "list_all (genuine (signed_view lib domain rs)) (chain_records lib domain rs ttl)"
proof -
  let ?ns = "authoritativeOwners (nlib lib) (newZoneModel (nlib lib) domain rs)" and ?z = "signed_view lib domain rs"
  define ks where "ks = map (\<lambda>n. rev (SplitDomainName (nlib lib) n)) ?ns"
  note k = chain_keys [OF ok, folded ks_def]
  have "genuine ?z \<lparr>nr_Owner = ?ns ! i, nr_Class = ClassINET,
      nr_Section = ''authority'', nr_NextDomain = ?ns ! ((i + 1) mod length ?ns),
      nr_TypeBitmap = map (TypeName lib) (denialTypes (newZoneModel (nlib lib) domain rs) (?ns ! i) False)\<rparr>"
    if i: "i < length ?ns" for i
  proof -
    let ?j = "(i + 1) mod length ?ns"
    have j: "?j < length ?ns" using i by (intro mod_less_divisor) auto
    have mem: "?ns ! i \<in> set ?ns" "?ns ! ?j \<in> set ?ns" using i j by simp_all
    note join = member_names(4) [OF ok mem(1)] member_names(4) [OF ok mem(2)]
    have "\<not> between_cyclic (ks ! i) (ks ! ((i + 1) mod length ks)) (rev n)" if "n \<in> zv_owners ?z" for n
      using that i k(3) by (intro cycle_gap [OF k(1,2)]) (auto simp: ks_def)
    then have "\<not> between_cyclic (rev (SplitDomainName (nlib lib) (?ns ! i))) (rev (SplitDomainName (nlib lib) (?ns ! ?j))) (rev n)"
      if "n \<in> zv_owners ?z" for n using that i j by (simp add: ks_def)
    then show ?thesis unfolding genuine_def using mem join
      by (intro exI [of _ "SplitDomainName (nlib lib) (?ns ! i)"] exI [of _ "SplitDomainName (nlib lib) (?ns ! ?j)"])
        (simp add: signed_view_def Let_def)
  qed
  then show ?thesis by (simp add: chain_records_nth [OF ok] list_all_iff)
qed

text \<open>Every name that owns nothing is covered by a record of the chain.\<close>

lemma chain_covers:
  assumes ok: "signed_zone_ok lib domain rs" and q: "plain_name_labels q"
    and no: "q \<notin> zv_owners (signed_view lib domain rs)"
  shows "\<exists>r \<in> set (chain_records lib domain rs ttl). nsec_covers lib (joinLabels q) r"
proof -
  let ?ns = "authoritativeOwners (nlib lib) (newZoneModel (nlib lib) domain rs)"
  define ks where "ks = map (\<lambda>n. rev (SplitDomainName (nlib lib) n)) ?ns"
  note k = chain_keys [OF ok, folded ks_def] and dd = signed_zone_okD [OF ok]
  have "rev q \<notin> set ks" using no k(3) by auto
  from sorted_cycle_covers [OF k(1,2,4) this] obtain i where
    i: "i < length ks" "between_cyclic (ks ! i) (ks ! ((i + 1) mod length ks)) (rev q)" by blast
  have len: "length ks = length ?ns" by (simp add: ks_def)
  let ?j = "(i + 1) mod length ?ns"
  have j: "i < length ?ns" using i(1) len by simp
  then have j': "?j < length ?ns" by (intro mod_less_divisor) auto
  have mem: "?ns ! i \<in> set ?ns" "?ns ! ?j \<in> set ?ns" using j j' by simp_all
  have nk: "name_key (nlib lib) n = rev (SplitDomainName (nlib lib) n) \<and> canonicalizeName n = n" if "n \<in> set ?ns" for n
    using member_names(3,4) [OF ok that] canonicalizeName_join [of "SplitDomainName (nlib lib) n"]
    by (simp add: name_key_def map_bytes_plain)
  have "between_cyclic (rev (SplitDomainName (nlib lib) (?ns ! i))) (rev (SplitDomainName (nlib lib) (?ns ! ?j))) (rev q)"
    using i j j' by (simp add: ks_def)
  then show ?thesis
    using nk [OF mem(1)] nk [OF mem(2)] j name_key_join [OF dd(4) q]
    by (simp add: chain_records_nth [OF ok] nsec_covers_def canonicallyBetween_key) (rule bexI [of _ i], simp_all)
qed

section \<open>Agreement\<close>

lemma chain_denial_ok:
  assumes "signed_zone_ok lib domain rs" and "plain_name_labels q" and "suffix (zv_apex (signed_view lib domain rs)) q"
  shows "denial_ok lib (signed_view lib domain rs) q (chain_records lib domain rs ttl)"
  using assms chain_genuine signed_view_ok signed_zone_okD(1,4) by (simp add: denial_ok_def)

theorem signer_validator_nxdomain:
  assumes ok: "signed_zone_ok lib domain rs" and q: "plain_name_labels q"
    and inz: "suffix (zv_apex (signed_view lib domain rs)) q"
  shows "(\<exists>p. verifyNSECNXDOMAIN lib (joinLabels q) (chain_records lib domain rs ttl) = Inr p) \<longleftrightarrow>
    \<not> name_exists (signed_view lib domain rs) q \<and> \<not> beneath_cut (signed_view lib domain rs) q \<and>
    (\<forall>ce. closest_encloser (signed_view lib domain rs) q ce \<longrightarrow> ''*'' # ce \<notin> zv_owners (signed_view lib domain rs))"
proof -
  let ?z = "signed_view lib domain rs"
  note den = chain_denial_ok [OF assms, of ttl]
  show ?thesis
  proof
    assume "\<exists>p. verifyNSECNXDOMAIN lib (joinLabels q) (chain_records lib domain rs ttl) = Inr p"
    then obtain p where "nxdomain_true ?z q p" using nsec_nxdomain_sound [OF den] by blast
    then show "\<not> name_exists ?z q \<and> \<not> beneath_cut ?z q \<and> (\<forall>ce. closest_encloser ?z q ce \<longrightarrow> ''*'' # ce \<notin> zv_owners ?z)"
      using closest_encloser_unique by (auto simp: nxdomain_true_def)
  next
    assume h: "\<not> name_exists ?z q \<and> \<not> beneath_cut ?z q \<and> (\<forall>ce. closest_encloser ?z q ce \<longrightarrow> ''*'' # ce \<notin> zv_owners ?z)"
    have "q \<notin> zv_owners ?z" using h by (auto simp: name_exists_def)
    from chain_covers [OF ok q this] obtain r where r: "r \<in> set (chain_records lib domain rs ttl)"
      "nsec_covers lib (joinLabels q) r" by blast
    obtain a b where "gap ?z a b q" by (rule covering_gap [OF den r(1) q r(2)])
    then have ce: "closest_encloser ?z q (encloser q a b)" using gap_encloser h by blast
    then have w: "''*'' # encloser q a b \<notin> zv_owners ?z" using h by blast
    have "plain_name_labels (''*'' # encloser q a b)" using plain_encloser [OF q] by simp
    then show "\<exists>p. verifyNSECNXDOMAIN lib (joinLabels q) (chain_records lib domain rs ttl) = Inr p"
      using nsec_nxdomain_complete [OF den _ _ ce w] h r chain_covers [OF ok _ w] by blast
  qed
qed

end
