(* ===== verification/Sample_Validator.thy ===== *)
theory Sample_Validator
  imports Walk_Sound Sample_Signing Denial_Interop "HOL-Library.Code_Target_Nat"
begin

text \<open>
  A small network to validate against, with a concrete instance of the DNS library: a signed root
  whose key has the tag and the digest of a pinned anchor, its NS RRset, and one delegation without
  DS record, denied by the NSEC chain of the root. A signature is good when it spells the public
  key and covers no NSEC record but those of the chain.
\<close>

definition sample_type :: "16 word \<Rightarrow> string" where
  "sample_type t = (if t = TypeA then ''A'' else if t = TypeNS then ''NS'' else if t = TypeSOA then ''SOA''
     else if t = TypeDNAME then ''DNAME'' else if t = TypeCNAME then ''CNAME'' else CHR ''T'' # replicate (unat t + 5) (CHR ''T''))"

definition sample_val :: vallib where
  "sample_val = \<lparr>nlib = sample_dns\<lparr>klib := (klib sample_dns)\<lparr>KeyTag := (\<lambda>k. 20326)\<rparr>\<rparr>,
     IsSubDomain = (\<lambda>p c. let ps = map ToLower (split_name p); cs = map ToLower (split_name c) in
       length ps \<le> length cs \<and> drop (length cs - length ps) cs = ps),
     CanonicalName = (\<lambda>n. ToLower (with_dot n)), TypeName = sample_type,
     Sha1 = (\<lambda>b. []), EffectiveTLDPlusOne = (\<lambda>n. None)\<rparr>"

definition sample_digest :: bytes where
  "sample_digest = map char_of [0xE0, 0x6D, 0x44, 0xB8, 0x0B, 0x8F, 0x1D, 0x39, 0xA9, 0x5C, 0x0B, 0x0D, 0x7C, 0x65, 0xD0, 0x84,
     0x58, 0xE8, 0x80, 0x40, 0x9B, 0xBC, 0x68, 0x34, 0x57, 0x10, 0x42, 0x37, 0xC7, 0xF8, 0xEC, 0x8D :: nat]"

text \<open>The root has two owners, itself and the delegation \<open>c.\<close>.\<close>

definition root_nsec :: "string \<Rightarrow> string \<Rightarrow> 16 word list \<Rightarrow> nsec" where
  "root_nsec own nxt types = \<lparr>nsec_Hdr = sample_header own TypeNSEC, nsec_NextDomain = nxt, nsec_TypeBitMap = types\<rparr>"

definition root_chain :: "nsec list" where
  "root_chain = [root_nsec ''.'' ''c.'' [TypeNS, TypeSOA], root_nsec ''c.'' ''.'' [TypeNS]]"

definition sample_trust :: trustlib where
  "sample_trust = \<lparr>vlib = sample_val, PackDomainName = (\<lambda>n. Some []), Sha256 = (\<lambda>b. sample_digest), Sha384 = (\<lambda>b. []),
     VerifySig = (\<lambda>sig k rs. sig_Signature sig = dk_PublicKey k \<and>
       list_all (\<lambda>rr. case rr of NSEC n \<Rightarrow> n \<in> set root_chain | _ \<Rightarrow> True) rs),
     DSFields = (\<lambda>d. (0, 0, 0, []))\<rparr>"

definition root_rrsig :: "string \<Rightarrow> 16 word \<Rightarrow> rr" where
  "root_rrsig own t = RRSIG \<lparr>sig_Hdr = sample_header own TypeRRSIG, sig_TypeCovered = t, sig_Algorithm = 8,
     sig_Labels = (if own = ''.'' then 0 else 1), sig_OrigTtl = 300, sig_Expiration = 9, sig_Inception = 1,
     sig_KeyTag = 20326, sig_SignerName = ''.'', sig_Signature = ''AAAA''\<rparr>"

definition sample_root_key :: dnskey where
  "sample_root_key = \<lparr>dk_Name = ''.'', dk_Flags = 257, dk_Protocol = 3, dk_Algorithm = 8, dk_PublicKey = ''AAAA''\<rparr>"

definition sample_keys_msg :: message where
  "sample_keys_msg = \<lparr>msg_Answer = [DNSKEY (sample_header ''.'' TypeDNSKEY) sample_root_key, root_rrsig ''.'' TypeDNSKEY],
     msg_Ns = [], msg_Extra = []\<rparr>"

definition sample_ns_msg :: message where
  "sample_ns_msg = \<lparr>msg_Answer = [OtherRR (sample_header ''.'' TypeNS) ''r.'', root_rrsig ''.'' TypeNS], msg_Ns = [], msg_Extra = []\<rparr>"

definition sample_absence_msg :: message where
  "sample_absence_msg = \<lparr>msg_Answer = [], msg_Ns = [NSEC (root_chain ! 1), root_rrsig ''c.'' TypeNSEC], msg_Extra = []\<rparr>"

definition sample_denial_msg :: message where
  "sample_denial_msg = \<lparr>msg_Answer = [], msg_Ns = [NSEC (root_chain ! 0), root_rrsig ''.'' TypeNSEC,
     NSEC (root_chain ! 1), root_rrsig ''c.'' TypeNSEC], msg_Extra = []\<rparr>"

definition sample_msgs :: "(bytes \<times> message) list" where
  "sample_msgs = [(''1'', sample_keys_msg), (''2'', sample_ns_msg), (''3'', sample_absence_msg), (''4'', sample_denial_msg)]"

definition answer_of :: "message \<Rightarrow> response" where
  "answer_of m = message.extend m \<lparr>rs_Rcode = 0, rs_Authoritative = True, rs_Truncated = False\<rparr>"

text \<open>The servers: keys and nameservers of the root, the delegation and its denial, one address.\<close>

definition sample_network :: network where
  "sample_network n proto server q = Inr (answer_of (
     if qy_Name q = ''.'' then (if qy_Type q = TypeDNSKEY then sample_keys_msg else sample_ns_msg)
     else if qy_Type q = TypeDS then sample_absence_msg
     else \<lparr>msg_Answer = (if qy_Type q = TypeNS then [OtherRR (sample_header ''c.'' TypeNS) ''r.'']
         else if qy_Type q = TypeA then [OtherRR (sample_header ''r.'' TypeA) ''a''] else []), msg_Ns = [], msg_Extra = []\<rparr>))"

definition sample_net :: netlib where
  "sample_net = \<lparr>tlib = sample_trust, Unpack = map_of sample_msgs,
     Pack = (\<lambda>r. map_of (map (\<lambda>(raw, m). (m, raw)) sample_msgs) (message.truncate r)),
     RDataName = id, RDataIP = (\<lambda>d. V4 0xC6290004), RDataMapNames = (\<lambda>t f d. f d), RRString = owner, IsDomainName = (\<lambda>n. True),
     TypeToString = (\<lambda>t. None), StringToType = (\<lambda>s. None)\<rparr>"

definition sample_anchor :: anchor where
  "sample_anchor = \<lparr>an_KeyTag = 20326, an_Algorithm = 8, an_DigestType = 2,
     an_Digest = ''E06D44B80B8F1D39A95C0B0D7C65D08458E880409BBC683457104237C7F8EC8D'', an_ValidFrom = Some 0, an_ValidUntil = None\<rparr>"

definition sample_validator :: validator where
  "sample_validator = SetQueryType TypeNS (NewValidator sample_network [sample_anchor] [])
     \<lparr>vd_rootServers := [''198.41.0.4'']\<rparr>"

definition sample_vworld :: vworld where
  "sample_vworld = \<lparr>vw_budget = None, vw_cancelled = (\<lambda>n. False), vw_looks = 0, vw_clock = (\<lambda>n. 5 * Second), vw_ticks = 0,
     vw_verifies = 0, vw_dials = [], vw_depth = 0\<rparr>"

section \<open>The laws hold\<close>

lemma sample_canon: "canonNL sample_net n = ToLower (with_dot n)"
  by (simp add: sample_net_def sample_trust_def sample_val_def)

lemma with_dot_ne: "with_dot n \<noteq> []"
  by (simp add: with_dot_def)

lemma sample_net_laws: "net_laws sample_net"
proof -
  have inv: "Unpack sample_net raw = Some (message.truncate resp)" if "Pack sample_net resp = Some raw" for resp raw
  proof -
    have "(raw, message.truncate resp) \<in> set sample_msgs" using map_of_SomeD that by (fastforce simp: sample_net_def)
    moreover have "distinct (map fst sample_msgs)" by (simp add: sample_msgs_def)
    ultimately show ?thesis by (simp add: sample_net_def)
  qed
  have keys: "h_Rrtype h = TypeDNSKEY \<and> h_Name h \<noteq> []" if "Unpack sample_net raw = Some m" "DNSKEY h k \<in> set (msg_Answer m)" for raw m h k
  proof -
    have "(raw, m) \<in> set sample_msgs" using map_of_SomeD that(1) by (fastforce simp: sample_net_def)
    then show ?thesis using that(2)
      by (auto simp: sample_msgs_def sample_keys_msg_def sample_ns_msg_def sample_absence_msg_def sample_denial_msg_def
          root_rrsig_def sample_header_def)
  qed
  have "fqdnNL sample_net n \<noteq> []" for n
    using with_dot_ne by (simp add: sample_net_def sample_trust_def sample_val_def sample_dns_def)
  then show ?thesis unfolding net_laws_def using inv keys by (auto simp: sample_canon ToLower_def with_dot_ne)
qed

lemma sample_type_inj: "inj sample_type"
proof (rule injI)
  fix s t
  assume eq: "sample_type s = sample_type t"
  have len: "length (sample_type t) = (if t = TypeA then 1 else if t = TypeNS then 2 else if t = TypeSOA then 3
      else if t = TypeDNAME then 5 else if t = TypeCNAME then 5 else unat t + 6)" for t by (simp add: sample_type_def)
  have "unat s = unat t" if "length (sample_type s) = length (sample_type t)" "length (sample_type s) > 5"
    using that by (auto simp: len split: if_splits)
  moreover have "s = t" if "length (sample_type s) \<le> 5"
    using that eq arg_cong [OF eq, of length] by (auto simp: len sample_type_def split: if_splits)
  ultimately show "s = t" using eq by (metis not_le unsigned_word_eqI)
qed

lemma ToLower_join: "ToLower (joinLabels ls) = joinLabels (map ToLower ls)"
proof (cases "ls = []")
  case False
  have "ToLower (concat (map (\<lambda>l. l @ ''.'') ls)) = concat (map (\<lambda>l. l @ ''.'') (map ToLower ls))"
    by (induction ls) (simp_all add: ToLower_def ascii_lower_def)
  then show ?thesis unfolding concat_dots [OF False] using False by (subst (asm) concat_dots) simp_all
qed (simp add: joinLabels_def ToLower_def ascii_lower_def)

lemma drop_suffix: "length ps \<le> length cs \<and> drop (length cs - length ps) cs = ps \<longleftrightarrow> suffix ps cs"
  by (metis append_take_drop_id diff_diff_cancel length_drop suffixE suffixI suffix_length_le append_eq_conv_conj diff_le_self
      length_append add_diff_cancel_right')

lemma sample_subdomain_law: "subdomain_law sample_val" "subdomain_law (sample_val\<lparr>nlib := sample_dns\<rparr>)"
  by (simp_all add: subdomain_law_def sample_val_def split_name_join drop_suffix with_dot_join ToLower_join Let_def)

lemma sample_type_law: "type_law (sample_val\<lparr>nlib := sample_dns\<rparr>)"
  using sample_type_inj by (simp add: type_law_def sample_val_def) (simp add: sample_type_def)

lemma sample_val_names: "names_law (nlib sample_val)"
  using sample_names_law by (simp add: names_law_def sample_val_def sample_dns_def)

section \<open>Runs\<close>

definition sample_key_rec :: key_rec where
  "sample_key_rec = DNSKEYFromRR sample_trust (sample_header ''.'' TypeDNSKEY) sample_root_key ''answer''"

lemma sample_secure_run:
  "case Validate sample_net sample_validator ''.'' sample_vworld of
     (Inr (res, err), w') \<Rightarrow> va_Result res = StatusSecure | _ \<Rightarrow> False"
  by code_simp

lemma sample_root_run:
  "case validateZone sample_net sample_validator ''.'' [''.''] [] False [] sample_vworld of
     (Inr z, w') \<Rightarrow> zr_Status z = StatusSecure \<and> zr_DNSKEY z = [sample_key_rec] | _ \<Rightarrow> False"
  by code_simp

lemma sample_insecure_run:
  "case validateZone sample_net sample_validator ''c.'' [''.'', ''c.''] [sample_key_rec] False [] sample_vworld of
     (Inr z, w') \<Rightarrow> zr_Status z = StatusInsecure | _ \<Rightarrow> False"
  by code_simp

lemma sample_root_trusted: "trusted sample_net (vd_anchors sample_validator) (vw_clock sample_vworld) ''.'' [sample_key_rec]"
proof -
  obtain z w' where z: "validateZone sample_net sample_validator ''.'' [''.''] [] False [] sample_vworld = (Inr z, w')"
    "zr_Status z = StatusSecure" "zr_DNSKEY z = [sample_key_rec]"
    using sample_root_run by (auto split: prod.splits sum.splits)
  have "parent_known sample_net (vd_anchors sample_validator) (vw_clock sample_vworld) p []" for p by (simp add: parent_known_def)
  from givesD [OF gives_validateZone [OF sample_net_laws _ this] refl z(1)] show ?thesis
    using z(2,3) by (simp add: grounded_def)
qed

end
