(* ===== verification/Validator_Props.thy ===== *)
theory Validator_Props
  imports Sample_Validator
begin

text \<open>
  The properties of the validator, stated over the whole operations: what each verdict rests on,
  the bounds of a validation, and the exact meaning of its policies. Each follows from the lemmas
  of the component theories; the witnesses use the network of \<open>Sample_Validator\<close>.
\<close>

section \<open>Verdicts\<close>

text \<open>
  C3. A secure verdict is earned: when \<open>Validate\<close> reports a name as secure, then, whatever
  the network answered, every zone of the chain holds keys that descend from an active pinned root
  anchor through signed DS and DNSKEY RRsets, the answer (or the denial) at the name is
  authenticated under the keys of its zone, and the same holds at the end of every alias followed.
\<close>

theorem secure_verdict_sound:
  assumes "net_laws lib" and "Validate lib v domain w = (Inr (res, err), w')" and "va_Result res = StatusSecure"
  shows "secured lib v (vw_clock w) domain \<and> va_Chain res \<noteq> [] \<and>
    (\<forall>z \<in> set (va_Chain res). zr_Status z = StatusSecure \<and> trusted lib (vd_anchors v) (vw_clock w) (zr_Zone z) (zr_DNSKEY z)) \<and>
    (\<forall>c \<in> set (va_CNAMEChains res). cc_Result c = StatusSecure)"
proof -
  obtain vis cache w1 where run: "validateWithCache lib v domain 0 {} [] w = (Inr ((res, err), vis, cache), w1)"
    using assms(2) by (auto simp: Validate_def op_bind_Inr)
  have "cache_ok lib (vd_anchors v) (vw_clock w) []" by (simp add: cache_ok_def)
  from givesD [OF gives_validateWithCache [OF assms(1) this] refl run] show ?thesis
    using assms(3) by (simp add: result_ok_def)
qed

theorem secure_verdict_sound_witness:
  "\<exists>res err w'. Validate sample_net sample_validator ''.'' sample_vworld = (Inr (res, err), w') \<and>
     va_Result res = StatusSecure \<and> secured sample_net sample_validator (vw_clock sample_vworld) ''.'' \<and> va_Chain res \<noteq> []"
proof -
  obtain res err w' where run: "Validate sample_net sample_validator ''.'' sample_vworld = (Inr (res, err), w')"
    "va_Result res = StatusSecure" using sample_secure_run by (auto split: prod.splits sum.splits)
  show ?thesis using run secure_verdict_sound [OF sample_net_laws run] by blast
qed

text \<open>
  C4. No downgrade: when \<open>validateZone\<close> calls a zone insecure although the walk has met no
  insecure zone above it, the walk holds trusted keys of the zone above, and these keys
  authenticate either a proof that there is no DS record at the delegation or a DS RRset without a
  single supported record.
\<close>

theorem insecure_verdict_grounded:
  assumes "net_laws lib" and "zone \<noteq> []" and "pkeys = [] \<or> trusted lib (vd_anchors v) (vw_clock w) parent pkeys"
    and "validateZone lib v zone hierarchy pkeys False ancestor w = (Inr z, w')" and "zr_Status z = StatusInsecure"
  shows "trusted lib (vd_anchors v) (vw_clock w) parent pkeys \<and>
    (ds_denied lib (vw_clock w) zone pkeys \<or> unusable_ds lib (vw_clock w) zone parent pkeys)"
proof -
  have "parent_known lib (vd_anchors v) (vw_clock w) parent pkeys" using assms(3) by (simp add: parent_known_def)
  from givesD [OF gives_validateZone [OF assms(1,2) this] refl assms(4)] show ?thesis
    using assms(5) by (simp add: grounded_def insecure_ground_def)
qed

theorem insecure_verdict_grounded_witness:
  "\<exists>z w'. validateZone sample_net sample_validator ''c.'' [''.'', ''c.''] [sample_key_rec] False [] sample_vworld = (Inr z, w') \<and>
     zr_Status z = StatusInsecure \<and>
     (ds_denied sample_net (vw_clock sample_vworld) ''c.'' [sample_key_rec] \<or>
      unusable_ds sample_net (vw_clock sample_vworld) ''c.'' ''.'' [sample_key_rec])"
proof -
  obtain z w' where run: "validateZone sample_net sample_validator ''c.'' [''.'', ''c.''] [sample_key_rec] False [] sample_vworld = (Inr z, w')"
    "zr_Status z = StatusInsecure" using sample_insecure_run by (auto split: prod.splits sum.splits)
  have "[sample_key_rec] = [] \<or> trusted sample_net (vd_anchors sample_validator) (vw_clock sample_vworld) ''.'' [sample_key_rec]"
    using sample_root_trusted by simp
  from insecure_verdict_grounded [OF sample_net_laws _ this run] show ?thesis using run by blast
qed

section \<open>Bounds\<close>



text \<open>
  C24. Following aliases ends: the recursion of \<open>validateWithCache\<close> through CNAME and DNAME
  targets is well-founded, and no validation, whatever chain of aliases the network serves, goes
  deeper than nine hops below the queried name.
\<close>

theorem alias_following_ends:
  assumes "Validate lib v domain w = (r, w')" and "vd_anchors v \<noteq> []" and "vw_depth w = 0"
  shows "vw_depth w' \<le> 9"
  using validation_bounded(3) [OF assms] by (simp add: maxCNAMEDepth_def)

theorem alias_following_ends_witness: "vw_depth (snd (Validate sample_net sample_validator ''.'' sample_vworld)) \<le> 9"
proof (rule alias_following_ends [OF surjective_pairing])
  show "vd_anchors sample_validator \<noteq> []" "vw_depth sample_vworld = 0"
    by (simp_all add: sample_validator_def SetQueryType_def NewValidator_def sample_vworld_def)
qed

section \<open>Denial of existence\<close>

















section \<open>Policies and trust decisions\<close>



text \<open>
  An anchor document that is accepted can be used and holds nothing else: it keeps only
  well-formed anchors of the document, each key once per digest type, and one of them is pinned and
  valid at the time of loading.
\<close>

theorem accepted_anchors_usable:
  assumes "finalizeAnchors now anchors source = Inr r"
  shows "(\<exists>a \<in> set (ra_Anchors r). IsPinnedRootAnchor a \<and> (\<exists>f. an_ValidFrom a = Some f \<and> f \<le> now) \<and>
      (\<forall>u. an_ValidUntil a = Some (Some u) \<longrightarrow> now < u)) \<and>
    distinct (map (\<lambda>a. (an_KeyTag a, an_DigestType a)) (ra_Anchors r)) \<and>
    (\<forall>a \<in> set (ra_Anchors r). a \<in> set (ra_Anchors anchors) \<and> validateAnchorStructure a = Inr ())"
  using finalizeAnchors_usable [OF assms] by blast

lemma sample_finalize:
  "\<exists>r. finalizeAnchors 5 \<lparr>ra_Zone = ''.'', ra_Anchors = [sample_anchor], ra_LoadedFrom = []\<rparr> ''f'' = Inr r"
proof -
  have "case finalizeAnchors 5 \<lparr>ra_Zone = ''.'', ra_Anchors = [sample_anchor], ra_LoadedFrom = []\<rparr> ''f'' of Inr r \<Rightarrow> True | Inl e \<Rightarrow> False"
    by code_simp
  then show ?thesis by (auto split: sum.splits)
qed

theorem accepted_anchors_usable_witness:
  "\<exists>r. finalizeAnchors 5 \<lparr>ra_Zone = ''.'', ra_Anchors = [sample_anchor], ra_LoadedFrom = []\<rparr> ''f'' = Inr r \<and>
     (\<exists>a \<in> set (ra_Anchors r). IsPinnedRootAnchor a)"
  using sample_finalize accepted_anchors_usable by blast




text \<open>
  The nameservers of a zone are bounded: whatever the network answers, \<open>ResolveNSSet\<close>
  returns at most \<open>MaxNameserversPerZone\<close> servers with at most \<open>MaxAddressesPerNameserver\<close>
  addresses each, and a list of at most \<open>MaxAddressesPerZone\<close> distinct addresses that holds
  every address kept for a server.
\<close>

theorem nameservers_bounded:
  assumes "ResolveNSSet lib r zone w = (Inr s, w')"
  shows "nsset_ok s \<and> length (nss_Records s) \<le> MaxNameserversPerZone"
  using ResolveNSSet_bounds [OF assms] by blast

theorem nameservers_bounded_witness:
  "\<exists>s w'. ResolveNSSet sample_net (NewResolver sample_network []) ''.'' sample_vworld = (Inr s, w') \<and> nsset_ok s"
proof -
  have "case ResolveNSSet sample_net (NewResolver sample_network []) ''.'' sample_vworld of (Inr s, w') \<Rightarrow> True | _ \<Rightarrow> False"
    by code_simp
  then obtain s w' where run: "ResolveNSSet sample_net (NewResolver sample_network []) ''.'' sample_vworld = (Inr s, w')"
    by (auto split: prod.splits sum.splits)
  from run nameservers_bounded [OF run] show ?thesis by blast
qed

end
