(* ===== verification/Hook_Dispatch.thy ===== *)
theory Hook_Dispatch
  imports Serials Zone_State "HOL-Library.List_Lexorder" "HOL-Library.Char_ord" "HOL-Library.Multiset"
begin

text \<open>
  Post-sign hooks of the signer: the command and environment of an invocation
  (\<open>src/signer/hooks.go\<close>) and the bounded dispatcher of the daemon
  (\<open>src/signer/hook_dispatch.go\<close>), with its worker goroutines as an explicit multiset and
  their interleaving as a step relation. Every reachable state is shown to run each publication
  generation at most once at a time, with a bounded number of workers, and to drain its queue.
\<close>

section \<open>Published generations and invocations\<close>

record signed_ref =
  sr_Domain :: string
  sr_ZonePath :: string
  sr_SignedPath :: string
  sr_SignedAt :: gotime
  sr_Serial :: "32 word"

definition signedRef :: "config \<Rightarrow> string \<Rightarrow> string \<Rightarrow> gotime \<Rightarrow> signed_ref" where
  "signedRef cfg domain zonePath signedAt =
     \<lparr>sr_Domain = domain, sr_ZonePath = zonePath,
      sr_SignedPath = path_join (OutputDir cfg) (domain @ ''.zone.signed''), sr_SignedAt = signedAt, sr_Serial = 0\<rparr>"

definition zoneRef :: "config \<Rightarrow> string \<Rightarrow> string \<Rightarrow> zone_state \<Rightarrow> signed_ref" where
  "zoneRef cfg domain zonePath zs =
     (signedRef cfg domain zonePath (z_LastSigned zs))\<lparr>sr_Serial := z_PublishedSerial zs\<rparr>"

text \<open>\<open>strings.Fields\<close>: the maximal runs without white space.\<close>

function word_end :: "string \<Rightarrow> nat" where
  "word_end s = (if s = [] \<or> 0 < space_len s then 0 else Suc (word_end (tl s)))"
  by pat_completeness auto
termination
  by (relation "measure length") auto

declare word_end.simps [simp del]

lemma trim_left_length: "length (trim_left s) \<le> length s"
  by (induction s rule: trim_left.induct) (subst trim_left.simps, auto)

lemma trim_left_idem: "trim_left s \<noteq> [] \<Longrightarrow> space_len (trim_left s) = 0"
  by (induction s rule: trim_left.induct) (subst (asm) trim_left.simps, subst trim_left.simps, auto split: if_splits)

lemma word_end_pos: "s \<noteq> [] \<Longrightarrow> space_len s = 0 \<Longrightarrow> 0 < word_end s"
  by (subst word_end.simps) simp

function go_Fields :: "string \<Rightarrow> string list" where
  "go_Fields s = (let t = trim_left s in if t = [] then [] else take (word_end t) t # go_Fields (drop (word_end t) t))"
  by pat_completeness auto
termination
proof (relation "measure length")
  fix s t :: string
  assume t: "t = trim_left s" "t \<noteq> []"
  then have "0 < word_end t" using trim_left_idem word_end_pos by blast
  moreover have "length t \<le> length s" using trim_left_length t(1) by simp
  ultimately show "(drop (word_end t) t, s) \<in> measure length" using t(2) by (cases t) auto
qed simp

declare go_Fields.simps [simp del]

text \<open>The command, its arguments and the name it is logged under.\<close>

definition hookCmd :: "hooks_config \<Rightarrow> (string \<times> string list \<times> string) option" where
  "hookCmd hooks =
     (case h_PostSignCmd hooks of c # cs \<Rightarrow> Some (c, cs, ''post_sign'')
      | [] \<Rightarrow>
        if h_PostSign hooks = [] then None
        else if h_Shell hooks then Some (''sh'', [''-c'', h_PostSign hooks], ''post_sign(shell)'')
        else (case go_Fields (h_PostSign hooks) of [] \<Rightarrow> None | p # ps \<Rightarrow> Some (p, ps, ''post_sign'')))"

definition hookConfigured :: "hooks_config \<Rightarrow> bool" where
  "hookConfigured hooks \<longleftrightarrow> hookCmd hooks \<noteq> None"

definition hookEnviron :: "string list \<Rightarrow> string list \<Rightarrow> string list" where
  "hookEnviron environ vars = filter (\<lambda>kv. \<not> has_prefix ''DNSSEC_'' kv) environ @ vars"

definition perZoneVars :: "signed_ref \<Rightarrow> string \<Rightarrow> string list" where
  "perZoneVars z outputDir =
     [''DNSSEC_DOMAIN='' @ sr_Domain z, ''DNSSEC_ZONE_PATH='' @ sr_ZonePath z,
      ''DNSSEC_SIGNED_PATH='' @ sr_SignedPath z, ''DNSSEC_OUTPUT_DIR='' @ outputDir]"

definition batchVars :: "string list \<Rightarrow> string \<Rightarrow> string list" where
  "batchVars domains outputDir =
     [''DNSSEC_DOMAINS='' @ join_with (CHR '' '') domains, ''DNSSEC_BATCH_SIZE='' @ show_nat (length domains),
      ''DNSSEC_OUTPUT_DIR='' @ outputDir]"

record hook_invocation =
  iv_kind :: string
  iv_env :: "string list"
  iv_zones :: "signed_ref list"

definition buildHookInvocations :: "string list \<Rightarrow> hooks_config \<Rightarrow> string \<Rightarrow> signed_ref list \<Rightarrow> hook_invocation list" where
  "buildHookInvocations environ hooks outputDir refs =
     (if h_CoalescePostSign hooks then
        [\<lparr>iv_kind = ''post_sign_batch'', iv_env = hookEnviron environ (batchVars (map sr_Domain refs) outputDir), iv_zones = refs\<rparr>]
      else map (\<lambda>z. \<lparr>iv_kind = ''post_sign'', iv_env = hookEnviron environ (perZoneVars z outputDir), iv_zones = [z]\<rparr>) refs)"

text \<open>
  The synchronous contract of the command line. Running a process is a parameter: what the
  invocation ended with; every completion is reported, in order, and the first failure is returned.
\<close>

definition firePostSignHooks ::
  "(hook_invocation \<Rightarrow> error option) \<Rightarrow> string list \<Rightarrow> hooks_config \<Rightarrow> string \<Rightarrow> signed_ref list \<Rightarrow>
   error option \<times> (signed_ref list \<times> error option) list" where
  "firePostSignHooks exec environ hooks outputDir refs =
     (if \<not> hookConfigured hooks \<or> refs = [] then (None, [])
      else let runs = map (\<lambda>inv. (iv_zones inv, exec inv)) (buildHookInvocations environ hooks outputDir refs) in
        (case filter (\<lambda>(_, e). e \<noteq> None) runs of [] \<Rightarrow> None | r # _ \<Rightarrow> snd r, runs))"

section \<open>The bounded stderr buffer\<close>

record capped_buffer =
  cb_buf :: string
  cb_max :: nat
  cb_truncated :: bool

definition cb_Write :: "capped_buffer \<Rightarrow> string \<Rightarrow> capped_buffer \<times> nat" where
  "cb_Write c p =
     (let remaining = int (cb_max c) - int (length (cb_buf c)) in
      (if 0 < remaining then
         (if remaining < int (length p) then c\<lparr>cb_buf := cb_buf c @ take (nat remaining) p, cb_truncated := True\<rparr>
          else c\<lparr>cb_buf := cb_buf c @ p\<rparr>)
       else if 0 < length p then c\<lparr>cb_truncated := True\<rparr> else c, length p))"

definition cb_String :: "capped_buffer \<Rightarrow> string" where
  "cb_String c = cb_buf c @ (if cb_truncated c then CHR 0x0A # ''[stderr truncated]'' else [])"

text \<open>The buffer holds the first bytes of all that was written, and marks when that is not all.\<close>

lemma cb_Write_prefix:
  assumes "cb_buf c = take m all" "cb_max c = m" "cb_truncated c \<longleftrightarrow> m < length all"
  shows "cb_buf (fst (cb_Write c p)) = take m (all @ p) \<and> cb_max (fst (cb_Write c p)) = m \<and>
    (cb_truncated (fst (cb_Write c p)) \<longleftrightarrow> m < length (all @ p)) \<and> snd (cb_Write c p) = length p"
  using assms by (auto simp: cb_Write_def Let_def min_def nat_diff_distrib split: if_splits)

section \<open>The dispatcher\<close>

definition hookMaxConcurrent :: nat where "hookMaxConcurrent = 4"
definition hookRetryBackoffMax :: duration where "hookRetryBackoffMax = Hour"

type_synonym hook_identity = "string \<times> int"

text \<open>\<open>time.Time.UnixNano\<close>, with its wrap-around.\<close>

definition UnixNano :: "gotime \<Rightarrow> int" where
  "UnixNano t = wrap64 (t - unixToInternal * Second)"

definition identityOf :: "signed_ref \<Rightarrow> hook_identity" where
  "identityOf z = (sr_Domain z, UnixNano (sr_SignedAt z))"

text \<open>
  The text that identifies a command is only compared for equality. \<open>%v\<close> prints the words of
  \<open>post_sign_cmd\<close> joined by blanks, \<open>%q\<close> quotes \<open>post_sign\<close> injectively, so
  the three printed parts stand for the text.
\<close>

type_synonym hook_key = "string \<times> string \<times> bool"

definition hookCmdKey :: "hooks_config \<Rightarrow> hook_key" where
  "hookCmdKey hooks = (join_with (CHR '' '') (h_PostSignCmd hooks), h_PostSign hooks, h_Shell hooks)"

record hook_job =
  j_hooks :: hooks_config
  j_outputDir :: string
  j_zones :: "signed_ref list"

record hook_backoff =
  b_attempts :: nat
  b_until :: gotime
  b_cmdKey :: hook_key

record hook_dispatcher =
  hd_queue :: "hook_job list"
  hd_active :: "hook_identity set"
  hd_backoff :: "(hook_identity, hook_backoff) gomap"
  hd_backoffBase :: duration
  hd_workers :: nat

definition newHookDispatcher :: hook_dispatcher where
  "newHookDispatcher = \<lparr>hd_queue = [], hd_active = {}, hd_backoff = [], hd_backoffBase = 0, hd_workers = 0\<rparr>"

definition queue_refs :: "hook_job list \<Rightarrow> signed_ref list" where
  "queue_refs q = concat (map j_zones q)"

definition older_than :: "signed_ref \<Rightarrow> signed_ref \<Rightarrow> bool" where
  "older_than z q \<longleftrightarrow> sr_Domain q = sr_Domain z \<and> sr_SignedAt q < sr_SignedAt z"

definition dropQueuedOlderLocked :: "signed_ref \<Rightarrow> hook_dispatcher \<Rightarrow> hook_dispatcher" where
  "dropQueuedOlderLocked z h =
     h\<lparr>hd_queue := filter (\<lambda>job. j_zones job \<noteq> []) (map (\<lambda>job. job\<lparr>j_zones := filter (\<lambda>q. \<not> older_than z q) (j_zones job)\<rparr>) (hd_queue h)),
       hd_active := hd_active h - identityOf ` set (filter (older_than z) (queue_refs (hd_queue h)))\<rparr>"

definition in_backoff :: "hook_dispatcher \<Rightarrow> hook_key \<Rightarrow> gotime \<Rightarrow> hook_identity \<Rightarrow> bool" where
  "in_backoff h cmdKey now i =
     (case map_of (hd_backoff h) i of None \<Rightarrow> False | Some b \<Rightarrow> b_cmdKey b = cmdKey \<and> now < b_until b)"

definition accept_ref ::
  "hook_key \<Rightarrow> gotime \<Rightarrow> signed_ref \<Rightarrow> hook_dispatcher \<times> signed_ref list \<Rightarrow> hook_dispatcher \<times> signed_ref list" where
  "accept_ref cmdKey now z = (\<lambda>(h, accepted).
     let i = identityOf z in
     if i \<in> hd_active h then (h, accepted)
     else if in_backoff h cmdKey now i then (h, accepted)
     else ((dropQueuedOlderLocked z h)\<lparr>hd_active := insert i (hd_active (dropQueuedOlderLocked z h))\<rparr>, accepted @ [z]))"

text \<open>The number of workers the loop at the end of \<open>dispatch\<close> starts.\<close>

definition started_workers :: "hook_dispatcher \<Rightarrow> nat" where
  "started_workers h = min hookMaxConcurrent (length (hd_queue h)) - hd_workers h"

text \<open>
  Enqueues what is neither active nor in backoff. The result is the number of zones accepted and
  the number of goroutines started.
\<close>

definition dispatch ::
  "hooks_config \<Rightarrow> string \<Rightarrow> signed_ref list \<Rightarrow> duration \<Rightarrow> gotime \<Rightarrow> hook_dispatcher \<Rightarrow> (nat \<times> nat) \<times> hook_dispatcher" where
  "dispatch hooks outputDir refs backoffBase now h =
     (if \<not> hookConfigured hooks \<or> refs = [] then ((0, 0), h)
      else
        let h0 = (if 0 < backoffBase then h\<lparr>hd_backoffBase := backoffBase\<rparr> else h);
            (h1, accepted) = fold (accept_ref (hookCmdKey hooks) now) refs (h0, []) in
        if accepted = [] then ((0, 0), h1)
        else
          let sorted = sort_key sr_Domain accepted;
              jobs = (if h_CoalescePostSign hooks then [\<lparr>j_hooks = hooks, j_outputDir = outputDir, j_zones = sorted\<rparr>]
                      else map (\<lambda>z. \<lparr>j_hooks = hooks, j_outputDir = outputDir, j_zones = [z]\<rparr>) sorted);
              h2 = h1\<lparr>hd_queue := hd_queue h1 @ jobs\<rparr>;
              n = started_workers h2 in
          ((length accepted, n), h2\<lparr>hd_workers := hd_workers h2 + n\<rparr>))"

definition purgeQueued :: "hook_dispatcher \<Rightarrow> hook_dispatcher" where
  "purgeQueued h = h\<lparr>hd_queue := [], hd_active := hd_active h - identityOf ` set (queue_refs (hd_queue h))\<rparr>"

definition queued :: "hook_dispatcher \<Rightarrow> nat" where
  "queued h = sum_list (map (\<lambda>job. length (j_zones job)) (hd_queue h))"

text \<open>The doubling loop of \<open>settle\<close>.\<close>

fun backoff_loop :: "nat \<Rightarrow> duration \<Rightarrow> duration" where
  "backoff_loop 0 delay = delay"
| "backoff_loop (Suc n) delay = (if delay < hookRetryBackoffMax then backoff_loop n (wrap64 (delay * 2)) else delay)"

definition backoff_delay :: "duration \<Rightarrow> nat \<Rightarrow> duration" where
  "backoff_delay base attempts =
     (let delay = backoff_loop (attempts - 1) (if base \<le> 0 then Second else base) in
      if hookRetryBackoffMax < delay then hookRetryBackoffMax else delay)"

definition settle_ref :: "hook_key \<Rightarrow> error option \<Rightarrow> gotime \<Rightarrow> signed_ref \<Rightarrow> hook_dispatcher \<Rightarrow> hook_dispatcher" where
  "settle_ref cmdKey err now z h =
     (let i = identityOf z; h = h\<lparr>hd_active := hd_active h - {i}\<rparr> in
      case err of None \<Rightarrow> h\<lparr>hd_backoff := AList.delete i (hd_backoff h)\<rparr>
      | Some _ \<Rightarrow>
          let attempts = Suc (case map_of (hd_backoff h) i of None \<Rightarrow> 0 | Some b \<Rightarrow> b_attempts b) in
          h\<lparr>hd_backoff := AList.update i \<lparr>b_attempts = attempts, b_until = now + backoff_delay (hd_backoffBase h) attempts,
              b_cmdKey = cmdKey\<rparr> (hd_backoff h)\<rparr>)"

definition settle :: "hooks_config \<Rightarrow> signed_ref list \<Rightarrow> error option \<Rightarrow> gotime \<Rightarrow> hook_dispatcher \<Rightarrow> hook_dispatcher" where
  "settle hooks zones err now h = fold (settle_ref (hookCmdKey hooks) err now) zones h"

section \<open>Workers\<close>

text \<open>
  A worker goroutine is at the head of its loop, runs the invocations of a job, or has reported the
  end of one and is about to settle it. The reports are the calls of the completion callback.
\<close>

datatype hook_worker =
    At_Loop
  | Running hook_job "hook_invocation list"
  | Settling hook_job hook_invocation "error option" "hook_invocation list"

record hook_system =
  hs_disp :: hook_dispatcher
  hs_workers :: "hook_worker multiset"
  hs_reports :: "(signed_ref list \<times> error option) list"

text \<open>
  What one goroutine does between two points where others may interleave: each locked section is
  one step, and so is the end of a hook process, whose outcome is arbitrary.
\<close>

inductive worker_step :: "string list \<Rightarrow> hook_system \<Rightarrow> hook_system \<Rightarrow> bool" for environ where
  take_job: "hs_workers s = add_mset At_Loop ws \<Longrightarrow> hd_queue (hs_disp s) = job # q \<Longrightarrow>
    worker_step environ s (s\<lparr>hs_disp := (hs_disp s)\<lparr>hd_queue := q\<rparr>,
      hs_workers := add_mset (Running job (buildHookInvocations environ (j_hooks job) (j_outputDir job) (j_zones job))) ws\<rparr>)"
| leave: "hs_workers s = add_mset At_Loop ws \<Longrightarrow> hd_queue (hs_disp s) = [] \<Longrightarrow>
    worker_step environ s (s\<lparr>hs_disp := (hs_disp s)\<lparr>hd_workers := hd_workers (hs_disp s) - 1\<rparr>, hs_workers := ws\<rparr>)"
| report: "hs_workers s = add_mset (Running job (iv # invs)) ws \<Longrightarrow>
    worker_step environ s (s\<lparr>hs_workers := add_mset (Settling job iv err invs) ws,
      hs_reports := hs_reports s @ [(iv_zones iv, err)]\<rparr>)"
| settle: "hs_workers s = add_mset (Settling job iv err invs) ws \<Longrightarrow>
    worker_step environ s (s\<lparr>hs_disp := settle (j_hooks job) (iv_zones iv) err now (hs_disp s),
      hs_workers := add_mset (Running job invs) ws\<rparr>)"
| panicked: "hs_workers s = add_mset (Running job (iv # invs)) ws \<Longrightarrow>
    worker_step environ s (s\<lparr>hs_disp := settle (j_hooks job) (j_zones job) (Some (Msg ''hook dispatch panicked'')) now (hs_disp s),
      hs_workers := add_mset At_Loop ws\<rparr>)"
| job_over: "hs_workers s = add_mset (Running job []) ws \<Longrightarrow>
    worker_step environ s (s\<lparr>hs_workers := add_mset At_Loop ws\<rparr>)"

inductive_cases worker_stepE: "worker_step environ s t"

inductive hook_step :: "string list \<Rightarrow> hook_system \<Rightarrow> hook_system \<Rightarrow> bool" for environ where
  by_worker: "worker_step environ s t \<Longrightarrow> hook_step environ s t"
| by_dispatch: "dispatch hooks outputDir refs base now (hs_disp s) = ((n, k), h) \<Longrightarrow>
    hook_step environ s (s\<lparr>hs_disp := h, hs_workers := hs_workers s + replicate_mset k At_Loop\<rparr>)"
| by_purge: "hook_step environ s (s\<lparr>hs_disp := purgeQueued (hs_disp s)\<rparr>)"

definition hook_start :: hook_system where
  "hook_start = \<lparr>hs_disp = newHookDispatcher, hs_workers = {#}, hs_reports = []\<rparr>"

section \<open>Single flight\<close>

text \<open>
  The identities a system has in hand: those queued and those a worker runs or settles. The
  invariant says that they are exactly the active ones and each is in hand once, that the counter
  counts the goroutines, which are at most \<open>hookMaxConcurrent\<close>, and that a queue is never
  left without a worker.
\<close>

definition inv_ids :: "hook_invocation list \<Rightarrow> hook_identity multiset" where
  "inv_ids invs = mset (map identityOf (concat (map iv_zones invs)))"

fun worker_ids :: "hook_worker \<Rightarrow> hook_identity multiset" where
  "worker_ids At_Loop = {#}"
| "worker_ids (Running job invs) = inv_ids invs"
| "worker_ids (Settling job iv err invs) = inv_ids (iv # invs)"

definition in_hand :: "hook_system \<Rightarrow> hook_identity multiset" where
  "in_hand s = mset (map identityOf (queue_refs (hd_queue (hs_disp s)))) + (\<Sum>w \<in># hs_workers s. worker_ids w)"

definition job_ok :: "hook_job \<Rightarrow> bool" where
  "job_ok job \<longleftrightarrow> j_zones job \<noteq> [] \<and> (h_CoalescePostSign (j_hooks job) \<or> length (j_zones job) = 1)"

text \<open>The one invocation of a job covers its zones.\<close>

fun worker_ok :: "hook_worker \<Rightarrow> bool" where
  "worker_ok At_Loop = True"
| "worker_ok (Running job invs) = (invs = [] \<or> (\<exists>iv. invs = [iv] \<and> iv_zones iv = j_zones job))"
| "worker_ok (Settling job iv err invs) = (invs = [] \<and> iv_zones iv = j_zones job)"

definition hook_inv :: "hook_system \<Rightarrow> bool" where
  "hook_inv s \<longleftrightarrow> finite (hd_active (hs_disp s)) \<and> in_hand s = mset_set (hd_active (hs_disp s)) \<and>
     hd_workers (hs_disp s) = size (hs_workers s) \<and> hd_workers (hs_disp s) \<le> hookMaxConcurrent \<and>
     (hd_queue (hs_disp s) \<noteq> [] \<longrightarrow> hs_workers s \<noteq> {#}) \<and>
     (\<forall>job \<in> set (hd_queue (hs_disp s)). job_ok job) \<and> (\<forall>w \<in># hs_workers s. worker_ok w)"

lemma built_invocations:
  assumes "job_ok job"
  shows "\<exists>iv. buildHookInvocations environ (j_hooks job) d (j_zones job) = [iv] \<and> iv_zones iv = j_zones job"
proof (cases "h_CoalescePostSign (j_hooks job)")
  case False
  with assms obtain z where "j_zones job = [z]" by (auto simp: job_ok_def length_Suc_conv)
  with False show ?thesis by (simp add: buildHookInvocations_def)
qed (simp add: buildHookInvocations_def)

lemma queue_refs_simps [simp]:
  "queue_refs [] = []" "queue_refs (job # q) = j_zones job @ queue_refs q" "queue_refs (p @ q) = queue_refs p @ queue_refs q"
  by (simp_all add: queue_refs_def)

text \<open>Removing some of the identities in hand.\<close>

lemma mset_set_split:
  assumes "finite A" "mset_set A = M + N"
  shows "M = mset_set (A - set_mset N)"
proof (rule multiset_eqI)
  fix x
  have "count (mset_set A) x = count M x + count N x" using assms(2) by simp
  then have "count M x + count N x = (if x \<in> A then 1 else 0)" using assms(1) by (simp add: count_mset_set')
  note c = this
  show "count M x = count (mset_set (A - set_mset N)) x"
  proof (cases "x \<in># N")
    case True
    then have "0 < count N x" by simp
    moreover have "count M x + count N x \<le> 1" using c by simp
    ultimately have "count M x = 0" by linarith
    with True show ?thesis using assms(1) by (simp add: count_mset_set')
  next
    case False
    then show ?thesis using c assms(1) by (simp add: count_mset_set' not_in_iff)
  qed
qed

lemma settle_frame:
  "hd_queue (settle hooks zs err now h) = hd_queue h" "hd_workers (settle hooks zs err now h) = hd_workers h"
  "hd_active (settle hooks zs err now h) = hd_active h - identityOf ` set zs"
  "hd_backoffBase (settle hooks zs err now h) = hd_backoffBase h"
proof -
  have "hd_queue (fold f zs h) = hd_queue h \<and> hd_workers (fold f zs h) = hd_workers h \<and>
      hd_active (fold f zs h) = hd_active h - identityOf ` set zs \<and> hd_backoffBase (fold f zs h) = hd_backoffBase h"
    if "f = settle_ref (hookCmdKey hooks) err now" for f
    unfolding that by (induction zs arbitrary: h) (auto simp: settle_ref_def Let_def split: option.splits)
  then show "hd_queue (settle hooks zs err now h) = hd_queue h" "hd_workers (settle hooks zs err now h) = hd_workers h"
    "hd_active (settle hooks zs err now h) = hd_active h - identityOf ` set zs"
    "hd_backoffBase (settle hooks zs err now h) = hd_backoffBase h"
    by (simp_all add: settle_def)
qed

lemma settle_in_hand:
  assumes "finite (hd_active h)" "mset_set (hd_active h) = M + mset (map identityOf zs)"
  shows "M = mset_set (hd_active (settle hooks zs err now h))"
  using mset_set_split [OF assms] by (simp add: settle_frame)

lemma worker_step_inv:
  assumes "worker_step environ s t" and "hook_inv s"
  shows "hook_inv t"
  using assms(1)
proof cases
  case (take_job ws job q)
  then have ok: "job_ok job" using assms(2) by (auto simp: hook_inv_def)
  from built_invocations [OF ok] obtain iv where
    "buildHookInvocations environ (j_hooks job) (j_outputDir job) (j_zones job) = [iv]" "iv_zones iv = j_zones job" by blast
  then show ?thesis using take_job assms(2) by (auto simp: hook_inv_def in_hand_def inv_ids_def ac_simps)
next
  case (leave ws)
  then show ?thesis using assms(2) by (auto simp: hook_inv_def in_hand_def)
next
  case (report job iv invs ws err)
  then show ?thesis using assms(2) by (auto simp: hook_inv_def in_hand_def inv_ids_def)
next
  case (settle job iv err invs ws now)
  then have "finite (hd_active (hs_disp s))" "in_hand t + mset (map identityOf (iv_zones iv)) = mset_set (hd_active (hs_disp s))"
    using assms(2) by (auto simp: hook_inv_def in_hand_def inv_ids_def settle_frame ac_simps)
  from settle_in_hand [OF this(1) this(2) [symmetric]] show ?thesis using settle assms(2) by (auto simp: hook_inv_def settle_frame)
next
  case (panicked job iv invs ws now)
  then have "invs = []" "iv_zones iv = j_zones job" using assms(2) by (auto simp: hook_inv_def)
  then have "finite (hd_active (hs_disp s))" "in_hand t + mset (map identityOf (j_zones job)) = mset_set (hd_active (hs_disp s))"
    using panicked assms(2) by (auto simp: hook_inv_def in_hand_def inv_ids_def settle_frame ac_simps)
  from settle_in_hand [OF this(1) this(2) [symmetric]] show ?thesis using panicked assms(2) by (auto simp: hook_inv_def settle_frame)
next
  case (job_over job ws)
  then show ?thesis using assms(2) by (auto simp: hook_inv_def in_hand_def inv_ids_def)
qed

text \<open>Dropping superseded generations.\<close>

lemma drop_refs: "queue_refs (hd_queue (dropQueuedOlderLocked z h)) = filter (\<lambda>q. \<not> older_than z q) (queue_refs (hd_queue h))"
proof -
  have "queue_refs (filter (\<lambda>job. j_zones job \<noteq> []) (map (\<lambda>job. job\<lparr>j_zones := filter P (j_zones job)\<rparr>) q)) = filter P (queue_refs q)" for P q
    by (induction q) auto
  then show ?thesis by (simp add: dropQueuedOlderLocked_def)
qed

lemma drop_jobs_ok:
  assumes "\<forall>job \<in> set (hd_queue h). job_ok job"
  shows "\<forall>job \<in> set (hd_queue (dropQueuedOlderLocked z h)). job_ok job"
proof
  fix job
  assume "job \<in> set (hd_queue (dropQueuedOlderLocked z h))"
  then obtain j where j: "j \<in> set (hd_queue h)" "job = j\<lparr>j_zones := filter (\<lambda>q. \<not> older_than z q) (j_zones j)\<rparr>" "j_zones job \<noteq> []"
    by (auto simp: dropQueuedOlderLocked_def)
  then have "h_CoalescePostSign (j_hooks j) \<or> length (j_zones j) = 1" using assms by (auto simp: job_ok_def)
  moreover have "length (j_zones job) \<le> length (j_zones j)" using j(2) by simp
  moreover have "length (j_zones job) \<noteq> 0" using j(3) by simp
  ultimately have "h_CoalescePostSign (j_hooks j) \<or> length (j_zones job) = 1" by linarith
  then show "job_ok job" using j(2,3) by (auto simp: job_ok_def simp del: length_0_conv)
qed

lemma drop_in_hand:
  assumes "finite (hd_active h)" "mset_set (hd_active h) = mset (map identityOf (queue_refs (hd_queue h))) + M"
  shows "mset_set (hd_active (dropQueuedOlderLocked z h)) = mset (map identityOf (queue_refs (hd_queue (dropQueuedOlderLocked z h)))) + M"
proof -
  let ?refs = "queue_refs (hd_queue h)"
  have "mset (map identityOf xs) = mset (map identityOf (filter (\<lambda>q. \<not> P q) xs)) + mset (map identityOf (filter P xs))" for P xs
    by (induction xs) auto
  from this [of ?refs "older_than z"] have "mset_set (hd_active h) = (mset (map identityOf (filter (\<lambda>q. \<not> older_than z q) ?refs)) + M) +
      mset (map identityOf (filter (older_than z) ?refs))" using assms(2) by (simp only: ac_simps)
  from mset_set_split [OF assms(1) this] show ?thesis by (simp add: drop_refs) (simp add: dropQueuedOlderLocked_def)
qed

text \<open>What the acceptance loop keeps: the identities in hand, with those accepted so far, are the active ones.\<close>

definition accepting :: "hook_identity multiset \<Rightarrow> hook_dispatcher \<Rightarrow> hook_dispatcher \<times> signed_ref list \<Rightarrow> bool" where
  "accepting M h0 = (\<lambda>(h, accepted). finite (hd_active h) \<and> (\<forall>job \<in> set (hd_queue h). job_ok job) \<and> hd_workers h = hd_workers h0 \<and>
     hd_backoff h = hd_backoff h0 \<and> (hd_queue h \<noteq> [] \<longrightarrow> hd_queue h0 \<noteq> []) \<and>
     mset_set (hd_active h) = mset (map identityOf (queue_refs (hd_queue h))) + (M + mset (map identityOf accepted)))"

lemma accept_ref_accepting:
  assumes "accepting M h0 (h, accepted)"
  shows "accepting M h0 (accept_ref cmdKey now z (h, accepted))"
proof (cases "identityOf z \<in> hd_active h \<or> in_backoff h cmdKey now (identityOf z)")
  case True
  then show ?thesis using assms by (auto simp: accept_ref_def Let_def)
next
  case False
  let ?d = "dropQueuedOlderLocked z h"
  have fin: "finite (hd_active h)" and eq: "mset_set (hd_active h) = mset (map identityOf (queue_refs (hd_queue h))) + (M + mset (map identityOf accepted))"
    and jobs: "\<forall>job \<in> set (hd_queue h). job_ok job" using assms by (simp_all add: accepting_def)
  note d = drop_in_hand [OF fin eq, of z]
  have "finite (hd_active ?d)" "identityOf z \<notin> hd_active ?d" using fin False by (simp_all add: dropQueuedOlderLocked_def)
  then have "mset_set (insert (identityOf z) (hd_active ?d)) = add_mset (identityOf z) (mset_set (hd_active ?d))" by simp
  moreover have "hd_workers ?d = hd_workers h" "hd_backoff ?d = hd_backoff h" "hd_queue ?d \<noteq> [] \<longrightarrow> hd_queue h \<noteq> []"
    by (auto simp: dropQueuedOlderLocked_def)
  ultimately show ?thesis using False assms d drop_jobs_ok [OF jobs] \<open>finite (hd_active ?d)\<close>
    by (auto simp: accept_ref_def accepting_def Let_def)
qed

lemma fold_accepting: "accepting M h0 s \<Longrightarrow> accepting M h0 (fold (accept_ref cmdKey now) refs s)"
proof (induction refs arbitrary: s)
  case (Cons z refs)
  then show ?case using accept_ref_accepting by (cases s) simp
qed simp

lemma dispatch_inv:
  assumes "dispatch hooks outputDir refs base now (hs_disp s) = ((n, k), h)" and "hook_inv s"
  shows "hook_inv (s\<lparr>hs_disp := h, hs_workers := hs_workers s + replicate_mset k At_Loop\<rparr>)"
proof (cases "hookConfigured hooks \<and> refs \<noteq> []")
  case False
  then show ?thesis using assms by (auto simp: dispatch_def)
next
  case True
  define h0 where "h0 = (if 0 < base then (hs_disp s)\<lparr>hd_backoffBase := base\<rparr> else hs_disp s)"
  obtain h1 acc where h1: "fold (accept_ref (hookCmdKey hooks) now) refs (h0, []) = (h1, acc)" by force
  define M where "M = (\<Sum>w \<in># hs_workers s. worker_ids w)"
  have "accepting M h0 (h0, [])"
    using assms(2) by (auto simp: accepting_def hook_inv_def in_hand_def M_def h0_def)
  then have acc: "accepting M h0 (h1, acc)" using fold_accepting h1 by metis
  have h0: "hd_workers h0 = hd_workers (hs_disp s)" "hd_queue h0 = hd_queue (hs_disp s)" by (simp_all add: h0_def)
  show ?thesis
  proof (cases "acc = []")
    case True
    then have "h = h1" "k = 0" using assms(1) \<open>hookConfigured hooks \<and> refs \<noteq> []\<close> h1 by (auto simp: dispatch_def h0_def)
    then show ?thesis using True acc assms(2) h0 by (auto simp: accepting_def hook_inv_def in_hand_def M_def)
  next
    case False
    define jobs where "jobs = (if h_CoalescePostSign hooks then [\<lparr>j_hooks = hooks, j_outputDir = outputDir, j_zones = sort_key sr_Domain acc\<rparr>]
      else map (\<lambda>z. \<lparr>j_hooks = hooks, j_outputDir = outputDir, j_zones = [z]\<rparr>) (sort_key sr_Domain acc))"
    have refs: "mset (map identityOf (queue_refs jobs)) = mset (map identityOf acc)"
      by (simp add: jobs_def queue_refs_def comp_def)
    have "sort_key sr_Domain acc \<noteq> []" using False by (metis length_0_conv length_sort)
    then have jobs: "\<forall>job \<in> set jobs. job_ok job" "jobs \<noteq> []" by (auto simp: jobs_def job_ok_def)
    have h: "h = h1\<lparr>hd_queue := hd_queue h1 @ jobs, hd_workers := hd_workers h1 + k\<rparr>" "k = started_workers (h1\<lparr>hd_queue := hd_queue h1 @ jobs\<rparr>)"
      using assms(1) \<open>hookConfigured hooks \<and> refs \<noteq> []\<close> h1 False by (auto simp: dispatch_def h0_def Let_def jobs_def)
    have w: "hd_workers h1 = size (hs_workers s)" "hd_workers h1 \<le> hookMaxConcurrent"
      using acc assms(2) h0 by (auto simp: accepting_def hook_inv_def)
    then have "hd_workers h1 + k \<le> hookMaxConcurrent" "0 < hd_workers h1 + k"
      using h(2) jobs(2) by (auto simp: started_workers_def hookMaxConcurrent_def)
    moreover have "in_hand (s\<lparr>hs_disp := h, hs_workers := hs_workers s + replicate_mset k At_Loop\<rparr>) = mset_set (hd_active h)"
      using acc refs by (simp add: in_hand_def h(1) accepting_def M_def image_replicate_mset ac_simps)
    ultimately show ?thesis using w acc assms(2) jobs h(1) by (auto simp: hook_inv_def accepting_def)
  qed
qed

lemma purge_inv:
  assumes "hook_inv s"
  shows "hook_inv (s\<lparr>hs_disp := purgeQueued (hs_disp s)\<rparr>)"
proof -
  let ?h = "hs_disp s"
  have "mset_set (hd_active ?h) = (\<Sum>w \<in># hs_workers s. worker_ids w) + mset (map identityOf (queue_refs (hd_queue ?h)))"
    using assms by (simp add: hook_inv_def in_hand_def ac_simps)
  from mset_set_split [OF _ this] have "(\<Sum>w \<in># hs_workers s. worker_ids w) = mset_set (hd_active (purgeQueued ?h))"
    using assms by (simp add: hook_inv_def purgeQueued_def)
  then show ?thesis using assms by (simp add: hook_inv_def in_hand_def) (simp add: purgeQueued_def)
qed

lemma hook_start_inv: "hook_inv hook_start"
  by (simp add: hook_inv_def hook_start_def newHookDispatcher_def in_hand_def)

theorem hook_reachable_inv:
  assumes "(hook_step environ)\<^sup>*\<^sup>* s t" and "hook_inv s"
  shows "hook_inv t"
  using assms
proof (induction rule: rtranclp_induct)
  case (step t u)
  then show ?case using worker_step_inv dispatch_inv purge_inv by (metis hook_step.cases)
qed

text \<open>What the invariant says of the generations in hand: none is queued or running twice.\<close>

lemma single_flight:
  assumes "hook_inv s"
  shows "count (in_hand s) i \<le> 1" "i \<in># in_hand s \<longleftrightarrow> i \<in> hd_active (hs_disp s)"
  using assms by (auto simp: hook_inv_def count_mset_set')

section \<open>Draining\<close>

text \<open>
  Left to themselves the workers finish: every step of theirs lowers a measure, and when none is
  possible nothing is queued, running or active.
\<close>

fun worker_work :: "hook_worker \<Rightarrow> nat" where
  "worker_work At_Loop = 1"
| "worker_work (Running job invs) = 2 + 2 * length invs"
| "worker_work (Settling job iv err invs) = 3 + 2 * length invs"

definition job_work :: "hook_job \<Rightarrow> nat" where
  "job_work job = 4 + 2 * length (j_zones job)"

definition work_left :: "hook_system \<Rightarrow> nat" where
  "work_left s = sum_list (map job_work (hd_queue (hs_disp s))) + (\<Sum>w \<in># hs_workers s. worker_work w)"

lemma worker_step_work: "worker_step environ s t \<Longrightarrow> work_left t < work_left s"
  by (induction rule: worker_step.induct) (auto simp: work_left_def job_work_def settle_frame buildHookInvocations_def)

theorem workers_terminate: "wfp (\<lambda>t s. worker_step environ s t)"
  by (rule wfp_if_convertible_to_nat [of _ work_left]) (rule worker_step_work)

theorem drained_when_idle:
  assumes "hook_inv s" and "\<And>t. \<not> worker_step environ s t"
  shows "hs_workers s = {#}" "hd_queue (hs_disp s) = []" "hd_active (hs_disp s) = {}"
proof -
  show none: "hs_workers s = {#}"
  proof (rule ccontr)
    assume "hs_workers s \<noteq> {#}"
    then obtain w ws where w: "hs_workers s = add_mset w ws" using multiset_cases by blast
    show False
    proof (cases w)
      case At_Loop
      then show False using assms(2) w worker_step.take_job worker_step.leave by (metis neq_Nil_conv)
    next
      case (Running job invs)
      then show False using assms(2) w worker_step.report worker_step.job_over by (metis neq_Nil_conv)
    next
      case (Settling job iv err invs)
      then show False using assms(2) w worker_step.settle by metis
    qed
  qed
  then show q: "hd_queue (hs_disp s) = []" using assms(1) by (auto simp: hook_inv_def)
  show "hd_active (hs_disp s) = {}" using assms(1) none q by (simp add: hook_inv_def in_hand_def) (metis mset_set_empty_iff infinite_super subset_refl)
qed

section \<open>Backoff\<close>

text \<open>The delay doubles per failure of the same generation and stops at one hour.\<close>

lemma backoff_loop_exact:
  "0 < d \<Longrightarrow> d < 2 * hookRetryBackoffMax \<Longrightarrow>
   min (backoff_loop n d) hookRetryBackoffMax = min (d * 2 ^ n) hookRetryBackoffMax"
proof (induction n arbitrary: d)
  case (Suc n)
  show ?case
  proof (cases "d < hookRetryBackoffMax")
    case True
    then have "wrap64 (d * 2) = d * 2" using Suc.prems by (intro wrap64_id) (simp_all add: hookRetryBackoffMax_def Hour_def Minute_def Second_def)
    then show ?thesis using Suc.IH [of "d * 2"] True Suc.prems by (simp add: mult.assoc)
  next
    case False
    have "(1 :: int) \<le> 2 ^ Suc n" by (rule one_le_power) simp
    then have "d * 1 \<le> d * 2 ^ Suc n" using Suc.prems by (intro mult_left_mono) simp_all
    then show ?thesis using False by simp
  qed
qed simp

theorem backoff_delay_exact:
  "backoff_delay base attempts = min ((if base \<le> 0 then Second else base) * 2 ^ (attempts - 1)) hookRetryBackoffMax"
proof -
  let ?d = "if base \<le> 0 then Second else base"
  have pos: "0 < ?d" by (simp add: Second_def)
  have "min (backoff_loop (attempts - 1) ?d) hookRetryBackoffMax = min (?d * 2 ^ (attempts - 1)) hookRetryBackoffMax"
  proof (cases "?d < 2 * hookRetryBackoffMax")
    case False
    have big: "hookRetryBackoffMax \<le> ?d" using False pos by simp
    then have "backoff_loop (attempts - 1) ?d = ?d" by (cases "attempts - 1") simp_all
    moreover have "?d * 1 \<le> ?d * 2 ^ (attempts - 1)" using pos by (intro mult_left_mono) simp_all
    ultimately show ?thesis using big by linarith
  qed (use pos backoff_loop_exact in blast)
  then show ?thesis by (simp add: backoff_delay_def Let_def min_def split: if_splits)
qed

end
