(* ===== verification/Window_Limiter.thy ===== *)
theory Window_Limiter
  imports Signer_Config
begin

text \<open>
  The rolling-window limiter of the registrar client
  (\<open>src/signer/internal/registrar/registrar_ratelimit.go\<close>). Callers interleave at the
  locked sections of \<open>gate\<close>; the history of all admissions is kept beside the limiter, and the
  quota, the reserve and the spacing are shown of every history.
\<close>

definition Millisecond :: duration where "Millisecond = 1000000"
definition dynadotWindow :: duration where "dynadotWindow = Minute"
definition dynadotQuota :: int where "dynadotQuota = 60"
definition dynadotRecoveryReserve :: int where "dynadotRecoveryReserve = 10"

record window_limiter =
  wl_window :: duration
  wl_quota :: int
  wl_reserve :: int
  wl_admitted :: "gotime list"

definition newWindowLimiter :: window_limiter where
  "newWindowLimiter = \<lparr>wl_window = dynadotWindow, wl_quota = dynadotQuota, wl_reserve = dynadotRecoveryReserve, wl_admitted = []\<rparr>"

definition tierDelay :: "nat \<Rightarrow> duration" where
  "tierDelay count = (if count < 20 then 100 * Millisecond else if count < 40 then 500 * Millisecond else 2 * Second)"

definition prune :: "gotime \<Rightarrow> window_limiter \<Rightarrow> window_limiter" where
  "prune now l = l\<lparr>wl_admitted := dropWhile (\<lambda>t. t \<le> now - wl_window l) (wl_admitted l)\<rparr>"

definition admissionsInWindow :: "gotime \<Rightarrow> window_limiter \<Rightarrow> nat \<times> window_limiter" where
  "admissionsInWindow now l = (length (wl_admitted (prune now l)), prune now l)"

definition gate_limit :: "bool \<Rightarrow> window_limiter \<Rightarrow> int" where
  "gate_limit recovery l = (if recovery then wl_quota l else wl_quota l - wl_reserve l)"

text \<open>How long the caller has to wait, computed under the lock after pruning.\<close>

definition gate_wait :: "bool \<Rightarrow> gotime \<Rightarrow> window_limiter \<Rightarrow> duration" where
  "gate_wait recovery now l =
     (let limit = gate_limit recovery l; n = length (wl_admitted l);
          w = (if limit \<le> int n \<and> 0 < limit then time_sub (wl_admitted l ! nat (int n - limit) + wl_window l) now else 0);
          gap = wrap64 (tierDelay n - time_sub now (last (wl_admitted l))) in
      if 0 < n \<and> w < gap then gap else w)"

text \<open>The locked section of one round of the loop: the wait, or an admission when none is due.\<close>

definition gate_round :: "bool \<Rightarrow> gotime \<Rightarrow> window_limiter \<Rightarrow> duration option \<times> window_limiter" where
  "gate_round recovery now l =
     (let l = prune now l; w = gate_wait recovery now l in
      if w \<le> 0 then (None, l\<lparr>wl_admitted := wl_admitted l @ [now]\<rparr>) else (Some w, l))"

text \<open>
  A whole call by a caller that is alone: the context may be cancelled at any look, a sleep lasts
  at least what was asked for. \<open>cancelled\<close> and \<open>oversleep\<close> are read once per round;
  \<open>None\<close> is a loop that has not ended after the given number of rounds.
\<close>

fun gate :: "nat \<Rightarrow> (nat \<Rightarrow> bool) \<Rightarrow> (nat \<Rightarrow> duration) \<Rightarrow> bool \<Rightarrow> gotime \<Rightarrow> window_limiter \<Rightarrow> ((error + unit) \<times> gotime \<times> window_limiter) option" where
  "gate 0 cancelled oversleep recovery now l = None"
| "gate (Suc fuel) cancelled oversleep recovery now l =
     (if cancelled 0 then Some (Inl (Msg ''context canceled''), now, l)
      else case gate_round recovery now l of
        (None, l') \<Rightarrow> Some (Inr (), now, l')
      | (Some w, l') \<Rightarrow>
          if cancelled 1 then Some (Inl (Msg ''context canceled''), now, l')
          else gate fuel (\<lambda>i. cancelled (i + 2)) (\<lambda>i. oversleep (i + 1)) recovery (now + w + oversleep 0) l')"

section \<open>Every history\<close>

text \<open>
  The system: the limiter, the current time and all admissions so far, each with whether it was
  recovery work. Any caller may run a round at any moment; time does not go back.
\<close>

record limiter_system =
  ls_limiter :: window_limiter
  ls_now :: gotime
  ls_history :: "(gotime \<times> bool) list"

inductive limiter_step :: "limiter_system \<Rightarrow> limiter_system \<Rightarrow> bool" where
  pass_time: "ls_now s \<le> t \<Longrightarrow> limiter_step s (s\<lparr>ls_now := t\<rparr>)"
| admit: "gate_round recovery (ls_now s) (ls_limiter s) = (None, l) \<Longrightarrow>
    limiter_step s (s\<lparr>ls_limiter := l, ls_history := ls_history s @ [(ls_now s, recovery)]\<rparr>)"
| told_to_wait: "gate_round recovery (ls_now s) (ls_limiter s) = (Some w, l) \<Longrightarrow> limiter_step s (s\<lparr>ls_limiter := l\<rparr>)"
| look: "admissionsInWindow (ls_now s) (ls_limiter s) = (n, l) \<Longrightarrow> limiter_step s (s\<lparr>ls_limiter := l\<rparr>)"

inductive_cases limiter_stepE: "limiter_step s t"

definition limiter_start :: "gotime \<Rightarrow> limiter_system" where
  "limiter_start now = \<lparr>ls_limiter = newWindowLimiter, ls_now = now, ls_history = []\<rparr>"

text \<open>
  The promise: any sixty-one consecutive admissions span a minute at least, an ordinary request is
  admitted only when the last fifty admissions do, and any two are at least 100ms apart.
\<close>

definition spaced :: "(gotime \<times> bool) list \<Rightarrow> bool" where
  "spaced h \<longleftrightarrow>
     (\<forall>i j. i + 60 = j \<and> j < length h \<longrightarrow> fst (h ! i) + Minute \<le> fst (h ! j)) \<and>
     (\<forall>i j. i + 50 = j \<and> j < length h \<and> \<not> snd (h ! j) \<longrightarrow> fst (h ! i) + Minute \<le> fst (h ! j)) \<and>
     (\<forall>i. Suc i < length h \<longrightarrow> fst (h ! i) + 100 * Millisecond \<le> fst (h ! Suc i))"

definition limiter_inv :: "limiter_system \<Rightarrow> bool" where
  "limiter_inv s \<longleftrightarrow> spaced (ls_history s) \<and>
     wl_window (ls_limiter s) = Minute \<and> wl_quota (ls_limiter s) = 60 \<and> wl_reserve (ls_limiter s) = 10 \<and>
     (\<exists>gone. map fst (ls_history s) = gone @ wl_admitted (ls_limiter s) \<and> (\<forall>t \<in> set gone. t \<le> ls_now s - Minute)) \<and>
     (\<forall>t \<in> fst ` set (ls_history s). t \<le> ls_now s)"

lemma time_sub_pos: "time_sub a b \<le> 0 \<longleftrightarrow> a \<le> b"
  by (auto simp: time_sub_def max_duration_def min_duration_def)

lemma time_sub_bounds: "b \<le> a \<Longrightarrow> 0 \<le> time_sub a b \<and> time_sub a b \<le> a - b \<and> time_sub a b < 2 ^ 63"
  by (auto simp: time_sub_def max_duration_def min_duration_def)

lemma tierDelay_bounds: "100 * Millisecond \<le> tierDelay n" "tierDelay n \<le> 2 * Second" "m \<le> n \<Longrightarrow> tierDelay m \<le> tierDelay n"
  by (auto simp: tierDelay_def Millisecond_def Second_def)

lemma gap_exact:
  assumes "last as \<le> now"
  shows "wrap64 (tierDelay n - time_sub now (last as)) = tierDelay n - time_sub now (last as)"
  using time_sub_bounds [OF assms] tierDelay_bounds(1,2) [of n]
  by (intro wrap64_id) (auto simp: Millisecond_def Second_def)

text \<open>No wait is due exactly when the window has room and the last admission is far enough back.\<close>

lemma gate_wait_none:
  assumes "\<forall>t \<in> set (wl_admitted l). t \<le> now" and "0 < gate_limit recovery l"
  shows "gate_wait recovery now l \<le> 0 \<longleftrightarrow>
    (\<forall>i. int i = int (length (wl_admitted l)) - gate_limit recovery l \<longrightarrow> wl_admitted l ! i + wl_window l \<le> now) \<and>
    (wl_admitted l \<noteq> [] \<longrightarrow> tierDelay (length (wl_admitted l)) \<le> time_sub now (last (wl_admitted l)))"
proof -
  let ?as = "wl_admitted l"
  let ?w = "if gate_limit recovery l \<le> int (length ?as) \<and> 0 < gate_limit recovery l
    then time_sub (?as ! nat (int (length ?as) - gate_limit recovery l) + wl_window l) now else 0"
  have w: "?w \<le> 0 \<longleftrightarrow> (\<forall>i. int i = int (length ?as) - gate_limit recovery l \<longrightarrow> ?as ! i + wl_window l \<le> now)"
  proof (cases "gate_limit recovery l \<le> int (length ?as)")
    case True
    then have "int i = int (length ?as) - gate_limit recovery l \<longleftrightarrow> i = nat (int (length ?as) - gate_limit recovery l)" for i by linarith
    then show ?thesis using True assms(2) by (simp add: time_sub_pos)
  next
    case False
    then have "int i \<noteq> int (length ?as) - gate_limit recovery l" for i by linarith
    then show ?thesis using False by simp
  qed
  have g: "?as \<noteq> [] \<Longrightarrow> wrap64 (tierDelay (length ?as) - time_sub now (last ?as)) = tierDelay (length ?as) - time_sub now (last ?as)"
    using assms(1) by (intro gap_exact) simp
  show ?thesis unfolding gate_wait_def Let_def w [symmetric] using g by (cases "?as = []") auto
qed

lemma spaced_append:
  assumes "spaced h" and "60 \<le> length h \<Longrightarrow> fst (h ! (length h - 60)) + Minute \<le> now"
    and "\<not> rec \<Longrightarrow> 50 \<le> length h \<Longrightarrow> fst (h ! (length h - 50)) + Minute \<le> now"
    and "h \<noteq> [] \<Longrightarrow> fst (last h) + 100 * Millisecond \<le> now"
  shows "spaced (h @ [(now, rec)])"
proof -
  show ?thesis unfolding spaced_def
  proof (intro conjI allI impI)
    fix i j
    assume ij: "i + 60 = j \<and> j < length (h @ [(now, rec)])"
    then have "j = length h \<Longrightarrow> length h - 60 = i" by auto
    with ij show "fst ((h @ [(now, rec)]) ! i) + Minute \<le> fst ((h @ [(now, rec)]) ! j)"
      using assms(1,2) by (cases "j = length h") (auto simp: spaced_def nth_append)
  next
    fix i j
    assume ij: "i + 50 = j \<and> j < length (h @ [(now, rec)]) \<and> \<not> snd ((h @ [(now, rec)]) ! j)"
    then have "j = length h \<Longrightarrow> length h - 50 = i" by auto
    with ij show "fst ((h @ [(now, rec)]) ! i) + Minute \<le> fst ((h @ [(now, rec)]) ! j)"
      using assms(1,3) by (cases "j = length h") (auto simp: spaced_def nth_append)
  next
    fix i
    assume i: "Suc i < length (h @ [(now, rec)])"
    then have "Suc i = length h \<Longrightarrow> length h - Suc 0 = i \<and> h \<noteq> []" by auto
    with i show "fst ((h @ [(now, rec)]) ! i) + 100 * Millisecond \<le> fst ((h @ [(now, rec)]) ! Suc i)"
      using assms(1,4) by (cases "Suc i = length h") (auto simp: spaced_def nth_append last_conv_nth)
  qed
qed

lemma prune_inv:
  assumes "limiter_inv s"
  shows "limiter_inv (s\<lparr>ls_limiter := prune (ls_now s) (ls_limiter s)\<rparr>)"
proof -
  let ?P = "\<lambda>t. t \<le> ls_now s - Minute"
  obtain gone where g: "map fst (ls_history s) = gone @ wl_admitted (ls_limiter s)" "\<forall>t \<in> set gone. ?P t"
    using assms by (auto simp: limiter_inv_def)
  have "map fst (ls_history s) = (gone @ takeWhile ?P (wl_admitted (ls_limiter s))) @ dropWhile ?P (wl_admitted (ls_limiter s))"
    using g(1) by simp
  moreover have "\<forall>t \<in> set (gone @ takeWhile ?P (wl_admitted (ls_limiter s))). ?P t"
    using g(2) by (auto dest: set_takeWhileD)
  ultimately show ?thesis using assms unfolding limiter_inv_def prune_def by (simp, metis)
qed

lemma spaced_mono: "spaced h \<Longrightarrow> i + d < length h \<Longrightarrow> fst (h ! i) \<le> fst (h ! (i + d))"
proof (induction d)
  case (Suc d)
  then have "fst (h ! (i + d)) + 100 * Millisecond \<le> fst (h ! Suc (i + d))" by (simp add: spaced_def)
  then show ?case using Suc by (simp add: Millisecond_def)
qed simp

text \<open>The admission \<open>k\<close> places back is outside the window, whether it is still listed or not.\<close>

lemma listed_or_gone:
  assumes "map fst h = gone @ as" "\<forall>t \<in> set gone. t \<le> now - Minute" "0 < k" "k \<le> length h"
    and "\<forall>i. int i = int (length as) - int k \<longrightarrow> as ! i + Minute \<le> now"
  shows "fst (h ! (length h - k)) + Minute \<le> now"
proof -
  have len: "length h = length gone + length as" using arg_cong [OF assms(1), of length] by simp
  have nth: "fst (h ! (length h - k)) = (gone @ as) ! (length h - k)"
    using assms(1,3,4) by (metis diff_less nth_map order_less_le_trans)
  show ?thesis
  proof (cases "length as < k")
    case True
    then have "length h - k < length gone" using len assms(4) by simp
    then show ?thesis using nth assms(2) by (fastforce simp: nth_append dest: nth_mem)
  next
    case False
    then have "length h - k = length gone + (length as - k)" using len by simp
    then have "(gone @ as) ! (length h - k) = as ! (length as - k)" by simp
    moreover have "int (length as - k) = int (length as) - int k" using False by simp
    ultimately show ?thesis using nth assms(5) by metis
  qed
qed

lemma admit_inv:
  assumes "gate_round recovery (ls_now s) (ls_limiter s) = (None, l)" and "limiter_inv s"
  shows "limiter_inv (s\<lparr>ls_limiter := l, ls_history := ls_history s @ [(ls_now s, recovery)]\<rparr>)"
proof -
  let ?l = "prune (ls_now s) (ls_limiter s)" and ?now = "ls_now s" and ?h = "ls_history s"
  let ?as = "wl_admitted ?l"
  have l: "gate_wait recovery ?now ?l \<le> 0" "l = ?l\<lparr>wl_admitted := ?as @ [?now]\<rparr>"
    using assms(1) by (auto simp: gate_round_def Let_def split: if_splits)
  have inv: "limiter_inv (s\<lparr>ls_limiter := ?l\<rparr>)" by (rule prune_inv [OF assms(2)])
  then obtain gone where g: "map fst ?h = gone @ ?as" "\<forall>t \<in> set gone. t \<le> ?now - Minute" by (auto simp: limiter_inv_def)
  have par: "wl_window ?l = Minute" "gate_limit recovery ?l = (if recovery then 60 else 50)"
    using inv by (auto simp: limiter_inv_def gate_limit_def)
  have upto: "\<forall>t \<in> set (gone @ ?as). t \<le> ?now" unfolding g(1) [symmetric] using inv by (auto simp: limiter_inv_def)
  have free: "\<forall>i. int i = int (length ?as) - (if recovery then 60 else 50) \<longrightarrow> ?as ! i + Minute \<le> ?now"
    "?as \<noteq> [] \<longrightarrow> tierDelay (length ?as) \<le> time_sub ?now (last ?as)"
    using gate_wait_none [of ?l ?now recovery] l(1) upto par by auto
  have "spaced (?h @ [(?now, recovery)])"
  proof (rule spaced_append)
    show "spaced ?h" using assms(2) by (simp add: limiter_inv_def)
    have fifty: "fst (?h ! (length ?h - 50)) + Minute \<le> ?now" if "\<not> recovery" "50 \<le> length ?h"
      using listed_or_gone [OF g, of 50] free(1) that by simp
    then show "\<not> recovery \<Longrightarrow> 50 \<le> length ?h \<Longrightarrow> fst (?h ! (length ?h - 50)) + Minute \<le> ?now" .
    show "fst (?h ! (length ?h - 60)) + Minute \<le> ?now" if "60 \<le> length ?h"
    proof (cases recovery)
      case True
      then show ?thesis using listed_or_gone [OF g, of 60] free(1) that by simp
    next
      case False
      have "fst (?h ! (length ?h - 60)) \<le> fst (?h ! (length ?h - 60 + 10))"
        by (rule spaced_mono) (use assms(2) that in \<open>simp_all add: limiter_inv_def\<close>)
      moreover have "length ?h - 60 + 10 = length ?h - 50" using that by simp
      ultimately show ?thesis using fifty False that by simp
    qed
    show "fst (last ?h) + 100 * Millisecond \<le> ?now" if "?h \<noteq> []"
    proof (cases "?as = []")
      case True
      then have "fst (last ?h) \<in> set gone" using g(1) that by (metis append_Nil2 last_in_set last_map map_is_Nil_conv)
      then show ?thesis using g(2) by (auto simp: Millisecond_def Minute_def Second_def)
    next
      case False
      then have "fst (last ?h) = last ?as" using g(1) that by (metis last_append last_map)
      moreover have "last ?as \<le> ?now" using upto False by simp
      ultimately show ?thesis using free(2) False time_sub_bounds tierDelay_bounds(1) [of "length ?as"] by force
    qed
  qed
  moreover have "map fst (?h @ [(?now, recovery)]) = gone @ (?as @ [?now])" using g(1) by simp
  ultimately show ?thesis using inv g(2) l(2) by (auto simp: limiter_inv_def)
qed

theorem limiter_reachable_inv:
  assumes "limiter_step\<^sup>*\<^sup>* s t" and "limiter_inv s"
  shows "limiter_inv t"
  using assms
proof (induction rule: rtranclp_induct)
  case (step t u)
  then have inv: "limiter_inv t" by simp
  from step.hyps(2) show ?case
  proof cases
    case (pass_time now)
    then show ?thesis using inv by (force simp: limiter_inv_def)
  next
    case (admit recovery l)
    then show ?thesis using admit_inv inv by simp
  next
    case (told_to_wait recovery w l)
    then show ?thesis using prune_inv [OF inv] by (auto simp: gate_round_def Let_def split: if_splits)
  next
    case (look n l)
    then show ?thesis using prune_inv [OF inv] by (auto simp: admissionsInWindow_def)
  qed
qed simp

lemma limiter_start_inv: "limiter_inv (limiter_start now)"
  by (simp add: limiter_inv_def limiter_start_def newWindowLimiter_def spaced_def dynadotWindow_def dynadotQuota_def dynadotRecoveryReserve_def)

section \<open>A lone caller is admitted\<close>

lemma gate_wait_lower:
  assumes "\<forall>t \<in> set (wl_admitted l). t \<le> now" and "0 < gate_limit recovery l" and "wl_window l \<le> max_duration"
  shows "int i = int (length (wl_admitted l)) - gate_limit recovery l \<Longrightarrow> wl_admitted l ! i + wl_window l \<le> now + gate_wait recovery now l"
    and "wl_admitted l \<noteq> [] \<Longrightarrow> tierDelay (length (wl_admitted l)) - time_sub now (last (wl_admitted l)) \<le> gate_wait recovery now l"
proof -
  let ?as = "wl_admitted l" and ?k = "gate_limit recovery l"
  let ?w = "if ?k \<le> int (length ?as) \<and> 0 < ?k then time_sub (?as ! nat (int (length ?as) - ?k) + wl_window l) now else 0"
  have ge: "?w \<le> gate_wait recovery now l" unfolding gate_wait_def Let_def by simp
  show "?as ! i + wl_window l \<le> now + gate_wait recovery now l" if i: "int i = int (length ?as) - ?k"
  proof -
    have ix: "nat (int (length ?as) - ?k) = i" "i < length ?as" using i assms(2) by linarith+
    then have "?as ! i \<le> now" using assms(1) nth_mem by blast
    then have "?as ! i + wl_window l - now \<le> max_duration" using assms(3) by linarith
    then have "?as ! i + wl_window l - now \<le> time_sub (?as ! i + wl_window l) now" by (simp add: time_sub_def)
    moreover have "?w = time_sub (?as ! i + wl_window l) now" using ix i assms(2) by simp
    ultimately show ?thesis using ge by linarith
  qed
  show "tierDelay (length ?as) - time_sub now (last ?as) \<le> gate_wait recovery now l" if "?as \<noteq> []"
  proof -
    have "wrap64 (tierDelay (length ?as) - time_sub now (last ?as)) = tierDelay (length ?as) - time_sub now (last ?as)"
      using assms(1) that by (intro gap_exact) simp
    then show ?thesis using that unfolding gate_wait_def Let_def by (simp add: not_less)
  qed
qed

text \<open>After the wait it was given, a caller that nobody overtook is admitted.\<close>

lemma second_round_admits:
  assumes "gate_round recovery now l = (Some w, l')" and "now + w \<le> now'"
    and "\<forall>t \<in> set (wl_admitted l). t \<le> now" and "0 < gate_limit recovery l" and "wl_window l \<le> max_duration"
  shows "\<exists>l''. gate_round recovery now' l' = (None, l'')"
proof -
  have l': "l' = prune now l" "w = gate_wait recovery now l'" "0 < w"
    using assms(1) by (auto simp: gate_round_def Let_def split: if_splits)
  let ?as = "wl_admitted l'" and ?l2 = "prune now' l'"
  let ?bs = "wl_admitted ?l2"
  have par: "gate_limit recovery l' = gate_limit recovery l" "gate_limit recovery ?l2 = gate_limit recovery l"
    "wl_window l' = wl_window l" "wl_window ?l2 = wl_window l" by (simp_all add: l' prune_def gate_limit_def)
  have past: "\<forall>t \<in> set ?as. t \<le> now" using assms(3) set_dropWhileD by (fastforce simp: l' prune_def)
  have "wl_admitted ?l2 = dropWhile (\<lambda>t. t \<le> now' - wl_window l') ?as" by (simp add: prune_def)
  then obtain cs where cs: "?as = cs @ ?bs" using takeWhile_dropWhile_id by metis
  have sub: "set ?bs \<subseteq> set ?as" using cs by (metis set_append Un_upper2)
  have past2: "\<forall>t \<in> set ?bs. t \<le> now'"
  proof
    fix t
    assume "t \<in> set ?bs"
    then have "t \<le> now" using past sub by blast
    then show "t \<le> now'" using assms(2) l'(3) by linarith
  qed
  note low = gate_wait_lower [OF past, of recovery, unfolded par, OF assms(4,5), folded l'(2)]
  have "gate_wait recovery now' ?l2 \<le> 0"
    unfolding gate_wait_none [OF past2, of recovery, unfolded par, OF assms(4)]
  proof (intro conjI allI impI)
    fix i
    assume i: "int i = int (length ?bs) - gate_limit recovery l"
    then have "int (length cs + i) = int (length ?as) - gate_limit recovery l" using arg_cong [OF cs, of length] by simp
    from low(1) [OF this] have "?as ! (length cs + i) + wl_window l \<le> now'" using assms(2) by linarith
    then show "?bs ! i + wl_window l \<le> now'" using cs by (metis nth_append_length_plus)
  next
    assume ne: "?bs \<noteq> []"
    then have last: "last ?bs = last ?as" "?as \<noteq> []" using cs by (metis last_appendR) (use ne cs in auto)
    have "tierDelay (length ?bs) \<le> tierDelay (length ?as)" using arg_cong [OF cs, of length] by (intro tierDelay_bounds(3)) simp
    moreover have "tierDelay (length ?as) \<le> max_duration"
      using tierDelay_bounds(2) [of "length ?as"] by (simp add: Second_def max_duration_def)
    moreover have "time_sub now (last ?as) \<le> now - last ?as" using past last time_sub_bounds by simp
    ultimately show "tierDelay (length ?bs) \<le> time_sub now' (last ?bs)"
      using low(2) [OF last(2)] assms(2) last(1) by (auto simp: time_sub_def)
  qed
  then show ?thesis by (simp add: gate_round_def Let_def)
qed

theorem gate_admits:
  assumes "\<forall>t \<in> set (wl_admitted l). t \<le> now" and "0 < gate_limit recovery l" and "wl_window l \<le> max_duration"
    and "\<And>i. 0 \<le> oversleep i" and "2 \<le> fuel"
  shows "\<exists>now' l'. gate fuel (\<lambda>i. False) oversleep recovery now l = Some (Inr (), now', l') \<and> now \<le> now'"
proof -
  obtain f where fuel: "fuel = Suc (Suc f)" using assms(5) by (cases fuel; cases "fuel - 1") auto
  obtain r l' where r: "gate_round recovery now l = (r, l')" by force
  show ?thesis
  proof (cases r)
    case (Some w)
    then have w: "0 < w" using r by (auto simp: gate_round_def Let_def split: if_splits)
    have "now + w \<le> now + w + oversleep 0" using assms(4) [of 0] by simp
    from second_round_admits [OF r [unfolded Some] this assms(1-3)] obtain l'' where
      "gate_round recovery (now + w + oversleep 0) l' = (None, l'')" by blast
    then show ?thesis using fuel r Some w assms(4) [of 0] by simp
  qed (use fuel r in simp)
qed

end
