(* ===== verification/Rate_Limit.thy ===== *)
theory Rate_Limit
  imports Go_Net
begin

text \<open>
  The request limiter of the validator service (\<open>src/validator/ratelimit.go\<close>): token buckets
  per client address in a map of bounded size, and the attribution of a request to a client behind
  trusted proxies. Token counts are \<open>float64\<close> values, rounded by \<open>f64\<close>.
\<close>

section \<open>Token buckets\<close>

record token_bucket =
  tb_tokens :: rat
  tb_lastCheck :: gotime

record rate_limiter =
  rl_limiters :: "(string, token_bucket) gomap"
  rl_rate :: int
  rl_burst :: int
  rl_cleanup :: duration
  rl_maxBuckets :: int

definition defaultMaxBuckets :: int where "defaultMaxBuckets = 50000"

definition NewRateLimiter :: "int \<Rightarrow> int \<Rightarrow> duration \<Rightarrow> rate_limiter" where
  "NewRateLimiter rate burst cleanup =
     \<lparr>rl_limiters = [], rl_rate = rate, rl_burst = burst,
      rl_cleanup = (if cleanup \<le> 0 then 5 * Minute else cleanup), rl_maxBuckets = defaultMaxBuckets\<rparr>"

text \<open>\<open>Duration.Seconds\<close>.\<close>

definition Seconds :: "duration \<Rightarrow> rat" where
  "Seconds d = f64 (of_int (trunc_div d Second) + f64 (of_int (trunc_mod d Second) / 1000000000))"

text \<open>A pass of the cleanup loop; the same loop opens \<open>evictLocked\<close>.\<close>

definition drop_idle :: "gotime \<Rightarrow> rate_limiter \<Rightarrow> rate_limiter" where
  "drop_idle now rl = rl\<lparr>rl_limiters := filter (\<lambda>(ip, b). \<not> rl_cleanup rl < time_sub now (tb_lastCheck b)) (rl_limiters rl)\<rparr>"

fun shed_to :: "int \<Rightarrow> (string, token_bucket) gomap \<Rightarrow> (string, token_bucket) gomap" where
  "shed_to target [] = []"
| "shed_to target (b # bs) = (if int (length (b # bs)) \<le> target then b # bs else shed_to target bs)"

definition evictLocked :: "gotime \<Rightarrow> rate_limiter \<Rightarrow> rate_limiter" where
  "evictLocked now rl =
     (let rl = drop_idle now rl in
      if int (length (rl_limiters rl)) < rl_maxBuckets rl then rl
      else let t = rl_maxBuckets rl - trunc_div (rl_maxBuckets rl) 10; target = (if t < 1 then 1 else t) in
        rl\<lparr>rl_limiters := shed_to target (rl_limiters rl)\<rparr>)"

definition refill :: "rate_limiter \<Rightarrow> gotime \<Rightarrow> token_bucket \<Rightarrow> token_bucket" where
  "refill rl now b =
     (let elapsed = Seconds (time_sub now (tb_lastCheck b));
          t = f64 (tb_tokens b + f64 (elapsed * f64 (of_int (rl_rate rl)))) in
      \<lparr>tb_tokens = (if f64 (of_int (rl_burst rl)) < t then f64 (of_int (rl_burst rl)) else t), tb_lastCheck = now\<rparr>)"

definition Allow :: "string \<Rightarrow> gotime \<Rightarrow> rate_limiter \<Rightarrow> bool \<times> rate_limiter" where
  "Allow ip now rl =
     (let (b0, rl) = (case map_of (rl_limiters rl) ip of Some b \<Rightarrow> (b, rl)
            | None \<Rightarrow>
                let rl = (if rl_maxBuckets rl \<le> int (length (rl_limiters rl)) then evictLocked now rl else rl) in
                (\<lparr>tb_tokens = f64 (of_int (rl_burst rl)), tb_lastCheck = now\<rparr>, rl));
          b = refill rl now b0 in
      if 1 \<le> tb_tokens b
      then (True, rl\<lparr>rl_limiters := AList.update ip (b\<lparr>tb_tokens := f64 (tb_tokens b - 1)\<rparr>) (rl_limiters rl)\<rparr>)
      else (False, rl\<lparr>rl_limiters := AList.update ip b (rl_limiters rl)\<rparr>))"

text \<open>
  Requests and cleanup passes in any order; time does not go back.
\<close>

inductive rate_step :: "gotime \<times> rate_limiter \<Rightarrow> gotime \<times> rate_limiter \<Rightarrow> bool" where
  request: "now \<le> now' \<Longrightarrow> Allow ip now' rl = (ok, rl') \<Longrightarrow> rate_step (now, rl) (now', rl')"
| cleanup_pass: "now \<le> now' \<Longrightarrow> rate_step (now, rl) (now', drop_idle now' rl)"

inductive_cases rate_stepE: "rate_step s t"

section \<open>The client of a request\<close>

definition defaultTrustedProxyCIDRs :: "string list" where
  "defaultTrustedProxyCIDRs = [''127.0.0.0/8'', ''::1/128'']"

text \<open>The networks and the texts they came from.\<close>

fun SetTrustedProxyCIDRs :: "string list \<Rightarrow> error + ipnet list \<times> string list" where
  "SetTrustedProxyCIDRs [] = Inr ([], [])"
| "SetTrustedProxyCIDRs (c # cs) =
     (let cidr = trim_space c in
      if cidr = [] then SetTrustedProxyCIDRs cs
      else case ParseCIDR cidr of None \<Rightarrow> Inl (Msg ''invalid CIDR address'')
      | Some n \<Rightarrow> map_sum id (\<lambda>(ns, ts). (n # ns, cidr # ts)) (SetTrustedProxyCIDRs cs))"

definition isFromTrustedProxy :: "ipnet list \<Rightarrow> string \<Rightarrow> bool" where
  "isFromTrustedProxy nets remoteAddr =
     (case ParseIP remoteAddr of None \<Rightarrow> False | Some a \<Rightarrow> list_ex (\<lambda>n. net_Contains n a) nets)"

record http_request =
  rq_RemoteAddr :: string
  rq_XForwardedFor :: string
  rq_XRealIP :: string

text \<open>The walk over the entries, from the right.\<close>

fun rightmost_untrusted :: "ipnet list \<Rightarrow> string list \<Rightarrow> string option" where
  "rightmost_untrusted nets [] = None"
| "rightmost_untrusted nets (e # es) =
     (let candidate = trim_space e in
      if ParseIP candidate = None then rightmost_untrusted nets es
      else if isFromTrustedProxy nets candidate then rightmost_untrusted nets es
      else Some candidate)"

definition extractClientIP :: "ipnet list \<Rightarrow> http_request \<Rightarrow> string" where
  "extractClientIP nets r =
     (let remoteIP = (case SplitHostPort (rq_RemoteAddr r) of Some (h, _) \<Rightarrow> h | None \<Rightarrow> rq_RemoteAddr r) in
      if \<not> isFromTrustedProxy nets remoteIP then remoteIP
      else
        case (if rq_XForwardedFor r \<noteq> [] then rightmost_untrusted nets (rev (split_on (CHR '','') (rq_XForwardedFor r))) else None) of
          Some candidate \<Rightarrow> candidate
        | None \<Rightarrow>
            let xri = trim_space (rq_XRealIP r) in
            if xri \<noteq> [] \<and> ParseIP xri \<noteq> None then xri else remoteIP)"

section \<open>Bounds of the bucket map\<close>

lemma f64_nonneg: "0 \<le> x \<Longrightarrow> 0 \<le> f64 x"
proof -
  assume x: "0 \<le> x"
  have p: "0 < pow2 e" for e by (simp add: pow2_def)
  have "0 \<le> round_half_even y" if "0 \<le> y" for y
    using that by (auto simp: round_half_even_def Let_def)
  then have "0 \<le> round_half_even (\<bar>x\<bar> / pow2 e)" for e using p [of e] by simp
  then show ?thesis using x p by (simp add: f64_def Let_def sgn_if less_imp_le)
qed

lemma Seconds_nonneg: "0 \<le> d \<Longrightarrow> 0 \<le> Seconds d"
proof -
  assume d: "0 \<le> d"
  have "0 \<le> trunc_div d Second" "0 \<le> trunc_mod d Second" using d by (simp_all add: Second_def pos_imp_zdiv_nonneg_iff)
  then show ?thesis unfolding Seconds_def by (intro f64_nonneg add_nonneg_nonneg) simp_all
qed

definition bucket_ok :: "gotime \<Rightarrow> token_bucket \<Rightarrow> bool" where
  "bucket_ok now b \<longleftrightarrow> 0 \<le> tb_tokens b \<and> tb_lastCheck b \<le> now"

definition rate_inv :: "gotime \<times> rate_limiter \<Rightarrow> bool" where
  "rate_inv s \<longleftrightarrow> (case s of (now, rl) \<Rightarrow>
     0 \<le> rl_rate rl \<and> 0 \<le> rl_burst rl \<and> 10 \<le> rl_maxBuckets rl \<and>
     gomap_ok (rl_limiters rl) \<and> int (length (rl_limiters rl)) \<le> rl_maxBuckets rl \<and>
     (\<forall>b \<in> snd ` set (rl_limiters rl). bucket_ok now b))"

lemma drop_idle_frame [simp]:
  "rl_rate (drop_idle now rl) = rl_rate rl" "rl_burst (drop_idle now rl) = rl_burst rl"
  "rl_maxBuckets (drop_idle now rl) = rl_maxBuckets rl"
  by (simp_all add: drop_idle_def)

lemma drop_idle_buckets:
  "set (rl_limiters (drop_idle now rl)) \<subseteq> set (rl_limiters rl)" "length (rl_limiters (drop_idle now rl)) \<le> length (rl_limiters rl)"
  "gomap_ok (rl_limiters rl) \<Longrightarrow> gomap_ok (rl_limiters (drop_idle now rl))"
  by (auto simp: drop_idle_def)

lemma shed_to_drop: "\<exists>n. shed_to target bs = drop n bs \<and> (0 \<le> target \<longrightarrow> int (length (drop n bs)) \<le> target)"
proof (induction bs)
  case (Cons b bs)
  then obtain n where n: "shed_to target bs = drop n bs" "0 \<le> target \<longrightarrow> int (length (drop n bs)) \<le> target" by blast
  show ?case
  proof (cases "int (length (b # bs)) \<le> target")
    case True
    then show ?thesis by (intro exI [of _ 0]) simp
  next
    case False
    then show ?thesis using n by (intro exI [of _ "Suc n"]) simp
  qed
qed auto

text \<open>Eviction makes room, keeps only entries that were there, and changes none of them.\<close>

lemma evict_makes_room:
  assumes "10 \<le> rl_maxBuckets rl" and "gomap_ok (rl_limiters rl)"
  shows "int (length (rl_limiters (evictLocked now rl))) < rl_maxBuckets rl"
    and "set (rl_limiters (evictLocked now rl)) \<subseteq> set (rl_limiters rl)" and "gomap_ok (rl_limiters (evictLocked now rl))"
    and "rl_rate (evictLocked now rl) = rl_rate rl" "rl_burst (evictLocked now rl) = rl_burst rl"
      "rl_maxBuckets (evictLocked now rl) = rl_maxBuckets rl"
proof -
  let ?d = "drop_idle now rl"
  let ?t = "rl_maxBuckets rl - trunc_div (rl_maxBuckets rl) 10"
  have tenth: "trunc_div (rl_maxBuckets rl) 10 = rl_maxBuckets rl div 10" using assms(1) by (simp add: trunc_div_def)
  have t: "1 \<le> ?t" "?t < rl_maxBuckets rl" using assms(1) unfolding tenth by presburger+
  obtain n where n: "shed_to ?t (rl_limiters ?d) = drop n (rl_limiters ?d)" "int (length (drop n (rl_limiters ?d))) \<le> ?t"
    using shed_to_drop [of ?t "rl_limiters ?d"] t(1) by auto
  have e: "rl_limiters (evictLocked now rl) = (if int (length (rl_limiters ?d)) < rl_maxBuckets rl then rl_limiters ?d else drop n (rl_limiters ?d))"
    using t n(1) by (simp add: evictLocked_def Let_def)
  show "int (length (rl_limiters (evictLocked now rl))) < rl_maxBuckets rl" unfolding e using n(2) t(2) by simp
  show "set (rl_limiters (evictLocked now rl)) \<subseteq> set (rl_limiters rl)"
    unfolding e using drop_idle_buckets(1) set_drop_subset by (smt (verit, best) subset_trans)
  have "gomap_ok (drop n xs)" if "gomap_ok xs" for n and xs :: "(string, token_bucket) gomap"
    using that by (simp add: gomap_ok_def drop_map [symmetric])
  then show "gomap_ok (rl_limiters (evictLocked now rl))" unfolding e using drop_idle_buckets(3) [OF assms(2)] by simp
  show "rl_rate (evictLocked now rl) = rl_rate rl" "rl_burst (evictLocked now rl) = rl_burst rl"
    "rl_maxBuckets (evictLocked now rl) = rl_maxBuckets rl" by (simp_all add: evictLocked_def Let_def)
qed

lemma refill_ok:
  assumes "bucket_ok now b" "now \<le> now'" "0 \<le> rl_rate rl" "0 \<le> rl_burst rl"
  shows "0 \<le> tb_tokens (refill rl now' b)" "tb_tokens (refill rl now' b) \<le> f64 (of_int (rl_burst rl))"
    "tb_lastCheck (refill rl now' b) = now'"
proof -
  have "0 \<le> time_sub now' (tb_lastCheck b)"
    using assms(1,2) by (auto simp: bucket_ok_def time_sub_def max_duration_def min_duration_def le_max_iff_disj)
  then have "0 \<le> f64 (tb_tokens b + f64 (Seconds (time_sub now' (tb_lastCheck b)) * f64 (of_int (rl_rate rl))))"
    using assms(1,3) by (intro f64_nonneg add_nonneg_nonneg mult_nonneg_nonneg Seconds_nonneg) (simp_all add: bucket_ok_def)
  then show "0 \<le> tb_tokens (refill rl now' b)" using assms(4) by (simp add: refill_def Let_def f64_nonneg)
  show "tb_tokens (refill rl now' b) \<le> f64 (of_int (rl_burst rl))" "tb_lastCheck (refill rl now' b) = now'"
    by (simp_all add: refill_def Let_def)
qed

lemma update_bound:
  assumes "gomap_ok m" "map_of m k \<noteq> None \<or> int (length m) < n" "int (length m) \<le> n"
  shows "int (length (AList.update k v m)) \<le> n"
proof (cases "map_of m k = None")
  case True
  then have "length (AList.update k v m) = Suc (length m)"
    by (induction m) (auto split: if_splits)
  then show ?thesis using assms True by simp
next
  case False
  then have "length (AList.update k v m) = length m"
    by (induction m) auto
  then show ?thesis using assms(3) by simp
qed

lemma update_buckets: "snd ` set (AList.update k v m) \<subseteq> insert v (snd ` set m)"
  by (induction m) auto

lemma Allow_inv:
  assumes "rate_inv (now, rl)" and "now \<le> now'" and "Allow ip now' rl = (ok, rl')"
  shows "rate_inv (now', rl')"
proof -
  have inv: "0 \<le> rl_rate rl" "0 \<le> rl_burst rl" "10 \<le> rl_maxBuckets rl" "gomap_ok (rl_limiters rl)"
    "int (length (rl_limiters rl)) \<le> rl_maxBuckets rl" "\<forall>b \<in> snd ` set (rl_limiters rl). bucket_ok now b"
    using assms(1) by (simp_all add: rate_inv_def)
  have later: "bucket_ok now b \<Longrightarrow> bucket_ok now' b" for b using assms(2) by (auto simp: bucket_ok_def)
  define rl1 where "rl1 = (if map_of (rl_limiters rl) ip = None \<and> rl_maxBuckets rl \<le> int (length (rl_limiters rl)) then evictLocked now' rl else rl)"
  define b0 where "b0 = (case map_of (rl_limiters rl) ip of Some b \<Rightarrow> b | None \<Rightarrow> \<lparr>tb_tokens = f64 (of_int (rl_burst rl1)), tb_lastCheck = now'\<rparr>)"
  note ev = evict_makes_room [OF inv(3,4), of now']
  have rl1: "rl_rate rl1 = rl_rate rl" "rl_burst rl1 = rl_burst rl" "rl_maxBuckets rl1 = rl_maxBuckets rl"
    "gomap_ok (rl_limiters rl1)" "set (rl_limiters rl1) \<subseteq> set (rl_limiters rl)" "int (length (rl_limiters rl1)) \<le> rl_maxBuckets rl"
    "map_of (rl_limiters rl1) ip \<noteq> None \<or> int (length (rl_limiters rl1)) < rl_maxBuckets rl"
    using ev inv unfolding rl1_def by auto
  have b0: "bucket_ok now' b0"
  proof (cases "map_of (rl_limiters rl) ip")
    case (Some b)
    then have "bucket_ok now b" using inv(6) map_of_SomeD by (force)
    then show ?thesis using Some later by (simp add: b0_def)
  qed (use inv(2) rl1(2) in \<open>simp add: b0_def bucket_ok_def f64_nonneg\<close>)
  define b where "b = refill rl1 now' b0"
  have b: "0 \<le> tb_tokens b" "tb_lastCheck b = now'" using refill_ok [OF b0, of now' rl1] rl1 inv by (simp_all add: b_def)
  obtain v where v: "rl' = rl1\<lparr>rl_limiters := AList.update ip v (rl_limiters rl1)\<rparr>" "bucket_ok now' v"
  proof (cases "1 \<le> tb_tokens b")
    case True
    then have "rl' = rl1\<lparr>rl_limiters := AList.update ip (b\<lparr>tb_tokens := f64 (tb_tokens b - 1)\<rparr>) (rl_limiters rl1)\<rparr>"
      using assms(3) by (auto simp: Allow_def Let_def b_def b0_def rl1_def split: option.splits if_splits)
    moreover have "bucket_ok now' (b\<lparr>tb_tokens := f64 (tb_tokens b - 1)\<rparr>)" using True b by (simp add: bucket_ok_def f64_nonneg)
    ultimately show thesis using that by blast
  next
    case False
    then have "rl' = rl1\<lparr>rl_limiters := AList.update ip b (rl_limiters rl1)\<rparr>"
      using assms(3) by (auto simp: Allow_def Let_def b_def b0_def rl1_def split: option.splits if_splits)
    moreover have "bucket_ok now' b" using b by (simp add: bucket_ok_def)
    ultimately show thesis using that by blast
  qed
  have "\<forall>x \<in> snd ` set (AList.update ip v (rl_limiters rl1)). bucket_ok now' x"
    using update_buckets [of ip v "rl_limiters rl1"] v(2) rl1(5) inv(6) later by blast
  then show ?thesis using v(1) rl1 inv update_bound [OF rl1(4,7,6)] by (simp add: rate_inv_def)
qed

theorem rate_reachable_inv:
  assumes "rate_step\<^sup>*\<^sup>* s t" and "rate_inv s"
  shows "rate_inv t"
  using assms
proof (induction rule: rtranclp_induct)
  case (step t u)
  then have inv: "rate_inv t" by simp
  from step.hyps(2) show ?case
  proof cases
    case (request now now' ip rl ok rl')
    then show ?thesis using Allow_inv inv by blast
  next
    case (cleanup_pass now now' rl)
    then show ?thesis using inv drop_idle_buckets [where now = now' and rl = rl]
      by (fastforce simp: rate_inv_def bucket_ok_def)
  qed
qed simp

section \<open>Attribution\<close>

text \<open>What is to the left of the first untrusted address does not matter.\<close>

lemma rightmost_untrusted_spec:
  "rightmost_untrusted nets es = Some a \<longleftrightarrow>
     (\<exists>xs e ys. es = xs @ e # ys \<and> a = trim_space e \<and> ParseIP a \<noteq> None \<and> \<not> isFromTrustedProxy nets a \<and>
       (\<forall>x \<in> set xs. ParseIP (trim_space x) = None \<or> isFromTrustedProxy nets (trim_space x)))"
  (is "_ \<longleftrightarrow> ?R es")
proof (induction es)
  case (Cons e es)
  let ?skip = "\<lambda>x. ParseIP (trim_space x) = None \<or> isFromTrustedProxy nets (trim_space x)"
  show ?case
  proof (cases "?skip e")
    case True
    have "?R (e # es) \<longleftrightarrow> ?R es"
    proof
      assume "?R (e # es)"
      then obtain xs f ys where f: "e # es = xs @ f # ys" "a = trim_space f" "ParseIP a \<noteq> None" "\<not> isFromTrustedProxy nets a" "\<forall>x \<in> set xs. ?skip x"
        by blast
      then obtain xs' where "xs = e # xs'" using True by (cases xs) auto
      then show "?R es" using f by - (rule exI [of _ xs'], rule exI [of _ f], rule exI [of _ ys], simp)
    next
      assume "?R es"
      then obtain xs f ys where "es = xs @ f # ys \<and> a = trim_space f \<and> ParseIP a \<noteq> None \<and> \<not> isFromTrustedProxy nets a \<and> (\<forall>x \<in> set xs. ?skip x)"
        by blast
      then show "?R (e # es)" using True by - (rule exI [of _ "e # xs"], rule exI [of _ f], rule exI [of _ ys], auto)
    qed
    moreover have "rightmost_untrusted nets (e # es) = rightmost_untrusted nets es" using True by (auto simp: Let_def)
    ultimately show ?thesis using Cons.IH by (simp only:)
  next
    case False
    have "?R (e # es) \<longleftrightarrow> a = trim_space e"
    proof
      assume "a = trim_space e"
      then show "?R (e # es)" using False by - (rule exI [of _ "[]"], rule exI [of _ e], rule exI [of _ es], auto)
    qed (use False in \<open>auto simp: Cons_eq_append_conv\<close>)
    moreover have "rightmost_untrusted nets (e # es) = Some (trim_space e)" using False by (auto simp: Let_def)
    ultimately show ?thesis by (metis option.inject)
  qed
qed simp

lemma split_join_with: "ls \<noteq> [] \<Longrightarrow> \<forall>l \<in> set ls. c \<notin> set l \<Longrightarrow> split_on c (join_with c ls) = ls"
proof (induction c ls rule: join_with.induct)
  case (2 c l)
  then show ?case by (simp add: split_on_plain)
next
  case (3 c l k ls)
  then show ?case using split_on_append [of c l] by (simp add: split_on_plain)
qed simp

lemma parse_empty: "ParseIP (trim_space []) = None"
  by code_simp

definition peer_of :: "http_request \<Rightarrow> string" where
  "peer_of r = (case SplitHostPort (rq_RemoteAddr r) of Some (h, _) \<Rightarrow> h | None \<Rightarrow> rq_RemoteAddr r)"

text \<open>
  A peer that is no trusted proxy cannot choose what it is attributed to; behind trusted proxies the
  client is the one the first of them saw, whatever the client wrote into the header before.
\<close>

lemma attribution_untrusted: "\<not> isFromTrustedProxy nets (peer_of r) \<Longrightarrow> extractClientIP nets r = peer_of r"
  by (simp add: extractClientIP_def peer_of_def Let_def)

lemma attribution_forwarded:
  assumes "isFromTrustedProxy nets (peer_of r)" and "rq_XForwardedFor r = join_with (CHR '','') (forged @ client # hops)"
    and "\<forall>e \<in> set (forged @ client # hops). CHR '','' \<notin> set e"
    and "ParseIP (trim_space client) \<noteq> None" "\<not> isFromTrustedProxy nets (trim_space client)"
    and "\<forall>h \<in> set hops. isFromTrustedProxy nets (trim_space h)"
  shows "extractClientIP nets r = trim_space client"
proof -
  have split: "split_on (CHR '','') (rq_XForwardedFor r) = forged @ client # hops"
    unfolding assms(2) by (rule split_join_with) (use assms(3) in auto)
  have "rightmost_untrusted nets (rev (forged @ client # hops)) = Some (trim_space client)"
    unfolding rightmost_untrusted_spec using assms(4-6)
    by - (rule exI [of _ "rev hops"], rule exI [of _ client], rule exI [of _ "rev forged"], auto)
  moreover have "rq_XForwardedFor r \<noteq> []"
  proof
    assume "rq_XForwardedFor r = []"
    then have "forged = []" "client = []" using split by (auto simp: Cons_eq_append_conv)
    then show False using assms(4) by (simp add: parse_empty)
  qed
  ultimately show ?thesis using assms(1) split by (simp add: extractClientIP_def peer_of_def Let_def)
qed

section \<open>A request behind two proxies\<close>

definition proxied_request :: http_request where
  "proxied_request = \<lparr>rq_RemoteAddr = ''10.0.0.1:9'', rq_XForwardedFor = ''1.1.1.1,192.0.2.9,10.0.0.2'', rq_XRealIP = []\<rparr>"

definition proxy_nets :: "ipnet list" where
  "proxy_nets = (case ParseCIDR ''10.0.0.0/8'' of Some n \<Rightarrow> [n] | None \<Rightarrow> [])"

lemma proxied_addresses:
  "ParseIP (trim_space ''192.0.2.9'') \<noteq> None" "\<not> isFromTrustedProxy proxy_nets (trim_space ''192.0.2.9'')"
  "isFromTrustedProxy proxy_nets (trim_space ''10.0.0.2'')" "isFromTrustedProxy proxy_nets (peer_of proxied_request)"
  by code_simp+

end
