(* ===== verification/Parent_Probe.thy ===== *)
theory Parent_Probe
  imports Net_Resolve Rollover
begin

text \<open>
  The probes behind the rollover decisions (\<open>src/signer/internal/validate/parentds.go\<close>, with
  the exchange functions of \<open>validate.go\<close>): discovery of every nameserver of a zone with all
  its addresses, the query of every address, and what is concluded from the answers about the DS
  records of the parent and the published serial. The network is a function from the number of the
  exchange to an answer or an error, so nothing is assumed about who answers.
\<close>

section \<open>Exchanges\<close>

type_synonym ds_fields = "16 word \<times> 8 word \<times> 8 word \<times> string"

text \<open>The library, beyond \<open>netlib\<close>: the DS record of a key, and the window of a signature.\<close>

record probelib =
  nl :: netlib
  ToDS :: "dnskey \<Rightarrow> 8 word \<Rightarrow> ds_fields option"
  InPeriod :: "rrsig \<Rightarrow> gotime \<Rightarrow> bool"

record probe_msg = message +
  pm_Question :: "(string \<times> 16 word \<times> 16 word) list"
  pm_Rcode :: int
  pm_Authoritative :: bool
  pm_Truncated :: bool

type_synonym probe_net = "nat \<Rightarrow> string \<Rightarrow> string \<Rightarrow> query \<Rightarrow> error + probe_msg"

text \<open>
  The parts of the \<open>Validator\<close> the probes use, with the network and the servers and port of
  \<open>/etc/resolv.conf\<close>, where it can be read.
\<close>

record probe_client =
  pc_resolver :: string
  pc_authPort :: string
  pc_net :: probe_net
  pc_resolvConf :: "(string list \<times> string) option"

definition portOr :: "probe_client \<Rightarrow> string" where
  "portOr c = (if pc_authPort c = [] then ''53'' else pc_authPort c)"

definition resolverAddr :: "probe_client \<Rightarrow> string" where
  "resolverAddr c =
     (if pc_resolver c \<noteq> [] then (case SplitHostPort (pc_resolver c) of None \<Rightarrow> JoinHostPort (pc_resolver c) ''53'' | Some _ \<Rightarrow> pc_resolver c)
      else case pc_resolvConf c of Some (s # _, port) \<Rightarrow> JoinHostPort s port | _ \<Rightarrow> ''9.9.9.9:53'')"

definition client_send :: "probe_client \<Rightarrow> string \<Rightarrow> query \<Rightarrow> string \<Rightarrow> (nat, probe_msg) op" where
  "client_send c proto q server = (\<lambda>n. (pc_net c n proto server q, Suc n))"

definition checkQuestion :: "netlib \<Rightarrow> probe_msg \<Rightarrow> query \<Rightarrow> error + unit" where
  "checkQuestion lib r m =
     (case pm_Question r of
        [(name, qtype, qclass)] \<Rightarrow>
          if \<not> EqualFold (fqdnNL lib name) (fqdnNL lib (qy_Name m)) \<or> qtype \<noteq> qy_Type m \<or> qclass \<noteq> ClassINET
          then Inl (Msg ''response answers another question'') else Inr ()
      | _ \<Rightarrow> Inl (Msg ''response does not carry exactly the question asked''))"

definition exchangeTC :: "netlib \<Rightarrow> probe_client \<Rightarrow> query \<Rightarrow> string \<Rightarrow> (nat, probe_msg) op" where
  "exchangeTC lib c m server =
     op_bind (client_send c ''udp'' m server) (\<lambda>r.
     op_bind (if pm_Truncated r then op_wrap ''TCP retry after a truncated answer'' (client_send c ''tcp'' m server) else op_ok r) (\<lambda>r.
     case checkQuestion lib r m of Inl e \<Rightarrow> op_fail e | Inr _ \<Rightarrow> op_ok r))"

definition queryDirect :: "netlib \<Rightarrow> probe_client \<Rightarrow> string \<Rightarrow> string \<Rightarrow> 16 word \<Rightarrow> (nat, probe_msg) op" where
  "queryDirect lib c server qname qtype =
     op_bind (exchangeTC lib c \<lparr>qy_Name = fqdnNL lib qname, qy_Type = qtype, qy_RecursionDesired = False,
       qy_CheckingDisabled = False, qy_Do = True\<rparr> server) (\<lambda>r.
     if pm_Rcode r \<noteq> RcodeSuccess then op_fail (Msg ''DNS response code'')
     else if \<not> pm_Authoritative r then op_fail (Msg ''non-authoritative answer'')
     else op_ok r)"

definition resolverQueryWithCD :: "netlib \<Rightarrow> probe_client \<Rightarrow> bool \<Rightarrow> string \<Rightarrow> 16 word \<Rightarrow> (nat, probe_msg) op" where
  "resolverQueryWithCD lib c checkingDisabled qname qtype =
     op_bind (op_wrap ''lookup'' (exchangeTC lib c \<lparr>qy_Name = fqdnNL lib qname, qy_Type = qtype, qy_RecursionDesired = True,
       qy_CheckingDisabled = checkingDisabled, qy_Do = False\<rparr> (resolverAddr c))) (\<lambda>r.
     if pm_Rcode r \<noteq> RcodeSuccess then op_fail (Msg ''lookup: error code'') else op_ok r)"

section \<open>Discovery\<close>

text \<open>The records of a type with their owner and data.\<close>

definition typed :: "16 word \<Rightarrow> rr list \<Rightarrow> (rr_header \<times> string) list" where
  "typed t rrs = concat (map (\<lambda>rr. case rr of OtherRR h d \<Rightarrow> if h_Rrtype h = t then [(h, d)] else [] | _ \<Rightarrow> []) rrs)"

definition ns_names_in :: "netlib \<Rightarrow> rr list \<Rightarrow> string \<Rightarrow> string list" where
  "ns_names_in lib rrs zone =
     sort (remdups (map (\<lambda>(h, d). canonNL lib (RDataName lib d)) (filter (\<lambda>(h, d). canonNL lib (h_Name h) = canonNL lib zone) (typed TypeNS rrs))))"

definition nsNamesOf :: "netlib \<Rightarrow> probe_msg \<Rightarrow> string \<Rightarrow> string list" where
  "nsNamesOf lib r zone =
     (let names = ns_names_in lib (msg_Answer r) zone in if names \<noteq> [] then names else ns_names_in lib (msg_Ns r) zone)"

record ns_target =
  nt_name :: string
  nt_addrs :: "string list"

text \<open>Glue inside the zone, by owner and family.\<close>

definition glue_of :: "netlib \<Rightarrow> probe_msg \<Rightarrow> string \<Rightarrow> string \<Rightarrow> 16 word \<Rightarrow> string list" where
  "glue_of lib r zone name qtype =
     map (\<lambda>(h, d). ip_String (RDataIP lib d))
       (filter (\<lambda>(h, d). canonNL lib (h_Name h) = name \<and> IsSubDomain (vlib (tlib lib)) zone (canonNL lib (h_Name h))) (typed qtype (msg_Extra r)))"

definition family_addrs ::
  "netlib \<Rightarrow> (string \<Rightarrow> 16 word \<Rightarrow> (nat, probe_msg) op) \<Rightarrow> probe_msg \<Rightarrow> string \<Rightarrow> string \<Rightarrow> 16 word \<Rightarrow> (nat, string list) op" where
  "family_addrs lib query r zone name qtype =
     (let glue = glue_of lib r zone name qtype in
      if glue \<noteq> [] then op_ok glue
      else op_bind (op_wrap ''nameserver could not be resolved (delegation coverage incomplete)'' (query name qtype)) (\<lambda>ar.
        op_ok (map (\<lambda>(h, d). ip_String (RDataIP lib d)) (filter (\<lambda>(h, d). canonNL lib (h_Name h) = name) (typed qtype (msg_Answer ar))))))"

primrec resolve_targets ::
  "netlib \<Rightarrow> probe_client \<Rightarrow> (string \<Rightarrow> 16 word \<Rightarrow> (nat, probe_msg) op) \<Rightarrow> probe_msg \<Rightarrow> string \<Rightarrow> string list \<Rightarrow> (nat, ns_target list) op" where
  "resolve_targets lib c query r zone [] = op_ok []"
| "resolve_targets lib c query r zone (name # names) =
     op_bind (family_addrs lib query r zone name TypeA) (\<lambda>v4.
     op_bind (family_addrs lib query r zone name TypeAAAA) (\<lambda>v6.
     let addrs = sort (remdups (map (\<lambda>ip. JoinHostPort ip (portOr c)) (v4 @ v6))) in
     if addrs = [] then op_fail (Msg ''nameserver resolved to no IPv4 or IPv6 address (delegation coverage incomplete)'')
     else op_bind (resolve_targets lib c query r zone names) (\<lambda>ts. op_ok (\<lparr>nt_name = name, nt_addrs = addrs\<rparr> # ts))))"

definition discoverNSWith :: "netlib \<Rightarrow> probe_client \<Rightarrow> string \<Rightarrow> (string \<Rightarrow> 16 word \<Rightarrow> (nat, probe_msg) op) \<Rightarrow> (nat, ns_target list) op" where
  "discoverNSWith lib c zone0 query =
     (let zone = fqdnNL lib zone0 in
      op_bind (op_wrap ''NS lookup'' (query zone TypeNS)) (\<lambda>r.
      let names = nsNamesOf lib r zone in
      if names = [] then op_fail (Msg ''no NS records found'') else resolve_targets lib c query r zone names))"

definition discoverNS :: "netlib \<Rightarrow> probe_client \<Rightarrow> string \<Rightarrow> (nat, ns_target list) op" where
  "discoverNS lib c zone = discoverNSWith lib c zone (resolverQueryWithCD lib c False)"

definition discoverNSUnchecked :: "netlib \<Rightarrow> probe_client \<Rightarrow> string \<Rightarrow> (nat, ns_target list) op" where
  "discoverNSUnchecked lib c zone = discoverNSWith lib c zone (resolverQueryWithCD lib c True)"

definition flatten_addrs :: "ns_target list \<Rightarrow> string list" where
  "flatten_addrs targets = sort (remdups (concat (map nt_addrs targets)))"

definition by_name :: "ns_target list \<Rightarrow> (string, string list) gomap" where
  "by_name targets = fold (\<lambda>t. AList.update (nt_name t) (nt_addrs t)) targets []"

section \<open>Every identity answers\<close>

fun isLocalRouteError :: "error \<Rightarrow> bool" where
  "isLocalRouteError (Wrap s e) = isLocalRouteError e"
| "isLocalRouteError (NetError timeout codes) =
     (\<not> timeout \<and> (\<exists>c \<in> set codes. c \<in> {''ENETUNREACH'', ''EHOSTUNREACH'', ''EADDRNOTAVAIL'', ''EAFNOSUPPORT''}))"
| "isLocalRouteError _ = False"

primrec query_all :: "netlib \<Rightarrow> probe_client \<Rightarrow> string \<Rightarrow> 16 word \<Rightarrow> string list \<Rightarrow> (nat, (string \<times> (error + probe_msg)) list) op" where
  "query_all lib c qname qtype [] = op_ok []"
| "query_all lib c qname qtype (server # servers) =
     op_try (queryDirect lib c server qname qtype) (\<lambda>res.
     op_bind (query_all lib c qname qtype servers) (\<lambda>rest. op_ok ((server, res) # rest)))"

text \<open>
  The addresses of one identity: whether one answered and the first that is unreachable, or the
  address whose failure is the server's.
\<close>

fun check_addresses ::
  "(string \<Rightarrow> (error + probe_msg) option) \<Rightarrow> string list \<Rightarrow> bool \<Rightarrow> (string \<times> error) option \<Rightarrow> error + bool \<times> (string \<times> error) option" where
  "check_addresses res [] answered unreachable = Inr (answered, unreachable)"
| "check_addresses res (a # as) answered unreachable =
     (case res a of
        Some (Inr m) \<Rightarrow> check_addresses res as True unreachable
      | Some (Inl e) \<Rightarrow>
          if \<not> isLocalRouteError e then Inl (Wrap a e)
          else check_addresses res as answered (if unreachable = None then Some (a, e) else unreachable)
      | None \<Rightarrow> Inl (Wrap a (Msg ''not queried'')))"

definition check_identity :: "(string \<Rightarrow> (error + probe_msg) option) \<Rightarrow> (string, string list) gomap \<Rightarrow> ns_target \<Rightarrow> error + unit" where
  "check_identity res byName t =
     (case check_addresses res (case map_of byName (nt_name t) of Some as \<Rightarrow> as | None \<Rightarrow> []) False None of
        Inl e \<Rightarrow> Inl e
      | Inr (True, _) \<Rightarrow> Inr ()
      | Inr (False, Some (a, e)) \<Rightarrow> Inl (Wrap a (Wrap ''no address of the nameserver is reachable from this host'' e))
      | Inr (False, None) \<Rightarrow> Inl (Msg ''runtime error: invalid memory address or nil pointer dereference''))"

definition answered_of :: "(string \<times> (error + probe_msg)) list \<Rightarrow> (string \<times> probe_msg) list" where
  "answered_of results = concat (map (\<lambda>(s, r). case r of Inr m \<Rightarrow> [(s, m)] | Inl _ \<Rightarrow> []) results)"

definition skipped_of :: "(string \<times> (error + probe_msg)) list \<Rightarrow> string list" where
  "skipped_of results = concat (map (\<lambda>(s, r). case r of Inr m \<Rightarrow> [] | Inl _ \<Rightarrow> [s]) results)"

definition probeIdentities ::
  "netlib \<Rightarrow> probe_client \<Rightarrow> ns_target list \<Rightarrow> string \<Rightarrow> 16 word \<Rightarrow> (nat, (string \<times> probe_msg) list \<times> string list) op" where
  "probeIdentities lib c targets qname qtype =
     op_bind (query_all lib c qname qtype (flatten_addrs targets)) (\<lambda>results.
     case check_each (check_identity (map_of results) (by_name targets)) targets of
       Inl e \<Rightarrow> op_fail e
     | Inr _ \<Rightarrow> op_ok (answered_of results, skipped_of results))"

section \<open>The DS records of the parent\<close>

definition findParentZone :: "netlib \<Rightarrow> string \<Rightarrow> string" where
  "findParentZone lib domain =
     (let labels = SplitDomainName (qlib lib) (fqdnNL lib domain) in
      if length labels \<le> 1 then ''.'' else fqdnNL lib (join_with (CHR ''.'') (tl labels)))"

text \<open>\<open>ownerRecords\<close> for DS records: the fields and the TTL.\<close>

definition owner_ds :: "netlib \<Rightarrow> probe_msg \<Rightarrow> string \<Rightarrow> (ds_fields \<times> 32 word) list" where
  "owner_ds lib m qname =
     map (\<lambda>(h, d). (DSFields (tlib lib) d, h_Ttl h)) (filter (\<lambda>(h, d). canonNL lib (h_Name h) = canonNL lib qname) (typed TypeDS (msg_Answer m)))"

definition key_algorithms :: "netlib \<Rightarrow> dnskey list \<Rightarrow> (16 word, 8 word) gomap" where
  "key_algorithms lib ksks = fold (\<lambda>k. AList.update (KeyTag (klib (qlib lib)) k) (dk_Algorithm k)) ksks []"

definition expected_ds :: "probelib \<Rightarrow> dnskey list \<Rightarrow> 16 word \<Rightarrow> ds_fields list" where
  "expected_ds lib ksks tag =
     concat (map (\<lambda>k. List.map_filter (ToDS lib k) [2, 4]) (filter (\<lambda>k. KeyTag (klib (qlib (nl lib))) k = tag) ksks))"

definition exact_on :: "ds_fields list \<Rightarrow> 16 word \<Rightarrow> 8 word \<Rightarrow> ds_fields list \<Rightarrow> bool" where
  "exact_on expected tag alg dss =
     list_ex (\<lambda>(t, a, dt, dg). t = tag \<and> a = alg \<and> list_ex (\<lambda>(_, _, dt', dg'). dt = dt' \<and> EqualFold dg dg') expected) dss"

definition any_on :: "16 word \<Rightarrow> 8 word \<Rightarrow> ds_fields list \<Rightarrow> bool" where
  "any_on tag alg dss = list_ex (\<lambda>(t, a, _, _). t = tag \<and> a = alg) dss"

record probe_observation = parent_ds_observation +
  po_Servers :: "string list"
  po_DSRecords :: "ds_fields list"
  po_ByNameserver :: "(string, string list) gomap"
  po_Skipped :: "string list"

text \<open>What the answers amount to.\<close>

definition observe :: "probelib \<Rightarrow> dnskey list \<Rightarrow> string \<Rightarrow> ns_target list \<Rightarrow> (string \<times> probe_msg) list \<Rightarrow> string list \<Rightarrow> probe_observation" where
  "observe lib ksks qname targets answers skipped =
     (let algs = key_algorithms (nl lib) ksks;
          per_server = map (\<lambda>(s, m). map fst (owner_ds (nl lib) m qname)) answers;
          exactCount = (\<lambda>tag alg. length (filter (exact_on (expected_ds lib ksks tag) tag alg) per_server));
          anyCount = (\<lambda>tag alg. length (filter (any_on tag alg) per_server)) in
      \<lparr>obs_PresentOnAll = (\<lambda>tag. case map_of algs tag of None \<Rightarrow> False
          | Some alg \<Rightarrow> expected_ds lib ksks tag \<noteq> [] \<and> exactCount tag alg = length answers),
       obs_AbsentOnAll = (\<lambda>tag. case map_of algs tag of None \<Rightarrow> False | Some alg \<Rightarrow> anyCount tag alg = 0),
       obs_TTL = fold max (concat (map (\<lambda>(s, m). map snd (owner_ds (nl lib) m qname)) answers)) 0,
       po_Servers = map fst answers,
       po_DSRecords = dedupe (\<lambda>(t, a, dt, dg). (t, a, dt, map ascii_lower dg)) {} (concat per_server),
       po_ByNameserver = by_name targets, po_Skipped = skipped\<rparr>)"

definition ProbeParentDS :: "probelib \<Rightarrow> probe_client \<Rightarrow> string \<Rightarrow> dnskey list \<Rightarrow> (nat, probe_observation) op" where
  "ProbeParentDS lib c domain ksks =
     op_bind (discoverNS (nl lib) c (findParentZone (nl lib) domain)) (\<lambda>targets.
     let qname = fqdnNL (nl lib) domain in
     op_bind (op_wrap ''DS query to parent server'' (probeIdentities (nl lib) c targets qname TypeDS)) (\<lambda>(answers, skipped).
     op_ok (observe lib ksks qname targets answers skipped)))"

text \<open>The probe as the rollover manager takes it; its exchanges are numbered from the tick of the call.\<close>

definition parent_probe :: "probelib \<Rightarrow> probe_client \<Rightarrow> ds_probe" where
  "parent_probe lib c t domain ksks = map_sum id parent_ds_observation.truncate (fst (ProbeParentDS lib c domain ksks t))"

section \<open>The served zone\<close>

definition owner_soas :: "netlib \<Rightarrow> probe_msg \<Rightarrow> string \<Rightarrow> 32 word list" where
  "owner_soas lib m qname =
     concat (map (\<lambda>rr. case rr of SOA h serial _ _ \<Rightarrow> if canonNL lib (h_Name h) = canonNL lib qname then [serial] else [] | _ \<Rightarrow> []) (msg_Answer m))"

fun serial_everywhere :: "netlib \<Rightarrow> string \<Rightarrow> 32 word \<Rightarrow> (string \<times> probe_msg) list \<Rightarrow> bool \<times> string" where
  "serial_everywhere lib qname serial [] = (True, ''serial served by every server'')"
| "serial_everywhere lib qname serial ((server, m) # as) =
     (let soas = owner_soas lib m qname in
      if soas = [] then (False, server @ '' returned no SOA'')
      else if last soas \<noteq> serial then (False, server @ '' serves another serial'')
      else serial_everywhere lib qname serial as)"

definition ProbePublishedSerial :: "netlib \<Rightarrow> probe_client \<Rightarrow> string \<Rightarrow> 32 word \<Rightarrow> (nat, bool \<times> string) op" where
  "ProbePublishedSerial lib c domain serial =
     (let qname = fqdnNL lib domain in
      op_bind (discoverNS lib c qname) (\<lambda>targets.
      op_try (probeIdentities lib c targets qname TypeSOA) (\<lambda>r. case r of
        Inl e \<Rightarrow> op_ok (False, ''SOA query failed'')
      | Inr (answers, skipped) \<Rightarrow> op_ok (serial_everywhere lib qname serial answers))))"

record served_keys =
  sk_Servers :: "string list"
  sk_Unreachable :: "(string \<times> error) list"
  sk_DNSKEYs :: "dnskey list"
  sk_DNSKEYTTL :: "32 word"
  sk_DNSKEYSigners :: "16 word list"
  sk_SOASigners :: "16 word list"
  sk_SOASerials :: "32 word list"
  sk_StaleSignatures :: bool

text \<open>\<open>appendTag\<close> and \<open>appendSerial\<close>.\<close>

definition append_new :: "'a \<Rightarrow> 'a list \<Rightarrow> 'a list" where
  "append_new x xs = (if x \<in> set xs then xs else xs @ [x])"

definition owner_keys :: "netlib \<Rightarrow> probe_msg \<Rightarrow> string \<Rightarrow> (dnskey \<times> 32 word) list" where
  "owner_keys lib m qname =
     concat (map (\<lambda>rr. case rr of DNSKEY h k \<Rightarrow> if canonNL lib (h_Name h) = canonNL lib qname then [(k, h_Ttl h)] else [] | _ \<Rightarrow> []) (msg_Answer m))"

definition owner_sigs :: "netlib \<Rightarrow> probe_msg \<Rightarrow> string \<Rightarrow> 16 word \<Rightarrow> rrsig list" where
  "owner_sigs lib m qname t =
     concat (map (\<lambda>rr. case rr of RRSIG s \<Rightarrow>
       if canonNL lib (h_Name (sig_Hdr s)) = canonNL lib qname \<and> sig_TypeCovered s = t then [s] else [] | _ \<Rightarrow> []) (msg_Answer m))"

text \<open>What one server adds; the signatures it serves are collected for the final verdict.\<close>

definition note_server :: "netlib \<Rightarrow> string \<Rightarrow> string \<Rightarrow> probe_msg \<Rightarrow> probe_msg \<Rightarrow> served_keys \<times> rrsig list \<Rightarrow> served_keys \<times> rrsig list" where
  "note_server lib qname server keyMsg soaMsg = (\<lambda>(s, sigs).
     let keys = owner_keys lib keyMsg qname; ksigs = owner_sigs lib keyMsg qname TypeDNSKEY; ssigs = owner_sigs lib soaMsg qname TypeSOA;
         same = (\<lambda>a b. dk_Flags a = dk_Flags b \<and> dk_Protocol a = dk_Protocol b \<and> dk_Algorithm a = dk_Algorithm b \<and> dk_PublicKey a = dk_PublicKey b) in
     (s\<lparr>sk_Servers := sk_Servers s @ [server],
        sk_DNSKEYs := fold (\<lambda>(k, _) ks. if list_ex (same k) ks then ks else ks @ [k]) keys (sk_DNSKEYs s),
        sk_DNSKEYTTL := fold (\<lambda>(_, ttl). max ttl) keys (sk_DNSKEYTTL s),
        sk_DNSKEYSigners := fold (\<lambda>g. append_new (sig_KeyTag g)) ksigs (sk_DNSKEYSigners s),
        sk_SOASigners := fold (\<lambda>g. append_new (sig_KeyTag g)) ssigs (sk_SOASigners s),
        sk_SOASerials := fold append_new (owner_soas lib soaMsg qname) (sk_SOASerials s)\<rparr>, sigs @ ksigs @ ssigs))"

primrec probe_servers ::
  "netlib \<Rightarrow> probe_client \<Rightarrow> string \<Rightarrow> string list \<Rightarrow> served_keys \<times> rrsig list \<Rightarrow> (nat, served_keys \<times> rrsig list) op" where
  "probe_servers lib c qname [] acc = op_ok acc"
| "probe_servers lib c qname (server # servers) acc =
     op_try (op_bind (queryDirect lib c server qname TypeDNSKEY) (\<lambda>km.
             op_bind (queryDirect lib c server qname TypeSOA) (\<lambda>sm. op_ok (km, sm)))) (\<lambda>r. case r of
       Inl e \<Rightarrow> probe_servers lib c qname servers ((fst acc)\<lparr>sk_Unreachable := sk_Unreachable (fst acc) @ [(server, e)]\<rparr>, snd acc)
     | Inr (km, sm) \<Rightarrow> probe_servers lib c qname servers (note_server lib qname server km sm acc))"

definition ProbeServedKeys :: "probelib \<Rightarrow> probe_client \<Rightarrow> gotime \<Rightarrow> string \<Rightarrow> (nat, served_keys) op" where
  "ProbeServedKeys lib c now domain =
     (let qname = fqdnNL (nl lib) domain in
      op_bind (discoverNSUnchecked (nl lib) c qname) (\<lambda>targets.
      op_bind (probe_servers (nl lib) c qname (flatten_addrs targets)
        (\<lparr>sk_Servers = [], sk_Unreachable = [], sk_DNSKEYs = [], sk_DNSKEYTTL = 0, sk_DNSKEYSigners = [], sk_SOASigners = [],
          sk_SOASerials = [], sk_StaleSignatures = False\<rparr>, [])) (\<lambda>(served, sigs).
      if sk_Servers served = [] then op_fail (Msg ''no authoritative server answered'')
      else op_ok (served\<lparr>sk_StaleSignatures := sigs \<noteq> [] \<and> \<not> list_ex (\<lambda>g. InPeriod lib g now) sigs\<rparr>))))"

section \<open>What a probe rests on\<close>

text \<open>An answer from a server: the network returned it for the question, it echoes the question, is \<open>NOERROR\<close> and authoritative.\<close>

definition answered_by :: "netlib \<Rightarrow> probe_client \<Rightarrow> string \<Rightarrow> 16 word \<Rightarrow> string \<Rightarrow> probe_msg \<Rightarrow> bool" where
  "answered_by lib c qname qtype server m \<longleftrightarrow>
     (\<exists>n proto q. pc_net c n proto server q = Inr m \<and> qy_Name q = fqdnNL lib qname \<and> qy_Type q = qtype \<and>
        checkQuestion lib m q = Inr () \<and> pm_Rcode m = RcodeSuccess \<and> pm_Authoritative m)"

lemma exchangeTC_Inr:
  assumes "exchangeTC lib c q server n = (Inr m, n')"
  shows "\<exists>k proto. pc_net c k proto server q = Inr m \<and> checkQuestion lib m q = Inr ()"
proof -
  obtain r n1 where r: "client_send c ''udp'' q server n = (Inr r, n1)" and
    rest: "op_bind (if pm_Truncated r then op_wrap ''TCP retry after a truncated answer'' (client_send c ''tcp'' q server) else op_ok r) (\<lambda>r.
      case checkQuestion lib r q of Inl e \<Rightarrow> op_fail e | Inr _ \<Rightarrow> op_ok r) n1 = (Inr m, n')"
    using assms by (auto simp: exchangeTC_def op_bind_Inr)
  then obtain r2 n2 where r2: "(if pm_Truncated r then op_wrap ''TCP retry after a truncated answer'' (client_send c ''tcp'' q server) else op_ok r) n1 = (Inr r2, n2)"
    and "(case checkQuestion lib r2 q of Inl e \<Rightarrow> op_fail e | Inr _ \<Rightarrow> op_ok r2) n2 = (Inr m, n')" by (auto simp: op_bind_Inr)
  then have "r2 = m" "checkQuestion lib m q = Inr ()" by (auto split: sum.splits)
  then show ?thesis using r r2 by (auto simp: client_send_def op_wrap_Inr split: if_splits)
qed

lemma queryDirect_Inr: "queryDirect lib c server qname qtype n = (Inr m, n') \<Longrightarrow> answered_by lib c qname qtype server m"
  unfolding queryDirect_def answered_by_def
  by (auto simp: op_bind_Inr split: if_splits dest!: exchangeTC_Inr) (metis query.select_convs(1,2))

lemma query_all_Inr:
  assumes "query_all lib c qname qtype servers n = (Inr results, n')"
  shows "map fst results = servers \<and> (\<forall>(s, r) \<in> set results. \<forall>m. r = Inr m \<longrightarrow> answered_by lib c qname qtype s m)"
  using assms
proof (induction servers arbitrary: n n' results)
  case (Cons s servers)
  obtain res n1 where q: "queryDirect lib c s qname qtype n = (res, n1)" by force
  then obtain rest n2 where rest: "query_all lib c qname qtype servers n1 = (Inr rest, n2)" "results = (s, res) # rest"
    using Cons.prems by (auto simp: op_try_apply op_bind_Inr)
  show ?case using Cons.IH [OF rest(1)] rest(2) q queryDirect_Inr by auto
qed simp

lemma check_addresses_Inr:
  "check_addresses res as answered u = Inr (b, v) \<Longrightarrow>
     (\<forall>a \<in> set as. \<exists>r. res a = Some r \<and> (\<forall>e. r = Inl e \<longrightarrow> isLocalRouteError e)) \<and>
     (b \<longleftrightarrow> answered \<or> (\<exists>a \<in> set as. \<exists>m. res a = Some (Inr m)))"
proof (induction as arbitrary: answered u)
  case (Cons a as)
  then show ?case by (auto split: option.splits sum.splits if_splits)
qed simp

lemma check_identity_Inr:
  assumes "check_identity res byName t = Inr ()" and "map_of byName (nt_name t) = Some as"
  shows "(\<exists>a \<in> set as. \<exists>m. res a = Some (Inr m)) \<and> (\<forall>a \<in> set as. \<forall>e. res a = Some (Inl e) \<longrightarrow> isLocalRouteError e)"
proof -
  obtain v where "check_addresses res as False None = Inr (True, v)"
    using assms by (auto simp: check_identity_def split: sum.splits prod.splits bool.splits option.splits)
  from check_addresses_Inr [OF this] show ?thesis by auto
qed

lemma by_name_lookup:
  assumes "distinct (map nt_name targets)" and "t \<in> set targets"
  shows "map_of (by_name targets) (nt_name t) = Some (nt_addrs t)"
proof -
  have frame: "n \<notin> nt_name ` set ts \<Longrightarrow> map_of (fold (\<lambda>t. AList.update (nt_name t) (nt_addrs t)) ts m) n = map_of m n" for ts m n
    by (induction ts arbitrary: m) (auto simp: update_conv')
  have "map_of (fold (\<lambda>t. AList.update (nt_name t) (nt_addrs t)) targets m) (nt_name t) = Some (nt_addrs t)" for m
    using assms by (induction targets arbitrary: m) (auto simp: frame update_conv')
  then show ?thesis by (simp add: by_name_def)
qed

lemma answered_or_skipped: "set (map fst (answered_of rs)) \<union> set (skipped_of rs) = fst ` set rs"
proof (induction rs)
  case (Cons p rs)
  obtain s r where p: "p = (s, r)" by (cases p)
  have "answered_of (p # rs) = (case r of Inr m \<Rightarrow> [(s, m)] | Inl _ \<Rightarrow> []) @ answered_of rs"
    "skipped_of (p # rs) = (case r of Inr m \<Rightarrow> [] | Inl _ \<Rightarrow> [s]) @ skipped_of rs"
    by (simp_all add: p answered_of_def skipped_of_def)
  then show ?case using Cons by (cases r) (auto simp: p)
qed (simp add: answered_of_def skipped_of_def)

text \<open>
  A probe that returns has an answer from every identity, every answer is a server's own, and what
  was left out is out of this host's reach.
\<close>

lemma probeIdentities_Inr:
  assumes "probeIdentities lib c targets qname qtype n = (Inr (answers, skipped), n')" and "distinct (map nt_name targets)"
  shows "\<forall>(s, m) \<in> set answers. answered_by lib c qname qtype s m"
    and "\<forall>t \<in> set targets. \<exists>(s, m) \<in> set answers. s \<in> set (nt_addrs t)"
    and "set (map fst answers) \<union> set skipped = (\<Union>t \<in> set targets. set (nt_addrs t))"
proof -
  obtain results n1 where q: "query_all lib c qname qtype (flatten_addrs targets) n = (Inr results, n1)"
    and fin: "(case check_each (check_identity (map_of results) (by_name targets)) targets of
       Inl e \<Rightarrow> op_fail e | Inr _ \<Rightarrow> op_ok (answered_of results, skipped_of results)) n1 = (Inr (answers, skipped), n')"
    using assms(1) by (auto simp: probeIdentities_def op_bind_Inr)
  then have ok: "check_each (check_identity (map_of results) (by_name targets)) targets = Inr ()"
    and out: "answers = answered_of results" "skipped = skipped_of results" by (cases "check_each (check_identity (map_of results) (by_name targets)) targets"; simp)+
  note r = query_all_Inr [OF q]
  show "\<forall>(s, m) \<in> set answers. answered_by lib c qname qtype s m"
    using r by (fastforce simp: out answered_of_def split: sum.splits)
  show "\<forall>t \<in> set targets. \<exists>(s, m) \<in> set answers. s \<in> set (nt_addrs t)"
  proof
    fix t
    assume t: "t \<in> set targets"
    then have "check_identity (map_of results) (by_name targets) t = Inr ()" using ok by (simp add: check_each_iff)
    from check_identity_Inr [OF this by_name_lookup [OF assms(2) t]] obtain a m where
      "a \<in> set (nt_addrs t)" "map_of results a = Some (Inr m)" by blast
    then show "\<exists>(s, m) \<in> set answers. s \<in> set (nt_addrs t)"
      using map_of_SomeD by (fastforce simp: out answered_of_def split: sum.splits)
  qed
  have "set (map fst answers) \<union> set skipped = fst ` set results"
    unfolding out by (rule answered_or_skipped)
  also have "\<dots> = set (flatten_addrs targets)" using r by (metis set_map)
  finally show "set (map fst answers) \<union> set skipped = (\<Union>t \<in> set targets. set (nt_addrs t))"
    by (simp add: flatten_addrs_def)
qed

text \<open>Discovery covers every nameserver the resolver names, each with an address.\<close>

definition delegated :: "netlib \<Rightarrow> probe_client \<Rightarrow> string \<Rightarrow> ns_target list \<Rightarrow> bool" where
  "delegated lib c zone targets \<longleftrightarrow>
     (\<exists>n proto q r. pc_net c n proto (resolverAddr c) q = Inr r \<and> qy_Type q = TypeNS \<and> pm_Rcode r = RcodeSuccess \<and>
        targets \<noteq> [] \<and> map nt_name targets = nsNamesOf lib r (fqdnNL lib zone)) \<and>
     (\<forall>t \<in> set targets. nt_addrs t \<noteq> []) \<and> distinct (map nt_name targets)"

lemma resolve_targets_Inr:
  "resolve_targets lib c query r zone names n = (Inr ts, n') \<Longrightarrow> map nt_name ts = names \<and> (\<forall>t \<in> set ts. nt_addrs t \<noteq> [])"
  by (induction names arbitrary: n n' ts) (auto simp: op_bind_Inr Let_def split: if_splits)

lemma nsNames_distinct: "distinct (nsNamesOf lib r zone)"
  by (simp add: nsNamesOf_def ns_names_in_def Let_def)

lemma discoverNS_Inr:
  assumes "discoverNS lib c zone n = (Inr targets, n')"
  shows "delegated lib c zone targets"
proof -
  let ?z = "fqdnNL lib zone"
  obtain r n1 where r: "resolverQueryWithCD lib c False ?z TypeNS n = (Inr r, n1)" "nsNamesOf lib r ?z \<noteq> []"
    and ts: "resolve_targets lib c (resolverQueryWithCD lib c False) r ?z (nsNamesOf lib r ?z) n1 = (Inr targets, n')"
    using assms by (auto simp: discoverNS_def discoverNSWith_def op_bind_Inr op_wrap_Inr Let_def split: if_splits)
  from r(1) obtain k proto q where "pc_net c k proto (resolverAddr c) q = Inr r" "qy_Type q = TypeNS" "pm_Rcode r = RcodeSuccess"
    by (auto simp: resolverQueryWithCD_def op_bind_Inr op_wrap_Inr split: if_splits dest!: exchangeTC_Inr)
  then show ?thesis using resolve_targets_Inr [OF ts] r(2) nsNames_distinct unfolding delegated_def
    by (metis map_is_Nil_conv)
qed

definition ds_at :: "netlib \<Rightarrow> string \<Rightarrow> probe_msg \<Rightarrow> ds_fields set" where
  "ds_at lib domain m = fst ` set (owner_ds lib m (fqdnNL lib domain))"

text \<open>
  What an observation vouches for: an identity-complete set of authoritative answers, in which the
  DS of a key is present everywhere, respectively in which no DS selects the key anywhere.
\<close>

definition vouched :: "probelib \<Rightarrow> probe_client \<Rightarrow> string \<Rightarrow> ((string \<times> probe_msg) list \<Rightarrow> bool) \<Rightarrow> bool" where
  "vouched lib c domain P \<longleftrightarrow> (\<exists>targets answers.
     delegated (nl lib) c (findParentZone (nl lib) domain) targets \<and>
     (\<forall>(s, m) \<in> set answers. answered_by (nl lib) c (fqdnNL (nl lib) domain) TypeDS s m) \<and>
     (\<forall>t \<in> set targets. \<exists>(s, m) \<in> set answers. s \<in> set (nt_addrs t)) \<and> P answers)"

lemma key_algorithms_lookup:
  assumes "distinct (map (KeyTag (klib (qlib lib))) ksks)" and "k \<in> set ksks"
  shows "map_of (key_algorithms lib ksks) (KeyTag (klib (qlib lib)) k) = Some (dk_Algorithm k)"
proof -
  let ?t = "KeyTag (klib (qlib lib))"
  have frame: "n \<notin> ?t ` set ks \<Longrightarrow> map_of (fold (\<lambda>k. AList.update (?t k) (dk_Algorithm k)) ks m) n = map_of m n" for ks m n
    by (induction ks arbitrary: m) (auto simp: update_conv')
  have "map_of (fold (\<lambda>k. AList.update (?t k) (dk_Algorithm k)) ksks m) (?t k) = Some (dk_Algorithm k)" for m
    using assms by (induction ksks arbitrary: m) (auto simp: frame update_conv')
  then show ?thesis by (simp add: key_algorithms_def)
qed

lemma filter_all: "length (filter P xs) = length xs \<longleftrightarrow> (\<forall>x \<in> set xs. P x)"
  by (metis filter_True filter_id_conv length_filter_less less_irrefl)

theorem ProbeParentDS_sound:
  assumes "ProbeParentDS lib c domain ksks n = (Inr obs, n')"
    and "distinct (map (KeyTag (klib (qlib (nl lib)))) ksks)" and "k \<in> set ksks"
  shows "obs_AbsentOnAll obs (KeyTag (klib (qlib (nl lib))) k) \<Longrightarrow>
      vouched lib c domain (\<lambda>answers. \<forall>(s, m) \<in> set answers. \<forall>(t, a, dt, dg) \<in> ds_at (nl lib) domain m.
        \<not> (t = KeyTag (klib (qlib (nl lib))) k \<and> a = dk_Algorithm k))"
    and "obs_PresentOnAll obs (KeyTag (klib (qlib (nl lib))) k) \<Longrightarrow>
      vouched lib c domain (\<lambda>answers. \<forall>(s, m) \<in> set answers. \<exists>(t, a, dt, dg) \<in> ds_at (nl lib) domain m.
        t = KeyTag (klib (qlib (nl lib))) k \<and> a = dk_Algorithm k \<and>
        (\<exists>d \<in> {2, 4}. \<exists>t' a' dg'. ToDS lib k d = Some (t', a', dt, dg') \<and> EqualFold dg dg'))"
proof -
  let ?tag = "KeyTag (klib (qlib (nl lib))) k" and ?q = "fqdnNL (nl lib) domain"
  obtain targets n1 answers skipped n2 where t: "discoverNS (nl lib) c (findParentZone (nl lib) domain) n = (Inr targets, n1)"
    and a: "probeIdentities (nl lib) c targets ?q TypeDS n1 = (Inr (answers, skipped), n2)"
    and obs: "obs = observe lib ksks ?q targets answers skipped"
    using assms(1) by (auto simp: ProbeParentDS_def op_bind_Inr op_wrap_Inr Let_def)
  note d = discoverNS_Inr [OF t]
  then have dis: "distinct (map nt_name targets)" by (simp add: delegated_def)
  note alg = key_algorithms_lookup [OF assms(2,3)]
  have vouch: "vouched lib c domain P" if "P answers" for P
    unfolding vouched_def using d probeIdentities_Inr(1,2) [OF a dis] that by blast
  have exp: "set (expected_ds lib ksks ?tag) = {e. \<exists>d \<in> {2, 4}. ToDS lib k d = Some e}"
  proof -
    have "filter (\<lambda>k'. KeyTag (klib (qlib (nl lib))) k' = ?tag) ksks = [k]"
      using assms(2,3) by (induction ksks) (auto simp: filter_empty_conv, metis image_eqI)
    then show ?thesis by (auto simp: expected_ds_def List.map_filter_def split: if_splits)
  qed
  show "vouched lib c domain (\<lambda>answers. \<forall>(s, m) \<in> set answers. \<forall>(t, a, dt, dg) \<in> ds_at (nl lib) domain m. \<not> (t = ?tag \<and> a = dk_Algorithm k))"
    if "obs_AbsentOnAll obs ?tag"
  proof (rule vouch, clarify)
    fix s m dt dg
    assume "(s, m) \<in> set answers" and "(?tag, dk_Algorithm k, dt, dg) \<in> ds_at (nl lib) domain m"
    then have "any_on ?tag (dk_Algorithm k) (map fst (owner_ds (nl lib) m ?q))" by (force simp: any_on_def list_ex_iff ds_at_def)
    moreover have "filter (any_on ?tag (dk_Algorithm k)) (map (\<lambda>(s, m). map fst (owner_ds (nl lib) m ?q)) answers) = []"
      using that alg by (simp add: obs observe_def Let_def filter_map)
    ultimately show False using \<open>(s, m) \<in> set answers\<close> by (force simp: filter_empty_conv)
  qed
  show "vouched lib c domain (\<lambda>answers. \<forall>(s, m) \<in> set answers. \<exists>(t, a, dt, dg) \<in> ds_at (nl lib) domain m.
        t = ?tag \<and> a = dk_Algorithm k \<and> (\<exists>d \<in> {2, 4}. \<exists>t' a' dg'. ToDS lib k d = Some (t', a', dt, dg') \<and> EqualFold dg dg'))"
    if "obs_PresentOnAll obs ?tag"
  proof (rule vouch, clarify)
    fix s m
    assume "(s, m) \<in> set answers"
    moreover have "length (filter (exact_on (expected_ds lib ksks ?tag) ?tag (dk_Algorithm k))
        (map (\<lambda>(s, m). map fst (owner_ds (nl lib) m ?q)) answers)) = length (map (\<lambda>(s, m). map fst (owner_ds (nl lib) m ?q)) answers)"
      using that alg by (simp add: obs observe_def Let_def)
    ultimately have "exact_on (expected_ds lib ksks ?tag) ?tag (dk_Algorithm k) (map fst (owner_ds (nl lib) m ?q))"
      unfolding filter_all by auto
    then obtain dt dg t' a' dg' where "(?tag, dk_Algorithm k, dt, dg) \<in> set (map fst (owner_ds (nl lib) m ?q))"
      and e: "(t', a', dt, dg') \<in> set (expected_ds lib ksks ?tag)" "EqualFold dg dg'"
      unfolding exact_on_def list_ex_iff by (auto simp del: set_map)
    then have "(?tag, dk_Algorithm k, dt, dg) \<in> ds_at (nl lib) domain m" by (simp add: ds_at_def)
    moreover obtain d where "d \<in> {2, 4}" "ToDS lib k d = Some (t', a', dt, dg')" using e(1) unfolding exp by blast
    ultimately show "\<exists>(t, a, dt, dg) \<in> ds_at (nl lib) domain m. t = ?tag \<and> a = dk_Algorithm k \<and>
        (\<exists>d \<in> {2, 4}. \<exists>t' a' dg'. ToDS lib k d = Some (t', a', dt, dg') \<and> EqualFold dg dg')"
      using e(2) by (intro bexI [where x = "(?tag, dk_Algorithm k, dt, dg)"]) auto
  qed
qed

text \<open>A confirmed publication: every nameserver of the zone answered, and every answer has the serial.\<close>

lemma serial_everywhere_True:
  "fst (serial_everywhere lib qname serial as) \<Longrightarrow> (s, m) \<in> set as \<Longrightarrow> serial \<in> set (owner_soas lib m qname)"
  by (induction lib qname serial "as" rule: serial_everywhere.induct) (auto simp: Let_def split: if_splits)

theorem ProbePublishedSerial_sound:
  assumes "ProbePublishedSerial lib c domain serial n = (Inr (True, details), n')"
  shows "\<exists>targets answers. delegated lib c (fqdnNL lib domain) targets \<and>
    (\<forall>(s, m) \<in> set answers. answered_by lib c (fqdnNL lib domain) TypeSOA s m \<and> serial \<in> set (owner_soas lib m (fqdnNL lib domain))) \<and>
    (\<forall>t \<in> set targets. \<exists>(s, m) \<in> set answers. s \<in> set (nt_addrs t))"
proof -
  let ?q = "fqdnNL lib domain"
  obtain targets n1 where t: "discoverNS lib c ?q n = (Inr targets, n1)" and rest: "op_try (probeIdentities lib c targets ?q TypeSOA) (\<lambda>r. case r of
        Inl e \<Rightarrow> op_ok (False, ''SOA query failed'')
      | Inr (answers, skipped) \<Rightarrow> op_ok (serial_everywhere lib ?q serial answers)) n1 = (Inr (True, details), n')"
    using assms unfolding ProbePublishedSerial_def Let_def op_bind_Inr by blast
  obtain r n2 where a: "probeIdentities lib c targets ?q TypeSOA n1 = (r, n2)" by force
  with rest have fin: "(case r of Inl e \<Rightarrow> op_ok (False, ''SOA query failed'')
      | Inr (answers, skipped) \<Rightarrow> op_ok (serial_everywhere lib ?q serial answers)) n2 = (Inr (True, details), n')"
    by (simp add: op_try_apply)
  then obtain answers skipped where r: "r = Inr (answers, skipped)" "fst (serial_everywhere lib ?q serial answers)"
    by (auto split: sum.splits prod.splits)
  have d: "delegated lib c ?q targets" by (rule discoverNS_Inr [OF t])
  then have "distinct (map nt_name targets)" by (simp add: delegated_def)
  note p = probeIdentities_Inr [OF a [unfolded r(1)] this]
  show ?thesis using d p(1,2) serial_everywhere_True [OF r(2)] by (intro exI [of _ targets] exI [of _ answers]) auto
qed

end
