(* ===== verification/Probe_Rollover.thy ===== *)
theory Probe_Rollover
  imports Parent_Probe Rollover_Safety
begin

text \<open>
  The algorithm rollover with the signer's own parent probe: the old DS is recorded as gone only
  when every nameserver of the parent answered and none of the answers selects the old key.
\<close>

text \<open>A rollover still waiting for the old DS to disappear.\<close>

definition awaiting :: "16 word \<Rightarrow> zone_state \<Rightarrow> bool" where
  "awaiting old v \<longleftrightarrow> (\<exists>r. z_Rollover v = Some r \<and> r_OldKeyID r = old \<and> r_OldDSRemovedAt r = 0)"

lemma awaiting_upd:
  assumes "awaiting old v" "\<And>r. r_OldKeyID (f r) = r_OldKeyID r \<and> r_OldDSRemovedAt (f r) = r_OldDSRemovedAt r"
  shows "awaiting old (upd_rollover f v)"
  using assms by (auto simp: awaiting_def upd_rollover_def)

lemma push_awaiting:
  assumes "publisher_ok rm"
  shows "triple domain (awaiting old) (pushOldDSRemoval env rm domain) (\<lambda>_. awaiting old)"
proof (cases "rm_publisher rm")
  case None
  then show ?thesis by (simp add: pushOldDSRemoval_def triple_ok del: op_ok_apply)
next
  case (Some pub)
  show ?thesis unfolding pushOldDSRemoval_def Some option.case
  proof (rule triple_with_rollover, intro triple_if triple_ok triple_clock_bind triple_try [OF triple_publish [OF assms Some]])
    fix z ro tm res
    assume ph: "awaiting old (zview z)" "z_Rollover z = Some ro"
    show "triple domain (\<lambda>v. v = zview z)
        (case res of Inl e \<Rightarrow> op_ok False | Inr published \<Rightarrow> if \<not> published then op_ok True
          else op_bind (Mutate domain (upd_rollover (\<lambda>r. r\<lparr>r_DSRemovalPushedAt := now_at env tm, r_Action := removal_action r\<rparr>)))
            (\<lambda>_. op_bind (Save env) (\<lambda>_. op_ok True))) (\<lambda>_. awaiting old)"
    proof (cases res)
      case (Inl e)
      show ?thesis unfolding Inl sum.case by (rule triple_ok) (use ph in simp)
    next
      case (Inr published)
      have "awaiting old (upd_rollover (\<lambda>r. r\<lparr>r_DSRemovalPushedAt := now_at env tm, r_Action := removal_action r\<rparr>) (zview z))"
        using ph(1) by (rule awaiting_upd) simp
      then show ?thesis unfolding Inr sum.case using ph
        by (intro triple_if triple_ok triple_bind [OF triple_Mutate [where Q = "\<lambda>_. awaiting old"]] triple_bind [OF triple_Save]) auto
    qed
  qed (auto simp: awaiting_def)
qed

lemma stamp_awaiting: "triple domain (awaiting old) (stampNewKeyPropagation env rm domain) (\<lambda>_. awaiting old)"
  unfolding stampNewKeyPropagation_def Let_def
proof (rule triple_with_rollover, intro triple_if triple_ok triple_mutate_save)
  fix z z' :: zone_state and ro q h
  assume ph: "awaiting old (zview z)" and eq: "zview z' = zview z"
  show "awaiting old (zview (upd_rollover (\<lambda>r. r\<lparr>r_PhaseFirstSigned := q, r_PhaseHorizon := h\<rparr>) z'))"
    unfolding zview_upd_rollover eq using ph by (rule awaiting_upd) simp
qed auto

text \<open>What the record rests on: no answer of an identity-complete probe selects the old key.\<close>

definition old_ds_unseen :: "probelib \<Rightarrow> probe_client \<Rightarrow> string \<Rightarrow> 16 word \<Rightarrow> bool" where
  "old_ds_unseen plib c domain old \<longleftrightarrow> (\<exists>k. KeyTag (klib (qlib (nl plib))) k = old \<and>
     vouched plib c domain (\<lambda>answers. \<forall>(s, m) \<in> set answers. \<forall>(t, a, dt, dg) \<in> ds_at (nl plib) domain m. \<not> (t = old \<and> a = dk_Algorithm k)))"

abbreviation settled :: "probelib \<Rightarrow> probe_client \<Rightarrow> string \<Rightarrow> 16 word \<Rightarrow> zone_state \<Rightarrow> bool" where
  "settled plib c domain old v \<equiv> awaiting old v \<or> old_ds_unseen plib c domain old"

lemma parent_probe_absent:
  assumes "parent_probe plib c t domain [k] = Inr obs" and "obs_AbsentOnAll obs (KeyTag (klib (qlib (nl plib))) k)"
  shows "old_ds_unseen plib c domain (KeyTag (klib (qlib (nl plib))) k)"
proof -
  obtain full n' where full: "ProbeParentDS plib c domain [k] t = (Inr full, n')" "obs = parent_ds_observation.truncate full"
    using assms(1) by (cases "ProbeParentDS plib c domain [k] t" rule: prod.exhaust) (auto simp: parent_probe_def map_sum_def split: sum.splits)
  then have "obs_AbsentOnAll full (KeyTag (klib (qlib (nl plib))) k)" using assms(2) by (simp add: parent_ds_observation.truncate_def)
  then show ?thesis unfolding old_ds_unseen_def using ProbeParentDS_sound(1) [OF full(1)] by auto
qed

lemma load_tagged:
  "LoadPublicKeyByID env lib cfg domain kt tag w = (Inr k, w') \<Longrightarrow> KeyTag lib k = tag"
  by (auto simp: LoadPublicKeyByID_def op_bind_Inr op_res_Inr checkKeyTag_def split: if_splits)

lemma triple_load:
  "triple domain P (op_wrap s (LoadPublicKeyByID env lib cfg domain' kt tag)) (\<lambda>r v. P v \<and> (\<forall>k. r = Inr k \<longrightarrow> KeyTag lib k = tag))"
proof (rule tripleI)
  fix w r w'
  assume p: "zat domain P w" and m: "op_wrap s (LoadPublicKeyByID env lib cfg domain' kt tag) w = (r, w')"
  have "zat domain P w'" using tripleD [OF triple_rest [OF rest.keeps_wrap [OF rest_LoadPublicKeyByID]] p m] .
  moreover have "r = Inr k \<Longrightarrow> KeyTag lib k = tag" for k using m load_tagged by (auto simp: op_wrap_Inr)
  ultimately show "zat domain (\<lambda>v. P v \<and> (\<forall>k. r = Inr k \<longrightarrow> KeyTag lib k = tag)) w'" by (auto simp: zat_def)
qed

lemma triple_probe:
  "triple domain P (run_probe probe domain' ks) (\<lambda>r v. P v \<and> (\<forall>obs. r = Inr obs \<longrightarrow> (\<exists>t. probe t domain' ks = Inr obs)))"
  by (auto simp: triple_def zat_def run_probe_def)

lemma old_ds_gone_settled:
  assumes "obs_AbsentOnAll obs old \<Longrightarrow> old_ds_unseen plib c domain old"
  shows "triple domain (awaiting old) (old_ds_gone env domain now obs) (\<lambda>_. settled plib c domain old)"
  unfolding old_ds_gone_def Let_def
  by (rule triple_with_rollover, intro triple_if triple_ok triple_mutate_save) (use assms in \<open>auto simp: awaiting_def\<close>)

lemma await_settled:
  assumes "publisher_ok rm" and "rm_probe rm = Some (parent_probe plib c)" and "klib (qlib (nl plib)) = lib"
  shows "triple domain (awaiting old) (await_old_ds_removal env lib rm domain now) (\<lambda>_. settled plib c domain old)"
  unfolding await_old_ds_removal_def assms(2) option.case
proof (rule triple_bind [OF push_awaiting [OF assms(1)]], simp, rule triple_with_rollover)
  fix z r
  assume z: "awaiting old (zview z)" "z_Rollover z = Some r"
  then have old: "r_OldKeyID r = old" by (auto simp: awaiting_def)
  have "triple domain (awaiting old)
      (op_bind (op_wrap ''loading old KSK to probe its DS'' (LoadPublicKeyByID env lib (rm_cfg rm) domain ''ksk'' old)) (\<lambda>oldKSK.
       op_try (run_probe (parent_probe plib c) domain [oldKSK]) (\<lambda>res. case res of
         Inl e \<Rightarrow> noteBlockedPhase env domain (''the parent DS probe failed ('' @ error_text e @ ''); it is retried every cycle'')
       | Inr obs \<Rightarrow> op_bind (clearBlockedPhase env domain) (\<lambda>_. old_ds_gone env domain now obs)))) (\<lambda>_. settled plib c domain old)"
  proof (rule triple_bind [OF triple_load], simp, rule triple_try [OF triple_probe])
    fix k and res :: "error + parent_ds_observation"
    let ?P = "\<lambda>v. (awaiting old v \<and> (\<forall>k'. Inr k = (Inr k' :: error + dnskey) \<longrightarrow> KeyTag lib k' = old)) \<and>
        (\<forall>obs. res = Inr obs \<longrightarrow> (\<exists>t. parent_probe plib c t domain [k] = Inr obs))"
    show "triple domain ?P (case res of
         Inl e \<Rightarrow> noteBlockedPhase env domain (''the parent DS probe failed ('' @ error_text e @ ''); it is retried every cycle'')
       | Inr obs \<Rightarrow> op_bind (clearBlockedPhase env domain) (\<lambda>_. old_ds_gone env domain now obs)) (\<lambda>_. settled plib c domain old)"
    proof (cases res)
      case (Inl e)
      show ?thesis unfolding Inl sum.case by (rule triple_weaken [OF noteBlockedPhase_keeps [of _ "awaiting old"]]) auto
    next
      case (Inr obs)
      show ?thesis
      proof (cases "KeyTag lib k = old \<and> (\<exists>t. parent_probe plib c t domain [k] = Inr obs)")
        case True
        then have "obs_AbsentOnAll obs old \<Longrightarrow> old_ds_unseen plib c domain old"
          using parent_probe_absent assms(3) by blast
        then show ?thesis unfolding Inr sum.case
          by (intro triple_weaken [OF triple_bind [OF clearBlockedPhase_keeps [of _ "awaiting old"] _ old_ds_gone_settled]]) auto
      next
        case False
        then show ?thesis unfolding Inr by (auto simp: triple_def zat_def)
      qed
    qed
  qed
  then show "triple domain (\<lambda>v. v = zview z)
      (op_bind (op_wrap ''loading old KSK to probe its DS'' (LoadPublicKeyByID env lib (rm_cfg rm) domain ''ksk'' (r_OldKeyID r))) (\<lambda>oldKSK.
       op_try (run_probe (parent_probe plib c) domain [oldKSK]) (\<lambda>res. case res of
         Inl e \<Rightarrow> noteBlockedPhase env domain (''the parent DS probe failed ('' @ error_text e @ ''); it is retried every cycle'')
       | Inr obs \<Rightarrow> op_bind (clearBlockedPhase env domain) (\<lambda>_. old_ds_gone env domain now obs)))) (\<lambda>_. settled plib c domain old)"
    unfolding old by (rule triple_weaken) (use z in auto)
qed (auto simp: awaiting_def)

text \<open>A whole check of a rollover in the phase that waits for the removal.\<close>

theorem CheckAlgorithmRollover_settled:
  assumes "publisher_ok rm" and "rm_probe rm = Some (parent_probe plib c)" and "klib (qlib (nl plib)) = lib"
  shows "triple domain (\<lambda>v. awaiting old v \<and> algo_phase AlgoRolloverStateOldDSRemoval v)
    (CheckAlgorithmRollover env lib rm domain) (\<lambda>_. settled plib c domain old)"
  unfolding CheckAlgorithmRollover_def Let_def
proof (rule triple_with_rollover, intro triple_if triple_ok triple_clock_bind)
  fix z r tm
  assume z: "awaiting old (zview z) \<and> algo_phase AlgoRolloverStateOldDSRemoval (zview z)" "z_Rollover z = Some r"
  have st: "r_State r = AlgoRolloverStateOldDSRemoval" using z by (auto simp: in_phase_def)
  have "triple domain (awaiting old) (algo_removal_step env lib rm domain (now_at env tm)) (\<lambda>_. settled plib c domain old)"
    unfolding algo_removal_step_def
  proof (rule triple_with_rollover, intro triple_if triple_ok)
    fix z r
    assume "awaiting old (zview z)"
    then show "triple domain (\<lambda>v. v = zview z) (await_old_ds_removal env lib rm domain (now_at env tm)) (\<lambda>_. settled plib c domain old)"
      by (intro triple_weaken [OF await_settled [OF assms]]) auto
  qed (auto simp: awaiting_def triple_def zat_def)
  then have step: "triple domain (awaiting old) (op_bind (stampNewKeyPropagation env rm domain)
      (\<lambda>_. algo_removal_step env lib rm domain (now_at env tm))) (\<lambda>_. settled plib c domain old)"
    by (intro triple_bind [OF stamp_awaiting]) simp_all
  have ne: "AlgoRolloverStateOldDSRemoval \<noteq> AlgoRolloverStateDSAddWait" "AlgoRolloverStateOldDSRemoval \<noteq> AlgoRolloverStateDSPropagation"
    by (simp_all add: phase_defs)
  show "triple domain (\<lambda>v. v = zview z) (op_bind (stampNewKeyPropagation env rm domain) (\<lambda>_.
       if r_State r = AlgoRolloverStateDSAddWait then advanceAlgorithmDSAdd env rm domain (now_at env tm)
       else if r_State r = AlgoRolloverStateDSPropagation then algo_propagation_step env rm domain (now_at env tm) (effectiveParentDSTTL (r_ParentDSTTL r))
       else if r_State r = AlgoRolloverStateOldDSRemoval then algo_removal_step env lib rm domain (now_at env tm)
       else if r_State r = AlgoRolloverStateRetiring then algo_retiring_step env domain
       else op_ok ())) (\<lambda>_. settled plib c domain old)"
    unfolding st if_not_P [OF ne(1)] if_not_P [OF ne(2)] if_P [OF refl] by (rule triple_weaken [OF step]) (use z in simp_all)
qed auto

end
