(* ===== verification/Zone_Check.thy ===== *)
theory Zone_Check
  imports Parent_Probe Serials Key_Files
begin

text \<open>
  The check of a deployed zone (\<open>src/signer/internal/validate/validate.go\<close>): the DS at the
  parent, the served keys, the signatures over SOA and DNSKEY and the served serial, and the verdict
  drawn from them.
\<close>

section \<open>Results\<close>

datatype check_status = CS_pass | CS_fail | CS_partial | CS_error

record ds_check =
  dc_Status :: check_status
  dc_Found :: bool
  dc_MatchesKSK :: bool
  dc_ParentNS :: string
  dc_DSRecords :: "ds_fields list"
  dc_ExpectedDS :: "ds_fields list"

record dnskey_check =
  kc_Status :: check_status
  kc_KSKFound :: bool
  kc_ZSKFound :: bool
  kc_AuthNS :: string
  kc_KeyTags :: "16 word list"
  kc_MaterialMatched :: bool

record rrsig_check =
  rc_Status :: check_status
  rc_SOASigned :: bool
  rc_DNSKEYSigned :: bool
  rc_Verified :: bool
  rc_Broken :: bool

record soa_check =
  oc_Status :: check_status
  oc_LocalSerial :: "32 word"
  oc_RemoteSerial :: "32 word"
  oc_AuthNS :: string

record validation_result =
  vt_Domain :: string
  vt_DSCheck :: ds_check
  vt_DNSKEYCheck :: dnskey_check
  vt_RRSIGCheck :: rrsig_check
  vt_SOACheck :: soa_check
  vt_Overall :: check_status
  vt_Servfail :: bool
  vt_ResolverOutage :: bool
  vt_Errors :: "string list"

definition computeOverall :: "check_status list \<Rightarrow> check_status" where
  "computeOverall statuses =
     (let passes = count_list statuses CS_pass; fails = count_list statuses CS_fail; errs = count_list statuses CS_error;
          total = length statuses in
      if passes = total then CS_pass
      else if errs = total then CS_error
      else if fails = total then CS_fail
      else if passes = 0 \<and> 0 < errs \<and> fails = 0 then CS_error
      else CS_partial)"

definition bogusWhenDSPresent :: "ds_check \<Rightarrow> dnskey_check \<Rightarrow> rrsig_check \<Rightarrow> bool" where
  "bogusWhenDSPresent ds dnskey sigs =
     (if \<not> dc_Found ds then False
      else if dc_Status ds = CS_fail \<and> \<not> dc_MatchesKSK ds then True
      else if kc_Status dnskey = CS_fail then True
      else rc_Status sigs = CS_fail \<or> rc_Broken sigs)"

section \<open>One nameserver of a zone\<close>

text \<open>The first address record that satisfies a test, of either family.\<close>

fun first_address :: "netlib \<Rightarrow> (string \<Rightarrow> bool) \<Rightarrow> rr list \<Rightarrow> ip option" where
  "first_address lib p [] = None"
| "first_address lib p (rr # rrs) =
     (case rr of OtherRR h d \<Rightarrow>
        if (h_Rrtype h = TypeA \<or> h_Rrtype h = TypeAAAA) \<and> p (h_Name h) then Some (RDataIP lib d) else first_address lib p rrs
      | _ \<Rightarrow> first_address lib p rrs)"

definition recursive_query :: "netlib \<Rightarrow> string \<Rightarrow> 16 word \<Rightarrow> query" where
  "recursive_query lib name qtype =
     \<lparr>qy_Name = fqdnNL lib name, qy_Type = qtype, qy_RecursionDesired = True, qy_CheckingDisabled = False, qy_Do = False\<rparr>"

primrec lookup_families :: "netlib \<Rightarrow> probe_client \<Rightarrow> string \<Rightarrow> 16 word list \<Rightarrow> (nat, ip option) op" where
  "lookup_families lib c name [] = op_ok None"
| "lookup_families lib c name (t # ts) =
     op_try (client_send c ''udp'' (recursive_query lib name t) (resolverAddr c)) (\<lambda>r. case r of
       Inl e \<Rightarrow> lookup_families lib c name ts
     | Inr ar \<Rightarrow> (case first_address lib (\<lambda>_. True) (msg_Answer ar) of Some a \<Rightarrow> op_ok (Some a) | None \<Rightarrow> lookup_families lib c name ts))"

primrec resolve_first :: "netlib \<Rightarrow> probe_client \<Rightarrow> probe_msg \<Rightarrow> string list \<Rightarrow> (nat, string) op" where
  "resolve_first lib c r [] = op_fail (Msg ''could not resolve any NS to an IP address'')"
| "resolve_first lib c r (name # names) =
     (case first_address lib (\<lambda>own. canonNL lib own = canonNL lib name) (msg_Extra r) of
        Some a \<Rightarrow> op_ok (JoinHostPort (ip_String a) (portOr c))
      | None \<Rightarrow> op_bind (lookup_families lib c name [TypeA, TypeAAAA]) (\<lambda>found. case found of
          Some a \<Rightarrow> op_ok (JoinHostPort (ip_String a) (portOr c))
        | None \<Rightarrow> resolve_first lib c r names))"

definition resolveNS1 :: "netlib \<Rightarrow> probe_client \<Rightarrow> string \<Rightarrow> (nat, string) op" where
  "resolveNS1 lib c zone =
     op_bind (op_wrap ''NS lookup'' (client_send c ''udp'' (recursive_query lib zone TypeNS) (resolverAddr c))) (\<lambda>r.
     let names = (let ns = map (\<lambda>(h, d). RDataName lib d) (typed TypeNS (msg_Answer r)) in
           if ns \<noteq> [] then ns else map (\<lambda>(h, d). RDataName lib d) (typed TypeNS (msg_Ns r))) in
     if names = [] then op_fail (Msg ''no NS records found'') else resolve_first lib c r names)"

definition resolverReachable :: "netlib \<Rightarrow> probe_client \<Rightarrow> (nat, bool) op" where
  "resolverReachable lib c =
     op_try (client_send c ''udp'' \<lparr>qy_Name = ''.'', qy_Type = TypeNS, qy_RecursionDesired = True, qy_CheckingDisabled = False, qy_Do = False\<rparr>
       (resolverAddr c)) (\<lambda>r. op_ok (case r of Inl e \<Rightarrow> False | Inr _ \<Rightarrow> True))"

section \<open>The DS at the parent\<close>

definition ds_equal :: "ds_fields \<Rightarrow> ds_fields \<Rightarrow> bool" where
  "ds_equal = (\<lambda>(t, a, dt, dg) (t', a', dt', dg'). t = t' \<and> a = a' \<and> dt = dt' \<and> EqualFold dg dg')"

definition evaluateDSMatch :: "probelib \<Rightarrow> ds_check \<Rightarrow> ds_fields list \<Rightarrow> dnskey list \<Rightarrow> bool \<Rightarrow> ds_check" where
  "evaluateDSMatch lib result dsRecords acceptableKSKs kskUnloadable =
     (let expected = concat (map (\<lambda>k. List.map_filter (ToDS lib k) [2, 4]) acceptableKSKs);
          result = result\<lparr>dc_ExpectedDS := expected\<rparr> in
      if dsRecords = [] then result\<lparr>dc_Status := CS_fail, dc_Found := False\<rparr>
      else if expected = [] then result\<lparr>dc_Found := True, dc_Status := (if kskUnloadable then CS_error else CS_pass)\<rparr>
      else if list_ex (\<lambda>ds. list_ex (ds_equal ds) expected) dsRecords
        then result\<lparr>dc_Found := True, dc_MatchesKSK := True, dc_Status := CS_pass\<rparr>
      else result\<lparr>dc_Found := True, dc_Status := CS_fail\<rparr>)"

definition answer_ds :: "netlib \<Rightarrow> probe_msg \<Rightarrow> ds_fields list" where
  "answer_ds lib m = map (\<lambda>(h, d). DSFields (tlib lib) d) (typed TypeDS (msg_Answer m))"

definition ds_check0 :: ds_check where
  "ds_check0 = \<lparr>dc_Status = CS_error, dc_Found = False, dc_MatchesKSK = False, dc_ParentNS = [], dc_DSRecords = [], dc_ExpectedDS = []\<rparr>"

definition CheckDSAtParent :: "probelib \<Rightarrow> probe_client \<Rightarrow> string \<Rightarrow> dnskey list \<Rightarrow> bool \<Rightarrow> (nat, ds_check) op" where
  "CheckDSAtParent lib c domain acceptableKSKs kskUnloadable =
     op_try (resolveNS1 (nl lib) c (findParentZone (nl lib) domain)) (\<lambda>r. case r of
       Inl e \<Rightarrow> op_ok ds_check0
     | Inr parentNS \<Rightarrow>
         op_try (queryDirect (nl lib) c parentNS (fqdnNL (nl lib) domain) TypeDS) (\<lambda>r. case r of
           Inl e \<Rightarrow> op_ok (ds_check0\<lparr>dc_ParentNS := parentNS\<rparr>)
         | Inr msg \<Rightarrow>
             op_ok (evaluateDSMatch lib (ds_check0\<lparr>dc_ParentNS := parentNS, dc_DSRecords := answer_ds (nl lib) msg\<rparr>)
               (answer_ds (nl lib) msg) acceptableKSKs kskUnloadable)))"

section \<open>The served keys\<close>

definition sameKeyMaterial :: "netlib \<Rightarrow> dnskey \<Rightarrow> dnskey \<Rightarrow> bool" where
  "sameKeyMaterial lib a b \<longleftrightarrow> canonNL lib (dk_Name a) = canonNL lib (dk_Name b) \<and> dk_Flags a = dk_Flags b \<and>
     dk_Protocol a = dk_Protocol b \<and> dk_Algorithm a = dk_Algorithm b \<and> dk_PublicKey a = dk_PublicKey b"

definition answer_keys :: "probe_msg \<Rightarrow> dnskey list" where
  "answer_keys m = concat (map (\<lambda>rr. case rr of DNSKEY h k \<Rightarrow> [k\<lparr>dk_Name := h_Name h\<rparr>] | _ \<Rightarrow> []) (msg_Answer m))"

text \<open>Whether a served key is the expected one: by its material, or by its tag without a local key.\<close>

definition key_served :: "netlib \<Rightarrow> dnskey option \<Rightarrow> 16 word \<Rightarrow> dnskey \<Rightarrow> bool" where
  "key_served lib local tag k =
     (case local of Some l \<Rightarrow> sameKeyMaterial lib k l | None \<Rightarrow> KeyTag (klib (qlib lib)) k = tag)"

definition judge_keys :: "netlib \<Rightarrow> dnskey_check \<Rightarrow> dnskey list \<Rightarrow> 16 word \<Rightarrow> 16 word \<Rightarrow> dnskey option \<Rightarrow> dnskey option \<Rightarrow> dnskey_check" where
  "judge_keys lib result keys kskTag zskTag localKSK localZSK =
     (let ksk = list_ex (key_served lib localKSK kskTag) keys; zsk = list_ex (key_served lib localZSK zskTag) keys in
      result\<lparr>kc_KeyTags := map (KeyTag (klib (qlib lib))) keys, kc_KSKFound := ksk, kc_ZSKFound := zsk,
        kc_Status := (if keys = [] then CS_fail else if ksk \<and> zsk then CS_pass else if ksk \<or> zsk then CS_partial else CS_fail)\<rparr>)"

definition checkDNSKEYVisible ::
  "netlib \<Rightarrow> probe_client \<Rightarrow> string \<Rightarrow> 16 word \<Rightarrow> 16 word \<Rightarrow> dnskey option \<Rightarrow> dnskey option \<Rightarrow> (nat, dnskey_check) op" where
  "checkDNSKEYVisible lib c domain kskTag zskTag localKSK localZSK =
     (let result = \<lparr>kc_Status = CS_error, kc_KSKFound = False, kc_ZSKFound = False, kc_AuthNS = [], kc_KeyTags = [],
            kc_MaterialMatched = localKSK \<noteq> None \<or> localZSK \<noteq> None\<rparr> in
      op_try (resolveNS1 lib c (fqdnNL lib domain)) (\<lambda>r. case r of
        Inl e \<Rightarrow> op_ok result
      | Inr authNS \<Rightarrow>
          op_try (queryDirect lib c authNS (fqdnNL lib domain) TypeDNSKEY) (\<lambda>r. case r of
            Inl e \<Rightarrow> op_ok (result\<lparr>kc_AuthNS := authNS\<rparr>)
          | Inr msg \<Rightarrow> op_ok (judge_keys lib (result\<lparr>kc_AuthNS := authNS\<rparr>) (answer_keys msg) kskTag zskTag localKSK localZSK))))"

section \<open>The served signatures\<close>

record rrsig_eval =
  re_present :: bool
  re_valid :: bool
  re_expired :: bool
  re_broken :: bool
  re_validExp :: gotime
  re_expiredExp :: gotime

definition rrsig_eval0 :: rrsig_eval where
  "rrsig_eval0 = \<lparr>re_present = False, re_valid = False, re_expired = False, re_broken = False, re_validExp = 0, re_expiredExp = 0\<rparr>"

text \<open>The RRset of the type in an answer: the records with the owner of the first.\<close>

definition covered_set :: "netlib \<Rightarrow> rr list \<Rightarrow> 16 word \<Rightarrow> rr list" where
  "covered_set lib answer t =
     (case filter (\<lambda>rr. Rrtype rr = t) answer of [] \<Rightarrow> []
      | rr # rrs \<Rightarrow> filter (\<lambda>r. canonNL lib (owner r) = canonNL lib (owner rr)) (rr # rrs))"

text \<open>A signature of the RRset, and the expected key that would have made it.\<close>

definition covers :: "netlib \<Rightarrow> string \<Rightarrow> 16 word \<Rightarrow> rrsig \<Rightarrow> bool" where
  "covers lib own t g \<longleftrightarrow> sig_TypeCovered g = t \<and> canonNL lib (h_Name (sig_Hdr g)) = own \<and> canonNL lib (sig_SignerName g) = own"

definition key_of_sig :: "netlib \<Rightarrow> dnskey list \<Rightarrow> rrsig \<Rightarrow> dnskey option" where
  "key_of_sig lib keys g = List.find (\<lambda>k. KeyTag (klib (qlib lib)) k = sig_KeyTag g \<and> dk_Algorithm k = sig_Algorithm g) keys"

fun eval_sigs :: "probelib \<Rightarrow> string \<Rightarrow> 16 word \<Rightarrow> rr list \<Rightarrow> dnskey list \<Rightarrow> gotime \<Rightarrow> rr list \<Rightarrow> rrsig_eval \<Rightarrow> rrsig_eval" where
  "eval_sigs lib own t rrset keys now [] e = e"
| "eval_sigs lib own t rrset keys now (rr # rrs) e =
     (case rr of
        RRSIG g \<Rightarrow>
          if \<not> covers (nl lib) own t g then eval_sigs lib own t rrset keys now rrs e
          else (case key_of_sig (nl lib) keys g of
            None \<Rightarrow> eval_sigs lib own t rrset keys now rrs e
          | Some key \<Rightarrow>
              let exp = time_Unix (uint (sig_Expiration g)); e = e\<lparr>re_present := True\<rparr> in
              if \<not> InPeriod lib g now then
                eval_sigs lib own t rrset keys now rrs
                  (if re_valid e then e
                   else e\<lparr>re_expired := True,
                      re_expiredExp := (if re_expiredExp e = 0 \<or> exp < re_expiredExp e then exp else re_expiredExp e)\<rparr>)
              else if \<not> VerifySig (tlib (nl lib)) g key rrset then
                eval_sigs lib own t rrset keys now rrs (if re_valid e then e else e\<lparr>re_broken := True\<rparr>)
              else e\<lparr>re_valid := True, re_validExp := exp, re_expired := False, re_broken := False, re_expiredExp := 0\<rparr>)
      | _ \<Rightarrow> eval_sigs lib own t rrset keys now rrs e)"

definition evalRRSIGCover :: "probelib \<Rightarrow> rr list \<Rightarrow> 16 word \<Rightarrow> dnskey list \<Rightarrow> gotime \<Rightarrow> rrsig_eval" where
  "evalRRSIGCover lib answer t keys now =
     (case covered_set (nl lib) answer t of [] \<Rightarrow> rrsig_eval0
      | rr # rrs \<Rightarrow> eval_sigs lib (canonNL (nl lib) (owner rr)) t (rr # rrs) keys now answer rrsig_eval0)"

definition judge_sigs :: "config \<Rightarrow> gotime \<Rightarrow> rrsig_eval \<Rightarrow> rrsig_eval \<Rightarrow> rrsig_check" where
  "judge_sigs cfg now soa dnskey =
     (let result = \<lparr>rc_Status = CS_error, rc_SOASigned = re_valid soa, rc_DNSKEYSigned = re_valid dnskey, rc_Verified = True, rc_Broken = False\<rparr> in
      if re_broken soa \<or> re_broken dnskey then result\<lparr>rc_Status := CS_fail, rc_Broken := True\<rparr>
      else if re_expired soa \<or> re_expired dnskey then result\<lparr>rc_Status := CS_fail, rc_Broken := True\<rparr>
      else if re_valid soa \<and> re_valid dnskey then
        (let refresh = c_SignatureRefresh (DNSSEC cfg);
             soonest = (if re_validExp soa = 0 \<or> re_validExp dnskey \<noteq> 0 \<and> re_validExp dnskey < re_validExp soa
               then re_validExp dnskey else re_validExp soa) in
         if 0 < refresh \<and> soonest \<noteq> 0 \<and> time_sub soonest now < refresh then result\<lparr>rc_Status := CS_partial\<rparr>
         else result\<lparr>rc_Status := CS_pass\<rparr>)
      else if re_valid soa \<or> re_valid dnskey then result\<lparr>rc_Status := CS_partial, rc_Broken := True\<rparr>
      else result\<lparr>rc_Status := CS_fail, rc_Broken := True\<rparr>)"

definition rrsig_check0 :: rrsig_check where
  "rrsig_check0 = \<lparr>rc_Status = CS_error, rc_SOASigned = False, rc_DNSKEYSigned = False, rc_Verified = False, rc_Broken = False\<rparr>"

definition checkRRSIGPresent :: "probelib \<Rightarrow> probe_client \<Rightarrow> config \<Rightarrow> gotime \<Rightarrow> string \<Rightarrow> dnskey list \<Rightarrow> dnskey list \<Rightarrow> (nat, rrsig_check) op" where
  "checkRRSIGPresent lib c cfg now domain kskKeys zskKeys =
     op_try (op_bind (resolveNS1 (nl lib) c (fqdnNL (nl lib) domain)) (\<lambda>authNS.
             op_bind (queryDirect (nl lib) c authNS (fqdnNL (nl lib) domain) TypeSOA) (\<lambda>soaMsg.
             op_bind (queryDirect (nl lib) c authNS (fqdnNL (nl lib) domain) TypeDNSKEY) (\<lambda>dnskeyMsg. op_ok (soaMsg, dnskeyMsg))))) (\<lambda>r. case r of
       Inl e \<Rightarrow> op_ok rrsig_check0
     | Inr (soaMsg, dnskeyMsg) \<Rightarrow>
         let served = answer_keys dnskeyMsg;
             ksks = (if kskKeys = [] then served else kskKeys); zsks = (if zskKeys = [] then served else zskKeys) in
         op_ok (judge_sigs cfg now (evalRRSIGCover lib (msg_Answer soaMsg) TypeSOA zsks now)
           (evalRRSIGCover lib (msg_Answer dnskeyMsg) TypeDNSKEY ksks now)))"

section \<open>The served serial\<close>

definition answer_serials :: "probe_msg \<Rightarrow> 32 word list" where
  "answer_serials m = concat (map (\<lambda>rr. case rr of SOA h serial _ _ \<Rightarrow> [serial] | _ \<Rightarrow> []) (msg_Answer m))"

definition checkSOASerial :: "netlib \<Rightarrow> probe_client \<Rightarrow> string \<Rightarrow> 32 word \<Rightarrow> (nat, soa_check) op" where
  "checkSOASerial lib c domain localSerial =
     (let result = \<lparr>oc_Status = CS_error, oc_LocalSerial = localSerial, oc_RemoteSerial = 0, oc_AuthNS = []\<rparr> in
      op_try (resolveNS1 lib c (fqdnNL lib domain)) (\<lambda>r. case r of
        Inl e \<Rightarrow> op_ok result
      | Inr authNS \<Rightarrow>
          op_try (queryDirect lib c authNS (fqdnNL lib domain) TypeSOA) (\<lambda>r. case r of
            Inl e \<Rightarrow> op_ok (result\<lparr>oc_AuthNS := authNS\<rparr>)
          | Inr msg \<Rightarrow> (case answer_serials msg of
              [] \<Rightarrow> op_ok (result\<lparr>oc_AuthNS := authNS\<rparr>)
            | s # _ \<Rightarrow> op_ok (result\<lparr>oc_AuthNS := authNS, oc_RemoteSerial := s,
                oc_Status := (if s = localSerial then CS_pass else CS_fail)\<rparr>)))))"

section \<open>The verdict\<close>

definition LoadPublicKey :: "env \<Rightarrow> keylib \<Rightarrow> config \<Rightarrow> string \<Rightarrow> string \<Rightarrow> ('w fs_world_scheme, dnskey) op" where
  "LoadPublicKey env lib cfg domain keyType =
     op_bind (loadPublicKeyFromPath env lib (liveBase cfg domain keyType)) (\<lambda>k.
     op_bind (op_res ''key'' (validateLoadedKey lib k domain keyType)) (\<lambda>_. op_ok k))"

text \<open>A key that is looked for and may be missing.\<close>

definition optional_key :: "bool \<Rightarrow> ('w, dnskey) op \<Rightarrow> ('w, dnskey option) op" where
  "optional_key wanted m = (if wanted then op_try m (\<lambda>r. op_ok (case r of Inl e \<Rightarrow> None | Inr k \<Rightarrow> Some k)) else op_ok None)"

record local_keys =
  lk_KSK :: "dnskey option"
  lk_ZSK :: "dnskey option"
  lk_OldKSK :: "dnskey option"
  lk_OldZSK :: "dnskey option"

definition old_ksk_id :: "zone_state \<Rightarrow> 16 word" where
  "old_ksk_id z = (case z_Rollover z of None \<Rightarrow> 0
     | Some r \<Rightarrow> if r_Type r = ''ksk'' \<or> r_Type r = ''algorithm'' then r_OldKeyID r else 0)"

definition old_zsk_id :: "zone_state \<Rightarrow> 16 word" where
  "old_zsk_id z = (case z_Rollover z of None \<Rightarrow> 0
     | Some r \<Rightarrow> if r_Type r = ''zsk'' then r_OldKeyID r else if r_Type r = ''algorithm'' then r_OldZSKID r else 0)"

definition load_local_keys :: "env \<Rightarrow> keylib \<Rightarrow> config \<Rightarrow> string \<Rightarrow> zone_state \<Rightarrow> ('w fs_world_scheme, local_keys) op" where
  "load_local_keys env lib cfg domain z =
     op_bind (optional_key (z_KSK z \<noteq> None) (LoadPublicKey env lib cfg domain ''ksk'')) (\<lambda>ksk.
     op_bind (optional_key (z_ZSK z \<noteq> None) (LoadPublicKey env lib cfg domain ''zsk'')) (\<lambda>zsk.
     op_bind (optional_key (old_ksk_id z \<noteq> 0) (LoadPublicKeyByID env lib cfg domain ''ksk'' (old_ksk_id z))) (\<lambda>oldKSK.
     op_bind (optional_key (old_zsk_id z \<noteq> 0) (LoadPublicKeyByID env lib cfg domain ''zsk'' (old_zsk_id z))) (\<lambda>oldZSK.
     op_ok \<lparr>lk_KSK = ksk, lk_ZSK = zsk, lk_OldKSK = oldKSK, lk_OldZSK = oldZSK\<rparr>))))"

definition given :: "'a option \<Rightarrow> 'a list" where
  "given x = (case x of None \<Rightarrow> [] | Some a \<Rightarrow> [a])"

definition key_id :: "key_state option \<Rightarrow> 16 word" where
  "key_id k = (case k of None \<Rightarrow> 0 | Some k \<Rightarrow> k_ID k)"

text \<open>The two overrides of the computed status.\<close>

definition override_unreachable :: "bool \<Rightarrow> validation_result \<Rightarrow> validation_result" where
  "override_unreachable reachable res =
     (if reachable then res\<lparr>vt_Overall := CS_fail, vt_Servfail := True\<rparr>
      else res\<lparr>vt_Overall := CS_error, vt_ResolverOutage := True,
        vt_Errors := vt_Errors res @ [''all checks errored and the local resolver did not respond'']\<rparr>)"

definition override_bogus :: "validation_result \<Rightarrow> validation_result" where
  "override_bogus res =
     (if bogusWhenDSPresent (vt_DSCheck res) (vt_DNSKEYCheck res) (vt_RRSIGCheck res)
      then res\<lparr>vt_Overall := CS_fail, vt_Servfail := True\<rparr> else res)"

definition all_errored :: "validation_result \<Rightarrow> bool" where
  "all_errored res \<longleftrightarrow> kc_Status (vt_DNSKEYCheck res) = CS_error \<and> rc_Status (vt_RRSIGCheck res) = CS_error \<and> oc_Status (vt_SOACheck res) = CS_error"

definition check_zone :: "probelib \<Rightarrow> probe_client \<Rightarrow> config \<Rightarrow> gotime \<Rightarrow> string \<Rightarrow> zone_state \<Rightarrow> local_keys \<Rightarrow> (nat, validation_result) op" where
  "check_zone lib c cfg now domain z keys =
     (let acceptableKSKs = given (lk_KSK keys) @ given (lk_OldKSK keys);
          kskUnloadable = (z_KSK z \<noteq> None \<and> acceptableKSKs = []);
          signingZSKs = given (lk_ZSK keys) @ given (lk_OldZSK keys);
          localSerial = (if z_PublishedSerial z \<noteq> 0 then z_PublishedSerial z else z_Serial z) in
      op_bind (CheckDSAtParent lib c domain acceptableKSKs kskUnloadable) (\<lambda>ds.
      op_bind (checkDNSKEYVisible (nl lib) c domain (key_id (z_KSK z)) (key_id (z_ZSK z)) (lk_KSK keys) (lk_ZSK keys)) (\<lambda>dk.
      op_bind (checkRRSIGPresent lib c cfg now domain acceptableKSKs signingZSKs) (\<lambda>sg.
      op_bind (checkSOASerial (nl lib) c domain localSerial) (\<lambda>so.
      let res = \<lparr>vt_Domain = domain, vt_DSCheck = ds, vt_DNSKEYCheck = dk, vt_RRSIGCheck = sg, vt_SOACheck = so,
            vt_Overall = computeOverall [dc_Status ds, kc_Status dk, rc_Status sg, oc_Status so],
            vt_Servfail = False, vt_ResolverOutage = False, vt_Errors = []\<rparr> in
      op_bind (if all_errored res then op_bind (resolverReachable (nl lib) c) (\<lambda>up. op_ok (override_unreachable up res)) else op_ok res) (\<lambda>res.
      op_ok (override_bogus res)))))))"

definition unknown_zone :: "string \<Rightarrow> validation_result" where
  "unknown_zone domain =
     \<lparr>vt_Domain = domain, vt_DSCheck = ds_check0,
      vt_DNSKEYCheck = \<lparr>kc_Status = CS_error, kc_KSKFound = False, kc_ZSKFound = False, kc_AuthNS = [], kc_KeyTags = [], kc_MaterialMatched = False\<rparr>,
      vt_RRSIGCheck = rrsig_check0, vt_SOACheck = \<lparr>oc_Status = CS_error, oc_LocalSerial = 0, oc_RemoteSerial = 0, oc_AuthNS = []\<rparr>,
      vt_Overall = CS_error, vt_Servfail = False, vt_ResolverOutage = False, vt_Errors = [''zone not found in state'']\<rparr>"

text \<open>The exchanges of a check are numbered from the tick the key files were read at.\<close>

definition ValidateZone :: "env \<Rightarrow> probelib \<Rightarrow> probe_client \<Rightarrow> config \<Rightarrow> gotime \<Rightarrow> string \<Rightarrow> (world, validation_result) op" where
  "ValidateZone env lib c cfg now domain =
     op_bind (op_get (\<lambda>w. GetZone domain (mem w))) (\<lambda>zs. case zs of
       None \<Rightarrow> op_ok (unknown_zone domain)
     | Some z \<Rightarrow>
         op_bind (load_local_keys env (klib (qlib (nl lib))) cfg domain z) (\<lambda>keys w.
           (fst (check_zone lib c cfg now domain z keys (tick w)), w)))"

record validate_summary =
  vs_Total :: nat
  vs_Pass :: nat
  vs_Fail :: nat
  vs_Partial :: nat
  vs_Error :: nat

definition tally :: "check_status \<Rightarrow> validate_summary \<Rightarrow> validate_summary" where
  "tally st s = (let s = s\<lparr>vs_Total := Suc (vs_Total s)\<rparr> in
     case st of CS_pass \<Rightarrow> s\<lparr>vs_Pass := Suc (vs_Pass s)\<rparr> | CS_fail \<Rightarrow> s\<lparr>vs_Fail := Suc (vs_Fail s)\<rparr>
     | CS_partial \<Rightarrow> s\<lparr>vs_Partial := Suc (vs_Partial s)\<rparr> | CS_error \<Rightarrow> s\<lparr>vs_Error := Suc (vs_Error s)\<rparr>)"

primrec validate_domains ::
  "env \<Rightarrow> probelib \<Rightarrow> probe_client \<Rightarrow> config \<Rightarrow> gotime \<Rightarrow> string list \<Rightarrow> (world, (string \<times> validation_result) list \<times> validate_summary) op" where
  "validate_domains env lib c cfg now [] = op_ok ([], \<lparr>vs_Total = 0, vs_Pass = 0, vs_Fail = 0, vs_Partial = 0, vs_Error = 0\<rparr>)"
| "validate_domains env lib c cfg now (d # ds) =
     op_bind (ValidateZone env lib c cfg now d) (\<lambda>res.
     op_bind (validate_domains env lib c cfg now ds) (\<lambda>(rest, s). op_ok ((d, res) # rest, tally (vt_Overall res) s)))"

definition ValidateAll :: "env \<Rightarrow> probelib \<Rightarrow> probe_client \<Rightarrow> config \<Rightarrow> gotime \<Rightarrow> (world, (string \<times> validation_result) list \<times> validate_summary) op" where
  "ValidateAll env lib c cfg now = op_bind (op_get (\<lambda>w. ZoneNames (mem w))) (\<lambda>ds. validate_domains env lib c cfg now ds)"

section \<open>What the verdicts mean\<close>

text \<open>A good signature: it covers the RRset, an expected key made it, it is inside its window and verifies.\<close>

definition good_cover :: "probelib \<Rightarrow> rr list \<Rightarrow> 16 word \<Rightarrow> dnskey list \<Rightarrow> gotime \<Rightarrow> rrsig \<Rightarrow> bool" where
  "good_cover lib answer t keys now g \<longleftrightarrow> covered_set (nl lib) answer t \<noteq> [] \<and> RRSIG g \<in> set answer \<and>
     covers (nl lib) (canonNL (nl lib) (owner (hd (covered_set (nl lib) answer t)))) t g \<and> InPeriod lib g now \<and>
     (\<exists>key. key_of_sig (nl lib) keys g = Some key \<and> VerifySig (tlib (nl lib)) g key (covered_set (nl lib) answer t))"

lemma eval_sigs_valid:
  assumes "\<not> re_valid e"
  shows "(re_valid (eval_sigs lib own t rrset keys now rrs e) \<longleftrightarrow>
      (\<exists>g key. RRSIG g \<in> set rrs \<and> covers (nl lib) own t g \<and> key_of_sig (nl lib) keys g = Some key \<and> InPeriod lib g now \<and>
        VerifySig (tlib (nl lib)) g key rrset)) \<and>
    (re_valid (eval_sigs lib own t rrset keys now rrs e) \<longrightarrow>
      \<not> re_expired (eval_sigs lib own t rrset keys now rrs e) \<and> \<not> re_broken (eval_sigs lib own t rrset keys now rrs e))"
  using assms
proof (induction rrs arbitrary: e)
  case (Cons rr rrs)
  note IH = Cons.IH [THEN conjunct1] Cons.IH [THEN conjunct2, rule_format]
  show ?case
  proof (cases "\<exists>g. rr = RRSIG g")
    case True
    then obtain g where g: "rr = RRSIG g" by blast
    show ?thesis
    proof (cases "covers (nl lib) own t g \<and> key_of_sig (nl lib) keys g \<noteq> None")
      case True
      then obtain key where key: "covers (nl lib) own t g" "key_of_sig (nl lib) keys g = Some key" by blast
      show ?thesis
      proof (cases "InPeriod lib g now \<and> VerifySig (tlib (nl lib)) g key rrset")
        case True
        then show ?thesis using g key by (auto simp: Let_def)
      next
        case False
        then show ?thesis using g key Cons.prems by (auto simp: Let_def IH)
      qed
    next
      case False
      then show ?thesis using g Cons.prems by (auto simp: IH split: option.splits)
    qed
  next
    case False
    then have "eval_sigs lib own t rrset keys now (rr # rrs) e = eval_sigs lib own t rrset keys now rrs e" by (cases rr) auto
    then show ?thesis using False Cons.prems by (auto simp: IH)
  qed
qed simp

theorem evalRRSIGCover_exact:
  "re_valid (evalRRSIGCover lib answer t keys now) \<longleftrightarrow> (\<exists>g. good_cover lib answer t keys now g)"
  "re_valid (evalRRSIGCover lib answer t keys now) \<Longrightarrow>
     \<not> re_expired (evalRRSIGCover lib answer t keys now) \<and> \<not> re_broken (evalRRSIGCover lib answer t keys now)"
  using eval_sigs_valid [of rrsig_eval0 lib]
  by (auto simp: evalRRSIGCover_def good_cover_def rrsig_eval0_def split: list.splits)

lemma computeOverall_pass: "computeOverall [a, b, c, d] = CS_pass \<longleftrightarrow> a = CS_pass \<and> b = CS_pass \<and> c = CS_pass \<and> d = CS_pass"
  by (auto simp: computeOverall_def Let_def split: if_splits)

text \<open>What each check saw when it passed.\<close>

definition ds_proved :: "probelib \<Rightarrow> probe_client \<Rightarrow> string \<Rightarrow> dnskey list \<Rightarrow> bool \<Rightarrow> bool" where
  "ds_proved lib c domain ksks unloadable \<longleftrightarrow> (\<exists>server m. answered_by (nl lib) c (fqdnNL (nl lib) domain) TypeDS server m \<and> answer_ds (nl lib) m \<noteq> [] \<and>
     ((\<exists>ds \<in> set (answer_ds (nl lib) m). \<exists>k \<in> set ksks. \<exists>d \<in> {2, 4}. \<exists>e. ToDS lib k d = Some e \<and> ds_equal ds e) \<or>
      \<not> unloadable \<and> (\<forall>k \<in> set ksks. \<forall>d \<in> {2, 4}. ToDS lib k d = None)))"

definition keys_proved :: "netlib \<Rightarrow> probe_client \<Rightarrow> string \<Rightarrow> 16 word \<Rightarrow> 16 word \<Rightarrow> dnskey option \<Rightarrow> dnskey option \<Rightarrow> bool" where
  "keys_proved lib c domain kskTag zskTag ksk zsk \<longleftrightarrow> (\<exists>server m. answered_by lib c (fqdnNL lib domain) TypeDNSKEY server m \<and>
     (\<exists>k \<in> set (answer_keys m). key_served lib ksk kskTag k) \<and> (\<exists>k \<in> set (answer_keys m). key_served lib zsk zskTag k))"

definition sigs_proved :: "probelib \<Rightarrow> probe_client \<Rightarrow> gotime \<Rightarrow> string \<Rightarrow> dnskey list \<Rightarrow> dnskey list \<Rightarrow> bool" where
  "sigs_proved lib c now domain ksks zsks \<longleftrightarrow> (\<exists>server soaMsg keyMsg.
     answered_by (nl lib) c (fqdnNL (nl lib) domain) TypeSOA server soaMsg \<and> answered_by (nl lib) c (fqdnNL (nl lib) domain) TypeDNSKEY server keyMsg \<and>
     (\<exists>g. good_cover lib (msg_Answer soaMsg) TypeSOA (if zsks = [] then answer_keys keyMsg else zsks) now g) \<and>
     (\<exists>g. good_cover lib (msg_Answer keyMsg) TypeDNSKEY (if ksks = [] then answer_keys keyMsg else ksks) now g))"

definition serial_proved :: "netlib \<Rightarrow> probe_client \<Rightarrow> string \<Rightarrow> 32 word \<Rightarrow> bool" where
  "serial_proved lib c domain serial \<longleftrightarrow> (\<exists>server m rest. answered_by lib c (fqdnNL lib domain) TypeSOA server m \<and> answer_serials m = serial # rest)"

lemma set_map_filter: "set (List.map_filter f xs) = {y. \<exists>x \<in> set xs. f x = Some y}"
  by (induction xs) (auto simp: List.map_filter_simps split: option.splits)

lemma evaluateDSMatch_pass:
  assumes "dc_Status (evaluateDSMatch lib r dss ksks unloadable) = CS_pass"
  shows "dss \<noteq> [] \<and> ((\<exists>ds \<in> set dss. \<exists>k \<in> set ksks. \<exists>d \<in> {2, 4}. \<exists>e. ToDS lib k d = Some e \<and> ds_equal ds e) \<or>
    \<not> unloadable \<and> (\<forall>k \<in> set ksks. \<forall>d \<in> {2, 4}. ToDS lib k d = None))"
proof -
  let ?exp = "concat (map (\<lambda>k. List.map_filter (ToDS lib k) [2, 4]) ksks)"
  have mem: "e \<in> set ?exp \<longleftrightarrow> (\<exists>k \<in> set ksks. \<exists>d \<in> {2, 4}. ToDS lib k d = Some e)" for e
    by (auto simp: set_map_filter simp del: map_filter_simps)
  have ne: "dss \<noteq> []" using assms by (auto simp: evaluateDSMatch_def Let_def)
  show ?thesis
  proof (cases "?exp = []")
    case True
    then have none: "\<forall>k \<in> set ksks. \<forall>d \<in> {2, 4}. ToDS lib k d = None" using mem by (metis empty_iff list.set(1) not_None_eq)
    have "\<not> unloadable" using assms True ne by (auto simp: evaluateDSMatch_def Let_def split: if_splits)
    then show ?thesis using ne none by blast
  next
    case False
    then have "list_ex (\<lambda>ds. list_ex (ds_equal ds) ?exp) dss"
      using assms ne by (auto simp: evaluateDSMatch_def Let_def split: if_splits)
    then show ?thesis using ne mem unfolding list_ex_iff by blast
  qed
qed

lemma CheckDSAtParent_pass:
  assumes "CheckDSAtParent lib c domain ksks unloadable n = (Inr r, n')" and "dc_Status r = CS_pass"
  shows "ds_proved lib c domain ksks unloadable"
proof -
  obtain q n1 where q: "resolveNS1 (nl lib) c (findParentZone (nl lib) domain) n = (q, n1)" by force
  obtain server where server: "q = Inr server" using assms q by (cases q) (auto simp: CheckDSAtParent_def op_try_apply ds_check0_def)
  obtain p n2 where p: "queryDirect (nl lib) c server (fqdnNL (nl lib) domain) TypeDS n1 = (p, n2)" by force
  obtain m where m: "p = Inr m" using assms q p server by (cases p) (auto simp: CheckDSAtParent_def op_try_apply ds_check0_def)
  have "r = evaluateDSMatch lib (ds_check0\<lparr>dc_ParentNS := server, dc_DSRecords := answer_ds (nl lib) m\<rparr>) (answer_ds (nl lib) m) ksks unloadable"
    using assms(1) q p server m by (simp add: CheckDSAtParent_def op_try_apply)
  from evaluateDSMatch_pass [OF assms(2) [unfolded this]] show ?thesis
    unfolding ds_proved_def using queryDirect_Inr p m by blast
qed

lemma checkDNSKEYVisible_pass:
  assumes "checkDNSKEYVisible lib c domain kt zt ksk zsk n = (Inr r, n')" and "kc_Status r = CS_pass"
  shows "keys_proved lib c domain kt zt ksk zsk"
proof -
  obtain q n1 where q: "resolveNS1 lib c (fqdnNL lib domain) n = (q, n1)" by force
  obtain server where server: "q = Inr server" using assms q by (cases q) (auto simp: checkDNSKEYVisible_def op_try_apply Let_def)
  obtain p n2 where p: "queryDirect lib c server (fqdnNL lib domain) TypeDNSKEY n1 = (p, n2)" by force
  obtain m where m: "p = Inr m" using assms q p server by (cases p) (auto simp: checkDNSKEYVisible_def op_try_apply Let_def)
  have "list_ex (key_served lib ksk kt) (answer_keys m) \<and> list_ex (key_served lib zsk zt) (answer_keys m)"
    using assms q p server m by (auto simp: checkDNSKEYVisible_def op_try_apply Let_def judge_keys_def split: if_splits)
  then show ?thesis unfolding keys_proved_def list_ex_iff using queryDirect_Inr p m by blast
qed

lemma judge_sigs_pass: "rc_Status (judge_sigs cfg now soa dk) = CS_pass \<Longrightarrow> re_valid soa \<and> re_valid dk"
  by (auto simp: judge_sigs_def Let_def split: if_splits)

lemma checkRRSIGPresent_pass:
  assumes "checkRRSIGPresent lib c cfg now domain ksks zsks n = (Inr r, n')" and "rc_Status r = CS_pass"
  shows "sigs_proved lib c now domain ksks zsks"
proof -
  let ?get = "op_bind (resolveNS1 (nl lib) c (fqdnNL (nl lib) domain)) (\<lambda>authNS.
    op_bind (queryDirect (nl lib) c authNS (fqdnNL (nl lib) domain) TypeSOA) (\<lambda>soaMsg.
    op_bind (queryDirect (nl lib) c authNS (fqdnNL (nl lib) domain) TypeDNSKEY) (\<lambda>dnskeyMsg. op_ok (soaMsg, dnskeyMsg))))"
  obtain q n1 where q: "?get n = (q, n1)" by force
  obtain sm km where m: "q = Inr (sm, km)" using assms q by (cases q) (auto simp: checkRRSIGPresent_def op_try_apply rrsig_check0_def)
  obtain server where "answered_by (nl lib) c (fqdnNL (nl lib) domain) TypeSOA server sm" "answered_by (nl lib) c (fqdnNL (nl lib) domain) TypeDNSKEY server km"
    using q unfolding m op_bind_Inr by (auto dest: queryDirect_Inr)
  moreover
  have "r = judge_sigs cfg now (evalRRSIGCover lib (msg_Answer sm) TypeSOA (if zsks = [] then answer_keys km else zsks) now)
      (evalRRSIGCover lib (msg_Answer km) TypeDNSKEY (if ksks = [] then answer_keys km else ksks) now)"
    using assms(1) q m by (simp add: checkRRSIGPresent_def op_try_apply Let_def)
  from judge_sigs_pass [OF assms(2) [unfolded this]] have
    "\<exists>g. good_cover lib (msg_Answer sm) TypeSOA (if zsks = [] then answer_keys km else zsks) now g"
    "\<exists>g. good_cover lib (msg_Answer km) TypeDNSKEY (if ksks = [] then answer_keys km else ksks) now g"
    unfolding evalRRSIGCover_exact(1) by blast+
  ultimately show ?thesis unfolding sigs_proved_def by (intro exI [of _ server] exI [of _ sm] exI [of _ km]) simp
qed

lemma checkSOASerial_pass:
  assumes "checkSOASerial lib c domain serial n = (Inr r, n')" and "oc_Status r = CS_pass"
  shows "serial_proved lib c domain serial"
proof -
  obtain q n1 where q: "resolveNS1 lib c (fqdnNL lib domain) n = (q, n1)" by force
  obtain server where server: "q = Inr server" using assms q by (cases q) (auto simp: checkSOASerial_def op_try_apply Let_def)
  obtain p n2 where p: "queryDirect lib c server (fqdnNL lib domain) TypeSOA n1 = (p, n2)" by force
  obtain m where m: "p = Inr m" using assms q p server by (cases p) (auto simp: checkSOASerial_def op_try_apply Let_def)
  have "\<exists>rest. answer_serials m = serial # rest"
    using assms q p server m by (auto simp: checkSOASerial_def op_try_apply Let_def split: list.splits if_splits)
  then show ?thesis unfolding serial_proved_def using queryDirect_Inr p m by blast
qed

text \<open>A passing verdict, and one that calls the zone broken.\<close>

definition acceptable_ksks :: "local_keys \<Rightarrow> dnskey list" where
  "acceptable_ksks keys = given (lk_KSK keys) @ given (lk_OldKSK keys)"

definition signing_zsks :: "local_keys \<Rightarrow> dnskey list" where
  "signing_zsks keys = given (lk_ZSK keys) @ given (lk_OldZSK keys)"

lemma check_zone_Inr:
  assumes "check_zone lib c cfg now domain z keys n = (Inr res, n')"
  obtains n1 n2 n3 n4 n5 ds dk sg so up where
    "CheckDSAtParent lib c domain (acceptable_ksks keys) (z_KSK z \<noteq> None \<and> acceptable_ksks keys = []) n = (Inr ds, n1)"
    "checkDNSKEYVisible (nl lib) c domain (key_id (z_KSK z)) (key_id (z_ZSK z)) (lk_KSK keys) (lk_ZSK keys) n1 = (Inr dk, n2)"
    "checkRRSIGPresent lib c cfg now domain (acceptable_ksks keys) (signing_zsks keys) n2 = (Inr sg, n3)"
    "checkSOASerial (nl lib) c domain (if z_PublishedSerial z \<noteq> 0 then z_PublishedSerial z else z_Serial z) n3 = (Inr so, n4)"
    "res = override_bogus ((if kc_Status dk = CS_error \<and> rc_Status sg = CS_error \<and> oc_Status so = CS_error then override_unreachable up else id)
      \<lparr>vt_Domain = domain, vt_DSCheck = ds, vt_DNSKEYCheck = dk, vt_RRSIGCheck = sg, vt_SOACheck = so,
        vt_Overall = computeOverall [dc_Status ds, kc_Status dk, rc_Status sg, oc_Status so],
        vt_Servfail = False, vt_ResolverOutage = False, vt_Errors = []\<rparr>)"
    "up \<longrightarrow> resolverReachable (nl lib) c n4 = (Inr True, n5)"
proof -
  obtain n1 n2 n3 n4 ds dk sg so where runs: "CheckDSAtParent lib c domain (acceptable_ksks keys) (z_KSK z \<noteq> None \<and> acceptable_ksks keys = []) n = (Inr ds, n1)"
    "checkDNSKEYVisible (nl lib) c domain (key_id (z_KSK z)) (key_id (z_ZSK z)) (lk_KSK keys) (lk_ZSK keys) n1 = (Inr dk, n2)"
    "checkRRSIGPresent lib c cfg now domain (acceptable_ksks keys) (signing_zsks keys) n2 = (Inr sg, n3)"
    "checkSOASerial (nl lib) c domain (if z_PublishedSerial z \<noteq> 0 then z_PublishedSerial z else z_Serial z) n3 = (Inr so, n4)"
    and fin: "(let res = \<lparr>vt_Domain = domain, vt_DSCheck = ds, vt_DNSKEYCheck = dk, vt_RRSIGCheck = sg, vt_SOACheck = so,
            vt_Overall = computeOverall [dc_Status ds, kc_Status dk, rc_Status sg, oc_Status so],
            vt_Servfail = False, vt_ResolverOutage = False, vt_Errors = []\<rparr> in
      op_bind (if all_errored res then op_bind (resolverReachable (nl lib) c) (\<lambda>up. op_ok (override_unreachable up res)) else op_ok res) (\<lambda>res.
      op_ok (override_bogus res))) n4 = (Inr res, n')"
    using assms unfolding check_zone_def Let_def op_bind_Inr acceptable_ksks_def signing_zsks_def by blast
  show thesis
  proof (cases "kc_Status dk = CS_error \<and> rc_Status sg = CS_error \<and> oc_Status so = CS_error")
    case True
    then obtain up n5 where up: "resolverReachable (nl lib) c n4 = (Inr up, n5)" using fin by (auto simp: Let_def all_errored_def op_bind_Inr)
    show thesis by (rule that [OF runs, of up n5]) (use fin up True in \<open>auto simp: Let_def all_errored_def op_bind_Inr\<close>)
  next
    case False
    show thesis by (rule that [OF runs, of False 0]) (use fin False in \<open>auto simp: Let_def all_errored_def\<close>)
  qed
qed

theorem pass_verdict_sound:
  assumes "check_zone lib c cfg now domain z keys n = (Inr res, n')" and "vt_Overall res = CS_pass"
  shows "ds_proved lib c domain (acceptable_ksks keys) (z_KSK z \<noteq> None \<and> acceptable_ksks keys = [])"
    and "keys_proved (nl lib) c domain (key_id (z_KSK z)) (key_id (z_ZSK z)) (lk_KSK keys) (lk_ZSK keys)"
    and "sigs_proved lib c now domain (acceptable_ksks keys) (signing_zsks keys)"
    and "serial_proved (nl lib) c domain (if z_PublishedSerial z \<noteq> 0 then z_PublishedSerial z else z_Serial z)"
    and "\<not> vt_Servfail res"
proof -
  obtain n1 n2 n3 n4 n5 ds dk sg so up where runs: "CheckDSAtParent lib c domain (acceptable_ksks keys) (z_KSK z \<noteq> None \<and> acceptable_ksks keys = []) n = (Inr ds, n1)"
    "checkDNSKEYVisible (nl lib) c domain (key_id (z_KSK z)) (key_id (z_ZSK z)) (lk_KSK keys) (lk_ZSK keys) n1 = (Inr dk, n2)"
    "checkRRSIGPresent lib c cfg now domain (acceptable_ksks keys) (signing_zsks keys) n2 = (Inr sg, n3)"
    "checkSOASerial (nl lib) c domain (if z_PublishedSerial z \<noteq> 0 then z_PublishedSerial z else z_Serial z) n3 = (Inr so, n4)"
    and res: "res = override_bogus ((if kc_Status dk = CS_error \<and> rc_Status sg = CS_error \<and> oc_Status so = CS_error then override_unreachable up else id)
      \<lparr>vt_Domain = domain, vt_DSCheck = ds, vt_DNSKEYCheck = dk, vt_RRSIGCheck = sg, vt_SOACheck = so,
        vt_Overall = computeOverall [dc_Status ds, kc_Status dk, rc_Status sg, oc_Status so],
        vt_Servfail = False, vt_ResolverOutage = False, vt_Errors = []\<rparr>)"
    by (rule check_zone_Inr [OF assms(1)])
  have all: "dc_Status ds = CS_pass" "kc_Status dk = CS_pass" "rc_Status sg = CS_pass" "oc_Status so = CS_pass"
    using assms(2) unfolding res by (auto simp: override_bogus_def override_unreachable_def computeOverall_pass split: if_splits)
  show "ds_proved lib c domain (acceptable_ksks keys) (z_KSK z \<noteq> None \<and> acceptable_ksks keys = [])"
    using CheckDSAtParent_pass runs(1) all(1) by blast
  show "keys_proved (nl lib) c domain (key_id (z_KSK z)) (key_id (z_ZSK z)) (lk_KSK keys) (lk_ZSK keys)"
    using checkDNSKEYVisible_pass runs(2) all(2) by blast
  show "sigs_proved lib c now domain (acceptable_ksks keys) (signing_zsks keys)"
    using checkRRSIGPresent_pass runs(3) all(3) by blast
  show "serial_proved (nl lib) c domain (if z_PublishedSerial z \<noteq> 0 then z_PublishedSerial z else z_Serial z)"
    using checkSOASerial_pass runs(4) all(4) by blast
  show "\<not> vt_Servfail res"
    using assms(2) all unfolding res by (auto simp: override_bogus_def split: if_splits)
qed

theorem servfail_grounded:
  assumes "check_zone lib c cfg now domain z keys n = (Inr res, n')" and "vt_Servfail res"
  shows "vt_Overall res = CS_fail \<and> (bogusWhenDSPresent (vt_DSCheck res) (vt_DNSKEYCheck res) (vt_RRSIGCheck res) \<or>
    all_errored res \<and> (\<exists>k k'. resolverReachable (nl lib) c k = (Inr True, k')))"
  by (rule check_zone_Inr [OF assms(1)])
    (use assms(2) in \<open>auto simp: override_bogus_def override_unreachable_def all_errored_def split: if_splits\<close>)

end
