(* ===== verification/Sample_Services.thy ===== *)
theory Sample_Services
  imports Validator_Props Hook_Dispatch Window_Limiter Rate_Limit Probe_Rollover Zone_Check
begin

text \<open>
  Concrete inputs for the services around the two cores: a parent that serves no DS record for the
  sample zone, the sample zone in the phase that waits for that, and a deployed zone that passes
  every check.
\<close>

section \<open>A parent without DS\<close>

text \<open>Every server is authoritative and echoes the question.\<close>

definition echo :: "query \<Rightarrow> rr list \<Rightarrow> probe_msg" where
  "echo q rrs = \<lparr>msg_Answer = rrs, msg_Ns = [], msg_Extra = [], pm_Question = [(qy_Name q, qy_Type q, ClassINET)],
     pm_Rcode = 0, pm_Authoritative = True, pm_Truncated = False\<rparr>"

definition sample_parent_net :: probe_net where
  "sample_parent_net n proto server q = Inr (echo q (
     if qy_Type q = TypeNS then [OtherRR (sample_header (qy_Name q) TypeNS) ''r.'']
     else if qy_Type q = TypeA then [OtherRR (sample_header ''r.'' TypeA) ''x''] else []))"

definition sample_client :: "probe_net \<Rightarrow> probe_client" where
  "sample_client net = \<lparr>pc_resolver = ''192.0.2.1'', pc_authPort = [], pc_net = net, pc_resolvConf = None\<rparr>"

text \<open>
  A library in which key files are short: one letter tells the role, the tags are 81 and 97.
\<close>

definition short_key :: "bool \<Rightarrow> dnskey" where
  "short_key ksk = \<lparr>dk_Name = ''a.b.'', dk_Flags = (if ksk then 257 else 256), dk_Protocol = 3, dk_Algorithm = ED25519,
     dk_PublicKey = (if ksk then ''K'' else ''Z'')\<rparr>"

definition short_lib :: keylib where
  "short_lib = (klib sample_dns)\<lparr>
     NewRR_DNSKEY := (\<lambda>l. if l = ''K'' then Some (short_key True) else if l = ''Z'' then Some (short_key False) else None),
     KeyTag := (\<lambda>k. if dk_Flags k = 257 then 81 else 97)\<rparr>"

definition short_trust :: trustlib where
  "short_trust = \<lparr>vlib = sample_val\<lparr>nlib := sample_dns\<lparr>klib := short_lib\<rparr>\<rparr>, PackDomainName = (\<lambda>n. Some []), Sha256 = id, Sha384 = id,
     VerifySig = (\<lambda>sig k rs. sig_Signature sig = dk_PublicKey k), DSFields = (\<lambda>d. (81, ED25519, 2, d))\<rparr>"

definition sample_plib :: probelib where
  "sample_plib = \<lparr>nl = \<lparr>tlib = short_trust, Unpack = (\<lambda>b. None), Pack = (\<lambda>m. None), RDataName = id, RDataIP = (\<lambda>d. V4 0xC6290004),
       RDataMapNames = (\<lambda>t f d. f d), RRString = owner, IsDomainName = (\<lambda>n. True), TypeToString = (\<lambda>t. None), StringToType = (\<lambda>s. None)\<rparr>,
     ToDS = (\<lambda>k d. Some (KeyTag short_lib k, dk_Algorithm k, d, dk_PublicKey k)), InPeriod = (\<lambda>g now. True)\<rparr>"

definition short_key_state :: "16 word \<Rightarrow> key_state" where
  "short_key_state tag = \<lparr>k_ID = tag, k_Algorithm = ''ED25519'', k_Created = 0, k_Expires = 1800000000 * Second,
     k_DSPublished = False, k_RolloverDue = 0\<rparr>"

definition short_zone :: zone_state where
  "short_zone = zero_zone\<lparr>z_Path := ''/z'', z_Serial := 7, z_KSK := Some (short_key_state 81), z_ZSK := Some (short_key_state 97)\<rparr>"

definition short_world :: "zone_state \<Rightarrow> world" where
  "short_world z = \<lparr>tick = 0, halted = False, files = [(''/d/keys/a.b.ksk.key'', ''K''), (''/d/keys/a.b.zsk.key'', ''Z''), (''/d/keys/a.b.ksk.81.key'', ''K'')],
     mem = sample_state\<lparr>s_Zones := [(sample_domain, z)], s_base := []\<rparr>, sfile = NoFile\<rparr>"

definition sample_algo_rollover :: rollover_state where
  "sample_algo_rollover = zero_rollover\<lparr>r_Type := ''algorithm'', r_State := AlgoRolloverStateOldDSRemoval, r_OldKeyID := 81,
     r_NewKeyID := 101, r_OldZSKID := 5, r_NewZSKID := 97, r_OldAlgorithm := ''RSASHA256'', r_NewAlgorithm := ''ED25519'',
     r_Started := 1, r_PhaseStarted := 2, r_PhaseFirstSigned := 11, r_PhaseHorizon := 20\<rparr>"

definition sample_algo_zone :: zone_state where
  "sample_algo_zone = short_zone\<lparr>z_KSK := Some (short_key_state 101), z_Rollover := Some sample_algo_rollover\<rparr>"

definition sample_probe_rm :: rollover_manager where
  "sample_probe_rm = SetParentDSProbe (Some (parent_probe sample_plib (sample_client sample_parent_net))) sample_rm"

lemma sample_probe_setup:
  "publisher_ok sample_probe_rm" "rm_probe sample_probe_rm = Some (parent_probe sample_plib (sample_client sample_parent_net))"
  "klib (qlib (nl sample_plib)) = short_lib"
  by (simp_all add: sample_probe_rm_def SetParentDSProbe_def sample_rm_def NewRolloverManager_def publisher_ok_def sample_plib_def short_trust_def)

lemma short_world_zone: "GetZone sample_domain (mem (short_world z)) = Some z"
  by (simp add: GetZone_def short_world_def)

lemma sample_waiting: "algo_phase AlgoRolloverStateOldDSRemoval sample_algo_zone"
proof -
  have ne: "\<not> blank ''ED25519''" "\<not> blank ''RSASHA256''" by code_simp+
  have "rollover_ok sample_algo_zone sample_algo_rollover"
    by (simp add: rollover_ok_def sample_algo_zone_def short_zone_def sample_algo_rollover_def short_key_state_def zero_rollover_def
      phase_defs maxDNSTTLSeconds_def ne)
  moreover have "retired_late sample_algo_rollover \<and> pushed_late sample_algo_rollover"
    by (simp add: retired_late_def pushed_late_def sample_algo_rollover_def zero_rollover_def phase_defs)
  ultimately show ?thesis
    by (simp add: in_phase_def rollover_inv_def zone_ok_def sample_algo_zone_def short_zone_def short_key_state_def zero_zone_def sample_algo_rollover_def ne)
qed

lemma sample_removal_run:
  "(case GetZone sample_domain (mem (snd (CheckAlgorithmRollover sample_env short_lib sample_probe_rm sample_domain (short_world sample_algo_zone)))) of
     Some z \<Rightarrow> (case z_Rollover z of Some r \<Rightarrow> r_OldDSRemovedAt r \<noteq> 0 | None \<Rightarrow> False) | None \<Rightarrow> False)"
  by code_simp

section \<open>A deployed zone\<close>

definition served_sig :: "16 word \<Rightarrow> dnskey \<Rightarrow> rr" where
  "served_sig t k = RRSIG \<lparr>sig_Hdr = sample_header ''a.b.'' TypeRRSIG, sig_TypeCovered = t, sig_Algorithm = ED25519,
     sig_Labels = 2, sig_OrigTtl = 300, sig_Expiration = 1800000000, sig_Inception = 1600000000,
     sig_KeyTag = KeyTag short_lib k, sig_SignerName = ''a.b.'', sig_Signature = dk_PublicKey k\<rparr>"

definition deployed_net :: probe_net where
  "deployed_net n proto server q = Inr (echo q (
     if qy_Type q = TypeNS then [OtherRR (sample_header (qy_Name q) TypeNS) ''r.'']
     else if qy_Type q = TypeA then [OtherRR (sample_header ''r.'' TypeA) ''x'']
     else if qy_Type q = TypeDS then [OtherRR (sample_header ''a.b.'' TypeDS) ''K'']
     else if qy_Type q = TypeDNSKEY then
       [DNSKEY (sample_header ''a.b.'' TypeDNSKEY) (short_key True), DNSKEY (sample_header ''a.b.'' TypeDNSKEY) (short_key False),
        served_sig TypeDNSKEY (short_key True)]
     else if qy_Type q = TypeSOA then [SOA (sample_header ''a.b.'' TypeSOA) 7 60 [], served_sig TypeSOA (short_key False)] else []))"

lemma deployed_keys:
  "(case load_local_keys sample_env short_lib sample_cfg sample_domain short_zone (short_world short_zone) of
     (Inr keys, w) \<Rightarrow> keys = \<lparr>lk_KSK = Some (short_key True), lk_ZSK = Some (short_key False), lk_OldKSK = None, lk_OldZSK = None\<rparr> \<and> tick w = 2 | _ \<Rightarrow> False)"
  by code_simp

lemma deployed_checks:
  "(case check_zone sample_plib (sample_client deployed_net) sample_cfg (1700000000 * Second) sample_domain short_zone
     \<lparr>lk_KSK = Some (short_key True), lk_ZSK = Some (short_key False), lk_OldKSK = None, lk_OldZSK = None\<rparr> 2 of
     (Inr res, n) \<Rightarrow> vt_Overall res = CS_pass | _ \<Rightarrow> False)"
  by code_simp

lemma deployed_run:
  "(case fst (ValidateZone sample_env sample_plib (sample_client deployed_net) sample_cfg (1700000000 * Second) sample_domain (short_world short_zone)) of
     Inr res \<Rightarrow> vt_Overall res = CS_pass | Inl e \<Rightarrow> False)"
  using deployed_keys deployed_checks
  by (auto simp: ValidateZone_def op_bind_def op_get_def short_world_zone sample_probe_setup(3) split: prod.splits sum.splits)

lemma published_run:
  "(case fst (ProbePublishedSerial (nl sample_plib) (sample_client deployed_net) sample_domain 7 0) of
     Inr (ok, details) \<Rightarrow> ok | Inl e \<Rightarrow> False)"
  by code_simp

end
