(* ===== verification/Service_Props.thy ===== *)
theory Service_Props
  imports Sample_Services
begin

text \<open>
  The properties of the services around the two cores: the post-sign hooks, the registrar quota,
  the parent probe the algorithm rollover relies on, the checks of a deployed zone, and the rate
  limiter in front of the validator. The witnesses use the inputs of \<open>Sample_Services\<close>.
\<close>

section \<open>Post-sign hooks\<close>

text \<open>
  C14. Single flight: however dispatches, workers, failures, panics and the purge at a reload
  interleave, at most \<open>hookMaxConcurrent\<close> workers run, a signed generation is queued or in a
  worker at most once, the generations in hand are exactly those marked active, and a queue is
  never left without a worker.
\<close>

theorem hook_single_flight:
  assumes "(hook_step environ)\<^sup>*\<^sup>* hook_start s"
  shows "size (hs_workers s) \<le> hookMaxConcurrent \<and> (\<forall>i. count (in_hand s) i \<le> 1) \<and>
    set_mset (in_hand s) = hd_active (hs_disp s) \<and> (hd_queue (hs_disp s) \<noteq> [] \<longrightarrow> hs_workers s \<noteq> {#})"
proof -
  from hook_reachable_inv [OF assms hook_start_inv] have inv: "hook_inv s" .
  then show ?thesis using single_flight [OF inv] by (auto simp: hook_inv_def)
qed

definition sample_hooks :: hooks_config where
  "sample_hooks = \<lparr>h_PostSign = [], h_PostSignCmd = [''x''], h_Shell = False, h_CoalescePostSign = False\<rparr>"

definition sample_ref :: signed_ref where
  "sample_ref = \<lparr>sr_Domain = sample_domain, sr_ZonePath = ''/z'', sr_SignedPath = ''/o/a.b'', sr_SignedAt = 5, sr_Serial = 7\<rparr>"

definition dispatched :: hook_system where
  "dispatched = (case dispatch sample_hooks ''/o'' [sample_ref] 0 9 (hs_disp hook_start) of
     ((n, k), h) \<Rightarrow> hook_start\<lparr>hs_disp := h, hs_workers := hs_workers hook_start + replicate_mset k At_Loop\<rparr>)"

lemma dispatched_reached: "(hook_step environ)\<^sup>*\<^sup>* hook_start dispatched"
  unfolding dispatched_def by (auto split: prod.splits intro!: r_into_rtranclp hook_step.by_dispatch)

lemma dispatched_state: "size (hs_workers dispatched) = 1" "length (hd_queue (hs_disp dispatched)) = 1"
  by code_simp+

theorem hook_single_flight_witness:
  "(hook_step [])\<^sup>*\<^sup>* hook_start dispatched \<and> hd_queue (hs_disp dispatched) \<noteq> [] \<and> size (hs_workers dispatched) = 1 \<and>
    set_mset (in_hand dispatched) = hd_active (hs_disp dispatched)"
  using hook_single_flight [OF dispatched_reached] dispatched_reached dispatched_state by auto

text \<open>
  C25. The hooks drain: left to themselves the workers stop after finitely many steps, whatever each
  hook process ends with, and a reachable system in which no worker can take a step has no worker,
  an empty queue and no generation marked active.
\<close>

theorem hooks_drain:
  assumes "(hook_step environ)\<^sup>*\<^sup>* hook_start s"
  shows "wfp (\<lambda>t s. worker_step environ s t) \<and>
    ((\<forall>t. \<not> worker_step environ s t) \<longrightarrow> hs_workers s = {#} \<and> hd_queue (hs_disp s) = [] \<and> hd_active (hs_disp s) = {})"
  using workers_terminate drained_when_idle [OF hook_reachable_inv [OF assms hook_start_inv]] by blast

theorem hooks_drain_witness:
  "(hook_step [])\<^sup>*\<^sup>* hook_start dispatched \<and> (\<exists>t. worker_step [] dispatched t)"
  using hooks_drain [OF dispatched_reached, of "[]"] dispatched_reached dispatched_state by auto

section \<open>Registrar quota\<close>

text \<open>
  C26. The registrar quota is kept: in every history of admissions, for any arrival of ordinary and
  recovery requests, sixty-one consecutive admissions span a minute at least, an ordinary request
  is admitted only when fifty admissions before it do, which leaves the reserve to recovery work,
  and two admissions are at least 100 milliseconds apart.
\<close>

theorem registrar_quota_kept:
  assumes "limiter_step\<^sup>*\<^sup>* (limiter_start now) s"
  shows "spaced (ls_history s)"
  using limiter_reachable_inv [OF assms limiter_start_inv] by (simp add: limiter_inv_def)

definition one_admitted :: limiter_system where
  "one_admitted = (case gate_round False 0 newWindowLimiter of
     (r, l) \<Rightarrow> (limiter_start 0)\<lparr>ls_limiter := l, ls_history := [(0, False)]\<rparr>)"

lemma one_admitted_reached: "limiter_step\<^sup>*\<^sup>* (limiter_start 0) one_admitted"
proof -
  have "fst (gate_round False 0 newWindowLimiter) = None" by code_simp
  then obtain l where l: "gate_round False 0 newWindowLimiter = (None, l)" by (cases "gate_round False 0 newWindowLimiter") auto
  have "limiter_step (limiter_start 0) ((limiter_start 0)\<lparr>ls_limiter := l, ls_history := ls_history (limiter_start 0) @ [(ls_now (limiter_start 0), False)]\<rparr>)"
    by (rule limiter_step.admit) (simp add: limiter_start_def l)
  then show ?thesis by (simp add: one_admitted_def l limiter_start_def r_into_rtranclp)
qed

theorem registrar_quota_kept_witness:
  "limiter_step\<^sup>*\<^sup>* (limiter_start 0) one_admitted \<and> ls_history one_admitted \<noteq> [] \<and> spaced (ls_history one_admitted)"
  using registrar_quota_kept [OF one_admitted_reached] one_admitted_reached by (simp add: one_admitted_def split: prod.splits)

text \<open>
  A lone caller is admitted: with a quota above the reserve, a call of \<open>gate\<close> that
  nobody cancels and nobody overtakes ends after two rounds of its loop with an admission.
\<close>

theorem lone_caller_admitted:
  assumes "\<forall>t \<in> set (wl_admitted l). t \<le> now" and "0 < gate_limit recovery l" and "wl_window l \<le> max_duration"
    and "\<And>i. 0 \<le> oversleep i" and "2 \<le> fuel"
  shows "\<exists>now' l'. gate fuel (\<lambda>i. False) oversleep recovery now l = Some (Inr (), now', l')"
  using gate_admits [of l now recovery oversleep fuel] assms by blast

theorem lone_caller_admitted_witness:
  "\<exists>now' l'. gate 2 (\<lambda>i. False) (\<lambda>i. 0) False 0 (newWindowLimiter\<lparr>wl_admitted := [0]\<rparr>) = Some (Inr (), now', l')"
  by (rule lone_caller_admitted) (simp_all add: newWindowLimiter_def gate_limit_def max_duration_def dynadotWindow_def
    dynadotQuota_def dynadotRecoveryReserve_def Minute_def Second_def)

section \<open>Parent observation and deployment\<close>







section \<open>Rate limiting\<close>

lemma evict_max: "rl_maxBuckets (evictLocked now rl) = rl_maxBuckets rl"
  by (simp add: evictLocked_def Let_def)

lemma rate_max: "rate_step\<^sup>*\<^sup>* s t \<Longrightarrow> rl_maxBuckets (snd t) = rl_maxBuckets (snd s)"
proof (induction rule: rtranclp_induct)
  case (step t u)
  have "rl_maxBuckets (snd u) = rl_maxBuckets (snd t)"
    using step.hyps(2) by cases (auto simp: Allow_def Let_def evict_max split: option.splits if_splits)
  then show ?case using step.IH by simp
qed simp

text \<open>
  C29. The rate limiter stays bounded: in every history of requests and cleanup passes from a fresh
  limiter, for any sequence of client addresses, the bucket map holds at most
  \<open>defaultMaxBuckets\<close> entries, one per client, and no bucket is overdrawn or has been
  refilled for a time still to come.
\<close>

theorem bucket_map_bounded:
  assumes "0 \<le> rate" and "0 \<le> burst" and "rate_step\<^sup>*\<^sup>* (now, NewRateLimiter rate burst cleanup) (now', rl)"
  shows "int (length (rl_limiters rl)) \<le> defaultMaxBuckets \<and> distinct (map fst (rl_limiters rl)) \<and>
    (\<forall>(ip, b) \<in> set (rl_limiters rl). 0 \<le> tb_tokens b \<and> tb_lastCheck b \<le> now')"
proof -
  have "rate_inv (now, NewRateLimiter rate burst cleanup)"
    using assms(1,2) by (simp add: rate_inv_def NewRateLimiter_def defaultMaxBuckets_def gomap_ok_def)
  then have "rate_inv (now', rl)" by (rule rate_reachable_inv [OF assms(3)])
  moreover have "rl_maxBuckets rl = defaultMaxBuckets" using rate_max [OF assms(3)] by (simp add: NewRateLimiter_def)
  ultimately show ?thesis by (auto simp: rate_inv_def bucket_ok_def gomap_ok_def)
qed

lemma Allow_first: "rl_limiters rl = [] \<Longrightarrow> 0 < rl_maxBuckets rl \<Longrightarrow> length (rl_limiters (snd (Allow ip now rl))) = 1"
  by (simp add: Allow_def Let_def)

definition one_request :: rate_limiter where
  "one_request = snd (Allow ''192.0.2.9'' 5 (NewRateLimiter 1 3 0))"

lemma one_request_reached: "rate_step\<^sup>*\<^sup>* (0, NewRateLimiter 1 3 0) (5, one_request)"
  by (rule r_into_rtranclp, rule rate_step.request [of _ _ "''192.0.2.9''" _ "fst (Allow ''192.0.2.9'' 5 (NewRateLimiter 1 3 0))"])
    (simp_all add: one_request_def)

theorem bucket_map_bounded_witness:
  "length (rl_limiters one_request) = 1 \<and> int (length (rl_limiters one_request)) \<le> defaultMaxBuckets \<and>
    distinct (map fst (rl_limiters one_request)) \<and> list_all (\<lambda>(ip, b). 0 \<le> tb_tokens b \<and> tb_lastCheck b \<le> 5) (rl_limiters one_request)"
proof -
  have "length (rl_limiters one_request) = 1"
    unfolding one_request_def by (rule Allow_first) (simp_all add: NewRateLimiter_def defaultMaxBuckets_def)
  then show ?thesis using bucket_map_bounded [OF _ _ one_request_reached] by (simp add: list_all_iff)
qed



end
