(* ===== verification/Spec2Isabelle.thy ===== *)
theory Spec2Isabelle
  imports Sample_Zone Signing_Props Denial_Hashed Validator_Props Service_Props
begin

text \<open>
  Verification of Sigillum, a DNSSEC zone signer (src/signer) with a DNSSEC validator
  (src/validator).

  \<^bold>\<open>The program.\<close>  The signer keeps, per zone, a record in one state file
  (src/signer/internal/state/state.go), a directory of key files (internal/signer/keys.go, keytx.go,
  rsa.go) and a rollover manager (rollover.go) that moves a zone through the phases of a ZSK, KSK or
  algorithm rollover.  A signing pass (sign.go, zonemodel.go) reads the zone, chooses the keys of the
  phase, builds the NSEC or NSEC3 chain, signs, verifies the result and writes it.  Afterwards hooks
  deploy the zone (hooks.go, hook_dispatch.go), probes ask the parent and the zone's own servers what
  is served (internal/validate), and a registrar client, held back by a limiter, changes DS records.
  The configuration (internal/config/config.go) gives the waiting times, the durable-file layer
  (internal/fsutil/fsutil.go) replaces files atomically, and several processes share the state file,
  which a three-way merge reconciles.  The validator (src/validator/internal/validator, internal/dns)
  walks from the root to a name, checks DS, DNSKEY and leaf signatures and denials of existence on
  every server, follows aliases, and gives a verdict, within a work budget and an egress policy; a
  rate limiter (src/validator/ratelimit.go) stands in front of it.

  \<^bold>\<open>Shared theories.\<close>
  \<^item> \<open>Sig_Prelude\<close>, \<open>Go_Lib\<close>, \<open>Go_Net\<close>: the collections of facts, the
    outcome type of an operation with its sequencing, and what the sources use of Go's standard
    library (strings, paths, durations, times, number, base64 and address text).

  \<^bold>\<open>The signer.\<close>
  \<^item> \<open>Zone_State\<close>, \<open>Signer_Config\<close>: the records of state.go, publication
    tracking, diagnostics, the schema check; the settings of config.go and their checks.
  \<^item> \<open>Fs_Model\<close>: files, system calls and fsutil.go.  An operation maps a world (files,
    clock, in-memory state, a counter of system calls) to an outcome and a world.  The environment
    decides for every call whether it works, fails, or the process crashes there, so a theorem for
    every environment covers every fault and every crash point.
  \<^item> \<open>State_Store\<close>, \<open>State_Merge\<close>, \<open>State_Save\<close>: reload, merge, save
    and load, with the per-zone merge rule as specification and the crash analysis of save.
  \<^item> \<open>Key_Format\<close>, \<open>Key_Format_Laws\<close>: key generation, the private-key file and
    its round trip.  \<open>Key_Files\<close>, \<open>Key_Frame\<close>, \<open>Key_Safety\<close>,
    \<open>Key_Progress\<close>: staging, backup, activation and recovery of key pairs; the files each
    operation may touch; that no verified pair is lost at any crash point; total-correctness rules
    for a working file system.
  \<^item> \<open>Rollover\<close>, \<open>Rollover_Logic\<close>, \<open>Rollover_Safety\<close>,
    \<open>Rollover_Start\<close>, \<open>Rollover_Machine\<close>, \<open>Rollover_Progress\<close>: the rollover
    manager, a Hoare logic on one zone's record, the rollover invariant, the order of record and
    activation, the step relation with its reachable states, and progress.
  \<^item> \<open>Dns_Names\<close>, \<open>Zone_Model\<close>, \<open>Serials\<close>, \<open>Nsec_Chain\<close>,
    \<open>Nsec3_Chain\<close>, \<open>Signing_Keys\<close>, \<open>Zone_Signatures\<close>, \<open>Sign_Verify\<close>,
    \<open>Sign_Windows\<close>, \<open>Sign_Zone\<close>, \<open>Sign_Laws\<close>: canonical names, the zone tree,
    serials, both chains, the keys of a phase, signing and its verification, signature windows, and
    the whole of \<open>SignZone\<close>.  \<open>Signing_Props\<close> states its properties.

  \<^bold>\<open>The validator.\<close>
  \<^item> \<open>Denial_Names\<close>, \<open>Denial_Proof\<close>, \<open>Denial_Sound\<close>, \<open>Denial_Hashed\<close>,
    \<open>Denial_Interop\<close>: nsec.go; that accepted denials are true of the zone that signed them, and
    that the validator accepts the signer's own chain exactly for absent names.
  \<^item> \<open>Trust_Keys\<close>, \<open>Verify_Engine\<close>, \<open>Verify_Laws\<close>: DS and anchor matching,
    the budget, and the verification of RRsets.
  \<^item> \<open>Egress\<close>, \<open>Net_Query\<close>, \<open>Net_Resolve\<close>: the egress policy, queries and the
    resolver with its bounds.
  \<^item> \<open>Ds_Compare\<close>, \<open>Parent_DS\<close>, \<open>Zone_Walk\<close>, \<open>Leaf_Check\<close>,
    \<open>Validate_Walk\<close>: validator.go, from the comparison of servers up to \<open>Validate\<close>.
    \<open>Walk_Frame\<close>, \<open>Trust_Chain\<close>, \<open>Walk_Sound\<close>: what a validation leaves
    alone, the inductive chain of trust as specification, and that verdicts refine it.
    \<open>Validator_Props\<close> states the properties.

  \<^bold>\<open>Services.\<close>
  \<^item> \<open>Hook_Dispatch\<close>: the hook contract and the dispatcher as a step relation of goroutines,
    one step per locked section; single flight and draining.
  \<^item> \<open>Window_Limiter\<close>, \<open>Rate_Limit\<close>: the registrar's sliding window and the token
    buckets, with the histories they admit, and the attribution of a request to a client.
  \<^item> \<open>Parent_Probe\<close>, \<open>Probe_Rollover\<close>, \<open>Zone_Check\<close>: parentds.go and
    validate.go; what their answers rest on, and the algorithm rollover with the real probe in place
    of the abstract one.  \<open>Service_Props\<close> states the properties.
  \<^item> \<open>Sample_Zone\<close>, \<open>Sample_Signing\<close>, \<open>Sample_Validator\<close>,
    \<open>Sample_Services\<close>: concrete inputs on which the properties are instantiated.

  \<^bold>\<open>Parameters.\<close>  The cryptographic library, the DNS library and the network are records of
  functions (\<open>keylib\<close>, \<open>dnslib\<close>, \<open>siglib\<close>, \<open>vallib\<close>, \<open>trustlib\<close>,
  \<open>netlib\<close>, \<open>probelib\<close>), each extending what it builds on; a network is a function of
  an exchange counter, so every pattern of answers, also inconsistent ones, is covered.  What a theorem
  needs of them is a named hypothesis (\<open>net_laws\<close>, \<open>names_law\<close>, \<open>signing_law\<close> and
  others), and the samples satisfy them.  A registrar push is a parameter of the rollover manager.

  \<^bold>\<open>Bounds.\<close>  The search for a free backup name and the retry of key generation have the
  bounds of the source (10000 names, 10 attempts); aliases end by the depth limit of the source; the
  only fuel is the number of rounds of \<open>gate\<close>, and two rounds are proved enough for a caller that
  is alone.  Durations are 64-bit with Go's wrap-around, TTLs and serials 32-bit words, key tags 16-bit,
  token counts are rounded as \<open>float64\<close>.

  \<^bold>\<open>Not modelled.\<close>  Log lines, metrics and HTTP; TOML and JSON text (a parsed document stands
  for the file); the mutex of the state (operations on one state are sequential here, concurrent
  processes meet at the file and its merge); the daemon loop and the command lines, which only call
  what is modelled; starting and killing hook processes; the registrar's and RDAP's HTTP clients; the
  choice of keys in a BIND import; download and caching of trust anchors; texts that are only shown.
\<close>

section \<open>Rollovers\<close>




text \<open>
  C2. \<open>StartKSKRollover\<close> never changes the live KSK before the record that names it is on
  disk: after a run with any outcome, a crash at any system call included, either both live
  files are what they were, or the state file holds the rollover record with the new KSK.
\<close>

theorem ksk_record_before_activation:
  assumes "key_names domain ''ksk''" and "StartKSKRollover env lib rm domain w = (r, w')"
  shows "live_halves (rm_cfg rm) domain ''ksk'' w' = live_halves (rm_cfg rm) domain ''ksk'' w \<or>
    (\<exists>z' old new now. disk_zone domain w' = Some z' \<and> z_KSK z' = Some new \<and>
       z_Rollover z' = Some (ksk_record domain old new now))"
  by (rule StartKSKRollover_order [OF assms])

theorem ksk_record_before_activation_witness:
  "live_halves sample_cfg sample_domain ''ksk'' sample_started = live_halves sample_cfg sample_domain ''ksk'' sample_world \<or>
    (\<exists>z' old new now. disk_zone sample_domain sample_started = Some z' \<and> z_KSK z' = Some new \<and>
       z_Rollover z' = Some (ksk_record sample_domain old new now))"
  using ksk_record_before_activation [OF sample_names(1) sample_start_run] by simp

text \<open>
  C12. A KSK rollover that may start does start: with a working file system, a recorded KSK
  that is live and stored under its tag, and a generator whose key can be staged under an
  unused tag, \<open>StartKSKRollover\<close> returns without error, the state file then holds the
  record of old and new KSK, and the new key is the verified live key.
\<close>

theorem ksk_rollover_starts:
  assumes "io_works env" "\<not> halted w" "key_names domain ''ksk''"
    and "GetZone domain (mem w) = Some z" "z_Rollover z = None" "z_KSK z = Some old" "k_Algorithm old \<noteq> []"
    and "backed_up_live lib (rm_cfg rm) domain ''ksk'' kp w" "KeyTag lib (fst kp) = k_ID old"
    and "gen_works lib (rm_cfg rm) domain True (k_Algorithm old) w"
  shows "\<exists>w'. StartKSKRollover env lib rm domain w = (Inr (), w') \<and> ksk_started lib (rm_cfg rm) domain old w'"
  using runs_StartKSKRollover [OF assms] by (auto elim: runsE)

theorem ksk_rollover_starts_witness:
  "\<exists>w'. StartKSKRollover sample_env sample_lib sample_rm sample_domain sample_world = (Inr (), w') \<and>
     ksk_started sample_lib (rm_cfg sample_rm) sample_domain (sample_key_state (CHR ''A'')) w'"
  by (rule ksk_rollover_starts [OF sample_env_works sample_running sample_names(1) sample_zone_at sample_zone_keys(1,2),
        where kp = "(sample_key 257 (rev (sample_seed (CHR ''A''))), sample_seed (CHR ''A''))"])
    (use sample_backed_up sample_gen_works in \<open>simp_all add: sample_zone_keys sample_tag_eq\<close>)

text \<open>
  C7. The signer switches to a pre-published ZSK only after the configured switch delay, a
  confirmed publication since the rollover started, and the horizon of every cache that may
  still hold the key set without it; what it then signs with is the recorded new key.
\<close>

theorem zsk_switch_waits:
  assumes "GetZone domain (mem w) = Some z" "z_Rollover z = Some r" "r_State r = ZSKRolloverStatePrePublish"
    and "handleZSKRolloverState env lib rm domain w = (res, w')"
    and "GetZone domain (mem w') = Some z'" "z_Rollover z' = Some r'" "r_State r' = ZSKRolloverStateSigning"
  shows "c_RolloverSwitch (DNSSEC (rm_cfg rm)) \<le> time_sub (r_PhaseStarted r') (r_Started r) \<and>
    PublishedSince z (r_Started r) \<and>
    waited z r (dnskeyTTLFloor (rm_cfg rm) z) [z_DNSKEYCacheHorizon z] (r_PhaseStarted r') \<and>
    map_option k_ID (z_ZSK z') = Some (r_NewKeyID r)"
  using handleZSK_switch [OF assms(1-4)] assms(5-7) by (simp add: zat_def switch_ok_def)

theorem zsk_switch_waits_witness:
  "\<exists>w' z' r'. GetZone sample_domain (mem w') = Some z' \<and> z_Rollover z' = Some r' \<and>
     handleZSKRolloverState sample_env sample_lib sample_rm sample_domain (sample_zsk_world ZSKRolloverStatePrePublish) = (Inr (), w') \<and>
     c_RolloverSwitch (DNSSEC sample_cfg) \<le> time_sub (r_PhaseStarted r') 1 \<and>
     map_option k_ID (z_ZSK z') = Some (sample_tag (CHR ''k''))"
proof -
  obtain x w' z' r' where run: "handleZSKRolloverState sample_env sample_lib sample_rm sample_domain
      (sample_zsk_world ZSKRolloverStatePrePublish) = (Inr x, w')"
    and z': "GetZone sample_domain (mem w') = Some z'" "z_Rollover z' = Some r'" "r_State r' = ZSKRolloverStateSigning"
    using sample_zsk_switch by (auto elim!: runsE)
  from zsk_switch_waits [OF sample_zsk_at(1,2,3) run z'] run z' show ?thesis
    by (intro exI [of _ w'] exI [of _ z'] exI [of _ r']) (auto simp: sample_zsk_rollover_def)
qed

text \<open>
  A ZSK rollover ends only after the zone signed by the new key alone was confirmed served
  since the switch, and every cached DNSKEY set and signature of the old key has expired.
\<close>

theorem zsk_finish_waits:
  assumes "GetZone domain (mem w) = Some z" "z_Rollover z = Some r" "r_State r = ZSKRolloverStateSigning"
    and "handleZSKRolloverState env lib rm domain w = (res, w')"
    and "GetZone domain (mem w') = Some z'" "z_Rollover z' = None"
  shows "PublishedSince z (phase_start r) \<and>
    (\<exists>t. waited z r (zskRetireFloor (rm_cfg rm) z) [z_DNSKEYCacheHorizon z, z_RRSIGCacheHorizon z] (now_at env t))"
  using handleZSK_finish [OF assms(1-4)] assms(5,6) by (simp add: zat_def finish_ok_def)

theorem zsk_finish_waits_witness:
  "\<exists>w'. handleZSKRolloverState sample_env sample_lib sample_rm sample_domain (sample_zsk_world ZSKRolloverStateSigning) = (Inr (), w') \<and>
     PublishedSince (sample_zsk_zone ZSKRolloverStateSigning) 2"
proof -
  obtain x w' z' where run: "handleZSKRolloverState sample_env sample_lib sample_rm sample_domain
      (sample_zsk_world ZSKRolloverStateSigning) = (Inr x, w')"
    and z': "GetZone sample_domain (mem w') = Some z'" "z_Rollover z' = None"
    using sample_zsk_finish by (auto elim!: runsE)
  from zsk_finish_waits [OF sample_zsk_at(1,2,3) run z'] run show ?thesis
    by (auto simp: phase_start_def sample_zsk_rollover_def)
qed

section \<open>Key files\<close>

text \<open>
  C6. Activation never loses a key: after \<open>ActivateKeyPair\<close> with any outcome, a crash at any
  system call included, the verified live pair is either still in place or preserved, as a
  verified pair of the same public key in the slot of its tag or as a byte copy in a fresh
  backup slot.
\<close>

theorem activation_preserves_live:
  assumes "key_names domain kt" and "verified_at lib w (liveBase cfg domain kt) domain kt = Some (k, priv)"
    and "ActivateKeyPair env lib cfg domain kt tag w = (r, w')"
  shows "live_halves cfg domain kt w' = live_halves cfg domain kt w \<or>
    preserved_in lib cfg domain kt k (live_halves cfg domain kt w) w'"
  by (rule ActivateKeyPair_safe [OF assms])

text \<open>The file system may stop the process at any of the first calls of the activation.\<close>

theorem activation_preserves_live_witness:
  "let w' = snd (ActivateKeyPair (crash_env 30) sample_lib sample_cfg sample_domain ''ksk'' 101 sample_staged) in
   live_halves sample_cfg sample_domain ''ksk'' w' = live_halves sample_cfg sample_domain ''ksk'' sample_staged \<or>
   preserved_in sample_lib sample_cfg sample_domain ''ksk'' (sample_key 257 (rev (sample_seed (CHR ''A''))))
     (live_halves sample_cfg sample_domain ''ksk'' sample_staged) w'"
  unfolding Let_def
  by (rule activation_preserves_live [OF sample_names(1) _ prod.collapse [symmetric]])
    (use sample_staged_live in \<open>simp add: backed_up_live_def\<close>)

text \<open>
  C31. When \<open>ActivateKeyPair\<close> returns without error the slot of the tag held a verified pair
  with that tag, and the live pair is now a verified pair of the same public key.
\<close>

theorem activation_installs:
  assumes "ActivateKeyPair env lib cfg domain kt tag w = (Inr (), w')"
  shows "\<exists>sk kp. verified_at lib w (taggedBase cfg domain kt tag) domain kt = Some sk \<and> KeyTag lib (fst sk) = tag \<and>
    verified_at lib w' (liveBase cfg domain kt) domain kt = Some kp \<and> samePublicKey (fst kp) (fst sk)"
  by (rule ActivateKeyPair_Inr [OF assms])

lemma sample_activation: "\<exists>w'. ActivateKeyPair sample_env sample_lib sample_cfg sample_domain ''ksk'' 101 sample_staged = (Inr (), w')"
proof -
  obtain priv where v: "verified_at sample_lib sample_staged (taggedBase sample_cfg sample_domain ''ksk'' 101) sample_domain ''ksk'' = Some (sample_new, priv)"
    using sample_staged_new by blast
  have "runs (ActivateKeyPair sample_env sample_lib sample_cfg sample_domain ''ksk'' 101) sample_staged (\<lambda>x w'. \<exists>kp'.
      verified_at sample_lib w' (liveBase sample_cfg sample_domain ''ksk'') sample_domain ''ksk'' = Some kp' \<and> samePublicKey (fst kp') (fst (sample_new, priv)))"
    by (rule runs_ActivateKeyPair [OF sample_env_works sample_staged_running sample_names(1) sample_staged_live v])
      (simp add: sample_new_tag)
  then show ?thesis by (auto elim!: runsE)
qed

theorem activation_installs_witness:
  "\<exists>w' kp. ActivateKeyPair sample_env sample_lib sample_cfg sample_domain ''ksk'' 101 sample_staged = (Inr (), w') \<and>
     verified_at sample_lib w' (liveBase sample_cfg sample_domain ''ksk'') sample_domain ''ksk'' = Some kp \<and> samePublicKey (fst kp) sample_new"
proof -
  obtain w' where run: "ActivateKeyPair sample_env sample_lib sample_cfg sample_domain ''ksk'' 101 sample_staged = (Inr (), w')"
    using sample_activation by blast
  from activation_installs [OF this] sample_staged_new run show ?thesis by fastforce
qed

text \<open>
  When \<open>StageKeyPair\<close> returns without error it returns the slot of the key's tag, that
  slot holds a verified pair of the same public key, and the key had passed the role check
  and the correspondence check.
\<close>

theorem staging_verifies:
  assumes "StageKeyPair env lib cfg domain kt k priv w = (Inr base, w')"
  shows "base = taggedBase cfg domain kt (KeyTag lib k) \<and>
    (\<exists>k' priv'. verified_at lib w' base domain kt = Some (k', priv') \<and> samePublicKey k' k) \<and>
    validateLoadedKey lib k domain kt = Inr () \<and> VerifyKeyPairCorrespondence lib k priv = Inr ()"
  using StageKeyPair_Inr [OF assms] by blast

theorem staging_verifies_witness:
  "\<exists>k' priv'. verified_at sample_lib sample_staged (taggedBase sample_cfg sample_domain ''ksk'' 101) sample_domain ''ksk'' = Some (k', priv') \<and>
     samePublicKey k' sample_new"
  using staging_verifies [OF sample_stage_run] by blast

text \<open>
  C16. A slot that holds another key is a key-tag collision: \<open>StageKeyPair\<close> reports an error
  and changes no file, for every file-system behaviour.
\<close>

theorem staging_refuses_collision:
  assumes "content w (taggedBase cfg domain kt (KeyTag lib k) @ ''.key'') = Some c"
    and "\<And>k'. ParseDNSKEYFromFile lib c = Inr k' \<Longrightarrow> \<not> samePublicKey k' k"
    and "StageKeyPair env lib cfg domain kt k priv w = (r, w')"
  shows "(\<exists>e. r = Inl e) \<and> content w' = content w"
  using stage_collision [OF assms(1,2)] assms(3) by (simp add: refuses_def)

lemma sample_collision:
  "KeyTag sample_lib (sample_key 257 (rev (sample_seed (CHR ''B'')))) = sample_tag (CHR ''A'')"
  "dk_PublicKey (sample_key 257 (rev (sample_seed (CHR ''A'')))) \<noteq> dk_PublicKey (sample_key 257 (rev (sample_seed (CHR ''B''))))"
  by code_simp+

theorem staging_refuses_collision_witness:
  "\<exists>e. fst (StageKeyPair sample_env sample_lib sample_cfg sample_domain ''ksk'' (sample_key 257 (rev (sample_seed (CHR ''B''))))
     (sample_seed (CHR ''B'')) sample_world) = Inl e"
proof -
  have "content sample_world (taggedBase sample_cfg sample_domain ''ksk'' (sample_tag (CHR ''A'')) @ ''.key'') = Some (sample_key_text 257 (CHR ''A''))"
    by (simp add: sample_paths sample_content sample_files_eq)
  from staging_refuses_collision [OF this [folded sample_collision(1)] _ prod.collapse [symmetric]] sample_keys(1) sample_collision(2)
  show ?thesis by (auto simp: samePublicKey_def)
qed

text \<open>
  C15. The key \<open>EnsureLiveKey\<close> returns is the verified live pair and carries the expected tag,
  whatever recovery it had to do.
\<close>

theorem signing_key_is_recorded:
  assumes "EnsureLiveKey env lib cfg domain kt expected w = (Inr kp, w')"
  shows "verified_at lib w' (liveBase cfg domain kt) domain kt = Some kp \<and> KeyTag lib (fst kp) = expected"
  by (rule EnsureLiveKey_Inr [OF assms])

theorem signing_key_is_recorded_witness:
  "\<exists>kp w'. EnsureLiveKey sample_env sample_lib sample_cfg sample_domain ''ksk'' (sample_tag (CHR ''A'')) sample_world = (Inr kp, w') \<and>
     KeyTag sample_lib (fst kp) = sample_tag (CHR ''A'')"
proof -
  have "runs (EnsureLiveKey sample_env sample_lib sample_cfg sample_domain ''ksk'' (sample_tag (CHR ''A''))) sample_world
      (\<lambda>x w'. x = (sample_key 257 (rev (sample_seed (CHR ''A''))), sample_seed (CHR ''A'')) \<and> content w' = content sample_world)"
    by (rule runs_EnsureLiveKey [OF sample_env_works sample_running sample_verified(1)]) (simp add: sample_tag_eq)
  then obtain kp w' where "EnsureLiveKey sample_env sample_lib sample_cfg sample_domain ''ksk'' (sample_tag (CHR ''A'')) sample_world = (Inr kp, w')"
    by (auto elim!: runsE)
  with signing_key_is_recorded [OF this] show ?thesis by blast
qed

text \<open>
  When neither the live pair nor the slot of the expected tag holds a verified pair with
  that tag, \<open>EnsureLiveKey\<close> reports an error and changes no file: the signer refuses to sign
  with a key its state does not name.
\<close>

theorem signing_refuses_unrecorded:
  assumes "\<And>kp. verified_at lib w (liveBase cfg domain kt) domain kt = Some kp \<Longrightarrow> KeyTag lib (fst kp) \<noteq> expected"
    and "\<And>kp. verified_at lib w (taggedBase cfg domain kt expected) domain kt = Some kp \<Longrightarrow> KeyTag lib (fst kp) \<noteq> expected"
    and "EnsureLiveKey env lib cfg domain kt expected w = (r, w')"
  shows "(\<exists>e. r = Inl e) \<and> content w' = content w"
proof -
  have "refuses (EnsureLiveKey env lib cfg domain kt expected) w" using assms(1,2) by (rule EnsureLiveKey_refuses)
  with assms(3) show ?thesis by (simp add: refuses_def)
qed

lemma sample_unknown_tag: "taggedBase sample_cfg sample_domain ''ksk'' 5 = ''/d/keys/a.b.ksk.5''" "sample_tag (CHR ''A'') \<noteq> 5"
  by code_simp+

theorem signing_refuses_unrecorded_witness:
  "\<exists>e. fst (EnsureLiveKey sample_env sample_lib sample_cfg sample_domain ''ksk'' 5 sample_world) = Inl e"
proof -
  have "verified_at sample_lib sample_world (taggedBase sample_cfg sample_domain ''ksk'' 5) sample_domain ''ksk'' = None"
    by (simp add: verified_at_def sample_unknown_tag sample_content sample_files_eq)
  with signing_refuses_unrecorded [OF _ _ prod.collapse [symmetric], of sample_lib sample_world sample_cfg sample_domain "''ksk''" 5 sample_env]
  show ?thesis using sample_unknown_tag(2) by (simp add: sample_verified sample_tag_eq)
qed

section \<open>The state file\<close>

text \<open>
  C20. \<open>Save\<close> is atomic: after an attempt with any outcome, a crash at any system call
  included, the state file is exactly what it was or exactly the document of the state being
  saved; no key file is touched; an error that is not marked as committed, from a process
  that still runs, means the file is what it was.
\<close>

theorem save_is_atomic:
  "(sfile (snd (Save env w)) = sfile w \<or> sfile (snd (Save env w)) = Doc (marshal (bump_revisions (mem w)))) \<and>
   files (snd (Save env w)) = files w \<and>
   (case fst (Save env w) of
      Inr _ \<Rightarrow> sfile (snd (Save env w)) = Doc (marshal (bump_revisions (mem w)))
    | Inl e \<Rightarrow> if IsCommitted e then sfile (snd (Save env w)) = Doc (marshal (bump_revisions (mem w)))
        else halted (snd (Save env w)) \<or> sfile (snd (Save env w)) = sfile w)"
  by (cases rule: Save_cases [of env w]) simp_all



text \<open>
  C32. A loaded state is valid: every zone has a legal name and a record that passes the
  schema check, and no removal marker has a blank name.
\<close>

theorem loaded_state_is_valid:
  assumes "LoadState isDN f = Inr s"
  shows "valid_state isDN s"
  by (rule LoadState_valid [OF assms])

theorem loaded_state_is_valid_witness:
  "valid_state (\<lambda>n. True) \<lparr>s_Zones = [(''a.b'', zero_zone)], s_Removed = [], s_fileSeen = True, s_base = [(''a.b'', zero_zone)]\<rparr>"
proof -
  have "\<not> blank ''a.b''" by code_simp
  then have "LoadState (\<lambda>n. True) (Doc \<lparr>d_Zones = Some [(''a.b'', Some zero_zone)], d_Removed = None\<rparr>) =
      Inr \<lparr>s_Zones = [(''a.b'', zero_zone)], s_Removed = [], s_fileSeen = True, s_base = [(''a.b'', zero_zone)]\<rparr>"
    by (simp add: LoadState_def validateAndNormalize_def nil_map_def validateZoneEntry_def validateKeyState_def zero_zone_def)
  then show ?thesis by (rule loaded_state_is_valid)
qed


text \<open>
  C22. \<open>Reload\<close> merges the file and the memory zone by zone: whatever order Go iterates its
  maps in, the zone and the removal marker of a name depend only on what the four maps hold
  for that name, by the three-way rule \<open>reload_zone\<close> and \<open>reload_marker\<close>.
\<close>

theorem reload_is_keywise:
  assumes "gomap_ok dz" "gomap_ok dr" "state_ok m"
  shows "map_of (s_Zones (reload_merge dz dr m)) d =
      reload_zone (map_of dz d) (map_of dr d) (map_of (s_base m) d) (map_of (s_Zones m) d) \<and>
    map_of (s_Removed (reload_merge dz dr m)) d =
      reload_marker (map_of dz d) (map_of dr d) (map_of (s_Zones m) d) (map_of (s_Removed m) d)"
  using reload_merge_lookup [OF assms] by blast

theorem reload_is_keywise_witness:
  "map_of (s_Zones (reload_merge [(''a.b'', zero_zone\<lparr>z_Serial := 8\<rparr>)] [] sample_state)) ''a.b'' = Some (zero_zone\<lparr>z_Serial := 8\<rparr>)"
proof -
  have "state_ok sample_state" by (simp add: state_ok_def sample_state_def gomap_ok_def)
  from reload_is_keywise [OF _ _ this, of "[(''a.b'', zero_zone\<lparr>z_Serial := 8\<rparr>)]" "[]" "''a.b''"]
  show ?thesis by (simp add: gomap_ok_def reload_zone_def sample_state_def sample_domain_def mergeZone_def zoneContentEqual_def
      signingEqual_def sample_zone_def zero_zone_def)
qed

text \<open>
  C23. The merge of two records that pass the schema check passes it: keys and rollover record
  are taken together from one side.
\<close>

theorem merge_keeps_schema:
  assumes "zone_ok d" and "zone_ok m"
  shows "zone_ok (mergeZone b d m)"
  by (rule merge_zone_ok [OF assms])

lemma sample_zone_ok: "zone_ok sample_zone"
  using sample_inv by (simp add: zat_def rollover_inv_def sample_zone_at)

theorem merge_keeps_schema_witness:
  "zone_ok (mergeZone zero_zone sample_zone (zero_zone\<lparr>z_ForceResign := True\<rparr>))"
  by (rule merge_keeps_schema [OF sample_zone_ok]) (simp add: zone_ok_def zero_zone_def)

text \<open>
  A merge never shortens a cache horizon: when both sides grew out of the base, each
  horizon is the later one of the two sides.
\<close>

theorem merge_takes_later_horizon:
  assumes "horizons_ge d b" and "horizons_ge m b"
  shows "z_DNSKEYCacheHorizon (mergeZone b d m) = max (z_DNSKEYCacheHorizon d) (z_DNSKEYCacheHorizon m) \<and>
    z_RRSIGCacheHorizon (mergeZone b d m) = max (z_RRSIGCacheHorizon d) (z_RRSIGCacheHorizon m)"
  using merge_horizons_max [OF assms] by blast

theorem merge_takes_later_horizon_witness:
  "z_DNSKEYCacheHorizon (mergeZone zero_zone (zero_zone\<lparr>z_DNSKEYCacheHorizon := 5\<rparr>) (zero_zone\<lparr>z_DNSKEYCacheHorizon := 7\<rparr>)) = 7"
proof -
  have "horizons_ge (zero_zone\<lparr>z_DNSKEYCacheHorizon := 5\<rparr>) zero_zone" "horizons_ge (zero_zone\<lparr>z_DNSKEYCacheHorizon := 7\<rparr>) zero_zone"
    by (simp_all add: horizons_ge_def zero_zone_def)
  from merge_takes_later_horizon [OF this] show ?thesis by simp
qed

text \<open>
  A merge never reports an unconfirmed signing as published: a zone without a pending
  publication has its latest signing confirmed served, and the merge of two such records is
  such a record.
\<close>

theorem merge_keeps_publication:
  assumes "pub_consistent d" and "pub_consistent m"
  shows "pub_consistent (mergeZone b d m)"
  by (rule merge_pub_consistent [OF assms])

theorem merge_keeps_publication_witness:
  "pub_consistent (mergeZone zero_zone (zero_zone\<lparr>z_LastSigned := 9, z_PendingPublication := True\<rparr>)
     (zero_zone\<lparr>z_PublishedGenerationSignedAt := 5\<rparr>))"
  by (rule merge_keeps_publication) (simp_all add: pub_consistent_def zero_zone_def)

text \<open>
  Diagnostics merge as sets relative to the base: an entry survives when both sides have
  it or one side added it, so an entry either side cleared is gone.
\<close>

theorem merged_diagnostics:
  "set (mergeDiagnostics base disk mems False) = (set disk \<inter> set mems) \<union> (set disk - set base) \<union> (set mems - set base)"
  by (rule set_mergeDiagnostics)

text \<open>
  A save advances the revision of every zone whose content changed, past both the
  revision in memory and the one loaded before, as long as the 64-bit counter has not run out.
\<close>

theorem revision_advances:
  assumes "map_of base n = Some b" "\<not> zoneContentEqual z b" "z_Revision z \<noteq> -1" "z_Revision b \<noteq> -1"
  shows "z_Revision b < z_Revision (bump_revision base n z) \<and> z_Revision z < z_Revision (bump_revision base n z)"
  using bump_revision_advances [OF assms] by blast

theorem revision_advances_witness:
  "z_Revision (zero_zone\<lparr>z_Revision := 4\<rparr>) < z_Revision (bump_revision [(''a.b'', zero_zone\<lparr>z_Revision := 4\<rparr>)] ''a.b'' (zero_zone\<lparr>z_Serial := 1\<rparr>))"
proof -
  have "\<not> zoneContentEqual (zero_zone\<lparr>z_Serial := 1\<rparr>) (zero_zone\<lparr>z_Revision := 4\<rparr>)"
    by (simp add: zoneContentEqual_def signingEqual_def zero_zone_def)
  from revision_advances [OF _ this] show ?thesis by (simp add: zero_zone_def)
qed

text \<open>
  A confirmed publication raises both cache horizons to the confirmation time plus the
  lifetime of what was served before, never lowers one, and a late confirmation of an older
  generation changes nothing.
\<close>

theorem confirmation_raises_horizons:
  "if s < z_PublishedGenerationSignedAt z then ConfirmPublication s now z = z
   else z_DNSKEYCacheHorizon (ConfirmPublication s now z) = max (z_DNSKEYCacheHorizon z) (now + seconds (served_dnskey_ttl z)) \<and>
      z_RRSIGCacheHorizon (ConfirmPublication s now z) = max (z_RRSIGCacheHorizon z) (now + seconds (served_rrsig_ttl z)) \<and>
      z_PublishedGenerationSignedAt (ConfirmPublication s now z) = s \<and> z_PublishedAt (ConfirmPublication s now z) = now"
  using ConfirmPublication_accepted [of z s now] by (auto simp: ConfirmPublication_def not_less)

text \<open>
  Operation errors are scoped: recording or clearing the error of one operation shows it
  recorded or cleared and leaves what the zone reports for every other operation unchanged.
\<close>

theorem operation_errors_scoped:
  assumes "a \<in> {OpSigning, OpRollover, OpInit, OpDeployment, OpRegistrar}"
    and "b \<in> {OpSigning, OpRollover, OpInit, OpDeployment, OpRegistrar}"
  shows "HasOperationError a (SetOperationError b msg z) = (a = b \<or> HasOperationError a z) \<and>
    HasOperationError a (ClearOperationError b z) = (a \<noteq> b \<and> HasOperationError a z)"
  using HasOperationError_Set_other HasOperationError_Clear_other operation_names_colon_free assms
  by (cases "a = b") auto

theorem operation_errors_scoped_witness:
  "\<not> HasOperationError OpRollover (SetOperationError OpSigning ''no key'' zero_zone)"
  using operation_errors_scoped [of OpRollover OpSigning "''no key''" zero_zone]
  by (simp add: HasOperationError_def zero_zone_def OpRollover_def OpSigning_def)

section \<open>Configuration and key material\<close>

text \<open>
  The fallback parent DS TTL in seconds is the exact quotient of the configured duration,
  between one second and seven days, so the 32-bit conversion never wraps.
\<close>

theorem parent_ttl_exact:
  "uint (ParentDSTTLFallbackSeconds c) = ParentDSTTLFallback c div Second \<and>
   0 < ParentDSTTLFallback c div Second \<and> ParentDSTTLFallback c div Second \<le> 604800"
proof -
  have b: "0 \<le> ParentDSTTLFallback c div Second" "ParentDSTTLFallback c div Second \<le> 604800"
    using ParentDSTTLFallbackSeconds_eq by blast+
  have "Second \<le> ParentDSTTLFallback c" using ParentDSTTLFallback_policy [of c] by (simp add: MinParentDSTTL_def)
  then have "0 < ParentDSTTLFallback c div Second" by (simp add: Second_def pos_imp_zdiv_pos_iff)
  with b show ?thesis unfolding ParentDSTTLFallbackSeconds_eq(1) by (simp add: uint_word_of_int take_bit_int_eq_self)
qed

text \<open>
  C37. A name \<open>ValidateDomainName\<close> accepts is safe as a file name and as a DNS name: the live
  key base is the plain name inside the keys directory, and every label is between 1 and 63
  octets of a name of at most 253.
\<close>

theorem accepted_names_are_safe:
  assumes "ValidateDomainName d = Inr ()" and "kt \<in> {''ksk'', ''zsk''}"
  shows "liveBase cfg d kt = path_prefix (KeysDir cfg) @ d @ ''.'' @ kt \<and> CHR ''/'' \<notin> set (d @ ''.'' @ kt) \<and>
    length (trim_dot d) \<le> 253 \<and> list_all (\<lambda>l. l \<noteq> [] \<and> length l \<le> 63) (split_on (CHR ''.'') (trim_dot d))"
proof -
  have n: "key_names d kt" by (rule key_names_valid [OF assms])
  then have "CHR ''/'' \<notin> set (d @ ''.'' @ kt)" using assms(2) by (auto simp: key_names_def)
  moreover have "length (trim_dot d) \<le> 253" using ValidateDomainName_parts(6) [OF assms(1)] by (simp add: MaxZoneNameLength_def)
  ultimately show ?thesis
    using liveBase_plain [OF n, of cfg] ValidateDomainName_labels [OF assms(1)] by (simp add: live_name_def list_all_iff)
qed

theorem accepted_names_are_safe_witness: "liveBase sample_cfg ''a.b'' ''ksk'' = path_prefix (KeysDir sample_cfg) @ ''a.b.ksk''"
proof -
  have "ValidateDomainName ''a.b'' = Inr ()" by code_simp
  from accepted_names_are_safe [OF this, of "''ksk''" sample_cfg] show ?thesis by simp
qed

text \<open>
  Accepted signature timing is representable and leaves room to refresh: the whole
  window, backdating included, is below 2^31 seconds, and signatures are refreshed strictly
  before they expire.
\<close>

theorem accepted_timing_is_safe:
  assumes "ValidateSignatureTiming validity refresh poll = Inr ()"
  shows "0 < refresh \<and> refresh < validity \<and> validity \<le> MaxSignatureValidity \<and>
    (validity + SignatureInceptionBackdate) div Second < 2 ^ 31 \<and>
    (0 < poll \<and> poll < 2 ^ 62 \<longrightarrow> 2 * poll \<le> refresh)"
proof -
  have v: "0 < refresh" "refresh < validity" "validity \<le> MaxSignatureValidity"
    "\<not> (0 < poll \<and> refresh < wrap64 (RefreshPollFactor * poll))"
    using assms by (auto simp: ValidateSignatureTiming_def Let_def MinSignatureRefresh_def Minute_def Second_def split: if_splits)
  have "2 * poll \<le> refresh" if "0 < poll" "poll < 2 ^ 62"
  proof -
    have "wrap64 (2 * poll) = 2 * poll" using that by (intro wrap64_id) simp_all
    then show ?thesis using v(4) that by (simp add: RefreshPollFactor_def)
  qed
  moreover have "(validity + SignatureInceptionBackdate) div Second < 2 ^ 31"
    using v(3) by (simp add: MaxSignatureValidity_def SignatureInceptionBackdate_def Hour_def Minute_def Second_def)
  ultimately show ?thesis using v by blast
qed

theorem accepted_timing_is_safe_witness:
  "2 * Minute \<le> (72 * Hour :: int) \<and> ValidateSignatureTiming (336 * Hour) (72 * Hour) Minute = Inr ()"
proof -
  have "ValidateSignatureTiming (336 * Hour) (72 * Hour) Minute = Inr ()" by code_simp
  with accepted_timing_is_safe [OF this] show ?thesis by (simp add: Minute_def Hour_def Second_def)
qed



text \<open>
  A generated ED25519 or ECDSA key passes the signer's own correspondence check, given
  what the crypto packages document about their generators.
\<close>

theorem generated_keys_correspond:
  assumes "ed_law lib" and "ec_law lib" and "algorithm \<in> {''ED25519'', ''ECDSAP256SHA256'', ''ECDSAP384SHA384''}"
    and "generateDNSSECKey lib t domain algorithm flags = Inr (k, priv)"
  shows "VerifyKeyPairCorrespondence lib k priv = Inr ()"
  by (rule generated_corresponds [OF assms])

theorem generated_keys_correspond_witness:
  "VerifyKeyPairCorrespondence sample_lib sample_new (sample_seed (CHR ''z'') @ rev (sample_seed (CHR ''z''))) = Inr ()"
proof -
  have "ed_law sample_lib" "ec_law sample_lib" by (simp_all add: ed_law_def ec_law_def sample_lib_def sample_seed_def)
  from generated_keys_correspond [OF this _ sample_generates [of 0]] show ?thesis by simp
qed

end
